(* ===== verification/Json.thy ===== *)
theory Json
  imports Prelude Complex_Main "HOL-Library.Monad_Syntax"
begin

text \<open>
  JSON values as \<open>serde_json::Value\<close> has them. A number is an unsigned or negative 64-bit
  integer or a finite double (its real value); an object is an insertion ordered map
  (the build has serde_json's \<open>preserve_order\<close>), so an association list with distinct keys
  (\<open>wf_json\<close>) updated by \<open>AList.update\<close>.
\<close>

datatype jnumber = PosInt u64 | NegInt i64 | Float real

datatype json =
    JNull
  | JBool bool
  | JNumber jnumber
  | JString string
  | JArray "json list"
  | JObject "(string \<times> json) list"

type_synonym jobject = "(string \<times> json) list"

fun is_object :: "json \<Rightarrow> bool" where
  "is_object (JObject _) = True"
| "is_object _ = False"

fun is_array :: "json \<Rightarrow> bool" where
  "is_array (JArray _) = True"
| "is_array _ = False"

fun is_null :: "json \<Rightarrow> bool" where
  "is_null JNull = True"
| "is_null _ = False"

fun is_boolean :: "json \<Rightarrow> bool" where
  "is_boolean (JBool _) = True"
| "is_boolean _ = False"

fun is_string :: "json \<Rightarrow> bool" where
  "is_string (JString _) = True"
| "is_string _ = False"

fun is_number :: "json \<Rightarrow> bool" where
  "is_number (JNumber _) = True"
| "is_number _ = False"

fun is_f64 :: "json \<Rightarrow> bool" where
  "is_f64 (JNumber (Float _)) = True"
| "is_f64 _ = False"

fun is_u64 :: "json \<Rightarrow> bool" where
  "is_u64 (JNumber (PosInt _)) = True"
| "is_u64 _ = False"

fun is_i64 :: "json \<Rightarrow> bool" where
  "is_i64 (JNumber (PosInt n)) = (uint n < 2 ^ 63)"
| "is_i64 (JNumber (NegInt _)) = True"
| "is_i64 _ = False"

fun as_object :: "json \<Rightarrow> jobject option" where
  "as_object (JObject m) = Some m"
| "as_object _ = None"

fun as_str :: "json \<Rightarrow> string option" where
  "as_str (JString s) = Some s"
| "as_str _ = None"

fun as_array :: "json \<Rightarrow> json list option" where
  "as_array (JArray vs) = Some vs"
| "as_array _ = None"

text \<open>\<open>Value::get\<close> with a string key: objects only.\<close>

fun json_get :: "json \<Rightarrow> string \<Rightarrow> json option" where
  "json_get (JObject m) k = map_of m k"
| "json_get _ k = None"

lemma is_object_iff: "is_object v \<longleftrightarrow> (\<exists>m. v = JObject m)"
  by (cases v) simp_all

lemma is_null_iff: "is_null v \<longleftrightarrow> v = JNull"
  by (cases v) simp_all

text \<open>Objects have distinct keys, at every level.\<close>

fun wf_json :: "json \<Rightarrow> bool" where
  "wf_json (JArray vs) = (\<forall>v \<in> set vs. wf_json v)"
| "wf_json (JObject m) = (distinct_keys m \<and> (\<forall>v \<in> snd ` set m. wf_json v))"
| "wf_json _ = True"

text \<open>Every array below the value is empty (what generic flattening leaves).\<close>

fun arrays_empty :: "json \<Rightarrow> bool" where
  "arrays_empty (JArray vs) = (vs = [])"
| "arrays_empty (JObject m) = (\<forall>v \<in> snd ` set m. arrays_empty v)"
| "arrays_empty _ = True"

text \<open>A flat value: no object, and no object directly in an array.\<close>

definition flat_value :: "json \<Rightarrow> bool" where
  "flat_value v \<longleftrightarrow> \<not> is_object v \<and> (\<forall>vs. v = JArray vs \<longrightarrow> \<not> list_ex is_object vs)"

definition flat_object :: "jobject \<Rightarrow> bool" where
  "flat_object m \<longleftrightarrow> (\<forall>v \<in> snd ` set m. flat_value v)"

lemma flat_value_simps [simp]:
  "flat_value JNull" "flat_value (JBool b)" "flat_value (JNumber n)" "flat_value (JString s)"
  "\<not> flat_value (JObject m)"
  "flat_value (JArray vs) \<longleftrightarrow> (\<forall>v \<in> set vs. \<not> is_object v)"
  by (simp_all add: flat_value_def list_ex_iff)

lemma flat_object_simps [simp]:
  "flat_object []"
  "flat_object ((k, v) # m) \<longleftrightarrow> flat_value v \<and> flat_object m"
  "flat_object (m @ m') \<longleftrightarrow> flat_object m \<and> flat_object m'"
  by (auto simp: flat_object_def)

lemma flat_object_update: "flat_object m \<Longrightarrow> flat_value v \<Longrightarrow> flat_object (AList.update k v m)"
  by (induction m) auto

lemma flat_object_map_of: "flat_object m \<Longrightarrow> map_of m k = Some v \<Longrightarrow> flat_value v"
  by (force simp: flat_object_def dest: map_of_SomeD)

text \<open>Removing a key of an insertion ordered map moves the last entry into its place.\<close>

definition swap_remove :: "string \<Rightarrow> (string \<times> 'v) list \<Rightarrow> (string \<times> 'v) list" where
  "swap_remove k m =
     (if k \<in> fst ` set m then butlast (m[length (takeWhile (\<lambda>e. fst e \<noteq> k) m) := last m]) else m)"

lemma swap_remove_keys:
  assumes "distinct (map fst m)"
  shows "distinct (map fst (swap_remove k m)) \<and> fst ` set (swap_remove k m) = fst ` set m - {k} \<and>
    map_of (swap_remove k m) = (map_of m)(k := None)"
proof (cases "k \<in> fst ` set m")
  case False
  then have "map_of m k = None" by (simp add: map_of_eq_None_iff)
  with False assms show ?thesis by (auto simp: swap_remove_def fun_upd_idem)
next
  case True
  then obtain v where "(k, v) \<in> set m" by auto
  then obtain xs ys where m: "m = xs @ (k, v) # ys" by (meson split_list)
  with assms have k: "k \<notin> fst ` set xs" "k \<notin> fst ` set ys" by auto
  have "takeWhile (\<lambda>e. fst e \<noteq> k) m = xs" unfolding m
    by (subst takeWhile_append2) (use k(1) in force)+
  then have swap: "swap_remove k m = butlast (xs @ last m # ys)"
    using True unfolding swap_remove_def m by simp
  have xs_none: "map_of xs k = None" and ys_none: "map_of ys k = None" using k by (simp_all add: map_of_eq_None_iff)
  show ?thesis
  proof (cases ys rule: rev_cases)
    case Nil
    with swap m have "swap_remove k m = xs" by simp
    with m Nil assms k xs_none show ?thesis by (auto simp: map_add_def fun_eq_iff split: option.splits)
  next
    case (snoc zs z)
    with swap m have s: "swap_remove k m = xs @ z # zs" by (simp add: butlast_append)
    obtain c w where z: "z = (c, w)" by fastforce
    have d: "c \<noteq> k" "c \<notin> fst ` set xs" "c \<notin> fst ` set zs" "fst ` set xs \<inter> fst ` set zs = {}" "distinct (map fst xs)" "distinct (map fst zs)"
      using assms m snoc z k by auto
    have mof: "map_of (xs @ z # zs) x = ((map_of m)(k := None)) x" for x
    proof -
      have "map_of zs c = None" "map_of xs c = None" "map_of zs k = None"
        using d ys_none snoc by (auto simp: map_of_eq_None_iff)
      with d xs_none show ?thesis unfolding m snoc z
        by (auto simp: map_add_def fun_eq_iff split: option.splits if_splits)
    qed
    with s d m snoc z k assms show ?thesis by (auto simp: fun_eq_iff)
  qed
qed

end
