(* ===== verification/Chrono.thy ===== *)
theory Chrono
  imports Prelude
begin

text \<open>
  UTC timestamps and dates as the code uses them. A \<open>DateTime<Utc>\<close> is its number of
  nanoseconds since the Unix epoch, a \<open>NaiveDate\<close> its number of days since the epoch; both
  are unbounded here (chrono's own range is not modelled). UTC days have no leap seconds, so
  the clock fields are quotients and remainders. The textual form of a date is chrono's and
  stays a parameter wherever it is printed.
\<close>

type_synonym datetime = int
type_synonym date = int

definition nanos_per_second :: int where
  "nanos_per_second = 1000000000"

definition nanos_per_minute :: int where
  "nanos_per_minute = 60 * nanos_per_second"

definition nanos_per_hour :: int where
  "nanos_per_hour = 60 * nanos_per_minute"

definition nanos_per_day :: int where
  "nanos_per_day = 24 * nanos_per_hour"

lemmas nanos_defs =
  nanos_per_second_def nanos_per_minute_def nanos_per_hour_def nanos_per_day_def

text \<open>The whole minutes of a timestamp, and the clock fields read off them.\<close>

definition minutes_of :: "datetime \<Rightarrow> int" where
  "minutes_of t = t div nanos_per_minute"

definition date_naive :: "datetime \<Rightarrow> date" where
  "date_naive t = minutes_of t div 1440"

definition hour_of :: "datetime \<Rightarrow> nat" where
  "hour_of t = nat (minutes_of t mod 1440 div 60)"

definition minute_of :: "datetime \<Rightarrow> nat" where
  "minute_of t = nat (minutes_of t mod 60)"

definition second_of :: "datetime \<Rightarrow> nat" where
  "second_of t = nat (t mod nanos_per_minute div nanos_per_second)"

lemma clock_arith:
  "0 \<le> m mod 1440 div 60 \<and> m mod 1440 div 60 < 24 \<and> 0 \<le> m mod 60 \<and> m mod 60 < 60 \<and>
   m = m div 1440 * 1440 + m mod 1440 div 60 * 60 + m mod 60" for m :: int
proof -
  define r where "r = m mod 1440"
  have r: "0 \<le> r" "r < 1440" by (simp_all add: r_def)
  have m: "m = m div 1440 * 1440 + r" by (simp add: r_def)
  have "m mod 60 = r mod 60" unfolding r_def by (rule mod_mod_cancel [symmetric]) simp
  moreover have "r = r div 60 * 60 + r mod 60" by simp
  ultimately have "m = m div 1440 * 1440 + r div 60 * 60 + m mod 60" using m by linarith
  moreover have "0 \<le> r div 60" "r div 60 < 24" using r by auto
  ultimately show ?thesis unfolding r_def by simp
qed

lemma hour_less: "hour_of t < 24"
  using clock_arith [of "minutes_of t"] by (simp add: hour_of_def)

lemma minute_less: "minute_of t < 60"
  using clock_arith [of "minutes_of t"] by (simp add: minute_of_def)

text \<open>Time order is the lexicographic order of the fields down to the minute.\<close>

lemma minutes_of_fields:
  "minutes_of t = date_naive t * 1440 + int (hour_of t) * 60 + int (minute_of t)"
  using clock_arith [of "minutes_of t"] by (simp add: date_naive_def hour_of_def minute_of_def)

lemma date_naive_div: "date_naive t = t div nanos_per_day"
  by (simp add: date_naive_def minutes_of_def nanos_defs zdiv_zmult2_eq [symmetric])

lemma minutes_of_mono: "s \<le> t \<Longrightarrow> minutes_of s \<le> minutes_of t"
  by (simp add: minutes_of_def nanos_defs zdiv_mono1)

lemma date_naive_mono: "s \<le> t \<Longrightarrow> date_naive s \<le> date_naive t"
  by (simp add: date_naive_def minutes_of_mono zdiv_mono1)

lemma fields_le:
  assumes "s \<le> t"
  shows "date_naive s < date_naive t \<or>
    (date_naive s = date_naive t \<and>
     (hour_of s < hour_of t \<or> (hour_of s = hour_of t \<and> minute_of s \<le> minute_of t)))"
  using minutes_of_mono [OF assms] hour_less [of s] hour_less [of t] minute_less [of s]
    minute_less [of t]
  unfolding minutes_of_fields by linarith

lemma same_minute_second:
  assumes "s < t" and "minutes_of s = minutes_of t" and "t mod nanos_per_second = 0"
  shows "0 < second_of t"
proof -
  let ?m = nanos_per_minute
  have "s div ?m = t div ?m" using assms(2) by (simp add: minutes_of_def)
  moreover have "s = ?m * (s div ?m) + s mod ?m" "t = ?m * (t div ?m) + t mod ?m" by simp_all
  ultimately have split: "s = ?m * (t div ?m) + s mod ?m" "t = ?m * (t div ?m) + t mod ?m" by metis+
  have "0 \<le> s mod ?m" by (simp add: nanos_defs)
  moreover have "s mod ?m < t mod ?m" using assms(1) split by linarith
  ultimately have pos: "0 < t mod ?m" by linarith
  have "t mod ?m mod nanos_per_second = 0"
    using assms(3) by (simp add: nanos_defs mod_mod_cancel)
  then have "nanos_per_second dvd t mod ?m" by (simp add: dvd_eq_mod_eq_0)
  with pos have "nanos_per_second \<le> t mod ?m" by (rule zdvd_imp_le [rotated])
  then have "nanos_per_second div nanos_per_second \<le> t mod ?m div nanos_per_second"
    by (intro zdiv_mono1) (simp_all add: nanos_defs)
  then show ?thesis by (simp add: second_of_def nanos_per_second_def)
qed

end
