(* ===== verification/Flatten.thy ===== *)
theory Flatten
  imports Json Chrono
begin

text \<open>
  \<open>src/utils/json/flatten.rs\<close>: the flattening of one JSON event.
\<close>

datatype flatten_error =
    CannotFlatten
  | FieldNotPartOfLog string
  | FieldEmptyOrNull string
  | FieldIsObject string
  | FieldIsArray string
  | FieldContainsPeriod string
  | FieldNotString string
  | InvalidDatetimeFormat string
  | TimestampTooOld string int int
  | TimestampTooOldRelative string int int int
  | ExpectedObjectInArray
  | NonObjectInArray

section \<open>Flattening objects\<close>

type_synonym columns = "(string \<times> json list) list"

text \<open>One row's cell: append to the column, or open it with \<open>index\<close> nulls before the cell.
  The columns are a \<open>BTreeMap\<close>: a list sorted by key.\<close>

fun push_cell :: "nat \<Rightarrow> string \<Rightarrow> json \<Rightarrow> columns \<Rightarrow> columns" where
  "push_cell index k v [] = [(k, replicate index JNull @ [v])]"
| "push_cell index k v ((k', col) # cols) =
     (if k = k' then (k', col @ [v]) # cols
      else if k < k' then (k, replicate index JNull @ [v]) # (k', col) # cols
      else (k', col) # push_cell index k v cols)"

definition push_row :: "nat \<Rightarrow> jobject \<Rightarrow> columns \<Rightarrow> columns" where
  "push_row index m cols = fold (\<lambda>(k, v). push_cell index k v) m cols"

definition push_nulls :: "columns \<Rightarrow> columns" where
  "push_nulls cols = map (\<lambda>(k, col). (k, col @ [JNull])) cols"

definition pad_columns :: "nat \<Rightarrow> columns \<Rightarrow> columns" where
  "pad_columns n cols = map (\<lambda>(k, col). (k, col @ replicate (n - length col) JNull)) cols"

definition insert_columns :: "columns \<Rightarrow> jobject \<Rightarrow> jobject" where
  "insert_columns cols out = fold (\<lambda>(k, col). AList.update k (JArray col)) cols out"

definition join_key :: "string \<Rightarrow> string option \<Rightarrow> string \<Rightarrow> string" where
  "join_key sep parent key = (case parent of Some p \<Rightarrow> p @ sep @ key | None \<Rightarrow> key)"

fun flatten_object :: "string \<Rightarrow> jobject \<Rightarrow> string option \<Rightarrow> jobject \<Rightarrow> flatten_error + jobject"
  and flatten_array_objects :: "string \<Rightarrow> jobject \<Rightarrow> string \<Rightarrow> json list \<Rightarrow> flatten_error + jobject"
  and array_columns :: "string \<Rightarrow> string \<Rightarrow> nat \<Rightarrow> columns \<Rightarrow> json list \<Rightarrow> flatten_error + columns"
where
  "flatten_object sep out parent [] = Inr out"
| "flatten_object sep out parent ((key, v) # rest) =
     bind_result
       (case v of
          JObject obj \<Rightarrow> flatten_object sep out (Some (join_key sep parent key)) obj
        | JArray arr \<Rightarrow>
            if list_ex is_object arr
            then flatten_array_objects sep out (join_key sep parent key) arr
            else Inr (AList.update (join_key sep parent key) v out)
        | _ \<Rightarrow> Inr (AList.update (join_key sep parent key) v out))
       (\<lambda>out'. flatten_object sep out' parent rest)"
| "flatten_array_objects sep out parent arr =
     bind_result (array_columns sep parent 0 [] arr) (\<lambda>cols. Inr (insert_columns cols out))"
| "array_columns sep parent index cols [] = Inr cols"
| "array_columns sep parent index cols (v # vs) =
     bind_result
       (case v of
          JObject obj \<Rightarrow>
            bind_result (flatten_object sep [] (Some parent) obj)
              (\<lambda>m. Inr (push_row index m cols))
        | JNull \<Rightarrow> Inr (push_nulls cols)
        | _ \<Rightarrow> Inl NonObjectInArray)
       (\<lambda>cols'. array_columns sep parent (Suc index) (pad_columns (Suc index) cols') vs)"


subsection \<open>Columns\<close>

abbreviation sorted_keys :: "('k::linorder \<times> 'v) list \<Rightarrow> bool" where
  "sorted_keys m \<equiv> sorted_wrt (<) (map fst m)"

definition column_base :: "nat \<Rightarrow> columns \<Rightarrow> string \<Rightarrow> json list" where
  "column_base index cols k =
     (case map_of cols k of Some col \<Rightarrow> col | None \<Rightarrow> replicate index JNull)"

lemma sorted_keys_less_None: "sorted_keys ((k', c) # cols) \<Longrightarrow> k < k' \<Longrightarrow> map_of cols k = None"
  by (force simp: map_of_eq_None_iff)

lemma set_push_cell: "fst ` set (push_cell index k v cols) = insert k (fst ` set cols)"
  by (induction index k v cols rule: push_cell.induct) auto

lemma sorted_push_cell: "sorted_keys cols \<Longrightarrow> sorted_keys (push_cell index k v cols)"
proof (induction index k v cols rule: push_cell.induct)
  case (1 index k v)
  show ?case by simp
next
  case (2 index k v k' col cols)
  have keys: "set (map fst (push_cell index k v cols)) = insert k (fst ` set cols)"
    using set_push_cell by simp
  show ?case
  proof (cases k k' rule: linorder_cases)
    case less
    moreover from "2.prems" have "\<forall>x \<in> set (map fst cols). k' < x" by simp
    ultimately have "\<forall>x \<in> set (map fst cols). k < x" using less_trans by blast
    with less "2.prems" show ?thesis by simp
  next
    case equal
    with "2.prems" show ?thesis by simp
  next
    case greater
    then have ne: "k \<noteq> k'" "\<not> k < k'" by auto
    from "2.prems" have "sorted_keys cols" by simp
    with "2.IH" [OF ne] have "sorted_keys (push_cell index k v cols)" .
    with "2.prems" greater ne keys show ?thesis by simp
  qed
qed

lemma map_of_push_cell:
  "sorted_keys cols \<Longrightarrow>
   map_of (push_cell index k v cols) = (map_of cols)(k \<mapsto> column_base index cols k @ [v])"
proof (induction index k v cols rule: push_cell.induct)
  case (1 index k v)
  show ?case by (simp add: column_base_def)
next
  case (2 index k v k' col cols)
  show ?case
  proof (cases k k' rule: linorder_cases)
    case less
    then have "map_of cols k = None" by (rule sorted_keys_less_None [OF "2.prems"])
    with less show ?thesis by (auto simp: column_base_def)
  next
    case equal
    then show ?thesis by (auto simp: column_base_def)
  next
    case greater
    then have ne: "k \<noteq> k'" "\<not> k < k'" by auto
    from "2.prems" have "sorted_keys cols" by simp
    with "2.IH" [OF ne]
    have "map_of (push_cell index k v cols) = (map_of cols)(k \<mapsto> column_base index cols k @ [v])" .
    with ne show ?thesis by (auto simp: column_base_def fun_eq_iff)
  qed
qed

lemma sorted_push_row: "sorted_keys cols \<Longrightarrow> sorted_keys (push_row index m cols)"
  by (induction m arbitrary: cols) (auto simp: push_row_def sorted_push_cell)

lemma map_of_push_row:
  "sorted_keys cols \<Longrightarrow> distinct_keys m \<Longrightarrow>
   map_of (push_row index m cols) k =
     (case map_of m k of None \<Rightarrow> map_of cols k
      | Some v \<Rightarrow> Some (column_base index cols k @ [v]))"
proof (induction m arbitrary: cols)
  case Nil
  show ?case by (simp add: push_row_def)
next
  case (Cons kv m)
  obtain k' v' where kv: "kv = (k', v')" by (cases kv)
  let ?cols = "push_cell index k' v' cols"
  have step: "push_row index ((k', v') # m) cols = push_row index m ?cols"
    by (simp add: push_row_def)
  have "map_of (push_row index m ?cols) k =
     (case map_of m k of None \<Rightarrow> map_of ?cols k
      | Some v \<Rightarrow> Some (column_base index ?cols k @ [v]))"
    using Cons.prems sorted_push_cell by (intro Cons.IH) auto
  moreover have "map_of m k' = None"
    using Cons.prems(2) kv by (auto simp: map_of_eq_None_iff)
  ultimately show ?case
    using Cons.prems(1) by (auto simp: kv step map_of_push_cell column_base_def split: option.splits)
qed

lemma map_of_push_nulls:
  "map_of (push_nulls cols) k = map_option (\<lambda>c. c @ [JNull]) (map_of cols k)"
  by (induction cols) (auto simp: push_nulls_def)

lemma map_of_pad_columns:
  "map_of (pad_columns n cols) k =
     map_option (\<lambda>c. c @ replicate (n - length c) JNull) (map_of cols k)"
  by (induction cols) (auto simp: pad_columns_def)

lemma keys_push_nulls [simp]: "map fst (push_nulls cols) = map fst cols"
  by (auto simp: push_nulls_def)

lemma keys_pad_columns [simp]: "map fst (pad_columns n cols) = map fst cols"
  by (auto simp: pad_columns_def)

text \<open>All columns have one length: \<open>aligned\<close>.\<close>

definition aligned :: "nat \<Rightarrow> columns \<Rightarrow> bool" where
  "aligned n cols \<longleftrightarrow> (\<forall>k col. map_of cols k = Some col \<longrightarrow> length col = n)"

lemma aligned_Nil [simp]: "aligned n []"
  by (simp add: aligned_def)

lemma length_column_base: "aligned n cols \<Longrightarrow> length (column_base n cols k) = n"
  by (auto simp: aligned_def column_base_def split: option.splits)

lemma aligned_column_eq: "aligned n cols \<Longrightarrow> map_of cols k = Some c \<Longrightarrow> c = column_base n cols k \<and> length c = n"
  by (auto simp: aligned_def column_base_def)

definition row_map :: "nat \<Rightarrow> columns \<Rightarrow> (string \<rightharpoonup> json) \<Rightarrow> string \<rightharpoonup> json list" where
  "row_map n cols r k =
     (if map_of cols k = None \<and> r k = None then None
      else Some (column_base n cols k @ [case r k of Some v \<Rightarrow> v | None \<Rightarrow> JNull]))"

lemma pad_push_row:
  assumes "sorted_keys cols" and "distinct_keys m" and "aligned n cols"
  shows "map_of (pad_columns (Suc n) (push_row n m cols)) = row_map n cols (map_of m)"
proof
  fix k
  show "map_of (pad_columns (Suc n) (push_row n m cols)) k = row_map n cols (map_of m) k"
    using aligned_column_eq [OF assms(3)] length_column_base [OF assms(3)]
    by (auto simp: map_of_pad_columns map_of_push_row [OF assms(1,2)] row_map_def split: option.splits)
qed

lemma pad_push_nulls:
  assumes "aligned n cols"
  shows "map_of (pad_columns (Suc n) (push_nulls cols)) = row_map n cols Map.empty"
proof
  fix k
  show "map_of (pad_columns (Suc n) (push_nulls cols)) k = row_map n cols Map.empty k"
    using aligned_column_eq [OF assms]
    by (auto simp: map_of_pad_columns map_of_push_nulls row_map_def split: option.splits)
qed

lemma aligned_row_map: "aligned n cols \<Longrightarrow> map_of cols' = row_map n cols r \<Longrightarrow> aligned (Suc n) cols'"
  using length_column_base by (auto simp: aligned_def row_map_def split: if_splits)

lemma column_base_row_map:
  "map_of cols' = row_map n cols r \<Longrightarrow>
   column_base (Suc n) cols' k = column_base n cols k @ [case r k of Some v \<Rightarrow> v | None \<Rightarrow> JNull]"
  by (auto simp: column_base_def row_map_def replicate_append_same split: option.splits)


subsection \<open>When flattening fails\<close>

text \<open>An array that holds an object and also a value that is neither an object nor null.\<close>

fun mixed_object :: "jobject \<Rightarrow> bool"
  and mixed_array :: "json list \<Rightarrow> bool"
where
  "mixed_object [] = False"
| "mixed_object ((key, v) # rest) =
     ((case v of
         JObject obj \<Rightarrow> mixed_object obj
       | JArray arr \<Rightarrow> list_ex is_object arr \<and> mixed_array arr
       | _ \<Rightarrow> False) \<or> mixed_object rest)"
| "mixed_array [] = False"
| "mixed_array (v # vs) =
     ((case v of JObject obj \<Rightarrow> mixed_object obj | JNull \<Rightarrow> False | _ \<Rightarrow> True) \<or> mixed_array vs)"


text \<open>
  The recursion of \<open>mixed_object\<close> is that of \<open>flatten_object\<close> without its accumulators:
  its induction rule carries the proofs about flattening.
\<close>

lemmas json_tree_induct = mixed_object_mixed_array.induct

lemma flatten_leaf:
  "flat_value v \<Longrightarrow> flatten_object sep out parent ((key, v) # rest) =
   flatten_object sep (AList.update (join_key sep parent key) v out) parent rest"
  by (cases v) (auto simp: list_ex_iff)

lemma mixed_leaf: "flat_value v \<Longrightarrow> mixed_object ((key, v) # rest) = mixed_object rest"
  by (cases v) (auto simp: list_ex_iff)

lemma field_cases:
  obtains (leaf) "flat_value v" | (obj) m where "v = JObject m"
    | (arr) vs where "v = JArray vs" "list_ex is_object vs"
  by (cases v) (auto simp: list_ex_iff)

lemma flatten_error_iff:
  "(flatten_object sep out parent m = Inl e) = (e = NonObjectInArray \<and> mixed_object m)"
  "(array_columns sep p index cols arr = Inl e) = (e = NonObjectInArray \<and> mixed_array arr)"
proof (induction m and arr arbitrary: sep out parent e and sep p index cols e
    rule: json_tree_induct)
  case (2 key v rest)
  show ?case
  proof (cases v rule: field_cases)
    case leaf
    with 2(3) show ?thesis
      by (simp add: flatten_leaf mixed_leaf del: flatten_object.simps mixed_object.simps)
  next
    case (obj m)
    with 2(2) [OF obj, of sep out "Some (join_key sep parent key)"] 2(3) show ?thesis
      by (cases "flatten_object sep out (Some (join_key sep parent key)) m") auto
  next
    case (arr vs)
    with 2(1) [OF arr(1), of sep "join_key sep parent key" 0 "[]"] 2(3) show ?thesis
      by (cases "array_columns sep (join_key sep parent key) 0 [] vs") auto
  qed
next
  case (4 v vs)
  show ?case
  proof (cases v)
    case (JObject m)
    with 4(1) [OF JObject, of sep "[]" "Some p"] 4(2) show ?thesis
      by (cases "flatten_object sep [] (Some p) m") auto
  qed (use 4 in \<open>auto simp: bind_result_eq_Inl\<close>)
qed simp_all

subsection \<open>What flattening leaves\<close>

lemma insert_columns_simps [simp]:
  "insert_columns [] out = out"
  "insert_columns ((k, col) # cols) out = insert_columns cols (AList.update k (JArray col) out)"
  by (simp_all add: insert_columns_def)

lemma distinct_insert_columns: "distinct_keys out \<Longrightarrow> distinct_keys (insert_columns cols out)"
  by (induction cols arbitrary: out) (auto simp: distinct_update)

lemma distinct_sorted_flatten:
  "distinct_keys out \<Longrightarrow> flatten_object sep out parent m = Inr out' \<Longrightarrow> distinct_keys out'"
  "sorted_keys cols \<Longrightarrow> array_columns sep p index cols arr = Inr cols' \<Longrightarrow> sorted_keys cols'"
proof (induction m and arr arbitrary: sep out parent out' and sep p index cols cols'
    rule: json_tree_induct)
  case (2 key v rest)
  show ?case
  proof (cases v rule: field_cases)
    case leaf
    with 2(3) [of "AList.update (join_key sep parent key) v out"] 2(4,5) show ?thesis
      by (simp add: flatten_leaf distinct_update del: flatten_object.simps)
  next
    case (obj m)
    with 2(5) obtain mid
      where mid: "flatten_object sep out (Some (join_key sep parent key)) m = Inr mid"
        "flatten_object sep mid parent rest = Inr out'" by auto
    have "distinct_keys mid" by (rule 2(2) [OF obj 2(4) mid(1)])
    then show ?thesis using mid(2) by (rule 2(3))
  next
    case (arr vs)
    with 2(5) obtain cols
      where cols: "array_columns sep (join_key sep parent key) 0 [] vs = Inr cols"
        "flatten_object sep (insert_columns cols out) parent rest = Inr out'" by auto
    have "distinct_keys (insert_columns cols out)"
      using 2(4) by (rule distinct_insert_columns)
    then show ?thesis using cols(2) by (rule 2(3))
  qed
next
  case (4 v vs)
  show ?case
  proof (cases v)
    case (JObject m)
    with 4(4) obtain r where r: "flatten_object sep [] (Some p) m = Inr r"
      "array_columns sep p (Suc index) (pad_columns (Suc index) (push_row index r cols)) vs = Inr cols'"
      by auto
    from 4(3) have "sorted_keys (pad_columns (Suc index) (push_row index r cols))"
      by (simp add: sorted_push_row)
    then show ?thesis using r(2) by (rule 4(2))
  next
    case JNull
    with 4(4) have eq: "array_columns sep p (Suc index)
      (pad_columns (Suc index) (push_nulls cols)) vs = Inr cols'" by simp
    from 4(3) have "sorted_keys (pad_columns (Suc index) (push_nulls cols))" by simp
    then show ?thesis using eq by (rule 4(2))
  qed (use 4(4) in simp_all)
qed simp_all

definition cells_no_object :: "columns \<Rightarrow> bool" where
  "cells_no_object cols \<longleftrightarrow> (\<forall>col \<in> snd ` set cols. \<forall>v \<in> set col. \<not> is_object v)"

lemma cells_no_object_simps [simp]:
  "cells_no_object []"
  "cells_no_object ((k, col) # cols) \<longleftrightarrow> (\<forall>v \<in> set col. \<not> is_object v) \<and> cells_no_object cols"
  by (auto simp: cells_no_object_def)

lemma cells_push_cell:
  "cells_no_object cols \<Longrightarrow> \<not> is_object v \<Longrightarrow> cells_no_object (push_cell index k v cols)"
  by (induction index k v cols rule: push_cell.induct) auto

lemma cells_push_row:
  "cells_no_object cols \<Longrightarrow> flat_object m \<Longrightarrow> cells_no_object (push_row index m cols)"
  by (induction m arbitrary: cols) (auto simp: push_row_def cells_push_cell flat_value_def)

lemma cells_push_nulls: "cells_no_object cols \<Longrightarrow> cells_no_object (push_nulls cols)"
  by (induction cols) (auto simp: push_nulls_def)

lemma cells_pad_columns: "cells_no_object cols \<Longrightarrow> cells_no_object (pad_columns n cols)"
  by (induction cols) (auto simp: pad_columns_def)

lemma flat_insert_columns:
  "flat_object out \<Longrightarrow> cells_no_object cols \<Longrightarrow> flat_object (insert_columns cols out)"
  by (induction cols arbitrary: out) (auto simp: flat_object_update)

lemma flat_flatten:
  "flat_object out \<Longrightarrow> flatten_object sep out parent m = Inr out' \<Longrightarrow> flat_object out'"
  "cells_no_object cols \<Longrightarrow> array_columns sep p index cols arr = Inr cols' \<Longrightarrow> cells_no_object cols'"
proof (induction m and arr arbitrary: sep out parent out' and sep p index cols cols'
    rule: json_tree_induct)
  case (2 key v rest)
  show ?case
  proof (cases v rule: field_cases)
    case leaf
    with 2(3) [of "AList.update (join_key sep parent key) v out"] 2(4,5) show ?thesis
      by (simp add: flatten_leaf flat_object_update del: flatten_object.simps)
  next
    case (obj m)
    with 2(5) obtain mid
      where mid: "flatten_object sep out (Some (join_key sep parent key)) m = Inr mid"
        "flatten_object sep mid parent rest = Inr out'" by auto
    have "flat_object mid" by (rule 2(2) [OF obj 2(4) mid(1)])
    then show ?thesis using mid(2) by (rule 2(3))
  next
    case (arr vs)
    with 2(5) obtain cols
      where cols: "array_columns sep (join_key sep parent key) 0 [] vs = Inr cols"
        "flatten_object sep (insert_columns cols out) parent rest = Inr out'" by auto
    have "cells_no_object cols" using 2(1) [OF arr(1) _ cols(1)] by simp
    with 2(4) have "flat_object (insert_columns cols out)" by (rule flat_insert_columns)
    then show ?thesis using cols(2) by (rule 2(3))
  qed
next
  case (4 v vs)
  show ?case
  proof (cases v)
    case (JObject m)
    with 4(4) obtain r where r: "flatten_object sep [] (Some p) m = Inr r"
      "array_columns sep p (Suc index) (pad_columns (Suc index) (push_row index r cols)) vs = Inr cols'"
      by auto
    have "flat_object r" using 4(1) [OF JObject _ r(1)] by simp
    with 4(3) have "cells_no_object (pad_columns (Suc index) (push_row index r cols))"
      by (simp add: cells_push_row cells_pad_columns)
    then show ?thesis using r(2) by (rule 4(2))
  next
    case JNull
    with 4(4) have eq: "array_columns sep p (Suc index)
      (pad_columns (Suc index) (push_nulls cols)) vs = Inr cols'" by simp
    from 4(3) have "cells_no_object (pad_columns (Suc index) (push_nulls cols))"
      by (simp add: cells_push_nulls cells_pad_columns)
    then show ?thesis using eq by (rule 4(2))
  qed (use 4(4) in simp_all)
qed simp_all

subsection \<open>Which keys flattening produces\<close>

text \<open>The joined paths of the leaves: what the keys of the output have to be.\<close>

fun leaf_keys :: "string \<Rightarrow> string option \<Rightarrow> jobject \<Rightarrow> string set"
  and array_keys :: "string \<Rightarrow> string \<Rightarrow> json list \<Rightarrow> string set"
where
  "leaf_keys sep parent [] = {}"
| "leaf_keys sep parent ((key, v) # rest) =
     (case v of
        JObject obj \<Rightarrow> leaf_keys sep (Some (join_key sep parent key)) obj
      | JArray arr \<Rightarrow>
          if list_ex is_object arr then array_keys sep (join_key sep parent key) arr
          else {join_key sep parent key}
      | _ \<Rightarrow> {join_key sep parent key}) \<union> leaf_keys sep parent rest"
| "array_keys sep p [] = {}"
| "array_keys sep p (v # vs) =
     (case v of JObject obj \<Rightarrow> leaf_keys sep (Some p) obj | _ \<Rightarrow> {}) \<union> array_keys sep p vs"

lemma leaf_keys_leaf:
  "flat_value v \<Longrightarrow> leaf_keys sep parent ((key, v) # rest) =
   insert (join_key sep parent key) (leaf_keys sep parent rest)"
  by (cases v) (auto simp: list_ex_iff)

lemma keys_insert_columns:
  "fst ` set (insert_columns cols out) = fst ` set out \<union> fst ` set cols"
proof (induction cols arbitrary: out)
  case Nil
  show ?case by simp
next
  case (Cons c cols)
  then show ?case by (cases c) simp
qed

lemma keys_push_row: "fst ` set (push_row index m cols) = fst ` set m \<union> fst ` set cols"
proof (induction m arbitrary: cols)
  case Nil
  show ?case by (simp add: push_row_def)
next
  case (Cons kv m)
  then show ?case by (cases kv) (simp add: push_row_def set_push_cell)
qed

lemma fst_set_pad [simp]: "fst ` set (pad_columns n cols) = fst ` set cols"
  by (metis keys_pad_columns set_map)

lemma fst_set_nulls [simp]: "fst ` set (push_nulls cols) = fst ` set cols"
  by (metis keys_push_nulls set_map)

lemma keys_flatten:
  "flatten_object sep out parent m = Inr out' \<Longrightarrow>
   fst ` set out' = fst ` set out \<union> leaf_keys sep parent m"
  "array_columns sep p index cols arr = Inr cols' \<Longrightarrow>
   fst ` set cols' = fst ` set cols \<union> array_keys sep p arr"
proof (induction m and arr arbitrary: sep out parent out' and sep p index cols cols'
    rule: json_tree_induct)
  case (2 key v rest)
  let ?k = "join_key sep parent key"
  show ?case
  proof (cases v rule: field_cases)
    case leaf
    with 2(4) have "flatten_object sep (AList.update ?k v out) parent rest = Inr out'"
      by (simp add: flatten_leaf del: flatten_object.simps)
    from 2(3) [OF this] leaf show ?thesis
      by (simp add: leaf_keys_leaf del: leaf_keys.simps)
  next
    case (obj m)
    with 2(4) obtain mid where mid: "flatten_object sep out (Some ?k) m = Inr mid"
      "flatten_object sep mid parent rest = Inr out'" by auto
    from 2(2) [OF obj mid(1)] 2(3) [OF mid(2)] obj show ?thesis by (simp add: Un_assoc)
  next
    case (arr vs)
    with 2(4) obtain cols where cols: "array_columns sep ?k 0 [] vs = Inr cols"
      "flatten_object sep (insert_columns cols out) parent rest = Inr out'" by auto
    from 2(1) [OF arr(1) cols(1)] 2(3) [OF cols(2)] arr show ?thesis
      by (simp add: keys_insert_columns Un_assoc)
  qed
next
  case (4 v vs)
  show ?case
  proof (cases v)
    case (JObject m)
    with 4(3) obtain r where r: "flatten_object sep [] (Some p) m = Inr r"
      "array_columns sep p (Suc index) (pad_columns (Suc index) (push_row index r cols)) vs = Inr cols'"
      by auto
    from 4(1) [OF JObject r(1)] 4(2) [OF r(2)] JObject show ?thesis
      by (auto simp: keys_push_row)
  next
    case JNull
    with 4(3) have "array_columns sep p (Suc index)
      (pad_columns (Suc index) (push_nulls cols)) vs = Inr cols'" by simp
    from 4(2) [OF this] JNull show ?thesis by simp
  qed (use 4(3) in simp_all)
qed simp_all

subsection \<open>The columns of an array of objects\<close>

text \<open>The cell of a row in the column \<open>k\<close>: the flattened row's value there, else null.\<close>

definition row_cell :: "string \<Rightarrow> string \<Rightarrow> string \<Rightarrow> json \<Rightarrow> json" where
  "row_cell sep p k v =
     (case v of
        JObject m \<Rightarrow>
          (case flatten_object sep [] (Some p) m of
             Inr r \<Rightarrow> (case map_of r k of Some c \<Rightarrow> c | None \<Rightarrow> JNull)
           | Inl _ \<Rightarrow> JNull)
      | _ \<Rightarrow> JNull)"

lemma map_of_None_keys: "map_of m k = None \<longleftrightarrow> k \<notin> fst ` set m"
  by (simp add: map_of_eq_None_iff)

lemma array_columns_spec:
  assumes "array_columns sep p index cols arr = Inr cols'"
    and "sorted_keys cols" and "aligned index cols"
  shows "map_of cols' k =
    (if map_of cols k = None \<and> k \<notin> array_keys sep p arr then None
     else Some (column_base index cols k @ map (row_cell sep p k) arr))"
  using assms
proof (induction arr arbitrary: index cols)
  case Nil
  then show ?case by (auto simp: column_base_def split: option.splits)
next
  case (Cons v vs)
  have step: ?case
    if nxt: "array_columns sep p (Suc index) mid vs = Inr cols'" and "sorted_keys mid"
      and mid: "map_of mid = row_map index cols r"
      and cell: "row_cell sep p k v = (case r k of Some c \<Rightarrow> c | None \<Rightarrow> JNull)"
      and dom: "array_keys sep p (v # vs) = dom r \<union> array_keys sep p vs" for mid r
  proof -
    have "aligned (Suc index) mid" using aligned_row_map [OF Cons.prems(3) mid] .
    from Cons.IH [OF nxt \<open>sorted_keys mid\<close> this] dom show ?thesis
      by (auto simp: column_base_row_map [OF mid] cell mid row_map_def split: if_splits)
  qed
  show ?case
  proof (cases v)
    case (JObject m)
    with Cons.prems(1) obtain r where r: "flatten_object sep [] (Some p) m = Inr r"
      "array_columns sep p (Suc index) (pad_columns (Suc index) (push_row index r cols)) vs = Inr cols'"
      by auto
    have "distinct_keys r" using distinct_sorted_flatten(1) [OF _ r(1)] by simp
    then have "map_of (pad_columns (Suc index) (push_row index r cols)) = row_map index cols (map_of r)"
      using Cons.prems by (intro pad_push_row)
    moreover have "dom (map_of r) = leaf_keys sep (Some p) m"
      using keys_flatten(1) [OF r(1)] by (simp add: dom_map_of_conv_image_fst)
    moreover have "sorted_keys (pad_columns (Suc index) (push_row index r cols))"
      using Cons.prems(2) by (simp add: sorted_push_row)
    ultimately show ?thesis
      using JObject r(1) by (intro step [OF r(2), of "map_of r"]) (auto simp: row_cell_def)
  next
    case JNull
    with Cons.prems(1) have nxt: "array_columns sep p (Suc index)
      (pad_columns (Suc index) (push_nulls cols)) vs = Inr cols'" by simp
    have "sorted_keys (pad_columns (Suc index) (push_nulls cols))"
      using Cons.prems(2) by simp
    then show ?thesis
      using pad_push_nulls [OF Cons.prems(3)] JNull
      by (intro step [OF nxt, of Map.empty]) (auto simp: row_cell_def)
  qed (use Cons.prems(1) in simp_all)
qed

section \<open>Validation of the partition fields\<close>

text \<open>
  What validation reads from outside: chrono's datetime parser (a timestamp is its
  nanoseconds since the Unix epoch), the clock, and the options
  \<open>event_max_chunk_age\<close> and \<open>event_flatten_level\<close>.
\<close>

record flatten_env =
  parse_datetime :: "string \<Rightarrow> int option"
  utc_now :: int
  event_max_chunk_age :: nat
  event_flatten_level :: nat

definition check_custom_field :: "string \<Rightarrow> json option \<Rightarrow> flatten_error option" where
  "check_custom_field f v =
     (case v of
        None \<Rightarrow> Some (FieldNotPartOfLog f)
      | Some JNull \<Rightarrow> Some (FieldEmptyOrNull f)
      | Some (JString s) \<Rightarrow>
          if s = [] then Some (FieldEmptyOrNull f)
          else if CHR ''.'' \<in> set s then Some (FieldContainsPeriod f) else None
      | Some (JObject _) \<Rightarrow> Some (FieldIsObject f)
      | Some (JArray _) \<Rightarrow> Some (FieldIsArray f)
      | Some (JNumber (Float _)) \<Rightarrow> Some (FieldContainsPeriod f)
      | Some _ \<Rightarrow> None)"

fun check_custom_fields :: "jobject \<Rightarrow> string list \<Rightarrow> flatten_error + unit" where
  "check_custom_fields m [] = Inr ()"
| "check_custom_fields m (fld # fs) =
     (let trimmed_field = trim fld in
      case check_custom_field trimmed_field (map_of m trimmed_field) of
        Some e \<Rightarrow> Inl e
      | None \<Rightarrow> check_custom_fields m fs)"

definition validate_custom_partition :: "jobject \<Rightarrow> string option \<Rightarrow> flatten_error + unit" where
  "validate_custom_partition m custom_partition =
     (case custom_partition of
        None \<Rightarrow> Inr ()
      | Some cp \<Rightarrow> check_custom_fields m (split_on CHR '','' cp))"

text \<open>The global \<open>REFERENCE_TIMESTAMP\<close> is passed in and returned.\<close>

definition validate_time_partition ::
  "flatten_env \<Rightarrow> jobject \<Rightarrow> string option \<Rightarrow> nat option \<Rightarrow> int option
   \<Rightarrow> int option \<times> (flatten_error + unit)" where
  "validate_time_partition env m time_partition time_partition_limit reference =
     (case time_partition of
        None \<Rightarrow> (reference, Inr ())
      | Some partition_key \<Rightarrow>
          let limit_days = (case time_partition_limit of None \<Rightarrow> 30 | Some days \<Rightarrow> int days) in
          (case map_of m partition_key of
             None \<Rightarrow> (reference, Inl (FieldNotPartOfLog partition_key))
           | Some (JString s) \<Rightarrow>
               (case parse_datetime env s of
                  None \<Rightarrow> (reference, Inl (InvalidDatetimeFormat partition_key))
                | Some parsed \<Rightarrow>
                    (case reference of
                       None \<Rightarrow>
                         if parsed \<ge> utc_now env - limit_days * nanos_per_day
                         then (Some parsed, Inr ())
                         else (reference, Inl (TimestampTooOld partition_key limit_days parsed))
                     | Some ref \<Rightarrow>
                         let max_age_hours = int (event_max_chunk_age env) in
                         if parsed \<ge> ref - max_age_hours * nanos_per_hour
                         then (reference, Inr ())
                         else (reference,
                               Inl (TimestampTooOldRelative partition_key max_age_hours parsed ref))))
           | Some _ \<Rightarrow> (reference, Inl (FieldNotString partition_key))))"

section \<open>The entry point\<close>

type_synonym partitioning = "string option \<times> nat option \<times> string option"

definition flatten_dict ::
  "flatten_env \<Rightarrow> string \<Rightarrow> partitioning \<Rightarrow> bool \<Rightarrow> jobject \<Rightarrow> int option
   \<Rightarrow> int option \<times> (flatten_error + json)" where
  "flatten_dict env sep part validation_required m reference =
     (case part of (time_partition, time_partition_limit, custom_partition) \<Rightarrow>
        case (if validation_required
              then validate_time_partition env m time_partition time_partition_limit reference
              else (reference, Inr ())) of
          (reference', Inl e) \<Rightarrow> (reference', Inl e)
        | (reference', Inr _) \<Rightarrow>
            (reference',
             bind_result
               (if validation_required then validate_custom_partition m custom_partition
                else Inr ())
               (\<lambda>_. bind_result (flatten_object sep [] None m) (\<lambda>m'. Inr (JObject m')))))"

fun flatten ::
  "flatten_env \<Rightarrow> string \<Rightarrow> partitioning \<Rightarrow> bool \<Rightarrow> json \<Rightarrow> int option
   \<Rightarrow> int option \<times> (flatten_error + json)"
  and flatten_elements ::
  "flatten_env \<Rightarrow> string \<Rightarrow> partitioning \<Rightarrow> bool \<Rightarrow> json list \<Rightarrow> int option
   \<Rightarrow> int option \<times> (flatten_error + json list)"
where
  "flatten env sep part vreq (JObject m) reference = flatten_dict env sep part vreq m reference"
| "flatten env sep part vreq (JArray arr) reference =
     (case flatten_elements env sep part vreq arr reference of
        (reference', r) \<Rightarrow> (reference', bind_result r (\<lambda>vs. Inr (JArray vs))))"
| "flatten env sep part vreq _ reference = (reference, Inl CannotFlatten)"
| "flatten_elements env sep part vreq [] reference = (reference, Inr [])"
| "flatten_elements env sep part vreq (v # vs) reference =
     (case flatten env sep part vreq v reference of
        (reference', Inl e) \<Rightarrow> (reference', Inl e)
      | (reference', Inr v') \<Rightarrow>
          (case flatten_elements env sep part vreq vs reference' of
             (reference'', r) \<Rightarrow> (reference'', bind_result r (\<lambda>vs'. Inr (v' # vs')))))"

section \<open>Flattened values are stable\<close>

lemma map_of_append_fresh: "k \<notin> set (keys_of out) \<Longrightarrow> AList.update k v out @ m = out @ (k, v) # m"
  by (simp add: AList_update_fresh)

lemma flatten_flat:
  "flat_object m \<Longrightarrow> distinct_keys (out @ m) \<Longrightarrow> flatten_object sep out None m = Inr (out @ m)"
proof (induction m arbitrary: out)
  case Nil
  show ?case by simp
next
  case (Cons kv m)
  obtain k v where kv: "kv = (k, v)" by (cases kv)
  with Cons.prems have fresh: "k \<notin> set (keys_of out)" by auto
  have "flatten_object sep (AList.update k v out) None m = Inr (AList.update k v out @ m)"
    using Cons.prems fresh kv by (intro Cons.IH) (auto simp: AList_update_fresh)
  then show ?case
    using Cons.prems fresh kv
    by (simp add: flatten_leaf join_key_def AList_update_fresh del: flatten_object.simps)
qed

text \<open>The shape of what \<open>flatten\<close> returns: flat objects, or arrays of such values.\<close>

fun flattened :: "json \<Rightarrow> bool" where
  "flattened (JObject m) \<longleftrightarrow> flat_object m \<and> distinct_keys m"
| "flattened (JArray vs) \<longleftrightarrow> (\<forall>v \<in> set vs. flattened v)"
| "flattened _ \<longleftrightarrow> False"

lemma flatten_dict_Inr:
  "flatten_dict env sep part vreq m reference = (reference', Inr v) \<Longrightarrow>
   \<exists>m'. v = JObject m' \<and> flatten_object sep [] None m = Inr m'"
  by (auto simp: flatten_dict_def split: prod.splits sum.splits if_splits)

lemma flatten_flattened:
  "flatten env sep part vreq v reference = (reference', Inr v') \<Longrightarrow> flattened v'"
  "flatten_elements env sep part vreq vs reference = (reference', Inr vs') \<Longrightarrow>
   \<forall>v \<in> set vs'. flattened v"
proof (induction env sep part vreq v reference and env sep part vreq vs reference
    arbitrary: reference' v' and reference' vs' rule: flatten_flatten_elements.induct)
  case (1 env sep part vreq m reference)
  then have "flatten_dict env sep part vreq m reference = (reference', Inr v')" by simp
  then obtain m' where m': "v' = JObject m'" "flatten_object sep [] None m = Inr m'"
    using flatten_dict_Inr by blast
  have "flat_object m'" by (rule flat_flatten(1) [OF _ m'(2)]) simp
  moreover have "distinct_keys m'" by (rule distinct_sorted_flatten(1) [OF _ m'(2)]) simp
  ultimately show ?case by (simp add: m'(1))
qed (fastforce split: prod.splits sum.splits)+

lemma flatten_no_validation:
  "flatten_dict env sep part False m reference =
   (reference, bind_result (flatten_object sep [] None m) (\<lambda>m'. Inr (JObject m')))"
  by (cases part) (simp add: flatten_dict_def)

lemma flatten_elements_stable:
  "(\<And>v reference. v \<in> set vs \<Longrightarrow> flatten env sep part vreq v reference = (reference, Inr v)) \<Longrightarrow>
   flatten_elements env sep part vreq vs reference = (reference, Inr vs)"
  by (induction vs) simp_all

lemma flatten_stable:
  "flattened v \<Longrightarrow> flatten env sep part False v reference = (reference, Inr v)"
proof (induction v arbitrary: reference)
  case (JArray vs)
  then show ?case by (simp add: flatten_elements_stable)
next
  case (JObject m)
  then show ?case using flatten_flat [of m "[]" sep] by (simp add: flatten_no_validation)
qed simp_all

section \<open>Validation\<close>

text \<open>The values a custom partition field may have.\<close>

fun partitionable :: "json \<Rightarrow> bool" where
  "partitionable (JBool _) = True"
| "partitionable (JNumber (PosInt _)) = True"
| "partitionable (JNumber (NegInt _)) = True"
| "partitionable (JString s) = (s \<noteq> [] \<and> CHR ''.'' \<notin> set s)"
| "partitionable _ = False"

lemma check_custom_field_ok:
  "check_custom_field f v = None \<longleftrightarrow> (\<exists>w. v = Some w \<and> partitionable w)"
proof (cases v)
  case None
  then show ?thesis by (simp add: check_custom_field_def)
next
  case (Some w)
  then show ?thesis
  proof (cases w)
    case (JNumber n)
    with Some show ?thesis by (cases n) (simp_all add: check_custom_field_def)
  qed (auto simp: check_custom_field_def)
qed

lemma check_custom_fields_ok:
  "check_custom_fields m fs = Inr () \<longleftrightarrow>
   (\<forall>f \<in> set fs. \<exists>w. map_of m (trim f) = Some w \<and> partitionable w)"
proof (induction fs)
  case Nil
  show ?case by simp
next
  case (Cons f fs)
  show ?case
  proof (cases "check_custom_field (trim f) (map_of m (trim f))")
    case None
    with Cons check_custom_field_ok [of "trim f" "map_of m (trim f)"] show ?thesis by simp
  next
    case (Some e)
    with check_custom_field_ok [of "trim f" "map_of m (trim f)"] show ?thesis by auto
  qed
qed

lemma validate_custom_partition_ok:
  "validate_custom_partition m (Some cp) = Inr () \<longleftrightarrow>
   (\<forall>f \<in> trim ` set (split_on CHR '','' cp). \<exists>w. map_of m f = Some w \<and> partitionable w)"
  by (simp add: validate_custom_partition_def check_custom_fields_ok)

text \<open>The reference timestamp is set once: by the first accepted event.\<close>

lemma validate_time_partition_reference:
  "fst (validate_time_partition env m tp tpl reference) =
   (if reference = None \<and> snd (validate_time_partition env m tp tpl reference) = Inr ()
    then (case tp of None \<Rightarrow> None
          | Some k \<Rightarrow> (case map_of m k of Some (JString s) \<Rightarrow> parse_datetime env s | _ \<Rightarrow> None))
    else reference)"
  by (auto simp: validate_time_partition_def Let_def split: option.splits json.splits)

lemma validate_time_partition_keeps:
  "fst (validate_time_partition env m tp tpl (Some t)) = Some t"
  by (simp add: validate_time_partition_reference)

lemma validate_time_partition_bounds:
  assumes "validate_time_partition env m (Some k) tpl reference = (reference', Inr ())"
  shows "\<exists>s t. map_of m k = Some (JString s) \<and> parse_datetime env s = Some t \<and>
    (case reference of
       None \<Rightarrow> reference' = Some t \<and>
         utc_now env - (case tpl of None \<Rightarrow> 30 | Some d \<Rightarrow> int d) * nanos_per_day \<le> t
     | Some r \<Rightarrow> reference' = Some r \<and> r - int (event_max_chunk_age env) * nanos_per_hour \<le> t)"
  using assms
  by (auto simp: validate_time_partition_def Let_def split: option.splits json.splits if_splits)

lemma flatten_keeps_reference:
  "fst (flatten env sep part vreq v (Some t)) = Some t"
  "fst (flatten_elements env sep part vreq vs (Some t)) = Some t"
proof (induction env sep part vreq v "Some t" and env sep part vreq vs "Some t"
    rule: flatten_flatten_elements.induct)
  case (1 env sep part vreq m)
  obtain tp tpl cp where "part = (tp, tpl, cp)" by (cases part)
  then show ?case
    using validate_time_partition_keeps [of env m tp tpl t]
    by (auto simp: flatten_dict_def split: prod.splits sum.splits)
qed (fastforce split: prod.splits sum.splits)+

lemma partitionable_flat: "partitionable v \<Longrightarrow> flat_value v"
  by (cases v) simp_all

lemma top_leaf_key:
  "map_of m k = Some v \<Longrightarrow> flat_value v \<Longrightarrow> k \<in> leaf_keys sep None m"
proof (induction m)
  case (Cons kv m)
  obtain k' v' where kv: "kv = (k', v')" by (cases kv)
  show ?case
  proof (cases "k' = k")
    case True
    with Cons.prems kv have "v' = v" by simp
    with Cons.prems(2) True kv show ?thesis
      by (simp add: leaf_keys_leaf join_key_def del: leaf_keys.simps)
  next
    case False
    with Cons kv show ?thesis by simp
  qed
qed simp

section \<open>Properties\<close>

text \<open>C2: Flattening an object gives a flat object (no object, and no array holding an
  object directly) with distinct keys, and its keys are exactly the joined paths of the
  leaves of the input.\<close>

theorem flatten_object_result:
  assumes "flatten_object sep [] parent m = Inr out"
  shows "flat_object out \<and> distinct_keys out \<and> fst ` set out = leaf_keys sep parent m"
  using flat_flatten(1) [OF _ assms] distinct_sorted_flatten(1) [OF _ assms]
    keys_flatten(1) [OF assms] by simp

definition sample_object :: jobject where
  "sample_object =
     [(''a'', JObject [(''b'', JBool True)]),
      (''c'', JArray [JObject [(''x'', JNull)], JNull, JObject [(''y'', JString ''s'')]])]"

lemma sample_flattened:
  "flatten_object ''_'' [] None sample_object =
   Inr [(''a_b'', JBool True), (''c_x'', JArray [JNull, JNull, JNull]),
        (''c_y'', JArray [JNull, JNull, JString ''s''])]"
  by (simp add: sample_object_def join_key_def push_row_def push_nulls_def pad_columns_def
      insert_columns_def)

theorem flatten_object_result_witness:
  "flat_object [(''a_b'', JBool True), (''c_x'', JArray [JNull, JNull, JNull]),
        (''c_y'', JArray [JNull, JNull, JString ''s''])]
   \<and> leaf_keys ''_'' None sample_object = {''a_b'', ''c_x'', ''c_y''}"
  using flatten_object_result [OF sample_flattened] by auto

text \<open>C19: The columns of an array of objects are complete and aligned: a key has a column
  exactly when it is a leaf path of some element, and the column holds, for every element of
  the array in order, that element's flattened value at the key, or null.\<close>

theorem flatten_array_columns:
  assumes "array_columns sep p 0 [] arr = Inr cols"
  shows "map_of cols k =
    (if k \<in> array_keys sep p arr then Some (map (row_cell sep p k) arr) else None)"
  using array_columns_spec [OF assms, of k] by (simp add: column_base_def)

theorem flatten_array_columns_witness:
  "map_of [(''c_x'', [JNull, JNull]), (''c_y'', [JNull, JString ''s''])] ''c_y'' =
   Some (map (row_cell ''_'' ''c'' ''c_y'') [JObject [(''x'', JNull)], JObject [(''y'', JString ''s'')]])"
proof -
  have "array_columns ''_'' ''c'' 0 [] [JObject [(''x'', JNull)], JObject [(''y'', JString ''s'')]]
    = Inr [(''c_x'', [JNull, JNull]), (''c_y'', [JNull, JString ''s''])]"
    by (simp add: join_key_def push_row_def pad_columns_def)
  from flatten_array_columns [OF this, of "''c_y''"] show ?thesis
    by (simp add: join_key_def)
qed

text \<open>Flattening an object fails exactly when an array with an object in it also holds
  a value that is neither an object nor null, and the error is then always
  \<open>NonObjectInArray\<close>.\<close>

theorem flatten_object_fails_iff:
  "flatten_object sep out parent m = Inl e \<longleftrightarrow> e = NonObjectInArray \<and> mixed_object m"
  by (rule flatten_error_iff(1))

text \<open>Flattening is idempotent: what \<open>flatten\<close> returned, with any separator,
  partitioning and validation, is returned unchanged when flattened again without
  validation.\<close>

theorem flatten_idempotent:
  assumes "flatten env sep part vreq v reference = (reference', Inr v')"
  shows "flatten env2 sep2 part2 False v' reference2 = (reference2, Inr v')"
  using flatten_flattened(1) [OF assms] by (rule flatten_stable)

theorem flatten_idempotent_witness:
  "flatten undefined ''.'' (None, None, None) False
     (JArray [JObject [(''a_b'', JBool True)]]) None = (None, Inr (JArray [JObject [(''a_b'', JBool True)]]))"
proof -
  have "flatten undefined ''_'' (None, None, None) False
      (JArray [JObject [(''a'', JObject [(''b'', JBool True)])]]) None
    = (None, Inr (JArray [JObject [(''a_b'', JBool True)]]))"
    by (simp add: flatten_dict_def join_key_def)
  from flatten_idempotent [OF this] show ?thesis .
qed

text \<open>An event that passes validation has, for the time partition, a datetime string no
  older than the limit (against the clock for the first event, against the reference
  timestamp after it), the reference timestamp is set by the first accepted event and kept
  by all others, and every custom partition field has a scalar, non-empty, period-free value
  and is still a key of the flattened event.\<close>

theorem flatten_validated:
  assumes "flatten_dict env sep (Some tp, tpl, Some cp) True m reference = (reference', Inr v)"
  shows "(\<exists>s t. map_of m tp = Some (JString s) \<and> parse_datetime env s = Some t \<and>
      (case reference of
         None \<Rightarrow> reference' = Some t \<and>
           utc_now env - (case tpl of None \<Rightarrow> 30 | Some d \<Rightarrow> int d) * nanos_per_day \<le> t
       | Some r \<Rightarrow> reference' = Some r \<and>
           r - int (event_max_chunk_age env) * nanos_per_hour \<le> t)) \<and>
    (\<forall>f \<in> trim ` set (split_on CHR '','' cp).
      (\<exists>w. map_of m f = Some w \<and> partitionable w) \<and> (\<exists>w. json_get v f = Some w))"
proof -
  obtain u where time: "validate_time_partition env m (Some tp) tpl reference = (reference', Inr u)"
    and custom: "validate_custom_partition m (Some cp) = Inr ()"
    and v: "\<exists>m'. v = JObject m' \<and> flatten_object sep [] None m = Inr m'"
    using assms by (auto simp: flatten_dict_def split: prod.splits sum.splits)
  from v obtain m' where m': "v = JObject m'" "flatten_object sep [] None m = Inr m'" by blast
  have "\<exists>w. json_get v f = Some w" if "map_of m f = Some w" "partitionable w" for f w
  proof -
    have "f \<in> fst ` set m'"
      using top_leaf_key [OF that(1) partitionable_flat [OF that(2)]] keys_flatten(1) [OF m'(2)] by simp
    then have "map_of m' f \<noteq> None" by (simp add: map_of_eq_None_iff)
    then show ?thesis by (simp add: m'(1))
  qed
  with validate_time_partition_bounds [of env m tp tpl reference reference'] time custom
  show ?thesis unfolding validate_custom_partition_ok by fastforce
qed

definition sample_env :: flatten_env where
  "sample_env = \<lparr>parse_datetime = (\<lambda>s. if s = ''2025-01-01T00:00:00Z'' then Some 1735689600000000000 else None),
     utc_now = 1735689660000000000, event_max_chunk_age = 24, event_flatten_level = 4\<rparr>"

definition sample_event :: jobject where
  "sample_event =
     [(''ts'', JString ''2025-01-01T00:00:00Z''), (''status'', JNumber (PosInt 400)),
      (''os'', JString ''linux'')]"

theorem flatten_validated_witness:
  "\<exists>w. json_get (JObject sample_event) ''os'' = Some w \<and> partitionable (JString ''linux'')"
proof -
  have split: "split_on CHR '','' ''status, os'' = [''status'', '' os'']" by simp
  have trim: "trim ''status'' = ''status''" "trim '' os'' = ''os''"
    by (simp_all add: trim_def is_whitespace_def)
  have run: "flatten_dict sample_env ''_'' (Some ''ts'', None, Some ''status, os'') True sample_event None
    = (Some 1735689600000000000, Inr (JObject sample_event))"
    by (simp add: flatten_dict_def sample_env_def sample_event_def validate_time_partition_def
        validate_custom_partition_def split trim check_custom_field_def join_key_def
        nanos_defs del: split_on.simps)
  have "''os'' \<in> trim ` set (split_on CHR '','' ''status, os'')" by (simp add: split trim del: split_on.simps)
  with flatten_validated [OF run] show ?thesis by fastforce
qed

end
