(* ===== verification/Generic_Flatten.thy ===== *)
theory Generic_Flatten
  imports Flatten
begin

text \<open>
  \<open>src/utils/json/flatten.rs\<close>: generic flattening, which turns an event with arrays into
  several rows, the depth check, and the conversion of the rows to one array.
\<close>

section \<open>Generic flattening\<close>

text \<open>
  The fold over the fields of an object keeps a list of partial objects; a field with
  several flattened values multiplies it. Every nested result goes through
  \<open>unwrap_or_default\<close>, here \<open>unwrap_or_Nil\<close>.
\<close>

definition unwrap_or_Nil :: "'e + 'a list \<Rightarrow> 'a list" where
  "unwrap_or_Nil r = (case r of Inl _ \<Rightarrow> [] | Inr vs \<Rightarrow> vs)"

definition spread :: "string \<Rightarrow> json list \<Rightarrow> jobject list \<Rightarrow> jobject list" where
  "spread key items results =
     concat (map (\<lambda>item. map (\<lambda>result. AList.update key item result) results) items)"

fun generic_flattening :: "json \<Rightarrow> flatten_error + json list"
  and generic_items :: "json list \<Rightarrow> json list"
  and generic_fields :: "jobject list \<Rightarrow> jobject \<Rightarrow> jobject list"
where
  "generic_flattening (JArray arr) = Inr (generic_items arr)"
| "generic_flattening (JObject m) = Inr (map JObject (generic_fields [[]] m))"
| "generic_flattening v = Inr [v]"
| "generic_items [] = []"
| "generic_items (v # vs) = unwrap_or_Nil (generic_flattening v) @ generic_items vs"
| "generic_fields results [] = results"
| "generic_fields results ((key, v) # rest) =
     generic_fields
       (case v of
          JArray arr \<Rightarrow>
            if arr = [] then map (AList.update key (JArray [])) results
            else spread key (generic_items arr) results
        | JObject _ \<Rightarrow> spread key (unwrap_or_Nil (generic_flattening v)) results
        | _ \<Rightarrow> map (AList.update key v) results)
       rest"

fun has_more_than_max_allowed_levels :: "flatten_env \<Rightarrow> json \<Rightarrow> nat \<Rightarrow> bool" where
  "has_more_than_max_allowed_levels env v current_level =
     (if current_level > event_flatten_level env then True
      else (case v of
              JArray arr \<Rightarrow>
                list_ex (\<lambda>item. has_more_than_max_allowed_levels env item current_level) arr
            | JObject m \<Rightarrow>
                list_ex (\<lambda>val. has_more_than_max_allowed_levels env val (current_level + 1))
                  (map snd m)
            | _ \<Rightarrow> False))"

definition convert_to_array :: "json list \<Rightarrow> flatten_error + json" where
  "convert_to_array items =
     (if list_ex (\<lambda>item. \<not> is_object item) items then Inl ExpectedObjectInArray
      else Inr (JArray items))"

declare has_more_than_max_allowed_levels.simps [simp del]

section \<open>Generic flattening never fails\<close>

lemma unwrap_or_Nil_simps [simp]: "unwrap_or_Nil (Inr vs) = vs" "unwrap_or_Nil (Inl e) = []"
  by (simp_all add: unwrap_or_Nil_def)

lemma generic_flattening_total: "generic_flattening v = Inr (unwrap_or_Nil (generic_flattening v))"
  by (cases v) simp_all

lemma set_spread: "r \<in> set (spread key items results) \<longleftrightarrow>
  (\<exists>item \<in> set items. \<exists>result \<in> set results. r = AList.update key item result)"
  by (auto simp: spread_def)

lemma length_spread [simp]: "length (spread key items results) = length items * length results"
  by (induction items) (simp_all add: spread_def)

lemmas generic_induct = generic_flattening_generic_items_generic_fields.induct

section \<open>What is left: only empty arrays\<close>

definition obj_arrays_empty :: "jobject \<Rightarrow> bool" where
  "obj_arrays_empty m \<longleftrightarrow> (\<forall>v \<in> snd ` set m. arrays_empty v)"

lemma arrays_empty_JObject [simp]: "arrays_empty (JObject m) = obj_arrays_empty m"
  by (simp add: obj_arrays_empty_def)

declare arrays_empty.simps(2) [simp del]

lemma obj_arrays_empty_update:
  "obj_arrays_empty m \<Longrightarrow> arrays_empty v \<Longrightarrow> obj_arrays_empty (AList.update k v m)"
  unfolding obj_arrays_empty_def using set_AList_update by fastforce

lemma generic_arrays_empty:
  "r \<in> set (unwrap_or_Nil (generic_flattening v)) \<Longrightarrow> arrays_empty r"
  "r \<in> set (generic_items vs) \<Longrightarrow> arrays_empty r"
  "\<forall>ob \<in> set results. obj_arrays_empty ob \<Longrightarrow> p \<in> set (generic_fields results m) \<Longrightarrow> obj_arrays_empty p"
proof (induction v and vs and results m arbitrary: r and r and p rule: generic_induct)
  case (2 m)
  then show ?case by (auto simp: obj_arrays_empty_def)
next
  case (7 results key v rest)
  let ?next = "case v of
      JArray arr \<Rightarrow>
        if arr = [] then map (AList.update key (JArray [])) results
        else spread key (generic_items arr) results
    | JObject _ \<Rightarrow> spread key (unwrap_or_Nil (generic_flattening v)) results
    | _ \<Rightarrow> map (AList.update key v) results"
  have items: "arrays_empty r" if "v = JArray arr" "arr \<noteq> []" "r \<in> set (generic_items arr)" for arr r
    using 7(1) [OF that] .
  have rows: "obj_arrays_empty r" if "v = JObject m" "r \<in> set (generic_fields [[]] m)" for m r
    using 7(2) [OF that(1), of "JObject r"] that by simp
  have "obj_arrays_empty ob" if "ob \<in> set ?next" for ob
    using that 7(4)
    by (cases v) (auto simp: set_spread intro!: obj_arrays_empty_update dest: items rows split: if_splits)
  moreover have "p \<in> set (generic_fields ?next rest)" using 7(5) by simp
  ultimately show ?case by (intro 7(3)) blast
qed auto

text \<open>Values whose arrays are empty hold no array with an object and something else.\<close>

lemma arrays_empty_not_mixed: "obj_arrays_empty m \<Longrightarrow> \<not> mixed_object m" "mixed_array vs \<or> True"
proof (induction m and vs rule: json_tree_induct)
  case (2 key v rest)
  then show ?case by (cases v) (auto simp: obj_arrays_empty_def arrays_empty.simps)
qed (auto simp: obj_arrays_empty_def)

section \<open>The rows of an object\<close>

lemma generic_fields_keys:
  assumes "distinct (ks @ keys_of m)" and "\<forall>ob \<in> set results. keys_of ob = ks"
    and "r \<in> set (generic_fields results m)"
  shows "keys_of r = ks @ keys_of m"
  using assms
proof (induction m arbitrary: ks results)
  case Nil
  then show ?case by simp
next
  case (Cons kv rest)
  obtain key v where kv: "kv = (key, v)" by (cases kv)
  let ?next = "case v of
      JArray arr \<Rightarrow>
        if arr = [] then map (AList.update key (JArray [])) results
        else spread key (generic_items arr) results
    | JObject _ \<Rightarrow> spread key (unwrap_or_Nil (generic_flattening v)) results
    | _ \<Rightarrow> map (AList.update key v) results"
  have upd: "keys_of (AList.update key w ob) = ks @ [key]" if "ob \<in> set results" for w ob
    using that Cons.prems(1,2) kv by (subst AList_update_fresh) auto
  have "\<forall>ob \<in> set ?next. keys_of ob = ks @ [key]"
    by (cases v) (auto simp: set_spread upd split: if_splits)
  moreover have "r \<in> set (generic_fields ?next rest)" using Cons.prems(3) by (simp add: kv)
  moreover have "distinct ((ks @ [key]) @ keys_of rest)" using Cons.prems(1) kv by simp
  ultimately have "keys_of r = (ks @ [key]) @ keys_of rest" using Cons.IH by blast
  then show ?case by (simp add: kv)
qed

section \<open>How many rows\<close>

text \<open>An array contributes the sum, an object the product of what its parts contribute.\<close>

fun row_count :: "json \<Rightarrow> nat"
  and item_count :: "json list \<Rightarrow> nat"
  and field_count :: "jobject \<Rightarrow> nat"
where
  "row_count (JArray arr) = item_count arr"
| "row_count (JObject m) = field_count m"
| "row_count v = 1"
| "item_count [] = 0"
| "item_count (v # vs) = row_count v + item_count vs"
| "field_count [] = 1"
| "field_count ((key, v) # rest) = (if v = JArray [] then 1 else row_count v) * field_count rest"

lemma generic_row_count:
  "length (unwrap_or_Nil (generic_flattening v)) = row_count v"
  "length (generic_items vs) = item_count vs"
  "length (generic_fields results m) = length results * field_count m"
proof (induction v and vs and results m rule: generic_induct)
  case (7 results key v rest)
  show ?case
  proof (cases v)
    case (JArray arr)
    with 7 show ?thesis by (cases "arr = []") (simp_all add: algebra_simps)
  next
    case (JObject m)
    with 7 show ?thesis by (simp add: algebra_simps)
  qed (use 7 in simp_all)
qed simp_all

section \<open>The depth check\<close>

text \<open>The object nesting of a value.\<close>

fun nesting :: "json \<Rightarrow> nat" where
  "nesting (JArray arr) = fold max (map nesting arr) 0"
| "nesting (JObject m) = fold max (map (\<lambda>kv. Suc (nesting (snd kv))) m) 0"
| "nesting _ = 0"

lemma less_add_fold_max:
  "(l::nat) < c + fold max xs a \<longleftrightarrow> l < c + a \<or> (\<exists>x \<in> set xs. l < c + x)"
  by (induction xs arbitrary: a) auto

lemma levels_iff_nesting:
  "has_more_than_max_allowed_levels env v c \<longleftrightarrow> event_flatten_level env < c + nesting v"
proof (induction v arbitrary: c)
  case (JArray arr)
  then show ?case
    by (subst has_more_than_max_allowed_levels.simps)
      (auto simp: list_ex_iff less_add_fold_max)
next
  case (JObject m)
  have "has_more_than_max_allowed_levels env (snd kv) (Suc c) \<longleftrightarrow> event_flatten_level env < c + Suc (nesting (snd kv))"
    if "kv \<in> set m" for kv
    using JObject [of kv "snd kv" "Suc c"] that by (cases kv) simp
  then show ?case
    by (subst has_more_than_max_allowed_levels.simps)
      (simp add: list_ex_iff less_add_fold_max image_image cong: bex_cong)
qed (subst has_more_than_max_allowed_levels.simps; auto)+

end
