(* ===== verification/Log_Source.thy ===== *)
theory Log_Source
  imports Prelude
begin

text \<open>
  The format of a log source (\<open>LogSource\<close> of \<open>src/event/format/mod.rs\<close>) with its parser and
  printer, and the schema version of a stream (\<open>SchemaVersion\<close> of \<open>src/metadata.rs\<close>).
\<close>

datatype log_source =
    Kinesis
  | OtelLogs
  | OtelMetrics
  | OtelTraces
  | Pmeta
  | Json
  | Custom string

datatype schema_version = V0 | V1

definition log_source_from :: "string \<Rightarrow> log_source" where
  "log_source_from s =
     (let l = to_lowercase s in
      if l = ''kinesis'' then Kinesis
      else if l = ''otel-logs'' then OtelLogs
      else if l = ''otel-metrics'' then OtelMetrics
      else if l = ''otel-traces'' then OtelTraces
      else if l = ''pmeta'' then Pmeta
      else if l = '''' \<or> l = ''json'' then Json
      else Custom l)"

fun log_source_fmt :: "log_source \<Rightarrow> string" where
  "log_source_fmt Kinesis = ''kinesis''"
| "log_source_fmt OtelLogs = ''otel-logs''"
| "log_source_fmt OtelMetrics = ''otel-metrics''"
| "log_source_fmt OtelTraces = ''otel-traces''"
| "log_source_fmt Json = ''json''"
| "log_source_fmt Pmeta = ''pmeta''"
| "log_source_fmt (Custom custom) = custom"

lemma of_char_diff_range: "CHR ''A'' \<le> c \<and> c \<le> CHR ''Z'' \<longleftrightarrow> 65 \<le> (of_char c :: nat) \<and> of_char c \<le> (90 :: nat)"
  by (simp add: less_eq_char_def)

lemma ascii_lower_not_upper: "\<not> (CHR ''A'' \<le> ascii_lower c \<and> ascii_lower c \<le> CHR ''Z'')"
  unfolding ascii_lower_def of_char_diff_range by auto

lemma to_lowercase_idem: "to_lowercase (to_lowercase s) = to_lowercase s"
proof -
  have "ascii_lower (ascii_lower c) = ascii_lower c" for c
    using ascii_lower_not_upper [of c] by (simp only: ascii_lower_def [of "ascii_lower c"] if_False)
  then show ?thesis by (simp add: to_lowercase_def)
qed

text \<open>Parsing what is printed gives the source back, for every source parsing yields.\<close>

lemma log_source_roundtrip:
  "log_source_from (log_source_fmt (log_source_from s)) = log_source_from s"
proof (cases "log_source_from s")
  case (Custom c)
  then have c: "c = to_lowercase s"
    by (auto simp: log_source_from_def Let_def split: if_splits)
  then have "log_source_from c = log_source_from s"
    by (simp add: log_source_from_def to_lowercase_idem)
  with Custom show ?thesis by simp
qed (simp_all add: log_source_from_def Let_def to_lowercase_def ascii_lower_def)

end
