(* ===== verification/Ingest_Json.thy ===== *)
theory Ingest_Json
  imports Generic_Flatten Log_Source
begin

text \<open>
  \<open>src/utils/json/mod.rs\<close>: how a request body becomes a list of flattened values. The
  state threaded through is the reference timestamp of \<open>Flatten\<close>; a partitioning is the
  triple of time partition, its limit in days, and custom partition.
\<close>

type_synonym 'a validated = "int option \<times> (flatten_error + 'a)"

definition should_apply_generic_flattening ::
  "flatten_env \<Rightarrow> json \<Rightarrow> schema_version \<Rightarrow> log_source \<Rightarrow> bool" where
  "should_apply_generic_flattening env v schema_version source \<longleftrightarrow>
     schema_version = V1 \<and> \<not> has_more_than_max_allowed_levels env v 1 \<and>
     (case source of Json \<Rightarrow> True | Custom _ \<Rightarrow> True | _ \<Rightarrow> False)"

definition flatten_json_body ::
  "flatten_env \<Rightarrow> json \<Rightarrow> partitioning \<Rightarrow> schema_version \<Rightarrow> bool \<Rightarrow> log_source \<Rightarrow> int option
   \<Rightarrow> json validated" where
  "flatten_json_body env body part schema_version validation_required source reference =
     (case (if schema_version = V1 \<and> \<not> has_more_than_max_allowed_levels env body 1 \<and>
               (case source of Json \<Rightarrow> True | Custom _ \<Rightarrow> True | _ \<Rightarrow> False)
            then bind_result (generic_flattening body) convert_to_array
            else Inr body) of
        Inl e \<Rightarrow> (reference, Inl e)
      | Inr nested_value \<Rightarrow> flatten env ''_'' part validation_required nested_value reference)"

definition flatten_single ::
  "flatten_env \<Rightarrow> json \<Rightarrow> partitioning \<Rightarrow> int option \<Rightarrow> json list validated" where
  "flatten_single env v part reference =
     (case flatten env ''_'' part True v reference of
        (reference', r) \<Rightarrow> (reference', bind_result r (\<lambda>v'. Inr [v'])))"

definition apply_generic_flattening_for_partition ::
  "flatten_env \<Rightarrow> json \<Rightarrow> partitioning \<Rightarrow> int option \<Rightarrow> json list validated" where
  "apply_generic_flattening_for_partition env element part reference =
     (case generic_flattening element of
        Inl e \<Rightarrow> (reference, Inl e)
      | Inr flattened_json \<Rightarrow>
          if length flattened_json = 1
          then flatten_single env (hd flattened_json) part reference
          else flatten_elements env ''_'' part True flattened_json reference)"

definition process_partitioned_element ::
  "flatten_env \<Rightarrow> json \<Rightarrow> partitioning \<Rightarrow> schema_version \<Rightarrow> log_source \<Rightarrow> int option
   \<Rightarrow> json list validated" where
  "process_partitioned_element env element part schema_version source reference =
     (if should_apply_generic_flattening env element schema_version source
      then apply_generic_flattening_for_partition env element part reference
      else flatten_single env element part reference)"

fun process_partitioned_array ::
  "flatten_env \<Rightarrow> json list \<Rightarrow> partitioning \<Rightarrow> schema_version \<Rightarrow> log_source \<Rightarrow> int option
   \<Rightarrow> json list validated" where
  "process_partitioned_array env [] part schema_version source reference = (reference, Inr [])"
| "process_partitioned_array env (element # arr) part schema_version source reference =
     (case process_partitioned_element env element part schema_version source reference of
        (reference', Inl e) \<Rightarrow> (reference', Inl e)
      | (reference', Inr processed_elements) \<Rightarrow>
          (case process_partitioned_array env arr part schema_version source reference' of
             (reference'', r) \<Rightarrow>
               (reference'', bind_result r (\<lambda>result. Inr (processed_elements @ result)))))"

definition process_partitioned_non_array ::
  "flatten_env \<Rightarrow> json \<Rightarrow> partitioning \<Rightarrow> schema_version \<Rightarrow> log_source \<Rightarrow> int option
   \<Rightarrow> json list validated" where
  "process_partitioned_non_array env body part schema_version source reference =
     process_partitioned_array env [body] part schema_version source reference"

definition process_non_partitioned ::
  "flatten_env \<Rightarrow> json \<Rightarrow> partitioning \<Rightarrow> schema_version \<Rightarrow> log_source \<Rightarrow> int option
   \<Rightarrow> json list validated" where
  "process_non_partitioned env body part schema_version source reference =
     (case flatten_json_body env body part schema_version True source reference of
        (reference', r) \<Rightarrow> (reference', bind_result r (\<lambda>data. Inr [data])))"

definition convert_array_to_object ::
  "flatten_env \<Rightarrow> json \<Rightarrow> partitioning \<Rightarrow> schema_version \<Rightarrow> log_source \<Rightarrow> int option
   \<Rightarrow> json list validated" where
  "convert_array_to_object env body part schema_version source reference =
     (case part of (time_partition, time_partition_limit, custom_partition) \<Rightarrow>
        if time_partition \<noteq> None \<or> custom_partition \<noteq> None
        then (case body of
                JArray arr \<Rightarrow> process_partitioned_array env arr part schema_version source reference
              | _ \<Rightarrow> process_partitioned_non_array env body part schema_version source reference)
        else process_non_partitioned env body part schema_version source reference)"

section \<open>Generic flattening makes flattening safe\<close>

lemma generic_rows_flatten:
  assumes "\<forall>row \<in> set rows. obj_arrays_empty row"
  shows "\<exists>vs. flatten_elements env sep (None, tpl, None) True (map JObject rows) reference =
      (reference, Inr vs) \<and> length vs = length rows \<and> (\<forall>v \<in> set vs. is_object v)"
  using assms
proof (induction rows)
  case Nil
  show ?case by simp
next
  case (Cons row rows)
  then have "\<not> mixed_object row" using arrays_empty_not_mixed(1) by simp
  then obtain m where "flatten_object sep [] None row = Inr m"
    using flatten_error_iff(1) by (metis sum.exhaust)
  then have "flatten env sep (None, tpl, None) True (JObject row) reference = (reference, Inr (JObject m))"
    by (simp add: flatten_dict_def validate_time_partition_def validate_custom_partition_def)
  with Cons show ?case by auto
qed

lemma generic_fields_empty:
  "p \<in> set (generic_fields [[]] m) \<Longrightarrow> obj_arrays_empty p"
  using generic_arrays_empty(3) [of "[[]]"] by (simp add: obj_arrays_empty_def)

lemma flatten_single_flattened:
  "flatten_single env v part reference = (reference', Inr vs) \<Longrightarrow> \<forall>v \<in> set vs. flattened v"
  by (auto simp: flatten_single_def split: prod.splits dest: flatten_flattened(1))

lemma apply_generic_eq:
  "apply_generic_flattening_for_partition env element part reference =
   flatten_elements env ''_'' part True (unwrap_or_Nil (generic_flattening element)) reference"
proof -
  obtain rows where rows: "generic_flattening element = Inr rows"
    using generic_flattening_total by blast
  show ?thesis
  proof (cases "length rows = 1")
    case True
    then obtain row where "rows = [row]" by (auto simp: length_Suc_conv)
    with rows show ?thesis
      by (auto simp: apply_generic_flattening_for_partition_def flatten_single_def
          split: prod.splits sum.splits)
  next
    case False
    with rows show ?thesis by (simp add: apply_generic_flattening_for_partition_def)
  qed
qed

lemma process_element_flattened:
  "process_partitioned_element env v part sv source reference = (reference', Inr vs) \<Longrightarrow>
   \<forall>v \<in> set vs. flattened v"
  by (auto simp: process_partitioned_element_def apply_generic_eq split: if_splits
      dest: flatten_flattened(2) flatten_single_flattened)

lemma process_array_flattened:
  "process_partitioned_array env arr part sv source reference = (reference', Inr vs) \<Longrightarrow>
   \<forall>v \<in> set vs. flattened v"
proof (induction arr arbitrary: reference reference' vs)
  case Nil
  then show ?case by simp
next
  case (Cons v arr)
  then obtain mid xs ys where run:
    "process_partitioned_element env v part sv source reference = (mid, Inr xs)"
    "process_partitioned_array env arr part sv source mid = (reference', Inr ys)" "vs = xs @ ys"
    by (auto split: prod.splits sum.splits)
  from process_element_flattened [OF run(1)] Cons.IH [OF run(2)] run(3) show ?case by auto
qed

lemma field_count_zero:
  "(k, JArray arr) \<in> set m \<Longrightarrow> arr \<noteq> [] \<Longrightarrow> item_count arr = 0 \<Longrightarrow> field_count m = 0"
proof (induction m)
  case (Cons kv m)
  then show ?case by (cases kv) auto
qed simp

lemma item_count_empty_arrays: "\<forall>v \<in> set arr. v = JArray [] \<Longrightarrow> item_count arr = 0"
  by (induction arr) auto

lemma ingest_rows:
  assumes "1 + nesting (JObject m) \<le> event_flatten_level env"
    and "source = Json \<or> (\<exists>c. source = Custom c)"
  shows "\<exists>rows. convert_array_to_object env (JObject m) (None, tpl, None) V1 source reference =
      (reference, Inr [JArray rows]) \<and>
    length rows = field_count m \<and> (\<forall>v \<in> set rows. is_object v \<and> flattened v)"
proof -
  let ?rows = "generic_fields [[]] m"
  have shallow: "\<not> has_more_than_max_allowed_levels env (JObject m) 1"
    using assms(1) by (simp add: levels_iff_nesting del: nesting.simps)
  obtain vs where vs: "flatten_elements env ''_'' (None, tpl, None) True (map JObject ?rows) reference
      = (reference, Inr vs)" "length vs = length ?rows" "\<forall>v \<in> set vs. is_object v"
    using generic_rows_flatten generic_fields_empty by (metis (no_types, lifting))
  have "flatten_json_body env (JObject m) (None, tpl, None) V1 True source reference =
      (reference, Inr (JArray vs))"
    using shallow vs(1) assms(2)
    by (auto simp: flatten_json_body_def convert_to_array_def list_ex_iff)
  then have "convert_array_to_object env (JObject m) (None, tpl, None) V1 source reference =
      (reference, Inr [JArray vs])"
    by (simp add: convert_array_to_object_def process_non_partitioned_def)
  moreover have "length vs = field_count m"
    using vs(2) generic_row_count(3) [of "[[]]" m] by simp
  moreover have "\<forall>v \<in> set vs. flattened v" using flatten_flattened(2) [OF vs(1)] by simp
  ultimately show ?thesis using vs(3) by blast
qed

section \<open>Properties\<close>

text \<open>C1: A value that is not heavily nested, which passes the check of the levels with a maximum
  of 4, is flattened to as many rows as \<open>row_count\<close> says (the product over the fields of an
  object, the sum over the elements of an array); no row contains a non-empty array, and every
  row of an object is an object with that object's keys in the same order.\<close>

theorem generic_flattening_rows:
  assumes "\<not> has_more_than_max_allowed_levels env v 1" and "event_flatten_level env \<le> 4"
  shows "\<exists>rows. generic_flattening v = Inr rows \<and> length rows = row_count v \<and>
     (\<forall>row \<in> set rows. arrays_empty row) \<and>
     (\<forall>m row. v = JObject m \<longrightarrow> distinct_keys m \<longrightarrow> row \<in> set rows \<longrightarrow>
        (\<exists>r. row = JObject r \<and> keys_of r = keys_of m))"
proof -
  let ?rows = "unwrap_or_Nil (generic_flattening v)"
  have "generic_flattening v = Inr ?rows" by (rule generic_flattening_total)
  moreover have "length ?rows = row_count v" by (rule generic_row_count(1))
  moreover have "\<forall>row \<in> set ?rows. arrays_empty row" using generic_arrays_empty(1) by blast
  moreover have "\<exists>r. row = JObject r \<and> keys_of r = keys_of m"
    if "v = JObject m" "distinct_keys m" "row \<in> set ?rows" for m row
    using that generic_fields_keys [of "[]" m "[[]]"] by auto
  ultimately show ?thesis by blast
qed

definition sample_nested :: json where
  "sample_nested = JObject
     [(''a'', JArray [JObject [(''b'', JNumber (PosInt 1))], JObject [(''c'', JNumber (PosInt 2))]]),
      (''d'', JObject [(''e'', JNumber (PosInt 4))])]"

definition four_levels :: flatten_env where
  "four_levels = sample_env\<lparr>event_flatten_level := 4\<rparr>"

theorem generic_flattening_rows_witness:
  "length (unwrap_or_Nil (generic_flattening sample_nested)) = 2"
proof -
  have "\<not> has_more_than_max_allowed_levels four_levels sample_nested 1"
    by (simp add: levels_iff_nesting four_levels_def sample_nested_def)
  from generic_flattening_rows [OF this] show ?thesis
    by (auto simp: sample_nested_def four_levels_def)
qed

text \<open>The last example of the comment on \<open>generic_flattening\<close>, which the comment says is an
  error, is flattened too: the function never fails, only its callers check the levels.\<close>

theorem heavily_nested_flattened:
  "generic_flattening (JObject [(''a'', JObject [(''b'', JObject [(''c'', JObject [(''d'',
      JObject [(''e'', JArray [JString ''a'', JString ''b''])])])])])]) =
   Inr (map (\<lambda>s. JObject [(''a'', JObject [(''b'', JObject [(''c'', JObject [(''d'',
      JObject [(''e'', JString s)])])])])]) [''a'', ''b''])"
  by code_simp

text \<open>The depth check rejects a value exactly when its object nesting, counted from the
  given level, exceeds the configured maximum.\<close>

theorem depth_check_is_nesting:
  "has_more_than_max_allowed_levels env v c \<longleftrightarrow> event_flatten_level env < c + nesting v"
  by (rule levels_iff_nesting)

text \<open>Ingesting a JSON object within the depth limit, for a schema V1 stream with a JSON or
  custom log source and no partitions, always succeeds: it returns one array of
  \<open>row_count\<close> flat objects and leaves the reference timestamp alone. Flattening cannot fail
  after generic flattening.\<close>

theorem ingest_object_succeeds:
  assumes "1 + nesting (JObject m) \<le> event_flatten_level env"
    and "source = Json \<or> (\<exists>c. source = Custom c)"
  shows "\<exists>rows. convert_array_to_object env (JObject m) (None, tpl, None) V1 source reference =
      (reference, Inr [JArray rows]) \<and>
    length rows = row_count (JObject m) \<and> (\<forall>v \<in> set rows. is_object v \<and> flattened v)"
  using ingest_rows [OF assms] by simp

theorem ingest_object_succeeds_witness:
  "\<exists>rows. convert_array_to_object sample_env sample_nested (None, None, None) V1 Json None =
     (None, Inr [JArray rows]) \<and> length rows = 2"
  using ingest_object_succeeds [of
      "[(''a'', JArray [JObject [(''b'', JNumber (PosInt 1))], JObject [(''c'', JNumber (PosInt 2))]]),
        (''d'', JObject [(''e'', JNumber (PosInt 4))])]" sample_env Json None None]
  by (auto simp: sample_nested_def sample_env_def)

text \<open>Such an ingestion silently drops an event that has a non-empty array of empty
  arrays in a field: the request succeeds with no rows, whatever the other fields hold.\<close>

theorem ingest_drops_event:
  assumes "1 + nesting (JObject m) \<le> event_flatten_level env"
    and "(k, JArray arr) \<in> set m" and "arr \<noteq> []" and "\<forall>v \<in> set arr. v = JArray []"
  shows "convert_array_to_object env (JObject m) (None, tpl, None) V1 Json reference =
    (reference, Inr [JArray []])"
proof -
  have "field_count m = 0"
    using field_count_zero [OF assms(2,3)] item_count_empty_arrays [OF assms(4)] by simp
  with ingest_rows [OF assms(1), of Json] show ?thesis by fastforce
qed

theorem ingest_drops_event_witness:
  "convert_array_to_object sample_env
     (JObject [(''a'', JArray [JArray []]), (''msg'', JString ''disk full'')]) (None, None, None) V1 Json None
   = (None, Inr [JArray []])"
  by (rule ingest_drops_event [where k = "''a''" and arr = "[JArray []]"])
    (simp_all add: sample_env_def)

text \<open>With a time or custom partition, whatever the body and the log source, every
  value an accepted request yields is a flattened one.\<close>

theorem ingest_partitioned_flattened:
  assumes "convert_array_to_object env body (tp, tpl, cp) sv source reference = (reference', Inr vs)"
    and "tp \<noteq> None \<or> cp \<noteq> None" and "v \<in> set vs"
  shows "flattened v"
proof -
  have "\<exists>arr. process_partitioned_array env arr (tp, tpl, cp) sv source reference = (reference', Inr vs)"
    using assms(1,2)
    by (auto simp: convert_array_to_object_def process_partitioned_non_array_def
        simp del: process_partitioned_array.simps split: json.splits if_splits)
  then show ?thesis using process_array_flattened assms(3) by blast
qed

theorem ingest_partitioned_flattened_witness: "flattened (JObject sample_event)"
proof -
  have trim: "trim ''os'' = ''os''" by (simp add: trim_def is_whitespace_def)
  have "convert_array_to_object sample_env (JArray [JObject sample_event])
      (Some ''ts'', None, Some ''os'') V0 Json None = (Some 1735689600000000000, Inr [JObject sample_event])"
    by (simp add: convert_array_to_object_def process_partitioned_element_def flatten_single_def
        should_apply_generic_flattening_def flatten_dict_def sample_env_def sample_event_def
        validate_time_partition_def validate_custom_partition_def trim check_custom_field_def
        join_key_def nanos_defs)
  from ingest_partitioned_flattened [OF this, of "JObject sample_event"] show ?thesis by simp
qed

end
