(* ===== verification/Strict_Json.thy ===== *)
theory Strict_Json
  imports Json
begin

text \<open>
  \<open>src/utils/json/strict.rs\<close>: the conversion of a deserialised document, which still has its
  duplicate keys, into a JSON value. Duplicate keys and doubles that are not finite are
  refused. \<open>serde_json\<close>'s constructors from 128-bit integers are parameters.
\<close>

datatype interim_value =
    INull
  | IBool bool
  | II64 i64
  | II128 "128 word"
  | IU64 u64
  | IU128 "128 word"
  | IF64 "real option" \<comment> \<open>\<open>None\<close>: an infinity or not a number\<close>
  | IString string
  | IArray "interim_value list"
  | IObject "(string \<times> interim_value) list"

datatype strict_error = NotAValidNumber | DuplicateKey

record serde_numbers =
  from_i128 :: "128 word \<Rightarrow> jnumber option"
  from_u128 :: "128 word \<Rightarrow> jnumber option"

text \<open>\<open>Number::from(i64)\<close>: a non-negative value is stored unsigned.\<close>

definition number_of_i64 :: "i64 \<Rightarrow> jnumber" where
  "number_of_i64 i = (if sint i < 0 then NegInt i else PosInt i)"

fun to_value :: "serde_numbers \<Rightarrow> interim_value \<Rightarrow> strict_error + json"
  and to_values :: "serde_numbers \<Rightarrow> interim_value list \<Rightarrow> strict_error + json list"
  and to_map :: "serde_numbers \<Rightarrow> jobject \<Rightarrow> (string \<times> interim_value) list \<Rightarrow> strict_error + jobject"
where
  "to_value n INull = Inr JNull"
| "to_value n (IBool b) = Inr (JBool b)"
| "to_value n (II64 i) = Inr (JNumber (number_of_i64 i))"
| "to_value n (II128 i) =
     Inr (JNumber (case from_i128 n i of Some num \<Rightarrow> num | None \<Rightarrow> number_of_i64 (ucast i)))"
| "to_value n (IU64 u) = Inr (JNumber (PosInt u))"
| "to_value n (IU128 u) =
     Inr (JNumber (case from_u128 n u of Some num \<Rightarrow> num | None \<Rightarrow> PosInt (ucast u)))"
| "to_value n (IF64 f) =
     (case f of Some x \<Rightarrow> Inr (JNumber (Float x)) | None \<Rightarrow> Inl NotAValidNumber)"
| "to_value n (IString s) = Inr (JString s)"
| "to_value n (IArray a) = bind_result (to_values n a) (\<lambda>vs. Inr (JArray vs))"
| "to_value n (IObject ob) = bind_result (to_map n [] ob) (\<lambda>m. Inr (JObject m))"
| "to_values n [] = Inr []"
| "to_values n (v # vs) =
     bind_result (to_value n v) (\<lambda>w. bind_result (to_values n vs) (\<lambda>ws. Inr (w # ws)))"
| "to_map n m [] = Inr m"
| "to_map n m ((k, v) # rest) =
     (if k \<in> set (keys_of m) then Inl DuplicateKey
      else bind_result (to_value n v) (\<lambda>w. to_map n (AList.update k w m) rest))"

text \<open>The documents that are accepted.\<close>

fun strict_ok :: "interim_value \<Rightarrow> bool" where
  "strict_ok (IF64 f) = (f \<noteq> None)"
| "strict_ok (IArray a) = (\<forall>v \<in> set a. strict_ok v)"
| "strict_ok (IObject ob) = (distinct_keys ob \<and> (\<forall>v \<in> snd ` set ob. strict_ok v))"
| "strict_ok _ = True"

lemmas strict_induct = to_value_to_values_to_map.induct

lemma to_value_ok_iff:
  "(\<exists>w. to_value n v = Inr w) \<longleftrightarrow> strict_ok v"
  "(\<exists>ws. to_values n vs = Inr ws) \<longleftrightarrow> (\<forall>v \<in> set vs. strict_ok v)"
  "(\<exists>m'. to_map n m ob = Inr m') \<longleftrightarrow>
   distinct_keys ob \<and> set (keys_of ob) \<inter> set (keys_of m) = {} \<and> (\<forall>v \<in> snd ` set ob. strict_ok v)"
proof (induction n v and n vs and n m ob rule: strict_induct)
  case (10 n ob)
  then show ?case by simp
next
  case (14 n m k v rest)
  show ?case
  proof (cases "k \<in> set (keys_of m)")
    case True
    then show ?thesis by auto
  next
    case False
    show ?thesis
    proof (cases "to_value n v")
      case (Inl e)
      with False 14(1) show ?thesis by auto
    next
      case (Inr w)
      with False 14(1) have "strict_ok v" by blast
      moreover have "(\<exists>m'. to_map n (AList.update k w m) rest = Inr m') \<longleftrightarrow>
          distinct_keys rest \<and> set (keys_of rest) \<inter> insert k (set (keys_of m)) = {} \<and>
          (\<forall>v \<in> snd ` set rest. strict_ok v)"
        using 14(2) [OF False Inr] by simp
      ultimately show ?thesis using False Inr by auto
    qed
  qed
qed (auto split: option.splits)

lemma to_value_wf:
  "to_value n v = Inr w \<Longrightarrow> wf_json w"
  "to_values n vs = Inr ws \<Longrightarrow> \<forall>w \<in> set ws. wf_json w"
  "to_map n m ob = Inr m' \<Longrightarrow> distinct_keys m \<Longrightarrow> \<forall>w \<in> snd ` set m. wf_json w \<Longrightarrow>
   distinct_keys m' \<and> (\<forall>w \<in> snd ` set m'. wf_json w)"
proof (induction n v and n vs and n m ob arbitrary: w and ws and m' rule: strict_induct)
  case (14 n m k v rest)
  then obtain x where x: "k \<notin> set (keys_of m)" "to_value n v = Inr x"
    "to_map n (AList.update k x m) rest = Inr m'" by (auto split: if_splits)
  with 14(1) have "wf_json x" by blast
  with 14(4,5) x(1) have "distinct_keys (AList.update k x m)"
    "\<forall>w \<in> snd ` set (AList.update k x m). wf_json w"
    by (auto simp: distinct_update AList_update_fresh)
  then show ?case by (rule 14(2) [OF x(1,2,3)])
qed (auto split: option.splits)

text \<open>The strict conversion accepts exactly the documents without a repeated key in any
  object and without a non-finite double.\<close>

theorem strict_accepts_iff: "(\<exists>w. to_value n v = Inr w) \<longleftrightarrow> strict_ok v"
  by (rule to_value_ok_iff(1))

text \<open>What the strict conversion returns is well formed: every object in it has distinct
  keys.\<close>

theorem strict_result_wf:
  assumes "to_value n v = Inr w"
  shows "wf_json w"
  using assms by (rule to_value_wf(1))

theorem strict_result_wf_witness:
  "wf_json (JObject [(''a'', JNumber (PosInt 1)), (''b'', JArray [JNull])])"
proof -
  have "to_value \<lparr>from_i128 = \<lambda>_. None, from_u128 = \<lambda>_. None\<rparr>
      (IObject [(''a'', IU64 1), (''b'', IArray [INull])])
    = Inr (JObject [(''a'', JNumber (PosInt 1)), (''b'', JArray [JNull])])"
    by simp
  then show ?thesis by (rule strict_result_wf)
qed

end
