(* ===== verification/Time_Prefix.thy ===== *)
theory Time_Prefix
  imports Chrono
begin

text \<open>
  \<open>src/utils/time.rs\<close>: time ranges, and the object store prefixes a query over a time range
  lists; with the path of a data file (\<open>filename_by_partition\<close> of
  \<open>src/parseable/streams.rs\<close>, \<open>stream_relative_path\<close> of
  \<open>src/storage/object_storage.rs\<close>). A panic (the assertion of \<open>to_slot\<close>, a granularity of
  0) is \<open>None\<close>. The text of a date is chrono's: the parameter \<open>show_date\<close>.
\<close>

record time_range =
  tr_start :: datetime
  tr_end :: datetime

record time_bounds =
  start_date :: date
  start_hour :: nat
  start_minute :: nat
  end_date :: date
  end_hour :: nat
  end_minute :: nat

text \<open>\<open>u32\<close> subtraction in a release build: it wraps.\<close>

definition sub_u32 :: "nat \<Rightarrow> nat \<Rightarrow> nat" where
  "sub_u32 a b = (if b \<le> a then a - b else 2 ^ 32 + a - b)"

definition spans_full_day :: "time_bounds \<Rightarrow> bool" where
  "spans_full_day b \<longleftrightarrow> sub_u32 (end_hour b) (start_hour b) \<ge> 24"

section \<open>Minutes and slots\<close>

definition minute_try_from :: "nat \<Rightarrow> nat + nat" where
  "minute_try_from block = (if block \<ge> 60 then Inl block else Inr block)"

definition to_slot :: "nat \<Rightarrow> nat \<Rightarrow> string option" where
  "to_slot data_granularity minute =
     (if data_granularity = 0 \<or> 60 mod data_granularity \<noteq> 0 then None
      else
        let block_n = minute div data_granularity;
            block_start = block_n * data_granularity in
        if data_granularity = 1 then Some (show_nat02 block_start)
        else
          let block_end = (block_n + 1) * data_granularity - 1 in
          Some (show_nat02 block_start @ ''-'' @ show_nat02 block_end))"

section \<open>Prefixes\<close>

definition date_prefix :: "(date \<Rightarrow> string) \<Rightarrow> date \<Rightarrow> string" where
  "date_prefix show_date d = ''date='' @ show_date d @ ''/''"

definition hour_prefix :: "string \<Rightarrow> nat \<Rightarrow> string" where
  "hour_prefix dp h = dp @ ''hour='' @ show_nat02 h @ ''/''"

definition minute_prefix :: "string \<Rightarrow> string \<Rightarrow> string" where
  "minute_prefix hp slot = hp @ ''minute='' @ slot @ ''/''"

text \<open>A step that may panic, over a list, appending what each step pushes.\<close>

fun concat_option :: "'a list option list \<Rightarrow> 'a list option" where
  "concat_option [] = Some []"
| "concat_option (None # xs) = None"
| "concat_option (Some x # xs) = map_option ((@) x) (concat_option xs)"

definition push_prefix :: "nat \<Rightarrow> string \<Rightarrow> nat \<Rightarrow> string list option" where
  "push_prefix data_granularity hp block =
     (case minute_try_from (block * data_granularity) of
        Inl _ \<Rightarrow> Some []
      | Inr minute \<Rightarrow> map_option (\<lambda>slot. [minute_prefix hp slot]) (to_slot data_granularity minute))"

definition generate_minute_prefixes :: "nat \<Rightarrow> string \<Rightarrow> nat \<Rightarrow> nat \<Rightarrow> string list option" where
  "generate_minute_prefixes data_granularity hp start_block end_block =
     concat_option
       (map (push_prefix data_granularity hp) [start_block..<end_block] @
        (if data_granularity > 1 then [push_prefix data_granularity hp end_block] else []))"

definition process_minutes ::
  "nat \<Rightarrow> string \<Rightarrow> bool \<Rightarrow> bool \<Rightarrow> time_bounds \<Rightarrow> string list option" where
  "process_minutes data_granularity hp is_start_hour is_end_hour b =
     (let sm = (if is_start_hour then start_minute b else 0);
          em = (if is_end_hour then end_minute b else 60) in
      if sm = em then Some []
      else if data_granularity = 0 then None
      else
        let start_block = sm div data_granularity;
            end_block = em div data_granularity;
            forbidden_block = 60 div data_granularity in
        if sub_u32 end_block start_block \<ge> forbidden_block then Some [hp]
        else generate_minute_prefixes data_granularity hp start_block end_block)"

definition process_hour :: "nat \<Rightarrow> string \<Rightarrow> time_bounds \<Rightarrow> nat \<Rightarrow> string list option" where
  "process_hour data_granularity dp b hour =
     (let hp = hour_prefix dp hour;
          is_start_hour = (hour = start_hour b);
          is_end_hour = (hour = end_hour b) in
      if \<not> is_start_hour \<and> \<not> is_end_hour then Some [hp]
      else process_minutes data_granularity hp is_start_hour is_end_hour b)"

text \<open>The loop over \<open>start_hour..=end_hour\<close> breaks at hour 24.\<close>

definition process_hours :: "nat \<Rightarrow> string \<Rightarrow> time_bounds \<Rightarrow> string list option" where
  "process_hours data_granularity dp b =
     concat_option (map (process_hour data_granularity dp b)
       (takeWhile (\<lambda>hour. hour \<noteq> 24) [start_hour b..<Suc (end_hour b)]))"

definition get_time_bounds :: "bool \<Rightarrow> bool \<Rightarrow> time_bounds \<Rightarrow> time_bounds" where
  "get_time_bounds is_start is_end b =
     (let b1 = (if is_start then b else b\<lparr>start_hour := 0, start_minute := 0\<rparr>) in
      if is_end then b1 else b1\<lparr>end_hour := 24, end_minute := 60\<rparr>)"

definition process_date ::
  "(date \<Rightarrow> string) \<Rightarrow> nat \<Rightarrow> time_bounds \<Rightarrow> date \<Rightarrow> string list option" where
  "process_date show_date data_granularity bounds d =
     (let dp = date_prefix show_date d;
          is_start = (d = start_date bounds);
          is_end = (d = end_date bounds) in
      if \<not> is_start \<and> \<not> is_end then Some [dp]
      else
        let b = get_time_bounds is_start is_end bounds in
        if spans_full_day b then Some [dp]
        else process_hours data_granularity dp b)"

definition calculate_time_bounds :: "time_range \<Rightarrow> time_bounds" where
  "calculate_time_bounds r =
     \<lparr>start_date = date_naive (tr_start r),
      start_hour = hour_of (tr_start r),
      start_minute = minute_of (tr_start r),
      end_date = date_naive (tr_end r),
      end_hour = hour_of (tr_end r),
      end_minute = minute_of (tr_end r) + (if second_of (tr_end r) > 0 then 1 else 0)\<rparr>"

text \<open>The loop over the dates: from the start date while at most the end date.\<close>

function dates_from :: "date \<Rightarrow> date \<Rightarrow> date list" where
  "dates_from current_date until =
     (if current_date \<le> until then current_date # dates_from (current_date + 1) until else [])"
  by pat_completeness auto
termination
  by (relation "measure (\<lambda>(current_date, until). nat (until - current_date + 1))") auto

declare dates_from.simps [simp del]

definition generate_prefixes :: "(date \<Rightarrow> string) \<Rightarrow> time_range \<Rightarrow> nat \<Rightarrow> string list option" where
  "generate_prefixes show_date r data_granularity =
     (let bounds = calculate_time_bounds r in
      concat_option (map (process_date show_date data_granularity bounds)
        (dates_from (start_date bounds) (end_date bounds))))"

section \<open>Ranges\<close>

definition granularity_range :: "datetime \<Rightarrow> nat \<Rightarrow> time_range" where
  "granularity_range timestamp data_granularity =
     (let block_n = minute_of timestamp div data_granularity;
          block_start = block_n * data_granularity;
          start = date_naive timestamp * nanos_per_day + int (hour_of timestamp) * nanos_per_hour +
                  int block_start * nanos_per_minute in
      \<lparr>tr_start = start, tr_end = start + int data_granularity * nanos_per_minute\<rparr>)"

definition contains :: "time_range \<Rightarrow> datetime \<Rightarrow> bool" where
  "contains r t \<longleftrightarrow> tr_start r \<le> t \<and> tr_end r > t"

definition truncate_to_minute :: "datetime \<Rightarrow> datetime" where
  "truncate_to_minute t =
     date_naive t * nanos_per_day + int (hour_of t) * nanos_per_hour +
     int (minute_of t) * nanos_per_minute"

text \<open>Parsing a range: the humantime and RFC 3339 parsers and the clock are parameters.\<close>

datatype time_parse_error = HumanTime | OutOfRange | Chrono | StartTimeAfterEndTime

record 'd time_parsers =
  human_duration :: "string \<Rightarrow> 'd option" \<comment> \<open>a \<open>std::time::Duration\<close>\<close>
  from_std :: "'d \<Rightarrow> int option" \<comment> \<open>its nanoseconds, when in chrono's range\<close>
  rfc3339 :: "string \<Rightarrow> datetime option"
  now :: datetime

definition parse_human_time ::
  "'d time_parsers \<Rightarrow> string \<Rightarrow> string \<Rightarrow> time_parse_error + time_range" where
  "parse_human_time p start_time end_time =
     bind_result
       (if end_time = ''now''
        then (case human_duration p start_time of
                None \<Rightarrow> Inl HumanTime
              | Some std \<Rightarrow>
                  (case from_std p std of
                     None \<Rightarrow> Inl OutOfRange
                   | Some d \<Rightarrow> Inr (now p - d, now p)))
        else (case rfc3339 p start_time of
                None \<Rightarrow> Inl Chrono
              | Some s \<Rightarrow> (case rfc3339 p end_time of None \<Rightarrow> Inl Chrono | Some e \<Rightarrow> Inr (s, e))))
       (\<lambda>(s, e).
          let start = truncate_to_minute s; end' = truncate_to_minute e in
          if start > end' then Inl StartTimeAfterEndTime
          else Inr \<lparr>tr_start = start, tr_end = end'\<rparr>)"

section \<open>The path of a data file\<close>

text \<open>\<open>str::replacen\<close> of one character.\<close>

fun replacen :: "char \<Rightarrow> char \<Rightarrow> nat \<Rightarrow> string \<Rightarrow> string" where
  "replacen a b n [] = []"
| "replacen a b 0 s = s"
| "replacen a b (Suc n) (c # s) =
     (if c = a then b # replacen a b n s else c # replacen a b (Suc n) s)"

text \<open>The name of an arrow file after its schema hash and its parquet file's name: the
  date, hour and slot of its events, then \<open>rest\<close> (custom partitions, host, extension).\<close>

definition file_name ::
  "(date \<Rightarrow> string) \<Rightarrow> nat \<Rightarrow> datetime \<Rightarrow> string \<Rightarrow> string option" where
  "file_name show_date data_granularity t rest =
     map_option (\<lambda>slot. ''date='' @ show_date (date_naive t) @ ''.hour='' @ show_nat02 (hour_of t) @
         ''.minute='' @ slot @ ''.'' @ rest)
       (to_slot data_granularity (minute_of t))"

definition stream_relative_path :: "string \<Rightarrow> string \<Rightarrow> string option \<Rightarrow> string" where
  "stream_relative_path stream_name filename custom_partition =
     stream_name @ ''/'' @
     replacen CHR ''.'' CHR ''/''
       (3 + (case custom_partition of None \<Rightarrow> 0 | Some cp \<Rightarrow> length (split_on CHR '','' cp))) filename"

section \<open>Lists of steps that may panic\<close>

lemma concat_option_total:
  "(\<And>x. x \<in> set xs \<Longrightarrow> \<exists>l. x = Some l) \<Longrightarrow> \<exists>ys. concat_option xs = Some ys"
proof (induction xs)
  case (Cons x xs)
  then obtain l ys where "x = Some l" "concat_option xs = Some ys" by fastforce
  then show ?case by simp
qed simp

lemma concat_option_set:
  "concat_option xs = Some ys \<Longrightarrow> p \<in> set ys \<longleftrightarrow> (\<exists>l. Some l \<in> set xs \<and> p \<in> set l)"
proof (induction xs arbitrary: ys)
  case (Cons x xs)
  then show ?case by (cases x) auto
qed simp

lemma concat_option_map:
  assumes "\<And>d. d \<in> set ds \<Longrightarrow> \<exists>l. f d = Some l"
    and "d \<in> set ds" and "\<And>l. f d = Some l \<Longrightarrow> \<exists>p \<in> set l. Q p"
  shows "\<exists>ys. concat_option (map f ds) = Some ys \<and> (\<exists>p \<in> set ys. Q p)"
proof -
  obtain ys where ys: "concat_option (map f ds) = Some ys"
    using concat_option_total [of "map f ds"] assms(1) by auto
  obtain l where l: "f d = Some l" using assms(1,2) by blast
  then obtain p where p: "p \<in> set l" "Q p" using assms(3) by blast
  have "Some l \<in> set (map f ds)" using l assms(2) by force
  with p ys show ?thesis using concat_option_set by metis
qed

section \<open>No panic: the granularity divides the hour\<close>

definition divides_hour :: "nat \<Rightarrow> bool" where
  "divides_hour g \<longleftrightarrow> 0 < g \<and> g dvd 60"

lemma to_slot_total: "divides_hour g \<Longrightarrow> \<exists>slot. to_slot g m = Some slot"
  by (auto simp: divides_hour_def to_slot_def Let_def)

lemma push_prefix_total: "divides_hour g \<Longrightarrow> \<exists>l. push_prefix g hp b = Some l"
  using to_slot_total [of g "b * g"]
  by (auto simp: push_prefix_def minute_try_from_def split: sum.splits)

lemma generate_minute_prefixes_total:
  "divides_hour g \<Longrightarrow> \<exists>l. generate_minute_prefixes g hp a b = Some l"
  unfolding generate_minute_prefixes_def
  by (rule concat_option_total) (auto simp: push_prefix_total split: if_splits)

lemma process_minutes_total: "divides_hour g \<Longrightarrow> \<exists>l. process_minutes g hp s e b = Some l"
  using generate_minute_prefixes_total
  by (simp add: process_minutes_def Let_def) (auto simp: divides_hour_def)

lemma process_hour_total: "divides_hour g \<Longrightarrow> \<exists>l. process_hour g dp b h = Some l"
  using process_minutes_total by (simp add: process_hour_def Let_def)

lemma process_hours_total: "divides_hour g \<Longrightarrow> \<exists>l. process_hours g dp b = Some l"
  unfolding process_hours_def by (rule concat_option_total) (auto simp: process_hour_total)

lemma process_date_total: "divides_hour g \<Longrightarrow> \<exists>l. process_date sd g b d = Some l"
  using process_hours_total by (simp add: process_date_def Let_def)

section \<open>Coverage\<close>

lemma slot_of_block: "0 < g \<Longrightarrow> to_slot g (m div g * g) = to_slot g m"
  by (simp add: to_slot_def Let_def)

lemma minutes_covered:
  assumes g: "divides_hour g"
    and m: "m < 60" "(if s then start_minute b else 0) \<le> m" "m < (if e then end_minute b else 60)"
    and slot: "to_slot g m = Some slot"
    and l: "process_minutes g hp s e b = Some l"
  shows "\<exists>p \<in> set l. prefix p (minute_prefix hp slot)"
proof -
  let ?sm = "if s then start_minute b else 0" and ?em = "if e then end_minute b else 60"
  have g0: "0 < g" using g by (simp add: divides_hour_def)
  let ?blocks = "map (push_prefix g hp) [?sm div g..<?em div g] @
      (if g > 1 then [push_prefix g hp (?em div g)] else [])"
  show ?thesis
  proof (cases "sub_u32 (?em div g) (?sm div g) \<ge> 60 div g")
    case True
    with l m g0 have "l = [hp]" by (auto simp: process_minutes_def Let_def split: if_splits)
    then show ?thesis by (simp add: minute_prefix_def)
  next
    case False
    with l m g0 have "generate_minute_prefixes g hp (?sm div g) (?em div g) = Some l"
      by (simp add: process_minutes_def Let_def split: if_splits)
    then have run: "concat_option ?blocks = Some l" by (simp add: generate_minute_prefixes_def)
    have "m div g * g < 60" using m(1) by (rule le_less_trans [rotated]) simp
    then have push: "push_prefix g hp (m div g) = Some [minute_prefix hp slot]"
      using slot g0 by (simp add: push_prefix_def minute_try_from_def slot_of_block)
    have lower: "?sm div g \<le> m div g" using m(2) by (rule div_le_mono)
    have upper: "m div g \<le> ?em div g" using m(3) by (intro div_le_mono) simp
    have "push_prefix g hp (m div g) \<in> set ?blocks"
    proof (cases "m div g = ?em div g")
      case True
      with m(3) g0 have "g > 1" by (cases "g = 1") auto
      with True show ?thesis by simp
    next
      case False
      with lower upper have "m div g \<in> set [?sm div g..<?em div g]" by simp
      then show ?thesis by simp
    qed
    with push have "Some [minute_prefix hp slot] \<in> set ?blocks" by simp
    then have "minute_prefix hp slot \<in> set l" using concat_option_set [OF run] by force
    then show ?thesis by blast
  qed
qed

lemma upt_takeWhile: "n \<le> 24 \<Longrightarrow> h < 24 \<Longrightarrow> s \<le> h \<Longrightarrow> h \<le> n \<Longrightarrow>
  h \<in> set (takeWhile (\<lambda>hour. hour \<noteq> 24) [s..<Suc n])"
proof -
  assume a: "n \<le> 24" "h < 24" "s \<le> h" "h \<le> n"
  have "Suc n = Suc h + (n - h)" using a by simp
  then have "[s..<Suc n] = [s..<Suc h] @ [Suc h..<Suc n]"
    using upt_add_eq_append [of s "Suc h" "n - h"] a by simp
  moreover have "takeWhile (\<lambda>hour. hour \<noteq> 24) ([s..<Suc h] @ [Suc h..<Suc n]) =
      [s..<Suc h] @ takeWhile (\<lambda>hour. hour \<noteq> 24) [Suc h..<Suc n]"
    using a by (intro takeWhile_append2) auto
  moreover have "h \<in> set [s..<Suc h]" using a by simp
  ultimately show ?thesis by (metis Un_iff set_append)
qed

lemma hours_covered:
  assumes g: "divides_hour g" and m: "m < 60" and h: "h < 24" "start_hour b \<le> h" "h \<le> end_hour b"
    and bounds: "end_hour b \<le> 24"
    and lower: "h = start_hour b \<Longrightarrow> start_minute b \<le> m"
    and upper: "h = end_hour b \<Longrightarrow> m < end_minute b"
    and slot: "to_slot g m = Some slot"
    and l: "process_hours g dp b = Some l"
  shows "\<exists>p \<in> set l. prefix p (minute_prefix (hour_prefix dp h) slot)"
proof -
  let ?hours = "takeWhile (\<lambda>hour. hour \<noteq> 24) [start_hour b..<Suc (end_hour b)]"
  have "h \<in> set ?hours" using upt_takeWhile [OF bounds h(1,2,3)] .
  moreover have "\<exists>p \<in> set k. prefix p (minute_prefix (hour_prefix dp h) slot)"
    if k: "process_hour g dp b h = Some k" for k
  proof (cases "h = start_hour b \<or> h = end_hour b")
    case True
    with k have "process_minutes g (hour_prefix dp h) (h = start_hour b) (h = end_hour b) b = Some k"
      by (auto simp: process_hour_def Let_def)
    from minutes_covered [OF g m _ _ slot this] lower upper m show ?thesis by auto
  next
    case False
    with k show ?thesis by (auto simp: process_hour_def Let_def minute_prefix_def)
  qed
  ultimately have "\<exists>ys. concat_option (map (process_hour g dp b) ?hours) = Some ys \<and>
      (\<exists>p \<in> set ys. prefix p (minute_prefix (hour_prefix dp h) slot))"
    by (intro concat_option_map process_hour_total [OF g])
  with l show ?thesis by (simp add: process_hours_def)
qed

lemma get_time_bounds_fields:
  "start_hour (get_time_bounds s e b) = (if s then start_hour b else 0)"
  "start_minute (get_time_bounds s e b) = (if s then start_minute b else 0)"
  "end_hour (get_time_bounds s e b) = (if e then end_hour b else 24)"
  "end_minute (get_time_bounds s e b) = (if e then end_minute b else 60)"
  by (simp_all add: get_time_bounds_def Let_def)

text \<open>Where a minute of the clock lies, relative to the bounds of a range.\<close>

definition within_bounds :: "time_bounds \<Rightarrow> date \<Rightarrow> nat \<Rightarrow> nat \<Rightarrow> bool" where
  "within_bounds b d h m \<longleftrightarrow>
     (start_date b < d \<or> (start_date b = d \<and>
        (start_hour b < h \<or> (start_hour b = h \<and> start_minute b \<le> m)))) \<and>
     (d < end_date b \<or> (d = end_date b \<and>
        (h < end_hour b \<or> (h = end_hour b \<and> m < end_minute b))))"

lemma date_covered:
  assumes g: "divides_hour g" and m: "m < 60" and h: "h < 24" and e: "end_hour b < 24"
    and within: "within_bounds b d h m"
    and slot: "to_slot g m = Some slot"
    and l: "process_date sd g b d = Some l"
  shows "\<exists>p \<in> set l. prefix p (minute_prefix (hour_prefix (date_prefix sd d) h) slot)"
proof -
  let ?dp = "date_prefix sd d"
  let ?b = "get_time_bounds (d = start_date b) (d = end_date b) b"
  have dp: "prefix ?dp (minute_prefix (hour_prefix ?dp h) slot)"
    by (simp add: minute_prefix_def hour_prefix_def)
  show ?thesis
  proof (cases "(d \<noteq> start_date b \<and> d \<noteq> end_date b) \<or> spans_full_day ?b")
    case True
    with l have "l = [?dp]" by (auto simp: process_date_def Let_def split: if_splits)
    with dp show ?thesis by simp
  next
    case False
    with l have run: "process_hours g ?dp ?b = Some l"
      by (auto simp: process_date_def Let_def split: if_splits)
    have lo: "start_hour ?b \<le> h" "h = start_hour ?b \<Longrightarrow> start_minute ?b \<le> m"
      using within unfolding within_bounds_def get_time_bounds_fields by (simp_all split: if_splits; linarith)+
    have hi: "h \<le> end_hour ?b" "h = end_hour ?b \<Longrightarrow> m < end_minute ?b" "end_hour ?b \<le> 24"
      using within e h m unfolding within_bounds_def get_time_bounds_fields by (simp_all split: if_splits; linarith)+
    show ?thesis by (rule hours_covered [OF g m h lo(1) hi(1,3) lo(2) hi(2) slot run])
  qed
qed

lemma set_dates_from: "set (dates_from a b) = {a..b}"
proof (induction a b rule: dates_from.induct)
  case (1 a b)
  then show ?case by (subst dates_from.simps) auto
qed

definition object_prefix :: "(date \<Rightarrow> string) \<Rightarrow> datetime \<Rightarrow> string \<Rightarrow> string" where
  "object_prefix sd t slot =
     minute_prefix (hour_prefix (date_prefix sd (date_naive t)) (hour_of t)) slot"

lemma range_within_bounds:
  assumes "tr_start r \<le> t" and "t < tr_end r" and "tr_end r mod nanos_per_second = 0"
  shows "within_bounds (calculate_time_bounds r) (date_naive t) (hour_of t) (minute_of t)"
proof -
  have "minute_of t < minute_of (tr_end r) + (if second_of (tr_end r) > 0 then 1 else 0)"
    if "date_naive t = date_naive (tr_end r)" "hour_of t = hour_of (tr_end r)"
      "minute_of t \<le> minute_of (tr_end r)"
  proof (cases "minute_of t = minute_of (tr_end r)")
    case True
    with that have "minutes_of t = minutes_of (tr_end r)" by (simp add: minutes_of_fields)
    from same_minute_second [OF assms(2) this assms(3)] True show ?thesis by simp
  qed (use that in simp)
  with fields_le [OF assms(1)] fields_le [of t "tr_end r"] assms(2) show ?thesis
    by (auto simp: within_bounds_def calculate_time_bounds_def)
qed

lemma prefixes_cover:
  assumes g: "divides_hour g"
    and within: "within_bounds (calculate_time_bounds r) (date_naive t) (hour_of t) (minute_of t)"
    and slot: "to_slot g (minute_of t) = Some slot"
  shows "\<exists>ps. generate_prefixes sd r g = Some ps \<and> (\<exists>p \<in> set ps. prefix p (object_prefix sd t slot))"
proof -
  let ?b = "calculate_time_bounds r"
  have "date_naive t \<in> set (dates_from (start_date ?b) (end_date ?b))"
    using within by (auto simp: set_dates_from within_bounds_def)
  moreover have "end_hour ?b < 24" by (simp add: calculate_time_bounds_def hour_less)
  note date_covered [OF g minute_less hour_less this within slot]
  ultimately show ?thesis
    unfolding generate_prefixes_def Let_def object_prefix_def
    by (intro concat_option_map process_date_total [OF g]) auto
qed

section \<open>Paths of data files\<close>

lemma replacen_skip: "a \<notin> set s \<Longrightarrow> replacen a b n (s @ t) = s @ replacen a b n t"
proof (induction s)
  case (Cons c s)
  then show ?case by (cases n) (auto split: list.splits, (cases t; simp)+)
qed simp

lemma replacen_hit: "replacen a b (Suc n) (a # t) = b # replacen a b n t"
  by simp

lemma digits_no_dot: "list_all is_ascii_digit s \<Longrightarrow> CHR ''.'' \<notin> set s"
  by (auto simp: list_all_iff is_ascii_digit_def less_eq_char_def)

lemma show_nat02_no_dot: "CHR ''.'' \<notin> set (show_nat02 n)"
  using digits_no_dot [OF show_nat_digits [of n]] by (simp add: show_nat02_def)

lemma to_slot_no_dot: "to_slot g m = Some slot \<Longrightarrow> CHR ''.'' \<notin> set slot"
  using show_nat02_no_dot by (auto simp: to_slot_def Let_def split: if_splits)

lemma file_path_prefix:
  assumes "file_name sd g t rest = Some f" and "CHR ''.'' \<notin> set (sd (date_naive t))"
  shows "\<exists>slot. to_slot g (minute_of t) = Some slot \<and>
    prefix (stream @ ''/'' @ object_prefix sd t slot) (stream_relative_path stream f cp)"
proof -
  obtain slot where slot: "to_slot g (minute_of t) = Some slot"
    and f: "f = (''date='' @ sd (date_naive t)) @ CHR ''.'' # (''hour='' @ show_nat02 (hour_of t)) @
      CHR ''.'' # (''minute='' @ slot) @ CHR ''.'' # rest"
    using assms(1) by (auto simp: file_name_def)
  have nodot: "CHR ''.'' \<notin> set (''date='' @ sd (date_naive t))"
    "CHR ''.'' \<notin> set (''hour='' @ show_nat02 (hour_of t))" "CHR ''.'' \<notin> set (''minute='' @ slot)"
    using assms(2) show_nat02_no_dot to_slot_no_dot [OF slot] by auto
  have "replacen CHR ''.'' CHR ''/'' (Suc (Suc (Suc n))) f =
      (''date='' @ sd (date_naive t)) @ CHR ''/'' # (''hour='' @ show_nat02 (hour_of t)) @
      CHR ''/'' # (''minute='' @ slot) @ CHR ''/'' # replacen CHR ''.'' CHR ''/'' n rest" for n
    unfolding f replacen_skip [OF nodot(1)] replacen_hit replacen_skip [OF nodot(2)]
      replacen_skip [OF nodot(3)] ..
  moreover obtain n where "stream_relative_path stream f cp =
      stream @ ''/'' @ replacen CHR ''.'' CHR ''/'' (Suc (Suc (Suc n))) f"
    by (auto simp: stream_relative_path_def eval_nat_numeral split: option.splits)
  ultimately show ?thesis
    using slot by (auto simp: object_prefix_def date_prefix_def hour_prefix_def minute_prefix_def)
qed

section \<open>Granularity ranges\<close>

lemma nanos_minutes: "nanos_per_day = 1440 * nanos_per_minute" "nanos_per_hour = 60 * nanos_per_minute"
  "0 < nanos_per_minute"
  by (simp_all add: nanos_defs)

lemma minute_le_iff: "a * nanos_per_minute \<le> t \<longleftrightarrow> a \<le> minutes_of t"
proof
  assume "a * nanos_per_minute \<le> t"
  then have "a * nanos_per_minute div nanos_per_minute \<le> t div nanos_per_minute"
    using nanos_minutes(3) by (rule zdiv_mono1)
  then show "a \<le> minutes_of t" using nanos_minutes(3) by (simp add: minutes_of_def)
next
  assume "a \<le> minutes_of t"
  then have "a * nanos_per_minute \<le> minutes_of t * nanos_per_minute"
    using nanos_minutes(3) by (intro mult_right_mono) simp_all
  also have "\<dots> \<le> t"
    using div_mult_mod_eq [of t nanos_per_minute] nanos_minutes(3)
      pos_mod_sign [of nanos_per_minute t] unfolding minutes_of_def by linarith
  finally show "a * nanos_per_minute \<le> t" .
qed

lemma contains_minutes:
  "contains \<lparr>tr_start = a * nanos_per_minute, tr_end = b * nanos_per_minute\<rparr> t \<longleftrightarrow>
   a \<le> minutes_of t \<and> minutes_of t < b"
  using minute_le_iff [of a t] minute_le_iff [of b t] by (auto simp: contains_def)

lemma granularity_range_minutes:
  "granularity_range t g =
     (let a = date_naive t * 1440 + int (hour_of t) * 60 + int (minute_of t div g * g) in
      \<lparr>tr_start = a * nanos_per_minute, tr_end = (a + int g) * nanos_per_minute\<rparr>)"
  by (simp add: granularity_range_def Let_def nanos_minutes algebra_simps)

lemma granularity_range_iff:
  "contains (granularity_range t g) u \<longleftrightarrow>
   (let a = minutes_of t - int (minute_of t mod g) in a \<le> minutes_of u \<and> minutes_of u < a + int g)"
proof -
  have "minute_of t div g * g + minute_of t mod g = minute_of t" by (rule div_mult_mod_eq)
  then have "int (minute_of t div g * g) = int (minute_of t) - int (minute_of t mod g)" by linarith
  then show ?thesis
    unfolding granularity_range_minutes Let_def contains_minutes minutes_of_fields by linarith
qed

lemma truncate_minutes: "truncate_to_minute t = minutes_of t * nanos_per_minute"
  by (simp add: truncate_to_minute_def minutes_of_fields nanos_minutes algebra_simps)

text \<open>A granularity that divides the hour divides the clock: blocks do not cross hours.\<close>

lemma same_block_arith:
  fixes m n :: int and g :: nat
  assumes "divides_hour g" and "m - m mod 60 mod int g \<le> n" and "n < m - m mod 60 mod int g + int g"
  shows "n div int g = m div int g"
proof -
  obtain k where k: "60 = int g * k" using assms(1) by (auto simp: divides_hour_def dvd_def)
      (metis of_nat_mult of_nat_numeral)
  have "m mod 60 mod int g = m mod int g" using assms(1)
    by (intro mod_mod_cancel) (auto simp: divides_hour_def dvd_def k)
  then have "int g * (m div int g) \<le> n" "n < int g * (m div int g) + int g"
    using assms(2,3) by (simp_all add: minus_mod_eq_mult_div)
  then show ?thesis using assms(1)
    by (intro int_div_pos_eq [where r = "n - int g * (m div int g)"]) auto
qed

lemma hour_of_div: "hour_of t = nat (minutes_of t div 60 mod 24)"
proof -
  have "minutes_of t mod (60 * 24) = 60 * (minutes_of t div 60 mod 24) + minutes_of t mod 60"
    by (rule zmod_zmult2_eq) simp
  then have "minutes_of t mod 1440 div 60 = minutes_of t div 60 mod 24" by simp
  then show ?thesis by (simp add: hour_of_def)
qed

lemma date_naive_hours: "date_naive t = minutes_of t div 60 div 24"
  using zdiv_zmult2_eq [of 24 "minutes_of t" 60] by (simp add: date_naive_def)

lemma same_block_path:
  assumes g: "divides_hour g" and block: "minutes_of u div int g = minutes_of t div int g"
  shows "date_naive u = date_naive t" "hour_of u = hour_of t"
    "minute_of u div g = minute_of t div g"
proof -
  obtain k where "60 = g * k" using g by (auto simp: divides_hour_def dvd_def)
  then have "int 60 = int (g * k)" by (rule arg_cong)
  then have k: "60 = int g * int k" by simp
  have hours: "minutes_of v div 60 = minutes_of v div int g div int k" for v
    unfolding k by (rule zdiv_zmult2_eq) simp
  then have eq: "minutes_of u div 60 = minutes_of t div 60" by (simp add: block)
  then show "date_naive u = date_naive t" "hour_of u = hour_of t"
    by (simp_all add: date_naive_hours hour_of_div)
  have "int (minute_of v div g) = minutes_of v div int g mod int k" for v
  proof -
    have "minutes_of v mod (int g * int k) = int g * (minutes_of v div int g mod int k) + minutes_of v mod int g"
      by (rule zmod_zmult2_eq) simp
    moreover have "int (minute_of v) = minutes_of v mod (int g * int k)"
      by (simp add: minute_of_def k [symmetric])
    moreover have "0 < int g" "0 \<le> minutes_of v mod int g" "minutes_of v mod int g < int g"
      using g by (simp_all add: divides_hour_def)
    ultimately show ?thesis by (simp add: zdiv_int div_add1_eq)
  qed
  then show "minute_of u div g = minute_of t div g" using block by (metis of_nat_eq_iff)
qed

lemma same_block_slot:
  "minute_of u div g = minute_of t div g \<Longrightarrow> to_slot g (minute_of u) = to_slot g (minute_of t)"
  by (simp add: to_slot_def Let_def)

lemma truncate_aligned:
  "truncate_to_minute t mod nanos_per_minute = 0" "truncate_to_minute t mod nanos_per_second = 0"
proof -
  show "truncate_to_minute t mod nanos_per_minute = 0" by (simp add: truncate_minutes)
  have "truncate_to_minute t = (minutes_of t * 60) * nanos_per_second"
    by (simp add: truncate_minutes nanos_defs)
  then show "truncate_to_minute t mod nanos_per_second = 0" by (simp only: mod_mult_self2_is_0)
qed

lemma parse_human_time_truncates:
  assumes "parse_human_time p start_time end_time = Inr r"
  shows "tr_start r \<le> tr_end r \<and>
    (\<exists>t u. tr_start r = truncate_to_minute t \<and> tr_end r = truncate_to_minute u)"
  using assms
  by (auto simp: parse_human_time_def Let_def 
      split: if_splits option.splits)

section \<open>Properties\<close>

text \<open>C31: The prefixes generated for a time range cover it: generation does not panic when
  the granularity divides the hour, and for every instant of a range whose end is a whole
  second, every data file written for that instant lies under one of the generated prefixes
  (so a query that lists them misses no file of the range).\<close>

theorem generate_prefixes_cover:
  assumes "divides_hour g" and "contains r t" and "tr_end r mod nanos_per_second = 0"
    and "file_name sd g t rest = Some f" and "CHR ''.'' \<notin> set (sd (date_naive t))"
  shows "\<exists>ps. generate_prefixes sd r g = Some ps \<and>
    (\<exists>p \<in> set ps. prefix (stream @ ''/'' @ p) (stream_relative_path stream f cp))"
proof -
  obtain slot where slot: "to_slot g (minute_of t) = Some slot"
    "prefix (stream @ ''/'' @ object_prefix sd t slot) (stream_relative_path stream f cp)"
    using file_path_prefix [OF assms(4,5)] by blast
  have "within_bounds (calculate_time_bounds r) (date_naive t) (hour_of t) (minute_of t)"
    using range_within_bounds assms(2,3) by (simp add: contains_def)
  then obtain ps p where p: "generate_prefixes sd r g = Some ps" "p \<in> set ps"
    "prefix p (object_prefix sd t slot)"
    using prefixes_cover [OF assms(1) _ slot(1)] by blast
  then have "prefix (stream @ ''/'' @ p) (stream @ ''/'' @ object_prefix sd t slot)" by simp
  then have "prefix (stream @ ''/'' @ p) (stream_relative_path stream f cp)"
    using slot(2) by (rule prefix_order.trans)
  with p show ?thesis by blast
qed

definition sample_range :: time_range where
  "sample_range = \<lparr>tr_start = 5 * nanos_per_minute, tr_end = 8 * nanos_per_minute\<rparr>"

theorem generate_prefixes_cover_witness:
  "\<exists>ps. generate_prefixes (\<lambda>_. ''1970-01-01'') sample_range 1 = Some ps \<and>
    (\<exists>p \<in> set ps. prefix (''demo'' @ ''/'' @ p)
      (stream_relative_path ''demo'' ''date=1970-01-01.hour=00.minute=06.host.data.parquet'' None))"
proof -
  have digits: "show_nat02 0 = ''00''" "show_nat02 6 = ''06''" by code_simp+
  show ?thesis
    by (rule generate_prefixes_cover [where t = "6 * nanos_per_minute" and rest = "''host.data.parquet''"])
      (simp_all add: divides_hour_def contains_def sample_range_def nanos_defs file_name_def
        minute_of_def hour_of_def minutes_of_def to_slot_def digits)
qed

text \<open>The end of a range is only rounded up to the next minute when its seconds are not
  zero: for a range inside one minute whose end has zero seconds, no prefix is generated,
  although the range is not empty when its end has a fraction of a second.\<close>

theorem generate_prefixes_miss_subsecond:
  assumes "minutes_of (tr_start r) = minutes_of (tr_end r)" and "second_of (tr_end r) = 0"
  shows "generate_prefixes sd r g = Some []"
proof -
  let ?s = "tr_start r" and ?e = "tr_end r"
  have eq: "date_naive ?s = date_naive ?e" "hour_of ?s = hour_of ?e" "minute_of ?s = minute_of ?e"
    using assms(1) by (simp_all add: date_naive_def hour_of_def minute_of_def)
  have "takeWhile (\<lambda>hour. hour \<noteq> 24) [hour_of ?e..<Suc (hour_of ?e)] = [hour_of ?e]"
    using hour_less [of ?e] by simp
  then show ?thesis using eq assms(2)
    by (simp add: generate_prefixes_def calculate_time_bounds_def Let_def dates_from.simps
        process_date_def get_time_bounds_def spans_full_day_def sub_u32_def process_hours_def
        process_hour_def process_minutes_def del: upt_Suc)
qed

definition subsecond_range :: time_range where
  "subsecond_range =
     \<lparr>tr_start = 5 * nanos_per_minute, tr_end = 5 * nanos_per_minute + 500000000\<rparr>"

theorem generate_prefixes_miss_subsecond_witness:
  "contains subsecond_range (5 * nanos_per_minute + 250000000) \<and>
   generate_prefixes (\<lambda>_. ''1970-01-01'') subsecond_range 1 = Some []"
proof
  show "contains subsecond_range (5 * nanos_per_minute + 250000000)"
    by (simp add: contains_def subsecond_range_def)
  show "generate_prefixes (\<lambda>_. ''1970-01-01'') subsecond_range 1 = Some []"
    by (rule generate_prefixes_miss_subsecond)
      (simp_all add: subsecond_range_def minutes_of_def second_of_def nanos_defs)
qed

text \<open>The granularity range of a timestamp contains it, and every instant of the range
  has the same data file name as the timestamp: one staging file per range.\<close>

theorem granularity_range_is_slot:
  assumes "divides_hour g"
  shows "contains (granularity_range t g) t \<and>
    (\<forall>u. contains (granularity_range t g) u \<longrightarrow> file_name sd g u rest = file_name sd g t rest)"
proof
  show "contains (granularity_range t g) t"
    using assms mod_less_divisor [of g "minute_of t"]
    by (simp add: granularity_range_iff Let_def divides_hour_def)
next
  have "file_name sd g u rest = file_name sd g t rest" if "contains (granularity_range t g) u" for u
  proof -
    have "int (minute_of t mod g) = minutes_of t mod 60 mod int g"
      by (simp add: minute_of_def zmod_int)
    with that have "minutes_of u div int g = minutes_of t div int g"
      using same_block_arith [OF assms, of "minutes_of t" "minutes_of u"]
      by (simp add: granularity_range_iff Let_def)
    note path = same_block_path [OF assms this]
    show ?thesis unfolding file_name_def same_block_slot [OF path(3)] path(1,2) by (rule refl)
  qed
  then show "\<forall>u. contains (granularity_range t g) u \<longrightarrow>
      file_name sd g u rest = file_name sd g t rest" by blast
qed

theorem granularity_range_is_slot_witness:
  "contains (granularity_range (17 * nanos_per_minute) 15) (17 * nanos_per_minute)"
  using granularity_range_is_slot [of 15 "17 * nanos_per_minute"] by (simp add: divides_hour_def)

text \<open>A parsed range is ordered and both of its ends are on a minute, so the coverage
  property applies to it.\<close>

theorem parse_human_time_aligned:
  assumes "parse_human_time p start_time end_time = Inr r"
  shows "tr_start r \<le> tr_end r \<and> tr_start r mod nanos_per_minute = 0 \<and>
    tr_end r mod nanos_per_minute = 0 \<and> tr_end r mod nanos_per_second = 0"
proof -
  have "tr_start r \<le> tr_end r \<and>
      (\<exists>t u. tr_start r = truncate_to_minute t \<and> tr_end r = truncate_to_minute u)"
    using assms by (rule parse_human_time_truncates)
  then show ?thesis by (auto simp: truncate_aligned)
qed

theorem parse_human_time_aligned_witness:
  "tr_start sample_range \<le> tr_end sample_range \<and> tr_end sample_range mod nanos_per_minute = 0"
proof -
  have "parse_human_time
      \<lparr>human_duration = (\<lambda>s. if s = ''3m'' then Some () else None),
       from_std = (\<lambda>_. Some (3 * nanos_per_minute)), rfc3339 = (\<lambda>_. None),
       now = 8 * nanos_per_minute + 7\<rparr> ''3m'' ''now'' = Inr sample_range"
    by (simp add: parse_human_time_def Let_def truncate_minutes minutes_of_def sample_range_def nanos_defs)
  from parse_human_time_aligned [OF this] show ?thesis by blast
qed

end
