(* ===== verification/Roles.thy ===== *)
theory Roles
  imports Prelude
begin

text \<open>
  \<open>src/rbac/role.rs\<close>: actions, permissions, and the permissions a privilege stands for.
\<close>

datatype action =
    CreateUserGroup | GetUserGroup | ModifyUserGroup | DeleteUserGroup | Ingest | Query
     | CreateStream | ListStream | GetStreamInfo | DetectSchema | GetSchema | GetStats
     | DeleteStream | GetRetention | PutRetention | PutHotTierEnabled
     | GetHotTierEnabled | DeleteHotTierEnabled | PutAlert | GetAlert | DeleteAlert
     | PutUser | ListUser | DeleteUser | PutUserRoles | GetUserRoles | PutRole | GetRole
     | DeleteRole | ListRole | GetAbout | AddLLM | DeleteLLM | GetLLM | QueryLLM
     | ListLLM | ListCluster | ListClusterMetrics | DeleteNode | All_action
     | GetAnalytics | ListDashboard | GetDashboard | CreateDashboard | DeleteDashboard
     | ListFilter | GetFilter | CreateFilter | DeleteFilter | Login | Metrics
     | GetCorrelation | CreateCorrelation | DeleteCorrelation | PutCorrelation

datatype resource_type = Stream_resource string | Llm_resource string | All_resource

datatype permission = Unit_permission action | Resource_permission action resource_type | SelfUser

datatype default_privilege =
    Admin
  | Editor
  | Writer resource_type
  | Ingestor resource_type
  | Reader resource_type

section \<open>Building permissions\<close>

record role_builder =
  rb_actions :: "action list"
  rb_resource_type :: "resource_type option"

definition with_resource :: "role_builder \<Rightarrow> resource_type \<Rightarrow> role_builder" where
  "with_resource b r = b\<lparr>rb_resource_type := Some r\<rparr>"

text \<open>The match of \<open>RoleBuilder::build\<close>: the actions that are granted on one resource; every
  other action is granted as a unit.\<close>

definition resource_actions :: "action list" where
  "resource_actions =
     [Query, QueryLLM, AddLLM, DeleteLLM, GetLLM, ListLLM, Ingest, ListStream, GetSchema,
     DetectSchema, GetStats, GetRetention, PutRetention, All_action]"

text \<open>\<open>None\<close> is the panic of \<open>unwrap\<close> on a missing resource.\<close>

definition build_permission :: "resource_type option \<Rightarrow> action \<Rightarrow> permission option" where
  "build_permission r a =
     (if a \<in> set resource_actions then map_option (Resource_permission a) r
      else Some (Unit_permission a))"

definition build :: "role_builder \<Rightarrow> permission list option" where
  "build b =
     map_option (\<lambda>perms. perms @ [SelfUser])
       (those (map (build_permission (rb_resource_type b)) (rb_actions b)))"

definition admin_perm_builder :: role_builder where
  "admin_perm_builder =
     \<lparr>rb_actions =
        [All_action],
      rb_resource_type = Some All_resource\<rparr>"

definition editor_perm_builder :: role_builder where
  "editor_perm_builder =
     \<lparr>rb_actions =
        [Login, Metrics, GetAbout, Ingest, Query, CreateStream, DeleteStream, ListStream,
        GetStreamInfo, CreateCorrelation, DeleteCorrelation, GetCorrelation,
        PutCorrelation, DetectSchema, GetSchema, GetStats, GetRetention, PutRetention,
        PutHotTierEnabled, GetHotTierEnabled, DeleteHotTierEnabled, PutAlert,
        GetAlert, DeleteAlert, AddLLM, DeleteLLM, GetLLM, QueryLLM, ListLLM,
        CreateFilter, ListFilter, GetFilter, DeleteFilter, ListDashboard,
        GetDashboard, CreateDashboard, DeleteDashboard, GetUserRoles],
      rb_resource_type = Some All_resource\<rparr>"

definition writer_perm_builder :: role_builder where
  "writer_perm_builder =
     \<lparr>rb_actions =
        [Login, GetAbout, Query, ListStream, GetSchema, GetStats, PutRetention, PutAlert,
        GetAlert, DeleteAlert, GetRetention, PutHotTierEnabled, GetHotTierEnabled,
        DeleteHotTierEnabled, CreateCorrelation, DeleteCorrelation, GetCorrelation,
        PutCorrelation, ListDashboard, GetDashboard, CreateDashboard, DeleteDashboard,
        Ingest, GetLLM, QueryLLM, ListLLM, GetStreamInfo, GetFilter, ListFilter,
        CreateFilter, DeleteFilter, GetUserRoles],
      rb_resource_type = None\<rparr>"

definition reader_perm_builder :: role_builder where
  "reader_perm_builder =
     \<lparr>rb_actions =
        [Login, GetAbout, Query, ListStream, GetSchema, GetStats, GetLLM, QueryLLM,
        ListLLM, ListFilter, GetFilter, CreateFilter, DeleteFilter, CreateCorrelation,
        DeleteCorrelation, GetCorrelation, PutCorrelation, ListDashboard,
        GetDashboard, CreateDashboard, DeleteDashboard, GetRetention, GetStreamInfo,
        GetUserRoles, GetAlert],
      rb_resource_type = None\<rparr>"

definition ingest_perm_builder :: role_builder where
  "ingest_perm_builder =
     \<lparr>rb_actions =
        [Ingest],
      rb_resource_type = None\<rparr>"

fun builder_of :: "default_privilege \<Rightarrow> role_builder" where
  "builder_of Admin = admin_perm_builder"
| "builder_of Editor = editor_perm_builder"
| "builder_of (Writer r) = with_resource writer_perm_builder r"
| "builder_of (Reader r) = with_resource reader_perm_builder r"
| "builder_of (Ingestor r) = with_resource ingest_perm_builder r"

section \<open>What a builder with a resource grants\<close>

definition granted_on :: "resource_type \<Rightarrow> action \<Rightarrow> permission" where
  "granted_on r a =
     (if a \<in> set resource_actions then Resource_permission a r else Unit_permission a)"

lemma build_with_resource:
  "rb_resource_type b = Some r \<Longrightarrow> build b = Some (map (granted_on r) (rb_actions b) @ [SelfUser])"
  by (simp add: build_def build_permission_def granted_on_def those_map_Some [where g = "granted_on r"])

fun privilege_resource :: "default_privilege \<Rightarrow> resource_type" where
  "privilege_resource Admin = All_resource"
| "privilege_resource Editor = All_resource"
| "privilege_resource (Writer r) = r"
| "privilege_resource (Ingestor r) = r"
| "privilege_resource (Reader r) = r"

lemma builder_resource: "rb_resource_type (builder_of p) = Some (privilege_resource p)"
  by (cases p)
    (simp_all add: with_resource_def admin_perm_builder_def editor_perm_builder_def)

abbreviation actions_of :: "default_privilege \<Rightarrow> action list" where
  "actions_of p \<equiv> rb_actions (builder_of p)"

lemma build_privilege:
  "build (builder_of p) =
     Some (map (granted_on (privilege_resource p)) (actions_of p) @ [SelfUser])"
  by (rule build_with_resource) (rule builder_resource)

text \<open>The permissions of a privilege, as \<open>RoleBuilder::from(p).build()\<close> returns them.\<close>

definition permissions_of :: "default_privilege \<Rightarrow> permission list" where
  "permissions_of p = (case build (builder_of p) of Some perms \<Rightarrow> perms | None \<Rightarrow> [])"

lemma permissions_of_granted:
  "permissions_of p = map (granted_on (privilege_resource p)) (actions_of p) @ [SelfUser]"
  by (simp add: permissions_of_def build_privilege)

lemma reader_actions: "set (actions_of (Reader r)) \<subseteq> set (actions_of (Writer r'))"
  unfolding builder_of.simps with_resource_def reader_perm_builder_def writer_perm_builder_def
  by simp

lemma writer_actions: "set (actions_of (Writer r)) \<subseteq> set (actions_of Editor)"
  unfolding builder_of.simps with_resource_def editor_perm_builder_def writer_perm_builder_def
  by simp

lemma ingestor_actions: "actions_of (Ingestor r) = [Ingest]"
  by (simp add: with_resource_def ingest_perm_builder_def)

lemma admin_actions: "actions_of Admin = [All_action]"
  by (simp add: admin_perm_builder_def)

lemma ingestor_in_writer: "set (actions_of (Ingestor r)) \<subseteq> set (actions_of (Writer r'))"
  by (simp add: with_resource_def ingest_perm_builder_def writer_perm_builder_def)

text \<open>Only an administrator's privilege has the action that stands for every action.\<close>

lemma All_action_only_admin: "All_action \<in> set (actions_of p) \<longleftrightarrow> p = Admin"
  by (cases p)
    (simp_all add: with_resource_def admin_perm_builder_def editor_perm_builder_def
      writer_perm_builder_def reader_perm_builder_def ingest_perm_builder_def)

end
