(* ===== verification/Users.thy ===== *)
theory Users
  imports Roles
begin

text \<open>
  \<open>src/rbac/user.rs\<close> and the maps of \<open>src/rbac/map.rs\<close>: users, groups, and the stores that
  keep them by name. A \<open>HashSet\<close> is a list without duplicates and a \<open>HashMap\<close> an association
  list with distinct keys; the order of neither means anything.
\<close>

section \<open>Users\<close>

text \<open>The token of an identity provider is opaque here.\<close>

typedecl bearer

record user_info =
  ui_sub :: "string option"
  ui_name :: "string option"
  ui_preferred_username :: "string option"
  ui_picture :: "string option"
  ui_email :: "string option"
  ui_gender :: "string option"
  ui_updated_at :: "i64 option"

record basic =
  basic_username :: string
  password_hash :: string

record oauth =
  oauth_userid :: string
  oauth_info :: user_info
  oauth_bearer :: "bearer option"

datatype user_type = Native basic | OAuth oauth

record user =
  user_ty :: user_type
  user_roles :: "string list"
  user_groups :: "string list"

definition new_basic :: "string \<Rightarrow> string \<Rightarrow> user" where
  "new_basic username hash =
     \<lparr>user_ty = Native \<lparr>basic_username = username, password_hash = hash\<rparr>,
      user_roles = [], user_groups = []\<rparr>"

definition new_oauth :: "string \<Rightarrow> string list \<Rightarrow> user_info \<Rightarrow> bearer option \<Rightarrow> user" where
  "new_oauth userid roles info bearer =
     \<lparr>user_ty = OAuth \<lparr>oauth_userid = (case ui_sub info of Some s \<Rightarrow> s | None \<Rightarrow> userid),
                       oauth_info = info, oauth_bearer = bearer\<rparr>,
      user_roles = roles, user_groups = []\<rparr>"

definition userid :: "user \<Rightarrow> string" where
  "userid u = (case user_ty u of Native b \<Rightarrow> basic_username b | OAuth a \<Rightarrow> oauth_userid a)"

definition display_name :: "oauth \<Rightarrow> string" where
  "display_name a =
     (case ui_name (oauth_info a) of
        Some n \<Rightarrow> n
      | None \<Rightarrow> (case ui_email (oauth_info a) of Some e \<Rightarrow> e | None \<Rightarrow> oauth_userid a))"

definition username_by_userid :: "user \<Rightarrow> string" where
  "username_by_userid u =
     (case user_ty u of Native b \<Rightarrow> basic_username b | OAuth a \<Rightarrow> display_name a)"

definition is_oauth :: "user \<Rightarrow> bool" where
  "is_oauth u = (case user_ty u of Native _ \<Rightarrow> False | OAuth _ \<Rightarrow> True)"

text \<open>The administrator of the options: its password's hash is the argument.\<close>

definition get_admin_user :: "string \<Rightarrow> string \<Rightarrow> user" where
  "get_admin_user username hash =
     \<lparr>user_ty = Native \<lparr>basic_username = username, password_hash = hash\<rparr>,
      user_roles = [''admin''], user_groups = []\<rparr>"

section \<open>Groups\<close>

text \<open>Two members are equal when their user ids are.\<close>

record group_user =
  gu_userid :: string
  gu_username :: string
  gu_method :: string

definition from_user :: "user \<Rightarrow> group_user" where
  "from_user u =
     (case user_ty u of
        Native b \<Rightarrow>
          \<lparr>gu_userid = basic_username b, gu_username = basic_username b, gu_method = ''native''\<rparr>
      | OAuth a \<Rightarrow>
          \<lparr>gu_userid = oauth_userid a, gu_username = display_name a, gu_method = ''oauth''\<rparr>)"

record user_group =
  group_name :: string
  group_roles :: "string list"
  group_users :: "group_user list"

definition userids :: "group_user list \<Rightarrow> string list" where
  "userids us = map gu_userid us"

text \<open>\<open>HashSet::extend\<close>, \<open>difference\<close> and \<open>intersection\<close>, for names and for members (whose
  equality is that of their ids; an element already present is kept).\<close>

definition extend_names :: "string list \<Rightarrow> string list \<Rightarrow> string list" where
  "extend_names s new = fold (\<lambda>x s. if x \<in> set s then s else s @ [x]) new s"

definition difference_names :: "string list \<Rightarrow> string list \<Rightarrow> string list" where
  "difference_names s other = filter (\<lambda>x. x \<notin> set other) s"

definition extend_users :: "group_user list \<Rightarrow> group_user list \<Rightarrow> group_user list" where
  "extend_users s new =
     fold (\<lambda>u s. if gu_userid u \<in> set (userids s) then s else s @ [u]) new s"

definition difference_users :: "group_user list \<Rightarrow> group_user list \<Rightarrow> group_user list" where
  "difference_users s other = filter (\<lambda>u. gu_userid u \<notin> set (userids other)) s"

definition intersection_users :: "group_user list \<Rightarrow> group_user list \<Rightarrow> group_user list" where
  "intersection_users s other = filter (\<lambda>u. gu_userid u \<in> set (userids other)) s"

definition is_valid_group_name :: "string \<Rightarrow> bool" where
  "is_valid_group_name name \<longleftrightarrow>
     name \<noteq> [] \<and> list_all (\<lambda>c. is_ascii_alphanumeric c \<or> c = CHR ''_'' \<or> c = CHR ''-'') name"

section \<open>The stores\<close>

type_synonym roles = "(string \<times> default_privilege list) list"
type_synonym users = "(string \<times> user) list"
type_synonym user_groups = "(string \<times> user_group) list"

definition insert_user :: "user \<Rightarrow> users \<Rightarrow> users" where
  "insert_user u us = AList.update (userid u) u us"

definition users_from :: "user list \<Rightarrow> users" where
  "users_from us = fold insert_user us []"

definition insert_group :: "user_group \<Rightarrow> user_groups \<Rightarrow> user_groups" where
  "insert_group g gs = AList.update (group_name g) g gs"

definition groups_from :: "user_group list \<Rightarrow> user_groups" where
  "groups_from gs = fold insert_group gs []"

interpretation user_store: upsert_store userid map_of insert_user distinct_keys
  by unfold_locales (auto simp: insert_user_def distinct_update update_conv')

interpretation group_store: upsert_store group_name map_of insert_group distinct_keys
  by unfold_locales (auto simp: insert_group_def distinct_update update_conv')

section \<open>Sets of names\<close>

lemma set_extend_names [simp]: "set (extend_names s new) = set s \<union> set new"
  unfolding extend_names_def by (induction new arbitrary: s) auto

lemma distinct_extend_names: "distinct s \<Longrightarrow> distinct (extend_names s new)"
  unfolding extend_names_def by (induction new arbitrary: s) auto

lemma set_difference_names [simp]: "set (difference_names s other) = set s - set other"
  by (auto simp: difference_names_def)

lemma userids_extend [simp]: "set (userids (extend_users s new)) = set (userids s) \<union> set (userids new)"
  unfolding extend_users_def userids_def by (induction new arbitrary: s) auto

lemma userids_difference [simp]:
  "set (userids (difference_users s other)) = set (userids s) - set (userids other)"
  by (auto simp: difference_users_def userids_def)

lemma userids_intersection [simp]:
  "set (userids (intersection_users s other)) = set (userids s) \<inter> set (userids other)"
  by (auto simp: intersection_users_def userids_def)

text \<open>The names of a store are those of its members: what \<open>insert_user\<close> and \<open>insert_group\<close>
  keep, and loading a list of users establishes.\<close>

definition named_by :: "('v \<Rightarrow> string) \<Rightarrow> (string \<times> 'v) list \<Rightarrow> bool" where
  "named_by key m \<longleftrightarrow> distinct_keys m \<and> (\<forall>(k, v) \<in> set m. key v = k)"

lemma named_by_update: "named_by key m \<Longrightarrow> key v = k \<Longrightarrow> named_by key (AList.update k v m)"
  using set_AList_update [of k v m] by (auto simp: named_by_def distinct_update)

lemma named_by_delete: "named_by key m \<Longrightarrow> named_by key (AList.delete k m)"
  using distinct_delete [of m k] by (auto simp: named_by_def AList.delete_eq)

lemma named_by_map_of: "named_by key m \<Longrightarrow> map_of m k = Some v \<Longrightarrow> key v = k"
  by (auto simp: named_by_def dest!: map_of_SomeD)

lemma users_from_named: "named_by userid (users_from us)"
proof -
  have "named_by userid (fold insert_user us m)" if "named_by userid m" for m
    using that by (induction us arbitrary: m) (auto simp: insert_user_def named_by_update)
  from this [of "[]"] show ?thesis by (simp add: users_from_def named_by_def)
qed

end
