(* ===== verification/Sessions.thy ===== *)
theory Sessions
  imports Users Chrono
begin

text \<open>
  \<open>src/rbac/map.rs\<close>: the sessions that stand for authenticated users, and the decision
  whether a session may perform an action.
\<close>

section \<open>The sessions\<close>

datatype session_key = BasicAuth string string | SessionId "128 word"

text \<open>\<open>active_sessions\<close> maps a key to its user and permissions, \<open>user_sessions\<close> a user to the
  keys tracked for it with their expiry.\<close>

record sessions =
  active_sessions :: "(session_key \<times> string \<times> permission list) list"
  user_sessions :: "(string \<times> (session_key \<times> datetime) list) list"

definition no_sessions :: sessions where
  "no_sessions = \<lparr>active_sessions = [], user_sessions = []\<rparr>"

definition get_active_sessions :: "sessions \<Rightarrow> session_key list" where
  "get_active_sessions s = keys_of (active_sessions s)"

definition is_session_expired :: "datetime \<Rightarrow> sessions \<Rightarrow> session_key \<Rightarrow> bool" where
  "is_session_expired now s key =
     (case map_of (active_sessions s) key of
        None \<Rightarrow> False
      | Some (user, _) \<Rightarrow>
          (case map_of (user_sessions s) user of
             None \<Rightarrow> False
           | Some items \<Rightarrow> list_ex (\<lambda>(sessionid, expiry). sessionid = key \<and> expiry < now) items))"

definition remove_expired_session :: "datetime \<Rightarrow> string \<Rightarrow> sessions \<Rightarrow> sessions" where
  "remove_expired_session now user s =
     (case map_of (user_sessions s) user of
        None \<Rightarrow> s
      | Some items \<Rightarrow>
          s\<lparr>user_sessions :=
              AList.update user (filter (\<lambda>(_, expiry). expiry < now) items) (user_sessions s)\<rparr>)"

definition track_new ::
  "datetime \<Rightarrow> string \<Rightarrow> session_key \<Rightarrow> datetime \<Rightarrow> permission list \<Rightarrow> sessions \<Rightarrow> sessions" where
  "track_new now user key expiry permissions s =
     (let s1 = remove_expired_session now user s;
          items = (case map_of (user_sessions s1) user of None \<Rightarrow> [] | Some items \<Rightarrow> items)
      in \<lparr>active_sessions = AList.update key (user, permissions) (active_sessions s1),
          user_sessions = AList.update user (items @ [(key, expiry)]) (user_sessions s1)\<rparr>)"

definition remove_session :: "session_key \<Rightarrow> sessions \<Rightarrow> sessions \<times> string option" where
  "remove_session key s =
     (case map_of (active_sessions s) key of
        None \<Rightarrow> (s, None)
      | Some (user, _) \<Rightarrow>
          let s1 = s\<lparr>active_sessions := AList.delete key (active_sessions s)\<rparr> in
          (case map_of (user_sessions s1) user of
             None \<Rightarrow> (s1, None)
           | Some items \<Rightarrow>
               (s1\<lparr>user_sessions :=
                    AList.update user (filter (\<lambda>(session, _). session \<noteq> key) items)
                      (user_sessions s1)\<rparr>, Some user)))"

definition remove_user :: "string \<Rightarrow> sessions \<Rightarrow> sessions" where
  "remove_user username s =
     (case map_of (user_sessions s) username of
        None \<Rightarrow> s
      | Some items \<Rightarrow>
          \<lparr>active_sessions = fold (\<lambda>(key, _). AList.delete key) items (active_sessions s),
           user_sessions = AList.delete username (user_sessions s)\<rparr>)"

definition session_permissions :: "sessions \<Rightarrow> session_key \<Rightarrow> permission list option" where
  "session_permissions s key = map_option snd (map_of (active_sessions s) key)"

definition get_userid :: "sessions \<Rightarrow> session_key \<Rightarrow> string option" where
  "get_userid s key = map_option fst (map_of (active_sessions s) key)"

section \<open>Authorisation\<close>

datatype response = Authorized | UnAuthorized | ReloadRequired

datatype stream_type = UserDefined | Internal

text \<open>The maps an authorisation reads: users, groups, roles, and the types of the streams
  loaded in memory.\<close>

record directory =
  dir_users :: users
  dir_groups :: user_groups
  dir_roles :: roles
  dir_streams :: "(string \<times> stream_type) list"

definition is_internal :: "directory \<Rightarrow> string \<Rightarrow> bool" where
  "is_internal d stream \<longleftrightarrow> map_of (dir_streams d) stream = Some Internal"

definition role_permissions :: "roles \<Rightarrow> string list \<Rightarrow> permission list" where
  "role_permissions roles names =
     concat (map (\<lambda>name.
       case map_of roles name of
         None \<Rightarrow> []
       | Some privileges \<Rightarrow> concat (map permissions_of privileges)) names)"

definition aggregate_group_permissions :: "directory \<Rightarrow> string \<Rightarrow> permission list" where
  "aggregate_group_permissions d username =
     (case map_of (dir_users d) username of
        None \<Rightarrow> []
      | Some user \<Rightarrow>
          concat (map (\<lambda>name.
            case map_of (dir_groups d) name of
              None \<Rightarrow> []
            | Some grp \<Rightarrow> role_permissions (dir_roles d) (group_roles grp)) (user_groups user)))"

text \<open>Whether one permission authorises an action, for a user, on a resource.\<close>

definition ok_resource :: "directory \<Rightarrow> string option \<Rightarrow> string \<Rightarrow> bool" where
  "ok_resource d context_resource resource_id =
     (case context_resource of
        None \<Rightarrow> True
      | Some context_id \<Rightarrow>
          resource_id = context_id \<or> resource_id = ''*'' \<or> is_internal d context_id)"

fun grants ::
  "directory \<Rightarrow> string \<Rightarrow> action \<Rightarrow> string option \<Rightarrow> string option \<Rightarrow> permission \<Rightarrow> bool" where
  "grants d username required context_resource context_user (Unit_permission a) \<longleftrightarrow>
     a = required \<or> a = All_action"
| "grants d username required context_resource context_user (Resource_permission a r) \<longleftrightarrow>
     (case r of
        Stream_resource resource_id \<Rightarrow>
          (a = required \<or> a = All_action) \<and> ok_resource d context_resource resource_id
      | Llm_resource resource_id \<Rightarrow>
          (a = required \<or> a = All_action) \<and> ok_resource d context_resource resource_id
      | All_resource \<Rightarrow> a = required \<or> a = All_action)"
| "grants d username required context_resource context_user SelfUser \<longleftrightarrow>
     required = GetUserRoles \<and>
     (case context_user of None \<Rightarrow> False | Some x \<Rightarrow> x = username)"

definition check_auth ::
  "directory \<Rightarrow> sessions \<Rightarrow> session_key \<Rightarrow> action \<Rightarrow> string option \<Rightarrow> string option \<Rightarrow> response option"
where
  "check_auth d s key required context_resource context_user =
     map_option (\<lambda>(username, perms).
       if list_ex (grants d username required context_resource context_user)
            (perms @ aggregate_group_permissions d username)
       then Authorized else UnAuthorized)
     (map_of (active_sessions s) key)"

section \<open>Sessions as a state machine\<close>

text \<open>
  The operations the rest of the server performs on the sessions. \<open>owner\<close> says whose key a
  key is: basic credentials name their user, and a session id is drawn afresh at a login.
\<close>

inductive session_step :: "(session_key \<Rightarrow> string) \<Rightarrow> sessions \<Rightarrow> sessions \<Rightarrow> bool"
  for owner where
  login: "session_step owner s (track_new now (owner key) key expiry perms s)"
| logout: "session_step owner s (fst (remove_session key s))"
| revoke: "session_step owner s (remove_user user s)"

inductive reachable_sessions :: "(session_key \<Rightarrow> string) \<Rightarrow> sessions \<Rightarrow> bool" for owner where
  start: "reachable_sessions owner no_sessions"
| step: "reachable_sessions owner s \<Longrightarrow> session_step owner s s' \<Longrightarrow> reachable_sessions owner s'"

inductive_cases session_stepE: "session_step owner s s'"

definition tracked :: "sessions \<Rightarrow> string \<Rightarrow> (session_key \<times> datetime) list" where
  "tracked s user = (case map_of (user_sessions s) user of None \<Rightarrow> [] | Some items \<Rightarrow> items)"

definition sessions_inv :: "(session_key \<Rightarrow> string) \<Rightarrow> sessions \<Rightarrow> bool" where
  "sessions_inv owner s \<longleftrightarrow>
     (\<forall>k u p. map_of (active_sessions s) k = Some (u, p) \<longrightarrow> u = owner k) \<and>
     (\<forall>u k e. (k, e) \<in> set (tracked s u) \<longrightarrow>
        owner k = u \<and> (\<exists>p. map_of (active_sessions s) k = Some (u, p)))"

lemma sessions_invI:
  assumes "\<And>k u p. map_of (active_sessions s) k = Some (u, p) \<Longrightarrow> u = owner k"
    and "\<And>u k e. (k, e) \<in> set (tracked s u) \<Longrightarrow>
      owner k = u \<and> (\<exists>p. map_of (active_sessions s) k = Some (u, p))"
  shows "sessions_inv owner s"
  using assms unfolding sessions_inv_def by blast

lemma sessions_inv_active:
  "sessions_inv owner s \<Longrightarrow> map_of (active_sessions s) k = Some (u, p) \<Longrightarrow> u = owner k"
  unfolding sessions_inv_def by blast

lemma sessions_inv_tracked:
  "sessions_inv owner s \<Longrightarrow> (k, e) \<in> set (tracked s u) \<Longrightarrow>
   owner k = u \<and> (\<exists>p. map_of (active_sessions s) k = Some (u, p))"
  unfolding sessions_inv_def by blast

lemma map_of_fold_delete:
  "map_of (fold (\<lambda>(k, _). AList.delete k) items m) k =
     (if k \<in> fst ` set items then None else map_of m k)"
  by (induction items arbitrary: m) (auto simp: delete_conv')

lemma tracked_remove_expired:
  "tracked (remove_expired_session now user s) u =
     (if u = user then filter (\<lambda>(_, expiry). expiry < now) (tracked s u) else tracked s u)"
  by (auto simp: tracked_def remove_expired_session_def update_conv' split: option.splits)

lemma active_remove_expired [simp]:
  "active_sessions (remove_expired_session now user s) = active_sessions s"
  by (simp add: remove_expired_session_def split: option.splits)

lemma tracked_track_new:
  "tracked (track_new now user key expiry perms s) u =
     (if u = user then filter (\<lambda>(_, e). e < now) (tracked s u) @ [(key, expiry)] else tracked s u)"
proof -
  have "tracked (track_new now user key expiry perms s) u =
      (if u = user then tracked (remove_expired_session now user s) u @ [(key, expiry)]
       else tracked (remove_expired_session now user s) u)"
    by (simp add: tracked_def track_new_def Let_def update_conv')
  then show ?thesis by (simp add: tracked_remove_expired)
qed

lemma active_track_new:
  "map_of (active_sessions (track_new now user key expiry perms s)) =
     (map_of (active_sessions s))(key \<mapsto> (user, perms))"
  by (simp add: track_new_def Let_def update_conv')

lemma tracked_remove_user:
  "tracked (remove_user user s) u = (if u = user then [] else tracked s u)"
  by (auto simp: tracked_def remove_user_def delete_conv' split: option.splits)

lemma active_remove_user:
  "map_of (active_sessions (remove_user user s)) k =
     (if k \<in> fst ` set (tracked s user) then None else map_of (active_sessions s) k)"
  by (auto simp: remove_user_def tracked_def map_of_fold_delete split: option.splits)

lemma active_remove_session:
  "map_of (active_sessions (fst (remove_session key s))) k =
     (if k = key then None else map_of (active_sessions s) k)"
  by (auto simp: remove_session_def Let_def delete_conv' split: option.splits)

lemma tracked_remove_session:
  "tracked (fst (remove_session key s)) u =
     (case map_of (active_sessions s) key of
        Some (user, _) \<Rightarrow>
          if u = user then filter (\<lambda>(session, _). session \<noteq> key) (tracked s u) else tracked s u
      | None \<Rightarrow> tracked s u)"
  by (auto simp: remove_session_def Let_def tracked_def update_conv' split: option.splits)

lemmas session_views =
  tracked_track_new active_track_new tracked_remove_user active_remove_user
  active_remove_session tracked_remove_session

lemma track_new_inv:
  assumes "sessions_inv owner s"
  shows "sessions_inv owner (track_new now (owner key) key expiry perms s)"
proof (rule sessions_invI)
  fix k u p
  assume "map_of (active_sessions (track_new now (owner key) key expiry perms s)) k = Some (u, p)"
  then show "u = owner k"
    using sessions_inv_active [OF assms] by (auto simp: session_views split: if_splits)
next
  fix u k e
  assume "(k, e) \<in> set (tracked (track_new now (owner key) key expiry perms s) u)"
  then have "(k, e) \<in> set (tracked s u) \<or> k = key \<and> u = owner key"
    by (auto simp: session_views split: if_splits)
  then show "owner k = u \<and>
      (\<exists>p. map_of (active_sessions (track_new now (owner key) key expiry perms s)) k = Some (u, p))"
    using sessions_inv_tracked [OF assms] by (auto simp: session_views)
qed

lemma remove_session_inv:
  assumes "sessions_inv owner s"
  shows "sessions_inv owner (fst (remove_session key s))"
proof (rule sessions_invI)
  fix k u p
  assume "map_of (active_sessions (fst (remove_session key s))) k = Some (u, p)"
  then show "u = owner k"
    using sessions_inv_active [OF assms] by (auto simp: session_views split: if_splits)
next
  fix u k e
  assume mem: "(k, e) \<in> set (tracked (fst (remove_session key s)) u)"
  then have old: "(k, e) \<in> set (tracked s u)"
    by (auto simp: session_views split: option.splits if_splits)
  then obtain p where p: "owner k = u" "map_of (active_sessions s) k = Some (u, p)"
    using sessions_inv_tracked [OF assms] by blast
  have "k \<noteq> key" using mem p by (auto simp: session_views)
  with p show "owner k = u \<and> (\<exists>p. map_of (active_sessions (fst (remove_session key s))) k = Some (u, p))"
    by (simp add: session_views)
qed

lemma remove_user_inv:
  assumes "sessions_inv owner s"
  shows "sessions_inv owner (remove_user user s)"
proof (rule sessions_invI)
  fix k u p
  assume "map_of (active_sessions (remove_user user s)) k = Some (u, p)"
  then show "u = owner k"
    using sessions_inv_active [OF assms] by (auto simp: session_views split: if_splits)
next
  fix u k e
  assume "(k, e) \<in> set (tracked (remove_user user s) u)"
  then have old: "(k, e) \<in> set (tracked s u)" "u \<noteq> user"
    by (auto simp: session_views split: if_splits)
  then have "owner k = u" "\<exists>p. map_of (active_sessions s) k = Some (u, p)"
    using sessions_inv_tracked [OF assms] by blast+
  moreover have "k \<notin> fst ` set (tracked s user)"
    using sessions_inv_tracked [OF assms] old calculation(1) by fastforce
  ultimately show "owner k = u \<and> (\<exists>p. map_of (active_sessions (remove_user user s)) k = Some (u, p))"
    by (simp add: session_views)
qed

lemma no_sessions_inv: "sessions_inv owner no_sessions"
  by (rule sessions_invI) (simp_all add: no_sessions_def tracked_def)

lemma reachable_inv: "reachable_sessions owner s \<Longrightarrow> sessions_inv owner s"
  by (induction rule: reachable_sessions.induct)
    (auto elim!: session_stepE intro: no_sessions_inv track_new_inv remove_session_inv remove_user_inv)

section \<open>What permissions authorise\<close>

lemma grants_granted_on:
  assumes "a \<noteq> All_action"
  shows "grants d u required cr cu (granted_on r a) \<longleftrightarrow>
    a = required \<and>
    (a \<in> set resource_actions \<longrightarrow>
      (case r of All_resource \<Rightarrow> True | Stream_resource i \<Rightarrow> ok_resource d cr i
       | Llm_resource i \<Rightarrow> ok_resource d cr i))"
  using assms by (auto simp: granted_on_def split: resource_type.splits)

definition in_scope :: "directory \<Rightarrow> string option \<Rightarrow> resource_type \<Rightarrow> bool" where
  "in_scope d context_resource r =
     (case r of All_resource \<Rightarrow> True | Stream_resource i \<Rightarrow> ok_resource d context_resource i
      | Llm_resource i \<Rightarrow> ok_resource d context_resource i)"

lemma list_ex_privilege:
  "list_ex (grants d u required cr cu) (permissions_of p) \<longleftrightarrow>
     p = Admin \<or>
     required \<in> set (actions_of p) \<and>
       (required \<in> set resource_actions \<longrightarrow> in_scope d cr (privilege_resource p)) \<or>
     required = GetUserRoles \<and> cu = Some u"
proof (cases "p = Admin")
  case True
  have "All_action \<in> set resource_actions" by (simp add: resource_actions_def)
  with True show ?thesis by (simp add: permissions_of_granted admin_perm_builder_def granted_on_def)
next
  case False
  then have no_all: "a \<noteq> All_action" if "a \<in> set (actions_of p)" for a
    using that All_action_only_admin by blast
  have "list_ex (grants d u required cr cu) (map (granted_on (privilege_resource p)) (actions_of p))
      \<longleftrightarrow> (\<exists>a \<in> set (actions_of p). a = required \<and>
            (a \<in> set resource_actions \<longrightarrow> in_scope d cr (privilege_resource p)))"
    using no_all by (auto simp: list_ex_iff grants_granted_on in_scope_def)
  moreover have "grants d u required cr cu SelfUser \<longleftrightarrow> required = GetUserRoles \<and> cu = Some u"
    by (auto split: option.splits)
  ultimately show ?thesis using False by (auto simp: permissions_of_granted)
qed

lemma check_auth_Authorized:
  "check_auth d s key required cr cu = Some Authorized \<longleftrightarrow>
   (\<exists>u perms. map_of (active_sessions s) key = Some (u, perms) \<and>
      list_ex (grants d u required cr cu) (perms @ aggregate_group_permissions d u))"
  by (auto simp: check_auth_def split: if_splits)

section \<open>Properties\<close>

text \<open>C30: Building the permissions of a privilege never panics, and what a session that holds
  them may do is exactly this: what its user's groups allow; for an administrator everything; for any
  other privilege the actions of its list, those granted on a resource only within the
  privilege's resource (the stream itself, the wildcard, or an internal stream; every resource when
  the request names none), the others on every stream; and everyone may read their own roles.\<close>

theorem privilege_scope:
  assumes "map_of (active_sessions s) key = Some (u, permissions_of p)"
  shows "build (builder_of p) = Some (permissions_of p) \<and>
    (check_auth d s key required context_resource context_user = Some Authorized \<longleftrightarrow>
      (\<exists>g \<in> set (aggregate_group_permissions d u). grants d u required context_resource context_user g) \<or>
      p = Admin \<or>
      required \<in> set (actions_of p) \<and>
        (required \<in> set resource_actions \<longrightarrow> in_scope d context_resource (privilege_resource p)) \<or>
      required = GetUserRoles \<and> context_user = Some u)"
proof -
  have "build (builder_of p) = Some (permissions_of p)" by (simp add: permissions_of_def build_privilege)
  moreover have "check_auth d s key required context_resource context_user = Some Authorized \<longleftrightarrow>
      list_ex (grants d u required context_resource context_user) (permissions_of p) \<or>
      list_ex (grants d u required context_resource context_user) (aggregate_group_permissions d u)"
    using assms by (simp add: check_auth_Authorized)
  ultimately show ?thesis
    unfolding list_ex_privilege list_ex_iff [of _ "aggregate_group_permissions d u"] by blast
qed

definition sample_directory :: directory where
  "sample_directory =
     \<lparr>dir_users = [], dir_groups = [], dir_roles = [], dir_streams = [(''pmeta'', Internal)]\<rparr>"

definition reader_session :: sessions where
  "reader_session =
     \<lparr>active_sessions = [(SessionId 7, ''ann'', permissions_of (Reader (Stream_resource ''web'')))],
      user_sessions = [(''ann'', [(SessionId 7, 100)])]\<rparr>"

theorem privilege_scope_witness:
  "check_auth sample_directory reader_session (SessionId 7) Query (Some ''web'') None = Some Authorized \<and>
   check_auth sample_directory reader_session (SessionId 7) Query (Some ''db'') None \<noteq> Some Authorized"
proof -
  note scope = privilege_scope [where s = reader_session and key = "SessionId 7" and u = "''ann''"
      and p = "Reader (Stream_resource ''web'')" and d = sample_directory]
  have "map_of (active_sessions reader_session) (SessionId 7) =
      Some (''ann'', permissions_of (Reader (Stream_resource ''web'')))"
    by (simp add: reader_session_def)
  note scope = scope [OF this, THEN conjunct2]
  have none: "aggregate_group_permissions sample_directory ''ann'' = []"
    by (simp add: aggregate_group_permissions_def sample_directory_def)
  have "Query \<in> set (actions_of (Reader (Stream_resource ''web'')))"
    by (simp add: with_resource_def reader_perm_builder_def)
  moreover have "Query \<in> set resource_actions" by (simp add: resource_actions_def)
  ultimately show ?thesis
    unfolding scope none
    by (simp add: in_scope_def ok_resource_def is_internal_def sample_directory_def)
qed

text \<open>The privileges form a hierarchy: what an ingestor or a reader of a resource may do, a
  writer of that resource may, and so may an editor and an administrator.\<close>

theorem privilege_hierarchy:
  assumes "p \<in> {Ingestor r, Reader r, Writer r, Editor}"
    and "list_ex (grants d u required cr cu) (permissions_of p)"
  shows "(p \<noteq> Editor \<longrightarrow> list_ex (grants d u required cr cu) (permissions_of (Writer r))) \<and>
    list_ex (grants d u required cr cu) (permissions_of Editor) \<and>
    list_ex (grants d u required cr cu) (permissions_of Admin)"
proof -
  have top: "list_ex (grants d u required cr cu) (permissions_of Admin)"
    by (simp only: list_ex_privilege simp_thms)
  have cases: "required \<in> set (actions_of p) \<and>
      (required \<in> set resource_actions \<longrightarrow> in_scope d cr (privilege_resource p)) \<or>
      required = GetUserRoles \<and> cu = Some u"
    using assms unfolding list_ex_privilege by auto
  have wr: "list_ex (grants d u required cr cu) (permissions_of (Writer r))" if "p \<noteq> Editor"
  proof -
    have "set (actions_of p) \<subseteq> set (actions_of (Writer r))"
      using assms(1) that reader_actions [of r r] ingestor_in_writer [of r r] by auto
    moreover have "privilege_resource p = privilege_resource (Writer r)"
      using assms(1) that by auto
    ultimately show ?thesis using cases unfolding list_ex_privilege by auto
  qed
  have "set (actions_of p) \<subseteq> set (actions_of Editor)"
    using assms(1) reader_actions [of r r] ingestor_in_writer [of r r] writer_actions [of r]
    by auto
  moreover have "in_scope d cr (privilege_resource Editor)" by (simp add: in_scope_def)
  ultimately have "list_ex (grants d u required cr cu) (permissions_of Editor)"
    using cases unfolding list_ex_privilege by auto
  with wr top show ?thesis by blast
qed

theorem privilege_hierarchy_witness:
  "list_ex (grants sample_directory ''ann'' Query (Some ''web'') None)
     (permissions_of (Writer (Stream_resource ''web'')))"
proof -
  have "list_ex (grants sample_directory ''ann'' Query (Some ''web'') None)
      (permissions_of (Reader (Stream_resource ''web'')))"
    unfolding list_ex_privilege
    by (simp add: in_scope_def ok_resource_def with_resource_def reader_perm_builder_def)
  from privilege_hierarchy [of _ "Stream_resource ''web''", OF _ this] show ?thesis by simp
qed

text \<open>In every state the operations reach from no sessions, a key tracked for a user is an
  active session of that user, and every active session belongs to the owner of its key.\<close>

theorem tracked_sessions_active:
  assumes "reachable_sessions owner s"
  shows "(\<forall>u k e. (k, e) \<in> set (tracked s u) \<longrightarrow> get_userid s k = Some u) \<and>
    (\<forall>k u. get_userid s k = Some u \<longrightarrow> u = owner k)"
proof -
  note inv = reachable_inv [OF assms]
  show ?thesis
    using sessions_inv_tracked [OF inv] sessions_inv_active [OF inv]
    by (fastforce simp: get_userid_def)
qed

theorem tracked_sessions_active_witness:
  "get_userid (track_new 0 ''ann'' (SessionId 7) 100 [] no_sessions) (SessionId 7) = Some ''ann''"
proof -
  let ?s = "track_new 0 ''ann'' (SessionId 7) 100 [] no_sessions"
  have "session_step (\<lambda>_. ''ann'') no_sessions ?s" by (rule session_step.login)
  then have "reachable_sessions (\<lambda>_. ''ann'') ?s"
    by (rule reachable_sessions.step [OF reachable_sessions.start])
  moreover have "(SessionId 7, 100) \<in> set (tracked ?s ''ann'')" by (simp add: tracked_track_new)
  ultimately show ?thesis using tracked_sessions_active by blast
qed

text \<open>Revoking a user ends exactly the sessions that are tracked for the user: when all of
  the user's active sessions are tracked, none is left and no other user's session ends.\<close>

theorem remove_user_revokes:
  assumes "reachable_sessions owner s"
    and "\<forall>k. get_userid s k = Some user \<longrightarrow> k \<in> fst ` set (tracked s user)"
  shows "get_userid (remove_user user s) k =
    (if get_userid s k = Some user then None else get_userid s k)"
proof -
  have "k \<in> fst ` set (tracked s user) \<Longrightarrow> get_userid s k = Some user"
    using sessions_inv_tracked [OF reachable_inv [OF assms(1)]] by (fastforce simp: get_userid_def)
  with assms(2) show ?thesis by (auto simp: get_userid_def active_remove_user)
qed

theorem remove_user_revokes_witness:
  "get_userid (remove_user ''ann'' (track_new 0 ''ann'' (SessionId 7) 100 [] no_sessions)) (SessionId 7) = None"
proof -
  let ?s = "track_new 0 ''ann'' (SessionId 7) 100 [] no_sessions"
  have "reachable_sessions (\<lambda>_. ''ann'') ?s"
    by (rule reachable_sessions.step [OF reachable_sessions.start session_step.login])
  moreover have "\<forall>k. get_userid ?s k = Some ''ann'' \<longrightarrow> k \<in> fst ` set (tracked ?s ''ann'')"
    by (simp add: get_userid_def active_track_new tracked_track_new no_sessions_def)
  moreover have "get_userid ?s (SessionId 7) = Some ''ann''"
    by (simp add: get_userid_def active_track_new)
  ultimately show ?thesis using remove_user_revokes [of _ ?s "''ann''" "SessionId 7"] by simp
qed

text \<open>What requests do to the sessions: start one for a user, end one, revoke those of a user.\<close>

datatype session_event =
    Start_session datetime string session_key datetime "permission list"
  | End_session session_key
  | Revoke_user string

fun apply_event :: "session_event \<Rightarrow> sessions \<Rightarrow> sessions" where
  "apply_event (Start_session now user key expiry perms) s = track_new now user key expiry perms s"
| "apply_event (End_session key) s = fst (remove_session key s)"
| "apply_event (Revoke_user user) s = remove_user user s"

fun concerns_key :: "session_key \<Rightarrow> session_event \<Rightarrow> bool" where
  "concerns_key key (Start_session _ _ k _ _) = (k = key)"
| "concerns_key key (End_session k) = (k = key)"
| "concerns_key key (Revoke_user _) = False"

text \<open>A live session that no user's list tracks.\<close>

definition orphaned :: "session_key \<Rightarrow> string \<Rightarrow> permission list \<Rightarrow> sessions \<Rightarrow> bool" where
  "orphaned key user perms s \<longleftrightarrow>
     map_of (active_sessions s) key = Some (user, perms) \<and> (\<forall>u. key \<notin> fst ` set (tracked s u))"

lemma orphaned_step:
  "orphaned key user perms s \<Longrightarrow> \<not> concerns_key key ev \<Longrightarrow> orphaned key user perms (apply_event ev s)"
  by (cases ev) (auto simp: orphaned_def active_track_new tracked_track_new active_remove_session tracked_remove_session
      active_remove_user tracked_remove_user split: option.splits)

lemma orphaned_steps:
  "orphaned key user perms s \<Longrightarrow> \<forall>ev \<in> set evs. \<not> concerns_key key ev \<Longrightarrow>
   orphaned key user perms (fold apply_event evs s)"
  by (induction evs arbitrary: s) (simp_all add: orphaned_step)

lemma orphaned_lives:
  assumes "orphaned key user perms s"
  shows "session_permissions s key = Some perms \<and> get_userid s key = Some user \<and> \<not> is_session_expired t s key"
proof -
  have "\<not> list_ex (\<lambda>(sessionid, expiry). sessionid = key \<and> expiry < t) (tracked s user)"
    using assms by (force simp: orphaned_def list_ex_iff)
  then show ?thesis using assms
    by (simp add: orphaned_def session_permissions_def get_userid_def is_session_expired_def tracked_def split: option.splits)
qed

text \<open>C20: A login drops the user's live sessions from the tracked ones and keeps the expired
  ones. So a session with a new key that is still live at the user's next login under another key
  survives whatever follows: after any sequence of revocations of this or other users, and of
  sessions started and ended under other keys, it is there with its user and the permissions it had, and is
  reported expired at no time.\<close>

theorem second_login_orphans_session:
  assumes "\<forall>u. key \<notin> fst ` set (tracked s u)" and "key' \<noteq> key" and "expiry \<ge> now'"
    and "\<forall>ev \<in> set evs. \<not> concerns_key key ev"
  shows "let s' = fold apply_event evs
      (track_new now' user key' expiry' perms' (track_new now user key expiry perms s)) in
    session_permissions s' key = Some perms \<and> get_userid s' key = Some user \<and> \<not> is_session_expired t s' key"
proof -
  have "orphaned key user perms (track_new now' user key' expiry' perms' (track_new now user key expiry perms s))"
    using assms(1-3) by (auto simp: orphaned_def active_track_new tracked_track_new)
  then show ?thesis unfolding Let_def by (intro orphaned_lives orphaned_steps assms(4))
qed

theorem second_login_orphans_session_witness:
  "session_permissions
     (fold apply_event [Revoke_user ''ann'', End_session (SessionId 8), Revoke_user ''ann'']
       (track_new 5 ''ann'' (SessionId 8) 105 [SelfUser]
         (track_new 0 ''ann'' (SessionId 7) 100 [SelfUser] no_sessions))) (SessionId 7) = Some [SelfUser]"
  using second_login_orphans_session [of "SessionId 7" no_sessions "SessionId 8" 5 100
      "[Revoke_user ''ann'', End_session (SessionId 8), Revoke_user ''ann'']" "''ann''" 105 "[SelfUser]" 0 "[SelfUser]"]
  by (simp add: tracked_def no_sessions_def Let_def)

end
