(* ===== verification/Human_Size.thy ===== *)
theory Human_Size
  imports Complex_Main Prelude
begin

text \<open>
  \<open>src/utils/human_size.rs\<close>: sizes in bytes as text. A size is a \<open>u64\<close>, here a natural number
  below \<open>2 ^ 64\<close>; the crate that reads units and the formatting of floats are parameters.
\<close>

text \<open>\<open>str::parse::<u64>\<close>: an optional plus sign, then digits, within the type's bounds.\<close>

definition parse_u64 :: "string \<Rightarrow> nat option" where
  "parse_u64 s =
     (case read_digits (case s of [] \<Rightarrow> [] | c # cs \<Rightarrow> if c = CHR ''+'' then cs else s) of
        None \<Rightarrow> None
      | Some n \<Rightarrow> if n < 2 ^ 64 then Some n else None)"

datatype 'e size_error = SizeInt | SizeHuman 'e

definition human_size_to_bytes :: "(string \<Rightarrow> 'e + nat) \<Rightarrow> string \<Rightarrow> 'e size_error + nat" where
  "human_size_to_bytes human text =
     (let s = trim text in
      case strip_suffix ''Bytes'' s of
        Some s' \<Rightarrow> (case parse_u64 (trim s') of None \<Rightarrow> Inl SizeInt | Some n \<Rightarrow> Inr n)
      | None \<Rightarrow>
          (case parse_u64 s of
             Some n \<Rightarrow> Inr n
           | None \<Rightarrow> (case human s of Inl e \<Rightarrow> Inl (SizeHuman e) | Inr n \<Rightarrow> Inr n)))"

definition bytes_to_human_size :: "(real \<Rightarrow> string) \<Rightarrow> nat \<Rightarrow> string" where
  "bytes_to_human_size two_decimals bytes =
     (let kib = 1024; mib = kib * 1024; gib = mib * 1024; tib = gib * 1024; pib = tib * 1024 in
      if bytes < kib then show_nat bytes @ '' B''
      else if bytes < mib then two_decimals (real bytes / real kib) @ '' KB''
      else if bytes < gib then two_decimals (real bytes / real mib) @ '' MiB''
      else if bytes < tib then two_decimals (real bytes / real gib) @ '' GiB''
      else if bytes < pib then two_decimals (real bytes / real tib) @ '' TiB''
      else two_decimals (real bytes / real pib) @ '' PiB'')"

text \<open>The string the serializer writes.\<close>

definition serialize_size :: "nat \<Rightarrow> string" where
  "serialize_size bytes = show_nat bytes @ '' Bytes''"

definition deserialize_size :: "(string \<Rightarrow> 'e + nat) \<Rightarrow> string \<Rightarrow> 'e size_error + nat" where
  "deserialize_size human s = human_size_to_bytes human s"

section \<open>Reading what was written\<close>

lemma digit_no_whitespace: "is_ascii_digit c \<Longrightarrow> \<not> is_whitespace c"
  by (auto simp: is_ascii_digit_def is_whitespace_def less_eq_char_def)

lemma trim_show_nat: "trim (show_nat n) = show_nat n"
  using show_nat_digits [of n] digit_no_whitespace by (intro trim_idle) (auto simp: list_all_iff)

lemma show_nat_Cons: "\<exists>c cs. show_nat n = c # cs \<and> is_ascii_digit c"
proof -
  have "list_all is_ascii_digit (show_nat n)" by (rule show_nat_digits)
  then show ?thesis by (cases "show_nat n") auto
qed

lemma trim_both:
  assumes "s \<noteq> []" and "\<not> is_whitespace (hd s)" and "\<not> is_whitespace (last s)"
  shows "trim s = s"
proof -
  have "dropWhile is_whitespace s = s" using assms by (cases s) auto
  moreover have "dropWhile is_whitespace (rev s) = rev s"
    using assms by (cases s rule: rev_cases) auto
  ultimately show ?thesis by (simp add: trim_def)
qed

lemma trim_after:
  assumes "s \<noteq> []" and "list_all (\<lambda>c. \<not> is_whitespace c) s"
  shows "trim (s @ '' '') = s"
proof -
  have "dropWhile is_whitespace (s @ '' '') = s @ '' ''" using assms by (cases s) simp_all
  moreover have "dropWhile is_whitespace (rev s) = rev s"
    using assms by (simp add: dropWhile_eq_self_iff hd_rev list_all_iff)
  moreover have "is_whitespace CHR '' ''" by (simp add: is_whitespace_def)
  ultimately show ?thesis by (simp add: trim_def)
qed

lemma parse_show_u64: "n < 2 ^ 64 \<Longrightarrow> parse_u64 (show_nat n) = Some n"
proof -
  assume bound: "n < 2 ^ 64"
  obtain c cs where cs: "show_nat n = c # cs" "is_ascii_digit c" using show_nat_Cons by blast
  then have "c \<noteq> CHR ''+''" by (auto simp: is_ascii_digit_def less_eq_char_def)
  then have "parse_u64 (show_nat n) = (case read_digits (show_nat n) of None \<Rightarrow> None
      | Some n \<Rightarrow> if n < 2 ^ 64 then Some n else None)"
    using cs(1) by (simp add: parse_u64_def)
  then show ?thesis using bound by (simp add: read_show_nat)
qed

text \<open>A size read back from what was written is the size, for every \<open>u64\<close>, and a bare number
  is read as bytes.\<close>

theorem size_roundtrip:
  assumes "bytes < 2 ^ 64"
  shows "deserialize_size human (serialize_size bytes) = Inr bytes \<and>
    deserialize_size human (show_nat bytes) = Inr bytes"
proof
  have digits: "list_all (\<lambda>c. \<not> is_whitespace c) (show_nat bytes)"
    using show_nat_digits [of bytes] digit_no_whitespace by (auto simp: list_all_iff)
  have no_ws: "\<not> is_whitespace CHR ''s''" by (simp add: is_whitespace_def)
  obtain c cs where cs: "show_nat bytes = c # cs" "is_ascii_digit c" using show_nat_Cons by blast
  have "trim (serialize_size bytes) = serialize_size bytes"
    using cs digit_no_whitespace [of c] no_ws by (intro trim_both) (auto simp: serialize_size_def)
  moreover have "strip_suffix ''Bytes'' (serialize_size bytes) = Some (show_nat bytes @ '' '')"
    by (simp add: strip_suffix_def serialize_size_def suffix_def)
  moreover have "trim (show_nat bytes @ '' '') = show_nat bytes"
    using digits by (intro trim_after) simp_all
  ultimately show "deserialize_size human (serialize_size bytes) = Inr bytes"
    using parse_show_u64 [OF assms] by (simp add: deserialize_size_def human_size_to_bytes_def Let_def)
  have "\<not> suffix ''Bytes'' (show_nat bytes)"
  proof
    assume "suffix ''Bytes'' (show_nat bytes)"
    then have "CHR ''B'' \<in> set (show_nat bytes)" by (auto simp: suffix_def)
    then have "is_ascii_digit CHR ''B''" using show_nat_digits [of bytes] by (auto simp: list_all_iff)
    then show False by (simp add: is_ascii_digit_def less_eq_char_def)
  qed
  then show "deserialize_size human (show_nat bytes) = Inr bytes"
    using parse_show_u64 [OF assms]
    by (simp add: deserialize_size_def human_size_to_bytes_def Let_def trim_show_nat strip_suffix_def)
qed

theorem size_roundtrip_witness:
  "deserialize_size (\<lambda>_. Inl ()) (serialize_size 1234) = Inr 1234"
  using size_roundtrip [of 1234 "\<lambda>_. Inl ()"] by simp

end
