(* ===== verification/Validator.thy ===== *)
theory Validator
  imports Human_Size Sessions
begin

text \<open>
  \<open>src/validator.rs\<close>: the names of streams, users and roles, and the size of a hot tier. Text is
  a list of characters below 256; what Unicode says of the upper half is a parameter of
  \<open>stream_name\<close>, and a user's or role's name is refused there (its bytes are no characters the
  code allows).
\<close>

section \<open>Stream names\<close>

datatype stream_name_error =
    EmptyName
  | NameWhiteSpace string
  | NameSpecialChar char
  | SQLKeyword string
  | InternalStream string

definition denied_names :: "string list" where
  "denied_names =
     [''select'', ''from'', ''where'', ''group'', ''by'', ''order'', ''limit'', ''offset'', ''join'', ''and'', ''sql'']"

definition is_alphanumeric :: "(char \<Rightarrow> bool) \<Rightarrow> char \<Rightarrow> bool" where
  "is_alphanumeric wide c =
     (if of_char c < (128::nat) then is_ascii_alphanumeric c else wide c)"

fun check_stream_chars ::
  "(char \<Rightarrow> bool) \<Rightarrow> string \<Rightarrow> string \<Rightarrow> stream_name_error option" where
  "check_stream_chars wide name [] = None"
| "check_stream_chars wide name (c # cs) =
     (if c = CHR '' '' then Some (NameWhiteSpace name)
      else if \<not> is_alphanumeric wide c \<and> c \<noteq> CHR ''-'' \<and> c \<noteq> CHR ''_'' then Some (NameSpecialChar c)
      else check_stream_chars wide name cs)"

definition stream_name :: "(char \<Rightarrow> bool) \<Rightarrow> string \<Rightarrow> stream_type \<Rightarrow> stream_name_error + unit" where
  "stream_name wide name ty =
     (if name = [] then Inl EmptyName
      else case check_stream_chars wide name name of
        Some e \<Rightarrow> Inl e
      | None \<Rightarrow>
          if name \<in> set denied_names then Inl (SQLKeyword name)
          else if ty = Internal then Inl (InternalStream name)
          else Inr ())"

section \<open>User and role names\<close>

datatype username_error =
    InvalidLength
  | SpecialChar
  | InvalidStartChar
  | InvalidEndChar
  | InvalidCharacter
  | ConsecutiveSpecialChars
  | ReservedName

definition reserved_names :: "string list" where
  "reserved_names =
     [''admin'', ''user'', ''role'', ''null'', ''undefined'', ''none'', ''empty'', ''password'', ''username'']"

definition is_special :: "char \<Rightarrow> bool" where
  "is_special c \<longleftrightarrow> c \<in> {CHR ''_'', CHR ''-'', CHR ''.'', CHR ''@''}"

fun check_name_chars :: "bool \<Rightarrow> string \<Rightarrow> username_error option" where
  "check_name_chars prev_was_special [] = None"
| "check_name_chars prev_was_special (ch # chars) =
     (if is_ascii_alphanumeric ch then check_name_chars False chars
      else if is_special ch
      then (if prev_was_special then Some ConsecutiveSpecialChars else check_name_chars True chars)
      else Some InvalidCharacter)"

definition user_role_name :: "string \<Rightarrow> username_error + unit" where
  "user_role_name text =
     (let name = to_lowercase text in
      if length name < 3 \<or> length name > 64 then Inl InvalidLength
      else if name \<in> set reserved_names then Inl ReservedName
      else if name \<noteq> [] \<and> \<not> is_ascii_alphanumeric (last name) then Inl InvalidEndChar
      else case check_name_chars False name of Some e \<Rightarrow> Inl e | None \<Rightarrow> Inr ())"

section \<open>Hot tier sizes\<close>

definition min_stream_hot_tier_size_bytes :: nat where
  "min_stream_hot_tier_size_bytes = 10737418240"

datatype hot_tier_error = InvalidFormat | TooSmall string

definition hot_tier :: "(real \<Rightarrow> string) \<Rightarrow> string \<Rightarrow> hot_tier_error + unit" where
  "hot_tier two_decimals text =
     (case parse_u64 text of
        None \<Rightarrow> Inl InvalidFormat
      | Some n \<Rightarrow>
          if n < min_stream_hot_tier_size_bytes
          then Inl (TooSmall (bytes_to_human_size two_decimals min_stream_hot_tier_size_bytes))
          else Inr ())"

section \<open>What the checks of characters accept\<close>

lemma check_stream_chars_None:
  "check_stream_chars wide name cs = None \<longleftrightarrow>
     (\<forall>c \<in> set cs. c \<noteq> CHR '' '' \<and> (is_alphanumeric wide c \<or> c = CHR ''-'' \<or> c = CHR ''_''))"
  by (induction cs) auto

text \<open>No two special characters in a row.\<close>

fun spaced :: "string \<Rightarrow> bool" where
  "spaced (a # b # cs) \<longleftrightarrow> \<not> (is_special a \<and> is_special b) \<and> spaced (b # cs)"
| "spaced _ \<longleftrightarrow> True"

lemma special_not_alphanumeric: "is_special c \<Longrightarrow> \<not> is_ascii_alphanumeric c"
  by (auto simp: is_special_def is_ascii_alphanumeric_def is_ascii_digit_def less_eq_char_def)

lemma spaced_Cons:
  "spaced (c # cs) \<longleftrightarrow> (cs = [] \<or> \<not> (is_special c \<and> is_special (hd cs))) \<and> spaced cs"
  by (cases cs) auto

lemma check_name_chars_None:
  "check_name_chars prev cs = None \<longleftrightarrow>
     (\<forall>c \<in> set cs. is_ascii_alphanumeric c \<or> is_special c) \<and> spaced cs \<and>
     (prev \<longrightarrow> cs = [] \<or> \<not> is_special (hd cs))"
proof (induction cs arbitrary: prev)
  case Nil
  show ?case by simp
next
  case (Cons c cs)
  show ?case
    using special_not_alphanumeric [of c] unfolding spaced_Cons by (simp add: Cons.IH) blast
qed

lemma lower_alphanumeric: "is_ascii_alphanumeric (ascii_lower c) \<longleftrightarrow> is_ascii_alphanumeric c"
proof (cases "CHR ''A'' \<le> c \<and> c \<le> CHR ''Z''")
  case True
  then have b: "65 \<le> (of_char c :: nat)" "(of_char c :: nat) \<le> 90" by (simp_all add: less_eq_char_def)
  then have "(of_char (char_of (of_char c + 32 :: nat) :: char) :: nat) = of_char c + 32" by simp
  then have "is_ascii_alphanumeric (ascii_lower c)"
    using True b by (simp add: ascii_lower_def is_ascii_alphanumeric_def less_eq_char_def)
  moreover have "is_ascii_alphanumeric c" using True by (simp add: is_ascii_alphanumeric_def)
  ultimately show ?thesis by simp
next
  case False
  then have "ascii_lower c = c" unfolding ascii_lower_def by (rule if_not_P)
  then show ?thesis by simp
qed

lemma lower_special: "is_special (ascii_lower c) \<longleftrightarrow> is_special c"
proof (cases "CHR ''A'' \<le> c \<and> c \<le> CHR ''Z''")
  case True
  then have "is_ascii_alphanumeric c" by (simp add: is_ascii_alphanumeric_def)
  then have "is_ascii_alphanumeric (ascii_lower c)" by (simp add: lower_alphanumeric)
  with \<open>is_ascii_alphanumeric c\<close> show ?thesis using special_not_alphanumeric by blast
next
  case False
  then have "ascii_lower c = c" unfolding ascii_lower_def by (rule if_not_P)
  then show ?thesis by simp
qed

lemma spaced_lower: "spaced (to_lowercase s) \<longleftrightarrow> spaced s"
  by (induction s rule: spaced.induct) (auto simp: to_lowercase_def lower_special)

section \<open>Properties\<close>

text \<open>A user or role name is accepted exactly when it has 3 to 64 characters, is none of the
  reserved names in any case, consists of letters, digits and the four special characters with
  no two of these in a row, and ends in a letter or digit. (It may begin with a special one.)\<close>

theorem user_role_name_accepts_iff:
  "user_role_name s = Inr () \<longleftrightarrow>
     3 \<le> length s \<and> length s \<le> 64 \<and> to_lowercase s \<notin> set reserved_names \<and>
     is_ascii_alphanumeric (last s) \<and>
     (\<forall>c \<in> set s. is_ascii_alphanumeric c \<or> is_special c) \<and> spaced s"
proof (cases "3 \<le> length s")
  case False
  then show ?thesis by (simp add: user_role_name_def Let_def)
next
  case True
  then have ne: "s \<noteq> []" by auto
  then have ne': "to_lowercase s \<noteq> []" by (simp add: to_lowercase_def)
  have last: "is_ascii_alphanumeric (last (to_lowercase s)) \<longleftrightarrow> is_ascii_alphanumeric (last s)"
    using ne by (simp add: to_lowercase_def last_map lower_alphanumeric)
  have chars: "(\<forall>c \<in> set (to_lowercase s). is_ascii_alphanumeric c \<or> is_special c) \<longleftrightarrow>
      (\<forall>c \<in> set s. is_ascii_alphanumeric c \<or> is_special c)"
    by (simp add: to_lowercase_def lower_alphanumeric lower_special)
  have checked: "check_name_chars False (to_lowercase s) = None \<longleftrightarrow>
      (\<forall>c \<in> set s. is_ascii_alphanumeric c \<or> is_special c) \<and> spaced s"
    unfolding check_name_chars_None chars spaced_lower by simp
  have ok: "(case x of Some e \<Rightarrow> Inl e | None \<Rightarrow> Inr ()) = Inr () \<longleftrightarrow> x = None"
    for x :: "username_error option" by (cases x) simp_all
  show ?thesis
    using True ne' by (simp add: user_role_name_def Let_def last ok checked not_less)
qed

theorem user_role_name_accepts_iff_witness:
  "user_role_name ''ann-b'' = Inr () \<and> user_role_name ''ann--b'' \<noteq> Inr ()"
proof -
  have "to_lowercase ''ann-b'' \<notin> set reserved_names"
    by (simp add: to_lowercase_def ascii_lower_def less_eq_char_def reserved_names_def)
  moreover have "\<forall>c \<in> set ''ann-b''. is_ascii_alphanumeric c \<or> is_special c"
    by (simp add: is_ascii_alphanumeric_def is_ascii_digit_def is_special_def less_eq_char_def)
  moreover have "is_ascii_alphanumeric CHR ''b''" by (simp add: is_ascii_alphanumeric_def less_eq_char_def)
  moreover have "is_special CHR ''-''" "\<not> is_special CHR ''n''" "\<not> is_special CHR ''a''"
    "\<not> is_special CHR ''b''" by (simp_all add: is_special_def)
  ultimately show ?thesis unfolding user_role_name_accepts_iff by simp
qed

text \<open>A user defined stream's name is accepted exactly when it is not empty, has only letters,
  digits, hyphens and underscores, and is not one of the keywords as they are written there; so
  a keyword in another case is accepted.\<close>

theorem stream_name_accepts_iff:
  "stream_name wide name ty = Inr () \<longleftrightarrow>
     name \<noteq> [] \<and> ty = UserDefined \<and> name \<notin> set denied_names \<and>
     (\<forall>c \<in> set name. c \<noteq> CHR '' '' \<and> (is_alphanumeric wide c \<or> c = CHR ''-'' \<or> c = CHR ''_'')) "
proof -
  have "ty \<noteq> Internal \<longleftrightarrow> ty = UserDefined" by (cases ty) simp_all
  moreover have "stream_name wide name ty = Inr () \<longleftrightarrow>
      name \<noteq> [] \<and> check_stream_chars wide name name = None \<and> name \<notin> set denied_names \<and> ty \<noteq> Internal"
    by (auto simp: stream_name_def split: option.splits)
  ultimately show ?thesis unfolding check_stream_chars_None by blast
qed

end
