(* ===== verification/Access.thy ===== *)
theory Access
  imports Sessions Validator
begin

text \<open>
  \<open>src/rbac/mod.rs\<close>, the session-touching operations of \<open>src/rbac/user.rs\<close>, the login
  helpers of \<open>src/handlers/http/oidc.rs\<close> and the dataset check of \<open>src/utils/mod.rs\<close>: the
  operations on users, groups, roles and sessions together.
\<close>

record access =
  directory :: directory
  sessions_of :: sessions
  default_role :: "string option"

definition users_of :: "access \<Rightarrow> users" where
  "users_of st = dir_users (directory st)"

definition set_users :: "users \<Rightarrow> access \<Rightarrow> access" where
  "set_users us st = st\<lparr>directory := (directory st)\<lparr>dir_users := us\<rparr>\<rparr>"

definition set_roles :: "roles \<Rightarrow> access \<Rightarrow> access" where
  "set_roles rs st = st\<lparr>directory := (directory st)\<lparr>dir_roles := rs\<rparr>\<rparr>"

definition end_sessions :: "string \<Rightarrow> access \<Rightarrow> access" where
  "end_sessions user st = st\<lparr>sessions_of := remove_user user (sessions_of st)\<rparr>"

section \<open>Users\<close>

definition put_user :: "user \<Rightarrow> access \<Rightarrow> access" where
  "put_user u st =
     (let st1 = end_sessions (userid u) st in set_users (insert_user u (users_of st1)) st1)"

definition get_user_groups :: "access \<Rightarrow> string \<Rightarrow> string list" where
  "get_user_groups st uid =
     (case map_of (users_of st) uid of None \<Rightarrow> [] | Some u \<Rightarrow> user_groups u)"

definition get_role :: "access \<Rightarrow> string \<Rightarrow> string list" where
  "get_role st uid = (case map_of (users_of st) uid of None \<Rightarrow> [] | Some u \<Rightarrow> user_roles u)"

definition contains_user :: "access \<Rightarrow> string \<Rightarrow> bool" where
  "contains_user st uid \<longleftrightarrow> map_of (users_of st) uid \<noteq> None"

definition delete_user :: "string \<Rightarrow> access \<Rightarrow> access" where
  "delete_user uid st = end_sessions uid (set_users (AList.delete uid (users_of st)) st)"

definition change_password_hash :: "string \<Rightarrow> string \<Rightarrow> access \<Rightarrow> access" where
  "change_password_hash uid hash st =
     (case map_of (users_of st) uid of
        None \<Rightarrow> st
      | Some u \<Rightarrow>
          (case user_ty u of
             OAuth _ \<Rightarrow> st
           | Native b \<Rightarrow>
               end_sessions uid
                 (set_users
                   (AList.update uid (u\<lparr>user_ty := Native (b\<lparr>password_hash := hash\<rparr>)\<rparr>) (users_of st))
                   st)))"

definition add_roles :: "string \<Rightarrow> string list \<Rightarrow> access \<Rightarrow> access" where
  "add_roles uid roles st =
     (case map_of (users_of st) uid of
        None \<Rightarrow> st
      | Some u \<Rightarrow>
          end_sessions uid
            (set_users
              (AList.update uid (u\<lparr>user_roles := extend_names (user_roles u) roles\<rparr>) (users_of st)) st))"

definition remove_roles :: "string \<Rightarrow> string list \<Rightarrow> access \<Rightarrow> access" where
  "remove_roles uid roles st =
     (case map_of (users_of st) uid of
        None \<Rightarrow> st
      | Some u \<Rightarrow>
          end_sessions uid
            (set_users
              (AList.update uid (u\<lparr>user_roles := difference_names (user_roles u) roles\<rparr>) (users_of st)) st))"

section \<open>Sessions and permissions\<close>

text \<open>The permissions are collected in a \<open>HashSet\<close>; here in the order of first occurrence.\<close>

definition roles_to_permission :: "roles \<Rightarrow> string list \<Rightarrow> permission list" where
  "roles_to_permission roles names = remdups (role_permissions roles names)"

definition get_permissions :: "access \<Rightarrow> session_key \<Rightarrow> permission list" where
  "get_permissions st key =
     (let permissions = (case session_permissions (sessions_of st) key of None \<Rightarrow> [] | Some ps \<Rightarrow> ps)
      in (case get_userid (sessions_of st) key of
            None \<Rightarrow> permissions
          | Some uid \<Rightarrow>
              permissions @
              concat (map (\<lambda>name.
                case map_of (dir_groups (directory st)) name of
                  None \<Rightarrow> []
                | Some grp \<Rightarrow> role_permissions (dir_roles (directory st)) (group_roles grp))
                (get_user_groups st uid))))"

definition session_exists :: "access \<Rightarrow> session_key \<Rightarrow> bool" where
  "session_exists st key \<longleftrightarrow> session_permissions (sessions_of st) key \<noteq> None"

definition new_session :: "datetime \<Rightarrow> user \<Rightarrow> session_key \<Rightarrow> int \<Rightarrow> access \<Rightarrow> access" where
  "new_session now u key expires_in st =
     st\<lparr>sessions_of :=
          track_new now (userid u) key (now + expires_in)
            (roles_to_permission (dir_roles (directory st)) (user_roles u)) (sessions_of st)\<rparr>"

text \<open>What authorisation reads from outside: the clock, chrono's last instant, and argon2's
  check of a password against a hash.\<close>

record auth_env =
  auth_now :: datetime
  max_utc :: datetime
  verify :: "string \<Rightarrow> string \<Rightarrow> bool"

text \<open>\<open>None\<close> is the panic of \<open>expect\<close>.\<close>

definition authorize ::
  "auth_env \<Rightarrow> session_key \<Rightarrow> action \<Rightarrow> string option \<Rightarrow> string option \<Rightarrow> access
   \<Rightarrow> access \<times> response option"
where
  "authorize env key required context_stream context_user st =
     (case check_auth (directory st) (sessions_of st) key required context_stream context_user of
        Some res \<Rightarrow> (st, Some res)
      | None \<Rightarrow>
          (case key of
             SessionId _ \<Rightarrow> (st, Some ReloadRequired)
           | BasicAuth username password \<Rightarrow>
               (case map_of (users_of st) username of
                  None \<Rightarrow> (st, Some UnAuthorized)
                | Some u \<Rightarrow>
                    (case user_ty u of
                       OAuth _ \<Rightarrow> (st, Some UnAuthorized)
                     | Native b \<Rightarrow>
                         if verify env (password_hash b) password
                         then (let st1 = st\<lparr>sessions_of :=
                                     track_new (auth_now env) username key (max_utc env)
                                       (roles_to_permission (dir_roles (directory st)) (user_roles u))
                                       (sessions_of st)\<rparr>
                               in (st1, check_auth (directory st1) (sessions_of st1) key required
                                          context_stream context_user))
                         else (st, Some UnAuthorized)))))"

text \<open>A login exchanges basic credentials for a session id, which \<open>Ulid::new\<close> draws.\<close>

definition exchange_basic_for_cookie ::
  "datetime \<Rightarrow> 128 word \<Rightarrow> user \<Rightarrow> session_key \<Rightarrow> int \<Rightarrow> access \<Rightarrow> access" where
  "exchange_basic_for_cookie now ulid u key expires_in st =
     new_session now u (SessionId ulid) expires_in
       (st\<lparr>sessions_of := fst (remove_session key (sessions_of st))\<rparr>)"

definition get_oauth_user :: "access \<Rightarrow> string option \<Rightarrow> user option" where
  "get_oauth_user st uid =
     (case uid of
        None \<Rightarrow> None
      | Some n \<Rightarrow>
          (case map_of (users_of st) n of
             None \<Rightarrow> None
           | Some u \<Rightarrow> if is_oauth u then Some u else None))"

definition find_existing_user :: "access \<Rightarrow> user_info \<Rightarrow> user option" where
  "find_existing_user st info =
     (case get_oauth_user st (ui_sub info) of
        Some u \<Rightarrow> Some u
      | None \<Rightarrow>
          (case get_oauth_user st (ui_name info) of
             Some u \<Rightarrow> Some u
           | None \<Rightarrow> get_oauth_user st (ui_email info)))"

section \<open>Groups\<close>

text \<open>The operations on a group also end the sessions of the members they concern.\<close>

definition end_all :: "group_user list \<Rightarrow> sessions \<Rightarrow> sessions" where
  "end_all us s = fold (\<lambda>u. remove_user (gu_userid u)) us s"

definition group_add_roles ::
  "string list \<Rightarrow> user_group \<times> sessions \<Rightarrow> user_group \<times> sessions" where
  "group_add_roles roles = (\<lambda>(g, s).
     if roles = [] then (g, s)
     else (g\<lparr>group_roles := extend_names (group_roles g) roles\<rparr>, end_all (group_users g) s))"

definition group_add_users ::
  "group_user list \<Rightarrow> user_group \<times> sessions \<Rightarrow> user_group \<times> sessions" where
  "group_add_users us = (\<lambda>(g, s).
     if us = [] then (g, s)
     else (g\<lparr>group_users := extend_users (group_users g) us\<rparr>, end_all us s))"

definition group_remove_roles ::
  "string list \<Rightarrow> user_group \<times> sessions \<Rightarrow> user_group \<times> sessions" where
  "group_remove_roles roles = (\<lambda>(g, s).
     if roles = [] then (g, s)
     else let new_roles = difference_names (group_roles g) roles in
       if set (group_roles g) = set new_roles then (g, s)
       else (g\<lparr>group_roles := new_roles\<rparr>, end_all (group_users g) s))"

definition group_remove_users ::
  "group_user list \<Rightarrow> user_group \<times> sessions \<Rightarrow> user_group \<times> sessions" where
  "group_remove_users us = (\<lambda>(g, s).
     if us = [] then (g, s)
     else let new_users = difference_users (group_users g) us;
              removed_users = intersection_users (group_users g) us in
       if removed_users = [] then (g, s)
       else (g\<lparr>group_users := new_users\<rparr>, end_all removed_users s))"

definition group_add_users_from_user_refs ::
  "user list \<Rightarrow> user_group \<times> sessions \<Rightarrow> user_group \<times> sessions" where
  "group_add_users_from_user_refs us = group_add_users (extend_users [] (map from_user us))"

definition group_remove_users_by_user_ids ::
  "string list \<Rightarrow> user_group \<times> sessions \<Rightarrow> user_group \<times> sessions" where
  "group_remove_users_by_user_ids uids = (\<lambda>(g, s).
     if uids = [] then (g, s)
     else group_remove_users (filter (\<lambda>u. gu_userid u \<in> set uids) (group_users g)) (g, s))"

record invalid_user_group =
  valid_name :: bool
  non_existent_roles :: "string list"
  non_existent_users :: "string list"
  roles_not_in_group :: "string list"
  users_not_in_group :: "string list"
  comments :: string

datatype rbac_error =
    UserExists string
  | UserDoesNotExist
  | SerdeError
  | ObjectStorageError
  | ValidationError username_error
  | Network
  | Anyhow
  | RoleValidationError
  | UserGroupExists string
  | UserGroupDoesNotExist string
  | RolesDoNotExist "string list"
  | RolesNotAssigned "string list"
  | InvalidUserGroupRequest invalid_user_group
  | InvalidSyncOperation string
  | UserGroupNotEmpty string
  | ResourceInUse string
  | InvalidDeletionRequest string

definition validate_group :: "directory \<Rightarrow> user_group \<Rightarrow> rbac_error + unit" where
  "validate_group d g =
     (let valid = is_valid_group_name (group_name g) in
      if map_of (dir_groups d) (group_name g) \<noteq> None then Inl (UserGroupExists (group_name g))
      else let no_roles = filter (\<lambda>role. map_of (dir_roles d) role = None) (group_roles g);
               no_users = filter (\<lambda>uid. map_of (dir_users d) uid = None) (userids (group_users g))
      in if no_roles \<noteq> [] \<or> no_users \<noteq> [] \<or> \<not> valid
         then Inl (InvalidUserGroupRequest
                \<lparr>valid_name = valid, non_existent_roles = no_roles, non_existent_users = no_users,
                 roles_not_in_group = [], users_not_in_group = [],
                 comments = (if valid then []
                   else ''The name should follow this regex- `^[A-Za-z0-9_-]+$`'')\<rparr>)
         else Inr ())"

section \<open>The datasets a query may read\<close>

text \<open>
  A stream that is not in memory is loaded from storage by a querier: \<open>stored\<close> is the type of
  the streams whose metadata and schema can be read there.
\<close>

definition check_or_load_stream ::
  "bool \<Rightarrow> (string \<Rightarrow> stream_type option) \<Rightarrow> string \<Rightarrow> directory \<Rightarrow> directory \<times> bool" where
  "check_or_load_stream querier stored stream d =
     (if map_of (dir_streams d) stream \<noteq> None then (d, True)
      else if querier
      then (case stored stream of
              None \<Rightarrow> (d, False)
            | Some t \<Rightarrow> (d\<lparr>dir_streams := AList.update stream t (dir_streams d)\<rparr>, True))
      else (d, False))"

datatype dataset_error = StreamNotFound string | NoAccess string

definition not_query_actions :: "action list" where
  "not_query_actions =
     [All_action, PutUser, PutRole, DeleteUser, DeleteRole, ModifyUserGroup, CreateUserGroup,
      DeleteUserGroup, DeleteNode]"

fun dataset_permitted ::
  "bool \<Rightarrow> (string \<Rightarrow> stream_type option) \<Rightarrow> string \<Rightarrow> permission list \<Rightarrow> bool \<Rightarrow> directory
   \<Rightarrow> directory \<times> (dataset_error + bool)"
where
  "dataset_permitted querier stored table [] authorized d = (d, Inr authorized)"
| "dataset_permitted querier stored table (p # ps) authorized d =
     (case p of
        Resource_permission a r \<Rightarrow>
          if a = All_action then (d, Inr True)
          else (case r of
                  Stream_resource stream \<Rightarrow>
                    if a = Query
                    then (case check_or_load_stream querier stored stream d of
                            (d', False) \<Rightarrow> (d', Inl (StreamNotFound table))
                          | (d', True) \<Rightarrow>
                              dataset_permitted querier stored table ps
                                (authorized \<or> stream = table \<or> stream = ''*'' \<or> is_internal d' table) d')
                    else dataset_permitted querier stored table ps authorized d
                | All_resource \<Rightarrow>
                    dataset_permitted querier stored table ps
                      (authorized \<or> a \<notin> set not_query_actions) d
                | Llm_resource _ \<Rightarrow> dataset_permitted querier stored table ps authorized d)
      | _ \<Rightarrow> dataset_permitted querier stored table ps authorized d)"

fun user_auth_for_datasets ::
  "bool \<Rightarrow> (string \<Rightarrow> stream_type option) \<Rightarrow> permission list \<Rightarrow> string list \<Rightarrow> directory
   \<Rightarrow> directory \<times> (dataset_error + unit)"
where
  "user_auth_for_datasets querier stored perms [] d = (d, Inr ())"
| "user_auth_for_datasets querier stored perms (table # tables) d =
     (case dataset_permitted querier stored table perms False d of
        (d', Inl e) \<Rightarrow> (d', Inl e)
      | (d', Inr authorized) \<Rightarrow>
          if authorized then user_auth_for_datasets querier stored perms tables d'
          else (d', Inl (NoAccess table)))"

definition is_admin :: "access \<Rightarrow> session_key \<Rightarrow> bool" where
  "is_admin st key =
     list_ex (\<lambda>p. p = Resource_permission All_action All_resource) (get_permissions st key)"

section \<open>Ending the sessions of several users\<close>

lemma tracked_fold_remove_user:
  "tracked (fold remove_user ids s) u = (if u \<in> set ids then [] else tracked s u)"
  by (induction ids arbitrary: s) (auto simp: tracked_remove_user)

lemma active_fold_remove_user:
  "map_of (active_sessions (fold remove_user ids s)) k =
     (if \<exists>u \<in> set ids. k \<in> fst ` set (tracked s u) then None else map_of (active_sessions s) k)"
proof (induction ids arbitrary: s)
  case Nil
  then show ?case by simp
next
  case (Cons u ids)
  have split: "(if \<exists>v \<in> A. v \<noteq> x \<and> P v then None else if P x then None else y) =
      (if \<exists>v \<in> insert x A. P v then None else y)" for P :: "string \<Rightarrow> bool" and A x and y :: "'b option"
    by auto
  have rest: "(\<exists>v \<in> A. k \<in> fst ` set (tracked (remove_user u s) v)) \<longleftrightarrow>
      (\<exists>v \<in> A. v \<noteq> u \<and> k \<in> fst ` set (tracked s v))" for A
    by (auto simp: tracked_remove_user split: if_splits)
  show ?case
    unfolding fold.simps comp_apply Cons.IH rest active_remove_user list.set by (rule split)
qed

lemma end_all_ids: "end_all us s = fold remove_user (userids us) s"
  by (simp add: end_all_def userids_def fold_map comp_def)

lemmas end_all_views =
  tracked_fold_remove_user [of "userids us" for us, folded end_all_ids]
  active_fold_remove_user [of "userids us" for us, folded end_all_ids]

lemma end_all_inv: "sessions_inv owner s \<Longrightarrow> sessions_inv owner (end_all us s)"
  unfolding end_all_def by (induction us arbitrary: s) (auto intro: remove_user_inv)

section \<open>Properties\<close>

text \<open>The permissions reported for a session are the ones its requests are judged by: a
  session may perform an action exactly when one of its reported permissions grants it.\<close>

theorem reported_permissions_decide:
  "check_auth (directory st) (sessions_of st) key required cr cu =
     map_option (\<lambda>uid. if list_ex (grants (directory st) uid required cr cu) (get_permissions st key)
                      then Authorized else UnAuthorized)
       (get_userid (sessions_of st) key)"
  by (auto simp: check_auth_def get_permissions_def session_permissions_def get_userid_def
      aggregate_group_permissions_def get_user_groups_def users_of_def Let_def
      split: option.splits prod.splits)

text \<open>Authorisation never panics. A known session is judged as it is; an unknown session id
  must log in again; unknown basic credentials that are a native user's start a session with
  the permissions of the user's roles, which the request is judged by; any other credentials
  are refused, and nothing changes.\<close>

theorem authorize_outcome:
  "\<exists>res. authorize env key required cr cu st =
     (if get_userid (sessions_of st) key \<noteq> None then (st, check_auth (directory st) (sessions_of st) key required cr cu)
      else case key of
        SessionId _ \<Rightarrow> (st, Some ReloadRequired)
      | BasicAuth name pw \<Rightarrow>
          if \<exists>u b. map_of (users_of st) name = Some u \<and> user_ty u = Native b \<and> verify env (password_hash b) pw
          then (st\<lparr>sessions_of := track_new (auth_now env) name key (max_utc env)
                     (roles_to_permission (dir_roles (directory st)) (get_role st name)) (sessions_of st)\<rparr>,
                Some (if list_ex (grants (directory st) name required cr cu)
                          (role_permissions (dir_roles (directory st)) (get_role st name)
                           @ aggregate_group_permissions (directory st) name)
                      then Authorized else UnAuthorized))
          else (st, Some UnAuthorized))
   \<and> snd (authorize env key required cr cu st) = Some res"
  by (cases key)
    (auto simp: authorize_def check_auth_def get_userid_def get_role_def active_track_new Let_def
      roles_to_permission_def list_ex_iff split: option.splits user_type.splits)

text \<open>When one permission admits a query of one table.\<close>

definition admits :: "directory \<Rightarrow> string \<Rightarrow> permission \<Rightarrow> bool" where
  "admits d table p =
     (case p of
        Resource_permission a r \<Rightarrow>
          a = All_action \<or>
          (case r of
             Stream_resource stream \<Rightarrow>
               a = Query \<and> (stream = table \<or> stream = ''*'' \<or> is_internal d table)
           | All_resource \<Rightarrow> a \<notin> set not_query_actions
           | Llm_resource _ \<Rightarrow> False)
      | _ \<Rightarrow> False)"

lemma admits_simps [simp]:
  "admits d table (Unit_permission a) = False"
  "admits d table SelfUser = False"
  "admits d table (Resource_permission a (Llm_resource l)) = (a = All_action)"
  "admits d table (Resource_permission a All_resource) = (a = All_action \<or> a \<notin> set not_query_actions)"
  "admits d table (Resource_permission a (Stream_resource stream)) =
     (a = All_action \<or> a = Query \<and> (stream = table \<or> stream = ''*'' \<or> is_internal d table))"
  by (simp_all add: admits_def)

lemma dataset_permitted_loaded:
  assumes "\<forall>stream. Resource_permission Query (Stream_resource stream) \<in> set perms \<longrightarrow>
      map_of (dir_streams d) stream \<noteq> None"
  shows "dataset_permitted querier stored table perms authorized d =
      (d, Inr (authorized \<or> list_ex (admits d table) perms))"
  using assms
proof (induction perms arbitrary: authorized)
  case Nil
  then show ?case by simp
next
  case (Cons p ps)
  then have IH: "dataset_permitted querier stored table ps b d =
      (d, Inr (b \<or> list_ex (admits d table) ps))" for b
    by simp
  from Cons.prems show ?case
    by (auto simp: IH check_or_load_stream_def split: permission.splits resource_type.splits)
qed

text \<open>The dataset check of a query accepts a list of tables, when every stream that a query
  permission names can be found, exactly when the session may do everything on some resource
  or, for each table, some permission admits it: a query permission on the table or on the
  wildcard or on an internal table, or any permission on all resources that does not manage
  users, roles, groups or nodes (so one that only ingests, too).\<close>

theorem dataset_check_exact:
  assumes "\<forall>stream. Resource_permission Query (Stream_resource stream) \<in> set perms \<longrightarrow>
      map_of (dir_streams d) stream \<noteq> None"
  shows "user_auth_for_datasets querier stored perms tables d =
    (case List.find (\<lambda>table. \<not> list_ex (admits d table) perms) tables of
       None \<Rightarrow> (d, Inr ()) | Some table \<Rightarrow> (d, Inl (NoAccess table)))"
  using assms by (induction tables) (auto simp: dataset_permitted_loaded)

theorem dataset_check_exact_witness:
  "user_auth_for_datasets False (\<lambda>_. None) (permissions_of (Ingestor All_resource)) [''web'', ''db'']
     sample_directory = (sample_directory, Inr ())"
proof -
  have perms: "permissions_of (Ingestor All_resource) = [Resource_permission Ingest All_resource, SelfUser]"
    unfolding permissions_of_granted ingestor_actions
    by (simp add: granted_on_def resource_actions_def)
  have "admits sample_directory table (Resource_permission Ingest All_resource)" for table
    by (simp add: admits_def not_query_actions_def)
  moreover have "\<forall>stream. Resource_permission Query (Stream_resource stream)
      \<in> set (permissions_of (Ingestor All_resource)) \<longrightarrow>
      map_of (dir_streams sample_directory) stream \<noteq> None"
    unfolding perms by simp
  ultimately show ?thesis
    using dataset_check_exact [of "permissions_of (Ingestor All_resource)"] unfolding perms
    by (simp add: not_query_actions_def)
qed

text \<open>A query permission on a stream that is neither in memory nor in storage - one that was
  deleted, or the wildcard - makes the dataset check fail for every table that comes to it,
  unless an earlier permission is for every action: also for tables the session may read.\<close>

theorem missing_stream_denies_all:
  assumes "perms = earlier @ Resource_permission Query (Stream_resource stream) # later"
    and "\<forall>p \<in> set earlier. \<forall>a r. p = Resource_permission a r \<longrightarrow>
      a \<noteq> All_action \<and> (a = Query \<longrightarrow> (\<forall>s. r = Stream_resource s \<longrightarrow> map_of (dir_streams d) s \<noteq> None))"
    and "map_of (dir_streams d) stream = None" and "stored stream = None"
  shows "user_auth_for_datasets querier stored perms (table # tables) d = (d, Inl (StreamNotFound table))"
proof -
  have "dataset_permitted querier stored table (earlier @ Resource_permission Query (Stream_resource stream) # later)
      authorized d = (d, Inl (StreamNotFound table))" for authorized
    using assms(2)
  proof (induction earlier arbitrary: authorized)
    case Nil
    then show ?case using assms(3,4) by (simp add: check_or_load_stream_def)
  next
    case (Cons p ps)
    then have IH: "dataset_permitted querier stored table
        (ps @ Resource_permission Query (Stream_resource stream) # later) b d =
        (d, Inl (StreamNotFound table))" for b
      by simp
    from Cons.prems show ?case
      by (auto simp: IH check_or_load_stream_def split: permission.splits resource_type.splits)
  qed
  with assms(1) show ?thesis by simp
qed

definition web_directory :: directory where
  "web_directory =
     \<lparr>dir_users = [], dir_groups = [], dir_roles = [], dir_streams = [(''web'', UserDefined)]\<rparr>"

theorem missing_stream_denies_all_witness:
  "user_auth_for_datasets True (\<lambda>_. None)
     [Resource_permission Query (Stream_resource ''web''), Resource_permission Query (Stream_resource ''*'')]
     [''web''] web_directory = (web_directory, Inl (StreamNotFound ''web''))"
  by (rule missing_stream_denies_all
      [where earlier = "[Resource_permission Query (Stream_resource ''web'')]" and later = "[]"
        and stream = "''*''"])
    (simp_all add: web_directory_def)

lemma authorize_unknown_id:
  "get_userid (sessions_of st) (SessionId i) = None \<Longrightarrow>
   authorize env (SessionId i) a cr cu st = (st, Some ReloadRequired)"
  by (simp add: authorize_def check_auth_def get_userid_def)

text \<open>C37: Changing the roles of a user or deleting the user ends every session of the user, when
  those sessions are all tracked: a session id of the
  user must log in again, and no one else's session is affected.\<close>

theorem user_change_ends_sessions:
  assumes "reachable_sessions owner (sessions_of st)" and "contains_user st uid"
    and "\<forall>k. get_userid (sessions_of st) k = Some uid \<longrightarrow> k \<in> fst ` set (tracked (sessions_of st) uid)"
    and "st' \<in> {add_roles uid roles st, remove_roles uid roles st, delete_user uid st}"
  shows "(get_userid (sessions_of st) (SessionId i) = Some uid \<longrightarrow>
      authorize env (SessionId i) a cr cu st' = (st', Some ReloadRequired)) \<and>
    (\<forall>k u. u \<noteq> uid \<longrightarrow> get_userid (sessions_of st) k = Some u \<longrightarrow> get_userid (sessions_of st') k = Some u)"
proof -
  have "sessions_of st' = remove_user uid (sessions_of st)"
    using assms(2,4)
    by (auto simp: add_roles_def remove_roles_def delete_user_def end_sessions_def set_users_def
        contains_user_def)
  moreover have "get_userid (remove_user uid (sessions_of st)) k =
      (if get_userid (sessions_of st) k = Some uid then None else get_userid (sessions_of st) k)" for k
  proof -
    have "k \<in> fst ` set (tracked (sessions_of st) uid) \<Longrightarrow> get_userid (sessions_of st) k = Some uid"
      using sessions_inv_tracked [OF reachable_inv [OF assms(1)]] by (fastforce simp: get_userid_def)
    with assms(3) show ?thesis by (auto simp: get_userid_def active_remove_user)
  qed
  ultimately show ?thesis by (simp add: authorize_unknown_id)
qed

definition ann :: user where
  "ann = new_basic ''ann'' ''hash''"

definition ann_access :: access where
  "ann_access =
     \<lparr>directory = \<lparr>dir_users = [(''ann'', ann)], dir_groups = [], dir_roles = [], dir_streams = []\<rparr>,
      sessions_of = track_new 0 ''ann'' (SessionId 7) 100 [] no_sessions, default_role = None\<rparr>"

theorem user_change_ends_sessions_witness:
  "authorize \<lparr>auth_now = 1, max_utc = 1000, verify = (\<lambda>_ _. True)\<rparr> (SessionId 7) Query None None
     (remove_roles ''ann'' [''ops''] ann_access) =
   (remove_roles ''ann'' [''ops''] ann_access, Some ReloadRequired)"
proof -
  let ?s = "track_new 0 ''ann'' (SessionId 7) 100 [] no_sessions"
  have s: "sessions_of ann_access = ?s" by (simp add: ann_access_def)
  have "reachable_sessions (\<lambda>_. ''ann'') (sessions_of ann_access)"
    unfolding s by (rule reachable_sessions.step [OF reachable_sessions.start session_step.login])
  note change = user_change_ends_sessions [OF this, of "''ann''"]
  have "contains_user ann_access ''ann''" by (simp add: contains_user_def users_of_def ann_access_def)
  note change = change [OF this]
  have "\<forall>k. get_userid (sessions_of ann_access) k = Some ''ann'' \<longrightarrow>
      k \<in> fst ` set (tracked (sessions_of ann_access) ''ann'')"
    unfolding s by (simp add: get_userid_def active_track_new tracked_track_new no_sessions_def)
  note change = change [OF this, of "remove_roles ''ann'' [''ops''] ann_access" "[''ops'']"]
  have "get_userid (sessions_of ann_access) (SessionId 7) = Some ''ann''"
    unfolding s by (simp add: get_userid_def active_track_new)
  with change show ?thesis by simp
qed

end
