(* ===== verification/Rbac_Handlers.thy ===== *)
theory Rbac_Handlers
  imports Access Json
begin

text \<open>
  \<open>src/handlers/http/rbac.rs\<close> and \<open>role.rs\<close>: the handlers that manage users and roles. They
  change the metadata kept in storage first and the maps in memory after; \<open>init\<close> of
  \<open>src/rbac/map.rs\<close> builds the maps from the metadata.
\<close>

record metadata =
  md_users :: "user list"
  md_user_groups :: "user_group list"
  md_roles :: roles
  md_default_role :: "string option"

record server =
  srv_access :: access
  srv_metadata :: metadata

definition status_code :: "rbac_error \<Rightarrow> nat" where
  "status_code e =
     (case e of
        UserDoesNotExist \<Rightarrow> 404
      | ObjectStorageError \<Rightarrow> 500
      | Anyhow \<Rightarrow> 500
      | Network \<Rightarrow> 502
      | _ \<Rightarrow> 400)"

datatype role_error =
    RoleObjectStorage
  | RoleInUse
  | RoleAnyhow
  | RoleSerde
  | RoleNetwork
  | RoleValidation username_error


text \<open>
  Storage may fail. \<open>put_metadata\<close> writes the remote copy, then the one in the staging
  directory; the remote copy is the one \<open>get_metadata\<close> reads.
\<close>

datatype put_outcome = Stored | Remote_only | NotStored

record io_outcome =
  get_ok :: bool
  put_out :: put_outcome

definition get_metadata :: "'e \<Rightarrow> io_outcome \<Rightarrow> server \<Rightarrow> 'e + metadata" where
  "get_metadata err io srv = (if get_ok io then Inr (srv_metadata srv) else Inl err)"

definition put_metadata :: "io_outcome \<Rightarrow> metadata \<Rightarrow> server \<Rightarrow> server \<times> bool" where
  "put_metadata io md srv =
     (case put_out io of
        Stored \<Rightarrow> (srv\<lparr>srv_metadata := md\<rparr>, True)
      | Remote_only \<Rightarrow> (srv\<lparr>srv_metadata := md\<rparr>, False)
      | NotStored \<Rightarrow> (srv, False))"

text \<open>Store the metadata and, when that succeeds, change memory.\<close>

definition store_then ::
  "'e \<Rightarrow> io_outcome \<Rightarrow> metadata \<Rightarrow> (access \<Rightarrow> access) \<Rightarrow> server \<Rightarrow> server \<times> ('e + unit)" where
  "store_then err io md f srv =
     (case put_metadata io md srv of
        (srv', True) \<Rightarrow> (srv'\<lparr>srv_access := f (srv_access srv')\<rparr>, Inr ())
      | (srv', False) \<Rightarrow> (srv', Inl err))"

fun update_first :: "('a \<Rightarrow> bool) \<Rightarrow> ('a \<Rightarrow> 'a) \<Rightarrow> 'a list \<Rightarrow> 'a list option" where
  "update_first P f [] = None"
| "update_first P f (x # xs) =
     (if P x then Some (f x # xs) else map_option ((#) x) (update_first P f xs))"

definition dir_of :: "server \<Rightarrow> directory" where
  "dir_of srv = directory (srv_access srv)"

definition missing_roles :: "server \<Rightarrow> string list \<Rightarrow> string list" where
  "missing_roles srv names = filter (\<lambda>role. map_of (dir_roles (dir_of srv)) role = None) names"

section \<open>Roles of a user\<close>

definition add_roles_to_user ::
  "io_outcome \<Rightarrow> string \<Rightarrow> string list \<Rightarrow> server \<Rightarrow> server \<times> (rbac_error + unit)" where
  "add_roles_to_user io uid roles_to_add srv =
     (if \<not> contains_user (srv_access srv) uid then (srv, Inl UserDoesNotExist)
      else if missing_roles srv roles_to_add \<noteq> []
      then (srv, Inl (RolesDoNotExist (missing_roles srv roles_to_add)))
      else case get_metadata ObjectStorageError io srv of
        Inl e \<Rightarrow> (srv, Inl e)
      | Inr md \<Rightarrow>
          (case update_first (\<lambda>u. userid u = uid)
                  (\<lambda>u. u\<lparr>user_roles := extend_names (user_roles u) roles_to_add\<rparr>) (md_users md) of
             None \<Rightarrow> (srv, Inl UserDoesNotExist)
           | Some us \<Rightarrow> store_then ObjectStorageError io (md\<lparr>md_users := us\<rparr>) (add_roles uid roles_to_add) srv))"

definition remove_roles_from_user ::
  "io_outcome \<Rightarrow> string \<Rightarrow> string list \<Rightarrow> server \<Rightarrow> server \<times> (rbac_error + unit)" where
  "remove_roles_from_user io uid roles_to_remove srv =
     (if \<not> contains_user (srv_access srv) uid then (srv, Inl UserDoesNotExist)
      else if missing_roles srv roles_to_remove \<noteq> []
      then (srv, Inl (RolesDoNotExist (missing_roles srv roles_to_remove)))
      else let roles_not_with_user = difference_names roles_to_remove (get_role (srv_access srv) uid) in
        if roles_not_with_user \<noteq> [] then (srv, Inl (RolesNotAssigned roles_not_with_user))
        else case get_metadata ObjectStorageError io srv of
          Inl e \<Rightarrow> (srv, Inl e)
        | Inr md \<Rightarrow>
            (case update_first (\<lambda>u. userid u = uid)
                    (\<lambda>u. u\<lparr>user_roles := difference_names (user_roles u) roles_to_remove\<rparr>)
                    (md_users md) of
               None \<Rightarrow> (srv, Inl UserDoesNotExist)
             | Some us \<Rightarrow> store_then ObjectStorageError io (md\<lparr>md_users := us\<rparr>) (remove_roles uid roles_to_remove) srv))"

section \<open>Users\<close>

text \<open>\<open>serde_json::from_value::<HashSet<String>>\<close>\<close>

fun strings_of_json :: "json \<Rightarrow> string list option" where
  "strings_of_json (JArray vs) =
     map_option remdups (those (map (\<lambda>v. case v of JString s \<Rightarrow> Some s | _ \<Rightarrow> None) vs))"
| "strings_of_json _ = None"

definition native_named :: "string \<Rightarrow> user \<Rightarrow> bool" where
  "native_named username u = (case user_ty u of Native b \<Rightarrow> basic_username b = username | OAuth _ \<Rightarrow> False)"

text \<open>
  \<open>post_user\<close> reads the metadata before it takes the lock that makes updates atomic: it is
  two steps, between which another request may run.
\<close>

definition post_user_begin ::
  "io_outcome \<Rightarrow> string \<Rightarrow> json option \<Rightarrow> server \<Rightarrow> rbac_error + metadata \<times> string list" where
  "post_user_begin io username body srv =
     (case user_role_name username of
        Inl e \<Rightarrow> Inl (ValidationError e)
      | Inr _ \<Rightarrow>
          bind_result (get_metadata ObjectStorageError io srv)
            (\<lambda>md. case (case body of None \<Rightarrow> Some [] | Some b \<Rightarrow> strings_of_json b) of
                None \<Rightarrow> Inl SerdeError
              | Some names \<Rightarrow>
                  if missing_roles srv names \<noteq> []
                  then Inl (RolesDoNotExist (missing_roles srv names))
                  else Inr (md, names)))"

definition post_user_commit ::
  "io_outcome \<Rightarrow> io_outcome \<Rightarrow> string \<Rightarrow> string \<Rightarrow> metadata \<times> string list \<Rightarrow> server \<Rightarrow> server \<times> (rbac_error + unit)"
where
  "post_user_commit io io' hash username = (\<lambda>(md, roles) srv.
     if contains_user (srv_access srv) username \<or> list_ex (native_named username) (md_users md)
     then (srv, Inl (UserExists username))
     else let u = new_basic username hash in
       case store_then ObjectStorageError io (md\<lparr>md_users := md_users md @ [u]\<rparr>) (put_user u) srv of
         (srv', Inl e) \<Rightarrow> (srv', Inl e)
       | (srv', Inr _) \<Rightarrow>
           if roles \<noteq> [] then add_roles_to_user io' username roles srv' else (srv', Inr ()))"

definition post_user ::
  "io_outcome \<Rightarrow> io_outcome \<Rightarrow> string \<Rightarrow> string \<Rightarrow> json option \<Rightarrow> server \<Rightarrow> server \<times> (rbac_error + unit)" where
  "post_user io io' hash username body srv =
     (case post_user_begin io username body srv of
        Inl e \<Rightarrow> (srv, Inl e)
      | Inr snapshot \<Rightarrow> post_user_commit io io' hash username snapshot srv)"

definition set_hash :: "string \<Rightarrow> user \<Rightarrow> user" where
  "set_hash hash u =
     (case user_ty u of
        Native b \<Rightarrow> u\<lparr>user_ty := Native (b\<lparr>password_hash := hash\<rparr>)\<rparr>
      | OAuth _ \<Rightarrow> u)"

definition post_gen_password :: "io_outcome \<Rightarrow> string \<Rightarrow> string \<Rightarrow> server \<Rightarrow> server \<times> (rbac_error + unit)" where
  "post_gen_password io hash username srv =
     (case get_metadata ObjectStorageError io srv of
        Inl e \<Rightarrow> (srv, Inl e)
      | Inr md \<Rightarrow>
          (case update_first (native_named username) (set_hash hash) (md_users md) of
             None \<Rightarrow> (srv, Inl UserDoesNotExist)
           | Some us \<Rightarrow>
               store_then ObjectStorageError io (md\<lparr>md_users := us\<rparr>) (change_password_hash username hash) srv))"

definition delete_user_handler :: "io_outcome \<Rightarrow> string \<Rightarrow> server \<Rightarrow> server \<times> (rbac_error + unit)" where
  "delete_user_handler io uid srv =
     (if get_user_groups (srv_access srv) uid \<noteq> [] then (srv, Inl (InvalidDeletionRequest uid))
      else if \<not> contains_user (srv_access srv) uid then (srv, Inl UserDoesNotExist)
      else case get_metadata ObjectStorageError io srv of
        Inl e \<Rightarrow> (srv, Inl e)
      | Inr md \<Rightarrow>
          store_then ObjectStorageError io (md\<lparr>md_users := filter (\<lambda>u. userid u \<noteq> uid) (md_users md)\<rparr>) (delete_user uid) srv)"

section \<open>Roles\<close>

definition session_refresh_users :: "string \<Rightarrow> directory \<Rightarrow> string list" where
  "session_refresh_users name d =
     remdups
       (concat (map (\<lambda>(_, g). if name \<in> set (group_roles g) then userids (group_users g) else [])
          (dir_groups d)) @
        concat (map (\<lambda>(_, u). if name \<in> set (user_roles u) then [userid u] else []) (dir_users d)))"

definition refresh_role :: "string \<Rightarrow> default_privilege list \<Rightarrow> access \<Rightarrow> access" where
  "refresh_role name privileges st =
     (let st1 = set_roles (AList.update name privileges (dir_roles (directory st))) st
      in fold end_sessions (session_refresh_users name (directory st1)) st1)"

definition put_role ::
  "io_outcome \<Rightarrow> string \<Rightarrow> default_privilege list \<Rightarrow> server \<Rightarrow> server \<times> (role_error + unit)" where
  "put_role io name privileges srv =
     (case user_role_name name of
        Inl e \<Rightarrow> (srv, Inl (RoleValidation e))
      | Inr _ \<Rightarrow>
          (case get_metadata RoleObjectStorage io srv of
             Inl e \<Rightarrow> (srv, Inl e)
           | Inr md \<Rightarrow>
               store_then RoleObjectStorage io (md\<lparr>md_roles := AList.update name privileges (md_roles md)\<rparr>)
                 (refresh_role name privileges) srv))"

definition remove_role :: "string \<Rightarrow> access \<Rightarrow> access" where
  "remove_role name st = set_roles (AList.delete name (dir_roles (directory st))) st"

definition delete_role :: "io_outcome \<Rightarrow> string \<Rightarrow> server \<Rightarrow> server \<times> (role_error + unit)" where
  "delete_role io name srv =
     (case get_metadata RoleObjectStorage io srv of
        Inl e \<Rightarrow> (srv, Inl e)
      | Inr md \<Rightarrow>
          if list_ex (\<lambda>u. name \<in> set (user_roles u)) (md_users md) then (srv, Inl RoleInUse)
          else if list_ex (\<lambda>g. name \<in> set (group_roles g)) (md_user_groups md) then (srv, Inl RoleInUse)
          else store_then RoleObjectStorage io (md\<lparr>md_roles := AList.delete name (md_roles md)\<rparr>) (remove_role name) srv)"

definition put_default :: "io_outcome \<Rightarrow> string \<Rightarrow> server \<Rightarrow> server \<times> (role_error + unit)" where
  "put_default io name srv =
     (case get_metadata RoleObjectStorage io srv of
        Inl e \<Rightarrow> (srv, Inl e)
      | Inr md \<Rightarrow>
          store_then RoleObjectStorage io (md\<lparr>md_default_role := Some name\<rparr>) (\<lambda>st. st)
            (srv\<lparr>srv_access := (srv_access srv)\<lparr>default_role := Some name\<rparr>\<rparr>))"

section \<open>Start of the server\<close>

text \<open>The maps at startup: those of the metadata, with the administrator, its role and a
  session for its credentials.\<close>

definition init_access ::
  "auth_env \<Rightarrow> string \<Rightarrow> string \<Rightarrow> string \<Rightarrow> (string \<times> stream_type) list \<Rightarrow> metadata \<Rightarrow> access" where
  "init_access env username password hash streams md =
     (let admin = get_admin_user username hash in
      \<lparr>directory =
         \<lparr>dir_users = insert_user admin (users_from (md_users md)),
          dir_groups = groups_from (md_user_groups md),
          dir_roles = AList.update ''admin'' [Admin] (md_roles md),
          dir_streams = streams\<rparr>,
       sessions_of =
         track_new (auth_now env) (userid admin) (BasicAuth username password) (max_utc env)
           (permissions_of Admin) no_sessions,
       default_role = md_default_role md\<rparr>)"

section \<open>Memory and storage agree\<close>

text \<open>The user without its bearer token, which is not compared: the token belongs to memory.\<close>

definition persisted :: "user \<Rightarrow> user" where
  "persisted u =
     (case user_ty u of
        Native _ \<Rightarrow> u
      | OAuth a \<Rightarrow> u\<lparr>user_ty := OAuth (a\<lparr>oauth_bearer := None\<rparr>)\<rparr>)"

definition stored_user :: "metadata \<Rightarrow> string \<Rightarrow> user option" where
  "stored_user md uid = List.find (\<lambda>u. userid u = uid) (md_users md)"

text \<open>Every user but the administrator, and every role but the administrator's, is the same in
  memory and in the metadata.\<close>

definition consistent :: "string \<Rightarrow> server \<Rightarrow> bool" where
  "consistent admin srv \<longleftrightarrow>
     named_by userid (users_of (srv_access srv)) \<and>
     (\<forall>uid. uid \<noteq> admin \<longrightarrow>
        map_option persisted (map_of (users_of (srv_access srv)) uid) =
        map_option persisted (stored_user (srv_metadata srv) uid)) \<and>
     (\<forall>r. r \<noteq> ''admin'' \<longrightarrow>
        map_of (dir_roles (dir_of srv)) r = map_of (md_roles (srv_metadata srv)) r)"

lemma persisted_roles [simp]: "user_roles (persisted u) = user_roles u"
  by (simp add: persisted_def split: user_type.splits)

lemma persisted_set_roles: "persisted (u\<lparr>user_roles := r\<rparr>) = (persisted u)\<lparr>user_roles := r\<rparr>"
  by (simp add: persisted_def split: user_type.splits)

lemma persisted_eq_roles: "persisted u = persisted v \<Longrightarrow> user_roles u = user_roles v"
  by (metis persisted_roles)

lemma persisted_native: "persisted u = persisted v \<Longrightarrow> user_ty u = Native b \<longleftrightarrow> user_ty v = Native b"
  by (cases "user_ty u"; cases "user_ty v") (auto simp: persisted_def)

lemma persisted_set_hash: "persisted (set_hash h u) = set_hash h (persisted u)"
  by (simp add: persisted_def set_hash_def split: user_type.splits)

lemma userid_set_roles [simp]: "userid (u\<lparr>user_roles := r\<rparr>) = userid u"
  by (simp add: userid_def)

lemma userid_set_hash [simp]: "userid (set_hash h u) = userid u"
  by (simp add: userid_def set_hash_def split: user_type.splits)

lemma userid_new_basic [simp]: "userid (new_basic n h) = n"
  by (simp add: userid_def new_basic_def)

lemma update_first_find:
  assumes "update_first P f xs = Some ys" and "\<And>x. userid (f x) = userid x"
    and "\<And>x. P x \<Longrightarrow> userid x = uid"
    and first: "\<And>x. List.find (\<lambda>u. userid u = uid) xs = Some x \<Longrightarrow> P x"
  shows "List.find (\<lambda>u. userid u = i) ys =
    (if i = uid then map_option f (List.find (\<lambda>u. userid u = i) xs)
     else List.find (\<lambda>u. userid u = i) xs)"
  using assms(1) first
proof (induction xs arbitrary: ys)
  case Nil
  then show ?case by simp
next
  case (Cons x xs)
  show ?case
  proof (cases "P x")
    case True
    with Cons.prems(1) have "ys = f x # xs" by simp
    then show ?thesis using True assms(2,3) by auto
  next
    case False
    with Cons.prems(1) obtain zs where zs: "update_first P f xs = Some zs" "ys = x # zs" by auto
    have "userid x \<noteq> uid" using Cons.prems(2) [of x] False by auto
    then have "List.find (\<lambda>u. userid u = uid) xs = Some y \<Longrightarrow> P y" for y
      using Cons.prems(2) [of y] by simp
    from Cons.IH [OF zs(1) this] zs(2) \<open>userid x \<noteq> uid\<close> show ?thesis by auto
  qed
qed

lemma update_first_None: "update_first P f xs = None \<longleftrightarrow> (\<forall>x \<in> set xs. \<not> P x)"
  by (induction xs) auto

lemma find_append: "List.find P (xs @ [y]) =
    (case List.find P xs of Some x \<Rightarrow> Some x | None \<Rightarrow> if P y then Some y else None)"
  by (induction xs) auto

lemma find_filter_other:
  "List.find (\<lambda>u. userid u = i) (filter (\<lambda>u. userid u \<noteq> uid) xs) =
     (if i = uid then None else List.find (\<lambda>u. userid u = i) xs)"
  by (induction xs) auto

text \<open>What the operations on memory do to its users and roles.\<close>

lemma access_views:
  "users_of (end_sessions uid st) = users_of st"
  "users_of (set_users us st) = us"
  "users_of (set_roles rs st) = users_of st"
  "dir_roles (directory (end_sessions uid st)) = dir_roles (directory st)"
  "dir_roles (directory (set_users us st)) = dir_roles (directory st)"
  "dir_roles (directory (set_roles rs st)) = rs"
  "dir_groups (directory (end_sessions uid st)) = dir_groups (directory st)"
  "dir_groups (directory (set_users us st)) = dir_groups (directory st)"
  "dir_groups (directory (set_roles rs st)) = dir_groups (directory st)"
  by (simp_all add: end_sessions_def users_of_def set_users_def set_roles_def)

lemma add_roles_users:
  assumes "map_of (users_of st) uid = Some u"
  shows "users_of (add_roles uid roles st) =
      AList.update uid (u\<lparr>user_roles := extend_names (user_roles u) roles\<rparr>) (users_of st)"
    and "dir_roles (directory (add_roles uid roles st)) = dir_roles (directory st)"
  using assms by (simp_all add: add_roles_def access_views)

lemma remove_roles_users:
  assumes "map_of (users_of st) uid = Some u"
  shows "users_of (remove_roles uid roles st) =
      AList.update uid (u\<lparr>user_roles := difference_names (user_roles u) roles\<rparr>) (users_of st)"
    and "dir_roles (directory (remove_roles uid roles st)) = dir_roles (directory st)"
  using assms by (simp_all add: remove_roles_def access_views)

lemma end_sessions_fold:
  "users_of (fold end_sessions us st) = users_of st"
  "dir_roles (directory (fold end_sessions us st)) = dir_roles (directory st)"
  by (induction us arbitrary: st) (simp_all add: access_views)

section \<open>The handlers keep memory and storage in agreement\<close>

lemma consistentD:
  assumes "consistent admin srv"
  shows "named_by userid (users_of (srv_access srv))"
    and "uid \<noteq> admin \<Longrightarrow> map_option persisted (map_of (users_of (srv_access srv)) uid) =
      map_option persisted (stored_user (srv_metadata srv) uid)"
    and "r \<noteq> ''admin'' \<Longrightarrow> map_of (dir_roles (dir_of srv)) r = map_of (md_roles (srv_metadata srv)) r"
  using assms by (simp_all add: consistent_def)

lemma store_then_consistent:
  assumes "put_out io \<noteq> Remote_only" and "consistent admin srv"
    and "consistent admin (srv\<lparr>srv_metadata := md, srv_access := f (srv_access srv)\<rparr>)"
  shows "consistent admin (fst (store_then err io md f srv))"
  using assms by (cases "put_out io") (simp_all add: store_then_def put_metadata_def)

lemma update_user_consistent:
  assumes con: "consistent admin srv"
    and u: "map_of (users_of (srv_access srv)) uid = Some u"
    and users: "users_of st' = AList.update uid (g u) (users_of (srv_access srv))"
    and roles: "dir_roles (directory st') = dir_roles (dir_of srv)"
    and id: "userid (g u) = uid"
    and stored: "\<And>i. stored_user md' i =
      (if i = uid then map_option f (stored_user (srv_metadata srv) i) else stored_user (srv_metadata srv) i)"
    and mroles: "md_roles md' = md_roles (srv_metadata srv)"
    and same: "\<And>v. persisted u = persisted v \<Longrightarrow> persisted (g u) = persisted (f v)"
  shows "consistent admin (srv\<lparr>srv_metadata := md', srv_access := st'\<rparr>)"
proof -
  have "named_by userid (users_of st')"
    unfolding users using consistentD(1) [OF con] id by (rule named_by_update)
  moreover have "map_option persisted (map_of (users_of st') i) = map_option persisted (stored_user md' i)"
    if i: "i \<noteq> admin" for i
  proof (cases "i = uid")
    case True
    have "map_option persisted (stored_user (srv_metadata srv) uid) = Some (persisted u)"
      using consistentD(2) [OF con i] u True by simp
    then obtain v where "stored_user (srv_metadata srv) uid = Some v" "persisted u = persisted v"
      by auto
    then show ?thesis using True same by (simp add: users stored update_conv')
  next
    case False
    then show ?thesis using consistentD(2) [OF con i] by (simp add: users stored update_conv')
  qed
  moreover have "map_of (dir_roles (directory st')) r = map_of (md_roles md') r" if "r \<noteq> ''admin''" for r
    using consistentD(3) [OF con that] by (simp add: roles mroles)
  ultimately show ?thesis by (simp add: consistent_def dir_of_def)
qed

lemma stored_user_update:
  assumes "update_first (\<lambda>u. userid u = uid) f (md_users md) = Some us" and "\<And>x. userid (f x) = userid x"
  shows "stored_user (md\<lparr>md_users := us\<rparr>) i =
    (if i = uid then map_option f (stored_user md i) else stored_user md i)"
proof -
  have found: "userid x = uid" if "List.find (\<lambda>u. userid u = uid) xs = Some x" for x xs
    using that by (auto simp: find_Some_iff)
  have "stored_user (md\<lparr>md_users := us\<rparr>) i = List.find (\<lambda>u. userid u = i) us"
    by (simp add: stored_user_def)
  also have "... = (if i = uid then map_option f (List.find (\<lambda>u. userid u = i) (md_users md))
      else List.find (\<lambda>u. userid u = i) (md_users md))"
    by (rule update_first_find [OF assms]) (assumption | erule found)+
  finally show ?thesis by (simp add: stored_user_def)
qed

lemma add_roles_to_user_consistent:
  assumes con: "consistent admin srv" and io: "put_out io \<noteq> Remote_only"
  shows "consistent admin (fst (add_roles_to_user io uid roles srv))"
proof -
  let ?f = "\<lambda>u. u\<lparr>user_roles := extend_names (user_roles u) roles\<rparr>"
  have "consistent admin (srv\<lparr>srv_metadata := (srv_metadata srv)\<lparr>md_users := us\<rparr>,
      srv_access := add_roles uid roles (srv_access srv)\<rparr>)"
    if u: "map_of (users_of (srv_access srv)) uid = Some u"
      and us: "update_first (\<lambda>u. userid u = uid) ?f (md_users (srv_metadata srv)) = Some us" for us u
  proof (rule update_user_consistent [OF con u, where g = ?f and f = ?f])
    show "userid (?f u) = uid" using named_by_map_of [OF consistentD(1) [OF con] u] by simp
    show "stored_user ((srv_metadata srv)\<lparr>md_users := us\<rparr>) i =
        (if i = uid then map_option ?f (stored_user (srv_metadata srv) i)
         else stored_user (srv_metadata srv) i)" for i
      by (rule stored_user_update [OF us]) simp
    show "persisted (?f u) = persisted (?f v)" if "persisted u = persisted v" for v
      using that persisted_eq_roles [OF that] by (simp add: persisted_set_roles)
  qed (use u in \<open>simp_all add: add_roles_users dir_of_def\<close>)
  then show ?thesis
    using con io
    by (auto simp: add_roles_to_user_def get_metadata_def contains_user_def
        intro!: store_then_consistent split: option.splits)
qed

lemma remove_roles_from_user_consistent:
  assumes con: "consistent admin srv" and io: "put_out io \<noteq> Remote_only"
  shows "consistent admin (fst (remove_roles_from_user io uid roles srv))"
proof -
  let ?f = "\<lambda>u. u\<lparr>user_roles := difference_names (user_roles u) roles\<rparr>"
  have "consistent admin (srv\<lparr>srv_metadata := (srv_metadata srv)\<lparr>md_users := us\<rparr>,
      srv_access := remove_roles uid roles (srv_access srv)\<rparr>)"
    if u: "map_of (users_of (srv_access srv)) uid = Some u"
      and us: "update_first (\<lambda>u. userid u = uid) ?f (md_users (srv_metadata srv)) = Some us" for us u
  proof (rule update_user_consistent [OF con u, where g = ?f and f = ?f])
    show "userid (?f u) = uid" using named_by_map_of [OF consistentD(1) [OF con] u] by simp
    show "stored_user ((srv_metadata srv)\<lparr>md_users := us\<rparr>) i =
        (if i = uid then map_option ?f (stored_user (srv_metadata srv) i)
         else stored_user (srv_metadata srv) i)" for i
      by (rule stored_user_update [OF us]) simp
    show "persisted (?f u) = persisted (?f v)" if "persisted u = persisted v" for v
      using that persisted_eq_roles [OF that] by (simp add: persisted_set_roles)
  qed (use u in \<open>simp_all add: remove_roles_users dir_of_def\<close>)
  then show ?thesis
    using con io
    by (auto simp: remove_roles_from_user_def get_metadata_def contains_user_def Let_def
        intro!: store_then_consistent split: option.splits)
qed

lemma put_user_consistent:
  assumes con: "consistent admin srv" and fresh: "map_of (users_of (srv_access srv)) name = None"
  shows "consistent admin
    (srv\<lparr>srv_metadata := (srv_metadata srv)\<lparr>md_users := md_users (srv_metadata srv) @ [new_basic name h]\<rparr>,
         srv_access := put_user (new_basic name h) (srv_access srv)\<rparr>)"
proof -
  let ?u = "new_basic name h"
  have users: "users_of (put_user ?u (srv_access srv)) = AList.update name ?u (users_of (srv_access srv))"
    by (simp add: put_user_def access_views insert_user_def Let_def)
  have roles: "dir_roles (directory (put_user ?u (srv_access srv))) = dir_roles (dir_of srv)"
    by (simp add: put_user_def access_views Let_def dir_of_def)
  have "named_by userid (users_of (put_user ?u (srv_access srv)))"
    unfolding users by (rule named_by_update [OF consistentD(1) [OF con]]) simp
  moreover have "map_option persisted (map_of (users_of (put_user ?u (srv_access srv))) i) =
      map_option persisted
        (stored_user ((srv_metadata srv)\<lparr>md_users := md_users (srv_metadata srv) @ [?u]\<rparr>) i)"
    if i: "i \<noteq> admin" for i
    using consistentD(2) [OF con i] fresh
    by (auto simp: users stored_user_def find_append update_conv' split: option.splits)
  ultimately show ?thesis
    using consistentD(3) [OF con] by (simp add: consistent_def roles dir_of_def)
qed

lemma post_user_consistent:
  assumes "consistent admin srv" "put_out io \<noteq> Remote_only" "put_out io' \<noteq> Remote_only"
  shows "consistent admin (fst (post_user io io' h name body srv))"
proof (cases "post_user_begin io name body srv")
  case (Inl e)
  then show ?thesis using assms(1) by (simp add: post_user_def)
next
  case (Inr snapshot)
  then obtain roles where snap: "snapshot = (srv_metadata srv, roles)"
    by (auto simp: post_user_begin_def get_metadata_def split: sum.splits option.splits if_splits)
  show ?thesis
  proof (cases "contains_user (srv_access srv) name")
    case True
    then show ?thesis using assms(1) Inr snap by (simp add: post_user_def post_user_commit_def)
  next
    case False
    let ?md = "(srv_metadata srv)\<lparr>md_users := md_users (srv_metadata srv) @ [new_basic name h]\<rparr>"
    let ?r = "store_then ObjectStorageError io ?md (put_user (new_basic name h)) srv"
    have "consistent admin (fst ?r)"
      using False
      by (intro store_then_consistent assms put_user_consistent) (simp add: contains_user_def)
    then show ?thesis
      using assms Inr snap False
      by (cases ?r)
        (auto simp: post_user_def post_user_commit_def Let_def intro!: add_roles_to_user_consistent
          split: sum.splits)
  qed
qed

lemma update_first_other:
  assumes "update_first P f xs = Some ys" and "\<And>x. userid (f x) = userid x"
    and "\<And>x. P x \<Longrightarrow> userid x = uid"
  shows "i \<noteq> uid \<Longrightarrow> List.find (\<lambda>u. userid u = i) ys = List.find (\<lambda>u. userid u = i) xs"
    and "List.find (\<lambda>u. userid u = uid) xs = Some x \<Longrightarrow> \<not> P x \<Longrightarrow>
      List.find (\<lambda>u. userid u = uid) ys = Some x"
  using assms(1)
proof (induction xs arbitrary: ys)
  case Nil
  {
    case 1 then show ?case by simp
  next
    case 2 then show ?case by simp
  }
next
  case (Cons y xs)
  {
    case 1
    then show ?case using assms(2,3) Cons.IH(1) by (auto split: if_splits)
  next
    case 2
    then show ?case using assms(2,3) Cons.IH(2) by (auto split: if_splits)
  }
qed

lemma native_named_userid: "native_named n u \<Longrightarrow> userid u = n"
  by (auto simp: native_named_def userid_def split: user_type.splits)

lemma native_named_iff: "userid u = n \<Longrightarrow> native_named n u \<longleftrightarrow> (\<exists>b. user_ty u = Native b)"
  by (auto simp: native_named_def userid_def split: user_type.splits)

lemma change_password_users:
  "dir_roles (directory (change_password_hash uid h st)) = dir_roles (directory st)"
  "users_of (change_password_hash uid h st) =
     (case map_of (users_of st) uid of
        None \<Rightarrow> users_of st
      | Some u \<Rightarrow> (case user_ty u of
          OAuth _ \<Rightarrow> users_of st
        | Native b \<Rightarrow> AList.update uid (set_hash h u) (users_of st)))"
  by (simp_all add: change_password_hash_def access_views set_hash_def
      split: option.splits user_type.splits)

lemma set_hash_persisted_eq:
  "persisted u = persisted v \<Longrightarrow> persisted (set_hash h u) = persisted (set_hash h v)"
  by (simp add: persisted_set_hash)

lemma change_password_consistent:
  assumes con: "consistent admin srv"
    and us: "update_first (native_named n) (set_hash h) (md_users (srv_metadata srv)) = Some us"
  shows "consistent admin (srv\<lparr>srv_metadata := (srv_metadata srv)\<lparr>md_users := us\<rparr>,
      srv_access := change_password_hash n h (srv_access srv)\<rparr>)"
proof (cases "\<exists>u b. map_of (users_of (srv_access srv)) n = Some u \<and> user_ty u = Native b \<and> n \<noteq> admin")
  case True
  then obtain u b where u: "map_of (users_of (srv_access srv)) n = Some u" "user_ty u = Native b" "n \<noteq> admin"
    by blast
  have first: "native_named n x" if "List.find (\<lambda>u. userid u = n) (md_users (srv_metadata srv)) = Some x" for x
  proof -
    have "persisted x = persisted u"
      using consistentD(2) [OF con u(3)] u(1) that by (simp add: stored_user_def)
    then have "user_ty x = Native b" using persisted_native [of x u b] u(2) by simp
    moreover have "userid x = n" using that by (auto simp: find_Some_iff)
    ultimately show ?thesis by (auto simp: native_named_iff)
  qed
  show ?thesis
  proof (rule update_user_consistent [OF con u(1), where g = "set_hash h" and f = "set_hash h"])
    show "userid (set_hash h u) = n" using named_by_map_of [OF consistentD(1) [OF con] u(1)] by simp
    show "stored_user ((srv_metadata srv)\<lparr>md_users := us\<rparr>) i =
        (if i = n then map_option (set_hash h) (stored_user (srv_metadata srv) i)
         else stored_user (srv_metadata srv) i)" for i
      using update_first_find [OF us userid_set_hash native_named_userid first]
      by (simp add: stored_user_def)
    show "persisted (set_hash h u) = persisted (set_hash h v)" if "persisted u = persisted v" for v
      using that by (rule set_hash_persisted_eq)
    show "users_of (change_password_hash n h (srv_access srv)) =
        AList.update n (set_hash h u) (users_of (srv_access srv))"
      using u by (simp add: change_password_users)
  qed (simp_all add: change_password_users dir_of_def)
next
  case False
  have other: "map_of (users_of (change_password_hash n h (srv_access srv))) i =
      map_of (users_of (srv_access srv)) i" if "i \<noteq> admin" for i
    using that False
    by (auto simp: change_password_users update_conv' split: option.splits user_type.splits)
  have "named_by userid (users_of (change_password_hash n h (srv_access srv)))"
    using consistentD(1) [OF con] named_by_map_of [OF consistentD(1) [OF con]]
    by (auto simp: change_password_users intro!: named_by_update split: option.splits user_type.splits)
  moreover have "map_option persisted (stored_user ((srv_metadata srv)\<lparr>md_users := us\<rparr>) i) =
      map_option persisted (stored_user (srv_metadata srv) i)" if i: "i \<noteq> admin" for i
  proof (cases "i = n")
    case False
    then show ?thesis
      using update_first_other(1) [OF us userid_set_hash native_named_userid]
      by (simp add: stored_user_def)
  next
    case True
    have "\<exists>x \<in> set (md_users (srv_metadata srv)). userid x = n"
      using us update_first_None [of "native_named n" "set_hash h"] native_named_userid
      by (metis option.distinct(1))
    then obtain x where x: "List.find (\<lambda>u. userid u = n) (md_users (srv_metadata srv)) = Some x"
      by (cases "List.find (\<lambda>u. userid u = n) (md_users (srv_metadata srv))")
        (auto simp: find_None_iff)
    then obtain u where u: "map_of (users_of (srv_access srv)) n = Some u" "persisted u = persisted x"
      using consistentD(2) [OF con i] True by (auto simp: stored_user_def)
    have "\<not> native_named n x"
      using u \<open>\<not> (\<exists>u b. _ u b)\<close> i True persisted_native [OF u(2)] x
      by (auto simp: native_named_def split: user_type.splits)
    then show ?thesis
      using update_first_other(2) [OF us userid_set_hash native_named_userid x] True x
      by (simp add: stored_user_def)
  qed
  ultimately show ?thesis
    using consistentD(2,3) [OF con] other
    by (simp add: consistent_def change_password_users dir_of_def)
qed

lemma post_gen_password_consistent:
  "consistent admin srv \<Longrightarrow> put_out io \<noteq> Remote_only \<Longrightarrow>
   consistent admin (fst (post_gen_password io h n srv))"
  by (auto simp: post_gen_password_def get_metadata_def
      intro!: store_then_consistent change_password_consistent split: option.splits)

lemma delete_user_users:
  "users_of (delete_user uid st) = AList.delete uid (users_of st)"
  "dir_roles (directory (delete_user uid st)) = dir_roles (directory st)"
  by (simp_all add: delete_user_def access_views)

lemma delete_user_consistent:
  assumes con: "consistent admin srv" and io: "put_out io \<noteq> Remote_only"
  shows "consistent admin (fst (delete_user_handler io uid srv))"
proof -
  let ?md = "(srv_metadata srv)\<lparr>md_users := filter (\<lambda>u. userid u \<noteq> uid) (md_users (srv_metadata srv))\<rparr>"
  have "stored_user ?md i = (if i = uid then None else stored_user (srv_metadata srv) i)" for i
    by (simp add: stored_user_def find_filter_other)
  then have "consistent admin (srv\<lparr>srv_metadata := ?md, srv_access := delete_user uid (srv_access srv)\<rparr>)"
    using named_by_delete [OF consistentD(1) [OF con]] consistentD(2,3) [OF con]
    by (simp add: consistent_def delete_user_users dir_of_def delete_conv')
  then show ?thesis
    using con io by (auto simp: delete_user_handler_def get_metadata_def intro!: store_then_consistent)
qed

lemma refresh_role_users:
  "users_of (refresh_role n ps st) = users_of st"
  "dir_roles (directory (refresh_role n ps st)) = AList.update n ps (dir_roles (directory st))"
  by (simp_all add: refresh_role_def Let_def end_sessions_fold access_views)

lemma put_role_consistent:
  assumes con: "consistent admin srv" and io: "put_out io \<noteq> Remote_only"
  shows "consistent admin (fst (put_role io n ps srv))"
proof -
  let ?md = "(srv_metadata srv)\<lparr>md_roles := AList.update n ps (md_roles (srv_metadata srv))\<rparr>"
  have "stored_user ?md = stored_user (srv_metadata srv)" by (simp add: fun_eq_iff stored_user_def)
  then have "consistent admin (srv\<lparr>srv_metadata := ?md, srv_access := refresh_role n ps (srv_access srv)\<rparr>)"
    using con by (simp add: consistent_def refresh_role_users dir_of_def update_conv')
  then show ?thesis
    using con io
    by (auto simp: put_role_def get_metadata_def intro!: store_then_consistent split: sum.splits)
qed

lemma delete_role_consistent:
  assumes con: "consistent admin srv" and io: "put_out io \<noteq> Remote_only"
  shows "consistent admin (fst (delete_role io n srv))"
proof -
  let ?md = "(srv_metadata srv)\<lparr>md_roles := AList.delete n (md_roles (srv_metadata srv))\<rparr>"
  have "stored_user ?md = stored_user (srv_metadata srv)" by (simp add: fun_eq_iff stored_user_def)
  then have "consistent admin (srv\<lparr>srv_metadata := ?md, srv_access := remove_role n (srv_access srv)\<rparr>)"
    using con by (simp add: consistent_def remove_role_def access_views dir_of_def delete_conv')
  then show ?thesis
    using con io by (auto simp: delete_role_def get_metadata_def intro!: store_then_consistent)
qed

lemma put_default_consistent:
  assumes con: "consistent admin srv" and io: "put_out io \<noteq> Remote_only"
  shows "consistent admin (fst (put_default io n srv))"
proof -
  let ?srv = "srv\<lparr>srv_access := (srv_access srv)\<lparr>default_role := Some n\<rparr>\<rparr>"
  have view: "consistent admin (srv\<lparr>srv_metadata := md, srv_access := st\<rparr>)"
    if "users_of st = users_of (srv_access srv)" "dir_roles (directory st) = dir_roles (dir_of srv)"
      "md_users md = md_users (srv_metadata srv)" "md_roles md = md_roles (srv_metadata srv)" for md st
    using con that by (simp add: consistent_def dir_of_def stored_user_def)
  have "consistent admin ?srv"
    using con by (simp add: consistent_def dir_of_def users_of_def)
  moreover have "consistent admin
      (?srv\<lparr>srv_metadata := (srv_metadata srv)\<lparr>md_default_role := Some n\<rparr>, srv_access := srv_access ?srv\<rparr>)"
    using view by (simp add: users_of_def dir_of_def)
  ultimately show ?thesis
    using con io
    by (auto simp: put_default_def get_metadata_def intro!: store_then_consistent [where f = "\<lambda>st. st"])
qed

text \<open>The requests as a step relation: each handler runs to its end before the next, and no
  write reaches only the remote copy of the metadata.\<close>

inductive handler_step :: "server \<Rightarrow> server \<Rightarrow> bool" where
  post_user: "put_out io \<noteq> Remote_only \<Longrightarrow> put_out io' \<noteq> Remote_only \<Longrightarrow>
    handler_step srv (fst (post_user io io' h name body srv))"
| post_gen_password: "put_out io \<noteq> Remote_only \<Longrightarrow> handler_step srv (fst (post_gen_password io h name srv))"
| delete_user: "put_out io \<noteq> Remote_only \<Longrightarrow> handler_step srv (fst (delete_user_handler io uid srv))"
| add_roles: "put_out io \<noteq> Remote_only \<Longrightarrow> handler_step srv (fst (add_roles_to_user io uid roles srv))"
| remove_roles: "put_out io \<noteq> Remote_only \<Longrightarrow> handler_step srv (fst (remove_roles_from_user io uid roles srv))"
| put_role: "put_out io \<noteq> Remote_only \<Longrightarrow> handler_step srv (fst (put_role io name privileges srv))"
| delete_role: "put_out io \<noteq> Remote_only \<Longrightarrow> handler_step srv (fst (delete_role io name srv))"
| put_default: "put_out io \<noteq> Remote_only \<Longrightarrow> handler_step srv (fst (put_default io name srv))"
| authorize: "handler_step srv (srv\<lparr>srv_access := fst (authorize env key a cr cu (srv_access srv))\<rparr>)"

inductive_cases handler_stepE: "handler_step srv srv'"

lemma authorize_keeps_directory: "directory (fst (authorize env key a cr cu st)) = directory st"
  by (auto simp: authorize_def Let_def split: option.splits session_key.splits user_type.splits)

lemma authorize_consistent:
  "consistent admin srv \<Longrightarrow>
   consistent admin (srv\<lparr>srv_access := fst (authorize env key a cr cu (srv_access srv))\<rparr>)"
  by (simp add: consistent_def dir_of_def users_of_def authorize_keeps_directory)

lemmas handlers_consistent =
  post_user_consistent post_gen_password_consistent delete_user_consistent add_roles_to_user_consistent
  remove_roles_from_user_consistent put_role_consistent delete_role_consistent put_default_consistent
  authorize_consistent

lemma handler_step_consistent: "handler_step srv srv' \<Longrightarrow> consistent admin srv \<Longrightarrow> consistent admin srv'"
  by (elim handler_stepE) (simp_all add: handlers_consistent)

section \<open>Starting the server\<close>

lemma fold_insert_users:
  "distinct (map userid us) \<Longrightarrow> set (map userid us) \<inter> set (keys_of m) = {} \<Longrightarrow>
   map_of (fold insert_user us m) uid =
     (case List.find (\<lambda>u. userid u = uid) us of Some u \<Rightarrow> Some u | None \<Rightarrow> map_of m uid)"
proof (induction us arbitrary: m)
  case Nil
  then show ?case by simp
next
  case (Cons u us)
  have "userid u \<notin> userid ` set us" using Cons.prems(1) by simp
  then have "List.find (\<lambda>v. userid v = userid u) us = None"
    unfolding find_None_iff by (metis imageI)
  moreover have "map_of (fold insert_user us (insert_user u m)) uid =
      (case List.find (\<lambda>v. userid v = uid) us of Some v \<Rightarrow> Some v | None \<Rightarrow> map_of (insert_user u m) uid)"
    using Cons.prems by (intro Cons.IH) (auto simp: insert_user_def)
  moreover have "map_of (insert_user u m) uid = (if uid = userid u then Some u else map_of m uid)"
    by (simp add: insert_user_def update_conv')
  ultimately show ?case by (auto split: option.splits)
qed

lemma init_consistent:
  assumes "distinct (map userid (md_users md))"
  shows "consistent admin \<lparr>srv_access = init_access env admin pw h streams md, srv_metadata = md\<rparr>"
proof -
  have adm: "userid (get_admin_user admin h) = admin" by (simp add: userid_def get_admin_user_def)
  have "named_by userid (insert_user (get_admin_user admin h) (users_from (md_users md)))"
    unfolding insert_user_def by (rule named_by_update [OF users_from_named]) simp
  moreover have "map_of (users_from (md_users md)) uid = stored_user md uid" for uid
    using fold_insert_users [OF assms, of "[]" uid] by (simp add: users_from_def stored_user_def split: option.splits)
  ultimately show ?thesis
    by (simp add: consistent_def init_access_def Let_def users_of_def dir_of_def insert_user_def
        update_conv' adm)
qed

section \<open>Properties\<close>

text \<open>C25: Start a server on metadata with distinct users, and let it handle, one after the other,
  requests to create, delete or change users, passwords, roles of users, roles and the default
  role, and authorisations of requests; a request may fail to read the metadata or to write
  them, but no write reaches only the remote copy (\<open>partial_write_diverges\<close>), and
  no user logs in through a provider and no user group is changed. Then every user but the
  administrator is in memory exactly as in the stored metadata (up to the token kept in memory),
  and so is every role but the administrator's: a restart restores them.\<close>

theorem handlers_agree_with_storage:
  assumes "distinct (map userid (md_users md))"
    and "handler_step\<^sup>*\<^sup>* \<lparr>srv_access = init_access env admin pw h streams md, srv_metadata = md\<rparr> srv"
    and "uid \<noteq> admin" and "r \<noteq> ''admin''"
  shows "map_option persisted (map_of (users_of (srv_access srv)) uid) =
      map_option persisted (List.find (\<lambda>u. userid u = uid) (md_users (srv_metadata srv))) \<and>
    map_of (dir_roles (directory (srv_access srv))) r = map_of (md_roles (srv_metadata srv)) r"
proof -
  from assms(2) have "consistent admin srv"
    by (induction rule: rtranclp_induct)
      (use init_consistent [OF assms(1)] in \<open>auto intro: handler_step_consistent\<close>)
  from consistentD(2,3) [OF this] assms(3,4) show ?thesis
    by (simp add: stored_user_def dir_of_def)
qed

text \<open>When the remote copy is written but the copy in staging is not, the request fails and memory stays
  as it was, although the role is stored.\<close>

theorem partial_write_diverges:
  assumes "user_role_name name = Inr ()" and "get_ok io" and "put_out io = Remote_only"
  shows "\<exists>srv' e. put_role io name privileges srv = (srv', Inl e) \<and>
    map_of (md_roles (srv_metadata srv')) name = Some privileges \<and> srv_access srv' = srv_access srv"
  using assms by (simp add: put_role_def get_metadata_def store_then_def put_metadata_def update_conv')

definition empty_metadata :: metadata where
  "empty_metadata =
     \<lparr>md_users = [], md_user_groups = [], md_roles = [(''ops'', [Editor])], md_default_role = None\<rparr>"

definition fresh_server :: server where
  "fresh_server =
     \<lparr>srv_access =
        init_access \<lparr>auth_now = 0, max_utc = 1000, verify = (\<lambda>_ _. True)\<rparr> ''root'' ''pw'' ''h'' []
          empty_metadata,
      srv_metadata = empty_metadata\<rparr>"

definition good_io :: io_outcome where
  "good_io = \<lparr>get_ok = True, put_out = Stored\<rparr>"

theorem handlers_agree_with_storage_witness:
  "map_option persisted
      (map_of (users_of (srv_access (fst (post_user good_io good_io ''x'' ''ann'' None fresh_server)))) ''ann'') =
   map_option persisted
      (List.find (\<lambda>u. userid u = ''ann'')
        (md_users (srv_metadata (fst (post_user good_io good_io ''x'' ''ann'' None fresh_server)))))"
proof -
  have "handler_step\<^sup>*\<^sup>* fresh_server (fst (post_user good_io good_io ''x'' ''ann'' None fresh_server))"
    by (rule r_into_rtranclp, rule handler_step.post_user) (simp_all add: good_io_def)
  then show ?thesis
    unfolding fresh_server_def
    by (intro conjunct1 [OF handlers_agree_with_storage [where r = "''ops''" and admin = "''root''" and md = empty_metadata]])
      (simp_all add: empty_metadata_def)
qed

text \<open>Two requests that create different users and both read the metadata before either takes
  the lock: both succeed and both users are in memory, but the stored metadata has only the
  second, so the first is gone after a restart.\<close>

theorem post_user_lost_update:
  assumes "post_user_begin io_a name1 None srv = Inr snapshot1"
    and "post_user_begin io_b name2 None srv = Inr snapshot2"
    and "name1 \<noteq> name2" and "put_out io_a = Stored" and "put_out io_b = Stored"
    and "\<not> contains_user (srv_access srv) name1" and "\<not> contains_user (srv_access srv) name2"
    and "\<forall>u \<in> set (md_users (srv_metadata srv)). userid u \<noteq> name1 \<and> userid u \<noteq> name2"
  shows "let (srv1, out1) = post_user_commit io_a io_a h1 name1 snapshot1 srv;
             (srv2, out2) = post_user_commit io_b io_b h2 name2 snapshot2 srv1
    in out1 = Inr () \<and> out2 = Inr () \<and> contains_user (srv_access srv2) name1 \<and>
      contains_user (srv_access srv2) name2 \<and>
      (\<forall>u \<in> set (md_users (srv_metadata srv2)). userid u \<noteq> name1)"
proof -
  have snap: "snapshot = (srv_metadata srv, [])"
    if "post_user_begin io name None srv = Inr snapshot" for io name snapshot
    using that by (auto simp: post_user_begin_def get_metadata_def split: sum.splits if_splits)
  have no_native: "\<not> list_ex (native_named n) (md_users (srv_metadata srv))" if "n \<in> {name1, name2}" for n
    using assms(8) that native_named_userid by (fastforce simp: list_ex_iff)
  have commit: "post_user_commit io io h name (srv_metadata srv, []) s =
      (s\<lparr>srv_metadata := (srv_metadata srv)\<lparr>md_users := md_users (srv_metadata srv) @ [new_basic name h]\<rparr>,
         srv_access := put_user (new_basic name h) (srv_access s)\<rparr>, Inr ())"
    if "put_out io = Stored" "\<not> contains_user (srv_access s) name" "name \<in> {name1, name2}" for io h name s
    using that no_native by (simp add: post_user_commit_def store_then_def put_metadata_def Let_def)
  have users: "contains_user (put_user (new_basic name h) st) n \<longleftrightarrow> n = name \<or> contains_user st n" for name h st n
    by (simp add: contains_user_def put_user_def access_views insert_user_def update_conv' Let_def)
  show ?thesis
    using assms(3-8) by (simp add: snap [OF assms(1)] snap [OF assms(2)] commit users)
qed

theorem post_user_lost_update_witness:
  "\<exists>srv2 :: server. contains_user (srv_access srv2) ''ann'' \<and> contains_user (srv_access srv2) ''bob'' \<and>
     (\<forall>u \<in> set (md_users (srv_metadata srv2)). userid u \<noteq> ''ann'')"
proof -
  have valid: "user_role_name ''ann'' = Inr ()" "user_role_name ''bob'' = Inr ()" by code_simp+
  have prepared: "post_user_begin good_io n None fresh_server = Inr (empty_metadata, [])"
    if "n \<in> {''ann'', ''bob''}" for n
    using that valid
    by (auto simp: post_user_begin_def get_metadata_def good_io_def fresh_server_def missing_roles_def)
  have users: "contains_user (srv_access fresh_server) n \<longleftrightarrow> n = ''root''" for n
    by (simp add: contains_user_def fresh_server_def init_access_def users_of_def insert_user_def
        users_from_def empty_metadata_def get_admin_user_def userid_def)
  have "let (srv1, out1) = post_user_commit good_io good_io ''x'' ''ann'' (empty_metadata, []) fresh_server;
             (srv2, out2) = post_user_commit good_io good_io ''y'' ''bob'' (empty_metadata, []) srv1
    in out1 = Inr () \<and> out2 = Inr () \<and> contains_user (srv_access srv2) ''ann'' \<and>
      contains_user (srv_access srv2) ''bob'' \<and>
      (\<forall>u \<in> set (md_users (srv_metadata srv2)). userid u \<noteq> ''ann'')"
    by (rule post_user_lost_update [where srv = fresh_server and io_a = good_io and io_b = good_io])
      (simp_all add: prepared users, simp_all add: good_io_def fresh_server_def empty_metadata_def)
  then show ?thesis unfolding Let_def case_prod_beta by blast
qed

text \<open>When a role is changed, its new privileges are in memory and in storage, and no key that
  is tracked for a user who has the role, directly or through a group, is an active session.\<close>

theorem put_role_ends_sessions:
  assumes "put_role io name privileges srv = (srv', Inr ())"
    and "named_by userid (dir_users (dir_of srv))"
    and "(\<exists>u. (uid, u) \<in> set (dir_users (dir_of srv)) \<and> name \<in> set (user_roles u)) \<or>
      (\<exists>g n. (n, g) \<in> set (dir_groups (dir_of srv)) \<and> name \<in> set (group_roles g) \<and>
         uid \<in> set (userids (group_users g)))"
    and "(key, e) \<in> set (tracked (sessions_of (srv_access srv)) uid)"
  shows "map_of (dir_roles (dir_of srv')) name = Some privileges \<and>
    map_of (md_roles (srv_metadata srv')) name = Some privileges \<and>
    get_userid (sessions_of (srv_access srv')) key = None"
proof -
  have fin: "srv' = srv\<lparr>srv_metadata := (srv_metadata srv)\<lparr>md_roles := AList.update name privileges (md_roles (srv_metadata srv))\<rparr>,
      srv_access := refresh_role name privileges (srv_access srv)\<rparr>"
    using assms(1)
    by (auto simp: put_role_def get_metadata_def store_then_def put_metadata_def
        split: sum.splits if_splits put_outcome.splits)
  have ended: "sessions_of (fold end_sessions us st) = fold remove_user us (sessions_of st)" for us st
    by (induction us arbitrary: st) (simp_all add: end_sessions_def)
  have same_users: "dir_users (directory (set_roles rs st)) = dir_users (directory st)"
    "dir_groups (directory (set_roles rs st)) = dir_groups (directory st)" for rs st
    by (simp_all add: set_roles_def)
  have same_sessions: "sessions_of (set_roles rs st) = sessions_of st" for rs st
    by (simp add: set_roles_def)
  have "uid \<in> set (session_refresh_users name (directory (set_roles rs (srv_access srv))))" for rs
    using assms(2,3)
    by (fastforce simp: session_refresh_users_def same_users dir_of_def named_by_def)
  then have "get_userid (sessions_of (refresh_role name privileges (srv_access srv))) key = None"
    using assms(4)
    by (force simp: refresh_role_def Let_def ended same_sessions get_userid_def active_fold_remove_user)
  then show ?thesis by (simp add: fin refresh_role_users dir_of_def update_conv')
qed

definition ann_server :: server where
  "ann_server =
     \<lparr>srv_access =
        \<lparr>directory =
           \<lparr>dir_users = [(''ann'', (new_basic ''ann'' ''h'')\<lparr>user_roles := [''ops'']\<rparr>)],
            dir_groups = [], dir_roles = [(''ops'', [Editor])], dir_streams = []\<rparr>,
         sessions_of = track_new 0 ''ann'' (SessionId 7) 100 [] no_sessions, default_role = None\<rparr>,
      srv_metadata = empty_metadata\<rparr>"

theorem put_role_ends_sessions_witness:
  "get_userid (sessions_of (srv_access (fst (put_role good_io ''ops'' [] ann_server)))) (SessionId 7) = None"
proof -
  have valid: "user_role_name ''ops'' = Inr ()" by code_simp
  have "put_role good_io ''ops'' [] ann_server =
      (fst (put_role good_io ''ops'' [] ann_server), Inr ())"
    by (simp add: put_role_def valid get_metadata_def good_io_def store_then_def put_metadata_def)
  note ended = put_role_ends_sessions [OF this, of "''ann''" "SessionId 7" 100]
  have "named_by userid (dir_users (dir_of ann_server))"
    by (simp add: named_by_def dir_of_def ann_server_def)
  note ended = ended [OF this]
  have "(''ann'', (new_basic ''ann'' ''h'')\<lparr>user_roles := [''ops'']\<rparr>) \<in> set (dir_users (dir_of ann_server))"
    by (simp add: dir_of_def ann_server_def)
  then have "\<exists>u. (''ann'', u) \<in> set (dir_users (dir_of ann_server)) \<and> ''ops'' \<in> set (user_roles u)"
    by force
  note ended = ended [OF disjI1, OF this]
  have "(SessionId 7, 100) \<in> set (tracked (sessions_of (srv_access ann_server)) ''ann'')"
    by (simp add: ann_server_def tracked_track_new)
  from ended [OF this] show ?thesis by simp
qed

text \<open>The administrator's own role is not protected from deletion when no stored user or
  group has it: the request succeeds, and a session started for the administrator after it
  has no permission at all.\<close>

theorem delete_admin_role_succeeds:
  assumes "srv = \<lparr>srv_access = init_access env admin pw h streams md, srv_metadata = md\<rparr>"
    and "\<forall>u \<in> set (md_users md). ''admin'' \<notin> set (user_roles u)"
    and "\<forall>g \<in> set (md_user_groups md). ''admin'' \<notin> set (group_roles g)"
    and "get_ok io" and "put_out io = Stored"
  shows "snd (delete_role io ''admin'' srv) = Inr () \<and>
    (let st = srv_access (fst (delete_role io ''admin'' srv)) in
     roles_to_permission (dir_roles (directory st)) (get_role st admin) = [])"
proof -
  have adm: "userid (get_admin_user admin h) = admin" "user_roles (get_admin_user admin h) = [''admin'']"
    by (simp_all add: userid_def get_admin_user_def)
  have users: "users_of (remove_role n st) = users_of st"
    "dir_roles (directory (remove_role n st)) = AList.delete n (dir_roles (directory st))" for n st
    by (simp_all add: remove_role_def access_views)
  have "get_role (srv_access srv) admin = [''admin'']"
    using adm by (simp add: assms(1) get_role_def users_of_def init_access_def Let_def insert_user_def update_conv')
  then have "get_role (remove_role ''admin'' (srv_access srv)) admin = [''admin'']"
    by (simp add: get_role_def users)
  moreover have "delete_role io ''admin'' srv =
      (srv\<lparr>srv_metadata := md\<lparr>md_roles := AList.delete ''admin'' (md_roles md)\<rparr>,
           srv_access := remove_role ''admin'' (srv_access srv)\<rparr>, Inr ())"
    using assms by (auto simp: delete_role_def get_metadata_def store_then_def put_metadata_def list_ex_iff)
  ultimately show ?thesis
    by (simp add: Let_def users roles_to_permission_def role_permissions_def delete_conv')
qed

theorem delete_admin_role_succeeds_witness:
  "snd (delete_role good_io ''admin'' fresh_server) = Inr ()"
  using delete_admin_role_succeeds [OF fresh_server_def, of good_io]
  by (simp add: empty_metadata_def good_io_def)

end
