(* ===== verification/Catalog.thy ===== *)
theory Catalog
  imports Prelude Chrono Time_Prefix Complex_Main
begin

unbundle bit_operations_syntax

text \<open>
  \<open>src/catalog\<close>: the statistics of columns, the manifests that list the files of a day, the
  snapshot that lists the manifests of a stream, and how newly stored files enter them.
\<close>

section \<open>Statistics of a column\<close>

text \<open>A 64-bit integer is an \<open>int\<close>, a float a real number (no NaN), text a string in the order of
  its bytes.\<close>

datatype typed_statistics =
    BoolStats bool bool
  | IntStats int int
  | FloatStats real real
  | StringStats string string

text \<open>\<open>None\<close> is the panic on different types.\<close>

fun update_stats :: "typed_statistics \<Rightarrow> typed_statistics \<Rightarrow> typed_statistics option" where
  "update_stats (BoolStats lo hi) (BoolStats lo' hi') = Some (BoolStats (min lo lo') (max hi hi'))"
| "update_stats (FloatStats lo hi) (FloatStats lo' hi') = Some (FloatStats (min lo lo') (max hi hi'))"
| "update_stats (IntStats lo hi) (IntStats lo' hi') = Some (IntStats (min lo lo') (max hi hi'))"
| "update_stats (StringStats lo hi) (StringStats lo' hi') = Some (StringStats (min lo lo') (max hi hi'))"
| "update_stats _ _ = None"

fun_cases update_stats_SomeE: "update_stats a b = Some c"

text \<open>A value of a column, and when statistics cover it.\<close>

datatype cell = BoolCell bool | IntCell int | FloatCell real | StringCell string

fun covers :: "typed_statistics \<Rightarrow> cell \<Rightarrow> bool" where
  "covers (BoolStats lo hi) (BoolCell v) \<longleftrightarrow> lo \<le> v \<and> v \<le> hi"
| "covers (IntStats lo hi) (IntCell v) \<longleftrightarrow> lo \<le> v \<and> v \<le> hi"
| "covers (FloatStats lo hi) (FloatCell v) \<longleftrightarrow> lo \<le> v \<and> v \<le> hi"
| "covers (StringStats lo hi) (StringCell v) \<longleftrightarrow> lo \<le> v \<and> v \<le> hi"
| "covers _ _ \<longleftrightarrow> False"

text \<open>Summaries that can be merged: what a merge promises, and what follows for many.\<close>

locale mergeable =
  fixes merge :: "'s \<Rightarrow> 's \<Rightarrow> 's option"
    and spans :: "'s \<Rightarrow> 'v \<Rightarrow> bool"
  assumes merge_spans: "merge a b = Some c \<Longrightarrow> spans a v \<or> spans b v \<Longrightarrow> spans c v"
begin

fun merge_all :: "'s \<Rightarrow> 's list \<Rightarrow> 's option" where
  "merge_all a [] = Some a"
| "merge_all a (b # bs) = (case merge a b of None \<Rightarrow> None | Some c \<Rightarrow> merge_all c bs)"

lemma merge_all_spans:
  "merge_all a bs = Some c \<Longrightarrow> spans a v \<or> (\<exists>b \<in> set bs. spans b v) \<Longrightarrow> spans c v"
proof (induction bs arbitrary: a)
  case Nil
  then show ?case by simp
next
  case (Cons b bs)
  then obtain d where d: "merge a b = Some d" "merge_all d bs = Some c"
    by (auto split: option.splits)
  have "spans d v \<or> (\<exists>b \<in> set bs. spans b v)"
    using Cons.prems(2) merge_spans [OF d(1)] by auto
  with Cons.IH [OF d(2)] show ?case by blast
qed

end

lemma covers_update:
  "update_stats a b = Some c \<Longrightarrow> covers a v \<or> covers b v \<Longrightarrow> covers c v"
  by (cases a; cases b; cases v) (auto simp: min_def max_def)

interpretation stats: mergeable update_stats covers
  by unfold_locales (rule covers_update)

lemma update_stats_commute: "update_stats a b = update_stats b a"
  by (cases a; cases b) (simp_all add: min.commute max.commute)

text \<open>The statistics of a chunk as the parquet library reads them, each with its bounds when they
  are set. A legacy 96-bit timestamp is three unsigned 32-bit words; bytes count as text when
  they are valid UTF-8.\<close>

type_synonym int96 = "32 word \<times> 32 word \<times> 32 word"

datatype parquet_statistics =
    PBoolean "bool option" "bool option"
  | PInt32 "int option" "int option"
  | PInt64 "int option" "int option"
  | PInt96 "int96 option" "int96 option"
  | PFloat "real option" "real option"
  | PDouble "real option" "real option"
  | PByteArray "string option" "string option"
  | PFixedLenByteArray "string option" "string option"

definition int96_to_i64_nanos :: "int96 \<Rightarrow> int" where
  "int96_to_i64_nanos = (\<lambda>(d0, d1, d2).
     let nanos_of_day = (ucast d0 :: i64) OR push_bit 32 (ucast d1);
         days_since_epoch = ucast d2 - 2440588
     in sint (days_since_epoch * 86400 * 1000000000 + nanos_of_day))"

definition as_utf8 :: "(string \<Rightarrow> bool) \<Rightarrow> string \<Rightarrow> string option" where
  "as_utf8 valid s = (if valid s then Some s else None)"

text \<open>\<open>None\<close> is the error, on which a chunk counts as one without statistics.\<close>

fun typed_statistics_from :: "(string \<Rightarrow> bool) \<Rightarrow> parquet_statistics \<Rightarrow> typed_statistics option" where
  "typed_statistics_from valid (PBoolean (Some lo) (Some hi)) = Some (BoolStats lo hi)"
| "typed_statistics_from valid (PInt32 (Some lo) (Some hi)) = Some (IntStats lo hi)"
| "typed_statistics_from valid (PInt64 (Some lo) (Some hi)) = Some (IntStats lo hi)"
| "typed_statistics_from valid (PInt96 (Some lo) (Some hi)) =
     Some (IntStats (int96_to_i64_nanos lo) (int96_to_i64_nanos hi))"
| "typed_statistics_from valid (PFloat (Some lo) (Some hi)) = Some (FloatStats lo hi)"
| "typed_statistics_from valid (PDouble (Some lo) (Some hi)) = Some (FloatStats lo hi)"
| "typed_statistics_from valid (PByteArray (Some lo) (Some hi)) =
     (case (as_utf8 valid lo, as_utf8 valid hi) of (Some a, Some b) \<Rightarrow> Some (StringStats a b) | _ \<Rightarrow> None)"
| "typed_statistics_from valid (PFixedLenByteArray (Some lo) (Some hi)) =
     (case (as_utf8 valid lo, as_utf8 valid hi) of (Some a, Some b) \<Rightarrow> Some (StringStats a b) | _ \<Rightarrow> None)"
| "typed_statistics_from valid _ = None"

text \<open>A 96-bit timestamp of a time of day after the epoch.\<close>

lemma int96_epoch: "int96_to_i64_nanos (5, 0, 2440589) = nanos_per_day + 5"
  by (simp add: int96_to_i64_nanos_def nanos_defs Let_def)

section \<open>Columns of a file\<close>

record column =
  col_name :: string
  col_stats :: "typed_statistics option"
  col_uncompressed_size :: nat
  col_compressed_size :: nat

text \<open>A column chunk of a row group, as the parquet reader gives it; \<open>chunk_stats\<close> is the
  conversion of its statistics, absent when there are none or they have no bounds.\<close>

record chunk =
  chunk_path :: string
  chunk_stats :: "typed_statistics option"
  chunk_uncompressed :: nat
  chunk_compressed :: nat

type_synonym column_map = "(string \<times> column) list"

definition add_chunk :: "chunk \<Rightarrow> column_map \<Rightarrow> column_map option" where
  "add_chunk col columns =
     (case map_of columns (chunk_path col) of
        Some entry \<Rightarrow>
          let entry = entry\<lparr>col_compressed_size := (col_compressed_size entry + chunk_compressed col) mod 2 ^ 64,
                            col_uncompressed_size := (col_uncompressed_size entry + chunk_uncompressed col) mod 2 ^ 64\<rparr>
          in (case (chunk_stats col, col_stats entry) of
                (Some other, Some this) \<Rightarrow>
                  map_option (\<lambda>s. AList.update (chunk_path col) (entry\<lparr>col_stats := Some s\<rparr>) columns)
                    (update_stats this other)
              | _ \<Rightarrow> Some (AList.update (chunk_path col) entry columns))
      | None \<Rightarrow>
          Some (AList.update (chunk_path col)
            \<lparr>col_name = chunk_path col, col_stats = chunk_stats col,
             col_uncompressed_size = chunk_uncompressed col, col_compressed_size = chunk_compressed col\<rparr>
            columns))"

fun add_chunks :: "chunk list \<Rightarrow> column_map \<Rightarrow> column_map option" where
  "add_chunks [] columns = Some columns"
| "add_chunks (c # cs) columns =
     (case add_chunk c columns of None \<Rightarrow> None | Some columns' \<Rightarrow> add_chunks cs columns')"

definition column_statistics :: "chunk list list \<Rightarrow> column_map option" where
  "column_statistics row_groups = add_chunks (concat row_groups) []"

section \<open>Statistics cover the values\<close>

text \<open>After some chunks: a column for each path, and statistics that cover their values.\<close>

definition columns_cover :: "(chunk \<Rightarrow> cell set) \<Rightarrow> chunk list \<Rightarrow> column_map \<Rightarrow> bool" where
  "columns_cover held seen columns \<longleftrightarrow>
     dom (map_of columns) = chunk_path ` set seen \<and>
     (\<forall>name col s. map_of columns name = Some col \<longrightarrow> col_stats col = Some s \<longrightarrow>
        (\<forall>c \<in> set seen. chunk_path c = name \<longrightarrow> (\<forall>v \<in> held c. covers s v)))"

lemma columns_coverD:
  "columns_cover held seen columns \<Longrightarrow> map_of columns (chunk_path c) = Some col \<Longrightarrow>
   col_stats col = Some s \<Longrightarrow> c \<in> set seen \<Longrightarrow> v \<in> held c \<Longrightarrow> covers s v"
  unfolding columns_cover_def by blast

lemma add_chunk_shape:
  assumes "add_chunk c columns = Some columns'"
  shows "\<exists>entry. columns' = AList.update (chunk_path c) entry columns \<and>
    (case map_of columns (chunk_path c) of
       None \<Rightarrow> col_stats entry = chunk_stats c
     | Some old \<Rightarrow>
         (case (chunk_stats c, col_stats old) of
            (Some other, Some this) \<Rightarrow> \<exists>s. update_stats this other = Some s \<and> col_stats entry = Some s
          | _ \<Rightarrow> col_stats entry = col_stats old))"
  using assms by (auto simp: add_chunk_def Let_def split: option.splits)

lemma add_chunk_cover:
  assumes inv: "columns_cover held seen columns" and add: "add_chunk c columns = Some columns'"
    and own: "\<forall>v \<in> held c. \<exists>t. chunk_stats c = Some t \<and> covers t v"
  shows "columns_cover held (seen @ [c]) columns'"
proof -
  obtain entry where columns': "columns' = AList.update (chunk_path c) entry columns" and
    entry: "case map_of columns (chunk_path c) of
       None \<Rightarrow> col_stats entry = chunk_stats c
     | Some old \<Rightarrow>
         (case (chunk_stats c, col_stats old) of
            (Some other, Some this) \<Rightarrow> \<exists>s. update_stats this other = Some s \<and> col_stats entry = Some s
          | _ \<Rightarrow> col_stats entry = col_stats old)"
    using add_chunk_shape [OF add] by blast
  have new: "covers s v" if s: "col_stats entry = Some s" and k: "k \<in> set (seen @ [c])"
    and path: "chunk_path k = chunk_path c" and v: "v \<in> held k" for s k v
  proof (cases "map_of columns (chunk_path c)")
    case None
    then have "chunk_path c \<notin> chunk_path ` set seen" using inv by (auto simp: columns_cover_def)
    then have "k = c" using k path by (metis Un_iff imageI list.set(1,2) set_append singletonD)
    then show ?thesis using None entry own v s by auto
  next
    case (Some old)
    show ?thesis
    proof (cases "col_stats old")
      case None
      then show ?thesis using Some entry s by (auto split: option.splits)
    next
      case old_stats: (Some this)
      have seen: "covers this v" if "k \<in> set seen"
        using columns_coverD [OF inv _ old_stats that v] Some path by simp
      show ?thesis
      proof (cases "chunk_stats c")
        case None
        then have "held c = {}" using own by auto
        then have "k \<in> set seen" using k v by auto
        then show ?thesis using seen Some entry None s old_stats by auto
      next
        case (Some other)
        then have "update_stats this other = Some s"
          using \<open>map_of columns (chunk_path c) = Some old\<close> old_stats entry s by auto
        moreover have "covers this v \<or> covers other v"
          using seen k own v Some by auto
        ultimately show ?thesis by (rule stats.merge_spans)
      qed
    qed
  qed
  have "dom (map_of columns') = chunk_path ` set (seen @ [c])"
    using inv by (simp add: columns' update_conv' columns_cover_def)
  moreover have "covers s v"
    if "map_of columns' name = Some col" "col_stats col = Some s" "k \<in> set (seen @ [c])"
      "chunk_path k = name" "v \<in> held k" for name col s k v
  proof (cases "name = chunk_path c")
    case True
    then have "col = entry" using that(1) by (simp add: columns' update_conv')
    then show ?thesis using new that True by simp
  next
    case False
    then have "map_of columns name = Some col" "k \<in> set seen"
      using that by (auto simp: columns' update_conv')
    then show ?thesis using columns_coverD [OF inv _ that(2) _ that(5)] that(4) by simp
  qed
  ultimately show ?thesis unfolding columns_cover_def by blast
qed

lemma add_chunks_cover:
  assumes "columns_cover held seen columns" and "add_chunks cs columns = Some columns'"
    and "\<forall>c \<in> set cs. \<forall>v \<in> held c. \<exists>t. chunk_stats c = Some t \<and> covers t v"
  shows "columns_cover held (seen @ cs) columns'"
  using assms
proof (induction cs arbitrary: seen columns)
  case Nil
  then show ?case by simp
next
  case (Cons c cs)
  then obtain columns1 where one: "add_chunk c columns = Some columns1" "add_chunks cs columns1 = Some columns'"
    by (auto split: option.splits)
  have "columns_cover held (seen @ [c]) columns1"
    using add_chunk_cover [OF Cons.prems(1) one(1)] Cons.prems(3) by simp
  from Cons.IH [OF this one(2)] Cons.prems(3) show ?case by simp
qed

text \<open>C36: The statistics of a column of a file cover every value of the column in every row group,
  when those of each chunk cover the chunk's values (one without statistics has none).\<close>

theorem column_statistics_cover:
  assumes "column_statistics rgs = Some columns"
    and "\<forall>c \<in> set (concat rgs). \<forall>v \<in> held c. \<exists>t. chunk_stats c = Some t \<and> covers t v"
    and "c \<in> set (concat rgs)" and "map_of columns (chunk_path c) = Some col"
    and "col_stats col = Some s" and "v \<in> held c"
  shows "covers s v"
proof -
  have "columns_cover held [] []" by (simp add: columns_cover_def)
  from add_chunks_cover [OF this, of "concat rgs" columns] assms(1,2)
  have "columns_cover held (concat rgs) columns" by (simp add: column_statistics_def)
  from columns_coverD [OF this assms(4,5,3,6)] show ?thesis .
qed

theorem column_statistics_cover_witness:
  "\<exists>columns col s. column_statistics
      [[\<lparr>chunk_path = ''a'', chunk_stats = Some (IntStats 1 3), chunk_uncompressed = 1, chunk_compressed = 1\<rparr>],
       [\<lparr>chunk_path = ''a'', chunk_stats = Some (IntStats 7 9), chunk_uncompressed = 1, chunk_compressed = 1\<rparr>]] =
      Some columns \<and> map_of columns ''a'' = Some col \<and> col_stats col = Some s \<and> covers s (IntCell 8)"
proof -
  let ?c = "\<lparr>chunk_path = ''a'', chunk_stats = Some (IntStats 1 3), chunk_uncompressed = 1, chunk_compressed = 1\<rparr>"
  let ?d = "\<lparr>chunk_path = ''a'', chunk_stats = Some (IntStats 7 9), chunk_uncompressed = 1, chunk_compressed = 1\<rparr>"
  let ?col = "\<lparr>col_name = ''a'', col_stats = Some (IntStats 1 9), col_uncompressed_size = 2, col_compressed_size = 2\<rparr>"
  have run: "column_statistics [[?c], [?d]] = Some [(''a'', ?col)]"
    by (simp add: column_statistics_def add_chunk_def Let_def)
  have "covers (IntStats 1 9) (IntCell 8)"
    by (rule column_statistics_cover [OF run, where c = "?d" and col = "?col"
        and held = "\<lambda>c. case chunk_stats c of None \<Rightarrow> {} | Some t \<Rightarrow> {v. covers t v}"]) auto
  with run show ?thesis by (intro exI conjI) auto
qed

section \<open>Sort orders\<close>

datatype sort_order = AscNullsFirst | AscNullsLast | DescNullsLast | DescNullsFirst

record row_group =
  rg_columns :: "chunk list"
  rg_sorting :: "(nat \<times> bool \<times> bool) list option"
  rg_total_byte_size :: nat

fun sort_order_of :: "bool \<Rightarrow> bool \<Rightarrow> sort_order" where
  "sort_order_of True True = DescNullsFirst"
| "sort_order_of True False = DescNullsLast"
| "sort_order_of False True = AscNullsFirst"
| "sort_order_of False False = AscNullsLast"

text \<open>\<open>None\<close> is a panic: a row group without sorting columns, or one that names no column.\<close>

definition sort_order_group :: "row_group \<Rightarrow> (string \<times> sort_order) list option" where
  "sort_order_group rg =
     (case rg_sorting rg of
        None \<Rightarrow> None
      | Some sorting \<Rightarrow>
          those (map (\<lambda>(idx, descending, nulls_first).
            if idx < length (rg_columns rg)
            then Some (chunk_path (rg_columns rg ! idx), sort_order_of descending nulls_first)
            else None) sorting))"

definition sort_orders :: "row_group list \<Rightarrow> (string \<times> sort_order) list list option" where
  "sort_orders rgs = those (map sort_order_group rgs)"

section \<open>Files and manifests\<close>

record manifest_file =
  file_path :: string
  num_rows :: nat
  file_size :: nat
  ingestion_size :: nat
  file_columns :: "column list"
  sort_order_id :: "(string \<times> sort_order) list"

text \<open>The entry of a parquet file: its size and footer are read by libraries.\<close>

definition create_from_parquet_file :: "string \<Rightarrow> nat \<Rightarrow> nat \<Rightarrow> row_group list \<Rightarrow> manifest_file option" where
  "create_from_parquet_file path byte_len rows rgs =
     (case column_statistics (map rg_columns rgs) of
        None \<Rightarrow> None
      | Some columns \<Rightarrow>
          (case sort_orders rgs of
             None \<Rightarrow> None
           | Some orders \<Rightarrow>
               Some \<lparr>file_path = path, num_rows = rows, file_size = byte_len,
                     ingestion_size = fold (\<lambda>rg acc. (acc + rg_total_byte_size rg) mod 2 ^ 64) rgs 0,
                     file_columns = map snd columns,
                     sort_order_id =
                       (if orders \<noteq> [] \<and> list_all (\<lambda>s. s = last orders) (butlast orders)
                        then last orders else [])\<rparr>))"

text \<open>A manifest is its list of files.\<close>

fun position :: "('a \<Rightarrow> bool) \<Rightarrow> 'a list \<Rightarrow> nat option" where
  "position P [] = None"
| "position P (x # xs) = (if P x then Some 0 else map_option Suc (position P xs))"

definition apply_change :: "manifest_file \<Rightarrow> manifest_file list \<Rightarrow> manifest_file list" where
  "apply_change change files =
     (case position (\<lambda>f. file_path f = file_path change) files of
        Some pos \<Rightarrow> files[pos := change]
      | None \<Rightarrow> files @ [change])"

definition find_file :: "manifest_file list \<Rightarrow> string \<Rightarrow> manifest_file option" where
  "find_file files path = List.find (\<lambda>f. file_path f = path) files"

lemma position_None: "position P xs = None \<longleftrightarrow> (\<forall>x \<in> set xs. \<not> P x)"
  by (induction xs) auto

lemma apply_change_Cons:
  "apply_change c (f # fs) = (if file_path f = file_path c then c # fs else f # apply_change c fs)"
  by (simp add: apply_change_def split: option.splits)

lemma apply_change_Nil [simp]: "apply_change c [] = [c]"
  by (simp add: apply_change_def)

lemma paths_apply_change: "set (map file_path (apply_change c fs)) = insert (file_path c) (set (map file_path fs))"
  by (induction fs) (auto simp: apply_change_Cons)

lemma apply_change_inv: "distinct (map file_path fs) \<Longrightarrow> distinct (map file_path (apply_change c fs))"
proof (induction fs)
  case Nil
  then show ?case by simp
next
  case (Cons f fs)
  then show ?case using paths_apply_change [of c fs] by (auto simp: apply_change_Cons)
qed

lemma find_apply_change: "find_file (apply_change c fs) = (find_file fs)(file_path c \<mapsto> c)"
  by (induction fs) (auto simp: apply_change_Cons find_file_def fun_eq_iff)

interpretation manifest_store: upsert_store file_path find_file apply_change "\<lambda>fs. distinct (map file_path fs)"
  by unfold_locales (auto simp: apply_change_inv find_apply_change)

section \<open>The snapshot of a stream\<close>

record manifest_item =
  manifest_path :: string
  time_lower_bound :: datetime
  time_upper_bound :: datetime
  item_events_ingested :: nat
  item_ingestion_size :: nat
  item_storage_size :: nat

text \<open>The filters on the time of a query; \<open>Bound\<close> has a third case, which bounds nothing.\<close>

datatype bound = Included datetime | Excluded datetime | Unbounded

datatype time_filter = Low bound | High bound | TimeEq datetime

fun retains :: "time_filter \<Rightarrow> manifest_item \<Rightarrow> bool" where
  "retains (Low (Included t)) item \<longleftrightarrow> time_upper_bound item \<ge> t"
| "retains (Low (Excluded t)) item \<longleftrightarrow> time_upper_bound item > t"
| "retains (High (Included t)) item \<longleftrightarrow> time_lower_bound item \<le> t"
| "retains (High (Excluded t)) item \<longleftrightarrow> time_lower_bound item < t"
| "retains (TimeEq t) item \<longleftrightarrow> time_lower_bound item \<le> t \<and> t \<le> time_upper_bound item"
| "retains _ item \<longleftrightarrow> True"

definition manifests :: "time_filter list \<Rightarrow> manifest_item list \<Rightarrow> manifest_item list" where
  "manifests predicates items = fold (\<lambda>p. filter (retains p)) predicates items"

text \<open>When an instant satisfies a filter.\<close>

fun satisfies :: "datetime \<Rightarrow> time_filter \<Rightarrow> bool" where
  "satisfies t (Low (Included x)) \<longleftrightarrow> x \<le> t"
| "satisfies t (Low (Excluded x)) \<longleftrightarrow> x < t"
| "satisfies t (High (Included x)) \<longleftrightarrow> t \<le> x"
| "satisfies t (High (Excluded x)) \<longleftrightarrow> t < x"
| "satisfies t (TimeEq x) \<longleftrightarrow> t = x"
| "satisfies t _ \<longleftrightarrow> True"

lemma set_manifests: "set (manifests ps items) = {i \<in> set items. \<forall>p \<in> set ps. retains p i}"
  unfolding manifests_def by (induction ps arbitrary: items) auto

lemma satisfies_retains:
  "time_lower_bound i \<le> t \<Longrightarrow> t \<le> time_upper_bound i \<Longrightarrow> satisfies t p \<Longrightarrow> retains p i"
  by (cases "(p, i)" rule: retains.cases) auto

section \<open>New files\<close>

definition default_timestamp_key :: string where
  "default_timestamp_key = ''p_timestamp''"

text \<open>
  What the update reads from outside: chrono's conversion of milliseconds, the name of this
  node's manifest files, the storage's absolute address of a path and the path it finds for
  one, the text of a date, and the day's counters (events, ingested size, stored size).
\<close>

record catalog_env =
  from_timestamp_millis :: "int \<Rightarrow> datetime option"
  manifest_file_name :: string
  absolute_url :: "string \<Rightarrow> string"
  locate :: "string \<Rightarrow> string"
  show_day :: "date \<Rightarrow> string"
  day_metrics :: "datetime \<Rightarrow> nat \<times> nat \<times> nat"

text \<open>\<open>None\<close> is a panic.\<close>

definition get_file_bounds :: "catalog_env \<Rightarrow> manifest_file \<Rightarrow> string \<Rightarrow> (datetime \<times> datetime) option" where
  "get_file_bounds env f partition_column =
     (case List.find (\<lambda>c. col_name c = partition_column) (file_columns f) of
        None \<Rightarrow> None
      | Some c \<Rightarrow>
          (case col_stats c of
             Some (IntStats lo hi) \<Rightarrow>
               (case (from_timestamp_millis env lo, from_timestamp_millis env hi) of
                  (Some a, Some b) \<Rightarrow> Some (a, b)
                | _ \<Rightarrow> None)
           | _ \<Rightarrow> None))"

definition calculate_time_bound :: "catalog_env \<Rightarrow> manifest_file \<Rightarrow> string option \<Rightarrow> datetime option" where
  "calculate_time_bound env change time_partition =
     map_option fst (get_file_bounds env change
       (case time_partition of Some p \<Rightarrow> p | None \<Rightarrow> default_timestamp_key))"

definition create_partition_bounds :: "datetime \<Rightarrow> datetime \<times> datetime" where
  "create_partition_bounds lower_bound =
     (let partition_lower = date_naive lower_bound * nanos_per_day
      in (partition_lower, date_naive partition_lower * nanos_per_day + (nanos_per_day - 1)))"

type_synonym partition_groups = "((datetime \<times> datetime) \<times> manifest_file list) list"

fun group_changes ::
  "catalog_env \<Rightarrow> string option \<Rightarrow> manifest_file list \<Rightarrow> partition_groups \<Rightarrow> partition_groups option"
where
  "group_changes env tp [] acc = Some acc"
| "group_changes env tp (c # cs) acc =
     (case calculate_time_bound env c tp of
        None \<Rightarrow> None
      | Some lower \<Rightarrow>
          let key = create_partition_bounds lower;
              sofar = (case map_of acc key of None \<Rightarrow> [] | Some fs \<Rightarrow> fs)
          in group_changes env tp cs (AList.update key (sofar @ [c]) acc))"

definition group_changes_by_partition ::
  "catalog_env \<Rightarrow> manifest_file list \<Rightarrow> string option \<Rightarrow> partition_groups option" where
  "group_changes_by_partition env changes tp = group_changes env tp changes []"

definition partition_path :: "catalog_env \<Rightarrow> string \<Rightarrow> datetime \<Rightarrow> datetime \<Rightarrow> string" where
  "partition_path env stream lower_bound upper_bound =
     (let lower = show_day env (date_naive lower_bound); upper = show_day env (date_naive upper_bound) in
      if lower = upper then stream @ ''/date='' @ lower
      else stream @ ''/date='' @ lower @ '':'' @ upper)"

definition own_path :: "catalog_env \<Rightarrow> string \<Rightarrow> datetime \<Rightarrow> datetime \<Rightarrow> string" where
  "own_path env stream lower upper =
     partition_path env stream lower upper @ ''/'' @ manifest_file_name env"

text \<open>The stream's snapshot and time partition as stored, the stored manifests by path, and the
  stream's first event when the stream is in memory.\<close>

record catalog_state =
  cat_items :: "manifest_item list"
  cat_time_partition :: "string option"
  cat_manifests :: "(string \<times> manifest_file list) list"
  cat_first_event :: "datetime option option"

datatype catalog_error = StreamMissing | CatalogPanic

definition create_manifest ::
  "catalog_env \<Rightarrow> string \<Rightarrow> datetime \<Rightarrow> manifest_file list \<Rightarrow> string option \<Rightarrow> nat \<times> nat \<times> nat
   \<Rightarrow> catalog_state \<Rightarrow> catalog_state \<times> (catalog_error + manifest_item option)"
where
  "create_manifest env stream bound changes tp = (\<lambda>(events, ingestion, storage) st.
     let lower = date_naive bound * nanos_per_day;
         upper = date_naive lower * nanos_per_day + (nanos_per_day - 1) in
     case cat_first_event st of
       None \<Rightarrow> (st, Inl StreamMissing)
     | Some first_event_at \<Rightarrow>
         (case (if first_event_at = None \<and> changes \<noteq> []
                then map_option Some (calculate_time_bound env (hd changes) tp)
                else Some first_event_at) of
            None \<Rightarrow> (st, Inl CatalogPanic)
          | Some first' \<Rightarrow>
              (st\<lparr>cat_first_event := Some first',
                  cat_manifests := AList.update (own_path env stream lower upper) changes (cat_manifests st)\<rparr>,
               Inr (Some \<lparr>manifest_path = absolute_url env (own_path env stream lower upper),
                          time_lower_bound = lower, time_upper_bound = upper,
                          item_events_ingested = events, item_ingestion_size = ingestion,
                          item_storage_size = storage\<rparr>))))"

definition handle_existing_partition ::
  "catalog_env \<Rightarrow> string \<Rightarrow> nat \<Rightarrow> datetime \<Rightarrow> manifest_file list \<Rightarrow> nat \<times> nat \<times> nat
   \<Rightarrow> catalog_state \<Rightarrow> catalog_state \<times> (catalog_error + manifest_item option)"
where
  "handle_existing_partition env stream pos lower changes metrics st =
     (let item = cat_items st ! pos in
      if contains_str (manifest_file_name env) (manifest_path item)
      then (case map_of (cat_manifests st) (locate env (manifest_path item)) of
              Some files \<Rightarrow>
                (st\<lparr>cat_manifests :=
                      AList.update (own_path env stream (time_lower_bound item) (time_upper_bound item))
                        (fold apply_change changes files) (cat_manifests st),
                    cat_items := (cat_items st)[pos :=
                      item\<lparr>item_events_ingested := fst metrics, item_ingestion_size := fst (snd metrics),
                           item_storage_size := snd (snd metrics)\<rparr>]\<rparr>, Inr None)
            | None \<Rightarrow> create_manifest env stream lower changes (cat_time_partition st) metrics st)
      else create_manifest env stream lower changes None metrics st)"

definition process_single_partition ::
  "catalog_env \<Rightarrow> string \<Rightarrow> datetime \<Rightarrow> manifest_file list \<Rightarrow> nat \<times> nat \<times> nat
   \<Rightarrow> catalog_state \<Rightarrow> catalog_state \<times> (catalog_error + manifest_item option)"
where
  "process_single_partition env stream lower changes metrics st =
     (case position (\<lambda>item. time_lower_bound item \<le> lower \<and> lower < time_upper_bound item) (cat_items st) of
        Some pos \<Rightarrow> handle_existing_partition env stream pos lower changes metrics st
      | None \<Rightarrow> create_manifest env stream lower changes (cat_time_partition st) metrics st)"

fun process_partition_groups ::
  "catalog_env \<Rightarrow> string \<Rightarrow> partition_groups \<Rightarrow> manifest_item list \<Rightarrow> catalog_state
   \<Rightarrow> catalog_state \<times> (catalog_error + manifest_item list)"
where
  "process_partition_groups env stream [] entries st = (st, Inr entries)"
| "process_partition_groups env stream (((lower, upper), changes) # groups) entries st =
     (case process_single_partition env stream lower changes (day_metrics env lower) st of
        (st', Inl e) \<Rightarrow> (st', Inl e)
      | (st', Inr entry) \<Rightarrow>
          process_partition_groups env stream groups
            (entries @ (case entry of None \<Rightarrow> [] | Some i \<Rightarrow> [i])) st')"

text \<open>The snapshot is stored at the end, so an error leaves the stored one; the manifests
  written before it stay written.\<close>

definition update_snapshot ::
  "catalog_env \<Rightarrow> string \<Rightarrow> manifest_file list \<Rightarrow> catalog_state \<Rightarrow> catalog_state \<times> (catalog_error + unit)"
where
  "update_snapshot env stream changes st =
     (if changes = [] then (st, Inr ())
      else case group_changes_by_partition env changes (cat_time_partition st) of
        None \<Rightarrow> (st, Inl CatalogPanic)
      | Some groups \<Rightarrow>
          (case process_partition_groups env stream groups [] st of
             (st', Inl e) \<Rightarrow> (st'\<lparr>cat_items := cat_items st\<rparr>, Inl e)
           | (st', Inr entries) \<Rightarrow> (st'\<lparr>cat_items := cat_items st' @ entries\<rparr>, Inr ())))"

section \<open>What the snapshot lists\<close>

abbreviation day_start :: "date \<Rightarrow> datetime" where
  "day_start d \<equiv> d * nanos_per_day"

abbreviation day_end :: "date \<Rightarrow> datetime" where
  "day_end d \<equiv> d * nanos_per_day + (nanos_per_day - 1)"

definition own_day :: "catalog_env \<Rightarrow> string \<Rightarrow> date \<Rightarrow> string" where
  "own_day env stream d = own_path env stream (day_start d) (day_end d)"

text \<open>What is assumed of the environment: an address leads back to its path and contains the name
  of the manifest, and dates are written differently.\<close>

definition env_ok :: "catalog_env \<Rightarrow> bool" where
  "env_ok env \<longleftrightarrow>
     (\<forall>p. locate env (absolute_url env p) = p) \<and>
     (\<forall>p. contains_str (manifest_file_name env) (absolute_url env (p @ ''/'' @ manifest_file_name env))) \<and>
     (\<forall>d d'. show_day env d = show_day env d' \<longrightarrow> d = d')"

definition own_item :: "catalog_env \<Rightarrow> string \<Rightarrow> date \<Rightarrow> manifest_item \<Rightarrow> bool" where
  "own_item env stream d i \<longleftrightarrow>
     time_lower_bound i = day_start d \<and> time_upper_bound i = day_end d \<and>
     manifest_path i = absolute_url env (own_day env stream d)"

text \<open>Every entry is for one day, has a stored manifest without repeated files, and there is one
  entry for a day.\<close>

definition wf_catalog ::
  "catalog_env \<Rightarrow> string \<Rightarrow> manifest_item list \<Rightarrow> (string \<times> manifest_file list) list \<Rightarrow> bool" where
  "wf_catalog env stream items store \<longleftrightarrow>
     distinct (map time_lower_bound items) \<and>
     (\<forall>i \<in> set items. \<exists>d files. own_item env stream d i \<and>
        map_of store (own_day env stream d) = Some files \<and> distinct (map file_path files))"

text \<open>The files listed for a day, by path.\<close>

definition listed ::
  "catalog_env \<Rightarrow> string \<Rightarrow> manifest_item list \<Rightarrow> (string \<times> manifest_file list) list \<Rightarrow> date
   \<Rightarrow> string \<Rightarrow> manifest_file option" where
  "listed env stream items store d =
     (if day_start d \<in> time_lower_bound ` set items
      then (case map_of store (own_day env stream d) of None \<Rightarrow> Map.empty | Some files \<Rightarrow> find_file files)
      else Map.empty)"

lemma nanos_per_day_nonzero [simp]: "nanos_per_day \<noteq> 0"
  by (simp add: nanos_defs)

lemma date_naive_day [simp]: "date_naive (day_start d) = d" "date_naive (day_end d) = d"
  by (simp_all add: date_naive_def minutes_of_def nanos_defs)

lemma create_partition_bounds_day: "create_partition_bounds t = (day_start (date_naive t), day_end (date_naive t))"
  by (simp add: create_partition_bounds_def Let_def)

lemma day_start_inject [simp]: "day_start d = day_start d' \<longleftrightarrow> d = d'"
  by (simp add: nanos_defs)

lemma own_day_inject: "env_ok env \<Longrightarrow> own_day env stream d = own_day env stream d' \<longleftrightarrow> d = d'"
  by (auto simp: env_ok_def own_day_def own_path_def partition_path_def Let_def)

lemma in_day: "day_start d' \<le> day_start d \<and> day_start d < day_end d' \<longleftrightarrow> d' = d"
  by (auto simp: nanos_defs)

lemma position_Some:
  "position P xs = Some n \<Longrightarrow> n < length xs \<and> P (xs ! n)"
  by (induction xs arbitrary: n) (auto split: if_splits)

lemma find_file_Some: "find_file fs p = Some f \<Longrightarrow> f \<in> set fs \<and> file_path f = p"
  by (auto simp: find_file_def find_Some_iff)

lemma find_file_distinct:
  "distinct (map file_path fs) \<Longrightarrow> f \<in> set fs \<Longrightarrow> find_file fs (file_path f) = Some f"
  by (induction fs) (auto simp: find_file_def)

lemma find_file_None: "find_file fs p = None \<longleftrightarrow> (\<forall>f \<in> set fs. file_path f \<noteq> p)"
  by (auto simp: find_file_def find_None_iff)

lemma find_fold_apply_change:
  assumes "distinct (map file_path files)" and "distinct (map file_path changes)"
  shows "find_file (fold apply_change changes files) = find_file files ++ find_file changes"
  using assms
proof (induction changes arbitrary: files)
  case Nil
  have "find_file [] = Map.empty" by (simp add: find_file_def fun_eq_iff)
  then show ?case by simp
next
  case (Cons c cs)
  have "find_file (fold apply_change (c # cs) files) =
      (find_file files)(file_path c \<mapsto> c) ++ find_file cs"
    using Cons by (simp add: apply_change_inv find_apply_change)
  also have "... = find_file files ++ find_file (c # cs)"
  proof -
    have "file_path c \<notin> file_path ` set cs" using Cons.prems(2) by simp
    then have "find_file cs (file_path c) = None" unfolding find_file_None by (metis imageI)
    then show ?thesis by (auto simp: fun_eq_iff map_add_def find_file_def split: option.splits)
  qed
  finally show ?case .
qed

lemma fold_apply_change_distinct:
  "distinct (map file_path files) \<Longrightarrow> distinct (map file_path (fold apply_change changes files))"
  by (rule manifest_store.inv_fold_upsert)

lemma wf_item:
  assumes "wf_catalog env stream items store" and "i \<in> set items"
  obtains d files where "own_item env stream d i" "map_of store (own_day env stream d) = Some files"
    "distinct (map file_path files)"
  using assms unfolding wf_catalog_def by blast

text \<open>Writing the manifest of a day keeps the entries well formed.\<close>

lemma wf_update_store:
  assumes "env_ok env" and "wf_catalog env stream items store" and "distinct (map file_path files)"
  shows "wf_catalog env stream items (AList.update (own_day env stream d) files store)"
  unfolding wf_catalog_def
proof (intro conjI ballI)
  show "distinct (map time_lower_bound items)" using assms(2) by (simp add: wf_catalog_def)
  fix i assume "i \<in> set items"
  with assms(2) obtain e fs where i: "own_item env stream e i"
    "map_of store (own_day env stream e) = Some fs" "distinct (map file_path fs)"
    by (rule wf_item)
  have "map_of (AList.update (own_day env stream d) files store) (own_day env stream e) =
      (if e = d then Some files else Some fs)"
    using i(2) own_day_inject [OF assms(1)] by (simp add: update_conv')
  with i assms(3) show "\<exists>e fs. own_item env stream e i \<and>
      map_of (AList.update (own_day env stream d) files store) (own_day env stream e) = Some fs \<and>
      distinct (map file_path fs)"
    by (cases "e = d") auto
qed

lemma wf_add_item:
  assumes "wf_catalog env stream items store" and "own_item env stream d i"
    and "day_start d \<notin> time_lower_bound ` set items"
    and "map_of store (own_day env stream d) = Some files" and "distinct (map file_path files)"
  shows "wf_catalog env stream (items @ [i]) store"
  using assms unfolding wf_catalog_def by (auto simp: own_item_def)

lemma listed_update:
  assumes "env_ok env" and "day_start d \<in> time_lower_bound ` set items"
  shows "listed env stream items (AList.update (own_day env stream d) files store) =
    (listed env stream items store)(d := find_file files)"
  using assms own_day_inject [OF assms(1)] by (auto simp: listed_def fun_eq_iff update_conv')

lemma wf_same_bounds:
  assumes "list_all2 (\<lambda>i j. time_lower_bound i = time_lower_bound j \<and> time_upper_bound i = time_upper_bound j \<and>
      manifest_path i = manifest_path j) items items'"
  shows "wf_catalog env stream items store = wf_catalog env stream items' store"
    and "listed env stream items store = listed env stream items' store"
proof -
  have bounds: "map time_lower_bound items = map time_lower_bound items'"
    using assms by (induction rule: list_all2_induct) auto
  then have "time_lower_bound ` set items = time_lower_bound ` set items'" by (metis list.set_map)
  then show "listed env stream items store = listed env stream items' store"
    by (simp add: listed_def fun_eq_iff)
  have "(\<forall>i \<in> set items. \<exists>d files. own_item env stream d i \<and> Q d files) \<longleftrightarrow>
      (\<forall>i \<in> set items'. \<exists>d files. own_item env stream d i \<and> Q d files)"
    for Q :: "int \<Rightarrow> manifest_file list \<Rightarrow> bool"
    using assms by (induction rule: list_all2_induct) (auto simp: own_item_def)
  then show "wf_catalog env stream items store = wf_catalog env stream items' store"
    by (simp add: wf_catalog_def bounds)
qed

text \<open>The outcome of one day.\<close>

lemma create_manifest_day:
  assumes "cat_first_event st \<noteq> None" and "\<forall>c \<in> set changes. calculate_time_bound env c tp \<noteq> None"
  shows "\<exists>st' i. create_manifest env stream (day_start d) changes tp metrics st = (st', Inr (Some i)) \<and>
    own_item env stream d i \<and> cat_items st' = cat_items st \<and>
    cat_time_partition st' = cat_time_partition st \<and> cat_first_event st' \<noteq> None \<and>
    cat_manifests st' = AList.update (own_day env stream d) changes (cat_manifests st)"
proof -
  obtain e where e: "cat_first_event st = Some e" using assms(1) by blast
  have "(if e = None \<and> changes \<noteq> [] then map_option Some (calculate_time_bound env (hd changes) tp)
      else Some e) \<noteq> None"
    using assms(2) by (cases changes) auto
  then obtain e' where "(if e = None \<and> changes \<noteq> []
      then map_option Some (calculate_time_bound env (hd changes) tp) else Some e) = Some e'"
    by blast
  then show ?thesis
    using e by (cases metrics) (simp add: create_manifest_def Let_def own_item_def own_day_def)
qed

lemma process_single_day:
  assumes env: "env_ok env" and wf: "wf_catalog env stream (cat_items st @ entries) (cat_manifests st)"
    and fresh: "day_start d \<notin> time_lower_bound ` set entries"
    and changes: "distinct (map file_path changes)"
      "\<forall>c \<in> set changes. calculate_time_bound env c (cat_time_partition st) \<noteq> None"
    and stream: "cat_first_event st \<noteq> None"
  shows "\<exists>st' entry. process_single_partition env stream (day_start d) changes metrics st = (st', Inr entry) \<and>
    (let items' = cat_items st' @ entries @ (case entry of None \<Rightarrow> [] | Some i \<Rightarrow> [i]) in
     wf_catalog env stream items' (cat_manifests st') \<and>
     listed env stream items' (cat_manifests st') =
       (listed env stream (cat_items st @ entries) (cat_manifests st))
         (d := listed env stream (cat_items st @ entries) (cat_manifests st) d ++ find_file changes)) \<and>
    (case entry of None \<Rightarrow> True | Some i \<Rightarrow> time_lower_bound i = day_start d) \<and>
    cat_time_partition st' = cat_time_partition st \<and> cat_first_event st' \<noteq> None"
proof (cases "position (\<lambda>item. time_lower_bound item \<le> day_start d \<and> day_start d < time_upper_bound item) (cat_items st)")
  case None
  obtain st' i where created: "create_manifest env stream (day_start d) changes (cat_time_partition st) metrics st =
      (st', Inr (Some i))" "own_item env stream d i" "cat_items st' = cat_items st"
      "cat_time_partition st' = cat_time_partition st" "cat_first_event st' \<noteq> None"
      "cat_manifests st' = AList.update (own_day env stream d) changes (cat_manifests st)"
    using create_manifest_day [OF stream changes(2)] by blast
  have new: "day_start d \<notin> time_lower_bound ` set (cat_items st @ entries)"
  proof
    assume "day_start d \<in> time_lower_bound ` set (cat_items st @ entries)"
    with fresh obtain j where j: "j \<in> set (cat_items st)" "time_lower_bound j = day_start d" by auto
    then have "j \<in> set (cat_items st @ entries)" by simp
    with wf obtain e where "own_item env stream e j" by (rule wf_item)
    then have "time_upper_bound j = day_end d" using j(2) by (simp add: own_item_def)
    with j(2) have "time_lower_bound j \<le> day_start d \<and> day_start d < time_upper_bound j"
      using in_day [of d d] by simp
    with None j(1) show False unfolding position_None by blast
  qed
  have wf': "wf_catalog env stream (cat_items st @ entries) (cat_manifests st')"
    unfolding created(6) by (rule wf_update_store [OF env wf changes(1)])
  have "wf_catalog env stream ((cat_items st @ entries) @ [i]) (cat_manifests st')"
    using wf_add_item [OF wf' created(2) new _ changes(1)] by (simp add: created(6) update_conv')
  moreover have "listed env stream ((cat_items st @ entries) @ [i]) (cat_manifests st') =
      (listed env stream (cat_items st @ entries) (cat_manifests st))(d := find_file changes)"
    using new created(2) own_day_inject [OF env]
    by (auto simp: listed_def fun_eq_iff created(6) update_conv' own_item_def)
  moreover have "listed env stream (cat_items st @ entries) (cat_manifests st) d = Map.empty"
    using new by (simp add: listed_def)
  ultimately show ?thesis
    using None created by (simp add: process_single_partition_def Let_def own_item_def)
next
  case (Some pos)
  let ?item = "cat_items st ! pos"
  have pos: "pos < length (cat_items st)"
    "time_lower_bound ?item \<le> day_start d \<and> day_start d < time_upper_bound ?item"
    using position_Some [OF Some] by auto
  then have mem: "?item \<in> set (cat_items st @ entries)" by simp
  with wf obtain e files where own: "own_item env stream e ?item"
    "map_of (cat_manifests st) (own_day env stream e) = Some files" "distinct (map file_path files)"
    by (rule wf_item)
  have "day_start e \<le> day_start d \<and> day_start d < day_end e"
    using pos(2) own(1) unfolding own_item_def by metis
  then have "e = d" unfolding in_day .
  note own = own [unfolded this]
  have found: "contains_str (manifest_file_name env) (manifest_path ?item)"
    "locate env (manifest_path ?item) = own_day env stream d"
    "own_path env stream (time_lower_bound ?item) (time_upper_bound ?item) = own_day env stream d"
    using own(1) env by (simp_all add: own_item_def env_ok_def own_day_def own_path_def)
  let ?store = "AList.update (own_day env stream d) (fold apply_change changes files) (cat_manifests st)"
  let ?item' = "?item\<lparr>item_events_ingested := fst metrics, item_ingestion_size := fst (snd metrics),
      item_storage_size := snd (snd metrics)\<rparr>"
  let ?items = "(cat_items st)[pos := ?item'] @ entries"
  have day: "day_start d \<in> time_lower_bound ` set (cat_items st @ entries)"
    using mem own(1) by (metis imageI own_item_def)
  have same: "list_all2 (\<lambda>i j. time_lower_bound i = time_lower_bound j \<and>
      time_upper_bound i = time_upper_bound j \<and> manifest_path i = manifest_path j)
      (cat_items st @ entries) ?items"
    by (rule list_all2_appendI) (auto simp: list_all2_conv_all_nth nth_list_update pos(1))
  have "wf_catalog env stream ?items ?store"
    using wf_update_store [OF env wf fold_apply_change_distinct [OF own(3)]]
    unfolding wf_same_bounds(1) [OF same] .
  moreover have "listed env stream ?items ?store =
      (listed env stream (cat_items st @ entries) (cat_manifests st))
        (d := find_file files ++ find_file changes)"
    unfolding wf_same_bounds(2) [OF same, symmetric] listed_update [OF env day]
    by (simp add: find_fold_apply_change [OF own(3) changes(1)])
  moreover have "listed env stream (cat_items st @ entries) (cat_manifests st) d = find_file files"
    using day own(2) by (simp add: listed_def)
  ultimately show ?thesis
    using Some found own(2) stream
    by (simp add: process_single_partition_def handle_existing_partition_def Let_def)
qed

text \<open>All days, one after the other.\<close>

definition day_key :: "date \<Rightarrow> datetime \<times> datetime" where
  "day_key d = (day_start d, day_end d)"

lemma day_key_inject [simp]: "day_key d = day_key d' \<longleftrightarrow> d = d'"
  by (auto simp: day_key_def)

lemma process_days:
  assumes "env_ok env" and "wf_catalog env stream (cat_items st @ entries) (cat_manifests st)"
    and "distinct ds" and "\<forall>d \<in> set ds. day_start d \<notin> time_lower_bound ` set entries"
    and "\<forall>d \<in> set ds. distinct (map file_path (fs d)) \<and>
      (\<forall>c \<in> set (fs d). calculate_time_bound env c (cat_time_partition st) \<noteq> None)"
    and "cat_first_event st \<noteq> None"
  shows "\<exists>st' entries'. process_partition_groups env stream (map (\<lambda>d. (day_key d, fs d)) ds) entries st =
      (st', Inr entries') \<and>
    wf_catalog env stream (cat_items st' @ entries') (cat_manifests st') \<and>
    listed env stream (cat_items st' @ entries') (cat_manifests st') =
      (\<lambda>d. listed env stream (cat_items st @ entries) (cat_manifests st) d ++
        (if d \<in> set ds then find_file (fs d) else Map.empty))"
  using assms(2-)
proof (induction ds arbitrary: st entries)
  case Nil
  then show ?case by simp
next
  case (Cons d ds)
  let ?L = "listed env stream (cat_items st @ entries) (cat_manifests st)"
  obtain st1 entry where one:
    "process_single_partition env stream (day_start d) (fs d) (day_metrics env (day_start d)) st = (st1, Inr entry)"
    "let items' = cat_items st1 @ entries @ (case entry of None \<Rightarrow> [] | Some i \<Rightarrow> [i]) in
     wf_catalog env stream items' (cat_manifests st1) \<and>
     listed env stream items' (cat_manifests st1) = ?L(d := ?L d ++ find_file (fs d))"
    "case entry of None \<Rightarrow> True | Some i \<Rightarrow> time_lower_bound i = day_start d"
    "cat_time_partition st1 = cat_time_partition st" "cat_first_event st1 \<noteq> None"
    using process_single_day [OF assms(1) Cons.prems(1), of d "fs d" "day_metrics env (day_start d)"]
      Cons.prems(3-5) by auto
  define new where "new = entries @ (case entry of None \<Rightarrow> [] | Some i \<Rightarrow> [i])"
  have "set new \<subseteq> insert (case entry of Some i \<Rightarrow> i) (set entries)"
    by (auto simp: new_def split: option.splits)
  have fresh: "\<forall>e \<in> set ds. day_start e \<notin> time_lower_bound ` set new"
    using Cons.prems(2,3) one(3) by (auto simp: new_def split: option.splits)
  have wf: "wf_catalog env stream (cat_items st1 @ new) (cat_manifests st1)"
    using one(2) by (simp add: Let_def new_def)
  obtain st' entries' where rest:
    "process_partition_groups env stream (map (\<lambda>d. (day_key d, fs d)) ds) new st1 = (st', Inr entries')"
    "wf_catalog env stream (cat_items st' @ entries') (cat_manifests st')"
    "listed env stream (cat_items st' @ entries') (cat_manifests st') =
      (\<lambda>e. listed env stream (cat_items st1 @ new) (cat_manifests st1) e ++
        (if e \<in> set ds then find_file (fs e) else Map.empty))"
    using Cons.IH [OF wf _ fresh] Cons.prems(2,4) one(4,5) by auto
  have first: "listed env stream (cat_items st1 @ new) (cat_manifests st1) = ?L(d := ?L d ++ find_file (fs d))"
    using one(2) by (simp add: Let_def new_def)
  have "listed env stream (cat_items st' @ entries') (cat_manifests st') =
      (\<lambda>e. ?L e ++ (if e \<in> set (d # ds) then find_file (fs e) else Map.empty))"
    unfolding rest(3) first using Cons.prems(2) by (auto simp: fun_eq_iff)
  with rest one(1) show ?case by (simp add: day_key_def new_def)
qed

text \<open>The changes of a day, in their order.\<close>

definition day_changes ::
  "catalog_env \<Rightarrow> string option \<Rightarrow> manifest_file list \<Rightarrow> date \<Rightarrow> manifest_file list" where
  "day_changes env tp cs d =
     filter (\<lambda>c. map_option date_naive (calculate_time_bound env c tp) = Some d) cs"

lemma group_changes_days:
  assumes "\<forall>c \<in> set cs. calculate_time_bound env c tp \<noteq> None"
    and "distinct ds" and "acc = map (\<lambda>d. (day_key d, fs d)) ds" and "\<forall>d. d \<notin> set ds \<longrightarrow> fs d = []"
  shows "\<exists>ds'. group_changes env tp cs acc =
      Some (map (\<lambda>d. (day_key d, fs d @ day_changes env tp cs d)) ds') \<and> distinct ds' \<and>
    (\<forall>d. d \<notin> set ds' \<longrightarrow> fs d @ day_changes env tp cs d = [])"
  using assms
proof (induction cs arbitrary: acc ds fs)
  case Nil
  then show ?case by (auto simp: day_changes_def)
next
  case (Cons c cs)
  obtain t where t: "calculate_time_bound env c tp = Some t" using Cons.prems(1) by auto
  let ?d = "date_naive t"
  define fs' where "fs' = fs(?d := fs ?d @ [c])"
  define ds1 where "ds1 = (if ?d \<in> set ds then ds else ds @ [?d])"
  have key: "create_partition_bounds t = day_key ?d"
    by (simp add: create_partition_bounds_day day_key_def)
  have look: "map_of (map (\<lambda>d. (day_key d, f d)) xs) (day_key e) = (if e \<in> set xs then Some (f e) else None)"
    for f :: "date \<Rightarrow> manifest_file list" and xs e by (induction xs) auto
  have upd: "AList.update (day_key e) v (map (\<lambda>d. (day_key d, f d)) xs) =
      map (\<lambda>d. (day_key d, (f(e := v)) d)) (if e \<in> set xs then xs else xs @ [e])"
    if "distinct xs" for f :: "date \<Rightarrow> manifest_file list" and xs e v
    using that by (induction xs) auto
  have sofar: "(case map_of acc (day_key ?d) of None \<Rightarrow> [] | Some l \<Rightarrow> l) = fs ?d"
    using Cons.prems(3,4) by (simp add: look)
  have step: "group_changes env tp (c # cs) acc =
      group_changes env tp cs (map (\<lambda>d. (day_key d, fs' d)) ds1)"
    using t Cons.prems(2) by (simp add: key sofar Let_def) (simp add: Cons.prems(3) upd fun_upd_def fs'_def ds1_def)
  have fs': "fs' d = (if d = ?d then fs d @ [c] else fs d)" for d by (simp add: fs'_def)
  have "\<exists>ds'. group_changes env tp cs (map (\<lambda>d. (day_key d, fs' d)) ds1) =
      Some (map (\<lambda>d. (day_key d, fs' d @ day_changes env tp cs d)) ds') \<and> distinct ds' \<and>
    (\<forall>d. d \<notin> set ds' \<longrightarrow> fs' d @ day_changes env tp cs d = [])"
    using Cons.prems by (intro Cons.IH) (auto simp: fs' ds1_def split: if_splits)
  moreover have "fs' d @ day_changes env tp cs d = fs d @ day_changes env tp (c # cs) d" for d
    using t by (auto simp: day_changes_def fs')
  ultimately show ?case unfolding step by simp
qed

section \<open>Properties\<close>

text \<open>Pruning the manifests of a query by its time filters loses nothing: the entry of any
  instant that satisfies every filter is kept, and no entry is invented.\<close>

theorem manifests_keep_instant:
  assumes "item \<in> set items" and "time_lower_bound item \<le> t" and "t \<le> time_upper_bound item"
    and "\<forall>p \<in> set predicates. satisfies t p"
  shows "item \<in> set (manifests predicates items) \<and> set (manifests predicates items) \<subseteq> set items"
  using assms satisfies_retains by (auto simp: set_manifests)

definition sample_item :: manifest_item where
  "sample_item =
     \<lparr>manifest_path = ''p'', time_lower_bound = 0, time_upper_bound = 99,
      item_events_ingested = 1, item_ingestion_size = 1, item_storage_size = 1\<rparr>"

theorem manifests_keep_instant_witness:
  "sample_item \<in> set (manifests [Low (Included 50), High (Excluded 60)] [sample_item])"
  using manifests_keep_instant [of sample_item "[sample_item]" 55 "[Low (Included 50), High (Excluded 60)]"]
  by (simp add: sample_item_def)

lemma update_snapshot_listed:
  assumes "env_ok env" and "wf_catalog env stream (cat_items st) (cat_manifests st)"
    and "cat_first_event st \<noteq> None" and "distinct (map file_path changes)"
    and "\<forall>c \<in> set changes. calculate_time_bound env c (cat_time_partition st) \<noteq> None"
  shows "\<exists>st'. update_snapshot env stream changes st = (st', Inr ()) \<and>
    wf_catalog env stream (cat_items st') (cat_manifests st') \<and>
    listed env stream (cat_items st') (cat_manifests st') =
      (\<lambda>d. listed env stream (cat_items st) (cat_manifests st) d ++
         find_file (day_changes env (cat_time_partition st) changes d))"
proof (cases "changes = []")
  case True
  have "find_file [] = Map.empty" by (simp add: find_file_def fun_eq_iff)
  then show ?thesis using True assms(2) by (simp add: update_snapshot_def day_changes_def)
next
  case False
  let ?fs = "day_changes env (cat_time_partition st) changes"
  obtain ds where groups: "group_changes_by_partition env changes (cat_time_partition st) =
      Some (map (\<lambda>d. (day_key d, ?fs d)) ds)" "distinct ds" "\<forall>d. d \<notin> set ds \<longrightarrow> ?fs d = []"
    using group_changes_days [OF assms(5), of "[]" "[]" "\<lambda>_. []"]
    by (auto simp: group_changes_by_partition_def)
  have files: "\<forall>d \<in> set ds. distinct (map file_path (?fs d)) \<and>
      (\<forall>c \<in> set (?fs d). calculate_time_bound env c (cat_time_partition st) \<noteq> None)"
    using assms(4) by (auto simp: day_changes_def distinct_map_filter)
  obtain st' entries where run:
    "process_partition_groups env stream (map (\<lambda>d. (day_key d, ?fs d)) ds) [] st = (st', Inr entries)"
    "wf_catalog env stream (cat_items st' @ entries) (cat_manifests st')"
    "listed env stream (cat_items st' @ entries) (cat_manifests st') =
      (\<lambda>d. listed env stream (cat_items st) (cat_manifests st) d ++
        (if d \<in> set ds then find_file (?fs d) else Map.empty))"
    using process_days [OF assms(1), of stream st "[]" ds ?fs] assms(2,3) groups(2) files by auto
  have empty: "find_file [] = Map.empty" by (simp add: find_file_def fun_eq_iff)
  have "(if d \<in> set ds then find_file (?fs d) else Map.empty) = find_file (?fs d)" for d
    using groups(3) empty by simp
  then show ?thesis using False groups(1) run by (simp add: update_snapshot_def)
qed

text \<open>C5: A snapshot update refines the update of an abstract map from days and paths to files. Assume
  that the snapshot holds only entries of this node (one for a day, each with a stored manifest
  without repeated paths), as in a stream.json that only this node writes; that the stream is in
  memory; that manifest addresses name their day and can be read back (\<open>env_ok\<close>);
  and that the new files have distinct paths and time statistics. Then the update succeeds and
  keeps the snapshot in that form, every new file is listed under the day of its first event,
  and every other listing is as before. When the first entry of a day belongs to another node
  this fails (\<open>foreign_entry_overwrites\<close>).\<close>

theorem update_snapshot_refines:
  assumes "env_ok env" and "wf_catalog env stream (cat_items st) (cat_manifests st)"
    and "cat_first_event st \<noteq> None" and "distinct (map file_path changes)"
    and "\<forall>c \<in> set changes. calculate_time_bound env c (cat_time_partition st) \<noteq> None"
  shows "\<exists>st'. update_snapshot env stream changes st = (st', Inr ()) \<and>
    wf_catalog env stream (cat_items st') (cat_manifests st') \<and>
    listed env stream (cat_items st') (cat_manifests st') =
      (\<lambda>d. listed env stream (cat_items st) (cat_manifests st) d ++
         find_file (day_changes env (cat_time_partition st) changes d))"
  using assms by (rule update_snapshot_listed)

definition sample_file :: manifest_file where
  "sample_file =
     \<lparr>file_path = ''f'', num_rows = 1, file_size = 1, ingestion_size = 1,
      file_columns = [\<lparr>col_name = ''p_timestamp'', col_stats = Some (IntStats 0 5),
                       col_uncompressed_size = 1, col_compressed_size = 1\<rparr>],
      sort_order_id = []\<rparr>"

definition sample_catalog_env :: catalog_env where
  "sample_catalog_env =
     \<lparr>from_timestamp_millis = (\<lambda>ms. Some (ms * 1000000)), manifest_file_name = ''m'',
      absolute_url = (\<lambda>p. p), locate = (\<lambda>p. p),
      show_day = (\<lambda>d. if d < 0 then CHR ''-'' # show_nat (nat (- d)) else show_nat (nat d)),
      day_metrics = (\<lambda>_. (1, 1, 1))\<rparr>"

definition empty_catalog :: catalog_state where
  "empty_catalog =
     \<lparr>cat_items = [], cat_time_partition = None, cat_manifests = [], cat_first_event = Some None\<rparr>"

lemma sample_env_ok: "env_ok sample_catalog_env"
proof -
  have minus: "CHR ''-'' # s \<noteq> show_nat n" for s n
  proof
    assume "CHR ''-'' # s = show_nat n"
    then have "list_all is_ascii_digit (CHR ''-'' # s)" using show_nat_digits [of n] by simp
    then show False by (simp add: is_ascii_digit_def less_eq_char_def)
  qed
  have inj: "show_nat m = show_nat n \<Longrightarrow> m = n" for m n
    by (metis read_show_nat option.inject)
  have "contains_str ''m'' (p @ ''/m'')" for p
    unfolding contains_str_iff by (rule exI [of _ "p @ ''/''"], rule exI [of _ "[]"]) simp
  then show ?thesis
    using minus minus [symmetric]
    by (auto simp: env_ok_def sample_catalog_env_def dest!: inj split: if_splits)
qed

theorem update_snapshot_refines_witness:
  "\<exists>st'. update_snapshot sample_catalog_env ''web'' [sample_file] empty_catalog = (st', Inr ()) \<and>
     listed sample_catalog_env ''web'' (cat_items st') (cat_manifests st') 0 ''f'' = Some sample_file"
proof -
  have bound: "calculate_time_bound sample_catalog_env sample_file None = Some 0"
    by (simp add: calculate_time_bound_def get_file_bounds_def sample_catalog_env_def sample_file_def
        default_timestamp_key_def)
  have path: "file_path sample_file = ''f''" by (simp add: sample_file_def)
  have empty: "cat_items empty_catalog = []" "cat_manifests empty_catalog = []"
    "cat_time_partition empty_catalog = None" "cat_first_event empty_catalog = Some None"
    by (simp_all add: empty_catalog_def)
  have day: "day_changes sample_catalog_env None [sample_file] 0 = [sample_file]"
    using date_naive_day(1) [of 0] by (simp add: day_changes_def bound)
  obtain st' where "update_snapshot sample_catalog_env ''web'' [sample_file] empty_catalog = (st', Inr ())"
    "listed sample_catalog_env ''web'' (cat_items st') (cat_manifests st') =
      (\<lambda>d. listed sample_catalog_env ''web'' [] [] d ++ find_file (day_changes sample_catalog_env None [sample_file] d))"
    using update_snapshot_refines [OF sample_env_ok, of "''web''" empty_catalog "[sample_file]"] bound
    by (auto simp: empty wf_catalog_def)
  then show ?thesis by (simp add: day find_file_def path map_add_def)
qed

text \<open>When the first entry for a day is another node's manifest, an update for the day writes
  this node's manifest anew: files it listed before and the update does not name are listed no
  more, and another entry for the same manifest is added.\<close>

theorem foreign_entry_overwrites:
  assumes "group_changes_by_partition env changes (cat_time_partition st) = Some [(day_key d, changes)]"
    and "changes \<noteq> []" and "cat_items st = foreign # rest"
    and "time_lower_bound foreign = day_start d" and "time_upper_bound foreign = day_end d"
    and "\<not> contains_str (manifest_file_name env) (manifest_path foreign)"
    and "cat_first_event st = Some (Some t)"
  shows "\<exists>st' i. update_snapshot env stream changes st = (st', Inr ()) \<and>
    map_of (cat_manifests st') (own_day env stream d) = Some changes \<and>
    cat_items st' = cat_items st @ [i] \<and> manifest_path i = absolute_url env (own_day env stream d)"
proof -
  have "position (\<lambda>item. time_lower_bound item \<le> day_start d \<and> day_start d < time_upper_bound item)
      (cat_items st) = Some 0"
    using assms(3-5) in_day [of d d] by simp
  then show ?thesis
    using assms
    by (cases "day_metrics env (day_start d)")
      (simp add: update_snapshot_def day_key_def process_single_partition_def
        handle_existing_partition_def create_manifest_def Let_def own_day_def update_conv')
qed

definition restarted_catalog :: catalog_state where
  "restarted_catalog =
     \<lparr>cat_items =
        [\<lparr>manifest_path = ''x'', time_lower_bound = 0, time_upper_bound = nanos_per_day - 1,
          item_events_ingested = 1, item_ingestion_size = 1, item_storage_size = 1\<rparr>],
      cat_time_partition = None, cat_manifests = [(''web/date=0/m'', [sample_file\<lparr>file_path := ''old''\<rparr>])],
      cat_first_event = Some (Some 0)\<rparr>"

theorem foreign_entry_overwrites_witness:
  "\<exists>st'. update_snapshot sample_catalog_env ''web'' [sample_file] restarted_catalog = (st', Inr ()) \<and>
     map_of (cat_manifests st') (own_day sample_catalog_env ''web'' 0) = Some [sample_file]"
proof -
  have bound: "calculate_time_bound sample_catalog_env sample_file None = Some 0"
    by (simp add: calculate_time_bound_def get_file_bounds_def sample_catalog_env_def sample_file_def
        default_timestamp_key_def)
  have "group_changes_by_partition sample_catalog_env [sample_file] (cat_time_partition restarted_catalog) =
      Some [(day_key 0, [sample_file])]"
    using date_naive_day(1) [of 0]
    by (simp add: group_changes_by_partition_def restarted_catalog_def bound create_partition_bounds_day
        day_key_def Let_def)
  note over = foreign_entry_overwrites [OF this, of "hd (cat_items restarted_catalog)" "[]" 0 for t]
  have "\<not> contains_str (manifest_file_name sample_catalog_env)
      (manifest_path (hd (cat_items restarted_catalog)))"
    by (simp add: sample_catalog_env_def restarted_catalog_def)
  note over = over [OF _ _ _ _ this]
  have first: "cat_first_event restarted_catalog = Some (Some 0)" by (simp add: restarted_catalog_def)
  have "cat_items restarted_catalog = hd (cat_items restarted_catalog) # []"
    "time_lower_bound (hd (cat_items restarted_catalog)) = day_start 0"
    "time_upper_bound (hd (cat_items restarted_catalog)) = day_end 0"
    by (simp_all add: restarted_catalog_def)
  from over [OF _ this first] show ?thesis by blast
qed

end
