(* ===== verification/Query_Pruning.thy ===== *)
theory Query_Pruning
  imports Catalog
begin

text \<open>
  \<open>src/query/stream_schema_provider.rs\<close>: which stored data a query reads. The filters of the
  query are read as bounds on the time; the bounds choose the entries of the snapshot, split the
  range between listed and catalogued data and decide whether staging is read; and the
  statistics of each file decide whether the file can be left out.
\<close>

section \<open>Expressions of a filter\<close>

text \<open>DataFusion's expressions as far as the code looks into them. Scalars that it does not
  distinguish are \<open>OtherScalar\<close>; the flag of a literal says that it carries metadata.\<close>

datatype operator = OpEq | OpNotEq | OpLt | OpLtEq | OpGt | OpGtEq | OpAnd | OpOr
  | OpIsDistinctFrom | OpIsNotDistinctFrom | OpOther

datatype scalar =
    NullScalar
  | Boolean "bool option"
  | Float32 "real option"
  | Float64 "real option"
  | Int8 "int option"
  | Int16 "int option"
  | Int32 "int option"
  | Int64 "int option"
  | UInt8 "int option"
  | UInt16 "int option"
  | UInt32 "int option"
  | UInt64 "int option"
  | Utf8 "string option"
  | Date32 "int option"
  | TimestampMillisecond "int option"
  | TimestampNanosecond "int option"
  | OtherScalar

datatype expr =
    ColumnExpr string
  | Literal scalar bool
  | BinaryExpr expr operator expr
  | AliasExpr expr string
  | OtherExpr "expr list"

section \<open>Bounds on the time\<close>

text \<open>Chrono's conversions: milliseconds since the epoch, which fail far outside the calendar, and
  the text of a timestamp.\<close>

record query_env =
  millis_to_datetime :: "int \<Rightarrow> datetime option"
  parse_datetime :: "string \<Rightarrow> datetime option"

text \<open>A panic is the outer \<open>None\<close>.\<close>

definition extract_timestamp_bound ::
  "query_env \<Rightarrow> expr \<Rightarrow> operator \<Rightarrow> expr \<Rightarrow> string option \<Rightarrow> (operator \<times> datetime) option option"
where
  "extract_timestamp_bound env left op right time_partition =
     (case right of
        Literal value False \<Rightarrow>
          let is_time_partition =
            (case (left, time_partition) of (ColumnExpr name, Some tp) \<Rightarrow> name = tp | _ \<Rightarrow> False)
          in (case value of
                TimestampMillisecond (Some v) \<Rightarrow> map_option (\<lambda>t. Some (op, t)) (millis_to_datetime env v)
              | TimestampNanosecond (Some v) \<Rightarrow> Some (Some (op, v))
              | Utf8 (Some s) \<Rightarrow>
                  if is_time_partition then Some (map_option (Pair op) (parse_datetime env s)) else Some None
              | _ \<Rightarrow> Some None)
      | _ \<Rightarrow> Some None)"

fun filter_of_bound :: "operator \<Rightarrow> datetime \<Rightarrow> time_filter option" where
  "filter_of_bound OpGt t = Some (Low (Excluded t))"
| "filter_of_bound OpGtEq t = Some (Low (Included t))"
| "filter_of_bound OpLt t = Some (High (Excluded t))"
| "filter_of_bound OpLtEq t = Some (High (Included t))"
| "filter_of_bound OpEq t = Some (TimeEq t)"
| "filter_of_bound OpIsNotDistinctFrom t = Some (TimeEq t)"
| "filter_of_bound _ t = None"

fun try_from_expr :: "query_env \<Rightarrow> expr \<Rightarrow> string option \<Rightarrow> time_filter option option" where
  "try_from_expr env (BinaryExpr left op right) tp =
     map_option (\<lambda>b. Option.bind b (\<lambda>(op', t). filter_of_bound op' t))
       (extract_timestamp_bound env left op right tp)"
| "try_from_expr env _ tp = Some None"

text \<open>Each filter is visited at its root only: a node that gives no bound is skipped with its
  children.\<close>

definition extract_primary_filter ::
  "query_env \<Rightarrow> expr list \<Rightarrow> string option \<Rightarrow> time_filter list option" where
  "extract_primary_filter env filters tp =
     map_option (List.map_filter id) (those (map (\<lambda>e. try_from_expr env e tp) filters))"

text \<open>The other direction: the filter on a column that a bound stands for, in milliseconds;
  a bound without an end is \<open>unimplemented!\<close>.\<close>

definition timestamp_millis :: "datetime \<Rightarrow> int" where
  "timestamp_millis t = t div 1000000"

fun binary_expr :: "time_filter \<Rightarrow> expr \<Rightarrow> expr option" where
  "binary_expr (Low (Excluded t)) left =
     Some (BinaryExpr left OpGt (Literal (TimestampMillisecond (Some (timestamp_millis t))) False))"
| "binary_expr (Low (Included t)) left =
     Some (BinaryExpr left OpGtEq (Literal (TimestampMillisecond (Some (timestamp_millis t))) False))"
| "binary_expr (High (Excluded t)) left =
     Some (BinaryExpr left OpLt (Literal (TimestampMillisecond (Some (timestamp_millis t))) False))"
| "binary_expr (High (Included t)) left =
     Some (BinaryExpr left OpLtEq (Literal (TimestampMillisecond (Some (timestamp_millis t))) False))"
| "binary_expr (TimeEq t) left =
     Some (BinaryExpr left OpEq (Literal (TimestampMillisecond (Some (timestamp_millis t))) False))"
| "binary_expr _ left = None"

section \<open>Listed and catalogued data\<close>

definition first_lower_bound :: "manifest_item list \<Rightarrow> datetime option" where
  "first_lower_bound items =
     (case map time_lower_bound items of [] \<Rightarrow> None | b # bs \<Rightarrow> Some (foldl min b bs))"

fun starts_before :: "datetime \<Rightarrow> time_filter \<Rightarrow> bool" where
  "starts_before lower (Low (Excluded t)) \<longleftrightarrow> t < lower"
| "starts_before lower (Low (Included t)) \<longleftrightarrow> t < lower"
| "starts_before lower _ \<longleftrightarrow> False"

definition is_overlapping_query :: "manifest_item list \<Rightarrow> time_filter list \<Rightarrow> bool" where
  "is_overlapping_query items filters =
     (case first_lower_bound items of
        None \<Rightarrow> True
      | Some lower \<Rightarrow> list_ex (starts_before lower) filters)"

fun listing_filter :: "datetime \<Rightarrow> time_filter \<Rightarrow> time_filter" where
  "listing_filter lower (High (Included upper)) =
     (if upper < lower then High (Included upper) else High (Excluded lower))"
| "listing_filter lower (High (Excluded upper)) =
     (if upper < lower then High (Excluded upper) else High (Excluded lower))"
| "listing_filter lower f = f"

fun is_upper_filter :: "time_filter \<Rightarrow> bool" where
  "is_upper_filter (High (Included _)) \<longleftrightarrow> True"
| "is_upper_filter (High (Excluded _)) \<longleftrightarrow> True"
| "is_upper_filter _ \<longleftrightarrow> False"

text \<open>The filters for the listing, and the filters as they are left for the catalog.\<close>

definition return_listing_time_filters ::
  "manifest_item list \<Rightarrow> time_filter list \<Rightarrow> time_filter list option \<times> time_filter list" where
  "return_listing_time_filters items filters =
     (case first_lower_bound items of
        None \<Rightarrow> (Some filters, filters)
      | Some lower \<Rightarrow>
          let listing = map (listing_filter lower) filters
          in (if listing \<noteq> [] then Some listing else None,
              Low (Included lower) # filter is_upper_filter filters))"

text \<open>Whether data in staging is read, at a given time.\<close>

fun ends_after :: "datetime \<Rightarrow> time_filter \<Rightarrow> bool" where
  "ends_after limit (High (Excluded t)) \<longleftrightarrow> limit \<le> t"
| "ends_after limit (High (Included t)) \<longleftrightarrow> limit \<le> t"
| "ends_after limit (TimeEq t) \<longleftrightarrow> limit \<le> t"
| "ends_after limit _ \<longleftrightarrow> False"

fun is_high :: "time_filter \<Rightarrow> bool" where
  "is_high (High _) \<longleftrightarrow> True"
| "is_high _ \<longleftrightarrow> False"

definition five_minutes_back :: "datetime \<Rightarrow> datetime" where
  "five_minutes_back clock = truncate_to_minute (clock - 5 * nanos_per_minute)"

definition is_within_staging_window :: "datetime \<Rightarrow> time_filter list \<Rightarrow> bool" where
  "is_within_staging_window clock filters \<longleftrightarrow>
     (if list_ex (ends_after (five_minutes_back clock)) filters then True
      else \<not> list_ex is_high filters)"

text \<open>A filter is declared exact when it bounds a time by a whole minute.\<close>

fun expr_in_boundary :: "query_env \<Rightarrow> expr \<Rightarrow> bool option" where
  "expr_in_boundary env (BinaryExpr left op right) =
     map_option (\<lambda>b. case b of
         None \<Rightarrow> False
       | Some (op', t) \<Rightarrow> second_of t = 0 \<and> t mod nanos_per_second = 0 \<and> op' \<in> {OpGt, OpGtEq, OpLt, OpLtEq})
       (extract_timestamp_bound env left op right None)"
| "expr_in_boundary env _ = Some False"

section \<open>Pruning by statistics\<close>

definition u64_as_i64 :: "int \<Rightarrow> int" where
  "u64_as_i64 n = (n + 2 ^ 63) mod 2 ^ 64 - 2 ^ 63"

text \<open>The constant a literal stands for; the values of columns have the same types.\<close>

fun cast_or_none :: "scalar \<Rightarrow> cell option" where
  "cast_or_none (Boolean v) = map_option BoolCell v"
| "cast_or_none (Float32 v) = map_option FloatCell v"
| "cast_or_none (Float64 v) = map_option FloatCell v"
| "cast_or_none (Int8 v) = map_option IntCell v"
| "cast_or_none (Int16 v) = map_option IntCell v"
| "cast_or_none (Int32 v) = map_option IntCell v"
| "cast_or_none (Int64 v) = map_option IntCell v"
| "cast_or_none (UInt8 v) = map_option IntCell v"
| "cast_or_none (UInt16 v) = map_option IntCell v"
| "cast_or_none (UInt32 v) = map_option IntCell v"
| "cast_or_none (UInt64 v) = map_option (\<lambda>n. IntCell (u64_as_i64 n)) v"
| "cast_or_none (Utf8 v) = map_option StringCell v"
| "cast_or_none (Date32 v) = map_option IntCell v"
| "cast_or_none (TimestampMillisecond v) = map_option IntCell v"
| "cast_or_none _ = None"

fun range_matches :: "'a::linorder \<Rightarrow> 'a \<Rightarrow> 'a \<Rightarrow> operator \<Rightarrow> bool option" where
  "range_matches value lo hi OpEq = Some (value \<ge> lo \<and> value \<le> hi)"
| "range_matches value lo hi OpIsNotDistinctFrom = Some (value \<ge> lo \<and> value \<le> hi)"
| "range_matches value lo hi OpLt = Some (value > lo)"
| "range_matches value lo hi OpLtEq = Some (value \<ge> lo)"
| "range_matches value lo hi OpGt = Some (value < hi)"
| "range_matches value lo hi OpGtEq = Some (value \<le> hi)"
| "range_matches value lo hi _ = None"

fun satisfy_constraints :: "cell \<Rightarrow> operator \<Rightarrow> typed_statistics \<Rightarrow> bool option" where
  "satisfy_constraints (BoolCell v) op (BoolStats lo hi) = range_matches v lo hi op"
| "satisfy_constraints (IntCell v) op (IntStats lo hi) = range_matches v lo hi op"
| "satisfy_constraints (FloatCell v) op (FloatStats lo hi) = range_matches v lo hi op"
| "satisfy_constraints (StringCell v) op (StringStats lo hi) = range_matches v lo hi op"
| "satisfy_constraints _ op _ = None"

fun find_matching_column :: "manifest_file \<Rightarrow> expr \<Rightarrow> column option" where
  "find_matching_column f (BinaryExpr (ColumnExpr name) op right) =
     List.find (\<lambda>c. col_name c = name) (file_columns f)"
| "find_matching_column f _ = None"

fun extract_op_scalar :: "expr \<Rightarrow> (operator \<times> scalar) option" where
  "extract_op_scalar (BinaryExpr left op (Literal value False)) = Some (op, value)"
| "extract_op_scalar _ = None"

definition can_be_pruned :: "manifest_file \<Rightarrow> expr \<Rightarrow> bool" where
  "can_be_pruned f e =
     (case find_matching_column f e of None \<Rightarrow> False | Some col \<Rightarrow>
      (case extract_op_scalar e of None \<Rightarrow> False | Some (op, value) \<Rightarrow>
       (case cast_or_none value of None \<Rightarrow> False | Some v \<Rightarrow>
        (case col_stats col of None \<Rightarrow> False | Some stats \<Rightarrow>
         \<not> (case satisfy_constraints v op stats of None \<Rightarrow> True | Some b \<Rightarrow> b)))))"

section \<open>Files of the catalog\<close>

text \<open>What a scan reads from outside: the stored metadata (\<open>nodes\<close> is what a query node
  finds of the others, if it finds it), the metastore's manifest for an entry, the directories
  under a prefix, the clock, the text of a date, the hot tier's files when the stream has a hot
  tier, and the number of processors.\<close>

record scan_env = query_env +
  is_query_node :: bool
  own_time_partition :: "string option"
  own_items :: "manifest_item list"
  nodes :: "manifest_item list list option"
  get_manifest :: "manifest_item \<Rightarrow> string + manifest_file list option"
  list_dirs :: "string \<Rightarrow> string + string list"
  clock_now :: datetime
  day_text :: "date \<Rightarrow> string"
  hot_tier_files :: "(string + manifest_file list) option"
  cpus :: nat

text \<open>The first files whose rows reach the limit.\<close>

fun limit_position :: "nat \<Rightarrow> nat \<Rightarrow> manifest_file list \<Rightarrow> nat option" where
  "limit_position limit sofar [] = None"
| "limit_position limit sofar (f # fs) =
     (if sofar + num_rows f \<ge> limit then Some 0
      else map_option Suc (limit_position limit (sofar + num_rows f) fs))"

definition truncate_limit :: "nat option \<Rightarrow> manifest_file list \<Rightarrow> manifest_file list" where
  "truncate_limit limit files =
     (case limit of
        None \<Rightarrow> files
      | Some n \<Rightarrow> (case limit_position n 0 files of None \<Rightarrow> files | Some pos \<Rightarrow> take (pos + 1) files))"

definition prune_files :: "expr list \<Rightarrow> manifest_file list \<Rightarrow> manifest_file list" where
  "prune_files filters files = fold (\<lambda>e. filter (\<lambda>f. \<not> can_be_pruned f e)) filters files"

definition collect_from_snapshot ::
  "scan_env \<Rightarrow> manifest_item list \<Rightarrow> time_filter list \<Rightarrow> expr list \<Rightarrow> nat option
   \<Rightarrow> string + manifest_file list"
where
  "collect_from_snapshot env items time_filters filters limit =
     bind_result (map_result (get_manifest env) (manifests time_filters items))
       (\<lambda>found. Inr (truncate_limit limit
          (prune_files filters (rev (concat (List.map_filter id found))))))"

section \<open>Files in the hot tier\<close>

text \<open>Descending order of paths; the code's sort leaves open the order of equal paths.\<close>

definition sort_descending :: "manifest_file list \<Rightarrow> manifest_file list" where
  "sort_descending fs = rev (sort_key file_path fs)"

text \<open>The hot tier's files that are wanted, and the wanted files it lacks.\<close>

definition get_hot_tier_manifest_files ::
  "manifest_file list \<Rightarrow> manifest_file list \<Rightarrow> manifest_file list \<times> manifest_file list" where
  "get_hot_tier_manifest_files tier wanted =
     (let hot = sort_descending (filter (\<lambda>f. \<exists>m \<in> set wanted. file_path m = file_path f) tier)
      in (hot, sort_descending (filter (\<lambda>m. \<forall>f \<in> set hot. file_path f \<noteq> file_path m) wanted)))"

section \<open>Listed files\<close>

fun low_time :: "time_filter \<Rightarrow> datetime option" where
  "low_time (Low (Excluded t)) = Some t"
| "low_time (Low (Included t)) = Some t"
| "low_time _ = None"

fun high_time :: "time_filter \<Rightarrow> datetime option" where
  "high_time (High (Excluded t)) = Some t"
| "high_time (High (Included t)) = Some t"
| "high_time _ = None"

fun extremum :: "(int \<Rightarrow> int \<Rightarrow> int) \<Rightarrow> int list \<Rightarrow> int option" where
  "extremum pick [] = None"
| "extremum pick (x # xs) = Some (foldl pick x xs)"

definition granularity :: nat where
  "granularity = 1"

text \<open>\<open>None\<close> is a panic of the prefix generation.\<close>

definition populate_via_listing ::
  "scan_env \<Rightarrow> string \<Rightarrow> time_filter list \<Rightarrow> (string + string list) option"
where
  "populate_via_listing env stream time_filters =
     (case (extremum min (List.map_filter low_time time_filters),
            extremum max (List.map_filter high_time time_filters)) of
        (Some start, Some stop) \<Rightarrow>
          map_option (\<lambda>prefixes.
              bind_result
                (map_result (\<lambda>p. let dir = stream @ ''/'' @ p in
                   bind_result (list_dirs env dir) (\<lambda>ds. Inr (map (\<lambda>d. dir @ ''/'' @ d) ds))) prefixes)
                (\<lambda>listing. Inr (rev (sort (concat listing)))))
            (generate_prefixes (day_text env) \<lparr>tr_start = start, tr_end = stop\<rparr> granularity)
      | _ \<Rightarrow> Some (Inl ''The time predicate is not supported because of possibly querying older data.''))"

section \<open>A scan\<close>

text \<open>What a scan reads: staging or not, the listed directories, the hot tier's files and the
  files of the object store.\<close>

record scan_plan =
  reads_staging :: bool
  listed_dirs :: "string list"
  hot_files :: "manifest_file list"
  cold_files :: "manifest_file list"

definition merged_items :: "scan_env \<Rightarrow> manifest_item list" where
  "merged_items env =
     (if is_query_node env then (case nodes env of None \<Rightarrow> [] | Some obs \<Rightarrow> concat obs)
      else own_items env)"

definition read_files ::
  "scan_env \<Rightarrow> bool \<Rightarrow> string list \<Rightarrow> manifest_file list \<Rightarrow> string + scan_plan" where
  "read_files env staging dirs files =
     (if files = [] then
        Inr \<lparr>reads_staging = staging, listed_dirs = dirs, hot_files = [], cold_files = []\<rparr>
      else (case hot_tier_files env of
        None \<Rightarrow> Inr \<lparr>reads_staging = staging, listed_dirs = dirs, hot_files = [], cold_files = files\<rparr>
      | Some tier \<Rightarrow> bind_result tier (\<lambda>tier.
          let (hot, cold) = get_hot_tier_manifest_files tier files
          in Inr \<lparr>reads_staging = staging, listed_dirs = dirs, hot_files = hot, cold_files = cold\<rparr>)))"

definition scan :: "scan_env \<Rightarrow> string \<Rightarrow> expr list \<Rightarrow> nat option \<Rightarrow> (string + scan_plan) option" where
  "scan env stream filters limit =
     (case extract_primary_filter (query_env.truncate env) filters (own_time_partition env) of
        None \<Rightarrow> None
      | Some time_filters \<Rightarrow>
          let staging = is_within_staging_window (clock_now env) time_filters;
              items = merged_items env;
              (listing, time_filters') =
                (if is_overlapping_query items time_filters
                 then return_listing_time_filters items time_filters else (None, time_filters))
          in map_option (\<lambda>listed.
               bind_result listed (\<lambda>dirs.
               bind_result (collect_from_snapshot env items time_filters' filters limit)
                 (read_files env staging dirs)))
             (case listing of None \<Rightarrow> Some (Inr []) | Some fs \<Rightarrow> populate_via_listing env stream fs))"

section \<open>Partitions of a scan\<close>

text \<open>Files are dealt out to the processors in turn; the statistics of a column are merged over
  the files. \<open>None\<close> is a panic: no processor, or statistics of different types.\<close>

fun deal_files :: "nat \<Rightarrow> nat \<Rightarrow> 'a list \<Rightarrow> 'a list list \<Rightarrow> 'a list list" where
  "deal_files n i [] parts = parts"
| "deal_files n i (f # fs) parts = deal_files n (Suc i) fs (parts[i mod n := parts ! (i mod n) @ [f]])"

type_synonym merged_statistics = "(string \<times> typed_statistics option) list"

definition merge_column :: "column \<Rightarrow> merged_statistics \<Rightarrow> merged_statistics option" where
  "merge_column col acc =
     (case map_of acc (col_name col) of
        None \<Rightarrow> Some (AList.update (col_name col) (col_stats col) acc)
      | Some entry \<Rightarrow>
          (case (entry, col_stats col) of
             (Some this, Some other) \<Rightarrow>
               map_option (\<lambda>s. AList.update (col_name col) (Some s) acc) (update_stats this other)
           | _ \<Rightarrow> Some acc))"

fun merge_columns :: "column list \<Rightarrow> merged_statistics \<Rightarrow> merged_statistics option" where
  "merge_columns [] acc = Some acc"
| "merge_columns (c # cs) acc =
     (case merge_column c acc of None \<Rightarrow> None | Some acc' \<Rightarrow> merge_columns cs acc')"

definition partitioned_files ::
  "nat \<Rightarrow> manifest_file list \<Rightarrow> (manifest_file list list \<times> merged_statistics \<times> nat) option"
where
  "partitioned_files target files =
     (if target = 0 \<and> files \<noteq> [] then None
      else map_option (\<lambda>stats. (deal_files target 0 files (replicate target []), stats,
             sum_list (map num_rows files)))
        (merge_columns (concat (map file_columns files)) []))"

section \<open>Rows and filters\<close>

text \<open>A row gives the values of its columns; a timestamp is its milliseconds. A comparison of a
  column with a constant holds when the value is there and compares; every other filter is
  decided by \<open>other\<close>.\<close>

type_synonym row = "string \<Rightarrow> cell option"

fun compares :: "'a::linorder \<Rightarrow> operator \<Rightarrow> 'a \<Rightarrow> bool" where
  "compares a OpEq b \<longleftrightarrow> a = b"
| "compares a OpIsNotDistinctFrom b \<longleftrightarrow> a = b"
| "compares a OpLt b \<longleftrightarrow> a < b"
| "compares a OpLtEq b \<longleftrightarrow> a \<le> b"
| "compares a OpGt b \<longleftrightarrow> a > b"
| "compares a OpGtEq b \<longleftrightarrow> a \<ge> b"
| "compares a _ b \<longleftrightarrow> False"

definition is_comparison :: "operator \<Rightarrow> bool" where
  "is_comparison op \<longleftrightarrow> op \<in> {OpEq, OpIsNotDistinctFrom, OpLt, OpLtEq, OpGt, OpGtEq}"

fun cell_compares :: "cell \<Rightarrow> operator \<Rightarrow> cell \<Rightarrow> bool" where
  "cell_compares (BoolCell a) op (BoolCell b) \<longleftrightarrow> compares a op b"
| "cell_compares (IntCell a) op (IntCell b) \<longleftrightarrow> compares a op b"
| "cell_compares (FloatCell a) op (FloatCell b) \<longleftrightarrow> compares a op b"
| "cell_compares (StringCell a) op (StringCell b) \<longleftrightarrow> compares a op b"
| "cell_compares _ op _ \<longleftrightarrow> False"

definition literal_value :: "scalar \<Rightarrow> cell option" where
  "literal_value v = (case v of UInt64 (Some n) \<Rightarrow> Some (IntCell n) | _ \<Rightarrow> cast_or_none v)"

definition millis :: "int \<Rightarrow> datetime" where
  "millis ms = ms * 1000000"

definition meets :: "query_env \<Rightarrow> cell option \<Rightarrow> operator \<Rightarrow> scalar \<Rightarrow> bool" where
  "meets env value op literal =
     (case value of
        None \<Rightarrow> False
      | Some v \<Rightarrow>
          (case (v, literal) of
             (IntCell ms, TimestampNanosecond (Some n)) \<Rightarrow> compares (millis ms) op n
           | (IntCell ms, Utf8 (Some s)) \<Rightarrow>
               (case parse_datetime env s of None \<Rightarrow> False | Some t \<Rightarrow> compares (millis ms) op t)
           | _ \<Rightarrow> (case literal_value literal of None \<Rightarrow> False | Some c \<Rightarrow> cell_compares v op c)))"

definition passes :: "query_env \<Rightarrow> (expr \<Rightarrow> bool) \<Rightarrow> row \<Rightarrow> expr \<Rightarrow> bool" where
  "passes env other row e =
     (case e of
        BinaryExpr (ColumnExpr name) op (Literal v False) \<Rightarrow>
          if is_comparison op then meets env (row name) op v else other e
      | _ \<Rightarrow> other e)"

text \<open>What is known of a file: the statistics of its columns cover the row's values.\<close>

definition holds_row :: "manifest_file \<Rightarrow> row \<Rightarrow> bool" where
  "holds_row f row \<longleftrightarrow>
     (\<forall>col \<in> set (file_columns f). \<forall>s v. col_stats col = Some s \<longrightarrow> row (col_name col) = Some v \<longrightarrow> covers s v)"

text \<open>Unsigned constants fit into a signed integer.\<close>

definition literal_fits :: "expr \<Rightarrow> bool" where
  "literal_fits e =
     (case e of BinaryExpr _ _ (Literal (UInt64 (Some n)) _) \<Rightarrow> 0 \<le> n \<and> n < 2 ^ 63 | _ \<Rightarrow> True)"

lemma compares_in_range:
  "lo \<le> v \<Longrightarrow> v \<le> hi \<Longrightarrow> compares v op c \<Longrightarrow> range_matches c lo hi op \<noteq> Some False"
  by (cases op) auto

lemma satisfies_constraints_if:
  "covers s v \<Longrightarrow> cell_compares v op c \<Longrightarrow> satisfy_constraints c op s \<noteq> Some False"
proof (cases "(s, v)" rule: covers.cases)
  case (1 lo hi w)
  moreover assume "covers s v" "cell_compares v op c"
  ultimately show ?thesis using compares_in_range [of lo w hi op] by (cases c) simp_all
qed (use compares_in_range in \<open>cases c; force\<close>)+

lemma u64_as_i64_idle: "0 \<le> n \<Longrightarrow> n < 2 ^ 63 \<Longrightarrow> u64_as_i64 n = n"
  by (simp add: u64_as_i64_def)

lemma literal_value_cast:
  assumes "literal_fits (BinaryExpr l op (Literal v m))"
  shows "literal_value v = cast_or_none v"
proof (cases v)
  case (UInt64 n)
  with assms show ?thesis
    by (cases n) (auto simp: literal_value_def literal_fits_def u64_as_i64_idle)
qed (simp_all add: literal_value_def)

lemma range_matches_comparison: "range_matches c lo hi op = Some b \<Longrightarrow> is_comparison op"
  by (cases op) (auto simp: is_comparison_def)

lemma satisfy_constraints_comparison:
  "satisfy_constraints c op s = Some b \<Longrightarrow> is_comparison op"
  by (cases "(c, op, s)" rule: satisfy_constraints.cases) (auto dest: range_matches_comparison)

lemma can_be_pruned_iff:
  "can_be_pruned f e \<longleftrightarrow>
   (\<exists>name op v col c s. e = BinaryExpr (ColumnExpr name) op (Literal v False) \<and>
      List.find (\<lambda>c. col_name c = name) (file_columns f) = Some col \<and> cast_or_none v = Some c \<and>
      col_stats col = Some s \<and> satisfy_constraints c op s = Some False)"
  unfolding can_be_pruned_def
  by (cases "(f, e)" rule: find_matching_column.cases; cases e rule: extract_op_scalar.cases)
    (auto split: option.splits)

lemma pruned_fails:
  assumes row: "holds_row f row" and pass: "passes env other row e" and fits: "literal_fits e"
  shows "\<not> can_be_pruned f e"
proof
  assume "can_be_pruned f e"
  then obtain name op v col c s where e: "e = BinaryExpr (ColumnExpr name) op (Literal v False)" and
    col: "List.find (\<lambda>c. col_name c = name) (file_columns f) = Some col" and
    c: "cast_or_none v = Some c" and s: "col_stats col = Some s" and
    no: "satisfy_constraints c op s = Some False"
    unfolding can_be_pruned_iff by blast
  have "is_comparison op" using no by (rule satisfy_constraints_comparison)
  with pass have "meets env (row name) op v" by (simp add: passes_def e)
  then obtain w where w: "row name = Some w" by (auto simp: meets_def split: option.splits)
  have "col \<in> set (file_columns f)" "col_name col = name" using col by (auto simp: find_Some_iff)
  with row s w have cov: "covers s w" by (auto simp: holds_row_def)
  have lit: "literal_value v = Some c" using literal_value_cast fits c unfolding e by metis
  have "cell_compares w op c"
  proof (cases "(w, v)")
    case (Pair w' v')
    then show ?thesis using \<open>meets env (row name) op v\<close> w lit c no cov
      by (cases w; cases v; cases s) (auto simp: meets_def split: option.splits)
  qed
  with satisfies_constraints_if [OF cov] no show False by blast
qed

lemma set_prune_files: "set (prune_files filters files) = {f \<in> set files. \<forall>e \<in> set filters. \<not> can_be_pruned f e}"
  unfolding prune_files_def by (induction filters arbitrary: files) auto

text \<open>A filter that bounds the time is on the time column.\<close>

definition time_column :: "string option \<Rightarrow> string" where
  "time_column tp = (case tp of Some p \<Rightarrow> p | None \<Rightarrow> default_timestamp_key)"

definition bounds_time_column :: "query_env \<Rightarrow> string option \<Rightarrow> expr \<Rightarrow> bool" where
  "bounds_time_column env tp e \<longleftrightarrow>
     (case try_from_expr env e tp of
        Some (Some _) \<Rightarrow> (case e of BinaryExpr left op right \<Rightarrow> left = ColumnExpr (time_column tp) | _ \<Rightarrow> False)
      | _ \<Rightarrow> True)"

definition exact_millis :: "query_env \<Rightarrow> bool" where
  "exact_millis env \<longleftrightarrow> (\<forall>v t. millis_to_datetime env v = Some t \<longrightarrow> t = millis v)"

lemma compares_bound:
  "filter_of_bound op t = Some f \<Longrightarrow> compares a op t \<Longrightarrow> satisfies a f"
  by (cases op) auto

lemma filter_of_bound_comparison: "filter_of_bound op t = Some f \<Longrightarrow> is_comparison op"
  by (cases op) (auto simp: is_comparison_def)

lemma compares_millis: "compares ms op v \<Longrightarrow> compares (millis ms) op (millis v)"
  by (cases op) (auto simp: millis_def)

lemma try_from_expr_SomeE:
  assumes "try_from_expr env e tp = Some (Some f)"
  obtains left op v t where "e = BinaryExpr left op (Literal v False)" "filter_of_bound op t = Some f"
    "(\<exists>ms. v = TimestampMillisecond (Some ms) \<and> millis_to_datetime env ms = Some t) \<or>
     v = TimestampNanosecond (Some t) \<or> (\<exists>s. v = Utf8 (Some s) \<and> parse_datetime env s = Some t)"
proof (cases e)
  case (BinaryExpr left op right)
  with assms obtain op' t where
    "extract_timestamp_bound env left op right tp = Some (Some (op', t))" "filter_of_bound op' t = Some f"
    by (auto simp: Option.bind_eq_Some_conv)
  with BinaryExpr that show thesis
    by (auto simp: extract_timestamp_bound_def Let_def split: expr.splits scalar.splits option.splits
        bool.splits if_splits)
qed (use assms in auto)

text \<open>A row whose time column passes the filter satisfies the bound read from it.\<close>

lemma passes_satisfies:
  assumes "exact_millis env" and "try_from_expr env e tp = Some (Some f)"
    and "bounds_time_column env tp e" and "passes env other row e"
    and "row (time_column tp) = Some (IntCell ms)"
  shows "satisfies (millis ms) f"
proof -
  from assms(2) obtain left op v t where e: "e = BinaryExpr left op (Literal v False)"
    and f: "filter_of_bound op t = Some f"
    and v: "(\<exists>ms. v = TimestampMillisecond (Some ms) \<and> millis_to_datetime env ms = Some t) \<or>
     v = TimestampNanosecond (Some t) \<or> (\<exists>s. v = Utf8 (Some s) \<and> parse_datetime env s = Some t)"
    by (rule try_from_expr_SomeE)
  have left: "left = ColumnExpr (time_column tp)" using assms(2,3) by (simp add: bounds_time_column_def e del: try_from_expr.simps)
  have "meets env (Some (IntCell ms)) op v"
    using assms(4,5) filter_of_bound_comparison [OF f] by (simp add: passes_def e left)
  with v have "compares (millis ms) op t"
  proof (elim disjE exE conjE)
    fix n assume n: "v = TimestampMillisecond (Some n)" "millis_to_datetime env n = Some t"
    assume "meets env (Some (IntCell ms)) op v"
    then have "compares ms op n" by (simp add: n meets_def literal_value_def)
    moreover have "t = millis n" using assms(1) n(2) by (simp add: exact_millis_def)
    ultimately show ?thesis by (simp add: compares_millis)
  qed (simp_all add: meets_def)
  with f show ?thesis by (rule compares_bound)
qed

lemma extracted_filter:
  assumes "extract_primary_filter env filters tp = Some fs" and "f \<in> set fs"
  shows "\<exists>e \<in> set filters. try_from_expr env e tp = Some (Some f)"
proof -
  obtain rs where rs: "those (map (\<lambda>e. try_from_expr env e tp) filters) = Some rs" "fs = List.map_filter id rs"
    using assms(1) by (auto simp: extract_primary_filter_def)
  have "Some f \<in> set rs" using assms(2) rs(2) by (auto simp: List.map_filter_def)
  moreover have "set rs \<subseteq> {r. \<exists>e \<in> set filters. try_from_expr env e tp = Some r}"
    using rs(1)
  proof (induction filters arbitrary: rs)
    case Nil
    then show ?case by simp
  next
    case (Cons e es)
    then obtain r rs' where "try_from_expr env e tp = Some r" "rs = r # rs'"
      "those (map (\<lambda>e. try_from_expr env e tp) es) = Some rs'"
      by (auto split: option.splits)
    with Cons.IH show ?case by auto
  qed
  ultimately show ?thesis by blast
qed

lemma row_satisfies_filters:
  assumes "exact_millis env" and "extract_primary_filter env filters tp = Some fs"
    and "\<forall>e \<in> set filters. bounds_time_column env tp e \<and> passes env other row e"
    and "row (time_column tp) = Some (IntCell ms)"
  shows "\<forall>f \<in> set fs. satisfies (millis ms) f"
proof
  fix f assume "f \<in> set fs"
  with extracted_filter [OF assms(2)] obtain e where "e \<in> set filters" "try_from_expr env e tp = Some (Some f)"
    by blast
  with assms(3) show "satisfies (millis ms) f"
    using passes_satisfies [of env e tp f other row ms] assms(1,4) by blast
qed

section \<open>Splitting the range\<close>

lemma listing_filter_satisfies:
  "satisfies t f \<Longrightarrow> t < lower \<Longrightarrow> satisfies t (listing_filter lower f)"
  by (cases "(lower, f)" rule: listing_filter.cases) auto

lemma listing_filter_upper:
  "is_upper_filter f \<Longrightarrow> satisfies t (listing_filter lower f) \<Longrightarrow> t < lower"
  by (cases "(lower, f)" rule: listing_filter.cases) (auto split: if_splits)

lemma first_lower_bound_le:
  assumes "first_lower_bound items = Some lower" and "i \<in> set items"
  shows "lower \<le> time_lower_bound i"
proof -
  have le: "foldl min b bs \<le> x" if "\<exists>y \<in> insert b (set bs). y \<le> x" for b x :: datetime and bs
    using that by (induction bs arbitrary: b) (simp_all add: min_le_iff_disj disj_assoc)
  from assms show ?thesis
    by (auto simp: first_lower_bound_def split: list.splits intro!: le)
qed

text \<open>When a query reaches back before the first catalogued day, its range is split: an
  instant that satisfies the query's filters satisfies the filters of the listing when it lies
  before the day, and those of the catalog otherwise; when the query has an upper bound, no
  instant satisfies both.\<close>

theorem listing_split:
  assumes "return_listing_time_filters items filters = (Some listing, rest)"
    and "first_lower_bound items = Some lower"
    and "\<forall>f \<in> set filters. satisfies t f" and "list_ex is_upper_filter filters"
  shows "if t < lower
    then (\<forall>f \<in> set listing. satisfies t f) \<and> \<not> (\<forall>f \<in> set rest. satisfies t f)
    else (\<forall>f \<in> set rest. satisfies t f) \<and> \<not> (\<forall>f \<in> set listing. satisfies t f)"
proof -
  have eq: "listing = map (listing_filter lower) filters"
    "rest = Low (Included lower) # filter is_upper_filter filters"
    using assms(1,2) by (auto simp: return_listing_time_filters_def Let_def split: if_splits)
  obtain f where f: "f \<in> set filters" "is_upper_filter f" using assms(4) by (auto simp: list_ex_iff)
  then have "listing_filter lower f \<in> set listing" by (simp add: eq)
  with listing_filter_upper [OF f(2)] have "\<forall>f \<in> set listing. satisfies t f \<Longrightarrow> t < lower" by blast
  with assms(3) show ?thesis by (auto simp: eq listing_filter_satisfies)
qed

definition split_item :: manifest_item where
  "split_item = \<lparr>manifest_path = ''m'', time_lower_bound = 100, time_upper_bound = 199,
     item_events_ingested = 0, item_ingestion_size = 0, item_storage_size = 0\<rparr>"

theorem listing_split_witness:
  "satisfies 120 (Low (Included 100)) \<and> \<not> (\<forall>f \<in> set [Low (Included 50), High (Excluded 100)]. satisfies 120 f)"
proof -
  have run: "return_listing_time_filters [split_item] [Low (Included 50), High (Excluded 150)] =
      (Some [Low (Included 50), High (Excluded 100)], [Low (Included 100), High (Excluded 150)])"
    "first_lower_bound [split_item] = Some 100"
    by (simp_all add: return_listing_time_filters_def first_lower_bound_def split_item_def)
  show ?thesis using listing_split [OF run, of 120] by simp
qed

text \<open>Staging is read whenever it can hold an event of the answer: an instant of the last
  five minutes that satisfies the query's filters makes the scan read staging (the filters have
  no bound without an end; none is read from an expression).\<close>

theorem staging_is_read:
  assumes "\<forall>f \<in> set filters. satisfies t f \<and> f \<noteq> High Unbounded" and "five_minutes_back clock \<le> t"
  shows "is_within_staging_window clock filters"
proof -
  have "ends_after (five_minutes_back clock) f" if "f \<in> set filters" "is_high f" for f
    using that assms by (cases "(five_minutes_back clock, f)" rule: ends_after.cases) auto
  then show ?thesis by (auto simp: is_within_staging_window_def list_ex_iff)
qed

theorem staging_is_read_witness:
  "is_within_staging_window (10 * nanos_per_minute) [Low (Included 0), High (Excluded (7 * nanos_per_minute))]"
  by (rule staging_is_read [where t = "6 * nanos_per_minute"])
    (simp_all add: five_minutes_back_def truncate_minutes minutes_of_def nanos_defs)

section \<open>A scan misses no row\<close>

lemma collected_file:
  assumes "collect_from_snapshot env items tf filters None = Inr files"
    and "i \<in> set items" and "\<forall>p \<in> set tf. retains p i"
    and "get_manifest env i = Inr (Some fs)" and "f \<in> set fs"
    and "\<forall>e \<in> set filters. \<not> can_be_pruned f e"
  shows "f \<in> set files"
proof -
  obtain found where found: "map_result (get_manifest env) (manifests tf items) = Inr found"
    and files: "files = prune_files filters (rev (concat (List.map_filter id found)))"
    using assms(1) by (auto simp: collect_from_snapshot_def truncate_limit_def)
  have "i \<in> set (manifests tf items)" using assms(2,3) by (simp add: set_manifests)
  then have "Some fs \<in> set found" using found assms(4)
    by (auto simp: map_result_Inr_iff list_all2_conv_all_nth in_set_conv_nth)
  then have "f \<in> set (concat (List.map_filter id found))"
    using assms(5) by (auto simp: List.map_filter_def)
  with assms(6) show ?thesis by (simp add: files set_prune_files)
qed

lemma set_sort_descending [simp]: "set (sort_descending fs) = set fs"
  by (simp add: sort_descending_def)

lemma hot_tier_split:
  assumes "get_hot_tier_manifest_files tier wanted = (hot, cold)"
  shows "file_path ` set wanted = file_path ` set hot \<union> file_path ` set cold"
    and "file_path ` set hot \<inter> file_path ` set cold = {}"
proof -
  define found where "found = sort_descending (filter (\<lambda>f. \<exists>m \<in> set wanted. file_path m = file_path f) tier)"
  have hot: "hot = found"
    and cold: "cold = sort_descending (filter (\<lambda>m. \<forall>f \<in> set found. file_path f \<noteq> file_path m) wanted)"
    using assms unfolding get_hot_tier_manifest_files_def Let_def found_def [symmetric] by auto
  have found: "set hot = {f \<in> set tier. \<exists>m \<in> set wanted. file_path m = file_path f}"
    unfolding hot found_def by simp
  have rest: "set cold = {m \<in> set wanted. \<forall>f \<in> set hot. file_path f \<noteq> file_path m}"
    unfolding cold hot by simp
  show "file_path ` set hot \<inter> file_path ` set cold = {}" unfolding rest by blast
  have hot_sub: "file_path ` set hot \<subseteq> file_path ` set wanted"
  proof (rule image_subsetI)
    fix f assume "f \<in> set hot"
    then obtain m where "m \<in> set wanted" "file_path m = file_path f" using found by blast
    then show "file_path f \<in> file_path ` set wanted" by (metis imageI)
  qed
  have "file_path m \<in> file_path ` set hot \<union> file_path ` set cold" if "m \<in> set wanted" for m
  proof (cases "\<exists>f \<in> set hot. file_path f = file_path m")
    case True
    then show ?thesis by (metis UnI1 imageI)
  next
    case False
    then have "m \<in> set cold" using that rest by blast
    then show ?thesis by blast
  qed
  with hot_sub rest show "file_path ` set wanted = file_path ` set hot \<union> file_path ` set cold" by blast
qed

lemma read_files_paths:
  assumes "read_files env staging dirs files = Inr plan"
  shows "file_path ` (set (hot_files plan) \<union> set (cold_files plan)) = file_path ` set files"
proof (cases "files = [] \<or> hot_tier_files env = None")
  case True
  with assms show ?thesis by (auto simp: read_files_def split: if_splits)
next
  case False
  with assms obtain tier where tier: "hot_tier_files env = Some (Inr tier)"
    by (auto simp: read_files_def split: option.splits)
  obtain hot cold where split: "get_hot_tier_manifest_files tier files = (hot, cold)" by force
  with assms False tier have "hot_files plan = hot" "cold_files plan = cold"
    by (auto simp: read_files_def)
  with hot_tier_split(1) [OF split] show ?thesis by (simp add: image_Un)
qed

lemma filters_kept:
  assumes "(if is_overlapping_query items fs then return_listing_time_filters items fs else (None, fs)) =
      (listing, fs')"
    and "i \<in> set items" and "time_lower_bound i \<le> t" and "t \<le> time_upper_bound i"
    and "\<forall>f \<in> set fs. satisfies t f"
  shows "\<forall>f \<in> set fs'. retains f i"
proof -
  obtain lower where lower: "first_lower_bound items = Some lower"
    using assms(2) by (cases "first_lower_bound items") (auto simp: first_lower_bound_def split: list.splits)
  have "lower \<le> t" using first_lower_bound_le [OF lower assms(2)] assms(3) by simp
  then have "\<forall>f \<in> set fs'. satisfies t f"
    using assms(1,5) lower by (auto simp: return_listing_time_filters_def Let_def split: if_splits)
  with satisfies_retains [OF assms(3,4)] show ?thesis by blast
qed

text \<open>C3: A scan misses no row of the catalog: for a row that passes every filter of the query, in a
  file listed by the manifest of an entry whose range holds the row's time, a scan that is planned
  reads that file from the hot tier or from the store. This needs that the statistics of the file
  cover the row, that milliseconds are converted to times exactly, that filters that bound a time
  are on the stream's time column, that unsigned constants are less than \<open>2 ^ 63\<close>, and that no
  limit is set.\<close>

theorem scan_reads_row:
  assumes "scan env stream filters None = Some (Inr plan)"
    and "exact_millis (query_env.truncate env)"
    and "\<forall>e \<in> set filters. passes (query_env.truncate env) other row e \<and> literal_fits e \<and>
      bounds_time_column (query_env.truncate env) (own_time_partition env) e"
    and "row (time_column (own_time_partition env)) = Some (IntCell ms)"
    and "i \<in> set (merged_items env)" and "time_lower_bound i \<le> millis ms" and "millis ms \<le> time_upper_bound i"
    and "get_manifest env i = Inr (Some fs)" and "f \<in> set fs" and "holds_row f row"
  shows "\<exists>g \<in> set (hot_files plan) \<union> set (cold_files plan). file_path g = file_path f"
proof -
  let ?qe = "query_env.truncate env"
  obtain tf where tf: "extract_primary_filter ?qe filters (own_time_partition env) = Some tf"
    using assms(1) by (auto simp: scan_def split: option.splits)
  obtain listing tf' where split: "(if is_overlapping_query (merged_items env) tf
      then return_listing_time_filters (merged_items env) tf else (None, tf)) = (listing, tf')"
    by force
  obtain files staging dirs where files: "collect_from_snapshot env (merged_items env) tf' filters None = Inr files"
    and plan: "read_files env staging dirs files = Inr plan"
    using assms(1) by (auto simp: scan_def tf split Let_def split: option.splits)
  have "\<forall>g \<in> set tf. satisfies (millis ms) g"
    by (rule row_satisfies_filters [where row = row, OF assms(2) tf _ assms(4)]) (use assms(3) in blast)
  then have "\<forall>g \<in> set tf'. retains g i" by (rule filters_kept [OF split assms(5-7)])
  moreover have "\<forall>e \<in> set filters. \<not> can_be_pruned f e" using pruned_fails [OF assms(10)] assms(3) by blast
  ultimately have "f \<in> set files" using collected_file [OF files assms(5) _ assms(8,9)] by blast
  with read_files_paths [OF plan] show ?thesis by (metis imageE imageI)
qed

definition scan_file :: manifest_file where
  "scan_file = \<lparr>file_path = ''f'', num_rows = 1, file_size = 1, ingestion_size = 1,
     file_columns = [\<lparr>col_name = ''p_timestamp'', col_stats = Some (IntStats 5 9),
       col_uncompressed_size = 1, col_compressed_size = 1\<rparr>], sort_order_id = []\<rparr>"

definition scan_item :: manifest_item where
  "scan_item = \<lparr>manifest_path = ''m'', time_lower_bound = 0, time_upper_bound = millis 100,
     item_events_ingested = 1, item_ingestion_size = 1, item_storage_size = 1\<rparr>"

definition sample_scan_env :: scan_env where
  "sample_scan_env = \<lparr>millis_to_datetime = \<lambda>v. Some (millis v), parse_datetime = Map.empty,
     is_query_node = False, own_time_partition = None, own_items = [scan_item], nodes = None,
     get_manifest = \<lambda>_. Inr (Some [scan_file]), list_dirs = \<lambda>_. Inr [], clock_now = 0,
     day_text = \<lambda>_. [], hot_tier_files = Some (Inr [scan_file]), cpus = 1\<rparr>"

definition sample_row :: row where
  "sample_row = [''p_timestamp'' \<mapsto> IntCell 7, ''seen_at'' \<mapsto> IntCell 900]"

definition since :: "string \<Rightarrow> int \<Rightarrow> expr" where
  "since name v = BinaryExpr (ColumnExpr name) OpGtEq (Literal (TimestampMillisecond (Some v)) False)"

lemma sample_scan_run:
  "scan sample_scan_env ''demo'' [since ''p_timestamp'' 6] None =
     Some (Inr \<lparr>reads_staging = True, listed_dirs = [], hot_files = [scan_file], cold_files = []\<rparr>)"
  by (simp add: scan_def sample_scan_env_def since_def extract_primary_filter_def List.map_filter_def
      extract_timestamp_bound_def query_env.defs merged_items_def is_overlapping_query_def Let_def
      first_lower_bound_def scan_item_def millis_def is_within_staging_window_def
      collect_from_snapshot_def manifests_def truncate_limit_def prune_files_def can_be_pruned_def
      scan_file_def read_files_def get_hot_tier_manifest_files_def sort_descending_def)

theorem scan_reads_row_witness:
  "\<exists>g \<in> set [scan_file] \<union> set []. file_path g = file_path scan_file"
proof -
  have time: "time_column (own_time_partition sample_scan_env) = ''p_timestamp''"
    by (simp add: time_column_def sample_scan_env_def default_timestamp_key_def)
  have exact: "exact_millis (query_env.truncate sample_scan_env)"
    by (simp add: exact_millis_def sample_scan_env_def query_env.defs)
  have filters: "\<forall>e \<in> set [since ''p_timestamp'' 6].
      passes (query_env.truncate sample_scan_env) (\<lambda>_. True) sample_row e \<and> literal_fits e \<and>
      bounds_time_column (query_env.truncate sample_scan_env) (own_time_partition sample_scan_env) e"
    unfolding bounds_time_column_def time
    by (simp add: passes_def since_def meets_def literal_value_def is_comparison_def sample_row_def literal_fits_def
        extract_timestamp_bound_def sample_scan_env_def query_env.defs)
  have "\<exists>g \<in> set (hot_files \<lparr>reads_staging = True, listed_dirs = [], hot_files = [scan_file], cold_files = []\<rparr>) \<union>
      set (cold_files \<lparr>reads_staging = True, listed_dirs = [], hot_files = [scan_file], cold_files = []\<rparr>).
      file_path g = file_path scan_file"
    by (rule scan_reads_row [OF sample_scan_run exact filters, where ms = 7 and i = scan_item and fs = "[scan_file]"])
      (simp_all add: time_column_def default_timestamp_key_def sample_row_def merged_items_def
        sample_scan_env_def scan_item_def millis_def holds_row_def, simp add: scan_file_def)
  then show ?thesis by simp
qed

text \<open>The bound on unsigned constants is needed: a constant of \<open>2 ^ 63\<close> or more is read as a
  negative number, so a file whose values are all less than the constant is pruned.\<close>

theorem large_unsigned_prunes:
  assumes "2 ^ 63 \<le> n" and "n < 2 ^ 64" and "0 \<le> lo" and "lo \<le> w" and "w < 2 ^ 63"
    and "List.find (\<lambda>c. col_name c = name) (file_columns f) = Some col" and "col_stats col = Some (IntStats lo hi)"
    and "row name = Some (IntCell w)"
  shows "passes env other row (BinaryExpr (ColumnExpr name) OpLt (Literal (UInt64 (Some n)) False)) \<and>
    can_be_pruned f (BinaryExpr (ColumnExpr name) OpLt (Literal (UInt64 (Some n)) False))"
proof -
  have "(n + 2 ^ 63) mod 2 ^ 64 = (n - 2 ^ 63 + 2 ^ 64) mod 2 ^ 64" by (simp add: algebra_simps)
  also have "\<dots> = n - 2 ^ 63" unfolding mod_add_self2 using assms(1,2) by (intro mod_pos_pos_trivial) simp_all
  finally have "u64_as_i64 n = n - 2 ^ 64" by (simp add: u64_as_i64_def)
  moreover from this have "u64_as_i64 n < lo" using assms(2,3) by simp
  ultimately show ?thesis using assms
    by (simp add: passes_def is_comparison_def meets_def literal_value_def can_be_pruned_def)
qed

text \<open>A constant timestamp bounds the time of the query whatever column it is compared with: for a
  filter that asks for a column from some time on, when every catalogued entry ends before that
  time the scan reads no file, even of rows that pass the filter.\<close>

theorem other_column_hides_rows:
  assumes "millis_to_datetime (query_env.truncate env) v = Some t" and "merged_items env \<noteq> []"
    and "\<forall>i \<in> set (merged_items env). time_lower_bound i \<le> time_upper_bound i \<and> time_upper_bound i < t"
    and "row name = Some (IntCell w)" and "v \<le> w"
  shows "passes (query_env.truncate env) other row (since name v) \<and>
    scan env stream [since name v] limit =
      Some (Inr \<lparr>reads_staging = True, listed_dirs = [], hot_files = [], cold_files = []\<rparr>)"
proof
  show "passes (query_env.truncate env) other row (since name v)"
    using assms(4,5) by (simp add: passes_def since_def meets_def literal_value_def is_comparison_def)
  have got: "extract_primary_filter (query_env.truncate env) [since name v] (own_time_partition env) =
      Some [Low (Included t)]"
    using assms(1) by (simp add: extract_primary_filter_def since_def extract_timestamp_bound_def
        List.map_filter_def)
  obtain lower where lower: "first_lower_bound (merged_items env) = Some lower"
    using assms(2) by (cases "merged_items env") (auto simp: first_lower_bound_def)
  obtain i where i: "i \<in> set (merged_items env)" using assms(2) by (cases "merged_items env") auto
  have "\<not> t < lower" using first_lower_bound_le [OF lower i] assms(3) i by force
  then have "\<not> is_overlapping_query (merged_items env) [Low (Included t)]"
    by (simp add: is_overlapping_query_def lower)
  moreover have "manifests [Low (Included t)] (merged_items env) = []"
    using assms(3) by (force simp: set_empty [symmetric] set_manifests simp del: set_empty)
  ultimately show "scan env stream [since name v] limit =
      Some (Inr \<lparr>reads_staging = True, listed_dirs = [], hot_files = [], cold_files = []\<rparr>)"
    by (simp add: scan_def got is_within_staging_window_def collect_from_snapshot_def
        List.map_filter_def prune_files_def truncate_limit_def read_files_def split: option.splits)
qed

theorem other_column_hides_rows_witness:
  "passes (query_env.truncate sample_scan_env) (\<lambda>_. True) sample_row (since ''seen_at'' 800) \<and>
   scan sample_scan_env ''demo'' [since ''seen_at'' 800] None =
     Some (Inr \<lparr>reads_staging = True, listed_dirs = [], hot_files = [], cold_files = []\<rparr>)"
  by (rule other_column_hides_rows [where t = "millis 800" and w = 900])
    (simp_all add: sample_scan_env_def query_env.defs merged_items_def scan_item_def millis_def sample_row_def)

section \<open>Partitions and limits\<close>

lemma deal_files_length [simp]: "length (deal_files n i fs parts) = length parts"
  by (induction fs arbitrary: i parts) simp_all

lemma deal_files_nth:
  "length parts = n \<Longrightarrow> j < n \<Longrightarrow>
   deal_files n i fs parts ! j = parts ! j @ map snd (filter (\<lambda>(k, _). k mod n = j) (enumerate i fs))"
proof (induction fs arbitrary: i parts)
  case Nil
  then show ?case by simp
next
  case (Cons f fs)
  then have "i mod n < n" by simp
  with Cons show ?case by (auto simp: nth_list_update)
qed

text \<open>The \<open>k\<close>-th file is read by processor \<open>k mod n\<close>, in order.\<close>

lemma partitioned_files_nth:
  assumes "partitioned_files n files = Some (parts, stats, count)" and "j < n"
  shows "parts ! j = map snd (filter (\<lambda>(k, _). k mod n = j) (enumerate 0 files))"
  using assms deal_files_nth [of "replicate n []" n j 0 files]
  by (auto simp: partitioned_files_def split: if_splits)

text \<open>A limit keeps the first files, as many as reach it and no more.\<close>

lemma limit_position_Some:
  "limit_position n acc fs = Some k \<Longrightarrow>
   k < length fs \<and> n \<le> acc + sum_list (map num_rows (take (Suc k) fs)) \<and>
   (k = 0 \<or> acc + sum_list (map num_rows (take k fs)) < n)"
proof (induction fs arbitrary: acc k)
  case Nil
  then show ?case by simp
next
  case (Cons f fs)
  show ?case
  proof (cases "acc + num_rows f \<ge> n")
    case True
    then show ?thesis using Cons.prems by auto
  next
    case False
    then obtain k' where k': "k = Suc k'" "limit_position n (acc + num_rows f) fs = Some k'"
      using Cons.prems by auto
    from Cons.IH [OF k'(2)] False k'(1) show ?thesis by (cases k') auto
  qed
qed

lemma truncate_limit_enough:
  assumes "truncate_limit (Some n) fs \<noteq> fs"
  shows "n \<le> sum_list (map num_rows (truncate_limit (Some n) fs))"
  using assms limit_position_Some [of n 0 fs] by (auto simp: truncate_limit_def split: option.splits)

end
