(* ===== verification/Query_Counts.thy ===== *)
theory Query_Counts
  imports Query_Pruning Json
begin

text \<open>
  \<open>src/query/mod.rs\<close> and the count query of \<open>src/handlers/http/query.rs\<close>: the bins of a counts
  request, the rows counted in each from the manifests, the plans that are answered from the
  manifests alone, and the time filters added to a plan.
\<close>

section \<open>Bins\<close>

record bin =
  bin_start :: datetime
  bin_end :: datetime

text \<open>Chrono counts whole minutes towards zero; the cast to an unsigned number wraps.\<close>

definition num_minutes :: "int \<Rightarrow> int" where
  "num_minutes d = (if d < 0 then - (- d div nanos_per_minute) else d div nanos_per_minute)"

definition total_minutes :: "time_range \<Rightarrow> nat" where
  "total_minutes r = nat (num_minutes (tr_end r - tr_start r) mod 2 ^ 64)"

definition div_ceil :: "nat \<Rightarrow> nat \<Rightarrow> nat" where
  "div_ceil a b = (if a mod b = 0 then a div b else a div b + 1)"

definition default_bins :: "nat \<Rightarrow> nat" where
  "default_bins mins =
     (if mins \<le> 60 * 5 then mins
      else if mins \<le> 60 * 24 then div_ceil mins 5
      else if mins \<le> 60 * 24 * 10 then div_ceil mins 60
      else div_ceil mins 1440)"

definition minutes :: "nat \<Rightarrow> int" where
  "minutes n = int n * nanos_per_minute"

fun push_bins :: "nat \<Rightarrow> nat \<Rightarrow> datetime \<Rightarrow> bin list \<times> datetime" where
  "push_bins 0 quot start = ([], start)"
| "push_bins (Suc n) quot start =
     (let stop = start + minutes quot; (bins, start') = push_bins n quot stop
      in (\<lparr>bin_start = start, bin_end = stop\<rparr> # bins, start'))"

text \<open>\<open>None\<close> is the panic of a division by zero.\<close>

definition get_bounds :: "nat option \<Rightarrow> time_range \<Rightarrow> bin list option" where
  "get_bounds num_bins r =
     (let mins = total_minutes r;
          n = (case num_bins of Some n \<Rightarrow> n | None \<Rightarrow> default_bins mins)
      in if n = 0 then None
         else let quot = mins div n; remainder = mins mod n;
                  (bins, start) = push_bins (if remainder > 0 then n else n - 1) quot (tr_start r)
              in Some (bins @ [\<lparr>bin_start = start,
                   bin_end = start + minutes (if remainder > 0 then remainder else quot)\<rparr>]))"

section \<open>Counting rows\<close>

text \<open>The manifests of a time range; a missing one is an error.\<close>

definition get_manifest_list ::
  "scan_env \<Rightarrow> time_range \<Rightarrow> string + manifest_file list list" where
  "get_manifest_list env r =
     map_result (\<lambda>item. bind_result (get_manifest env item)
         (\<lambda>m. case m of Some files \<Rightarrow> Inr files | None \<Rightarrow> Inl ''Manifest not found''))
       (manifests [Low (Included (tr_start r)), High (Included (tr_end r))] (merged_items env))"

text \<open>A file belongs to a bin by the smallest time in it; a panic is \<open>None\<close>.\<close>

fun column_in_bin :: "query_env \<Rightarrow> string \<Rightarrow> bin \<Rightarrow> column list \<Rightarrow> bool option" where
  "column_in_bin env tp b [] = Some False"
| "column_in_bin env tp b (c # cs) =
     (if col_name c = tp
      then (case col_stats c of
              Some (IntStats lo hi) \<Rightarrow>
                (case millis_to_datetime env lo of
                   None \<Rightarrow> None
                 | Some t \<Rightarrow> if bin_start b \<le> t \<and> bin_end b \<ge> t then Some True else column_in_bin env tp b cs)
            | _ \<Rightarrow> column_in_bin env tp b cs)
      else column_in_bin env tp b cs)"

fun count_bin :: "query_env \<Rightarrow> string \<Rightarrow> bin \<Rightarrow> manifest_file list \<Rightarrow> nat option" where
  "count_bin env tp b [] = Some 0"
| "count_bin env tp b (f # fs) =
     (case column_in_bin env tp b (file_columns f) of
        None \<Rightarrow> None
      | Some counted \<Rightarrow>
          map_option (\<lambda>rest. (if counted then num_rows f else 0) + rest) (count_bin env tp b fs))"

datatype counts_error = Metastore string | CountsPanic

definition get_bin_density ::
  "scan_env \<Rightarrow> nat option \<Rightarrow> time_range \<Rightarrow> counts_error + (bin \<times> nat) list" where
  "get_bin_density env num_bins r =
     (case get_manifest_list env r of
        Inl e \<Rightarrow> Inl (Metastore e)
      | Inr found \<Rightarrow>
          (case get_bounds num_bins r of
             None \<Rightarrow> Inl CountsPanic
           | Some bins \<Rightarrow>
               (case those (map (\<lambda>b. map_option (Pair b)
                    (count_bin (query_env.truncate env) (time_column (own_time_partition env)) b
                       (concat found))) bins) of
                  None \<Rightarrow> Inl CountsPanic
                | Some counts \<Rightarrow> Inr counts)))"

section \<open>Plans\<close>

text \<open>The plans that the code looks into; a table scan keeps the filters pushed into it.\<close>

datatype plan =
    TableScan string "expr list"
  | FilterPlan expr plan
  | Projection "expr list" plan
  | Aggregate "expr list" "expr list" plan
  | OtherPlan "plan list"

text \<open>The name under which a plain count is returned, for a plan that is one.\<close>

definition is_count_column :: "expr \<Rightarrow> string option" where
  "is_count_column e =
     (case e of ColumnExpr name \<Rightarrow> if to_lowercase name = ''count(*)'' then Some name else None | _ \<Rightarrow> None)"

fun is_logical_plan_count_without_filters :: "plan \<Rightarrow> string option" where
  "is_logical_plan_count_without_filters (Projection [e] (Aggregate group_exprs aggr (TableScan table filters))) =
     (case e of
        ColumnExpr name \<Rightarrow> is_count_column e
      | AliasExpr inner_expr alias_name \<Rightarrow> map_option (\<lambda>_. alias_name) (is_count_column inner_expr)
      | _ \<Rightarrow> None)"
| "is_logical_plan_count_without_filters _ = None"

text \<open>The answer to such a plan: one record with the count of a single bin.\<close>

definition handle_count_query ::
  "scan_env \<Rightarrow> string \<Rightarrow> time_range \<Rightarrow> counts_error + (string \<times> nat)" where
  "handle_count_query env column_name r =
     bind_result (get_bin_density env (Some 1) r) (\<lambda>counts. Inr (column_name, snd (hd counts)))"

text \<open>Time filters of a table scan, and the filters added to a scan without them.\<close>

definition table_contains_any_time_filters :: "expr list \<Rightarrow> string option \<Rightarrow> bool" where
  "table_contains_any_time_filters filters time_partition =
     list_ex (\<lambda>e. case e of
         BinaryExpr (ColumnExpr name) op right \<Rightarrow>
           name = default_timestamp_key \<or> name = time_column time_partition
       | _ \<Rightarrow> False) filters"

fun transform :: "(string \<Rightarrow> string option) \<Rightarrow> datetime \<Rightarrow> datetime \<Rightarrow> plan \<Rightarrow> plan" where
  "transform partition_of start stop (TableScan table filters) =
     (let tp = partition_of table in
      if table_contains_any_time_filters filters tp then TableScan table filters
      else case (binary_expr (Low (Included start)) (ColumnExpr (time_column tp)),
                 binary_expr (High (Excluded stop)) (ColumnExpr (time_column tp))) of
             (Some low, Some high) \<Rightarrow> FilterPlan (BinaryExpr low OpAnd high) (TableScan table filters)
           | _ \<Rightarrow> TableScan table filters)"
| "transform partition_of start stop (FilterPlan e p) = FilterPlan e (transform partition_of start stop p)"
| "transform partition_of start stop (Projection es p) = Projection es (transform partition_of start stop p)"
| "transform partition_of start stop (Aggregate gs es p) = Aggregate gs es (transform partition_of start stop p)"
| "transform partition_of start stop (OtherPlan ps) = OtherPlan (map (transform partition_of start stop) ps)"

section \<open>Bins tile the range\<close>

lemma minutes_add: "minutes (m + n) = minutes m + minutes n"
  by (simp add: minutes_def algebra_simps)

lemma minutes_0 [simp]: "minutes 0 = 0"
  by (simp add: minutes_def)

lemma push_bins_eq:
  "push_bins n q s =
     (map (\<lambda>i. \<lparr>bin_start = s + minutes (i * q), bin_end = s + minutes (Suc i * q)\<rparr>) [0..<n], s + minutes (n * q))"
proof (induction n arbitrary: s)
  case 0
  then show ?case by simp
next
  case (Suc n)
  show ?case by (simp add: Suc.IH Let_def map_upt_Suc minutes_add add.assoc del: upt_Suc)
qed

lemma get_bounds_eq:
  assumes "get_bounds num_bins r = Some bs"
  obtains n q rest where "n \<noteq> 0" "q * n + rest = total_minutes r" "rest < n"
    "n = (case num_bins of Some n \<Rightarrow> n | None \<Rightarrow> default_bins (total_minutes r))"
    "bs = map (\<lambda>i. \<lparr>bin_start = tr_start r + minutes (i * q), bin_end = tr_start r + minutes (Suc i * q)\<rparr>) [0..<n]
       @ (if rest > 0 then [\<lparr>bin_start = tr_start r + minutes (n * q), bin_end = tr_start r + minutes (n * q + rest)\<rparr>]
          else [])"
proof -
  define n where "n = (case num_bins of Some n \<Rightarrow> n | None \<Rightarrow> default_bins (total_minutes r))"
  have n: "n \<noteq> 0" using assms by (auto simp: get_bounds_def Let_def n_def split: if_splits)
  define q where "q = total_minutes r div n"
  define rest where "rest = total_minutes r mod n"
  have bs: "bs = map (\<lambda>i. \<lparr>bin_start = tr_start r + minutes (i * q), bin_end = tr_start r + minutes (Suc i * q)\<rparr>)
      [0..<if rest > 0 then n else n - 1]
      @ [\<lparr>bin_start = tr_start r + minutes ((if rest > 0 then n else n - 1) * q),
          bin_end = tr_start r + minutes ((if rest > 0 then n else n - 1) * q) + minutes (if rest > 0 then rest else q)\<rparr>]"
    using assms n unfolding get_bounds_def Let_def n_def [symmetric] q_def [symmetric] rest_def [symmetric]
    by (simp add: push_bins_eq)
  have "bs = map (\<lambda>i. \<lparr>bin_start = tr_start r + minutes (i * q), bin_end = tr_start r + minutes (Suc i * q)\<rparr>) [0..<n]
       @ (if rest > 0 then [\<lparr>bin_start = tr_start r + minutes (n * q), bin_end = tr_start r + minutes (n * q + rest)\<rparr>]
          else [])"
  proof (cases "rest > 0")
    case True
    then show ?thesis by (simp add: bs minutes_add add.assoc)
  next
    case False
    obtain m where m: "n = Suc m" using n not0_implies_Suc by blast
    show ?thesis using False by (simp add: bs m minutes_add add_ac)
  qed
  moreover have "q * n + rest = total_minutes r" "rest < n" using n by (simp_all add: q_def rest_def)
  ultimately show thesis using that n n_def by blast
qed

lemma minute_index:
  assumes "0 \<le> t - s"
  shows "s + minutes a \<le> t \<and> t < s + minutes b \<longleftrightarrow>
    a \<le> nat ((t - s) div nanos_per_minute) \<and> nat ((t - s) div nanos_per_minute) < b"
proof -
  define d where "d = t - s"
  have pos: "0 < nanos_per_minute" by (simp add: nanos_defs)
  have le: "minutes a \<le> d \<longleftrightarrow> int a \<le> d div nanos_per_minute" for a
  proof
    assume "minutes a \<le> d"
    from zdiv_mono1 [OF this pos] show "int a \<le> d div nanos_per_minute" using pos by (simp add: minutes_def)
  next
    assume "int a \<le> d div nanos_per_minute"
    then have "minutes a \<le> d div nanos_per_minute * nanos_per_minute"
      unfolding minutes_def using pos by (intro mult_right_mono) simp_all
    also have "... \<le> d" using pos pos_mod_sign [OF pos, of d] div_mult_mod_eq [of d nanos_per_minute] by linarith
    finally show "minutes a \<le> d" .
  qed
  have "0 \<le> d div nanos_per_minute" using assms pos by (simp add: d_def pos_imp_zdiv_nonneg_iff)
  with le [of a] le [of b] show ?thesis unfolding d_def by linarith
qed

lemma total_minutes_range:
  assumes "tr_start r \<le> tr_end r" and "(tr_end r - tr_start r) mod nanos_per_minute = 0"
    and "tr_end r - tr_start r < 2 ^ 63 * nanos_per_minute"
  shows "tr_end r = tr_start r + minutes (total_minutes r)"
proof -
  define d where "d = (tr_end r - tr_start r) div nanos_per_minute"
  have pos: "0 < nanos_per_minute" by (simp add: nanos_defs)
  have d: "tr_end r - tr_start r = d * nanos_per_minute" using assms(2) by (simp add: d_def dvd_eq_mod_eq_0)
  moreover have "0 \<le> d" using assms(1) pos by (simp add: d_def pos_imp_zdiv_nonneg_iff)
  moreover have "d < 2 ^ 64" using assms(3) pos unfolding d by simp
  ultimately have "total_minutes r = nat d"
    using assms(1) pos by (simp add: total_minutes_def num_minutes_def)
  then show ?thesis using d \<open>0 \<le> d\<close> by (simp add: minutes_def)
qed

text \<open>C39: The bins of a counts request tile its range: every instant of a range of whole minutes lies
  in exactly one bin, its start included and its end excluded, whatever the number of bins.\<close>

theorem bins_tile_range:
  assumes "get_bounds num_bins r = Some bs" and "tr_start r \<le> t" and "t < tr_end r"
    and "(tr_end r - tr_start r) mod nanos_per_minute = 0"
    and "tr_end r - tr_start r < 2 ^ 63 * nanos_per_minute"
  shows "\<exists>!i. i < length bs \<and> bin_start (bs ! i) \<le> t \<and> t < bin_end (bs ! i)"
proof -
  obtain n q rest where n: "n \<noteq> 0" "q * n + rest = total_minutes r" "rest < n" and
    bs: "bs = map (\<lambda>i. \<lparr>bin_start = tr_start r + minutes (i * q), bin_end = tr_start r + minutes (Suc i * q)\<rparr>) [0..<n]
       @ (if rest > 0 then [\<lparr>bin_start = tr_start r + minutes (n * q), bin_end = tr_start r + minutes (n * q + rest)\<rparr>]
          else [])"
    by (rule get_bounds_eq [OF assms(1)])
  define m where "m = nat ((t - tr_start r) div nanos_per_minute)"
  note index = minute_index [of t "tr_start r", folded m_def]
  have "t < tr_start r + minutes (total_minutes r)" using assms total_minutes_range by auto
  then have m: "m < n * q + rest" using index [of 0] assms(2) n(2) by (simp add: mult.commute)
  have in_bin: "i < length bs \<and> bin_start (bs ! i) \<le> t \<and> t < bin_end (bs ! i) \<longleftrightarrow>
      (i < n \<and> i * q \<le> m \<and> m < Suc i * q) \<or> (i = n \<and> n * q \<le> m)" for i
  proof (cases "i < n")
    case True
    then show ?thesis using index [of "i * q" "Suc i * q"] assms(2) by (simp add: bs nth_append)
  next
    case False
    then show ?thesis using index [of "n * q" "n * q + rest"] assms(2) m
      by (cases "i = n") (auto simp: bs nth_append)
  qed
  show ?thesis unfolding in_bin
  proof (cases "m < n * q")
    case True
    then have q: "q > 0" by (cases q) auto
    have "m div q < n" using True q by (simp add: div_less_iff_less_mult)
    moreover have "m div q * q \<le> m" "m < Suc (m div q) * q"
      using q by (simp_all add: dividend_less_div_times)
    moreover have "i = m div q" if "i * q \<le> m" "m < Suc i * q" for i
      using that by (metis div_nat_eqI mult.commute)
    ultimately show "\<exists>!i. i < n \<and> i * q \<le> m \<and> m < Suc i * q \<or> i = n \<and> n * q \<le> m"
      using True by (intro ex1I [of _ "m div q"]) auto
  next
    case False
    have "\<not> (i < n \<and> m < Suc i * q)" for i
    proof
      assume "i < n \<and> m < Suc i * q"
      then have "Suc i * q \<le> n * q" by (intro mult_le_mono1) simp
      with \<open>i < n \<and> m < Suc i * q\<close> False show False by linarith
    qed
    with False show "\<exists>!i. i < n \<and> i * q \<le> m \<and> m < Suc i * q \<or> i = n \<and> n * q \<le> m"
      by (intro ex1I [of _ n]) auto
  qed
qed

definition ten_minutes :: time_range where
  "ten_minutes = \<lparr>tr_start = 0, tr_end = 10 * nanos_per_minute\<rparr>"

lemma ten_minutes_total: "total_minutes ten_minutes = 10"
  by (simp add: total_minutes_def num_minutes_def ten_minutes_def nanos_defs)

lemma ten_minutes_bounds:
  "get_bounds (Some 3) ten_minutes = Some
     [\<lparr>bin_start = 0, bin_end = minutes 3\<rparr>, \<lparr>bin_start = minutes 3, bin_end = minutes 6\<rparr>,
      \<lparr>bin_start = minutes 6, bin_end = minutes 9\<rparr>, \<lparr>bin_start = minutes 9, bin_end = minutes 10\<rparr>]"
  unfolding get_bounds_def ten_minutes_total
  by (simp add: push_bins_eq Let_def upt_rec ten_minutes_def) (simp add: minutes_def)

theorem bins_tile_range_witness:
  "\<exists>!i. i < length [\<lparr>bin_start = 0, bin_end = minutes 3\<rparr>, \<lparr>bin_start = minutes 3, bin_end = minutes 6\<rparr>,
      \<lparr>bin_start = minutes 6, bin_end = minutes 9\<rparr>, \<lparr>bin_start = minutes 9, bin_end = minutes 10\<rparr>] \<and>
    bin_start ([\<lparr>bin_start = 0, bin_end = minutes 3\<rparr>, \<lparr>bin_start = minutes 3, bin_end = minutes 6\<rparr>,
      \<lparr>bin_start = minutes 6, bin_end = minutes 9\<rparr>, \<lparr>bin_start = minutes 9, bin_end = minutes 10\<rparr>] ! i) \<le> 5 \<and>
    5 < bin_end ([\<lparr>bin_start = 0, bin_end = minutes 3\<rparr>, \<lparr>bin_start = minutes 3, bin_end = minutes 6\<rparr>,
      \<lparr>bin_start = minutes 6, bin_end = minutes 9\<rparr>, \<lparr>bin_start = minutes 9, bin_end = minutes 10\<rparr>] ! i)"
  by (rule bins_tile_range [OF ten_minutes_bounds]) (simp_all add: ten_minutes_def nanos_defs)

text \<open>A request for a number of bins gets one bin more when the minutes of the range are not a
  multiple of it; and it panics when it asks for no bin, as does one that leaves the number open
  on a range of less than a minute.\<close>

theorem number_of_bins:
  "map_option length (get_bounds num_bins r) =
     (let n = (case num_bins of Some n \<Rightarrow> n | None \<Rightarrow> default_bins (total_minutes r)) in
      if n = 0 then None else Some (if total_minutes r mod n = 0 then n else n + 1)) \<and>
   (default_bins (total_minutes r) = 0 \<longleftrightarrow> total_minutes r = 0)"
  by (auto simp: get_bounds_def Let_def push_bins_eq default_bins_def div_ceil_def)

text \<open>A file whose smallest time is known.\<close>

definition starts_at :: "string \<Rightarrow> int \<Rightarrow> manifest_file \<Rightarrow> bool" where
  "starts_at tp ms f \<longleftrightarrow> (\<exists>col hi. file_columns f = [col] \<and> col_name col = tp \<and> col_stats col = Some (IntStats ms hi))"

lemma starts_at_in_bin:
  assumes "starts_at tp ms f" and "millis_to_datetime env ms = Some t"
  shows "column_in_bin env tp b (file_columns f) = Some (bin_start b \<le> t \<and> t \<le> bin_end b)"
  using assms by (auto simp: starts_at_def)

lemma count_bin_total:
  assumes "\<forall>f \<in> set fs. \<exists>ms. starts_at tp ms f \<and> millis_to_datetime env ms = Some (begins f)"
  shows "count_bin env tp b fs =
    Some (sum_list (map num_rows (filter (\<lambda>f. bin_start b \<le> begins f \<and> begins f \<le> bin_end b) fs)))"
  using assms
proof (induction fs)
  case Nil
  then show ?case by simp
next
  case (Cons f fs)
  then obtain ms where "starts_at tp ms f" "millis_to_datetime env ms = Some (begins f)" by auto
  from starts_at_in_bin [OF this] Cons show ?case by simp
qed

text \<open>A plain count is the number of rows of the files whose smallest time lies between the start
  and the end of the range, both included: a file that begins at the end, which the range
  excludes, is counted in full.\<close>

theorem plain_count_includes_end:
  assumes "get_manifest_list env r = Inr found"
    and "\<forall>f \<in> set (concat found). \<exists>ms. starts_at (time_column (own_time_partition env)) ms f \<and>
      millis_to_datetime (query_env.truncate env) ms = Some (begins f)"
    and "tr_start r \<le> tr_end r" and "(tr_end r - tr_start r) mod nanos_per_minute = 0"
    and "tr_end r - tr_start r < 2 ^ 63 * nanos_per_minute"
  shows "handle_count_query env name r =
    Inr (name, sum_list (map num_rows
      (filter (\<lambda>f. tr_start r \<le> begins f \<and> begins f \<le> tr_end r) (concat found))))"
proof -
  have "get_bounds (Some 1) r = Some [\<lparr>bin_start = tr_start r, bin_end = tr_start r + minutes (total_minutes r)\<rparr>]"
    by (simp add: get_bounds_def Let_def)
  then show ?thesis
    using total_minutes_range [OF assms(3-5)] assms(1)
    by (simp add: handle_count_query_def get_bin_density_def count_bin_total [OF assms(2)])
qed

definition counts_env :: scan_env where
  "counts_env = sample_scan_env\<lparr>get_manifest := \<lambda>_. Inr (Some
     [scan_file\<lparr>num_rows := 4, file_columns := [\<lparr>col_name = ''p_timestamp'', col_stats = Some (IntStats 600000 660000),
        col_uncompressed_size = 1, col_compressed_size = 1\<rparr>]\<rparr>])\<rparr>"

theorem plain_count_includes_end_witness:
  "handle_count_query (counts_env\<lparr>own_items := [scan_item\<lparr>time_upper_bound := millis 900000\<rparr>]\<rparr>)
     ''count(*)'' ten_minutes = Inr (''count(*)'', 4)"
proof -
  let ?f = "scan_file\<lparr>num_rows := 4, file_columns := [\<lparr>col_name = ''p_timestamp'', col_stats = Some (IntStats 600000 660000),
        col_uncompressed_size = 1, col_compressed_size = 1\<rparr>]\<rparr>"
  let ?env = "counts_env\<lparr>own_items := [scan_item\<lparr>time_upper_bound := millis 900000\<rparr>]\<rparr>"
  have found: "get_manifest_list ?env ten_minutes = Inr [[?f]]"
    by (simp add: get_manifest_list_def counts_env_def sample_scan_env_def merged_items_def manifests_def
        scan_item_def ten_minutes_def millis_def nanos_defs)
  have "handle_count_query ?env ''count(*)'' ten_minutes = Inr (''count(*)'', sum_list (map num_rows
      (filter (\<lambda>f. tr_start ten_minutes \<le> millis 600000 \<and> millis 600000 \<le> tr_end ten_minutes) (concat [[?f]]))))"
    by (rule plain_count_includes_end [OF found])
      (simp_all add: starts_at_def counts_env_def sample_scan_env_def query_env.defs time_column_def
        default_timestamp_key_def ten_minutes_def nanos_defs)
  then show ?thesis by (simp add: ten_minutes_def millis_def nanos_defs)
qed

text \<open>A file that begins where one bin ends and the next starts is counted in both, although the
  bins tile the range.\<close>

theorem boundary_counted_twice:
  assumes "get_bin_density env num_bins r = Inr counts" and "get_manifest_list env r = Inr [[f]]"
    and "starts_at (time_column (own_time_partition env)) ms f"
    and "millis_to_datetime (query_env.truncate env) ms = Some t"
    and "Suc i < length counts" and "t = bin_end (fst (counts ! i))" and "t = bin_start (fst (counts ! Suc i))"
  shows "snd (counts ! i) = num_rows f \<and> snd (counts ! Suc i) = num_rows f"
proof -
  let ?count = "\<lambda>b. count_bin (query_env.truncate env) (time_column (own_time_partition env)) b [f]"
  obtain bs where bs: "get_bounds num_bins r = Some bs"
    and counts: "those (map (\<lambda>b. map_option (Pair b) (?count b)) bs) = Some counts"
    using assms(1,2) by (auto simp: get_bin_density_def split: option.splits)
  have one: "?count b = Some (if bin_start b \<le> t \<and> t \<le> bin_end b then num_rows f else 0)" for b
    using starts_at_in_bin [OF assms(3,4)] by simp
  then have eq: "counts = map (\<lambda>b. (b, if bin_start b \<le> t \<and> t \<le> bin_end b then num_rows f else 0)) bs"
    using counts by (simp add: those_map_Some)
  then have nth: "counts ! j = (bs ! j, if bin_start (bs ! j) \<le> t \<and> t \<le> bin_end (bs ! j) then num_rows f else 0)"
    if "j < length counts" for j
    using that by simp
  then have first: "fst (counts ! j) = bs ! j" if "j < length counts" for j using that by simp
  have order: "bin_start b \<le> bin_end b" if "b \<in> set bs" for b
    by (rule get_bounds_eq [OF bs]) (use that in \<open>auto simp: minutes_def nanos_defs split: if_splits\<close>)
  have "t = bin_end (bs ! i)" "t = bin_start (bs ! Suc i)" using assms(5-7) first by simp_all
  moreover have "bs ! i \<in> set bs" "bs ! Suc i \<in> set bs" using assms(5) eq by simp_all
  ultimately show ?thesis
    using nth [of i] nth [of "Suc i"] assms(5) order [of "bs ! i"] order [of "bs ! Suc i"] by simp
qed

theorem boundary_counted_twice_witness:
  "\<exists>counts. get_bin_density (counts_env\<lparr>own_items := [scan_item\<lparr>time_upper_bound := millis 900000\<rparr>]\<rparr>)
      (Some 2) \<lparr>tr_start = 0, tr_end = 20 * nanos_per_minute\<rparr> = Inr counts \<and>
    snd (counts ! 0) = 4 \<and> snd (counts ! 1) = 4"
proof -
  let ?f = "scan_file\<lparr>num_rows := 4, file_columns := [\<lparr>col_name = ''p_timestamp'', col_stats = Some (IntStats 600000 660000),
        col_uncompressed_size = 1, col_compressed_size = 1\<rparr>]\<rparr>"
  let ?env = "counts_env\<lparr>own_items := [scan_item\<lparr>time_upper_bound := millis 900000\<rparr>]\<rparr>"
  let ?r = "\<lparr>tr_start = 0, tr_end = 20 * nanos_per_minute\<rparr> :: time_range"
  let ?counts = "[(\<lparr>bin_start = 0, bin_end = minutes 10\<rparr>, 4), (\<lparr>bin_start = minutes 10, bin_end = minutes 20\<rparr>, 4)]
     :: (bin \<times> nat) list"
  have mins: "total_minutes ?r = 20" by (simp add: total_minutes_def num_minutes_def nanos_defs)
  have found: "get_manifest_list ?env ?r = Inr [[?f]]"
    by (simp add: get_manifest_list_def counts_env_def sample_scan_env_def merged_items_def manifests_def
        scan_item_def millis_def nanos_defs)
  have bounds: "get_bounds (Some 2) ?r = Some [\<lparr>bin_start = 0, bin_end = minutes 10\<rparr>,
      \<lparr>bin_start = minutes 10, bin_end = minutes 20\<rparr>]"
    unfolding get_bounds_def mins by (simp add: push_bins_eq Let_def minutes_def)
  have run: "get_bin_density ?env (Some 2) ?r = Inr ?counts"
    unfolding get_bin_density_def found bounds by (simp add: counts_env_def sample_scan_env_def query_env.defs
        time_column_def default_timestamp_key_def minutes_def millis_def nanos_defs)
  have "snd (?counts ! 0) = num_rows ?f \<and> snd (?counts ! Suc 0) = num_rows ?f"
    by (rule boundary_counted_twice [OF run found, where ms = 600000 and t = "millis 600000"])
      (simp_all add: starts_at_def counts_env_def sample_scan_env_def query_env.defs time_column_def
        default_timestamp_key_def minutes_def millis_def nanos_defs)
  with run show ?thesis by simp
qed

text \<open>A count grouped by expressions is taken for a plain count: the answer is one record with the
  total of the range, whatever the groups.\<close>

theorem grouped_count_is_plain:
  "is_logical_plan_count_without_filters
     (Projection [ColumnExpr ''count(*)''] (Aggregate groups aggr (TableScan table filters))) =
   is_logical_plan_count_without_filters
     (Projection [ColumnExpr ''count(*)''] (Aggregate [] aggr (TableScan table []))) \<and>
   is_logical_plan_count_without_filters
     (Projection [ColumnExpr ''count(*)''] (Aggregate groups aggr (TableScan table filters))) = Some ''count(*)''"
proof -
  have "to_lowercase ''count(*)'' = ''count(*)''" by code_simp
  then show ?thesis by (simp add: is_count_column_def)
qed

section \<open>Time filters\<close>

text \<open>The filters that a time range adds to a plan are read back as the bounds they stand for: a
  bound on a whole millisecond, written as an expression on the time column and read again by the
  scan, is the same bound.\<close>

theorem time_filter_roundtrip:
  assumes "binary_expr f (ColumnExpr name) = Some e" and "exact_millis env"
    and "\<forall>v. \<exists>t. millis_to_datetime env v = Some t"
    and "\<forall>t. f \<in> {Low (Included t), Low (Excluded t), High (Included t), High (Excluded t), TimeEq t} \<longrightarrow>
      t mod 1000000 = 0"
  shows "try_from_expr env e tp = Some (Some f)"
proof -
  have read: "millis_to_datetime env (timestamp_millis t) = Some t" if "t mod 1000000 = 0" for t
  proof -
    obtain u where u: "millis_to_datetime env (timestamp_millis t) = Some u" using assms(3) by blast
    then have "u = millis (timestamp_millis t)" using assms(2) by (simp add: exact_millis_def)
    also have "... = t" using that by (auto simp: millis_def timestamp_millis_def)
    finally show ?thesis using u by simp
  qed
  show ?thesis
    using assms(1,4) by (cases "(f, ColumnExpr name)" rule: binary_expr.cases)
      (auto simp: extract_timestamp_bound_def read)
qed

theorem time_filter_roundtrip_witness:
  "try_from_expr (query_env.truncate sample_scan_env) (since ''p_timestamp'' 7) None =
     Some (Some (Low (Included (millis 7))))"
  by (rule time_filter_roundtrip [where name = "''p_timestamp''"])
    (auto simp: since_def timestamp_millis_def millis_def exact_millis_def sample_scan_env_def query_env.defs)

text \<open>A raw plan, whose scans have no filter yet, is bounded at each of its scans.\<close>

lemma transform_scan:
  "transform partition_of start stop (TableScan table []) =
     FilterPlan (BinaryExpr
       (BinaryExpr (ColumnExpr (time_column (partition_of table))) OpGtEq
         (Literal (TimestampMillisecond (Some (timestamp_millis start))) False)) OpAnd
       (BinaryExpr (ColumnExpr (time_column (partition_of table))) OpLt
         (Literal (TimestampMillisecond (Some (timestamp_millis stop))) False)))
     (TableScan table [])"
  by (simp add: table_contains_any_time_filters_def Let_def)

end
