(* ===== verification/Stats.thy ===== *)
theory Stats
  imports Catalog
begin

text \<open>
  \<open>src/stats.rs\<close>, the updates of \<open>src/metadata.rs\<close>, \<open>src/metrics/mod.rs\<close> and
  \<open>src/storage/object_storage.rs\<close>: the counters of a stream (current, deleted and lifetime
  events and sizes) and the counters of each of its dates.
\<close>

section \<open>Gauges and counters\<close>

text \<open>A gauge has a 64-bit value for each list of label values and is zero until it is set; additions wrap
  around, and the casts \<open>as i64\<close> and \<open>as u64\<close> keep the bits. A counter keeps the label values it was used
  with.\<close>

type_synonym labels = "string list"
type_synonym gauge = "labels \<Rightarrow> u64"
type_synonym counter = "(labels \<times> nat) list"

definition gauge_add :: "labels \<Rightarrow> u64 \<Rightarrow> gauge \<Rightarrow> gauge" where
  "gauge_add l n g = g(l := g l + n)"

definition remove_label_values :: "labels \<Rightarrow> gauge \<Rightarrow> gauge" where
  "remove_label_values l g = g(l := 0)"

definition counter_get :: "counter \<Rightarrow> labels \<Rightarrow> nat" where
  "counter_get c l = (case map_of c l of None \<Rightarrow> 0 | Some n \<Rightarrow> n)"

definition inc_by :: "labels \<Rightarrow> nat \<Rightarrow> counter \<Rightarrow> counter" where
  "inc_by l n c = AList.update l (counter_get c l + n) c"

record metrics =
  events_ingested :: gauge
  events_ingested_size :: gauge
  storage_size :: gauge
  events_deleted :: gauge
  events_deleted_size :: gauge
  deleted_events_storage_size :: gauge
  lifetime_events_ingested :: gauge
  lifetime_events_ingested_size :: gauge
  lifetime_events_storage_size :: gauge
  events_ingested_date :: counter
  events_ingested_size_date :: counter
  events_storage_size_date :: counter

definition event_labels :: "string \<Rightarrow> string \<Rightarrow> labels" where
  "event_labels stream format = [stream, format]"

definition storage_size_labels :: "string \<Rightarrow> labels" where
  "storage_size_labels stream = [''data'', stream, ''parquet'']"

definition event_labels_date :: "string \<Rightarrow> string \<Rightarrow> string \<Rightarrow> labels" where
  "event_labels_date stream format date = [stream, format, date]"

definition storage_size_labels_date :: "string \<Rightarrow> string \<Rightarrow> labels" where
  "storage_size_labels_date stream date = [''data'', stream, ''parquet'', date]"

section \<open>Reading the counters\<close>

record stats =
  st_events :: nat
  st_ingestion :: nat
  st_storage :: nat

record full_stats =
  lifetime_stats :: stats
  current_stats :: stats
  deleted_stats :: stats

definition as_u64 :: "u64 \<Rightarrow> nat" where
  "as_u64 n = unat n"

definition as_i64 :: "nat \<Rightarrow> u64" where
  "as_i64 n = of_nat n"

definition get_current_stats :: "string \<Rightarrow> string \<Rightarrow> metrics \<Rightarrow> full_stats" where
  "get_current_stats stream format m =
     (let e = event_labels stream format; s = storage_size_labels stream in
      \<lparr>lifetime_stats = \<lparr>st_events = as_u64 (lifetime_events_ingested m e),
         st_ingestion = as_u64 (lifetime_events_ingested_size m e),
         st_storage = as_u64 (lifetime_events_storage_size m s)\<rparr>,
       current_stats = \<lparr>st_events = as_u64 (events_ingested m e),
         st_ingestion = as_u64 (events_ingested_size m e), st_storage = as_u64 (storage_size m s)\<rparr>,
       deleted_stats = \<lparr>st_events = as_u64 (events_deleted m e),
         st_ingestion = as_u64 (events_deleted_size m e),
         st_storage = as_u64 (deleted_events_storage_size m s)\<rparr>\<rparr>)"

text \<open>A stream loaded from storage sets its gauges from the stored statistics.\<close>

definition fetch_stats_from_storage :: "string \<Rightarrow> full_stats \<Rightarrow> metrics \<Rightarrow> metrics" where
  "fetch_stats_from_storage stream stats m =
     (let e = [stream, ''json'']; s = [''data'', stream, ''parquet''];
          c = current_stats stats; d = deleted_stats stats; l = lifetime_stats stats in
      m\<lparr>events_ingested := (events_ingested m)(e := as_i64 (st_events c)),
        events_ingested_size := (events_ingested_size m)(e := as_i64 (st_ingestion c)),
        storage_size := (storage_size m)(s := as_i64 (st_storage c)),
        events_deleted := (events_deleted m)(e := as_i64 (st_events d)),
        events_deleted_size := (events_deleted_size m)(e := as_i64 (st_ingestion d)),
        deleted_events_storage_size := (deleted_events_storage_size m)(s := as_i64 (st_storage d)),
        lifetime_events_ingested := (lifetime_events_ingested m)(e := as_i64 (st_events l)),
        lifetime_events_ingested_size := (lifetime_events_ingested_size m)(e := as_i64 (st_ingestion l)),
        lifetime_events_storage_size := (lifetime_events_storage_size m)(s := as_i64 (st_storage l))\<rparr>)"

section \<open>Updates\<close>

text \<open>Events that arrive (\<open>update_stats\<close> of \<open>src/metadata.rs\<close>), with the text of their date.\<close>

definition update_ingest_stats :: "string \<Rightarrow> string \<Rightarrow> nat \<Rightarrow> nat \<Rightarrow> string \<Rightarrow> metrics \<Rightarrow> metrics" where
  "update_ingest_stats stream origin bytes rows date m =
     m\<lparr>events_ingested := gauge_add [stream, origin] (of_nat rows) (events_ingested m),
       events_ingested_date := inc_by [stream, origin, date] rows (events_ingested_date m),
       events_ingested_size := gauge_add [stream, origin] (of_nat bytes) (events_ingested_size m),
       events_ingested_size_date := inc_by [stream, origin, date] bytes (events_ingested_size_date m),
       lifetime_events_ingested := gauge_add [stream, origin] (of_nat rows) (lifetime_events_ingested m),
       lifetime_events_ingested_size := gauge_add [stream, origin] (of_nat bytes) (lifetime_events_ingested_size m)\<rparr>"

text \<open>A stored file; its date is the text between the first \<open>=\<close> and the dot. A panic on another
  name, and a file whose size cannot be read, are \<open>None\<close>.\<close>

definition file_date_part :: "string \<Rightarrow> string option" where
  "file_date_part filename =
     (case split_on CHR ''='' (hd (split_on CHR ''.'' filename)) of
        _ # date # _ \<Rightarrow> Some date
      | _ \<Rightarrow> None)"

definition update_storage_metrics :: "nat option \<Rightarrow> string \<Rightarrow> string \<Rightarrow> metrics \<Rightarrow> metrics option" where
  "update_storage_metrics len stream filename m =
     (case (file_date_part filename, len) of
        (Some date, Some bytes) \<Rightarrow>
          Some (m\<lparr>storage_size := gauge_add [''data'', stream, ''parquet''] (of_nat bytes) (storage_size m),
            events_storage_size_date := inc_by [''data'', stream, ''parquet'', date] bytes (events_storage_size_date m),
            lifetime_events_storage_size :=
              gauge_add [''data'', stream, ''parquet''] (of_nat bytes) (lifetime_events_storage_size m)\<rparr>)
      | _ \<Rightarrow> None)"

definition load_daily_metric :: "(date \<Rightarrow> string) \<Rightarrow> string \<Rightarrow> manifest_item \<Rightarrow> metrics \<Rightarrow> metrics" where
  "load_daily_metric show_date stream item m =
     (let date = show_date (date_naive (time_lower_bound item)) in
      m\<lparr>events_ingested_date :=
          inc_by [stream, ''json'', date] (item_events_ingested item) (events_ingested_date m),
        events_ingested_size_date :=
          inc_by [stream, ''json'', date] (item_ingestion_size item) (events_ingested_size_date m),
        events_storage_size_date :=
          inc_by [''data'', stream, ''parquet'', date] (item_storage_size item) (events_storage_size_date m)\<rparr>)"

definition load_daily_metrics :: "(date \<Rightarrow> string) \<Rightarrow> manifest_item list \<Rightarrow> string \<Rightarrow> metrics \<Rightarrow> metrics" where
  "load_daily_metrics show_date items stream = fold (load_daily_metric show_date stream) items"

text \<open>The counters of a day, as the snapshot records them.\<close>

definition extract_partition_metrics :: "(date \<Rightarrow> string) \<Rightarrow> string \<Rightarrow> datetime \<Rightarrow> metrics \<Rightarrow> nat \<times> nat \<times> nat" where
  "extract_partition_metrics show_date stream lower m =
     (let date = show_date (date_naive lower) in
      (counter_get (events_ingested_date m) (event_labels_date stream ''json'' date),
       counter_get (events_ingested_size_date m) (event_labels_date stream ''json'' date),
       counter_get (events_storage_size_date m) (storage_size_labels_date stream date)))"

section \<open>Deletions\<close>

text \<open>The entries of the deleted dates: a path that contains one of them.\<close>

definition of_dates :: "string list \<Rightarrow> manifest_item \<Rightarrow> bool" where
  "of_dates dates item \<longleftrightarrow> list_ex (\<lambda>date. contains_str date (manifest_path item)) dates"

definition remove_date_counters :: "(date \<Rightarrow> string) \<Rightarrow> string \<Rightarrow> manifest_item \<Rightarrow> metrics \<Rightarrow> metrics" where
  "remove_date_counters show_date stream item m =
     (let date = show_date (date_naive (time_lower_bound item)) in
      m\<lparr>events_ingested_date := AList.delete [stream, ''json'', date] (events_ingested_date m),
        events_ingested_size_date := AList.delete [stream, ''json'', date] (events_ingested_size_date m),
        events_storage_size_date := AList.delete [''data'', stream, ''parquet'', date] (events_storage_size_date m)\<rparr>)"

definition sum_items :: "(manifest_item \<Rightarrow> nat) \<Rightarrow> manifest_item list \<Rightarrow> u64" where
  "sum_items f items = sum_list (map (of_nat \<circ> f) items)"

definition update_deleted_stats ::
  "(date \<Rightarrow> string) \<Rightarrow> string \<Rightarrow> manifest_item list \<Rightarrow> string list \<Rightarrow> metrics \<Rightarrow> metrics" where
  "update_deleted_stats show_date stream items dates m =
     (let gone = filter (of_dates dates) items;
          num_row = sum_items item_events_ingested gone;
          ingestion = sum_items item_ingestion_size gone;
          stored = sum_items item_storage_size gone;
          m = fold (remove_date_counters show_date stream) gone m;
          e = [stream, ''json'']; s = [''data'', stream, ''parquet'']
      in m\<lparr>events_deleted := gauge_add e num_row (events_deleted m),
           events_deleted_size := gauge_add e ingestion (events_deleted_size m),
           deleted_events_storage_size := gauge_add s stored (deleted_events_storage_size m),
           events_ingested := gauge_add e (- num_row) (events_ingested m),
           events_ingested_size := gauge_add e (- ingestion) (events_ingested_size m),
           storage_size := gauge_add s (- stored) (storage_size m)\<rparr>)"

text \<open>Named for a prefix, the code asks whether every given value is among the label values.\<close>

definition delete_with_label_prefix :: "labels \<Rightarrow> counter \<Rightarrow> counter" where
  "delete_with_label_prefix given c = filter (\<lambda>(l, _). \<not> list_all (\<lambda>p. p \<in> set l) given) c"

definition delete_stats :: "string \<Rightarrow> string \<Rightarrow> metrics \<Rightarrow> metrics" where
  "delete_stats stream format m =
     (let e = event_labels stream format; s = storage_size_labels stream in
      m\<lparr>events_ingested := remove_label_values e (events_ingested m),
        events_ingested_size := remove_label_values e (events_ingested_size m),
        storage_size := remove_label_values s (storage_size m),
        events_deleted := remove_label_values e (events_deleted m),
        events_deleted_size := remove_label_values e (events_deleted_size m),
        deleted_events_storage_size := remove_label_values s (deleted_events_storage_size m),
        lifetime_events_ingested := remove_label_values e (lifetime_events_ingested m),
        lifetime_events_ingested_size := remove_label_values e (lifetime_events_ingested_size m),
        lifetime_events_storage_size := remove_label_values s (lifetime_events_storage_size m),
        events_ingested_date := delete_with_label_prefix e (events_ingested_date m),
        events_ingested_size_date := delete_with_label_prefix e (events_ingested_size_date m),
        events_storage_size_date := delete_with_label_prefix s (events_storage_size_date m)\<rparr>)"

section \<open>Balance\<close>

definition no_metrics :: metrics where
  "no_metrics = \<lparr>events_ingested = \<lambda>_. 0, events_ingested_size = \<lambda>_. 0, storage_size = \<lambda>_. 0,
     events_deleted = \<lambda>_. 0, events_deleted_size = \<lambda>_. 0, deleted_events_storage_size = \<lambda>_. 0,
     lifetime_events_ingested = \<lambda>_. 0, lifetime_events_ingested_size = \<lambda>_. 0,
     lifetime_events_storage_size = \<lambda>_. 0, events_ingested_date = [], events_ingested_size_date = [],
     events_storage_size_date = []\<rparr>"

text \<open>The statistics in \<open>stream.json\<close>, by stream; a new stream starts with zeros.\<close>

type_synonym stored_stats = "string \<rightharpoonup> full_stats"

definition zero_stats :: full_stats where
  "zero_stats = (let z = \<lparr>st_events = 0, st_ingestion = 0, st_storage = 0\<rparr> in
     \<lparr>lifetime_stats = z, current_stats = z, deleted_stats = z\<rparr>)"

text \<open>What happens to the gauges and the stored statistics: a stream is created in storage, its current
  statistics are stored with a snapshot, the server starts anew and loads stored statistics.\<close>

inductive reachable_metrics :: "(date \<Rightarrow> string) \<Rightarrow> metrics \<Rightarrow> stored_stats \<Rightarrow> bool" for show_date where
  start: "reachable_metrics show_date no_metrics Map.empty"
| create: "reachable_metrics show_date m stored \<Longrightarrow> reachable_metrics show_date m (stored(stream \<mapsto> zero_stats))"
| ingest: "reachable_metrics show_date m stored \<Longrightarrow>
    reachable_metrics show_date (update_ingest_stats stream origin bytes rows date m) stored"
| store: "reachable_metrics show_date m stored \<Longrightarrow> update_storage_metrics len stream filename m = Some m' \<Longrightarrow>
    reachable_metrics show_date m' stored"
| save: "reachable_metrics show_date m stored \<Longrightarrow>
    reachable_metrics show_date m (stored(stream \<mapsto> get_current_stats stream ''json'' m))"
| restart: "reachable_metrics show_date m stored \<Longrightarrow> reachable_metrics show_date no_metrics stored"
| fetch: "reachable_metrics show_date m stored \<Longrightarrow> stored stream = Some fs \<Longrightarrow>
    reachable_metrics show_date (fetch_stats_from_storage stream fs m) stored"
| load: "reachable_metrics show_date m stored \<Longrightarrow>
    reachable_metrics show_date (load_daily_metrics show_date items stream m) stored"
| expire: "reachable_metrics show_date m stored \<Longrightarrow>
    reachable_metrics show_date (update_deleted_stats show_date stream items dates m) stored"
| drop_stream: "reachable_metrics show_date m stored \<Longrightarrow>
    reachable_metrics show_date (delete_stats stream format m) (stored(stream := None))"

text \<open>Numbers that add up as 64-bit values.\<close>

definition adds_up :: "stats \<Rightarrow> stats \<Rightarrow> stats \<Rightarrow> bool" where
  "adds_up l c d \<longleftrightarrow> as_i64 (st_events l) = as_i64 (st_events c) + as_i64 (st_events d) \<and>
     as_i64 (st_ingestion l) = as_i64 (st_ingestion c) + as_i64 (st_ingestion d) \<and>
     as_i64 (st_storage l) = as_i64 (st_storage c) + as_i64 (st_storage d)"

definition balanced :: "metrics \<Rightarrow> bool" where
  "balanced m \<longleftrightarrow> (\<forall>l. lifetime_events_ingested m l = events_ingested m l + events_deleted m l \<and>
     lifetime_events_ingested_size m l = events_ingested_size m l + events_deleted_size m l \<and>
     lifetime_events_storage_size m l = storage_size m l + deleted_events_storage_size m l)"

lemma balanced_counters [simp]:
  "balanced (m\<lparr>events_ingested_date := a\<rparr>) = balanced m"
  "balanced (m\<lparr>events_ingested_size_date := a\<rparr>) = balanced m"
  "balanced (m\<lparr>events_storage_size_date := a\<rparr>) = balanced m"
  by (simp_all add: balanced_def)

lemma balanced_load: "balanced (load_daily_metrics show_date items stream m) = balanced m"
  unfolding load_daily_metrics_def
  by (induction items arbitrary: m) (simp_all add: load_daily_metric_def Let_def)

lemma balanced_remove_counters:
  "balanced (fold (remove_date_counters show_date stream) items m) = balanced m"
  by (induction items arbitrary: m) (simp_all add: remove_date_counters_def Let_def)

lemmas metric_ops = update_ingest_stats_def update_storage_metrics_def fetch_stats_from_storage_def
  delete_stats_def gauge_add_def remove_label_values_def Let_def

lemma balanced_expire:
  assumes "balanced m"
  shows "balanced (update_deleted_stats show_date stream items dates m)"
proof -
  define m' where "m' = fold (remove_date_counters show_date stream) (filter (of_dates dates) items) m"
  have "balanced m'" using assms by (simp add: m'_def balanced_remove_counters)
  then show ?thesis unfolding update_deleted_stats_def Let_def m'_def [symmetric]
    by (simp add: balanced_def gauge_add_def)
qed

lemma casts_cancel [simp]: "as_i64 (as_u64 w) = w"
  by (simp add: as_i64_def as_u64_def)

lemma saved_adds_up:
  "balanced m \<Longrightarrow> adds_up (lifetime_stats (get_current_stats stream format m))
     (current_stats (get_current_stats stream format m)) (deleted_stats (get_current_stats stream format m))"
  by (simp add: adds_up_def get_current_stats_def Let_def balanced_def)

definition stored_add_up :: "stored_stats \<Rightarrow> bool" where
  "stored_add_up stored \<longleftrightarrow>
     (\<forall>s fs. stored s = Some fs \<longrightarrow> adds_up (lifetime_stats fs) (current_stats fs) (deleted_stats fs))"

lemma balanced_fetch:
  "balanced m \<Longrightarrow> adds_up (lifetime_stats fs) (current_stats fs) (deleted_stats fs) \<Longrightarrow>
   balanced (fetch_stats_from_storage stream fs m)"
  by (simp add: fetch_stats_from_storage_def balanced_def adds_up_def Let_def)

lemma reachable_balanced: "reachable_metrics show_date m stored \<Longrightarrow> balanced m \<and> stored_add_up stored"
proof (induction rule: reachable_metrics.induct)
  case (store m stored len stream filename m')
  then show ?case by (auto simp: metric_ops balanced_def split: option.splits)
next
  case (save m stored stream)
  then show ?case using saved_adds_up by (auto simp: stored_add_up_def)
next
  case (fetch m stored stream fs)
  then show ?case using balanced_fetch by (auto simp: stored_add_up_def)
next
  case (create m stored stream)
  then show ?case by (simp add: stored_add_up_def zero_stats_def adds_up_def as_i64_def Let_def)
qed (simp_all add: balanced_load balanced_expire, simp_all add: metric_ops balanced_def no_metrics_def stored_add_up_def)

text \<open>C33: At every moment the lifetime counters of a stream are, as 64-bit values, its current
  counters plus what was deleted, for events, ingested size and stored size: from a start
  without counters and stored statistics, through ingestion, storing of files, saving of
  statistics, restarts, loading of what was saved, retention, and the creation and deletion of
  streams in any order, also when a counter has wrapped around. The stored statistics of every
  stream add up in the same way.\<close>

theorem lifetime_adds_up:
  assumes "reachable_metrics show_date m stored"
  shows "lifetime_events_ingested m l = events_ingested m l + events_deleted m l \<and>
    lifetime_events_ingested_size m l = events_ingested_size m l + events_deleted_size m l \<and>
    lifetime_events_storage_size m l = storage_size m l + deleted_events_storage_size m l \<and>
    (\<forall>fs \<in> ran stored. adds_up (lifetime_stats fs) (current_stats fs) (deleted_stats fs))"
  using reachable_balanced [OF assms] by (auto simp: balanced_def stored_add_up_def ran_def)

theorem lifetime_adds_up_witness:
  "lifetime_events_ingested (update_ingest_stats ''app'' ''json'' 10 3 ''2024-01-01'' no_metrics) [''app'', ''json''] =
     3 + 0"
proof -
  have "reachable_metrics (\<lambda>_. []) (update_ingest_stats ''app'' ''json'' 10 3 ''2024-01-01'' no_metrics) Map.empty"
    by (intro reachable_metrics.intros)
  from lifetime_adds_up [OF this, of "[''app'', ''json'']"] show ?thesis
    by (simp add: update_ingest_stats_def gauge_add_def no_metrics_def)
qed

section \<open>Storing and loading\<close>

text \<open>The statistics of a stream survive a restart: read from the gauges, stored, and loaded into
  the gauges of another process, they are read as the same statistics.\<close>

theorem stats_roundtrip:
  "get_current_stats stream ''json'' (fetch_stats_from_storage stream (get_current_stats stream ''json'' m) m') =
   get_current_stats stream ''json'' m"
  by (simp add: get_current_stats_def fetch_stats_from_storage_def event_labels_def storage_size_labels_def
      Let_def)

section \<open>Deleting a stream\<close>

lemma map_of_delete_prefix:
  "distinct_keys c \<Longrightarrow> map_of (delete_with_label_prefix given c) l =
    (if set given \<subseteq> set l then None else map_of c l)"
  unfolding delete_with_label_prefix_def
  by (induction c) (auto simp: list_all_iff map_of_eq_None_iff image_iff split: if_splits)

text \<open>Deleting a stream clears the date counters of another stream exactly when the deleted stream's
  name is the word \<open>json\<close> or the date (for stored sizes also \<open>data\<close> or \<open>parquet\<close>), which are
  valid names: deleting a stream called \<open>json\<close> clears the dates of every stream.\<close>

theorem delete_stats_clears:
  assumes "distinct_keys (events_ingested_date m)" and "distinct_keys (events_storage_size_date m)"
  shows "counter_get (events_ingested_date (delete_stats name ''json'' m)) (event_labels_date stream ''json'' date) =
      (if name \<in> {stream, ''json'', date} then 0
       else counter_get (events_ingested_date m) (event_labels_date stream ''json'' date)) \<and>
    counter_get (events_storage_size_date (delete_stats name ''json'' m)) (storage_size_labels_date stream date) =
      (if name \<in> {''data'', stream, ''parquet'', date} then 0
       else counter_get (events_storage_size_date m) (storage_size_labels_date stream date))"
  using assms
  by (auto simp: delete_stats_def Let_def counter_get_def map_of_delete_prefix event_labels_def
      storage_size_labels_def event_labels_date_def storage_size_labels_date_def)

theorem delete_stats_clears_witness:
  "counter_get (events_ingested_date (delete_stats ''json'' ''json''
      (update_ingest_stats ''app'' ''json'' 10 3 ''2024-01-01'' no_metrics)))
     (event_labels_date ''app'' ''json'' ''2024-01-01'') = 0 \<and>
   counter_get (events_ingested_date (update_ingest_stats ''app'' ''json'' 10 3 ''2024-01-01'' no_metrics))
     (event_labels_date ''app'' ''json'' ''2024-01-01'') = 3"
proof -
  let ?m = "update_ingest_stats ''app'' ''json'' 10 3 ''2024-01-01'' no_metrics"
  have "distinct_keys (events_ingested_date ?m)" "distinct_keys (events_storage_size_date ?m)"
    by (simp_all add: update_ingest_stats_def inc_by_def no_metrics_def)
  from delete_stats_clears [OF this, of "''json''" "''app''" "''2024-01-01''"] show ?thesis
    by (simp add: update_ingest_stats_def inc_by_def counter_get_def no_metrics_def event_labels_date_def)
qed

section \<open>Loading the days\<close>

lemma counter_get_inc_by: "counter_get (inc_by l n c) k = (if k = l then counter_get c l + n else counter_get c k)"
  by (simp add: counter_get_def inc_by_def update_conv')

abbreviation item_day :: "manifest_item \<Rightarrow> date" where
  "item_day i \<equiv> date_naive (time_lower_bound i)"

lemma extract_load_daily_metric:
  assumes "inj show_date"
  shows "extract_partition_metrics show_date stream t (load_daily_metric show_date stream i m) =
    (case extract_partition_metrics show_date stream t m of (a, b, c) \<Rightarrow>
      if date_naive t = item_day i
      then (a + item_events_ingested i, b + item_ingestion_size i, c + item_storage_size i) else (a, b, c))"
  using inj_eq [OF assms]
  by (simp add: extract_partition_metrics_def load_daily_metric_def Let_def counter_get_inc_by
      event_labels_date_def storage_size_labels_date_def)

lemma extract_load_other_days:
  assumes "inj show_date" and "date_naive t \<notin> item_day ` set items"
  shows "extract_partition_metrics show_date stream t (load_daily_metrics show_date items stream m) =
    extract_partition_metrics show_date stream t m"
  using assms(2) unfolding load_daily_metrics_def
  by (induction items arbitrary: m) (auto simp: extract_load_daily_metric [OF assms(1)] split: prod.splits)

text \<open>After a restart the counters of a day continue from the numbers of the snapshot: loading a
  snapshot with one entry for each day makes the numbers recorded for that day the entry's own.\<close>

theorem restart_keeps_day_metrics:
  assumes "inj show_date" and "distinct (map item_day items)" and "i \<in> set items"
  shows "extract_partition_metrics show_date stream (time_lower_bound i)
      (load_daily_metrics show_date items stream no_metrics) =
    (item_events_ingested i, item_ingestion_size i, item_storage_size i)"
proof -
  obtain before after where items: "items = before @ i # after"
    using assms(3) by (auto simp: in_set_conv_decomp)
  have "item_day i \<notin> item_day ` set before" "item_day i \<notin> item_day ` set after"
    using assms(2) by (auto simp: items image_iff)
  note other = extract_load_other_days [OF assms(1) this(1)] extract_load_other_days [OF assms(1) this(2)]
  have "load_daily_metrics show_date items stream no_metrics = load_daily_metrics show_date after stream
      (load_daily_metric show_date stream i (load_daily_metrics show_date before stream no_metrics))"
    by (simp add: items load_daily_metrics_def)
  moreover have "extract_partition_metrics show_date stream (time_lower_bound i) no_metrics = (0, 0, 0)"
    by (simp add: extract_partition_metrics_def no_metrics_def counter_get_def Let_def)
  ultimately show ?thesis by (simp add: other extract_load_daily_metric [OF assms(1)])
qed

theorem restart_keeps_day_metrics_witness:
  "extract_partition_metrics (show_day sample_catalog_env) ''app'' (time_lower_bound sample_item)
      (load_daily_metrics (show_day sample_catalog_env) [sample_item] ''app'' no_metrics) =
    (item_events_ingested sample_item, item_ingestion_size sample_item, item_storage_size sample_item)"
proof (rule restart_keeps_day_metrics)
  show "inj (show_day sample_catalog_env)" using sample_env_ok by (auto simp: env_ok_def intro: injI)
qed simp_all

end
