(* ===== verification/Event_Schema.thy ===== *)
theory Event_Schema
  imports Json Log_Source "HOL-Library.Multiset"
begin

text \<open>
  Arrow data types, fields and record batches as far as the server reads or builds them
  (\<open>src/utils/arrow/mod.rs\<close>), the schema key of a batch (\<open>src/event/mod.rs\<close>) and static schemas
  (\<open>src/static_schema.rs\<close>). The types that no code of the server names are \<open>OtherType\<close> with their
  name. A stream's schema is a map from names to fields; an Arrow schema is a list of fields.
\<close>

section \<open>Fields\<close>

datatype time_unit = Second | Millisecond | Microsecond | Nanosecond

datatype data_type =
    NullType | BooleanType
  | Int8 | Int16 | Int32 | Int64
  | UInt8 | UInt16 | UInt32 | UInt64
  | Float16 | Float32 | Float64
  | Utf8
  | ListType field
  | StructType "field list"
  | Date32
  | Timestamp time_unit "string option"
  | OtherType string
and field = Field (field_name: string) (field_type: data_type) (is_nullable: bool)

type_synonym stream_schema = "(string \<times> field) list"

definition default_timestamp_key :: string where
  "default_timestamp_key = ''p_timestamp''"

definition timestamp_millis :: data_type where
  "timestamp_millis = Timestamp Millisecond None"

definition get_field :: "field list \<Rightarrow> string \<Rightarrow> field option" where
  "get_field fs n = find (\<lambda>f. field_name f = n) fs"

lemma get_field_Some:
  "get_field fs n = Some f \<Longrightarrow> f \<in> set fs \<and> field_name f = n"
  by (auto simp: get_field_def find_Some_iff)

lemma get_field_None: "get_field fs n = None \<longleftrightarrow> n \<notin> field_name ` set fs"
  by (auto simp: get_field_def find_None_iff)

lemma get_field_distinct:
  assumes "distinct (map field_name fs)" and "f \<in> set fs"
  shows "get_field fs (field_name f) = Some f"
  using assms by (induction fs) (auto simp: get_field_def)

text \<open>\<open>DataType::is_numeric\<close> of Arrow: integers, floats and decimals.\<close>

fun is_numeric :: "data_type \<Rightarrow> bool" where
  "is_numeric (OtherType s) = prefix ''Decimal'' s"
| "is_numeric t = (t \<in> {Int8, Int16, Int32, Int64, UInt8, UInt16, UInt32, UInt64, Float16, Float32, Float64})"

section \<open>Record batches\<close>

text \<open>A column is one the decoder made, with its number of rows, or one of the two kinds that the
  server adds: milliseconds or text.\<close>

datatype 'a column = Decoded nat 'a | TimestampColumn "int list" | StringColumn "string list"

fun column_len :: "'a column \<Rightarrow> nat" where
  "column_len (Decoded n _) = n"
| "column_len (TimestampColumn ts) = length ts"
| "column_len (StringColumn ss) = length ss"

record 'a record_batch =
  rb_schema :: "field list"
  rb_columns :: "'a column list"

definition rb_num_rows :: "'a record_batch \<Rightarrow> nat" where
  "rb_num_rows rb = (case rb_columns rb of [] \<Rightarrow> 0 | c # _ \<Rightarrow> column_len c)"

definition rb_wf :: "'a record_batch \<Rightarrow> bool" where
  "rb_wf rb \<longleftrightarrow> length (rb_columns rb) = length (rb_schema rb) \<and>
     (\<forall>c \<in> set (rb_columns rb). column_len c = rb_num_rows rb)"

text \<open>\<open>RecordBatch::try_new\<close>: as many columns as fields, at least one, all of the same length.\<close>

definition rb_try_new :: "field list \<Rightarrow> 'a column list \<Rightarrow> 'a record_batch option" where
  "rb_try_new fs cs =
     (if length fs \<noteq> length cs then None
      else case cs of [] \<Rightarrow> None
        | c # _ \<Rightarrow> if list_all (\<lambda>d. column_len d = column_len c) cs
            then Some \<lparr>rb_schema = fs, rb_columns = cs\<rparr> else None)"

definition get_timestamp_array :: "int \<Rightarrow> nat \<Rightarrow> 'a column" where
  "get_timestamp_array p_timestamp n = TimestampColumn (replicate n (p_timestamp div 1000000))"

text \<open>The custom fields are added in the order of their names; the set of names that a custom field
  must not repeat starts as the names of the event's own fields.\<close>

fun push_custom_fields ::
  "nat \<Rightarrow> (string \<times> string) list \<Rightarrow> string set \<Rightarrow> field list \<Rightarrow> 'a column list
   \<Rightarrow> field list \<times> 'a column list" where
  "push_custom_fields n [] names fs cs = (fs, cs)"
| "push_custom_fields n ((k, v) # kvs) names fs cs =
     (if k \<in> names then push_custom_fields n kvs names fs cs
      else push_custom_fields n kvs (insert k names) (fs @ [Field k Utf8 True])
             (cs @ [StringColumn (replicate n v)]))"

definition add_parseable_fields ::
  "'a record_batch \<Rightarrow> int \<Rightarrow> (string \<times> string) list \<Rightarrow> 'a record_batch option" where
  "add_parseable_fields rb p_timestamp p_custom_fields =
     (let n = rb_num_rows rb;
          names = field_name ` set (rb_schema rb);
          fs = Field default_timestamp_key timestamp_millis True # rb_schema rb;
          cs = get_timestamp_array p_timestamp n # rb_columns rb;
          (fs', cs') = push_custom_fields n (sort_key fst p_custom_fields) names fs cs
      in rb_try_new fs' cs')"

lemma push_custom_fields_result:
  assumes "distinct_keys kvs"
  shows "push_custom_fields n kvs names fs cs =
    (let new = filter (\<lambda>kv. fst kv \<notin> names) kvs
     in (fs @ map (\<lambda>kv. Field (fst kv) Utf8 True) new,
         cs @ map (\<lambda>kv. StringColumn (replicate n (snd kv))) new))"
  using assms
proof (induction kvs arbitrary: names fs cs)
  case Nil
  then show ?case by simp
next
  case (Cons kv kvs)
  obtain k v where kv: "kv = (k, v)" by force
  from Cons.prems have "k \<notin> fst ` set kvs" by (simp add: kv)
  then have "filter (\<lambda>kv. fst kv \<noteq> k \<and> fst kv \<notin> names) kvs = filter (\<lambda>kv. fst kv \<notin> names) kvs"
    by (intro filter_cong) auto
  with Cons show ?case by (simp add: kv Let_def)
qed

text \<open>A batch gets the time of its arrival in front and the custom fields, sorted by name, behind its
  own columns; a custom field whose name the event uses is left out. It never fails.\<close>

lemma add_parseable_fields_result:
  assumes "rb_wf rb" and "distinct_keys custom"
  defines "new \<equiv> filter (\<lambda>kv. fst kv \<notin> field_name ` set (rb_schema rb)) (sort_key fst custom)"
  shows "add_parseable_fields rb p_timestamp custom =
    Some \<lparr>rb_schema = Field default_timestamp_key timestamp_millis True # rb_schema rb
                     @ map (\<lambda>kv. Field (fst kv) Utf8 True) new,
          rb_columns = get_timestamp_array p_timestamp (rb_num_rows rb) # rb_columns rb
                     @ map (\<lambda>kv. StringColumn (replicate (rb_num_rows rb) (snd kv))) new\<rparr>"
proof -
  have "distinct_keys (sort_key fst custom)" using assms(2) by (simp add: distinct_map inj_on_def)
  with assms(1) show ?thesis
    by (simp add: add_parseable_fields_def push_custom_fields_result new_def Let_def rb_try_new_def
        get_timestamp_array_def list_all_iff rb_wf_def ball_Un)
qed

section \<open>The key of a schema\<close>

definition hex_digit :: "nat \<Rightarrow> char" where
  "hex_digit d = (if d < 10 then digit_char d else char_of (d + 87))"

fun show_hex :: "nat \<Rightarrow> string" where
  "show_hex n = (if n < 16 then [hex_digit n] else show_hex (n div 16) @ [hex_digit (n mod 16)])"

declare show_hex.simps [simp del]

text \<open>The hasher is the library's: \<open>xxh3\<close> maps the bytes fed to it to the digest.\<close>

definition get_schema_key :: "(string \<Rightarrow> u64) \<Rightarrow> field list \<Rightarrow> string" where
  "get_schema_key xxh3 fs = show_hex (unat (xxh3 (concat (map field_name (sort_key field_name fs)))))"

lemma map_sort_key: "map f (sort_key f xs) = sort (map f xs)"
proof (rule properties_for_sort [symmetric])
  show "mset (map f (sort_key f xs)) = mset (map f xs)" by (simp only: mset_map mset_sort)
qed simp

text \<open>The key depends on the names only, not on their order and not on the types.\<close>

lemma schema_key_names: "get_schema_key xxh3 fs = show_hex (unat (xxh3 (concat (sort (map field_name fs)))))"
  by (simp add: get_schema_key_def map_sort_key)

lemma schema_key_perm:
  "mset (map field_name fs) = mset (map field_name gs) \<Longrightarrow> get_schema_key xxh3 fs = get_schema_key xxh3 gs"
  by (simp only: schema_key_names) (metis mset_sort properties_for_sort sorted_sort)

section \<open>Static schemas\<close>

record schema_field =
  sf_name :: string
  sf_type :: string

datatype static_schema_error =
    MissingCustomPartition string
  | MissingTimePartition string
  | ReservedKey string
  | EmptyFieldName
  | DuplicateField string
  | UnrecognizedDataType string

definition list_of :: "data_type \<Rightarrow> data_type" where
  "list_of t = ListType (Field ''item'' t True)"

definition static_type :: "string \<Rightarrow> data_type option" where
  "static_type s =
     (if s = ''int'' then Some Int64
      else if s = ''double'' \<or> s = ''float'' then Some Float64
      else if s = ''boolean'' then Some BooleanType
      else if s = ''string'' then Some Utf8
      else if s = ''datetime'' then Some timestamp_millis
      else if s = ''date'' then Some Date32
      else if s = ''string_list'' then Some (list_of Utf8)
      else if s = ''int_list'' then Some (list_of Int64)
      else if s = ''double_list'' \<or> s = ''float_list'' then Some (list_of Float64)
      else if s = ''boolean_list'' then Some (list_of BooleanType)
      else None)"

definition validate_field_names :: "string \<Rightarrow> string list \<Rightarrow> static_schema_error + string list" where
  "validate_field_names n existing =
     (if n = [] then Inl EmptyFieldName
      else if n \<in> set existing then Inl (DuplicateField n)
      else Inr (n # existing))"

definition check_partitions :: "schema_field list \<Rightarrow> string option \<Rightarrow> static_schema_error + unit" where
  "check_partitions fs custom_partition =
     (case custom_partition of
        None \<Rightarrow> Inr ()
      | Some cp \<Rightarrow>
          (case find (\<lambda>p. p \<notin> sf_name ` set fs) (split_on CHR '','' cp) of
             None \<Rightarrow> Inr ()
           | Some p \<Rightarrow> Inl (MissingCustomPartition p)))"

text \<open>The loop over the declared fields, with the names seen, whether the time partition was among
  them, and the fields made so far.\<close>

fun convert_fields ::
  "string \<Rightarrow> schema_field list \<Rightarrow> string list \<Rightarrow> bool \<Rightarrow> static_schema_error + (field list \<times> bool)" where
  "convert_fields time_partition [] existing found = Inr ([], found)"
| "convert_fields time_partition (f # fs) existing found =
     bind_result (validate_field_names (sf_name f) existing)
       (\<lambda>existing'.
          let is_time = time_partition \<noteq> [] \<and> sf_name f = time_partition;
              declared = (if is_time then ''datetime'' else sf_type f) in
          (case static_type declared of
             None \<Rightarrow> Inl (UnrecognizedDataType declared)
           | Some t \<Rightarrow>
               bind_result (convert_fields time_partition fs existing' (found \<or> is_time))
                 (\<lambda>(gs, found'). Inr (Field (sf_name f) t True # gs, found'))))"

definition add_parseable_fields_to_static_schema :: "field list \<Rightarrow> static_schema_error + field list" where
  "add_parseable_fields_to_static_schema fs =
     (if get_field fs default_timestamp_key \<noteq> None then Inl (ReservedKey default_timestamp_key)
      else Inr (Field default_timestamp_key timestamp_millis True # fs))"

definition convert_static_schema_to_arrow_schema ::
  "schema_field list \<Rightarrow> string \<Rightarrow> string option \<Rightarrow> static_schema_error + field list" where
  "convert_static_schema_to_arrow_schema fs time_partition custom_partition =
     bind_result (check_partitions fs custom_partition) (\<lambda>_.
     bind_result (convert_fields time_partition fs [] False) (\<lambda>(gs, found).
       if time_partition \<noteq> [] \<and> \<not> found then Inl (MissingTimePartition time_partition)
       else add_parseable_fields_to_static_schema gs))"

text \<open>What is accepted, and what comes out: each declared field with its type, all nullable, after the
  time of arrival.\<close>

definition declared_type :: "string \<Rightarrow> schema_field \<Rightarrow> data_type option" where
  "declared_type time_partition f =
     static_type (if time_partition \<noteq> [] \<and> sf_name f = time_partition then ''datetime'' else sf_type f)"

definition static_fields :: "string \<Rightarrow> schema_field list \<Rightarrow> field list" where
  "static_fields time_partition fs = map (\<lambda>f. Field (sf_name f) (the (declared_type time_partition f)) True) fs"

definition acceptable_static :: "schema_field list \<Rightarrow> string \<Rightarrow> string option \<Rightarrow> bool" where
  "acceptable_static fs time_partition custom_partition \<longleftrightarrow>
     distinct (map sf_name fs) \<and> [] \<notin> sf_name ` set fs \<and> default_timestamp_key \<notin> sf_name ` set fs \<and>
     (\<forall>f \<in> set fs. declared_type time_partition f \<noteq> None) \<and>
     (time_partition = [] \<or> time_partition \<in> sf_name ` set fs) \<and>
     (\<forall>cp. custom_partition = Some cp \<longrightarrow> set (split_on CHR '','' cp) \<subseteq> sf_name ` set fs)"

lemma convert_fields_result:
  "convert_fields tp fs existing found = Inr (gs, found') \<longleftrightarrow>
     distinct (map sf_name fs) \<and> [] \<notin> sf_name ` set fs \<and> sf_name ` set fs \<inter> set existing = {} \<and>
     (\<forall>f \<in> set fs. declared_type tp f \<noteq> None) \<and> gs = static_fields tp fs \<and>
     found' = (found \<or> tp \<noteq> [] \<and> tp \<in> sf_name ` set fs)"
proof (induction fs arbitrary: existing found gs found')
  case Nil
  then show ?case by (auto simp: static_fields_def)
next
  case (Cons f fs)
  show ?case
  proof (cases "sf_name f = [] \<or> sf_name f \<in> set existing \<or> declared_type tp f = None")
    case True
    then show ?thesis
      by (auto simp: validate_field_names_def declared_type_def Let_def split: if_splits)
  next
    case False
    then obtain t where t: "declared_type tp f = Some t" by auto
    have "convert_fields tp (f # fs) existing found = Inr (gs, found') \<longleftrightarrow>
      (\<exists>hs. convert_fields tp fs (sf_name f # existing) (found \<or> tp \<noteq> [] \<and> sf_name f = tp) = Inr (hs, found') \<and>
        gs = Field (sf_name f) t True # hs)"
      using False t by (auto simp: validate_field_names_def declared_type_def Let_def)
    also have "\<dots> \<longleftrightarrow> distinct (map sf_name fs) \<and> [] \<notin> sf_name ` set fs \<and>
        sf_name ` set fs \<inter> set (sf_name f # existing) = {} \<and>
        (\<forall>f \<in> set fs. declared_type tp f \<noteq> None) \<and> gs = Field (sf_name f) t True # static_fields tp fs \<and>
        found' = ((found \<or> tp \<noteq> [] \<and> sf_name f = tp) \<or> tp \<noteq> [] \<and> tp \<in> sf_name ` set fs)"
      by (simp only: Cons.IH) (iprover)
    also have "((found \<or> tp \<noteq> [] \<and> sf_name f = tp) \<or> tp \<noteq> [] \<and> tp \<in> sf_name ` set fs) =
        (found \<or> tp \<noteq> [] \<and> tp \<in> sf_name ` set (f # fs))" by auto
    also have "sf_name ` set fs \<inter> set (sf_name f # existing) = {} \<longleftrightarrow>
        sf_name f \<notin> sf_name ` set fs \<and> sf_name ` set (f # fs) \<inter> set existing = {}" using False by auto
    also have "Field (sf_name f) t True # static_fields tp fs = static_fields tp (f # fs)"
      using t by (simp add: static_fields_def)
    finally have *: "convert_fields tp (f # fs) existing found = Inr (gs, found') \<longleftrightarrow>
      distinct (map sf_name fs) \<and> [] \<notin> sf_name ` set fs \<and>
      (sf_name f \<notin> sf_name ` set fs \<and> sf_name ` set (f # fs) \<inter> set existing = {}) \<and>
      (\<forall>f \<in> set fs. declared_type tp f \<noteq> None) \<and> gs = static_fields tp (f # fs) \<and>
      found' = (found \<or> tp \<noteq> [] \<and> tp \<in> sf_name ` set (f # fs))" .
    moreover have "distinct (map sf_name (f # fs)) \<longleftrightarrow> sf_name f \<notin> sf_name ` set fs \<and> distinct (map sf_name fs)"
      "[] \<notin> sf_name ` set (f # fs) \<longleftrightarrow> [] \<notin> sf_name ` set fs"
      "(\<forall>f \<in> set (f # fs). declared_type tp f \<noteq> None) \<longleftrightarrow> (\<forall>f \<in> set fs. declared_type tp f \<noteq> None)"
      using False t by auto
    ultimately show ?thesis by (simp only: conj_ac)
  qed
qed

text \<open>A static schema is accepted exactly when its field names are distinct, not empty and not
  reserved, its types are known, and the partitions it is created with are among the fields; the Arrow
  schema then has one nullable field for each declared one, in order, after the time of arrival, and
  the time partition is a timestamp whatever type was declared for it.\<close>

theorem static_schema_exact:
  "convert_static_schema_to_arrow_schema fs tp cp = Inr schema \<longleftrightarrow>
     acceptable_static fs tp cp \<and>
     schema = Field default_timestamp_key timestamp_millis True # static_fields tp fs"
proof -
  have partitions: "check_partitions fs cp = Inr () \<longleftrightarrow>
      (\<forall>c. cp = Some c \<longrightarrow> set (split_on CHR '','' c) \<subseteq> sf_name ` set fs)"
    by (auto simp: check_partitions_def find_None_iff find_Some_iff subset_iff split: option.splits)
      (metis nth_mem)
  have names: "field_name ` set (static_fields tp fs) = sf_name ` set fs"
    by (force simp: static_fields_def)
  show ?thesis
    unfolding convert_static_schema_to_arrow_schema_def acceptable_static_def
    by (auto simp: partitions names convert_fields_result add_parseable_fields_to_static_schema_def
        get_field_None split: if_splits)
qed

end
