(* ===== verification/Stream_Registry.thy ===== *)
theory Stream_Registry
  imports Event_Schema Validator
begin

text \<open>
  The streams a node knows (\<open>src/parseable/mod.rs\<close>, \<open>src/parseable/streams.rs\<close>, \<open>src/metadata.rs\<close>) and
  what storage holds of them (\<open>stream.json\<close> and the schema, written by the operations of
  \<open>src/storage/object_storage.rs\<close>): creating a stream, altering it, recording its log sources, and
  loading it from storage. A request's headers are those of
  \<open>src/handlers/http/modal/utils/logstream_utils.rs\<close>. Each access to storage has a flag in
  \<open>registry_env\<close>; a panic is \<open>None\<close>. Retention and hot tier are opaque.
\<close>

section \<open>Telemetry and log sources\<close>

datatype telemetry_type = Logs | Metrics | Traces | Events

definition telemetry_type_from :: "string \<Rightarrow> telemetry_type" where
  "telemetry_type_from s =
     (let l = to_lowercase s in
      if l = ''metrics'' then Metrics else if l = ''traces'' then Traces else if l = ''events'' then Events else Logs)"

fun telemetry_type_fmt :: "telemetry_type \<Rightarrow> string" where
  "telemetry_type_fmt Logs = ''logs''"
| "telemetry_type_fmt Metrics = ''metrics''"
| "telemetry_type_fmt Traces = ''traces''"
| "telemetry_type_fmt Events = ''events''"

record log_source_entry =
  log_source_format :: log_source
  lse_fields :: "string set"

fun merge_log_source :: "log_source_entry \<Rightarrow> log_source_entry list \<Rightarrow> log_source_entry list \<times> bool" where
  "merge_log_source e [] = ([e], True)"
| "merge_log_source e (s # ss) =
     (if log_source_format s = log_source_format e
      then let new = lse_fields e - lse_fields s in
        if new \<noteq> {} then (s\<lparr>lse_fields := lse_fields s \<union> new\<rparr> # ss, True) else (s # ss, False)
      else case merge_log_source e ss of (ss', changed) \<Rightarrow> (s # ss', changed))"

section \<open>State\<close>

text \<open>The metadata in memory, and the part of \<open>stream.json\<close> that corresponds to it.\<close>

record ('ret, 'hot) stream_meta =
  sm_created_at :: string
  sm_first_event_at :: "string option"
  sm_time_partition :: "string option"
  sm_time_partition_limit :: "nat option"
  sm_custom_partition :: "string option"
  sm_static_schema_flag :: bool
  sm_schema :: stream_schema
  sm_schema_version :: schema_version
  sm_stream_type :: stream_type
  sm_log_source :: "log_source_entry list"
  sm_telemetry_type :: telemetry_type
  sm_retention :: "'ret option"
  sm_hot_tier_enabled :: bool
  sm_hot_tier :: "'hot option"

record ('ret, 'hot) stream_format =
  sf_created_at :: string
  sf_first_event_at :: "string option"
  sf_time_partition :: "string option"
  sf_time_partition_limit :: "string option"
  sf_custom_partition :: "string option"
  sf_static_schema_flag :: bool
  sf_schema_version :: schema_version
  sf_stream_type :: stream_type
  sf_log_source :: "log_source_entry list"
  sf_telemetry_type :: telemetry_type
  sf_retention :: "'ret option"
  sf_hot_tier_enabled :: bool
  sf_hot_tier :: "'hot option"

record ('ret, 'hot) registry =
  streams :: "(string \<times> ('ret, 'hot) stream_meta) list"
  formats :: "(string \<times> ('ret, 'hot) stream_format) list"
  schemas :: "(string \<times> field list) list"

datatype node_mode = AllMode | QueryMode | IngestMode | PrismMode | IndexMode

record ('ret, 'hot) registry_env =
  re_mode :: node_mode
  re_now :: string
  wide_char :: "char \<Rightarrow> bool"
  put_schema_ok :: bool
  put_json_ok :: bool
  get_json_ok :: bool
  listed_streams :: "string list option"
  ingestor_formats :: "string \<Rightarrow> ('ret, 'hot) stream_format list option"
  fetched_schema :: "string \<Rightarrow> field list option"
  merge_schemas :: "field list \<Rightarrow> field list \<Rightarrow> field list option"
  parse_static_schema :: "string \<Rightarrow> schema_field list option"

datatype registry_error =
    StreamAlreadyExists
  | StreamMissing string
  | AlterTimePartition
  | AlterSchema
  | LimitWithoutSuffix
  | LimitNotNumber
  | BothPartitions
  | TooManyPartitions
  | PartitionHasDot string
  | EmptySchemaBody
  | BadSchemaBody
  | BadStaticSchema
  | PartitionNotInSchema string
  | TimeAsCustomPartition string
  | BadStreamName stream_name_error
  | StorageFailed
  | SchemaNotCommitted

text \<open>\<open>LogStreamMetadata::new\<close>.\<close>

definition new_stream_meta ::
  "string \<Rightarrow> string \<Rightarrow> string \<Rightarrow> nat option \<Rightarrow> string option \<Rightarrow> bool \<Rightarrow> stream_schema \<Rightarrow> stream_type
   \<Rightarrow> schema_version \<Rightarrow> log_source_entry list \<Rightarrow> telemetry_type \<Rightarrow> ('ret, 'hot) stream_meta" where
  "new_stream_meta now created_at time_partition limit custom_partition static schema ty version sources telemetry =
     \<lparr>sm_created_at = (if created_at = [] then now else created_at), sm_first_event_at = None,
      sm_time_partition = (if time_partition = [] then None else Some time_partition),
      sm_time_partition_limit = limit, sm_custom_partition = custom_partition,
      sm_static_schema_flag = static, sm_schema = schema, sm_schema_version = version,
      sm_stream_type = ty, sm_log_source = sources, sm_telemetry_type = telemetry,
      sm_retention = None, sm_hot_tier_enabled = False, sm_hot_tier = None\<rparr>"

definition get_or_create :: "string \<Rightarrow> ('ret, 'hot) stream_meta \<Rightarrow> ('ret, 'hot) registry \<Rightarrow> ('ret, 'hot) registry" where
  "get_or_create n m r = (if map_of (streams r) n \<noteq> None then r else r\<lparr>streams := (n, m) # streams r\<rparr>)"

definition update_meta ::
  "string \<Rightarrow> (('ret, 'hot) stream_meta \<Rightarrow> ('ret, 'hot) stream_meta) \<Rightarrow> ('ret, 'hot) registry \<Rightarrow> ('ret, 'hot) registry" where
  "update_meta n f r = (case map_of (streams r) n of None \<Rightarrow> r | Some m \<Rightarrow> r\<lparr>streams := AList.update n (f m) (streams r)\<rparr>)"

text \<open>Read, change and write back \<open>stream.json\<close>; storage without the stream fails to read it.\<close>

definition update_format ::
  "('ret, 'hot) registry_env \<Rightarrow> string \<Rightarrow> (('ret, 'hot) stream_format \<Rightarrow> ('ret, 'hot) stream_format)
   \<Rightarrow> ('ret, 'hot) registry \<Rightarrow> ('ret, 'hot) registry \<times> (registry_error + unit)" where
  "update_format env n f r =
     (case (if get_json_ok env then map_of (formats r) n else None) of
        None \<Rightarrow> (r, Inl StorageFailed)
      | Some g \<Rightarrow>
          if put_json_ok env then (r\<lparr>formats := AList.update n (f g) (formats r)\<rparr>, Inr ())
          else (r, Inl StorageFailed))"

section \<open>Checks of a request\<close>

definition parse_days :: "string \<Rightarrow> nat option" where
  "parse_days s =
     (case read_digits (case s of c # s' \<Rightarrow> if c = CHR ''+'' then s' else s | [] \<Rightarrow> []) of
        Some d \<Rightarrow> if 0 < d \<and> d < 2 ^ 32 then Some d else None
      | None \<Rightarrow> None)"

definition validate_time_partition_limit :: "string \<Rightarrow> registry_error + nat" where
  "validate_time_partition_limit s =
     (if \<not> suffix ''d'' s then Inl LimitWithoutSuffix
      else case parse_days (take (length s - 1) s) of None \<Rightarrow> Inl LimitNotNumber | Some d \<Rightarrow> Inr d)"

definition validate_custom_partition :: "string \<Rightarrow> registry_error + unit" where
  "validate_custom_partition s =
     (let ps = split_on CHR '','' s in
      if length ps > 1 then Inl TooManyPartitions
      else case find (\<lambda>p. CHR ''.'' \<in> set p) ps of
        Some p \<Rightarrow> Inl (PartitionHasDot p) | None \<Rightarrow> Inr ())"

definition validate_optional_partition :: "string option \<Rightarrow> registry_error + unit" where
  "validate_optional_partition cp = (case cp of None \<Rightarrow> Inr () | Some s \<Rightarrow> validate_custom_partition s)"

definition validate_static_schema ::
  "('ret, 'hot) registry_env \<Rightarrow> string \<Rightarrow> string \<Rightarrow> string option \<Rightarrow> bool \<Rightarrow> registry_error + field list" where
  "validate_static_schema env body time_partition custom_partition static =
     (if \<not> static then Inr []
      else if body = [] then Inl EmptySchemaBody
      else case parse_static_schema env body of
        None \<Rightarrow> Inl BadSchemaBody
      | Some fs \<Rightarrow>
          (case convert_static_schema_to_arrow_schema fs time_partition custom_partition of
             Inl _ \<Rightarrow> Inl BadStaticSchema | Inr s \<Rightarrow> Inr s))"

section \<open>Creating a stream\<close>

definition schema_map_of :: "field list \<Rightarrow> stream_schema" where
  "schema_map_of fs = fold (\<lambda>f. AList.update (field_name f) f) fs []"

definition create_stream ::
  "('ret, 'hot) registry_env \<Rightarrow> string \<Rightarrow> string \<Rightarrow> nat option \<Rightarrow> string option \<Rightarrow> bool \<Rightarrow> field list \<Rightarrow> stream_type
   \<Rightarrow> log_source_entry list \<Rightarrow> telemetry_type \<Rightarrow> ('ret, 'hot) registry
   \<Rightarrow> ('ret, 'hot) registry \<times> (registry_error + unit)" where
  "create_stream env n time_partition limit custom_partition static schema ty sources telemetry r =
     (case (if ty \<noteq> Internal then stream_name (wide_char env) n ty else Inr ()) of
        Inl e \<Rightarrow> (r, Inl (BadStreamName e))
      | Inr _ \<Rightarrow>
          if \<not> put_schema_ok env then (r, Inl StorageFailed)
          else let r1 = r\<lparr>schemas := AList.update n schema (schemas r)\<rparr> in
            if \<not> put_json_ok env then (r1, Inl StorageFailed)
            else let fmt = \<lparr>sf_created_at = re_now env, sf_first_event_at = None,
                sf_time_partition = (if time_partition = [] then None else Some time_partition),
                sf_time_partition_limit = map_option show_nat limit,
                sf_custom_partition = custom_partition, sf_static_schema_flag = static, sf_schema_version = V1,
                sf_stream_type = ty, sf_log_source = sources, sf_telemetry_type = telemetry,
                sf_retention = None, sf_hot_tier_enabled = False, sf_hot_tier = None\<rparr>
              in (get_or_create n (new_stream_meta (re_now env) (re_now env) time_partition limit custom_partition
                    static (schema_map_of schema) ty V1 sources telemetry)
                  (r1\<lparr>formats := AList.update n fmt (formats r1)\<rparr>), Inr ()))"

section \<open>Loading a stream from storage\<close>

definition merge_source_fields :: "log_source_entry list \<Rightarrow> log_source_entry list" where
  "merge_source_fields es = foldl (\<lambda>acc e.
     if log_source_format e \<in> log_source_format ` set acc
     then map (\<lambda>a. if log_source_format a = log_source_format e then a\<lparr>lse_fields := lse_fields a \<union> lse_fields e\<rparr> else a) acc
     else acc @ [e]) [] es"

text \<open>\<open>create_stream_from_ingestor\<close>: the file of this node, or the first ingestor's with the log sources
  of all, which is then written for this node; nothing when there is no ingestor's file.\<close>

definition create_stream_from_ingestor ::
  "('ret, 'hot) registry_env \<Rightarrow> string \<Rightarrow> ('ret, 'hot) registry
   \<Rightarrow> ('ret, 'hot) registry \<times> (registry_error + ('ret, 'hot) stream_format option)" where
  "create_stream_from_ingestor env n r =
     (if map_of (streams r) n \<noteq> None
      then (case (if get_json_ok env then map_of (formats r) n else None) of
              None \<Rightarrow> (r, Inl StorageFailed) | Some f \<Rightarrow> (r, Inr (Some f)))
      else case ingestor_formats env n of
        None \<Rightarrow> (r, Inr None)
      | Some [] \<Rightarrow> (r, Inr None)
      | Some (f # fs) \<Rightarrow>
          let g = f\<lparr>sf_log_source := merge_source_fields (concat (map sf_log_source (f # fs)))\<rparr> in
          if put_json_ok env then (r\<lparr>formats := AList.update n g (formats r)\<rparr>, Inr (Some g))
          else (r, Inl StorageFailed))"

definition create_schema_from_metastore ::
  "('ret, 'hot) registry_env \<Rightarrow> string \<Rightarrow> ('ret, 'hot) registry
   \<Rightarrow> ('ret, 'hot) registry \<times> (registry_error + field list)" where
  "create_schema_from_metastore env n r =
     (case fetched_schema env n of
        None \<Rightarrow> (r, Inl StorageFailed)
      | Some s \<Rightarrow>
          if put_schema_ok env then (r\<lparr>schemas := AList.update n s (schemas r)\<rparr>, Inr s)
          else (r, Inl StorageFailed))"

definition default_format :: "string \<Rightarrow> ('ret, 'hot) stream_format" where
  "default_format now =
     \<lparr>sf_created_at = now, sf_first_event_at = None, sf_time_partition = None, sf_time_partition_limit = None,
      sf_custom_partition = None, sf_static_schema_flag = False, sf_schema_version = V1,
      sf_stream_type = UserDefined, sf_log_source = [\<lparr>log_source_format = Json, lse_fields = {}\<rparr>], sf_telemetry_type = Logs,
      sf_retention = None, sf_hot_tier_enabled = False, sf_hot_tier = None\<rparr>"

definition loaded_meta ::
  "string \<Rightarrow> ('ret, 'hot) stream_format \<Rightarrow> field list \<Rightarrow> ('ret, 'hot) stream_meta" where
  "loaded_meta now f schema =
     (new_stream_meta now (sf_created_at f)
        (case sf_time_partition f of None \<Rightarrow> [] | Some tp \<Rightarrow> tp)
        (case sf_time_partition_limit f of None \<Rightarrow> None | Some l \<Rightarrow> parse_days l)
        (sf_custom_partition f) (sf_static_schema_flag f) (schema_map_of schema) (sf_stream_type f)
        (sf_schema_version f) (sf_log_source f) (sf_telemetry_type f))
      \<lparr>sm_hot_tier_enabled := sf_hot_tier_enabled f, sm_hot_tier := sf_hot_tier f\<rparr>"

definition set_hot_tier :: "'hot option \<Rightarrow> ('ret, 'hot) stream_meta \<Rightarrow> ('ret, 'hot) stream_meta" where
  "set_hot_tier h m = m\<lparr>sm_hot_tier := h, sm_hot_tier_enabled := (h \<noteq> None)\<rparr>"

definition commit_stream_schema ::
  "('ret, 'hot) registry_env \<Rightarrow> string \<Rightarrow> field list \<Rightarrow> ('ret, 'hot) registry
   \<Rightarrow> ('ret, 'hot) registry \<times> (registry_error + unit)" where
  "commit_stream_schema env n fs r =
     (case map_of (streams r) n of
        None \<Rightarrow> (r, Inl (StreamMissing n))
      | Some m \<Rightarrow>
          (case merge_schemas env (map snd (sm_schema m)) fs of
             None \<Rightarrow> (r, Inl SchemaNotCommitted)
           | Some gs \<Rightarrow> (update_meta n (\<lambda>m. m\<lparr>sm_schema := schema_map_of gs\<rparr>) r, Inr ())))"

definition create_stream_and_schema_from_storage ::
  "('ret, 'hot) registry_env \<Rightarrow> string \<Rightarrow> ('ret, 'hot) registry
   \<Rightarrow> ('ret, 'hot) registry \<times> (registry_error + bool)" where
  "create_stream_and_schema_from_storage env n r =
     (case listed_streams env of
        None \<Rightarrow> (r, Inl StorageFailed)
      | Some names \<Rightarrow>
          if n \<notin> set names then (r, Inr False)
          else case create_stream_from_ingestor env n r of
            (r1, Inl e) \<Rightarrow> (r1, Inl e)
          | (r1, Inr found) \<Rightarrow>
              (case create_schema_from_metastore env n r1 of
                 (r2, Inl e) \<Rightarrow> (r2, Inl e)
               | (r2, Inr schema) \<Rightarrow>
                   let f = (case found of Some f \<Rightarrow> f | None \<Rightarrow> default_format (re_now env));
                       r3 = get_or_create n (loaded_meta (re_now env) f schema) r2;
                       r4 = (case sf_hot_tier f of Some h \<Rightarrow> update_meta n (set_hot_tier (Some h)) r3 | None \<Rightarrow> r3)
                   in (case commit_stream_schema env n schema r4 of
                         (r5, Inl e) \<Rightarrow> (r5, Inl e) | (r5, Inr _) \<Rightarrow> (r5, Inr True))))"

definition check_or_load_stream ::
  "('ret, 'hot) registry_env \<Rightarrow> string \<Rightarrow> ('ret, 'hot) registry \<Rightarrow> ('ret, 'hot) registry \<times> bool" where
  "check_or_load_stream env n r =
     (if map_of (streams r) n \<noteq> None then (r, True)
      else if re_mode env = QueryMode \<or> re_mode env = PrismMode
      then (case create_stream_and_schema_from_storage env n r of
              (r', Inr b) \<Rightarrow> (r', b) | (r', Inl _) \<Rightarrow> (r', False))
      else (r, False))"

definition create_stream_if_not_exists ::
  "('ret, 'hot) registry_env \<Rightarrow> string \<Rightarrow> stream_type \<Rightarrow> string option \<Rightarrow> log_source_entry list \<Rightarrow> telemetry_type
   \<Rightarrow> ('ret, 'hot) registry \<Rightarrow> ('ret, 'hot) registry \<times> (registry_error + bool)" where
  "create_stream_if_not_exists env n ty custom_partition sources telemetry r =
     (if map_of (streams r) n \<noteq> None then (r, Inr True)
      else case validate_optional_partition custom_partition of
        Inl e \<Rightarrow> (r, Inl e)
      | Inr _ \<Rightarrow>
          (case (if re_mode env \<noteq> AllMode then create_stream_and_schema_from_storage env n r else (r, Inr False)) of
             (r1, Inl e) \<Rightarrow> (r1, Inl e)
           | (r1, Inr True) \<Rightarrow> (r1, Inr True)
           | (r1, Inr False) \<Rightarrow>
               (case create_stream env n [] None custom_partition False [] ty sources telemetry r1 of
                  (r2, Inl e) \<Rightarrow> (r2, Inl e) | (r2, Inr _) \<Rightarrow> (r2, Inr False))))"

section \<open>Altering a stream\<close>

text \<open>The log sources are changed in memory first and then in storage.\<close>

definition add_update_log_source ::
  "('ret, 'hot) registry_env \<Rightarrow> string \<Rightarrow> log_source_entry \<Rightarrow> ('ret, 'hot) registry
   \<Rightarrow> (('ret, 'hot) registry \<times> (registry_error + unit)) option" where
  "add_update_log_source env n e r =
     (case map_of (streams r) n of
        None \<Rightarrow> None
      | Some m \<Rightarrow>
          (case merge_log_source e (sm_log_source m) of
             (ss, True) \<Rightarrow>
               Some (update_format env n (\<lambda>f. f\<lparr>sf_log_source := ss\<rparr>)
                 (update_meta n (\<lambda>m. m\<lparr>sm_log_source := ss\<rparr>) r))
           | (_, False) \<Rightarrow> Some (r, Inr ())))"

definition update_time_partition_limit_in_stream ::
  "('ret, 'hot) registry_env \<Rightarrow> string \<Rightarrow> nat \<Rightarrow> ('ret, 'hot) registry
   \<Rightarrow> ('ret, 'hot) registry \<times> (registry_error + unit)" where
  "update_time_partition_limit_in_stream env n limit r =
     (case update_format env n (\<lambda>f. f\<lparr>sf_time_partition_limit := Some (show_nat limit)\<rparr>) r of
        (r1, Inl e) \<Rightarrow> (r1, Inl e)
      | (r1, Inr _) \<Rightarrow>
          if map_of (streams r1) n \<noteq> None
          then (update_meta n (\<lambda>m. m\<lparr>sm_time_partition_limit := Some limit\<rparr>) r1, Inr ())
          else (r1, Inl (StreamMissing n)))"

definition check_custom_in_schema :: "('ret, 'hot) stream_meta \<Rightarrow> string option \<Rightarrow> registry_error + unit" where
  "check_custom_in_schema m custom_partition =
     (case (sm_static_schema_flag m, custom_partition) of
        (True, Some cp) \<Rightarrow>
          (case find (\<lambda>p. p \<notin> set (map field_name (map snd (sm_schema m)))) (split_on CHR '','' cp) of
             Some p \<Rightarrow> Inl (PartitionNotInSchema p)
           | None \<Rightarrow>
               (case find (\<lambda>p. sm_time_partition m = Some p) (split_on CHR '','' cp) of
                  Some p \<Rightarrow> Inl (TimeAsCustomPartition p) | None \<Rightarrow> Inr ()))
      | _ \<Rightarrow> Inr ())"

definition update_custom_partition_in_stream ::
  "('ret, 'hot) registry_env \<Rightarrow> string \<Rightarrow> string option \<Rightarrow> ('ret, 'hot) registry
   \<Rightarrow> (('ret, 'hot) registry \<times> (registry_error + unit)) option" where
  "update_custom_partition_in_stream env n custom_partition r =
     (case map_of (streams r) n of
        None \<Rightarrow> None
      | Some m \<Rightarrow>
          (case check_custom_in_schema m custom_partition of
             Inl e \<Rightarrow> Some (r, Inl e)
           | Inr _ \<Rightarrow>
               (case update_format env n (\<lambda>f. f\<lparr>sf_custom_partition := custom_partition\<rparr>) r of
                  (r1, Inl e) \<Rightarrow> Some (r1, Inl e)
                | (r1, Inr _) \<Rightarrow>
                    Some (update_meta n (\<lambda>m. m\<lparr>sm_custom_partition := custom_partition\<rparr>) r1, Inr ()))))"

definition validate_and_update_custom_partition ::
  "('ret, 'hot) registry_env \<Rightarrow> string \<Rightarrow> string option \<Rightarrow> ('ret, 'hot) registry
   \<Rightarrow> (('ret, 'hot) registry \<times> (registry_error + unit)) option" where
  "validate_and_update_custom_partition env n custom_partition r =
     (case map_of (streams r) n of
        None \<Rightarrow> None
      | Some m \<Rightarrow>
          if sm_time_partition m \<noteq> None then Some (r, Inl BothPartitions)
          else (case validate_optional_partition custom_partition of
            Inl e \<Rightarrow> Some (r, Inl e)
          | Inr _ \<Rightarrow> update_custom_partition_in_stream env n custom_partition r))"

definition update_stream ::
  "('ret, 'hot) registry_env \<Rightarrow> string \<Rightarrow> string \<Rightarrow> bool \<Rightarrow> string \<Rightarrow> string option \<Rightarrow> ('ret, 'hot) registry
   \<Rightarrow> (('ret, 'hot) registry \<times> (registry_error + unit)) option" where
  "update_stream env n time_partition static limit custom_partition r =
     (if map_of (streams r) n = None then Some (r, Inl (StreamMissing n))
      else if time_partition \<noteq> [] then Some (r, Inl AlterTimePartition)
      else if static then Some (r, Inl AlterSchema)
      else if limit \<noteq> []
      then (case validate_time_partition_limit limit of
              Inl e \<Rightarrow> Some (r, Inl e)
            | Inr d \<Rightarrow> Some (update_time_partition_limit_in_stream env n d r))
      else validate_and_update_custom_partition env n custom_partition r)"

record put_stream_headers =
  h_time_partition :: string
  h_time_partition_limit :: string
  h_custom_partition :: "string option"
  h_static_schema_flag :: bool
  h_update_stream_flag :: bool
  h_stream_type :: stream_type
  h_log_source :: log_source
  h_telemetry_type :: telemetry_type

definition create_new_stream ::
  "('ret, 'hot) registry_env \<Rightarrow> put_stream_headers \<Rightarrow> string \<Rightarrow> string \<Rightarrow> ('ret, 'hot) registry
   \<Rightarrow> ('ret, 'hot) registry \<times> (registry_error + unit)" where
  "create_new_stream env h body n r =
     (case (bind_result
         (if h_time_partition_limit h = [] then Inr None
          else bind_result (validate_time_partition_limit (h_time_partition_limit h)) (\<lambda>d. Inr (Some d)))
         (\<lambda>limit. bind_result (validate_optional_partition (h_custom_partition h)) (\<lambda>_.
          if h_time_partition h \<noteq> [] \<and> h_custom_partition h \<noteq> None then Inl BothPartitions
          else bind_result (validate_static_schema env body (h_time_partition h) (h_custom_partition h)
                 (h_static_schema_flag h)) (\<lambda>schema. Inr (limit, schema))))) of
        Inl e \<Rightarrow> (r, Inl e)
      | Inr (limit, schema) \<Rightarrow>
          create_stream env n (h_time_partition h) limit (h_custom_partition h) (h_static_schema_flag h) schema
            (h_stream_type h) [\<lparr>log_source_format = h_log_source h, lse_fields = {}\<rparr>] (h_telemetry_type h) r)"

definition create_update_stream ::
  "('ret, 'hot) registry_env \<Rightarrow> put_stream_headers \<Rightarrow> string \<Rightarrow> string \<Rightarrow> ('ret, 'hot) registry
   \<Rightarrow> (('ret, 'hot) registry \<times> (registry_error + unit)) option" where
  "create_update_stream env h body n r =
     (let in_memory = map_of (streams r) n \<noteq> None in
      case (if \<not> in_memory \<and> (re_mode env = QueryMode \<or> re_mode env = PrismMode)
            then create_stream_and_schema_from_storage env n r else (r, Inr False)) of
        (r1, Inl e) \<Rightarrow> Some (r1, Inl e)
      | (r1, Inr in_storage_only) \<Rightarrow>
          if (in_memory \<and> \<not> h_update_stream_flag h) \<or> in_storage_only then Some (r1, Inl StreamAlreadyExists)
          else if h_update_stream_flag h
          then update_stream env n (h_time_partition h) (h_static_schema_flag h) (h_time_partition_limit h)
                 (h_custom_partition h) r1
          else Some (create_new_stream env h body n r1))"

section \<open>Memory agrees with storage\<close>

definition agrees :: "('ret, 'hot) stream_meta \<Rightarrow> ('ret, 'hot) stream_format \<Rightarrow> bool" where
  "agrees m f \<longleftrightarrow>
     sm_time_partition m = sf_time_partition f \<and>
     map_option show_nat (sm_time_partition_limit m) = sf_time_partition_limit f \<and>
     sm_custom_partition m = sf_custom_partition f \<and>
     sm_static_schema_flag m = sf_static_schema_flag f \<and>
     sm_stream_type m = sf_stream_type f \<and> sm_schema_version m = sf_schema_version f \<and>
     sm_log_source m = sf_log_source f \<and> sm_telemetry_type m = sf_telemetry_type f"

definition registry_ok :: "('ret, 'hot) registry \<Rightarrow> bool" where
  "registry_ok r \<longleftrightarrow> (\<forall>n m. map_of (streams r) n = Some m \<longrightarrow> (\<exists>f. map_of (formats r) n = Some f \<and> agrees m f))"

text \<open>What ingestors wrote is what a server writes: a time partition has a name, a limit is a number of
  days.\<close>

definition format_wf :: "('ret, 'hot) stream_format \<Rightarrow> bool" where
  "format_wf f \<longleftrightarrow> sf_time_partition f \<noteq> Some [] \<and>
     (\<forall>l. sf_time_partition_limit f = Some l \<longrightarrow> (\<exists>d. 0 < d \<and> d < 2 ^ 32 \<and> l = show_nat d))"

definition ingestors_known :: "('ret, 'hot) registry_env \<Rightarrow> bool" where
  "ingestors_known env \<longleftrightarrow> (\<forall>names n. listed_streams env = Some names \<longrightarrow> n \<in> set names \<longrightarrow>
     (\<exists>f fs. ingestor_formats env n = Some (f # fs) \<and> format_wf f))"

lemma parse_show_days: "0 < d \<Longrightarrow> d < 2 ^ 32 \<Longrightarrow> parse_days (show_nat d) = Some d"
  using show_nat_no_plus [of d] read_show_nat [of d] by (cases "show_nat d") (auto simp: parse_days_def)

lemma limit_parses: "0 < d \<Longrightarrow> d < 2 ^ 32 \<Longrightarrow> validate_time_partition_limit (show_nat d @ ''d'') = Inr d"
  by (simp add: validate_time_partition_limit_def parse_show_days)

text \<open>The limit of a time partition written in days is read back as the same number.\<close>

theorem limit_roundtrip:
  "0 < d \<Longrightarrow> d < 2 ^ 32 \<Longrightarrow> validate_time_partition_limit (show_nat d @ ''d'') = Inr d"
  by (rule limit_parses)

theorem limit_roundtrip_witness: "validate_time_partition_limit (show_nat 30 @ ''d'') = Inr 30"
  by (rule limit_roundtrip) simp_all

lemma registry_ok_format:
  assumes "registry_ok r" and "\<And>m. map_of (streams r) n = Some m \<Longrightarrow> agrees m g"
  shows "registry_ok (r\<lparr>formats := AList.update n g (formats r)\<rparr>)"
  using assms by (auto simp: registry_ok_def update_conv')

lemma registry_ok_meta:
  assumes "registry_ok r" and "\<And>m g. agrees m g \<Longrightarrow> agrees (h m) g"
  shows "registry_ok (update_meta n h r)"
  unfolding registry_ok_def
proof (intro allI impI)
  fix k m assume "map_of (streams (update_meta n h r)) k = Some m"
  then obtain m' where "map_of (streams r) k = Some m'" "m = m' \<or> m = h m'"
    by (auto simp: update_meta_def update_conv' split: option.splits if_splits)
  with assms show "\<exists>f. map_of (formats (update_meta n h r)) k = Some f \<and> agrees m f"
    by (fastforce simp: registry_ok_def update_meta_def split: option.splits)
qed

lemma create_stream_ok:
  assumes "registry_ok r" and "map_of (streams r) n = None"
    and "create_stream env n tp limit cp static schema ty sources telemetry r = (r', res)"
  shows "registry_ok r'"
  using assms
  by (auto simp: create_stream_def Let_def get_or_create_def registry_ok_def agrees_def new_stream_meta_def
      update_conv' split: sum.splits if_splits)

lemma load_ok:
  assumes "registry_ok r" and "map_of (streams r) n = None" and "ingestors_known env"
    and "create_stream_and_schema_from_storage env n r = (r', res)"
  shows "registry_ok r' \<and> (res = Inr False \<longrightarrow> r' = r)"
proof (cases "\<exists>names. listed_streams env = Some names \<and> n \<in> set names")
  case False
  with assms(1,4) show ?thesis
    by (auto simp: create_stream_and_schema_from_storage_def split: option.splits if_splits)
next
  case True
  then obtain names where names: "listed_streams env = Some names" "n \<in> set names" by blast
  obtain f fs where f: "ingestor_formats env n = Some (f # fs)" "format_wf f"
    using assms(3) names unfolding ingestors_known_def by blast
  define g where "g = f\<lparr>sf_log_source := merge_source_fields (concat (map sf_log_source (f # fs)))\<rparr>"
  have g: "format_wf g" using f(2) by (simp add: g_def format_wf_def)
  show ?thesis
  proof (cases "put_json_ok env")
    case False
    with names f assms(1,2,4) show ?thesis
      by (auto simp: create_stream_and_schema_from_storage_def create_stream_from_ingestor_def)
  next
    case True
    let ?r1 = "r\<lparr>formats := AList.update n g (formats r)\<rparr>"
    have r1: "create_stream_from_ingestor env n r = (?r1, Inr (Some g))"
      using True f assms(2) by (simp add: create_stream_from_ingestor_def g_def Let_def)
    have ok1: "registry_ok ?r1" by (rule registry_ok_format [OF assms(1)]) (simp add: assms(2))
    show ?thesis
    proof (cases "\<exists>schema. fetched_schema env n = Some schema \<and> put_schema_ok env")
      case False
      with names r1 ok1 assms(4) show ?thesis
        by (auto simp: create_stream_and_schema_from_storage_def create_schema_from_metastore_def split: option.splits if_splits)
    next
      case True
      then obtain schema where schema: "fetched_schema env n = Some schema" "put_schema_ok env" by blast
      let ?r2 = "?r1\<lparr>schemas := AList.update n schema (schemas r)\<rparr>"
      let ?m = "loaded_meta (re_now env) g schema"
      let ?r3 = "?r2\<lparr>streams := (n, ?m) # streams r\<rparr>"
      have m: "agrees ?m g"
        using g parse_show_days
        by (auto simp: agrees_def loaded_meta_def new_stream_meta_def format_wf_def split: option.splits)
      have ok3: "registry_ok ?r3"
        using assms(1) m by (auto simp: registry_ok_def update_conv')
      define r4 where "r4 = (case sf_hot_tier g of Some h \<Rightarrow> update_meta n (set_hot_tier (Some h)) ?r3 | None \<Rightarrow> ?r3)"
      have ok4: "registry_ok r4"
        using ok3 registry_ok_meta [OF ok3, of "set_hot_tier h" n for h]
        by (cases "sf_hot_tier g") (simp_all add: r4_def set_hot_tier_def agrees_def)
      have "create_stream_and_schema_from_storage env n r =
          (case commit_stream_schema env n schema r4 of (r5, Inl e) \<Rightarrow> (r5, Inl e) | (r5, Inr _) \<Rightarrow> (r5, Inr True))"
        using names schema assms(2)
        by (cases "sf_hot_tier g")
          (simp_all add: create_stream_and_schema_from_storage_def r1 create_schema_from_metastore_def get_or_create_def
            r4_def Let_def)
      moreover have "registry_ok (fst (commit_stream_schema env n schema r4))"
        using ok4 registry_ok_meta [OF ok4]
        by (auto simp: commit_stream_schema_def agrees_def split: option.splits)
      ultimately show ?thesis using assms(4) by (auto split: prod.splits sum.splits)
    qed
  qed
qed

lemma update_format_ok:
  assumes "registry_ok r" and "update_format env n f r = (r', res)"
    and "\<And>m g. map_of (streams r) n = Some m \<Longrightarrow> agrees m g \<Longrightarrow> agrees (h m) (f g)"
  shows "(res = Inr () \<longrightarrow> registry_ok (update_meta n h r')) \<and> (res \<noteq> Inr () \<longrightarrow> r' = r) \<and> streams r' = streams r"
proof (cases "map_of (streams r) n")
  case None
  with assms show ?thesis
    by (auto simp: update_format_def update_meta_def registry_ok_def update_conv' split: option.splits if_splits)
next
  case (Some m)
  with assms(1) obtain g where g: "map_of (formats r) n = Some g" "agrees m g" by (auto simp: registry_ok_def)
  with assms Some show ?thesis
    by (auto simp: update_format_def update_meta_def registry_ok_def update_conv' split: if_splits)
qed

lemma update_stream_ok:
  assumes "registry_ok r" and "update_stream env n tp static limit cp r = Some (r', res)"
  shows "registry_ok r'"
proof -
  consider "r' = r" | d where "update_time_partition_limit_in_stream env n d r = (r', res)"
    | "update_custom_partition_in_stream env n cp r = Some (r', res)"
    using assms(2)
    by (auto simp: update_stream_def validate_and_update_custom_partition_def split: if_splits sum.splits option.splits)
  then show ?thesis
  proof cases
    case 1
    with assms(1) show ?thesis by simp
  next
    case 2
    let ?f = "\<lambda>f. f\<lparr>sf_time_partition_limit := Some (show_nat d)\<rparr>"
    let ?h = "\<lambda>m. m\<lparr>sm_time_partition_limit := Some d\<rparr>"
    obtain r1 res1 where u: "update_format env n ?f r = (r1, res1)" by force
    have "(res1 = Inr () \<longrightarrow> registry_ok (update_meta n ?h r1)) \<and> (res1 \<noteq> Inr () \<longrightarrow> r1 = r) \<and> streams r1 = streams r"
      by (rule update_format_ok [OF assms(1) u]) (simp add: agrees_def)
    with 2 u assms(1) show ?thesis
      by (cases res1) (auto simp: update_time_partition_limit_in_stream_def update_meta_def split: if_splits option.splits)
  next
    case 3
    let ?f = "\<lambda>f. f\<lparr>sf_custom_partition := cp\<rparr>"
    let ?h = "\<lambda>m. m\<lparr>sm_custom_partition := cp\<rparr>"
    obtain r1 res1 where u: "update_format env n ?f r = (r1, res1)" by force
    have "(res1 = Inr () \<longrightarrow> registry_ok (update_meta n ?h r1)) \<and> (res1 \<noteq> Inr () \<longrightarrow> r1 = r) \<and> streams r1 = streams r"
      by (rule update_format_ok [OF assms(1) u]) (simp add: agrees_def)
    with 3 u assms(1) show ?thesis
      by (cases res1) (auto simp: update_custom_partition_in_stream_def split: sum.splits option.splits)
  qed
qed

lemma create_update_stream_ok:
  assumes ok: "registry_ok r" and env: "ingestors_known env"
    and run: "create_update_stream env h body n r = Some (r', res)"
  shows "registry_ok r'"
proof -
  let ?load = "map_of (streams r) n = None \<and> (re_mode env = QueryMode \<or> re_mode env = PrismMode)"
  obtain r1 res1 where l: "(if ?load then create_stream_and_schema_from_storage env n r else (r, Inr False)) = (r1, res1)"
    by force
  have r1: "registry_ok r1 \<and> (res1 = Inr False \<longrightarrow> r1 = r)"
    using l load_ok [OF ok _ env] ok by (cases ?load) auto
  have run': "(case res1 of Inl e \<Rightarrow> Some (r1, Inl e)
      | Inr b \<Rightarrow> if (map_of (streams r) n \<noteq> None \<and> \<not> h_update_stream_flag h) \<or> b then Some (r1, Inl StreamAlreadyExists)
          else if h_update_stream_flag h
          then update_stream env n (h_time_partition h) (h_static_schema_flag h) (h_time_partition_limit h) (h_custom_partition h) r1
          else Some (create_new_stream env h body n r1)) = Some (r', res)"
    using run l by (cases "h_update_stream_flag h"; cases res1) (simp_all add: create_update_stream_def Let_def)
  show ?thesis
  proof (cases "res1 = Inr False")
    case False
    with run' r1 show ?thesis by (cases res1) (auto split: if_splits)
  next
    case True
    with r1 have "r1 = r" by simp
    with True run' consider "r' = r" | "update_stream env n (h_time_partition h) (h_static_schema_flag h)
        (h_time_partition_limit h) (h_custom_partition h) r = Some (r', res)"
      | "map_of (streams r) n = None" "create_new_stream env h body n r = (r', res)"
      by (auto split: if_splits)
    then show ?thesis
    proof cases
      case 3
      then show ?thesis
        using create_stream_ok [OF ok 3(1)] ok by (auto simp: create_new_stream_def split: sum.splits)
    qed (use ok update_stream_ok [OF ok] in auto)
  qed
qed

lemma create_if_not_exists_ok:
  assumes ok: "registry_ok r" and env: "ingestors_known env"
    and run: "create_stream_if_not_exists env n ty cp sources telemetry r = (r', res)"
  shows "registry_ok r'"
proof (cases "map_of (streams r) n = None \<and> validate_optional_partition cp = Inr ()")
  case False
  with run ok show ?thesis
    by (auto simp: create_stream_if_not_exists_def split: if_splits sum.splits)
next
  case True
  obtain r1 res1 where l: "(if re_mode env \<noteq> AllMode then create_stream_and_schema_from_storage env n r else (r, Inr False)) = (r1, res1)"
    by force
  have r1: "registry_ok r1 \<and> (res1 = Inr False \<longrightarrow> r1 = r)"
    using l load_ok [OF ok _ env] ok True by (cases "re_mode env \<noteq> AllMode") auto
  obtain r2 res2 where c: "create_stream env n [] None cp False [] ty sources telemetry r1 = (r2, res2)" by force
  have "res1 = Inr False \<longrightarrow> registry_ok r2"
    using r1 c True create_stream_ok [OF ok] by auto
  with run True l c r1 show ?thesis
    by (auto simp: create_stream_if_not_exists_def split: sum.splits bool.splits)
qed

text \<open>C10: A request that creates, loads or alters a stream leaves every stream in memory with the
  settings its \<open>stream.json\<close> holds (partitions, limit, schema flag and version, type, log sources and
  telemetry), when it was so before. Any write may fail, and so may the listing of streams, the reading of the
  server's own \<open>stream.json\<close> and of schemas, at any point of the request. It is assumed that, when a stream
  that storage lists is loaded, the ingestors' \<open>stream.json\<close> are read and the first of them is well formed
  (a time partition with a name, a limit in days); otherwise default settings are loaded
  (\<open>unread_ingestors_load_defaults\<close>).\<close>

theorem settings_agree:
  assumes "registry_ok r" and "ingestors_known env"
  shows "(\<forall>r' res. create_update_stream env h body n r = Some (r', res) \<longrightarrow> registry_ok r') \<and>
    (\<forall>r' res. create_stream_if_not_exists env n ty cp sources telemetry r = (r', res) \<longrightarrow> registry_ok r') \<and>
    registry_ok (fst (check_or_load_stream env n r))"
  using create_update_stream_ok [OF assms] create_if_not_exists_ok [OF assms] load_ok [OF assms(1) _ assms(2)] assms(1)
  by (fastforce simp: check_or_load_stream_def split: prod.splits sum.splits)

definition demo_env :: "(nat, nat) registry_env" where
  "demo_env = \<lparr>re_mode = QueryMode, re_now = ''2024-01-01T00:00:00Z'', wide_char = (\<lambda>_. False),
     put_schema_ok = True, put_json_ok = True, get_json_ok = True, listed_streams = Some [''web''],
     ingestor_formats = (\<lambda>_. Some [(default_format ''2023-01-01T00:00:00Z'')
        \<lparr>sf_time_partition := Some ''at'', sf_time_partition_limit := Some (show_nat 30), sf_retention := Some 7\<rparr>]),
     fetched_schema = (\<lambda>_. Some []), merge_schemas = (\<lambda>a b. Some (a @ b)), parse_static_schema = (\<lambda>_. None)\<rparr>"

lemma demo_env_known: "ingestors_known demo_env"
  by (auto simp: ingestors_known_def demo_env_def format_wf_def default_format_def intro: exI [of _ 30])

theorem settings_agree_witness:
  "registry_ok (fst (check_or_load_stream demo_env ''web'' \<lparr>streams = [], formats = [], schemas = []\<rparr>)) \<and>
   map sm_time_partition_limit (map snd (streams (fst (check_or_load_stream demo_env ''web''
     \<lparr>streams = [], formats = [], schemas = []\<rparr>)))) = [Some 30]"
proof
  show "registry_ok (fst (check_or_load_stream demo_env ''web'' \<lparr>streams = [], formats = [], schemas = []\<rparr>))"
    using settings_agree [of "\<lparr>streams = [], formats = [], schemas = []\<rparr>" demo_env] demo_env_known
    by (simp add: registry_ok_def)
qed (simp add: check_or_load_stream_def create_stream_and_schema_from_storage_def create_stream_from_ingestor_def
    create_schema_from_metastore_def get_or_create_def commit_stream_schema_def update_meta_def loaded_meta_def
    new_stream_meta_def default_format_def parse_show_days schema_map_of_def Let_def demo_env_def)

section \<open>Where memory and storage part\<close>

text \<open>When the ingestors' \<open>stream.json\<close> cannot be read, a stream that storage lists is loaded with default
  settings, whatever its own \<open>stream.json\<close> holds, and that is left as it is.\<close>

theorem unread_ingestors_load_defaults:
  assumes "map_of (streams r) n = None" and "listed_streams env = Some names" and "n \<in> set names"
    and "ingestor_formats env n = None" and "fetched_schema env n = Some schema" and "put_schema_ok env"
  shows "\<exists>m. map_of (streams (fst (create_stream_and_schema_from_storage env n r))) n = Some m \<and>
    agrees m (default_format now) \<and> formats (fst (create_stream_and_schema_from_storage env n r)) = formats r"
  using assms
  by (auto simp: create_stream_and_schema_from_storage_def create_stream_from_ingestor_def
      create_schema_from_metastore_def get_or_create_def commit_stream_schema_def update_meta_def loaded_meta_def
      new_stream_meta_def default_format_def agrees_def Let_def update_conv' split: option.splits)

definition demo_registry :: "(nat, nat) registry" where
  "demo_registry = fst (create_stream (demo_env\<lparr>re_mode := AllMode\<rparr>) ''web'' [] None None False [] UserDefined
     [\<lparr>log_source_format = Json, lse_fields = {}\<rparr>] Logs \<lparr>streams = [], formats = [], schemas = []\<rparr>)"

lemma demo_name_ok: "stream_name (\<lambda>_. False) ''web'' UserDefined = Inr ()"
  by code_simp

lemmas registry_run_defs = create_stream_def get_or_create_def update_meta_def update_format_def new_stream_meta_def
  schema_map_of_def demo_env_def demo_registry_def demo_name_ok Let_def

text \<open>A log source recorded while \<open>stream.json\<close> cannot be written stays in memory only: the request
  fails, and when it is repeated the source is found in memory, so the repetition succeeds without
  writing and storage never learns of it.\<close>

theorem log_source_lost:
  assumes "map_of (streams r) n = Some m" and "log_source_format e \<notin> log_source_format ` set (sm_log_source m)"
    and "\<not> put_json_ok env \<or> \<not> get_json_ok env" and "distinct (map fst (streams r))"
  obtains r' m' where "add_update_log_source env n e r = Some (r', Inl StorageFailed)"
    and "formats r' = formats r" and "map_of (streams r') n = Some m'" and "e \<in> set (sm_log_source m')"
    and "\<And>env'. add_update_log_source env' n e r' = Some (r', Inr ())"
proof -
  have new: "merge_log_source e ss = (ss @ [e], True) \<and> merge_log_source e (ss @ [e]) = (ss @ [e], False)"
    if "log_source_format e \<notin> log_source_format ` set ss" for ss
    using that by (induction ss) auto
  let ?m = "m\<lparr>sm_log_source := sm_log_source m @ [e]\<rparr>"
  let ?r = "r\<lparr>streams := AList.update n ?m (streams r)\<rparr>"
  have run: "add_update_log_source env n e r = Some (?r, Inl StorageFailed)"
    using assms(1,3) new [OF assms(2)]
    by (auto simp: add_update_log_source_def update_format_def update_meta_def split: option.splits)
  have again: "add_update_log_source env' n e ?r = Some (?r, Inr ())" for env' :: "('a, 'b) registry_env"
    using new [OF assms(2)] by (simp add: add_update_log_source_def update_conv')
  show ?thesis
    by (rule that [of ?r ?m, OF run _ _ _ again]) (simp_all add: update_conv')
qed

theorem log_source_lost_witness:
  "\<exists>r' m'. add_update_log_source (demo_env\<lparr>put_json_ok := False\<rparr>) ''web''
       \<lparr>log_source_format = OtelLogs, lse_fields = {}\<rparr> demo_registry = Some (r', Inl StorageFailed) \<and>
     formats r' = formats demo_registry \<and> map_of (streams r') ''web'' = Some m'"
proof -
  obtain m where m: "map_of (streams demo_registry) ''web'' = Some m"
    and s: "sm_log_source m = [\<lparr>log_source_format = Json, lse_fields = {}\<rparr>]"
    by (simp add: registry_run_defs)
  have d: "distinct (map fst (streams demo_registry))" by (simp add: registry_run_defs)
  show ?thesis
    by (rule log_source_lost [OF m, of "\<lparr>log_source_format = OtelLogs, lse_fields = {}\<rparr>" "demo_env\<lparr>put_json_ok := False\<rparr>"])
      (use s d in auto)
qed

text \<open>A stream that a query node loads from storage has no retention in memory, although \<open>stream.json\<close>
  holds one: the settings of the file are copied except this one.\<close>

theorem loaded_without_retention:
  assumes "map_of (streams r) n = None" and "check_or_load_stream env n r = (r', True)"
    and "map_of (streams r') n = Some m"
  shows "sm_retention m = None"
proof -
  have kept: "sm_retention m' = None"
    if "\<And>m. map_of (streams r) n = Some m \<Longrightarrow> sm_retention m = None" and "\<And>m. sm_retention (h m) = sm_retention m"
      and "map_of (streams (update_meta n h r)) n = Some m'"
    for r :: "('a, 'b) registry" and h m'
    using that by (auto simp: update_meta_def update_conv' split: option.splits)
  have start: "sm_retention m' = None"
    if "map_of (streams (get_or_create n (loaded_meta t f s) r2)) n = Some m'" "map_of (streams r2) n = None" for t f s r2 m'
    using that by (auto simp: get_or_create_def loaded_meta_def new_stream_meta_def)
  have same: "streams (fst (create_stream_from_ingestor env n r)) = streams r"
    "streams (fst (create_schema_from_metastore env n r2)) = streams r2" for r2
    by (auto simp: create_stream_from_ingestor_def create_schema_from_metastore_def Let_def split: option.splits list.splits)
  obtain r1 found where a: "create_stream_from_ingestor env n r = (r1, found)" by force
  obtain r2 schema where b: "create_schema_from_metastore env n r1 = (r2, schema)" by force
  have none: "map_of (streams r2) n = None" using same(1) same(2) [of r1] a b assms(1) by simp
  have "create_stream_and_schema_from_storage env n r = (r', Inr True)"
    using assms(1,2) by (auto simp: check_or_load_stream_def split: if_splits sum.splits prod.splits)
  then obtain f0 s where "found = Inr f0" "schema = Inr s"
    and c: "(case sf_hot_tier (case f0 of Some f \<Rightarrow> f | None \<Rightarrow> default_format (re_now env)) of
        Some h \<Rightarrow> commit_stream_schema env n s (update_meta n (set_hot_tier (Some h))
          (get_or_create n (loaded_meta (re_now env) (case f0 of Some f \<Rightarrow> f | None \<Rightarrow> default_format (re_now env)) s) r2))
      | None \<Rightarrow> commit_stream_schema env n s
          (get_or_create n (loaded_meta (re_now env) (case f0 of Some f \<Rightarrow> f | None \<Rightarrow> default_format (re_now env)) s) r2))
      = (r', Inr ())"
    using a b
    by (cases found; cases schema)
      (auto simp: create_stream_and_schema_from_storage_def Let_def split: option.splits if_splits sum.splits prod.splits)
  let ?f = "case f0 of Some f \<Rightarrow> f | None \<Rightarrow> default_format (re_now env)"
  let ?r3 = "get_or_create n (loaded_meta (re_now env) ?f s) r2"
  define r4 where "r4 = (case sf_hot_tier ?f of Some h \<Rightarrow> update_meta n (set_hot_tier (Some h)) ?r3 | None \<Rightarrow> ?r3)"
  have r4: "sm_retention m' = None" if "map_of (streams r4) n = Some m'" for m'
    using that start [OF _ none] kept [of ?r3 "set_hot_tier h" m' for h]
    by (cases "sf_hot_tier ?f") (simp_all add: r4_def set_hot_tier_def)
  have "commit_stream_schema env n s r4 = (r', Inr ())"
    using c by (cases "sf_hot_tier ?f") (simp_all add: r4_def)
  then obtain gs where "r' = update_meta n (\<lambda>m. m\<lparr>sm_schema := schema_map_of gs\<rparr>) r4"
    by (auto simp: commit_stream_schema_def split: option.splits)
  with assms(3) show ?thesis using kept [of r4 "\<lambda>m. m\<lparr>sm_schema := schema_map_of gs\<rparr>" m] r4 by simp
qed

theorem loaded_without_retention_witness:
  "map sm_retention (map snd (streams (fst (check_or_load_stream demo_env ''web''
     \<lparr>streams = [], formats = [], schemas = []\<rparr>)))) = [None] \<and>
   map sf_retention (map snd (formats (fst (check_or_load_stream demo_env ''web''
     \<lparr>streams = [], formats = [], schemas = []\<rparr>)))) = [Some 7]"
proof -
  let ?r = "\<lparr>streams = [], formats = [], schemas = []\<rparr> :: (nat, nat) registry"
  obtain m f r' where run: "check_or_load_stream demo_env ''web'' ?r = (r', True)" "streams r' = [(''web'', m)]"
    "formats r' = [(''web'', f)]" "sf_retention f = Some 7"
    by (simp add: check_or_load_stream_def create_stream_and_schema_from_storage_def create_stream_from_ingestor_def
      create_schema_from_metastore_def get_or_create_def commit_stream_schema_def update_meta_def loaded_meta_def
      new_stream_meta_def default_format_def schema_map_of_def Let_def demo_env_def)
  then have "sm_retention m = None" using loaded_without_retention [OF _ run(1), of m] by simp
  with run show ?thesis by simp
qed

text \<open>Two requests that create one stream, both past the check that it does not exist, leave the
  settings of the first in memory and those of the second in storage.\<close>

theorem racing_creations_diverge:
  assumes "registry_ok r" and "map_of (streams r) n = None" and "static1 \<noteq> static2"
    and "put_schema_ok env" and "put_json_ok env" and "stream_name (wide_char env) n UserDefined = Inr ()"
    and first: "create_stream env n tp1 l1 cp1 static1 s1 UserDefined src1 tel1 r = (r1, res1)"
    and second: "create_stream env n tp2 l2 cp2 static2 s2 UserDefined src2 tel2 r1 = (r2, res2)"
  shows "res1 = Inr () \<and> res2 = Inr () \<and> registry_ok r1 \<and> \<not> registry_ok r2"
proof -
  obtain m where m: "map_of (streams r1) n = Some m" "sm_static_schema_flag m = static1"
    using assms(2,4,5,6) first by (auto simp: create_stream_def Let_def get_or_create_def new_stream_meta_def)
  then have "streams r2 = streams r1" "res2 = Inr ()"
    "\<exists>f. map_of (formats r2) n = Some f \<and> sf_static_schema_flag f = static2"
    using assms(4,5,6) second by (auto simp: create_stream_def Let_def get_or_create_def update_conv')
  then obtain f where f: "streams r2 = streams r1" "map_of (formats r2) n = Some f" "sf_static_schema_flag f = static2"
    by blast
  have "\<not> agrees m f" using m(2) f(3) assms(3) by (simp add: agrees_def)
  then have "\<not> registry_ok r2" using m(1) f(1,2) unfolding registry_ok_def by (metis option.inject)
  moreover have "res1 = Inr ()"
    using assms(4,5,6) first by (auto simp: create_stream_def Let_def)
  ultimately show ?thesis
    using create_stream_ok [OF assms(1,2) first] \<open>res2 = Inr ()\<close> by simp
qed

theorem racing_creations_diverge_witness:
  "\<not> registry_ok (fst (create_stream demo_env ''web'' [] None None True [] UserDefined [] Logs
     (fst (create_stream demo_env ''web'' [] None None False [] UserDefined [] Logs
       \<lparr>streams = [], formats = [], schemas = []\<rparr>))))"
proof -
  have ok: "stream_name (wide_char demo_env) ''web'' UserDefined = Inr ()" "put_schema_ok demo_env" "put_json_ok demo_env"
    using demo_name_ok by (simp_all add: demo_env_def)
  let ?r = "\<lparr>streams = [], formats = [], schemas = []\<rparr> :: (nat, nat) registry"
  have "registry_ok ?r" "map_of (streams ?r) ''web'' = None" by (simp_all add: registry_ok_def)
  from racing_creations_diverge [OF this _ ok(2,3,1), of False True, OF _ prod.collapse [symmetric] prod.collapse [symmetric]]
  show ?thesis by simp
qed

lemma update_format_result:
  "update_format env n f r = (r', res) \<Longrightarrow> (\<forall>e. res = Inl e \<longrightarrow> r' = r) \<and> streams r' = streams r"
  by (auto simp: update_format_def split: option.splits if_splits)

text \<open>An alteration that is refused or fails changes neither memory nor storage; an accepted one was
  asked without a time partition and a schema flag, and keeps the stream's time partition, schema and type.\<close>

theorem update_stream_changes:
  assumes run: "update_stream env n tp static limit cp r = Some (r', res)"
  shows "(\<forall>e. res = Inl e \<longrightarrow> r' = r) \<and>
    (res = Inr () \<longrightarrow> tp = [] \<and> \<not> static \<and> (\<exists>m m'. map_of (streams r) n = Some m \<and> map_of (streams r') n = Some m' \<and>
       sm_time_partition m' = sm_time_partition m \<and> sm_schema m' = sm_schema m \<and> sm_stream_type m' = sm_stream_type m \<and>
       (limit = [] \<longrightarrow> sm_custom_partition m' = cp \<and> sm_time_partition m = None) \<and>
       (limit \<noteq> [] \<longrightarrow> sm_time_partition_limit m' \<noteq> None)))"
proof (cases "map_of (streams r) n")
  case None
  with run show ?thesis by (auto simp: update_stream_def)
next
  case (Some m)
  have upd: "map_of (streams (update_meta n h r1)) n = Some (h m)" if "streams r1 = streams r" for r1 h
    using that Some by (simp add: update_meta_def update_conv')
  consider "\<exists>e. res = Inl e" "r' = r"
    | d where "tp = []" "\<not> static" "limit \<noteq> []" "update_time_partition_limit_in_stream env n d r = (r', res)"
    | "tp = []" "\<not> static" "limit = []" "sm_time_partition m = None"
      "update_custom_partition_in_stream env n cp r = Some (r', res)"
  proof (cases "validate_optional_partition cp")
    case (Inl e)
    with run Some that show ?thesis
      by (auto dest: sym simp: update_stream_def validate_and_update_custom_partition_def split: if_splits sum.splits)
  next
    case (Inr u)
    with run Some that show ?thesis
      by (auto simp: update_stream_def validate_and_update_custom_partition_def split: if_splits sum.splits)
  qed
  then show ?thesis
  proof cases
    case 1
    then show ?thesis by auto
  next
    case 2
    obtain r1 res1 where u: "update_format env n (\<lambda>f. f\<lparr>sf_time_partition_limit := Some (show_nat d)\<rparr>) r = (r1, res1)"
      by force
    from 2 u Some update_format_result [OF u] upd [of r1] show ?thesis
      by (cases res1) (auto simp: update_time_partition_limit_in_stream_def)
  next
    case 3
    obtain r1 res1 where u: "update_format env n (\<lambda>f. f\<lparr>sf_custom_partition := cp\<rparr>) r = (r1, res1)" by force
    from 3 u Some update_format_result [OF u] upd [of r1] show ?thesis
      by (cases res1) (auto simp: update_custom_partition_in_stream_def split: sum.splits)
  qed
qed

theorem update_stream_changes_witness:
  "\<exists>r' m'. update_stream demo_env ''web'' [] False (show_nat 30 @ ''d'') None demo_registry = Some (r', Inr ()) \<and>
     map_of (streams r') ''web'' = Some m' \<and> sm_time_partition_limit m' \<noteq> None"
proof -
  have lim: "validate_time_partition_limit (show_nat 30 @ ''d'') = Inr 30" by (rule limit_parses) simp_all
  have "\<exists>m. map_of (streams demo_registry) ''web'' = Some m" "\<exists>f. map_of (formats demo_registry) ''web'' = Some f"
    by (simp_all add: registry_run_defs)
  moreover have "get_json_ok demo_env" "put_json_ok demo_env" by (simp_all add: demo_env_def)
  ultimately obtain r' where run: "update_stream demo_env ''web'' [] False (show_nat 30 @ ''d'') None demo_registry = Some (r', Inr ())"
    by (auto simp: update_stream_def lim update_time_partition_limit_in_stream_def update_format_def)
  show ?thesis using update_stream_changes [OF run] run by auto
qed

end
