(* ===== verification/Retention.thy ===== *)
theory Retention
  imports Stats Stream_Registry
begin

text \<open>
  Retention: its configuration and the daily run of \<open>src/storage/retention.rs\<close>, and the removal
  of dates from the snapshot, \<open>remove_manifest_from_snapshot\<close> of \<open>src/catalog/mod.rs\<close>.
\<close>

section \<open>Configuration\<close>

datatype retention_action = DeleteAction

record task =
  description :: string
  task_action :: retention_action
  days :: nat

record task_view =
  view_description :: string
  view_action :: retention_action
  view_duration :: string

text \<open>\<open>str::parse\<close> for a number that fits 32 bits and is not zero: an optional plus sign and digits.\<close>

definition parse_u32 :: "string \<Rightarrow> nat option" where
  "parse_u32 s =
     (case read_digits (case s of CHR ''+'' # rest \<Rightarrow> rest | _ \<Rightarrow> s) of
        Some n \<Rightarrow> if n < 2 ^ 32 then Some n else None
      | None \<Rightarrow> None)"

definition parse_nonzero :: "string \<Rightarrow> nat option" where
  "parse_nonzero s = (case parse_u32 s of Some n \<Rightarrow> if n \<noteq> 0 then Some n else None | None \<Rightarrow> None)"

datatype retention_error = MissingSuffix | NotUnsigned | TwoTasks retention_action

fun retention_tasks :: "task_view list \<Rightarrow> retention_action list \<Rightarrow> task list \<Rightarrow> retention_error + task list" where
  "retention_tasks [] seen tasks = Inr tasks"
| "retention_tasks (v # vs) seen tasks =
     (if \<not> suffix ''d'' (view_duration v) then Inl MissingSuffix
      else case parse_nonzero (take (length (view_duration v) - 1) (view_duration v)) of
        None \<Rightarrow> Inl NotUnsigned
      | Some n \<Rightarrow>
          if view_action v \<in> set seen then Inl (TwoTasks (view_action v))
          else retention_tasks vs (seen @ [view_action v])
            (tasks @ [\<lparr>description = view_description v, task_action = view_action v, days = n\<rparr>]))"

definition retention_try_from :: "task_view list \<Rightarrow> retention_error + task list" where
  "retention_try_from views = retention_tasks views [] []"

definition retention_into :: "task list \<Rightarrow> task_view list" where
  "retention_into tasks =
     map (\<lambda>t. \<lparr>view_description = description t, view_action = task_action t,
               view_duration = show_nat (days t) @ ''d''\<rparr>) tasks"

section \<open>The stored stream\<close>

text \<open>The metadata of a stream as stored, whether the stream is in memory and its first event there,
  the metrics, and the date directories.\<close>

record retention_state =
  rs_items :: "manifest_item list"
  rs_stats :: "full_stats option"
  rs_first_event :: "string option"
  rs_memory :: "string option option"
  rs_metrics :: metrics
  rs_dirs :: "string list"

text \<open>What a run meets on a node: its mode, the text of a date, the calendar with its oldest date, today,
  and which accesses succeed. Storing a snapshot succeeds when the metadata is read again and
  written. The last flag is for a stream that is not in memory and is looked for in storage.\<close>

record retention_env =
  re_show_date :: "date \<Rightarrow> string"
  from_ymd_opt :: "int \<Rightarrow> nat \<Rightarrow> nat \<Rightarrow> date option"
  oldest_date :: date
  re_today :: date
  retention_mode :: node_mode
  node_list_ok :: bool
  read_ok :: bool
  put_stats_ok :: bool
  put_snapshot_ok :: bool
  list_ok :: bool
  delete_ok :: "string \<Rightarrow> bool"
  load_ok :: bool

datatype remove_error = MetastoreFailure | StreamNotInMemory | NodesUnknown | CleanupFailed


text \<open>Storing the snapshot reads the stored metadata again and replaces the snapshot only.\<close>

definition put_snapshot :: "retention_env \<Rightarrow> manifest_item list \<Rightarrow> retention_state \<Rightarrow> retention_state option" where
  "put_snapshot env items st = (if put_snapshot_ok env then Some (st\<lparr>rs_items := items\<rparr>) else None)"

definition put_stats :: "retention_env \<Rightarrow> full_stats \<Rightarrow> retention_state \<Rightarrow> retention_state" where
  "put_stats env stats st = (if put_stats_ok env then st\<lparr>rs_stats := Some stats\<rparr> else st)"

text \<open>The first part of \<open>remove_manifest_from_snapshot\<close>: the node's own snapshot.\<close>

definition remove_from_own_snapshot ::
  "retention_env \<Rightarrow> string \<Rightarrow> string list \<Rightarrow> retention_state \<Rightarrow> retention_state \<times> (remove_error + unit)"
where
  "remove_from_own_snapshot env stream dates st =
     (if dates = [] then (st, Inr ())
      else if \<not> read_ok env then (st, Inl MetastoreFailure)
      else
        let m = update_deleted_stats (re_show_date env) stream (rs_items st) dates (rs_metrics st);
            kept = filter (\<lambda>item. \<not> of_dates dates item) (rs_items st);
            st = put_stats env (get_current_stats stream ''json'' m) (st\<lparr>rs_metrics := m\<rparr>)
        in (case rs_memory st of
              None \<Rightarrow> (st, Inl StreamNotInMemory)
            | Some _ \<Rightarrow>
                let st = st\<lparr>rs_memory := Some None\<rparr> in
                (case put_snapshot env kept st of
                   None \<Rightarrow> (st, Inl MetastoreFailure)
                 | Some st' \<Rightarrow> (st', Inr ()))))"







section \<open>The daily run\<close>









section \<open>Configurations are read back\<close>

lemma parse_show_nonzero:
  assumes "0 < n" and "n < 2 ^ 32"
  shows "parse_nonzero (show_nat n) = Some n"
proof -
  obtain c s where cs: "show_nat n = c # s" by (cases "show_nat n") simp_all
  have "(case show_nat n of CHR ''+'' # rest \<Rightarrow> rest | _ \<Rightarrow> show_nat n) = show_nat n"
    using show_nat_no_plus [OF cs] unfolding cs
    by (simp split: char.splits bool.splits)
  then show ?thesis using assms unfolding parse_nonzero_def parse_u32_def by (simp add: read_show_nat)
qed

text \<open>A retention configuration is read back as it was: for at most one task, of a positive number
  of days that fits 32 bits; and a configuration that is accepted has at most one task.\<close>

theorem retention_roundtrip:
  assumes "length tasks \<le> 1" and "\<forall>t \<in> set tasks. 0 < days t \<and> days t < 2 ^ 32"
  shows "retention_try_from (retention_into tasks) = Inr tasks"
proof (cases tasks)
  case Nil
  then show ?thesis by (simp add: retention_try_from_def retention_into_def)
next
  case (Cons t ts)
  with assms have "ts = []" "parse_nonzero (show_nat (days t)) = Some (days t)"
    by (simp_all add: parse_show_nonzero)
  then show ?thesis using Cons by (simp add: retention_try_from_def retention_into_def)
qed

theorem retention_roundtrip_witness:
  "retention_try_from (retention_into [\<lparr>description = ''old'', task_action = DeleteAction, days = 30\<rparr>]) =
     Inr [\<lparr>description = ''old'', task_action = DeleteAction, days = 30\<rparr>]"
  by (rule retention_roundtrip) simp_all

section \<open>Totals\<close>

text \<open>The current counters of a stream are the sums over its snapshot.\<close>

definition counts_snapshot :: "string \<Rightarrow> retention_state \<Rightarrow> bool" where
  "counts_snapshot stream st \<longleftrightarrow>
     events_ingested (rs_metrics st) [stream, ''json''] = sum_items item_events_ingested (rs_items st) \<and>
     events_ingested_size (rs_metrics st) [stream, ''json''] = sum_items item_ingestion_size (rs_items st) \<and>
     storage_size (rs_metrics st) [''data'', stream, ''parquet''] = sum_items item_storage_size (rs_items st)"

lemma sum_items_split:
  "sum_items f items = sum_items f (filter P items) + sum_items f (filter (\<lambda>i. \<not> P i) items)"
  by (induction items) (auto simp: sum_items_def)

lemma gauges_remove_counters [simp]:
  "events_ingested (fold (remove_date_counters sd stream) items m) = events_ingested m"
  "events_ingested_size (fold (remove_date_counters sd stream) items m) = events_ingested_size m"
  "storage_size (fold (remove_date_counters sd stream) items m) = storage_size m"
  by (induction items arbitrary: m) (simp_all add: remove_date_counters_def Let_def)

lemma gauges_deleted [simp]:
  "events_ingested (update_deleted_stats sd stream items dates m) =
     gauge_add [stream, ''json''] (- sum_items item_events_ingested (filter (of_dates dates) items)) (events_ingested m)"
  "events_ingested_size (update_deleted_stats sd stream items dates m) =
     gauge_add [stream, ''json''] (- sum_items item_ingestion_size (filter (of_dates dates) items)) (events_ingested_size m)"
  "storage_size (update_deleted_stats sd stream items dates m) =
     gauge_add [''data'', stream, ''parquet''] (- sum_items item_storage_size (filter (of_dates dates) items)) (storage_size m)"
  by (simp_all add: update_deleted_stats_def Let_def)

lemma put_stats_fields [simp]:
  "rs_memory (put_stats env s st) = rs_memory st" "rs_metrics (put_stats env s st) = rs_metrics st"
  "rs_items (put_stats env s st) = rs_items st" "rs_dirs (put_stats env s st) = rs_dirs st"
  "rs_first_event (put_stats env s st) = rs_first_event st"
  by (simp_all add: put_stats_def)

lemma own_snapshot_ok:
  assumes "remove_from_own_snapshot env stream dates st = (st', Inr ())" and "dates \<noteq> []"
  shows "rs_items st' = filter (\<lambda>i. \<not> of_dates dates i) (rs_items st)"
    and "rs_metrics st' = update_deleted_stats (re_show_date env) stream (rs_items st) dates (rs_metrics st)"
    and "rs_memory st' = Some None" and "rs_first_event st' = rs_first_event st" and "rs_dirs st' = rs_dirs st"
  using assms
  by (auto simp: remove_from_own_snapshot_def put_snapshot_def Let_def split: if_splits option.splits)








definition snapshot_cleaned :: "string \<Rightarrow> string list \<Rightarrow> retention_state \<Rightarrow> retention_state \<Rightarrow> bool" where
  "snapshot_cleaned stream dates st st' \<longleftrightarrow>
     rs_items st' = filter (\<lambda>item. \<not> of_dates dates item) (rs_items st) \<and>
     (counts_snapshot stream st \<longrightarrow> counts_snapshot stream st')"




text \<open>The state in which the handler cleans the snapshot, the stream in memory.\<close>

definition in_memory :: "retention_state \<Rightarrow> retention_state" where
  "in_memory st = (if rs_memory st = None then st\<lparr>rs_memory := Some None\<rparr> else st)"

lemma in_memory_simps [simp]:
  "rs_memory (in_memory st) \<noteq> None" "rs_items (in_memory st) = rs_items st" "rs_metrics (in_memory st) = rs_metrics st"
  by (simp_all add: in_memory_def)

lemma in_memory_cleaned [simp]:
  "snapshot_cleaned stream dates (in_memory st) st' = snapshot_cleaned stream dates st st'"
  by (simp add: snapshot_cleaned_def counts_snapshot_def)








text \<open>The counters are reduced before the snapshot is stored: when storing it fails, the entries
  stay, and the next run that succeeds reduces the counters of the same dates again, below the sums
  over the snapshot.\<close>

theorem failed_removal_counts_twice:
  assumes "remove_from_own_snapshot env stream dates st = (st1, Inl MetastoreFailure)"
    and "read_ok env" and "dates \<noteq> []" and "counts_snapshot stream st"
    and "remove_from_own_snapshot env' stream dates st1 = (st2, Inr ())"
  shows "events_ingested (rs_metrics st2) [stream, ''json''] =
    sum_items item_events_ingested (rs_items st2) - sum_items item_events_ingested (filter (of_dates dates) (rs_items st))"
proof -
  have one: "rs_items st1 = rs_items st"
    "rs_metrics st1 = update_deleted_stats (re_show_date env) stream (rs_items st) dates (rs_metrics st)"
    using assms(1-3)
    by (auto simp: remove_from_own_snapshot_def put_snapshot_def Let_def split: if_splits option.splits)
  note two = own_snapshot_ok [OF assms(5,3)]
  show ?thesis
    using assms(4) sum_items_split [of item_events_ingested "rs_items st" "of_dates dates"]
    by (simp add: two one gauge_add_def counts_snapshot_def)
qed

text \<open>Removing dates resets the first event of the stream in memory but not in the stored metadata,
  which is read again before the snapshot is replaced: the reset value is never stored.\<close>

theorem first_event_not_stored:
  assumes "remove_from_own_snapshot env stream dates st = (st', Inr ())" and "dates \<noteq> []"
  shows "rs_memory st' = Some None \<and> rs_first_event st' = rs_first_event st"
  using own_snapshot_ok [OF assms] by simp

section \<open>A run on a small stream\<close>

definition old_item :: manifest_item where
  "old_item = \<lparr>manifest_path = ''app/date=2024-01-01/m.json'', time_lower_bound = 0, time_upper_bound = 9,
     item_events_ingested = 3, item_ingestion_size = 0, item_storage_size = 0\<rparr>"

definition sample_retention_env :: retention_env where
  "sample_retention_env = \<lparr>re_show_date = \<lambda>_. ''2024-01-01'', from_ymd_opt = \<lambda>y m d. Some (int (31 * m + d)),
     oldest_date = - 1000, re_today = 94, retention_mode = QueryMode, node_list_ok = True, read_ok = True,
     put_stats_ok = True, put_snapshot_ok = True, list_ok = True, delete_ok = \<lambda>_. True, load_ok = True\<rparr>"

definition sample_retention_state :: retention_state where
  "sample_retention_state = \<lparr>rs_items = [old_item], rs_stats = None, rs_first_event = Some ''2024-01-01'',
     rs_memory = Some (Some ''2024-01-01''),
     rs_metrics = update_ingest_stats ''app'' ''json'' 0 3 ''2024-01-01'' no_metrics,
     rs_dirs = [''date=2024-01-01'', ''date=2024-03-01'', ''.stream'']\<rparr>"

lemma sample_counts: "counts_snapshot ''app'' sample_retention_state"
  by (simp add: counts_snapshot_def sample_retention_state_def update_ingest_stats_def gauge_add_def
      no_metrics_def sum_items_def old_item_def)




lemma sample_of_dates: "of_dates [''date=2024-01-01''] old_item"
  by code_simp

lemma sample_removal:
  "\<exists>st'. remove_from_own_snapshot sample_retention_env ''app'' [''date=2024-01-01''] sample_retention_state =
     (st', Inr ())"
  by (simp add: remove_from_own_snapshot_def Let_def put_snapshot_def sample_retention_env_def
      sample_retention_state_def)


theorem failed_removal_counts_twice_witness:
  "\<exists>st1 st2. remove_from_own_snapshot (sample_retention_env\<lparr>put_snapshot_ok := False\<rparr>) ''app'' [''date=2024-01-01'']
      sample_retention_state = (st1, Inl MetastoreFailure) \<and>
    remove_from_own_snapshot sample_retention_env ''app'' [''date=2024-01-01''] st1 = (st2, Inr ()) \<and>
    events_ingested (rs_metrics st2) [''app'', ''json''] = - 3"
proof -
  let ?bad = "sample_retention_env\<lparr>put_snapshot_ok := False\<rparr>"
  obtain st1 where one: "remove_from_own_snapshot ?bad ''app'' [''date=2024-01-01''] sample_retention_state =
      (st1, Inl MetastoreFailure)" and mem: "rs_memory st1 = Some None" and items: "rs_items st1 = [old_item]"
    by (simp add: remove_from_own_snapshot_def Let_def put_snapshot_def sample_retention_env_def
        sample_retention_state_def)
  obtain st2 where two: "remove_from_own_snapshot sample_retention_env ''app'' [''date=2024-01-01''] st1 =
      (st2, Inr ())"
    by (simp add: remove_from_own_snapshot_def Let_def put_snapshot_def sample_retention_env_def mem)
  have "rs_items st2 = []"
    using own_snapshot_ok(1) [OF two] sample_of_dates by (simp add: items)
  then have "events_ingested (rs_metrics st2) [''app'', ''json''] = - 3"
    using failed_removal_counts_twice [OF one _ _ sample_counts two] sample_of_dates
    by (simp add: sample_retention_env_def sample_retention_state_def sum_items_def old_item_def)
  with one two show ?thesis by blast
qed

theorem first_event_not_stored_witness:
  "\<exists>st'. remove_from_own_snapshot sample_retention_env ''app'' [''date=2024-01-01''] sample_retention_state =
     (st', Inr ()) \<and> rs_memory st' = Some None \<and> rs_first_event st' = Some ''2024-01-01''"
proof -
  obtain st' where run: "remove_from_own_snapshot sample_retention_env ''app'' [''date=2024-01-01'']
      sample_retention_state = (st', Inr ())"
    using sample_removal by blast
  from first_event_not_stored [OF this] run show ?thesis by (simp add: sample_retention_state_def)
qed

end
