(* ===== verification/Hot_Tier.thy ===== *)
theory Hot_Tier
  imports Catalog Validator "HOL-Library.Multiset"
begin

text \<open>
  The hot tier of \<open>src/hottier.rs\<close>: a local directory for each stream that keeps copies of its
  latest data files up to a size, with the handlers of \<open>src/handlers/http/logstream.rs\<close> that set
  and delete it. The directory of a stream holds its metadata, its data files and, for each date, one
  manifest of the files it keeps; data files have directories of their own below the date, so a
  manifest is never in the directory of a data file. Accesses to the local file system succeed;
  the download of a file may fail. Sizes are unsigned 64-bit integers that wrap around.
\<close>

section \<open>State\<close>

record hot_tier =
  ht_size :: u64
  used_size :: u64
  available_size :: u64
  ht_files :: "string list"
  ht_manifests :: "(date \<times> manifest_file list) list"

record disk_util =
  total_space :: nat
  available_space :: nat

definition used_space :: "disk_util \<Rightarrow> nat" where
  "used_space d = total_space d - available_space d"

text \<open>What the tier meets: the disk for a given content of the tier, the share of the disk it may use, the
  calendar that reads dates, and which downloads succeed.\<close>

record hot_tier_env =
  get_disk_usage :: "hot_tier \<Rightarrow> disk_util option"
  max_disk_usage :: real
  read_date :: "string \<Rightarrow> date option"
  download_ok :: "string \<Rightarrow> bool"

section \<open>The time in a path\<close>

text \<open>The pattern \<open>date=dddd-dd-dd/hour=dd/minute=dd\<close> at the start of a text, and its parts.\<close>

definition digits_at :: "string \<Rightarrow> nat \<Rightarrow> nat \<Rightarrow> bool" where
  "digits_at s i n \<longleftrightarrow> length (take n (drop i s)) = n \<and> list_all is_ascii_digit (take n (drop i s))"

definition text_at :: "string \<Rightarrow> nat \<Rightarrow> string \<Rightarrow> bool" where
  "text_at s i t \<longleftrightarrow> prefix t (drop i s)"

definition match_datetime :: "string \<Rightarrow> (string \<times> string \<times> string) option" where
  "match_datetime s =
     (if text_at s 0 ''date='' \<and> digits_at s 5 4 \<and> text_at s 9 ''-'' \<and> digits_at s 10 2 \<and> text_at s 12 ''-'' \<and>
         digits_at s 13 2 \<and> text_at s 15 ''/hour='' \<and> digits_at s 21 2 \<and> text_at s 23 ''/minute='' \<and> digits_at s 31 2
      then Some (take 10 (drop 5 s), take 2 (drop 21 s), take 2 (drop 31 s)) else None)"

fun find_datetime :: "string \<Rightarrow> (string \<times> string \<times> string) option" where
  "find_datetime [] = match_datetime []"
| "find_datetime (c # s) = (case match_datetime (c # s) of Some m \<Rightarrow> Some m | None \<Rightarrow> find_datetime s)"

definition extract_datetime :: "hot_tier_env \<Rightarrow> string \<Rightarrow> datetime option" where
  "extract_datetime env path =
     (case find_datetime path of
        None \<Rightarrow> None
      | Some (d, h, m) \<Rightarrow>
          (case (read_date env d, read_digits h, read_digits m) of
             (Some day, Some hour, Some minute) \<Rightarrow>
               if hour < 24 \<and> minute < 60
               then Some (day * nanos_per_day + int hour * nanos_per_hour + int minute * nanos_per_minute)
               else None
           | _ \<Rightarrow> None))"

section \<open>Files and manifests\<close>

definition parent :: "string \<Rightarrow> string" where
  "parent path = rev (drop 1 (dropWhile (\<lambda>c. c \<noteq> CHR ''/'') (rev path)))"

definition remove_dir_all :: "string \<Rightarrow> hot_tier \<Rightarrow> hot_tier" where
  "remove_dir_all dir ht = ht\<lparr>ht_files := filter (\<lambda>p. \<not> prefix (dir @ ''/'') p) (ht_files ht)\<rparr>"

definition write_manifest :: "date \<Rightarrow> manifest_file list \<Rightarrow> hot_tier \<Rightarrow> hot_tier" where
  "write_manifest d files ht = ht\<lparr>ht_manifests := AList.update d files (ht_manifests ht)\<rparr>"

definition manifest_of :: "date \<Rightarrow> hot_tier \<Rightarrow> manifest_file list" where
  "manifest_of d ht = (case map_of (ht_manifests ht) d of Some files \<Rightarrow> files | None \<Rightarrow> [])"

definition fetch_hot_tier_dates :: "hot_tier \<Rightarrow> date list" where
  "fetch_hot_tier_dates ht = sort (map fst (ht_manifests ht))"

definition get_hot_tier_parquet_files :: "hot_tier \<Rightarrow> manifest_file list" where
  "get_hot_tier_parquet_files ht = concat (map (\<lambda>d. manifest_of d ht) (fetch_hot_tier_dates ht))"

definition size_of :: "manifest_file \<Rightarrow> u64" where
  "size_of f = of_nat (file_size f)"

section \<open>Making room\<close>

text \<open>The file to download is not newer than the file to delete.\<close>

definition not_newer :: "hot_tier_env \<Rightarrow> string \<Rightarrow> string \<Rightarrow> bool" where
  "not_newer env download delete =
     (case (extract_datetime env download, extract_datetime env delete) of
        (Some a, Some b) \<Rightarrow> a \<le> b | _ \<Rightarrow> False)"

text \<open>The files of a manifest, oldest first. The results: the tier, whether the last attempt deleted a
  file, and whether there is room now.\<close>

fun clean_manifest ::
  "hot_tier_env \<Rightarrow> string \<Rightarrow> u64 \<Rightarrow> date \<Rightarrow> manifest_file list \<Rightarrow> hot_tier \<Rightarrow> bool \<Rightarrow> hot_tier \<times> bool \<times> bool"
where
  "clean_manifest env download needed d [] ht deleted = (ht, deleted, False)"
| "clean_manifest env download needed d (f # rest) ht deleted =
     (if file_path f \<in> set (ht_files ht) then
        (if not_newer env download (file_path f) then (ht, False, False)
         else
           let ht = remove_dir_all (parent (file_path f)) (write_manifest d (rev rest) ht);
               ht = ht\<lparr>used_size := used_size ht - size_of f, available_size := available_size ht + size_of f\<rparr>
           in if available_size ht \<le> needed then clean_manifest env download needed d rest ht True
              else (ht, True, True))
      else clean_manifest env download needed d rest (write_manifest d (rev rest) ht) deleted)"

fun clean_dates ::
  "hot_tier_env \<Rightarrow> string \<Rightarrow> u64 \<Rightarrow> date list \<Rightarrow> hot_tier \<Rightarrow> bool \<Rightarrow> hot_tier \<times> bool"
where
  "clean_dates env download needed [] ht deleted = (ht, deleted)"
| "clean_dates env download needed (d # ds) ht deleted =
     (case clean_manifest env download needed d (sort_key file_path (manifest_of d ht)) ht deleted of
        (ht', deleted', room) \<Rightarrow>
          if room then (ht', deleted') else clean_dates env download needed ds ht' deleted')"

definition cleanup_hot_tier_old_data :: "hot_tier_env \<Rightarrow> string \<Rightarrow> u64 \<Rightarrow> hot_tier \<Rightarrow> hot_tier \<times> bool" where
  "cleanup_hot_tier_old_data env download needed ht =
     clean_dates env download needed (fetch_hot_tier_dates ht) ht False"

section \<open>Downloading\<close>

definition is_disk_available :: "hot_tier_env \<Rightarrow> nat \<Rightarrow> hot_tier \<Rightarrow> bool" where
  "is_disk_available env n ht =
     (case get_disk_usage env ht of
        None \<Rightarrow> True
      | Some d \<Rightarrow>
          n \<le> available_space d \<and>
          \<not> real (used_space d + n) * 100 / real (total_space d) > max_disk_usage env)"

text \<open>A file to download. The running total of the caller is passed on; \<open>Inl\<close> when the download fails,
  after the file has been created.\<close>

definition process_parquet_file ::
  "hot_tier_env \<Rightarrow> manifest_file \<Rightarrow> date \<Rightarrow> u64 \<Rightarrow> hot_tier \<Rightarrow> hot_tier \<times> u64 \<times> (unit + bool)"
where
  "process_parquet_file env f d sum0 ht =
     (let (ht, sum0, ready) =
        (if \<not> is_disk_available env (file_size f) ht \<or> available_size ht \<le> size_of f then
           (case cleanup_hot_tier_old_data env (file_path f) (size_of f) ht of
              (ht', deleted) \<Rightarrow> (ht', if deleted then used_size ht' else sum0, deleted))
         else (ht, sum0, True))
      in if \<not> ready then (ht, sum0, Inr False)
         else
           let ht = ht\<lparr>ht_files := List.insert (file_path f) (ht_files ht)\<rparr> in
           if \<not> download_ok env (file_path f) then (ht, sum0, Inl ())
           else
             let sum0 = sum0 + size_of f;
                 ht = ht\<lparr>used_size := sum0, available_size := available_size ht - size_of f\<rparr>
             in (write_manifest d (sort_key file_path (manifest_of d ht @ [f])) ht, sum0, Inr True))"

text \<open>The files of a date, the latest first; a file that is there already is passed over, and the first
  that finds no room ends the date.\<close>

fun process_files ::
  "hot_tier_env \<Rightarrow> date option \<Rightarrow> manifest_file list \<Rightarrow> u64 \<Rightarrow> hot_tier \<Rightarrow> hot_tier \<times> u64 \<times> (unit + unit)"
where
  "process_files env d [] sum0 ht = (ht, sum0, Inr ())"
| "process_files env d (f # fs) sum0 ht =
     (if file_path f \<in> set (ht_files ht) then process_files env d fs sum0 ht
      else case d of
        None \<Rightarrow> process_files env d fs sum0 ht
      | Some day \<Rightarrow>
          (case process_parquet_file env f day sum0 ht of
             (ht', sum1, Inl e) \<Rightarrow> (ht', sum1, Inl e)
           | (ht', sum1, Inr True) \<Rightarrow> process_files env d fs sum1 ht'
           | (ht', sum1, Inr False) \<Rightarrow> (ht', sum1, Inr ())))"

function trim_start_matches :: "string \<Rightarrow> string \<Rightarrow> string" where
  "trim_start_matches p s = (if p \<noteq> [] \<and> prefix p s then trim_start_matches p (drop (length p) s) else s)"
  by pat_completeness auto
termination
  by (relation "measure (length \<circ> snd)") (auto simp: prefix_def)

text \<open>The dates, each with the files of all its manifests, the latest first.\<close>

fun process_dates ::
  "hot_tier_env \<Rightarrow> (string \<times> manifest_file list list) list \<Rightarrow> u64 \<Rightarrow> hot_tier \<Rightarrow> hot_tier \<times> u64 \<times> (unit + unit)"
where
  "process_dates env [] sum0 ht = (ht, sum0, Inr ())"
| "process_dates env ((str_date, ms) # rest) sum0 ht =
     (case process_files env
         (read_date env (trim_start_matches ''date='' str_date))
         (rev (sort_key file_path (concat ms))) sum0 ht of
        (ht', sum1, Inl e) \<Rightarrow> (ht', sum1, Inl e)
      | (ht', sum1, Inr _) \<Rightarrow> process_dates env rest sum1 ht')"

text \<open>The manifests of a stream come from the metastore by date, in ascending order.\<close>

definition process_stream :: "hot_tier_env \<Rightarrow> (string \<times> manifest_file list list) list \<Rightarrow> hot_tier \<Rightarrow> hot_tier \<times> (unit + unit)" where
  "process_stream env stored ht =
     (case process_dates env (rev stored) (used_size ht) ht of (ht', _, r) \<Rightarrow> (ht', r))"

section \<open>Setting the size\<close>

text \<open>The tiers of all streams.\<close>

type_synonym tiers = "(string \<times> hot_tier) list"

definition get_hot_tiers_size :: "string \<Rightarrow> tiers \<Rightarrow> nat \<times> nat" where
  "get_hot_tiers_size current ts =
     (let others = filter (\<lambda>(s, _). s \<noteq> current) ts in
      (sum_list (map (\<lambda>(_, ht). unat (ht_size ht)) others), sum_list (map (\<lambda>(_, ht). unat (used_size ht)) others)))"

datatype set_tier_error =
    StreamMissing
  | InternalStream
  | BadSize hot_tier_error
  | HotTierNotEnabled
  | SizeReduced
  | NotEnoughSpace
  | TierNotFound
  | MetadataFailure

definition validate_hot_tier_size :: "disk_util \<Rightarrow> real \<Rightarrow> string \<Rightarrow> u64 \<Rightarrow> tiers \<Rightarrow> set_tier_error + u64" where
  "validate_hot_tier_size disk max_usage stream new ts =
     (let existing = (case map_of ts stream of Some ht \<Rightarrow> used_size ht | None \<Rightarrow> 0) in
      if new < existing then Inl SizeReduced
      else
        let (total, used) = get_hot_tiers_size stream ts;
            disk_threshold = max_usage * real (total_space disk) / 100;
            max_allowed = disk_threshold - real total - (real (used_space disk) - real used - real (unat existing))
        in if real (unat new) > max_allowed then Inl NotEnoughSpace else Inr existing)"

definition put_tier :: "string \<Rightarrow> u64 \<Rightarrow> u64 \<Rightarrow> u64 \<Rightarrow> tiers \<Rightarrow> tiers" where
  "put_tier stream new used available ts =
     (let old = (case map_of ts stream of
          Some ht \<Rightarrow> ht
        | None \<Rightarrow> \<lparr>ht_size = 0, used_size = 0, available_size = 0, ht_files = [], ht_manifests = []\<rparr>)
      in AList.update stream (old\<lparr>ht_size := new, used_size := used, available_size := available\<rparr>) ts)"

record set_tier_env =
  stream_exists :: bool
  is_internal :: bool
  two_decimals :: "real \<Rightarrow> string"
  tier_disk :: "disk_util option"
  tier_max_usage :: real
  metadata_ok :: bool

text \<open>Without a hot tier directory the server has none; then there is no disk either. Besides the tiers, the
  size is kept with the stream in memory and in its stored metadata.\<close>

record tier_world =
  tw_tiers :: tiers
  tw_memory :: "(string \<times> u64) list"
  tw_metadata :: "(string \<times> u64) list"

definition put_stream_hot_tier :: "set_tier_env \<Rightarrow> string \<Rightarrow> u64 \<Rightarrow> tier_world \<Rightarrow> tier_world \<times> (set_tier_error + unit)" where
  "put_stream_hot_tier env stream new w =
     (if \<not> stream_exists env then (w, Inl StreamMissing)
      else if is_internal env then (w, Inl InternalStream)
      else case hot_tier (two_decimals env) (show_nat (unat new)) of
        Inl e \<Rightarrow> (w, Inl (BadSize e))
      | Inr _ \<Rightarrow>
          let w = w\<lparr>tw_memory := AList.update stream new (tw_memory w)\<rparr> in
          (case tier_disk env of
             None \<Rightarrow> (w, Inl HotTierNotEnabled)
           | Some disk \<Rightarrow>
               (case validate_hot_tier_size disk (tier_max_usage env) stream new (tw_tiers w) of
                  Inl e \<Rightarrow> (w, Inl e)
                | Inr existing \<Rightarrow>
                    let w = w\<lparr>tw_tiers := put_tier stream new existing new (tw_tiers w)\<rparr> in
                    if metadata_ok env
                    then (w\<lparr>tw_metadata := AList.update stream new (tw_metadata w)\<rparr>, Inr ())
                    else (w, Inl MetadataFailure))))"

definition delete_stream_hot_tier :: "set_tier_env \<Rightarrow> string \<Rightarrow> tier_world \<Rightarrow> tier_world \<times> (set_tier_error + unit)" where
  "delete_stream_hot_tier env stream w =
     (if \<not> stream_exists env then (w, Inl StreamMissing)
      else if is_internal env then (w, Inl InternalStream)
      else if tier_disk env = None then (w, Inl HotTierNotEnabled)
      else if map_of (tw_tiers w) stream = None then (w, Inl TierNotFound)
      else
        let w = w\<lparr>tw_tiers := AList.delete stream (tw_tiers w)\<rparr> in
        if metadata_ok env then (w\<lparr>tw_metadata := AList.delete stream (tw_metadata w)\<rparr>, Inr ())
        else (w, Inl MetadataFailure))"

definition put_internal_stream_hot_tier :: "tiers \<Rightarrow> tiers" where
  "put_internal_stream_hot_tier ts =
     (if map_of ts ''pmeta'' = None then put_tier ''pmeta'' 10485760 0 10485760 ts else ts)"

definition create_pstats_hot_tier :: "bool \<Rightarrow> tiers \<Rightarrow> tiers" where
  "create_pstats_hot_tier loaded ts =
     (if map_of ts ''pstats'' = None \<and> loaded then put_tier ''pstats'' 10737418240 0 10737418240 ts else ts)"

section \<open>What the tier keeps\<close>

definition kept :: "hot_tier \<Rightarrow> manifest_file multiset" where
  "kept ht = mset (concat (map snd (ht_manifests ht)))"

text \<open>Every file of a manifest has a directory that holds no other file of a manifest.\<close>

definition in_dir_of :: "manifest_file \<Rightarrow> manifest_file \<Rightarrow> bool" where
  "in_dir_of f g \<longleftrightarrow> prefix (parent (file_path f) @ ''/'') (file_path g)"

definition apart :: "manifest_file multiset \<Rightarrow> bool" where
  "apart K \<longleftrightarrow> (\<forall>f g. {#f, g#} \<subseteq># K \<longrightarrow> \<not> in_dir_of f g)"

definition accounted :: "hot_tier \<Rightarrow> bool" where
  "accounted ht \<longleftrightarrow>
     distinct (map fst (ht_manifests ht)) \<and>
     used_size ht = (\<Sum>f \<in># kept ht. size_of f) \<and>
     used_size ht + available_size ht = ht_size ht \<and>
     (\<forall>f \<in># kept ht. file_path f \<in> set (ht_files ht)) \<and>
     apart (kept ht)"

lemma delete_absent: "d \<notin> fst ` set m \<Longrightarrow> AList.delete d m = m"
  by (induction m) auto

lemma kept_update:
  assumes "distinct (map fst m)"
  shows "mset (concat (map snd (AList.update d v m))) = mset v + mset (concat (map snd (AList.delete d m)))"
  using assms
proof (induction m)
  case Nil
  then show ?case by simp
next
  case (Cons e m)
  obtain k w where e: "e = (k, w)" by fastforce
  show ?case
  proof (cases "k = d")
    case True
    with Cons.prems e have "d \<notin> fst ` set m" by simp
    then have "AList.delete d m = m" by (rule delete_absent)
    with True e show ?thesis by simp
  next
    case False
    with Cons e show ?thesis by simp
  qed
qed

lemma kept_split:
  assumes "distinct (map fst (ht_manifests ht))"
  shows "kept ht = mset (manifest_of d ht) + mset (concat (map snd (AList.delete d (ht_manifests ht))))"
proof (cases "map_of (ht_manifests ht) d")
  case None
  then have "d \<notin> fst ` set (ht_manifests ht)" by (simp add: map_of_eq_None_iff)
  then have "AList.delete d (ht_manifests ht) = ht_manifests ht" by (rule delete_absent)
  with None show ?thesis by (simp add: kept_def manifest_of_def)
next
  case (Some v)
  have "mset (concat (map snd m)) = mset v + mset (concat (map snd (AList.delete d m)))"
    if "distinct (map fst m)" "map_of m d = Some v" for m
    using that
  proof (induction m)
    case (Cons e m)
    obtain k w where e: "e = (k, w)" by fastforce
    show ?case
    proof (cases "k = d")
      case True
      with Cons.prems e have "d \<notin> fst ` set m" by simp
      then have "AList.delete d m = m" by (rule delete_absent)
      with True e Cons.prems show ?thesis by simp
    next
      case False
      with Cons e show ?thesis by simp
    qed
  qed simp
  from this [OF assms Some] Some show ?thesis by (simp add: kept_def manifest_of_def)
qed

lemma write_manifest_fields [simp]:
  "ht_files (write_manifest d fs ht) = ht_files ht" "used_size (write_manifest d fs ht) = used_size ht"
  "available_size (write_manifest d fs ht) = available_size ht" "ht_size (write_manifest d fs ht) = ht_size ht"
  "manifest_of d (write_manifest d fs ht) = fs"
  by (simp_all add: write_manifest_def manifest_of_def update_conv')

lemma kept_write:
  assumes "distinct (map fst (ht_manifests ht))"
  shows "kept (write_manifest d fs ht) = mset fs + mset (concat (map snd (AList.delete d (ht_manifests ht))))"
    and "distinct (map fst (ht_manifests (write_manifest d fs ht)))"
  using kept_update [OF assms] distinct_update [OF assms] by (simp_all add: kept_def write_manifest_def)

lemma apart_subset: "apart K \<Longrightarrow> L \<subseteq># K \<Longrightarrow> apart L"
  unfolding apart_def using subset_mset.order_trans by blast

text \<open>Deleting the first file of a manifest, with its directory.\<close>

definition drop_file :: "date \<Rightarrow> manifest_file \<Rightarrow> manifest_file list \<Rightarrow> hot_tier \<Rightarrow> hot_tier" where
  "drop_file d f rest ht =
     (remove_dir_all (parent (file_path f)) (write_manifest d rest ht))
       \<lparr>used_size := used_size ht - size_of f, available_size := available_size ht + size_of f\<rparr>"

lemma drop_file_accounted:
  assumes a: "accounted ht" and m: "mset (manifest_of d ht) = add_mset f (mset rest)"
  shows "accounted (drop_file d f rest ht)" and "kept (drop_file d f rest ht) \<subseteq># kept ht"
    and "mset (manifest_of d (drop_file d f rest ht)) = mset rest"
proof -
  have ds: "distinct (map fst (ht_manifests ht))" using a by (simp add: accounted_def)
  define K where "K = kept (write_manifest d rest ht)"
  have K: "kept ht = add_mset f K"
    using kept_split [OF ds, of d] kept_write(1) [OF ds, of d rest] m by (simp add: K_def)
  have kept': "kept (drop_file d f rest ht) = K"
    by (simp add: drop_file_def remove_dir_all_def kept_def K_def)
  have "file_path g \<in> set (ht_files (drop_file d f rest ht))" if "g \<in># K" for g
  proof -
    have "{#f, g#} \<subseteq># kept ht" using that K by simp
    then have "\<not> in_dir_of f g" using a unfolding accounted_def apart_def by blast
    moreover have "file_path g \<in> set (ht_files ht)" using a K that by (simp add: accounted_def)
    ultimately show ?thesis by (simp add: drop_file_def remove_dir_all_def in_dir_of_def)
  qed
  moreover have "apart K" using a K by (auto simp: accounted_def intro: apart_subset)
  moreover have "distinct (map fst (ht_manifests (drop_file d f rest ht)))"
    using kept_write(2) [OF ds, of d rest] by (simp add: drop_file_def remove_dir_all_def)
  moreover have "ht_size (drop_file d f rest ht) = ht_size ht" by (simp add: drop_file_def remove_dir_all_def)
  ultimately show "accounted (drop_file d f rest ht)"
    using a K unfolding accounted_def kept' by (auto simp: drop_file_def algebra_simps)
  show "kept (drop_file d f rest ht) \<subseteq># kept ht" unfolding kept' K by simp
  show "mset (manifest_of d (drop_file d f rest ht)) = mset rest"
    by (simp add: drop_file_def remove_dir_all_def manifest_of_def write_manifest_def update_conv')
qed

lemma clean_manifest_accounted:
  assumes "accounted ht" and "mset (manifest_of d ht) = mset files"
  shows "accounted (fst (clean_manifest env download needed d files ht deleted)) \<and>
    kept (fst (clean_manifest env download needed d files ht deleted)) \<subseteq># kept ht"
  using assms
proof (induction files arbitrary: ht deleted)
  case Nil
  then show ?case by simp
next
  case (Cons f rest)
  have "f \<in># kept ht"
    using kept_split [of ht d] Cons.prems by (simp add: accounted_def)
  then have ex: "file_path f \<in> set (ht_files ht)" using Cons.prems(1) by (simp add: accounted_def)
  have m: "mset (manifest_of d ht) = add_mset f (mset (rev rest))" using Cons.prems(2) by simp
  note drop = drop_file_accounted [OF Cons.prems(1) m]
  have eq: "(remove_dir_all (parent (file_path f)) (write_manifest d (rev rest) ht))
      \<lparr>used_size := used_size (remove_dir_all (parent (file_path f)) (write_manifest d (rev rest) ht)) - size_of f,
       available_size := available_size (remove_dir_all (parent (file_path f)) (write_manifest d (rev rest) ht)) + size_of f\<rparr>
      = drop_file d f (rev rest) ht"
    by (simp add: drop_file_def remove_dir_all_def)
  show ?case
  proof (cases "not_newer env download (file_path f)")
    case True
    with ex Cons.prems show ?thesis by simp
  next
    case False
    with ex drop(1,2) Cons.IH [OF drop(1), of True] drop(3) show ?thesis
      by (auto simp: Let_def eq intro: subset_mset.order_trans)
  qed
qed

lemma clean_dates_accounted:
  "accounted ht \<Longrightarrow> accounted (fst (clean_dates env download needed ds ht deleted)) \<and>
    kept (fst (clean_dates env download needed ds ht deleted)) \<subseteq># kept ht"
proof (induction ds arbitrary: ht deleted)
  case Nil
  then show ?case by simp
next
  case (Cons d ds)
  obtain ht' deleted' room where c:
    "clean_manifest env download needed d (sort_key file_path (manifest_of d ht)) ht deleted = (ht', deleted', room)"
    by (metis surj_pair)
  with clean_manifest_accounted [OF Cons.prems, of d "sort_key file_path (manifest_of d ht)" env download needed deleted]
  have "accounted ht'" "kept ht' \<subseteq># kept ht" by simp_all
  with c Cons.IH [of ht' deleted'] show ?case by (auto intro: subset_mset.order_trans)
qed

lemma apart_add:
  assumes "apart M" and "\<forall>g \<in># M. \<not> in_dir_of f g \<and> \<not> in_dir_of g f"
  shows "apart (add_mset f M)"
  unfolding apart_def
proof (intro allI impI)
  fix x y
  assume xy: "{#x, y#} \<subseteq># add_mset f M"
  show "\<not> in_dir_of x y"
  proof (cases "x = f \<or> y = f")
    case True
    have "x = f \<and> y \<in># M \<or> y = f \<and> x \<in># M" using xy True by (auto simp: insert_subset_eq_iff)
    then show ?thesis using assms(2) by blast
  next
    case False
    have "{#x, y#} \<subseteq># M"
    proof (rule mset_subset_eqI)
      fix z
      show "count {#x, y#} z \<le> count M z"
        using mset_subset_eq_count [OF xy, of z] False by (auto split: if_splits)
    qed
    with assms(1) show ?thesis by (simp add: apart_def)
  qed
qed

text \<open>A downloaded file is entered in the manifest and the sizes.\<close>

lemma stored_accounted:
  assumes "accounted h" and "\<forall>g \<in># kept h. \<not> in_dir_of f g \<and> \<not> in_dir_of g f" and "file_path f \<in> set (ht_files h)"
  shows "accounted (write_manifest d (sort_key file_path (manifest_of d h @ [f]))
    (h\<lparr>used_size := used_size h + size_of f, available_size := available_size h - size_of f\<rparr>))" (is "accounted ?h")
proof -
  let ?sized = "h\<lparr>used_size := used_size h + size_of f, available_size := available_size h - size_of f\<rparr>"
  have ds: "distinct (map fst (ht_manifests h))" using assms(1) by (simp add: accounted_def)
  have k: "kept ?h = add_mset f (kept h)"
    using kept_write(1) [of ?sized d "sort_key file_path (manifest_of d h @ [f])"] kept_split [OF ds, of d] ds
    by (simp add: manifest_of_def)
  have "apart (add_mset f (kept h))" using apart_add assms(1,2) by (simp add: accounted_def)
  moreover have "distinct (map fst (ht_manifests ?h))" using kept_write(2) [of ?sized] ds by simp
  moreover have "file_path f \<in> set (ht_files ?h)" using assms(3) by simp
  ultimately show ?thesis using assms(1) unfolding accounted_def k by (auto simp: algebra_simps)
qed

text \<open>C26: Let the tier's account be exact (the used size is the sum of the sizes of the files in the
  manifests, all of which exist, used and available size add up to the size of the tier, and no
  two kept files share a directory), let the running total be the used size, and let the file to
  download share no directory with a kept one. Then making room for it and downloading it keep
  the account exact, whether there was room, the download failed or the file was stored. The
  total is the used size again, unless there was no room: then it is the used size of before
  although files may have been removed, and a later download with that total breaks the account
  (\<open>stale_total_breaks_account\<close>).\<close>

theorem hot_tier_accounting:
  assumes "accounted ht" and "process_parquet_file env f d (used_size ht) ht = (ht', sum1, r)"
    and "\<forall>g \<in># kept ht. \<not> in_dir_of f g \<and> \<not> in_dir_of g f"
  shows "accounted ht' \<and> sum1 = (if r = Inr False then used_size ht else used_size ht')"
proof -
  define ready where "ready = (if \<not> is_disk_available env (file_size f) ht \<or> available_size ht \<le> size_of f then
      (case cleanup_hot_tier_old_data env (file_path f) (size_of f) ht of
         (ht', deleted) \<Rightarrow> (ht', if deleted then used_size ht' else used_size ht, deleted))
      else (ht, used_size ht, True))"
  obtain h t b where rdy: "ready = (h, t, b)" by (metis surj_pair)
  have "accounted (fst (cleanup_hot_tier_old_data env (file_path f) (size_of f) ht))"
    using clean_dates_accounted [OF assms(1)] by (simp add: cleanup_hot_tier_old_data_def)
  moreover have "kept (fst (cleanup_hot_tier_old_data env (file_path f) (size_of f) ht)) \<subseteq># kept ht"
    using clean_dates_accounted [OF assms(1)] by (simp add: cleanup_hot_tier_old_data_def)
  ultimately have h: "accounted h" and t: "t = (if b then used_size h else used_size ht)" and sub: "kept h \<subseteq># kept ht"
    using rdy assms(1) by (auto simp: ready_def split: if_splits prod.splits)
  define h1 where "h1 = h\<lparr>ht_files := List.insert (file_path f) (ht_files h)\<rparr>"
  have p: "process_parquet_file env f d (used_size ht) ht =
      (if \<not> b then (h, t, Inr False)
       else if \<not> download_ok env (file_path f) then (h1, t, Inl ())
       else (write_manifest d (sort_key file_path (manifest_of d h1 @ [f]))
               (h1\<lparr>used_size := t + size_of f, available_size := available_size h1 - size_of f\<rparr>), t + size_of f, Inr True))"
    unfolding process_parquet_file_def ready_def [symmetric] rdy by (simp add: Let_def h1_def manifest_of_def)
  have h1: "accounted h1" using h by (auto simp: accounted_def h1_def kept_def)
  define h2 where "h2 = write_manifest d (sort_key file_path (manifest_of d h1 @ [f]))
               (h1\<lparr>used_size := used_size h1 + size_of f, available_size := available_size h1 - size_of f\<rparr>)"
  have "accounted h2"
    unfolding h2_def by (rule stored_accounted [OF h1])
      (use sub assms(3) mset_subset_eqD in \<open>fastforce simp: h1_def kept_def\<close>, simp add: h1_def)
  moreover have "used_size h1 = used_size h" by (simp add: h1_def)
  ultimately show ?thesis using assms(2) h h1 t unfolding p h2_def by (auto split: if_splits)
qed

section \<open>Where the account fails\<close>

text \<open>When making room removes some files and then meets a newer one, it gives up and the caller keeps
  the running total of before. The next file that fits is added to that total: the used size is then wrong,
  and used and available size no longer add up to the size of the tier.\<close>

theorem stale_total_breaks_account:
  assumes "accounted ht" and "process_parquet_file env f d (used_size ht) ht = (ht1, t, Inr False)"
    and "used_size ht1 \<noteq> used_size ht" and "is_disk_available env (file_size g) ht1"
    and "size_of g < available_size ht1" and "download_ok env (file_path g)"
  shows "\<exists>ht2. process_parquet_file env g d' t ht1 = (ht2, t + size_of g, Inr True) \<and>
    used_size ht2 + available_size ht2 \<noteq> ht_size ht2"
proof -
  obtain h deleted where c: "cleanup_hot_tier_old_data env (file_path f) (size_of f) ht = (h, deleted)" by fastforce
  have "accounted h"
    using clean_dates_accounted [OF assms(1), of env "file_path f" "size_of f" "fetch_hot_tier_dates ht" False] c
    by (simp add: cleanup_hot_tier_old_data_def)
  moreover have "ht1 = h \<and> t = used_size ht"
    using assms(2) c by (auto simp: process_parquet_file_def Let_def split: if_splits)
  ultimately have sums: "used_size ht1 + available_size ht1 = ht_size ht1" and t: "t = used_size ht"
    by (auto simp: accounted_def)
  have "t + size_of g + (available_size ht1 - size_of g) = used_size ht + available_size ht1" by (simp add: t)
  then have "t + size_of g + (available_size ht1 - size_of g) \<noteq> ht_size ht1" using sums assms(3) by (metis add_right_cancel)
  then show ?thesis using assms(4-6)
    by (auto simp: process_parquet_file_def Let_def not_le write_manifest_def)
qed

text \<open>Making room deletes the directory of the oldest file and counts that file only: another file of the
  directory is gone as well, but stays in the manifest and in the used size, and queries are still sent
  to it.\<close>

theorem shared_directory_lost:
  assumes "ht_manifests ht = [(d, [f, g])]" and "file_path f \<le> file_path g"
    and "file_path f \<in> set (ht_files ht)" and "in_dir_of f g"
    and "\<not> not_newer env download (file_path f)" and "needed < available_size ht + size_of f"
  shows "\<exists>ht'. cleanup_hot_tier_old_data env download needed ht = (ht', True) \<and>
    file_path g \<notin> set (ht_files ht') \<and> g \<in> set (get_hot_tier_parquet_files ht') \<and>
    used_size ht' = used_size ht - size_of f"
proof -
  define h where "h = drop_file d f [g] ht"
  have "sort_key file_path [f, g] = [f, g]" using assms(2) by simp
  moreover have "manifest_of d ht = [f, g]" "fetch_hot_tier_dates ht = [d]"
    using assms(1) by (simp_all add: manifest_of_def fetch_hot_tier_dates_def)
  moreover have "\<not> available_size ht + size_of f \<le> needed" using assms(6) by (simp add: not_le)
  ultimately have "cleanup_hot_tier_old_data env download needed ht = (h, True)"
    using assms(3,5) by (simp add: cleanup_hot_tier_old_data_def Let_def h_def drop_file_def remove_dir_all_def del: sort_key_simps)
  moreover have "ht_manifests h = [(d, [g])]" "file_path g \<notin> set (ht_files h)" "used_size h = used_size ht - size_of f"
    using assms(1,4) by (simp_all add: h_def drop_file_def remove_dir_all_def write_manifest_def in_dir_of_def)
  ultimately show ?thesis by (simp add: get_hot_tier_parquet_files_def fetch_hot_tier_dates_def manifest_of_def)
qed

text \<open>Setting the size of a tier that already holds files declares the whole size available: from then
  on the used and the available size add up to more than the size of the tier.\<close>

theorem resize_overstates:
  assumes "put_stream_hot_tier env stream new w = (w', Inr ())" and "map_of (tw_tiers w) stream = Some ht"
  shows "\<exists>ht'. map_of (tw_tiers w') stream = Some ht' \<and> ht_size ht' = new \<and> ht_manifests ht' = ht_manifests ht \<and>
    used_size ht' + available_size ht' = ht_size ht' + used_size ht"
  using assms
  by (auto simp: put_stream_hot_tier_def Let_def validate_hot_tier_size_def put_tier_def update_conv'
      split: if_splits sum.splits option.splits prod.splits)

lemma word_sub_above:
  fixes a b :: "64 word"
  assumes "a < b"
  shows "a < a - b"
proof -
  have "unat (a - b) = unat a + 2 ^ 64 - unat b"
    using assms unat_sub_if' [of a b] by (simp add: word_less_nat_alt)
  moreover have "unat b < 2 ^ 64" using unsigned_less [of b] by simp
  ultimately show ?thesis by (simp add: word_less_nat_alt)
qed

text \<open>For a file that is larger than the whole tier, making room reports success once it has deleted
  everything; the file is stored, and the available size wraps around to more than the size of the
  tier.\<close>

theorem oversized_file_wraps:
  assumes "ht_manifests ht = [(d, [g])]" and "file_path g \<in> set (ht_files ht)"
    and "used_size ht = size_of g" and "used_size ht + available_size ht = ht_size ht"
    and "ht_size ht < size_of f" and "available_size ht \<le> size_of f"
    and "\<not> not_newer env (file_path f) (file_path g)" and "download_ok env (file_path f)"
  shows "\<exists>ht' sum1. process_parquet_file env f d (used_size ht) ht = (ht', sum1, Inr True) \<and>
    ht_size ht < available_size ht'"
proof -
  have avail: "available_size ht + size_of g = ht_size ht" using assms(3,4) by (simp add: algebra_simps)
  define h where "h = drop_file d g [] ht"
  have "manifest_of d ht = [g]" "fetch_hot_tier_dates ht = [d]"
    using assms(1) by (simp_all add: manifest_of_def fetch_hot_tier_dates_def)
  then have c: "cleanup_hot_tier_old_data env (file_path f) (size_of f) ht = (h, True)"
    using assms(2,5,7) avail by (simp add: cleanup_hot_tier_old_data_def Let_def h_def drop_file_def remove_dir_all_def)
  have "available_size h = ht_size ht" using avail by (simp add: h_def drop_file_def)
  then show ?thesis
    using assms(5,6,8) c word_sub_above [OF assms(5)] by (simp add: process_parquet_file_def Let_def)
qed

text \<open>A download that fails leaves the file it created: the file is in no manifest, and later runs pass
  over it as if it had been downloaded.\<close>

theorem failed_download_blocks:
  assumes "process_parquet_file env f d sum0 ht = (ht', sum1, Inl ())" and "accounted ht" and "f \<notin># kept ht"
  shows "f \<notin># kept ht' \<and> process_files env' day (f # fs) sum2 ht' = process_files env' day fs sum2 ht'"
proof -
  obtain h deleted where c: "cleanup_hot_tier_old_data env (file_path f) (size_of f) ht = (h, deleted)" by fastforce
  have "kept h \<subseteq># kept ht"
    using clean_dates_accounted [OF assms(2), of env "file_path f" "size_of f" "fetch_hot_tier_dates ht" False] c
    by (simp add: cleanup_hot_tier_old_data_def)
  then have "f \<notin># kept h" using assms(3) mset_subset_eqD by fast
  then show ?thesis using assms(1,3) c
    by (auto simp: process_parquet_file_def Let_def kept_def split: if_splits)
qed

section \<open>A concrete tier\<close>

definition tier_file :: "string \<Rightarrow> nat \<Rightarrow> manifest_file" where
  "tier_file path n = \<lparr>file_path = path, num_rows = 1, file_size = n, ingestion_size = n, file_columns = [], sort_order_id = []\<rparr>"

definition tier_env :: hot_tier_env where
  "tier_env = \<lparr>get_disk_usage = (\<lambda>_. None), max_disk_usage = 80, read_date = (\<lambda>_. None), download_ok = (\<lambda>p. p \<noteq> ''s/c/x'')\<rparr>"

definition tier1 :: hot_tier where
  "tier1 = \<lparr>ht_size = 100, used_size = 60, available_size = 40, ht_files = [''s/a/x''],
     ht_manifests = [(0, [tier_file ''s/a/x'' 60])]\<rparr>"

lemma tier1_accounted: "accounted tier1"
  by (simp add: accounted_def tier1_def kept_def tier_file_def size_of_def apart_def)

lemma tier_clocks [simp]: "\<not> not_newer tier_env a b"
  by (simp add: not_newer_def extract_datetime_def tier_env_def split: option.splits prod.splits)

theorem hot_tier_accounting_witness:
  "accounted (fst (process_parquet_file tier_env (tier_file ''s/b/x'' 50) 1 60 tier1))"
proof -
  obtain ht' sum1 r where p: "process_parquet_file tier_env (tier_file ''s/b/x'' 50) 1 (used_size tier1) tier1 = (ht', sum1, r)"
    by (metis surj_pair)
  have "accounted ht'"
    by (rule hot_tier_accounting [OF tier1_accounted p, THEN conjunct1])
      (simp add: tier1_def kept_def tier_file_def in_dir_of_def parent_def)
  with p show ?thesis by (simp add: tier1_def)
qed

definition dated_env :: hot_tier_env where
  "dated_env = tier_env\<lparr>read_date := (\<lambda>_. Some 0)\<rparr>"

definition dated_file :: "string \<Rightarrow> nat \<Rightarrow> manifest_file" where
  "dated_file hour n = tier_file (''s/date=1970-01-01/hour='' @ hour @ ''/minute=00/x'') n"

definition dated_tier :: hot_tier where
  "dated_tier = \<lparr>ht_size = 100, used_size = 80, available_size = 20,
     ht_files = map file_path [dated_file ''01'' 10, dated_file ''03'' 70],
     ht_manifests = [(0, [dated_file ''01'' 10, dated_file ''03'' 70])]\<rparr>"

theorem stale_total_breaks_account_witness:
  "\<exists>ht1 ht2. process_parquet_file dated_env (dated_file ''02'' 60) 0 80 dated_tier = (ht1, 80, Inr False) \<and>
     process_parquet_file dated_env (dated_file ''00'' 5) 0 80 ht1 = (ht2, 85, Inr True) \<and>
     used_size ht2 + available_size ht2 \<noteq> ht_size ht2"
proof -
  have "accounted dated_tier"
    by (auto simp: accounted_def dated_tier_def kept_def apart_def size_of_def dated_file_def tier_file_def
        insert_subset_eq_iff in_dir_of_def parent_def)
  moreover define ht1 where "ht1 = fst (process_parquet_file dated_env (dated_file ''02'' 60) 0 80 dated_tier)"
  have "snd (process_parquet_file dated_env (dated_file ''02'' 60) 0 80 dated_tier) = (80, Inr False)" by code_simp
  then have "process_parquet_file dated_env (dated_file ''02'' 60) 0 (used_size dated_tier) dated_tier = (ht1, 80, Inr False)"
    by (simp add: ht1_def dated_tier_def prod_eq_iff)
  moreover have "used_size ht1 = 70" "available_size ht1 = 30" unfolding ht1_def by code_simp+
  moreover have "used_size dated_tier = 80" by (simp add: dated_tier_def)
  moreover have "is_disk_available dated_env n ht" for n ht by (simp add: is_disk_available_def dated_env_def tier_env_def)
  moreover have "size_of (dated_file ''00'' 5) = 5" by (simp add: dated_file_def tier_file_def size_of_def)
  moreover have "download_ok dated_env (file_path (dated_file ''00'' 5))"
    by (simp add: dated_env_def tier_env_def dated_file_def tier_file_def)
  ultimately show ?thesis
    using stale_total_breaks_account [of dated_tier dated_env "dated_file ''02'' 60" 0 ht1 80 "dated_file ''00'' 5" 0] by simp
qed

theorem shared_directory_lost_witness:
  "\<exists>ht'. cleanup_hot_tier_old_data tier_env ''s/c/x'' 50
      (tier1\<lparr>ht_files := [''s/a/x'', ''s/a/y''], ht_manifests := [(0, [tier_file ''s/a/x'' 30, tier_file ''s/a/y'' 30])]\<rparr>) = (ht', True) \<and>
    ''s/a/y'' \<notin> set (ht_files ht')"
  using shared_directory_lost [of "tier1\<lparr>ht_files := [''s/a/x'', ''s/a/y''], ht_manifests := [(0, [tier_file ''s/a/x'' 30, tier_file ''s/a/y'' 30])]\<rparr>"
      0 "tier_file ''s/a/x'' 30" "tier_file ''s/a/y'' 30" tier_env "''s/c/x''" 50]
  by (auto simp: tier1_def tier_file_def in_dir_of_def parent_def size_of_def less_eq_char_def)

theorem oversized_file_wraps_witness:
  "\<exists>ht' sum1. process_parquet_file tier_env (tier_file ''s/b/x'' 150) 0 60 tier1 = (ht', sum1, Inr True) \<and> 100 < available_size ht'"
  using oversized_file_wraps [of tier1 0 "tier_file ''s/a/x'' 60" "tier_file ''s/b/x'' 150" tier_env]
  by (simp add: tier1_def tier_file_def size_of_def) (simp add: tier_env_def)

theorem failed_download_blocks_witness:
  "process_files tier_env (Some 0) [tier_file ''s/c/x'' 10] 60 (fst (process_parquet_file tier_env (tier_file ''s/c/x'' 10) 0 60 tier1)) =
   process_files tier_env (Some 0) [] 60 (fst (process_parquet_file tier_env (tier_file ''s/c/x'' 10) 0 60 tier1))"
proof -
  have "process_parquet_file tier_env (tier_file ''s/c/x'' 10) 0 60 tier1 = (tier1\<lparr>ht_files := [''s/c/x'', ''s/a/x'']\<rparr>, 60, Inl ())"
    by (simp add: process_parquet_file_def is_disk_available_def tier_env_def tier1_def tier_file_def size_of_def Let_def)
  from failed_download_blocks [OF this tier1_accounted] show ?thesis
    unfolding \<open>process_parquet_file tier_env _ 0 60 tier1 = _\<close> by (simp add: tier1_def kept_def tier_file_def)
qed

definition set_env :: set_tier_env where
  "set_env = \<lparr>stream_exists = True, is_internal = False, two_decimals = (\<lambda>_. []), tier_disk = Some \<lparr>total_space = 10 ^ 12, available_space = 10 ^ 12\<rparr>,
     tier_max_usage = 80, metadata_ok = True\<rparr>"

theorem resize_overstates_witness:
  "\<exists>ht'. map_of (tw_tiers (fst (put_stream_hot_tier set_env ''s'' 20000000000
      \<lparr>tw_tiers = [(''s'', tier1)], tw_memory = [], tw_metadata = []\<rparr>))) ''s'' = Some ht' \<and>
    used_size ht' + available_size ht' = ht_size ht' + 60"
proof -
  have "hot_tier (two_decimals set_env) (show_nat 20000000000) = Inr ()"
    using parse_show_u64 [of 20000000000] by (simp add: hot_tier_def min_stream_hot_tier_size_bytes_def)
  then have p: "put_stream_hot_tier set_env ''s'' 20000000000 \<lparr>tw_tiers = [(''s'', tier1)], tw_memory = [], tw_metadata = []\<rparr> =
      (\<lparr>tw_tiers = put_tier ''s'' 20000000000 60 20000000000 [(''s'', tier1)], tw_memory = [(''s'', 20000000000)],
        tw_metadata = [(''s'', 20000000000)]\<rparr>, Inr ())"
    by (simp add: put_stream_hot_tier_def set_env_def Let_def validate_hot_tier_size_def get_hot_tiers_size_def
        used_space_def tier1_def)
  from resize_overstates [OF p, of tier1] p show ?thesis by (auto simp: tier1_def)
qed

end
