(* ===== verification/Alert_Conditions.thy ===== *)
theory Alert_Conditions
  imports Prelude Complex_Main
begin

text \<open>
  The conditions of alerts and counts requests: \<open>src/alerts/alerts_utils.rs\<close> and the operators of
  \<open>src/alerts/alert_enums.rs\<close>. A condition becomes SQL text; the text is read back here the way
  SQL reads a string literal and a \<open>LIKE\<close> pattern.
\<close>

section \<open>Operators\<close>

datatype alert_operator = GreaterThan | LessThan | EqualTo | NotEqualTo | GreaterThanOrEqual | LessThanOrEqual

fun alert_operator_fmt :: "alert_operator \<Rightarrow> string" where
  "alert_operator_fmt GreaterThan = ''>''"
| "alert_operator_fmt LessThan = ''<''"
| "alert_operator_fmt EqualTo = ''=''"
| "alert_operator_fmt NotEqualTo = ''!=''"
| "alert_operator_fmt GreaterThanOrEqual = ''>=''"
| "alert_operator_fmt LessThanOrEqual = ''<=''"

text \<open>Values are real numbers (no NaN).\<close>

fun evaluate_condition :: "alert_operator \<Rightarrow> real \<Rightarrow> real \<Rightarrow> bool" where
  "evaluate_condition GreaterThan actual expected \<longleftrightarrow> actual > expected"
| "evaluate_condition LessThan actual expected \<longleftrightarrow> actual < expected"
| "evaluate_condition EqualTo actual expected \<longleftrightarrow> actual = expected"
| "evaluate_condition NotEqualTo actual expected \<longleftrightarrow> actual \<noteq> expected"
| "evaluate_condition GreaterThanOrEqual actual expected \<longleftrightarrow> actual \<ge> expected"
| "evaluate_condition LessThanOrEqual actual expected \<longleftrightarrow> actual \<le> expected"

datatype where_operator =
    WEqual | WNotEqual | WLessThan | WGreaterThan | WLessThanOrEqual | WGreaterThanOrEqual
  | WIsNull | WIsNotNull | WILike | WContains | WBeginsWith | WEndsWith
  | WDoesNotContain | WDoesNotBeginWith | WDoesNotEndWith

fun where_operator_str :: "where_operator \<Rightarrow> string" where
  "where_operator_str WEqual = ''=''"
| "where_operator_str WNotEqual = ''!=''"
| "where_operator_str WLessThan = ''<''"
| "where_operator_str WGreaterThan = ''>''"
| "where_operator_str WLessThanOrEqual = ''<=''"
| "where_operator_str WGreaterThanOrEqual = ''>=''"
| "where_operator_str WIsNull = ''is null''"
| "where_operator_str WIsNotNull = ''is not null''"
| "where_operator_str WILike = ''ilike''"
| "where_operator_str WContains = ''contains''"
| "where_operator_str WBeginsWith = ''begins with''"
| "where_operator_str WEndsWith = ''ends with''"
| "where_operator_str WDoesNotContain = ''does not contain''"
| "where_operator_str WDoesNotBeginWith = ''does not begin with''"
| "where_operator_str WDoesNotEndWith = ''does not end with''"

text \<open>Read for a stored alert of the first version; anything else is equality.\<close>

definition parse_where_operator :: "string \<Rightarrow> where_operator" where
  "parse_where_operator s =
     (case List.find (\<lambda>op. where_operator_str op = s)
        [WEqual, WNotEqual, WLessThan, WGreaterThan, WLessThanOrEqual, WGreaterThanOrEqual,
         WIsNull, WIsNotNull, WILike, WContains, WBeginsWith, WEndsWith,
         WDoesNotContain, WDoesNotBeginWith, WDoesNotEndWith] of
        Some op \<Rightarrow> op
      | None \<Rightarrow> WEqual)"

datatype logical_operator = And | Or

record condition_config =
  cc_column :: string
  cc_operator :: where_operator
  cc_value :: "string option"
  cc_type :: "string option"

record conditions =
  co_operator :: "logical_operator option"
  co_config :: "condition_config list"

section \<open>Escaping\<close>

definition replace_char :: "char \<Rightarrow> string \<Rightarrow> string \<Rightarrow> string" where
  "replace_char c r s = concat (map (\<lambda>x. if x = c then r else [x]) s)"

abbreviation backslash :: char where
  "backslash \<equiv> CHR 0x5C"

abbreviation quote :: char where
  "quote \<equiv> CHR 0x27"

definition escape_like :: "string \<Rightarrow> string" where
  "escape_like value =
     replace_char CHR ''_'' [backslash, CHR ''_'']
      (replace_char CHR ''%'' [backslash, CHR ''%'']
        (replace_char quote [quote, quote]
          (replace_char backslash [backslash, backslash] value)))"

definition quoted :: "string \<Rightarrow> string" where
  "quoted value = [quote] @ replace_char quote [quote, quote] value @ [quote]"

section \<open>Conditions as SQL\<close>

text \<open>Numbers are parsed and printed by the standard library; a number is kept as it is printed.\<close>

record value_parsers =
  parse_number :: "string \<Rightarrow> string option"

definition parse_bool :: "string \<Rightarrow> string option" where
  "parse_bool s = (if s = ''true'' \<or> s = ''false'' then Some s else None)"

datatype value_type = Number string | StringValue string | BooleanValue string

definition value_type_from_string :: "value_parsers \<Rightarrow> string \<Rightarrow> value_type" where
  "value_type_from_string p s =
     (case parse_number p s of
        Some n \<Rightarrow> Number n
      | None \<Rightarrow> (case parse_bool s of Some b \<Rightarrow> BooleanValue b | None \<Rightarrow> StringValue s))"

datatype condition_error =
    NotAnd | ValueMustBeNull | UnsupportedForList where_operator | InvalidBoolean string | InvalidNumber string

definition list_condition_expr :: "string \<Rightarrow> where_operator \<Rightarrow> string \<Rightarrow> condition_error + string" where
  "list_condition_expr column op v =
     (let inside = (case Option.bind (strip_prefix ''['' (trim v)) (strip_suffix '']'') of
          Some s \<Rightarrow> s | None \<Rightarrow> v) in
      case op of
        WContains \<Rightarrow> Inr (''array_has_all(\"'' @ column @ ''\", ARRAY['' @ inside @ ''])'')
      | WDoesNotContain \<Rightarrow> Inr (''NOT array_has_all(\"'' @ column @ ''\", ARRAY['' @ inside @ ''])'')
      | WEqual \<Rightarrow> Inr (''\"'' @ column @ ''\" = ARRAY['' @ inside @ '']'')
      | WNotEqual \<Rightarrow> Inr (''\"'' @ column @ ''\" != ARRAY['' @ inside @ '']'')
      | _ \<Rightarrow> Inl (UnsupportedForList op))"

text \<open>The keyword, and the text around the escaped value, of an operator on patterns.\<close>

fun like_shape :: "where_operator \<Rightarrow> (string \<times> string \<times> string) option" where
  "like_shape WContains = Some (''LIKE '', ''%'', ''%'')"
| "like_shape WDoesNotContain = Some (''NOT LIKE '', ''%'', ''%'')"
| "like_shape WILike = Some (''ILIKE '', ''%'', ''%'')"
| "like_shape WBeginsWith = Some (''LIKE '', '''', ''%'')"
| "like_shape WDoesNotBeginWith = Some (''NOT LIKE '', '''', ''%'')"
| "like_shape WEndsWith = Some (''LIKE '', ''%'', '''')"
| "like_shape WDoesNotEndWith = Some (''NOT LIKE '', ''%'', '''')"
| "like_shape _ = None"

definition like_literal :: "string \<Rightarrow> string \<Rightarrow> string \<Rightarrow> string" where
  "like_literal before value after = [quote] @ before @ escape_like value @ after @ [quote]"

definition scalar_value :: "value_parsers \<Rightarrow> string option \<Rightarrow> string \<Rightarrow> condition_error + string" where
  "scalar_value p column_type v =
     (case column_type of
        Some t \<Rightarrow>
          if t = ''bool'' \<or> t = ''boolean'' then
            (case parse_bool v of Some b \<Rightarrow> Inr b | None \<Rightarrow> Inl (InvalidBoolean v))
          else if t = ''int'' \<or> t = ''float'' \<or> t = ''number'' then
            (case parse_number p v of Some n \<Rightarrow> Inr n | None \<Rightarrow> Inl (InvalidNumber v))
          else Inr (quoted v)
      | None \<Rightarrow>
          (case value_type_from_string p v of
             Number n \<Rightarrow> Inr n
           | BooleanValue b \<Rightarrow> Inr b
           | StringValue s \<Rightarrow> Inr (quoted s)))"

definition scalar_condition_expr ::
  "value_parsers \<Rightarrow> string \<Rightarrow> where_operator \<Rightarrow> string \<Rightarrow> string option \<Rightarrow> condition_error + string" where
  "scalar_condition_expr p column op v column_type =
     bind_result
       (case like_shape op of
          Some (keyword, before, after) \<Rightarrow>
            Inr (keyword @ like_literal before v after @ '' ESCAPE '' @ [quote, backslash, quote])
        | None \<Rightarrow> bind_result (scalar_value p column_type v)
            (\<lambda>text. Inr (where_operator_str op @ '' '' @ text)))
       (\<lambda>text. Inr (''\"'' @ column @ ''\" '' @ text))"

definition condition_to_expr :: "value_parsers \<Rightarrow> condition_config \<Rightarrow> condition_error + string" where
  "condition_to_expr p c =
     (if cc_operator c = WIsNull \<or> cc_operator c = WIsNotNull then
        (if (case cc_value c of Some v \<Rightarrow> v \<noteq> [] | None \<Rightarrow> False) then Inl ValueMustBeNull
         else Inr (''\"'' @ cc_column c @ ''\" '' @ where_operator_str (cc_operator c)))
      else
        let v = (case cc_value c of Some v \<Rightarrow> v | None \<Rightarrow> []) in
        if (case cc_type c of Some t \<Rightarrow> prefix ''list'' t | None \<Rightarrow> False)
        then list_condition_expr (cc_column c) (cc_operator c) v
        else scalar_condition_expr p (cc_column c) (cc_operator c) v (cc_type c))"

fun join :: "string \<Rightarrow> string list \<Rightarrow> string" where
  "join sep [] = []"
| "join sep [s] = s"
| "join sep (s # ss) = s @ sep @ join sep ss"

definition get_filter_string :: "value_parsers \<Rightarrow> conditions \<Rightarrow> condition_error + string" where
  "get_filter_string p c =
     (case co_operator c of
        Some And \<Rightarrow> bind_result (map_result (condition_to_expr p) (co_config c)) (\<lambda>es. Inr (join '' AND '' es))
      | _ \<Rightarrow> Inl NotAnd)"

section \<open>How SQL reads the text\<close>

text \<open>The characters of a string literal, the opening quote already read: a doubled quote is a quote,
  a single one ends the literal; what follows is returned too.\<close>

fun read_literal :: "string \<Rightarrow> (string \<times> string) option" where
  "read_literal [] = None"
| "read_literal (c # s) =
     (if c = quote then
        (case s of
           d # s' \<Rightarrow> if d = quote then map_option (\<lambda>(v, r). (quote # v, r)) (read_literal s') else Some ([], s)
         | [] \<Rightarrow> Some ([], []))
      else map_option (\<lambda>(v, r). (c # v, r)) (read_literal s))"

text \<open>A pattern with the backslash as escape character.\<close>

datatype like_token = Lit char | One | Any

fun like_tokens :: "string \<Rightarrow> like_token list option" where
  "like_tokens [] = Some []"
| "like_tokens (c # s) =
     (if c = backslash then (case s of [] \<Rightarrow> None | d # s' \<Rightarrow> map_option ((#) (Lit d)) (like_tokens s'))
      else map_option ((#) (if c = CHR ''%'' then Any else if c = CHR ''_'' then One else Lit c)) (like_tokens s))"

fun like_match :: "(char \<Rightarrow> char \<Rightarrow> bool) \<Rightarrow> like_token list \<Rightarrow> string \<Rightarrow> bool" where
  "like_match same [] s \<longleftrightarrow> s = []"
| "like_match same (Lit c # ts) s \<longleftrightarrow> (case s of x # xs \<Rightarrow> same x c \<and> like_match same ts xs | [] \<Rightarrow> False)"
| "like_match same (One # ts) s \<longleftrightarrow> (case s of x # xs \<Rightarrow> like_match same ts xs | [] \<Rightarrow> False)"
| "like_match same (Any # ts) s \<longleftrightarrow>
     list_ex (like_match same ts) (map (\<lambda>n. drop n s) [0..<Suc (length s)])"

text \<open>What the comparison that a keyword names asks of a text: \<open>NOT LIKE\<close> negates, and \<open>ILIKE\<close> takes
  two letters for the same when they differ in their case only, which is the database's matter and
  a parameter.\<close>

definition like_holds :: "(char \<Rightarrow> char \<Rightarrow> bool) \<Rightarrow> string \<Rightarrow> like_token list \<Rightarrow> string \<Rightarrow> bool" where
  "like_holds same_letter keyword ts s \<longleftrightarrow>
     (if keyword = ''NOT LIKE '' then \<not> like_match (=) ts s
      else if keyword = ''ILIKE '' then like_match same_letter ts s
      else like_match (=) ts s)"

text \<open>Whether a value matches the pattern that starts the text, opening quote included; the whole
  literal is read and the rest returned.\<close>

definition reads_as :: "string \<Rightarrow> string \<Rightarrow> string \<Rightarrow> bool" where
  "reads_as sql value rest \<longleftrightarrow>
     (case sql of c # s \<Rightarrow> c = quote \<and> read_literal s = Some (value, rest) | [] \<Rightarrow> False)"

section \<open>Escaping is exact\<close>

lemma replace_char_simps [simp]:
  "replace_char c r [] = []"
  "replace_char c r (x # s) = (if x = c then r else [x]) @ replace_char c r s"
  "replace_char c r (s @ t) = replace_char c r s @ replace_char c r t"
  by (simp_all add: replace_char_def)

text \<open>The pattern of a value: backslashes, percent signs and underscores are escaped.\<close>

fun pattern_of :: "string \<Rightarrow> string" where
  "pattern_of [] = []"
| "pattern_of (c # s) = (if c \<in> {backslash, CHR ''%'', CHR ''_''} then [backslash, c] else [c]) @ pattern_of s"

lemma escape_like_quotes: "escape_like v = replace_char quote [quote, quote] (pattern_of v)"
  by (induction v) (auto simp: escape_like_def)

lemma read_quoted:
  assumes "case rest of d # _ \<Rightarrow> d \<noteq> quote | [] \<Rightarrow> True"
  shows "read_literal (replace_char quote [quote, quote] s @ quote # rest) = Some (s, rest)"
  using assms by (induction s) (auto split: list.splits)

lemma tokens_pattern: "like_tokens (pattern_of v @ s) = map_option ((@) (map Lit v)) (like_tokens s)"
  by (induction v) (auto simp: option.map_comp comp_def option.map_ident)

lemma match_literals:
  "like_match same (map Lit v @ ts) s \<longleftrightarrow> (\<exists>u r. s = u @ r \<and> list_all2 same u v \<and> like_match same ts r)"
proof (induction v arbitrary: s)
  case Nil
  then show ?case by simp
next
  case (Cons c v)
  show ?case
  proof (cases s)
    case Nil
    then show ?thesis by simp
  next
    case (Cons x xs)
    then show ?thesis using Cons.IH [of xs] by (auto simp: list_all2_Cons2 Cons_eq_append_conv)
  qed
qed

lemma match_any: "like_match same (Any # ts) s \<longleftrightarrow> (\<exists>a r. s = a @ r \<and> like_match same ts r)"
proof
  assume "like_match same (Any # ts) s"
  then obtain n where "like_match same ts (drop n s)"
    unfolding like_match.simps list_ex_iff by (metis ex_map_conv)
  then have "s = take n s @ drop n s \<and> like_match same ts (drop n s)" by simp
  then show "\<exists>a r. s = a @ r \<and> like_match same ts r" by blast
next
  assume "\<exists>a r. s = a @ r \<and> like_match same ts r"
  then obtain a r where ar: "s = a @ r" "like_match same ts r" by blast
  then have "like_match same ts (drop (length a) s)" "length a < Suc (length s)" by simp_all
  then show "like_match same (Any # ts) s" unfolding like_match.simps list_ex_iff set_map set_upt
    by (metis atLeastLessThan_iff image_eqI le0)
qed

lemma match_any_end [simp]: "like_match same [Any] s"
  unfolding match_any by (metis append_Nil2 like_match.simps(1))

text \<open>Whether a text contains a value, up to the letters that count as the same.\<close>

definition contains_letters :: "(char \<Rightarrow> char \<Rightarrow> bool) \<Rightarrow> string \<Rightarrow> string \<Rightarrow> bool" where
  "contains_letters same v s \<longleftrightarrow>
     list_ex (\<lambda>n. list_all2 same (take (length v) (drop n s)) v) [0..<Suc (length s)]"

lemma contains_letters_iff:
  "contains_letters same v s \<longleftrightarrow> (\<exists>a u r. s = a @ u @ r \<and> list_all2 same u v)"
proof
  assume "contains_letters same v s"
  then obtain n where "list_all2 same (take (length v) (drop n s)) v"
    by (auto simp: contains_letters_def list_ex_iff)
  moreover have "s = take n s @ take (length v) (drop n s) @ drop (length v) (drop n s)"
    by (simp only: append_take_drop_id)
  ultimately show "\<exists>a u r. s = a @ u @ r \<and> list_all2 same u v" by blast
next
  assume "\<exists>a u r. s = a @ u @ r \<and> list_all2 same u v"
  then obtain a u r where s: "s = a @ u @ r" and u: "list_all2 same u v" by blast
  then have "take (length v) (drop (length a) s) = u" by (simp add: list_all2_lengthD)
  with u s show "contains_letters same v s"
    unfolding contains_letters_def list_ex_iff by (intro bexI [of _ "length a"]) simp_all
qed

lemma contains_letters_eq: "contains_letters (=) v s \<longleftrightarrow> contains_str v s"
  unfolding contains_letters_iff contains_str_iff list.rel_eq by auto

lemma match_contains: "like_match same (Any # map Lit v @ [Any]) s \<longleftrightarrow> contains_letters same v s"
  unfolding match_any match_literals contains_letters_iff by auto

lemma match_prefix: "like_match (=) (map Lit v @ [Any]) s \<longleftrightarrow> prefix v s"
  unfolding match_literals prefix_def list.rel_eq by auto

lemma match_suffix: "like_match (=) (Any # map Lit v) s \<longleftrightarrow> suffix v s"
  unfolding match_any suffix_def using match_literals [of "(=)" v "[]"] by (auto simp: list.rel_eq)

text \<open>What an operator on patterns asks of the text.\<close>

fun pattern_meaning :: "(char \<Rightarrow> char \<Rightarrow> bool) \<Rightarrow> where_operator \<Rightarrow> string \<Rightarrow> string \<Rightarrow> bool" where
  "pattern_meaning same WBeginsWith v s \<longleftrightarrow> prefix v s"
| "pattern_meaning same WDoesNotBeginWith v s \<longleftrightarrow> \<not> prefix v s"
| "pattern_meaning same WEndsWith v s \<longleftrightarrow> suffix v s"
| "pattern_meaning same WDoesNotEndWith v s \<longleftrightarrow> \<not> suffix v s"
| "pattern_meaning same WDoesNotContain v s \<longleftrightarrow> \<not> contains_str v s"
| "pattern_meaning same WILike v s \<longleftrightarrow> contains_letters same v s"
| "pattern_meaning same _ v s \<longleftrightarrow> contains_str v s"

text \<open>C38: The literal that a condition on a pattern writes is read by SQL as one literal that ends
  where the condition ends it, whatever the value holds; and the comparison, with the keyword that
  the condition writes before the literal, holds of a text exactly when the operator's meaning does:
  the text contains, begins with or ends with the value, or for a negated operator does not, and for
  ILIKE it contains the value up to whichever letters the database takes for the same. No character
  of the value acts as a wildcard, an escape or a quote. What follows the literal must not begin
  with a quote, as the escape clause that the condition writes there never does.\<close>

theorem like_literal_exact:
  assumes "like_shape op = Some (keyword, before, after)"
    and "case rest of d # _ \<Rightarrow> d \<noteq> quote | [] \<Rightarrow> True"
  shows "\<exists>p ts. reads_as (like_literal before v after @ rest) p rest \<and> like_tokens p = Some ts \<and>
    (\<forall>same s. like_holds same keyword ts s \<longleftrightarrow> pattern_meaning same op v s)"
proof -
  let ?q = "replace_char quote [quote, quote]"
  have shape: "before \<in> {'''', ''%''} \<and> after \<in> {'''', ''%''}"
    using assms(1) by (cases op) auto
  then have "?q before = before" "?q after = after" by auto
  then have lit: "like_literal before v after @ rest = quote # ?q (before @ pattern_of v @ after) @ quote # rest"
    by (simp add: like_literal_def escape_like_quotes)
  have "reads_as (like_literal before v after @ rest) (before @ pattern_of v @ after) rest"
    unfolding lit reads_as_def using read_quoted [OF assms(2)] by (simp del: replace_char_simps)
  moreover have "\<exists>ts. like_tokens (before @ pattern_of v @ after) = Some ts \<and>
      (\<forall>same s. like_holds same keyword ts s \<longleftrightarrow> pattern_meaning same op v s)"
    using assms(1) tokens_pattern [of v "''%''"] tokens_pattern [of v "[]"]
    by (cases op) (auto simp: like_holds_def match_contains match_prefix match_suffix contains_letters_eq
        simp del: like_match.simps)
  ultimately show ?thesis by blast
qed

theorem like_literal_exact_witness:
  "\<exists>p ts. reads_as (like_literal ''%'' ''50% Off'' ''%'' @ '' ESCAPE'') p '' ESCAPE'' \<and> like_tokens p = Some ts \<and>
    (\<forall>same s. like_holds same ''ILIKE '' ts s \<longleftrightarrow> pattern_meaning same WILike ''50% Off'' s)"
  by (rule like_literal_exact) simp_all

text \<open>A text in an ordinary comparison is quoted so that SQL reads it back unchanged.\<close>

theorem quoted_roundtrip:
  assumes "case rest of d # _ \<Rightarrow> d \<noteq> quote | [] \<Rightarrow> True"
  shows "reads_as (quoted v @ rest) v rest"
  using read_quoted [OF assms] by (simp add: reads_as_def quoted_def)

theorem quoted_roundtrip_witness:
  "reads_as (quoted (''it'' @ [quote] @ ''s'') @ '' AND'') (''it'' @ [quote] @ ''s'') '' AND''"
  by (rule quoted_roundtrip) simp

lemma parse_where_operator_str: "parse_where_operator (where_operator_str op) = op"
  by (cases op) (simp_all add: parse_where_operator_def)

end
