(* ===== verification/Alert_State.thy ===== *)
theory Alert_State
  imports Alert_Conditions Chrono
begin

text \<open>
  The states of an alert and their history: \<open>src/alerts/alert_enums.rs\<close>, the histories and the
  time to recovery of \<open>src/alerts/alert_structs.rs\<close>, and the stored histories of
  \<open>src/metastore/metastores/object_store_metastore.rs\<close>.
\<close>

section \<open>States\<close>

text \<open>The derived orders are those of the declarations.\<close>

datatype severity = Critical | High | Medium | Low

datatype alert_state = Triggered | NotTriggered | Disabled

fun severity_rank :: "severity \<Rightarrow> nat" where
  "severity_rank Critical = 0"
| "severity_rank High = 1"
| "severity_rank Medium = 2"
| "severity_rank Low = 3"

fun state_rank :: "alert_state \<Rightarrow> nat" where
  "state_rank Triggered = 0"
| "state_rank NotTriggered = 1"
| "state_rank Disabled = 2"

instantiation severity :: linorder
begin

definition less_eq_severity :: "severity \<Rightarrow> severity \<Rightarrow> bool" where
  "less_eq_severity a b \<longleftrightarrow> severity_rank a \<le> severity_rank b"

definition less_severity :: "severity \<Rightarrow> severity \<Rightarrow> bool" where
  "less_severity a b \<longleftrightarrow> severity_rank a < severity_rank b"

instance
proof
  fix a b :: severity
  show "a \<le> b \<Longrightarrow> b \<le> a \<Longrightarrow> a = b" by (cases a; cases b) (simp_all add: less_eq_severity_def)
qed (auto simp: less_eq_severity_def less_severity_def)

end

instantiation alert_state :: linorder
begin

definition less_eq_alert_state :: "alert_state \<Rightarrow> alert_state \<Rightarrow> bool" where
  "less_eq_alert_state a b \<longleftrightarrow> state_rank a \<le> state_rank b"

definition less_alert_state :: "alert_state \<Rightarrow> alert_state \<Rightarrow> bool" where
  "less_alert_state a b \<longleftrightarrow> state_rank a < state_rank b"

instance
proof
  fix a b :: alert_state
  show "a \<le> b \<Longrightarrow> b \<le> a \<Longrightarrow> a = b" by (cases a; cases b) (simp_all add: less_eq_alert_state_def)
qed (auto simp: less_eq_alert_state_def less_alert_state_def)

end

text \<open>Muted until a time given as text, or without end.\<close>

datatype notification_state = Notify | Mute string

section \<open>The history of states\<close>

record state_transition =
  tr_state :: alert_state
  last_updated_at :: datetime

type_synonym state_history = "state_transition list"

definition new_history :: "datetime \<Rightarrow> alert_state \<Rightarrow> state_history" where
  "new_history clock s = [\<lparr>tr_state = s, last_updated_at = clock\<rparr>]"

text \<open>The new history, and whether it changed.\<close>

definition update_history :: "datetime \<Rightarrow> alert_state \<Rightarrow> state_history \<Rightarrow> state_history \<times> bool" where
  "update_history clock s h =
     (if h \<noteq> [] \<and> tr_state (last h) = s then (h, False)
      else (h @ [\<lparr>tr_state = s, last_updated_at = clock\<rparr>], True))"

definition num_seconds :: "int \<Rightarrow> int" where
  "num_seconds d = (if d < 0 then - (- d div nanos_per_second) else d div nanos_per_second)"

fun recovery_times :: "state_history \<Rightarrow> datetime option \<Rightarrow> int list" where
  "recovery_times [] trigger = []"
| "recovery_times (t # ts) trigger =
     (case tr_state t of
        Triggered \<Rightarrow> recovery_times ts (Some (last_updated_at t))
      | Disabled \<Rightarrow> recovery_times ts trigger
      | NotTriggered \<Rightarrow>
          (case trigger of
             None \<Rightarrow> recovery_times ts None
           | Some triggered_at \<Rightarrow>
               let s = num_seconds (last_updated_at t - triggered_at) in
               (if s > 0 then [s] else []) @ recovery_times ts None))"

definition get_recovery_times :: "state_history \<Rightarrow> int list" where
  "get_recovery_times h = recovery_times (sort_key last_updated_at h) None"

section \<open>Time to recovery\<close>

record mttr_stats =
  total_incidents :: nat
  mean_seconds :: real
  median_seconds :: real
  min_seconds :: real
  max_seconds :: real
  recovery_times_seconds :: "int list"

definition no_mttr :: mttr_stats where
  "no_mttr = \<lparr>total_incidents = 0, mean_seconds = 0, median_seconds = 0, min_seconds = 0, max_seconds = 0,
     recovery_times_seconds = []\<rparr>"

text \<open>Over the reals: floating point rounding is not modelled.\<close>

definition median_of :: "int list \<Rightarrow> real" where
  "median_of ts =
     (let n = length ts; s = sort ts in
      if n = 1 then real_of_int (ts ! 0)
      else if even n then real_of_int (s ! (n div 2 - 1) + s ! (n div 2)) / 2
      else real_of_int (s ! (n div 2)))"

definition from_recovery_times :: "int list \<Rightarrow> mttr_stats" where
  "from_recovery_times ts =
     (if ts = [] then no_mttr
      else \<lparr>total_incidents = length ts, mean_seconds = real_of_int (sum_list ts) / real (length ts),
            median_seconds = median_of ts,
            min_seconds = real_of_int (foldl min (hd ts) (tl ts)),
            max_seconds = real_of_int (foldl max (hd ts) (tl ts)),
            recovery_times_seconds = ts\<rparr>)"

record aggregated_mttr =
  overall :: mttr_stats
  total_alerts :: nat
  alerts_with_incidents :: nat
  per_alert_stats :: "(string \<times> mttr_stats) list"

definition get_mttr_stats :: "state_history \<Rightarrow> mttr_stats" where
  "get_mttr_stats h = from_recovery_times (get_recovery_times h)"

definition from_alert_states :: "(string \<times> state_history) list \<Rightarrow> aggregated_mttr" where
  "from_alert_states entries =
     (let counted = filter (\<lambda>(i, st). total_incidents st \<noteq> 0) (map (\<lambda>(i, h). (i, get_mttr_stats h)) entries) in
      \<lparr>overall = from_recovery_times (concat (map (recovery_times_seconds \<circ> snd) counted)),
       total_alerts = length entries,
       alerts_with_incidents = length counted,
       per_alert_stats = fold (\<lambda>(i, st). AList.update i st) counted []\<rparr>)"

section \<open>The stored history\<close>

text \<open>The object that holds the history of an alert: a history, or bytes that are not one. Reading it
  can fail, and so can writing it.\<close>

datatype stored_history = History state_history | Unreadable

definition put_alert_state ::
  "bool \<Rightarrow> bool \<Rightarrow> datetime \<Rightarrow> alert_state \<Rightarrow> stored_history option \<Rightarrow> stored_history option \<times> bool"
where
  "put_alert_state get_ok put_ok clock s stored =
     (case (get_ok, stored) of
        (True, Some (History h)) \<Rightarrow>
          (case update_history clock s h of
             (h', True) \<Rightarrow> if put_ok then (Some (History h'), True) else (stored, False)
           | (_, False) \<Rightarrow> (stored, True))
      | _ \<Rightarrow> if put_ok then (Some (History (new_history clock s)), True) else (stored, False))"

section \<open>What the history tells\<close>

text \<open>A recovery from the \<open>i\<close>-th to the \<open>j\<close>-th state: triggered, then not triggered, and only disabled
  in between.\<close>

definition recovery :: "state_history \<Rightarrow> nat \<Rightarrow> nat \<Rightarrow> bool" where
  "recovery h i j \<longleftrightarrow> i < j \<and> j < length h \<and> tr_state (h ! i) = Triggered \<and>
     tr_state (h ! j) = NotTriggered \<and> (\<forall>k. i < k \<and> k < j \<longrightarrow> tr_state (h ! k) = Disabled)"

definition first_resolve :: "state_history \<Rightarrow> nat \<Rightarrow> bool" where
  "first_resolve h j \<longleftrightarrow> j < length h \<and> tr_state (h ! j) = NotTriggered \<and>
     (\<forall>k < j. tr_state (h ! k) = Disabled)"

lemma first_resolve_Cons:
  "first_resolve (t # h) j \<longleftrightarrow>
   (j = 0 \<and> tr_state t = NotTriggered) \<or> (\<exists>j'. j = Suc j' \<and> tr_state t = Disabled \<and> first_resolve h j')"
  by (cases j) (auto simp: first_resolve_def less_Suc_eq_0_disj)

lemma recovery_Cons:
  "recovery (t # h) i j \<longleftrightarrow>
   (\<exists>j'. j = Suc j' \<and> ((i = 0 \<and> tr_state t = Triggered \<and> first_resolve h j') \<or> (\<exists>i'. i = Suc i' \<and> recovery h i' j')))"
proof (cases j)
  case 0
  then show ?thesis by (simp add: recovery_def)
next
  case (Suc j')
  have all: "(\<forall>k. P k) \<longleftrightarrow> P 0 \<and> (\<forall>k. P (Suc k))" for P by (metis nat.exhaust)
  show ?thesis
  proof (cases i)
    case 0
    have "recovery (t # h) 0 (Suc j') \<longleftrightarrow> tr_state t = Triggered \<and> first_resolve h j'"
      unfolding recovery_def first_resolve_def
      by (subst all [of "\<lambda>k. 0 < k \<and> k < Suc j' \<longrightarrow> _ k"]) auto
    then show ?thesis using 0 Suc by simp
  next
    case i: (Suc i')
    have "recovery (t # h) (Suc i') (Suc j') \<longleftrightarrow> recovery h i' j'"
      unfolding recovery_def by (subst all [of "\<lambda>k. Suc i' < k \<and> k < Suc j' \<longrightarrow> _ k"]) auto
    then show ?thesis using Suc i by simp
  qed
qed

definition positive_seconds :: "datetime \<Rightarrow> datetime \<Rightarrow> int \<Rightarrow> bool" where
  "positive_seconds a b r \<longleftrightarrow> r = num_seconds (b - a) \<and> 0 < r"

lemma set_recovery_times:
  "r \<in> set (recovery_times h trigger) \<longleftrightarrow>
   (\<exists>i j. recovery h i j \<and> positive_seconds (last_updated_at (h ! i)) (last_updated_at (h ! j)) r) \<or>
   (\<exists>a j. trigger = Some a \<and> first_resolve h j \<and> positive_seconds a (last_updated_at (h ! j)) r)"
proof (induction h arbitrary: trigger)
  case Nil
  then show ?case by (simp add: recovery_def first_resolve_def)
next
  case (Cons t h)
  have rec: "(\<exists>i j. recovery (t # h) i j \<and>
        positive_seconds (last_updated_at ((t # h) ! i)) (last_updated_at ((t # h) ! j)) r) \<longleftrightarrow>
      (\<exists>j. tr_state t = Triggered \<and> first_resolve h j \<and>
        positive_seconds (last_updated_at t) (last_updated_at (h ! j)) r) \<or>
      (\<exists>i j. recovery h i j \<and> positive_seconds (last_updated_at (h ! i)) (last_updated_at (h ! j)) r)"
    unfolding recovery_Cons by (auto; metis nth_Cons_0 nth_Cons_Suc)
  have fst: "(\<exists>a j. trigger = Some a \<and> first_resolve (t # h) j \<and>
        positive_seconds a (last_updated_at ((t # h) ! j)) r) \<longleftrightarrow>
      (\<exists>a. trigger = Some a \<and> tr_state t = NotTriggered \<and> positive_seconds a (last_updated_at t) r) \<or>
      (\<exists>a j. trigger = Some a \<and> tr_state t = Disabled \<and> first_resolve h j \<and>
        positive_seconds a (last_updated_at (h ! j)) r)"
    unfolding first_resolve_Cons by (auto; metis nth_Cons_0 nth_Cons_Suc)
  show ?case unfolding rec fst
  proof (cases "tr_state t")
    case NotTriggered
    then show "r \<in> set (recovery_times (t # h) trigger) \<longleftrightarrow>
      ((\<exists>j. tr_state t = Triggered \<and> first_resolve h j \<and>
        positive_seconds (last_updated_at t) (last_updated_at (h ! j)) r) \<or>
      (\<exists>i j. recovery h i j \<and> positive_seconds (last_updated_at (h ! i)) (last_updated_at (h ! j)) r)) \<or>
      (\<exists>a. trigger = Some a \<and> tr_state t = NotTriggered \<and> positive_seconds a (last_updated_at t) r) \<or>
      (\<exists>a j. trigger = Some a \<and> tr_state t = Disabled \<and> first_resolve h j \<and>
        positive_seconds a (last_updated_at (h ! j)) r)"
      by (cases trigger) (auto simp: Cons.IH positive_seconds_def Let_def)
  qed (auto simp: Cons.IH)
qed

text \<open>The recovery times of an alert are the whole seconds, when positive, from each moment it was
  triggered to the moment it was next resolved, in the order of time: states in between are only
  disabled ones, and a trigger that repeats starts the time again.\<close>

theorem recovery_times_exact:
  "r \<in> set (get_recovery_times h) \<longleftrightarrow>
   (\<exists>i j. recovery (sort_key last_updated_at h) i j \<and>
     positive_seconds (last_updated_at (sort_key last_updated_at h ! i))
       (last_updated_at (sort_key last_updated_at h ! j)) r)"
  by (simp add: get_recovery_times_def set_recovery_times)

section \<open>The invariant of stored histories\<close>

text \<open>No state follows itself, the times do not go back and none is later than the clock.\<close>

definition history_ok :: "datetime \<Rightarrow> stored_history option \<Rightarrow> bool" where
  "history_ok clock stored \<longleftrightarrow>
     (\<forall>h. stored = Some (History h) \<longrightarrow> h \<noteq> [] \<and> distinct_adj (map tr_state h) \<and>
        sorted (map last_updated_at h) \<and> (\<forall>t \<in> set h. last_updated_at t \<le> clock))"

lemma update_history_ok:
  assumes "h \<noteq> []" "distinct_adj (map tr_state h)" "sorted (map last_updated_at h)"
    and "\<forall>t \<in> set h. last_updated_at t \<le> clock"
  shows "history_ok clock (Some (History (fst (update_history clock s h))))"
  using assms by (auto simp: history_ok_def update_history_def distinct_adj_append_iff sorted_append last_map)

text \<open>However often the state of an alert is stored, with accesses that fail or not, its history
  never repeats a state, its times never go back while the clock does not, and its last state is
  the one stored last when that was reported as stored.\<close>

theorem stored_history_invariant:
  assumes "history_ok earlier stored" and "earlier \<le> clock"
    and "put_alert_state get_ok put_ok clock s stored = (stored', reported)"
  shows "history_ok clock stored' \<and>
    (reported \<longrightarrow> (\<exists>h. stored' = Some (History h) \<and> tr_state (last h) = s))"
proof -
  have kept: "history_ok clock stored"
    using assms(1,2) by (auto simp: history_ok_def intro: order_trans)
  have new: "history_ok clock (Some (History (new_history clock s)))"
    by (simp add: history_ok_def new_history_def)
  show ?thesis
  proof (cases "get_ok \<and> (\<exists>h. stored = Some (History h))")
    case True
    then obtain h where h: "get_ok" "stored = Some (History h)" by blast
    from kept h(2) have "history_ok clock (Some (History (fst (update_history clock s h))))"
      by (intro update_history_ok) (auto simp: history_ok_def)
    with kept h assms(3) show ?thesis
      by (auto simp: put_alert_state_def update_history_def history_ok_def split: if_splits)
  next
    case False
    with new kept assms(3) show ?thesis
      by (auto simp: put_alert_state_def new_history_def split: if_splits option.splits stored_history.splits bool.splits)
  qed
qed

definition sample_history :: state_history where
  "sample_history = [\<lparr>tr_state = NotTriggered, last_updated_at = 5\<rparr>, \<lparr>tr_state = Triggered, last_updated_at = 8\<rparr>]"

theorem stored_history_invariant_witness:
  "history_ok 9 (fst (put_alert_state True True 9 Disabled (Some (History sample_history))))"
  using stored_history_invariant [of 8 "Some (History sample_history)" 9 True True Disabled,
      OF _ _ surjective_pairing]
  by (simp add: history_ok_def sample_history_def)

text \<open>When the stored history cannot be read, for whatever reason, storing a state replaces it by a
  history of that state alone: what was recorded is lost, and with it every recovery time.\<close>

theorem failed_read_erases_history:
  assumes "stored = Some (History h)"
  shows "put_alert_state False True clock s stored = (Some (History [\<lparr>tr_state = s, last_updated_at = clock\<rparr>]), True)
    \<and> get_recovery_times [\<lparr>tr_state = s, last_updated_at = clock\<rparr>] = []"
  by (cases s) (simp_all add: put_alert_state_def new_history_def get_recovery_times_def)

theorem failed_read_erases_history_witness:
  "put_alert_state False True 9 NotTriggered (Some (History sample_history)) =
     (Some (History [\<lparr>tr_state = NotTriggered, last_updated_at = 9\<rparr>]), True)"
  using failed_read_erases_history [of _ sample_history 9 NotTriggered] by simp

section \<open>Bounds of the time to recovery\<close>

lemma foldl_min_le: "foldl min a xs \<le> a \<and> (\<forall>x \<in> set xs. foldl min a xs \<le> x)" for a :: int
  by (induction xs arbitrary: a) (auto simp: min_def, (smt (verit))+)

lemma foldl_max_ge: "a \<le> foldl max a xs \<and> (\<forall>x \<in> set xs. x \<le> foldl max a xs)" for a :: int
  by (induction xs arbitrary: a) (auto simp: max_def, (smt (verit))+)

lemma sum_list_bounds:
  assumes "\<forall>x \<in> set xs. a \<le> x \<and> x \<le> b"
  shows "a * int (length xs) \<le> sum_list xs \<and> sum_list xs \<le> b * int (length xs)"
  using assms by (induction xs) (auto simp: algebra_simps)

text \<open>Of the recovery times of an alert, neither the mean nor the median is below the smallest or
  above the largest.\<close>

theorem mttr_bounds:
  assumes "ts \<noteq> []"
  shows "(let st = from_recovery_times ts in
    (\<forall>t \<in> set ts. min_seconds st \<le> real_of_int t \<and> real_of_int t \<le> max_seconds st) \<and>
    min_seconds st \<le> mean_seconds st \<and> mean_seconds st \<le> max_seconds st \<and>
    min_seconds st \<le> median_seconds st \<and> median_seconds st \<le> max_seconds st)"
proof -
  define a b where "a = foldl min (hd ts) (tl ts)" and "b = foldl max (hd ts) (tl ts)"
  have st: "set ts = insert (hd ts) (set (tl ts))" using assms by (metis list.exhaust_sel list.simps(15))
  have ab: "\<forall>t \<in> set ts. a \<le> t \<and> t \<le> b"
    unfolding st a_def b_def using foldl_min_le [of "hd ts" "tl ts"] foldl_max_ge [of "hd ts" "tl ts"] by auto
  have n: "0 < length ts" using assms by simp
  have nth: "a \<le> sort ts ! i \<and> sort ts ! i \<le> b" if "i < length ts" for i
    using ab nth_mem [of i "sort ts"] that by auto
  have mean: "real_of_int a \<le> real_of_int (sum_list ts) / real (length ts)"
      "real_of_int (sum_list ts) / real (length ts) \<le> real_of_int b"
  proof -
    have "real_of_int (a * int (length ts)) \<le> real_of_int (sum_list ts)"
        "real_of_int (sum_list ts) \<le> real_of_int (b * int (length ts))"
      using sum_list_bounds [OF ab] by linarith+
    then show "real_of_int a \<le> real_of_int (sum_list ts) / real (length ts)"
        "real_of_int (sum_list ts) / real (length ts) \<le> real_of_int b"
      using n by (simp_all add: field_simps)
  qed
  have "real_of_int a \<le> median_of ts \<and> median_of ts \<le> real_of_int b"
  proof (cases "length ts = 1")
    case True
    with ab n nth_mem [of 0 ts] show ?thesis by (auto simp: median_of_def)
  next
    case False
    have "length ts div 2 < length ts" "length ts div 2 - 1 < length ts" using n by linarith+
    from nth [OF this(1)] nth [OF this(2)] False show ?thesis by (auto simp: median_of_def Let_def)
  qed
  with mean ab assms show ?thesis
    by (simp add: from_recovery_times_def Let_def flip: a_def b_def)
qed

theorem mttr_bounds_witness: "median_seconds (from_recovery_times [9, 2, 4, 1]) \<le> 9"
  using mttr_bounds [of "[9, 2, 4, 1]"] by (simp add: Let_def from_recovery_times_def)

end
