(* ===== verification/Alert_Targets.thy ===== *)
theory Alert_Targets
  imports Alert_State Json
begin

text \<open>
  The targets that alerts notify: \<open>src/alerts/target.rs\<close> (the stored targets, what each kind of
  target is sent, and the state that keeps repeated notifications apart), the handlers of
  \<open>src/handlers/http/targets.rs\<close>, and \<open>trigger_notifications\<close> of \<open>src/alerts/mod.rs\<close>.
  Identifiers are natural numbers, and a URL is its text. Requests to a target are recorded in
  the order in which they are spawned; their outcome is only logged by the code.
\<close>

type_synonym ulid = nat

section \<open>Targets\<close>

record auth =
  username :: string
  password :: string

datatype target_type =
    Slack string
  | Other string "(string \<times> string) list" bool
  | AlertManager string bool "auth option"

record target =
  tg_name :: string
  tg_type :: target_type
  tg_id :: ulid

datatype retry = Infinite | Finite nat

record notification_config =
  interval :: nat
  times :: retry

definition default_notification_config :: notification_config where
  "default_notification_config = \<lparr>interval = 1, times = Finite 1\<rparr>"

record notification_config_verifier =
  ncv_interval :: "nat option"
  ncv_times :: "nat option"

record target_verifier =
  tv_name :: string
  tv_target :: target_type
  tv_notification_config :: "notification_config_verifier option"
  tv_id :: ulid

text \<open>The settings of the notifications are worked out and then dropped: a target has none.\<close>

definition verified_timeout :: "target_verifier \<Rightarrow> notification_config" where
  "verified_timeout v =
     (let timeout = default_notification_config;
          timeout = (case tv_target v of
              AlertManager _ _ _ \<Rightarrow> timeout\<lparr>times := Infinite\<rparr> | _ \<Rightarrow> timeout)
      in case tv_notification_config v of
           None \<Rightarrow> timeout
         | Some c \<Rightarrow>
             let timeout = (case ncv_interval c of Some n \<Rightarrow> timeout\<lparr>interval := n\<rparr> | None \<Rightarrow> timeout)
             in (case ncv_times c of Some n \<Rightarrow> timeout\<lparr>times := Finite n\<rparr> | None \<Rightarrow> timeout))"

definition target_try_from :: "target_verifier \<Rightarrow> target" where
  "target_try_from v =
     (let timeout = verified_timeout v
      in \<lparr>tg_name = tv_name v, tg_type = tv_target v, tg_id = tv_id v\<rparr>)"

definition masked :: "string \<Rightarrow> string" where
  "masked endpoint = (if length endpoint > 20 then take 20 endpoint @ ''********'' else ''********'')"

text \<open>What is shown of a target in place of its secrets; the identifier is printed by its library.\<close>

definition mask :: "(ulid \<Rightarrow> string) \<Rightarrow> target \<Rightarrow> json" where
  "mask show_id t =
     (case tg_type t of
        Slack endpoint \<Rightarrow>
          JObject [(''name'', JString (tg_name t)), (''type'', JString ''slack''),
            (''endpoint'', JString (masked endpoint)), (''id'', JString (show_id (tg_id t)))]
      | Other endpoint headers skip \<Rightarrow>
          JObject [(''name'', JString (tg_name t)), (''type'', JString ''webhook''),
            (''endpoint'', JString (masked endpoint)),
            (''headers'', JObject (map (\<lambda>(k, v). (k, JString v)) headers)),
            (''skipTlsCheck'', JBool skip), (''id'', JString (show_id (tg_id t)))]
      | AlertManager endpoint skip auth \<Rightarrow>
          JObject [(''name'', JString (tg_name t)), (''type'', JString ''webhook''),
            (''endpoint'', JString (masked endpoint)),
            (''username'', (case auth of Some a \<Rightarrow> JString (username a) | None \<Rightarrow> JNull)),
            (''password'', (case auth of Some a \<Rightarrow> JString ''********'' | None \<Rightarrow> JNull)),
            (''skipTlsCheck'', JBool skip), (''id'', JString (show_id (tg_id t)))])"

section \<open>The stored targets\<close>

datatype target_error =
    InvalidTargetID ulid
  | InvalidTargetModification
  | TargetInUse
  | TargetStoreFailure

text \<open>The targets in memory and those in the object store.\<close>

record target_configs =
  in_memory :: "(ulid \<times> target) list"
  in_store :: "(ulid \<times> target) list"

definition load_targets :: "target_configs \<Rightarrow> target_configs" where
  "load_targets st = st\<lparr>in_memory := fold (\<lambda>t. AList.update (tg_id t) t) (map snd (in_store st)) (in_memory st)\<rparr>"

definition update_target :: "bool \<Rightarrow> target \<Rightarrow> target_configs \<Rightarrow> target_configs \<times> (target_error + unit)" where
  "update_target store_ok t st =
     (if \<not> store_ok then (st, Inl TargetStoreFailure)
      else (st\<lparr>in_store := AList.update (tg_id t) t (in_store st),
               in_memory := AList.update (tg_id t) t (in_memory st)\<rparr>, Inr ()))"

definition list_targets :: "target_configs \<Rightarrow> target list" where
  "list_targets st = map snd (in_memory st)"

definition get_target_by_id :: "ulid \<Rightarrow> target_configs \<Rightarrow> target_error + target" where
  "get_target_by_id i st = (case map_of (in_memory st) i of Some t \<Rightarrow> Inr t | None \<Rightarrow> Inl (InvalidTargetID i))"

text \<open>The targets of all alerts in memory are passed in.\<close>

definition delete_target ::
  "bool \<Rightarrow> ulid list list \<Rightarrow> ulid \<Rightarrow> target_configs \<Rightarrow> target_configs \<times> (target_error + target)"
where
  "delete_target store_ok alert_targets i st =
     (if \<exists>ts \<in> set alert_targets. i \<in> set ts then (st, Inl TargetInUse)
      else case map_of (in_memory st) i of
        None \<Rightarrow> (st, Inl (InvalidTargetID i))
      | Some t \<Rightarrow>
          let st = st\<lparr>in_memory := AList.delete i (in_memory st)\<rparr> in
          if \<not> store_ok then (st, Inl TargetStoreFailure)
          else (st\<lparr>in_store := AList.delete (tg_id t) (in_store st)\<rparr>, Inr t))"

definition post_target :: "bool \<Rightarrow> target \<Rightarrow> target_configs \<Rightarrow> target_configs \<times> (target_error + target)" where
  "post_target store_ok t st =
     (case update_target store_ok t st of (st', r) \<Rightarrow> (st', bind_result r (\<lambda>_. Inr t)))"

definition modify_target :: "bool \<Rightarrow> ulid \<Rightarrow> target \<Rightarrow> target_configs \<Rightarrow> target_configs \<times> (target_error + target)" where
  "modify_target store_ok i t st =
     (case get_target_by_id i st of
        Inl e \<Rightarrow> (st, Inl e)
      | Inr old \<Rightarrow>
          if tg_name old \<noteq> tg_name t then (st, Inl InvalidTargetModification)
          else post_target store_ok (t\<lparr>tg_id := i\<rparr>) st)"

section \<open>What a target is sent\<close>

record call_context =
  ctx_alert_id :: ulid
  ctx_alert_name :: string
  ctx_alert_state :: alert_state
  ctx_deployment_instance :: string
  ctx_deployment_id :: string
  ctx_deployment_mode :: string
  ctx_message :: string
  ctx_notification_config :: notification_config

definition default_resolved_string :: "call_context \<Rightarrow> string" where
  "default_resolved_string c = ctx_alert_name c @ '' is now `not-triggered` ''"

definition default_disabled_string :: "call_context \<Rightarrow> string" where
  "default_disabled_string c =
     ctx_alert_name c @ '' is now `disabled`. No more evals will be run till the sate is `disabled`.''"

definition text_for :: "call_context \<Rightarrow> string" where
  "text_for c =
     (case ctx_alert_state c of
        Triggered \<Rightarrow> ctx_message c
      | NotTriggered \<Rightarrow> default_resolved_string c
      | Disabled \<Rightarrow> default_disabled_string c)"

definition slack_body :: "call_context \<Rightarrow> json" where
  "slack_body c = JObject [(''text'', JString (text_for c))]"

text \<open>The time at which an alert ends is given as the clock's text.\<close>

definition alert_manager_body :: "string \<Rightarrow> call_context \<Rightarrow> json" where
  "alert_manager_body clock c =
     (let labels = [(''alertname'', JString (ctx_alert_name c)),
                    (''deployment_instance'', JString (ctx_deployment_instance c)),
                    (''deployment_id'', JString (ctx_deployment_id c)),
                    (''deployment_mode'', JString (ctx_deployment_mode c))];
          annotations = [(''message'', JString ''MESSAGE''), (''reason'', JString ''REASON'')] in
      JArray [case ctx_alert_state c of
          Triggered \<Rightarrow>
            JObject [(''labels'', JObject (AList.update ''status'' (JString ''triggered'') labels)),
              (''annotations'', JObject annotations)]
        | NotTriggered \<Rightarrow>
            JObject [(''labels'', JObject (AList.update ''status'' (JString ''not-triggered'') labels)),
              (''annotations'', JObject (AList.update ''reason'' (JString (default_resolved_string c)) annotations)),
              (''endsAt'', JString clock)]
        | Disabled \<Rightarrow>
            JObject [(''labels'', JObject (AList.update ''status'' (JString ''disabled'') labels)),
              (''annotations'', JObject annotations)]])"

datatype request =
    SlackRequest string json
  | WebhookRequest string "(string \<times> string) list" bool string
  | AlertManagerRequest string "(string \<times> string) option" bool json

text \<open>The encoding of the basic authentication is a library's.\<close>

definition request_for :: "(string \<Rightarrow> string) \<Rightarrow> string \<Rightarrow> target_type \<Rightarrow> call_context \<Rightarrow> request" where
  "request_for base64 clock t c =
     (case t of
        Slack endpoint \<Rightarrow> SlackRequest endpoint (slack_body c)
      | Other endpoint headers skip \<Rightarrow> WebhookRequest endpoint headers skip (text_for c)
      | AlertManager endpoint skip auth \<Rightarrow>
          AlertManagerRequest endpoint
            (map_option (\<lambda>a. (''authorization'', ''Basic '' @ base64 (username a @ '':'' @ password a))) auth)
            skip (alert_manager_body clock c))"

section \<open>Notifications and their repetition\<close>

text \<open>The state that all notifications of an alert share.\<close>

record timeout_state =
  to_alert_state :: alert_state
  timed_out :: bool
  awaiting_resolve :: bool

definition default_timeout :: timeout_state where
  "default_timeout = \<lparr>to_alert_state = NotTriggered, timed_out = False, awaiting_resolve = False\<rparr>"

text \<open>What calling a target spawns: a request, and a task that repeats it.\<close>

datatype spawned = Call target_type | Repeat target_type

definition target_call :: "target_type \<Rightarrow> alert_state \<Rightarrow> timeout_state \<Rightarrow> timeout_state \<times> spawned list" where
  "target_call t resolves s =
     (let s = s\<lparr>to_alert_state := resolves\<rparr> in
      case resolves of
        Triggered \<Rightarrow>
          if \<not> timed_out s
          then (s\<lparr>timed_out := True, awaiting_resolve := True\<rparr>, [Call t, Repeat t])
          else (s, [])
      | NotTriggered \<Rightarrow>
          if timed_out s then
            (if awaiting_resolve s then (s\<lparr>awaiting_resolve := False\<rparr>, [Call t]) else (s, []))
          else (s, [Call t])
      | Disabled \<Rightarrow> (s, []))"

text \<open>The targets of an alert are looked up and called in turn; an unknown one ends the run.\<close>

fun trigger_notifications ::
  "(ulid \<Rightarrow> target option) \<Rightarrow> ulid list \<Rightarrow> alert_state \<Rightarrow> timeout_state \<Rightarrow>
   timeout_state \<times> spawned list \<times> (target_error + unit)"
where
  "trigger_notifications lookup [] a s = (s, [], Inr ())"
| "trigger_notifications lookup (i # ids) a s =
     (case lookup i of
        None \<Rightarrow> (s, [], Inl (InvalidTargetID i))
      | Some t \<Rightarrow>
          (case target_call (tg_type t) a s of (s', out) \<Rightarrow>
             (case trigger_notifications lookup ids a s' of (s'', out', r) \<Rightarrow> (s'', out @ out', r))))"

text \<open>A round of the task that repeats a call: the state of the alert is the one seen before the pause.\<close>

definition timeout_round :: "target_type \<Rightarrow> alert_state \<Rightarrow> timeout_state \<Rightarrow> timeout_state \<times> spawned list" where
  "timeout_round t seen s =
     (if seen = Triggered then (s\<lparr>awaiting_resolve := True\<rparr>, [Call t])
      else (s\<lparr>timed_out := False\<rparr>, []))"

text \<open>The rounds of the task, each with the state the alert manager tells (\<open>None\<close>: the alert is gone).
  With \<open>Infinite\<close> it goes on as long as the alert is there; the list is the states told so far.\<close>

fun timeout_rounds ::
  "target_type \<Rightarrow> nat option \<Rightarrow> alert_state option list \<Rightarrow> timeout_state \<Rightarrow> timeout_state \<times> spawned list"
where
  "timeout_rounds t (Some 0) told s = (default_timeout, [])"
| "timeout_rounds t left [] s = (s, [])"
| "timeout_rounds t left (None # told) s = (default_timeout, [])"
| "timeout_rounds t left (Some a # told) s =
     (case timeout_round t a s of (s', out) \<Rightarrow>
       (case timeout_rounds t (map_option (\<lambda>n. n - 1) left) told s' of (s'', out') \<Rightarrow> (s'', out @ out')))"

text \<open>\<open>times - 1\<close> rounds; with no times at all the subtraction panics.\<close>

definition timeout_task ::
  "target_type \<Rightarrow> retry \<Rightarrow> alert_state option list \<Rightarrow> timeout_state \<Rightarrow> (timeout_state \<times> spawned list) option"
where
  "timeout_task t retry told s =
     (case retry of
        Infinite \<Rightarrow> Some (timeout_rounds t None told s)
      | Finite n \<Rightarrow> if n = 0 then None else Some (timeout_rounds t (Some (n - 1)) told s))"

definition calls :: "spawned list \<Rightarrow> target_type list" where
  "calls out = List.map_filter (\<lambda>x. case x of Call t \<Rightarrow> Some t | Repeat _ \<Rightarrow> None) out"

lemma calls_simps [simp]:
  "calls [] = []"
  "calls (Call t # out) = t # calls out"
  "calls (Repeat t # out) = calls out"
  "calls (xs @ ys) = calls xs @ calls ys"
  by (simp_all add: calls_def map_filter_simps map_filter_def)

section \<open>Which targets are called\<close>

lemma trigger_quiet:
  assumes "\<forall>i \<in> set ids. lookup i \<noteq> None" and "timed_out s"
    and "a = Triggered \<or> a = NotTriggered \<and> \<not> awaiting_resolve s \<or> a = Disabled"
  shows "calls (fst (snd (trigger_notifications lookup ids a s))) = []"
  using assms
proof (induction ids arbitrary: s)
  case Nil
  then show ?case by simp
next
  case (Cons i ids)
  then obtain t where t: "lookup i = Some t" by auto
  obtain s' out where c: "target_call (tg_type t) a s = (s', out)" by fastforce
  have "timed_out s'" "a = Triggered \<or> a = NotTriggered \<and> \<not> awaiting_resolve s' \<or> a = Disabled" "calls out = []"
    using c Cons.prems(2,3) by (auto simp: target_call_def Let_def split: if_splits alert_state.splits)
  with Cons.IH [of s'] Cons.prems(1) t c show ?case by (auto split: prod.splits)
qed

lemma trigger_all:
  assumes "\<forall>i \<in> set ids. lookup i \<noteq> None" and "\<not> timed_out s"
  shows "calls (fst (snd (trigger_notifications lookup ids NotTriggered s))) = map (tg_type \<circ> the \<circ> lookup) ids"
  using assms
proof (induction ids arbitrary: s)
  case Nil
  then show ?case by simp
next
  case (Cons i ids)
  then obtain t where t: "lookup i = Some t" by auto
  have c: "target_call (tg_type t) NotTriggered s = (s\<lparr>to_alert_state := NotTriggered\<rparr>, [Call (tg_type t)])"
    using Cons.prems(2) by (simp add: target_call_def)
  from Cons.IH [of "s\<lparr>to_alert_state := NotTriggered\<rparr>"] Cons.prems t c show ?case by (auto split: prod.splits)
qed

text \<open>Of the targets of an alert, in their order, a triggered alert calls the first one only, as the
  call starts the pause that the others then respect, and none during a pause; an alert that is
  resolved calls all of them, but during a pause the first one only, and then once; a disabled one
  calls none.\<close>

theorem notified_targets:
  assumes "\<forall>i \<in> set ids. lookup i \<noteq> None"
  shows "calls (fst (snd (trigger_notifications lookup ids a s))) =
    (let all_types = map (tg_type \<circ> the \<circ> lookup) ids in
     case a of
       Triggered \<Rightarrow> if timed_out s then [] else take 1 all_types
     | NotTriggered \<Rightarrow>
         if \<not> timed_out s then all_types
         else if awaiting_resolve s then take 1 all_types else []
     | Disabled \<Rightarrow> [])"
proof (cases ids)
  case Nil
  then show ?thesis by (auto split: alert_state.splits)
next
  case (Cons i rest)
  obtain t where t: "lookup i = Some t" using assms Cons by auto
  have rest: "\<forall>i \<in> set rest. lookup i \<noteq> None" using assms Cons by simp
  show ?thesis
  proof (cases a)
    case Triggered
    show ?thesis
    proof (cases "timed_out s")
      case True
      with trigger_quiet [OF assms] Triggered show ?thesis by simp
    next
      case False
      with trigger_quiet [OF rest, of "s\<lparr>to_alert_state := Triggered, timed_out := True, awaiting_resolve := True\<rparr>" Triggered]
      show ?thesis using Triggered Cons t by (auto simp: target_call_def split: prod.splits)
    qed
  next
    case NotTriggered
    show ?thesis
    proof (cases "timed_out s")
      case False
      with trigger_all [OF assms] NotTriggered show ?thesis by simp
    next
      case True
      show ?thesis
      proof (cases "awaiting_resolve s")
        case False
        with trigger_quiet [OF assms True] NotTriggered True show ?thesis by simp
      next
        case wait: True
        with trigger_quiet [OF rest, of "s\<lparr>to_alert_state := NotTriggered, awaiting_resolve := False\<rparr>" NotTriggered] True
        show ?thesis using NotTriggered Cons t by (auto simp: target_call_def split: prod.splits)
      qed
    qed
  next
    case Disabled
    have "calls (fst (snd (trigger_notifications lookup ids Disabled s))) = []"
      using assms by (induction ids arbitrary: s) (auto simp: target_call_def split: prod.splits)
    with Disabled show ?thesis by simp
  qed
qed

definition two_targets :: "ulid \<Rightarrow> target option" where
  "two_targets i = (if i = 1 \<or> i = 2 then Some \<lparr>tg_name = ''t'', tg_type = Slack (replicate i CHR ''x''), tg_id = i\<rparr> else None)"

theorem notified_targets_witness:
  "calls (fst (snd (trigger_notifications two_targets [1, 2] Triggered default_timeout))) = [Slack ''x'']"
  using notified_targets [of "[1, 2]" two_targets Triggered default_timeout]
  by (simp add: two_targets_def default_timeout_def)

section \<open>How often a call is repeated\<close>

lemma timeout_rounds_finite:
  assumes "length told = n" and "None \<notin> set told"
  shows "fst (timeout_rounds t (Some n) told s) = default_timeout \<and>
    calls (snd (timeout_rounds t (Some n) told s)) = replicate (count_list told (Some Triggered)) t"
  using assms
proof (induction told arbitrary: n s)
  case Nil
  then show ?case by simp
next
  case (Cons x told)
  then obtain a n' where x: "x = Some a" "n = Suc n'" "length told = n'" "None \<notin> set told" by (cases x; cases n) auto
  obtain s' out where r: "timeout_round t a s = (s', out)" by fastforce
  have "calls out = (if a = Triggered then [t] else [])" using r by (auto simp: timeout_round_def split: if_splits)
  with Cons.IH [OF x(3,4), of s'] r x(1,2) show ?case by (auto split: prod.splits)
qed

lemma timeout_rounds_gone:
  assumes "length told < n" and "None \<notin> set told"
  shows "fst (timeout_rounds t (Some n) (told @ None # later) s) = default_timeout"
  using assms
proof (induction told arbitrary: n s)
  case Nil
  then show ?case by (cases n) auto
next
  case (Cons x told)
  then obtain a n' where "x = Some a" "n = Suc n'" "length told < n'" "None \<notin> set told" by (cases x; cases n) auto
  with Cons.IH [of n'] show ?case by (simp add: case_prod_unfold)
qed

text \<open>The task that repeats a notification with a finite number of times ends after that many rounds
  less one, each of which calls the target when the alert was triggered, and leaves the shared state
  ready for the next notification; it ends at once when the alert is gone.\<close>

theorem repetition_ends:
  assumes "0 < n" and "None \<notin> set told"
  shows "(length told = n - 1 \<longrightarrow> (\<exists>out. timeout_task t (Finite n) told s = Some (default_timeout, out) \<and>
      calls out = replicate (count_list told (Some Triggered)) t)) \<and>
    (length told < n - 1 \<longrightarrow>
      (\<exists>out. timeout_task t (Finite n) (told @ None # later) s = Some (default_timeout, out)))"
proof -
  have "fst (timeout_rounds t (Some (n - 1)) told s) = default_timeout \<and>
    calls (snd (timeout_rounds t (Some (n - 1)) told s)) = replicate (count_list told (Some Triggered)) t"
    if "length told = n - 1"
    using timeout_rounds_finite [OF that assms(2)] by simp
  moreover have "fst (timeout_rounds t (Some (n - 1)) (told @ None # later) s) = default_timeout"
    if "length told < n - 1"
    using timeout_rounds_gone [OF that assms(2)] by simp
  ultimately show ?thesis
    using assms(1) by (simp add: timeout_task_def prod_eq_iff)
qed

theorem repetition_ends_witness:
  "\<exists>out. timeout_task (Slack ''x'') (Finite 3) [Some Triggered, Some NotTriggered] default_timeout =
     Some (default_timeout, out) \<and> calls out = [Slack ''x'']"
  using repetition_ends [of 3 "[Some Triggered, Some NotTriggered]" "Slack ''x''" default_timeout "[]"] by simp

section \<open>Targets that alerts refer to\<close>

definition targets_known :: "ulid list list \<Rightarrow> target_configs \<Rightarrow> bool" where
  "targets_known alert_targets st \<longleftrightarrow>
     (\<forall>ids \<in> set alert_targets. \<forall>i \<in> set ids. map_of (in_memory st) i \<noteq> None)"

text \<open>The requests on targets.\<close>

datatype target_request = PostTarget bool target | ModifyTarget bool ulid target | DeleteTarget bool ulid

fun run_target_request :: "ulid list list \<Rightarrow> target_request \<Rightarrow> target_configs \<Rightarrow> target_configs" where
  "run_target_request refs (PostTarget ok t) st = fst (post_target ok t st)"
| "run_target_request refs (ModifyTarget ok i t) st = fst (modify_target ok i t st)"
| "run_target_request refs (DeleteTarget ok i) st = fst (delete_target ok refs i st)"

lemma update_target_known: "targets_known refs st \<Longrightarrow> targets_known refs (fst (post_target ok t st))"
  by (auto simp: targets_known_def post_target_def update_target_def update_conv')

lemma run_target_request_known: "targets_known refs st \<Longrightarrow> targets_known refs (run_target_request refs r st)"
proof (cases r)
  case (DeleteTarget ok i)
  assume a: "targets_known refs st"
  have "\<And>ids j. ids \<in> set refs \<Longrightarrow> j \<in> set ids \<Longrightarrow> \<not> (\<exists>ts \<in> set refs. i \<in> set ts) \<Longrightarrow> j \<noteq> i" by auto
  with a DeleteTarget show ?thesis
    by (auto simp: targets_known_def delete_target_def Let_def delete_conv' split: option.splits)
qed (auto simp: modify_target_def update_target_known split: sum.splits)

lemma trigger_succeeds:
  assumes "\<forall>i \<in> set ids. lookup i \<noteq> None"
  shows "snd (snd (trigger_notifications lookup ids a s)) = Inr ()"
  using assms by (induction ids arbitrary: s) (auto simp: case_prod_unfold)

text \<open>Whatever requests on targets run, in memory or with a failing store, an alert whose targets were
  known keeps all of them, and its notifications never stop at an unknown target.\<close>

theorem targets_of_alerts_stay:
  assumes "targets_known alert_targets st" and "ids \<in> set alert_targets"
  shows "snd (snd (trigger_notifications (map_of (in_memory (fold (run_target_request alert_targets) requests st))) ids a s)) = Inr ()"
proof -
  have "targets_known alert_targets (fold (run_target_request alert_targets) requests st)"
    using assms(1) by (induction requests arbitrary: st) (auto intro: run_target_request_known)
  with assms(2) show ?thesis by (intro trigger_succeeds) (auto simp: targets_known_def)
qed

definition sample_targets :: target_configs where
  "sample_targets = \<lparr>in_memory = [(1, \<lparr>tg_name = ''t'', tg_type = Slack ''x'', tg_id = 1\<rparr>)],
     in_store = [(1, \<lparr>tg_name = ''t'', tg_type = Slack ''x'', tg_id = 1\<rparr>)]\<rparr>"

theorem targets_of_alerts_stay_witness:
  "snd (snd (trigger_notifications
     (map_of (in_memory (fold (run_target_request [[1]]) [DeleteTarget True 1] sample_targets)))
     [1] Triggered default_timeout)) = Inr ()"
  using targets_of_alerts_stay [of "[[1]]" sample_targets "[1]" "[DeleteTarget True 1]" Triggered default_timeout]
  by (simp add: targets_known_def sample_targets_def)

text \<open>Two targets that differ only in the settings of their notifications are the same target: the
  number and the distance of repetitions that a request gives are ignored.\<close>

theorem target_settings_ignored:
  "target_try_from (v\<lparr>tv_notification_config := c\<rparr>) = target_try_from v"
  by (simp add: target_try_from_def)

text \<open>A masked target shows neither a password nor more than twenty characters of an endpoint: it is
  the same for all passwords and for all endpoints that begin alike.\<close>

theorem mask_hides:
  assumes "length a > 20" "length b > 20" "take 20 a = take 20 b"
  shows "mask show_id \<lparr>tg_name = n, tg_type = AlertManager a skip (Some \<lparr>username = u, password = p\<rparr>), tg_id = i\<rparr> =
    mask show_id \<lparr>tg_name = n, tg_type = AlertManager b skip (Some \<lparr>username = u, password = q\<rparr>), tg_id = i\<rparr>"
  using assms by (simp add: mask_def masked_def)

theorem mask_hides_witness:
  "mask (\<lambda>_. ''i'') \<lparr>tg_name = ''n'', tg_type = AlertManager (replicate 20 CHR ''x'' @ ''1'') True (Some \<lparr>username = ''u'', password = ''p''\<rparr>), tg_id = 0\<rparr> =
   mask (\<lambda>_. ''i'') \<lparr>tg_name = ''n'', tg_type = AlertManager (replicate 20 CHR ''x'' @ ''2'') True (Some \<lparr>username = ''u'', password = ''q''\<rparr>), tg_id = 0\<rparr>"
  by (rule mask_hides) simp_all

end
