(* ===== verification/Alert_Config.thy ===== *)
theory Alert_Config
  imports Alert_Targets "HOL-Library.Product_Lexorder" "HOL-Library.Multiset"
begin

text \<open>
  The configuration of an alert, from the request that describes it to the summaries that are
  listed: \<open>src/alerts/alert_structs.rs\<close>, \<open>to_summary\<close> and \<open>get_alerts_summary\<close> of
  \<open>src/alerts/mod.rs\<close> and the listing of \<open>src/handlers/http/alerts.rs\<close>. The texts of
  identifiers and times are given by their libraries.
\<close>

section \<open>Configurations\<close>

datatype alert_version = V1 | V2

definition alert_version_from :: "string \<Rightarrow> alert_version" where
  "alert_version_from s = (if s = ''v1'' then V1 else V2)"

datatype alert_type =
    Threshold
  | Anomaly string
  | Forecast string string

fun alert_type_fmt :: "alert_type \<Rightarrow> string" where
  "alert_type_fmt Threshold = ''threshold''"
| "alert_type_fmt (Anomaly _) = ''anomaly''"
| "alert_type_fmt (Forecast _ _) = ''forecast''"

fun severity_fmt :: "severity \<Rightarrow> string" where
  "severity_fmt Critical = ''Critical''"
| "severity_fmt High = ''High''"
| "severity_fmt Medium = ''Medium''"
| "severity_fmt Low = ''Low''"

fun alert_state_fmt :: "alert_state \<Rightarrow> string" where
  "alert_state_fmt Triggered = ''triggered''"
| "alert_state_fmt Disabled = ''disabled''"
| "alert_state_fmt NotTriggered = ''not-triggered''"

text \<open>Reading a name of a variant, in any case.\<close>

definition parse_alert_state :: "string \<Rightarrow> alert_state option" where
  "parse_alert_state s =
     map_of [(''triggered'', Triggered), (''nottriggered'', NotTriggered), (''disabled'', Disabled)] (to_lowercase s)"

definition parse_severity :: "string \<Rightarrow> severity option" where
  "parse_severity s =
     map_of [(''critical'', Critical), (''high'', High), (''medium'', Medium), (''low'', Low)] (to_lowercase s)"

record threshold_config =
  th_operator :: alert_operator
  th_value :: real

record rolling_window =
  eval_start :: string
  eval_end :: string
  eval_frequency :: nat

record alert_config =
  al_version :: alert_version
  al_id :: ulid
  al_severity :: severity
  al_title :: string
  al_query :: string
  al_datasets :: "string list"
  al_type :: alert_type
  al_threshold :: threshold_config
  al_eval :: rolling_window
  al_targets :: "ulid list"
  al_state :: alert_state
  al_notification_state :: notification_state
  al_notification_config :: notification_config
  al_created :: datetime
  al_tags :: "string list option"
  al_last_triggered_at :: "datetime option"
  al_other_fields :: "jobject option"

definition get_eval_frequency :: "alert_config \<Rightarrow> nat" where
  "get_eval_frequency a = eval_frequency (al_eval a)"

definition reserved_fields :: "string list" where
  "reserved_fields =
     [''version'', ''id'', ''severity'', ''title'', ''query'', ''datasets'', ''alertType'', ''alert_type'',
      ''anomalyConfig'', ''anomaly_config'', ''forecastConfig'', ''forecast_config'',
      ''thresholdConfig'', ''threshold_config'', ''evalConfig'', ''eval_config'', ''targets'', ''state'',
      ''notificationState'', ''notification_state'', ''notificationConfig'', ''notification_config'',
      ''created'', ''tags'', ''lastTriggeredAt'', ''last_triggered_at'']"

definition without_reserved :: "jobject \<Rightarrow> jobject" where
  "without_reserved fs = fold swap_remove reserved_fields fs"

definition sanitize_other_fields :: "alert_config \<Rightarrow> alert_config" where
  "sanitize_other_fields a =
     (case al_other_fields a of
        None \<Rightarrow> a
      | Some fs \<Rightarrow>
          let fs = without_reserved fs in
          a\<lparr>al_other_fields := if fs = [] then None else Some fs\<rparr>)"

section \<open>Requests\<close>

datatype alert_error =
    NoSuchAlert ulid
  | InvalidStateChange
  | NotPresentInOSS string
  | StoreFailure
  | TargetError target_error
  | CustomError string
  | ValidationFailure string
  | Metadata string
  | InvalidAlertQuery string
  | InvalidQueryParameter string
  | InvalidAlertModifyRequest
  | Unauthorized

record alert_request =
  ar_severity :: severity
  ar_title :: string
  ar_query :: string
  ar_alert_type :: string
  ar_anomaly_config :: "string option"
  ar_forecast_config :: "(string \<times> string) option"
  ar_threshold_config :: threshold_config
  ar_notification_config :: notification_config
  ar_eval_config :: rolling_window
  ar_targets :: "ulid list"
  ar_tags :: "string list option"
  ar_other_fields :: "jobject option"

definition check_other_fields :: "jobject option \<Rightarrow> alert_error + jobject option" where
  "check_other_fields fields_opt =
     (case fields_opt of
        None \<Rightarrow> Inr None
      | Some fs \<Rightarrow>
          if length fs > 10 then Inl (ValidationFailure ''other_fields can contain at most 10 fields'')
          else let fs = without_reserved fs in Inr (if fs = [] then None else Some fs))"

definition request_alert_type :: "alert_request \<Rightarrow> alert_error + alert_type" where
  "request_alert_type r =
     (if ar_alert_type r = ''anomaly'' then
        (case ar_anomaly_config r of Some c \<Rightarrow> Inr (Anomaly c) | None \<Rightarrow> Inl (Metadata ''anomalyConfig is required''))
      else if ar_alert_type r = ''forecast'' then
        (case ar_forecast_config r of Some (a, b) \<Rightarrow> Inr (Forecast a b) | None \<Rightarrow> Inl (Metadata ''forecastConfig is required''))
      else if ar_alert_type r = ''threshold'' then Inr Threshold
      else Inl (Metadata ''Invalid alert type provided''))"

text \<open>The names of the streams of a query come from the SQL parser; the identifier and the time are new.\<close>

definition request_into ::
  "(string \<Rightarrow> alert_error + string list) \<Rightarrow> (ulid \<Rightarrow> target option) \<Rightarrow> ulid \<Rightarrow> datetime \<Rightarrow>
   alert_request \<Rightarrow> alert_error + alert_config"
where
  "request_into resolve_stream_names lookup fresh clock r =
     bind_result (check_other_fields (ar_other_fields r)) (\<lambda>other.
     case find (\<lambda>i. lookup i = None) (ar_targets r) of
       Some i \<Rightarrow> Inl (TargetError (InvalidTargetID i))
     | None \<Rightarrow>
         bind_result (resolve_stream_names (ar_query r)) (\<lambda>datasets.
         if length datasets \<noteq> 1 then Inl (ValidationFailure ''Query should include only one dataset'')
         else bind_result (request_alert_type r) (\<lambda>ty.
           Inr \<lparr>al_version = alert_version_from ''v2'', al_id = fresh, al_severity = ar_severity r,
             al_title = ar_title r, al_query = ar_query r, al_datasets = datasets, al_type = ty,
             al_threshold = ar_threshold_config r, al_eval = ar_eval_config r, al_targets = ar_targets r,
             al_state = NotTriggered, al_notification_state = Notify,
             al_notification_config = ar_notification_config r, al_created = clock, al_tags = ar_tags r,
             al_last_triggered_at = None, al_other_fields = other\<rparr>)))"

section \<open>Summaries\<close>

record alert_show =
  show_ulid :: "ulid \<Rightarrow> string"
  show_datetime :: "datetime \<Rightarrow> string"
  max_utc :: string

definition notification_state_fmt :: "alert_show \<Rightarrow> notification_state \<Rightarrow> string" where
  "notification_state_fmt sh n =
     (case n of Notify \<Rightarrow> ''notify'' | Mute till \<Rightarrow> if till = ''indefinite'' then max_utc sh else till)"

definition insert_opt :: "string \<Rightarrow> json option \<Rightarrow> jobject \<Rightarrow> jobject" where
  "insert_opt k v m = (case v of Some j \<Rightarrow> AList.update k j m | None \<Rightarrow> m)"

definition own_fields :: "alert_show \<Rightarrow> alert_config \<Rightarrow> jobject" where
  "own_fields sh a =
     insert_opt ''lastTriggeredAt'' (map_option (JString \<circ> show_datetime sh) (al_last_triggered_at a))
      (AList.update ''datasets'' (JArray (map JString (al_datasets a)))
       (insert_opt ''tags'' (map_option (JArray \<circ> map JString) (al_tags a))
         [(''title'', JString (al_title a)),
          (''created'', JString (show_datetime sh (al_created a))),
          (''alertType'', JString (alert_type_fmt (al_type a))),
          (''notificationState'', JString (notification_state_fmt sh (al_notification_state a))),
          (''id'', JString (show_ulid sh (al_id a))),
          (''severity'', JString (severity_fmt (al_severity a))),
          (''state'', JString (alert_state_fmt (al_state a)))]))"

definition to_summary :: "alert_show \<Rightarrow> alert_config \<Rightarrow> jobject" where
  "to_summary sh a =
     (case al_other_fields a of
        None \<Rightarrow> own_fields sh a
      | Some fs \<Rightarrow> fold (\<lambda>(k, v). AList.update k v) fs (own_fields sh a))"

section \<open>Listing\<close>

record list_query_params =
  tags_list :: "string list"
  lq_offset :: nat
  lq_limit :: nat
  other_fields_filters :: "(string \<times> string) list"

definition parse_usize :: "string \<Rightarrow> nat option" where
  "parse_usize s =
     (case read_digits (case s of CHR ''+'' # rest \<Rightarrow> rest | _ \<Rightarrow> s) of
        Some n \<Rightarrow> if n < 2 ^ 64 then Some n else None | None \<Rightarrow> None)"

definition parse_list_query_params :: "(string \<times> string) list \<Rightarrow> alert_error + list_query_params" where
  "parse_list_query_params q =
     bind_result
       (case map_of q ''tags'' of
          None \<Rightarrow> Inr []
        | Some tags \<Rightarrow>
            let ts = filter (\<lambda>s. s \<noteq> []) (map trim (split_on CHR '','' tags)) in
            if ts = [] then Inl (InvalidQueryParameter ''empty tags not allowed with query param tags'') else Inr ts)
       (\<lambda>ts. bind_result
         (case map_of q ''offset'' of
            None \<Rightarrow> Inr 0
          | Some s \<Rightarrow> (case parse_usize s of Some n \<Rightarrow> Inr n
              | None \<Rightarrow> Inl (InvalidQueryParameter ''offset is not a valid number'')))
         (\<lambda>off. bind_result
           (case map_of q ''limit'' of
              None \<Rightarrow> Inr 100
            | Some s \<Rightarrow> (case parse_usize s of
                None \<Rightarrow> Inl (InvalidQueryParameter ''limit is not a valid number'')
              | Some n \<Rightarrow> if n = 0 \<or> n > 1000
                  then Inl (InvalidQueryParameter ''limit should be between 1 and 1000'') else Inr n))
           (\<lambda>lim. Inr \<lparr>tags_list = ts, lq_offset = off, lq_limit = lim,
              other_fields_filters = filter (\<lambda>(k, v). k \<notin> {''tags'', ''offset'', ''limit''}) q\<rparr>)))"

text \<open>Values other than strings are compared by the text that the JSON library gives them.\<close>

definition filter_by_other_fields :: "(json \<Rightarrow> string) \<Rightarrow> (string \<times> string) list \<Rightarrow> jobject list \<Rightarrow> jobject list" where
  "filter_by_other_fields show_json filters summaries =
     (if filters = [] then summaries
      else filter (\<lambda>m. \<forall>(k, wanted) \<in> set filters.
        (case map_of m k of
           None \<Rightarrow> False
         | Some v \<Rightarrow> (case v of JString s \<Rightarrow> s | _ \<Rightarrow> show_json v) = wanted)) summaries)"

definition get_str :: "jobject \<Rightarrow> string \<Rightarrow> string option" where
  "get_str m k = (case map_of m k of Some (JString s) \<Rightarrow> Some s | _ \<Rightarrow> None)"

definition or_else :: "'a option \<Rightarrow> 'a \<Rightarrow> 'a" where
  "or_else x d = (case x of Some a \<Rightarrow> a | None \<Rightarrow> d)"

definition summary_key :: "jobject \<Rightarrow> alert_state \<times> severity \<times> string" where
  "summary_key m =
     (or_else (Option.bind (get_str m ''state'') parse_alert_state) NotTriggered,
      or_else (Option.bind (get_str m ''severity'') parse_severity) Low,
      or_else (get_str m ''title'') [])"

definition sort_alerts :: "jobject list \<Rightarrow> jobject list" where
  "sort_alerts = sort_key summary_key"

definition paginate_alerts :: "nat \<Rightarrow> nat \<Rightarrow> jobject list \<Rightarrow> jobject list" where
  "paginate_alerts skip_n take_n summaries = take take_n (drop skip_n summaries)"

text \<open>The alerts that a user sees: those whose query the user may run, in the order of the table.\<close>

definition list_alerts_for_user :: "(string \<Rightarrow> bool) \<Rightarrow> string list \<Rightarrow> alert_config list \<Rightarrow> alert_config list" where
  "list_alerts_for_user may_query tags alerts =
     (let mine = filter (\<lambda>a. may_query (al_query a)) alerts in
      if tags = [] then mine
      else filter (\<lambda>a. case al_tags a of Some ts \<Rightarrow> \<exists>t \<in> set ts. t \<in> set tags | None \<Rightarrow> False) mine)"

definition list_handler ::
  "alert_show \<Rightarrow> (json \<Rightarrow> string) \<Rightarrow> (string \<Rightarrow> bool) \<Rightarrow> (string \<times> string) list \<Rightarrow> alert_config list \<Rightarrow>
   alert_error + jobject list"
where
  "list_handler sh show_json may_query q alerts =
     bind_result (parse_list_query_params q) (\<lambda>p.
       Inr (paginate_alerts (lq_offset p) (lq_limit p)
         (sort_alerts (filter_by_other_fields show_json (other_fields_filters p)
           (map (to_summary sh) (list_alerts_for_user may_query (tags_list p) alerts))))))"

record alerts_info =
  ai_title :: string
  ai_id :: ulid
  ai_severity :: severity

record alerts_info_by_state =
  state_total :: nat
  alert_info :: "alerts_info list"

record alerts_summary =
  total_count :: nat
  triggered_info :: alerts_info_by_state
  disabled_info :: alerts_info_by_state
  not_triggered_info :: alerts_info_by_state

definition info_by_state :: "alert_state \<Rightarrow> alert_config list \<Rightarrow> alerts_info_by_state" where
  "info_by_state s alerts =
     (let mine = filter (\<lambda>a. al_state a = s) alerts in
      \<lparr>state_total = length mine,
       alert_info = take 5 (sort_key (severity_rank \<circ> ai_severity)
         (map (\<lambda>a. \<lparr>ai_title = al_title a, ai_id = al_id a, ai_severity = al_severity a\<rparr>) mine))\<rparr>)"

definition get_alerts_summary :: "(string \<Rightarrow> bool) \<Rightarrow> alert_config list \<Rightarrow> alerts_summary" where
  "get_alerts_summary may_query all =
     (let alerts = list_alerts_for_user may_query [] all in
      \<lparr>total_count = length alerts,
       triggered_info = info_by_state Triggered alerts,
       disabled_info = info_by_state Disabled alerts,
       not_triggered_info = info_by_state NotTriggered alerts\<rparr>)"

section \<open>Removing reserved names\<close>

lemma without_reserved_fold:
  assumes "distinct (map fst m)"
  shows "distinct (map fst (fold swap_remove ks m)) \<and>
    (\<forall>k. map_of (fold swap_remove ks m) k = (if k \<in> set ks then None else map_of m k))"
  using assms
proof (induction ks arbitrary: m)
  case Nil
  then show ?case by simp
next
  case (Cons k ks)
  with swap_remove_keys [of m k] show ?case by simp
qed

lemma map_of_insert_fields:
  assumes "distinct (map fst fs)"
  shows "map_of (fold (\<lambda>(k, v). AList.update k v) fs m) k = (case map_of fs k of Some v \<Rightarrow> Some v | None \<Rightarrow> map_of m k)"
  using assms
proof (induction fs arbitrary: m)
  case Nil
  then show ?case by simp
next
  case (Cons e fs)
  obtain k' v where e: "e = (k', v)" by fastforce
  have "map_of fs k' = None" using Cons.prems e by (simp add: map_of_eq_None_iff)
  then show ?case using Cons.IH [of "AList.update k' v m"] Cons.prems e
    by (cases "k = k'") (simp_all add: update_conv' split: option.split)
qed

text \<open>The other fields of a configuration do not use reserved names.\<close>

definition fields_free :: "alert_config \<Rightarrow> bool" where
  "fields_free a \<longleftrightarrow> (\<forall>fs. al_other_fields a = Some fs \<longrightarrow>
     distinct (map fst fs) \<and> (\<forall>k \<in> set reserved_fields. map_of fs k = None))"

lemma request_fields_free:
  assumes "request_into resolve lookup fresh clock r = Inr a"
    and "\<forall>fs. ar_other_fields r = Some fs \<longrightarrow> distinct (map fst fs)"
  shows "fields_free a"
proof -
  from assms(1) have "check_other_fields (ar_other_fields r) = Inr (al_other_fields a)"
    unfolding request_into_def by (auto split: option.splits if_splits)
  then have f: "\<exists>fs0. ar_other_fields r = Some fs0 \<and> fs = without_reserved fs0" if "al_other_fields a = Some fs" for fs
    using that by (auto simp: check_other_fields_def Let_def split: option.splits if_splits)
  show ?thesis unfolding fields_free_def
  proof (intro allI impI)
    fix fs
    assume "al_other_fields a = Some fs"
    from f [OF this] obtain fs0 where fs0: "ar_other_fields r = Some fs0" "fs = without_reserved fs0" by blast
    with assms(2) have "distinct (map fst fs0)" by simp
    from without_reserved_fold [OF this, of reserved_fields] fs0(2)
    show "distinct (map fst fs) \<and> (\<forall>k \<in> set reserved_fields. map_of fs k = None)"
      by (simp add: without_reserved_def)
  qed
qed

lemma summary_lookup:
  assumes "fields_free a"
  shows "map_of (to_summary sh a) k =
    (if k \<in> set reserved_fields then map_of (own_fields sh a) k
     else case Option.bind (al_other_fields a) (\<lambda>fs. map_of fs k) of Some v \<Rightarrow> Some v | None \<Rightarrow> map_of (own_fields sh a) k)"
proof (cases "al_other_fields a")
  case None
  then show ?thesis by (simp add: to_summary_def)
next
  case (Some fs)
  with assms have fs: "distinct (map fst fs)" "k \<in> set reserved_fields \<Longrightarrow> map_of fs k = None"
    by (simp_all add: fields_free_def)
  show ?thesis
    using fs(2) unfolding to_summary_def Some option.case map_of_insert_fields [OF fs(1)] Option.bind.bind_lunit
    by (cases "k \<in> set reserved_fields"; cases "map_of fs k") simp_all
qed

lemma own_fields_lookup:
  "map_of (own_fields sh a) ''title'' = Some (JString (al_title a))"
  "map_of (own_fields sh a) ''severity'' = Some (JString (severity_fmt (al_severity a)))"
  "map_of (own_fields sh a) ''state'' = Some (JString (alert_state_fmt (al_state a)))"
  "map_of (own_fields sh a) ''id'' = Some (JString (show_ulid sh (al_id a)))"
  by (simp_all add: own_fields_def insert_opt_def update_conv' split: option.splits)

lemma reserved_members:
  "''title'' \<in> set reserved_fields" "''severity'' \<in> set reserved_fields" "''state'' \<in> set reserved_fields" "''id'' \<in> set reserved_fields"
  by (simp_all add: reserved_fields_def)

section \<open>What is listed\<close>

lemma parse_fmt [simp]:
  "parse_alert_state (alert_state_fmt s) = (if s = NotTriggered then None else Some s)"
  "parse_severity (severity_fmt v) = Some v"
proof -
  show "parse_alert_state (alert_state_fmt s) = (if s = NotTriggered then None else Some s)"
    by (cases s) (simp_all add: parse_alert_state_def to_lowercase_def ascii_lower_def less_eq_char_def)
  show "parse_severity (severity_fmt v) = Some v"
    by (cases v) (simp_all add: parse_severity_def to_lowercase_def ascii_lower_def less_eq_char_def char_of_def bit_0)
qed

lemma get_str_summary:
  assumes "fields_free a"
  shows "get_str (to_summary sh a) ''title'' = Some (al_title a)"
    and "get_str (to_summary sh a) ''severity'' = Some (severity_fmt (al_severity a))"
    and "get_str (to_summary sh a) ''state'' = Some (alert_state_fmt (al_state a))"
  by (simp_all add: get_str_def summary_lookup [OF assms] own_fields_lookup reserved_members)

definition alert_key :: "alert_config \<Rightarrow> alert_state \<times> severity \<times> string" where
  "alert_key a = (al_state a, al_severity a, al_title a)"

lemma summary_key_alert: "fields_free a \<Longrightarrow> summary_key (to_summary sh a) = alert_key a"
  by (simp add: summary_key_def get_str_summary alert_key_def or_else_def)

lemma insort_key_map:
  "(\<And>x. x \<in> insert a (set xs) \<Longrightarrow> f (g x) = h x) \<Longrightarrow> insort_key f (g a) (map g xs) = map g (insort_key h a xs)"
proof (induction xs)
  case Nil
  then show ?case by simp
next
  case (Cons y ys)
  have "insort_key f (g a) (map g ys) = map g (insort_key h a ys)"
    by (rule Cons.IH) (use Cons.prems in auto)
  with Cons.prems [of a] Cons.prems [of y] show ?case by simp
qed

lemma sort_key_map:
  "(\<And>x. x \<in> set xs \<Longrightarrow> f (g x) = h x) \<Longrightarrow> sort_key f (map g xs) = map g (sort_key h xs)"
proof (induction xs)
  case Nil
  then show ?case by simp
next
  case (Cons y ys)
  have "sort_key f (map g ys) = map g (sort_key h ys)"
    by (rule Cons.IH) (use Cons.prems in auto)
  moreover have "insort_key f (g y) (map g (sort_key h ys)) = map g (insort_key h y (sort_key h ys))"
    by (rule insort_key_map) (use Cons.prems in auto)
  ultimately show ?case by simp
qed

text \<open>The fields that a user adds to an alert never change what its summary says of the alert itself:
  a summary of an alert made from a request gives, for every reserved name, the alert's own value.\<close>

theorem summary_not_overridden:
  assumes "request_into resolve lookup fresh clock r = Inr a"
    and "\<forall>fs. ar_other_fields r = Some fs \<longrightarrow> distinct (map fst fs)"
    and "k \<in> set reserved_fields"
  shows "map_of (to_summary sh a) k = map_of (own_fields sh a) k"
  using summary_lookup [OF request_fields_free [OF assms(1,2)]] assms(3) by simp

definition sample_request :: "alert_request" where
  "sample_request = \<lparr>ar_severity = High, ar_title = ''t'', ar_query = ''q'', ar_alert_type = ''threshold'',
     ar_anomaly_config = None, ar_forecast_config = None,
     ar_threshold_config = \<lparr>th_operator = GreaterThan, th_value = 1\<rparr>,
     ar_notification_config = default_notification_config,
     ar_eval_config = \<lparr>eval_start = ''10m'', eval_end = ''now'', eval_frequency = 10\<rparr>,
     ar_targets = [], ar_tags = None,
     ar_other_fields = Some [(''state'', JString ''resolved''), (''team'', JString ''x'')]\<rparr>"

definition sample_show :: alert_show where
  "sample_show = \<lparr>show_ulid = show_nat, show_datetime = (\<lambda>_. ''now''), max_utc = ''max''\<rparr>"

definition sample_alert :: alert_config where
  "sample_alert = (case request_into (\<lambda>_. Inr [''s'']) (\<lambda>_. None) 7 0 sample_request of Inr a \<Rightarrow> a)"

lemma sample_without: "without_reserved [(''state'', JString ''resolved''), (''team'', JString ''x'')] = [(''team'', JString ''x'')]"
  by (simp add: without_reserved_def reserved_fields_def swap_remove_def)

lemma sample_into: "request_into (\<lambda>_. Inr [''s'']) (\<lambda>_. None) 7 0 sample_request = Inr sample_alert"
  by (simp add: sample_alert_def request_into_def sample_request_def check_other_fields_def
      request_alert_type_def sample_without)

theorem summary_not_overridden_witness:
  "map_of (to_summary sample_show sample_alert) ''state'' = map_of (own_fields sample_show sample_alert) ''state''"
  by (rule summary_not_overridden [OF sample_into]) (simp_all add: sample_request_def reserved_members)

lemma concat_pages: "concat (map (\<lambda>i. take n (drop (i * n) xs)) [0..<k]) = take (k * n) xs"
proof (induction k)
  case 0
  then show ?case by simp
next
  case (Suc k)
  have "take (n + k * n) xs = take (k * n) xs @ take n (drop (k * n) xs)"
    by (metis add.commute take_add)
  with Suc show ?case by simp
qed

text \<open>Sorting summaries by the texts of their state, severity and title is sorting the alerts by state,
  severity and title, triggered and critical first; and the pages of any size, one after the other,
  are that sorted list.\<close>

theorem listing_sorted_pages:
  assumes "\<forall>a \<in> set alerts. fields_free a"
  shows "sort_alerts (map (to_summary sh) alerts) = map (to_summary sh) (sort_key alert_key alerts) \<and>
    (0 < n \<longrightarrow> concat (map (\<lambda>i. paginate_alerts (i * n) n (sort_alerts (map (to_summary sh) alerts))) [0..<length alerts]) =
      map (to_summary sh) (sort_key alert_key alerts))"
proof -
  have s: "sort_alerts (map (to_summary sh) alerts) = map (to_summary sh) (sort_key alert_key alerts)"
    using assms unfolding sort_alerts_def by (intro sort_key_map) (simp add: summary_key_alert)
  have "concat (map (\<lambda>i. paginate_alerts (i * n) n (map (to_summary sh) (sort_key alert_key alerts))) [0..<length alerts]) =
      map (to_summary sh) (sort_key alert_key alerts)" if "0 < n"
    using that unfolding paginate_alerts_def concat_pages by simp
  with s show ?thesis by simp
qed

theorem listing_sorted_pages_witness:
  "sort_alerts (map (to_summary sample_show) [sample_alert, sample_alert\<lparr>al_state := Triggered\<rparr>]) =
   map (to_summary sample_show) (sort_key alert_key [sample_alert, sample_alert\<lparr>al_state := Triggered\<rparr>])"
proof -
  have "fields_free sample_alert"
    by (rule request_fields_free [OF sample_into]) (simp add: sample_request_def)
  then have "fields_free (sample_alert\<lparr>al_state := Triggered\<rparr>)" "fields_free sample_alert" by (simp_all add: fields_free_def)
  then show ?thesis
    using listing_sorted_pages [of "[sample_alert, sample_alert\<lparr>al_state := Triggered\<rparr>]" sample_show 1] by simp
qed

text \<open>The summary counts every alert the user may see in exactly one state, and of each state shows at
  most five alerts, none of them less severe than one it leaves out.\<close>

theorem alerts_summary_exact:
  "(let s = get_alerts_summary may_query all; mine = filter (\<lambda>a. may_query (al_query a)) all in
    total_count s = state_total (triggered_info s) + state_total (disabled_info s) + state_total (not_triggered_info s) \<and>
    total_count s = length mine) \<and>
   (\<exists>hidden. mset (map ai_severity (alert_info (info_by_state st all)) @ hidden) =
       mset (map al_severity (filter (\<lambda>a. al_state a = st) all)) \<and>
     length (alert_info (info_by_state st all)) = min 5 (state_total (info_by_state st all)) \<and>
     (\<forall>v \<in> set (map ai_severity (alert_info (info_by_state st all))). \<forall>w \<in> set hidden. v \<le> w))"
proof -
  let ?f = "\<lambda>a. \<lparr>ai_title = al_title a, ai_id = al_id a, ai_severity = al_severity a\<rparr>"
  have count: "length xs = length (filter (\<lambda>a. al_state a = Triggered) xs) +
      length (filter (\<lambda>a. al_state a = Disabled) xs) + length (filter (\<lambda>a. al_state a = NotTriggered) xs)" for xs
  proof (induction xs)
    case Nil
    then show ?case by simp
  next
    case (Cons a xs)
    then show ?case by (cases "al_state a") simp_all
  qed
  define xs where "xs = sort_key (severity_rank \<circ> ai_severity) (map ?f (filter (\<lambda>a. al_state a = st) all))"
  have parts: "mset (map ai_severity (take 5 xs) @ map ai_severity (drop 5 xs)) =
      mset (map al_severity (filter (\<lambda>a. al_state a = st) all))"
  proof -
    have "mset (map ai_severity (take 5 xs) @ map ai_severity (drop 5 xs)) = mset (map ai_severity xs)"
      by (metis append_take_drop_id map_append)
    also have "\<dots> = image_mset ai_severity (mset (map ?f (filter (\<lambda>a. al_state a = st) all)))"
      unfolding xs_def by (simp add: mset_map del: map_map)
    finally show ?thesis by (simp add: mset_map multiset.map_comp comp_def)
  qed
  have "sorted (map (severity_rank \<circ> ai_severity) xs)" unfolding xs_def by (rule sorted_sort_key)
  then have "sorted (map (severity_rank \<circ> ai_severity) (take 5 xs @ drop 5 xs))" by simp
  then have "\<forall>v \<in> set (map ai_severity (take 5 xs)). \<forall>w \<in> set (map ai_severity (drop 5 xs)). v \<le> w"
    unfolding map_append sorted_append by (simp add: less_eq_severity_def)
  with parts have "\<exists>hidden. mset (map ai_severity (take 5 xs) @ hidden) =
       mset (map al_severity (filter (\<lambda>a. al_state a = st) all)) \<and>
     (\<forall>v \<in> set (map ai_severity (take 5 xs)). \<forall>w \<in> set hidden. v \<le> w)" by blast
  moreover have "length (take 5 xs) = min 5 (length (filter (\<lambda>a. al_state a = st) all))" by (simp add: xs_def)
  ultimately show ?thesis
    using count [of "filter (\<lambda>a. may_query (al_query a)) all"]
    by (simp add: get_alerts_summary_def list_alerts_for_user_def info_by_state_def Let_def flip: xs_def)
qed

end
