(* ===== verification/Alert_Manager.thy ===== *)
theory Alert_Manager
  imports Alert_Config
begin

text \<open>
  The alerts at work: \<open>ThresholdAlert\<close> of \<open>src/alerts/alert_types.rs\<close>, the manager \<open>Alerts\<close> of
  \<open>src/alerts/mod.rs\<close>, the evaluation of \<open>src/alerts/alerts_utils.rs\<close>, the tasks that
  \<open>alert_runtime\<close> of \<open>src/sync.rs\<close> keeps, and the handlers of \<open>src/handlers/http/alerts.rs\<close>.
  An \<open>AlertConfig\<close> and a \<open>ThresholdAlert\<close> have the same fields and are one record here.
\<close>

section \<open>The world of alerts\<close>

datatype alert_task = Create alert_config | Delete ulid

text \<open>A task of the runtime: the alert as it was when the task was made, the failures in a row, the
  minutes it sleeps, and whether its loop has ended.\<close>

record eval_task =
  et_alert :: alert_config
  retry_counter :: nat
  sleep_duration :: nat
  ended :: bool

text \<open>The alerts in memory, those in the object store, the stored histories, the messages not yet
  received by the runtime, its tasks, the notification state of each alert, and what was spawned
  for its targets.\<close>

record alerts_world =
  w_alerts :: "(ulid \<times> alert_config) list"
  w_store :: "ulid \<Rightarrow> alert_config option"
  w_history :: "ulid \<Rightarrow> stored_history option"
  w_queue :: "alert_task list"
  w_tasks :: "(ulid \<times> eval_task) list"
  w_timeouts :: "ulid \<Rightarrow> timeout_state"
  w_spawned :: "(ulid \<times> spawned) list"

text \<open>What an operation meets: the clock, which accesses to the store succeed, the times that a mute
  names, and the known targets.\<close>

record alert_env =
  clock :: datetime
  put_alert_ok :: bool
  delete_alert_ok :: bool
  get_state_ok :: bool
  put_state_ok :: bool
  delete_state_ok :: bool
  read_time :: "string \<Rightarrow> datetime option"
  known_target :: "ulid \<Rightarrow> target option"

text \<open>What is stored of an alert: the number of repetitions is not, and it is one after loading.\<close>

definition stored_form :: "alert_config \<Rightarrow> alert_config" where
  "stored_form a = a\<lparr>al_notification_config := (al_notification_config a)\<lparr>times := Finite 1\<rparr>\<rparr>"

definition put_alert :: "alert_env \<Rightarrow> alert_config \<Rightarrow> alerts_world \<Rightarrow> alerts_world \<times> (alert_error + unit)" where
  "put_alert env a w =
     (if put_alert_ok env then (w\<lparr>w_store := (w_store w)(al_id a \<mapsto> stored_form a)\<rparr>, Inr ())
      else (w, Inl StoreFailure))"

definition store_alert_state :: "alert_env \<Rightarrow> ulid \<Rightarrow> alert_state \<Rightarrow> alerts_world \<Rightarrow> alerts_world \<times> (alert_error + unit)" where
  "store_alert_state env i s w =
     (case put_alert_state (get_state_ok env) (put_state_ok env) (clock env) s (w_history w i) of
        (stored, ok) \<Rightarrow> (w\<lparr>w_history := (w_history w)(i := stored)\<rparr>, if ok then Inr () else Inl StoreFailure))"

text \<open>The state effect of the \<open>?\<close> operator: go on with the new world, or stop with the error.\<close>

definition and_then ::
  "alerts_world \<times> (alert_error + 'a) \<Rightarrow> ('a \<Rightarrow> alerts_world \<Rightarrow> alerts_world \<times> (alert_error + 'b)) \<Rightarrow>
   alerts_world \<times> (alert_error + 'b)"
where
  "and_then m f = (case m of (w, Inl e) \<Rightarrow> (w, Inl e) | (w, Inr v) \<Rightarrow> f v w)"

lemma and_then_simps [simp]:
  "and_then (w, Inl e) f = (w, Inl e)"
  "and_then (w, Inr v) f = f v w"
  by (simp_all add: and_then_def)

section \<open>Threshold alerts\<close>

definition set_state :: "alert_env \<Rightarrow> alert_state \<Rightarrow> alert_config \<Rightarrow> alert_config" where
  "set_state env s a =
     a\<lparr>al_state := s, al_last_triggered_at := if s = Triggered then Some (clock env) else al_last_triggered_at a\<rparr>"

text \<open>A mute that is over gives way to notifications; \<open>None\<close> for a time that is none.\<close>

definition unmute :: "alert_env \<Rightarrow> alert_config \<Rightarrow> alert_config option" where
  "unmute env a =
     (case al_notification_state a of
        Notify \<Rightarrow> Some a
      | Mute till_time \<Rightarrow>
          if till_time = ''indefinite'' then Some a
          else (case read_time env till_time of
                  None \<Rightarrow> None
                | Some till \<Rightarrow>
                    Some (if clock env > till then a\<lparr>al_notification_state := Notify\<rparr> else a)))"

definition persist_state :: "alert_env \<Rightarrow> alert_config \<Rightarrow> alerts_world \<Rightarrow> alerts_world \<times> (alert_error + unit)" where
  "persist_state env a w = and_then (put_alert env a w) (\<lambda>_. store_alert_state env (al_id a) (al_state a))"

definition notify_targets :: "alert_env \<Rightarrow> alert_config \<Rightarrow> alerts_world \<Rightarrow> alerts_world \<times> (alert_error + unit)" where
  "notify_targets env a w =
     (case trigger_notifications (known_target env) (al_targets a) (al_state a) (w_timeouts w (al_id a)) of
        (s, out, r) \<Rightarrow>
          (w\<lparr>w_timeouts := (w_timeouts w)(al_id a := s), w_spawned := w_spawned w @ map (Pair (al_id a)) out\<rparr>,
           (case r of Inl e \<Rightarrow> Inl (TargetError e) | Inr _ \<Rightarrow> Inr ())))"

text \<open>The alert as the operation leaves it is returned when it succeeds.\<close>

definition alert_update_state ::
  "alert_env \<Rightarrow> alert_state \<Rightarrow> string option \<Rightarrow> alert_config \<Rightarrow> alerts_world \<Rightarrow> alerts_world \<times> (alert_error + alert_config)"
where
  "alert_update_state env new_state trigger_notif a w =
     (if al_state a = Disabled then
        let a = set_state env new_state a in
        and_then (persist_state env a w) (\<lambda>_ w. (w, Inr a))
      else case unmute env a of
        None \<Rightarrow> (w, Inl (CustomError ''time''))
      | Some a \<Rightarrow>
          let a = set_state env new_state a in
          and_then (persist_state env a w) (\<lambda>_ w.
            if trigger_notif \<noteq> None \<and> al_notification_state a = Notify
            then and_then (notify_targets env a w) (\<lambda>_ w. (w, Inr a))
            else (w, Inr a)))"

definition alert_update_notification_state ::
  "alert_env \<Rightarrow> notification_state \<Rightarrow> alert_config \<Rightarrow> alerts_world \<Rightarrow> alerts_world \<times> (alert_error + alert_config)"
where
  "alert_update_notification_state env n a w =
     (let a = a\<lparr>al_notification_state := n\<rparr> in and_then (put_alert env a w) (\<lambda>_ w. (w, Inr a)))"

section \<open>The manager\<close>

definition send :: "alert_task \<Rightarrow> alerts_world \<Rightarrow> alerts_world" where
  "send t w = w\<lparr>w_queue := w_queue w @ [t]\<rparr>"

definition manager_update :: "alert_config \<Rightarrow> alerts_world \<Rightarrow> alerts_world" where
  "manager_update a w = w\<lparr>w_alerts := AList.update (al_id a) a (w_alerts w)\<rparr>"

definition get_alert_by_id :: "ulid \<Rightarrow> alerts_world \<Rightarrow> alert_error + alert_config" where
  "get_alert_by_id i w = (case map_of (w_alerts w) i of Some a \<Rightarrow> Inr a | None \<Rightarrow> Inl (NoSuchAlert i))"

definition threshold_only :: "alert_config \<Rightarrow> alert_error + alert_config" where
  "threshold_only a =
     (case al_type a of
        Threshold \<Rightarrow> Inr a
      | Anomaly _ \<Rightarrow> Inl (NotPresentInOSS ''anomaly'')
      | Forecast _ _ \<Rightarrow> Inl (NotPresentInOSS ''forecast''))"

text \<open>The first half of a change of state, under the read lock: the alert and what to tell the runtime.\<close>

definition update_state_begin :: "ulid \<Rightarrow> alert_state \<Rightarrow> alerts_world \<Rightarrow> alert_error + alert_config \<times> alert_task list" where
  "update_state_begin i new_state w =
     bind_result (bind_result (get_alert_by_id i w) threshold_only) (\<lambda>a.
       if new_state = Disabled \<and> al_state a = Disabled then Inl InvalidStateChange
       else Inr (a,
         if new_state = Disabled \<and> al_state a \<noteq> Disabled then [Delete i]
         else if al_state a = Disabled \<and> new_state = NotTriggered then [Create a]
         else []))"

text \<open>The second half, without the lock until the alert is put back into the table.\<close>

definition update_state_finish ::
  "alert_env \<Rightarrow> alert_state \<Rightarrow> string option \<Rightarrow> alert_config \<times> alert_task list \<Rightarrow> alerts_world \<Rightarrow>
   alerts_world \<times> (alert_error + unit)"
where
  "update_state_finish env new_state trigger_notif begun w =
     (case begun of (a, tasks) \<Rightarrow>
        and_then (alert_update_state env new_state trigger_notif a (fold send tasks w))
          (\<lambda>a w. (manager_update a w, Inr ())))"

definition update_state ::
  "alert_env \<Rightarrow> ulid \<Rightarrow> alert_state \<Rightarrow> string option \<Rightarrow> alerts_world \<Rightarrow> alerts_world \<times> (alert_error + unit)"
where
  "update_state env i new_state trigger_notif w =
     (case update_state_begin i new_state w of
        Inl e \<Rightarrow> (w, Inl e)
      | Inr begun \<Rightarrow> update_state_finish env new_state trigger_notif begun w)"

definition update_notification_state ::
  "alert_env \<Rightarrow> ulid \<Rightarrow> notification_state \<Rightarrow> alerts_world \<Rightarrow> alerts_world \<times> (alert_error + unit)"
where
  "update_notification_state env i n w =
     (case bind_result (get_alert_by_id i w) threshold_only of
        Inl e \<Rightarrow> (w, Inl e)
      | Inr a \<Rightarrow> and_then (alert_update_notification_state env n a w) (\<lambda>a w. (manager_update a w, Inr ())))"

definition manager_delete :: "ulid \<Rightarrow> alerts_world \<Rightarrow> alerts_world" where
  "manager_delete i w = w\<lparr>w_alerts := AList.delete i (w_alerts w)\<rparr>"

definition get_state :: "ulid \<Rightarrow> alerts_world \<Rightarrow> alert_error + alert_state" where
  "get_state i w = bind_result (get_alert_by_id i w) (\<lambda>a. Inr (al_state a))"

definition list_tags :: "alerts_world \<Rightarrow> string list" where
  "list_tags w = remdups_adj (sort (concat (map (\<lambda>(_, a). case al_tags a of Some ts \<Rightarrow> ts | None \<Rightarrow> []) (w_alerts w))))"

text \<open>Loading from the objects of the store, each already read as an alert or as nothing (an object that
  cannot be read or migrated is skipped). \<open>False\<close> when an alert of another kind ends the loading.\<close>

fun load :: "alert_config option list \<Rightarrow> alerts_world \<Rightarrow> alerts_world \<times> bool" where
  "load [] w = (w, True)"
| "load (None # objs) w = load objs w"
| "load (Some a # objs) w =
     (if al_type a \<noteq> Threshold then (w, False)
      else if al_state a = Disabled then load objs (manager_update a w)
      else load objs (manager_update a (send (Create a) w)))"

section \<open>The runtime\<close>

definition new_task :: "alert_config \<Rightarrow> eval_task" where
  "new_task a = \<lparr>et_alert = a, retry_counter = 0, sleep_duration = get_eval_frequency a, ended = False\<rparr>"

fun receive :: "alert_task \<Rightarrow> (ulid \<times> eval_task) list \<Rightarrow> (ulid \<times> eval_task) list" where
  "receive (Create a) ts = (if map_of ts (al_id a) \<noteq> None then ts else AList.update (al_id a) (new_task a) ts)"
| "receive (Delete i) ts = AList.delete i ts"

text \<open>The runtime receives the first message.\<close>

definition runtime_step :: "alerts_world \<Rightarrow> alerts_world" where
  "runtime_step w =
     (case w_queue w of
        [] \<Rightarrow> w
      | t # rest \<Rightarrow> w\<lparr>w_queue := rest, w_tasks := receive t (w_tasks w)\<rparr>)"

text \<open>The loop of a task after an evaluation that succeeded or failed.\<close>

definition after_evaluation :: "bool \<Rightarrow> eval_task \<Rightarrow> eval_task" where
  "after_evaluation ok t =
     (if ended t then t
      else if ok then t\<lparr>retry_counter := 0\<rparr>
      else
        let t = t\<lparr>sleep_duration := 1, retry_counter := retry_counter t + 1\<rparr> in
        if retry_counter t > 3 then t\<lparr>ended := True\<rparr> else t)"

section \<open>Evaluation\<close>

record group_result =
  group_values :: "(string \<times> string) list"
  aggregate_value :: real

record alert_query_result =
  qr_groups :: "group_result list"
  is_simple_query :: bool

definition get_single_value :: "alert_query_result \<Rightarrow> real" where
  "get_single_value r = (if is_simple_query r \<and> qr_groups r \<noteq> [] then aggregate_value (hd (qr_groups r)) else 0)"

text \<open>The texts of numbers and times are their libraries'.\<close>

record message_show =
  ms_alert :: alert_show
  ms_real :: "real \<Rightarrow> string"
  ms_clock :: string

definition newline :: string where
  "newline = [CHR 0x0A]"

definition get_message_header :: "message_show \<Rightarrow> alert_config \<Rightarrow> string" where
  "get_message_header sh a =
     ''Alert Name:         '' @ al_title a @ newline @
     ''Alert Type:         Threshold alert'' @ newline @
     ''Severity:           '' @ severity_fmt (al_severity a) @ newline @
     ''Triggered at:       '' @ ms_clock sh @ newline @
     ''Threshold:          '' @ alert_operator_fmt (th_operator (al_threshold a)) @ '' '' @
       ms_real sh (th_value (al_threshold a)) @ newline @
     ''Alert ID:           '' @ show_ulid (ms_alert sh) (al_id a) @ newline @
     ''Evaluation Window:  '' @ eval_start (al_eval a) @ newline @
     ''Frequency:          '' @ show_nat (get_eval_frequency a) @ newline @ newline @
     ''Values crossing the threshold:''"

definition create_threshold_message :: "message_show \<Rightarrow> alert_config \<Rightarrow> real \<Rightarrow> string" where
  "create_threshold_message sh a actual =
     get_message_header sh a @ newline @ ''Value: '' @ ms_real sh actual @ newline @ newline @
     ''Query:'' @ newline @ al_query a"

definition group_line :: "message_show \<Rightarrow> nat \<Rightarrow> group_result \<Rightarrow> string" where
  "group_line sh n g =
     show_nat (n + 1) @ ''. '' @
     (if group_values g = [] then ''[No GROUP BY]''
      else join '', '' (map (\<lambda>(k, v). k @ '': '' @ v) (group_values g))) @
     '' '' @ [CHR 0xE2, CHR 0x86, CHR 0x92] @ '' Value: '' @ ms_real sh (aggregate_value g) @ newline"

definition create_group_message :: "message_show \<Rightarrow> alert_config \<Rightarrow> group_result list \<Rightarrow> string" where
  "create_group_message sh a gs =
     get_message_header sh a @ newline @
     ''Alerting Groups ('' @ show_nat (length gs) @ '' total):'' @ newline @
     concat (map (\<lambda>(n, g). group_line sh n g) (zip [0..<length gs] gs)) @
     newline @ ''Query:'' @ newline @ al_query a"

definition breaches :: "alert_config \<Rightarrow> real \<Rightarrow> bool" where
  "breaches a actual = evaluate_condition (th_operator (al_threshold a)) actual (th_value (al_threshold a))"

text \<open>The message of an alert whose query gave this result.\<close>

definition eval_alert :: "message_show \<Rightarrow> alert_config \<Rightarrow> alert_query_result \<Rightarrow> string option" where
  "eval_alert sh a r =
     (if is_simple_query r then
        (if breaches a (get_single_value r) then Some (create_threshold_message sh a (get_single_value r)) else None)
      else
        let breached_groups = filter (\<lambda>g. breaches a (aggregate_value g)) (qr_groups r) in
        if breached_groups \<noteq> [] then Some (create_group_message sh a breached_groups) else None)"

definition update_alert_state ::
  "alert_env \<Rightarrow> ulid \<Rightarrow> string option \<Rightarrow> alerts_world \<Rightarrow> alerts_world \<times> (alert_error + unit)"
where
  "update_alert_state env i message w =
     (case message of
        Some msg \<Rightarrow> update_state env i Triggered (Some msg) w
      | None \<Rightarrow>
          (case get_state i w of
             Inl e \<Rightarrow> (w, Inl e)
           | Inr s \<Rightarrow> if s = Triggered then update_state env i NotTriggered (Some []) w
               else update_state env i NotTriggered None w))"

text \<open>An evaluation whose query gave a result or failed.\<close>

definition evaluate_alert ::
  "alert_env \<Rightarrow> message_show \<Rightarrow> alert_error + alert_query_result \<Rightarrow> alert_config \<Rightarrow> alerts_world \<Rightarrow>
   alerts_world \<times> (alert_error + unit)"
where
  "evaluate_alert env sh outcome a w =
     (case outcome of
        Inl e \<Rightarrow> (w, Inl e)
      | Inr r \<Rightarrow> update_alert_state env (al_id a) (eval_alert sh a r) w)"

text \<open>A task of the runtime evaluates its alert.\<close>

definition run_task ::
  "alert_env \<Rightarrow> message_show \<Rightarrow> alert_error + alert_query_result \<Rightarrow> ulid \<Rightarrow> alerts_world \<Rightarrow> alerts_world"
where
  "run_task env sh outcome i w =
     (case map_of (w_tasks w) i of
        None \<Rightarrow> w
      | Some t \<Rightarrow>
          if ended t then w
          else case evaluate_alert env sh outcome (et_alert t) w of
            (w', r) \<Rightarrow> w'\<lparr>w_tasks := AList.update i (after_evaluation (\<not> isl r) t) (w_tasks w')\<rparr>)"

section \<open>Requests\<close>

text \<open>What the requests rely on: the user's right to a query, the parser of queries, the validity of
  texts, and fresh identifiers.\<close>

record request_env =
  authorized :: "string \<Rightarrow> bool"
  resolve_stream_names :: "string \<Rightarrow> alert_error + string list"
  streams_exist :: "string list \<Rightarrow> bool"
  get_number_of_agg_exprs :: "string \<Rightarrow> alert_error + nat"
  human_duration_ok :: "string \<Rightarrow> bool"
  human_duration_of :: "string \<Rightarrow> int option"
  to_rfc3339 :: "datetime \<Rightarrow> string"
  fresh_id :: ulid

definition require :: "bool \<Rightarrow> alert_error \<Rightarrow> alert_error + unit" where
  "require b e = (if b then Inr () else Inl e)"

definition repeats_too_long :: "alert_config \<Rightarrow> bool" where
  "repeats_too_long a =
     (case times (al_notification_config a) of
        Infinite \<Rightarrow> False
      | Finite n \<Rightarrow> 60 * interval (al_notification_config a) * n > get_eval_frequency a * 60)"

definition validate :: "request_env \<Rightarrow> alert_config \<Rightarrow> alert_error + unit" where
  "validate q a =
     bind_result (require (human_duration_ok q (eval_start (al_eval a))) (Metadata ''evalStart should be of type humantime'')) (\<lambda>_.
     bind_result (require (\<not> repeats_too_long a) (Metadata ''evalFrequency should be greater than target repetition  interval'')) (\<lambda>_.
     bind_result (require (al_query a \<noteq> []) (InvalidAlertQuery ''Empty query'')) (\<lambda>_.
     bind_result (resolve_stream_names q (al_query a)) (\<lambda>tables.
     bind_result (require (tables \<noteq> []) (InvalidAlertQuery ''No tables found in query'')) (\<lambda>_.
     bind_result (require (streams_exist q tables) (InvalidAlertQuery ''Invalid tables'')) (\<lambda>_.
     bind_result (require (authorized q (al_query a)) Unauthorized) (\<lambda>_.
     bind_result (get_number_of_agg_exprs q (al_query a)) (\<lambda>n.
       require (n = 1) (InvalidAlertQuery ''only 1 allowed''))))))))) "

text \<open>The number of repetitions that fit into the time between two evaluations, at least one.\<close>

definition notification_times :: "nat \<Rightarrow> nat \<Rightarrow> nat" where
  "notification_times eval_freq notif_freq = (if eval_freq div notif_freq = 0 then 1 else eval_freq div notif_freq)"

definition with_times :: "alert_config \<Rightarrow> alert_config" where
  "with_times a =
     a\<lparr>al_notification_config := (al_notification_config a)\<lparr>times :=
       Finite (notification_times (get_eval_frequency a) (interval (al_notification_config a)))\<rparr>\<rparr>"

definition post_config :: "request_env \<Rightarrow> alert_env \<Rightarrow> alert_request \<Rightarrow> alert_error + alert_config" where
  "post_config q env r =
     bind_result (request_into (resolve_stream_names q) (known_target env) (fresh_id q) (clock env) r) (\<lambda>a.
     bind_result (require (interval (al_notification_config a) \<le> get_eval_frequency a)
         (ValidationFailure ''Notification interval cannot exceed evaluation frequency'')) (\<lambda>_.
     bind_result (require (get_eval_frequency a \<noteq> 0) (ValidationFailure ''Eval frequency cannot be 0'')) (\<lambda>_.
     bind_result (require (interval (al_notification_config a) \<noteq> 0) (ValidationFailure ''Notification interval cannot be 0'')) (\<lambda>_.
     bind_result (threshold_only (with_times a)) (\<lambda>a.
     bind_result (validate q a) (\<lambda>_. Inr a))))))"

definition post :: "request_env \<Rightarrow> alert_env \<Rightarrow> alert_request \<Rightarrow> alerts_world \<Rightarrow> alerts_world \<times> (alert_error + alert_config)" where
  "post q env r w =
     (case post_config q env r of
        Inl e \<Rightarrow> (w, Inl e)
      | Inr a \<Rightarrow>
          and_then (put_alert env a w) (\<lambda>_ w.
          and_then (store_alert_state env (al_id a) NotTriggered w) (\<lambda>_ w.
            (send (Create a) (manager_update a w), Inr a))))"

text \<open>The alert of a request, when the user may run its query.\<close>

definition authorized_alert :: "request_env \<Rightarrow> ulid \<Rightarrow> alerts_world \<Rightarrow> alert_error + alert_config" where
  "authorized_alert q i w =
     bind_result (get_alert_by_id i w) (\<lambda>a. bind_result (require (authorized q (al_query a)) Unauthorized) (\<lambda>_. Inr a))"

definition delete_alert :: "request_env \<Rightarrow> alert_env \<Rightarrow> ulid \<Rightarrow> alerts_world \<Rightarrow> alerts_world \<times> (alert_error + unit)" where
  "delete_alert q env i w =
     (case authorized_alert q i w of
        Inl e \<Rightarrow> (w, Inl e)
      | Inr a \<Rightarrow>
          if \<not> delete_alert_ok env then (w, Inl StoreFailure)
          else
            let w = w\<lparr>w_store := (w_store w)(i := None)\<rparr> in
            if \<not> delete_state_ok env then (w, Inl StoreFailure)
            else
              let w = w\<lparr>w_history := (w_history w)(i := None)\<rparr> in
              (send (Delete i) (manager_delete i w), Inr ()))"

definition new_notification_state :: "request_env \<Rightarrow> alert_env \<Rightarrow> string \<Rightarrow> alert_error + notification_state" where
  "new_notification_state q env s =
     (if s = ''notify'' then Inr Notify
      else if s = ''indefinite'' then Inr (Mute ''indefinite'')
      else case human_duration_of q s of
        Some d \<Rightarrow> Inr (Mute (to_rfc3339 q (clock env + d)))
      | None \<Rightarrow>
          (case read_time env s of
             Some t \<Rightarrow> if t < clock env then Inl InvalidStateChange else Inr (Mute (to_rfc3339 q t))
           | None \<Rightarrow> Inl InvalidStateChange))"

definition mute_alert ::
  "request_env \<Rightarrow> alert_env \<Rightarrow> ulid \<Rightarrow> string \<Rightarrow> alerts_world \<Rightarrow> alerts_world \<times> (alert_error + alert_config)"
where
  "mute_alert q env i s w =
     (case bind_result (new_notification_state q env s) (\<lambda>n.
             bind_result (authorized_alert q i w) (\<lambda>_. Inr n)) of
        Inl e \<Rightarrow> (w, Inl e)
      | Inr n \<Rightarrow> and_then (update_notification_state env i n w) (\<lambda>_ w. (w, get_alert_by_id i w)))"

definition disable_alert :: "request_env \<Rightarrow> alert_env \<Rightarrow> ulid \<Rightarrow> alerts_world \<Rightarrow> alerts_world \<times> (alert_error + alert_config)" where
  "disable_alert q env i w =
     (case authorized_alert q i w of
        Inl e \<Rightarrow> (w, Inl e)
      | Inr _ \<Rightarrow> and_then (update_state env i Disabled (Some []) w) (\<lambda>_ w. (w, get_alert_by_id i w)))"

definition enable_alert :: "request_env \<Rightarrow> alert_env \<Rightarrow> ulid \<Rightarrow> alerts_world \<Rightarrow> alerts_world \<times> (alert_error + alert_config)" where
  "enable_alert q env i w =
     (case bind_result (get_alert_by_id i w) (\<lambda>a.
             bind_result (require (al_state a = Disabled) InvalidStateChange) (\<lambda>_.
             require (authorized q (al_query a)) Unauthorized)) of
        Inl e \<Rightarrow> (w, Inl e)
      | Inr _ \<Rightarrow> and_then (update_state env i NotTriggered (Some []) w) (\<lambda>_ w. (w, get_alert_by_id i w)))"

text \<open>The alert that a request makes of another one; \<open>None\<close> is the panic of a division by zero.\<close>

definition modified_config ::
  "request_env \<Rightarrow> alert_env \<Rightarrow> alert_request \<Rightarrow> alert_config \<Rightarrow> (alert_error + alert_config) option"
where
  "modified_config q env r a =
     (case bind_result (request_into (resolve_stream_names q) (known_target env) (fresh_id q) (clock env) r) (\<lambda>new.
             bind_result (require (al_type new = al_type a) InvalidAlertModifyRequest) (\<lambda>_.
             bind_result (require (authorized q (al_query new)) Unauthorized) (\<lambda>_. Inr new))) of
        Inl e \<Rightarrow> Some (Inl e)
      | Inr new \<Rightarrow>
          if interval (al_notification_config new) = 0 then None
          else
            let new = with_times new;
                old = a\<lparr>al_threshold := al_threshold new, al_datasets := al_datasets new, al_eval := al_eval new,
                  al_notification_config := al_notification_config new, al_query := al_query new,
                  al_severity := al_severity new, al_tags := al_tags new, al_targets := al_targets new,
                  al_title := al_title new\<rparr>
            in Some (bind_result (threshold_only old) (\<lambda>b. bind_result (validate q b) (\<lambda>_. Inr b))))"

definition modify_alert ::
  "request_env \<Rightarrow> alert_env \<Rightarrow> ulid \<Rightarrow> alert_request \<Rightarrow> alerts_world \<Rightarrow>
   (alerts_world \<times> (alert_error + alert_config)) option"
where
  "modify_alert q env i r w =
     (case authorized_alert q i w of
        Inl e \<Rightarrow> Some (w, Inl e)
      | Inr a \<Rightarrow>
          (case modified_config q env r a of
             None \<Rightarrow> None
           | Some (Inl e) \<Rightarrow> Some (w, Inl e)
           | Some (Inr b) \<Rightarrow> Some (
               and_then (put_alert env b w) (\<lambda>_ w.
                 let w = manager_update b (manager_delete i (send (Delete i) w)) in
                 (if al_state b \<noteq> Disabled then send (Create b) w else w, Inr b)))))"

definition evaluate_now :: "request_env \<Rightarrow> ulid \<Rightarrow> alerts_world \<Rightarrow> alerts_world \<times> (alert_error + alert_config)" where
  "evaluate_now q i w =
     (case authorized_alert q i w of
        Inl e \<Rightarrow> (w, Inl e)
      | Inr a \<Rightarrow> (send (Create a) (send (Delete i) w), Inr a))"

end
