(* ===== verification/Alert_Tasks.thy ===== *)
theory Alert_Tasks
  imports Alert_Manager
begin

text \<open>
  What holds of the alerts of \<open>Alert_Manager\<close> as requests, the runtime and its tasks take their
  turns: the tasks are those of the alerts that are not disabled, memory and store agree, and where
  this fails (a store that fails, an evaluation that overlaps a request, a task that ends).
\<close>

section \<open>Scheduled alerts\<close>

text \<open>The tasks once the runtime has received every message, and the alerts that then have one.\<close>

definition drained :: "alerts_world \<Rightarrow> (ulid \<times> eval_task) list" where
  "drained w = fold receive (w_queue w) (w_tasks w)"

definition scheduled :: "alerts_world \<Rightarrow> ulid \<Rightarrow> bool" where
  "scheduled w i \<longleftrightarrow> map_of (drained w) i \<noteq> None"

lemma lookup_receive:
  "map_of (receive (Create a) ts) i \<noteq> None \<longleftrightarrow> i = al_id a \<or> map_of ts i \<noteq> None"
  "map_of (receive (Delete j) ts) i \<noteq> None \<longleftrightarrow> i \<noteq> j \<and> map_of ts i \<noteq> None"
  by (auto simp: update_conv' delete_conv')

lemma scheduled_cong:
  "w_queue w = w_queue w' \<Longrightarrow> w_tasks w = w_tasks w' \<Longrightarrow> scheduled w i = scheduled w' i"
  by (simp add: scheduled_def drained_def)

lemma drained_send: "drained (send t w) = receive t (drained w)"
  by (simp add: drained_def send_def)

lemma scheduled_send [simp]:
  "scheduled (send (Create a) w) i \<longleftrightarrow> i = al_id a \<or> scheduled w i"
  "scheduled (send (Delete j) w) i \<longleftrightarrow> i \<noteq> j \<and> scheduled w i"
  unfolding scheduled_def drained_send lookup_receive by (rule refl)+

lemma scheduled_update [simp]:
  "scheduled (manager_update a w) i = scheduled w i"
  "scheduled (manager_delete j w) i = scheduled w i"
  "scheduled (w\<lparr>w_store := s\<rparr>) i = scheduled w i"
  "scheduled (w\<lparr>w_history := h\<rparr>) i = scheduled w i"
  by (auto intro!: scheduled_cong simp: manager_update_def manager_delete_def)

lemma manager_fields [simp]:
  "w_alerts (manager_update a w) = AList.update (al_id a) a (w_alerts w)"
  "w_alerts (manager_delete i w) = AList.delete i (w_alerts w)"
  "w_store (manager_update a w) = w_store w" "w_store (manager_delete i w) = w_store w"
  "w_queue (manager_update a w) = w_queue w" "w_queue (manager_delete i w) = w_queue w"
  "w_tasks (manager_update a w) = w_tasks w" "w_tasks (manager_delete i w) = w_tasks w"
  "w_alerts (send t w) = w_alerts w" "w_store (send t w) = w_store w" "w_tasks (send t w) = w_tasks w"
  by (simp_all add: manager_update_def manager_delete_def send_def)

lemma scheduled_runtime [simp]: "scheduled (runtime_step w) i = scheduled w i"
  by (simp add: scheduled_def drained_def runtime_step_def split: list.splits)

section \<open>Consistent worlds\<close>

definition consistent :: "alerts_world \<Rightarrow> bool" where
  "consistent w \<longleftrightarrow>
     (\<forall>i a. map_of (w_alerts w) i = Some a \<longrightarrow> al_id a = i \<and> al_type a = Threshold) \<and>
     (\<forall>i. scheduled w i \<longleftrightarrow> (\<exists>a. map_of (w_alerts w) i = Some a \<and> al_state a \<noteq> Disabled)) \<and>
     (\<forall>i. w_store w i = map_option stored_form (map_of (w_alerts w) i))"

text \<open>The store works, every mute can be read, and the targets of the alerts are known.\<close>

definition calm :: "alert_env \<Rightarrow> alerts_world \<Rightarrow> bool" where
  "calm env w \<longleftrightarrow> put_alert_ok env \<and> delete_alert_ok env \<and> put_state_ok env \<and> delete_state_ok env \<and>
     (\<forall>i a. map_of (w_alerts w) i = Some a \<longrightarrow>
        unmute env a \<noteq> None \<and> (\<forall>t \<in> set (al_targets a). known_target env t \<noteq> None))"

lemma unmute_fields:
  "unmute env a = Some b \<Longrightarrow>
   al_id b = al_id a \<and> al_type b = al_type a \<and> al_targets b = al_targets a \<and> al_state b = al_state a"
  by (auto simp: unmute_def split: notification_state.splits if_splits option.splits)

lemma set_state_fields [simp]:
  "al_id (set_state env s a) = al_id a" "al_type (set_state env s a) = al_type a"
  "al_targets (set_state env s a) = al_targets a" "al_state (set_state env s a) = s"
  "al_notification_state (set_state env s a) = al_notification_state a"
  by (simp_all add: set_state_def)

lemma stored_form_idem [simp]: "stored_form (stored_form a) = stored_form a"
  by (simp add: stored_form_def)

lemma persist_state_ok:
  assumes "put_alert_ok env" "put_state_ok env"
  shows "\<exists>h. persist_state env a w = (w\<lparr>w_store := (w_store w)(al_id a \<mapsto> stored_form a), w_history := h\<rparr>, Inr ())"
proof -
  have "snd (put_alert_state (get_state_ok env) (put_state_ok env) (clock env) s st)" for s st
    using assms(2) by (auto simp: put_alert_state_def split: option.splits stored_history.splits prod.splits bool.splits)
  then show ?thesis using assms(1)
    by (auto simp: persist_state_def put_alert_def store_alert_state_def split: prod.splits) (metis snd_conv)
qed

lemma notify_targets_ok:
  assumes "\<forall>t \<in> set (al_targets a). known_target env t \<noteq> None"
  shows "\<exists>s out. notify_targets env a w = (w\<lparr>w_timeouts := s, w_spawned := out\<rparr>, Inr ())"
  using trigger_succeeds [OF assms, of "al_state a" "w_timeouts w (al_id a)"]
  by (cases "trigger_notifications (known_target env) (al_targets a) (al_state a) (w_timeouts w (al_id a))")
    (auto simp: notify_targets_def)

lemma alert_update_state_ok:
  assumes "put_alert_ok env" "put_state_ok env" "unmute env a \<noteq> None"
    and "\<forall>t \<in> set (al_targets a). known_target env t \<noteq> None"
  obtains w' a' where "alert_update_state env s msg a w = (w', Inr a')"
    and "al_id a' = al_id a" "al_type a' = al_type a" "al_state a' = s" "al_targets a' = al_targets a"
    and "w_alerts w' = w_alerts w" "w_queue w' = w_queue w" "w_tasks w' = w_tasks w"
    and "w_store w' = (w_store w)(al_id a \<mapsto> stored_form a')"
proof (cases "al_state a = Disabled")
  case True
  obtain h where h: "persist_state env (set_state env s a) w =
      (w\<lparr>w_store := (w_store w)(al_id a \<mapsto> stored_form (set_state env s a)), w_history := h\<rparr>, Inr ())"
    using persist_state_ok [OF assms(1,2), of "set_state env s a" w] by auto
  show ?thesis
    by (rule that [of "w\<lparr>w_store := (w_store w)(al_id a \<mapsto> stored_form (set_state env s a)), w_history := h\<rparr>"
          "set_state env s a"]) (use True h in \<open>simp_all add: alert_update_state_def Let_def\<close>)
next
  case False
  obtain b where b: "unmute env a = Some b" using assms(3) by auto
  note bf = unmute_fields [OF b]
  obtain h where p: "persist_state env (set_state env s b) w =
      (w\<lparr>w_store := (w_store w)(al_id a \<mapsto> stored_form (set_state env s b)), w_history := h\<rparr>, Inr ())"
    using persist_state_ok [OF assms(1,2), of "set_state env s b" w] bf by auto
  show ?thesis
  proof (cases "msg \<noteq> None \<and> al_notification_state b = Notify")
    case True
    obtain t out where n: "notify_targets env (set_state env s b)
        (w\<lparr>w_store := (w_store w)(al_id a \<mapsto> stored_form (set_state env s b)), w_history := h\<rparr>) =
        (w\<lparr>w_store := (w_store w)(al_id a \<mapsto> stored_form (set_state env s b)), w_history := h,
           w_timeouts := t, w_spawned := out\<rparr>, Inr ())"
      using notify_targets_ok [of "set_state env s b" env] bf assms(4) by fastforce
    show ?thesis
      by (rule that [of "w\<lparr>w_store := (w_store w)(al_id a \<mapsto> stored_form (set_state env s b)), w_history := h, w_timeouts := t, w_spawned := out\<rparr>"
            "set_state env s b"]) (use False b p n True bf in \<open>simp_all add: alert_update_state_def Let_def\<close>)
  next
    case quiet: False
    show ?thesis
      by (rule that [of "w\<lparr>w_store := (w_store w)(al_id a \<mapsto> stored_form (set_state env s b)), w_history := h\<rparr>"
            "set_state env s b"]) (use False b p quiet bf in \<open>auto simp: alert_update_state_def Let_def\<close>)
  qed
qed

section \<open>What each operation keeps\<close>

text \<open>A world after an alert has been replaced by one of the same identifier in memory and in the store.\<close>

lemma consistent_replace:
  assumes c: "consistent w" and ty: "al_type a = Threshold"
    and mem: "w_alerts w' = AList.update (al_id a) a (w_alerts w)"
    and st: "w_store w' = (w_store w)(al_id a \<mapsto> stored_form a)"
    and sch: "\<And>i. scheduled w' i \<longleftrightarrow> (if i = al_id a then al_state a \<noteq> Disabled else scheduled w i)"
  shows "consistent w'"
  using c ty unfolding consistent_def mem st sch by (auto simp: update_conv')

lemma fold_send_fields [simp]:
  "w_alerts (fold send ts w) = w_alerts w" "w_store (fold send ts w) = w_store w" "w_tasks (fold send ts w) = w_tasks w"
  "w_queue (fold send ts w) = w_queue w @ ts"
proof -
  have "w_alerts (fold send ts w) = w_alerts w \<and> w_store (fold send ts w) = w_store w \<and>
      w_tasks (fold send ts w) = w_tasks w \<and> w_queue (fold send ts w) = w_queue w @ ts"
    by (induction ts arbitrary: w) (simp_all add: send_def)
  then show "w_alerts (fold send ts w) = w_alerts w" "w_store (fold send ts w) = w_store w"
    "w_tasks (fold send ts w) = w_tasks w" "w_queue (fold send ts w) = w_queue w @ ts" by simp_all
qed

text \<open>A change of state that is allowed: what it does to the table, and that it keeps the world
  consistent. A triggered alert must not come from a disabled one.\<close>

lemma update_state_ok:
  assumes c: "consistent w" and q: "calm env w" and a: "map_of (w_alerts w) i = Some a"
    and s: "\<not> (s = Disabled \<and> al_state a = Disabled)" "\<not> (s = Triggered \<and> al_state a = Disabled)"
  obtains w' a' where "update_state env i s msg w = (w', Inr ())" and "consistent w'"
    and "w_alerts w' = AList.update i a' (w_alerts w)" "al_id a' = i" "al_state a' = s" "al_targets a' = al_targets a"
    and "w_tasks w' = w_tasks w" "al_state a \<noteq> Disabled \<Longrightarrow> s \<noteq> Disabled \<Longrightarrow> w_queue w' = w_queue w"
proof -
  define tasks where "tasks = (if s = Disabled \<and> al_state a \<noteq> Disabled then [Delete i]
         else if al_state a = Disabled \<and> s = NotTriggered then [Create a] else [])"
  have ida: "al_id a = i" "al_type a = Threshold" using c a by (auto simp: consistent_def)
  have begun: "update_state_begin i s w = Inr (a, tasks)"
    using a ida s by (simp add: update_state_begin_def get_alert_by_id_def threshold_only_def tasks_def)
  have qa: "put_alert_ok env" "put_state_ok env" "unmute env a \<noteq> None" "\<forall>t \<in> set (al_targets a). known_target env t \<noteq> None"
    using q a by (auto simp: calm_def)
  obtain w1 a' where u: "alert_update_state env s msg a (fold send tasks w) = (w1, Inr a')"
    and f: "al_id a' = i" "al_type a' = Threshold" "al_state a' = s" "al_targets a' = al_targets a"
    and w1: "w_alerts w1 = w_alerts w" "w_queue w1 = w_queue (fold send tasks w)" "w_tasks w1 = w_tasks (fold send tasks w)"
      "w_store w1 = (w_store w)(i \<mapsto> stored_form a')"
    by (rule alert_update_state_ok [OF qa, where s = s and msg = msg and w = "fold send tasks w"]) (use ida in auto)
  have sched: "scheduled w1 j = scheduled (fold send tasks w) j" for j by (rule scheduled_cong) (rule w1)+
  have "scheduled (fold send tasks w) j \<longleftrightarrow> (if j = i then s \<noteq> Disabled else scheduled w j)" for j
    using c a s ida by (cases s; cases "al_state a") (auto simp: tasks_def consistent_def)
  then have "consistent (manager_update a' w1)"
    by (intro consistent_replace [OF c f(2)]) (simp_all add: f w1 sched)
  then show ?thesis
    using w1(2) by (intro that [of "manager_update a' w1" a'])
      (simp_all add: update_state_def begun update_state_finish_def u f w1(1,3,4), simp add: tasks_def)
qed

lemma consistent_runtime: "consistent w \<Longrightarrow> consistent (runtime_step w)"
  unfolding consistent_def scheduled_runtime by (simp add: runtime_step_def split: list.splits)

lemma consistent_tasks:
  assumes "consistent w" and "\<And>i. map_of ts i \<noteq> None \<longleftrightarrow> map_of (w_tasks w) i \<noteq> None" and "w_queue w = []"
  shows "consistent (w\<lparr>w_tasks := ts\<rparr>)"
  using assms unfolding consistent_def scheduled_def drained_def by simp

section \<open>Steps\<close>

inductive alert_step :: "alerts_world \<Rightarrow> alerts_world \<Rightarrow> bool" where
  step_post: "calm env w \<Longrightarrow> map_of (w_alerts w) (fresh_id q) = None \<Longrightarrow> alert_step w (fst (post q env r w))"
| step_delete: "calm env w \<Longrightarrow> alert_step w (fst (delete_alert q env i w))"
| step_mute: "calm env w \<Longrightarrow> alert_step w (fst (mute_alert q env i s w))"
| step_disable: "calm env w \<Longrightarrow> alert_step w (fst (disable_alert q env i w))"
| step_enable: "calm env w \<Longrightarrow> alert_step w (fst (enable_alert q env i w))"
| step_modify: "calm env w \<Longrightarrow> modify_alert q env i r w = Some (w', res) \<Longrightarrow> alert_step w w'"
| step_evaluate_now: "get_state i w = Inr s \<Longrightarrow> s \<noteq> Disabled \<Longrightarrow> alert_step w (fst (evaluate_now q i w))"
| step_receive: "alert_step w (runtime_step w)"
| step_evaluate: "calm env w \<Longrightarrow> w_queue w = [] \<Longrightarrow> alert_step w (run_task env sh outcome i w)"

text \<open>Every task carries the alert of its identifier.\<close>

definition tasks_named :: "alerts_world \<Rightarrow> bool" where
  "tasks_named w \<longleftrightarrow> (\<forall>i t. map_of (w_tasks w) i = Some t \<longrightarrow> al_id (et_alert t) = i)"

lemma authorized_alert_Inr:
  "authorized_alert q i w = Inr a \<Longrightarrow> map_of (w_alerts w) i = Some a"
  by (auto simp: authorized_alert_def get_alert_by_id_def split: option.splits)

lemma post_config_fields:
  "post_config q env r = Inr a \<Longrightarrow> al_id a = fresh_id q \<and> al_state a = NotTriggered \<and> al_type a = Threshold"
  by (auto simp: post_config_def request_into_def threshold_only_def with_times_def require_def
      split: option.splits if_splits alert_type.splits)

lemma modified_config_fields:
  "modified_config q env r a = Some (Inr b) \<Longrightarrow> al_id b = al_id a \<and> al_state b = al_state a \<and> al_type b = Threshold"
  by (auto simp: modified_config_def threshold_only_def Let_def split: sum.splits if_splits alert_type.splits)

lemma put_alert_okD: "put_alert_ok env \<Longrightarrow> put_alert env a w = (w\<lparr>w_store := (w_store w)(al_id a \<mapsto> stored_form a)\<rparr>, Inr ())"
  by (simp add: put_alert_def)

lemma consistent_post:
  assumes c: "consistent w" and q: "calm env w" and new: "map_of (w_alerts w) (fresh_id q) = None"
  shows "consistent (fst (post q env r w))"
proof (cases "post_config q env r")
  case (Inl e)
  with c show ?thesis by (simp add: post_def)
next
  case (Inr a)
  note f = post_config_fields [OF Inr]
  obtain h where h: "store_alert_state env (al_id a) NotTriggered (w\<lparr>w_store := (w_store w)(al_id a \<mapsto> stored_form a)\<rparr>) =
      (w\<lparr>w_store := (w_store w)(al_id a \<mapsto> stored_form a), w_history := h\<rparr>, Inr ())"
    using persist_state_ok [of env a w] q f by (auto simp: persist_state_def put_alert_def calm_def)
  have "put_alert_ok env" using q by (simp add: calm_def)
  with h Inr have "fst (post q env r w) =
      send (Create a) (manager_update a (w\<lparr>w_store := (w_store w)(al_id a \<mapsto> stored_form a), w_history := h\<rparr>))"
    by (simp add: post_def put_alert_okD)
  then show ?thesis using c f
    by (intro consistent_replace [OF c, of a]) (auto simp: consistent_def)
qed

lemma consistent_delete: 
  assumes c: "consistent w" and q: "calm env w"
  shows "consistent (fst (delete_alert q' env i w))"
proof (cases "authorized_alert q' i w")
  case (Inl e)
  with c show ?thesis by (simp add: delete_alert_def)
next
  case (Inr a)
  have "fst (delete_alert q' env i w) =
      send (Delete i) (manager_delete i (w\<lparr>w_store := (w_store w)(i := None), w_history := (w_history w)(i := None)\<rparr>))"
    using q Inr by (simp add: delete_alert_def calm_def Let_def)
  with c show ?thesis unfolding consistent_def by (auto simp: delete_conv')
qed

lemma consistent_mute:
  assumes c: "consistent w" and q: "calm env w"
  shows "consistent (fst (mute_alert q' env i s w))"
proof (cases "bind_result (new_notification_state q' env s) (\<lambda>n. bind_result (authorized_alert q' i w) (\<lambda>_. Inr n))")
  case (Inl e)
  with c show ?thesis by (simp add: mute_alert_def)
next
  case (Inr n)
  then obtain a where au: "authorized_alert q' i w = Inr a" "new_notification_state q' env s = Inr n" by auto
  note a = authorized_alert_Inr [OF au(1)]
  define b where "b = a\<lparr>al_notification_state := n\<rparr>"
  have ty: "al_id a = i" "al_type a = Threshold" using c a by (auto simp: consistent_def)
  have "update_notification_state env i n w = (manager_update b (w\<lparr>w_store := (w_store w)(i \<mapsto> stored_form b)\<rparr>), Inr ())"
    using a ty q by (simp add: update_notification_state_def get_alert_by_id_def threshold_only_def
        alert_update_notification_state_def Let_def calm_def put_alert_okD flip: b_def) (simp add: b_def)
  with au have "fst (mute_alert q' env i s w) = manager_update b (w\<lparr>w_store := (w_store w)(i \<mapsto> stored_form b)\<rparr>)"
    by (simp add: mute_alert_def)
  then show ?thesis using c a ty
    by (intro consistent_replace [OF c, of b]) (auto simp: b_def consistent_def)
qed

lemma consistent_disable:
  assumes c: "consistent w" and q: "calm env w"
  shows "consistent (fst (disable_alert q' env i w))"
proof (cases "authorized_alert q' i w")
  case (Inl e)
  with c show ?thesis by (simp add: disable_alert_def)
next
  case (Inr a)
  note a = authorized_alert_Inr [OF Inr]
  show ?thesis
  proof (cases "al_state a = Disabled")
    case True
    have "al_type a = Threshold" using c a by (auto simp: consistent_def)
    then have "update_state env i Disabled (Some []) w = (w, Inl InvalidStateChange)"
      using a True by (simp add: update_state_def update_state_begin_def get_alert_by_id_def threshold_only_def)
    with Inr c show ?thesis by (simp add: disable_alert_def)
  next
    case False
    obtain w' where "update_state env i Disabled (Some []) w = (w', Inr ())" "consistent w'"
      by (rule update_state_ok [OF c q a, where s = Disabled]) (use False in auto)
    with Inr show ?thesis by (simp add: disable_alert_def)
  qed
qed

lemma consistent_enable:
  assumes c: "consistent w" and q: "calm env w"
  shows "consistent (fst (enable_alert q' env i w))"
proof (cases "map_of (w_alerts w) i")
  case None
  with c show ?thesis by (simp add: enable_alert_def get_alert_by_id_def)
next
  case (Some a)
  obtain w' where "update_state env i NotTriggered (Some []) w = (w', Inr ())" "consistent w'"
    by (rule update_state_ok [OF c q Some, where s = NotTriggered]) auto
  with Some c show ?thesis by (auto simp: enable_alert_def get_alert_by_id_def require_def)
qed

lemma consistent_modify:
  assumes c: "consistent w" and q: "calm env w" and m: "modify_alert q' env i r w = Some (w', res)"
  shows "consistent w'"
proof (cases "authorized_alert q' i w")
  case (Inl e)
  with c m show ?thesis by (simp add: modify_alert_def)
next
  case (Inr a)
  note a = authorized_alert_Inr [OF Inr]
  have ida: "al_id a = i" using c a by (auto simp: consistent_def)
  show ?thesis
  proof (cases "modified_config q' env r a")
    case None
    with m Inr show ?thesis by (simp add: modify_alert_def)
  next
    case (Some e)
    show ?thesis
    proof (cases e)
      case (Inl x)
      with Some m Inr \<open>authorized_alert q' i w = Inr a\<close> c show ?thesis by (simp add: modify_alert_def)
    next
      case b: (Inr b)
      note f = modified_config_fields [OF Some [unfolded b]]
      have "put_alert_ok env" using q by (simp add: calm_def)
      with m Inr Some b have w': "w' = (let w = manager_update b (manager_delete i (send (Delete i)
            (w\<lparr>w_store := (w_store w)(al_id b \<mapsto> stored_form b)\<rparr>))) in
          if al_state b \<noteq> Disabled then send (Create b) w else w)"
        by (simp add: modify_alert_def put_alert_okD Let_def split: if_splits)
      show ?thesis using c f a ida unfolding w' Let_def consistent_def
        by (auto simp: update_conv' delete_conv')
    qed
  qed
qed

lemma consistent_evaluate_now:
  assumes c: "consistent w" and s: "get_state i w = Inr s" "s \<noteq> Disabled"
  shows "consistent (fst (evaluate_now q i w))"
proof (cases "authorized_alert q i w")
  case (Inl e)
  with c show ?thesis by (simp add: evaluate_now_def)
next
  case (Inr a)
  note a = authorized_alert_Inr [OF Inr]
  with s have "al_state a \<noteq> Disabled" by (simp add: get_state_def get_alert_by_id_def)
  with c a Inr show ?thesis unfolding consistent_def by (auto simp: evaluate_now_def)
qed

text \<open>An evaluation by an alert that is not disabled.\<close>

lemma evaluate_ok:
  assumes c: "consistent w" and q: "calm env w" and a: "map_of (w_alerts w) (al_id b) = Some a" "al_state a \<noteq> Disabled"
  obtains w' r where "evaluate_alert env sh outcome b w = (w', r)" and "consistent w'"
    and "w_tasks w' = w_tasks w" "w_queue w' = w_queue w"
proof (cases outcome)
  case (Inl e)
  with c show ?thesis by (intro that [of w "Inl e"]) (simp_all add: evaluate_alert_def)
next
  case (Inr res)
  define s msg where "s = (if eval_alert sh b res = None then NotTriggered else Triggered)"
    and "msg = (case eval_alert sh b res of Some m \<Rightarrow> Some m | None \<Rightarrow> if al_state a = Triggered then Some [] else None)"
  have e: "evaluate_alert env sh outcome b w = update_state env (al_id b) s msg w"
    using Inr a by (simp add: evaluate_alert_def update_alert_state_def s_def msg_def get_state_def get_alert_by_id_def
        split: option.splits)
  have s: "s \<noteq> Disabled" by (simp add: s_def)
  show ?thesis
    by (rule update_state_ok [OF c q a(1), where s = s and msg = msg]) (use s a(2) that e in auto)
qed

lemma consistent_evaluate:
  assumes c: "consistent w" and n: "tasks_named w" and q: "calm env w" and e: "w_queue w = []"
  shows "consistent (run_task env sh outcome i w) \<and> tasks_named (run_task env sh outcome i w)"
proof (cases "map_of (w_tasks w) i")
  case None
  with c n show ?thesis by (simp add: run_task_def)
next
  case (Some t)
  show ?thesis
  proof (cases "ended t")
    case True
    with Some c n show ?thesis by (simp add: run_task_def)
  next
    case False
    have "scheduled w i" using Some e by (simp add: scheduled_def drained_def)
    then obtain a where a: "map_of (w_alerts w) i = Some a" "al_state a \<noteq> Disabled" using c by (auto simp: consistent_def)
    have id: "al_id (et_alert t) = i" using n Some by (simp add: tasks_named_def)
    obtain w' r where r: "evaluate_alert env sh outcome (et_alert t) w = (w', r)" "consistent w'"
      "w_tasks w' = w_tasks w" "w_queue w' = w_queue w"
      by (rule evaluate_ok [OF c q, of "et_alert t" a]) (use a id in auto)
    have "consistent (w'\<lparr>w_tasks := AList.update i (after_evaluation (\<not> isl r) t) (w_tasks w')\<rparr>)"
      by (rule consistent_tasks [OF r(2)]) (use Some r e in \<open>auto simp: update_conv'\<close>)
    moreover have "et_alert (after_evaluation k t) = et_alert t" for k by (simp add: after_evaluation_def Let_def)
    ultimately show ?thesis using Some False r n id
      by (auto simp: run_task_def tasks_named_def update_conv')
  qed
qed

lemma store_alert_state_tasks [simp]: "w_tasks (fst (store_alert_state env i s w)) = w_tasks w"
  by (simp add: store_alert_state_def split: prod.splits)

lemma and_then_tasks [simp]:
  "(\<And>v w. w_tasks (fst (f v w)) = w_tasks w) \<Longrightarrow> w_tasks (fst (and_then m f)) = w_tasks (fst m)"
  by (cases m) (auto simp: and_then_def split: sum.splits)

lemma put_alert_tasks [simp]: "w_tasks (fst (put_alert env a w)) = w_tasks w"
  by (simp add: put_alert_def)

lemma notify_targets_tasks [simp]: "w_tasks (fst (notify_targets env a w)) = w_tasks w"
  by (simp add: notify_targets_def split: prod.splits)

lemma persist_state_tasks [simp]: "w_tasks (fst (persist_state env a w)) = w_tasks w"
  by (simp add: persist_state_def)

lemma alert_update_state_tasks [simp]: "w_tasks (fst (alert_update_state env s m a w)) = w_tasks w"
  by (simp add: alert_update_state_def Let_def split: option.splits)

lemma update_state_tasks [simp]: "w_tasks (fst (update_state env i s m w)) = w_tasks w"
  by (simp add: update_state_def update_state_finish_def split: sum.splits prod.splits)

lemma update_notification_state_tasks [simp]: "w_tasks (fst (update_notification_state env i n w)) = w_tasks w"
  by (simp add: update_notification_state_def alert_update_notification_state_def Let_def split: sum.splits)

lemma request_tasks:
  "w_tasks (fst (post q env r w)) = w_tasks w"
  "w_tasks (fst (delete_alert q env i w)) = w_tasks w"
  "w_tasks (fst (mute_alert q env i n w)) = w_tasks w"
  "w_tasks (fst (disable_alert q env i w)) = w_tasks w"
  "w_tasks (fst (enable_alert q env i w)) = w_tasks w"
  "w_tasks (fst (evaluate_now q i w)) = w_tasks w"
  by (simp_all add: post_def delete_alert_def mute_alert_def disable_alert_def enable_alert_def evaluate_now_def
      Let_def split: sum.splits)

lemma modify_tasks: "modify_alert q env i r w = Some (w', res) \<Longrightarrow> w_tasks w' = w_tasks w"
  by (auto simp: modify_alert_def and_then_def put_alert_def Let_def split: sum.splits option.splits if_splits prod.splits)

lemma receive_named:
  "\<forall>i t. map_of ts i = Some t \<longrightarrow> al_id (et_alert t) = i \<Longrightarrow>
   map_of (receive m ts) i = Some t \<Longrightarrow> al_id (et_alert t) = i"
  by (cases m) (auto simp: update_conv' delete_conv' new_task_def split: if_splits)

lemma tasks_named_runtime: "tasks_named w \<Longrightarrow> tasks_named (runtime_step w)"
proof (cases "w_queue w")
  case (Cons m ms)
  assume "tasks_named w"
  then have n: "\<forall>i t. map_of (w_tasks w) i = Some t \<longrightarrow> al_id (et_alert t) = i" by (simp only: tasks_named_def)
  have "w_tasks (runtime_step w) = receive m (w_tasks w)" using Cons by (simp add: runtime_step_def)
  then show ?thesis unfolding tasks_named_def using receive_named [OF n] by metis
qed (simp add: runtime_step_def)

lemma step_invariant:
  assumes "alert_step w w'" and "consistent w" and "tasks_named w"
  shows "consistent w' \<and> tasks_named w'"
  using assms
proof (cases rule: alert_step.cases)
  case step_evaluate
  then show ?thesis using consistent_evaluate assms by blast
next
  case step_receive
  then show ?thesis using assms consistent_runtime tasks_named_runtime by blast
next
  case (step_modify env q i r res)
  then show ?thesis using assms consistent_modify modify_tasks by (metis tasks_named_def)
qed (use assms in \<open>simp_all add: consistent_post consistent_delete consistent_mute consistent_disable
       consistent_enable consistent_evaluate_now tasks_named_def request_tasks\<close>)

text \<open>C4: Start without alerts, and let any sequence of these steps follow: requests to create,
  delete, mute, disable, enable or modify an alert, requests to evaluate at once an alert that
  is not disabled, messages received by the runtime, and evaluations by tasks at moments when no
  message waits. Let every write to the store succeed, every new identifier be fresh, and every
  mute and target of an alert be readable. Then after each step, once the runtime has received
  the waiting messages, an alert has a task (running, or ended by repeated failures) exactly
  when it is not disabled, and the store holds exactly the alerts in memory. What the conditions
  leave out is real: evaluating a disabled alert at once starts a task for it, and an evaluation
  that overlaps a request can undo it (\<open>disable_undone\<close>).\<close>

theorem tasks_of_enabled_alerts:
  assumes "alert_step\<^sup>*\<^sup>* \<lparr>w_alerts = [], w_store = (\<lambda>_. None), w_history = (\<lambda>_. None), w_queue = [], w_tasks = [],
      w_timeouts = (\<lambda>_. default_timeout), w_spawned = []\<rparr> w"
  shows "(map_of (fold receive (w_queue w) (w_tasks w)) i \<noteq> None \<longleftrightarrow>
      (\<exists>a. map_of (w_alerts w) i = Some a \<and> al_state a \<noteq> Disabled)) \<and>
    w_store w i = map_option stored_form (map_of (w_alerts w) i)"
proof -
  have "consistent w \<and> tasks_named w"
    using assms
  proof (induction rule: rtranclp_induct)
    case base
    then show ?case by (simp add: consistent_def tasks_named_def scheduled_def drained_def)
  next
    case (step w w')
    then show ?case using step_invariant by blast
  qed
  then show ?thesis by (auto simp: consistent_def scheduled_def drained_def)
qed

section \<open>The loop of a task\<close>

definition after_evaluations :: "bool list \<Rightarrow> eval_task \<Rightarrow> eval_task" where
  "after_evaluations rs t = fold after_evaluation rs t"

abbreviation failures :: "nat \<Rightarrow> bool list" where
  "failures n \<equiv> replicate n False"

lemma ended_stays: "ended t \<Longrightarrow> fold after_evaluation rs t = t"
  by (induction rs) (simp_all add: after_evaluation_def)

lemma sublist_failures_Cons:
  "sublist (failures (Suc n)) (r # rs) \<longleftrightarrow> \<not> r \<and> prefix (failures n) rs \<or> sublist (failures (Suc n)) rs"
  by (auto simp: sublist_Cons_right)

lemma ended_iff:
  assumes "\<not> ended t" "retry_counter t \<le> 3"
  shows "ended (fold after_evaluation rs t) \<longleftrightarrow>
    prefix (failures (4 - retry_counter t)) rs \<or> sublist (failures 4) rs"
  using assms
proof (induction rs arbitrary: t)
  case Nil
  then show ?case by simp
next
  case (Cons r rs)
  have four: "failures 4 = False # failures 3" by (simp add: numeral_eq_Suc)
  have sub: "sublist (failures 4) (r # rs) \<longleftrightarrow> \<not> r \<and> prefix (failures 3) rs \<or> sublist (failures 4) rs"
    unfolding four by (auto simp: sublist_Cons_right)
  have weaker: "prefix (failures 4) rs \<longrightarrow> sublist (failures 4) rs" by (auto intro: prefix_imp_sublist)
  obtain n where n: "4 - retry_counter t = Suc n" "n \<le> 3" using Cons.prems(2) by (cases "4 - retry_counter t") auto
  have short: "prefix (failures 3) rs \<longrightarrow> prefix (failures n) rs"
  proof
    assume p: "prefix (failures 3) rs"
    have "failures 3 = failures n @ failures (3 - n)" using n(2) by (simp flip: replicate_add)
    with p show "prefix (failures n) rs" by (metis append_prefixD)
  qed
  show ?case
  proof (cases r)
    case True
    then have "fold after_evaluation (r # rs) t = fold after_evaluation rs (t\<lparr>retry_counter := 0\<rparr>)"
      using Cons.prems by (simp add: after_evaluation_def)
    with Cons.IH [of "t\<lparr>retry_counter := 0\<rparr>"] Cons.prems True n sub weaker show ?thesis by auto
  next
    case False
    define t' where "t' = t\<lparr>sleep_duration := 1, retry_counter := retry_counter t + 1\<rparr>"
    show ?thesis
    proof (cases "retry_counter t = 3")
      case True
      then have "n = 0" using n by simp
      moreover have "ended (fold after_evaluation (r # rs) t)"
        using True Cons.prems False by (simp add: after_evaluation_def Let_def ended_stays)
      ultimately show ?thesis using False n by simp
    next
      case less: False
      have "fold after_evaluation (r # rs) t = fold after_evaluation rs t'"
        using less Cons.prems False by (simp add: after_evaluation_def Let_def t'_def)
      moreover have "4 - retry_counter t' = n" "retry_counter t' \<le> 3" "\<not> ended t'"
        using less Cons.prems n by (simp_all add: t'_def)
      ultimately show ?thesis using Cons.IH [of t'] False n sub short by auto
    qed
  qed
qed

lemma sleep_after:
  "sleep_duration (fold after_evaluation rs t) = (if ended t \<or> list_all id rs then sleep_duration t else 1)"
proof (induction rs arbitrary: t)
  case Nil
  then show ?case by simp
next
  case (Cons r rs)
  show ?case using Cons [of "after_evaluation r t"]
    by (cases "ended t"; cases r) (auto simp: after_evaluation_def Let_def ended_stays split: if_splits)
qed

text \<open>C32: The loop of a task ends exactly when four evaluations in a row have failed. Between evaluations it
  sleeps for the frequency of its alert until one fails, and from then on for one minute, however
  many succeed afterwards.\<close>

theorem task_loop:
  "(ended (after_evaluations rs (new_task a)) \<longleftrightarrow> sublist (failures 4) rs) \<and>
   sleep_duration (after_evaluations rs (new_task a)) = (if list_all id rs then get_eval_frequency a else 1)"
proof -
  have "prefix (failures 4) rs \<longrightarrow> sublist (failures 4) rs" by (auto intro: prefix_imp_sublist)
  then show ?thesis
    using ended_iff [of "new_task a" rs] by (auto simp: after_evaluations_def new_task_def sleep_after)
qed

section \<open>Evaluations that overlap a request\<close>

lemma disable_effect:
  assumes c: "consistent w" and q: "calm env w" and a: "map_of (w_alerts w) i = Some a" "al_state a \<noteq> Disabled"
    and auth: "authorized q (al_query a)"
  obtains w' a' where "disable_alert q env i w = (w', Inr a')" "consistent w'"
    "map_of (w_alerts w') i = Some a'" "al_state a' = Disabled" "al_targets a' = al_targets a" "w_tasks w' = w_tasks w"
proof -
  obtain w' a' where u: "update_state env i Disabled (Some []) w = (w', Inr ())" "consistent w'"
    "w_alerts w' = AList.update i a' (w_alerts w)" "al_id a' = i" "al_state a' = Disabled" "al_targets a' = al_targets a"
    "w_tasks w' = w_tasks w"
    by (rule update_state_ok [OF c q a(1), where s = Disabled and msg = "Some []"]) (use a(2) in auto)
  have m: "map_of (w_alerts w') i = Some a'" by (simp add: u(3) update_conv')
  have "disable_alert q env i w = (w', Inr a')"
    using u(1) m a auth by (simp add: disable_alert_def authorized_alert_def get_alert_by_id_def require_def)
  with that u m show ?thesis by blast
qed

text \<open>An alert that is disabled while its task evaluates it is enabled again when the evaluation finds
  nothing: the task asks for the state \<open>not-triggered\<close>, which of a disabled alert starts a new
  task.\<close>

theorem disable_undone:
  assumes "consistent w" and "calm env w" and "map_of (w_alerts w) i = Some a" and "al_state a \<noteq> Disabled"
    and "authorized q (al_query a)" and "disable_alert q env i w = (w1, Inr a1)" and "calm env w1"
    and "map_of (w_tasks w) i = Some t" and "\<not> ended t" and "al_id (et_alert t) = i"
    and "eval_alert sh (et_alert t) res = None"
  shows "al_state a1 = Disabled \<and>
    (\<exists>a2. map_of (w_alerts (run_task env sh (Inr res) i w1)) i = Some a2 \<and> al_state a2 = NotTriggered) \<and>
    map_of (fold receive (w_queue (run_task env sh (Inr res) i w1)) (w_tasks (run_task env sh (Inr res) i w1))) i \<noteq> None"
proof -
  obtain w' a' where d: "disable_alert q env i w = (w', Inr a')" "consistent w'"
    "map_of (w_alerts w') i = Some a'" "al_state a' = Disabled" "w_tasks w' = w_tasks w"
    by (rule disable_effect [OF assms(1-5)])
  have same: "w1 = w'" "a1 = a'" using d(1) assms(6) by simp_all
  have s: "\<not> (NotTriggered = Disabled \<and> al_state a1 = Disabled)" "\<not> (NotTriggered = Triggered \<and> al_state a1 = Disabled)" by simp_all
  obtain w2 a2 where u: "update_state env i NotTriggered None w1 = (w2, Inr ())" "consistent w2"
    "w_alerts w2 = AList.update i a2 (w_alerts w1)" "al_id a2 = i" "al_state a2 = NotTriggered" "w_tasks w2 = w_tasks w1"
    by (rule update_state_ok [OF d(2) [folded same] assms(7) d(3) [folded same] s, where msg = None])
  have "evaluate_alert env sh (Inr res) (et_alert t) w1 = (w2, Inr ())"
    using assms(10,11) d(3,4) u(1) same
    by (simp add: evaluate_alert_def update_alert_state_def get_state_def get_alert_by_id_def)
  then have r: "run_task env sh (Inr res) i w1 = w2\<lparr>w_tasks := AList.update i (after_evaluation True t) (w_tasks w2)\<rparr>"
    using assms(8,9) d(5) same by (simp add: run_task_def)
  have "map_of (w_alerts w2) i = Some a2" by (simp add: u(3) update_conv')
  moreover have "map_of (fold receive (w_queue w2) ts) i \<noteq> None" for ts
  proof -
    have start: "\<exists>qs. w_queue w2 = qs @ [Create a1]"
    proof -
      have "update_state_begin i NotTriggered w1 = Inr (a1, [Create a1])"
        using d(2-4) same by (auto simp: update_state_begin_def get_alert_by_id_def threshold_only_def consistent_def)
      with u(1) have "update_state_finish env NotTriggered None (a1, [Create a1]) w1 = (w2, Inr ())"
        by (simp add: update_state_def)
      then show ?thesis
        using d(4) same by (auto simp: update_state_finish_def alert_update_state_def Let_def send_def persist_state_def
            put_alert_def store_alert_state_def and_then_def manager_update_def split: if_splits prod.splits sum.splits)
    qed
    moreover have "al_id a1 = i" using d(2,3) same by (auto simp: consistent_def)
    ultimately obtain qs where qs: "w_queue w2 = qs @ [Create a1]" "al_id a1 = i" by blast
    show ?thesis unfolding qs(1) fold_append comp_apply fold.simps id_apply lookup_receive(1)
      using qs(2) by simp
  qed
  ultimately show ?thesis using r d(4) same u(5) by (auto simp: update_conv')
qed

text \<open>A change of state that has read an alert before a request deletes it, and that is finished after
  it, brings the alert back in memory and in the store: the deletion was reported as done.\<close>

theorem deleted_alert_returns:
  assumes "update_state_begin i s w = Inr (a, tasks)" and "al_id a = i"
    and "delete_alert q env i w = (w1, Inr ())"
    and "put_alert_ok env" "put_state_ok env" "unmute env a \<noteq> None" "\<forall>t \<in> set (al_targets a). known_target env t \<noteq> None"
  shows "map_of (w_alerts w1) i = None \<and> w_store w1 i = None \<and>
    map_of (w_alerts (fst (update_state_finish env s msg (a, tasks) w1))) i \<noteq> None \<and>
    w_store (fst (update_state_finish env s msg (a, tasks) w1)) i \<noteq> None"
proof -
  obtain w2 a' where u: "alert_update_state env s msg a (fold send tasks w1) = (w2, Inr a')" "al_id a' = al_id a"
    "w_store w2 = (w_store (fold send tasks w1))(al_id a \<mapsto> stored_form a')"
    by (rule alert_update_state_ok [OF assms(4-7), where s = s and msg = msg and w = "fold send tasks w1"])
  have "update_state_finish env s msg (a, tasks) w1 = (manager_update a' w2, Inr ())"
    by (simp add: update_state_finish_def u(1))
  moreover have "map_of (w_alerts w1) i = None" "w_store w1 i = None"
    using assms(3) by (auto simp: delete_alert_def Let_def delete_conv' split: sum.splits if_splits)
  ultimately show ?thesis using u(2,3) assms(2) by (simp add: update_conv')
qed

section \<open>A store that fails\<close>

text \<open>When the store fails while an alert is disabled, the request fails and the alert stays as it was,
  but its task is gone: it is never evaluated again, and it cannot be enabled, as it is not disabled.\<close>

theorem failed_disable_stops_task:
  assumes "consistent w" and "map_of (w_alerts w) i = Some a" and "al_state a \<noteq> Disabled"
    and "authorized q (al_query a)" and "unmute env a \<noteq> None" and "\<not> put_alert_ok env"
  shows "(\<exists>e. snd (disable_alert q env i w) = Inl e) \<and>
    map_of (w_alerts (fst (disable_alert q env i w))) i = Some a \<and>
    map_of (fold receive (w_queue (fst (disable_alert q env i w))) (w_tasks (fst (disable_alert q env i w)))) i = None \<and>
    snd (enable_alert q env' i (fst (disable_alert q env i w))) = Inl InvalidStateChange"
proof -
  obtain b where b: "unmute env a = Some b" using assms(5) by auto
  have ty: "al_type a = Threshold" using assms(1,2) by (auto simp: consistent_def)
  have "alert_update_state env Disabled (Some []) a (send (Delete i) w) = (send (Delete i) w, Inl StoreFailure)"
    using assms(3,6) b by (simp add: alert_update_state_def Let_def persist_state_def put_alert_def)
  then have "update_state env i Disabled (Some []) w = (send (Delete i) w, Inl StoreFailure)"
    using assms(2,3) ty by (simp add: update_state_def update_state_begin_def get_alert_by_id_def threshold_only_def
        update_state_finish_def)
  then have "disable_alert q env i w = (send (Delete i) w, Inl StoreFailure)"
    using assms(2,4) by (simp add: disable_alert_def authorized_alert_def get_alert_by_id_def require_def)
  moreover have "map_of (fold receive (w_queue (send (Delete i) w)) (w_tasks (send (Delete i) w))) i = None"
    using scheduled_send(2) [of i w i] by (simp add: scheduled_def drained_def)
  ultimately show ?thesis
    using assms(2,3) by (simp add: enable_alert_def get_alert_by_id_def require_def)
qed

section \<open>Requests that the checks let through\<close>

text \<open>The repetitions of a notification are over before the next evaluation: for every alert that a
  request creates, one interval less than the number of repetitions takes less time than the
  frequency of its evaluation, and there is at least one.\<close>

theorem repetitions_fit:
  assumes "post_config q env r = Inr a"
  shows "\<exists>n. times (al_notification_config a) = Finite n \<and> 0 < n \<and>
    n * interval (al_notification_config a) \<le> get_eval_frequency a \<and>
    (n - 1) * interval (al_notification_config a) < get_eval_frequency a"
proof -
  obtain b where b: "interval (al_notification_config b) \<le> get_eval_frequency b" "get_eval_frequency b \<noteq> 0"
      "interval (al_notification_config b) \<noteq> 0" "a = with_times b"
    using assms by (auto simp: post_config_def require_def threshold_only_def split: if_splits alert_type.splits)
  define n where "n = notification_times (get_eval_frequency b) (interval (al_notification_config b))"
  have "0 < n" by (simp add: n_def notification_times_def)
  moreover have "n = get_eval_frequency b div interval (al_notification_config b)"
    using b(1,3) by (auto simp: n_def notification_times_def div_eq_0_iff)
  then have le: "n * interval (al_notification_config b) \<le> get_eval_frequency b" by simp
  moreover have "(n - 1) * interval (al_notification_config b) < get_eval_frequency b"
  proof (cases n)
    case (Suc m)
    with le b(3) show ?thesis by simp
  qed (use b(2) in simp)
  ultimately show ?thesis using b(4)
    by (simp add: with_times_def n_def get_eval_frequency_def)
qed

text \<open>To modify an alert with a notification interval of zero, which creating one refuses, divides by
  zero.\<close>

theorem modify_divides_by_zero:
  assumes "map_of (w_alerts w) i = Some a" and "authorized q (al_query a)"
    and "request_into (resolve_stream_names q) (known_target env) (fresh_id q) (clock env) r = Inr new"
    and "al_type new = al_type a" and "authorized q (al_query new)"
    and "interval (ar_notification_config r) = 0" and "eval_frequency (ar_eval_config r) \<noteq> 0"
  shows "modify_alert q env i r w = None \<and>
    snd (post q env r w) = Inl (ValidationFailure ''Notification interval cannot be 0'')"
proof -
  have f: "al_notification_config new = ar_notification_config r" "al_eval new = ar_eval_config r"
    using assms(3) by (auto simp: request_into_def split: option.splits if_splits)
  have "modified_config q env r a = None"
    using assms(3-6) f by (simp add: modified_config_def require_def)
  then have "modify_alert q env i r w = None"
    using assms(1,2) by (simp add: modify_alert_def authorized_alert_def get_alert_by_id_def require_def)
  moreover have "post_config q env r = Inl (ValidationFailure ''Notification interval cannot be 0'')"
    using assms(3,6,7) f by (simp add: post_config_def require_def get_eval_frequency_def)
  ultimately show ?thesis by (simp add: post_def)
qed

text \<open>To evaluate a disabled alert at once gives it a task again, although it stays disabled.\<close>

theorem evaluate_now_restarts:
  assumes "map_of (w_alerts w) i = Some a" and "al_id a = i" and "authorized q (al_query a)" and "al_state a = Disabled"
  shows "map_of (fold receive (w_queue (fst (evaluate_now q i w))) (w_tasks (fst (evaluate_now q i w)))) i \<noteq> None \<and>
    get_state i (fst (evaluate_now q i w)) = Inr Disabled"
proof -
  have "evaluate_now q i w = (send (Create a) (send (Delete i) w), Inr a)"
    using assms(1,3) by (simp add: evaluate_now_def authorized_alert_def get_alert_by_id_def require_def)
  moreover have "scheduled (send (Create a) (send (Delete i) w)) i" using assms(2) by simp
  ultimately show ?thesis using assms(1,4)
    by (simp add: scheduled_def drained_def get_state_def get_alert_by_id_def)
qed

section \<open>Muting\<close>

text \<open>While a mute lasts, no evaluation of the alert calls a target; the first change of state after it
  ends lifts it and notifies again. (A time is read back from the text that was written of it.)\<close>

theorem mute_honoured:
  assumes "read_time env (to_rfc3339 q till) = Some till" and "to_rfc3339 q till \<noteq> ''indefinite''"
    and "al_notification_state a = Mute (to_rfc3339 q till)" and "al_state a \<noteq> Disabled"
    and "alert_update_state env s msg a w = (w', Inr a')"
  shows "(clock env \<le> till \<longrightarrow> w_spawned w' = w_spawned w \<and> al_notification_state a' = al_notification_state a) \<and>
    (till < clock env \<longrightarrow> al_notification_state a' = Notify)"
proof -
  have u: "unmute env a = Some (if clock env > till then a\<lparr>al_notification_state := Notify\<rparr> else a)"
    using assms(1-3) by (simp add: unmute_def)
  have persist: "w_spawned (fst (persist_state env b v)) = w_spawned v" for b v
    by (simp add: persist_state_def put_alert_def store_alert_state_def and_then_def split: prod.splits)
  show ?thesis
  proof (cases "clock env > till")
    case True
    with u assms(4,5) show ?thesis
      by (auto simp: alert_update_state_def Let_def and_then_def split: prod.splits sum.splits if_splits)
  next
    case False
    obtain w1 r where p: "persist_state env (set_state env s a) w = (w1, r)" by fastforce
    with persist [of "set_state env s a" w] have "w_spawned w1 = w_spawned w" by simp
    with False u p assms(3-5) show ?thesis
      by (auto simp: alert_update_state_def Let_def and_then_def split: sum.splits)
  qed
qed

section \<open>Restarting\<close>

lemma load_all:
  assumes "\<forall>a \<in> set as. al_type a = Threshold" and "distinct (map al_id as)"
  shows "\<exists>w'. load (map Some as) w = (w', True) \<and>
    (\<forall>i. map_of (w_alerts w') i = (case map_of (map (\<lambda>a. (al_id a, a)) as) i of Some a \<Rightarrow> Some a | None \<Rightarrow> map_of (w_alerts w) i)) \<and>
    (\<forall>i. scheduled w' i \<longleftrightarrow> scheduled w i \<or> (\<exists>a \<in> set as. al_id a = i \<and> al_state a \<noteq> Disabled))"
  using assms
proof (induction as arbitrary: w)
  case Nil
  then show ?case by simp
next
  case (Cons a as)
  define w1 where "w1 = (if al_state a = Disabled then manager_update a w else manager_update a (send (Create a) w))"
  obtain w' where w': "load (map Some as) w1 = (w', True)"
    "\<forall>i. map_of (w_alerts w') i = (case map_of (map (\<lambda>a. (al_id a, a)) as) i of Some a \<Rightarrow> Some a | None \<Rightarrow> map_of (w_alerts w1) i)"
    "\<forall>i. scheduled w' i \<longleftrightarrow> scheduled w1 i \<or> (\<exists>a \<in> set as. al_id a = i \<and> al_state a \<noteq> Disabled)"
    using Cons.IH [of w1] Cons.prems by auto
  have "load (map Some (a # as)) w = (w', True)" using w'(1) Cons.prems by (simp add: w1_def split: if_splits)
  moreover have "map_of (map (\<lambda>a. (al_id a, a)) as) (al_id a) = None"
    using Cons.prems(2) by (auto simp: map_of_eq_None_iff image_image)
  then have "\<forall>i. map_of (w_alerts w') i = (case map_of (map (\<lambda>a. (al_id a, a)) (a # as)) i of Some a \<Rightarrow> Some a | None \<Rightarrow> map_of (w_alerts w) i)"
    using w'(2) by (auto simp: w1_def update_conv' split: option.splits)
  moreover have "\<forall>i. scheduled w' i \<longleftrightarrow> scheduled w i \<or> (\<exists>a \<in> set (a # as). al_id a = i \<and> al_state a \<noteq> Disabled)"
    using w'(3) by (auto simp: w1_def)
  ultimately show ?case by blast
qed

definition restarted :: "alerts_world \<Rightarrow> alerts_world" where
  "restarted w = w\<lparr>w_alerts := [], w_queue := [], w_tasks := [], w_timeouts := (\<lambda>_. default_timeout), w_spawned := []\<rparr>"

text \<open>A server that loads the stored alerts has every alert it had before, in its state and with a task
  unless it is disabled, but with a single notification in place of the repetitions it was given.\<close>

theorem restart_restores_alerts:
  assumes "consistent w" and "distinct (map al_id as)"
    and "\<forall>i. w_store w i = map_of (map (\<lambda>a. (al_id a, a)) as) i"
  shows "\<exists>w'. load (map Some as) (restarted w) = (w', True) \<and>
    map_of (w_alerts w') i = map_option stored_form (map_of (w_alerts w) i) \<and>
    (map_of (fold receive (w_queue w') (w_tasks w')) i \<noteq> None \<longleftrightarrow>
      (\<exists>a. map_of (w_alerts w) i = Some a \<and> al_state a \<noteq> Disabled))"
proof -
  have store: "map_of (map (\<lambda>a. (al_id a, a)) as) i = map_option stored_form (map_of (w_alerts w) i)" for i
    using assms(1,3) by (simp add: consistent_def)
  have mem: "a \<in> set as \<and> al_id a = i \<longleftrightarrow> map_of (map (\<lambda>a. (al_id a, a)) as) i = Some a" for a i
    using assms(2) by (subst map_of_eq_Some_iff) (auto simp: comp_def)
  have ty: "al_type a = Threshold" if "a \<in> set as" for a
  proof -
    from mem [of a "al_id a"] that store [of "al_id a"] obtain b where
      "map_of (w_alerts w) (al_id a) = Some b" "a = stored_form b" by auto
    with assms(1) show ?thesis by (auto simp: consistent_def stored_form_def)
  qed
  obtain w' where w': "load (map Some as) (restarted w) = (w', True)"
    "\<forall>i. map_of (w_alerts w') i = (case map_of (map (\<lambda>a. (al_id a, a)) as) i of Some a \<Rightarrow> Some a | None \<Rightarrow> map_of (w_alerts (restarted w)) i)"
    "\<forall>i. scheduled w' i \<longleftrightarrow> scheduled (restarted w) i \<or> (\<exists>a \<in> set as. al_id a = i \<and> al_state a \<noteq> Disabled)"
    using load_all [of as "restarted w"] ty assms(2) by blast
  have "map_of (w_alerts w') i = map_option stored_form (map_of (w_alerts w) i)"
    using w'(2) store [of i] by (auto simp: restarted_def split: option.splits)
  moreover have "\<not> scheduled (restarted w) i" by (simp add: scheduled_def drained_def restarted_def)
  moreover have "(\<exists>a \<in> set as. al_id a = i \<and> al_state a \<noteq> Disabled) \<longleftrightarrow>
      (\<exists>a. map_of (w_alerts w) i = Some a \<and> al_state a \<noteq> Disabled)"
  proof -
    have "(\<exists>a \<in> set as. al_id a = i \<and> al_state a \<noteq> Disabled) \<longleftrightarrow>
        (\<exists>a. map_option stored_form (map_of (w_alerts w) i) = Some a \<and> al_state a \<noteq> Disabled)"
      unfolding store [symmetric] mem [symmetric] by blast
    then show ?thesis by (auto simp: stored_form_def)
  qed
  ultimately show ?thesis using w'(1,3) by (auto simp: scheduled_def drained_def)
qed

section \<open>Concrete worlds\<close>

definition env0 :: alert_env where
  "env0 = \<lparr>clock = 100, put_alert_ok = True, delete_alert_ok = True, get_state_ok = True, put_state_ok = True,
     delete_state_ok = True, read_time = (\<lambda>_. Some 50), known_target = (\<lambda>_. None)\<rparr>"

definition req0 :: request_env where
  "req0 = \<lparr>authorized = (\<lambda>_. True), resolve_stream_names = (\<lambda>_. Inr [''s'']), streams_exist = (\<lambda>_. True),
     get_number_of_agg_exprs = (\<lambda>_. Inr 1), human_duration_ok = (\<lambda>_. True), human_duration_of = (\<lambda>_. None),
     to_rfc3339 = (\<lambda>_. ''then''), fresh_id = 7\<rparr>"

definition empty_world :: alerts_world where
  "empty_world = \<lparr>w_alerts = [], w_store = (\<lambda>_. None), w_history = (\<lambda>_. None), w_queue = [], w_tasks = [],
      w_timeouts = (\<lambda>_. default_timeout), w_spawned = []\<rparr>"

definition alert0 :: alert_config where
  "alert0 = \<lparr>al_version = V2, al_id = 7, al_severity = High, al_title = ''t'', al_query = ''q'', al_datasets = [''s''],
     al_type = Threshold, al_threshold = \<lparr>th_operator = GreaterThan, th_value = 1\<rparr>,
     al_eval = \<lparr>eval_start = ''10m'', eval_end = ''now'', eval_frequency = 10\<rparr>, al_targets = [],
     al_state = NotTriggered, al_notification_state = Notify,
     al_notification_config = \<lparr>interval = 1, times = Finite 10\<rparr>, al_created = 100, al_tags = None,
     al_last_triggered_at = None, al_other_fields = None\<rparr>"

definition world0 :: alerts_world where
  "world0 = empty_world\<lparr>w_alerts := [(7, alert0)], w_store := [7 \<mapsto> stored_form alert0], w_tasks := [(7, new_task alert0)]\<rparr>"

definition request0 :: alert_request where
  "request0 = \<lparr>ar_severity = High, ar_title = ''t'', ar_query = ''q'', ar_alert_type = ''threshold'',
     ar_anomaly_config = None, ar_forecast_config = None,
     ar_threshold_config = \<lparr>th_operator = GreaterThan, th_value = 1\<rparr>,
     ar_notification_config = default_notification_config,
     ar_eval_config = \<lparr>eval_start = ''10m'', eval_end = ''now'', eval_frequency = 10\<rparr>,
     ar_targets = [], ar_tags = None, ar_other_fields = None\<rparr>"

lemma request0_into: "request_into (\<lambda>_. Inr [''s'']) (\<lambda>_. None) 7 100 request0 =
    Inr (alert0\<lparr>al_notification_config := default_notification_config\<rparr>)"
  by (simp add: request_into_def request0_def check_other_fields_def request_alert_type_def alert0_def alert_version_from_def)

lemma post_config0: "post_config req0 env0 request0 = Inr alert0"
proof -
  have "with_times (alert0\<lparr>al_notification_config := default_notification_config\<rparr>) = alert0"
    by (simp add: with_times_def alert0_def default_notification_config_def get_eval_frequency_def notification_times_def)
  moreover have "validate req0 alert0 = Inr ()"
    by (simp add: validate_def require_def req0_def alert0_def repeats_too_long_def get_eval_frequency_def)
  moreover have "threshold_only alert0 = Inr alert0" by (simp add: threshold_only_def alert0_def)
  moreover have "get_eval_frequency (alert0\<lparr>al_notification_config := default_notification_config\<rparr>) = 10"
    by (simp add: get_eval_frequency_def alert0_def)
  ultimately show ?thesis
    by (simp add: post_config_def require_def request0_into req0_def env0_def) (simp add: default_notification_config_def)
qed

lemma world0_ok: "consistent world0" "tasks_named world0" "calm env0 world0"
  by (auto simp: consistent_def tasks_named_def calm_def world0_def empty_world_def scheduled_def drained_def
      alert0_def new_task_def env0_def unmute_def stored_form_def)

theorem tasks_of_enabled_alerts_witness:
  "w_store (fst (post req0 env0 request0 empty_world)) 7 =
    map_option stored_form (map_of (w_alerts (fst (post req0 env0 request0 empty_world))) 7)"
proof -
  have "alert_step empty_world (fst (post req0 env0 request0 empty_world))"
    by (rule step_post) (simp_all add: calm_def env0_def empty_world_def)
  then have "alert_step\<^sup>*\<^sup>* empty_world (fst (post req0 env0 request0 empty_world))" by blast
  then show ?thesis
    unfolding empty_world_def using tasks_of_enabled_alerts [where i = 7] by blast
qed

definition show0 :: message_show where
  "show0 = \<lparr>ms_alert = sample_show, ms_real = (\<lambda>_. ''1''), ms_clock = ''now''\<rparr>"

theorem disable_undone_witness:
  "\<exists>a2. map_of (w_alerts (run_task env0 show0 (Inr \<lparr>qr_groups = [], is_simple_query = True\<rparr>) 7
      (fst (disable_alert req0 env0 7 world0)))) 7 = Some a2 \<and> al_state a2 = NotTriggered"
proof -
  have a: "map_of (w_alerts world0) 7 = Some alert0" by (simp add: world0_def)
  obtain w1 a1 where d: "disable_alert req0 env0 7 world0 = (w1, Inr a1)" "consistent w1"
    "map_of (w_alerts w1) 7 = Some a1" "al_targets a1 = al_targets alert0"
    by (rule disable_effect [OF world0_ok(1,3) a, where q = req0]) (simp_all add: alert0_def req0_def)
  have alerts: "w_alerts w1 = [(7, a1)]"
  proof -
    have "w_alerts (fst (disable_alert req0 env0 7 world0)) = [(7, alert0\<lparr>al_state := Disabled\<rparr>)]"
      by (simp add: disable_alert_def authorized_alert_def get_alert_by_id_def require_def req0_def world0_def
          update_state_def update_state_begin_def threshold_only_def alert0_def update_state_finish_def
          alert_update_state_def unmute_def Let_def persist_state_def put_alert_def env0_def store_alert_state_def
          put_alert_state_def empty_world_def send_def notify_targets_def set_state_def manager_update_def)
    with d(1,3) show ?thesis by simp
  qed
  have "calm env0 w1"
    by (auto simp: calm_def alerts env0_def unmute_def d(4) alert0_def split: notification_state.splits)
  moreover have "al_state alert0 \<noteq> Disabled" "authorized req0 (al_query alert0)" by (simp_all add: alert0_def req0_def)
  moreover have "map_of (w_tasks world0) 7 = Some (new_task alert0)" "\<not> ended (new_task alert0)"
    by (simp_all add: world0_def new_task_def)
  moreover have "al_id (et_alert (new_task alert0)) = 7"
      "eval_alert show0 (et_alert (new_task alert0)) \<lparr>qr_groups = [], is_simple_query = True\<rparr> = None"
    by (simp_all add: new_task_def alert0_def eval_alert_def breaches_def get_single_value_def)
  ultimately show ?thesis
    unfolding d(1) fst_conv using disable_undone [OF world0_ok(1,3) a _ _ d(1)] by blast
qed

theorem deleted_alert_returns_witness:
  "map_of (w_alerts (fst (update_state_finish env0 Triggered None (alert0, [])
      (fst (delete_alert req0 env0 7 world0))))) 7 \<noteq> None"
  using deleted_alert_returns [of 7 Triggered world0 alert0 "[]" req0 env0 "fst (delete_alert req0 env0 7 world0)" None]
  by (simp add: update_state_begin_def get_alert_by_id_def world0_def threshold_only_def alert0_def delete_alert_def
      authorized_alert_def require_def req0_def env0_def Let_def unmute_def)

theorem failed_disable_stops_task_witness:
  "snd (enable_alert req0 env0 7 (fst (disable_alert req0 (env0\<lparr>put_alert_ok := False\<rparr>) 7 world0))) = Inl InvalidStateChange"
proof -
  have a: "map_of (w_alerts world0) 7 = Some alert0" by (simp add: world0_def)
  show ?thesis
    using failed_disable_stops_task [OF world0_ok(1) a, where env = "env0\<lparr>put_alert_ok := False\<rparr>" and q = req0 and env' = env0]
    by (simp add: alert0_def req0_def env0_def unmute_def)
qed

theorem repetitions_fit_witness: "\<exists>n. times (al_notification_config alert0) = Finite n \<and> n * 1 \<le> 10"
  using repetitions_fit [OF post_config0] by (auto simp: alert0_def get_eval_frequency_def)

theorem modify_divides_by_zero_witness:
  "modify_alert req0 env0 7 (request0\<lparr>ar_notification_config := \<lparr>interval = 0, times = Finite 1\<rparr>\<rparr>) world0 = None"
proof -
  have "request_into (\<lambda>_. Inr [''s'']) (\<lambda>_. None) 7 100 (request0\<lparr>ar_notification_config := \<lparr>interval = 0, times = Finite 1\<rparr>\<rparr>) =
      Inr (alert0\<lparr>al_notification_config := \<lparr>interval = 0, times = Finite 1\<rparr>\<rparr>)"
    by (simp add: request_into_def request0_def check_other_fields_def request_alert_type_def alert0_def alert_version_from_def)
  note r = this
  have "modify_alert req0 env0 7 (request0\<lparr>ar_notification_config := \<lparr>interval = 0, times = Finite 1\<rparr>\<rparr>) world0 = None \<and>
      snd (post req0 env0 (request0\<lparr>ar_notification_config := \<lparr>interval = 0, times = Finite 1\<rparr>\<rparr>) world0) =
        Inl (ValidationFailure ''Notification interval cannot be 0'')"
    by (rule modify_divides_by_zero [of world0 7 alert0 req0 env0 _ "alert0\<lparr>al_notification_config := \<lparr>interval = 0, times = Finite 1\<rparr>\<rparr>"],
        simp add: world0_def, simp add: req0_def, simp add: req0_def env0_def r [simplified], simp, simp add: req0_def,
        simp, simp add: request0_def)
  then show ?thesis by blast
qed

theorem evaluate_now_restarts_witness:
  "get_state 7 (fst (evaluate_now req0 7 (world0\<lparr>w_alerts := [(7, alert0\<lparr>al_state := Disabled\<rparr>)]\<rparr>))) = Inr Disabled"
  using evaluate_now_restarts [of "world0\<lparr>w_alerts := [(7, alert0\<lparr>al_state := Disabled\<rparr>)]\<rparr>" 7 "alert0\<lparr>al_state := Disabled\<rparr>" req0]
  by (simp add: alert0_def req0_def)

theorem mute_honoured_witness:
  "\<exists>w' a'. alert_update_state env0 Triggered (Some []) (alert0\<lparr>al_notification_state := Mute ''then''\<rparr>) world0 = (w', Inr a') \<and>
    al_notification_state a' = Notify"
proof -
  obtain w' a' where u: "alert_update_state env0 Triggered (Some []) (alert0\<lparr>al_notification_state := Mute ''then''\<rparr>) world0 = (w', Inr a')"
    by (rule alert_update_state_ok [of env0 "alert0\<lparr>al_notification_state := Mute ''then''\<rparr>", where s = Triggered and msg = "Some []" and w = world0])
      (simp_all add: env0_def unmute_def alert0_def)
  from mute_honoured [where env = env0 and q = req0 and till = 50, OF _ _ _ _ u] u show ?thesis
    by (simp add: env0_def req0_def alert0_def)
qed

theorem restart_restores_alerts_witness:
  "\<exists>w'. load [Some (stored_form alert0)] (restarted world0) = (w', True) \<and> map_of (w_alerts w') 7 = Some (stored_form alert0)"
  using restart_restores_alerts [OF world0_ok(1), of "[stored_form alert0]" 7]
  by (auto simp: world0_def stored_form_def alert0_def)

end
