(* ===== verification/Event_Format.thy ===== *)
theory Event_Format
  imports Event_Schema
begin

text \<open>
  From JSON to record batches (\<open>src/event/format/json.rs\<close> and \<open>mod.rs\<close>): the keys are renamed and
  collected, the schema is taken from the stream or inferred, each value is checked against its field,
  and the decoded batch gets the server's own columns. Arrow's inference, merge and decoder, the
  parsers of dates and the text of numbers are fields of \<open>event_env\<close>. A panic is \<open>None\<close>.
\<close>

datatype event_error =
    KeyCollision string string
  | CouldNotInfer
  | CouldNotMerge
  | DatatypeMismatch
  | ReservedField string
  | SchemaMismatch
  | DecodeFailed
  | BatchFailed
  | MissingTimeField string
  | InvalidTimeField

record 'a event_env =
  infer_json_schema :: "json list \<Rightarrow> field list option"
  try_merge :: "field list \<Rightarrow> field list \<Rightarrow> field list option"
  decode_columns :: "json list \<Rightarrow> field list \<Rightarrow> 'a column list option"
  rfc3339_ok :: "string \<Rightarrow> bool"
  rfc2822_ok :: "string \<Rightarrow> bool"
  date_ok :: "string \<Rightarrow> bool"
  json_datetime :: "json \<Rightarrow> int option"
  show_number :: "jnumber \<Rightarrow> string"

section \<open>Names\<close>

definition normalize_field_name :: "string \<Rightarrow> string" where
  "normalize_field_name n = (case strip_prefix ''@'' n of Some s \<Rightarrow> ''_'' @ s | None \<Rightarrow> n)"

definition collect_map :: "(string \<times> 'v) list \<Rightarrow> (string \<times> 'v) list" where
  "collect_map kvs = fold (\<lambda>(k, v). AList.update k v) kvs []"

definition rename_object :: "jobject \<Rightarrow> event_error + jobject" where
  "rename_object m =
     (case find (\<lambda>k. prefix ''@'' k \<and> normalize_field_name k \<in> set (keys_of m)) (keys_of m) of
        Some k \<Rightarrow> Inl (KeyCollision k (normalize_field_name k))
      | None \<Rightarrow> Inr (collect_map (map (\<lambda>(k, v). (if prefix ''@'' k then normalize_field_name k else k, v)) m)))"

definition rename_json_keys :: "json list \<Rightarrow> event_error + json list" where
  "rename_json_keys = map_result (\<lambda>v.
     case v of JObject m \<Rightarrow> bind_result (rename_object m) (\<lambda>m'. Inr (JObject m')) | _ \<Rightarrow> Inr v)"

text \<open>\<open>binary_search\<close> on the sorted keys found so far, and the insertion at the position it gives.\<close>

definition insert_key :: "string \<Rightarrow> string list \<Rightarrow> string list" where
  "insert_key k keys =
     (if k \<in> set keys then keys
      else takeWhile (\<lambda>x. x < k) keys @ k # dropWhile (\<lambda>x. x < k) keys)"

fun collect_keys_from :: "json list \<Rightarrow> string list \<Rightarrow> string list option" where
  "collect_keys_from [] keys = Some keys"
| "collect_keys_from (v # vs) keys =
     (case as_object v of
        Some m \<Rightarrow> collect_keys_from vs (fold insert_key (keys_of m) keys)
      | None \<Rightarrow> None)"

definition collect_keys :: "json list \<Rightarrow> string list option" where
  "collect_keys vs = collect_keys_from vs []"

definition derive_arrow_schema :: "stream_schema \<Rightarrow> string list \<Rightarrow> field list option" where
  "derive_arrow_schema schema names = those (map (map_of schema) names)"

section \<open>The types of values\<close>

definition split_sign :: "string \<Rightarrow> bool \<times> string" where
  "split_sign s = (case s of c # s' \<Rightarrow> if c = CHR ''-'' then (True, s') else if c = CHR ''+'' then (False, s') else (False, s)
                   | [] \<Rightarrow> (False, s))"

text \<open>\<open>str::parse::<i64>\<close> and \<open>str::parse::<f64>\<close> of the standard library: what they accept.\<close>

definition parses_i64 :: "string \<Rightarrow> bool" where
  "parses_i64 s = (case split_sign s of (neg, s') \<Rightarrow>
     (case read_digits s' of None \<Rightarrow> False | Some n \<Rightarrow> if neg then n \<le> 2 ^ 63 else n < 2 ^ 63))"

definition parses_decimal :: "string \<Rightarrow> bool" where
  "parses_decimal s =
     (case split_on CHR ''.'' s of
        [i] \<Rightarrow> i \<noteq> [] \<and> list_all is_ascii_digit i
      | [i, f] \<Rightarrow> (i \<noteq> [] \<or> f \<noteq> []) \<and> list_all is_ascii_digit (i @ f)
      | _ \<Rightarrow> False)"

definition parses_f64 :: "string \<Rightarrow> bool" where
  "parses_f64 s =
     (let t = to_lowercase (snd (split_sign s)) in
      t \<in> {''inf'', ''infinity'', ''nan''} \<or>
      (case split_on CHR ''e'' t of
         [d] \<Rightarrow> parses_decimal d
       | [d, e] \<Rightarrow> parses_decimal d \<and> (let x = snd (split_sign e) in x \<noteq> [] \<and> list_all is_ascii_digit x)
       | _ \<Rightarrow> False))"

definition validate_int :: "json \<Rightarrow> bool \<Rightarrow> bool" where
  "validate_int v static =
     (case (static, v) of (True, JString s) \<Rightarrow> parses_i64 (trim s) | _ \<Rightarrow> is_i64 v)"

definition validate_float :: "json \<Rightarrow> schema_version \<Rightarrow> bool \<Rightarrow> bool" where
  "validate_float v version static =
     (if static then (case v of JString s \<Rightarrow> parses_f64 (trim s) \<or> parses_i64 (trim s) | _ \<Rightarrow> is_number v)
      else case version of V1 \<Rightarrow> is_number v | _ \<Rightarrow> is_f64 v)"

text \<open>\<open>valid_type\<close> with \<open>validate_list\<close> and \<open>validate_struct\<close>.\<close>

fun valid_type :: "'a event_env \<Rightarrow> schema_version \<Rightarrow> bool \<Rightarrow> data_type \<Rightarrow> json \<Rightarrow> bool"
  and validate_list :: "'a event_env \<Rightarrow> schema_version \<Rightarrow> bool \<Rightarrow> field \<Rightarrow> json \<Rightarrow> bool"
  and validate_struct :: "'a event_env \<Rightarrow> schema_version \<Rightarrow> bool \<Rightarrow> field list \<Rightarrow> json \<Rightarrow> bool" where
  "valid_type env ver static t v =
     (case t of
        BooleanType \<Rightarrow> is_boolean v
      | Int8 \<Rightarrow> validate_int v static
      | Int16 \<Rightarrow> validate_int v static
      | Int32 \<Rightarrow> validate_int v static
      | Int64 \<Rightarrow> validate_int v static
      | UInt8 \<Rightarrow> is_u64 v
      | UInt16 \<Rightarrow> is_u64 v
      | UInt32 \<Rightarrow> is_u64 v
      | UInt64 \<Rightarrow> is_u64 v
      | Float16 \<Rightarrow> is_f64 v
      | Float32 \<Rightarrow> is_f64 v
      | Float64 \<Rightarrow> validate_float v ver static
      | Utf8 \<Rightarrow> is_string v
      | ListType f \<Rightarrow> validate_list env ver static f v
      | StructType fs \<Rightarrow> validate_struct env ver static fs v
      | Date32 \<Rightarrow> (case v of JString s \<Rightarrow> date_ok env s | _ \<Rightarrow> False)
      | Timestamp _ _ \<Rightarrow> is_string v \<or> is_number v
      | _ \<Rightarrow> False)"
| "validate_list env ver static f v =
     (case v of
        JArray vs \<Rightarrow> (\<forall>e \<in> set vs. is_null e \<or> valid_type env ver static (field_type f) e)
      | _ \<Rightarrow> True)"
| "validate_struct env ver static fs v =
     (case v of
        JObject m \<Rightarrow> (\<forall>kv \<in> set m.
          case find (\<lambda>f. field_name f = fst kv) fs of
            Some f \<Rightarrow> is_null (snd kv) \<or> valid_type env ver static (field_type f) (snd kv)
          | None \<Rightarrow> False)
      | _ \<Rightarrow> False)"

declare valid_type.simps [simp del] validate_list.simps [simp del] validate_struct.simps [simp del]

definition fields_mismatch :: "'a event_env \<Rightarrow> field list \<Rightarrow> jobject \<Rightarrow> schema_version \<Rightarrow> bool \<Rightarrow> bool" where
  "fields_mismatch env schema m ver static =
     list_ex (\<lambda>(k, v). \<not> is_null v \<and>
       (case get_field schema k of None \<Rightarrow> True | Some f \<Rightarrow> \<not> valid_type env ver static (field_type f) v)) m"

section \<open>The type of a field\<close>

definition time_field_name_parts :: "string list" where
  "time_field_name_parts = [''time'', ''date'', ''timestamp'', ''created'', ''received'', ''ingested'',
     ''collected'', ''start'', ''end'', ''ts'', ''dt'']"

definition time_like :: "string \<Rightarrow> bool" where
  "time_like n = list_ex (\<lambda>part. contains_str part (to_lowercase n)) time_field_name_parts"

definition override_field :: "'a event_env \<Rightarrow> jobject \<Rightarrow> schema_version \<Rightarrow> field \<Rightarrow> field" where
  "override_field env m ver f =
     (let n = normalize_field_name (field_name f) in
      case (ver, map_of m (field_name f)) of
        (V1, Some (JString s)) \<Rightarrow>
          if time_like n \<and> field_type f = Utf8 \<and> (rfc3339_ok env s \<or> rfc2822_ok env s)
          then Field n timestamp_millis True else Field n (field_type f) True
      | (V1, Some (JNumber x)) \<Rightarrow>
          if is_numeric (field_type f) then Field n Float64 True else Field n (field_type f) True
      | _ \<Rightarrow> Field n (field_type f) True)"

definition override_data_type :: "'a event_env \<Rightarrow> field list \<Rightarrow> json \<Rightarrow> schema_version \<Rightarrow> field list" where
  "override_data_type env schema v ver =
     (case v of JObject m \<Rightarrow> map (override_field env m ver) schema | _ \<Rightarrow> schema)"

definition get_existing_field_names :: "field list \<Rightarrow> stream_schema option \<Rightarrow> string set" where
  "get_existing_field_names inferred existing =
     (case existing of None \<Rightarrow> {} | Some e \<Rightarrow> {n \<in> field_name ` set inferred. map_of e n \<noteq> None})"

definition override_existing_timestamp_fields :: "stream_schema \<Rightarrow> field list \<Rightarrow> field list" where
  "override_existing_timestamp_fields existing inferred =
     (let names = field_name ` {f \<in> snd ` set existing. field_type f = timestamp_millis} in
      map (\<lambda>f. if field_name f \<in> names then Field (field_name f) timestamp_millis (is_nullable f) else f) inferred)"

definition time_partition_field :: "string \<Rightarrow> string set \<Rightarrow> field \<Rightarrow> field" where
  "time_partition_field tp existing f =
     (if field_name f = tp \<and> field_name f \<notin> existing \<and> field_type f = Utf8
      then Field (field_name f) timestamp_millis True
      else Field (field_name f) (field_type f) True)"

definition update_field_type_in_schema ::
  "'a event_env \<Rightarrow> field list \<Rightarrow> stream_schema option \<Rightarrow> string option \<Rightarrow> json list option
   \<Rightarrow> schema_version \<Rightarrow> field list" where
  "update_field_type_in_schema env inferred existing time_partition records ver =
     (let names = get_existing_field_names inferred existing;
          s1 = (case existing of Some e \<Rightarrow> override_existing_timestamp_fields e inferred | None \<Rightarrow> inferred);
          s2 = (case records of
                  Some vs \<Rightarrow> foldl (\<lambda>s v. override_data_type env s v ver) s1 vs
                | None \<Rightarrow> s1)
      in case time_partition of None \<Rightarrow> s2 | Some tp \<Rightarrow> map (time_partition_field tp names) s2)"

section \<open>From an event to a batch\<close>

definition event_rows :: "json \<Rightarrow> json list option" where
  "event_rows v = (case v of JArray vs \<Rightarrow> Some vs | JObject m \<Rightarrow> Some [JObject m] | _ \<Rightarrow> None)"

definition infer_event_schema ::
  "'a event_env \<Rightarrow> stream_schema \<Rightarrow> string option \<Rightarrow> schema_version \<Rightarrow> json list \<Rightarrow> event_error + field list" where
  "infer_event_schema env schema time_partition ver rows =
     (case infer_json_schema env rows of
        None \<Rightarrow> Inl CouldNotInfer
      | Some inferred \<Rightarrow>
          let fs = update_field_type_in_schema env inferred (Some schema) time_partition (Some rows) ver in
          (case try_merge env (map snd schema) fs of
             None \<Rightarrow> Inl CouldNotMerge
           | Some _ \<Rightarrow> Inr (sort_key field_name (filter (\<lambda>f. field_type f \<noteq> NullType) fs))))"

fun object_of :: "json \<Rightarrow> jobject" where
  "object_of (JObject m) = m"
| "object_of _ = []"

definition to_data ::
  "'a event_env \<Rightarrow> json \<Rightarrow> stream_schema \<Rightarrow> string option \<Rightarrow> schema_version \<Rightarrow> bool
   \<Rightarrow> (event_error + (json list \<times> field list \<times> bool)) option" where
  "to_data env v schema time_partition ver static =
     (case event_rows v of
        None \<Rightarrow> None
      | Some rows \<Rightarrow>
          (case rename_json_keys rows of
             Inl e \<Rightarrow> Some (Inl e)
           | Inr rows' \<Rightarrow>
               (case collect_keys rows' of
                  None \<Rightarrow> None
                | Some names \<Rightarrow>
                    Some (bind_result
                      (case derive_arrow_schema schema names of
                         Some fs \<Rightarrow> Inr (fs, False)
                       | None \<Rightarrow> bind_result (infer_event_schema env schema time_partition ver rows')
                           (\<lambda>fs. Inr (fs, True)))
                      (\<lambda>(fs, first).
                         if list_ex (\<lambda>r. fields_mismatch env fs (object_of r) ver static) rows'
                         then Inl DatatypeMismatch
                         else Inr (rows', fs, first))))))"

definition is_schema_matching :: "field list \<Rightarrow> stream_schema \<Rightarrow> bool \<Rightarrow> bool" where
  "is_schema_matching fs schema static =
     (\<not> static \<or> list_all (\<lambda>f. case map_of schema (field_name f) of
        None \<Rightarrow> False
      | Some g \<Rightarrow> field_name f = field_name g \<and> field_type f = field_type g) fs)"

definition decode :: "'a event_env \<Rightarrow> json list \<Rightarrow> field list \<Rightarrow> event_error + 'a record_batch" where
  "decode env rows fs =
     (case decode_columns env rows fs of
        None \<Rightarrow> Inl DecodeFailed
      | Some cs \<Rightarrow> Inr \<lparr>rb_schema = fs, rb_columns = cs\<rparr>)"

definition into_recordbatch ::
  "'a event_env \<Rightarrow> json \<Rightarrow> int \<Rightarrow> stream_schema \<Rightarrow> bool \<Rightarrow> string option \<Rightarrow> schema_version
   \<Rightarrow> (string \<times> string) list \<Rightarrow> (event_error + ('a record_batch \<times> bool)) option" where
  "into_recordbatch env v p_timestamp schema static time_partition ver custom =
     map_option (\<lambda>r. bind_result r (\<lambda>(rows, fs, first).
       if get_field fs default_timestamp_key \<noteq> None then Inl (ReservedField default_timestamp_key)
       else if \<not> is_schema_matching fs schema static then Inl SchemaMismatch
       else bind_result (decode env rows (update_field_type_in_schema env fs None time_partition None ver))
         (\<lambda>rb. case add_parseable_fields rb p_timestamp custom of
            None \<Rightarrow> Inl BatchFailed | Some rb' \<Rightarrow> Inr (rb', first))))
     (to_data env v schema time_partition ver static)"

definition show_bool :: "bool \<Rightarrow> string" where
  "show_bool b = (if b then ''true'' else ''false'')"

text \<open>The values of the custom partition fields; a missing field is a panic.\<close>

definition partition_text :: "'a event_env \<Rightarrow> json \<Rightarrow> string" where
  "partition_text env v = (case v of
      JNumber n \<Rightarrow> show_number env n | JBool b \<Rightarrow> show_bool b | JString s \<Rightarrow> s | _ \<Rightarrow> '''')"

fun extract_custom_partition_values ::
  "'a event_env \<Rightarrow> json \<Rightarrow> string list \<Rightarrow> (string \<times> string) list \<Rightarrow> (string \<times> string) list option" where
  "extract_custom_partition_values env v [] acc = Some acc"
| "extract_custom_partition_values env v (p # ps) acc =
     (case json_get v (trim p) of
        None \<Rightarrow> None
      | Some w \<Rightarrow> extract_custom_partition_values env v ps (AList.update (trim p) (partition_text env w) acc))"

definition extract_and_parse_time :: "'a event_env \<Rightarrow> json \<Rightarrow> string \<Rightarrow> event_error + int" where
  "extract_and_parse_time env v time_partition =
     (case json_get v time_partition of
        None \<Rightarrow> Inl (MissingTimeField time_partition)
      | Some w \<Rightarrow> (case json_datetime env w of None \<Rightarrow> Inl InvalidTimeField | Some t \<Rightarrow> Inr t))"

record 'a event =
  ev_stream :: string
  ev_rb :: "'a record_batch"
  ev_origin_size :: u64
  ev_is_first :: bool
  ev_parsed_timestamp :: int
  ev_time_partition :: "string option"
  ev_custom_partition_values :: "(string \<times> string) list"

definition into_event ::
  "'a event_env \<Rightarrow> json \<Rightarrow> int \<Rightarrow> string \<Rightarrow> u64 \<Rightarrow> stream_schema \<Rightarrow> bool \<Rightarrow> string option \<Rightarrow> string option
   \<Rightarrow> schema_version \<Rightarrow> (string \<times> string) list \<Rightarrow> (event_error + 'a event) option" where
  "into_event env v p_timestamp stream origin_size schema static custom_partitions time_partition ver custom =
     (case (case custom_partitions of
              Some cp \<Rightarrow> extract_custom_partition_values env v (split_on CHR '','' cp) []
            | None \<Rightarrow> Some []) of
        None \<Rightarrow> None
      | Some partition_values \<Rightarrow>
          (case (case time_partition of
                   Some tp \<Rightarrow> extract_and_parse_time env v tp
                 | None \<Rightarrow> Inr p_timestamp) of
             Inl e \<Rightarrow> Some (Inl e)
           | Inr parsed \<Rightarrow>
               map_option (\<lambda>r. bind_result r (\<lambda>(rb, first).
                 Inr \<lparr>ev_stream = stream, ev_rb = rb, ev_origin_size = origin_size, ev_is_first = first,
                      ev_parsed_timestamp = parsed, ev_time_partition = None,
                      ev_custom_partition_values = partition_values\<rparr>))
               (into_recordbatch env v p_timestamp schema static time_partition ver custom)))"

section \<open>The schema of the stream\<close>

text \<open>\<open>commit_schema\<close> on the stream's schema: the merge of the fields it has with those of the batch.\<close>

definition commit_schema :: "'a event_env \<Rightarrow> stream_schema \<Rightarrow> field list \<Rightarrow> stream_schema option" where
  "commit_schema env schema fs =
     map_option (\<lambda>gs. collect_map (map (\<lambda>f. (field_name f, f)) gs)) (try_merge env (map snd schema) fs)"

section \<open>Facts about names\<close>

lemma normalize_simps [simp]:
  "normalize_field_name (CHR ''@'' # s) = CHR ''_'' # s"
  "c \<noteq> CHR ''@'' \<Longrightarrow> normalize_field_name (c # s) = c # s"
  "normalize_field_name [] = []"
  by (auto simp: normalize_field_name_def strip_prefix_def)

lemma prefix_at: "prefix ''@'' k \<longleftrightarrow> (\<exists>s. k = CHR ''@'' # s)"
  by (cases k) auto

lemma normalize_no_at: "\<not> prefix ''@'' k \<Longrightarrow> normalize_field_name k = k"
  by (auto simp: normalize_field_name_def strip_prefix_def)

lemma normalize_not_at: "\<not> prefix ''@'' (normalize_field_name k)"
  by (cases k) (auto simp: normalize_field_name_def strip_prefix_def)

definition collision_free :: "jobject \<Rightarrow> bool" where
  "collision_free m \<longleftrightarrow> (\<forall>s. CHR ''@'' # s \<in> set (keys_of m) \<longrightarrow> CHR ''_'' # s \<notin> set (keys_of m))"

lemma at_free:
  "(\<forall>k \<in> K. \<not> (prefix ''@'' k \<and> normalize_field_name k \<in> K)) \<longleftrightarrow>
   (\<forall>s. CHR ''@'' # s \<in> K \<longrightarrow> CHR ''_'' # s \<notin> K)"
  by (auto simp: prefix_at)

lemma normalize_inj_on_set:
  assumes "\<forall>s. CHR ''@'' # s \<in> K \<longrightarrow> CHR ''_'' # s \<notin> K"
  shows "inj_on normalize_field_name K"
proof (rule inj_onI)
  fix a b
  assume a: "a \<in> K" and b: "b \<in> K" and eq: "normalize_field_name a = normalize_field_name b"
  from assms a b eq show "a = b"
    by (cases "prefix ''@'' a"; cases "prefix ''@'' b") (auto simp: prefix_at normalize_no_at)
qed

lemma normalize_inj_on: "collision_free m \<Longrightarrow> inj_on normalize_field_name (set (keys_of m))"
  unfolding collision_free_def by (rule normalize_inj_on_set)

lemma collect_map_distinct: "distinct_keys kvs \<Longrightarrow> collect_map kvs = kvs"
proof -
  have "distinct_keys (acc @ kvs) \<Longrightarrow> fold (\<lambda>(k, v). AList.update k v) kvs acc = acc @ kvs" for acc
  proof (induction kvs arbitrary: acc)
    case Nil
    then show ?case by simp
  next
    case (Cons kv kvs)
    then show ?case by (cases kv) (simp add: AList_update_fresh)
  qed
  from this [of "[]"] show "distinct_keys kvs \<Longrightarrow> collect_map kvs = kvs" by (simp add: collect_map_def)
qed

definition renamed :: "jobject \<Rightarrow> jobject" where
  "renamed m = map (\<lambda>(k, v). (normalize_field_name k, v)) m"

lemma keys_renamed [simp]: "keys_of (renamed m) = map normalize_field_name (keys_of m)"
  by (simp add: renamed_def case_prod_unfold)

lemma rename_object_result:
  assumes "distinct_keys m"
  shows "rename_object m = Inr m' \<longleftrightarrow> collision_free m \<and> m' = renamed m"
proof -
  have free: "find (\<lambda>k. prefix ''@'' k \<and> normalize_field_name k \<in> set (keys_of m)) (keys_of m) = None
      \<longleftrightarrow> collision_free m"
    unfolding find_None_iff collision_free_def at_free [symmetric] by blast
  have same: "map (\<lambda>(k, v). (if prefix ''@'' k then normalize_field_name k else k, v)) m = renamed m"
    by (auto simp: renamed_def normalize_no_at)
  have "collect_map (renamed m) = renamed m" if "collision_free m"
    using assms normalize_inj_on [OF that] by (intro collect_map_distinct) (simp add: distinct_map comp_inj_on)
  with free show ?thesis unfolding rename_object_def same by (cases "collision_free m") (auto split: option.splits)
qed

lemma rename_keys_result:
  assumes "\<forall>m \<in> set ms. distinct_keys m"
  shows "rename_json_keys (map JObject ms) = Inr rows \<longleftrightarrow>
    (\<forall>m \<in> set ms. collision_free m) \<and> rows = map (JObject \<circ> renamed) ms"
proof -
  have "list_all2 (\<lambda>v r. (case v of JObject m \<Rightarrow> bind_result (rename_object m) (\<lambda>m'. Inr (JObject m'))
      | _ \<Rightarrow> Inr v) = Inr r) (map JObject ms) rows \<longleftrightarrow>
    (\<forall>m \<in> set ms. collision_free m) \<and> rows = map (JObject \<circ> renamed) ms"
    using assms
  proof (induction ms arbitrary: rows)
    case Nil
    then show ?case by auto
  next
    case (Cons m ms)
    then show ?case by (cases rows) (auto simp: rename_object_result)
  qed
  then show ?thesis by (simp add: rename_json_keys_def map_result_Inr_iff)
qed

text \<open>The keys of an event can be renamed exactly when no object has both a key that starts with
  \<open>@\<close> and the same key with \<open>_\<close> in its place; then every object keeps its values under the new names,
  in order, and no key starts with \<open>@\<close> any more.\<close>

theorem rename_keys_exact:
  assumes "\<forall>m \<in> set ms. distinct_keys m"
  shows "rename_json_keys (map JObject ms) = Inr rows \<longleftrightarrow>
    (\<forall>m \<in> set ms. collision_free m) \<and> rows = map (JObject \<circ> renamed) ms"
  using assms by (rule rename_keys_result)

theorem rename_keys_exact_witness:
  "rename_json_keys (map JObject [[(''@a'', JNull), (''b'', JNull)]]) = Inr [JObject [(''_a'', JNull), (''b'', JNull)]]"
  by (subst rename_keys_exact) (auto simp: collision_free_def renamed_def)

lemma sorted_insert_key:
  assumes "sorted_wrt (<) keys"
  shows "sorted_wrt (<) (insert_key k keys) \<and> set (insert_key k keys) = insert k (set keys)"
proof (cases "k \<in> set keys")
  case True
  with assms show ?thesis by (auto simp: insert_key_def)
next
  case False
  let ?lo = "takeWhile (\<lambda>x. x < k) keys" and ?hi = "dropWhile (\<lambda>x. x < k) keys"
  have split: "keys = ?lo @ ?hi" by simp
  have lo: "\<forall>x \<in> set ?lo. x < k" by (auto dest: set_takeWhileD)
  have s: "sorted_wrt (<) ?lo" "sorted_wrt (<) ?hi"
    using assms split by (metis sorted_wrt_append)+
  have hi: "\<forall>x \<in> set ?hi. k < x"
  proof (cases ?hi)
    case Nil
    then show ?thesis by (metis empty_iff list.set(1))
  next
    case (Cons y ys)
    then have "\<not> y < k" by (metis hd_dropWhile list.distinct(1) list.sel(1))
    moreover have "y \<noteq> k" using False Cons by (metis list.set_intros(1) set_dropWhileD)
    ultimately have "k < y" by simp
    with s(2) Cons show ?thesis by auto
  qed
  have "sorted_wrt (<) (?lo @ k # ?hi)"
    using s lo hi by (auto simp: sorted_wrt_append intro: less_trans)
  moreover have "set (?lo @ k # ?hi) = insert k (set keys)"
    using split by (metis Un_insert_right list.simps(15) set_append)
  ultimately show ?thesis using False by (simp add: insert_key_def)
qed

lemma sorted_fold_insert_key:
  "sorted_wrt (<) keys \<Longrightarrow>
   sorted_wrt (<) (fold insert_key ks keys) \<and> set (fold insert_key ks keys) = set ks \<union> set keys"
proof (induction ks arbitrary: keys)
  case Nil
  then show ?case by simp
next
  case (Cons k ks)
  from sorted_insert_key [OF Cons.prems, of k] Cons.IH [of "insert_key k keys"] show ?case by auto
qed

lemma collect_keys_from_result:
  "sorted_wrt (<) keys \<Longrightarrow> collect_keys_from (map JObject ms) keys = Some ks \<Longrightarrow>
   sorted_wrt (<) ks \<and> set ks = set keys \<union> (\<Union>m \<in> set ms. set (keys_of m))"
proof (induction ms arbitrary: keys)
  case Nil
  then show ?case by simp
next
  case (Cons m ms)
  from Cons.IH [of "fold insert_key (keys_of m) keys"] Cons.prems
    sorted_fold_insert_key [OF Cons.prems(1), of "keys_of m"]
  show ?case by auto
qed

lemma collect_keys_objects: "collect_keys_from vs keys = Some ks \<Longrightarrow> \<exists>ms. vs = map JObject ms"
proof (induction vs arbitrary: keys)
  case Nil
  then show ?case by simp
next
  case (Cons v vs)
  then show ?case
    by (cases v) (auto, metis list.simps(9))
qed

lemma collect_keys_result:
  assumes "collect_keys vs = Some ks"
  shows "\<exists>ms. vs = map JObject ms \<and> sorted_wrt (<) ks \<and> set ks = (\<Union>m \<in> set ms. set (keys_of m))"
proof -
  from assms obtain ms where "vs = map JObject ms"
    unfolding collect_keys_def by (meson collect_keys_objects)
  with collect_keys_from_result [of "[]" ms ks] assms show ?thesis by (auto simp: collect_keys_def)
qed

section \<open>What an accepted event satisfies\<close>

text \<open>In the schema of a stream every field is stored under its own name.\<close>

definition schema_wf :: "stream_schema \<Rightarrow> bool" where
  "schema_wf schema \<longleftrightarrow> distinct_keys schema \<and> (\<forall>(k, f) \<in> set schema. field_name f = k)"

lemma schema_wf_name: "schema_wf schema \<Longrightarrow> map_of schema k = Some f \<Longrightarrow> field_name f = k"
  unfolding schema_wf_def using map_of_SomeD by fast

lemma derive_arrow_schema_result:
  "derive_arrow_schema schema ks = Some fs \<longleftrightarrow> map (map_of schema) ks = map Some fs"
  by (auto simp: derive_arrow_schema_def those_eq_Some)

lemma derived_names:
  assumes "schema_wf schema" and "map (map_of schema) ks = map Some fs"
  shows "map field_name fs = ks"
  using assms(2)
proof (induction ks arbitrary: fs)
  case Nil
  then show ?case by simp
next
  case (Cons k ks)
  then obtain f gs where "fs = f # gs" "map_of schema k = Some f" "map (map_of schema) ks = map Some gs" by auto
  with Cons.IH schema_wf_name [OF assms(1)] show ?case by simp
qed

lemma derive_arrow_schema_None:
  "derive_arrow_schema schema ks = None \<longleftrightarrow> (\<exists>k \<in> set ks. map_of schema k = None)"
proof -
  have "those xs = None \<longleftrightarrow> None \<in> set xs" for xs :: "field option list"
    by (induction xs) (auto split: option.splits)
  then show ?thesis by (auto simp: derive_arrow_schema_def image_iff dest: sym)
qed

definition valid_row :: "'a event_env \<Rightarrow> field list \<Rightarrow> schema_version \<Rightarrow> bool \<Rightarrow> jobject \<Rightarrow> bool" where
  "valid_row env fs ver static m \<longleftrightarrow>
     (\<forall>(k, v) \<in> set m. v \<noteq> JNull \<longrightarrow> (\<exists>f. get_field fs k = Some f \<and> valid_type env ver static (field_type f) v))"

lemma fields_mismatch_valid: "\<not> fields_mismatch env fs m ver static \<longleftrightarrow> valid_row env fs ver static m"
  unfolding fields_mismatch_def valid_row_def
  by (auto simp: list_ex_iff is_null_iff case_prod_unfold split: option.splits)

lemma to_data_cases:
  assumes "to_data env v schema tp ver static = Some (Inr (rows, fs, first))"
  obtains vs ms ks where "event_rows v = Some vs" "rename_json_keys vs = Inr rows" "rows = map JObject ms"
    "sorted_wrt (<) ks" "set ks = (\<Union>m \<in> set ms. set (keys_of m))"
    "\<forall>m \<in> set ms. valid_row env fs ver static m"
    "\<not> first \<longrightarrow> map (map_of schema) ks = map Some fs"
    "first \<longrightarrow> (\<exists>k \<in> set ks. map_of schema k = None) \<and> infer_event_schema env schema tp ver rows = Inr fs"
proof -
  from assms obtain vs where vs: "event_rows v = Some vs" "rename_json_keys vs = Inr rows"
    by (auto simp: to_data_def split: option.splits sum.splits if_splits)
  with assms obtain ks where ks: "collect_keys rows = Some ks"
    by (auto simp: to_data_def split: option.splits)
  with assms vs have r: "bind_result
      (case derive_arrow_schema schema ks of Some fs \<Rightarrow> Inr (fs, False)
       | None \<Rightarrow> bind_result (infer_event_schema env schema tp ver rows) (\<lambda>fs. Inr (fs, True)))
      (\<lambda>(fs, first). if list_ex (\<lambda>r. fields_mismatch env fs (object_of r) ver static) rows
         then Inl DatatypeMismatch else Inr (rows, fs, first)) = Inr (rows, fs, first)"
    by (simp add: to_data_def)
  then have src: "(case derive_arrow_schema schema ks of Some fs \<Rightarrow> Inr (fs, False)
       | None \<Rightarrow> bind_result (infer_event_schema env schema tp ver rows) (\<lambda>fs. Inr (fs, True))) = Inr (fs, first)"
    and ok: "\<not> list_ex (\<lambda>r. fields_mismatch env fs (object_of r) ver static) rows"
    by (auto split: if_splits prod.splits)
  from collect_keys_result [OF ks] obtain ms where ms: "rows = map JObject ms" "sorted_wrt (<) ks"
    "set ks = (\<Union>m \<in> set ms. set (keys_of m))" by blast
  have "\<forall>m \<in> set ms. valid_row env fs ver static m"
    using ok ms(1) by (auto simp: list_ex_iff fields_mismatch_valid [symmetric])
  moreover have "\<not> first \<longrightarrow> map (map_of schema) ks = map Some fs"
    using src by (auto simp: derive_arrow_schema_result [symmetric] split: option.splits)
  moreover have "first \<longrightarrow> (\<exists>k \<in> set ks. map_of schema k = None) \<and> infer_event_schema env schema tp ver rows = Inr fs"
    using src derive_arrow_schema_None [of schema ks] by (auto split: option.splits)
  ultimately show thesis using that vs ms by blast
qed

lemma infer_event_schema_sorted:
  "infer_event_schema env schema tp ver rows = Inr fs \<Longrightarrow> sorted (map field_name fs)"
  by (auto simp: infer_event_schema_def Let_def split: option.splits)

lemma to_data_typed:
  assumes "to_data env v schema tp ver static = Some (Inr (rows, fs, first))" and "schema_wf schema"
  shows "sorted (map field_name fs) \<and>
    (\<forall>r \<in> set rows. \<exists>m. r = JObject m \<and> valid_row env fs ver static m) \<and>
    (first \<longleftrightarrow> (\<exists>m. JObject m \<in> set rows \<and> (\<exists>k \<in> set (keys_of m). map_of schema k = None))) \<and>
    (\<not> first \<longrightarrow> (\<forall>f \<in> set fs. map_of schema (field_name f) = Some f))"
proof -
  from assms(1) obtain ms ks where d: "rows = map JObject ms" "sorted_wrt (<) ks"
    "set ks = (\<Union>m \<in> set ms. set (keys_of m))" "\<forall>m \<in> set ms. valid_row env fs ver static m"
    and known: "\<not> first \<longrightarrow> map (map_of schema) ks = map Some fs"
    and fresh: "first \<longrightarrow> (\<exists>k \<in> set ks. map_of schema k = None) \<and> infer_event_schema env schema tp ver rows = Inr fs"
    by (rule to_data_cases) blast
  have "sorted (map field_name fs)"
  proof (cases first)
    case True
    with fresh show ?thesis by (blast intro: infer_event_schema_sorted)
  next
    case False
    with known have "map field_name fs = ks" using derived_names [OF assms(2)] by blast
    with d(2) show ?thesis by (simp add: strict_sorted_iff)
  qed
  moreover have "\<not> first \<Longrightarrow> f \<in> set fs \<Longrightarrow> map_of schema (field_name f) = Some f" for f
  proof -
    assume "\<not> first" "f \<in> set fs"
    with known have "Some f \<in> set (map (map_of schema) ks)" by simp
    then obtain k where "map_of schema k = Some f" by force
    with schema_wf_name [OF assms(2)] show ?thesis by blast
  qed
  moreover have "first \<longleftrightarrow> (\<exists>k \<in> set ks. map_of schema k = None)"
  proof (cases first)
    case False
    with known have "map (map_of schema) ks = map Some fs" by blast
    then have "None \<notin> set (map (map_of schema) ks)" by simp
    with False show ?thesis by force
  qed (use fresh in blast)
  ultimately show ?thesis using d by auto
qed

section \<open>Which values a type admits\<close>

text \<open>The integer a JSON number is, if it is one.\<close>

fun integer_of :: "jnumber \<Rightarrow> int option" where
  "integer_of (PosInt n) = Some (uint n)"
| "integer_of (NegInt n) = Some (sint n)"
| "integer_of (Float r) = None"

definition signed_types :: "data_type set" where
  "signed_types = {Int8, Int16, Int32, Int64}"

definition unsigned_types :: "data_type set" where
  "unsigned_types = {UInt8, UInt16, UInt32, UInt64}"

text \<open>The values of each type: a signed integer type takes integers of 64 bits with sign whatever its
  width, an unsigned one integers from 0 on, a float type fractional numbers (the widest one every
  number, unless the stream has the older schema version), text types text. With a static schema a text that reads as a number does for a
  number. The one gap is a list type, which takes arrays of its elements but also anything that is not an array.\<close>

inductive admits :: "'a event_env \<Rightarrow> schema_version \<Rightarrow> bool \<Rightarrow> data_type \<Rightarrow> json \<Rightarrow> bool"
  for env :: "'a event_env" and ver :: schema_version and static :: bool where
  admits_bool: "admits env ver static BooleanType (JBool b)"
| admits_int: "t \<in> signed_types \<Longrightarrow> integer_of n = Some i \<Longrightarrow> - (2 ^ 63) \<le> i \<Longrightarrow> i < 2 ^ 63 \<Longrightarrow>
    admits env ver static t (JNumber n)"
| admits_int_text: "t \<in> signed_types \<Longrightarrow> static \<Longrightarrow> parses_i64 (trim s) \<Longrightarrow> admits env ver static t (JString s)"
| admits_nat: "t \<in> unsigned_types \<Longrightarrow> integer_of n = Some i \<Longrightarrow> 0 \<le> i \<Longrightarrow> admits env ver static t (JNumber n)"
| admits_fraction: "t \<in> {Float16, Float32, Float64} \<Longrightarrow> admits env ver static t (JNumber (Float r))"
| admits_number: "static \<or> ver = V1 \<Longrightarrow> admits env ver static Float64 (JNumber n)"
| admits_number_text: "static \<Longrightarrow> parses_f64 (trim s) \<or> parses_i64 (trim s) \<Longrightarrow>
    admits env ver static Float64 (JString s)"
| admits_text: "admits env ver static Utf8 (JString s)"
| admits_array: "(\<And>e. e \<in> set vs \<Longrightarrow> e = JNull \<or> admits env ver static (field_type f) e) \<Longrightarrow>
    admits env ver static (ListType f) (JArray vs)"
| admits_unchecked: "\<not> is_array v \<Longrightarrow> admits env ver static (ListType f) v"
| admits_struct: "(\<And>k e. (k, e) \<in> set m \<Longrightarrow> \<exists>f \<in> set fs. field_name f = k \<and>
      (e = JNull \<or> admits env ver static (field_type f) e)) \<Longrightarrow>
    admits env ver static (StructType fs) (JObject m)"
| admits_date: "date_ok env s \<Longrightarrow> admits env ver static Date32 (JString s)"
| admits_time_text: "admits env ver static (Timestamp u z) (JString s)"
| admits_time_number: "admits env ver static (Timestamp u z) (JNumber n)"

lemma number_shapes:
  "is_number v \<Longrightarrow> \<exists>n. v = JNumber n" "is_f64 v \<Longrightarrow> \<exists>r. v = JNumber (Float r)" "is_string v \<Longrightarrow> \<exists>s. v = JString s"
  "is_boolean v \<Longrightarrow> \<exists>b. v = JBool b"
  "is_u64 v \<Longrightarrow> \<exists>n i. v = JNumber n \<and> integer_of n = Some i \<and> 0 \<le> i"
  "is_i64 v \<Longrightarrow> \<exists>n i. v = JNumber n \<and> integer_of n = Some i \<and> - (2 ^ 63) \<le> i \<and> i < 2 ^ 63"
proof -
  show "is_i64 v \<Longrightarrow> \<exists>n i. v = JNumber n \<and> integer_of n = Some i \<and> - (2 ^ 63) \<le> i \<and> i < 2 ^ 63"
  proof (induction v rule: is_i64.induct)
    case (1 n)
    have "- (2 ^ 63) \<le> uint n" by (rule order_trans [OF _ uint_ge_0]) simp
    with 1 show ?case by (intro exI [of _ "PosInt n"] exI [of _ "uint n"]) simp
  next
    case (2 n)
    show ?case using sint_ge [of n] sint_lt [of n] by (intro exI [of _ "NegInt n"] exI [of _ "sint n"]) simp
  qed simp_all
  show "is_u64 v \<Longrightarrow> \<exists>n i. v = JNumber n \<and> integer_of n = Some i \<and> 0 \<le> i"
    by (induction v rule: is_u64.induct) (auto intro!: exI [of _ "PosInt n" for n])
  show "is_number v \<Longrightarrow> \<exists>n. v = JNumber n" "is_string v \<Longrightarrow> \<exists>s. v = JString s" "is_boolean v \<Longrightarrow> \<exists>b. v = JBool b"
    by (cases v; simp)+
  show "is_f64 v \<Longrightarrow> \<exists>r. v = JNumber (Float r)" by (induction v rule: is_f64.induct) simp_all
qed

lemma validate_int_admits: "t \<in> signed_types \<Longrightarrow> validate_int v static \<Longrightarrow> admits env ver static t v"
  using number_shapes(6) [of v]
  by (cases v) (auto simp: validate_int_def split: bool.splits intro: admits_int admits_int_text)

lemma validate_float_admits: "validate_float v ver static \<Longrightarrow> admits env ver static Float64 v"
  using number_shapes(1,2) [of v]
  by (cases v) (auto simp: validate_float_def split: if_splits schema_version.splits
      intro: admits_number admits_number_text admits_fraction)

lemma valid_type_admits:
  "valid_type env ver static t v \<Longrightarrow> admits env ver static t v"
  "validate_list env ver static f v \<Longrightarrow> admits env ver static (ListType f) v"
  "validate_struct env ver static fs v \<Longrightarrow> admits env ver static (StructType fs) v"
proof (induction env ver static t v and env ver static f v and env ver static fs v
    rule: valid_type_validate_list_validate_struct.induct)
  case (1 env ver static t v)
  show ?case
  proof (cases t)
    case (ListType f)
    then show ?thesis using 1 by (simp add: valid_type.simps)
  next
    case (StructType fs)
    then show ?thesis using 1 by (simp add: valid_type.simps)
  next
    case Date32
    then show ?thesis using 1(3) by (auto simp: valid_type.simps split: json.splits intro: admits_date)
  next
    case (Timestamp u z)
    then show ?thesis using 1(3) number_shapes(1,3) [of v]
      by (auto simp: valid_type.simps intro: admits_time_text admits_time_number)
  qed (use 1(3) number_shapes [of v] in \<open>auto simp: valid_type.simps signed_types_def unsigned_types_def
      intro: validate_int_admits validate_float_admits admits_bool admits_nat admits_fraction admits_text\<close>)
next
  case (2 env ver static f v)
  then show ?case
    by (cases v) (auto simp: validate_list.simps is_null_iff intro: admits_unchecked admits_array)
next
  case (3 env ver static fs v)
  show ?case
  proof (cases v)
    case (JObject m)
    have "\<exists>f \<in> set fs. field_name f = k \<and> (e = JNull \<or> admits env ver static (field_type f) e)" if "(k, e) \<in> set m" for k e
    proof -
      from 3(2) JObject that obtain f where f: "find (\<lambda>f. field_name f = k) fs = Some f"
        "is_null e \<or> valid_type env ver static (field_type f) e"
        by (force simp: validate_struct.simps split: option.splits)
      then have "f \<in> set fs" "field_name f = k" by (auto simp: find_Some_iff)
      with f 3(1) [OF JObject that [folded JObject]] show ?thesis by (auto simp: is_null_iff)
    qed
    then show ?thesis unfolding JObject by (rule admits_struct)
  qed (use 3(2) in \<open>simp_all add: validate_struct.simps\<close>)
qed

lemma valid_row_admits:
  assumes "valid_row env fs ver static m" and "(k, v) \<in> set m" and "v \<noteq> JNull"
  shows "\<exists>f \<in> set fs. field_name f = k \<and> admits env ver static (field_type f) v"
  using assms valid_type_admits(1) by (fastforce simp: valid_row_def get_field_def find_Some_iff)

text \<open>C12: Let the stream know each field once and under its own name. The fields of an accepted event
  are in the order of their names, and every value that is not null is under a field of its name
  whose type admits it in the sense of \<open>admits\<close>, which goes by the kind and range
  of the value and not by the code's checks. (A value that is no array passes for a field of
  lists, which the code does not check: \<open>list_field_admits_scalars\<close>.) When all keys
  are known to the stream the fields are the stream's own; otherwise the batch is marked as the
  first with its schema.\<close>

theorem accepted_event_typed:
  assumes "to_data env v schema tp ver static = Some (Inr (rows, fs, first))" and "schema_wf schema"
  shows "sorted (map field_name fs) \<and>
    (\<forall>r \<in> set rows. \<exists>m. r = JObject m \<and> (\<forall>(k, e) \<in> set m. e \<noteq> JNull \<longrightarrow>
       (\<exists>f \<in> set fs. field_name f = k \<and> admits env ver static (field_type f) e))) \<and>
    (first \<longleftrightarrow> (\<exists>m. JObject m \<in> set rows \<and> (\<exists>k \<in> set (keys_of m). map_of schema k = None))) \<and>
    (\<not> first \<longrightarrow> (\<forall>f \<in> set fs. map_of schema (field_name f) = Some f))"
proof -
  have "(\<forall>(k, e) \<in> set m. e \<noteq> JNull \<longrightarrow> (\<exists>f \<in> set fs. field_name f = k \<and> admits env ver static (field_type f) e))"
    if "valid_row env fs ver static m" for m
    using valid_row_admits [OF that] by blast
  then have "\<forall>r \<in> set rows. \<exists>m. r = JObject m \<and> (\<forall>(k, e) \<in> set m. e \<noteq> JNull \<longrightarrow>
       (\<exists>f \<in> set fs. field_name f = k \<and> admits env ver static (field_type f) e))"
    using to_data_typed [OF assms, THEN conjunct2, THEN conjunct1] by fast
  then show ?thesis using to_data_typed [OF assms] by (intro conjI) (elim conjE, assumption)+
qed

section \<open>The batch\<close>

text \<open>What Arrow's decoder promises: one column for each field, one row for each value.\<close>

definition decodes_rows :: "'a event_env \<Rightarrow> bool" where
  "decodes_rows env \<longleftrightarrow> (\<forall>rows fs cs. decode_columns env rows fs = Some cs \<longrightarrow>
     length cs = length fs \<and> (\<forall>c \<in> set cs. column_len c = length rows))"

lemma update_without_records_names:
  "map field_name (update_field_type_in_schema env fs None tp None ver) = map field_name fs"
  by (auto simp: update_field_type_in_schema_def time_partition_field_def split: option.splits)

lemma into_recordbatch_cases:
  assumes "into_recordbatch env v t schema static tp ver custom = Some (Inr (rb, first))"
    and "decodes_rows env" and "distinct_keys custom"
  obtains rows fs cs where "to_data env v schema tp ver static = Some (Inr (rows, fs, first))"
    "get_field fs default_timestamp_key = None" "is_schema_matching fs schema static"
    "rb = \<lparr>rb_schema = Field default_timestamp_key timestamp_millis True # update_field_type_in_schema env fs None tp None ver
        @ map (\<lambda>kv. Field (fst kv) Utf8 True) (filter (\<lambda>kv. fst kv \<notin> field_name ` set fs) (sort_key fst custom)),
      rb_columns = cs\<rparr>"
    "length cs = length (rb_schema rb)"
    "fs \<noteq> [] \<Longrightarrow> \<forall>c \<in> set cs. column_len c = length rows"
proof -
  from assms(1) obtain rows fs raw where td: "to_data env v schema tp ver static = Some (Inr (rows, fs, first))"
    and res: "get_field fs default_timestamp_key = None" "is_schema_matching fs schema static"
    and dec: "decode env rows (update_field_type_in_schema env fs None tp None ver) = Inr raw"
    and add: "add_parseable_fields raw t custom = Some rb"
    by (auto simp: into_recordbatch_def split: if_splits option.splits)
  let ?fs = "update_field_type_in_schema env fs None tp None ver"
  from dec obtain cs where cs: "decode_columns env rows ?fs = Some cs" "raw = \<lparr>rb_schema = ?fs, rb_columns = cs\<rparr>"
    by (auto simp: decode_def split: option.splits)
  with assms(2) have len: "length cs = length ?fs" "\<forall>c \<in> set cs. column_len c = length rows"
    unfolding decodes_rows_def by blast+
  have names: "field_name ` set ?fs = field_name ` set fs"
    using arg_cong [OF update_without_records_names [of env fs tp ver], of set] by simp
  have "rb_wf raw" using len cs(2) by (auto simp: rb_wf_def rb_num_rows_def split: list.splits)
  from add_parseable_fields_result [OF this assms(3), of t] add cs(2) names
  have rb: "rb = \<lparr>rb_schema = Field default_timestamp_key timestamp_millis True # ?fs
        @ map (\<lambda>kv. Field (fst kv) Utf8 True) (filter (\<lambda>kv. fst kv \<notin> field_name ` set fs) (sort_key fst custom)),
      rb_columns = get_timestamp_array t (rb_num_rows raw) # cs @
        map (\<lambda>kv. StringColumn (replicate (rb_num_rows raw) (snd kv)))
          (filter (\<lambda>kv. fst kv \<notin> field_name ` set fs) (sort_key fst custom))\<rparr>" by simp
  have "?fs \<noteq> []" if "fs \<noteq> []" using that update_without_records_names [of env fs tp ver] by auto
  then have "rb_num_rows raw = length rows" if "fs \<noteq> []"
    using that len cs(2) by (cases cs) (auto simp: rb_num_rows_def)
  with rb len have "length (rb_columns rb) = length (rb_schema rb)"
    "fs \<noteq> [] \<Longrightarrow> \<forall>c \<in> set (rb_columns rb). column_len c = length rows"
    by (auto simp: get_timestamp_array_def)
  moreover from rb have "rb = \<lparr>rb_schema = Field default_timestamp_key timestamp_millis True # ?fs
        @ map (\<lambda>kv. Field (fst kv) Utf8 True) (filter (\<lambda>kv. fst kv \<notin> field_name ` set fs) (sort_key fst custom)),
      rb_columns = rb_columns rb\<rparr>" by simp
  ultimately show thesis by (intro that [OF td res])
qed

text \<open>The columns of an accepted event are the time of arrival, the event's fields in the order of
  their names, and the custom fields that the event does not have, in the order of theirs; all have one
  row for each object of the event.\<close>

theorem batch_columns:
  assumes "into_recordbatch env v t schema static tp ver custom = Some (Inr (rb, first))"
    and "decodes_rows env" and "distinct_keys custom" and "schema_wf schema"
  shows "\<exists>rows names. sorted names \<and> default_timestamp_key \<notin> set names \<and>
    map field_name (rb_schema rb) = default_timestamp_key # names @ filter (\<lambda>k. k \<notin> set names) (sort (keys_of custom)) \<and>
    event_rows v \<noteq> None \<and> rename_json_keys (the (event_rows v)) = Inr rows \<and>
    (names \<noteq> [] \<longrightarrow> (\<forall>c \<in> set (rb_columns rb). column_len c = length rows))"
proof -
  from assms(1-3) obtain rows fs cs where td: "to_data env v schema tp ver static = Some (Inr (rows, fs, first))"
    and res: "get_field fs default_timestamp_key = None"
    and rb: "rb = \<lparr>rb_schema = Field default_timestamp_key timestamp_millis True # update_field_type_in_schema env fs None tp None ver
        @ map (\<lambda>kv. Field (fst kv) Utf8 True) (filter (\<lambda>kv. fst kv \<notin> field_name ` set fs) (sort_key fst custom)),
      rb_columns = cs\<rparr>"
    and len: "fs \<noteq> [] \<Longrightarrow> \<forall>c \<in> set cs. column_len c = length rows"
    by (rule into_recordbatch_cases) blast
  have "map fst (filter (\<lambda>kv. fst kv \<notin> field_name ` set fs) (sort_key fst custom)) =
      filter (\<lambda>k. k \<notin> field_name ` set fs) (map fst (sort_key fst custom))"
    by (simp add: filter_map comp_def)
  also have "map fst (sort_key fst custom) = sort (keys_of custom)" by (rule map_sort_key)
  finally have "map field_name (rb_schema rb) = default_timestamp_key # map field_name fs
      @ filter (\<lambda>k. k \<notin> set (map field_name fs)) (sort (keys_of custom))"
    using rb by (simp add: update_without_records_names comp_def)
  moreover have "sorted (map field_name fs)"
    using to_data_typed [OF td assms(4)] by blast
  moreover have "default_timestamp_key \<notin> set (map field_name fs)" using res by (simp add: get_field_None)
  moreover have "event_rows v \<noteq> None \<and> rename_json_keys (the (event_rows v)) = Inr rows"
    using td by (rule to_data_cases) simp
  ultimately show ?thesis using len rb
    by (intro exI [of _ rows] exI [of _ "map field_name fs"]) simp
qed

text \<open>A custom field named like the time of arrival makes a batch with two columns of that name.\<close>

theorem custom_timestamp_duplicated:
  assumes "rb_wf rb" and "distinct_keys custom" and "default_timestamp_key \<in> set (keys_of custom)"
    and "default_timestamp_key \<notin> field_name ` set (rb_schema rb)"
  shows "\<exists>rb'. add_parseable_fields rb t custom = Some rb' \<and> \<not> distinct (map field_name (rb_schema rb'))"
proof -
  let ?new = "filter (\<lambda>kv. fst kv \<notin> field_name ` set (rb_schema rb)) (sort_key fst custom)"
  from assms(3) obtain x where "(default_timestamp_key, x) \<in> set custom" by auto
  with assms(4) have "(default_timestamp_key, x) \<in> set ?new" by simp
  then have "default_timestamp_key \<in> set (map field_name (map (\<lambda>kv. Field (fst kv) Utf8 True) ?new))"
    by (force simp del: set_filter)
  with add_parseable_fields_result [OF assms(1,2), of t] show ?thesis by simp
qed

text \<open>A stream with a static schema admits an event only when each of its fields is in the schema with
  exactly the type the batch gets, so a key that the schema lacks is admitted at most with null values.\<close>

theorem static_schema_strict:
  assumes "into_recordbatch env v t schema True tp ver custom = Some (Inr (rb, first))"
    and "decodes_rows env" and "distinct_keys custom" and "event_rows v = Some (map JObject ms)"
    and "\<forall>m \<in> set ms. distinct_keys m" and "m \<in> set ms" and "(k, w) \<in> set m" and "w \<noteq> JNull"
  shows "\<exists>f. map_of schema (normalize_field_name k) = Some f \<and> valid_type env ver True (field_type f) w"
proof -
  from assms(1-3) obtain rows fs where td: "to_data env v schema tp ver True = Some (Inr (rows, fs, first))"
    and match: "is_schema_matching fs schema True" by (rule into_recordbatch_cases) blast
  from td obtain ms' where rows: "rename_json_keys (map JObject ms) = Inr (map JObject ms')"
    and valid: "\<forall>m \<in> set ms'. valid_row env fs ver True m"
    by (rule to_data_cases) (use assms(4) in simp)
  have "map JObject ms' = map (JObject \<circ> renamed) ms" using rename_keys_result [OF assms(5)] rows by blast
  then have "map JObject ms' = map JObject (map renamed ms)" by simp
  then have ms': "ms' = map renamed ms" by (simp add: inj_on_def map_inj_on)
  with assms(6,7) have "renamed m \<in> set ms'" "(normalize_field_name k, w) \<in> set (renamed m)"
    by (force simp: renamed_def)+
  with valid assms(8) obtain f where f: "get_field fs (normalize_field_name k) = Some f"
    "valid_type env ver True (field_type f) w"
    by (force simp: valid_row_def)
  with match get_field_Some [OF f(1)] show ?thesis
    by (force simp: is_schema_matching_def list_all_iff split: option.splits)
qed

text \<open>A list field admits every value that is not an array, whatever the type of its elements.\<close>

theorem list_field_admits_scalars:
  "\<not> is_array v \<Longrightarrow> valid_type env ver static (ListType f) v"
  by (cases v) (simp_all add: valid_type.simps validate_list.simps)

text \<open>A stream whose time partition is stored as text gets batches in which it is a timestamp: the
  second pass over the types does not look at the stream's schema.\<close>

theorem known_text_partition_retyped:
  assumes "to_data env v schema (Some tp) ver False = Some (Inr (rows, fs, False))"
    and "schema_wf schema" and "f \<in> set fs" and "field_name f = tp" and "field_type f = Utf8"
  shows "map_of schema tp = Some f \<and>
    Field tp timestamp_millis True \<in> set (update_field_type_in_schema env fs None (Some tp) None ver)"
proof
  show "map_of schema tp = Some f" using to_data_typed [OF assms(1,2)] assms(3,4) by blast
  have "time_partition_field tp {} f = Field tp timestamp_millis True"
    using assms(4,5) by (simp add: time_partition_field_def)
  then show "Field tp timestamp_millis True \<in> set (update_field_type_in_schema env fs None (Some tp) None ver)"
    using assms(3) by (force simp: update_field_type_in_schema_def get_existing_field_names_def)
qed

section \<open>An example\<close>

definition sample_env :: "unit event_env" where
  "sample_env = \<lparr>infer_json_schema = (\<lambda>_. None), try_merge = (\<lambda>_ _. None),
     decode_columns = (\<lambda>rows fs. Some (map (\<lambda>_. Decoded (length rows) ()) fs)),
     rfc3339_ok = (\<lambda>_. False), rfc2822_ok = (\<lambda>_. False), date_ok = (\<lambda>_. False),
     json_datetime = (\<lambda>_. None), show_number = (\<lambda>_. '''')\<rparr>"

definition sample_schema :: stream_schema where
  "sample_schema = [(''a'', Field ''a'' Float64 True), (''t'', Field ''t'' Utf8 True)]"

definition sample_row :: jobject where
  "sample_row = [(''t'', JString ''x''), (''a'', JNumber (Float 1))]"

lemma sample_decodes: "decodes_rows sample_env"
  by (simp add: decodes_rows_def sample_env_def)

lemma sample_schema_wf: "schema_wf sample_schema"
  by (simp add: schema_wf_def sample_schema_def)

lemmas event_defs = to_data_def event_rows_def rename_json_keys_def rename_object_def collect_map_def
  collect_keys_def insert_key_def derive_arrow_schema_def fields_mismatch_def get_field_def
  valid_type.simps validate_list.simps validate_struct.simps validate_float_def validate_int_def
  sample_schema_def sample_row_def less_char_def

lemma sample_data:
  "to_data sample_env (JObject sample_row) sample_schema tp V1 static =
   Some (Inr ([JObject sample_row], [Field ''a'' Float64 True, Field ''t'' Utf8 True], False))"
  by (simp add: event_defs)

lemma sample_batch:
  "into_recordbatch sample_env (JObject sample_row) 0 sample_schema static None V1 [(''u'', ''v'')] =
   Some (Inr (\<lparr>rb_schema = [Field default_timestamp_key timestamp_millis True, Field ''a'' Float64 True,
       Field ''t'' Utf8 True, Field ''u'' Utf8 True],
     rb_columns = [TimestampColumn [0], Decoded 1 (), Decoded 1 (), StringColumn [''v'']]\<rparr>, False))"
  unfolding into_recordbatch_def sample_data
  by (simp add: get_field_def default_timestamp_key_def is_schema_matching_def sample_schema_def
      update_field_type_in_schema_def decode_def sample_env_def add_parseable_fields_def rb_num_rows_def
      get_timestamp_array_def rb_try_new_def)

theorem accepted_event_typed_witness:
  "\<exists>f \<in> set [Field ''a'' Float64 True, Field ''t'' Utf8 True]. field_name f = ''t'' \<and>
     admits sample_env V1 False (field_type f) (JString ''x'')"
proof -
  have "(''t'', JString ''x'') \<in> set sample_row" by (simp add: sample_row_def)
  then show ?thesis using accepted_event_typed [OF sample_data [where tp = None and static = False] sample_schema_wf] by fastforce
qed

theorem batch_columns_witness:
  "\<exists>names. sorted names \<and> [default_timestamp_key, ''a'', ''t'', ''u''] =
     default_timestamp_key # names @ filter (\<lambda>k. k \<notin> set names) [''u'']"
  using batch_columns [OF sample_batch sample_decodes _ sample_schema_wf] by auto

theorem custom_timestamp_duplicated_witness:
  "\<exists>rb'. add_parseable_fields \<lparr>rb_schema = [Field ''a'' Utf8 True], rb_columns = [Decoded 1 ()]\<rparr> 0
       [(default_timestamp_key, ''x'')] = Some rb' \<and> \<not> distinct (map field_name (rb_schema rb'))"
  by (rule custom_timestamp_duplicated)
    (simp_all add: rb_wf_def rb_num_rows_def default_timestamp_key_def)

theorem static_schema_strict_witness:
  "\<exists>f. map_of sample_schema ''t'' = Some f \<and> valid_type sample_env V1 True (field_type f) (JString ''x'')"
  using static_schema_strict [OF sample_batch sample_decodes, where m = sample_row and ms = "[sample_row]"
      and k = "''t''" and w = "JString ''x''"]
  by (simp add: event_rows_def sample_row_def)

theorem list_field_admits_scalars_witness: "valid_type sample_env V1 True (list_of Int64) (JString ''x'')"
  unfolding list_of_def by (rule list_field_admits_scalars) simp

theorem known_text_partition_retyped_witness:
  "Field ''t'' timestamp_millis True \<in>
     set (update_field_type_in_schema sample_env [Field ''a'' Float64 True, Field ''t'' Utf8 True] None (Some ''t'') None V1)"
  using known_text_partition_retyped [OF sample_data sample_schema_wf, of "Field ''t'' Utf8 True"] by simp

end
