(* ===== verification/Staging.thy ===== *)
theory Staging
  imports Event_Schema Time_Prefix
begin

text \<open>
  The staging area of a stream (\<open>src/parseable/streams.rs\<close>, \<open>src/parseable/staging/writer.rs\<close>,
  \<open>reader.rs\<close>, \<open>src/utils/arrow/batch_adapter.rs\<close>): the batches kept in memory for queries, the
  writers of arrow files, the finished files, the files being converted, and the parquet files.

  A batch is its schema and its rows, which stay abstract. A directory is a list of names and files; the
  directories \<open>processing_<minute>\<close> are one list of files keyed by minute and name. What the file
  system and the Arrow and Parquet libraries do is in \<open>staging_env\<close>: each call that can fail has a
  flag, \<open>merge\<close> is \<open>Schema::try_merge\<close> and \<open>kmerge\<close> the merge of sorted readers. A panic is \<open>None\<close>.
\<close>

section \<open>Batches\<close>

record 'r batch =
  b_fields :: "field list"
  b_rows :: "'r list"

text \<open>A batch under the schema of a table: columns it lacks become null, columns the table lacks are
  dropped; a column of another type is a panic.\<close>

definition adapt_batch :: "field list \<Rightarrow> 'r batch \<Rightarrow> 'r batch option" where
  "adapt_batch table b =
     (if list_all (\<lambda>f. case get_field (b_fields b) (field_name f) of
          Some g \<Rightarrow> field_type g = field_type f | None \<Rightarrow> True) table
      then Some \<lparr>b_fields = table, b_rows = b_rows b\<rparr> else None)"

definition concat_records :: "field list \<Rightarrow> 'r batch list \<Rightarrow> 'r batch option" where
  "concat_records schema bs =
     map_option (\<lambda>as. \<lparr>b_fields = schema, b_rows = concat (map b_rows as)\<rparr>) (those (map (adapt_batch schema) bs))"

definition reverse_batch :: "'r batch \<Rightarrow> 'r batch" where
  "reverse_batch b = b\<lparr>b_rows := rev (b_rows b)\<rparr>"

section \<open>Memory\<close>

record 'r mem_writer =
  mw_schema :: "field list"
  schema_map :: "string list"
  read_buffer :: "'r batch list"
  mutable_buffer :: "'r batch list"

definition empty_mem :: "'r mem_writer" where
  "empty_mem = \<lparr>mw_schema = [], schema_map = [], read_buffer = [], mutable_buffer = []\<rparr>"

text \<open>\<open>MutableBuffer::push\<close>: the new buffer, and the batches to concatenate when it is full. The
  subtractions are on \<open>usize\<close>.\<close>

definition buffer_push :: "nat \<Rightarrow> 'r batch list \<Rightarrow> 'r batch \<Rightarrow> 'r batch list \<times> 'r batch list option" where
  "buffer_push n inner rb =
     (let rows = b_rows rb in
      if length inner + length rows \<ge> n
      then let left = n - length inner in
        (if left < length rows then [rb\<lparr>b_rows := drop left rows\<rparr>] else [],
         Some (inner @ [rb\<lparr>b_rows := take left rows\<rparr>]))
      else (inner @ [rb], None))"

definition mem_capacity :: nat where
  "mem_capacity = 16384"

definition mem_push ::
  "(field list \<Rightarrow> field list \<Rightarrow> field list option) \<Rightarrow> nat \<Rightarrow> string \<Rightarrow> 'r batch \<Rightarrow> 'r mem_writer
   \<Rightarrow> 'r mem_writer option" where
  "mem_push merge n schema_key rb m =
     (case (if schema_key \<in> set (schema_map m) then Some m
            else map_option (\<lambda>s. m\<lparr>schema_map := schema_key # schema_map m, mw_schema := s\<rparr>)
              (merge (mw_schema m) (b_fields rb))) of
        None \<Rightarrow> None
      | Some m1 \<Rightarrow>
          (case buffer_push n (mutable_buffer m1) rb of
             (inner, None) \<Rightarrow> Some (m1\<lparr>mutable_buffer := inner\<rparr>)
           | (inner, Some full) \<Rightarrow>
               map_option (\<lambda>r. m1\<lparr>mutable_buffer := inner, read_buffer := read_buffer m1 @ [r]\<rparr>)
                 (concat_records (mw_schema m1) full)))"

definition recordbatch_cloned :: "field list \<Rightarrow> 'r mem_writer \<Rightarrow> 'r batch list option" where
  "recordbatch_cloned schema m =
     (case (if mutable_buffer m = [] then Some (read_buffer m)
            else map_option (\<lambda>rb. read_buffer m @ [rb]) (concat_records schema (mutable_buffer m))) of
        None \<Rightarrow> None
      | Some bs \<Rightarrow> those (map (adapt_batch schema) bs))"

section \<open>Files\<close>

text \<open>The content of a finished arrow file: the schema of its writer and the batches, or no bytes.\<close>

datatype 'r arrow_content = EmptyFile | ArrowStream "field list" "'r batch list"

record 'r arrow_file =
  af_created :: datetime
  af_content :: "'r arrow_content"

record 'r disk_writer =
  dw_created :: datetime
  dw_schema :: "field list"
  dw_batches :: "'r batch list"
  dw_range :: time_range

type_synonym 'r inprocess = "((int \<times> string) \<times> 'r arrow_file) list"

record 'r stream =
  st_mem :: "'r mem_writer"
  st_disk :: "(string \<times> 'r disk_writer) list"
  st_arrows :: "(string \<times> 'r arrow_file) list"
  st_inprocess :: "'r inprocess"
  st_parquets :: "(string \<times> 'r list) list"
  st_schema_files :: "(string \<times> field list) list"

record 'r staging_env =
  merge :: "field list \<Rightarrow> field list \<Rightarrow> field list option"
  kmerge :: "('r batch \<Rightarrow> 'r batch \<Rightarrow> bool) \<Rightarrow> 'r batch list list \<Rightarrow> 'r batch list"
  batch_time :: "'r batch \<Rightarrow> int"
  show_date :: "date \<Rightarrow> string"
  host :: string
  query_mode :: bool
  dir_ok :: bool
  create_ok :: "string \<Rightarrow> bool"
  write_ok :: "'r batch \<Rightarrow> bool"
  finish_ok :: "string \<Rightarrow> bool"
  rename_ok :: "string \<Rightarrow> bool"
  move_ok :: "string \<Rightarrow> bool"
  open_ok :: "string \<Rightarrow> bool"
  part_ok :: "string \<Rightarrow> bool"
  remove_ok :: "string \<Rightarrow> bool"
  write_schema_ok :: bool
  random_suffix :: "string \<Rightarrow> string"

datatype staging_error = ArrowError | ParquetError | IoError | CreateError | StreamMissing string

definition data_granularity :: nat where
  "data_granularity = 1"

text \<open>Custom partition values in the order of their names.\<close>

definition partition_part :: "(string \<times> string) list \<Rightarrow> string" where
  "partition_part vals = concat (map (\<lambda>(k, v). k @ ''='' @ v @ ''.'') (sort_key fst vals))"

definition arrow_suffix :: string where
  "arrow_suffix = ''.arrows''"

definition filename_by_partition ::
  "'r staging_env \<Rightarrow> string \<Rightarrow> datetime \<Rightarrow> (string \<times> string) list \<Rightarrow> string option" where
  "filename_by_partition env stream_hash parsed vals =
     map_option (\<lambda>f. stream_hash @ ''.'' @ f)
       (file_name (show_date env) data_granularity parsed
          (partition_part vals @ host env @ ''.data'' @ arrow_suffix))"

text \<open>Dropping a writer finishes its file and gives it its final name; if the name is taken, the part
  before \<open>.date\<close> is replaced by a random text.\<close>

fun from_date :: "string \<Rightarrow> string option" where
  "from_date [] = None"
| "from_date (c # s) = (if prefix ''.date'' (c # s) then Some (c # s) else from_date s)"

definition final_name :: "'r staging_env \<Rightarrow> string \<Rightarrow> 'r stream \<Rightarrow> string option" where
  "final_name env n st =
     (if map_of (st_arrows st) n = None then Some n
      else map_option (\<lambda>rest. random_suffix env n @ rest) (from_date n))"

definition drop_writer ::
  "'r staging_env \<Rightarrow> string \<Rightarrow> 'r disk_writer \<Rightarrow> 'r stream \<Rightarrow> 'r stream option" where
  "drop_writer env n w st =
     (if \<not> finish_ok env n then Some st
      else case final_name env n st of
        None \<Rightarrow> None
      | Some n' \<Rightarrow>
          if rename_ok env n
          then Some (st\<lparr>st_arrows := AList.update n'
            \<lparr>af_created = dw_created w, af_content = ArrowStream (dw_schema w) (dw_batches w)\<rparr> (st_arrows st)\<rparr>)
          else Some st)"

section \<open>Pushing a batch\<close>

definition push_disk ::
  "'r staging_env \<Rightarrow> datetime \<Rightarrow> string \<Rightarrow> 'r batch \<Rightarrow> datetime \<Rightarrow> 'r stream
   \<Rightarrow> ('r stream \<times> (staging_error + unit)) option" where
  "push_disk env clock n rb parsed st =
     (case map_of (st_disk st) n of
        Some w \<Rightarrow>
          if write_ok env rb
          then Some (st\<lparr>st_disk := AList.update n (w\<lparr>dw_batches := dw_batches w @ [rb]\<rparr>) (st_disk st)\<rparr>, Inr ())
          else Some (st, Inl ArrowError)
      | None \<Rightarrow>
          if \<not> dir_ok env then Some (st, Inl IoError)
          else if \<not> create_ok env n then None
          else let w = \<lparr>dw_created = clock, dw_schema = b_fields rb, dw_batches = [], dw_range = granularity_range parsed data_granularity\<rparr> in
            if write_ok env rb
            then Some (st\<lparr>st_disk := AList.update n (w\<lparr>dw_batches := [rb]\<rparr>) (st_disk st)\<rparr>, Inr ())
            else map_option (\<lambda>st'. (st', Inl ArrowError)) (drop_writer env n w st))"

definition push ::
  "'r staging_env \<Rightarrow> datetime \<Rightarrow> string \<Rightarrow> 'r batch \<Rightarrow> datetime \<Rightarrow> (string \<times> string) list \<Rightarrow> bool \<Rightarrow> 'r stream
   \<Rightarrow> ('r stream \<times> (staging_error + unit)) option" where
  "push env clock schema_key rb parsed vals internal st =
     (case (if \<not> query_mode env \<or> internal
            then (case filename_by_partition env schema_key parsed vals of
                    None \<Rightarrow> None
                  | Some n \<Rightarrow> push_disk env clock n rb parsed st)
            else Some (st, Inr ())) of
        None \<Rightarrow> None
      | Some (st1, Inl e) \<Rightarrow> Some (st1, Inl e)
      | Some (st1, Inr _) \<Rightarrow>
          map_option (\<lambda>m. (st1\<lparr>st_mem := m\<rparr>, Inr ()))
            (mem_push (merge env) mem_capacity schema_key rb (st_mem st1)))"

section \<open>Flushing\<close>

definition is_current :: "datetime \<Rightarrow> 'r disk_writer \<Rightarrow> bool" where
  "is_current clock w = contains (dw_range w) clock"

definition keeps_writer :: "datetime \<Rightarrow> bool \<Rightarrow> string \<times> 'r disk_writer \<Rightarrow> bool" where
  "keeps_writer clock forced nw = (\<not> forced \<and> is_current clock (snd nw))"

fun drop_writers ::
  "'r staging_env \<Rightarrow> (string \<times> 'r disk_writer) list \<Rightarrow> 'r stream \<Rightarrow> 'r stream option" where
  "drop_writers env [] st = Some st"
| "drop_writers env ((n, w) # ws) st =
     (case drop_writer env n w st of None \<Rightarrow> None | Some st' \<Rightarrow> drop_writers env ws st')"

definition flush :: "'r staging_env \<Rightarrow> datetime \<Rightarrow> bool \<Rightarrow> 'r stream \<Rightarrow> 'r stream option" where
  "flush env clock forced st =
     drop_writers env (filter (\<lambda>nw. \<not> keeps_writer clock forced nw) (st_disk st))
       (st\<lparr>st_mem := empty_mem, st_disk := filter (keeps_writer clock forced) (st_disk st)\<rparr>)"

section \<open>From arrow files to parquet files\<close>

text \<open>\<open>split_once('.')\<close> on the stem of the file, and the name of the parquet file.\<close>

fun split_once :: "char \<Rightarrow> string \<Rightarrow> (string \<times> string) option" where
  "split_once c [] = None"
| "split_once c (x # s) =
     (if x = c then Some ([], s) else map_option (\<lambda>(a, b). (x # a, b)) (split_once c s))"

definition arrow_path_to_parquet :: "string \<Rightarrow> string \<Rightarrow> string option" where
  "arrow_path_to_parquet n random =
     (case strip_suffix arrow_suffix n of
        None \<Rightarrow> None
      | Some stem \<Rightarrow>
          (case split_once CHR ''.'' stem of
             None \<Rightarrow> None
           | Some (_, front) \<Rightarrow>
               if CHR ''.'' \<notin> set front then None else Some (front @ ''.'' @ random @ ''.parquet'')))"

definition system_minute :: "datetime \<Rightarrow> int" where
  "system_minute t = t div 1000000 div 60000"

text \<open>The files to convert: those of earlier minutes, or all at shutdown. An empty file is removed; the
  others are moved, replacing a file of the same name; a failed move leaves the file.\<close>

definition fetch_arrow_files_for_conversion ::
  "datetime \<Rightarrow> bool \<Rightarrow> 'r stream \<Rightarrow> (string \<times> 'r arrow_file) list" where
  "fetch_arrow_files_for_conversion exclude shutdown st =
     filter (\<lambda>(n, f). shutdown \<or> system_minute (af_created f) < system_minute exclude) (st_arrows st)"

fun move_arrow_files ::
  "'r staging_env \<Rightarrow> int \<Rightarrow> (string \<times> 'r arrow_file) list \<Rightarrow> 'r stream \<Rightarrow> 'r stream" where
  "move_arrow_files env minute [] st = st"
| "move_arrow_files env minute ((n, f) # fs) st =
     move_arrow_files env minute fs
       (if af_content f = EmptyFile then st\<lparr>st_arrows := AList.delete n (st_arrows st)\<rparr>
        else if move_ok env n
        then st\<lparr>st_arrows := AList.delete n (st_arrows st),
                st_inprocess := AList.update (minute, n) f (st_inprocess st)\<rparr>
        else st)"

type_synonym groups = "(string \<times> (int \<times> string) list) list"

fun group_files :: "string \<Rightarrow> (int \<times> string) list \<Rightarrow> groups \<Rightarrow> groups" where
  "group_files random [] gs = gs"
| "group_files random ((m, n) # fs) gs =
     (case arrow_path_to_parquet n random of
        None \<Rightarrow> group_files random fs gs
      | Some p \<Rightarrow> group_files random fs
          (AList.update p ((case map_of gs p of None \<Rightarrow> [] | Some ks \<Rightarrow> ks) @ [(m, n)]) gs))"

definition arrow_files_grouped_exclude_time ::
  "'r staging_env \<Rightarrow> string \<Rightarrow> datetime \<Rightarrow> int \<Rightarrow> bool \<Rightarrow> bool \<Rightarrow> 'r stream \<Rightarrow> 'r stream \<times> groups" where
  "arrow_files_grouped_exclude_time env random exclude group_minute init shutdown st =
     (let files = fetch_arrow_files_for_conversion exclude shutdown st in
      if files \<noteq> [] \<and> \<not> dir_ok env then (st, [])
      else let st1 = move_arrow_files env group_minute files st in
        (st1, group_files random
           (filter (\<lambda>(m, n). init \<or> m = group_minute) (keys_of (st_inprocess st1))) []))"

text \<open>The readers of a group: files that cannot be opened, or hold no stream, are passed over. Each
  reader yields its batches last to first; the merged batches are reversed and adapted.\<close>

fun reader_of :: "'r staging_env \<Rightarrow> 'r inprocess \<Rightarrow> int \<times> string \<Rightarrow> (field list \<times> 'r batch list) option" where
  "reader_of env files (m, n) =
     (if open_ok env n then
        (case map_of files (m, n) of
           Some f \<Rightarrow> (case af_content f of ArrowStream s bs \<Rightarrow> Some (s, rev bs) | EmptyFile \<Rightarrow> None)
         | None \<Rightarrow> None)
      else None)"

definition readers_of :: "'r staging_env \<Rightarrow> 'r inprocess \<Rightarrow> (int \<times> string) list \<Rightarrow> (field list \<times> 'r batch list) list" where
  "readers_of env files ks = List.map_filter (reader_of env files) ks"

fun merge_all :: "(field list \<Rightarrow> field list \<Rightarrow> field list option) \<Rightarrow> field list list \<Rightarrow> field list option" where
  "merge_all mrg [] = Some []"
| "merge_all mrg (s # ss) = foldl (\<lambda>acc t. case acc of None \<Rightarrow> None | Some u \<Rightarrow> mrg u t) (Some s) ss"

definition merged_iter :: "'r staging_env \<Rightarrow> field list \<Rightarrow> 'r batch list list \<Rightarrow> 'r batch list option" where
  "merged_iter env schema readers =
     those (map (\<lambda>b. adapt_batch schema (reverse_batch b))
       (kmerge env (\<lambda>a b. batch_time env a > batch_time env b) readers))"

text \<open>Removing the files of a converted group; a file that cannot be removed stays.\<close>

definition cleanup_arrow_files :: "'r staging_env \<Rightarrow> (int \<times> string) list \<Rightarrow> 'r stream \<Rightarrow> 'r stream" where
  "cleanup_arrow_files env ks st =
     st\<lparr>st_inprocess := filter (\<lambda>(k, f). \<not> (k \<in> set ks \<and> remove_ok env (snd k))) (st_inprocess st)\<rparr>"

text \<open>One group: the new stream and, when there was a reader, its schema. Without rows the part file is
  not valid and is removed; a part file that cannot be renamed is left behind and the arrow files stay.\<close>

definition convert_group ::
  "'r staging_env \<Rightarrow> string \<times> (int \<times> string) list \<Rightarrow> 'r stream
   \<Rightarrow> ('r stream \<times> (staging_error + field list option)) option" where
  "convert_group env g st =
     (let readers = readers_of env (st_inprocess st) (snd g) in
      if readers = [] then Some (st, Inr None)
      else case merge_all (merge env) (map fst readers) of
        None \<Rightarrow> None
      | Some schema \<Rightarrow>
          if \<not> part_ok env (fst g) then Some (st, Inl ParquetError)
          else (case merged_iter env schema (map snd readers) of
            None \<Rightarrow> None
          | Some bs \<Rightarrow>
              let rows = concat (map b_rows bs) in
              if rows = [] \<or> \<not> rename_ok env (fst g) then Some (st, Inr (Some schema))
              else Some (cleanup_arrow_files env (snd g)
                     (st\<lparr>st_parquets := AList.update (fst g) rows (st_parquets st)\<rparr>), Inr (Some schema))))"

fun convert_groups ::
  "'r staging_env \<Rightarrow> groups \<Rightarrow> 'r stream \<Rightarrow> ('r stream \<times> (staging_error + field list list)) option" where
  "convert_groups env [] st = Some (st, Inr [])"
| "convert_groups env (g # gs) st =
     (case convert_group env g st of
        None \<Rightarrow> None
      | Some (st1, Inl e) \<Rightarrow> Some (st1, Inl e)
      | Some (st1, Inr s) \<Rightarrow>
          map_option (\<lambda>(st2, r). (st2, bind_result r (\<lambda>ss. Inr ((case s of None \<Rightarrow> [] | Some x \<Rightarrow> [x]) @ ss))))
            (convert_groups env gs st1))"

definition convert_disk_files_to_parquet ::
  "'r staging_env \<Rightarrow> string \<Rightarrow> datetime \<Rightarrow> bool \<Rightarrow> bool \<Rightarrow> 'r stream
   \<Rightarrow> ('r stream \<times> (staging_error + field list option)) option" where
  "convert_disk_files_to_parquet env random clock init shutdown st =
     (case arrow_files_grouped_exclude_time env random clock (system_minute clock - 1) init shutdown st of
        (st1, gs) \<Rightarrow>
          map_option (\<lambda>(st2, r). (st2, bind_result r (\<lambda>schemas.
            if schemas = [] then Inr None
            else case merge_all (merge env) schemas of
              None \<Rightarrow> Inl ArrowError | Some s \<Rightarrow> Inr (Some s))))
          (convert_groups env gs st1))"

definition prepare_parquet ::
  "'r staging_env \<Rightarrow> string \<Rightarrow> string \<Rightarrow> datetime \<Rightarrow> bool \<Rightarrow> bool \<Rightarrow> bool \<Rightarrow> 'r stream
   \<Rightarrow> ('r stream \<times> (staging_error + unit)) option" where
  "prepare_parquet env stream_name random clock static init shutdown st =
     map_option (\<lambda>(st1, r). case r of
         Inl e \<Rightarrow> (st1, Inl e)
       | Inr None \<Rightarrow> (st1, Inr ())
       | Inr (Some schema) \<Rightarrow>
           if static then (st1, Inr ())
           else case (if st_schema_files st1 = [] then Some schema
                      else merge_all (merge env) (map snd (st_schema_files st1) @ [schema])) of
             None \<Rightarrow> (st1, Inl ArrowError)
           | Some s \<Rightarrow>
               if write_schema_ok env
               then (st1\<lparr>st_schema_files := AList.update (stream_name @ ''.schema'') s (st_schema_files st1)\<rparr>, Inr ())
               else (st1, Inl IoError))
     (convert_disk_files_to_parquet env random clock init shutdown st)"

definition flush_and_convert ::
  "'r staging_env \<Rightarrow> string \<Rightarrow> string \<Rightarrow> datetime \<Rightarrow> bool \<Rightarrow> bool \<Rightarrow> bool \<Rightarrow> 'r stream
   \<Rightarrow> ('r stream \<times> (staging_error + unit)) option" where
  "flush_and_convert env stream_name random clock static init shutdown st =
     (case flush env clock (init \<or> shutdown) st of
        None \<Rightarrow> None
      | Some st1 \<Rightarrow> prepare_parquet env stream_name random clock static init shutdown st1)"

end
