(* ===== verification/Staging_Proofs.thy ===== *)
theory Staging_Proofs
  imports Staging
begin

text \<open>
  What staging keeps: the rows in memory are those pushed since the last flush; flushing and converting
  move every row from the writers to arrow files to parquet files, whatever part of the conversion fails,
  as long as the files can be read again and no two get the same name; and the ways in which rows, or
  their visibility, are lost.
\<close>

section \<open>Rows\<close>

definition batches_rows :: "'r batch list \<Rightarrow> 'r list" where
  "batches_rows bs = concat (map b_rows bs)"

lemma batches_rows_simps [simp]:
  "batches_rows [] = []"
  "batches_rows (b # bs) = b_rows b @ batches_rows bs"
  "batches_rows (bs @ cs) = batches_rows bs @ batches_rows cs"
  by (simp_all add: batches_rows_def)

definition mem_rows :: "'r mem_writer \<Rightarrow> 'r list" where
  "mem_rows m = batches_rows (read_buffer m) @ batches_rows (mutable_buffer m)"

lemma adapt_batch_rows: "adapt_batch s b = Some b' \<Longrightarrow> b_rows b' = b_rows b"
  by (auto simp: adapt_batch_def split: if_splits)

lemma adapted_rows: "those (map (adapt_batch s) bs) = Some cs \<Longrightarrow> batches_rows cs = batches_rows bs"
proof (induction bs arbitrary: cs)
  case Nil
  then show ?case by simp
next
  case (Cons b bs)
  then obtain c ds where "adapt_batch s b = Some c" "those (map (adapt_batch s) bs) = Some ds" "cs = c # ds"
    by (auto split: option.splits)
  with Cons.IH adapt_batch_rows show ?case by fastforce
qed

lemma concat_records_rows: "concat_records s bs = Some r \<Longrightarrow> b_rows r = batches_rows bs"
  using adapted_rows by (fastforce simp: concat_records_def batches_rows_def [symmetric])

lemma buffer_push_rows:
  assumes "buffer_push n inner rb = (inner', full)" and "length inner \<le> n"
  shows "batches_rows (case full of None \<Rightarrow> [] | Some bs \<Rightarrow> bs) @ batches_rows inner' =
     batches_rows inner @ b_rows rb \<and> length inner' \<le> max n 1"
  using assms by (auto simp: buffer_push_def Let_def split: if_splits)

lemma mem_push_appends:
  assumes "mem_push mrg n key rb m = Some m'" and "length (mutable_buffer m) \<le> n" and "0 < n"
  shows "mem_rows m' = mem_rows m @ b_rows rb \<and> length (mutable_buffer m') \<le> n"
proof -
  define start where "start = (if key \<in> set (schema_map m) then Some m
      else map_option (\<lambda>s. m\<lparr>schema_map := key # schema_map m, mw_schema := s\<rparr>) (mrg (mw_schema m) (b_fields rb)))"
  from assms(1) obtain m1 where start: "start = Some m1"
    and p: "(case buffer_push n (mutable_buffer m1) rb of
             (inner, None) \<Rightarrow> Some (m1\<lparr>mutable_buffer := inner\<rparr>)
           | (inner, Some full) \<Rightarrow>
               map_option (\<lambda>r. m1\<lparr>mutable_buffer := inner, read_buffer := read_buffer m1 @ [r]\<rparr>)
                 (concat_records (mw_schema m1) full)) = Some m'"
    unfolding mem_push_def start_def [symmetric] by (cases start) auto
  from start have m1: "read_buffer m1 = read_buffer m" "mutable_buffer m1 = mutable_buffer m"
    by (auto simp: start_def split: if_splits)
  obtain inner full where b: "buffer_push n (mutable_buffer m) rb = (inner, full)" by force
  from buffer_push_rows [OF this assms(2)] assms(3)
  have r: "batches_rows (case full of None \<Rightarrow> [] | Some bs \<Rightarrow> bs) @ batches_rows inner =
     batches_rows (mutable_buffer m) @ b_rows rb" "length inner \<le> n" by auto
  show ?thesis
  proof (cases full)
    case None
    with p m1 b r show ?thesis by (auto simp: mem_rows_def)
  next
    case (Some bs)
    with p m1 b obtain c where "concat_records (mw_schema m1) bs = Some c"
      "m' = m1\<lparr>mutable_buffer := inner, read_buffer := read_buffer m1 @ [c]\<rparr>" by auto
    with concat_records_rows [OF this(1)] Some m1 r show ?thesis by (simp add: mem_rows_def)
  qed
qed

fun mem_push_all ::
  "(field list \<Rightarrow> field list \<Rightarrow> field list option) \<Rightarrow> nat \<Rightarrow> (string \<times> 'r batch) list \<Rightarrow> 'r mem_writer
   \<Rightarrow> 'r mem_writer option" where
  "mem_push_all mrg n [] m = Some m"
| "mem_push_all mrg n ((k, b) # bs) m =
     (case mem_push mrg n k b m of None \<Rightarrow> None | Some m' \<Rightarrow> mem_push_all mrg n bs m')"

lemma mem_push_all_appends:
  "mem_push_all mrg n kbs m = Some m' \<Longrightarrow> length (mutable_buffer m) \<le> n \<Longrightarrow> 0 < n \<Longrightarrow>
   mem_rows m' = mem_rows m @ batches_rows (map snd kbs) \<and> length (mutable_buffer m') \<le> n"
proof (induction kbs arbitrary: m)
  case Nil
  then show ?case by simp
next
  case (Cons kb kbs)
  then obtain m1 where "mem_push mrg n (fst kb) (snd kb) m = Some m1" "mem_push_all mrg n kbs m1 = Some m'"
    by (cases kb) (auto split: option.splits)
  with Cons.IH Cons.prems(2,3) mem_push_appends show ?case by fastforce
qed

lemma recordbatch_cloned_rows:
  assumes "recordbatch_cloned s m = Some bs"
  shows "batches_rows bs = mem_rows m"
proof -
  from assms obtain cs where cs: "(if mutable_buffer m = [] then Some (read_buffer m)
            else map_option (\<lambda>rb. read_buffer m @ [rb]) (concat_records s (mutable_buffer m))) = Some cs"
    and bs: "those (map (adapt_batch s) cs) = Some bs"
    unfolding recordbatch_cloned_def by (auto split: option.splits)
  have "batches_rows cs = mem_rows m"
  proof (cases "mutable_buffer m = []")
    case False
    with cs obtain c where "concat_records s (mutable_buffer m) = Some c" "cs = read_buffer m @ [c]" by auto
    with concat_records_rows [OF this(1)] show ?thesis by (simp add: mem_rows_def)
  qed (use cs in \<open>simp add: mem_rows_def\<close>)
  with adapted_rows [OF bs] show ?thesis by simp
qed

text \<open>C11: What a query reads from memory are exactly the rows of the batches pushed since the last flush,
  in the order of their arrival, however the buffer was filled, split and emptied; the buffer never holds
  more batches than its capacity.\<close>

theorem memory_refines_queue:
  assumes "mem_push_all mrg mem_capacity kbs empty_mem = Some m" and "recordbatch_cloned schema m = Some bs"
  shows "concat (map b_rows bs) = concat (map (b_rows \<circ> snd) kbs) \<and> length (mutable_buffer m) \<le> mem_capacity"
  using mem_push_all_appends [OF assms(1)] recordbatch_cloned_rows [OF assms(2)]
  by (simp add: empty_mem_def mem_capacity_def mem_rows_def batches_rows_def)

section \<open>Sums over files\<close>

definition sum_over :: "('v \<Rightarrow> 'r multiset) \<Rightarrow> ('k \<times> 'v) list \<Rightarrow> 'r multiset" where
  "sum_over g m = sum_list (map (g \<circ> snd) m)"

lemma sum_over_simps [simp]:
  "sum_over g [] = {#}"
  "sum_over g ((k, v) # m) = g v + sum_over g m"
  "sum_over g (m @ m') = sum_over g m + sum_over g m'"
  by (simp_all add: sum_over_def)

lemma sum_over_update: "k \<notin> set (keys_of m) \<Longrightarrow> sum_over g (AList.update k v m) = sum_over g m + g v"
  by (simp add: AList_update_fresh del: AList.update.simps)

lemma sum_over_delete:
  assumes "distinct_keys m" and "(k, v) \<in> set m"
  shows "sum_over g m = g v + sum_over g (AList.delete k m)"
  using assms
proof (induction m)
  case Nil
  then show ?case by simp
next
  case (Cons kv m)
  obtain k' v' where kv: "kv = (k', v')" by force
  show ?case
  proof (cases "k' = k")
    case True
    with Cons.prems kv have "v' = v" "k \<notin> fst ` set m" by force+
    with True kv show ?thesis by (simp add: AList.delete_eq filter_id_conv case_prod_unfold) (metis (mono_tags, lifting) filter_True image_eqI)
  next
    case False
    with Cons kv show ?thesis by (auto simp: AList.delete_eq)
  qed
qed

lemma sum_over_keys:
  assumes "distinct_keys m" and "distinct ks" and "set ks \<subseteq> set (keys_of m)"
  shows "sum_over g m = sum_list (map (\<lambda>k. g (the (map_of m k))) ks) + sum_over g (filter (\<lambda>(k, v). k \<notin> set ks) m)"
proof -
  let ?in = "filter (\<lambda>kv. fst kv \<in> set ks) m" and ?ks = "map (\<lambda>k. (k, the (map_of m k))) ks"
  have "distinct ?in" using assms(1) by (simp add: distinct_map)
  moreover have "distinct ?ks" using assms(2) by (simp add: distinct_map inj_on_def)
  moreover have "set ?in = set ?ks"
  proof -
    have "(k, v) \<in> set m \<longleftrightarrow> k \<in> set (keys_of m) \<and> v = the (map_of m k)" for k v
    proof (cases "map_of m k")
      case None
      then show ?thesis by (force simp: map_of_eq_None_iff)
    next
      case (Some w)
      with assms(1) have "(k, v) \<in> set m \<longleftrightarrow> v = w" by (metis map_of_eq_Some_iff option.inject)
      with Some show ?thesis by (force dest: map_of_SomeD)
    qed
    then have "kv \<in> set ?in \<longleftrightarrow> kv \<in> set ?ks" for kv
      using assms(3) by (cases kv) auto
    then show ?thesis by blast
  qed
  ultimately have "mset ?in = mset ?ks" by (simp only: set_eq_iff_mset_eq_distinct)
  then have "sum_list (map (g \<circ> snd) ?in) = sum_list (map (g \<circ> snd) ?ks)"
    by (simp only: sum_mset_sum_list [symmetric] mset_map)
  moreover have "sum_list (map (g \<circ> snd) m) = sum_list (map (g \<circ> snd) ?in) + sum_list (map (g \<circ> snd) (filter (\<lambda>kv. fst kv \<notin> set ks) m))"
    by (induction m) (auto simp: ac_simps)
  ultimately show ?thesis by (simp add: sum_over_def comp_def case_prod_unfold)
qed

definition file_rows :: "'r arrow_file \<Rightarrow> 'r multiset" where
  "file_rows f = (case af_content f of EmptyFile \<Rightarrow> {#} | ArrowStream s bs \<Rightarrow> mset (batches_rows bs))"

definition writer_rows :: "'r disk_writer \<Rightarrow> 'r multiset" where
  "writer_rows w = mset (batches_rows (dw_batches w))"

definition stored_rows :: "'r stream \<Rightarrow> 'r multiset" where
  "stored_rows st = sum_over writer_rows (st_disk st) + sum_over file_rows (st_arrows st)
     + sum_over file_rows (st_inprocess st) + sum_over mset (st_parquets st)"

section \<open>Flushing\<close>

definition rand_name :: "'r staging_env \<Rightarrow> string \<Rightarrow> string" where
  "rand_name env n = random_suffix env n @ the (from_date n)"

text \<open>The writers can be finished, and the random names are new and differ.\<close>

definition writers_finish :: "'r staging_env \<Rightarrow> string set \<Rightarrow> string set \<Rightarrow> bool" where
  "writers_finish env ws files \<longleftrightarrow>
     (\<forall>n \<in> ws. finish_ok env n \<and> rename_ok env n \<and> from_date n \<noteq> None) \<and>
     inj_on (rand_name env) ws \<and> rand_name env ` ws \<inter> (files \<union> ws) = {}"

lemma drop_writer_adds:
  assumes "finish_ok env n" "rename_ok env n" "from_date n \<noteq> None" "rand_name env n \<notin> set (keys_of (st_arrows st))"
  obtains n' where "n' \<in> {n, rand_name env n}" "n' \<notin> set (keys_of (st_arrows st))"
    "drop_writer env n w st = Some (st\<lparr>st_arrows := st_arrows st @
       [(n', \<lparr>af_created = dw_created w, af_content = ArrowStream (dw_schema w) (dw_batches w)\<rparr>)]\<rparr>)"
proof (cases "map_of (st_arrows st) n")
  case None
  with assms have "n \<notin> set (keys_of (st_arrows st))" by (simp add: map_of_eq_None_iff)
  with None assms show thesis
    by (intro that [of n]) (simp_all add: drop_writer_def final_name_def AList_update_fresh)
next
  case (Some f)
  with assms show thesis
    by (intro that [of "rand_name env n"]) (auto simp: drop_writer_def final_name_def rand_name_def AList_update_fresh)
qed

lemma drop_writers_adds:
  assumes "distinct_keys ws" and "writers_finish env (set (keys_of ws)) (set (keys_of (st_arrows st)))"
    and "distinct_keys (st_arrows st)"
  shows "\<exists>new. drop_writers env ws st = Some (st\<lparr>st_arrows := st_arrows st @ new\<rparr>) \<and>
    sum_over file_rows new = sum_over writer_rows ws \<and> distinct_keys (st_arrows st @ new) \<and>
    set (keys_of new) \<subseteq> set (keys_of ws) \<union> rand_name env ` set (keys_of ws)"
  using assms
proof (induction ws arbitrary: st)
  case Nil
  then show ?case by (intro exI [of _ "[]"]) simp
next
  case (Cons nw ws)
  obtain n w where nw: "nw = (n, w)" by force
  from Cons.prems(2) have "finish_ok env n" "rename_ok env n" "from_date n \<noteq> None"
    "rand_name env n \<notin> set (keys_of (st_arrows st))"
    by (auto simp: writers_finish_def nw)
  then obtain n' where n': "n' \<in> {n, rand_name env n}" "n' \<notin> set (keys_of (st_arrows st))"
    and drop: "drop_writer env n w st = Some (st\<lparr>st_arrows := st_arrows st @
       [(n', \<lparr>af_created = dw_created w, af_content = ArrowStream (dw_schema w) (dw_batches w)\<rparr>)]\<rparr>)"
    by (rule drop_writer_adds)
  let ?new = "(n', \<lparr>af_created = dw_created w, af_content = ArrowStream (dw_schema w) (dw_batches w)\<rparr>)"
  let ?st = "st\<lparr>st_arrows := st_arrows st @ [?new]\<rparr>"
  have "rand_name env m \<noteq> n'" if "m \<in> set (keys_of ws)" for m
  proof -
    from that Cons.prems(1) nw have "m \<noteq> n" by auto
    with Cons.prems(2) that nw have "rand_name env m \<noteq> rand_name env n"
      unfolding writers_finish_def by (metis inj_onD list.set_intros(1,2) list.simps(9) fst_conv)
    moreover have "rand_name env m \<noteq> n"
      using Cons.prems(2) that nw unfolding writers_finish_def by (auto simp: disjoint_iff)
    ultimately show ?thesis using n' by auto
  qed
  then have "writers_finish env (set (keys_of ws)) (set (keys_of (st_arrows ?st)))"
    using Cons.prems(2) nw unfolding writers_finish_def by (auto simp: inj_on_insert disjoint_iff)
  moreover have "distinct_keys ws" "distinct_keys (st_arrows ?st)" using Cons.prems n' nw by auto
  ultimately obtain new where new: "drop_writers env ws ?st = Some (?st\<lparr>st_arrows := st_arrows ?st @ new\<rparr>)"
    "sum_over file_rows new = sum_over writer_rows ws" "distinct_keys (st_arrows ?st @ new)"
    "set (keys_of new) \<subseteq> set (keys_of ws) \<union> rand_name env ` set (keys_of ws)"
    using Cons.IH by blast
  have "file_rows (snd ?new) = writer_rows w" by (simp add: file_rows_def writer_rows_def)
  with drop nw n' new show ?case
    by (intro exI [of _ "?new # new"]) auto
qed

section \<open>Moving and grouping\<close>

lemma keys_delete: "set (keys_of (AList.delete k m)) = set (keys_of m) - {k}"
  by (auto simp: AList.delete_eq)

lemma distinct_delete: "distinct_keys m \<Longrightarrow> distinct_keys (AList.delete k m)"
  by (simp add: AList.distinct_delete)

lemma move_arrow_files_keeps:
  fixes env :: "'r staging_env"
  assumes "distinct_keys fs" and "set fs \<subseteq> set (st_arrows st)" and "distinct_keys (st_arrows st)"
    and "distinct_keys (st_inprocess st)" and "\<forall>n \<in> set (keys_of fs). (minute, n) \<notin> set (keys_of (st_inprocess st))"
  defines "st' \<equiv> move_arrow_files env minute fs st"
  shows "sum_over file_rows (st_arrows st') + sum_over file_rows (st_inprocess st') =
      sum_over file_rows (st_arrows st) + sum_over file_rows (st_inprocess st) \<and>
    distinct_keys (st_arrows st') \<and> distinct_keys (st_inprocess st') \<and>
    st_disk st' = st_disk st \<and> st_parquets st' = st_parquets st"
  using assms(1-5) unfolding st'_def
proof (induction fs arbitrary: st)
  case Nil
  then show ?case by simp
next
  case (Cons nf fs)
  obtain n f where nf: "nf = (n, f)" by force
  from Cons.prems nf have nfs: "n \<notin> set (keys_of fs)" "(n, f) \<in> set (st_arrows st)" by auto
  have del: "sum_over file_rows (st_arrows st) = file_rows f + sum_over file_rows (AList.delete n (st_arrows st))"
    using sum_over_delete [OF Cons.prems(3) nfs(2)] .
  have rest: "set fs \<subseteq> set (AList.delete n (st_arrows st))"
    using Cons.prems(2) nfs(1) nf by (force simp: AList.delete_eq)
  show ?case
  proof (cases "af_content f = EmptyFile")
    case True
    let ?st = "st\<lparr>st_arrows := AList.delete n (st_arrows st)\<rparr>"
    from True have "file_rows f = {#}" by (simp add: file_rows_def)
    with Cons.IH [of ?st] Cons.prems rest del nf True distinct_delete show ?thesis by (auto simp: distinct_delete)
  next
    case False
    show ?thesis
    proof (cases "move_ok env n")
      case True
      let ?st = "st\<lparr>st_arrows := AList.delete n (st_arrows st), st_inprocess := AList.update (minute, n) f (st_inprocess st)\<rparr>"
      from Cons.prems nf have new: "(minute, n) \<notin> set (keys_of (st_inprocess st))" by simp
      then have "sum_over file_rows (st_inprocess ?st) = sum_over file_rows (st_inprocess st) + file_rows f"
        by (simp add: sum_over_update)
      moreover have "distinct_keys (st_inprocess ?st)" using Cons.prems(4) by (simp add: distinct_update)
      moreover have "\<forall>m \<in> set (keys_of fs). (minute, m) \<notin> set (keys_of (st_inprocess ?st))"
        using Cons.prems(5) nf nfs(1) by (auto simp: AList_update_fresh [OF new])
      ultimately show ?thesis
        using Cons.IH [of ?st] Cons.prems rest del nf True \<open>af_content f \<noteq> EmptyFile\<close> by (simp add: distinct_delete ac_simps)
    next
      case False
      with Cons.IH [of st] Cons.prems nf \<open>af_content f \<noteq> EmptyFile\<close> show ?thesis by simp
    qed
  qed
qed

text \<open>Groups have distinct names, made with the random text, and hold each file at most once.\<close>

definition groups_wf :: "string \<Rightarrow> groups \<Rightarrow> (int \<times> string) set \<Rightarrow> bool" where
  "groups_wf random gs files \<longleftrightarrow> distinct_keys gs \<and> distinct (concat (map snd gs)) \<and>
     set (concat (map snd gs)) \<subseteq> files \<and> (\<forall>p \<in> set (keys_of gs). suffix (''.'' @ random @ ''.parquet'') p)"

lemma arrow_path_to_parquet_suffix:
  "arrow_path_to_parquet n random = Some p \<Longrightarrow> suffix (''.'' @ random @ ''.parquet'') p"
  by (auto simp: arrow_path_to_parquet_def suffix_def split: option.splits if_splits)

lemma concat_update:
  assumes "distinct_keys gs"
  shows "mset (concat (map snd (AList.update p ((case map_of gs p of None \<Rightarrow> [] | Some ks \<Rightarrow> ks) @ [k]) gs))) =
    mset (concat (map snd gs)) + {#k#}"
  using assms
proof (induction gs)
  case Nil
  then show ?case by simp
next
  case (Cons g gs)
  then show ?case by (cases g) (auto simp: AList_update_fresh)
qed

lemma group_files_wf:
  assumes "groups_wf random gs files" and "distinct fs" and "set fs \<inter> files = {}"
  shows "groups_wf random (group_files random fs gs) (files \<union> set fs)"
  using assms
proof (induction fs arbitrary: gs files)
  case Nil
  then show ?case by simp
next
  case (Cons mn fs)
  obtain m n where mn: "mn = (m, n)" by force
  show ?case
  proof (cases "arrow_path_to_parquet n random")
    case None
    have "groups_wf random gs (insert mn files)" using Cons.prems(1) by (auto simp: groups_wf_def)
    with Cons.IH [of gs "insert mn files"] Cons.prems None mn show ?thesis by auto
  next
    case (Some p)
    let ?gs = "AList.update p ((case map_of gs p of None \<Rightarrow> [] | Some ks \<Rightarrow> ks) @ [mn]) gs"
    from Cons.prems(1) have gs: "distinct_keys gs" "distinct (concat (map snd gs))" "set (concat (map snd gs)) \<subseteq> files"
      by (auto simp: groups_wf_def)
    have ms: "mset (concat (map snd ?gs)) = mset (concat (map snd gs)) + {#mn#}" by (rule concat_update [OF gs(1)])
    then have "mset (concat (map snd ?gs)) = mset (mn # concat (map snd gs))" by simp
    moreover have "mn \<notin> set (concat (map snd gs))" using gs(3) Cons.prems(3) by auto
    ultimately have "distinct (concat (map snd ?gs))" using gs(2)
      by (metis distinct.simps(2) mset_eq_imp_distinct_iff)
    moreover have "set (concat (map snd ?gs)) \<subseteq> insert mn files"
      using \<open>mset (concat (map snd ?gs)) = mset (mn # concat (map snd gs))\<close> gs(3)
      by (metis insert_mono list.simps(15) mset_eq_setD)
    ultimately have "groups_wf random ?gs (insert mn files)"
      using Cons.prems(1) arrow_path_to_parquet_suffix [OF Some]
      by (auto simp: groups_wf_def distinct_update)
    with Cons.IH [of ?gs "insert mn files"] Cons.prems Some mn show ?thesis by auto
  qed
qed

section \<open>Converting\<close>

definition merge_keeps :: "'r staging_env \<Rightarrow> bool" where
  "merge_keeps env \<longleftrightarrow> (\<forall>r xss. mset (kmerge env r xss) = mset (concat xss))"

lemma reverse_rows: "mset (b_rows (reverse_batch b)) = mset (b_rows b)"
  by (simp add: reverse_batch_def)

lemma mset_batches_rows: "mset (batches_rows bs) = sum_list (map (mset \<circ> b_rows) bs)"
  by (induction bs) auto

lemma merged_iter_rows:
  assumes "merged_iter env schema readers = Some bs" and "merge_keeps env"
  shows "mset (batches_rows bs) = mset (batches_rows (concat readers))"
proof -
  let ?ms = "kmerge env (\<lambda>a b. batch_time env a > batch_time env b) readers"
  from assms(1) have "those (map (adapt_batch schema) (map reverse_batch ?ms)) = Some bs"
    by (simp add: merged_iter_def comp_def)
  then have "batches_rows bs = batches_rows (map reverse_batch ?ms)" by (rule adapted_rows)
  then have "mset (batches_rows bs) = sum_list (map (mset \<circ> b_rows) ?ms)"
    by (simp add: mset_batches_rows comp_def reverse_rows)
  also have "\<dots> = sum_list (map (mset \<circ> b_rows) (concat readers))"
    using assms(2) unfolding merge_keeps_def by (simp only: sum_mset_sum_list [symmetric] mset_map)
  finally show ?thesis by (simp add: mset_batches_rows)
qed

lemma batches_rows_rev: "mset (batches_rows (rev bs)) = mset (batches_rows bs)"
  by (induction bs) auto

lemma readers_rows:
  assumes "\<forall>n. open_ok env n" and "set ks \<subseteq> set (keys_of files)"
  shows "mset (batches_rows (concat (map snd (readers_of env files ks)))) =
    sum_list (map (\<lambda>k. file_rows (the (map_of files k))) ks)"
  using assms(2)
proof (induction ks)
  case Nil
  then show ?case by (simp add: readers_of_def List.map_filter_simps)
next
  case (Cons k ks)
  obtain m n where k: "k = (m, n)" by force
  from Cons.prems obtain f where f: "map_of files k = Some f"
    by (metis list.set_intros(1) map_of_eq_None_iff list.set_map not_Some_eq subset_iff)
  have "mset (batches_rows (concat (map snd (readers_of env files (k # ks))))) =
      file_rows f + mset (batches_rows (concat (map snd (readers_of env files ks))))"
    using f k assms(1)
    by (cases "af_content f")
      (simp_all add: readers_of_def List.map_filter_simps file_rows_def batches_rows_rev)
  with Cons f show ?case by simp
qed

lemma convert_group_cases:
  assumes c: "convert_group env (p, ks) st = Some (st', r)"
  shows "st' = st \<or> (\<exists>schema bs. merged_iter env schema (map snd (readers_of env (st_inprocess st) ks)) = Some bs \<and>
    st' = cleanup_arrow_files env ks (st\<lparr>st_parquets := AList.update p (concat (map b_rows bs)) (st_parquets st)\<rparr>))"
proof (cases "readers_of env (st_inprocess st) ks = []")
  case True
  with c show ?thesis by (simp add: convert_group_def)
next
  case False
  then show ?thesis
  proof (cases "merge_all (merge env) (map fst (readers_of env (st_inprocess st) ks))")
    case None
    with False c show ?thesis by (simp add: convert_group_def del: merge_all.simps)
  next
    case (Some schema)
    show ?thesis
    proof (cases "part_ok env p")
      case True
      with False Some c obtain bs where bs: "merged_iter env schema (map snd (readers_of env (st_inprocess st) ks)) = Some bs"
        by (cases "merged_iter env schema (map snd (readers_of env (st_inprocess st) ks))")
          (simp_all add: convert_group_def del: merge_all.simps)
      with False Some True c have "(if concat (map b_rows bs) = [] \<or> \<not> rename_ok env p then Some (st, Inr (Some schema))
          else Some (cleanup_arrow_files env ks
            (st\<lparr>st_parquets := AList.update p (concat (map b_rows bs)) (st_parquets st)\<rparr>), Inr (Some schema))) = Some (st', r)"
        unfolding convert_group_def Let_def fst_conv snd_conv by (simp del: merge_all.simps concat_eq_Nil_conv)
      then have "st' = st \<or> st' = cleanup_arrow_files env ks
          (st\<lparr>st_parquets := AList.update p (concat (map b_rows bs)) (st_parquets st)\<rparr>)"
        by (auto simp del: concat_eq_Nil_conv split: if_splits)
      with bs show ?thesis by blast
    qed (use False Some c in \<open>simp add: convert_group_def del: merge_all.simps\<close>)
  qed
qed

lemma convert_group_keeps:
  assumes c: "convert_group env (p, ks) st = Some (st', r)" and "merge_keeps env"
    and ok: "\<forall>n. open_ok env n" "\<forall>n. remove_ok env n"
    and st: "distinct_keys (st_inprocess st)" "p \<notin> set (keys_of (st_parquets st))"
    and ks: "distinct ks" "set ks \<subseteq> set (keys_of (st_inprocess st))"
  shows "stored_rows st' = stored_rows st \<and> distinct_keys (st_inprocess st') \<and>
    set (keys_of (st_inprocess st)) - set ks \<subseteq> set (keys_of (st_inprocess st')) \<and>
    set (keys_of (st_parquets st')) \<subseteq> insert p (set (keys_of (st_parquets st)))"
proof -
  let ?readers = "readers_of env (st_inprocess st) ks"
  consider "st' = st"
    | schema bs where "merged_iter env schema (map snd ?readers) = Some bs"
      "st' = cleanup_arrow_files env ks (st\<lparr>st_parquets := AList.update p (concat (map b_rows bs)) (st_parquets st)\<rparr>)"
    using convert_group_cases [OF c] by blast
  then show ?thesis
  proof cases
    case 1
    with st show ?thesis by auto
  next
    case 2
    let ?rows = "concat (map b_rows bs)"
    have "mset ?rows = mset (batches_rows (concat (map snd ?readers)))"
      using merged_iter_rows [OF 2(1) assms(2)] by (simp add: batches_rows_def)
    also have "\<dots> = sum_list (map (\<lambda>k. file_rows (the (map_of (st_inprocess st) k))) ks)"
      by (rule readers_rows [OF ok(1) ks(2)])
    finally have rows: "sum_over file_rows (st_inprocess st) =
        mset ?rows + sum_over file_rows (filter (\<lambda>(k, f). k \<notin> set ks) (st_inprocess st))"
      using sum_over_keys [OF st(1) ks, of file_rows] by simp
    have "AList.update p ?rows (st_parquets st) = st_parquets st @ [(p, ?rows)]"
      using st(2) by (rule AList_update_fresh)
    with 2(2) ok(2) have st': "st' = st\<lparr>st_parquets := st_parquets st @ [(p, ?rows)],
        st_inprocess := filter (\<lambda>(k, f). k \<notin> set ks) (st_inprocess st)\<rparr>"
      by (simp add: cleanup_arrow_files_def case_prod_unfold)
    have "distinct_keys (filter (\<lambda>(k, f). k \<notin> set ks) (st_inprocess st))"
      using st(1) by (rule distinct_map_filter)
    moreover have "set (keys_of (st_inprocess st)) - set ks \<subseteq> set (keys_of (filter (\<lambda>(k, f). k \<notin> set ks) (st_inprocess st)))"
      by force
    moreover have "stored_rows st' = stored_rows st"
      unfolding stored_rows_def rows st' by (simp add: ac_simps)
    ultimately show ?thesis unfolding st' by simp
  qed
qed

lemma convert_groups_keeps:
  assumes "convert_groups env gs st = Some (st', r)" and "merge_keeps env"
    and ok: "\<forall>n. open_ok env n" "\<forall>n. remove_ok env n"
    and "distinct_keys (st_inprocess st)" and "set (keys_of gs) \<inter> set (keys_of (st_parquets st)) = {}"
    and "groups_wf random gs (set (keys_of (st_inprocess st)))"
  shows "stored_rows st' = stored_rows st"
  using assms(1,5-7)
proof (induction gs arbitrary: st r)
  case Nil
  then show ?case by simp
next
  case (Cons g gs)
  obtain p ks where g: "g = (p, ks)" by force
  from Cons.prems(1) obtain st1 s where c: "convert_group env (p, ks) st = Some (st1, s)"
    by (auto simp: g split: option.splits)
  from Cons.prems(4) g have ks: "distinct ks" "set ks \<subseteq> set (keys_of (st_inprocess st))"
    by (auto simp: groups_wf_def)
  from Cons.prems(3) g have p: "p \<notin> set (keys_of (st_parquets st))" by auto
  note kept = convert_group_keeps [OF c assms(2) ok Cons.prems(2) p ks]
  show ?case
  proof (cases s)
    case (Inl e)
    with Cons.prems(1) c g kept show ?thesis by auto
  next
    case (Inr x)
    with Cons.prems(1) c g obtain r' where rest: "convert_groups env gs st1 = Some (st', r')"
      by (auto split: option.splits)
    have "set (concat (map snd gs)) \<subseteq> set (keys_of (st_inprocess st)) - set ks"
      using Cons.prems(4) g by (auto simp: groups_wf_def)
    also have "\<dots> \<subseteq> set (keys_of (st_inprocess st1))" using kept by blast
    finally have "groups_wf random gs (set (keys_of (st_inprocess st1)))"
      using Cons.prems(4) g by (auto simp: groups_wf_def)
    moreover have "set (keys_of gs) \<inter> set (keys_of (st_parquets st1)) = {}"
    proof -
      have "p \<notin> set (keys_of gs)" using Cons.prems(4) g by (simp add: groups_wf_def)
      moreover from kept have "set (keys_of (st_parquets st1)) \<subseteq> insert p (set (keys_of (st_parquets st)))" by blast
      moreover from Cons.prems(3) g have "set (keys_of gs) \<inter> set (keys_of (st_parquets st)) = {}" by auto
      ultimately show ?thesis by blast
    qed
    ultimately have "stored_rows st' = stored_rows st1" using Cons.IH [OF rest] kept by blast
    with kept show ?thesis by simp
  qed
qed

section \<open>The whole cycle\<close>

text \<open>No two files get the same name: a random text is new, no file of this minute's directory has the
  name of a file that moves there, and no parquet file carries this run's random text.\<close>

definition names_free :: "'r staging_env \<Rightarrow> string \<Rightarrow> int \<Rightarrow> 'r stream \<Rightarrow> bool" where
  "names_free env random minute st \<longleftrightarrow>
     (let writers = set (keys_of (st_disk st)); files = set (keys_of (st_arrows st)) in
      distinct_keys (st_disk st) \<and> distinct_keys (st_arrows st) \<and> distinct_keys (st_inprocess st) \<and>
      (\<forall>n \<in> writers. from_date n \<noteq> None) \<and>
      inj_on (rand_name env) writers \<and> rand_name env ` writers \<inter> (files \<union> writers) = {} \<and>
      (\<forall>n \<in> writers \<union> files \<union> rand_name env ` writers. (minute, n) \<notin> set (keys_of (st_inprocess st))) \<and>
      (\<forall>p \<in> set (keys_of (st_parquets st)). \<not> suffix (''.'' @ random @ ''.parquet'') p))"

text \<open>Every open part file can be finished and renamed to an arrow file.\<close>

definition parts_finish :: "'r staging_env \<Rightarrow> 'r stream \<Rightarrow> bool" where
  "parts_finish env st \<longleftrightarrow> (\<forall>n \<in> set (keys_of (st_disk st)). finish_ok env n \<and> rename_ok env n)"

lemma sum_over_filter:
  "sum_over g (filter P m) + sum_over g (filter (\<lambda>x. \<not> P x) m) = sum_over g m"
  by (induction m) (auto simp: ac_simps)

lemma writers_finish_subset: "writers_finish env ws fs \<Longrightarrow> vs \<subseteq> ws \<Longrightarrow> writers_finish env vs fs"
  unfolding writers_finish_def by (auto intro: inj_on_subset)

lemma flush_keeps:
  assumes "names_free env random minute st" and "parts_finish env st"
  shows "\<exists>st1. flush env clock forced st = Some st1 \<and> stored_rows st1 = stored_rows st \<and>
    distinct_keys (st_arrows st1) \<and> distinct_keys (st_inprocess st1) \<and>
    (\<forall>n \<in> set (keys_of (st_arrows st1)). (minute, n) \<notin> set (keys_of (st_inprocess st1))) \<and>
    st_parquets st1 = st_parquets st"
proof -
  let ?gone = "filter (\<lambda>nw. \<not> keeps_writer clock forced nw) (st_disk st)"
  let ?st = "st\<lparr>st_mem := empty_mem, st_disk := filter (keeps_writer clock forced) (st_disk st)\<rparr>"
  from assms have d: "distinct_keys (st_disk st)" "distinct_keys (st_arrows st)" "distinct_keys (st_inprocess st)"
    and w: "writers_finish env (set (keys_of (st_disk st))) (set (keys_of (st_arrows st)))"
    and free: "\<forall>n \<in> set (keys_of (st_disk st)) \<union> set (keys_of (st_arrows st)) \<union> rand_name env ` set (keys_of (st_disk st)).
      (minute, n) \<notin> set (keys_of (st_inprocess st))"
    by (auto simp: names_free_def parts_finish_def writers_finish_def Let_def)
  have sub: "set (keys_of ?gone) \<subseteq> set (keys_of (st_disk st))" by auto
  have "distinct_keys ?gone" using d(1) by (rule distinct_map_filter)
  moreover have "writers_finish env (set (keys_of ?gone)) (set (keys_of (st_arrows ?st)))"
    using writers_finish_subset [OF w sub] by simp
  ultimately obtain new where new: "drop_writers env ?gone ?st = Some (?st\<lparr>st_arrows := st_arrows ?st @ new\<rparr>)"
    "sum_over file_rows new = sum_over writer_rows ?gone" "distinct_keys (st_arrows ?st @ new)"
    "set (keys_of new) \<subseteq> set (keys_of ?gone) \<union> rand_name env ` set (keys_of ?gone)"
    using drop_writers_adds [of ?gone env ?st] d(2) by auto
  have "stored_rows (?st\<lparr>st_arrows := st_arrows ?st @ new\<rparr>) = stored_rows st"
    using new(2) sum_over_filter [of writer_rows "keeps_writer clock forced" "st_disk st"]
    by (simp add: stored_rows_def ac_simps)
  moreover have "set (keys_of (st_arrows st @ new)) \<subseteq>
      set (keys_of (st_disk st)) \<union> set (keys_of (st_arrows st)) \<union> rand_name env ` set (keys_of (st_disk st))"
    unfolding map_append set_append using new(4) sub image_mono [OF sub, of "rand_name env"] by blast
  then have "\<forall>n \<in> set (keys_of (st_arrows st @ new)). (minute, n) \<notin> set (keys_of (st_inprocess st))"
    using free by blast
  ultimately show ?thesis using new(1,3) d(3) by (auto simp: flush_def)
qed

lemma fetch_facts:
  assumes "distinct_keys (st_arrows st)"
  shows "distinct_keys (fetch_arrow_files_for_conversion exclude shutdown st) \<and>
    set (fetch_arrow_files_for_conversion exclude shutdown st) \<subseteq> set (st_arrows st)"
  using assms by (auto simp: fetch_arrow_files_for_conversion_def intro: distinct_map_filter)

lemma grouped_keeps:
  assumes "arrow_files_grouped_exclude_time env random exclude minute init shutdown st = (st', gs)"
    and "distinct_keys (st_arrows st)" and "distinct_keys (st_inprocess st)"
    and "\<forall>n \<in> set (keys_of (st_arrows st)). (minute, n) \<notin> set (keys_of (st_inprocess st))"
  shows "stored_rows st' = stored_rows st \<and> distinct_keys (st_inprocess st') \<and>
    st_parquets st' = st_parquets st \<and> groups_wf random gs (set (keys_of (st_inprocess st')))"
proof -
  let ?fs = "fetch_arrow_files_for_conversion exclude shutdown st"
  show ?thesis
  proof (cases "?fs \<noteq> [] \<and> \<not> dir_ok env")
    case True
    with assms show ?thesis by (auto simp: arrow_files_grouped_exclude_time_def Let_def groups_wf_def)
  next
    case False
    let ?st = "move_arrow_files env minute ?fs st"
    let ?ks = "filter (\<lambda>(m, n). init \<or> m = minute) (keys_of (st_inprocess ?st))"
    from False assms(1) have st': "st' = ?st" and gs: "gs = group_files random ?ks []"
      by (auto simp: arrow_files_grouped_exclude_time_def Let_def)
    have "\<forall>n \<in> set (keys_of ?fs). (minute, n) \<notin> set (keys_of (st_inprocess st))"
      using assms(4) fetch_facts [OF assms(2), of exclude shutdown] by fastforce
    with move_arrow_files_keeps [of ?fs st minute env] assms(2,3) fetch_facts [OF assms(2), of exclude shutdown]
    have kept: "sum_over file_rows (st_arrows ?st) + sum_over file_rows (st_inprocess ?st) =
        sum_over file_rows (st_arrows st) + sum_over file_rows (st_inprocess st)"
      "distinct_keys (st_inprocess ?st)" "st_disk ?st = st_disk st" "st_parquets ?st = st_parquets st" by auto
    have "groups_wf random [] {}" by (simp add: groups_wf_def)
    moreover have "distinct ?ks" using kept(2) by simp
    ultimately have "groups_wf random gs ({} \<union> set ?ks)" unfolding gs by (intro group_files_wf) simp_all
    then have "groups_wf random gs (set (keys_of (st_inprocess ?st)))" by (auto simp: groups_wf_def)
    with kept st' show ?thesis by (auto simp: stored_rows_def ac_simps)
  qed
qed

lemma prepare_parquet_rows:
  assumes "prepare_parquet env name random clock static init shutdown st = Some (st', r)"
  shows "\<exists>st1 q. convert_disk_files_to_parquet env random clock init shutdown st = Some (st1, q) \<and>
    stored_rows st' = stored_rows st1"
proof (cases "convert_disk_files_to_parquet env random clock init shutdown st")
  case None
  with assms show ?thesis by (simp add: prepare_parquet_def)
next
  case (Some sq)
  obtain st1 q where sq: "sq = (st1, q)" by force
  have "st' = st1 \<or> (\<exists>fs. st' = st1\<lparr>st_schema_files := fs\<rparr>)"
  proof (cases q)
    case (Inl e)
    with assms Some sq show ?thesis by (simp add: prepare_parquet_def)
  next
    case (Inr s)
    with assms Some sq show ?thesis
      by (cases s) (auto simp: prepare_parquet_def simp del: merge_all.simps split: if_splits option.splits)
  qed
  then have "stored_rows st' = stored_rows st1" by (auto simp: stored_rows_def)
  with Some sq show ?thesis by blast
qed

text \<open>C8: A cycle of flushing and converting that does not panic keeps every row that staging holds,
  exactly once: the rows are in the writers, the arrow files, the files in conversion and the
  parquet files together. The cycle may succeed or fail: the directory of the minute may not be
  made, an arrow file not be moved into it, a parquet part not be written or not be renamed. It
  needs that every open part file can be finished and renamed to an arrow file, that finished
  files can be opened and removed, that the merge of readers keeps their batches, and that names
  carry a date and are not used twice.\<close>

theorem cycle_keeps_rows:
  assumes "flush_and_convert env name random clock static init shutdown st = Some (st', r)"
    and "merge_keeps env" and "\<forall>n. open_ok env n" and "\<forall>n. remove_ok env n"
    and "names_free env random (system_minute clock - 1) st" and "parts_finish env st"
  shows "stored_rows st' = stored_rows st"
proof -
  from flush_keeps [OF assms(5,6), of clock "init \<or> shutdown"] obtain st1 where
    st1: "flush env clock (init \<or> shutdown) st = Some st1" "stored_rows st1 = stored_rows st"
      "distinct_keys (st_arrows st1)" "distinct_keys (st_inprocess st1)"
      "\<forall>n \<in> set (keys_of (st_arrows st1)). (system_minute clock - 1, n) \<notin> set (keys_of (st_inprocess st1))"
      "st_parquets st1 = st_parquets st" by blast
  obtain st2 gs where g: "arrow_files_grouped_exclude_time env random clock (system_minute clock - 1) init shutdown st1 = (st2, gs)"
    by force
  note grouped = grouped_keeps [OF g st1(3-5)]
  from assms(1) st1(1) have "prepare_parquet env name random clock static init shutdown st1 = Some (st', r)"
    by (simp add: flush_and_convert_def)
  then obtain st3 q where conv: "convert_disk_files_to_parquet env random clock init shutdown st1 = Some (st3, q)"
    and same: "stored_rows st' = stored_rows st3"
    using prepare_parquet_rows by blast
  from conv g obtain q' where q: "convert_groups env gs st2 = Some (st3, q')"
    by (auto simp: convert_disk_files_to_parquet_def)
  have "set (keys_of gs) \<inter> set (keys_of (st_parquets st2)) = {}"
  proof -
    from assms(5) st1(6) grouped have
      "\<forall>p \<in> set (keys_of (st_parquets st2)). \<not> suffix (''.'' @ random @ ''.parquet'') p"
      by (simp add: names_free_def Let_def)
    moreover from grouped have "\<forall>p \<in> set (keys_of gs). suffix (''.'' @ random @ ''.parquet'') p"
      by (simp add: groups_wf_def)
    ultimately show ?thesis by blast
  qed
  from convert_groups_keeps [OF q assms(2-4)] grouped this have "stored_rows st3 = stored_rows st2" by blast
  with same grouped st1(2) show ?thesis by simp
qed

section \<open>Pushing\<close>

lemma push_rows:
  assumes "push env clock key rb parsed vals internal st = Some (st', r)"
    and "distinct_keys (st_disk st)" and "distinct_keys (st_arrows st)"
    and "\<forall>n. rand_name env n \<notin> set (keys_of (st_arrows st))"
  shows "stored_rows st' = stored_rows st +
    (if r = Inr () \<and> (\<not> query_mode env \<or> internal) then mset (b_rows rb) else {#})"
proof (cases "\<not> query_mode env \<or> internal")
  case False
  with assms(1) show ?thesis by (auto simp: push_def stored_rows_def)
next
  case True
  with assms(1) obtain n st1 r1 where p: "push_disk env clock n rb parsed st = Some (st1, r1)"
    and same: "r1 = r" "stored_rows st' = stored_rows st1"
    by (auto simp: push_def stored_rows_def split: option.splits sum.splits)
  have "stored_rows st1 = stored_rows st + (if r1 = Inr () then mset (b_rows rb) else {#})"
  proof (cases "map_of (st_disk st) n")
    case None
    let ?w = "\<lparr>dw_created = clock, dw_schema = b_fields rb, dw_batches = [], dw_range = granularity_range parsed data_granularity\<rparr>"
    from None have new: "n \<notin> set (keys_of (st_disk st))" by (simp add: map_of_eq_None_iff)
    show ?thesis
    proof (cases "dir_ok env \<and> create_ok env n \<and> \<not> write_ok env rb")
      case True
      with p None obtain "drop_writer env n ?w st = Some st1" "r1 = Inl ArrowError"
        by (auto simp: push_disk_def Let_def)
      moreover have "stored_rows st1 = stored_rows st" if d: "drop_writer env n ?w st = Some st1"
      proof (cases "finish_ok env n \<and> rename_ok env n")
        case True
        with d obtain n' where "final_name env n st = Some n'" and st1: "st1 = st\<lparr>st_arrows := AList.update n'
            \<lparr>af_created = clock, af_content = ArrowStream (b_fields rb) []\<rparr> (st_arrows st)\<rparr>"
          by (auto simp: drop_writer_def split: option.splits)
        then have "n' \<notin> set (keys_of (st_arrows st))"
          using assms(4) [rule_format, of n] by (force simp: final_name_def rand_name_def map_of_eq_None_iff split: if_splits)
        then have "sum_over file_rows (st_arrows st1) = sum_over file_rows (st_arrows st)"
          by (simp add: st1 sum_over_update file_rows_def)
        with st1 show ?thesis by (simp add: stored_rows_def)
      next
        case False
        with d show ?thesis by (auto simp: drop_writer_def split: if_splits option.splits)
      qed
      ultimately show ?thesis by simp
    next
      case False
      with p None new show ?thesis
        by (auto simp: push_disk_def Let_def stored_rows_def sum_over_update writer_rows_def split: if_splits)
    qed
  next
    case (Some w)
    have "sum_over writer_rows (AList.update n v (st_disk st)) + writer_rows w =
        sum_over writer_rows (st_disk st) + writer_rows v" for v
      using Some assms(2)
    proof (induction "st_disk st" arbitrary: st)
      case Nil
      then show ?case by simp
    next
      case (Cons nw ws)
      from Cons(2) Cons(3-4) Cons(1) [of "st\<lparr>st_disk := ws\<rparr>"] show ?case
        by (cases nw) (auto simp: Cons(2) [symmetric] ac_simps split: if_splits)
    qed
    from this [of "w\<lparr>dw_batches := dw_batches w @ [rb]\<rparr>"]
    have "sum_over writer_rows (AList.update n (w\<lparr>dw_batches := dw_batches w @ [rb]\<rparr>) (st_disk st)) =
        sum_over writer_rows (st_disk st) + mset (b_rows rb)"
      by (simp add: writer_rows_def)
    with p Some show ?thesis
      by (auto simp: push_disk_def stored_rows_def split: if_splits)
  qed
  with same True show ?thesis by auto
qed

text \<open>A pushed batch is stored exactly once when the push succeeds on a node that stages the stream,
  and not at all when it fails.\<close>

theorem push_stores_once:
  assumes "push env clock key rb parsed vals internal st = Some (st', r)"
    and "distinct_keys (st_disk st)" and "distinct_keys (st_arrows st)"
    and "\<forall>n. rand_name env n \<notin> set (keys_of (st_arrows st))"
  shows "stored_rows st' = stored_rows st +
    (if r = Inr () \<and> (\<not> query_mode env \<or> internal) then mset (b_rows rb) else {#})"
  using assms by (rule push_rows)

section \<open>How rows are lost or hidden\<close>

lemma map_of_filter_key: "map_of (filter (\<lambda>(k, v). P k) m) k = (if P k then map_of m k else None)"
  by (induction m) auto

text \<open>C29: When a group of files is converted, a file that could not be opened is removed with the others,
  although the parquet file holds only the rows of the files that could be read.\<close>

theorem unreadable_file_lost:
  assumes "convert_group env (p, ks) st = Some (st', r)" and "st' \<noteq> st" and "merge_keeps env"
    and "k \<in> set ks" and "\<not> open_ok env (snd k)" and "remove_ok env (snd k)"
  shows "map_of (st_inprocess st') k = None \<and>
    (\<exists>rows. map_of (st_parquets st') p = Some rows \<and> mset rows =
       mset (batches_rows (concat (map snd (readers_of env (st_inprocess st) (filter (\<lambda>k. open_ok env (snd k)) ks))))))"
proof -
  from convert_group_cases [OF assms(1)] assms(2) obtain schema bs where
    m: "merged_iter env schema (map snd (readers_of env (st_inprocess st) ks)) = Some bs"
    and st': "st' = cleanup_arrow_files env ks (st\<lparr>st_parquets := AList.update p (concat (map b_rows bs)) (st_parquets st)\<rparr>)"
    by blast
  have "readers_of env (st_inprocess st) ks = readers_of env (st_inprocess st) (filter (\<lambda>k. open_ok env (snd k)) ks)"
    by (induction ks) (auto simp: readers_of_def List.map_filter_simps split: option.splits if_splits)
  with merged_iter_rows [OF m assms(3)] have "mset (concat (map b_rows bs)) =
      mset (batches_rows (concat (map snd (readers_of env (st_inprocess st) (filter (\<lambda>k. open_ok env (snd k)) ks)))))"
    by (simp add: batches_rows_def)
  moreover have "map_of (st_inprocess st') k = None"
    using st' assms(4,6) by (simp add: cleanup_arrow_files_def map_of_filter_key)
  moreover have "map_of (st_parquets st') p = Some (concat (map b_rows bs))"
    using st' by (simp add: cleanup_arrow_files_def update_conv')
  ultimately show ?thesis by blast
qed

text \<open>A file moved into the directory of a minute replaces one of the same name that an earlier cycle
  of that minute left there, and its rows are gone.\<close>

theorem same_minute_replaces:
  assumes "map_of (st_inprocess st) (minute, n) = Some g" and "(n, f) \<in> set (st_arrows st)"
    and "distinct_keys (st_arrows st)" and "distinct_keys (st_inprocess st)"
    and "move_ok env n" and "af_content f \<noteq> EmptyFile"
  shows "stored_rows (move_arrow_files env minute [(n, f)] st) + file_rows g = stored_rows st"
proof -
  have upd: "sum_over file_rows (AList.update k v m) + file_rows w = sum_over file_rows m + file_rows v"
    if "map_of m k = Some w" for k :: "int \<times> string" and v w m
    using that by (induction m) (auto simp: ac_simps split: if_splits)
  show ?thesis
    using upd [OF assms(1), of f] sum_over_delete [OF assms(3,2), of file_rows] assms(5,6)
    by (simp add: stored_rows_def ac_simps)
qed

lemma group_files_members: "set (concat (map snd (group_files random fs gs))) \<subseteq> set fs \<union> set (concat (map snd gs))"
proof (induction fs arbitrary: gs)
  case Nil
  then show ?case by simp
next
  case (Cons mn fs)
  obtain m n where mn: "mn = (m, n)" by force
  show ?case
  proof (cases "arrow_path_to_parquet n random")
    case None
    with Cons.IH [of gs] mn show ?thesis by auto
  next
    case (Some p)
    let ?v = "(case map_of gs p of None \<Rightarrow> [] | Some ks \<Rightarrow> ks) @ [mn]"
    have "set (concat (map snd (AList.update p ?v gs))) \<subseteq> insert mn (set (concat (map snd gs)))"
      using set_AList_update [of p ?v gs] by (force split: option.splits dest: map_of_SomeD)
    with Cons.IH [of "AList.update p ?v gs"] mn Some show ?thesis by auto
  qed
qed

lemma convert_groups_untouched:
  assumes "convert_groups env gs st = Some (st', r)" and "k \<notin> set (concat (map snd gs))"
  shows "map_of (st_inprocess st') k = map_of (st_inprocess st) k"
  using assms
proof (induction gs arbitrary: st r)
  case Nil
  then show ?case by simp
next
  case (Cons g gs)
  obtain p ks where g: "g = (p, ks)" by force
  from Cons.prems(1) obtain st1 s where c: "convert_group env (p, ks) st = Some (st1, s)"
    by (auto simp: g split: option.splits)
  have "k \<notin> set ks" using Cons.prems(2) g by simp
  then have same: "map_of (st_inprocess st1) k = map_of (st_inprocess st) k"
    using convert_group_cases [OF c] by (auto simp: cleanup_arrow_files_def map_of_filter_key)
  show ?case
  proof (cases s)
    case (Inl e)
    with Cons.prems(1) c g same show ?thesis by auto
  next
    case (Inr x)
    with Cons.prems(1) c g obtain r' where "convert_groups env gs st1 = Some (st', r')"
      by (auto split: option.splits)
    with Cons.IH [of st1 r'] Cons.prems(2) same show ?thesis by simp
  qed
qed

lemma move_arrow_files_other_minute:
  "m \<noteq> minute \<Longrightarrow> map_of (st_inprocess (move_arrow_files env minute fs st)) (m, n) = map_of (st_inprocess st) (m, n)"
proof (induction fs arbitrary: st)
  case Nil
  then show ?case by simp
next
  case (Cons nf fs)
  then show ?case by (cases nf) (simp add: update_conv')
qed

text \<open>What a failed conversion leaves in the directory of its minute stays there: no later cycle touches
  the files of another minute, until the start of a process converts all directories.\<close>

theorem earlier_minutes_left:
  assumes "convert_disk_files_to_parquet env random clock False shutdown st = Some (st', r)"
    and "m \<noteq> system_minute clock - 1"
  shows "map_of (st_inprocess st') (m, n) = map_of (st_inprocess st) (m, n)"
proof -
  let ?min = "system_minute clock - 1"
  obtain st1 gs where g: "arrow_files_grouped_exclude_time env random clock ?min False shutdown st = (st1, gs)" by force
  from assms(1) g obtain q where q: "convert_groups env gs st1 = Some (st', q)"
    by (auto simp: convert_disk_files_to_parquet_def)
  from g have "gs = [] \<or> gs = group_files random (filter (\<lambda>(m, n). m = ?min) (keys_of (st_inprocess st1))) []"
    by (auto simp: arrow_files_grouped_exclude_time_def Let_def split: if_splits)
  then have "(m, n) \<notin> set (concat (map snd gs))"
    using group_files_members [of random "filter (\<lambda>(m, n). m = ?min) (keys_of (st_inprocess st1))" "[]"] assms(2) by auto
  from convert_groups_untouched [OF q this] have "map_of (st_inprocess st') (m, n) = map_of (st_inprocess st1) (m, n)" .
  moreover have "map_of (st_inprocess st1) (m, n) = map_of (st_inprocess st) (m, n)"
    using g move_arrow_files_other_minute [OF assms(2)]
    by (auto simp: arrow_files_grouped_exclude_time_def Let_def split: if_splits)
  ultimately show ?thesis by simp
qed

text \<open>A flush empties the memory that queries read, also of the rows whose writer it keeps open: these
  rows are in no place a query reads until the writer is closed and its file converted.\<close>

theorem flush_hides_current_rows:
  assumes "flush env clock False st = Some st'" and "(n, w) \<in> set (st_disk st)" and "is_current clock w"
    and "distinct_keys (st_disk st)"
  shows "(n, w) \<in> set (st_disk st') \<and> recordbatch_cloned schema (st_mem st') = Some [] \<and>
    st_parquets st' = st_parquets st"
proof -
  have kept: "st_disk st2 = st_disk st1 \<and> st_mem st2 = st_mem st1 \<and> st_parquets st2 = st_parquets st1"
    if "drop_writers env ws st1 = Some st2" for ws st1 st2
    using that
  proof (induction ws arbitrary: st1)
    case Nil
    then show ?case by simp
  next
    case (Cons nw ws)
    then show ?case
      by (cases nw) (fastforce simp: drop_writer_def split: option.splits if_splits)
  qed
  from kept [OF assms(1) [unfolded flush_def]] assms(2,3) show ?thesis
    by (simp add: keeps_writer_def recordbatch_cloned_def empty_mem_def)
qed

text \<open>The key of a schema joins the names of its fields, so two schemas whose sorted names join to the
  same text share their writer: the second batch is written to a file that has the schema of the first.\<close>

theorem schema_keys_collide:
  assumes "concat (sort (map field_name (b_fields a))) = concat (sort (map field_name (b_fields b)))"
    and "\<not> query_mode env" and "dir_ok env" and "create_ok env n" and "write_ok env a" and "write_ok env b"
    and "push env clock (get_schema_key xxh3 (b_fields a)) a t vals internal st = Some (st1, Inr ())"
    and "push env clock (get_schema_key xxh3 (b_fields b)) b t vals internal st1 = Some (st2, Inr ())"
    and "filename_by_partition env (get_schema_key xxh3 (b_fields a)) t vals = Some n"
    and "map_of (st_disk st) n = None"
  shows "\<exists>w. map_of (st_disk st2) n = Some w \<and> dw_schema w = b_fields a \<and> dw_batches w = [a, b]"
proof -
  have key: "get_schema_key xxh3 (b_fields b) = get_schema_key xxh3 (b_fields a)"
    using assms(1) by (simp add: schema_key_names)
  let ?w = "\<lparr>dw_created = clock, dw_schema = b_fields a, dw_batches = [a],
      dw_range = granularity_range t data_granularity\<rparr>"
  from assms(2-7,9,10) have "map_of (st_disk st1) n = Some ?w"
    by (auto simp: push_def push_disk_def Let_def update_conv')
  with assms(2,6,8,9) key show ?thesis
    by (auto simp: push_def push_disk_def update_conv')
qed

text \<open>A slash in the value of a custom partition reaches the name of the arrow file, so the file lies in
  a directory that nobody made and creating it is a panic.\<close>

theorem slash_reaches_file_name:
  assumes "(k, v) \<in> set vals" and "CHR ''/'' \<in> set v"
    and "filename_by_partition env key t vals = Some n" and "\<forall>n. CHR ''/'' \<in> set n \<longrightarrow> \<not> create_ok env n"
    and "dir_ok env" and "map_of (st_disk st) n = None" and "\<not> query_mode env"
  shows "push env clock key rb t vals internal st = None"
proof -
  have "(k, v) \<in> set (sort_key fst vals)" using assms(1) by simp
  with assms(2) have "CHR ''/'' \<in> set (partition_part vals)" by (force simp: partition_part_def)
  with assms(3) have "CHR ''/'' \<in> set n" by (auto simp: filename_by_partition_def file_name_def)
  with assms show ?thesis by (simp add: push_def push_disk_def)
qed

section \<open>An example\<close>

definition sample_staging :: "nat staging_env" where
  "sample_staging = \<lparr>merge = (\<lambda>a b. Some (if a = [] then b else a)), kmerge = (\<lambda>_. concat), batch_time = (\<lambda>_. 0),
     show_date = (\<lambda>_. ''d''), host = ''h'', query_mode = False, dir_ok = True, create_ok = (\<lambda>n. CHR ''/'' \<notin> set n),
     write_ok = (\<lambda>_. True), finish_ok = (\<lambda>_. True), rename_ok = (\<lambda>_. True), move_ok = (\<lambda>_. True),
     open_ok = (\<lambda>_. True), part_ok = (\<lambda>_. True), remove_ok = (\<lambda>_. True), write_schema_ok = True,
     random_suffix = (\<lambda>n. ''r'')\<rparr>"

definition empty_stream :: "nat stream" where
  "empty_stream = \<lparr>st_mem = empty_mem, st_disk = [], st_arrows = [], st_inprocess = [], st_parquets = [],
     st_schema_files = []\<rparr>"

definition sample_batch1 :: "nat batch" where
  "sample_batch1 = \<lparr>b_fields = [Field ''a'' Utf8 True], b_rows = [1, 2]\<rparr>"

definition sample_arrow :: "nat arrow_file" where
  "sample_arrow = \<lparr>af_created = 0, af_content = ArrowStream (b_fields sample_batch1) [sample_batch1]\<rparr>"

definition sample_name :: string where
  "sample_name = ''k.date=d.h.data.arrows''"

lemma sample_merge: "merge_keeps sample_staging"
  by (simp add: merge_keeps_def sample_staging_def)

theorem memory_refines_queue_witness:
  "\<exists>m bs. mem_push_all (merge sample_staging) mem_capacity [(''k'', sample_batch1), (''k'', sample_batch1)] empty_mem = Some m \<and>
    recordbatch_cloned (b_fields sample_batch1) m = Some bs \<and> concat (map b_rows bs) = [1, 2, 1, 2]"
proof -
  let ?m = "\<lparr>mw_schema = b_fields sample_batch1, schema_map = [''k''], read_buffer = [],
        mutable_buffer = [sample_batch1, sample_batch1]\<rparr>"
  have run: "mem_push_all (merge sample_staging) mem_capacity [(''k'', sample_batch1), (''k'', sample_batch1)] empty_mem = Some ?m"
    by (simp add: mem_push_def buffer_push_def Let_def mem_capacity_def sample_batch1_def empty_mem_def sample_staging_def)
  obtain bs where bs: "recordbatch_cloned (b_fields sample_batch1) ?m = Some bs"
    by (simp add: recordbatch_cloned_def concat_records_def adapt_batch_def get_field_def sample_batch1_def)
  from memory_refines_queue [OF run] run bs show ?thesis by (auto simp: sample_batch1_def)
qed

definition sample_stream :: "nat stream" where
  "sample_stream = empty_stream\<lparr>st_arrows := [(sample_name, sample_arrow)]\<rparr>"

lemma sample_free: "names_free sample_staging random minute sample_stream" "parts_finish sample_staging sample_stream"
  by (simp_all add: names_free_def parts_finish_def sample_stream_def empty_stream_def)

lemma sample_path: "arrow_path_to_parquet sample_name ''x'' = Some ''date=d.h.data.x.parquet''"
  by code_simp

lemma sample_cycle:
  "\<exists>st' r. flush_and_convert sample_staging ''s'' ''x'' (120 * 1000000000) False False False sample_stream = Some (st', r)"
  by (simp add: flush_and_convert_def flush_def prepare_parquet_def convert_disk_files_to_parquet_def
      arrow_files_grouped_exclude_time_def fetch_arrow_files_for_conversion_def sample_stream_def empty_stream_def
      sample_arrow_def system_minute_def sample_path sample_staging_def Let_def convert_group_def readers_of_def
      List.map_filter_simps sample_batch1_def merged_iter_def adapt_batch_def reverse_batch_def get_field_def
      cleanup_arrow_files_def)

theorem cycle_keeps_rows_witness:
  "\<exists>st' r. flush_and_convert sample_staging ''s'' ''x'' (120 * 1000000000) False False False sample_stream = Some (st', r) \<and>
     stored_rows st' = {#1, 2#}"
proof -
  obtain st' r where run:
    "flush_and_convert sample_staging ''s'' ''x'' (120 * 1000000000) False False False sample_stream = Some (st', r)"
    using sample_cycle by blast
  from cycle_keeps_rows [OF this sample_merge _ _ sample_free] have "stored_rows st' = {#1, 2#}"
    by (simp add: sample_staging_def stored_rows_def sample_stream_def empty_stream_def file_rows_def
        sample_arrow_def sample_batch1_def)
  with run show ?thesis by blast
qed

lemma sample_file_name:
  "filename_by_partition sample_staging k 0 vals = Some (k @ ''.date=d.hour=00.minute=00.'' @ partition_part vals @ ''h.data.arrows'')"
  by (simp add: filename_by_partition_def file_name_def to_slot_def data_granularity_def minute_of_def hour_of_def
      minutes_of_def sample_staging_def arrow_suffix_def show_nat02_def show_nat.simps digit_char_def char_of_def bit_0)

definition sample_writer :: "nat batch list \<Rightarrow> nat disk_writer" where
  "sample_writer bs = \<lparr>dw_created = 0, dw_schema = b_fields sample_batch1, dw_batches = bs, dw_range = granularity_range 0 1\<rparr>"

definition pushed :: "string \<Rightarrow> nat stream" where
  "pushed k = empty_stream\<lparr>st_disk := [(k @ ''.date=d.hour=00.minute=00.h.data.arrows'', sample_writer [sample_batch1])],
     st_mem := \<lparr>mw_schema = b_fields sample_batch1, schema_map = [k], read_buffer = [], mutable_buffer = [sample_batch1]\<rparr>\<rparr>"

lemma sample_push:
  "push sample_staging 0 k sample_batch1 0 [] False empty_stream = Some (pushed k, Inr ())" if "CHR ''/'' \<notin> set k"
  using that
  by (simp add: push_def sample_file_name partition_part_def push_disk_def pushed_def empty_stream_def sample_writer_def
      mem_push_def buffer_push_def mem_capacity_def Let_def data_granularity_def sample_batch1_def empty_mem_def)
    (simp add: sample_staging_def buffer_push_def Let_def)

theorem push_stores_once_witness: "stored_rows (pushed ''k'') = {#1, 2#}"
  using push_stores_once [OF sample_push [of "''k''"]]
  by (simp add: empty_stream_def stored_rows_def sample_batch1_def sample_staging_def)

definition half_env :: "nat staging_env" where
  "half_env = sample_staging\<lparr>open_ok := (\<lambda>n. n \<noteq> ''bad'')\<rparr>"

definition two_files :: "nat stream" where
  "two_files = empty_stream\<lparr>st_inprocess := [((0, ''good''), sample_arrow), ((0, ''bad''), sample_arrow)]\<rparr>"

theorem unreadable_file_lost_witness:
  "\<exists>st' r. convert_group half_env (''p'', [(0, ''good''), (0, ''bad'')]) two_files = Some (st', r) \<and>
     map_of (st_inprocess st') (0, ''bad'') = None"
proof -
  have c: "convert_group half_env (''p'', [(0, ''good''), (0, ''bad'')]) two_files =
      Some (empty_stream\<lparr>st_parquets := [(''p'', [2, 1])]\<rparr>, Inr (Some (b_fields sample_batch1)))"
    by (simp add: convert_group_def readers_of_def List.map_filter_simps two_files_def empty_stream_def half_env_def
        sample_staging_def sample_arrow_def sample_batch1_def merged_iter_def adapt_batch_def reverse_batch_def
        get_field_def cleanup_arrow_files_def)
  have "merge_keeps half_env" by (simp add: merge_keeps_def half_env_def sample_staging_def)
  from unreadable_file_lost [OF c _ this, of "(0, ''bad'')"] c show ?thesis
    by (simp add: half_env_def sample_staging_def two_files_def empty_stream_def)
qed

definition same_name :: "nat stream" where
  "same_name = empty_stream\<lparr>st_arrows := [(sample_name, sample_arrow)], st_inprocess := [((7, sample_name), sample_arrow)]\<rparr>"

theorem same_minute_replaces_witness:
  "stored_rows (move_arrow_files sample_staging 7 [(sample_name, sample_arrow)] same_name) + {#1, 2#} = {#1, 1, 2, 2#}"
  using same_minute_replaces [of same_name 7 sample_name sample_arrow sample_arrow sample_staging]
  by (simp add: same_name_def empty_stream_def sample_arrow_def sample_staging_def stored_rows_def file_rows_def
      sample_batch1_def)

theorem earlier_minutes_left_witness:
  "\<exists>st' r. convert_disk_files_to_parquet sample_staging ''x'' 0 False False two_files = Some (st', r) \<and>
     map_of (st_inprocess st') (0, ''bad'') = Some sample_arrow"
proof -
  obtain st' r where run: "convert_disk_files_to_parquet sample_staging ''x'' 0 False False two_files = Some (st', r)"
    by (simp add: convert_disk_files_to_parquet_def arrow_files_grouped_exclude_time_def system_minute_def
        fetch_arrow_files_for_conversion_def two_files_def empty_stream_def)
  from earlier_minutes_left [OF run, where m = 0 and n = "''bad''"] run show ?thesis
    by (simp add: two_files_def empty_stream_def system_minute_def)
qed

theorem flush_hides_current_rows_witness:
  "\<exists>st'. flush sample_staging 0 False (pushed ''k'') = Some st' \<and>
     recordbatch_cloned (b_fields sample_batch1) (st_mem st') = Some []"
proof -
  have cur: "is_current 0 (sample_writer [sample_batch1])"
    by (simp add: is_current_def sample_writer_def contains_def granularity_range_def date_naive_def hour_of_def minute_of_def
        minutes_of_def nanos_defs Let_def)
  then have f: "flush sample_staging 0 False (pushed ''k'') = Some ((pushed ''k'')\<lparr>st_mem := empty_mem\<rparr>)"
    by (simp add: flush_def pushed_def keeps_writer_def)
  from flush_hides_current_rows [OF f _ cur] f show ?thesis by (simp add: pushed_def)
qed

definition batch_ab :: "nat batch" where
  "batch_ab = \<lparr>b_fields = [Field ''ab'' Utf8 True, Field ''c'' Utf8 True], b_rows = [1]\<rparr>"

definition batch_bc :: "nat batch" where
  "batch_bc = \<lparr>b_fields = [Field ''a'' Utf8 True, Field ''bc'' Utf8 True], b_rows = [2]\<rparr>"

lemma zero_key: "get_schema_key (\<lambda>_. 0) fs = ''0''"
  by (simp add: get_schema_key_def show_hex.simps hex_digit_def digit_char_def char_of_def bit_0)

definition zero_name :: string where
  "zero_name = ''0.date=d.hour=00.minute=00.h.data.arrows''"

lemma zero_file_name: "filename_by_partition sample_staging ''0'' 0 [] = Some zero_name"
  by (simp add: sample_file_name partition_part_def zero_name_def)

definition with_batches :: "nat batch list \<Rightarrow> nat stream" where
  "with_batches bs = empty_stream\<lparr>
     st_disk := [(zero_name, \<lparr>dw_created = 0, dw_schema = b_fields batch_ab, dw_batches = bs, dw_range = granularity_range 0 1\<rparr>)],
     st_mem := \<lparr>mw_schema = b_fields batch_ab, schema_map = [''0''], read_buffer = [], mutable_buffer = bs\<rparr>\<rparr>"

lemma push_first: "push sample_staging 0 ''0'' batch_ab 0 [] False empty_stream = Some (with_batches [batch_ab], Inr ())"
  unfolding push_def zero_file_name
  by (simp add: push_disk_def with_batches_def empty_stream_def mem_push_def buffer_push_def mem_capacity_def Let_def
      data_granularity_def batch_ab_def empty_mem_def sample_staging_def zero_name_def)

lemma push_second:
  "push sample_staging 0 ''0'' batch_bc 0 [] False (with_batches [batch_ab]) = Some (with_batches [batch_ab, batch_bc], Inr ())"
  unfolding push_def zero_file_name
  by (simp add: push_disk_def with_batches_def empty_stream_def mem_push_def buffer_push_def mem_capacity_def Let_def
      data_granularity_def batch_ab_def batch_bc_def empty_mem_def sample_staging_def zero_name_def)

theorem schema_keys_collide_witness:
  "\<exists>w. map_of (st_disk (with_batches [batch_ab, batch_bc])) zero_name = Some w \<and>
     dw_schema w = b_fields batch_ab \<and> dw_batches w = [batch_ab, batch_bc]"
proof (rule schema_keys_collide [where ?xxh3.0 = "\<lambda>_. 0" and clock = 0 and t = 0 and vals = "[]" and internal = False
      and env = sample_staging, unfolded zero_key, OF _ _ _ _ _ _ push_first push_second zero_file_name])
  show "concat (sort (map field_name (b_fields batch_ab))) = concat (sort (map field_name (b_fields batch_bc)))"
    by (simp add: batch_ab_def batch_bc_def less_eq_char_def)
qed (simp_all add: sample_staging_def empty_stream_def zero_name_def)

theorem slash_reaches_file_name_witness:
  "push sample_staging 0 ''k'' sample_batch1 0 [(''level'', ''a/b'')] False empty_stream = None"
  by (rule slash_reaches_file_name [OF _ _ sample_file_name, where k = "''level''" and v = "''a/b''"])
    (simp_all add: sample_staging_def empty_stream_def)

end
