(* ===== verification/Migration.thy ===== *)
theory Migration
  imports Stream_Registry
begin

text \<open>
  The migrations a server runs at its start (\<open>src/migration/\<close>): \<open>.parseable.json\<close> of storage and of the
  staging directory up to version v6, and \<open>stream.json\<close> with its schema up to version v7. They work on
  JSON values; an \<open>unwrap\<close> that fails is a panic, \<open>None\<close>. The names of generated roles, the types that
  read a value (\<open>StorageMetadata\<close>, \<open>ObjectStoreFormat\<close>, arrow data types) and the merge of schemas are
  parameters.
\<close>

definition get_version :: "json \<Rightarrow> string option" where
  "get_version md = do { m \<leftarrow> as_object md; v \<leftarrow> map_of m ''version''; as_str v }"

fun mode_name :: "node_mode \<Rightarrow> string" where
  "mode_name AllMode = ''All''"
| "mode_name QueryMode = ''Query''"
| "mode_name IngestMode = ''Ingest''"
| "mode_name PrismMode = ''Prism''"
| "mode_name IndexMode = ''Index''"

text \<open>Writing through \<open>get_mut\<close>: the key must be there.\<close>

definition set_key :: "string \<Rightarrow> json \<Rightarrow> jobject \<Rightarrow> jobject option" where
  "set_key k v m = (if map_of m k = None then None else Some (AList.update k v m))"

section \<open>Metadata of the server\<close>

definition metadata_v1_v3 :: "node_mode \<Rightarrow> json \<Rightarrow> json option" where
  "metadata_v1_v3 mode md = do {
     m \<leftarrow> as_object md;
     m \<leftarrow> set_key ''version'' (JString ''v3'') m;
     Some (JObject (AList.update ''server_mode'' (JString (mode_name mode))
       (AList.update ''roles'' (JArray []) (AList.update ''streams'' (JArray []) (AList.update ''users'' (JArray [])
         (swap_remove ''stream'' (swap_remove ''user'' m)))))))
   }"

fun rename_ingester :: "json \<Rightarrow> json" where
  "rename_ingester (JObject p) =
     (if map_of p ''privilege'' = Some (JString ''ingester'')
      then JObject (AList.update ''privilege'' (JString ''ingestor'') p) else JObject p)"
| "rename_ingester v = v"

text \<open>The users of v2 carry their privileges; each user that has some gets a role with a generated name.\<close>

fun migrate_users :: "string list \<Rightarrow> json list \<Rightarrow> ((string \<times> json) list \<times> json list) option" where
  "migrate_users names [] = Some ([], [])"
| "migrate_users names (u # us) = do {
     m \<leftarrow> as_object u;
     role \<leftarrow> map_of m ''role'';
     ps \<leftarrow> as_array role;
     let m = swap_remove ''role'' m;
     if ps = [] then do {
       (roles, us') \<leftarrow> migrate_users names us;
       Some (roles, JObject (AList.update ''roles'' (JArray []) m) # us')
     } else do {
       (roles, us') \<leftarrow> migrate_users (tl names) us;
       Some ((hd names, JArray (map rename_ingester ps)) # roles,
         JObject (AList.update ''roles'' (JArray [JString (hd names)]) m) # us')
     }
   }"

definition map_from_list :: "(string \<times> json) list \<Rightarrow> jobject" where
  "map_from_list kvs = fold (\<lambda>(k, v). AList.update k v) kvs []"

definition metadata_v2_v3 :: "node_mode \<Rightarrow> string list \<Rightarrow> json \<Rightarrow> json option" where
  "metadata_v2_v3 mode names md = do {
     m \<leftarrow> as_object md;
     m \<leftarrow> set_key ''version'' (JString ''v3'') m;
     users \<leftarrow> map_of m ''users'';
     us \<leftarrow> as_array users;
     (roles, us') \<leftarrow> migrate_users names us;
     Some (JObject (AList.update ''server_mode'' (JString (mode_name mode))
       (AList.update ''roles'' (JObject (map_from_list roles)) (AList.update ''users'' (JArray us') m))))
   }"

fun rename_in_roles :: "jobject \<Rightarrow> jobject option" where
  "rename_in_roles [] = Some []"
| "rename_in_roles ((k, v) # rs) = do {
     ps \<leftarrow> as_array v;
     rs' \<leftarrow> rename_in_roles rs;
     Some ((k, JArray (map rename_ingester ps)) # rs')
   }"

definition metadata_v3_v4 :: "node_mode \<Rightarrow> json \<Rightarrow> json option" where
  "metadata_v3_v4 mode md = do {
     m \<leftarrow> as_object md;
     m \<leftarrow> set_key ''version'' (JString ''v4'') m;
     all \<leftarrow> (case map_of m ''server_mode'' of None \<Rightarrow> Some True | Some v \<Rightarrow> map_option (\<lambda>s. s = ''All'') (as_str v));
     let m = (if all then AList.update ''server_mode'' (JString (mode_name mode)) m else m);
     roles \<leftarrow> map_of m ''roles'';
     rs \<leftarrow> as_object roles;
     rs' \<leftarrow> rename_in_roles rs;
     Some (JObject (AList.update ''roles'' (JObject rs') m))
   }"

definition replace_version :: "string \<Rightarrow> jobject \<Rightarrow> jobject" where
  "replace_version v m = AList.update ''version'' (JString v) (swap_remove ''version'' m)"

definition metadata_v4_v5 :: "node_mode \<Rightarrow> string \<Rightarrow> json \<Rightarrow> json option" where
  "metadata_v4_v5 mode address md = do {
     m \<leftarrow> as_object md;
     let m = replace_version ''v5'' m;
     Some (JObject
       (case map_of m ''server_mode'' of
          None \<Rightarrow> AList.update ''server_mode'' (JString (mode_name mode)) m
        | Some (JString s) \<Rightarrow>
            if s = ''Query'' then AList.update ''querier_endpoint'' (JString address) m
            else if s = ''All'' then AList.update ''server_mode'' (JString (mode_name mode)) m
            else m
        | Some _ \<Rightarrow> m))
   }"

fun add_user_groups :: "json list \<Rightarrow> json list option" where
  "add_user_groups [] = Some []"
| "add_user_groups (u # us) = do {
     m \<leftarrow> as_object u;
     us' \<leftarrow> add_user_groups us;
     Some (JObject (if map_of m ''user_groups'' = None then AList.update ''user_groups'' (JArray []) m else m) # us')
   }"

fun remove_tag :: "json \<Rightarrow> json" where
  "remove_tag (JObject p) =
     (case map_of p ''resource'' of
        Some (JObject r) \<Rightarrow> JObject (AList.update ''resource'' (JObject (swap_remove ''tag'' r)) p)
      | _ \<Rightarrow> JObject p)"
| "remove_tag v = v"

fun remove_tags :: "json \<Rightarrow> json" where
  "remove_tags (JArray ps) = JArray (map remove_tag ps)"
| "remove_tags v = v"

definition metadata_v5_v6 :: "json \<Rightarrow> json option" where
  "metadata_v5_v6 md = do {
     m \<leftarrow> as_object md;
     let m = replace_version ''v6'' m;
     let m = (if map_of m ''user_groups'' = None then AList.update ''user_groups'' (JArray []) m else m);
     users \<leftarrow> map_of m ''users'';
     us \<leftarrow> as_array users;
     us' \<leftarrow> add_user_groups us;
     let m = AList.update ''users'' (JArray us') m;
     Some (JObject
       (case map_of m ''roles'' of
          Some (JObject rs) \<Rightarrow> AList.update ''roles'' (JObject (map (\<lambda>(k, v). (k, remove_tags v)) rs)) m
        | _ \<Rightarrow> m))
   }"

definition remove_querier_metadata :: "json \<Rightarrow> json option" where
  "remove_querier_metadata md =
     map_option (\<lambda>m. JObject (swap_remove ''querier_auth_token'' (swap_remove ''querier_endpoint'' m))) (as_object md)"

record migration_env =
  mg_mode :: node_mode
  mg_address :: string
  role_names :: "string list"
  reads_metadata :: "json \<Rightarrow> bool"
  put_remote_ok :: bool
  put_staging_ok :: bool

definition metadata_v4_on :: "migration_env \<Rightarrow> json \<Rightarrow> json option" where
  "metadata_v4_on env md = do {
     md \<leftarrow> metadata_v4_v5 (mg_mode env) (mg_address env) md; md \<leftarrow> metadata_v5_v6 md; remove_querier_metadata md }"

definition metadata_v3_on :: "migration_env \<Rightarrow> json \<Rightarrow> json option" where
  "metadata_v3_on env md = do { md \<leftarrow> metadata_v3_v4 (mg_mode env) md; metadata_v4_on env md }"

definition migrate_remote :: "migration_env \<Rightarrow> json \<Rightarrow> json option" where
  "migrate_remote env md =
     (case get_version md of
        Some v \<Rightarrow>
          if v = ''v1'' then metadata_v1_v3 (mg_mode env) md \<bind> metadata_v3_on env
          else if v = ''v2'' then metadata_v2_v3 (mg_mode env) (role_names env) md \<bind> metadata_v3_on env
          else if v = ''v3'' then metadata_v3_on env md
          else if v = ''v4'' then metadata_v4_on env md
          else if v = ''v5'' then metadata_v5_v6 md
          else remove_querier_metadata md
      | None \<Rightarrow> remove_querier_metadata md)"

definition is_old_version :: "json \<Rightarrow> bool" where
  "is_old_version md \<longleftrightarrow> get_version md \<in> Some ` {''v1'', ''v2'', ''v3'', ''v4'', ''v5''}"

text \<open>The staging copy is not migrated as far: versions v1 to v3 only reach v4. \<open>Some None\<close> leaves the file.\<close>

definition migrate_staging :: "migration_env \<Rightarrow> json \<Rightarrow> json option option" where
  "migrate_staging env md =
     (case get_version md of
        Some v \<Rightarrow>
          if v = ''v1'' then map_option Some (metadata_v1_v3 (mg_mode env) md \<bind> metadata_v3_v4 (mg_mode env))
          else if v = ''v2''
          then map_option Some (metadata_v2_v3 (mg_mode env) (role_names env) md \<bind> metadata_v3_v4 (mg_mode env))
          else if v = ''v3'' then map_option Some (metadata_v3_v4 (mg_mode env) md)
          else if v = ''v4'' then map_option Some (metadata_v4_v5 (mg_mode env) (mg_address env) md \<bind> metadata_v5_v6)
          else if v = ''v5'' then map_option Some (metadata_v5_v6 md)
          else Some None
      | None \<Rightarrow> Some None)"

text \<open>What is stored, what the rest of the start works with, and the copy in staging.\<close>

record metadata_files =
  remote_json :: "json option"
  parseable_json :: "json option"
  staging_json :: "json option"

datatype migration_error = MetadataUnreadable | RemoteNotWritten | StagingNotWritten | SchemaUnreadable | StreamNotWritten
  | StreamUnreadable | SchemaFetchFailed | SchemasNotMerged

definition put_remote :: "migration_env \<Rightarrow> json \<Rightarrow> metadata_files \<Rightarrow> metadata_files \<times> (migration_error + unit)" where
  "put_remote env md fs =
     (if \<not> reads_metadata env md then (fs, Inl MetadataUnreadable)
      else if \<not> put_remote_ok env then (fs, Inl RemoteNotWritten)
      else (fs\<lparr>remote_json := Some md\<rparr>, Inr ()))"

definition run_metadata_migration ::
  "migration_env \<Rightarrow> metadata_files \<Rightarrow> (metadata_files \<times> (migration_error + unit)) option" where
  "run_metadata_migration env fs = do {
     (fs1, res) \<leftarrow> (case parseable_json fs of
         None \<Rightarrow> Some (fs, Inr ())
       | Some md \<Rightarrow> map_option (\<lambda>md'. put_remote env md'
           (if is_old_version md then fs\<lparr>parseable_json := Some md'\<rparr> else fs)) (migrate_remote env md));
     case res of
       Inl e \<Rightarrow> Some (fs1, Inl e)
     | Inr _ \<Rightarrow>
         (case staging_json fs1 of
            None \<Rightarrow> Some (fs1, Inr ())
          | Some st \<Rightarrow> do {
              out \<leftarrow> migrate_staging env st;
              case out of
                None \<Rightarrow> Some (fs1, Inr ())
              | Some st' \<Rightarrow>
                  if put_staging_ok env then Some (fs1\<lparr>staging_json := Some st'\<rparr>, Inr ())
                  else Some (fs1, Inl StagingNotWritten)
            })
   }"

section \<open>Metadata of a stream\<close>

definition zero :: json where
  "zero = JNumber (PosInt 0)"

definition stats_triple :: "json \<Rightarrow> json \<Rightarrow> json \<Rightarrow> json" where
  "stats_triple events ingestion storage =
     JObject [(''events'', events), (''ingestion'', ingestion), (''storage'', storage)]"

text \<open>The flat statistics become lifetime and current ones, with nothing deleted.\<close>

definition upgrade_stats :: "jobject \<Rightarrow> jobject option" where
  "upgrade_stats m = do {
     stats \<leftarrow> map_of m ''stats'';
     e \<leftarrow> json_get stats ''events''; i \<leftarrow> json_get stats ''ingestion''; s \<leftarrow> json_get stats ''storage'';
     Some (AList.update ''stats'' (JObject [(''lifetime_stats'', stats_triple e i s),
       (''current_stats'', stats_triple e i s), (''deleted_stats'', stats_triple zero zero zero)]) m)
   }"

definition current_version :: "jobject \<Rightarrow> jobject" where
  "current_version m = AList.update ''objectstore-format'' (JString ''v7'') (AList.update ''version'' (JString ''v7'') m)"

definition empty_snapshot :: json where
  "empty_snapshot = JObject [(''version'', JString ''v2''), (''manifest_list'', JArray [])]"

definition stream_v1_v4 :: "json \<Rightarrow> json option" where
  "stream_v1_v4 md = do {
     m \<leftarrow> as_object md;
     m \<leftarrow> upgrade_stats m;
     Some (JObject (AList.update ''snapshot'' empty_snapshot (current_version m)))
   }"

definition stream_v2_v4 :: "json \<Rightarrow> json option" where
  "stream_v2_v4 md = do {
     m \<leftarrow> as_object md;
     m \<leftarrow> upgrade_stats m;
     Some (JObject (AList.update ''snapshot'' empty_snapshot (current_version m)))
   }"

definition manifest_item_v2 :: "json \<Rightarrow> json option" where
  "manifest_item_v2 v = do {
     m \<leftarrow> as_object v;
     low \<leftarrow> map_of m ''time_lower_bound''; high \<leftarrow> map_of m ''time_upper_bound'';
     path \<leftarrow> map_of m ''manifest_path'';
     Some (JObject [(''manifest_path'', path), (''time_lower_bound'', low), (''time_upper_bound'', high),
       (''events_ingested'', zero), (''ingestion_size'', zero), (''storage_size'', zero)])
   }"

definition snapshot_v1_v2 :: "json \<Rightarrow> json option" where
  "snapshot_v1_v2 v = do {
     list \<leftarrow> json_get v ''manifest_list'';
     items \<leftarrow> as_array list;
     items' \<leftarrow> those (map manifest_item_v2 items);
     m \<leftarrow> as_object v;
     Some (JObject (AList.update ''manifest_list'' (JArray items') (AList.update ''version'' (JString ''v2'') m)))
   }"

definition stream_v3_v4 :: "json \<Rightarrow> json option" where
  "stream_v3_v4 md = do {
     m \<leftarrow> as_object md;
     m \<leftarrow> upgrade_stats m;
     let m = current_version m;
     snapshot \<leftarrow> map_of m ''snapshot'';
     if get_version snapshot = Some ''v1''
     then do { s \<leftarrow> snapshot_v1_v2 snapshot; Some (JObject (AList.update ''snapshot'' s m)) }
     else Some (JObject m)
   }"

definition pmeta_stream_name :: string where
  "pmeta_stream_name = ''pmeta''"

definition set_formats :: "jobject \<Rightarrow> jobject" where
  "set_formats m = AList.update ''version'' (JString ''v7'') (AList.update ''objectstore-format'' (JString ''v7'') m)"

definition stream_v4_v5 :: "string \<Rightarrow> json \<Rightarrow> json option" where
  "stream_v4_v5 n md = do {
     m \<leftarrow> as_object md;
     let m = set_formats m;
     Some (JObject (if map_of m ''stream_type'' = None
       then AList.update ''stream_type'' (JString (if n = pmeta_stream_name then ''Internal'' else ''UserDefined'')) m
       else m))
   }"

definition map_log_source_format :: "string \<Rightarrow> string" where
  "map_log_source_format s =
     (if s = ''Kinesis'' then ''kinesis'' else if s = ''OtelLogs'' then ''otel-logs''
      else if s = ''OtelTraces'' then ''otel-traces'' else if s = ''OtelMetrics'' then ''otel-metrics''
      else if s = ''Pmeta'' then ''pmeta'' else ''json'')"

definition source_entry :: "string \<Rightarrow> json" where
  "source_entry s = JObject [(''log_source_format'', JString s), (''fields'', JArray [])]"

fun transform_log_source :: "json \<Rightarrow> json" where
  "transform_log_source (JString s) = source_entry (map_log_source_format s)"
| "transform_log_source _ = source_entry ''json''"

definition stream_v5_v6 :: "json \<Rightarrow> json option" where
  "stream_v5_v6 md = do {
     m \<leftarrow> as_object md;
     let m = set_formats m;
     let entry = (case map_of m ''log_source'' of Some v \<Rightarrow> transform_log_source v | None \<Rightarrow> source_entry ''json'');
     Some (JObject (AList.update ''log_source'' (JArray [entry]) (swap_remove ''log_source'' m)))
   }"

definition first_log_source :: "jobject \<Rightarrow> string" where
  "first_log_source m =
     (case do { v \<leftarrow> map_of m ''log_source''; vs \<leftarrow> as_array v; e \<leftarrow> (case vs of [] \<Rightarrow> None | e # _ \<Rightarrow> Some e);
                f \<leftarrow> json_get e ''log_source_format''; as_str f } of
        Some s \<Rightarrow> s | None \<Rightarrow> ''json'')"

definition telemetry_of_source :: "string \<Rightarrow> telemetry_type" where
  "telemetry_of_source s =
     (if s = ''otel-logs'' then Logs else if s = ''otel-traces'' then Traces else if s = ''otel-metrics'' then Metrics else Logs)"

definition stream_v6_v7 :: "json \<Rightarrow> json option" where
  "stream_v6_v7 md = do {
     m \<leftarrow> as_object md;
     let m = set_formats m;
     Some (JObject (if map_of m ''telemetry_type'' = None
       then AList.update ''telemetry_type'' (JString (telemetry_type_fmt (telemetry_of_source (first_log_source m)))) m
       else m))
   }"

definition stream_v4_on :: "string \<Rightarrow> json \<Rightarrow> json option" where
  "stream_v4_on n md = do { md \<leftarrow> stream_v4_v5 n md; md \<leftarrow> stream_v5_v6 md; stream_v6_v7 md }"

definition migrate_stream_json :: "string \<Rightarrow> json \<Rightarrow> json option" where
  "migrate_stream_json n md =
     (case get_version md of
        Some v \<Rightarrow>
          if v = ''v1'' then stream_v1_v4 md \<bind> stream_v4_on n
          else if v = ''v2'' then stream_v2_v4 md \<bind> stream_v4_on n
          else if v = ''v3'' then stream_v3_v4 md \<bind> stream_v4_on n
          else if v = ''v4'' then stream_v4_on n md
          else if v = ''v5'' then stream_v5_v6 md \<bind> stream_v6_v7
          else if v = ''v6'' then stream_v6_v7 md
          else Some md
      | None \<Rightarrow> Some md)"

section \<open>Schemas\<close>

record ('ret, 'hot) stream_migration_env =
  sg_mode :: node_mode
  data_type_of :: "json \<Rightarrow> data_type option"
  schemas_of :: "json \<Rightarrow> json list option"
  arrow_schema_of :: "json \<Rightarrow> field list option"
  format_of :: "json \<Rightarrow> ('ret, 'hot) stream_format option"
  reread_field :: "string \<Rightarrow> json \<Rightarrow> json option"
  try_merge :: "field list list \<Rightarrow> field list option"
  fetched_schema_json :: "json option"
  own_json :: "json option"
  querier_json :: "json option"
  ingestor_json :: "json option"
  staged_schema :: "field list option"
  put_json_succeeds :: bool
  put_schema_succeeds :: bool
  default_stream_format :: "('ret, 'hot) stream_format"

definition value_to_schema :: "(json \<Rightarrow> data_type option) \<Rightarrow> json \<Rightarrow> field list option" where
  "value_to_schema dt v = do {
     m \<leftarrow> as_object v;
     fs \<leftarrow> map_of m ''fields'';
     fs \<leftarrow> as_array fs;
     fields \<leftarrow> those (map (\<lambda>f. do {
       f \<leftarrow> as_object f; k \<leftarrow> map_of f ''name''; k \<leftarrow> as_str k; t \<leftarrow> map_of f ''data_type''; t \<leftarrow> dt t;
       Some (Field k t True) }) fs);
     Some (sort_key field_name fields)
   }"

definition schema_v1_v4 :: "('ret, 'hot) stream_migration_env \<Rightarrow> json option \<Rightarrow> field list option" where
  "schema_v1_v4 env schema = (case schema of Some v \<Rightarrow> value_to_schema (data_type_of env) v | None \<Rightarrow> Some [])"

definition schema_v2_v4 ::
  "('ret, 'hot) stream_migration_env \<Rightarrow> json list \<Rightarrow> (migration_error + field list) option" where
  "schema_v2_v4 env docs = do {
     derived \<leftarrow> those (map (value_to_schema (data_type_of env)) docs);
     Some (case try_merge env derived of
       None \<Rightarrow> Inl SchemasNotMerged | Some fs \<Rightarrow> Inr (sort_key field_name fs))
   }"

text \<open>\<open>src/metadata.rs\<close>: a time partition that is not a timestamp becomes one, as the last field.\<close>

definition update_data_type_time_partition :: "field list \<Rightarrow> string option \<Rightarrow> field list" where
  "update_data_type_time_partition schema tp =
     (case tp of
        None \<Rightarrow> schema
      | Some p \<Rightarrow>
          (case get_field schema p of
             Some f \<Rightarrow>
               if field_type f \<noteq> timestamp_millis
               then filter (\<lambda>f. field_name f \<noteq> p) schema @ [Field p timestamp_millis True]
               else schema
           | None \<Rightarrow> schema))"

section \<open>A stream at the start of a server\<close>

record ('ret, 'hot) stream_files =
  stream_json :: "json option"
  stored_schema :: "field list option"

definition fetch_or_create_stream_metadata :: "('ret, 'hot) stream_migration_env \<Rightarrow> json option" where
  "fetch_or_create_stream_metadata env =
     (case own_json env of Some j \<Rightarrow> Some j
      | None \<Rightarrow> (case querier_json env of Some j \<Rightarrow> Some j | None \<Rightarrow> ingestor_json env))"

text \<open>What is stored is the JSON read as \<open>ObjectStoreFormat\<close> and written again: the fields of that type only,
  with the defaults of those that are missing. \<open>reread\<close> reads and writes the value of a field with the
  type of the field; \<open>None\<close> when the JSON is not of the type.\<close>

datatype field_rule = Needed | Left_out_if_none | Default_value json | True_or_absent

definition format_fields :: "(string \<times> field_rule) list" where
  "format_fields =
     [(''version'', Needed), (''schema_version'', Default_value (JString ''v0'')), (''objectstore-format'', Needed),
      (''created-at'', Needed), (''first-event-at'', Left_out_if_none), (''owner'', Needed), (''permissions'', Needed),
      (''stats'', Needed), (''snapshot'', Default_value empty_snapshot), (''retention'', Left_out_if_none),
      (''time_partition'', Left_out_if_none), (''time_partition_limit'', Left_out_if_none),
      (''custom_partition'', Left_out_if_none), (''static_schema_flag'', True_or_absent),
      (''hot_tier_enabled'', Default_value (JBool False)), (''hot_tier'', Left_out_if_none),
      (''stream_type'', Default_value (JString ''UserDefined'')), (''log_source'', Default_value (JArray [])),
      (''telemetry_type'', Default_value (JString ''logs''))]"

definition reserialize_field :: "(string \<Rightarrow> json \<Rightarrow> json option) \<Rightarrow> jobject \<Rightarrow> string \<times> field_rule \<Rightarrow> jobject option" where
  "reserialize_field reread m = (\<lambda>(k, rule).
     case map_of m k of
       None \<Rightarrow> (case rule of Needed \<Rightarrow> None | Default_value d \<Rightarrow> Some [(k, d)] | _ \<Rightarrow> Some [])
     | Some v \<Rightarrow>
         (case rule of
            Left_out_if_none \<Rightarrow> if v = JNull then Some [] else map_option (\<lambda>w. [(k, w)]) (reread k v)
          | True_or_absent \<Rightarrow> if v = JString ''true'' then Some [(k, v)] else None
          | _ \<Rightarrow> map_option (\<lambda>w. [(k, w)]) (reread k v)))"

definition reserialize_format :: "(string \<Rightarrow> json \<Rightarrow> json option) \<Rightarrow> json \<Rightarrow> json option" where
  "reserialize_format reread v = do {
     m \<leftarrow> as_object v;
     parts \<leftarrow> those (map (reserialize_field reread m) format_fields);
     Some (JObject (concat parts))
   }"

text \<open>\<open>migrate_stream_metadata\<close>: the new JSON is stored, through its type, when it can be read as the current
  format; the schema of v1 and v2 is stored too. The caller goes on with the new JSON itself.\<close>

definition migrate_stream_metadata ::
  "('ret, 'hot) stream_migration_env \<Rightarrow> string \<Rightarrow> json \<Rightarrow> json \<Rightarrow> ('ret, 'hot) stream_files
   \<Rightarrow> (('ret, 'hot) stream_files \<times> (migration_error + json)) option" where
  "migrate_stream_metadata env n schema md fs = do {
     md' \<leftarrow> migrate_stream_json n md;
     let v = get_version md;
     if v \<notin> Some ` {''v1'', ''v2'', ''v3'', ''v4'', ''v5'', ''v6''} then Some (fs, Inr md')
     else if format_of env md' = None \<or> reserialize_format (reread_field env) md' = None
     then Some (fs, Inl StreamUnreadable)
     else if \<not> put_json_succeeds env then Some (fs, Inl StreamNotWritten)
     else do {
       let fs = fs\<lparr>stream_json := reserialize_format (reread_field env) md'\<rparr>;
       migrated \<leftarrow> (if v = Some ''v1'' then map_option (\<lambda>s. Inr (Some s)) (schema_v1_v4 env (Some schema))
         else if v = Some ''v2'' then
           (case schemas_of env schema of
              None \<Rightarrow> Some (Inl SchemaUnreadable)
            | Some ss \<Rightarrow> map_option (map_sum id Some) (schema_v2_v4 env ss))
         else Some (Inr None));
       Some (case migrated of
           Inl e \<Rightarrow> (fs, Inl e)
         | Inr None \<Rightarrow> (fs, Inr md')
         | Inr (Some s) \<Rightarrow>
             if put_schema_succeeds env then (fs\<lparr>stored_schema := Some s\<rparr>, Inr md') else (fs, Inl StreamNotWritten))
     }
   }"

definition setup_logstream_metadata ::
  "('ret, 'hot) stream_migration_env \<Rightarrow> field list \<Rightarrow> json \<Rightarrow> ('ret, 'hot) stream_files
   \<Rightarrow> (('ret, 'hot) stream_files \<times> (migration_error + ('ret, 'hot) stream_meta)) option" where
  "setup_logstream_metadata env schema md fs =
     (let f = (case format_of env md of Some f \<Rightarrow> f | None \<Rightarrow> default_stream_format env);
          schema = update_data_type_time_partition schema (sf_time_partition f) in
      if \<not> put_schema_succeeds env then Some (fs, Inl StreamNotWritten)
      else do {
        merged \<leftarrow> (case staged_schema env of None \<Rightarrow> Some schema | Some s \<Rightarrow> try_merge env [s, schema]);
        Some (fs\<lparr>stored_schema := Some schema\<rparr>, Inr
          \<lparr>sm_created_at = sf_created_at f, sm_first_event_at = sf_first_event_at f,
           sm_time_partition = sf_time_partition f,
           sm_time_partition_limit = (case sf_time_partition_limit f of None \<Rightarrow> None | Some l \<Rightarrow> parse_days l),
           sm_custom_partition = sf_custom_partition f, sm_static_schema_flag = sf_static_schema_flag f,
           sm_schema = schema_map_of merged, sm_schema_version = sf_schema_version f,
           sm_stream_type = sf_stream_type f, sm_log_source = sf_log_source f,
           sm_telemetry_type = sf_telemetry_type f, sm_retention = sf_retention f,
           sm_hot_tier_enabled = sf_hot_tier_enabled f, sm_hot_tier = sf_hot_tier f\<rparr>)
      })"

definition migration_stream ::
  "('ret, 'hot) stream_migration_env \<Rightarrow> string \<Rightarrow> ('ret, 'hot) stream_files
   \<Rightarrow> (('ret, 'hot) stream_files \<times> (migration_error + ('ret, 'hot) stream_meta option)) option" where
  "migration_stream env n fs =
     (case fetched_schema_json env of
        None \<Rightarrow> Some (fs, Inl SchemaFetchFailed)
      | Some schema \<Rightarrow>
          let found = fetch_or_create_stream_metadata env in
          if found = None \<and> sg_mode env \<noteq> IngestMode then Some (fs, Inr None)
          else do {
            (fs1, res) \<leftarrow> (case found of
                Some md \<Rightarrow> migrate_stream_metadata env n schema md fs | None \<Rightarrow> Some (fs, Inr JNull));
            case res of
              Inl e \<Rightarrow> Some (fs1, Inl e)
            | Inr md \<Rightarrow>
                (case arrow_schema_of env schema of
                   None \<Rightarrow> Some (fs1, Inl SchemaUnreadable)
                 | Some s \<Rightarrow> map_option (\<lambda>(fs2, r). (fs2, map_sum id Some r)) (setup_logstream_metadata env s md fs1))
          })"

section \<open>The metadata reaches the current version\<close>

declare map_of_eq_Some_iff [simp del]

lemma as_object_iff [simp]: "as_object v = Some m \<longleftrightarrow> v = JObject m"
  by (cases v) auto

lemma as_array_iff [simp]: "as_array v = Some vs \<longleftrightarrow> v = JArray vs"
  by (cases v) auto

lemma as_str_iff [simp]: "as_str v = Some s \<longleftrightarrow> v = JString s"
  by (cases v) auto

lemma get_version_object: "get_version (JObject m) = Some v \<longleftrightarrow> map_of m ''version'' = Some (JString v)"
  by (auto simp: get_version_def bind_eq_Some_conv)

lemma update_object:
  assumes "distinct (map fst m)"
  shows "distinct (map fst (AList.update k v m))" and "map_of (AList.update k v m) = (map_of m)(k \<mapsto> v)"
  using assms by (simp_all add: distinct_update update_conv')

lemma replace_version_object:
  assumes "distinct (map fst m)"
  shows "distinct (map fst (replace_version v m))"
    and "map_of (replace_version v m) = (map_of m)(''version'' \<mapsto> JString v)"
  using assms swap_remove_keys [of m "''version''"] by (auto simp: replace_version_def update_conv' distinct_update)

lemma set_key_object:
  assumes "set_key k v m = Some m'" and "distinct (map fst m)"
  shows "distinct (map fst m') \<and> map_of m' = (map_of m)(k \<mapsto> v)"
  using assms by (auto simp: set_key_def update_conv' distinct_update split: if_splits)

definition changes_only :: "string set \<Rightarrow> jobject \<Rightarrow> jobject \<Rightarrow> bool" where
  "changes_only ks m m' \<longleftrightarrow> (\<forall>k. k \<notin> ks \<longrightarrow> map_of m' k = map_of m k)"

lemma changes_only_trans:
  "changes_only ks m m' \<Longrightarrow> changes_only ks' m' m'' \<Longrightarrow> ks \<union> ks' \<subseteq> ks'' \<Longrightarrow> changes_only ks'' m m''"
  unfolding changes_only_def by (metis Un_iff subsetD)

definition one_update :: "string set \<Rightarrow> jobject \<Rightarrow> jobject \<Rightarrow> bool" where
  "one_update ks m m' \<longleftrightarrow> m' = m \<or> (\<exists>k \<in> ks. \<exists>v. m' = AList.update k v m)"

lemma one_update_intros [simp]: "one_update ks m m" "k \<in> ks \<Longrightarrow> one_update ks m (AList.update k v m)"
  by (auto simp: one_update_def)

lemma one_update_result:
  assumes "one_update ks m m'" and "distinct (map fst m)"
  shows "distinct (map fst m') \<and> changes_only ks m m'"
  using assms by (auto simp: one_update_def changes_only_def update_conv' distinct_update)

definition has_groups :: "json list \<Rightarrow> bool" where
  "has_groups us \<longleftrightarrow> (\<forall>u \<in> set us. \<exists>m. u = JObject m \<and> map_of m ''user_groups'' \<noteq> None)"

lemma add_user_groups_result: "add_user_groups us = Some us' \<Longrightarrow> has_groups us' \<and> length us' = length us"
  by (induction us arbitrary: us') (auto simp: has_groups_def bind_eq_Some_conv update_conv')

lemma v5_v6_result:
  assumes "metadata_v5_v6 (JObject m) = Some md'" and "distinct (map fst m)"
  obtains m' us where "md' = JObject m'" "distinct (map fst m')" "map_of m' ''version'' = Some (JString ''v6'')"
    "map_of m' ''users'' = Some (JArray us)" "has_groups us" "map_of m' ''user_groups'' \<noteq> None"
    "changes_only {''version'', ''users'', ''user_groups'', ''roles''} m m'"
proof -
  let ?m1 = "replace_version ''v6'' m"
  let ?m2 = "if map_of ?m1 ''user_groups'' = None then AList.update ''user_groups'' (JArray []) ?m1 else ?m1"
  from assms(1) obtain us us' where us: "map_of ?m2 ''users'' = Some (JArray us)" "add_user_groups us = Some us'"
    and md': "md' = JObject (case map_of (AList.update ''users'' (JArray us') ?m2) ''roles'' of
          Some (JObject rs) \<Rightarrow> AList.update ''roles'' (JObject (map (\<lambda>(k, v). (k, remove_tags v)) rs)) (AList.update ''users'' (JArray us') ?m2)
        | _ \<Rightarrow> AList.update ''users'' (JArray us') ?m2)"
    by (auto simp: metadata_v5_v6_def bind_eq_Some_conv Let_def)
  note r = replace_version_object [OF assms(2), of "''v6''"]
  have m2: "distinct (map fst ?m2)" "map_of ?m2 ''version'' = Some (JString ''v6'')" "map_of ?m2 ''user_groups'' \<noteq> None"
    "changes_only {''version'', ''user_groups''} m ?m2"
    using r by (auto simp: update_conv' distinct_update changes_only_def)
  let ?m3 = "AList.update ''users'' (JArray us') ?m2"
  have m3: "distinct (map fst ?m3)" "map_of ?m3 = (map_of ?m2)(''users'' \<mapsto> JArray us')"
    using m2(1) by (simp_all only: update_object)
  have "\<exists>m'. md' = JObject m' \<and> one_update {''roles''} ?m3 m'"
  proof (cases "map_of ?m3 ''roles''")
    case None
    with md' show ?thesis by auto
  next
    case (Some v)
    with md' show ?thesis by (cases v) auto
  qed
  then obtain m' where m': "md' = JObject m'" "one_update {''roles''} ?m3 m'" by blast
  note upd = one_update_result [OF m'(2) m3(1)]
  then have d: "distinct (map fst m')" by simp
  have eq: "map_of m' k = map_of ?m3 k" if "k \<noteq> ''roles''" for k
    using upd that by (simp add: changes_only_def)
  show ?thesis
  proof (rule that [OF m'(1) d])
    show "map_of m' ''version'' = Some (JString ''v6'')" using eq [of "''version''"] m2(2) m3(2) by simp
    show "map_of m' ''users'' = Some (JArray us')" using eq [of "''users''"] m3(2) by simp
    show "has_groups us'" using add_user_groups_result [OF us(2)] by simp
    show "map_of m' ''user_groups'' \<noteq> None" using eq [of "''user_groups''"] m2(3) m3(2) by simp
    show "changes_only {''version'', ''users'', ''user_groups'', ''roles''} m m'"
      using eq m2(4) m3(2) by (auto simp: changes_only_def)
  qed
qed

lemma v4_v5_result:
  assumes "metadata_v4_v5 mode address (JObject m) = Some md'" and "distinct (map fst m)"
  obtains m' where "md' = JObject m'" "distinct (map fst m')" "map_of m' ''version'' = Some (JString ''v5'')"
    "changes_only {''version'', ''server_mode'', ''querier_endpoint''} m m'"
proof -
  let ?m1 = "replace_version ''v5'' m"
  note r = replace_version_object [OF assms(2), of "''v5''"]
  have "\<exists>m'. md' = JObject m' \<and> one_update {''server_mode'', ''querier_endpoint''} ?m1 m'"
  proof (cases "map_of ?m1 ''server_mode''")
    case None
    with assms(1) show ?thesis by (auto simp: metadata_v4_v5_def Let_def)
  next
    case (Some v)
    with assms(1) show ?thesis by (cases v) (auto simp: metadata_v4_v5_def Let_def)
  qed
  then obtain m' where m': "md' = JObject m'" "one_update {''server_mode'', ''querier_endpoint''} ?m1 m'" by blast
  note upd = one_update_result [OF m'(2) r(1)]
  show ?thesis
  proof (rule that [OF m'(1)])
    show "map_of m' ''version'' = Some (JString ''v5'')" using upd r by (simp add: changes_only_def)
    show "changes_only {''version'', ''server_mode'', ''querier_endpoint''} m m'" using upd r by (simp add: changes_only_def)
  qed (use upd in simp)
qed

lemma v3_v4_result:
  assumes "metadata_v3_v4 mode (JObject m) = Some md'" and "distinct (map fst m)"
  obtains m' rs rs' where "md' = JObject m'" "distinct (map fst m')" "map_of m' ''version'' = Some (JString ''v4'')"
    "map_of m ''roles'' = Some (JObject rs)" "rename_in_roles rs = Some rs'" "map_of m' ''roles'' = Some (JObject rs')"
    "changes_only {''version'', ''server_mode'', ''roles''} m m'"
proof -
  from assms(1) obtain m1 b rs rs' where m1: "set_key ''version'' (JString ''v4'') m = Some m1"
    and rs: "map_of (if b then AList.update ''server_mode'' (JString (mode_name mode)) m1 else m1) ''roles'' = Some (JObject rs)"
      "rename_in_roles rs = Some rs'"
    and md': "md' = JObject (AList.update ''roles'' (JObject rs') (if b then AList.update ''server_mode'' (JString (mode_name mode)) m1 else m1))"
    by (auto simp: metadata_v3_v4_def bind_eq_Some_conv Let_def)
  note s = set_key_object [OF m1 assms(2)]
  let ?m2 = "if b then AList.update ''server_mode'' (JString (mode_name mode)) m1 else m1"
  have m2: "distinct (map fst ?m2)" "map_of ?m2 ''version'' = Some (JString ''v4'')" "map_of ?m2 ''roles'' = map_of m ''roles''"
    "changes_only {''version'', ''server_mode''} m ?m2"
    using s by (auto simp: update_conv' distinct_update changes_only_def)
  show ?thesis
  proof (rule that [OF md'])
    show "map_of m ''roles'' = Some (JObject rs)" using rs(1) m2(3) by simp
    show "changes_only {''version'', ''server_mode'', ''roles''} m (AList.update ''roles'' (JObject rs') ?m2)"
      using m2(4) by (auto simp: changes_only_def update_conv')
  qed (use m2 rs(2) in \<open>auto simp: update_conv' distinct_update\<close>)
qed

lemma v2_v3_result:
  assumes "metadata_v2_v3 mode names (JObject m) = Some md'" and "distinct (map fst m)"
  obtains m' us roles us' where "md' = JObject m'" "distinct (map fst m')"
    "map_of m ''users'' = Some (JArray us)" "migrate_users names us = Some (roles, us')"
    "map_of m' ''users'' = Some (JArray us')" "map_of m' ''roles'' = Some (JObject (map_from_list roles))"
    "changes_only {''version'', ''users'', ''roles'', ''server_mode''} m m'"
proof -
  from assms(1) obtain m1 us roles us' where m1: "set_key ''version'' (JString ''v3'') m = Some m1"
    and us: "map_of m1 ''users'' = Some (JArray us)" "migrate_users names us = Some (roles, us')"
    and md': "md' = JObject (AList.update ''server_mode'' (JString (mode_name mode))
       (AList.update ''roles'' (JObject (map_from_list roles)) (AList.update ''users'' (JArray us') m1)))"
    by (auto simp: metadata_v2_v3_def bind_eq_Some_conv Let_def)
  note s = set_key_object [OF m1 assms(2)]
  show ?thesis
  proof (rule that [OF md' _ _ us(2)])
    show "map_of m ''users'' = Some (JArray us)" using us(1) s by simp
  qed (use s in \<open>auto simp: update_conv' distinct_update changes_only_def\<close>)
qed

lemma v1_roles_unusable: "metadata_v1_v3 mode md = Some md' \<Longrightarrow> metadata_v3_v4 mode' md' = None"
  by (auto simp: metadata_v1_v3_def metadata_v3_v4_def bind_eq_Some_conv set_key_def update_conv' Let_def
      split: if_splits option.splits Option.bind_splits)

lemma remove_querier_result:
  assumes "distinct (map fst m)"
  obtains m' where "remove_querier_metadata (JObject m) = Some (JObject m')" "distinct (map fst m')"
    "map_of m' ''querier_endpoint'' = None" "map_of m' ''querier_auth_token'' = None"
    "changes_only {''querier_endpoint'', ''querier_auth_token''} m m'"
proof -
  let ?m1 = "swap_remove ''querier_endpoint'' m"
  have m1: "distinct (map fst ?m1)" "map_of ?m1 = (map_of m)(''querier_endpoint'' := None)"
    using swap_remove_keys [OF assms] by simp_all
  have m2: "distinct (map fst (swap_remove ''querier_auth_token'' ?m1))"
    "map_of (swap_remove ''querier_auth_token'' ?m1) = (map_of ?m1)(''querier_auth_token'' := None)"
    using swap_remove_keys [OF m1(1)] by simp_all
  show ?thesis
    by (rule that [of "swap_remove ''querier_auth_token'' ?m1"])
      (use m1 m2 in \<open>simp_all add: remove_querier_metadata_def changes_only_def\<close>)
qed

definition migrated_keys :: "string set" where
  "migrated_keys = {''version'', ''users'', ''roles'', ''server_mode'', ''user_groups'', ''querier_endpoint'', ''querier_auth_token''}"

text \<open>The document after the last steps: from version v4 on, or from v5 only.\<close>

definition current_metadata :: "jobject \<Rightarrow> bool" where
  "current_metadata m \<longleftrightarrow> distinct (map fst m) \<and> map_of m ''version'' = Some (JString ''v6'') \<and>
     (\<exists>us. map_of m ''users'' = Some (JArray us) \<and> has_groups us) \<and> map_of m ''user_groups'' \<noteq> None"

lemma from_v4:
  assumes "metadata_v4_on env (JObject m) = Some md'"
    and "distinct (map fst m)"
  obtains m' where "md' = JObject m'" "current_metadata m'" "changes_only migrated_keys m m'"
    "map_of m' ''querier_endpoint'' = None" "map_of m' ''querier_auth_token'' = None"
proof -
  from assms(1) obtain d1 d2 where d: "metadata_v4_v5 (mg_mode env) (mg_address env) (JObject m) = Some d1"
    "metadata_v5_v6 d1 = Some d2" "remove_querier_metadata d2 = Some md'"
    by (auto simp: metadata_v4_on_def bind_eq_Some_conv)
  obtain m1 where m1: "d1 = JObject m1" "distinct (map fst m1)"
    "changes_only {''version'', ''server_mode'', ''querier_endpoint''} m m1"
    using v4_v5_result [OF d(1) assms(2)] by blast
  obtain m2 us where m2: "d2 = JObject m2" "distinct (map fst m2)" "map_of m2 ''version'' = Some (JString ''v6'')"
    "map_of m2 ''users'' = Some (JArray us)" "has_groups us" "map_of m2 ''user_groups'' \<noteq> None"
    "changes_only {''version'', ''users'', ''user_groups'', ''roles''} m1 m2"
    using v5_v6_result [OF d(2) [unfolded m1(1)] m1(2)] by blast
  obtain m3 where removed: "remove_querier_metadata (JObject m2) = Some (JObject m3)"
    and m3': "distinct (map fst m3)" "map_of m3 ''querier_endpoint'' = None"
    "map_of m3 ''querier_auth_token'' = None" "changes_only {''querier_endpoint'', ''querier_auth_token''} m2 m3"
    using remove_querier_result [OF m2(2)] by blast
  have "md' = JObject m3" using d(3) removed m2(1) by simp
  note m3 = this m3'
  show ?thesis
  proof (rule that [OF m3(1) _ _ m3(3,4)])
    show "current_metadata m3" using m2(3-6) m3(2,5) by (simp add: current_metadata_def changes_only_def)
    show "changes_only migrated_keys m m3" using m1(3) m2(7) m3(5) by (simp add: changes_only_def migrated_keys_def)
  qed
qed

lemma from_v3:
  assumes "metadata_v3_on env (JObject m) = Some md'"
    and "distinct (map fst m)"
  obtains m' where "md' = JObject m'" "current_metadata m'" "changes_only migrated_keys m m'"
    "map_of m' ''querier_endpoint'' = None" "map_of m' ''querier_auth_token'' = None"
proof -
  from assms(1) obtain d1 where d: "metadata_v3_v4 (mg_mode env) (JObject m) = Some d1" "metadata_v4_on env d1 = Some md'"
    by (auto simp: metadata_v3_on_def bind_eq_Some_conv)
  obtain m1 where m1: "d1 = JObject m1" "distinct (map fst m1)" "changes_only {''version'', ''server_mode'', ''roles''} m m1"
    using v3_v4_result [OF d(1) assms(2)] by blast
  obtain m2 where m2: "md' = JObject m2" "current_metadata m2" "changes_only migrated_keys m1 m2"
    "map_of m2 ''querier_endpoint'' = None" "map_of m2 ''querier_auth_token'' = None"
    using from_v4 [OF d(2) [unfolded m1(1)] m1(2)] by blast
  have "changes_only migrated_keys m m2"
    by (rule changes_only_trans [OF m1(3) m2(3)]) (simp add: migrated_keys_def)
  then show ?thesis using that m2 by blast
qed

lemma migrate_remote_chain:
  "get_version md = Some ''v1'' \<Longrightarrow> migrate_remote env md = metadata_v1_v3 (mg_mode env) md \<bind> metadata_v3_on env"
  "get_version md = Some ''v2'' \<Longrightarrow> migrate_remote env md = metadata_v2_v3 (mg_mode env) (role_names env) md \<bind> metadata_v3_on env"
  "get_version md = Some ''v3'' \<Longrightarrow> migrate_remote env md = metadata_v3_on env md"
  "get_version md = Some ''v4'' \<Longrightarrow> migrate_remote env md = metadata_v4_on env md"
  "get_version md = Some ''v5'' \<Longrightarrow> migrate_remote env md = metadata_v5_v6 md"
  by (simp_all add: migrate_remote_def)

lemma migrated_document:
  assumes "migrate_remote env (JObject m) = Some md'" and "is_old_version (JObject m)" and "distinct (map fst m)"
  shows "\<exists>m'. md' = JObject m' \<and> current_metadata m' \<and> changes_only migrated_keys m m' \<and>
    (get_version (JObject m) \<noteq> Some ''v5'' \<longrightarrow>
       map_of m' ''querier_endpoint'' = None \<and> map_of m' ''querier_auth_token'' = None)"
proof -
  let ?goal = "\<exists>m'. md' = JObject m' \<and> current_metadata m' \<and> changes_only migrated_keys m m' \<and>
    map_of m' ''querier_endpoint'' = None \<and> map_of m' ''querier_auth_token'' = None"
  from assms(2) consider "get_version (JObject m) = Some ''v1''" | "get_version (JObject m) = Some ''v2''"
    | "get_version (JObject m) = Some ''v3''" | "get_version (JObject m) = Some ''v4''" | "get_version (JObject m) = Some ''v5''"
    by (auto simp: is_old_version_def)
  then show ?thesis
  proof cases
    case 1
    with assms(1) show ?thesis
      by (auto simp: migrate_remote_chain(1) metadata_v3_on_def bind_eq_Some_conv v1_roles_unusable)
  next
    case 2
    from assms(1) obtain d1 where d: "metadata_v2_v3 (mg_mode env) (role_names env) (JObject m) = Some d1"
      "metadata_v3_on env d1 = Some md'"
      unfolding migrate_remote_chain(2) [OF 2] by (auto simp: bind_eq_Some_conv)
    obtain m1 where m1: "d1 = JObject m1" "distinct (map fst m1)"
      "changes_only {''version'', ''users'', ''roles'', ''server_mode''} m m1"
      using v2_v3_result [OF d(1) assms(3)] by blast
    obtain m2 where m2: "md' = JObject m2" "current_metadata m2" "changes_only migrated_keys m1 m2"
      "map_of m2 ''querier_endpoint'' = None" "map_of m2 ''querier_auth_token'' = None"
      using from_v3 [OF d(2) [unfolded m1(1)] m1(2)] by blast
    have "changes_only migrated_keys m m2"
      by (rule changes_only_trans [OF m1(3) m2(3)]) (simp add: migrated_keys_def)
    with m2 show ?thesis by blast
  next
    case 3
    show ?thesis using from_v3 [OF assms(1) [unfolded migrate_remote_chain(3) [OF 3]] assms(3)] by blast
  next
    case 4
    show ?thesis using from_v4 [OF assms(1) [unfolded migrate_remote_chain(4) [OF 4]] assms(3)] by blast
  next
    case 5
    obtain m' us where m': "md' = JObject m'" "distinct (map fst m')" "map_of m' ''version'' = Some (JString ''v6'')"
      "map_of m' ''users'' = Some (JArray us)" "has_groups us" "map_of m' ''user_groups'' \<noteq> None"
      "changes_only {''version'', ''users'', ''user_groups'', ''roles''} m m'"
      using v5_v6_result [OF assms(1) [unfolded migrate_remote_chain(5) [OF 5]] assms(3)] by blast
    then have "current_metadata m'" "changes_only migrated_keys m m'"
      by (auto simp: current_metadata_def changes_only_def migrated_keys_def)
    with m'(1) 5 show ?thesis by auto
  qed
qed

text \<open>A document of an older version (v2 to v5) that the migration does not panic on becomes a document
  of version v6 that has user groups, for every user too; only the fields that the versions changed differ,
  and the fields of the former querier are gone, unless the document was v5 already.\<close>

theorem metadata_migrated:
  assumes "migrate_remote env (JObject m) = Some md'" and "is_old_version (JObject m)" and "distinct (map fst m)"
  shows "\<exists>m'. md' = JObject m' \<and> current_metadata m' \<and> changes_only migrated_keys m m' \<and>
    (get_version (JObject m) \<noteq> Some ''v5'' \<longrightarrow>
       map_of m' ''querier_endpoint'' = None \<and> map_of m' ''querier_auth_token'' = None)"
  using assms by (rule migrated_document)

definition v2_document :: jobject where
  "v2_document = [(''version'', JString ''v2''), (''mode'', JString ''drive''),
     (''users'', JArray [JObject [(''username'', JString ''ann''), (''role'', JArray [JObject [(''privilege'', JString ''ingester'')]])]])]"

definition sample_migration :: migration_env where
  "sample_migration = \<lparr>mg_mode = AllMode, mg_address = ''a'', role_names = [''r1''], reads_metadata = (\<lambda>_. True),
     put_remote_ok = True, put_staging_ok = True\<rparr>"

theorem metadata_migrated_witness:
  "\<exists>m'. migrate_remote sample_migration (JObject v2_document) = Some (JObject m') \<and> current_metadata m' \<and>
     map_of m' ''mode'' = Some (JString ''drive'')"
proof -
  obtain md' where run: "migrate_remote sample_migration (JObject v2_document) = Some md'"
  proof -
    have "migrate_remote sample_migration (JObject v2_document) \<noteq> None" by code_simp
    with that show ?thesis by blast
  qed
  have "is_old_version (JObject v2_document)" "distinct (map fst v2_document)"
    by (simp_all add: is_old_version_def get_version_def v2_document_def)
  from metadata_migrated [OF run this] obtain m' where "md' = JObject m'" "current_metadata m'"
    "changes_only migrated_keys v2_document m'" by blast
  with run show ?thesis by (auto simp: changes_only_def migrated_keys_def v2_document_def)
qed

text \<open>The oldest documents cannot be migrated: v1 gets its roles as an array, which the next step takes
  for an object, so the server panics at its start whatever the document holds.\<close>

theorem v1_metadata_panics:
  assumes "get_version md = Some ''v1''" and "parseable_json fs = Some md"
  shows "migrate_remote env md = None \<and> run_metadata_migration env fs = None"
proof -
  have "migrate_remote env md = None"
    unfolding migrate_remote_chain(1) [OF assms(1)]
    by (cases "metadata_v1_v3 (mg_mode env) md") (auto simp: metadata_v3_on_def v1_roles_unusable)
  then show ?thesis using assms(2) by (simp add: run_metadata_migration_def)
qed

theorem v1_metadata_panics_witness:
  "run_metadata_migration sample_migration \<lparr>remote_json = None, parseable_json = Some (JObject [(''version'', JString ''v1'')]),
     staging_json = None\<rparr> = None"
  by (rule conjunct2 [OF v1_metadata_panics [of "JObject [(''version'', JString ''v1'')]"]]) (simp_all add: get_version_def)

section \<open>The migration does not panic\<close>

definition objects :: "json list \<Rightarrow> bool" where
  "objects us \<longleftrightarrow> list_all is_object us"

definition arrays_of :: "jobject \<Rightarrow> bool" where
  "arrays_of rs \<longleftrightarrow> (\<forall>v \<in> snd ` set rs. is_array v)"

lemma is_array_iff: "is_array v \<longleftrightarrow> (\<exists>vs. v = JArray vs)"
  by (cases v) simp_all

lemma add_user_groups_total: "objects us \<Longrightarrow> \<exists>us'. add_user_groups us = Some us'"
  by (induction us) (auto simp: objects_def is_object_iff)

lemma rename_in_roles_total: "arrays_of rs \<Longrightarrow> \<exists>rs'. rename_in_roles rs = Some rs'"
proof (induction rs)
  case Nil
  show ?case by simp
next
  case (Cons e rs)
  obtain k v where e: "e = (k, v)" by fastforce
  with Cons.prems obtain vs where "v = JArray vs" by (auto simp: arrays_of_def is_array_iff)
  with Cons e show ?case by (auto simp: arrays_of_def)
qed

definition v2_user :: "json \<Rightarrow> bool" where
  "v2_user u \<longleftrightarrow> (\<exists>m ps. u = JObject m \<and> map_of m ''role'' = Some (JArray ps))"

lemma migrate_users_total:
  "list_all v2_user us \<Longrightarrow> \<exists>roles us'. migrate_users names us = Some (roles, us') \<and> objects us' \<and> arrays_of roles"
proof (induction us arbitrary: names)
  case Nil
  show ?case by (simp add: objects_def arrays_of_def)
next
  case (Cons u us)
  from Cons.prems have us: "list_all v2_user us" and "v2_user u" by simp_all
  then obtain m ps where u: "u = JObject m" "map_of m ''role'' = Some (JArray ps)" unfolding v2_user_def by blast
  obtain roles us' where r: "migrate_users (if ps = [] then names else tl names) us = Some (roles, us')" "objects us'" "arrays_of roles"
    using Cons.IH [OF us] by blast
  show ?case using u r by (cases "ps = []") (auto simp: objects_def arrays_of_def)
qed

lemma arrays_of_update: "is_array v \<Longrightarrow> arrays_of m \<Longrightarrow> arrays_of (AList.update k v m)"
  by (induction m) (auto simp: arrays_of_def)

lemma arrays_of_map_from_list: "arrays_of roles \<Longrightarrow> arrays_of (map_from_list roles)"
proof -
  have "arrays_of roles \<Longrightarrow> arrays_of m \<Longrightarrow> arrays_of (fold (\<lambda>(k, v). AList.update k v) roles m)" for m
  proof (induction roles arbitrary: m)
    case (Cons e roles)
    obtain k v where e: "e = (k, v)" by fastforce
    with Cons.prems have "is_array v" "arrays_of roles" by (auto simp: arrays_of_def)
    with Cons e show ?case by (simp add: arrays_of_update)
  qed simp
  from this [of "[]"] show "arrays_of roles \<Longrightarrow> arrays_of (map_from_list roles)" by (simp add: map_from_list_def arrays_of_def)
qed

text \<open>The shape that documents of each version have.\<close>

definition users_in :: "(json list \<Rightarrow> bool) \<Rightarrow> jobject \<Rightarrow> bool" where
  "users_in P m \<longleftrightarrow> (\<exists>us. map_of m ''users'' = Some (JArray us) \<and> P us)"

definition v3_shape :: "jobject \<Rightarrow> bool" where
  "v3_shape m \<longleftrightarrow> map_of m ''version'' \<noteq> None \<and> users_in objects m \<and>
     (\<exists>rs. map_of m ''roles'' = Some (JObject rs) \<and> arrays_of rs) \<and>
     (map_of m ''server_mode'' = None \<or> (\<exists>s. map_of m ''server_mode'' = Some (JString s)))"

lemma v5_v6_total:
  assumes "users_in objects m" and "distinct (map fst m)"
  shows "\<exists>md'. metadata_v5_v6 (JObject m) = Some md'"
proof -
  from assms(1) obtain us where "map_of m ''users'' = Some (JArray us)" "objects us" unfolding users_in_def by blast
  then obtain us' where "map_of m ''users'' = Some (JArray us)" "add_user_groups us = Some us'"
    using add_user_groups_total by blast
  with replace_version_object [OF assms(2), of "''v6''"] show ?thesis
    by (auto simp: metadata_v5_v6_def Let_def update_conv')
qed

lemma v4_on_total:
  assumes "users_in objects m" and "distinct (map fst m)"
  shows "\<exists>md'. metadata_v4_on env (JObject m) = Some md'"
proof -
  obtain d1 where d1: "metadata_v4_v5 (mg_mode env) (mg_address env) (JObject m) = Some d1"
    by (simp add: metadata_v4_v5_def Let_def)
  obtain m1 where m1: "d1 = JObject m1" "distinct (map fst m1)" "changes_only {''version'', ''server_mode'', ''querier_endpoint''} m m1"
    using v4_v5_result [OF d1 assms(2)] by blast
  then have "users_in objects m1" using assms(1) by (simp add: users_in_def changes_only_def)
  with m1(2) obtain d2 where d2: "metadata_v5_v6 d1 = Some d2" using v5_v6_total m1(1) by blast
  obtain m2 where "d2 = JObject m2" using v5_v6_result [OF d2 [unfolded m1(1)] m1(2)] by blast
  with d1 d2 show ?thesis by (simp add: metadata_v4_on_def remove_querier_metadata_def)
qed

lemma v3_v4_total:
  assumes "v3_shape m" and "distinct (map fst m)"
  shows "\<exists>md'. metadata_v3_v4 mode (JObject m) = Some md'"
proof -
  from assms(1) obtain x rs where "map_of m ''version'' = Some x" "map_of m ''roles'' = Some (JObject rs)" "arrays_of rs"
    unfolding v3_shape_def by blast
  then obtain rs' where x: "map_of m ''version'' = Some x" "map_of m ''roles'' = Some (JObject rs)" "rename_in_roles rs = Some rs'"
    using rename_in_roles_total by blast
  let ?m1 = "AList.update ''version'' (JString ''v4'') m"
  have m1: "set_key ''version'' (JString ''v4'') m = Some ?m1" using x by (simp add: set_key_def)
  have "map_of m ''server_mode'' = None \<or> (\<exists>s. map_of m ''server_mode'' = Some (JString s))" using assms(1) by (simp add: v3_shape_def)
  then obtain b where "(case map_of ?m1 ''server_mode'' of None \<Rightarrow> Some True | Some v \<Rightarrow> map_option (\<lambda>s. s = ''All'') (as_str v)) = Some b"
    by (auto simp: update_conv')
  with m1 x show ?thesis by (cases b) (simp_all add: metadata_v3_v4_def Let_def update_conv')
qed

lemma v3_on_total:
  assumes "v3_shape m" and "distinct (map fst m)"
  shows "\<exists>md'. metadata_v3_on env (JObject m) = Some md'"
proof -
  obtain d1 where d1: "metadata_v3_v4 (mg_mode env) (JObject m) = Some d1" using v3_v4_total [OF assms] by blast
  obtain m1 where m1: "d1 = JObject m1" "distinct (map fst m1)" "changes_only {''version'', ''server_mode'', ''roles''} m m1"
    using v3_v4_result [OF d1 assms(2)] by blast
  then have "users_in objects m1" using assms(1) by (simp add: users_in_def changes_only_def v3_shape_def)
  with d1 m1 v4_on_total show ?thesis by (auto simp: metadata_v3_on_def)
qed

lemma v2_v3_shape:
  assumes "map_of m ''version'' \<noteq> None" and "users_in (list_all v2_user) m" and "distinct (map fst m)"
  shows "\<exists>m'. metadata_v2_v3 mode names (JObject m) = Some (JObject m') \<and> v3_shape m' \<and> distinct (map fst m')"
proof -
  from assms(2) obtain us where "map_of m ''users'' = Some (JArray us)" "list_all v2_user us" unfolding users_in_def by blast
  then obtain roles us' where us: "map_of m ''users'' = Some (JArray us)"
    "migrate_users names us = Some (roles, us')" "objects us'" "arrays_of roles"
    using migrate_users_total by blast
  let ?m = "AList.update ''server_mode'' (JString (mode_name mode)) (AList.update ''roles'' (JObject (map_from_list roles))
    (AList.update ''users'' (JArray us') (AList.update ''version'' (JString ''v3'') m)))"
  have "metadata_v2_v3 mode names (JObject m) = Some (JObject ?m)"
    using assms(1) us(1,2) by (simp add: metadata_v2_v3_def set_key_def update_conv')
  moreover have "v3_shape ?m" using us(3) arrays_of_map_from_list [OF us(4)]
    by (simp add: v3_shape_def users_in_def update_conv')
  moreover have "distinct (map fst ?m)" using assms(3) by (simp add: distinct_update)
  ultimately show ?thesis by blast
qed

text \<open>A document of version v2, v3, v4 or v5 with the fields its version has (for v2 users with an array
  of privileges, for v3 roles as an object of arrays, for all an array of users) is migrated: the migration
  neither panics nor fails, and when storage accepts it the stored document has version v6.\<close>

theorem metadata_migration_total:
  assumes "distinct (map fst m)" and "is_old_version (JObject m)" and "map_of m ''version'' \<noteq> Some (JString ''v1'')"
    and "if map_of m ''version'' = Some (JString ''v2'') then users_in (list_all v2_user) m
         else if map_of m ''version'' = Some (JString ''v3'') then v3_shape m else users_in objects m"
    and "put_remote_ok env" and "\<forall>md. reads_metadata env md" and "staging_json fs = None"
    and "parseable_json fs = Some (JObject m)"
  shows "\<exists>m'. run_metadata_migration env fs =
      Some (fs\<lparr>parseable_json := Some (JObject m'), remote_json := Some (JObject m')\<rparr>, Inr ()) \<and> current_metadata m'"
proof -
  have "\<exists>md'. migrate_remote env (JObject m) = Some md'"
  proof (cases "map_of m ''version'' = Some (JString ''v2'')")
    case True
    with assms(4) obtain m1 where "metadata_v2_v3 (mg_mode env) (role_names env) (JObject m) = Some (JObject m1)"
      "v3_shape m1" "distinct (map fst m1)" using v2_v3_shape [OF _ _ assms(1)] by auto
    then show ?thesis using v3_on_total [of m1 env] migrate_remote_chain(2) [of "JObject m"] True
      by (simp add: get_version_object)
  next
    case False
    with assms(2,3) consider "get_version (JObject m) = Some ''v3''" | "get_version (JObject m) = Some ''v4''"
      | "get_version (JObject m) = Some ''v5''" by (auto simp: is_old_version_def get_version_object)
    then show ?thesis
    proof cases
      case 1
      with assms(4) have "v3_shape m" by (simp add: get_version_object)
      then show ?thesis using v3_on_total [OF _ assms(1)] migrate_remote_chain(3) [OF 1] by metis
    next
      case 2
      with assms(4) have "users_in objects m" by (simp add: get_version_object)
      then show ?thesis using v4_on_total [OF _ assms(1)] migrate_remote_chain(4) [OF 2] by metis
    next
      case 3
      with assms(4) have "users_in objects m" by (simp add: get_version_object)
      then show ?thesis using v5_v6_total [OF _ assms(1)] migrate_remote_chain(5) [OF 3] by metis
    qed
  qed
  then obtain md' where run: "migrate_remote env (JObject m) = Some md'" by blast
  obtain m' where "md' = JObject m'" "current_metadata m'" using migrated_document [OF run assms(2,1)] by blast
  then show ?thesis using run assms(2,5-8)
    by (auto simp: run_metadata_migration_def put_remote_def)
qed

theorem metadata_migration_total_witness:
  "\<exists>m'. run_metadata_migration sample_migration
      \<lparr>remote_json = None, parseable_json = Some (JObject v2_document), staging_json = None\<rparr> =
    Some (\<lparr>remote_json = Some (JObject m'), parseable_json = Some (JObject m'), staging_json = None\<rparr>, Inr ())"
proof -
  have v: "map_of v2_document ''version'' = Some (JString ''v2'')" by (simp add: v2_document_def)
  have "users_in (list_all v2_user) v2_document" by (simp add: users_in_def v2_user_def v2_document_def)
  then have shape: "if map_of v2_document ''version'' = Some (JString ''v2'') then users_in (list_all v2_user) v2_document
         else if map_of v2_document ''version'' = Some (JString ''v3'') then v3_shape v2_document else users_in objects v2_document"
    using v by simp
  have old: "is_old_version (JObject v2_document)" using v by (simp add: is_old_version_def get_version_object)
  have d: "distinct (map fst v2_document)" "map_of v2_document ''version'' \<noteq> Some (JString ''v1'')"
    by (simp_all add: v2_document_def)
  from metadata_migration_total [OF d(1) old d(2) shape, of sample_migration
      "\<lparr>remote_json = None, parseable_json = Some (JObject v2_document), staging_json = None\<rparr>"]
  show ?thesis by (auto simp: sample_migration_def)
qed

section \<open>The staging copy needs two starts\<close>

text \<open>The staging copy of a v2 or v3 document only reaches v4 in one start, without the user groups that
  the current format requires; the next start brings it to v6.\<close>

theorem staging_needs_two_starts:
  assumes "get_version (JObject m) = Some ''v3''" and "v3_shape m" and "distinct (map fst m)"
    and "map_of m ''user_groups'' = None"
  shows "\<exists>m1 md2. migrate_staging env (JObject m) = Some (Some (JObject m1)) \<and>
    map_of m1 ''version'' = Some (JString ''v4'') \<and> map_of m1 ''user_groups'' = None \<and>
    migrate_staging env (JObject m1) = Some (Some md2) \<and> get_version md2 = Some ''v6''"
proof -
  obtain d1 where d1: "metadata_v3_v4 (mg_mode env) (JObject m) = Some d1" using v3_v4_total [OF assms(2,3)] by blast
  obtain m1 where m1: "d1 = JObject m1" "distinct (map fst m1)" "map_of m1 ''version'' = Some (JString ''v4'')"
    "changes_only {''version'', ''server_mode'', ''roles''} m m1"
    using v3_v4_result [OF d1 assms(3)] by blast
  then have "users_in objects m1" and g: "map_of m1 ''user_groups'' = None"
    using assms(2,4) by (simp_all add: users_in_def changes_only_def v3_shape_def)
  obtain d2 where d2: "metadata_v4_v5 (mg_mode env) (mg_address env) (JObject m1) = Some d2"
    by (simp add: metadata_v4_v5_def Let_def)
  obtain m2 where m2: "d2 = JObject m2" "distinct (map fst m2)" "changes_only {''version'', ''server_mode'', ''querier_endpoint''} m1 m2"
    using v4_v5_result [OF d2 m1(2)] by blast
  then have "users_in objects m2" using \<open>users_in objects m1\<close> by (simp add: users_in_def changes_only_def)
  then obtain d3 where d3: "metadata_v5_v6 (JObject m2) = Some d3" using v5_v6_total m2(2) by blast
  obtain m3 where m3: "d3 = JObject m3" "map_of m3 ''version'' = Some (JString ''v6'')"
    using v5_v6_result [OF d3 m2(2)] by blast
  have "migrate_staging env (JObject m) = Some (Some (JObject m1))"
    using assms(1) d1 m1(1) by (simp add: migrate_staging_def)
  moreover have "get_version (JObject m1) = Some ''v4''" using m1(3) by (simp add: get_version_object)
  then have "migrate_staging env (JObject m1) = Some (Some d3)"
    using d2 d3 m2(1) by (simp add: migrate_staging_def)
  moreover have "get_version d3 = Some ''v6''" using m3 by (simp add: get_version_object)
  ultimately show ?thesis using m1(3) g by blast
qed

definition v3_document :: jobject where
  "v3_document = [(''version'', JString ''v3''), (''users'', JArray []), (''roles'', JObject [])]"

theorem staging_needs_two_starts_witness:
  "\<exists>m1. migrate_staging sample_migration (JObject v3_document) = Some (Some (JObject m1)) \<and>
     map_of m1 ''version'' = Some (JString ''v4'')"
proof -
  have "get_version (JObject v3_document) = Some ''v3''" "v3_shape v3_document" "distinct (map fst v3_document)"
    "map_of v3_document ''user_groups'' = None"
    by (simp_all add: get_version_object v3_shape_def v3_document_def users_in_def objects_def arrays_of_def)
  from staging_needs_two_starts [OF this] show ?thesis by blast
qed

section \<open>Streams reach the current version\<close>

lemma set_formats_result:
  assumes "distinct (map fst m)"
  shows "distinct (map fst (set_formats m)) \<and> map_of (set_formats m) ''version'' = Some (JString ''v7'') \<and>
    map_of (set_formats m) ''objectstore-format'' = Some (JString ''v7'') \<and>
    changes_only {''version'', ''objectstore-format''} m (set_formats m)"
  using assms by (auto simp: set_formats_def update_conv' distinct_update changes_only_def)

definition v7_stream :: "jobject \<Rightarrow> bool" where
  "v7_stream m \<longleftrightarrow> distinct (map fst m) \<and> map_of m ''version'' = Some (JString ''v7'') \<and>
     map_of m ''objectstore-format'' = Some (JString ''v7'')"

lemma stream_v6_v7_result:
  assumes "distinct (map fst m)"
  obtains m' where "stream_v6_v7 (JObject m) = Some (JObject m')" "v7_stream m'"
    "map_of m' ''telemetry_type'' = (case map_of m ''telemetry_type'' of Some t \<Rightarrow> Some t | None \<Rightarrow>
       Some (JString (telemetry_type_fmt (telemetry_of_source (first_log_source (set_formats m))))))"
    "changes_only {''version'', ''objectstore-format'', ''telemetry_type''} m m'"
proof -
  note s = set_formats_result [OF assms]
  let ?m' = "if map_of (set_formats m) ''telemetry_type'' = None
       then AList.update ''telemetry_type'' (JString (telemetry_type_fmt (telemetry_of_source (first_log_source (set_formats m)))))
         (set_formats m) else set_formats m"
  have t: "map_of (set_formats m) ''telemetry_type'' = map_of m ''telemetry_type''" using s by (simp add: changes_only_def)
  show ?thesis
  proof (rule that [of ?m'])
    show "stream_v6_v7 (JObject m) = Some (JObject ?m')" by (simp add: stream_v6_v7_def Let_def)
    show "v7_stream ?m'" using s by (simp add: v7_stream_def update_conv' distinct_update)
    show "map_of ?m' ''telemetry_type'' = (case map_of m ''telemetry_type'' of Some t \<Rightarrow> Some t | None \<Rightarrow>
       Some (JString (telemetry_type_fmt (telemetry_of_source (first_log_source (set_formats m))))))"
      using t by (cases "map_of m ''telemetry_type''") (simp_all add: update_conv')
    show "changes_only {''version'', ''objectstore-format'', ''telemetry_type''} m ?m'"
      using s by (simp add: changes_only_def update_conv')
  qed
qed

lemma stream_v5_v6_result:
  assumes "distinct (map fst m)"
  obtains m' where "stream_v5_v6 (JObject m) = Some (JObject m')" "v7_stream m'"
    "map_of m' ''log_source'' = Some (JArray [case map_of m ''log_source'' of
       Some v \<Rightarrow> transform_log_source v | None \<Rightarrow> source_entry ''json''])"
    "changes_only {''version'', ''objectstore-format'', ''log_source''} m m'"
proof -
  note s = set_formats_result [OF assms]
  have t: "map_of (set_formats m) ''log_source'' = map_of m ''log_source''" using s by (simp add: changes_only_def)
  let ?e = "case map_of (set_formats m) ''log_source'' of Some v \<Rightarrow> transform_log_source v | None \<Rightarrow> source_entry ''json''"
  let ?m1 = "swap_remove ''log_source'' (set_formats m)"
  have m1: "distinct (map fst ?m1)" "map_of ?m1 = (map_of (set_formats m))(''log_source'' := None)"
    using swap_remove_keys [of "set_formats m" "''log_source''"] s by simp_all
  show ?thesis
    by (rule that [of "AList.update ''log_source'' (JArray [?e]) ?m1"])
      (use s t m1 in \<open>simp_all add: stream_v5_v6_def Let_def v7_stream_def update_conv' distinct_update changes_only_def\<close>)
qed

lemma stream_v4_v5_result:
  assumes "distinct (map fst m)"
  obtains m' where "stream_v4_v5 n (JObject m) = Some (JObject m')" "v7_stream m'" "map_of m' ''stream_type'' \<noteq> None"
    "changes_only {''version'', ''objectstore-format'', ''stream_type''} m m'"
proof -
  note s = set_formats_result [OF assms]
  let ?m' = "if map_of (set_formats m) ''stream_type'' = None
       then AList.update ''stream_type'' (JString (if n = pmeta_stream_name then ''Internal'' else ''UserDefined'')) (set_formats m)
       else set_formats m"
  show ?thesis
    by (rule that [of ?m'])
      (use s in \<open>auto simp: stream_v4_v5_def Let_def v7_stream_def update_conv' distinct_update changes_only_def\<close>)
qed

lemma first_source_entry:
  "map_of m ''log_source'' = Some (JArray [source_entry s]) \<Longrightarrow> first_log_source m = s"
  by (simp add: first_log_source_def source_entry_def)

text \<open>The old and the new names of the log sources; what is no text, or another one, becomes json.\<close>

definition renamed_sources :: "string \<rightharpoonup> string" where
  "renamed_sources = [''Kinesis'' \<mapsto> ''kinesis'', ''OtelLogs'' \<mapsto> ''otel-logs'', ''OtelTraces'' \<mapsto> ''otel-traces'',
     ''OtelMetrics'' \<mapsto> ''otel-metrics'', ''Pmeta'' \<mapsto> ''pmeta'', ''Json'' \<mapsto> ''json'']"

definition new_source_name :: "json option \<Rightarrow> string" where
  "new_source_name v =
     (case v of Some (JString s) \<Rightarrow> (case renamed_sources s of Some n \<Rightarrow> n | None \<Rightarrow> ''json'') | _ \<Rightarrow> ''json'')"

lemma transform_log_source_entry: "transform_log_source v = source_entry (new_source_name (Some v))"
  by (cases v) (auto simp: new_source_name_def renamed_sources_def map_log_source_format_def)

text \<open>The kind of telemetry that the name of a log source tells.\<close>

definition telemetry_named :: "string \<Rightarrow> string" where
  "telemetry_named s = (if s = ''otel-traces'' then ''traces'' else if s = ''otel-metrics'' then ''metrics'' else ''logs'')"

lemma telemetry_of_source_named: "telemetry_type_fmt (telemetry_of_source s) = telemetry_named s"
  by (simp add: telemetry_of_source_def telemetry_named_def)

definition stream_keys :: "string set" where
  "stream_keys = {''version'', ''objectstore-format'', ''stream_type'', ''log_source'', ''telemetry_type''}"

text \<open>Settings of version v7: a log source, given as it is in JSON, and the kind of telemetry, which is the
  given one or else the one that the name of the log source tells.\<close>

definition current_stream :: "json option \<Rightarrow> string \<Rightarrow> json option \<Rightarrow> jobject \<Rightarrow> bool" where
  "current_stream src name tel m \<longleftrightarrow> v7_stream m \<and> map_of m ''log_source'' = src \<and>
     map_of m ''telemetry_type'' = (case tel of Some t \<Rightarrow> Some t | None \<Rightarrow> Some (JString (telemetry_named name)))"

abbreviation renamed_stream :: "jobject \<Rightarrow> jobject \<Rightarrow> bool" where
  "renamed_stream m m' \<equiv> (let name = new_source_name (map_of m ''log_source'') in
     current_stream (Some (JArray [source_entry name])) name (map_of m ''telemetry_type'') m')"

lemma stream_v5_on:
  assumes "distinct (map fst m)"
  obtains m' where "stream_v5_v6 (JObject m) \<bind> stream_v6_v7 = Some (JObject m')"
    "renamed_stream m m'" "changes_only (stream_keys - {''stream_type''}) m m'"
proof -
  let ?e = "case map_of m ''log_source'' of Some v \<Rightarrow> transform_log_source v | None \<Rightarrow> source_entry ''json''"
  obtain m1 where m1: "stream_v5_v6 (JObject m) = Some (JObject m1)" "v7_stream m1" "map_of m1 ''log_source'' = Some (JArray [?e])"
    "changes_only {''version'', ''objectstore-format'', ''log_source''} m m1"
    using stream_v5_v6_result [OF assms] by blast
  define s where "s = new_source_name (map_of m ''log_source'')"
  have s: "?e = source_entry s"
    using transform_log_source_entry by (cases "map_of m ''log_source''") (simp_all add: s_def new_source_name_def)
  have d1: "distinct (map fst m1)" using m1(2) by (simp add: v7_stream_def)
  obtain m2 where m2: "stream_v6_v7 (JObject m1) = Some (JObject m2)" "v7_stream m2"
    "map_of m2 ''telemetry_type'' = (case map_of m1 ''telemetry_type'' of Some t \<Rightarrow> Some t | None \<Rightarrow>
       Some (JString (telemetry_type_fmt (telemetry_of_source (first_log_source (set_formats m1))))))"
    "changes_only {''version'', ''objectstore-format'', ''telemetry_type''} m1 m2"
    using stream_v6_v7_result [OF d1] by blast
  have "map_of (set_formats m1) ''log_source'' = Some (JArray [source_entry s])"
    using set_formats_result [OF d1] m1(3) s by (simp add: changes_only_def)
  then have "first_log_source (set_formats m1) = s" by (rule first_source_entry)
  moreover have "map_of m1 ''telemetry_type'' = map_of m ''telemetry_type''" "map_of m2 ''log_source'' = map_of m1 ''log_source''"
    using m1(4) m2(4) by (simp_all add: changes_only_def)
  ultimately have "renamed_stream m m2"
    using m2(2,3) m1(3) s
    by (auto simp: current_stream_def Let_def telemetry_of_source_named simp flip: s_def split: option.split)
  moreover have "changes_only (stream_keys - {''stream_type''}) m m2"
    by (rule changes_only_trans [OF m1(4) m2(4)]) (auto simp: stream_keys_def)
  ultimately show ?thesis using that m1(1) m2(1) by simp
qed

lemma stream_v4_on_result:
  assumes "distinct (map fst m)"
  obtains m' where "stream_v4_on n (JObject m) = Some (JObject m')"
    "renamed_stream m m'" "map_of m' ''stream_type'' \<noteq> None"
    "changes_only stream_keys m m'"
proof -
  obtain m1 where m1: "stream_v4_v5 n (JObject m) = Some (JObject m1)" "v7_stream m1" "map_of m1 ''stream_type'' \<noteq> None"
    "changes_only {''version'', ''objectstore-format'', ''stream_type''} m m1"
    using stream_v4_v5_result [OF assms] by blast
  then have d1: "distinct (map fst m1)" by (simp add: v7_stream_def)
  obtain m2 where m2: "stream_v5_v6 (JObject m1) \<bind> stream_v6_v7 = Some (JObject m2)"
    "renamed_stream m1 m2" "changes_only (stream_keys - {''stream_type''}) m1 m2"
    using stream_v5_on [OF d1] by blast
  have eq: "map_of m1 ''log_source'' = map_of m ''log_source''" "map_of m1 ''telemetry_type'' = map_of m ''telemetry_type''"
    "map_of m2 ''stream_type'' = map_of m1 ''stream_type''"
    using m1(4) m2(3) by (simp_all add: changes_only_def stream_keys_def)
  have "changes_only stream_keys m m2"
    by (rule changes_only_trans [OF m1(4) m2(3)]) (auto simp: stream_keys_def)
  with that m1(1,3) m2(1,2) eq show ?thesis by (simp add: stream_v4_on_def)
qed

text \<open>The statistics that v1 to v3 keep flat, and a snapshot of version v1 with its manifests.\<close>

definition has_stats :: "json \<Rightarrow> json \<Rightarrow> json \<Rightarrow> jobject \<Rightarrow> bool" where
  "has_stats e i s m \<longleftrightarrow> (\<exists>v. map_of m ''stats'' = Some v \<and> json_get v ''events'' = Some e \<and>
     json_get v ''ingestion'' = Some i \<and> json_get v ''storage'' = Some s)"

definition manifest_v1 :: "json \<Rightarrow> bool" where
  "manifest_v1 v \<longleftrightarrow> (\<exists>m. v = JObject m \<and> map_of m ''manifest_path'' \<noteq> None \<and> map_of m ''time_lower_bound'' \<noteq> None \<and>
     map_of m ''time_upper_bound'' \<noteq> None)"

definition has_snapshot :: "jobject \<Rightarrow> bool" where
  "has_snapshot m \<longleftrightarrow> (\<exists>s. map_of m ''snapshot'' = Some s \<and> (get_version s = Some ''v1'' \<longrightarrow>
     (\<exists>sm items. s = JObject sm \<and> map_of sm ''manifest_list'' = Some (JArray items) \<and> list_all manifest_v1 items)))"

lemma manifests_total: "list_all manifest_v1 items \<Longrightarrow> \<exists>items'. those (map manifest_item_v2 items) = Some items'"
  by (induction items) (auto simp: manifest_v1_def manifest_item_v2_def)

definition upgraded_stats :: "json \<Rightarrow> json \<Rightarrow> json \<Rightarrow> json" where
  "upgraded_stats e i s = JObject [(''lifetime_stats'', stats_triple e i s), (''current_stats'', stats_triple e i s),
     (''deleted_stats'', stats_triple zero zero zero)]"

definition upgraded :: "json \<Rightarrow> json \<Rightarrow> json \<Rightarrow> jobject \<Rightarrow> jobject \<Rightarrow> bool" where
  "upgraded e i s m m' \<longleftrightarrow> distinct (map fst m') \<and> map_of m' ''stats'' = Some (upgraded_stats e i s) \<and>
     changes_only {''stats'', ''version'', ''objectstore-format'', ''snapshot''} m m'"

lemma upgrade_stats_total:
  assumes "has_stats e i s m"
  shows "upgrade_stats m = Some (AList.update ''stats'' (upgraded_stats e i s) m)"
  using assms by (auto simp: has_stats_def upgrade_stats_def upgraded_stats_def)

lemma upgraded_intros:
  assumes "distinct (map fst m)"
  shows "upgraded e i s m (current_version (AList.update ''stats'' (upgraded_stats e i s) m))"
    and "upgraded e i s m (AList.update ''snapshot'' v (current_version (AList.update ''stats'' (upgraded_stats e i s) m)))"
  using assms by (auto simp: upgraded_def current_version_def update_conv' distinct_update changes_only_def)

lemma from_old_versions:
  assumes "distinct (map fst m)" and "has_stats e i s m"
  shows "\<exists>m'. stream_v1_v4 (JObject m) = Some (JObject m') \<and> upgraded e i s m m'"
    and "\<exists>m'. stream_v2_v4 (JObject m) = Some (JObject m') \<and> upgraded e i s m m'"
    and "has_snapshot m \<Longrightarrow> \<exists>m'. stream_v3_v4 (JObject m) = Some (JObject m') \<and> upgraded e i s m m'"
proof -
  let ?m1 = "current_version (AList.update ''stats'' (upgraded_stats e i s) m)"
  show "\<exists>m'. stream_v1_v4 (JObject m) = Some (JObject m') \<and> upgraded e i s m m'"
    "\<exists>m'. stream_v2_v4 (JObject m) = Some (JObject m') \<and> upgraded e i s m m'"
    using upgraded_intros(2) [OF assms(1)] by (simp_all add: stream_v1_v4_def stream_v2_v4_def upgrade_stats_total [OF assms(2)])
  assume "has_snapshot m"
  then obtain v where v: "map_of m ''snapshot'' = Some v" "get_version v = Some ''v1'' \<longrightarrow>
     (\<exists>sm items. v = JObject sm \<and> map_of sm ''manifest_list'' = Some (JArray items) \<and> list_all manifest_v1 items)"
    unfolding has_snapshot_def by blast
  have v1: "map_of ?m1 ''snapshot'' = Some v" using v(1) by (simp add: current_version_def update_conv')
  show "\<exists>m'. stream_v3_v4 (JObject m) = Some (JObject m') \<and> upgraded e i s m m'"
  proof (cases "get_version v = Some ''v1''")
    case True
    with v(2) obtain sm items items' where "v = JObject sm" "map_of sm ''manifest_list'' = Some (JArray items)"
      "those (map manifest_item_v2 items) = Some items'" using manifests_total by blast
    then obtain v' where "snapshot_v1_v2 v = Some v'" by (simp add: snapshot_v1_v2_def)
    with True v1 have "stream_v3_v4 (JObject m) = Some (JObject (AList.update ''snapshot'' v' ?m1))"
      by (simp add: stream_v3_v4_def upgrade_stats_total [OF assms(2)] Let_def)
    then show ?thesis using upgraded_intros(2) [OF assms(1)] by blast
  next
    case False
    with v1 have "stream_v3_v4 (JObject m) = Some (JObject ?m1)"
      by (simp add: stream_v3_v4_def upgrade_stats_total [OF assms(2)] Let_def)
    then show ?thesis using upgraded_intros(1) [OF assms(1)] by blast
  qed
qed

lemma stream_v6_result:
  assumes "distinct (map fst m)"
  obtains m' where "stream_v6_v7 (JObject m) = Some (JObject m')"
    "current_stream (map_of m ''log_source'') (first_log_source m) (map_of m ''telemetry_type'') m'"
    "changes_only {''version'', ''objectstore-format'', ''telemetry_type''} m m'"
proof -
  have "map_of (set_formats m) ''log_source'' = map_of m ''log_source''"
    using set_formats_result [OF assms] by (simp add: changes_only_def)
  then have first: "first_log_source (set_formats m) = first_log_source m" by (simp add: first_log_source_def)
  obtain m' where m': "stream_v6_v7 (JObject m) = Some (JObject m')" "v7_stream m'"
    "map_of m' ''telemetry_type'' = (case map_of m ''telemetry_type'' of Some t \<Rightarrow> Some t | None \<Rightarrow>
       Some (JString (telemetry_type_fmt (telemetry_of_source (first_log_source (set_formats m))))))"
    "changes_only {''version'', ''objectstore-format'', ''telemetry_type''} m m'"
    using stream_v6_v7_result [OF assms] by blast
  then have "current_stream (map_of m ''log_source'') (first_log_source m) (map_of m ''telemetry_type'') m'"
    by (simp add: current_stream_def telemetry_of_source_named first changes_only_def split: option.split)
  then show ?thesis using that m'(1,4) by blast
qed

text \<open>What a migration of each version gives.\<close>

definition migrated_stream :: "string \<Rightarrow> json \<Rightarrow> json \<Rightarrow> json \<Rightarrow> jobject \<Rightarrow> jobject \<Rightarrow> bool" where
  "migrated_stream v e i s m m' \<longleftrightarrow>
     (if v = ''v6''
      then current_stream (map_of m ''log_source'') (first_log_source m) (map_of m ''telemetry_type'') m'
      else renamed_stream m m') \<and>
     changes_only (stream_keys \<union> {''stats'', ''snapshot''}) m m' \<and>
     map_of m' ''stats'' = (if v \<in> {''v1'', ''v2'', ''v3''} then Some (upgraded_stats e i s) else map_of m ''stats'')"

lemma migrated_old:
  assumes m1: "upgraded e i s m m1" and v: "v \<in> {''v1'', ''v2'', ''v3''}"
  shows "\<exists>m'. stream_v4_on n (JObject m1) = Some (JObject m') \<and> migrated_stream v e i s m m'"
proof -
  have d: "distinct (map fst m1)" using m1 by (simp add: upgraded_def)
  obtain m' where m': "stream_v4_on n (JObject m1) = Some (JObject m')" "renamed_stream m1 m'" "changes_only stream_keys m1 m'"
    using stream_v4_on_result [OF d] by blast
  have same: "map_of m1 ''log_source'' = map_of m ''log_source''" "map_of m1 ''telemetry_type'' = map_of m ''telemetry_type''"
    "map_of m1 ''stats'' = Some (upgraded_stats e i s)" "map_of m' ''stats'' = map_of m1 ''stats''"
    using m1 m'(3) by (simp_all add: upgraded_def changes_only_def stream_keys_def)
  have "changes_only {''stats'', ''version'', ''objectstore-format'', ''snapshot''} m m1"
    using m1 by (simp add: upgraded_def)
  from changes_only_trans [OF this m'(3)] have "changes_only (stream_keys \<union> {''stats'', ''snapshot''}) m m'"
    by (simp add: stream_keys_def)
  moreover have "v \<noteq> ''v6''" using v by auto
  ultimately show ?thesis using m'(1,2) v same by (auto simp: migrated_stream_def)
qed

lemma changes_stats:
  assumes "changes_only ks m m'" and "ks \<subseteq> stream_keys"
  shows "changes_only (stream_keys \<union> {''stats'', ''snapshot''}) m m' \<and> map_of m' ''stats'' = map_of m ''stats''"
proof -
  have "''stats'' \<notin> stream_keys" by (simp add: stream_keys_def)
  then have "''stats'' \<notin> ks" using assms(2) by blast
  then show ?thesis using assms unfolding changes_only_def by blast
qed

lemma migrate_each_version:
  assumes d: "distinct (map fst m)" and v: "map_of m ''version'' = Some (JString v)"
    and old: "v \<in> {''v1'', ''v2'', ''v3''} \<longrightarrow> has_stats e i s m" "v = ''v3'' \<longrightarrow> has_snapshot m"
    and known: "v \<in> {''v1'', ''v2'', ''v3'', ''v4'', ''v5'', ''v6''}"
  shows "\<exists>m'. migrate_stream_json n (JObject m) = Some (JObject m') \<and> migrated_stream v e i s m m'"
proof -
  have ver: "get_version (JObject m) = Some v" using v by (simp add: get_version_object)
  from known consider "v = ''v1''" | "v = ''v2''" | "v = ''v3''" | "v = ''v4''" | "v = ''v5''" | "v = ''v6''" by blast
  then show ?thesis
  proof cases
    case 1
    then obtain m1 where "stream_v1_v4 (JObject m) = Some (JObject m1)" "upgraded e i s m m1"
      using from_old_versions(1) [OF d] old(1) by blast
    then show ?thesis using migrated_old [of e i s m m1 v] 1 ver by (simp add: migrate_stream_json_def)
  next
    case 2
    then obtain m1 where "stream_v2_v4 (JObject m) = Some (JObject m1)" "upgraded e i s m m1"
      using from_old_versions(2) [OF d] old(1) by blast
    then show ?thesis using migrated_old [of e i s m m1 v] 2 ver by (simp add: migrate_stream_json_def)
  next
    case 3
    then obtain m1 where "stream_v3_v4 (JObject m) = Some (JObject m1)" "upgraded e i s m m1"
      using from_old_versions(3) [OF d] old by blast
    then show ?thesis using migrated_old [of e i s m m1 v] 3 ver by (simp add: migrate_stream_json_def)
  next
    case 4
    obtain m' where m': "stream_v4_on n (JObject m) = Some (JObject m')" "renamed_stream m m'" "changes_only stream_keys m m'"
      using stream_v4_on_result [OF d] by blast
    then show ?thesis using 4 ver changes_stats [OF m'(3)] by (simp add: migrate_stream_json_def migrated_stream_def)
  next
    case 5
    obtain m' where m': "stream_v5_v6 (JObject m) \<bind> stream_v6_v7 = Some (JObject m')" "renamed_stream m m'"
      "changes_only (stream_keys - {''stream_type''}) m m'"
      using stream_v5_on [OF d] by blast
    then show ?thesis using 5 ver changes_stats [OF m'(3)] by (auto simp: migrate_stream_json_def migrated_stream_def)
  next
    case 6
    obtain m' where m': "stream_v6_v7 (JObject m) = Some (JObject m')"
      "current_stream (map_of m ''log_source'') (first_log_source m) (map_of m ''telemetry_type'') m'"
      "changes_only {''version'', ''objectstore-format'', ''telemetry_type''} m m'"
      using stream_v6_result [OF d] by blast
    then show ?thesis using 6 ver changes_stats [OF m'(3)]
      by (simp add: migrate_stream_json_def migrated_stream_def stream_keys_def)
  qed
qed

text \<open>C34: Settings of a stream of version v1 to v6 (those of v1 to v3 with their flat statistics,
  those of v3 with a readable snapshot) are brought to version v7: the flat statistics become
  lifetime and current ones with nothing deleted; the log source of v1 to v5 becomes one entry
  with the new name of the text it was (\<open>renamed_sources\<close>, json for anything else),
  and that of v6 stays; settings without a kind of telemetry get the one that the name of the
  log source tells. The fields that no version changed are kept, and another migration changes
  nothing. This is the JSON that the start goes on with; what is stored of it are the fields of
  the current type (\<open>stored_settings\<close>).\<close>

theorem stream_json_migrated:
  assumes "distinct (map fst m)" and "map_of m ''version'' = Some (JString v)"
    and "v \<in> {''v1'', ''v2'', ''v3'', ''v4'', ''v5'', ''v6''}"
    and "v \<in> {''v1'', ''v2'', ''v3''} \<longrightarrow> has_stats e i s m" and "v = ''v3'' \<longrightarrow> has_snapshot m"
  shows "\<exists>m'. migrate_stream_json n (JObject m) = Some (JObject m') \<and> v7_stream m' \<and>
    (let name = (if v = ''v6'' then first_log_source m else new_source_name (map_of m ''log_source'')) in
       map_of m' ''log_source'' = (if v = ''v6'' then map_of m ''log_source'' else Some (JArray [source_entry name])) \<and>
       map_of m' ''telemetry_type'' = (case map_of m ''telemetry_type'' of Some t \<Rightarrow> Some t
         | None \<Rightarrow> Some (JString (telemetry_named name)))) \<and>
    changes_only (stream_keys \<union> {''stats'', ''snapshot''}) m m' \<and>
    map_of m' ''stats'' = (if v \<in> {''v1'', ''v2'', ''v3''} then Some (upgraded_stats e i s) else map_of m ''stats'') \<and>
    migrate_stream_json n (JObject m') = Some (JObject m')"
proof -
  obtain m' where m': "migrate_stream_json n (JObject m) = Some (JObject m')" "migrated_stream v e i s m m'"
    using migrate_each_version [OF assms(1,2,4,5,3)] by blast
  have cur: "v7_stream m'" using m'(2) by (simp add: migrated_stream_def current_stream_def Let_def split: if_splits)
  then have "get_version (JObject m') = Some ''v7''" by (simp add: get_version_object v7_stream_def)
  then have "migrate_stream_json n (JObject m') = Some (JObject m')" by (simp add: migrate_stream_json_def)
  then show ?thesis using m' cur
    by (intro exI [of _ m']) (auto simp: migrated_stream_def current_stream_def Let_def)
qed

definition old_stream :: jobject where
  "old_stream = [(''version'', JString ''v3''), (''log_source'', JString ''OtelTraces''),
     (''stats'', JObject [(''events'', JNull), (''ingestion'', JNull), (''storage'', JNull)]), (''snapshot'', empty_snapshot)]"

theorem stream_json_migrated_witness:
  "\<exists>m'. migrate_stream_json ''web'' (JObject old_stream) = Some (JObject m') \<and>
     map_of m' ''telemetry_type'' = Some (JString ''traces'') \<and> map_of m' ''stats'' = Some (upgraded_stats JNull JNull JNull)"
proof -
  have pre: "distinct (map fst old_stream)" "map_of old_stream ''version'' = Some (JString ''v3'')"
    "has_stats JNull JNull JNull old_stream" "has_snapshot old_stream"
    by (simp_all add: old_stream_def has_stats_def has_snapshot_def get_version_def empty_snapshot_def)
  from stream_json_migrated [OF pre(1,2), of JNull JNull JNull "''web''"] pre(3,4)
  obtain m' where "migrate_stream_json ''web'' (JObject old_stream) = Some (JObject m')"
    "map_of m' ''telemetry_type'' = (case map_of old_stream ''telemetry_type'' of Some t \<Rightarrow> Some t
         | None \<Rightarrow> Some (JString (telemetry_named (new_source_name (map_of old_stream ''log_source'')))))"
    "map_of m' ''stats'' = Some (upgraded_stats JNull JNull JNull)" by (auto simp: Let_def)
  then show ?thesis by (auto simp: old_stream_def telemetry_named_def new_source_name_def renamed_sources_def)
qed

section \<open>What is stored of the settings\<close>

lemma those_concat_map_of:
  assumes "those (map f rules) = Some parts" and "distinct (map fst rules)"
    and "\<And>k r p. f (k, r) = Some p \<Longrightarrow> p = [] \<or> (\<exists>w. p = [(k, w)])"
  shows "map_of (concat parts) k = (case map_of rules k of
      None \<Rightarrow> None | Some r \<Rightarrow> (case f (k, r) of Some [(_, w)] \<Rightarrow> Some w | _ \<Rightarrow> None))"
  using assms(1,2)
proof (induction rules arbitrary: parts)
  case (Cons e rules)
  obtain k0 r0 where e: "e = (k0, r0)" by fastforce
  from Cons.prems(1) obtain p ps where p: "f (k0, r0) = Some p" "those (map f rules) = Some ps" "parts = p # ps"
    by (auto simp: e split: option.splits)
  note IH = Cons.IH [OF p(2)]
  have none: "map_of rules k0 = None" using Cons.prems(2) by (simp add: e map_of_eq_None_iff)
  from assms(3) [OF p(1)] show ?case using IH Cons.prems(2) p none by (auto simp: e map_add_def split: option.splits)
qed simp

text \<open>The stored settings have the fields of the current type only: each field of the migrated JSON as it is read and
  written by its type, the defaults of missing ones, and nothing of any other field.\<close>

theorem stored_settings:
  assumes "reserialize_format reread (JObject m) = Some (JObject m')"
  shows "map_of m' k =
    (case map_of format_fields k of
       None \<Rightarrow> None
     | Some rule \<Rightarrow>
         (case map_of m k of
            None \<Rightarrow> (case rule of Default_value d \<Rightarrow> Some d | _ \<Rightarrow> None)
          | Some v \<Rightarrow>
              if rule = Left_out_if_none \<and> v = JNull then None
              else if rule = True_or_absent then Some (JString ''true'') else reread k v))"
proof -
  obtain parts where parts: "those (map (reserialize_field reread m) format_fields) = Some parts" "m' = concat parts"
    using assms by (auto simp: reserialize_format_def bind_eq_Some_conv)
  have shape: "p = [] \<or> (\<exists>w. p = [(k, w)])" if "reserialize_field reread m (k, r) = Some p" for k r p
    using that by (auto simp: reserialize_field_def split: option.splits field_rule.splits if_splits)
  have read: "reserialize_field reread m (k, r) \<noteq> None" if "map_of format_fields k = Some r" for r
  proof
    assume "reserialize_field reread m (k, r) = None"
    moreover have "(k, r) \<in> set format_fields" using that by (rule map_of_SomeD)
    ultimately have "None \<in> set (map (reserialize_field reread m) format_fields)" by force
    with parts(1) show False by (auto simp: those_eq_Some)
  qed
  have "distinct (map fst format_fields)" by (simp add: format_fields_def)
  from those_concat_map_of [where k = k, OF parts(1) this shape] read show ?thesis
    unfolding parts(2) reserialize_field_def
    by (auto split: option.splits field_rule.splits if_splits)
qed

theorem stored_settings_witness:
  "\<exists>m'. reserialize_format (\<lambda>_ v. Some v) (JObject (map (\<lambda>k. (k, JNull))
      [''version'', ''objectstore-format'', ''created-at'', ''owner'', ''permissions'', ''stats'', ''other''])) = Some (JObject m') \<and>
    map_of m' ''other'' = None"
proof -
  let ?m = "map (\<lambda>k. (k, JNull)) [''version'', ''objectstore-format'', ''created-at'', ''owner'', ''permissions'', ''stats'', ''other'']"
  obtain m' where m': "reserialize_format (\<lambda>_ v. Some v) (JObject ?m) = Some (JObject m')"
    by (simp add: reserialize_format_def reserialize_field_def format_fields_def)
  have "map_of format_fields ''other'' = None" by (simp add: format_fields_def)
  then have "map_of m' ''other'' = None" using stored_settings [OF m', of "''other''"] by simp
  then show ?thesis using m' by blast
qed

section \<open>Schemas and the start of a stream\<close>

lemma retyped_names: "field_name ` set (update_data_type_time_partition fs tp) = field_name ` set fs"
proof (cases "\<exists>p f. tp = Some p \<and> get_field fs p = Some f \<and> field_type f \<noteq> timestamp_millis")
  case False
  then show ?thesis by (auto simp: update_data_type_time_partition_def split: option.splits)
next
  case True
  then obtain p f where p: "tp = Some p" "get_field fs p = Some f" "field_type f \<noteq> timestamp_millis" by blast
  then have "p \<in> field_name ` set fs" using get_field_Some [OF p(2)] by blast
  with p show ?thesis by (auto simp: update_data_type_time_partition_def)
qed

lemma retyped_partition:
  assumes "get_field (update_data_type_time_partition fs (Some p)) p = Some g"
  shows "field_type g = timestamp_millis"
proof (cases "\<exists>f. get_field fs p = Some f \<and> field_type f \<noteq> timestamp_millis")
  case False
  with assms show ?thesis by (auto simp: update_data_type_time_partition_def split: option.splits)
next
  case True
  have "g \<in> set (update_data_type_time_partition fs (Some p))" "field_name g = p" using get_field_Some [OF assms] by simp_all
  with True show ?thesis by (cases g) (auto simp: update_data_type_time_partition_def)
qed

text \<open>A stream that is set up at the start of a server stores a schema in which its time partition, when
  the schema has it, is a timestamp, and which has the same columns as before; the settings in memory are
  those of its JSON, the retention included.\<close>

theorem started_stream:
  assumes "setup_logstream_metadata env fs0 md st = Some (st', Inr meta)" and "format_of env md = Some f"
  shows "\<exists>fs'. stored_schema st' = Some fs' \<and> field_name ` set fs' = field_name ` set fs0 \<and>
    (\<forall>p g. sf_time_partition f = Some p \<longrightarrow> get_field fs' p = Some g \<longrightarrow> field_type g = timestamp_millis) \<and>
    agrees meta f = (map_option show_nat (sm_time_partition_limit meta) = sf_time_partition_limit f) \<and>
    sm_retention meta = sf_retention f \<and> sm_hot_tier meta = sf_hot_tier f"
proof -
  let ?fs = "update_data_type_time_partition fs0 (sf_time_partition f)"
  have names: "field_name ` set ?fs = field_name ` set fs0"
    by (rule retyped_names)
  have typed: "field_type g = timestamp_millis" if "sf_time_partition f = Some p" "get_field ?fs p = Some g" for p g
    using retyped_partition that by simp
  from assms have "stored_schema st' = Some ?fs" "agrees meta f = (map_option show_nat (sm_time_partition_limit meta) = sf_time_partition_limit f)"
    "sm_retention meta = sf_retention f" "sm_hot_tier meta = sf_hot_tier f"
    by (auto simp: setup_logstream_metadata_def Let_def bind_eq_Some_conv agrees_def split: if_splits)
  with names typed show ?thesis by blast
qed

definition sample_start :: "(nat, nat) stream_migration_env" where
  "sample_start = \<lparr>sg_mode = AllMode, data_type_of = (\<lambda>_. None), schemas_of = (\<lambda>_. None), arrow_schema_of = (\<lambda>_. None),
     format_of = (\<lambda>_. Some ((default_format ''t'')\<lparr>sf_time_partition := Some ''at'', sf_retention := Some 7\<rparr>)), reread_field = (\<lambda>_ v. Some v),
     try_merge = (\<lambda>fs. Some (concat fs)), fetched_schema_json = None, own_json = None, querier_json = None,
     ingestor_json = None, staged_schema = None, put_json_succeeds = True, put_schema_succeeds = True,
     default_stream_format = default_format ''t''\<rparr>"

theorem started_stream_witness:
  "\<exists>st' meta. setup_logstream_metadata sample_start [Field ''at'' Utf8 True] JNull
     \<lparr>stream_json = None, stored_schema = None\<rparr> = Some (st', Inr meta) \<and> sm_retention meta = Some 7"
proof -
  obtain st' meta where run: "setup_logstream_metadata sample_start [Field ''at'' Utf8 True] JNull
     \<lparr>stream_json = None, stored_schema = None\<rparr> = Some (st', Inr meta)"
    by (simp add: setup_logstream_metadata_def sample_start_def Let_def)
  have f: "format_of sample_start JNull = Some ((default_format ''t'')\<lparr>sf_time_partition := Some ''at'', sf_retention := Some 7\<rparr>)"
    by (simp add: sample_start_def)
  from started_stream [OF run f] have "sm_retention meta = Some 7" by auto
  with run show ?thesis by blast
qed

declare map_of_eq_Some_iff [simp]

end
