(* ===== verification/Server_Metadata.thy ===== *)
theory Server_Metadata
  imports Stream_Registry
begin

text \<open>
  How a server finds its metadata when it starts (\<open>src/storage/store_metadata.rs\<close>): the copy in the
  staging directory is compared with the one in storage, which is the source of truth, and one or both
  are written. Users, groups, roles and the default role are the opaque content \<open>'c\<close>. The identity of a new
  deployment, the canonical path of the staging directory and each access to files are in the environment.
\<close>

record 'c storage_metadata =
  md_version :: string
  md_mode :: string
  md_staging :: string
  md_storage :: string
  md_deployment_id :: string
  md_server_mode :: node_mode
  md_content :: 'c

record 'c start_env =
  se_mode :: node_mode
  staging_dir :: string
  canonical_staging :: "string option"
  storage_name :: string
  storage_endpoint :: string
  generate_ulid :: string
  empty_content :: 'c
  create_dir_ok :: bool
  write_remote_ok :: bool
  write_staging_ok :: bool

record 'c metadata_copies =
  staging_copy :: "'c storage_metadata option"
  remote_copy :: "'c storage_metadata option"

datatype start_error =
    StandaloneWithDistributed
  | StaleStaging
  | IngestBeforeQuery
  | DirectoryFailed
  | RemoteFailed
  | StagingFailed

datatype 'c env_change =
    NoChange "'c storage_metadata"
  | NewRemote
  | NewStaging "'c storage_metadata"
  | CreateBoth

definition default_metadata :: "'c start_env \<Rightarrow> 'c storage_metadata" where
  "default_metadata env = \<lparr>md_version = ''v6'', md_mode = storage_name env, md_staging = staging_dir env,
     md_storage = storage_endpoint env, md_deployment_id = generate_ulid env, md_server_mode = se_mode env,
     md_content = empty_content env\<rparr>"

definition standalone_after_distributed :: "node_mode \<Rightarrow> start_error + unit" where
  "standalone_after_distributed m = (if m = QueryMode then Inl StandaloneWithDistributed else Inr ())"

definition update_metadata_mode_and_staging :: "'c start_env \<Rightarrow> 'c storage_metadata \<Rightarrow> 'c storage_metadata" where
  "update_metadata_mode_and_staging env md = md\<lparr>md_server_mode := se_mode env, md_staging := staging_dir env\<rparr>"

definition determine_environment ::
  "'c start_env \<Rightarrow> 'c storage_metadata option \<Rightarrow> 'c storage_metadata option \<Rightarrow> 'c env_change" where
  "determine_environment env staging remote =
     (case (staging, remote) of
        (Some s, Some r) \<Rightarrow>
          if md_deployment_id s = md_deployment_id r \<and> md_server_mode r = AllMode \<and>
             (se_mode env = QueryMode \<or> se_mode env = IngestMode)
          then NewStaging r
          else if md_deployment_id s \<noteq> md_deployment_id r then NewRemote
          else NoChange r
      | (None, Some r) \<Rightarrow> NewStaging r
      | (Some _, None) \<Rightarrow> NewRemote
      | (None, None) \<Rightarrow> CreateBoth)"

text \<open>Each handler gives the metadata and whether the copies in staging and in storage are written.\<close>

definition handle_none_env ::
  "'c start_env \<Rightarrow> 'c storage_metadata \<Rightarrow> start_error + ('c storage_metadata \<times> bool \<times> bool)" where
  "handle_none_env env md =
     bind_result
       (if se_mode env = AllMode
        then bind_result (standalone_after_distributed (md_server_mode md))
          (\<lambda>_. Inr (update_metadata_mode_and_staging env md, True))
        else if se_mode env = QueryMode then Inr (update_metadata_mode_and_staging env md, True)
        else Inr (md, False))
       (\<lambda>(md, remote).
          if se_mode env = AllMode
          then bind_result (standalone_after_distributed (md_server_mode md)) (\<lambda>_. Inr (md, True, remote))
          else Inr (md, True, remote))"

definition handle_new_staging_env ::
  "'c start_env \<Rightarrow> 'c storage_metadata \<Rightarrow> start_error + ('c storage_metadata \<times> bool \<times> bool)" where
  "handle_new_staging_env env md =
     (if md_server_mode md = AllMode \<and> se_mode env = IngestMode then Inl IngestBeforeQuery
      else if \<not> create_dir_ok env then Inl DirectoryFailed
      else case canonical_staging env of
        None \<Rightarrow> Inl DirectoryFailed
      | Some dir \<Rightarrow>
          let md = md\<lparr>md_staging := dir\<rparr> in
          if se_mode env = AllMode
          then bind_result (standalone_after_distributed (md_server_mode md)) (\<lambda>_. Inr (md, True, True))
          else Inr (update_metadata_mode_and_staging env md, True, se_mode env = QueryMode \<or> se_mode env = PrismMode))"

definition handle_create_both_env :: "'c start_env \<Rightarrow> start_error + ('c storage_metadata \<times> bool \<times> bool)" where
  "handle_create_both_env env =
     (if \<not> create_dir_ok env then Inl DirectoryFailed
      else Inr (default_metadata env, True, se_mode env = AllMode \<or> se_mode env = QueryMode \<or> se_mode env = PrismMode))"

fun process_env_change ::
  "'c start_env \<Rightarrow> 'c env_change \<Rightarrow> start_error + ('c storage_metadata \<times> bool \<times> bool)" where
  "process_env_change env (NoChange md) = handle_none_env env md"
| "process_env_change env NewRemote = Inl StaleStaging"
| "process_env_change env (NewStaging md) = handle_new_staging_env env md"
| "process_env_change env CreateBoth = handle_create_both_env env"

definition put_staging_metadata :: "'c start_env \<Rightarrow> 'c storage_metadata \<Rightarrow> 'c metadata_copies
    \<Rightarrow> 'c metadata_copies \<times> (start_error + unit)" where
  "put_staging_metadata env md fs =
     (if write_staging_ok env
      then (fs\<lparr>staging_copy := Some (md\<lparr>md_server_mode := se_mode env, md_staging := staging_dir env\<rparr>)\<rparr>, Inr ())
      else (fs, Inl StagingFailed))"

definition resolve_parseable_metadata ::
  "'c start_env \<Rightarrow> 'c metadata_copies \<Rightarrow> 'c metadata_copies \<times> (start_error + 'c storage_metadata)" where
  "resolve_parseable_metadata env fs =
     (case process_env_change env (determine_environment env (staging_copy fs) (remote_copy fs)) of
        Inl e \<Rightarrow> (fs, Inl e)
      | Inr (md, overwrite_staging, overwrite_remote) \<Rightarrow>
          let md = md\<lparr>md_server_mode := se_mode env\<rparr> in
          if overwrite_remote \<and> \<not> write_remote_ok env then (fs, Inl RemoteFailed)
          else let fs1 = (if overwrite_remote then fs\<lparr>remote_copy := Some md\<rparr> else fs) in
            if overwrite_staging
            then (case put_staging_metadata env md fs1 of
                    (fs2, Inl e) \<Rightarrow> (fs2, Inl e) | (fs2, Inr _) \<Rightarrow> (fs2, Inr md))
            else (fs1, Inr md))"

section \<open>What a start leaves\<close>

lemmas start_defs = resolve_parseable_metadata_def determine_environment_def handle_none_env_def handle_new_staging_env_def
  handle_create_both_env_def put_staging_metadata_def update_metadata_mode_and_staging_def
  standalone_after_distributed_def default_metadata_def Let_def

lemma start_agrees:
  assumes "resolve_parseable_metadata env fs = (fs', Inr md)"
  shows "md_server_mode md = se_mode env \<and>
    (\<exists>s. staging_copy fs' = Some s \<and> md_deployment_id s = md_deployment_id md \<and> md_content s = md_content md) \<and>
    (case remote_copy fs of
       Some r \<Rightarrow> md_deployment_id md = md_deployment_id r \<and> md_content md = md_content r \<and>
         (\<exists>r'. remote_copy fs' = Some r' \<and> md_deployment_id r' = md_deployment_id r \<and> md_content r' = md_content r)
     | None \<Rightarrow> staging_copy fs = None \<and> md_deployment_id md = generate_ulid env \<and>
         remote_copy fs' = (if se_mode env \<in> {AllMode, QueryMode, PrismMode} then Some md else None))"
proof (cases "remote_copy fs")
  case None
  with assms show ?thesis
    by (cases "staging_copy fs") (auto simp: start_defs split: if_splits)
next
  case (Some r)
  from assms obtain m w1 w2 where p: "process_env_change env (determine_environment env (staging_copy fs) (remote_copy fs)) = Inr (m, w1, w2)"
    by (auto simp: resolve_parseable_metadata_def split: sum.splits)
  have src: "determine_environment env (staging_copy fs) (remote_copy fs) \<in> {NoChange r, NewStaging r}"
    using p Some by (cases "staging_copy fs") (auto simp: determine_environment_def split: if_splits)
  then have m: "md_deployment_id m = md_deployment_id r \<and> md_content m = md_content r \<and> w1"
    using p
    by (auto simp: handle_none_env_def handle_new_staging_env_def update_metadata_mode_and_staging_def Let_def
        split: if_splits option.splits)
  from assms p Some m show ?thesis
    by (auto simp: resolve_parseable_metadata_def put_staging_metadata_def Let_def split: if_splits)
qed

text \<open>C35: A start that succeeds works with the deployment, the users and the roles that storage holds when
  storage has metadata, and keeps them there; the copy in staging names the same deployment, and a new
  deployment is made only when neither copy exists.\<close>

theorem start_agrees_with_storage:
  assumes "resolve_parseable_metadata env fs = (fs', Inr md)"
  shows "md_server_mode md = se_mode env \<and>
    (\<exists>s. staging_copy fs' = Some s \<and> md_deployment_id s = md_deployment_id md \<and> md_content s = md_content md) \<and>
    (case remote_copy fs of
       Some r \<Rightarrow> md_deployment_id md = md_deployment_id r \<and> md_content md = md_content r \<and>
         (\<exists>r'. remote_copy fs' = Some r' \<and> md_deployment_id r' = md_deployment_id r \<and> md_content r' = md_content r)
     | None \<Rightarrow> staging_copy fs = None \<and> md_deployment_id md = generate_ulid env \<and>
         remote_copy fs' = (if se_mode env \<in> {AllMode, QueryMode, PrismMode} then Some md else None))"
  using assms by (rule start_agrees)

text \<open>A start that fails because of the copies it finds writes nothing; it fails in this way exactly when
  staging belongs to another deployment, or to one that storage does not know, when a standalone server
  meets storage of a query server, or when an ingestor meets storage of a standalone server.\<close>

theorem start_refused_iff:
  assumes "create_dir_ok env" and "canonical_staging env \<noteq> None"
  shows "((\<exists>e fs'. resolve_parseable_metadata env fs = (fs', Inl e) \<and> e \<in> {StaleStaging, StandaloneWithDistributed, IngestBeforeQuery}) \<longleftrightarrow>
    (case (staging_copy fs, remote_copy fs) of
       (Some s, None) \<Rightarrow> True
     | (Some s, Some r) \<Rightarrow> md_deployment_id s \<noteq> md_deployment_id r \<or> (se_mode env = AllMode \<and> md_server_mode r = QueryMode) \<or>
         (se_mode env = IngestMode \<and> md_server_mode r = AllMode)
     | (None, Some r) \<Rightarrow> (se_mode env = AllMode \<and> md_server_mode r = QueryMode) \<or> (se_mode env = IngestMode \<and> md_server_mode r = AllMode)
     | (None, None) \<Rightarrow> False)) \<and>
    (\<forall>e fs'. resolve_parseable_metadata env fs = (fs', Inl e) \<longrightarrow> e \<notin> {RemoteFailed, StagingFailed} \<longrightarrow> fs' = fs)"
  using assms
  by (intro conjI) (auto simp: start_defs split: option.splits if_splits)

definition sample_env :: "node_mode \<Rightarrow> unit start_env" where
  "sample_env m = \<lparr>se_mode = m, staging_dir = ''d'', canonical_staging = Some ''/d'', storage_name = ''drive'',
     storage_endpoint = ''e'', generate_ulid = ''u1'', empty_content = (), create_dir_ok = True,
     write_remote_ok = True, write_staging_ok = True\<rparr>"

definition no_copies :: "unit metadata_copies" where
  "no_copies = \<lparr>staging_copy = None, remote_copy = None\<rparr>"

definition query_copies :: "unit metadata_copies" where
  "query_copies = fst (resolve_parseable_metadata (sample_env QueryMode) no_copies)"

lemma sample_query:
  "resolve_parseable_metadata (sample_env QueryMode) no_copies = (query_copies, Inr (default_metadata (sample_env QueryMode)))"
  "staging_copy query_copies = Some (default_metadata (sample_env QueryMode))"
  "remote_copy query_copies = Some (default_metadata (sample_env QueryMode))"
  by (simp_all add: query_copies_def no_copies_def sample_env_def start_defs)

theorem start_agrees_with_storage_witness:
  "remote_copy (fst (resolve_parseable_metadata (sample_env QueryMode) no_copies)) =
     Some (default_metadata (sample_env QueryMode))"
proof -
  have "remote_copy no_copies = None" "se_mode (sample_env QueryMode) = QueryMode" by (simp_all add: no_copies_def sample_env_def)
  with start_agrees_with_storage [OF sample_query(1)] show ?thesis by (simp add: sample_query(1))
qed

theorem start_refused_iff_witness:
  "\<exists>e fs'. resolve_parseable_metadata (sample_env AllMode) (query_copies\<lparr>staging_copy := None\<rparr>) = (fs', Inl e) \<and>
     fs' = query_copies\<lparr>staging_copy := None\<rparr>"
proof -
  have ok: "create_dir_ok (sample_env AllMode)" "canonical_staging (sample_env AllMode) \<noteq> None" by (simp_all add: sample_env_def)
  note r = start_refused_iff [OF ok, of "query_copies\<lparr>staging_copy := None\<rparr>"]
  have "md_server_mode (default_metadata (sample_env QueryMode)) = QueryMode" "se_mode (sample_env AllMode) = AllMode"
    by (simp_all add: default_metadata_def sample_env_def)
  with r obtain e fs' where run: "resolve_parseable_metadata (sample_env AllMode) (query_copies\<lparr>staging_copy := None\<rparr>) = (fs', Inl e)"
    "e \<in> {StaleStaging, StandaloneWithDistributed, IngestBeforeQuery}"
    by (auto simp: sample_query(3))
  with r show ?thesis by blast
qed

text \<open>A restart keeps the deployment: when a start has succeeded and storage has metadata, the next
  start of the same server succeeds with the same deployment, users and roles.\<close>

theorem restart_keeps_deployment:
  assumes "resolve_parseable_metadata env fs = (fs1, Inr md1)" and "remote_copy fs1 \<noteq> None"
    and "create_dir_ok env" and "canonical_staging env \<noteq> None" and "write_remote_ok env" and "write_staging_ok env"
  shows "\<exists>fs2 md2. resolve_parseable_metadata env fs1 = (fs2, Inr md2) \<and>
    md_deployment_id md2 = md_deployment_id md1 \<and> md_content md2 = md_content md1"
proof -
  have mode: "se_mode env = AllMode \<Longrightarrow> \<exists>r. remote_copy fs1 = Some r \<and> md_server_mode r = AllMode"
    "se_mode env = QueryMode \<Longrightarrow> \<exists>r. remote_copy fs1 = Some r \<and> md_server_mode r = QueryMode"
    "se_mode env = IngestMode \<Longrightarrow> \<exists>r. remote_copy fs1 = Some r \<and> md_server_mode r \<noteq> AllMode"
    using assms(1,2) by (auto simp: start_defs split: option.splits if_splits)
  obtain s r where copies: "staging_copy fs1 = Some s" "remote_copy fs1 = Some r"
    "md_deployment_id s = md_deployment_id r" "md_deployment_id r = md_deployment_id md1" "md_content r = md_content md1"
    using start_agrees [OF assms(1)] assms(2) by (auto split: option.splits if_splits)
  have "\<exists>m w1 w2. process_env_change env (determine_environment env (staging_copy fs1) (remote_copy fs1)) = Inr (m, w1, w2) \<and>
      md_deployment_id m = md_deployment_id r \<and> md_content m = md_content r"
    using copies mode assms(3,4)
    by (cases "se_mode env")
      (auto simp: determine_environment_def handle_none_env_def handle_new_staging_env_def standalone_after_distributed_def
        update_metadata_mode_and_staging_def Let_def)
  with copies assms(5,6) show ?thesis
    by (auto simp: resolve_parseable_metadata_def put_staging_metadata_def Let_def)
qed

theorem restart_keeps_deployment_witness:
  "\<exists>fs2 md2. resolve_parseable_metadata (sample_env QueryMode) query_copies = (fs2, Inr md2) \<and> md_deployment_id md2 = ''u1''"
  using restart_keeps_deployment [OF sample_query(1)] sample_query(3)
  by (auto simp: sample_env_def default_metadata_def)

text \<open>An ingestor that is started before any other node, on storage without metadata, starts with a
  deployment of its own that only its staging directory knows; from then on it cannot start again, neither
  before nor after a query node has set up storage with another deployment.\<close>

theorem early_ingestor_locked_out:
  assumes "se_mode env = IngestMode" and "staging_copy fs = None" and "remote_copy fs = None"
    and "resolve_parseable_metadata env fs = (fs1, Inr md)"
    and "remote = None \<or> (\<exists>r. remote = Some r \<and> md_deployment_id r \<noteq> generate_ulid env)"
  shows "remote_copy fs1 = None \<and>
    resolve_parseable_metadata env (fs1\<lparr>remote_copy := remote\<rparr>) = (fs1\<lparr>remote_copy := remote\<rparr>, Inl StaleStaging)"
  using assms by (auto simp: start_defs split: if_splits)

theorem early_ingestor_locked_out_witness:
  "\<exists>fs1 md. resolve_parseable_metadata (sample_env IngestMode) no_copies = (fs1, Inr md) \<and>
     snd (resolve_parseable_metadata (sample_env IngestMode) (fs1\<lparr>remote_copy := None\<rparr>)) = Inl StaleStaging"
proof -
  obtain fs1 md where run: "resolve_parseable_metadata (sample_env IngestMode) no_copies = (fs1, Inr md)"
    by (simp add: no_copies_def sample_env_def start_defs)
  with early_ingestor_locked_out [OF _ _ _ run, of None] show ?thesis
    by (simp add: no_copies_def sample_env_def)
qed

end
