(* ===== verification/Known_Formats.thy ===== *)
theory Known_Formats
  imports Event_Schema Generic_Flatten
begin

text \<open>
  What is done to a request before its rows are built: the fields of known text formats are extracted
  from a log line (\<open>src/event/format/known_schema.rs\<close>), the records of Amazon Kinesis are decoded
  (\<open>src/handlers/http/kinesis.rs\<close>), and custom fields are taken from the headers
  (\<open>src/handlers/http/modal/utils/ingest_utils.rs\<close>). A compiled regular expression is the function that
  gives the named groups of a match; base64 and the parser of JSON are parameters.
\<close>

section \<open>Known formats\<close>

record pattern =
  pat_regex :: "(string \<Rightarrow> (string \<Rightarrow> string option) option) option"
  pat_fields :: "string list"

type_synonym schema_definition = "pattern list"

record known_format =
  kf_name :: string
  kf_regex :: "pattern list"

datatype known_error = Unacceptable string | UnknownFormat string

definition format_verify_key :: string where
  "format_verify_key = ''p_format_verified''"

fun push_patterns :: "string \<Rightarrow> pattern list \<Rightarrow> (string \<times> schema_definition) list \<Rightarrow> (string \<times> schema_definition) list" where
  "push_patterns n [] table = table"
| "push_patterns n (p # ps) table =
     push_patterns n ps (AList.update n ((case map_of table n of None \<Rightarrow> [] | Some d \<Rightarrow> d) @ [p]) table)"

definition event_processor_new :: "known_format list \<Rightarrow> (string \<times> schema_definition) list" where
  "event_processor_new formats = fold (\<lambda>f. push_patterns (kf_name f) (kf_regex f)) formats []"

text \<open>The fields that a match captured, in the order of the pattern's fields.\<close>

definition captured :: "(string \<Rightarrow> string option) \<Rightarrow> string list \<Rightarrow> jobject" where
  "captured groups fs = fold (\<lambda>f. case groups f of Some v \<Rightarrow> AList.update f (JString v) | None \<Rightarrow> id) fs []"

definition insert_fields :: "jobject \<Rightarrow> jobject \<Rightarrow> jobject" where
  "insert_fields obj new = fold (\<lambda>(k, v). AList.update k v) new obj"

fun extract_line :: "schema_definition \<Rightarrow> string \<Rightarrow> jobject \<Rightarrow> jobject \<times> string list option" where
  "extract_line [] line obj = (AList.update format_verify_key (JString ''false'') obj, None)"
| "extract_line (p # ps) line obj =
     (case (case pat_regex p of None \<Rightarrow> None | Some r \<Rightarrow> r line) of
        None \<Rightarrow> extract_line ps line obj
      | Some groups \<Rightarrow>
          (insert_fields (AList.update format_verify_key (JString ''true'') obj) (captured groups (pat_fields p)), Some (pat_fields p)))"

definition has_fields :: "jobject \<Rightarrow> pattern \<Rightarrow> bool" where
  "has_fields obj p \<longleftrightarrow> list_all (\<lambda>f. map_of obj f \<noteq> None) (pat_fields p)"

definition check_or_extract :: "schema_definition \<Rightarrow> jobject \<Rightarrow> string option \<Rightarrow> jobject \<times> string list option" where
  "check_or_extract d obj extract_log =
     (case find (has_fields obj) d of
        Some p \<Rightarrow> (obj, Some (pat_fields p))
      | None \<Rightarrow>
          (case do { f \<leftarrow> extract_log; v \<leftarrow> map_of obj f; as_str v } of
             None \<Rightarrow> (obj, None)
           | Some line \<Rightarrow> extract_line d line obj))"

text \<open>The events of an array are checked in turn; values that are not objects are left alone. The result
  is the body, the custom fields and the fields found; a body that is neither array nor object panics.\<close>

fun extract_events ::
  "schema_definition \<Rightarrow> string option \<Rightarrow> json list \<Rightarrow> (string \<times> string) list \<Rightarrow> json list \<times> (string \<times> string) list \<times> string set" where
  "extract_events d ex [] custom = ([], custom, {})"
| "extract_events d ex (JObject e # es) custom =
     (case check_or_extract d e ex of
        (e', found) \<Rightarrow>
          (case extract_events d ex es
                  (case found of Some _ \<Rightarrow> custom | None \<Rightarrow> AList.update format_verify_key ''false'' custom) of
             (es', custom', fs) \<Rightarrow>
               (JObject e' # es', custom', (case found of Some k \<Rightarrow> set k | None \<Rightarrow> {}) \<union> fs)))"
| "extract_events d ex (v # es) custom =
     (case extract_events d ex es custom of (es', custom', fs) \<Rightarrow> (v # es', custom', fs))"

definition extract_from_inline_log ::
  "(string \<times> schema_definition) list \<Rightarrow> json \<Rightarrow> (string \<times> string) list \<Rightarrow> string \<Rightarrow> string option
   \<Rightarrow> (known_error + (json \<times> (string \<times> string) list \<times> string set)) option" where
  "extract_from_inline_log table body custom source ex =
     (case map_of table source of
        None \<Rightarrow> Some (Inl (UnknownFormat source))
      | Some d \<Rightarrow>
          (case body of
             JArray es \<Rightarrow> (case extract_events d ex es custom of (es', custom', fs) \<Rightarrow> Some (Inr (JArray es', custom', fs)))
           | JObject e \<Rightarrow>
               (case check_or_extract d e ex of
                  (e', Some fs) \<Rightarrow> Some (Inr (JObject e', custom, set fs))
                | (e', None) \<Rightarrow> Some (Inr (JObject e', AList.update format_verify_key ''false'' custom, {})))
           | _ \<Rightarrow> None))"

section \<open>Kinesis\<close>

record kinesis_message =
  km_records :: "string list"
  km_request_id :: string
  km_timestamp :: u64

datatype kinesis_error = BadBase64 | BadUtf8 | BadJson | NotFlattened | NotAnObject

definition kinesis_object :: "kinesis_message \<Rightarrow> json \<Rightarrow> kinesis_error + json" where
  "kinesis_object msg v =
     (case v of
        JObject m \<Rightarrow> Inr (JObject (AList.update ''timestamp'' (JString (show_nat (unat (km_timestamp msg))))
          (AList.update ''requestId'' (JString (km_request_id msg)) m)))
      | _ \<Rightarrow> Inl NotAnObject)"

fun flatten_records ::
  "flatten_env \<Rightarrow> (string \<Rightarrow> kinesis_error + json) \<Rightarrow> kinesis_message \<Rightarrow> string list \<Rightarrow> kinesis_error + json list" where
  "flatten_records env decode msg [] = Inr []"
| "flatten_records env decode msg (r # rs) =
     bind_result (decode r) (\<lambda>v.
     bind_result
       (if \<not> has_more_than_max_allowed_levels env v 1
        then (case generic_flattening v of
                Inl _ \<Rightarrow> Inl NotFlattened
              | Inr vs \<Rightarrow> map_result (kinesis_object msg) vs)
        else Inr [v]) (\<lambda>rows.
     bind_result (flatten_records env decode msg rs) (\<lambda>rest. Inr (rows @ rest))))"

definition flatten_kinesis_logs ::
  "flatten_env \<Rightarrow> (string \<Rightarrow> kinesis_error + json) \<Rightarrow> kinesis_message \<Rightarrow> kinesis_error + json list" where
  "flatten_kinesis_logs env decode msg = flatten_records env decode msg (km_records msg)"

section \<open>Custom fields of a request\<close>

text \<open>A header is its name and its value when that is printable text.\<close>

type_synonym header = "string \<times> string option"

definition ignore_headers :: "string list" where
  "ignore_headers = [''x-p-stream'', ''x-p-log-source'', ''x-p-extract_line-log'']"

definition max_custom_fields :: nat where
  "max_custom_fields = 10"

definition max_field_value_length :: nat where
  "max_field_value_length = 100"

fun trim_start_matches :: "nat \<Rightarrow> string \<Rightarrow> string \<Rightarrow> string" where
  "trim_start_matches 0 p s = s"
| "trim_start_matches (Suc n) p s = (if p \<noteq> [] \<and> prefix p s then trim_start_matches n p (drop (length p) s) else s)"

definition header_key :: "string \<Rightarrow> string" where
  "header_key n = trim_start_matches (length n) ''x-p-'' n"

definition add_header :: "header \<Rightarrow> (string \<times> string) list \<Rightarrow> (string \<times> string) list" where
  "add_header h custom =
     (case h of (n, value) \<Rightarrow>
        let custom1 =
          (if prefix ''x-p-'' n \<and> n \<notin> set ignore_headers
           then (case value of
                   Some v \<Rightarrow> if header_key n \<noteq> [] then AList.update (header_key n) (take max_field_value_length v) custom else custom
                 | None \<Rightarrow> custom)
           else custom)
        in if n = ''x-p-log-source''
           then (case value of Some v \<Rightarrow> AList.update ''p_format'' v custom1 | None \<Rightarrow> custom1)
           else custom1)"

fun add_headers :: "header list \<Rightarrow> (string \<times> string) list \<Rightarrow> (string \<times> string) list" where
  "add_headers [] custom = custom"
| "add_headers (h # hs) custom =
     (if length custom \<ge> max_custom_fields then custom else add_headers hs (add_header h custom))"

definition get_custom_fields_from_header :: "header list \<Rightarrow> string option \<Rightarrow> string option \<Rightarrow> (string \<times> string) list" where
  "get_custom_fields_from_header headers user_agent source_ip =
     add_headers headers
       (AList.update ''p_src_ip'' (case source_ip of Some s \<Rightarrow> s | None \<Rightarrow> [])
         (AList.update ''p_user_agent'' (case user_agent of Some s \<Rightarrow> s | None \<Rightarrow> []) []))"

section \<open>Extraction\<close>

lemma find_has_fields: "find (has_fields obj) d = Some p \<Longrightarrow> p \<in> set d \<and> has_fields obj p"
  by (auto simp: find_Some_iff)

lemma map_of_captured:
  "map_of (fold (\<lambda>f. case groups f of Some v \<Rightarrow> AList.update f (JString v) | None \<Rightarrow> id) fs m) k =
     (if k \<in> set fs then (case groups k of Some v \<Rightarrow> Some (JString v) | None \<Rightarrow> map_of m k) else map_of m k)"
  by (induction fs arbitrary: m) (auto simp: update_conv' split: option.splits)

lemma keys_captured:
  "fst ` set (captured groups fs) \<subseteq> set fs"
proof -
  have "fst ` set (fold (\<lambda>f. case groups f of Some v \<Rightarrow> AList.update f (JString v) | None \<Rightarrow> id) fs m) \<subseteq> set fs \<union> fst ` set m" for m
  proof (induction fs arbitrary: m)
    case (Cons f fs)
    have "fst ` set ((case groups f of Some v \<Rightarrow> AList.update f (JString v) | None \<Rightarrow> id) m) \<subseteq> insert f (fst ` set m)"
      by (cases "groups f") (auto simp: fst_set_AList_update)
    with Cons [of "(case groups f of Some v \<Rightarrow> AList.update f (JString v) | None \<Rightarrow> id) m"] show ?case by auto
  qed simp
  from this [of "[]"] show ?thesis by (simp add: captured_def)
qed

lemma distinct_captured: "distinct (map fst (captured groups fs))"
proof -
  have "distinct (map fst m) \<Longrightarrow>
    distinct (map fst (fold (\<lambda>f. case groups f of Some v \<Rightarrow> AList.update f (JString v) | None \<Rightarrow> id) fs m))" for m
    by (induction fs arbitrary: m) (auto simp: distinct_update split: option.splits)
  from this [of "[]"] show ?thesis by (simp add: captured_def)
qed

lemma map_of_extend:
  assumes "distinct (map fst new)"
  shows "map_of (insert_fields obj new) k = (case map_of new k of Some v \<Rightarrow> Some v | None \<Rightarrow> map_of obj k)"
  using assms
proof (induction new arbitrary: obj)
  case Nil
  show ?case by (simp add: insert_fields_def)
next
  case (Cons e new)
  obtain a b where e: "e = (a, b)" by fastforce
  have step: "insert_fields obj ((a, b) # new) = insert_fields (AList.update a b obj) new" by (simp add: insert_fields_def)
  have "map_of new a = None" using Cons.prems e by (simp add: map_of_eq_None_iff)
  with Cons.prems Cons.IH [of "AList.update a b obj"] show ?case unfolding e step
    by (cases "k = a") (simp_all add: update_conv' split: option.splits)
qed

lemma extract_result:
  "extract_line d line obj = (obj', found) \<Longrightarrow>
    (case found of
       Some fs \<Rightarrow> \<exists>p r groups. p \<in> set d \<and> pat_regex p = Some r \<and> r line = Some groups \<and> fs = pat_fields p \<and>
         obj' = insert_fields (AList.update format_verify_key (JString ''true'') obj) (captured groups fs)
     | None \<Rightarrow> (\<forall>p \<in> set d. \<forall>r. pat_regex p = Some r \<longrightarrow> r line = None) \<and>
         obj' = AList.update format_verify_key (JString ''false'') obj)"
proof (induction d)
  case Nil
  then show ?case by auto
next
  case (Cons p d)
  show ?case
  proof (cases "case pat_regex p of None \<Rightarrow> None | Some r \<Rightarrow> r line")
    case None
    with Cons.prems have "extract_line d line obj = (obj', found)" by simp
    note IH = Cons.IH [OF this]
    show ?thesis
    proof (cases found)
      case None': None
      with IH None show ?thesis by (auto split: option.splits)
    next
      case (Some fs)
      with IH show ?thesis by fastforce
    qed
  next
    case (Some groups)
    with Cons.prems show ?thesis by (auto split: option.splits)
  qed
qed

text \<open>An event of a known format is accepted exactly when it has all fields of one of the patterns, or
  its log line matches one. From a line the captured fields are added, replacing fields of the same name,
  and the event is marked as verified; every other field is kept. A line that no pattern matches only
  marks the event, and an event without a line is not changed at all.\<close>

theorem known_format_extracted:
  assumes "check_or_extract d obj extract_log = (obj', found)"
  shows "(found \<noteq> None \<longleftrightarrow> (\<exists>p \<in> set d. has_fields obj p) \<or>
      (\<exists>f line p r groups. extract_log = Some f \<and> map_of obj f = Some (JString line) \<and> p \<in> set d \<and>
         pat_regex p = Some r \<and> r line = Some groups)) \<and>
    (\<forall>fs k. found = Some fs \<longrightarrow> k \<notin> set fs \<longrightarrow> k \<noteq> format_verify_key \<longrightarrow> map_of obj' k = map_of obj k) \<and>
    (found = None \<longrightarrow> obj' = obj \<or> obj' = AList.update format_verify_key (JString ''false'') obj)"
proof (cases "find (has_fields obj) d")
  case (Some p)
  with assms find_has_fields [OF Some] show ?thesis by (auto simp: check_or_extract_def)
next
  case None
  then have no: "\<forall>p \<in> set d. \<not> has_fields obj p" by (simp add: find_None_iff)
  show ?thesis
  proof (cases "do { f \<leftarrow> extract_log; v \<leftarrow> map_of obj f; as_str v }")
    case None': None
    have "\<not> (\<exists>f line. extract_log = Some f \<and> map_of obj f = Some (JString line))" using None' by auto
    with assms None None' no show ?thesis by (auto simp: check_or_extract_def)
  next
    case (Some line)
    then obtain f where f: "extract_log = Some f" "map_of obj f = Some (JString line)"
      by (auto simp: bind_eq_Some_conv elim: as_str.elims)
    from assms None Some have e: "extract_line d line obj = (obj', found)" by (simp add: check_or_extract_def)
    show ?thesis
    proof (cases found)
      case None'': None
      from extract_result [OF e] None'' have r: "\<forall>p \<in> set d. \<forall>r. pat_regex p = Some r \<longrightarrow> r line = None"
        "obj' = AList.update format_verify_key (JString ''false'') obj" by simp_all
      with no f None'' show ?thesis by auto
    next
      case (Some fs)
      from extract_result [OF e] Some obtain p r groups where p: "p \<in> set d" "pat_regex p = Some r" "r line = Some groups"
        and obj': "obj' = insert_fields (AList.update format_verify_key (JString ''true'') obj) (captured groups fs)" by auto
      have "map_of obj' k = map_of obj k" if "k \<notin> set fs" "k \<noteq> format_verify_key" for k
      proof -
        have "map_of (captured groups fs) k = None" using that(1) keys_captured [of groups fs] by (auto simp: map_of_eq_None_iff)
        with that(2) show ?thesis unfolding obj' by (simp add: map_of_extend [OF distinct_captured] update_conv')
      qed
      with p f Some show ?thesis by auto
    qed
  qed
qed

definition level_pattern :: pattern where
  "level_pattern = \<lparr>pat_regex = Some (\<lambda>l. if prefix ''E '' l then Some ((\<lambda>_. None)(''msg'' := Some (drop 2 l))) else None),
     pat_fields = [''msg'']\<rparr>"

theorem known_format_extracted_witness:
  "\<exists>obj'. check_or_extract [level_pattern] [(''raw'', JString ''E x''), (''n'', JNull)] (Some ''raw'') = (obj', Some [''msg'']) \<and>
     map_of obj' ''n'' = Some JNull"
proof -
  obtain obj' where run: "check_or_extract [level_pattern] [(''raw'', JString ''E x''), (''n'', JNull)] (Some ''raw'') = (obj', Some [''msg''])"
    by (simp add: check_or_extract_def has_fields_def level_pattern_def)
  from known_format_extracted [OF run] have "map_of obj' ''n'' = map_of [(''raw'', JString ''E x''), (''n'', JNull)] ''n''"
    by (simp add: format_verify_key_def)
  with run show ?thesis by simp
qed

text \<open>The definitions of a format are its patterns in the order of the file, over all entries of its name.\<close>

lemma push_patterns_result:
  "(case map_of (push_patterns n ps table) k of None \<Rightarrow> [] | Some d \<Rightarrow> d) =
     (case map_of table k of None \<Rightarrow> [] | Some d \<Rightarrow> d) @ (if k = n then ps else [])"
  by (induction ps arbitrary: table) (auto simp: update_conv')

lemma event_processor_patterns:
  "(case map_of (event_processor_new formats) k of None \<Rightarrow> [] | Some d \<Rightarrow> d) =
     concat (map kf_regex (filter (\<lambda>f. kf_name f = k) formats))"
proof -
  have "(case map_of (fold (\<lambda>f. push_patterns (kf_name f) (kf_regex f)) formats table) k of None \<Rightarrow> [] | Some d \<Rightarrow> d) =
      (case map_of table k of None \<Rightarrow> [] | Some d \<Rightarrow> d) @ concat (map kf_regex (filter (\<lambda>f. kf_name f = k) formats))" for table
    by (induction formats arbitrary: table) (auto simp: push_patterns_result)
  from this [of "[]"] show ?thesis by (simp add: event_processor_new_def)
qed

section \<open>A body of a known format\<close>

lemma extract_events_shape:
  "extract_events d ex es custom = (es', custom', fs) \<Longrightarrow>
    length es' = length es \<and> (\<forall>i < length es. \<not> is_object (es ! i) \<longrightarrow> es' ! i = es ! i) \<and>
    (\<forall>k. k \<noteq> format_verify_key \<longrightarrow> map_of custom' k = map_of custom k) \<and>
    fs \<subseteq> (\<Union>p \<in> set d. set (pat_fields p))"
proof (induction d ex es custom arbitrary: es' custom' fs rule: extract_events.induct)
  case (1 d ex custom)
  then show ?case by simp
next
  case (2 d ex e es custom)
  obtain e' found where c: "check_or_extract d e ex = (e', found)" by force
  let ?custom = "case found of Some _ \<Rightarrow> custom | None \<Rightarrow> AList.update format_verify_key ''false'' custom"
  obtain es1 custom1 fs1 where rest: "extract_events d ex es ?custom = (es1, custom1, fs1)" by (metis prod_cases3)
  have IH: "length es1 = length es \<and> (\<forall>i < length es. \<not> is_object (es ! i) \<longrightarrow> es1 ! i = es ! i) \<and>
    (\<forall>k. k \<noteq> format_verify_key \<longrightarrow> map_of custom1 k = map_of ?custom k) \<and> fs1 \<subseteq> (\<Union>p \<in> set d. set (pat_fields p))"
    using "2.IH" [OF c [symmetric]] rest c by (auto simp: c)
  have found: "case found of Some k \<Rightarrow> set k \<subseteq> (\<Union>p \<in> set d. set (pat_fields p)) | None \<Rightarrow> True"
  proof (cases found)
    case (Some k)
    have "\<exists>p \<in> set d. k = pat_fields p"
    proof (cases "find (has_fields e) d")
      case None
      with c Some obtain line where "extract_line d line e = (e', Some k)"
        by (auto simp: check_or_extract_def split: option.splits)
      from extract_result [OF this] show ?thesis by auto
    next
      case (Some p)
      with c \<open>found = Some k\<close> find_has_fields [OF Some] show ?thesis by (auto simp: check_or_extract_def)
    qed
    with Some show ?thesis by auto
  qed simp
  have out: "es' = JObject e' # es1" "custom' = custom1" "fs = (case found of Some k \<Rightarrow> set k | None \<Rightarrow> {}) \<union> fs1"
    using "2.prems" c rest by simp_all
  have custom: "map_of ?custom k = map_of custom k" if "k \<noteq> format_verify_key" for k
    using that by (cases found) (simp_all add: update_conv')
  show ?case
  proof (intro conjI allI impI)
    fix i assume "i < length (JObject e # es)" "\<not> is_object ((JObject e # es) ! i)"
    with IH show "es' ! i = (JObject e # es) ! i" unfolding out by (cases i) auto
  qed (use IH out custom found in \<open>auto split: option.splits\<close>)
qed (auto split: prod.splits simp: nth_Cons split: nat.splits)

text \<open>Taking the fields of a known format from an array keeps its number of events and every value that
  is not an object; the fields reported belong to the format, and of the custom fields only the mark can change.\<close>

theorem known_format_array:
  assumes "extract_from_inline_log table (JArray es) custom source ex = Some (Inr (body', custom', fs))"
  obtains es' d where "body' = JArray es'" "map_of table source = Some d" "length es' = length es"
    "\<And>i. i < length es \<Longrightarrow> \<not> is_object (es ! i) \<Longrightarrow> es' ! i = es ! i"
    "\<And>k. k \<noteq> format_verify_key \<Longrightarrow> map_of custom' k = map_of custom k" "fs \<subseteq> (\<Union>p \<in> set d. set (pat_fields p))"
proof -
  from assms obtain d es' where d: "map_of table source = Some d" "extract_events d ex es custom = (es', custom', fs)" "body' = JArray es'"
    by (auto simp: extract_from_inline_log_def split: option.splits prod.splits)
  from extract_events_shape [OF d(2)] that [OF d(3,1)] show ?thesis by blast
qed

text \<open>One event that matches no pattern makes the whole request count as unverified: its mark goes into
  the custom fields, which replace the mark of every event of the request, matched or not.\<close>

theorem one_failure_unverifies:
  assumes "check_or_extract d e ex = (e', None)"
  shows "\<exists>es' custom' fs. extract_from_inline_log [(source, d)] (JArray (es @ [JObject e])) custom source ex =
      Some (Inr (JArray es', custom', fs)) \<and> map_of custom' format_verify_key = Some ''false''"
proof -
  have "map_of (fst (snd (extract_events d ex (es @ [JObject e]) custom))) format_verify_key = Some ''false''"
    using assms
  proof (induction d ex es custom rule: extract_events.induct)
    case (2 d ex e1 es custom)
    obtain e2 found where c: "check_or_extract d e1 ex = (e2, found)" by force
    from "2.IH" [OF c [symmetric] "2.prems"] c show ?case by (auto split: prod.splits)
  qed (auto simp: update_conv' split: prod.splits)
  then show ?thesis by (auto simp: extract_from_inline_log_def split: prod.splits)
qed

section \<open>Rows of Kinesis\<close>

text \<open>The rows of a Kinesis request are those of its records in order. The rows of a record that is
  flattened carry the request's identifier and time; a record nested too deeply is passed on as it is,
  without them.\<close>

theorem kinesis_rows:
  assumes "flatten_kinesis_logs env decode msg = Inr rows"
  shows "\<exists>parts. rows = concat parts \<and> list_all2 (\<lambda>r part. \<exists>v. decode r = Inr v \<and>
    (if has_more_than_max_allowed_levels env v 1 then part = [v]
     else (\<exists>vs. generic_flattening v = Inr vs \<and> length part = length vs) \<and>
       (\<forall>row \<in> set part. json_get row ''requestId'' = Some (JString (km_request_id msg)) \<and>
          json_get row ''timestamp'' = Some (JString (show_nat (unat (km_timestamp msg)))))))
    (km_records msg) parts"
proof -
  have obj: "json_get row ''requestId'' = Some (JString (km_request_id msg)) \<and>
      json_get row ''timestamp'' = Some (JString (show_nat (unat (km_timestamp msg))))"
    if "kinesis_object msg v = Inr row" for v row
    using that by (auto simp: kinesis_object_def update_conv' split: json.splits)
  have "flatten_records env decode msg rs = Inr rows \<Longrightarrow> \<exists>parts. rows = concat parts \<and> list_all2 (\<lambda>r part. \<exists>v. decode r = Inr v \<and>
    (if has_more_than_max_allowed_levels env v 1 then part = [v]
     else (\<exists>vs. generic_flattening v = Inr vs \<and> length part = length vs) \<and>
       (\<forall>row \<in> set part. json_get row ''requestId'' = Some (JString (km_request_id msg)) \<and>
          json_get row ''timestamp'' = Some (JString (show_nat (unat (km_timestamp msg)))))))
    rs parts" for rs rows
  proof (induction rs arbitrary: rows)
    case Nil
    then show ?case by simp
  next
    case (Cons r rs)
    from Cons.prems obtain v part rest where v: "decode r = Inr v" and rest: "flatten_records env decode msg rs = Inr rest"
      and rows: "rows = part @ rest"
      and part: "(if \<not> has_more_than_max_allowed_levels env v 1
        then (case generic_flattening v of Inl _ \<Rightarrow> Inl NotFlattened | Inr vs \<Rightarrow> map_result (kinesis_object msg) vs)
        else Inr [v]) = Inr part" by auto
    from Cons.IH [OF rest] obtain parts where parts: "rest = concat parts" "list_all2 (\<lambda>r part. \<exists>v. decode r = Inr v \<and>
    (if has_more_than_max_allowed_levels env v 1 then part = [v]
     else (\<exists>vs. generic_flattening v = Inr vs \<and> length part = length vs) \<and>
       (\<forall>row \<in> set part. json_get row ''requestId'' = Some (JString (km_request_id msg)) \<and>
          json_get row ''timestamp'' = Some (JString (show_nat (unat (km_timestamp msg)))))))
    rs parts" by blast
    have "if has_more_than_max_allowed_levels env v 1 then part = [v]
     else (\<exists>vs. generic_flattening v = Inr vs \<and> length part = length vs) \<and>
       (\<forall>row \<in> set part. json_get row ''requestId'' = Some (JString (km_request_id msg)) \<and>
          json_get row ''timestamp'' = Some (JString (show_nat (unat (km_timestamp msg)))))"
    proof (cases "has_more_than_max_allowed_levels env v 1")
      case True
      with part show ?thesis by simp
    next
      case False
      with part obtain vs where vs: "generic_flattening v = Inr vs" "map_result (kinesis_object msg) vs = Inr part"
        by (auto split: sum.splits)
      from map_result_length [OF vs(2)] map_result_set [OF vs(2)] obj vs(1) False show ?thesis by auto
    qed
    with v parts(2) rows parts(1) show ?case by (intro exI [of _ "part # parts"]) simp
  qed
  with assms show ?thesis by (simp add: flatten_kinesis_logs_def)
qed

section \<open>Custom fields\<close>

lemma length_update: "length (AList.update k v m) \<le> Suc (length m)"
  by (induction m) auto

lemma add_header_length: "length (add_header h custom) \<le> Suc (length custom)"
proof (cases h)
  case (Pair n v)
  have "n = ''x-p-log-source'' \<Longrightarrow> n \<in> set ignore_headers" by (simp add: ignore_headers_def)
  with Pair show ?thesis
    by (auto simp: add_header_def Let_def length_update split: option.splits)
qed

lemma add_headers_length: "length custom \<le> max_custom_fields \<Longrightarrow> length (add_headers hs custom) \<le> max_custom_fields"
proof (induction hs arbitrary: custom)
  case Nil
  then show ?case by simp
next
  case (Cons h hs)
  then show ?case using add_header_length [of h custom] by auto
qed

lemma trim_no_prefix: "length s \<le> n \<Longrightarrow> \<not> prefix ''x-p-'' (trim_start_matches n ''x-p-'' s)"
proof (induction n arbitrary: s)
  case 0
  then show ?case by simp
next
  case (Suc n)
  show ?case
  proof (cases "prefix ''x-p-'' s")
    case True
    then have "length (drop (length ''x-p-'') s) \<le> n" using Suc.prems prefix_length_le [OF True] by simp
    with Suc.IH True show ?thesis by simp
  next
    case False
    then show ?thesis by simp
  qed
qed

definition bounded_field :: "string \<times> string \<Rightarrow> bool" where
  "bounded_field kv \<longleftrightarrow> fst kv \<in> {''p_user_agent'', ''p_src_ip'', ''p_format''} \<or>
     (length (snd kv) \<le> max_field_value_length \<and> fst kv \<noteq> [] \<and> \<not> prefix ''x-p-'' (fst kv))"

lemma bounded_update:
  "list_all bounded_field m \<Longrightarrow> bounded_field (k, v) \<Longrightarrow> list_all bounded_field (AList.update k v m)"
  by (induction m) auto

lemma add_header_bounded: "list_all bounded_field custom \<Longrightarrow> list_all bounded_field (add_header h custom)"
proof -
  assume c: "list_all bounded_field custom"
  have k: "bounded_field (header_key n, take max_field_value_length v)" if "header_key n \<noteq> []" for n v
    using that trim_no_prefix [of n "length n"] by (simp add: bounded_field_def header_key_def)
  have f: "bounded_field (''p_format'', v)" for v by (simp add: bounded_field_def)
  show ?thesis
    using bounded_update [OF c k] bounded_update [OF c f] c
    by (cases h) (auto simp: add_header_def Let_def ignore_headers_def split: option.splits)
qed

text \<open>A request adds at most ten custom fields, of different names; apart from the user agent, the
  address and the format each has at most a hundred characters and a name that is not empty and no longer
  starts with the prefix of the headers.\<close>

theorem custom_fields_bounded:
  "length (get_custom_fields_from_header hs ua ip) \<le> 10 \<and>
   distinct (map fst (get_custom_fields_from_header hs ua ip)) \<and>
   list_all bounded_field (get_custom_fields_from_header hs ua ip)"
proof -
  let ?start = "AList.update ''p_src_ip'' (case ip of Some s \<Rightarrow> s | None \<Rightarrow> [])
    (AList.update ''p_user_agent'' (case ua of Some s \<Rightarrow> s | None \<Rightarrow> []) [])"
  have d: "distinct (map fst custom) \<Longrightarrow> distinct (map fst (add_headers hs custom))" for custom
  proof (induction hs arbitrary: custom)
    case (Cons h hs)
    then have "distinct (map fst (add_header h custom))"
      by (cases h) (auto simp: add_header_def Let_def distinct_update split: option.splits)
    with Cons show ?case by simp
  qed simp
  have b: "list_all bounded_field custom \<Longrightarrow> list_all bounded_field (add_headers hs custom)" for custom
    by (induction hs arbitrary: custom) (simp_all add: add_header_bounded)
  show ?thesis unfolding get_custom_fields_from_header_def
    using add_headers_length [of ?start hs] d [of ?start] b [of ?start]
    by (simp add: max_custom_fields_def bounded_field_def)
qed

theorem one_failure_unverifies_witness:
  "\<exists>es' custom' fs. extract_from_inline_log [(''f'', [level_pattern])] (JArray [JObject [(''msg'', JNull)], JObject []]) [] ''f'' None =
     Some (Inr (JArray es', custom', fs)) \<and> map_of custom' format_verify_key = Some ''false''"
proof -
  have "check_or_extract [level_pattern] [] None = ([], None)"
    by (simp add: check_or_extract_def has_fields_def level_pattern_def)
  from one_failure_unverifies [OF this, of "''f''" "[JObject [(''msg'', JNull)]]" "[]"] show ?thesis by simp
qed

theorem kinesis_rows_witness:
  "\<exists>parts. [JObject [(''a'', JNull), (''requestId'', JString ''r''), (''timestamp'', JString ''5'')]] = concat parts \<and> length parts = 1"
proof -
  let ?msg = "\<lparr>km_records = [''x''], km_request_id = ''r'', km_timestamp = 5\<rparr>"
  let ?decode = "\<lambda>_. Inr (JObject [(''a'', JNull)]) :: kinesis_error + json"
  have "flatten_kinesis_logs \<lparr>parse_datetime = (\<lambda>_. None), utc_now = 0, event_max_chunk_age = 0, event_flatten_level = 10\<rparr> ?decode ?msg =
      Inr [JObject [(''a'', JNull), (''requestId'', JString ''r''), (''timestamp'', JString ''5'')]]"
    by (simp add: flatten_kinesis_logs_def kinesis_object_def has_more_than_max_allowed_levels.simps show_nat.simps digit_char_def char_of_def bit_0)
  from kinesis_rows [OF this] obtain parts where
    "[JObject [(''a'', JNull), (''requestId'', JString ''r''), (''timestamp'', JString ''5'')]] = concat parts"
    "length (km_records ?msg) = length parts" using list_all2_lengthD by blast
  then show ?thesis by (intro exI [of _ parts]) simp
qed

end
