(* ===== verification/Ingest_Handlers.thy ===== *)
theory Ingest_Handlers
  imports Event_Format Staging_Proofs Stream_Registry Ingest_Json Known_Formats
begin

text \<open>
  A request that ingests events (\<open>src/handlers/http/ingest.rs\<close>,
  \<open>src/handlers/http/modal/utils/ingest_utils.rs\<close>, \<open>Event::process\<close> of \<open>src/event/mod.rs\<close>): the checks of its
  headers, the stream it creates or finds, and the way of its events through flattening, decoding and
  staging. This composes the models of these parts over one state, the streams and their staging. The
  rows of OpenTelemetry and Kinesis bodies and the rows of a decoded batch are functions of the environment.
\<close>

datatype post_error =
    StreamNotFound string
  | FlattenFailed flatten_error
  | EventRefused event_error
  | EventFailed
  | SerdeError
  | KinesisFailed
  | StreamFailed registry_error
  | KnownFormat known_error
  | OtelNotSupported
  | InternalStream string
  | IncorrectLogFormat string
  | IncorrectLogSource
  | TimePartitionNotSupported
  | FieldsCountLimitExceeded string nat nat
  | MissingStreamName
  | MissingLogSource
  | ProtobufNotSupported
  | BadContentType

record ('a, 'r, 'ret, 'hot) ingest_env =
  ie_events :: "'a event_env"
  ie_staging :: "'r staging_env"
  ie_registry :: "('ret, 'hot) registry_env"
  ie_flatten :: flatten_env
  ie_now :: int
  xxh3 :: "string \<Rightarrow> u64"
  minute_text :: "int \<Rightarrow> string"
  rows_of_batch :: "'a record_batch \<Rightarrow> 'r list"
  json_size :: "json \<Rightarrow> u64"
  fields_allowed :: nat
  known_formats :: "(string \<times> schema_definition) list"
  read_kinesis :: "json \<Rightarrow> kinesis_message option"
  decode_record :: "string \<Rightarrow> kinesis_error + json"
  otel_rows :: "log_source \<Rightarrow> json \<Rightarrow> json list option"
  read_body :: "string \<Rightarrow> json option"
  default_meta :: "('ret, 'hot) stream_meta"

record ('r, 'ret, 'hot) node =
  nd_registry :: "('ret, 'hot) registry"
  nd_stages :: "(string \<times> 'r stream) list"
  nd_reference :: "int option"

definition fresh_stream :: "'r stream" where
  "fresh_stream = \<lparr>st_mem = empty_mem, st_disk = [], st_arrows = [], st_inprocess = [], st_parquets = [], st_schema_files = []\<rparr>"

definition stage_of :: "('r, 'ret, 'hot) node \<Rightarrow> string \<Rightarrow> 'r stream" where
  "stage_of nd n = (case map_of (nd_stages nd) n of Some st \<Rightarrow> st | None \<Rightarrow> fresh_stream)"

section \<open>One event\<close>

definition partition_key :: "(string \<times> string) list \<Rightarrow> string" where
  "partition_key vals = concat (map (\<lambda>(k, v). ''&'' @ k @ ''='' @ v) (sort_key fst vals))"

definition event_key :: "('a, 'r, 'ret, 'hot) ingest_env \<Rightarrow> 'a event \<Rightarrow> string" where
  "event_key env ev = get_schema_key (xxh3 env) (rb_schema (ev_rb ev)) @
     (if ev_time_partition ev \<noteq> None then minute_text env (ev_parsed_timestamp ev) else []) @
     partition_key (ev_custom_partition_values ev)"

definition batch_of :: "('a, 'r, 'ret, 'hot) ingest_env \<Rightarrow> 'a event \<Rightarrow> 'r batch" where
  "batch_of env ev = \<lparr>b_fields = rb_schema (ev_rb ev), b_rows = rows_of_batch env (ev_rb ev)\<rparr>"

text \<open>\<open>Event::process\<close>: the schema of a first event is committed, then the batch is pushed.\<close>

definition process ::
  "('a, 'r, 'ret, 'hot) ingest_env \<Rightarrow> bool \<Rightarrow> 'a event \<Rightarrow> ('r, 'ret, 'hot) node
   \<Rightarrow> (('r, 'ret, 'hot) node \<times> (post_error + unit)) option" where
  "process env internal ev nd =
     (let n = ev_stream ev in
      case (if ev_is_first ev
            then commit_stream_schema (ie_registry env) n (rb_schema (ev_rb ev)) (nd_registry nd)
            else (nd_registry nd, Inr ())) of
        (r, Inl _) \<Rightarrow> Some (nd\<lparr>nd_registry := r\<rparr>, Inl EventFailed)
      | (r, Inr _) \<Rightarrow>
          map_option (\<lambda>(st, res).
            (nd\<lparr>nd_registry := get_or_create n (default_meta env) r, nd_stages := AList.update n st (nd_stages nd)\<rparr>,
             case res of Inl _ \<Rightarrow> Inl EventFailed | Inr _ \<Rightarrow> Inr ()))
            (push (ie_staging env) (ie_now env) (event_key env ev) (batch_of env ev) (ev_parsed_timestamp ev)
               (ev_custom_partition_values ev) internal (stage_of nd n)))"

section \<open>The events of a request\<close>

text \<open>Each value becomes an event of the schema the stream has by then; the first failure ends the request.\<close>

fun push_values ::
  "('a, 'r, 'ret, 'hot) ingest_env \<Rightarrow> string \<Rightarrow> bool \<Rightarrow> string option \<Rightarrow> string option \<Rightarrow> schema_version
   \<Rightarrow> (string \<times> string) list \<Rightarrow> json list \<Rightarrow> ('r, 'ret, 'hot) node
   \<Rightarrow> (('r, 'ret, 'hot) node \<times> (post_error + unit)) option" where
  "push_values env n static cp tp ver custom [] nd = Some (nd, Inr ())"
| "push_values env n static cp tp ver custom (v # vs) nd =
     (case map_of (streams (nd_registry nd)) n of
        None \<Rightarrow> Some (nd, Inl (StreamNotFound n))
      | Some m \<Rightarrow>
          (case into_event (ie_events env) v (ie_now env) n (json_size env v) (sm_schema m) static cp tp ver custom of
             None \<Rightarrow> None
           | Some (Inl e) \<Rightarrow> Some (nd, Inl (EventRefused e))
           | Some (Inr ev) \<Rightarrow>
               (case process env False ev nd of
                  None \<Rightarrow> None
                | Some (nd', Inl e) \<Rightarrow> Some (nd', Inl e)
                | Some (nd', Inr _) \<Rightarrow> push_values env n static cp tp ver custom vs nd')))"

definition push_logs ::
  "('a, 'r, 'ret, 'hot) ingest_env \<Rightarrow> string \<Rightarrow> json \<Rightarrow> log_source \<Rightarrow> (string \<times> string) list \<Rightarrow> string option
   \<Rightarrow> ('r, 'ret, 'hot) node \<Rightarrow> (('r, 'ret, 'hot) node \<times> (post_error + unit)) option" where
  "push_logs env n body source custom tp nd =
     (case map_of (streams (nd_registry nd)) n of
        None \<Rightarrow> Some (nd, Inl (StreamNotFound n))
      | Some m \<Rightarrow>
          (case convert_array_to_object (ie_flatten env) body (tp, sm_time_partition_limit m, sm_custom_partition m)
                  (sm_schema_version m) source (nd_reference nd) of
             (reference, Inl e) \<Rightarrow> Some (nd\<lparr>nd_reference := reference\<rparr>, Inl (FlattenFailed e))
           | (reference, Inr vs) \<Rightarrow>
               push_values env n (sm_static_schema_flag m) (sm_custom_partition m) tp (sm_schema_version m) custom vs
                 (nd\<lparr>nd_reference := reference\<rparr>)))"

fun push_records ::
  "('a, 'r, 'ret, 'hot) ingest_env \<Rightarrow> string \<Rightarrow> json list \<Rightarrow> log_source \<Rightarrow> (string \<times> string) list \<Rightarrow> string option
   \<Rightarrow> ('r, 'ret, 'hot) node \<Rightarrow> (('r, 'ret, 'hot) node \<times> (post_error + unit)) option" where
  "push_records env n [] source custom tp nd = Some (nd, Inr ())"
| "push_records env n (v # vs) source custom tp nd =
     (case push_logs env n v source custom tp nd of
        None \<Rightarrow> None
      | Some (nd', Inl e) \<Rightarrow> Some (nd', Inl e)
      | Some (nd', Inr _) \<Rightarrow> push_records env n vs source custom tp nd')"

definition verify_dataset_fields_count ::
  "('a, 'r, 'ret, 'hot) ingest_env \<Rightarrow> string \<Rightarrow> ('r, 'ret, 'hot) node \<Rightarrow> post_error + unit" where
  "verify_dataset_fields_count env n nd =
     (case map_of (streams (nd_registry nd)) n of
        None \<Rightarrow> Inl (StreamNotFound n)
      | Some m \<Rightarrow>
          if length (sm_schema m) > fields_allowed env
          then Inl (FieldsCountLimitExceeded n (length (sm_schema m)) (fields_allowed env)) else Inr ())"

definition flatten_and_push_logs ::
  "('a, 'r, 'ret, 'hot) ingest_env \<Rightarrow> json \<Rightarrow> string \<Rightarrow> log_source \<Rightarrow> (string \<times> string) list \<Rightarrow> string option
   \<Rightarrow> ('r, 'ret, 'hot) node \<Rightarrow> (('r, 'ret, 'hot) node \<times> (post_error + unit)) option" where
  "flatten_and_push_logs env body n source custom tp nd =
     (case verify_dataset_fields_count env n nd of
        Inl e \<Rightarrow> Some (nd, Inl e)
      | Inr _ \<Rightarrow>
          if source = Kinesis then
            (case read_kinesis env body of
               None \<Rightarrow> Some (nd, Inl SerdeError)
             | Some msg \<Rightarrow>
                 (case flatten_kinesis_logs (ie_flatten env) (decode_record env) msg of
                    Inl _ \<Rightarrow> Some (nd, Inl KinesisFailed)
                  | Inr rows \<Rightarrow>
                      (case convert_to_array rows of
                         Inl e \<Rightarrow> Some (nd, Inl (FlattenFailed e))
                       | Inr record \<Rightarrow> push_logs env n record source custom tp nd)))
          else if source \<in> {OtelLogs, OtelTraces, OtelMetrics} then
            (case otel_rows env source body of
               None \<Rightarrow> Some (nd, Inl SerdeError)
             | Some records \<Rightarrow> push_records env n records source custom tp nd)
          else push_logs env n body source custom tp nd)"

section \<open>Checks of a stream\<close>

definition is_telemetry_source :: "log_source \<Rightarrow> bool" where
  "is_telemetry_source s \<longleftrightarrow> s = OtelTraces \<or> s = OtelMetrics"

definition validate_stream_for_ingestion :: "string \<Rightarrow> ('r, 'ret, 'hot) node \<Rightarrow> post_error + unit" where
  "validate_stream_for_ingestion n nd =
     (case map_of (streams (nd_registry nd)) n of
        None \<Rightarrow> Inl (StreamNotFound n)
      | Some m \<Rightarrow>
          if \<not> list_ex (\<lambda>e. \<not> is_telemetry_source (log_source_format e)) (sm_log_source m) then Inl (IncorrectLogFormat n)
          else if sm_time_partition m \<noteq> None then Inl TimePartitionNotSupported
          else Inr ())"

definition list_internal_streams :: "('r, 'ret, 'hot) node \<Rightarrow> string list" where
  "list_internal_streams nd = map fst (filter (\<lambda>(n, m). sm_stream_type m = Internal) (streams (nd_registry nd)))"

section \<open>Handlers\<close>

text \<open>A header that is there may not be readable as text, which \<open>Some None\<close> stands for.\<close>

record request =
  rq_headers :: "header list"
  rq_user_agent :: "string option"
  rq_source_ip :: "string option"

definition header_text :: "request \<Rightarrow> string \<Rightarrow> string option" where
  "header_text req k = (case map_of (rq_headers req) k of Some (Some v) \<Rightarrow> Some v | _ \<Rightarrow> None)"

definition custom_fields :: "request \<Rightarrow> (string \<times> string) list" where
  "custom_fields req = get_custom_fields_from_header (rq_headers req) (rq_user_agent req) (rq_source_ip req)"

definition source_of_request :: "request \<Rightarrow> log_source" where
  "source_of_request req = (case header_text req ''x-p-log-source'' of None \<Rightarrow> Json | Some s \<Rightarrow> log_source_from s)"

definition telemetry_of_request :: "request \<Rightarrow> telemetry_type" where
  "telemetry_of_request req = (case header_text req ''x-p-telemetry-type'' of None \<Rightarrow> Logs | Some s \<Rightarrow> telemetry_type_from s)"

text \<open>The body and custom fields after the fields of a known format are taken from it.\<close>

definition inline_fields ::
  "('a, 'r, 'ret, 'hot) ingest_env \<Rightarrow> request \<Rightarrow> json
   \<Rightarrow> (post_error + (json \<times> (string \<times> string) list \<times> string set)) option" where
  "inline_fields env req body =
     (case source_of_request req of
        Custom src \<Rightarrow> map_option (map_sum KnownFormat id)
          (extract_from_inline_log (known_formats env) body (custom_fields req) src (header_text req ''x-p-extract-log''))
      | _ \<Rightarrow> Some (Inr (body, custom_fields req, {})))"

definition is_otel :: "log_source \<Rightarrow> bool" where
  "is_otel s \<longleftrightarrow> s \<in> {OtelLogs, OtelMetrics, OtelTraces}"

definition ingest ::
  "('a, 'r, 'ret, 'hot) ingest_env \<Rightarrow> request \<Rightarrow> json \<Rightarrow> ('r, 'ret, 'hot) node
   \<Rightarrow> (('r, 'ret, 'hot) node \<times> (post_error + unit)) option" where
  "ingest env req body nd =
     (case map_of (rq_headers req) ''x-p-stream'' of
        None \<Rightarrow> Some (nd, Inl MissingStreamName)
      | Some None \<Rightarrow> None
      | Some (Some n) \<Rightarrow>
          if n \<in> set (list_internal_streams nd) then Some (nd, Inl (InternalStream n))
          else if is_otel (source_of_request req) then Some (nd, Inl OtelNotSupported)
          else (case inline_fields env req body of
            None \<Rightarrow> None
          | Some (Inl e) \<Rightarrow> Some (nd, Inl e)
          | Some (Inr (body', custom, known)) \<Rightarrow>
              let entry = \<lparr>log_source_format = source_of_request req, lse_fields = known\<rparr> in
              (case create_stream_if_not_exists (ie_registry env) n UserDefined None [entry] (telemetry_of_request req)
                      (nd_registry nd) of
                 (r, Inl e) \<Rightarrow> Some (nd\<lparr>nd_registry := r\<rparr>, Inl (StreamFailed e))
               | (r, Inr _) \<Rightarrow>
                   let nd1 = nd\<lparr>nd_registry := r\<rparr> in
                   (case validate_stream_for_ingestion n nd1 of
                      Inl e \<Rightarrow> Some (nd1, Inl e)
                    | Inr _ \<Rightarrow>
                        (case add_update_log_source (ie_registry env) n entry r of
                           None \<Rightarrow> None
                         | Some (r2, Inl e) \<Rightarrow> Some (nd1\<lparr>nd_registry := r2\<rparr>, Inl (StreamFailed e))
                         | Some (r2, Inr _) \<Rightarrow>
                             flatten_and_push_logs env body' n (source_of_request req) custom None (nd1\<lparr>nd_registry := r2\<rparr>))))))"

definition post_event ::
  "('a, 'r, 'ret, 'hot) ingest_env \<Rightarrow> request \<Rightarrow> string \<Rightarrow> json \<Rightarrow> ('r, 'ret, 'hot) node
   \<Rightarrow> (('r, 'ret, 'hot) node \<times> (post_error + unit)) option" where
  "post_event env req n body nd =
     (if n \<in> set (list_internal_streams nd) then Some (nd, Inl (InternalStream n))
      else case (if map_of (streams (nd_registry nd)) n \<noteq> None then (nd_registry nd, Inr True)
                 else if re_mode (ie_registry env) \<noteq> AllMode
                 then create_stream_and_schema_from_storage (ie_registry env) n (nd_registry nd)
                 else (nd_registry nd, Inr False)) of
        (r, Inl _) \<Rightarrow> Some (nd\<lparr>nd_registry := r\<rparr>, Inl (StreamNotFound n))
      | (r, Inr False) \<Rightarrow> Some (nd\<lparr>nd_registry := r\<rparr>, Inl (StreamNotFound n))
      | (r, Inr True) \<Rightarrow>
          let nd1 = nd\<lparr>nd_registry := r\<rparr> in
          if is_otel (source_of_request req) then Some (nd1, Inl OtelNotSupported)
          else (case inline_fields env req body of
            None \<Rightarrow> None
          | Some (Inl e) \<Rightarrow> Some (nd1, Inl e)
          | Some (Inr (body', custom, _)) \<Rightarrow>
              (case validate_stream_for_ingestion n nd1 of
                 Inl e \<Rightarrow> Some (nd1, Inl e)
               | Inr _ \<Rightarrow> flatten_and_push_logs env body' n (source_of_request req) custom None nd1)))"

text \<open>Requests with OpenTelemetry data name their format, which must be the one of the route.\<close>

definition otel_compatible :: "log_source \<Rightarrow> log_source_entry list \<Rightarrow> bool" where
  "otel_compatible source es =
     (if source = OtelLogs then list_ex (\<lambda>e. \<not> is_telemetry_source (log_source_format e)) es
      else list_ex (\<lambda>e. log_source_format e = source) es)"

definition setup_otel_stream ::
  "('a, 'r, 'ret, 'hot) ingest_env \<Rightarrow> request \<Rightarrow> log_source \<Rightarrow> string list \<Rightarrow> telemetry_type \<Rightarrow> ('r, 'ret, 'hot) node
   \<Rightarrow> (('r, 'ret, 'hot) node \<times> (post_error + string)) option" where
  "setup_otel_stream env req expected known telemetry nd =
     (case (map_of (rq_headers req) ''x-p-stream'', map_of (rq_headers req) ''x-p-log-source'') of
        (None, _) \<Rightarrow> Some (nd, Inl MissingStreamName)
      | (Some _, None) \<Rightarrow> Some (nd, Inl MissingLogSource)
      | (Some _, Some None) \<Rightarrow> None
      | (Some name, Some (Some src)) \<Rightarrow>
          if log_source_from src \<noteq> expected then Some (nd, Inl IncorrectLogSource)
          else (case name of
            None \<Rightarrow> None
          | Some n \<Rightarrow>
              let entry = \<lparr>log_source_format = expected, lse_fields = set known\<rparr> in
              (case create_stream_if_not_exists (ie_registry env) n UserDefined None [entry] telemetry (nd_registry nd) of
                 (r, Inl e) \<Rightarrow> Some (nd\<lparr>nd_registry := r\<rparr>, Inl (StreamFailed e))
               | (r, Inr _) \<Rightarrow>
                   if (case map_of (streams r) n of None \<Rightarrow> False | Some m \<Rightarrow> \<not> otel_compatible expected (sm_log_source m))
                   then Some (nd\<lparr>nd_registry := r\<rparr>, Inl (IncorrectLogFormat n))
                   else (case add_update_log_source (ie_registry env) n entry r of
                     None \<Rightarrow> None
                   | Some (r2, Inl e) \<Rightarrow> Some (nd\<lparr>nd_registry := r2\<rparr>, Inl (StreamFailed e))
                   | Some (r2, Inr _) \<Rightarrow> Some (nd\<lparr>nd_registry := r2\<rparr>, Inr n)))))"

definition process_otel_content ::
  "('a, 'r, 'ret, 'hot) ingest_env \<Rightarrow> request \<Rightarrow> string \<Rightarrow> string \<Rightarrow> log_source \<Rightarrow> ('r, 'ret, 'hot) node
   \<Rightarrow> (('r, 'ret, 'hot) node \<times> (post_error + unit)) option" where
  "process_otel_content env req text n source nd =
     (case header_text req ''content-type'' of
        None \<Rightarrow> Some (nd, Inl BadContentType)
      | Some ct \<Rightarrow>
          if ct = ''application/json''
          then (case read_body env text of
                  None \<Rightarrow> Some (nd, Inl SerdeError)
                | Some body \<Rightarrow> flatten_and_push_logs env body n source (custom_fields req) None nd)
          else if ct = ''application/x-protobuf'' then Some (nd, Inl ProtobufNotSupported)
          else Some (nd, Inl BadContentType))"

definition handle_otel_ingestion ::
  "('a, 'r, 'ret, 'hot) ingest_env \<Rightarrow> request \<Rightarrow> string \<Rightarrow> log_source \<Rightarrow> string list \<Rightarrow> telemetry_type \<Rightarrow> ('r, 'ret, 'hot) node
   \<Rightarrow> (('r, 'ret, 'hot) node \<times> (post_error + unit)) option" where
  "handle_otel_ingestion env req text expected known telemetry nd =
     (case setup_otel_stream env req expected known telemetry nd of
        None \<Rightarrow> None
      | Some (nd1, Inl e) \<Rightarrow> Some (nd1, Inl e)
      | Some (nd1, Inr n) \<Rightarrow> process_otel_content env req text n expected nd1)"

section \<open>What a request stores\<close>

definition stage_ok :: "('a, 'r, 'ret, 'hot) ingest_env \<Rightarrow> 'r stream \<Rightarrow> bool" where
  "stage_ok env st \<longleftrightarrow> distinct_keys (st_disk st) \<and> distinct_keys (st_arrows st) \<and>
     (\<forall>k. rand_name (ie_staging env) k \<notin> set (keys_of (st_arrows st)))"

lemma push_disk_success:
  assumes "push_disk env clock n rb parsed st = Some (st', Inr ())"
  shows "st_arrows st' = st_arrows st \<and> (\<exists>w. st_disk st' = AList.update n w (st_disk st))"
  using assms by (auto simp: push_disk_def Let_def split: option.splits if_splits)

lemma push_success:
  assumes "push env clock key rb parsed vals internal st = Some (st', Inr ())" and "distinct_keys (st_disk st)"
  shows "st_arrows st' = st_arrows st \<and> distinct_keys (st_disk st')"
proof (cases "\<not> query_mode env \<or> internal")
  case False
  with assms show ?thesis by (auto simp: push_def)
next
  case True
  with assms(1) obtain n st1 m where p: "push_disk env clock n rb parsed st = Some (st1, Inr ())" "st' = st1\<lparr>st_mem := m\<rparr>"
    by (auto simp: push_def split: option.splits sum.splits)
  from push_disk_success [OF p(1)] obtain w where "st_arrows st1 = st_arrows st" "st_disk st1 = AList.update n w (st_disk st)" by blast
  with p(2) assms(2) show ?thesis by (simp add: distinct_update)
qed

lemma commit_keeps_names: "fst (commit_stream_schema renv n fs r) = r \<or> (\<exists>h. fst (commit_stream_schema renv n fs r) = update_meta n h r)"
  by (auto simp: commit_stream_schema_def split: option.splits)

lemma process_rows:
  assumes run: "process env False ev nd = Some (nd', res)" and ok: "stage_ok env (stage_of nd (ev_stream ev))"
    and mode: "\<not> query_mode (ie_staging env)"
  shows "stored_rows (stage_of nd' (ev_stream ev)) = stored_rows (stage_of nd (ev_stream ev)) +
      (if res = Inr () then mset (rows_of_batch env (ev_rb ev)) else {#}) \<and>
    (res = Inr () \<longrightarrow> stage_ok env (stage_of nd' (ev_stream ev))) \<and>
    (\<forall>k. k \<noteq> ev_stream ev \<longrightarrow> stage_of nd' k = stage_of nd k)"
proof -
  let ?n = "ev_stream ev"
  obtain r c where c: "(if ev_is_first ev then commit_stream_schema (ie_registry env) ?n (rb_schema (ev_rb ev)) (nd_registry nd)
      else (nd_registry nd, Inr ())) = (r, c)" by force
  show ?thesis
  proof (cases c)
    case (Inl e)
    with run c have "nd' = nd\<lparr>nd_registry := r\<rparr>" "res = Inl EventFailed"
      by (auto simp: process_def Let_def split: if_splits)
    with ok show ?thesis by (simp add: stage_of_def)
  next
    case (Inr u)
    with run c obtain st q where p: "push (ie_staging env) (ie_now env) (event_key env ev) (batch_of env ev) (ev_parsed_timestamp ev)
        (ev_custom_partition_values ev) False (stage_of nd ?n) = Some (st, q)"
      and nd': "nd' = nd\<lparr>nd_registry := get_or_create ?n (default_meta env) r, nd_stages := AList.update ?n st (nd_stages nd)\<rparr>"
      and res: "res = (case q of Inl _ \<Rightarrow> Inl EventFailed | Inr _ \<Rightarrow> Inr ())"
      by (auto simp: process_def Let_def split: if_splits)
    have st: "stage_of nd' ?n = st" "\<And>k. k \<noteq> ?n \<Longrightarrow> stage_of nd' k = stage_of nd k"
      by (simp_all add: nd' stage_of_def update_conv')
    have q: "res = Inr () \<longleftrightarrow> q = Inr ()" using res by (cases q) auto
    have "stored_rows st = stored_rows (stage_of nd ?n) + (if q = Inr () then mset (rows_of_batch env (ev_rb ev)) else {#})"
      using push_rows [OF p] ok mode by (simp add: stage_ok_def batch_of_def)
    moreover have "stage_ok env st" if "q = Inr ()"
      using push_success [OF p [unfolded that]] ok by (simp add: stage_ok_def)
    ultimately show ?thesis using st q by simp
  qed
qed

lemma into_event_stream: "into_event env v t n bytes schema static cp tp ver custom = Some (Inr ev) \<Longrightarrow> ev_stream ev = n"
  by (auto simp: into_event_def split: option.splits sum.splits)

text \<open>The events made of values, each with some schema of the stream.\<close>

definition event_of :: "('a, 'r, 'ret, 'hot) ingest_env \<Rightarrow> string \<Rightarrow> bool \<Rightarrow> string option \<Rightarrow> string option \<Rightarrow> schema_version
    \<Rightarrow> (string \<times> string) list \<Rightarrow> json \<Rightarrow> 'a event \<Rightarrow> bool" where
  "event_of env n static cp tp ver custom v ev \<longleftrightarrow> (\<exists>schema.
     into_event (ie_events env) v (ie_now env) n (json_size env v) schema static cp tp ver custom = Some (Inr ev))"

definition rows_of_events :: "('a, 'r, 'ret, 'hot) ingest_env \<Rightarrow> 'a event list \<Rightarrow> 'r list" where
  "rows_of_events env evs = concat (map (\<lambda>ev. rows_of_batch env (ev_rb ev)) evs)"

lemma push_values_rows:
  assumes "push_values env n static cp tp ver custom vs nd = Some (nd', res)" and "stage_ok env (stage_of nd n)"
    and "\<not> query_mode (ie_staging env)"
  shows "\<exists>evs. list_all2 (event_of env n static cp tp ver custom) (take (length evs) vs) evs \<and>
    stored_rows (stage_of nd' n) = stored_rows (stage_of nd n) + mset (rows_of_events env evs) \<and>
    (res = Inr () \<longrightarrow> length evs = length vs \<and> stage_ok env (stage_of nd' n)) \<and> (res \<noteq> Inr () \<longrightarrow> length evs < length vs) \<and>
    (\<forall>k. k \<noteq> n \<longrightarrow> stage_of nd' k = stage_of nd k)"
  using assms
proof (induction vs arbitrary: nd)
  case Nil
  then show ?case by (intro exI [of _ "[]"]) (simp add: rows_of_events_def)
next
  case (Cons v vs nd)
  show ?case
  proof (cases "map_of (streams (nd_registry nd)) n")
    case None
    with Cons.prems(1) have "nd' = nd" "res \<noteq> Inr ()" by auto
    then show ?thesis by (intro exI [of _ "[]"]) (simp add: rows_of_events_def)
  next
    case (Some m)
    show ?thesis
    proof (cases "into_event (ie_events env) v (ie_now env) n (json_size env v) (sm_schema m) static cp tp ver custom")
      case None
      with Cons.prems(1) Some show ?thesis by simp
    next
      case made: (Some r)
      show ?thesis
      proof (cases r)
        case (Inl e)
        with Cons.prems(1) Some made have "nd' = nd" "res \<noteq> Inr ()" by auto
        then show ?thesis by (intro exI [of _ "[]"]) (simp add: rows_of_events_def)
      next
        case (Inr ev)
        note ev = into_event_stream [OF made [unfolded Inr]]
        have e: "event_of env n static cp tp ver custom v ev" using made Inr by (auto simp: event_of_def)
        from Cons.prems(1) Some made Inr obtain nd1 q where p: "process env False ev nd = Some (nd1, q)"
          by (auto split: option.splits)
        note pr = process_rows [OF p _ Cons.prems(3), unfolded ev, OF Cons.prems(2)]
        show ?thesis
        proof (cases q)
          case (Inl e')
          with Cons.prems(1) Some made Inr p have "nd' = nd1" "res = Inl e'" by simp_all
          with pr Inl show ?thesis by (intro exI [of _ "[]"]) (simp add: rows_of_events_def)
        next
          case u: (Inr u)
          with Cons.prems(1) Some made Inr p have rest: "push_values env n static cp tp ver custom vs nd1 = Some (nd', res)" by simp
          from pr u have "stage_ok env (stage_of nd1 n)" by simp
          from Cons.IH [OF rest this Cons.prems(3)] obtain evs where
            "list_all2 (event_of env n static cp tp ver custom) (take (length evs) vs) evs"
            "stored_rows (stage_of nd' n) = stored_rows (stage_of nd1 n) + mset (rows_of_events env evs)"
            "res = Inr () \<longrightarrow> length evs = length vs \<and> stage_ok env (stage_of nd' n)" "res \<noteq> Inr () \<longrightarrow> length evs < length vs"
            "\<forall>k. k \<noteq> n \<longrightarrow> stage_of nd' k = stage_of nd1 k" by blast
          with pr u e show ?thesis by (intro exI [of _ "ev # evs"]) (simp add: rows_of_events_def)
        qed
      qed
    qed
  qed
qed

text \<open>C9: On a node that is not a querier, let the names of open part files and arrow files of the stream
  be distinct and the random texts of this minute unused (\<open>stage_ok\<close>). When flattening the body of a
  request fails, nothing is stored. Otherwise the body is flattened to values \<open>vs\<close>, and the request adds
  to the staging of its stream, in whichever of the files, exactly the rows of the events of the first
  values of \<open>vs\<close>: of all of them when it succeeds, and of those before the failing one when it fails, so
  that such a request is stored in part. No other stream's staging changes.\<close>

theorem request_stores_rows:
  assumes "push_logs env n body source custom tp nd = Some (nd', res)" and "stage_ok env (stage_of nd n)"
    and "\<not> query_mode (ie_staging env)" and "map_of (streams (nd_registry nd)) n = Some m"
  shows "(case snd (convert_array_to_object (ie_flatten env) body
        (tp, sm_time_partition_limit m, sm_custom_partition m) (sm_schema_version m) source (nd_reference nd)) of
      Inl e \<Rightarrow> res = Inl (FlattenFailed e) \<and> stage_of nd' n = stage_of nd n
    | Inr vs \<Rightarrow> \<exists>evs. list_all2 (event_of env n (sm_static_schema_flag m) (sm_custom_partition m) tp (sm_schema_version m) custom)
          (take (length evs) vs) evs \<and>
        (if res = Inr () then length evs = length vs else length evs < length vs) \<and>
        stored_rows (stage_of nd' n) = stored_rows (stage_of nd n) + mset (rows_of_events env evs)) \<and>
    (\<forall>k. k \<noteq> n \<longrightarrow> stage_of nd' k = stage_of nd k)"
proof -
  obtain ref out where c: "convert_array_to_object (ie_flatten env) body (tp, sm_time_partition_limit m, sm_custom_partition m)
      (sm_schema_version m) source (nd_reference nd) = (ref, out)" by force
  show ?thesis
  proof (cases out)
    case (Inl e)
    with assms(1,4) c have "nd' = nd\<lparr>nd_reference := ref\<rparr>" "res = Inl (FlattenFailed e)" by (simp_all add: push_logs_def)
    then show ?thesis using c Inl by (simp add: stage_of_def)
  next
    case (Inr vs)
    let ?nd = "nd\<lparr>nd_reference := ref\<rparr>"
    have same: "stage_of ?nd k = stage_of nd k" for k by (simp add: stage_of_def)
    from assms(1,4) c Inr have "push_values env n (sm_static_schema_flag m) (sm_custom_partition m) tp (sm_schema_version m) custom vs ?nd
        = Some (nd', res)" by (simp add: push_logs_def)
    from push_values_rows [OF this, unfolded same, OF assms(2,3)] obtain evs where
      evs: "list_all2 (event_of env n (sm_static_schema_flag m) (sm_custom_partition m) tp (sm_schema_version m) custom) (take (length evs) vs) evs"
      "stored_rows (stage_of nd' n) = stored_rows (stage_of nd n) + mset (rows_of_events env evs)"
      "res = Inr () \<longrightarrow> length evs = length vs \<and> stage_ok env (stage_of nd' n)" "res \<noteq> Inr () \<longrightarrow> length evs < length vs"
      "\<forall>k. k \<noteq> n \<longrightarrow> stage_of nd' k = stage_of nd k" by blast
    have "if res = Inr () then length evs = length vs else length evs < length vs" using evs(3,4) by simp
    then show ?thesis using evs(1,2,5) c Inr by auto
  qed
qed

section \<open>An example\<close>

definition sample_meta :: "(nat, nat) stream_meta" where
  "sample_meta = (new_stream_meta ''t'' ''t'' [] None None False sample_schema UserDefined V1
     [\<lparr>log_source_format = Json, lse_fields = {}\<rparr>] Logs)"

definition sample_ingest :: "(unit, nat, nat, nat) ingest_env" where
  "sample_ingest = \<lparr>ie_events = Event_Format.sample_env, ie_staging = sample_staging, ie_registry = demo_env\<lparr>re_mode := AllMode\<rparr>,
     ie_flatten = \<lparr>parse_datetime = (\<lambda>_. None), utc_now = 0, event_max_chunk_age = 0, event_flatten_level = 10\<rparr>,
     ie_now = 0, xxh3 = (\<lambda>_. 0), minute_text = (\<lambda>_. []), rows_of_batch = (\<lambda>rb. [rb_num_rows rb]), json_size = (\<lambda>_. 0),
     fields_allowed = 250, known_formats = [], read_kinesis = (\<lambda>_. None), decode_record = (\<lambda>_. Inl BadBase64),
     otel_rows = (\<lambda>_ _. None), read_body = (\<lambda>_. None), default_meta = sample_meta\<rparr>"

definition sample_node :: "(nat, nat, nat) node" where
  "sample_node = \<lparr>nd_registry = \<lparr>streams = [(''web'', sample_meta)], formats = [], schemas = []\<rparr>, nd_stages = [],
     nd_reference = None\<rparr>"

lemma sample_array_batch:
  "into_recordbatch Event_Format.sample_env (JArray [JObject sample_row]) 0 sample_schema static None V1 [(''u'', ''v'')] =
   Some (Inr (\<lparr>rb_schema = [Field default_timestamp_key timestamp_millis True, Field ''a'' Float64 True,
       Field ''t'' Utf8 True, Field ''u'' Utf8 True],
     rb_columns = [TimestampColumn [0], Decoded 1 (), Decoded 1 (), StringColumn [''v'']]\<rparr>, False))"
proof -
  have "to_data Event_Format.sample_env (JArray [JObject sample_row]) sample_schema None V1 static =
      Some (Inr ([JObject sample_row], [Field ''a'' Float64 True, Field ''t'' Utf8 True], False))"
    by (simp add: event_defs)
  then show ?thesis
    by (simp add: into_recordbatch_def get_field_def default_timestamp_key_def is_schema_matching_def sample_schema_def
      update_field_type_in_schema_def decode_def Event_Format.sample_env_def add_parseable_fields_def rb_num_rows_def
      get_timestamp_array_def rb_try_new_def)
qed

lemma sample_flat:
  "convert_array_to_object (ie_flatten sample_ingest) (JObject sample_row) (None, None, None) V1 Json None =
     (None, Inr [JArray [JObject sample_row]])"
  by code_simp

lemma sample_pushes:
  "length (b_rows rb) = 1 \<Longrightarrow> \<exists>st. push sample_staging 0 ''0'' rb 0 [] False fresh_stream = Some (st, Inr ())"
  by (simp add: push_def sample_file_name partition_part_def push_disk_def fresh_stream_def
      mem_push_def buffer_push_def mem_capacity_def Let_def data_granularity_def empty_mem_def)
    (simp add: sample_staging_def buffer_push_def Let_def)

lemma sample_run_with:
  assumes "into_recordbatch Event_Format.sample_env (JArray [JObject sample_row]) 0 sample_schema False None V1 custom = Some (Inr (rb, False))"
  shows "\<exists>nd'. push_logs sample_ingest ''web'' (JObject sample_row) Json custom None sample_node = Some (nd', Inr ()) \<and>
    map_of (nd_stages nd') ''web'' \<noteq> None"
proof -
  obtain ev where ev: "into_event Event_Format.sample_env (JArray [JObject sample_row]) 0 ''web'' 0 sample_schema False None None V1 custom =
      Some (Inr ev)" "ev_is_first ev = False" "ev_custom_partition_values ev = []" "ev_parsed_timestamp ev = 0" "ev_time_partition ev = None"
    "ev_stream ev = ''web''"
    by (simp add: into_event_def assms)
  have key: "event_key sample_ingest ev = ''0''"
    using ev by (simp add: event_key_def get_schema_key_def partition_key_def sample_ingest_def show_hex.simps hex_digit_def digit_char_def char_of_def bit_0)
  have stage: "stage_of sample_node ''web'' = fresh_stream" by (simp add: stage_of_def sample_node_def)
  obtain st where st: "push sample_staging 0 ''0'' (batch_of sample_ingest ev) 0 [] False fresh_stream = Some (st, Inr ())"
    using sample_pushes [of "batch_of sample_ingest ev"] by (auto simp: batch_of_def sample_ingest_def)
  have "process sample_ingest False ev sample_node = Some (sample_node\<lparr>nd_registry := get_or_create ''web'' sample_meta (nd_registry sample_node),
      nd_stages := AList.update ''web'' st []\<rparr>, Inr ())"
    using ev(2-6) st key stage by (simp add: process_def Let_def) (simp add: sample_ingest_def sample_node_def)
  moreover have "map_of (streams (nd_registry sample_node)) ''web'' = Some sample_meta" "nd_reference sample_node = None"
    by (simp_all add: sample_node_def)
  moreover have "sm_schema sample_meta = sample_schema" "sm_static_schema_flag sample_meta = False" "sm_custom_partition sample_meta = None"
    "sm_time_partition_limit sample_meta = None" "sm_schema_version sample_meta = V1"
    by (simp_all add: sample_meta_def new_stream_meta_def)
  moreover have "ie_events sample_ingest = Event_Format.sample_env" "ie_now sample_ingest = 0" "json_size sample_ingest = (\<lambda>_. 0)"
    by (simp_all add: sample_ingest_def)
  moreover have node: "sample_node\<lparr>nd_reference := None\<rparr> = sample_node" by (simp add: sample_node_def)
  ultimately show ?thesis using ev(1) by (simp add: push_logs_def sample_flat node del: node.simps)
qed

lemma sample_run:
  "\<exists>nd'. push_logs sample_ingest ''web'' (JObject sample_row) Json [(''u'', ''v'')] None sample_node = Some (nd', Inr ())"
  using sample_run_with [OF sample_array_batch] by blast

theorem request_stores_rows_witness:
  "\<exists>nd' rows. push_logs sample_ingest ''web'' (JObject sample_row) Json [(''u'', ''v'')] None sample_node = Some (nd', Inr ()) \<and>
     stored_rows (stage_of nd' ''web'') = mset rows \<and> length rows = 1"
proof -
  obtain nd' where run: "push_logs sample_ingest ''web'' (JObject sample_row) Json [(''u'', ''v'')] None sample_node = Some (nd', Inr ())"
    using sample_run by blast
  have stage: "stage_of sample_node ''web'' = fresh_stream" by (simp add: stage_of_def sample_node_def)
  have ok: "stage_ok sample_ingest (stage_of sample_node ''web'')" "\<not> query_mode (ie_staging sample_ingest)"
    "map_of (streams (nd_registry sample_node)) ''web'' = Some sample_meta"
    unfolding stage by (simp_all add: stage_ok_def fresh_stream_def sample_ingest_def sample_staging_def sample_node_def)
  have meta: "sm_time_partition_limit sample_meta = None" "sm_custom_partition sample_meta = None" "sm_schema_version sample_meta = V1"
    "nd_reference sample_node = None"
    by (simp_all add: sample_meta_def new_stream_meta_def sample_node_def)
  have "stored_rows (fresh_stream :: nat stream) = {#}" by (simp add: stored_rows_def fresh_stream_def)
  with request_stores_rows [OF run ok] meta sample_flat stage obtain evs where
    evs: "stored_rows (stage_of nd' ''web'') = mset (rows_of_events sample_ingest evs)" "length evs = 1"
    by auto
  then obtain ev where "evs = [ev]" by (auto simp: length_Suc_conv)
  then have "length (rows_of_events sample_ingest evs) = 1" by (simp add: rows_of_events_def sample_ingest_def)
  with run evs(1) show ?thesis by blast
qed

section \<open>Which streams a request reaches\<close>

lemma process_other:
  assumes "process env internal ev nd = Some (nd', res)" and "k \<noteq> ev_stream ev"
  shows "map_of (nd_stages nd') k = map_of (nd_stages nd) k"
proof -
  obtain r c where c: "(if ev_is_first ev then commit_stream_schema (ie_registry env) (ev_stream ev) (rb_schema (ev_rb ev)) (nd_registry nd)
      else (nd_registry nd, Inr ())) = (r, c)" by force
  show ?thesis
  proof (cases c)
    case (Inl e)
    with assms(1) c have "nd' = nd\<lparr>nd_registry := r\<rparr>" by (auto simp: process_def Let_def split: if_splits)
    then show ?thesis by simp
  next
    case (Inr u)
    with assms(1) c obtain st where
      "nd' = nd\<lparr>nd_registry := get_or_create (ev_stream ev) (default_meta env) r, nd_stages := AList.update (ev_stream ev) st (nd_stages nd)\<rparr>"
      by (auto simp: process_def Let_def split: if_splits)
    with assms(2) show ?thesis by (simp add: update_conv')
  qed
qed

lemma push_values_other:
  assumes "push_values env n static cp tp ver custom vs nd = Some (nd', res)" and "k \<noteq> n"
  shows "map_of (nd_stages nd') k = map_of (nd_stages nd) k"
  using assms
proof (induction vs arbitrary: nd)
  case (Cons v vs nd)
  then show ?case
    by (auto split: option.splits sum.splits prod.splits dest!: into_event_stream process_other [where k = k])
qed simp

lemma push_logs_other:
  assumes "push_logs env n body source custom tp nd = Some (nd', res)" and "k \<noteq> n"
  shows "map_of (nd_stages nd') k = map_of (nd_stages nd) k"
  using assms by (auto simp: push_logs_def split: option.splits prod.splits sum.splits dest!: push_values_other)

lemma push_records_other:
  assumes "push_records env n vs source custom tp nd = Some (nd', res)" and "k \<noteq> n"
  shows "map_of (nd_stages nd') k = map_of (nd_stages nd) k"
  using assms
  by (induction vs arbitrary: nd) (auto split: option.splits sum.splits dest!: push_logs_other)

lemma flatten_and_push_other:
  assumes "flatten_and_push_logs env body n source custom tp nd = Some (nd', res)" and "k \<noteq> n"
  shows "map_of (nd_stages nd') k = map_of (nd_stages nd) k"
  using assms
  by (auto simp: flatten_and_push_logs_def split: sum.splits if_splits option.splits
      dest!: push_logs_other push_records_other)

lemma flatten_and_push_needs:
  assumes "flatten_and_push_logs env body n source custom tp nd = Some (nd', res)" and "nd_stages nd' \<noteq> nd_stages nd"
  shows "\<exists>m. map_of (streams (nd_registry nd)) n = Some m \<and> length (sm_schema m) \<le> fields_allowed env"
  using assms
  by (auto simp: flatten_and_push_logs_def verify_dataset_fields_count_def split: option.splits if_splits)

lemma validated_stream:
  "validate_stream_for_ingestion n nd = Inr () \<Longrightarrow> \<exists>m. map_of (streams (nd_registry nd)) n = Some m \<and>
     list_ex (\<lambda>e. \<not> is_telemetry_source (log_source_format e)) (sm_log_source m) \<and> sm_time_partition m = None"
  by (auto simp: validate_stream_for_ingestion_def split: option.splits if_splits)

text \<open>How far a request of \<open>ingest\<close> gets: to the point where the stream exists and is checked, or not.\<close>

lemma ingest_cases:
  assumes "ingest env req body nd = Some (nd', res)"
  obtains (refused) "nd_stages nd' = nd_stages nd" "res \<noteq> Inr ()"
  | (pushed) n r b r2 body' custom entry where "map_of (rq_headers req) ''x-p-stream'' = Some (Some n)"
    "n \<notin> set (list_internal_streams nd)" "\<not> is_otel (source_of_request req)"
    "create_stream_if_not_exists (ie_registry env) n UserDefined None [entry] (telemetry_of_request req) (nd_registry nd) = (r, Inr b)"
    "validate_stream_for_ingestion n (nd\<lparr>nd_registry := r\<rparr>) = Inr ()"
    "add_update_log_source (ie_registry env) n entry r = Some (r2, Inr ())"
    "flatten_and_push_logs env body' n (source_of_request req) custom None (nd\<lparr>nd_registry := r2\<rparr>) = Some (nd', res)"
proof (cases "map_of (rq_headers req) ''x-p-stream''")
  case None
  with assms refused show ?thesis by (auto simp: ingest_def)
next
  case (Some on)
  show ?thesis
  proof (cases on)
    case None
    with assms Some show ?thesis by (simp add: ingest_def)
  next
    case n: (Some n)
    show ?thesis
    proof (cases "n \<in> set (list_internal_streams nd) \<or> is_otel (source_of_request req)")
      case True
      with assms Some n refused show ?thesis by (auto simp: ingest_def split: if_splits)
    next
      case False
      with assms Some n obtain out where out: "inline_fields env req body = Some out" by (auto simp: ingest_def split: option.splits)
      show ?thesis
      proof (cases out)
        case (Inl e)
        with assms Some n False out refused show ?thesis by (auto simp: ingest_def)
      next
        case (Inr q)
        obtain body' custom known where q: "q = (body', custom, known)" by (metis prod_cases3)
        let ?entry = "\<lparr>log_source_format = source_of_request req, lse_fields = known\<rparr>"
        obtain r c where c: "create_stream_if_not_exists (ie_registry env) n UserDefined None [?entry] (telemetry_of_request req)
            (nd_registry nd) = (r, c)" by force
        show ?thesis
        proof (cases c)
          case (Inl e)
          with assms Some n False out Inr q c have "nd' = nd\<lparr>nd_registry := r\<rparr>" "res = Inl (StreamFailed e)"
            by (simp_all add: ingest_def Let_def)
          with refused show ?thesis by simp
        next
          case b: (Inr b)
          show ?thesis
          proof (cases "validate_stream_for_ingestion n (nd\<lparr>nd_registry := r\<rparr>)")
            case (Inl e)
            with assms Some n False out Inr q c b have "nd' = nd\<lparr>nd_registry := r\<rparr>" "res = Inl e"
              by (simp_all add: ingest_def Let_def)
            with refused show ?thesis by simp
          next
            case ok: (Inr u)
            with assms Some n False out Inr q c b obtain r2 a where a: "add_update_log_source (ie_registry env) n ?entry r = Some (r2, a)"
              by (auto simp: ingest_def Let_def split: option.splits)
            show ?thesis
            proof (cases a)
              case (Inl e)
              with assms Some n False out Inr q c b ok a have "nd' = nd\<lparr>nd_registry := r2\<rparr>" "res = Inl (StreamFailed e)"
                by (simp_all add: ingest_def Let_def)
              with refused show ?thesis by simp
            next
              case u2: (Inr u2)
              with assms Some n False out Inr q c b ok a
              have "flatten_and_push_logs env body' n (source_of_request req) custom None (nd\<lparr>nd_registry := r2\<rparr>) = Some (nd', res)"
                by (simp add: ingest_def Let_def)
              with pushed Some n False c b ok a u2 show ?thesis by auto
            qed
          qed
        qed
      qed
    qed
  qed
qed

text \<open>A request of the general endpoint changes the staging of at most the stream its header names, and
  only when that is no internal stream, its format is not one of OpenTelemetry, and the stream, found or
  just created, has a source besides traces and metrics, no time partition, and not too many fields.\<close>

theorem ingest_reaches:
  assumes "ingest env req body nd = Some (nd', res)" and "map_of (nd_stages nd') k \<noteq> map_of (nd_stages nd) k"
  shows "map_of (rq_headers req) ''x-p-stream'' = Some (Some k) \<and> k \<notin> set (list_internal_streams nd) \<and>
    \<not> is_otel (source_of_request req) \<and>
    (\<exists>r b entry m r2 m2. create_stream_if_not_exists (ie_registry env) k UserDefined None [entry] (telemetry_of_request req) (nd_registry nd) = (r, Inr b) \<and>
      map_of (streams r) k = Some m \<and> sm_time_partition m = None \<and>
      list_ex (\<lambda>e. \<not> is_telemetry_source (log_source_format e)) (sm_log_source m) \<and>
      add_update_log_source (ie_registry env) k entry r = Some (r2, Inr ()) \<and>
      map_of (streams r2) k = Some m2 \<and> length (sm_schema m2) \<le> fields_allowed env)"
  using assms(1)
proof (cases rule: ingest_cases)
  case refused
  with assms(2) show ?thesis by simp
next
  case (pushed n r b r2 body' custom entry)
  then have k: "k = n" using flatten_and_push_other [OF pushed(7)] assms(2) by auto
  have "nd_stages nd' \<noteq> nd_stages (nd\<lparr>nd_registry := r2\<rparr>)" using assms(2) by auto
  from flatten_and_push_needs [OF pushed(7) this] obtain m2 where "map_of (streams r2) n = Some m2" "length (sm_schema m2) \<le> fields_allowed env"
    by auto
  moreover obtain m where "map_of (streams r) n = Some m" "list_ex (\<lambda>e. \<not> is_telemetry_source (log_source_format e)) (sm_log_source m)"
    "sm_time_partition m = None" using validated_stream [OF pushed(5)] by auto
  ultimately show ?thesis using pushed k by blast
qed

text \<open>Kinds of telemetry stay apart: a stream of which all sources are traces or metrics takes nothing from
  the general endpoint, and a stream without a source of traces (or metrics) takes nothing from the route of
  traces (or metrics).\<close>

theorem kinds_kept_apart:
  assumes "map_of (streams (nd_registry nd)) n = Some m"
    and "map_of (rq_headers req) ''x-p-stream'' = Some (Some n)"
  shows "(list_all (\<lambda>e. is_telemetry_source (log_source_format e)) (sm_log_source m) \<longrightarrow>
      (\<forall>nd' res. ingest env req body nd = Some (nd', res) \<longrightarrow> res \<noteq> Inr () \<and> nd_stages nd' = nd_stages nd)) \<and>
    (expected \<noteq> OtelLogs \<and> expected \<notin> log_source_format ` set (sm_log_source m) \<longrightarrow>
      (\<forall>nd' res. handle_otel_ingestion env req text expected known telemetry nd = Some (nd', res) \<longrightarrow>
         res \<noteq> Inr () \<and> nd_stages nd' = nd_stages nd))"
proof (intro conjI impI allI)
  fix nd' res
  assume tele: "list_all (\<lambda>e. is_telemetry_source (log_source_format e)) (sm_log_source m)"
    and run: "ingest env req body nd = Some (nd', res)"
  have "res \<noteq> Inr () \<and> nd_stages nd' = nd_stages nd"
    using run
  proof (cases rule: ingest_cases)
    case (pushed n' r b r2 body' custom entry)
    with assms have "n' = n" "r = nd_registry nd" by (simp_all add: create_stream_if_not_exists_def)
    with pushed(5) assms(1) tele have False
      by (auto simp: validate_stream_for_ingestion_def list_ex_iff list_all_iff split: if_splits)
    then show ?thesis by simp
  qed simp
  then show "res \<noteq> Inr ()" "nd_stages nd' = nd_stages nd" by simp_all
next
  fix nd' res
  assume other: "expected \<noteq> OtelLogs \<and> expected \<notin> log_source_format ` set (sm_log_source m)"
    and run: "handle_otel_ingestion env req text expected known telemetry nd = Some (nd', res)"
  have no: "\<not> otel_compatible expected (sm_log_source m)" using other by (auto simp: otel_compatible_def list_ex_iff)
  have "\<exists>e. setup_otel_stream env req expected known telemetry nd = Some (nd, Inl e)"
    if "setup_otel_stream env req expected known telemetry nd \<noteq> None"
    using that assms no
    by (auto simp: setup_otel_stream_def create_stream_if_not_exists_def Let_def split: option.splits)
  with run show "res \<noteq> Inr ()" "nd_stages nd' = nd_stages nd"
    by (auto simp: handle_otel_ingestion_def split: option.splits)
qed

definition traces_node :: "(nat, nat, nat) node" where
  "traces_node = \<lparr>nd_registry = \<lparr>streams = [(''web'', sample_meta\<lparr>sm_log_source := [\<lparr>log_source_format = OtelTraces, lse_fields = {}\<rparr>]\<rparr>)],
     formats = [], schemas = []\<rparr>, nd_stages = [], nd_reference = None\<rparr>"

definition web_request :: request where
  "web_request = \<lparr>rq_headers = [(''x-p-stream'', Some ''web'')], rq_user_agent = None, rq_source_ip = None\<rparr>"

lemma web_source: "source_of_request web_request = Json" "header_text web_request ''x-p-telemetry-type'' = None"
  by (simp_all add: source_of_request_def header_text_def web_request_def)

lemma web_custom: "custom_fields web_request = [(''p_user_agent'', []), (''p_src_ip'', [])]"
  by (simp add: custom_fields_def get_custom_fields_from_header_def web_request_def add_header_def ignore_headers_def
      max_custom_fields_def Let_def)

theorem kinds_kept_apart_witness:
  "\<exists>nd' res. ingest sample_ingest web_request (JObject []) traces_node = Some (nd', res) \<and> res \<noteq> Inr () \<and> nd_stages nd' = []"
proof -
  have m: "map_of (streams (nd_registry traces_node)) ''web'' =
      Some (sample_meta\<lparr>sm_log_source := [\<lparr>log_source_format = OtelTraces, lse_fields = {}\<rparr>]\<rparr>)"
    by (simp add: traces_node_def)
  have h: "map_of (rq_headers web_request) ''x-p-stream'' = Some (Some ''web'')" by (simp add: web_request_def)
  have "\<exists>out. ingest sample_ingest web_request (JObject []) traces_node = Some out"
    using h m
    by (simp add: ingest_def list_internal_streams_def inline_fields_def web_source is_otel_def
        create_stream_if_not_exists_def validate_stream_for_ingestion_def is_telemetry_source_def Let_def)
  then obtain nd' res where run: "ingest sample_ingest web_request (JObject []) traces_node = Some (nd', res)" by fast
  have "list_all (\<lambda>e. is_telemetry_source (log_source_format e))
      (sm_log_source (sample_meta\<lparr>sm_log_source := [\<lparr>log_source_format = OtelTraces, lse_fields = {}\<rparr>]\<rparr>))"
    by (simp add: is_telemetry_source_def)
  with kinds_kept_apart [OF m h] run have "res \<noteq> Inr ()" "nd_stages nd' = nd_stages traces_node" by blast+
  with run show ?thesis by (auto simp: traces_node_def)
qed

lemma web_batch:
  "\<exists>rb. into_recordbatch Event_Format.sample_env (JArray [JObject sample_row]) 0 sample_schema False None V1
     [(''p_user_agent'', []), (''p_src_ip'', [])] = Some (Inr (rb, False))"
proof -
  have "to_data Event_Format.sample_env (JArray [JObject sample_row]) sample_schema None V1 False =
      Some (Inr ([JObject sample_row], [Field ''a'' Float64 True, Field ''t'' Utf8 True], False))"
    by (simp add: event_defs)
  then show ?thesis
    by (simp add: into_recordbatch_def get_field_def default_timestamp_key_def is_schema_matching_def sample_schema_def
      update_field_type_in_schema_def decode_def Event_Format.sample_env_def add_parseable_fields_def rb_num_rows_def
      get_timestamp_array_def rb_try_new_def less_char_def)
qed

theorem ingest_reaches_witness:
  "\<exists>nd' res. ingest sample_ingest web_request (JObject sample_row) sample_node = Some (nd', res) \<and>
     map_of (nd_stages nd') ''web'' \<noteq> None \<and> \<not> is_otel (source_of_request web_request) \<and>
     ''web'' \<notin> set (list_internal_streams sample_node)"
proof -
  have h: "map_of (rq_headers web_request) ''x-p-stream'' = Some (Some ''web'')" by (simp add: web_request_def)
  obtain rb where rb: "into_recordbatch Event_Format.sample_env (JArray [JObject sample_row]) 0 sample_schema False None V1
     (custom_fields web_request) = Some (Inr (rb, False))" using web_batch by (auto simp: web_custom)
  from sample_run_with [OF rb] obtain nd' where
    push: "push_logs sample_ingest ''web'' (JObject sample_row) Json (custom_fields web_request) None sample_node = Some (nd', Inr ())"
    "map_of (nd_stages nd') ''web'' \<noteq> None" by blast
  have node: "sample_node\<lparr>nd_registry := nd_registry sample_node\<rparr> = sample_node" by (simp add: sample_node_def)
  have m: "map_of (streams (nd_registry sample_node)) ''web'' = Some sample_meta" by (simp add: sample_node_def)
  have meta: "sm_log_source sample_meta = [\<lparr>log_source_format = Json, lse_fields = {}\<rparr>]" "sm_time_partition sample_meta = None"
    "sm_stream_type sample_meta = UserDefined" "length (sm_schema sample_meta) \<le> fields_allowed sample_ingest"
    by (simp_all add: sample_meta_def new_stream_meta_def sample_schema_def sample_ingest_def)
  have internal: "list_internal_streams sample_node = []" using meta(3) by (simp add: list_internal_streams_def sample_node_def)
  have "ingest sample_ingest web_request (JObject sample_row) sample_node = Some (nd', Inr ())"
    using push(1) m meta
    by (simp add: ingest_def h internal inline_fields_def web_source is_otel_def create_stream_if_not_exists_def Let_def node
        validate_stream_for_ingestion_def is_telemetry_source_def add_update_log_source_def flatten_and_push_logs_def
        verify_dataset_fields_count_def del: node.simps)
  note run = this
  have "map_of (nd_stages sample_node) ''web'' = None" by (simp add: sample_node_def)
  with push(2) have "map_of (nd_stages nd') ''web'' \<noteq> map_of (nd_stages sample_node) ''web''" by simp
  with ingest_reaches [OF run] have "\<not> is_otel (source_of_request web_request)" "''web'' \<notin> set (list_internal_streams sample_node)" by blast+
  with run push(2) show ?thesis by blast
qed

end
