(* ===== verification/Otel_Values.thy ===== *)
theory Otel_Values
  imports Strict_Json Generic_Flatten
begin

text \<open>
  The values of OpenTelemetry messages and their conversion to fields (\<open>otel/otel_utils.rs\<close>). The
  message types are generated from the protocol; only the fields that the conversion reads are kept.
  A floating point number is \<open>None\<close> when it has no JSON form (an infinity or NaN). The text of bytes,
  of JSON and of times are parameters. A value the code unwraps although it is missing is a panic,
  the result \<open>None\<close>.
\<close>

section \<open>Messages\<close>

type_synonym u32 = "32 word"
type_synonym i32 = "32 word"
type_synonym f64 = "real option"

datatype otel_value =
    StringValue string
  | BoolValue bool
  | IntValue i64
  | DoubleValue f64
  | ArrayValue "otel_value option list"
  | KvlistValue "(string \<times> otel_value option option) list"
  | BytesValue "8 word list"

type_synonym any_value = "otel_value option"
type_synonym key_values = "(string \<times> any_value option) list"

record instrumentation_scope =
  scope_name :: string
  scope_version :: string
  scope_attributes :: key_values
  scope_dropped :: u32

record otel_resource =
  resource_attributes :: key_values
  resource_dropped :: u32

record otel_env =
  utf8_lossy :: "8 word list \<Rightarrow> string"
  write_json :: "json \<Rightarrow> string option"
  read_json :: "string \<Rightarrow> json option"
  hex_encode :: "8 word list \<Rightarrow> string"
  show_nanos :: "int \<Rightarrow> string"
  severity_name :: "int \<Rightarrow> string option"

section \<open>Inserting fields\<close>

definition put_all :: "jobject \<Rightarrow> jobject \<Rightarrow> jobject" where
  "put_all m es = fold (\<lambda>(k, v). AList.update k v) es m"

definition number_i32 :: "i32 \<Rightarrow> json" where
  "number_i32 i = JNumber (number_of_i64 (scast i))"

definition number_u32 :: "u32 \<Rightarrow> json" where
  "number_u32 n = JNumber (PosInt (ucast n))"

definition number_or_null :: "f64 \<Rightarrow> json" where
  "number_or_null d = (case d of Some x \<Rightarrow> JNumber (Float x) | None \<Rightarrow> JNull)"

definition insert_number_if_some :: "string \<Rightarrow> f64 option \<Rightarrow> jobject \<Rightarrow> jobject" where
  "insert_number_if_some k v m =
     (case v of Some (Some x) \<Rightarrow> AList.update k (JNumber (Float x)) m | _ \<Rightarrow> m)"

definition show_int :: "int \<Rightarrow> string" where
  "show_int i = (if i < 0 then ''-'' @ show_nat (nat (- i)) else show_nat (nat i))"

definition convert_epoch_nano_to_timestamp :: "otel_env \<Rightarrow> u64 \<Rightarrow> json" where
  "convert_epoch_nano_to_timestamp env t = JString (show_nanos env (sint t))"

section \<open>Values\<close>

text \<open>A list of pairs is not nested: its fields are inserted beside the others. An array becomes the
  text of a JSON array, in which lists of pairs are objects.\<close>

fun collect_json_from_value :: "otel_env \<Rightarrow> string \<Rightarrow> otel_value \<Rightarrow> jobject"
  and collect_json_from_array_value :: "otel_env \<Rightarrow> otel_value option list \<Rightarrow> json list"
  and collect_json_from_key_value_list ::
    "otel_env \<Rightarrow> jobject \<Rightarrow> (string \<times> otel_value option option) list \<Rightarrow> jobject"
where
  "collect_json_from_value env key (StringValue s) = [(key, JString s)]"
| "collect_json_from_value env key (BoolValue b) = [(key, JBool b)]"
| "collect_json_from_value env key (IntValue i) = [(key, JString (show_int (sint i)))]"
| "collect_json_from_value env key (DoubleValue d) =
     (case d of Some x \<Rightarrow> [(key, JNumber (Float x))] | None \<Rightarrow> [])"
| "collect_json_from_value env key (ArrayValue vs) =
     [(key, JString (case write_json env (JArray (collect_json_from_array_value env vs)) of
                       Some s \<Rightarrow> s | None \<Rightarrow> []))]"
| "collect_json_from_value env key (KvlistValue kvs) = put_all [] (collect_json_from_key_value_list env [] kvs)"
| "collect_json_from_value env key (BytesValue b) = [(key, JString (utf8_lossy env b))]"
| "collect_json_from_array_value env [] = []"
| "collect_json_from_array_value env (None # vs) = collect_json_from_array_value env vs"
| "collect_json_from_array_value env (Some v # vs) =
     (case v of
        StringValue s \<Rightarrow> [JString s]
      | BoolValue b \<Rightarrow> [JBool b]
      | IntValue i \<Rightarrow> [JNumber (number_of_i64 i)]
      | DoubleValue d \<Rightarrow> (case d of Some x \<Rightarrow> [JNumber (Float x)] | None \<Rightarrow> [])
      | BytesValue b \<Rightarrow> [JString (utf8_lossy env b)]
      | ArrayValue ws \<Rightarrow> [JArray (collect_json_from_array_value env ws)]
      | KvlistValue kvs \<Rightarrow> [JObject (collect_json_from_key_value_list env [] kvs)])
     @ collect_json_from_array_value env vs"
| "collect_json_from_key_value_list env m [] = m"
| "collect_json_from_key_value_list env m ((k, Some (Some v)) # kvs) =
     collect_json_from_key_value_list env (put_all m (collect_json_from_value env k v)) kvs"
| "collect_json_from_key_value_list env m ((k, Some None) # kvs) = collect_json_from_key_value_list env m kvs"
| "collect_json_from_key_value_list env m ((k, None) # kvs) = collect_json_from_key_value_list env m kvs"

definition collect_json_from_anyvalue :: "otel_env \<Rightarrow> string \<Rightarrow> any_value \<Rightarrow> jobject option" where
  "collect_json_from_anyvalue env key v = map_option (collect_json_from_value env key) v"

definition collect_json_from_values :: "otel_env \<Rightarrow> any_value option \<Rightarrow> string \<Rightarrow> jobject option" where
  "collect_json_from_values env v key =
     (case v of None \<Rightarrow> Some [] | Some a \<Rightarrow> collect_json_from_anyvalue env key a)"

fun flatten_attributes_into :: "otel_env \<Rightarrow> key_values \<Rightarrow> jobject \<Rightarrow> jobject option" where
  "flatten_attributes_into env [] m = Some m"
| "flatten_attributes_into env ((k, v) # kvs) m =
     do { es \<leftarrow> collect_json_from_values env v k; flatten_attributes_into env kvs (put_all m es) }"

definition flatten_attributes :: "otel_env \<Rightarrow> key_values \<Rightarrow> jobject option" where
  "flatten_attributes env kvs = flatten_attributes_into env kvs []"

definition insert_attributes :: "otel_env \<Rightarrow> key_values \<Rightarrow> jobject \<Rightarrow> jobject option" where
  "insert_attributes env kvs m = do { es \<leftarrow> flatten_attributes env kvs; Some (put_all m es) }"

definition insert_prefixed_attributes :: "otel_env \<Rightarrow> string \<Rightarrow> key_values \<Rightarrow> jobject \<Rightarrow> jobject option" where
  "insert_prefixed_attributes env p kvs m =
     do { es \<leftarrow> flatten_attributes env kvs; Some (put_all m (map (\<lambda>(k, v). (p @ k, v)) es)) }"

section \<open>Fields of scopes and resources\<close>

definition scope_fields :: "otel_env \<Rightarrow> instrumentation_scope option \<Rightarrow> jobject option" where
  "scope_fields env sc =
     (case sc of
        None \<Rightarrow> Some []
      | Some s \<Rightarrow>
          do { m \<leftarrow> insert_attributes env (scope_attributes s)
                      [(''scope_name'', JString (scope_name s)), (''scope_version'', JString (scope_version s))];
               Some (AList.update ''scope_dropped_attributes_count'' (number_u32 (scope_dropped s)) m) })"

definition resource_fields :: "otel_env \<Rightarrow> otel_resource option \<Rightarrow> jobject option" where
  "resource_fields env r =
     (case r of
        None \<Rightarrow> Some []
      | Some res \<Rightarrow>
          do { m \<leftarrow> insert_attributes env (resource_attributes res) [];
               Some (AList.update ''resource_dropped_attributes_count'' (number_u32 (resource_dropped res)) m) })"

section \<open>When the conversion is defined\<close>

definition attributes_ok :: "key_values \<Rightarrow> bool" where
  "attributes_ok kvs \<longleftrightarrow> (\<forall>v \<in> snd ` set kvs. v \<noteq> Some None)"

definition scope_ok :: "instrumentation_scope option \<Rightarrow> bool" where
  "scope_ok sc \<longleftrightarrow> (case sc of None \<Rightarrow> True | Some s \<Rightarrow> attributes_ok (scope_attributes s))"

definition resource_ok :: "otel_resource option \<Rightarrow> bool" where
  "resource_ok r \<longleftrightarrow> (case r of None \<Rightarrow> True | Some res \<Rightarrow> attributes_ok (resource_attributes res))"

named_theorems otel_defined \<open>when a part of the conversion is defined\<close>

lemma attributes_ok_simps [simp]:
  "attributes_ok []" "attributes_ok ((k, v) # kvs) \<longleftrightarrow> v \<noteq> Some None \<and> attributes_ok kvs"
  by (auto simp: attributes_ok_def)

lemma collect_values_defined [otel_defined]:
  "collect_json_from_values env v k = None \<longleftrightarrow> v = Some None"
  by (auto simp: collect_json_from_values_def collect_json_from_anyvalue_def split: option.splits)

lemma flatten_into_defined: "flatten_attributes_into env kvs m = None \<longleftrightarrow> \<not> attributes_ok kvs"
proof (induction kvs arbitrary: m)
  case (Cons kv kvs)
  obtain k v where kv: "kv = (k, v)" by force
  show ?case
    using Cons.IH collect_values_defined [of env v k] kv by (cases "collect_json_from_values env v k") auto
qed simp

lemma attributes_defined [otel_defined]:
  "flatten_attributes env kvs = None \<longleftrightarrow> \<not> attributes_ok kvs"
  "insert_attributes env kvs m = None \<longleftrightarrow> \<not> attributes_ok kvs"
  "insert_prefixed_attributes env p kvs m = None \<longleftrightarrow> \<not> attributes_ok kvs"
  by (simp_all add: flatten_attributes_def insert_attributes_def insert_prefixed_attributes_def bind_eq_None_conv
      flatten_into_defined)

lemma scope_defined [otel_defined]: "scope_fields env sc = None \<longleftrightarrow> \<not> scope_ok sc"
  by (simp add: scope_fields_def scope_ok_def bind_eq_None_conv attributes_defined split: option.splits)

lemma resource_defined [otel_defined]: "resource_fields env r = None \<longleftrightarrow> \<not> resource_ok r"
  by (simp add: resource_fields_def resource_ok_def bind_eq_None_conv attributes_defined split: option.splits)

section \<open>Maps and types of the fields\<close>

definition scalar :: "json \<Rightarrow> bool" where
  "scalar v \<longleftrightarrow> \<not> is_object v \<and> \<not> is_array v"

definition scalar_object :: "jobject \<Rightarrow> bool" where
  "scalar_object m \<longleftrightarrow> distinct_keys m \<and> (\<forall>v \<in> snd ` set m. scalar v)"

lemma scalar_simps [simp]:
  "scalar JNull" "scalar (JBool b)" "scalar (JNumber n)" "scalar (JString s)" "\<not> scalar (JArray vs)" "\<not> scalar (JObject m)"
  "scalar (number_i32 i)" "scalar (number_u32 u)" "scalar (number_or_null d)" "scalar (convert_epoch_nano_to_timestamp env t)"
  by (simp_all add: scalar_def number_i32_def number_u32_def number_or_null_def convert_epoch_nano_to_timestamp_def split: option.splits)

lemma put_all_simps [simp]: "put_all m [] = m" "put_all m ((k, v) # es) = put_all (AList.update k v m) es"
  by (simp_all add: put_all_def)

lemma distinct_put_all: "distinct_keys m \<Longrightarrow> distinct_keys (put_all m es)"
  unfolding put_all_def by (rule ordered_map.inv_fold_put)

lemma map_of_put_all:
  assumes "distinct_keys m" and "distinct_keys es"
  shows "map_of (put_all m es) = map_of m ++ map_of es"
proof -
  have "map_of (rev es) = map_of es"
    by (rule map_of_inject_set [THEN iffD2]) (simp_all add: assms(2) rev_map [symmetric])
  with ordered_map.get_fold_put [OF assms(1), of es] show ?thesis by (simp add: put_all_def)
qed

lemma set_put_all: "set (put_all m es) \<subseteq> set m \<union> set es"
proof (induction es arbitrary: m)
  case (Cons e es)
  then show ?case using set_AList_update [of "fst e" "snd e" m] by (cases e) fastforce
qed simp

lemma keys_put_all [simp]: "fst ` set (put_all m es) = fst ` set m \<union> fst ` set es"
proof (induction es arbitrary: m)
  case (Cons e es)
  show ?case by (cases e) (simp add: Cons.IH)
qed simp

lemma scalar_object_simps [simp]:
  "scalar_object []" "scalar_object [(k, v)] \<longleftrightarrow> scalar v"
  by (simp_all add: scalar_object_def)

lemma scalar_object_update: "scalar_object m \<Longrightarrow> scalar v \<Longrightarrow> scalar_object (AList.update k v m)"
  using set_AList_update [of k v m] by (fastforce simp: scalar_object_def distinct_update)

lemma scalar_put_all: "scalar_object m \<Longrightarrow> scalar_object es \<Longrightarrow> scalar_object (put_all m es)"
  using set_put_all [of m es] by (fastforce simp: scalar_object_def distinct_put_all)

lemma collect_scalar:
  "scalar_object (collect_json_from_value env k v)"
  "(vs :: otel_value option list) = vs"
  "scalar_object m \<Longrightarrow> scalar_object (collect_json_from_key_value_list env m kvs)"
  by (induction env k v and env vs and env m kvs
      rule: collect_json_from_value_collect_json_from_array_value_collect_json_from_key_value_list.induct)
    (auto intro: scalar_put_all split: option.splits)

lemma collect_values_scalar: "collect_json_from_values env v k = Some es \<Longrightarrow> scalar_object es"
  by (auto simp: collect_json_from_values_def collect_json_from_anyvalue_def collect_scalar split: option.splits)

lemma flatten_into_scalar:
  "flatten_attributes_into env kvs m = Some es \<Longrightarrow> scalar_object m \<Longrightarrow> scalar_object es"
proof (induction kvs arbitrary: m)
  case (Cons kv kvs)
  then show ?case by (cases kv) (auto simp: bind_eq_Some_conv dest!: collect_values_scalar intro: scalar_put_all)
qed simp

lemma attributes_scalar:
  "flatten_attributes env kvs = Some es \<Longrightarrow> scalar_object es"
  "insert_attributes env kvs m = Some m' \<Longrightarrow> scalar_object m \<Longrightarrow> scalar_object m'"
  using flatten_into_scalar [of env kvs "[]"]
  by (auto simp: flatten_attributes_def insert_attributes_def bind_eq_Some_conv intro: scalar_put_all)

lemma prefixed_scalar:
  assumes "insert_prefixed_attributes env p kvs m = Some m'" and "scalar_object m"
  shows "scalar_object m'"
proof -
  from assms(1) obtain es where es: "flatten_attributes env kvs = Some es"
    "m' = put_all m (map (\<lambda>(k, v). (p @ k, v)) es)"
    by (auto simp: insert_prefixed_attributes_def bind_eq_Some_conv)
  have keys: "map fst (map (\<lambda>(k, v). (p @ k, v)) es) = map ((@) p) (keys_of es)" by auto
  from attributes_scalar(1) [OF es(1)] have "scalar_object (map (\<lambda>(k, v). (p @ k, v)) es)"
    unfolding scalar_object_def keys by (auto simp: distinct_map inj_on_def)
  with assms(2) es(2) show ?thesis by (simp add: scalar_put_all)
qed

lemma scope_scalar: "scope_fields env sc = Some m \<Longrightarrow> scalar_object m"
  by (auto simp: scope_fields_def bind_eq_Some_conv scalar_object_def [of "[_, _]"]
      intro!: scalar_object_update dest!: attributes_scalar(2) split: option.splits)

lemma resource_scalar: "resource_fields env r = Some m \<Longrightarrow> scalar_object m"
  by (auto simp: resource_fields_def bind_eq_Some_conv
      intro!: scalar_object_update dest!: attributes_scalar(2) split: option.splits)


section \<open>Traversals\<close>

lemma those_None: "those xs = None \<longleftrightarrow> None \<in> set xs"
  by (induction xs) (auto split: option.splits)

lemma those_map_None: "(\<And>x. f x = None \<longleftrightarrow> \<not> P x) \<Longrightarrow> those (map f xs) = None \<longleftrightarrow> \<not> list_all P xs"
  by (force simp: those_None list_all_iff image_iff)

lemma those_map_rel: "those (map f xs) = Some ys \<Longrightarrow> list_all2 (\<lambda>x y. f x = Some y) xs ys"
  by (induction xs arbitrary: ys) (auto split: option.splits)

lemma those_map_mem:
  assumes "those (map f xs) = Some ys" and "y \<in> set ys"
  shows "\<exists>x \<in> set xs. f x = Some y"
  using those_map_rel [OF assms(1)] assms(2) by (induction rule: list_all2_induct) auto

lemma list_all2_concat_map:
  "list_all2 (\<lambda>x ys. list_all2 Q (g x) ys) xs yss \<Longrightarrow> list_all2 Q (concat (map g xs)) (concat yss)"
  by (induction rule: list_all2_induct) (auto intro: list_all2_appendI)

lemma bind_if_defined: "a = Some x \<Longrightarrow> Option.bind a f = f x"
  by simp

lemma scalar_arrays_empty: "scalar_object m \<Longrightarrow> obj_arrays_empty m"
proof -
  have "arrays_empty v" if "scalar v" for v using that by (cases v) simp_all
  then show "scalar_object m \<Longrightarrow> obj_arrays_empty m" by (auto simp: scalar_object_def obj_arrays_empty_def)
qed

lemma put_all_arrays_empty: "obj_arrays_empty m \<Longrightarrow> obj_arrays_empty es \<Longrightarrow> obj_arrays_empty (put_all m es)"
  using set_put_all [of m es] by (fastforce simp: obj_arrays_empty_def)

end
