(* ===== verification/Otel_Logs.thy ===== *)
theory Otel_Logs
  imports Otel_Values
begin

text \<open>
  The logs of OpenTelemetry (\<open>otel/logs.rs\<close>): every log record becomes one row with the fields of its
  scope, its own fields and those of its resource. The counter of collected logs is not modelled.
\<close>

section \<open>One record\<close>

record log_record =
  lr_time :: u64
  lr_observed :: u64
  lr_severity :: i32
  lr_body :: "any_value option"
  lr_attributes :: key_values
  lr_dropped :: u32
  lr_flags :: u32
  lr_span_id :: "8 word list"
  lr_trace_id :: "8 word list"

definition flatten_severity :: "otel_env \<Rightarrow> i32 \<Rightarrow> jobject option" where
  "flatten_severity env n =
     do { text \<leftarrow> severity_name env (sint n);
          Some [(''severity_number'', number_i32 n),
                (''severity_text'', JString (case strip_prefix ''SEVERITY_NUMBER_'' text of Some s \<Rightarrow> s | None \<Rightarrow> text))] }"

text \<open>A body that is the text of a JSON object adds the fields of the object.\<close>

definition prefixed_fields :: "string \<Rightarrow> json \<Rightarrow> jobject" where
  "prefixed_fields key row =
     (case row of JObject ob \<Rightarrow> map (\<lambda>(k, w). (key @ ''_'' @ k, w)) ob | _ \<Rightarrow> [])"

definition body_fields :: "otel_env \<Rightarrow> string \<Rightarrow> json \<Rightarrow> jobject" where
  "body_fields env key v =
     (case v of
        JString s \<Rightarrow>
          (case read_json env s of
             Some parsed \<Rightarrow>
               if is_object parsed
               then (case generic_flattening parsed of
                       Inr rows \<Rightarrow> concat (map (prefixed_fields key) rows)
                     | Inl _ \<Rightarrow> [])
               else []
           | None \<Rightarrow> [])
      | _ \<Rightarrow> [])"

definition insert_body :: "otel_env \<Rightarrow> jobject \<Rightarrow> jobject \<Rightarrow> jobject" where
  "insert_body env body m = fold (\<lambda>(k, v) m. put_all (AList.update k v m) (body_fields env k v)) body m"

definition flatten_log_record :: "otel_env \<Rightarrow> log_record \<Rightarrow> jobject option" where
  "flatten_log_record env lr =
     do { severity \<leftarrow> flatten_severity env (lr_severity lr);
          body \<leftarrow> collect_json_from_values env (lr_body lr) ''body'';
          m \<leftarrow> insert_attributes env (lr_attributes lr)
                (insert_body env body
                  (put_all [(''time_unix_nano'', convert_epoch_nano_to_timestamp env (lr_time lr)),
                            (''observed_time_unix_nano'', convert_epoch_nano_to_timestamp env (lr_observed lr))]
                    severity));
          Some (put_all m
            [(''log_record_dropped_attributes_count'', number_u32 (lr_dropped lr)),
             (''flags'', number_u32 (lr_flags lr)),
             (''span_id'', JString (hex_encode env (lr_span_id lr))),
             (''trace_id'', JString (hex_encode env (lr_trace_id lr)))]) }"

section \<open>Scopes and resources\<close>

record scope_logs =
  sl_scope :: "instrumentation_scope option"
  sl_records :: "log_record list"
  sl_schema_url :: string

record resource_logs =
  rl_resource :: "otel_resource option"
  rl_scope_logs :: "scope_logs list"
  rl_schema_url :: string

definition flatten_scope_log :: "otel_env \<Rightarrow> scope_logs \<Rightarrow> jobject list option" where
  "flatten_scope_log env sl =
     do { m \<leftarrow> scope_fields env (sl_scope sl);
          records \<leftarrow> those (map (flatten_log_record env) (sl_records sl));
          Some (map (put_all (AList.update ''scope_log_schema_url'' (JString (sl_schema_url sl)) m)) records) }"

definition process_resource_log :: "otel_env \<Rightarrow> resource_logs \<Rightarrow> json list option" where
  "process_resource_log env rl =
     do { m \<leftarrow> resource_fields env (rl_resource rl);
          scopes \<leftarrow> those (map (flatten_scope_log env) (rl_scope_logs rl));
          Some (map (\<lambda>row. JObject (put_all row (AList.update ''schema_url'' (JString (rl_schema_url rl)) m)))
                  (concat scopes)) }"

definition flatten_otel_logs :: "otel_env \<Rightarrow> resource_logs list \<Rightarrow> json list option" where
  "flatten_otel_logs env message = do { rows \<leftarrow> those (map (process_resource_log env) message); Some (concat rows) }"

section \<open>When the conversion is defined\<close>

definition record_ok :: "otel_env \<Rightarrow> log_record \<Rightarrow> bool" where
  "record_ok env lr \<longleftrightarrow> severity_name env (sint (lr_severity lr)) \<noteq> None \<and> lr_body lr \<noteq> Some None \<and>
     attributes_ok (lr_attributes lr)"

lemma record_defined: "flatten_log_record env lr = None \<longleftrightarrow> \<not> record_ok env lr"
  by (auto simp: flatten_log_record_def record_ok_def flatten_severity_def bind_eq_None_conv otel_defined)

lemma scope_log_defined:
  "flatten_scope_log env sl = None \<longleftrightarrow> \<not> (scope_ok (sl_scope sl) \<and> list_all (record_ok env) (sl_records sl))"
proof -
  have "those (map (flatten_log_record env) (sl_records sl)) = None \<longleftrightarrow> \<not> list_all (record_ok env) (sl_records sl)"
    using record_defined [of env] by (force simp: those_None list_all_iff image_iff)
  then show ?thesis by (auto simp: flatten_scope_log_def bind_eq_None_conv otel_defined)
qed

definition resource_log_ok :: "otel_env \<Rightarrow> resource_logs \<Rightarrow> bool" where
  "resource_log_ok env rl \<longleftrightarrow> resource_ok (rl_resource rl) \<and>
     list_all (\<lambda>sl. scope_ok (sl_scope sl) \<and> list_all (record_ok env) (sl_records sl)) (rl_scope_logs rl)"

lemma resource_log_defined: "process_resource_log env rl = None \<longleftrightarrow> \<not> resource_log_ok env rl"
proof -
  have "those (map (flatten_scope_log env) (rl_scope_logs rl)) = None \<longleftrightarrow>
      \<not> list_all (\<lambda>sl. scope_ok (sl_scope sl) \<and> list_all (record_ok env) (sl_records sl)) (rl_scope_logs rl)"
    using scope_log_defined [of env] by (force simp: those_None list_all_iff image_iff)
  then show ?thesis by (auto simp: process_resource_log_def resource_log_ok_def bind_eq_None_conv otel_defined)
qed

lemma logs_defined:
  "(flatten_otel_logs env message = None) = (\<not> list_all (resource_log_ok env) message)"
proof -
  have "those (map (process_resource_log env) message) = None \<longleftrightarrow> \<not> list_all (resource_log_ok env) message"
    using resource_log_defined [of env] by (force simp: those_None list_all_iff image_iff)
  then show ?thesis by (auto simp: flatten_otel_logs_def bind_eq_None_conv)
qed

text \<open>
  The conversion of a request with logs panics exactly when a record has a severity number outside
  the enumeration, or an attribute or a body is present without a value.
\<close>

theorem logs_converted_iff:
  "(flatten_otel_logs env message = None) = (\<not> list_all (resource_log_ok env) message)"
  by (rule logs_defined)

section \<open>The rows\<close>

definition log_sources :: "resource_logs list \<Rightarrow> (resource_logs \<times> scope_logs \<times> log_record) list" where
  "log_sources message =
     concat (map (\<lambda>rl. concat (map (\<lambda>sl. map (\<lambda>lr. (rl, sl, lr)) (sl_records sl)) (rl_scope_logs rl))) message)"

definition log_row :: "otel_env \<Rightarrow> resource_logs \<times> scope_logs \<times> log_record \<Rightarrow> json \<Rightarrow> bool" where
  "log_row env src row \<longleftrightarrow>
     (case src of (rl, sl, lr) \<Rightarrow>
        \<exists>s m r fields. scope_fields env (sl_scope sl) = Some s \<and> flatten_log_record env lr = Some m \<and>
          resource_fields env (rl_resource rl) = Some r \<and> row = JObject fields \<and> distinct_keys fields \<and>
          map_of fields = (map_of s)(''scope_log_schema_url'' \<mapsto> JString (sl_schema_url sl)) ++ map_of m ++
            (map_of r)(''schema_url'' \<mapsto> JString (rl_schema_url rl)))"

lemma insert_body_distinct: "distinct_keys m \<Longrightarrow> distinct_keys (insert_body env body m)"
  unfolding insert_body_def
  by (induction body arbitrary: m) (auto simp: distinct_put_all distinct_update)

lemma insert_distinct: "insert_attributes env kvs m = Some m' \<Longrightarrow> distinct_keys m \<Longrightarrow> distinct_keys m'"
  by (auto simp: insert_attributes_def bind_eq_Some_conv distinct_put_all)

lemma record_distinct: "flatten_log_record env lr = Some m \<Longrightarrow> distinct_keys m"
  unfolding flatten_log_record_def
  by (auto simp: bind_eq_Some_conv simp del: put_all_simps intro!: distinct_put_all insert_body_distinct
      dest!: insert_distinct)

lemma scalar_distinct: "scalar_object m \<Longrightarrow> distinct_keys m"
  by (simp add: scalar_object_def)

lemma process_resource_log_rows:
  assumes "process_resource_log env rl = Some rows"
  shows "list_all2 (log_row env) (concat (map (\<lambda>sl. map (\<lambda>lr. (rl, sl, lr)) (sl_records sl)) (rl_scope_logs rl))) rows"
proof -
  from assms obtain r scopes where r: "resource_fields env (rl_resource rl) = Some r"
    and scopes: "those (map (flatten_scope_log env) (rl_scope_logs rl)) = Some scopes"
    and rows: "rows = map (\<lambda>row. JObject (put_all row (AList.update ''schema_url'' (JString (rl_schema_url rl)) r))) (concat scopes)"
    by (auto simp: process_resource_log_def bind_eq_Some_conv)
  let ?res = "AList.update ''schema_url'' (JString (rl_schema_url rl)) r"
  have dres: "distinct_keys ?res" using scalar_distinct [OF resource_scalar [OF r]] by (simp add: distinct_update)
  have one: "log_row env (rl, sl, lr) (JObject (put_all (put_all (AList.update ''scope_log_schema_url'' (JString (sl_schema_url sl)) s) m) ?res))"
    if s: "scope_fields env (sl_scope sl) = Some s" and m: "flatten_log_record env lr = Some m" for sl lr s m
  proof -
    let ?s = "AList.update ''scope_log_schema_url'' (JString (sl_schema_url sl)) s"
    have ds: "distinct_keys ?s" using scalar_distinct [OF scope_scalar [OF s]] by (simp add: distinct_update)
    have "map_of (put_all (put_all ?s m) ?res) = map_of ?s ++ map_of m ++ map_of ?res"
      by (simp add: map_of_put_all distinct_put_all ds dres record_distinct [OF m])
    with s m r show ?thesis by (auto simp: log_row_def update_conv' distinct_put_all [OF distinct_put_all [OF ds]])
  qed
  have "list_all2 (\<lambda>sl ys. list_all2 (log_row env) (map (\<lambda>lr. (rl, sl, lr)) (sl_records sl)) (map (\<lambda>row. JObject (put_all row ?res)) ys))
      (rl_scope_logs rl) scopes"
    using those_map_rel [OF scopes]
  proof (rule list_all2_mono)
    fix sl ys assume "flatten_scope_log env sl = Some ys"
    then obtain s records where s: "scope_fields env (sl_scope sl) = Some s"
      and rec: "those (map (flatten_log_record env) (sl_records sl)) = Some records"
      and ys: "ys = map (put_all (AList.update ''scope_log_schema_url'' (JString (sl_schema_url sl)) s)) records"
      by (auto simp: flatten_scope_log_def bind_eq_Some_conv)
    show "list_all2 (log_row env) (map (\<lambda>lr. (rl, sl, lr)) (sl_records sl)) (map (\<lambda>row. JObject (put_all row ?res)) ys)"
      using those_map_rel [OF rec] unfolding ys by (auto simp: list_all2_map1 list_all2_map2 intro: list_all2_mono one [OF s])
  qed
  then have "list_all2 (\<lambda>sl ys. list_all2 (log_row env) (map (\<lambda>lr. (rl, sl, lr)) (sl_records sl)) ys)
      (rl_scope_logs rl) (map (map (\<lambda>row. JObject (put_all row ?res))) scopes)"
    by (simp add: list_all2_map2)
  from list_all2_concat_map [OF this] show ?thesis by (simp add: rows map_concat)
qed

lemma rows_by_source:
  assumes "flatten_otel_logs env message = Some rows"
  shows "list_all2 (log_row env) (log_sources message) rows"
proof -
  from assms obtain rss where "those (map (process_resource_log env) message) = Some rss" and rows: "rows = concat rss"
    by (auto simp: flatten_otel_logs_def bind_eq_Some_conv)
  from those_map_rel [OF this(1)]
  have "list_all2 (\<lambda>rl. list_all2 (log_row env) (concat (map (\<lambda>sl. map (\<lambda>lr. (rl, sl, lr)) (sl_records sl)) (rl_scope_logs rl)))) message rss"
    by (rule list_all2_mono) (rule process_resource_log_rows)
  from list_all2_concat_map [OF this] show ?thesis by (simp add: log_sources_def rows)
qed

text \<open>C13: 
  A request with logs gives one row for each record, in the order of the request; a field of a row
  is that of the resource, else that of the record, else that of the scope.
\<close>

theorem log_rows:
  assumes "flatten_otel_logs env message = Some rows"
  shows "list_all2 (log_row env) (log_sources message) rows"
  using assms by (rule rows_by_source)


section \<open>No array is left to flatten\<close>

lemma body_fields_arrays_empty: "obj_arrays_empty (body_fields env key v)"
proof -
  have "arrays_empty w"
    if "generic_flattening parsed = Inr rows" "JObject ob \<in> set rows" "(k, w) \<in> set ob" for parsed rows ob k w
  proof -
    from generic_arrays_empty(1) [of "JObject ob" parsed] that(1,2) have "arrays_empty (JObject ob)" by simp
    with that(3) show ?thesis by (force simp: arrays_empty.simps)
  qed
  then have rows: "arrays_empty w"
    if "generic_flattening parsed = Inr rows" "row \<in> set rows" "(k, w) \<in> set (prefixed_fields key row)" for parsed rows row k w
    using that by (cases row) (auto simp: prefixed_fields_def)
  have "arrays_empty w" if "(k, w) \<in> set (body_fields env key v)" for k w
  proof (cases v)
    case (JString s)
    with that show ?thesis
    proof (cases "read_json env s")
      case (Some parsed)
      then show ?thesis
      proof (cases "generic_flattening parsed")
        case (Inr rs)
        from that have "(k, w) \<in> set (if is_object parsed then concat (map (prefixed_fields key) rs) else [])"
          unfolding body_fields_def JString json.case Some option.case Inr sum.case .
        then have "(k, w) \<in> set (concat (map (prefixed_fields key) rs))" by (metis empty_iff empty_set)
        then obtain row where "row \<in> set rs" "(k, w) \<in> set (prefixed_fields key row)" unfolding set_concat set_map by blast
        with rows [OF Inr] show ?thesis by blast
      next
        case (Inl e)
        from that show ?thesis unfolding body_fields_def JString json.case Some option.case Inl sum.case by (simp split: if_splits)
      qed
    next
      case None
      from that show ?thesis unfolding body_fields_def JString json.case None option.case by simp
    qed
  qed (use that in \<open>simp_all add: body_fields_def\<close>)
  then show ?thesis unfolding obj_arrays_empty_def by fastforce
qed

lemma insert_body_arrays_empty:
  "scalar_object body \<Longrightarrow> obj_arrays_empty m \<Longrightarrow> obj_arrays_empty (insert_body env body m)"
proof -
  have "obj_arrays_empty body \<Longrightarrow> obj_arrays_empty m \<Longrightarrow> obj_arrays_empty (insert_body env body m)"
    unfolding insert_body_def
  proof (induction body arbitrary: m)
    case (Cons e body)
    then show ?case
      by (cases e) (simp add: put_all_arrays_empty obj_arrays_empty_update body_fields_arrays_empty obj_arrays_empty_def [of "_ # _"]
          obj_arrays_empty_def [of body])
  qed simp
  then show "scalar_object body \<Longrightarrow> obj_arrays_empty m \<Longrightarrow> obj_arrays_empty (insert_body env body m)"
    using scalar_arrays_empty by blast
qed

lemma insert_arrays_empty:
  "insert_attributes env kvs m = Some m' \<Longrightarrow> obj_arrays_empty m \<Longrightarrow> obj_arrays_empty m'"
  using attributes_scalar(1) [of env kvs]
  by (auto simp: insert_attributes_def bind_eq_Some_conv intro!: put_all_arrays_empty intro: scalar_arrays_empty)

lemma record_arrays_empty:
  assumes "flatten_log_record env lr = Some fs"
  shows "obj_arrays_empty fs"
proof -
  from assms obtain severity body m where sev: "flatten_severity env (lr_severity lr) = Some severity"
    and body: "collect_json_from_values env (lr_body lr) ''body'' = Some body"
    and m: "insert_attributes env (lr_attributes lr) (insert_body env body
        (put_all [(''time_unix_nano'', convert_epoch_nano_to_timestamp env (lr_time lr)),
          (''observed_time_unix_nano'', convert_epoch_nano_to_timestamp env (lr_observed lr))] severity)) = Some m"
    and fs: "fs = put_all m [(''log_record_dropped_attributes_count'', number_u32 (lr_dropped lr)),
        (''flags'', number_u32 (lr_flags lr)), (''span_id'', JString (hex_encode env (lr_span_id lr))),
        (''trace_id'', JString (hex_encode env (lr_trace_id lr)))]"
    by (auto simp: flatten_log_record_def bind_eq_Some_conv simp del: put_all_simps)
  have "obj_arrays_empty severity"
    using sev unfolding obj_arrays_empty_def by (auto simp: flatten_severity_def bind_eq_Some_conv simp: number_i32_def)
  then have "obj_arrays_empty m"
    by (intro insert_arrays_empty [OF m] insert_body_arrays_empty [OF collect_values_scalar [OF body]] put_all_arrays_empty)
      (simp_all add: scalar_arrays_empty scalar_object_def)
  then show ?thesis
    unfolding fs by (rule put_all_arrays_empty) (simp add: scalar_arrays_empty scalar_object_def)
qed

lemma row_arrays_empty:
  assumes "log_row env src (JObject fs)"
  shows "obj_arrays_empty fs"
proof -
  obtain rl sl lr where src: "src = (rl, sl, lr)" by (cases src)
  from assms [unfolded log_row_def src] obtain s m r where m: "scope_fields env (sl_scope sl) = Some s" "flatten_log_record env lr = Some m"
    "resource_fields env (rl_resource rl) = Some r" "distinct_keys fs"
    and fs: "map_of fs = (map_of s)(''scope_log_schema_url'' \<mapsto> JString (sl_schema_url sl)) ++ map_of m ++
      (map_of r)(''schema_url'' \<mapsto> JString (rl_schema_url rl))"
    unfolding prod.case json.inject by blast
  have parts: "obj_arrays_empty s" "obj_arrays_empty m" "obj_arrays_empty r"
    using scalar_arrays_empty [OF scope_scalar [OF m(1)]] record_arrays_empty [OF m(2)]
      scalar_arrays_empty [OF resource_scalar [OF m(3)]] by simp_all
  have "arrays_empty v" if "(k, v) \<in> set fs" for k v
  proof -
    from that m(4) have "map_of fs k = Some v" by simp
    then have "v = JString (rl_schema_url rl) \<or> v = JString (sl_schema_url sl) \<or> v \<in> snd ` set s \<or> v \<in> snd ` set m \<or> v \<in> snd ` set r"
      unfolding fs by (auto simp: map_add_Some_iff split: if_splits dest!: map_of_SomeD intro: rev_image_eqI)
    with parts show ?thesis by (auto simp: obj_arrays_empty_def)
  qed
  then show ?thesis by (force simp: obj_arrays_empty_def)
qed

text \<open>
  No field of a converted log holds an array with elements, not even a field taken from a body that
  is the text of a JSON object.
\<close>

theorem log_fields_without_arrays:
  assumes "flatten_otel_logs env message = Some rows" and "row \<in> set rows"
  shows "is_object row \<and> arrays_empty row"
proof -
  obtain i where "i < length rows" "row = rows ! i" using assms(2) by (auto simp: in_set_conv_nth)
  with rows_by_source [OF assms(1)] obtain src where src: "log_row env src row"
    by (blast dest: list_all2_nthD2)
  then obtain fs where row: "row = JObject fs" by (auto simp: log_row_def split: prod.splits)
  with src row_arrays_empty [of env src fs] show ?thesis by (simp del: arrays_empty.simps)
qed

section \<open>Examples\<close>

definition sample_otel :: otel_env where
  "sample_otel = \<lparr>utf8_lossy = (\<lambda>_. []), write_json = (\<lambda>_. None), read_json = (\<lambda>_. None), hex_encode = (\<lambda>_. []),
     show_nanos = (\<lambda>_. ''t''), severity_name = (\<lambda>n. if n = 9 then Some ''SEVERITY_NUMBER_INFO'' else None)\<rparr>"

definition sample_log :: log_record where
  "sample_log = \<lparr>lr_time = 0, lr_observed = 0, lr_severity = 9, lr_body = Some (Some (StringValue ''up'')),
     lr_attributes = [(''host'', Some (Some (StringValue ''a'')))], lr_dropped = 0, lr_flags = 0, lr_span_id = [], lr_trace_id = []\<rparr>"

definition sample_logs :: "resource_logs list" where
  "sample_logs = [\<lparr>rl_resource = Some \<lparr>resource_attributes = [(''host'', Some (Some (StringValue ''b'')))], resource_dropped = 0\<rparr>,
     rl_scope_logs = [\<lparr>sl_scope = None, sl_records = [sample_log], sl_schema_url = []\<rparr>], rl_schema_url = []\<rparr>]"

lemmas sample_logs_defs = sample_logs_def sample_log_def sample_otel_def resource_log_ok_def record_ok_def resource_ok_def scope_ok_def

lemma sample_logs_run: "\<exists>rows. flatten_otel_logs sample_otel sample_logs = Some rows"
proof -
  have "list_all (resource_log_ok sample_otel) sample_logs" by (simp add: sample_logs_defs)
  with logs_defined [of sample_otel sample_logs] show ?thesis by auto
qed

theorem log_rows_witness:
  "\<exists>fs. flatten_otel_logs sample_otel sample_logs = Some [JObject fs] \<and> map_of fs ''host'' = Some (JString ''b'') \<and>
     map_of fs ''severity_text'' = Some (JString ''INFO'')"
proof -
  obtain rows where run: "flatten_otel_logs sample_otel sample_logs = Some rows" using sample_logs_run by blast
  have src: "log_sources sample_logs = [(hd sample_logs, hd (rl_scope_logs (hd sample_logs)), sample_log)]"
    by (simp add: log_sources_def sample_logs_def)
  obtain row where rows: "rows = [row]" and row: "log_row sample_otel (hd sample_logs, hd (rl_scope_logs (hd sample_logs)), sample_log) row"
    using log_rows [OF run] unfolding src by (auto simp: list_all2_Cons1)
  have rec: "flatten_log_record sample_otel sample_log = Some
    [(''time_unix_nano'', JString ''t''), (''observed_time_unix_nano'', JString ''t''), (''severity_number'', number_i32 9),
     (''severity_text'', JString ''INFO''), (''body'', JString ''up''), (''host'', JString ''a''),
     (''log_record_dropped_attributes_count'', number_u32 0), (''flags'', number_u32 0), (''span_id'', JString []), (''trace_id'', JString [])]"
    by (simp add: flatten_log_record_def sample_log_def flatten_severity_def sample_otel_def strip_prefix_def insert_attributes_def
        flatten_attributes_def collect_json_from_values_def collect_json_from_anyvalue_def insert_body_def body_fields_def
        convert_epoch_nano_to_timestamp_def)
  from row rec obtain fs where fs: "row = JObject fs" "map_of fs ''host'' = Some (JString ''b'')"
      "map_of fs ''severity_text'' = Some (JString ''INFO'')"
    by (auto simp: log_row_def sample_logs_def resource_fields_def scope_fields_def insert_attributes_def
        flatten_attributes_def collect_json_from_values_def collect_json_from_anyvalue_def)
  with run rows show ?thesis by blast
qed

theorem log_fields_without_arrays_witness:
  "\<exists>row. flatten_otel_logs sample_otel sample_logs = Some [row] \<and> is_object row \<and> arrays_empty row"
proof -
  obtain rows where run: "flatten_otel_logs sample_otel sample_logs = Some rows" using sample_logs_run by blast
  have "length rows = 1"
    using run by (auto simp: flatten_otel_logs_def sample_logs_def process_resource_log_def flatten_scope_log_def
        bind_eq_Some_conv split: option.splits)
  then obtain row where rows: "rows = [row]" by (auto simp: length_Suc_conv)
  with log_fields_without_arrays [OF run, of row] run show ?thesis by simp
qed


section \<open>Known fields\<close>

definition otel_log_known_field_list :: "string list" where
  "otel_log_known_field_list =
     [''scope_name'', ''scope_version'', ''scope_log_schema_url'', ''scope_dropped_attributes_count'',
      ''resource_dropped_attributes_count'', ''schema_url'', ''time_unix_nano'', ''observed_time_unix_nano'',
      ''severity_number'', ''severity_text'', ''body'', ''flags'', ''log_record_dropped_attributes_count'',
      ''span_id'', ''trace_id'', ''event_name'']"

text \<open>
  A log record without attributes, whose body is a text that is not JSON, has known fields only.
\<close>

theorem log_fields_known:
  assumes "flatten_log_record env lr = Some m" and "lr_attributes lr = []"
    and "lr_body lr = Some (Some (StringValue s))" and "read_json env s = None"
  shows "fst ` set m \<subseteq> set otel_log_known_field_list"
  using assms
  by (auto simp: flatten_log_record_def flatten_severity_def bind_eq_Some_conv insert_attributes_def flatten_attributes_def
      collect_json_from_values_def collect_json_from_anyvalue_def insert_body_def body_fields_def otel_log_known_field_list_def)

theorem log_fields_known_witness:
  "\<exists>m. flatten_log_record sample_otel (sample_log\<lparr>lr_attributes := []\<rparr>) = Some m \<and> fst ` set m \<subseteq> set otel_log_known_field_list"
proof -
  have "record_ok sample_otel (sample_log\<lparr>lr_attributes := []\<rparr>)" by (simp add: sample_logs_defs)
  with record_defined [of sample_otel "sample_log\<lparr>lr_attributes := []\<rparr>"] obtain m where
    m: "flatten_log_record sample_otel (sample_log\<lparr>lr_attributes := []\<rparr>) = Some m" by auto
  have "lr_body (sample_log\<lparr>lr_attributes := []\<rparr>) = Some (Some (StringValue ''up''))" "read_json sample_otel ''up'' = None"
    by (simp_all add: sample_log_def sample_otel_def)
  with log_fields_known [OF m] m show ?thesis by simp
qed

end
