(* ===== verification/Otel_Traces.thy ===== *)
theory Otel_Traces
  imports Otel_Values
begin

text \<open>
  The traces of OpenTelemetry (\<open>otel/traces.rs\<close>): a span becomes one row for each of its events and
  links, or one row when it has none. The counter of collected spans is not modelled.
\<close>

section \<open>Spans\<close>

record span_event =
  se_time :: u64
  se_name :: string
  se_attributes :: key_values
  se_dropped :: u32

record span_link =
  sk_span_id :: "8 word list"
  sk_trace_id :: "8 word list"
  sk_attributes :: key_values
  sk_dropped :: u32

record span_status =
  st_message :: string
  st_code :: i32

record trace_span =
  sp_trace_id :: "8 word list"
  sp_span_id :: "8 word list"
  sp_trace_state :: string
  sp_parent :: "8 word list"
  sp_flags :: u32
  sp_name :: string
  sp_kind :: i32
  sp_start :: u64
  sp_end :: u64
  sp_attributes :: key_values
  sp_dropped :: u32
  sp_events :: "span_event list"
  sp_dropped_events :: u32
  sp_links :: "span_link list"
  sp_dropped_links :: u32
  sp_status :: "span_status option"

definition saturating_sub :: "u64 \<Rightarrow> u64 \<Rightarrow> u64" where
  "saturating_sub a b = (if b \<le> a then a - b else 0)"

definition flatten_event :: "otel_env \<Rightarrow> u64 \<Rightarrow> span_event \<Rightarrow> jobject option" where
  "flatten_event env start e =
     do { m \<leftarrow> insert_prefixed_attributes env ''event_'' (se_attributes e)
            [(''event_time_unix_nano'', convert_epoch_nano_to_timestamp env (se_time e)),
             (''event_time_unix_nano_epoch'', JNumber (PosInt (se_time e))),
             (''event_name'', JString (se_name e)),
             (''event_duration_ns'', JNumber (PosInt (saturating_sub (se_time e) start)))];
          Some (AList.update ''event_dropped_attributes_count'' (number_u32 (se_dropped e)) m) }"

definition flatten_link :: "otel_env \<Rightarrow> span_link \<Rightarrow> jobject option" where
  "flatten_link env l =
     do { m \<leftarrow> insert_prefixed_attributes env ''link_'' (sk_attributes l)
            [(''link_span_id'', JString (hex_encode env (sk_span_id l))),
             (''link_trace_id'', JString (hex_encode env (sk_trace_id l)))];
          Some (AList.update ''link_dropped_attributes_count'' (number_u32 (sk_dropped l)) m) }"

definition status_text :: "int \<Rightarrow> string" where
  "status_text c = (if c = 0 then ''UNSET'' else if c = 1 then ''OK'' else if c = 2 then ''ERROR'' else [])"

definition flatten_status :: "span_status \<Rightarrow> jobject" where
  "flatten_status s =
     [(''span_status_message'', JString (st_message s)), (''span_status_code'', number_i32 (st_code s)),
      (''span_status_description'', JString (status_text (sint (st_code s))))]"

definition flags_text :: "int \<Rightarrow> string" where
  "flags_text f = (if f = 0 then ''DO_NOT_USE'' else if f = 255 then ''TRACE_FLAGS_MASK''
     else if f = 256 then ''CONTEXT_HAS_IS_REMOTE_MASK'' else if f = 512 then ''CONTEXT_IS_REMOTE_MASK'' else [])"

definition flatten_flags :: "u32 \<Rightarrow> jobject" where
  "flatten_flags f =
     [(''span_flags'', number_u32 f), (''span_flags_description'', JString (flags_text (uint f)))]"

definition kind_text :: "int \<Rightarrow> string" where
  "kind_text k = (if k = 0 then ''UNSPECIFIED'' else if k = 1 then ''INTERNAL'' else if k = 2 then ''SERVER''
     else if k = 3 then ''CLIENT'' else if k = 4 then ''PRODUCER'' else if k = 5 then ''CONSUMER'' else [])"

definition flatten_kind :: "i32 \<Rightarrow> jobject" where
  "flatten_kind k = [(''span_kind'', number_i32 k), (''span_kind_description'', JString (kind_text (sint k)))]"

text \<open>The fields of a span without those of its events and links.\<close>

definition span_first_fields :: "otel_env \<Rightarrow> trace_span \<Rightarrow> jobject" where
  "span_first_fields env sp =
     [(''span_trace_id'', JString (hex_encode env (sp_trace_id sp))),
      (''span_span_id'', JString (hex_encode env (sp_span_id sp))),
      (''span_trace_state'', JString (sp_trace_state sp)),
      (''span_parent_span_id'', JString (hex_encode env (sp_parent sp)))] @
     flatten_flags (sp_flags sp) @
     [(''span_name'', JString (sp_name sp))] @
     flatten_kind (sp_kind sp) @
     [(''span_start_time_unix_nano'', convert_epoch_nano_to_timestamp env (sp_start sp)),
      (''span_start_time_unix_nano_epoch'', JNumber (PosInt (sp_start sp))),
      (''span_end_time_unix_nano'', convert_epoch_nano_to_timestamp env (sp_end sp)),
      (''span_end_time_unix_nano_epoch'', JNumber (PosInt (sp_end sp))),
      (''span_duration_ns'', JNumber (PosInt (saturating_sub (sp_end sp) (sp_start sp))))]"

definition span_last_fields :: "trace_span \<Rightarrow> jobject" where
  "span_last_fields sp =
     [(''span_dropped_attributes_count'', number_u32 (sp_dropped sp)),
      (''span_dropped_events_count'', number_u32 (sp_dropped_events sp)),
      (''span_dropped_links_count'', number_u32 (sp_dropped_links sp))] @
     (case sp_status sp of None \<Rightarrow> [] | Some s \<Rightarrow> flatten_status s)"

definition span_fields :: "otel_env \<Rightarrow> trace_span \<Rightarrow> jobject option" where
  "span_fields env sp =
     do { m \<leftarrow> insert_attributes env (sp_attributes sp) (span_first_fields env sp);
          Some (put_all m (span_last_fields sp)) }"

definition flatten_span_record :: "otel_env \<Rightarrow> trace_span \<Rightarrow> jobject list option" where
  "flatten_span_record env sp =
     do { m \<leftarrow> span_fields env sp;
          events \<leftarrow> those (map (flatten_event env (sp_start sp)) (sp_events sp));
          links \<leftarrow> those (map (flatten_link env) (sp_links sp));
          Some (if events @ links = [] then [m] else map (\<lambda>part. put_all part m) (events @ links)) }"

section \<open>Scopes and resources\<close>

record scope_spans =
  ss_scope :: "instrumentation_scope option"
  ss_spans :: "trace_span list"
  ss_schema_url :: string

record resource_spans =
  rs_resource :: "otel_resource option"
  rs_scope_spans :: "scope_spans list"
  rs_schema_url :: string

definition flatten_scope_span :: "otel_env \<Rightarrow> scope_spans \<Rightarrow> jobject list option" where
  "flatten_scope_span env ss =
     do { spans \<leftarrow> those (map (flatten_span_record env) (ss_spans ss));
          m \<leftarrow> scope_fields env (ss_scope ss);
          Some (map (\<lambda>row. AList.update ''scope_schema_url'' (JString (ss_schema_url ss)) (put_all row m)) (concat spans)) }"

definition process_resource_span :: "otel_env \<Rightarrow> resource_spans \<Rightarrow> json list option" where
  "process_resource_span env rs =
     do { m \<leftarrow> resource_fields env (rs_resource rs);
          scopes \<leftarrow> those (map (flatten_scope_span env) (rs_scope_spans rs));
          Some (map (\<lambda>row. JObject (put_all row (AList.update ''resource_schema_url'' (JString (rs_schema_url rs)) m)))
                  (concat scopes)) }"

definition flatten_otel_traces :: "otel_env \<Rightarrow> resource_spans list \<Rightarrow> json list option" where
  "flatten_otel_traces env message = do { rows \<leftarrow> those (map (process_resource_span env) message); Some (concat rows) }"

section \<open>When the conversion is defined\<close>

definition span_ok :: "trace_span \<Rightarrow> bool" where
  "span_ok sp \<longleftrightarrow> attributes_ok (sp_attributes sp) \<and> list_all (\<lambda>e. attributes_ok (se_attributes e)) (sp_events sp) \<and>
     list_all (\<lambda>l. attributes_ok (sk_attributes l)) (sp_links sp)"

definition resource_span_ok :: "resource_spans \<Rightarrow> bool" where
  "resource_span_ok rs \<longleftrightarrow> resource_ok (rs_resource rs) \<and>
     list_all (\<lambda>ss. scope_ok (ss_scope ss) \<and> list_all span_ok (ss_spans ss)) (rs_scope_spans rs)"

lemma span_defined: "flatten_span_record env sp = None \<longleftrightarrow> \<not> span_ok sp"
proof -
  have "flatten_event env (sp_start sp) e = None \<longleftrightarrow> \<not> attributes_ok (se_attributes e)" for e
    by (simp add: flatten_event_def bind_eq_None_conv otel_defined)
  note events = those_map_None [where xs = "sp_events sp", OF this]
  have "flatten_link env l = None \<longleftrightarrow> \<not> attributes_ok (sk_attributes l)" for l
    by (simp add: flatten_link_def bind_eq_None_conv otel_defined)
  note links = those_map_None [where xs = "sp_links sp", OF this]
  show ?thesis
    by (auto simp: flatten_span_record_def span_fields_def span_ok_def bind_eq_None_conv events links otel_defined)
qed

lemma traces_defined: "flatten_otel_traces env message = None \<longleftrightarrow> \<not> list_all resource_span_ok message"
proof -
  have scope: "flatten_scope_span env ss = None \<longleftrightarrow> \<not> (scope_ok (ss_scope ss) \<and> list_all span_ok (ss_spans ss))" for ss
    by (auto simp: flatten_scope_span_def bind_eq_None_conv otel_defined those_map_None [where P = span_ok, OF span_defined])
  have resource: "process_resource_span env rs = None \<longleftrightarrow> \<not> resource_span_ok rs" for rs
    by (auto simp: process_resource_span_def resource_span_ok_def bind_eq_None_conv otel_defined
        those_map_None [where P = "\<lambda>ss. scope_ok (ss_scope ss) \<and> list_all span_ok (ss_spans ss)", OF scope])
  show ?thesis
    by (simp add: flatten_otel_traces_def bind_eq_None_conv those_map_None [where P = resource_span_ok, OF resource])
qed

text \<open>
  The conversion of a request with traces panics exactly when an attribute of a resource, scope,
  span, event or link is present without a value.
\<close>

theorem traces_converted_iff:
  "(flatten_otel_traces env message = None) = (\<not> list_all resource_span_ok message)"
  by (rule traces_defined)

section \<open>The rows\<close>

datatype span_part = SpanOnly | SpanEvent span_event | SpanLink span_link

definition span_parts :: "trace_span \<Rightarrow> span_part list" where
  "span_parts sp =
     (if sp_events sp = [] \<and> sp_links sp = [] then [SpanOnly]
      else map SpanEvent (sp_events sp) @ map SpanLink (sp_links sp))"

definition part_fields :: "otel_env \<Rightarrow> trace_span \<Rightarrow> span_part \<Rightarrow> jobject option" where
  "part_fields env sp p =
     (case p of SpanOnly \<Rightarrow> Some [] | SpanEvent e \<Rightarrow> flatten_event env (sp_start sp) e | SpanLink l \<Rightarrow> flatten_link env l)"

definition trace_sources :: "resource_spans list \<Rightarrow> (resource_spans \<times> scope_spans \<times> trace_span \<times> span_part) list" where
  "trace_sources message =
     concat (map (\<lambda>rs. concat (map (\<lambda>ss. concat (map (\<lambda>sp. map (\<lambda>p. (rs, ss, sp, p)) (span_parts sp)) (ss_spans ss)))
       (rs_scope_spans rs))) message)"

definition span_row :: "otel_env \<Rightarrow> trace_span \<Rightarrow> span_part \<Rightarrow> jobject \<Rightarrow> bool" where
  "span_row env sp p row \<longleftrightarrow>
     (\<exists>part m. part_fields env sp p = Some part \<and> span_fields env sp = Some m \<and> distinct_keys row \<and>
        map_of row = map_of part ++ map_of m)"

definition trace_row :: "otel_env \<Rightarrow> resource_spans \<times> scope_spans \<times> trace_span \<times> span_part \<Rightarrow> json \<Rightarrow> bool" where
  "trace_row env src row \<longleftrightarrow>
     (case src of (rs, ss, sp, p) \<Rightarrow>
        \<exists>part m s r fs. part_fields env sp p = Some part \<and> span_fields env sp = Some m \<and>
          scope_fields env (ss_scope ss) = Some s \<and> resource_fields env (rs_resource rs) = Some r \<and>
          row = JObject fs \<and> distinct_keys fs \<and>
          map_of fs = (map_of part ++ map_of m ++ map_of s)(''scope_schema_url'' \<mapsto> JString (ss_schema_url ss)) ++
            (map_of r)(''resource_schema_url'' \<mapsto> JString (rs_schema_url rs)))"

lemma span_distinct: "span_fields env sp = Some m \<Longrightarrow> distinct_keys m"
  unfolding span_fields_def
  by (auto simp: bind_eq_Some_conv insert_attributes_def span_first_fields_def flatten_flags_def flatten_kind_def
      simp del: put_all_simps intro!: distinct_put_all)

lemma part_scalar: "part_fields env sp p = Some m \<Longrightarrow> scalar_object m"
  by (auto simp: part_fields_def flatten_event_def flatten_link_def bind_eq_Some_conv
      intro!: scalar_object_update dest!: prefixed_scalar [OF _ scalar_object_def [THEN iffD2]] split: span_part.splits)


lemma span_rows:
  assumes "flatten_span_record env sp = Some rows"
  shows "list_all2 (span_row env sp) (span_parts sp) rows"
proof -
  from assms obtain m events links where m: "span_fields env sp = Some m"
    and events: "those (map (flatten_event env (sp_start sp)) (sp_events sp)) = Some events"
    and links: "those (map (flatten_link env) (sp_links sp)) = Some links"
    and rows: "rows = (if events @ links = [] then [m] else map (\<lambda>part. put_all part m) (events @ links))"
    by (auto simp: flatten_span_record_def bind_eq_Some_conv)
  have one: "span_row env sp p (put_all part m)" if "part_fields env sp p = Some part" for p part
  proof -
    have "distinct_keys part" using part_scalar [OF that] by (simp add: scalar_object_def)
    with span_distinct [OF m] that m show ?thesis by (auto simp: span_row_def distinct_put_all map_of_put_all)
  qed
  have "list_all2 (\<lambda>p row. span_row env sp p (put_all row m)) (map SpanEvent (sp_events sp)) events"
    unfolding list_all2_map1
    by (rule list_all2_mono [OF those_map_rel [OF events]]) (rule one, simp add: part_fields_def)
  moreover have "list_all2 (\<lambda>p row. span_row env sp p (put_all row m)) (map SpanLink (sp_links sp)) links"
    unfolding list_all2_map1
    by (rule list_all2_mono [OF those_map_rel [OF links]]) (rule one, simp add: part_fields_def)
  ultimately have all: "list_all2 (\<lambda>p row. span_row env sp p (put_all row m))
      (map SpanEvent (sp_events sp) @ map SpanLink (sp_links sp)) (events @ links)"
    by (rule list_all2_appendI)
  show ?thesis
  proof (cases "events @ links = []")
    case True
    with all have "span_parts sp = [SpanOnly]" by (auto simp: span_parts_def)
    moreover have "span_row env sp SpanOnly m"
      using span_distinct [OF m] m by (simp add: span_row_def part_fields_def)
    ultimately show ?thesis using True rows by simp
  next
    case False
    with list_all2_lengthD [OF all] have "\<not> (sp_events sp = [] \<and> sp_links sp = [])" by auto
    then have "span_parts sp = map SpanEvent (sp_events sp) @ map SpanLink (sp_links sp)" by (auto simp: span_parts_def)
    moreover have "rows = map (\<lambda>part. put_all part m) (events @ links)" using rows False by (simp only: if_False)
    ultimately show ?thesis using all by (simp only: list_all2_map2)
  qed
qed

lemma concat_rows:
  assumes "those (map f xs) = Some yss" and "\<And>x ys. f x = Some ys \<Longrightarrow> list_all2 Q (g x) ys"
  shows "list_all2 Q (concat (map g xs)) (concat yss)"
  by (rule list_all2_concat_map, rule list_all2_mono [OF those_map_rel [OF assms(1)]]) (rule assms(2))

lemma scope_span_rows:
  assumes "flatten_scope_span env ss = Some rows" and r: "resource_fields env (rs_resource rs) = Some r"
    and res: "res = AList.update ''resource_schema_url'' (JString (rs_schema_url rs)) r"
  shows "list_all2 (\<lambda>src row. trace_row env src (JObject (put_all row res)))
    (concat (map (\<lambda>sp. map (\<lambda>p. (rs, ss, sp, p)) (span_parts sp)) (ss_spans ss))) rows"
proof -
  from assms obtain spans s where spans: "those (map (flatten_span_record env) (ss_spans ss)) = Some spans"
    and s: "scope_fields env (ss_scope ss) = Some s"
    and rows: "rows = map (\<lambda>row. AList.update ''scope_schema_url'' (JString (ss_schema_url ss)) (put_all row s)) (concat spans)"
    by (auto simp: flatten_scope_span_def bind_eq_Some_conv)
  have ds: "distinct_keys s" using scope_scalar [OF s] by (simp add: scalar_object_def)
  have dres: "distinct_keys res" using resource_scalar [OF r] by (simp add: res scalar_object_def distinct_update)
  have one: "trace_row env (rs, ss, sp, p)
      (JObject (put_all (AList.update ''scope_schema_url'' (JString (ss_schema_url ss)) (put_all row s)) res))"
    if "span_row env sp p row" for sp p row
  proof -
    from that obtain part m where row: "part_fields env sp p = Some part" "span_fields env sp = Some m" "distinct_keys row"
      "map_of row = map_of part ++ map_of m" by (auto simp: span_row_def)
    let ?fs = "put_all (AList.update ''scope_schema_url'' (JString (ss_schema_url ss)) (put_all row s)) res"
    have "distinct_keys ?fs" using row(3) by (simp add: distinct_put_all distinct_update)
    moreover have "map_of ?fs = (map_of part ++ map_of m ++ map_of s)(''scope_schema_url'' \<mapsto> JString (ss_schema_url ss)) ++
        (map_of r)(''resource_schema_url'' \<mapsto> JString (rs_schema_url rs))"
      using row(3,4) ds dres by (simp add: map_of_put_all distinct_put_all distinct_update update_conv' res)
    ultimately show ?thesis unfolding trace_row_def prod.case using row(1,2) s r by blast
  qed
  have "list_all2 (\<lambda>src row. trace_row env src
      (JObject (put_all (AList.update ''scope_schema_url'' (JString (ss_schema_url ss)) (put_all row s)) res)))
      (concat (map (\<lambda>sp. map (\<lambda>p. (rs, ss, sp, p)) (span_parts sp)) (ss_spans ss))) (concat spans)"
  proof (rule concat_rows [OF spans])
    fix sp ys assume "flatten_span_record env sp = Some ys"
    then show "list_all2 (\<lambda>src row. trace_row env src
        (JObject (put_all (AList.update ''scope_schema_url'' (JString (ss_schema_url ss)) (put_all row s)) res)))
        (map (\<lambda>p. (rs, ss, sp, p)) (span_parts sp)) ys"
      unfolding list_all2_map1 by (rule list_all2_mono [OF span_rows]) (rule one)
  qed
  then show ?thesis by (simp add: rows list_all2_map2)
qed

lemma resource_span_rows:
  assumes "process_resource_span env rs = Some rows"
  shows "list_all2 (trace_row env)
    (concat (map (\<lambda>ss. concat (map (\<lambda>sp. map (\<lambda>p. (rs, ss, sp, p)) (span_parts sp)) (ss_spans ss))) (rs_scope_spans rs))) rows"
proof -
  from assms obtain r scopes where r: "resource_fields env (rs_resource rs) = Some r"
    and scopes: "those (map (flatten_scope_span env) (rs_scope_spans rs)) = Some scopes"
    and rows: "rows = map (\<lambda>row. JObject (put_all row (AList.update ''resource_schema_url'' (JString (rs_schema_url rs)) r))) (concat scopes)"
    by (auto simp: process_resource_span_def bind_eq_Some_conv)
  from concat_rows [OF scopes scope_span_rows [OF _ r refl]] show ?thesis by (simp add: rows list_all2_map2)
qed

text \<open>C15: 
  A request with traces gives, in its order, one row for each event and each link of a span, and one
  for a span without any; a field of a row is that of the resource, else of the scope, else of the span,
  else of the event or link.
\<close>

theorem trace_rows:
  assumes "flatten_otel_traces env message = Some rows"
  shows "list_all2 (trace_row env) (trace_sources message) rows"
proof -
  from assms obtain rss where rss: "those (map (process_resource_span env) message) = Some rss" and rows: "rows = concat rss"
    by (auto simp: flatten_otel_traces_def bind_eq_Some_conv)
  from concat_rows [OF rss resource_span_rows] show ?thesis by (simp add: trace_sources_def rows)
qed

section \<open>Examples\<close>

definition sample_trace_env :: otel_env where
  "sample_trace_env = \<lparr>utf8_lossy = (\<lambda>_. []), write_json = (\<lambda>_. None), read_json = (\<lambda>_. None), hex_encode = (\<lambda>_. []),
     show_nanos = (\<lambda>_. ''t''), severity_name = (\<lambda>_. None)\<rparr>"

definition sample_span :: trace_span where
  "sample_span = \<lparr>sp_trace_id = [1], sp_span_id = [2], sp_trace_state = [], sp_parent = [], sp_flags = 0, sp_name = ''get'',
     sp_kind = 2, sp_start = 5, sp_end = 3, sp_attributes = [], sp_dropped = 0,
     sp_events = [\<lparr>se_time = 7, se_name = ''e'', se_attributes = [], se_dropped = 0\<rparr>], sp_dropped_events = 0,
     sp_links = [\<lparr>sk_span_id = [], sk_trace_id = [], sk_attributes = [], sk_dropped = 0\<rparr>], sp_dropped_links = 0, sp_status = None\<rparr>"

definition sample_traces :: "resource_spans list" where
  "sample_traces = [\<lparr>rs_resource = None, rs_scope_spans = [\<lparr>ss_scope = None, ss_spans = [sample_span], ss_schema_url = []\<rparr>], rs_schema_url = []\<rparr>]"

theorem trace_rows_witness:
  "\<exists>a b. flatten_otel_traces sample_trace_env sample_traces = Some [JObject a, JObject b] \<and>
     map_of a ''event_name'' = Some (JString ''e'') \<and> map_of b ''event_name'' = None \<and>
     map_of a ''span_duration_ns'' = Some (JNumber (PosInt 0)) \<and> map_of b ''span_name'' = Some (JString ''get'')"
proof -
  have "list_all resource_span_ok sample_traces"
    by (simp add: sample_traces_def resource_span_ok_def resource_ok_def scope_ok_def span_ok_def sample_span_def)
  then obtain rows where run: "flatten_otel_traces sample_trace_env sample_traces = Some rows"
    using traces_defined [of sample_trace_env sample_traces] by auto
  have src: "trace_sources sample_traces =
      [(hd sample_traces, hd (rs_scope_spans (hd sample_traces)), sample_span, SpanEvent (hd (sp_events sample_span))),
       (hd sample_traces, hd (rs_scope_spans (hd sample_traces)), sample_span, SpanLink (hd (sp_links sample_span)))]"
    by (simp add: trace_sources_def sample_traces_def span_parts_def sample_span_def)
  from trace_rows [OF run] obtain x y where xy: "rows = [x, y]"
    "trace_row sample_trace_env (hd sample_traces, hd (rs_scope_spans (hd sample_traces)), sample_span, SpanEvent (hd (sp_events sample_span))) x"
    "trace_row sample_trace_env (hd sample_traces, hd (rs_scope_spans (hd sample_traces)), sample_span, SpanLink (hd (sp_links sample_span))) y"
    unfolding src by (auto simp: list_all2_Cons1)
  have m: "\<exists>m. span_fields sample_trace_env sample_span = Some m \<and> map_of m ''event_name'' = None \<and>
      map_of m ''span_duration_ns'' = Some (JNumber (PosInt 0)) \<and> map_of m ''span_name'' = Some (JString ''get'')"
    by (simp add: span_fields_def span_first_fields_def span_last_fields_def sample_span_def insert_attributes_def
        flatten_attributes_def flatten_flags_def flatten_kind_def saturating_sub_def)
  have parts: "\<exists>part. part_fields sample_trace_env sample_span (SpanEvent (hd (sp_events sample_span))) = Some part \<and>
      map_of part ''event_name'' = Some (JString ''e'')"
    "\<exists>part. part_fields sample_trace_env sample_span (SpanLink (hd (sp_links sample_span))) = Some part \<and>
      map_of part ''event_name'' = None"
    by (simp_all add: part_fields_def flatten_event_def flatten_link_def insert_prefixed_attributes_def flatten_attributes_def
        sample_span_def)
  note defs = trace_row_def scope_fields_def resource_fields_def sample_traces_def map_add_def
  from xy(2) m parts(1) obtain a where a: "x = JObject a" "map_of a ''event_name'' = Some (JString ''e'')"
    "map_of a ''span_duration_ns'' = Some (JNumber (PosInt 0))"
    by (auto simp: defs)
  from xy(3) m parts(2) obtain b where "y = JObject b" "map_of b ''event_name'' = None" "map_of b ''span_name'' = Some (JString ''get'')"
    by (auto simp: defs)
  with a run xy(1) show ?thesis by blast
qed


section \<open>Known fields\<close>

definition otel_traces_known_field_list :: "string list" where
  "otel_traces_known_field_list =
     [''scope_name'', ''scope_version'', ''scope_schema_url'', ''scope_dropped_attributes_count'',
      ''resource_schema_url'', ''resource_dropped_attributes_count'', ''span_trace_id'', ''span_span_id'',
      ''span_name'', ''span_parent_span_id'', ''name'', ''span_kind'', ''span_kind_description'',
      ''span_start_time_unix_nano'', ''span_end_time_unix_nano'', ''span_duration_ns'', ''event_name'',
      ''event_time_unix_nano'', ''event_duration_ns'', ''event_dropped_attributes_count'', ''link_span_id'',
      ''link_trace_id'', ''link_dropped_attributes_count'', ''span_dropped_events_count'',
      ''span_dropped_links_count'', ''span_dropped_attributes_count'', ''span_trace_state'', ''span_flags'',
      ''span_flags_description'', ''span_status_code'', ''span_status_description'', ''span_status_message'']"

definition unknown_fields :: "string list \<Rightarrow> string list" where
  "unknown_fields ks = filter (\<lambda>k. k \<notin> set otel_traces_known_field_list) ks"

lemma set_unknown_fields: "set (unknown_fields ks) = set ks - set otel_traces_known_field_list"
  by (auto simp: unknown_fields_def)

lemma unknown_first_fields:
  "unknown_fields (keys_of (span_first_fields env sp)) = [''span_start_time_unix_nano_epoch'', ''span_end_time_unix_nano_epoch'']"
  unfolding span_first_fields_def flatten_flags_def flatten_kind_def map_append append.simps list.map fst_conv by code_simp

lemma unknown_last_fields: "unknown_fields (keys_of (span_last_fields sp)) = []"
proof (cases "sp_status sp")
  case None
  show ?thesis unfolding span_last_fields_def None option.case map_append append.simps list.map fst_conv by code_simp
next
  case (Some s)
  show ?thesis
    unfolding span_last_fields_def Some option.case flatten_status_def map_append append.simps list.map fst_conv by code_simp
qed

text \<open>
  Of the fields of a span without attributes, exactly the two times in nanoseconds are missing from
  the list of known fields.
\<close>

theorem epoch_fields_unknown:
  assumes "span_fields env sp = Some m" and "sp_attributes sp = []"
  shows "fst ` set m - set otel_traces_known_field_list =
    {''span_start_time_unix_nano_epoch'', ''span_end_time_unix_nano_epoch''}"
proof -
  from assms have m: "m = put_all (span_first_fields env sp) (span_last_fields sp)"
    by (simp add: span_fields_def insert_attributes_def flatten_attributes_def)
  have "fst ` set m = set (keys_of (span_first_fields env sp)) \<union> set (keys_of (span_last_fields sp))"
    unfolding m set_map by (rule keys_put_all)
  then have "fst ` set m - set otel_traces_known_field_list =
      set (unknown_fields (keys_of (span_first_fields env sp))) \<union> set (unknown_fields (keys_of (span_last_fields sp)))"
    unfolding set_unknown_fields by blast
  then show ?thesis by (simp add: unknown_first_fields unknown_last_fields)
qed

theorem epoch_fields_unknown_witness:
  "\<exists>m. span_fields sample_trace_env sample_span = Some m \<and>
     ''span_start_time_unix_nano_epoch'' \<in> fst ` set m - set otel_traces_known_field_list"
proof -
  have "span_fields sample_trace_env sample_span \<noteq> None"
    by (simp add: span_fields_def sample_span_def insert_attributes_def flatten_attributes_def)
  then obtain m where m: "span_fields sample_trace_env sample_span = Some m" by blast
  have "sp_attributes sample_span = []" by (simp add: sample_span_def)
  have "''span_start_time_unix_nano_epoch'' \<in> fst ` set m - set otel_traces_known_field_list"
    unfolding epoch_fields_unknown [OF m \<open>sp_attributes sample_span = []\<close>] by simp
  with m show ?thesis by blast
qed

end
