(* ===== verification/Otel_Metrics.thy ===== *)
theory Otel_Metrics
  imports Otel_Values
begin

text \<open>
  The metrics of OpenTelemetry (\<open>otel/metrics.rs\<close>): a metric becomes one row for each data point, or
  one row when it has none; the rows of a resource then get the fields of its scopes. The counter of
  collected metrics is not modelled.
\<close>

section \<open>Data points\<close>

datatype number_value = AsDouble f64 | AsInt i64

record exemplar =
  ex_attributes :: key_values
  ex_time :: u64
  ex_span_id :: "8 word list"
  ex_trace_id :: "8 word list"
  ex_value :: "number_value option"

record number_point =
  np_attributes :: key_values
  np_start :: u64
  np_time :: u64
  np_exemplars :: "exemplar list"
  np_flags :: u32
  np_value :: "number_value option"

record histogram_point =
  hp_attributes :: key_values
  hp_start :: u64
  hp_time :: u64
  hp_count :: u64
  hp_sum :: "f64 option"
  hp_bucket_counts :: "u64 list"
  hp_explicit_bounds :: "f64 list"
  hp_exemplars :: "exemplar list"
  hp_flags :: u32
  hp_min :: "f64 option"
  hp_max :: "f64 option"

record buckets =
  bk_offset :: i32
  bk_counts :: "u64 list"

record exp_histogram_point =
  ep_attributes :: key_values
  ep_start :: u64
  ep_time :: u64
  ep_count :: u64
  ep_sum :: "f64 option"
  ep_scale :: i32
  ep_zero_count :: u64
  ep_positive :: "buckets option"
  ep_negative :: "buckets option"
  ep_exemplars :: "exemplar list"

record summary_point =
  yp_attributes :: key_values
  yp_start :: u64
  yp_time :: u64
  yp_count :: u64
  yp_sum :: f64
  yp_quantiles :: "(f64 \<times> f64) list"

definition number_value_json :: "number_value \<Rightarrow> json" where
  "number_value_json v = (case v of AsDouble d \<Rightarrow> number_or_null d | AsInt i \<Rightarrow> JNumber (number_of_i64 i))"

definition flatten_exemplar :: "otel_env \<Rightarrow> exemplar \<Rightarrow> jobject option" where
  "flatten_exemplar env ex =
     do { m \<leftarrow> insert_attributes env (ex_attributes ex) [];
          Some (put_all m
            ([(''exemplar_time_unix_nano'', convert_epoch_nano_to_timestamp env (ex_time ex)),
              (''exemplar_span_id'', JString (hex_encode env (ex_span_id ex))),
              (''exemplar_trace_id'', JString (hex_encode env (ex_trace_id ex)))] @
             (case ex_value ex of None \<Rightarrow> [] | Some v \<Rightarrow> [(''exemplar_value'', number_value_json v)]))) }"

definition insert_exemplars :: "otel_env \<Rightarrow> exemplar list \<Rightarrow> jobject \<Rightarrow> jobject option" where
  "insert_exemplars env exs m =
     do { ms \<leftarrow> those (map (flatten_exemplar env) exs); Some (fold (\<lambda>e m. put_all m e) ms m) }"

definition point_flags_text :: "int \<Rightarrow> string" where
  "point_flags_text f = (if f = 0 then ''DO_NOT_USE'' else if f = 1 then ''NO_RECORDED_VALUE_MASK'' else [])"

definition flatten_data_point_flags :: "u32 \<Rightarrow> jobject" where
  "flatten_data_point_flags f =
     [(''data_point_flags'', number_u32 f), (''data_point_flags_description'', JString (point_flags_text (uint f)))]"

definition temporality_text :: "int \<Rightarrow> string" where
  "temporality_text t = (if t = 0 then ''UNSPECIFIED'' else if t = 1 then ''DELTA'' else if t = 2 then ''CUMULATIVE'' else [])"

definition flatten_aggregation_temporality :: "i32 \<Rightarrow> jobject" where
  "flatten_aggregation_temporality t =
     [(''aggregation_temporality'', number_i32 t),
      (''aggregation_temporality_description'', JString (temporality_text (sint t)))]"

definition point_times :: "otel_env \<Rightarrow> u64 \<Rightarrow> u64 \<Rightarrow> jobject" where
  "point_times env start time =
     [(''start_time_unix_nano'', convert_epoch_nano_to_timestamp env start),
      (''time_unix_nano'', convert_epoch_nano_to_timestamp env time)]"

definition flatten_number_data_point :: "otel_env \<Rightarrow> number_point \<Rightarrow> jobject option" where
  "flatten_number_data_point env dp =
     do { m \<leftarrow> insert_attributes env (np_attributes dp) [];
          m' \<leftarrow> insert_exemplars env (np_exemplars dp) (put_all m (point_times env (np_start dp) (np_time dp)));
          Some (put_all m' (flatten_data_point_flags (np_flags dp) @
            (case np_value dp of None \<Rightarrow> [] | Some v \<Rightarrow> [(''data_point_value'', number_value_json v)]))) }"

definition flatten_histogram_point :: "otel_env \<Rightarrow> histogram_point \<Rightarrow> jobject option" where
  "flatten_histogram_point env dp =
     do { m \<leftarrow> insert_attributes env (hp_attributes dp) [];
          m' \<leftarrow> insert_exemplars env (hp_exemplars dp)
             (put_all
               (insert_number_if_some ''data_point_sum'' (hp_sum dp)
                 (put_all m (point_times env (hp_start dp) (hp_time dp) @
                   [(''data_point_count'', JNumber (PosInt (hp_count dp)))])))
               [(''data_point_bucket_counts'', JArray (map (\<lambda>c. JNumber (PosInt c)) (hp_bucket_counts dp))),
                (''data_point_explicit_bounds'', JArray (map number_or_null (hp_explicit_bounds dp)))]);
          Some (insert_number_if_some ''max'' (hp_max dp)
            (insert_number_if_some ''min'' (hp_min dp)
              (put_all m' (flatten_data_point_flags (hp_flags dp))))) }"

definition flatten_buckets :: "buckets \<Rightarrow> jobject" where
  "flatten_buckets b =
     [(''offset'', number_i32 (bk_offset b)),
      (''bucket_count'', JArray (map (\<lambda>c. JNumber (PosInt c)) (bk_counts b)))]"

definition insert_buckets :: "string \<Rightarrow> buckets option \<Rightarrow> jobject \<Rightarrow> jobject" where
  "insert_buckets p b m =
     (case b of None \<Rightarrow> m | Some bs \<Rightarrow> put_all m (map (\<lambda>(k, v). (p @ k, v)) (flatten_buckets bs)))"

definition flatten_exp_histogram_point :: "otel_env \<Rightarrow> exp_histogram_point \<Rightarrow> jobject option" where
  "flatten_exp_histogram_point env dp =
     do { m \<leftarrow> insert_attributes env (ep_attributes dp) [];
          insert_exemplars env (ep_exemplars dp)
            (insert_buckets ''negative_'' (ep_negative dp)
              (insert_buckets ''positive_'' (ep_positive dp)
                (put_all
                  (insert_number_if_some ''data_point_sum'' (ep_sum dp)
                    (put_all m (point_times env (ep_start dp) (ep_time dp) @
                      [(''data_point_count'', JNumber (PosInt (ep_count dp)))])))
                  [(''data_point_scale'', number_i32 (ep_scale dp)),
                   (''data_point_zero_count'', JNumber (PosInt (ep_zero_count dp)))]))) }"

definition flatten_summary_point :: "otel_env \<Rightarrow> summary_point \<Rightarrow> jobject option" where
  "flatten_summary_point env dp =
     do { m \<leftarrow> insert_attributes env (yp_attributes dp) [];
          Some (put_all m (point_times env (yp_start dp) (yp_time dp) @
            [(''data_point_count'', JNumber (PosInt (yp_count dp))),
             (''data_point_sum'', number_or_null (yp_sum dp)),
             (''data_point_quantile_values'',
              JArray (map (\<lambda>(q, v). JObject [(''quantile'', number_or_null q), (''value'', number_or_null v)])
                (yp_quantiles dp)))])) }"

section \<open>Metrics\<close>

datatype metric_data =
    Gauge "number_point list"
  | Sum "number_point list" i32 bool
  | Histogram "histogram_point list" i32
  | ExponentialHistogram "exp_histogram_point list" i32
  | Summary "summary_point list"

record metric =
  mt_name :: string
  mt_description :: string
  mt_unit :: string
  mt_metadata :: key_values
  mt_data :: "metric_data option"

definition flatten_gauge :: "otel_env \<Rightarrow> number_point list \<Rightarrow> jobject list option" where
  "flatten_gauge env dps =
     do { rows \<leftarrow> those (map (flatten_number_data_point env) dps); Some (map (put_all []) rows) }"

definition flatten_sum :: "otel_env \<Rightarrow> number_point list \<Rightarrow> i32 \<Rightarrow> bool \<Rightarrow> jobject list option" where
  "flatten_sum env dps t monotonic =
     do { rows \<leftarrow> those (map (flatten_number_data_point env) dps);
          Some (map (\<lambda>row. put_all (put_all [] row)
            (flatten_aggregation_temporality t @ [(''is_monotonic'', JBool monotonic)])) rows) }"

definition flatten_histogram :: "otel_env \<Rightarrow> histogram_point list \<Rightarrow> i32 \<Rightarrow> jobject list option" where
  "flatten_histogram env dps t =
     do { rows \<leftarrow> those (map (flatten_histogram_point env) dps);
          Some (map (\<lambda>row. put_all row (flatten_aggregation_temporality t)) rows) }"

definition flatten_exp_histogram :: "otel_env \<Rightarrow> exp_histogram_point list \<Rightarrow> i32 \<Rightarrow> jobject list option" where
  "flatten_exp_histogram env dps t =
     do { rows \<leftarrow> those (map (flatten_exp_histogram_point env) dps);
          Some (map (\<lambda>row. put_all row (flatten_aggregation_temporality t)) rows) }"

definition flatten_summary :: "otel_env \<Rightarrow> summary_point list \<Rightarrow> jobject list option" where
  "flatten_summary env dps = those (map (flatten_summary_point env) dps)"

definition data_points :: "otel_env \<Rightarrow> metric_data option \<Rightarrow> jobject list option" where
  "data_points env d =
     (case d of
        None \<Rightarrow> Some []
      | Some (Gauge dps) \<Rightarrow> flatten_gauge env dps
      | Some (Sum dps t b) \<Rightarrow> flatten_sum env dps t b
      | Some (Histogram dps t) \<Rightarrow> flatten_histogram env dps t
      | Some (ExponentialHistogram dps t) \<Rightarrow> flatten_exp_histogram env dps t
      | Some (Summary dps) \<Rightarrow> flatten_summary env dps)"

definition metric_type :: "metric_data option \<Rightarrow> string" where
  "metric_type d =
     (case d of
        None \<Rightarrow> [] | Some (Gauge _) \<Rightarrow> ''gauge'' | Some (Sum _ _ _) \<Rightarrow> ''sum'' | Some (Histogram _ _) \<Rightarrow> ''histogram''
      | Some (ExponentialHistogram _ _) \<Rightarrow> ''exponential_histogram'' | Some (Summary _) \<Rightarrow> ''summary'')"

definition metric_fields :: "otel_env \<Rightarrow> metric \<Rightarrow> jobject option" where
  "metric_fields env mt =
     insert_attributes env (mt_metadata mt)
       [(''metric_name'', JString (mt_name mt)), (''metric_description'', JString (mt_description mt)),
        (''metric_unit'', JString (mt_unit mt)), (''metric_type'', JString (metric_type (mt_data mt)))]"

definition flatten_metrics_record :: "otel_env \<Rightarrow> metric \<Rightarrow> jobject list option" where
  "flatten_metrics_record env mt =
     do { points \<leftarrow> data_points env (mt_data mt);
          m \<leftarrow> metric_fields env mt;
          Some (if points = [] then [m] else map (\<lambda>row. put_all row m) points) }"

section \<open>Scopes and resources\<close>

record scope_metrics =
  sm_scope :: "instrumentation_scope option"
  sm_metrics :: "metric list"
  sm_schema_url :: string

record resource_metrics =
  rm_resource :: "otel_resource option"
  rm_scope_metrics :: "scope_metrics list"
  rm_schema_url :: string

text \<open>The rows of a resource are gathered in one list, and the fields of a scope are inserted into all
  rows gathered so far, those of earlier scopes included.\<close>

fun process_scope_metrics :: "otel_env \<Rightarrow> scope_metrics list \<Rightarrow> jobject list \<Rightarrow> jobject list option" where
  "process_scope_metrics env [] rows = Some rows"
| "process_scope_metrics env (sm # sms) rows =
     do { new \<leftarrow> those (map (flatten_metrics_record env) (sm_metrics sm));
          m \<leftarrow> scope_fields env (sm_scope sm);
          process_scope_metrics env sms
            (map (\<lambda>row. put_all row (AList.update ''scope_schema_url'' (JString (sm_schema_url sm)) m)) (rows @ concat new)) }"

definition process_resource_metric :: "otel_env \<Rightarrow> resource_metrics \<Rightarrow> json list option" where
  "process_resource_metric env rm =
     do { m \<leftarrow> resource_fields env (rm_resource rm);
          rows \<leftarrow> process_scope_metrics env (rm_scope_metrics rm) [];
          Some (map (\<lambda>row. JObject (put_all row (AList.update ''resource_schema_url'' (JString (rm_schema_url rm)) m))) rows) }"

definition flatten_otel_metrics :: "otel_env \<Rightarrow> resource_metrics list \<Rightarrow> json list option" where
  "flatten_otel_metrics env message = do { rows \<leftarrow> those (map (process_resource_metric env) message); Some (concat rows) }"

section \<open>Distinct fields\<close>

named_theorems distinct_fields \<open>the fields of a row are distinct\<close>

lemma insert_attributes_distinct [distinct_fields]:
  "insert_attributes env kvs m = Some m' \<Longrightarrow> distinct_keys m \<Longrightarrow> distinct_keys m'"
  by (auto simp: insert_attributes_def bind_eq_Some_conv distinct_put_all)

lemma insert_exemplars_distinct [distinct_fields]:
  "insert_exemplars env exs m = Some m' \<Longrightarrow> distinct_keys m \<Longrightarrow> distinct_keys m'"
proof -
  have "distinct_keys m \<Longrightarrow> distinct_keys (fold (\<lambda>e m. put_all m e) ms m)" for ms
    by (induction ms arbitrary: m) (simp_all add: distinct_put_all)
  then show "insert_exemplars env exs m = Some m' \<Longrightarrow> distinct_keys m \<Longrightarrow> distinct_keys m'"
    by (auto simp: insert_exemplars_def bind_eq_Some_conv)
qed

lemma number_if_some_distinct [distinct_fields]: "distinct_keys m \<Longrightarrow> distinct_keys (insert_number_if_some k v m)"
  by (simp add: insert_number_if_some_def distinct_update split: option.splits)

lemma buckets_distinct [distinct_fields]: "distinct_keys m \<Longrightarrow> distinct_keys (insert_buckets p b m)"
  by (simp add: insert_buckets_def distinct_put_all split: option.splits)

lemma metric_fields_distinct: "metric_fields env mt = Some m \<Longrightarrow> distinct_keys m"
  unfolding metric_fields_def by (erule insert_attributes_distinct) simp


lemma data_points_distinct:
  assumes "data_points env d = Some rows" and "row \<in> set rows"
  shows "distinct_keys row"
proof -
  have number: "distinct_keys r" if "flatten_number_data_point env dp = Some r" for dp r
    using that unfolding flatten_number_data_point_def
    by (auto simp: bind_eq_Some_conv simp del: put_all_simps intro!: distinct_put_all dest!: distinct_fields(1,2))
  have histogram: "distinct_keys r" if "flatten_histogram_point env dp = Some r" for dp r
    using that unfolding flatten_histogram_point_def
    by (auto simp: bind_eq_Some_conv simp del: put_all_simps intro!: distinct_put_all distinct_fields(3) dest!: distinct_fields(1,2))
  have exp: "distinct_keys r" if "flatten_exp_histogram_point env dp = Some r" for dp r
    using that unfolding flatten_exp_histogram_point_def
    by (auto simp: bind_eq_Some_conv simp del: put_all_simps intro!: distinct_put_all distinct_fields(3,4) dest!: distinct_fields(1,2))
  have summary: "distinct_keys r" if "flatten_summary_point env dp = Some r" for dp r
    using that unfolding flatten_summary_point_def
    by (auto simp: bind_eq_Some_conv simp del: put_all_simps intro!: distinct_put_all dest!: distinct_fields(1))
  have numbers: "distinct_keys r" if "those (map (flatten_number_data_point env) dps) = Some rs" "r \<in> set rs" for dps rs r
    using those_map_mem [OF that] number by blast
  have histograms: "distinct_keys r" if "those (map (flatten_histogram_point env) dps) = Some rs" "r \<in> set rs" for dps rs r
    using those_map_mem [OF that] histogram by blast
  have exps: "distinct_keys r" if "those (map (flatten_exp_histogram_point env) dps) = Some rs" "r \<in> set rs" for dps rs r
    using those_map_mem [OF that] exp by blast
  have summaries: "distinct_keys r" if "those (map (flatten_summary_point env) dps) = Some rs" "r \<in> set rs" for dps rs r
    using those_map_mem [OF that] summary by blast
  show ?thesis
  proof (cases d)
    case None
    with assms show ?thesis by (simp add: data_points_def)
  next
    case (Some md)
    then show ?thesis
      using assms
      by (cases md) (auto simp: data_points_def flatten_gauge_def flatten_sum_def flatten_histogram_def flatten_exp_histogram_def
          flatten_summary_def bind_eq_Some_conv simp del: put_all_simps
          intro!: distinct_put_all dest: numbers histograms exps summaries)
  qed
qed

lemma metrics_record_distinct:
  assumes "flatten_metrics_record env mt = Some rows" and "row \<in> set rows"
  shows "distinct_keys row"
  using assms data_points_distinct metric_fields_distinct
  by (auto simp: flatten_metrics_record_def bind_eq_Some_conv distinct_put_all split: if_splits)

section \<open>The rows\<close>

definition scope_map :: "otel_env \<Rightarrow> scope_metrics \<Rightarrow> string \<rightharpoonup> json" where
  "scope_map env sm = (case scope_fields env (sm_scope sm) of None \<Rightarrow> Map.empty | Some m \<Rightarrow>
     (map_of m)(''scope_schema_url'' \<mapsto> JString (sm_schema_url sm)))"

text \<open>The rows of the metrics, each with its scope and those after it in the resource.\<close>

fun scope_points :: "otel_env \<Rightarrow> scope_metrics list \<Rightarrow> (jobject \<times> scope_metrics list) list" where
  "scope_points env [] = []"
| "scope_points env (sm # sms) =
     map (\<lambda>row. (row, sm # sms)) (concat (case those (map (flatten_metrics_record env) (sm_metrics sm)) of None \<Rightarrow> [] | Some rows \<Rightarrow> rows)) @
     scope_points env sms"

definition metric_sources :: "otel_env \<Rightarrow> resource_metrics list \<Rightarrow> (resource_metrics \<times> jobject \<times> scope_metrics list) list" where
  "metric_sources env message = concat (map (\<lambda>rm. map (\<lambda>p. (rm, p)) (scope_points env (rm_scope_metrics rm))) message)"

definition metric_row :: "otel_env \<Rightarrow> resource_metrics \<times> jobject \<times> scope_metrics list \<Rightarrow> json \<Rightarrow> bool" where
  "metric_row env src out \<longleftrightarrow>
     (case src of (rm, row, sms) \<Rightarrow>
        \<exists>r fs. resource_fields env (rm_resource rm) = Some r \<and> out = JObject fs \<and> distinct_keys fs \<and>
          map_of fs = foldl (++) (map_of row) (map (scope_map env) sms) ++
            (map_of r)(''resource_schema_url'' \<mapsto> JString (rm_schema_url rm)))"

definition scoped_row :: "otel_env \<Rightarrow> jobject \<times> scope_metrics list \<Rightarrow> jobject \<Rightarrow> bool" where
  "scoped_row env p fs \<longleftrightarrow> distinct_keys fs \<and> map_of fs = foldl (++) (map_of (fst p)) (map (scope_map env) (snd p))"

lemma scope_rows:
  assumes "process_scope_metrics env sms rows = Some out" and "list_all2 (scoped_row env) (map (\<lambda>(row, done_scopes). (row, done_scopes)) ps) rows"
  shows "list_all2 (scoped_row env) (map (\<lambda>(row, done_scopes). (row, done_scopes @ sms)) ps @ scope_points env sms) out"
  using assms
proof (induction sms arbitrary: ps rows)
  case Nil
  then show ?case by simp
next
  case (Cons sm sms)
  from Cons.prems(1) obtain new m where new: "those (map (flatten_metrics_record env) (sm_metrics sm)) = Some new"
    and m: "scope_fields env (sm_scope sm) = Some m"
    and run: "process_scope_metrics env sms
      (map (\<lambda>row. put_all row (AList.update ''scope_schema_url'' (JString (sm_schema_url sm)) m)) (rows @ concat new)) = Some out"
    by (auto simp: bind_eq_Some_conv)
  let ?m = "AList.update ''scope_schema_url'' (JString (sm_schema_url sm)) m"
  let ?ps = "map (\<lambda>(row, ds). (row, ds @ [sm])) ps @ map (\<lambda>row. (row, [sm])) (concat new)"
  have dm: "distinct_keys ?m" using scope_scalar [OF m] by (simp add: scalar_object_def distinct_update)
  have sm: "scope_map env sm = map_of ?m" by (simp add: scope_map_def m update_conv')
  have old: "scoped_row env (row, ds @ [sm]) (put_all fs ?m)" if "scoped_row env (row, ds) fs" for row ds fs
    using that dm by (simp add: scoped_row_def distinct_put_all map_of_put_all sm)
  have "list_all2 (\<lambda>p fs. scoped_row env p (put_all fs ?m)) (map (\<lambda>(row, ds). (row, ds @ [sm])) ps) rows"
    using Cons.prems(2) by (auto simp: list_all2_conv_all_nth case_prod_beta intro: old)
  moreover have "list_all2 (\<lambda>p fs. scoped_row env p (put_all fs ?m)) (map (\<lambda>row. (row, [sm])) (concat new)) (concat new)"
  proof -
    have "distinct_keys row" if "row \<in> set (concat new)" for row
    proof -
      from that obtain rs where "rs \<in> set new" "row \<in> set rs" by auto
      then show ?thesis
        using those_map_mem [OF new, of rs] metrics_record_distinct [of env _ rs row] by blast
    qed
    then have "scoped_row env (row, [sm]) (put_all row ?m)" if "row \<in> set (concat new)" for row
      using that old [of row "[]" row] by (simp add: scoped_row_def)
    then show ?thesis unfolding list_all2_map1 list_all2_same by blast
  qed
  ultimately have "list_all2 (scoped_row env) (map (\<lambda>(row, ds). (row, ds)) ?ps) (map (\<lambda>row. put_all row ?m) (rows @ concat new))"
    unfolding list_all2_map2 by (simp add: list_all2_appendI)
  from Cons.IH [OF run this] show ?case
    by (simp add: new case_prod_beta comp_def)
qed

lemma resource_metric_rows:
  assumes "process_resource_metric env rm = Some out"
  shows "list_all2 (metric_row env) (map (\<lambda>p. (rm, p)) (scope_points env (rm_scope_metrics rm))) out"
proof -
  from assms obtain r rows where r: "resource_fields env (rm_resource rm) = Some r"
    and rows: "process_scope_metrics env (rm_scope_metrics rm) [] = Some rows"
    and out: "out = map (\<lambda>row. JObject (put_all row (AList.update ''resource_schema_url'' (JString (rm_schema_url rm)) r))) rows"
    by (auto simp: process_resource_metric_def bind_eq_Some_conv)
  have dr: "distinct_keys (AList.update ''resource_schema_url'' (JString (rm_schema_url rm)) r)"
    using resource_scalar [OF r] by (simp add: scalar_object_def distinct_update)
  have one: "metric_row env (rm, p) (JObject (put_all fs (AList.update ''resource_schema_url'' (JString (rm_schema_url rm)) r)))"
    if "scoped_row env p fs" for p fs
    using that r dr by (cases p) (simp add: metric_row_def scoped_row_def distinct_put_all map_of_put_all update_conv')
  from scope_rows [OF rows, of "[]"] have "list_all2 (scoped_row env) (scope_points env (rm_scope_metrics rm)) rows" by simp
  then show ?thesis unfolding out list_all2_map1 list_all2_map2 by (rule list_all2_mono) (rule one)
qed

lemma metrics_by_source:
  assumes "flatten_otel_metrics env message = Some rows"
  shows "list_all2 (metric_row env) (metric_sources env message) rows"
proof -
  from assms obtain rss where rss: "those (map (process_resource_metric env) message) = Some rss" and rows: "rows = concat rss"
    by (auto simp: flatten_otel_metrics_def bind_eq_Some_conv)
  have "list_all2 (\<lambda>rm. list_all2 (metric_row env) (map (\<lambda>p. (rm, p)) (scope_points env (rm_scope_metrics rm)))) message rss"
    by (rule list_all2_mono [OF those_map_rel [OF rss]]) (rule resource_metric_rows)
  from list_all2_concat_map [OF this] show ?thesis by (simp add: metric_sources_def rows)
qed


text \<open>
  A request with metrics gives one row for each data point, in its order, and one for a metric
  without any; the fields of a row are those of the data point and its metric, then those of its scope
  and of every later scope of the resource, then those of the resource.
\<close>

theorem metric_rows:
  assumes "flatten_otel_metrics env message = Some rows"
  shows "list_all2 (metric_row env) (metric_sources env message) rows"
  using assms by (rule metrics_by_source)

lemma later_scope_wins:
  assumes "sms \<noteq> []" and "\<forall>sm \<in> set sms. scope_fields env (sm_scope sm) \<noteq> None"
  shows "foldl (++) m (map (scope_map env) sms) ''scope_schema_url'' = Some (JString (sm_schema_url (last sms)))"
  using assms
proof (induction sms rule: rev_induct)
  case (snoc sm sms)
  then show ?case by (auto simp: scope_map_def)
qed simp

lemma points_suffix: "p \<in> set (scope_points env sms) \<Longrightarrow> snd p \<noteq> [] \<and> suffix (snd p) sms"
  by (induction sms) (auto simp: suffix_Cons)

lemma scope_metrics_defined_scopes:
  "process_scope_metrics env sms rows = Some out \<Longrightarrow> \<forall>sm \<in> set sms. scope_fields env (sm_scope sm) \<noteq> None"
  by (induction sms arbitrary: rows) (auto simp: bind_eq_Some_conv)

text \<open>C14: When no attribute of a resource becomes a field named scope_schema_url (there is no resource,
  it has no attributes, or others), every row of the resource carries the schema address of its last
  scope, also the rows of the metrics of the scopes before it.\<close>

theorem last_scope_on_every_row:
  assumes "flatten_otel_metrics env [rm] = Some rows" and "JObject fs \<in> set rows"
    and "\<forall>rs. resource_fields env (rm_resource rm) = Some rs \<longrightarrow> map_of rs ''scope_schema_url'' = None"
  shows "map_of fs ''scope_schema_url'' = Some (JString (sm_schema_url (last (rm_scope_metrics rm))))"
proof -
  from assms(1) obtain out where out: "process_scope_metrics env (rm_scope_metrics rm) [] = Some out"
    by (auto simp: flatten_otel_metrics_def process_resource_metric_def bind_eq_Some_conv split: option.splits)
  obtain i where "i < length rows" "JObject fs = rows ! i" using assms(2) by (auto simp: in_set_conv_nth)
  then have "i < length (metric_sources env [rm])" and row: "metric_row env (metric_sources env [rm] ! i) (JObject fs)"
    using list_all2_lengthD [OF metrics_by_source [OF assms(1)]] list_all2_nthD2 [OF metrics_by_source [OF assms(1)], of i]
    by simp_all
  then have "metric_sources env [rm] ! i \<in> set (metric_sources env [rm])" by simp
  then obtain p where p: "metric_sources env [rm] ! i = (rm, p)" "p \<in> set (scope_points env (rm_scope_metrics rm))"
    by (auto simp: metric_sources_def)
  note suffix = points_suffix [OF p(2)]
  then have "last (snd p) = last (rm_scope_metrics rm)" and "set (snd p) \<subseteq> set (rm_scope_metrics rm)"
    by (auto simp: suffix_def)
  moreover have "\<forall>sm \<in> set (snd p). scope_fields env (sm_scope sm) \<noteq> None"
    using scope_metrics_defined_scopes [OF out] calculation(2) by blast
  ultimately have "foldl (++) (map_of (fst p)) (map (scope_map env) (snd p)) ''scope_schema_url'' =
      Some (JString (sm_schema_url (last (rm_scope_metrics rm))))"
    using later_scope_wins [of "snd p" env "map_of (fst p)"] suffix by simp
  with row p(1) assms(3) show ?thesis
    by (cases p) (auto simp: metric_row_def map_add_def split: option.splits)
qed

lemma no_attributes_no_schema:
  "r = None \<or> (\<exists>d. r = Some \<lparr>resource_attributes = [], resource_dropped = d\<rparr>) \<Longrightarrow>
   resource_fields env r = Some rs \<Longrightarrow> map_of rs ''scope_schema_url'' = None"
  by (auto simp: resource_fields_def insert_attributes_def flatten_attributes_def)

section \<open>When the conversion is defined\<close>

definition exemplars_ok :: "exemplar list \<Rightarrow> bool" where
  "exemplars_ok exs \<longleftrightarrow> list_all (\<lambda>ex. attributes_ok (ex_attributes ex)) exs"

definition data_ok :: "metric_data option \<Rightarrow> bool" where
  "data_ok d \<longleftrightarrow>
     (case d of
        None \<Rightarrow> True
      | Some (Gauge dps) \<Rightarrow> list_all (\<lambda>dp. attributes_ok (np_attributes dp) \<and> exemplars_ok (np_exemplars dp)) dps
      | Some (Sum dps _ _) \<Rightarrow> list_all (\<lambda>dp. attributes_ok (np_attributes dp) \<and> exemplars_ok (np_exemplars dp)) dps
      | Some (Histogram dps _) \<Rightarrow> list_all (\<lambda>dp. attributes_ok (hp_attributes dp) \<and> exemplars_ok (hp_exemplars dp)) dps
      | Some (ExponentialHistogram dps _) \<Rightarrow>
          list_all (\<lambda>dp. attributes_ok (ep_attributes dp) \<and> exemplars_ok (ep_exemplars dp)) dps
      | Some (Summary dps) \<Rightarrow> list_all (\<lambda>dp. attributes_ok (yp_attributes dp)) dps)"

definition resource_metric_ok :: "resource_metrics \<Rightarrow> bool" where
  "resource_metric_ok rm \<longleftrightarrow> resource_ok (rm_resource rm) \<and>
     list_all (\<lambda>sm. scope_ok (sm_scope sm) \<and> list_all (\<lambda>mt. attributes_ok (mt_metadata mt) \<and> data_ok (mt_data mt)) (sm_metrics sm))
       (rm_scope_metrics rm)"

lemma exemplars_defined: "insert_exemplars env exs m = None \<longleftrightarrow> \<not> exemplars_ok exs"
proof -
  have "flatten_exemplar env ex = None \<longleftrightarrow> \<not> attributes_ok (ex_attributes ex)" for ex
    by (simp add: flatten_exemplar_def bind_eq_None_conv otel_defined)
  from those_map_None [where xs = exs, OF this] show ?thesis
    by (simp add: insert_exemplars_def exemplars_ok_def bind_eq_None_conv)
qed

lemma data_points_defined: "data_points env d = None \<longleftrightarrow> \<not> data_ok d"
proof -
  have number: "flatten_number_data_point env dp = None \<longleftrightarrow> \<not> (attributes_ok (np_attributes dp) \<and> exemplars_ok (np_exemplars dp))" for dp
    by (auto simp: flatten_number_data_point_def bind_eq_None_conv otel_defined exemplars_defined)
  have histogram: "flatten_histogram_point env dp = None \<longleftrightarrow> \<not> (attributes_ok (hp_attributes dp) \<and> exemplars_ok (hp_exemplars dp))" for dp
    by (auto simp: flatten_histogram_point_def bind_eq_None_conv otel_defined exemplars_defined)
  have exp: "flatten_exp_histogram_point env dp = None \<longleftrightarrow> \<not> (attributes_ok (ep_attributes dp) \<and> exemplars_ok (ep_exemplars dp))" for dp
    by (auto simp: flatten_exp_histogram_point_def bind_eq_None_conv otel_defined exemplars_defined)
  have summary: "flatten_summary_point env dp = None \<longleftrightarrow> \<not> attributes_ok (yp_attributes dp)" for dp
    by (simp add: flatten_summary_point_def bind_eq_None_conv otel_defined)
  show ?thesis
    by (simp add: data_points_def data_ok_def flatten_gauge_def flatten_sum_def flatten_histogram_def flatten_exp_histogram_def
        flatten_summary_def bind_eq_None_conv those_map_None [OF number] those_map_None [OF histogram] those_map_None [OF exp]
        those_map_None [OF summary] split: option.splits metric_data.splits)
qed

lemma record_metrics_defined:
  "flatten_metrics_record env mt = None \<longleftrightarrow> \<not> (attributes_ok (mt_metadata mt) \<and> data_ok (mt_data mt))"
  by (auto simp: flatten_metrics_record_def metric_fields_def bind_eq_None_conv otel_defined data_points_defined)

lemma scope_metrics_defined:
  "process_scope_metrics env sms rows = None \<longleftrightarrow>
   \<not> list_all (\<lambda>sm. scope_ok (sm_scope sm) \<and> list_all (\<lambda>mt. attributes_ok (mt_metadata mt) \<and> data_ok (mt_data mt)) (sm_metrics sm)) sms"
  by (induction sms arbitrary: rows)
    (auto simp: bind_eq_None_conv otel_defined those_map_None [OF record_metrics_defined])

text \<open>
  The conversion of a request with metrics panics exactly when an attribute of a resource, scope,
  metric, data point or exemplar is present without a value.
\<close>

theorem metrics_converted_iff:
  "(flatten_otel_metrics env message = None) = (\<not> list_all resource_metric_ok message)"
proof -
  have "process_resource_metric env rm = None \<longleftrightarrow> \<not> resource_metric_ok rm" for rm
    by (auto simp: process_resource_metric_def resource_metric_ok_def bind_eq_None_conv otel_defined scope_metrics_defined)
  from those_map_None [where xs = message, OF this] show ?thesis
    by (simp add: flatten_otel_metrics_def bind_eq_None_conv)
qed

section \<open>Examples\<close>

definition sample_metric_env :: otel_env where
  "sample_metric_env = \<lparr>utf8_lossy = (\<lambda>_. []), write_json = (\<lambda>_. None), read_json = (\<lambda>_. None), hex_encode = (\<lambda>_. []),
     show_nanos = (\<lambda>_. ''t''), severity_name = (\<lambda>_. None)\<rparr>"

definition sample_metric :: "string \<Rightarrow> metric" where
  "sample_metric n = \<lparr>mt_name = n, mt_description = [], mt_unit = [], mt_metadata = [], mt_data = None\<rparr>"

definition sample_metrics :: resource_metrics where
  "sample_metrics = \<lparr>rm_resource = Some \<lparr>resource_attributes = [], resource_dropped = 0\<rparr>, rm_scope_metrics =
     [\<lparr>sm_scope = None, sm_metrics = [sample_metric ''cpu''], sm_schema_url = ''a''\<rparr>,
      \<lparr>sm_scope = None, sm_metrics = [sample_metric ''disk''], sm_schema_url = ''b''\<rparr>], rm_schema_url = []\<rparr>"

lemma sample_metrics_run:
  "flatten_otel_metrics sample_metric_env [sample_metrics] = Some (map (\<lambda>n. JObject
     [(''metric_name'', JString n), (''metric_description'', JString []), (''metric_unit'', JString []), (''metric_type'', JString []),
      (''scope_schema_url'', JString ''b''), (''resource_dropped_attributes_count'', number_u32 0), (''resource_schema_url'', JString [])]) [''cpu'', ''disk''])"
  by (simp add: flatten_otel_metrics_def process_resource_metric_def sample_metrics_def sample_metric_def resource_fields_def
      scope_fields_def flatten_metrics_record_def data_points_def metric_fields_def metric_type_def insert_attributes_def
      flatten_attributes_def)

theorem last_scope_on_every_row_witness:
  "\<exists>rows fs. flatten_otel_metrics sample_metric_env [sample_metrics] = Some rows \<and> JObject fs \<in> set rows \<and>
     map_of fs ''metric_name'' = Some (JString ''cpu'') \<and> map_of fs ''scope_schema_url'' = Some (JString ''b'')"
proof -
  let ?fs = "[(''metric_name'', JString ''cpu''), (''metric_description'', JString []), (''metric_unit'', JString []), (''metric_type'', JString []),
      (''scope_schema_url'', JString ''b''), (''resource_dropped_attributes_count'', number_u32 0), (''resource_schema_url'', JString [])]"
  have "sm_schema_url (last (rm_scope_metrics sample_metrics)) = ''b''" by (simp add: sample_metrics_def)
  moreover have "\<forall>rs. resource_fields sample_metric_env (rm_resource sample_metrics) = Some rs \<longrightarrow> map_of rs ''scope_schema_url'' = None"
    using no_attributes_no_schema [of "rm_resource sample_metrics" sample_metric_env] by (simp add: sample_metrics_def)
  ultimately have "map_of ?fs ''scope_schema_url'' = Some (JString ''b'')"
    using last_scope_on_every_row [OF sample_metrics_run, of ?fs] by simp
  with sample_metrics_run show ?thesis by (intro exI [of _ ?fs] exI conjI) auto
qed

theorem metric_rows_witness:
  "length (metric_sources sample_metric_env [sample_metrics]) = 2"
  using list_all2_lengthD [OF metric_rows [OF sample_metrics_run]] by simp

end
