(* ===== verification/Owned_Objects.thy ===== *)
theory Owned_Objects
  imports Prelude
begin

text \<open>
  Objects that users save (dashboards, filters, correlations): the server keeps them in a list in
  memory and each of them in a file, whose path holds the owner and the identifier. The interface that
  their tables share, and what keeps memory and files equal.
\<close>

definition retain_other :: "('o \<Rightarrow> 'k) \<Rightarrow> 'k \<Rightarrow> 'o list \<Rightarrow> 'o list" where
  "retain_other ident k mem = filter (\<lambda>x. ident x \<noteq> k) mem"

definition replace_object :: "('o \<Rightarrow> 'k) \<Rightarrow> 'o \<Rightarrow> 'o list \<Rightarrow> 'o list" where
  "replace_object ident x mem = retain_other ident (ident x) mem @ [x]"

text \<open>Memory and files hold the same objects.\<close>

definition mirrors :: "('o \<Rightarrow> 'k) \<Rightarrow> ('o \<Rightarrow> 'p option) \<Rightarrow> 'o list \<Rightarrow> ('p \<rightharpoonup> 'o) \<Rightarrow> bool" where
  "mirrors ident path mem files \<longleftrightarrow>
     distinct (map ident mem) \<and> (\<forall>x \<in> set mem. path x \<noteq> None) \<and>
     (\<forall>p x. files p = Some x \<longleftrightarrow> x \<in> set mem \<and> path x = Some p)"

text \<open>Memory holds some of the objects that the files hold, each under its own path.\<close>

definition backed :: "('o \<Rightarrow> 'k) \<Rightarrow> ('o \<Rightarrow> 'p option) \<Rightarrow> 'o list \<Rightarrow> ('p \<rightharpoonup> 'o) \<Rightarrow> bool" where
  "backed ident path mem files \<longleftrightarrow>
     distinct (map ident mem) \<and> set mem \<subseteq> ran files \<and> (\<forall>p x. files p = Some x \<longrightarrow> path x = Some p)"

text \<open>Reading the files back: a later file replaces an earlier one with the same identifier.\<close>

fun load_objects :: "('o \<Rightarrow> 'k) \<Rightarrow> 'o list \<Rightarrow> 'o list \<Rightarrow> 'o list" where
  "load_objects ident [] mem = mem"
| "load_objects ident (x # xs) mem = load_objects ident xs (replace_object ident x mem)"

lemma set_retain_other [simp]: "set (retain_other ident k mem) = {x \<in> set mem. ident x \<noteq> k}"
  by (auto simp: retain_other_def)

lemma set_replace_object [simp]: "set (replace_object ident x mem) = insert x {y \<in> set mem. ident y \<noteq> ident x}"
  by (auto simp: replace_object_def)

lemma distinct_retain: "distinct (map f mem) \<Longrightarrow> distinct (map f (retain_other ident k mem))"
  by (simp add: retain_other_def distinct_map_filter)

lemma distinct_replace: "distinct (map ident mem) \<Longrightarrow> distinct (map ident (replace_object ident x mem))"
  by (auto simp: replace_object_def distinct_retain)

lemma load_distinct: "distinct (map ident (mem @ xs)) \<Longrightarrow> load_objects ident xs mem = mem @ xs"
proof (induction xs arbitrary: mem)
  case (Cons x xs)
  then have "ident x \<notin> ident ` set mem" by simp
  then have "retain_other ident (ident x) mem = mem"
    unfolding retain_other_def by (intro filter_True ballI) (metis imageI)
  with Cons show ?case by (simp add: replace_object_def)
qed simp

lemma load_set: "set (load_objects ident xs mem) \<subseteq> set mem \<union> set xs"
proof (induction xs arbitrary: mem)
  case (Cons x xs)
  show ?case using Cons.IH [of "replace_object ident x mem"] by auto
qed simp

lemma load_idents: "distinct (map ident mem) \<Longrightarrow> distinct (map ident (load_objects ident xs mem))"
  by (induction xs arbitrary: mem) (simp_all add: distinct_replace)

lemma load_backed:
  assumes "backed ident path mem files" and "set xs \<subseteq> ran files"
  shows "backed ident path (load_objects ident xs []) files"
  using assms load_set [of ident xs "[]"] load_idents [of ident "[]" xs] by (auto simp: backed_def)

locale owned_objects =
  fixes ident :: "'o \<Rightarrow> 'k"
    and path :: "'o \<Rightarrow> 'p option"
  assumes path_ident: "path x = Some p \<Longrightarrow> path y = Some p \<Longrightarrow> ident x = ident y"
begin

lemma same_path: "mirrors ident path mem files \<Longrightarrow> x \<in> set mem \<Longrightarrow> y \<in> set mem \<Longrightarrow> path x = path y \<Longrightarrow> x = y"
  using path_ident by (metis mirrors_def option.exhaust option.inject)

lemma put_backed:
  assumes "backed ident path mem files" and "path x = Some p"
  shows "backed ident path (replace_object ident x mem) (files(p \<mapsto> x))"
proof -
  have "y \<in> ran (files(p \<mapsto> x))" if y: "y \<in> set mem" "ident y \<noteq> ident x" for y
  proof -
    obtain q where q: "files q = Some y" "path y = Some q" using assms(1) y(1) by (auto simp: backed_def ran_def)
    then have "q \<noteq> p" using path_ident [of y p x] assms(2) y(2) by auto
    with q(1) show ?thesis by (auto simp: ran_def)
  qed
  moreover have "x \<in> ran (files(p \<mapsto> x))" by (rule ranI [of _ p]) simp
  ultimately show ?thesis using assms by (auto simp: backed_def distinct_replace)
qed

lemma delete_backed:
  assumes "backed ident path mem files" and "path x = Some p"
  shows "backed ident path (retain_other ident (ident x) mem) (files(p := None))"
proof -
  have "y \<in> ran (files(p := None))" if y: "y \<in> set mem" "ident y \<noteq> ident x" for y
  proof -
    obtain q where q: "files q = Some y" "path y = Some q" using assms(1) y(1) by (auto simp: backed_def ran_def)
    then have "q \<noteq> p" using path_ident [of y p x] assms(2) y(2) by auto
    with q(1) show ?thesis by (auto simp: ran_def)
  qed
  then show ?thesis using assms by (auto simp: backed_def distinct_retain)
qed

lemma put_mirrors:
  assumes "mirrors ident path mem files" and "path x = Some p"
    and "\<forall>y \<in> set mem. ident y = ident x \<longrightarrow> path y = path x"
  shows "mirrors ident path (replace_object ident x mem) (files(p \<mapsto> x))"
proof -
  have "(files(p \<mapsto> x)) q = Some y \<longleftrightarrow> y \<in> set (replace_object ident x mem) \<and> path y = Some q" for q y
    using assms path_ident [of x p y] by (auto simp: mirrors_def)
  then show ?thesis using assms by (simp add: mirrors_def distinct_replace)
qed

lemma delete_mirrors:
  assumes "mirrors ident path mem files" and "x \<in> set mem" and "path x = Some p"
  shows "mirrors ident path (retain_other ident (ident x) mem) (files(p := None))"
proof -
  have "(files(p := None)) q = Some y \<longleftrightarrow> y \<in> set (retain_other ident (ident x) mem) \<and> path y = Some q" for q y
  proof -
    have "y = x" if "y \<in> set mem" "ident y = ident x"
      using assms(1,2) that by (auto simp: mirrors_def distinct_map inj_on_def)
    then show ?thesis using assms path_ident [of x p y] by (auto simp: mirrors_def)
  qed
  then show ?thesis using assms by (simp add: mirrors_def distinct_retain)
qed

text \<open>A start reads back what memory held, in the order of the files.\<close>

lemma load_mirrors:
  assumes "mirrors ident path mem files" and "set xs = ran files" and "distinct xs"
  shows "load_objects ident xs [] = xs \<and> set xs = set mem"
proof -
  have "set xs = set mem"
    using assms(1,2) by (auto simp: mirrors_def ran_def)
  moreover have "distinct (map ident xs)"
    using assms(1,3) calculation by (auto simp: mirrors_def distinct_map)
  ultimately show ?thesis using load_distinct [of ident "[]" xs] by simp
qed

end

text \<open>An object stored under another path than before leaves its old file behind.\<close>

lemma put_leaves_old:
  assumes "mirrors ident path mem files" and "y \<in> set mem" and "path y = Some q" and "path x = Some p" and "p \<noteq> q"
  shows "(files(p \<mapsto> x)) q = Some y \<and> (files(p \<mapsto> x)) p = Some x"
  using assms by (auto simp: mirrors_def)

end
