(* ===== verification/Dashboards.thy ===== *)
theory Dashboards
  imports Owned_Objects Json Alert_Config
begin

text \<open>
  Dashboards (\<open>users/dashboards.rs\<close>) and the requests on them (\<open>handlers/http/users/dashboards.rs\<close>).
  A request carries the hash of its user and whether the user is an administrator; a new identifier,
  the time and the outcome of the access to storage are given by the environment.
\<close>

section \<open>Data\<close>

datatype dashboard_type = Dashboard_type | Report_type

record tile =
  tile_id :: ulid
  other_fields :: "jobject option"

record dashboard =
  db_version :: "string option"
  db_title :: string
  db_author :: "string option"
  db_id :: "ulid option"
  db_created :: "int option"
  db_modified :: "int option"
  db_tags :: "string list option"
  db_favorite :: "bool option"
  db_type :: "dashboard_type option"
  db_tiles :: "tile list option"

record dashboard_env =
  db_now :: int
  fresh_ulid :: ulid
  put_ok :: bool
  delete_ok :: bool
  ulid_from_string :: "string \<Rightarrow> ulid option"
  ulid_text :: "ulid \<Rightarrow> string"
  time_text :: "int \<Rightarrow> string"

record dashboard_store =
  dashboards :: "dashboard list"
  dashboard_files :: "string \<times> ulid \<rightharpoonup> dashboard"

datatype dashboard_error =
    Metadata string
  | Unauthorized
  | MetastoreFailed

type_synonym 'a dashboard_result = "dashboard_store \<times> (dashboard_error + 'a)"

text \<open>The path of the file; a missing author or identifier is a panic.\<close>

definition dashboard_path :: "dashboard \<Rightarrow> (string \<times> ulid) option" where
  "dashboard_path d = (case (db_author d, db_id d) of (Some a, Some i) \<Rightarrow> Some (a, i) | _ \<Rightarrow> None)"

definition set_metadata :: "dashboard_env \<Rightarrow> string \<Rightarrow> ulid option \<Rightarrow> dashboard \<Rightarrow> dashboard" where
  "set_metadata env user i d =
     d\<lparr>db_author := Some user,
       db_id := (case i of Some k \<Rightarrow> Some k | None \<Rightarrow> Some (fresh_ulid env)),
       db_version := Some ''v1'',
       db_modified := Some (db_now env),
       db_type := (case db_type d of None \<Rightarrow> Some Dashboard_type | t \<Rightarrow> t),
       db_tiles := (case db_tiles d of None \<Rightarrow> Some [] | t \<Rightarrow> t),
       db_favorite := (case db_favorite d of None \<Rightarrow> Some False | b \<Rightarrow> b)\<rparr>"

definition to_summary :: "dashboard_env \<Rightarrow> dashboard \<Rightarrow> jobject" where
  "to_summary env d =
     [(''title'', JString (db_title d))] @
     (case db_author d of None \<Rightarrow> [] | Some a \<Rightarrow> [(''author'', JString a)]) @
     (case db_created d of None \<Rightarrow> [] | Some t \<Rightarrow> [(''created'', JString (time_text env t))]) @
     (case db_modified d of None \<Rightarrow> [] | Some t \<Rightarrow> [(''modified'', JString (time_text env t))]) @
     (case db_id d of None \<Rightarrow> [] | Some i \<Rightarrow> [(''dashboardId'', JString (ulid_text env i))]) @
     (case db_tags d of None \<Rightarrow> [] | Some ts \<Rightarrow> [(''tags'', JArray (map JString ts))]) @
     [(''isFavorite'', JBool (case db_favorite d of Some b \<Rightarrow> b | None \<Rightarrow> False))]"

definition validate_dashboard_id :: "dashboard_env \<Rightarrow> string \<Rightarrow> dashboard_error + ulid" where
  "validate_dashboard_id env s =
     (case ulid_from_string env s of
        Some i \<Rightarrow> Inr i
      | None \<Rightarrow> Inl (Metadata ''Invalid dashboard ID format - must be a valid ULID''))"

section \<open>The table\<close>

text \<open>The files that are dashboards are read in the order of the listing.\<close>

definition load :: "dashboard list \<Rightarrow> dashboard_store \<Rightarrow> dashboard_store" where
  "load files st = st\<lparr>dashboards := dashboards st @ load_objects db_id files []\<rparr>"

definition has_duplicate :: "dashboard \<Rightarrow> dashboard list \<Rightarrow> bool" where
  "has_duplicate d ds \<longleftrightarrow> list_ex (\<lambda>x. db_title x = db_title d \<and> db_id x \<noteq> db_id d) ds"

text \<open>\<open>save_dashboard\<close> and \<open>put_dashboard\<close>; \<open>set_metadata\<close> has set the author and the identifier.\<close>

definition save_dashboard :: "dashboard_env \<Rightarrow> dashboard \<Rightarrow> dashboard_store \<Rightarrow> (dashboard_store \<times> (dashboard_error + unit)) option" where
  "save_dashboard env d st =
     (case dashboard_path d of
        None \<Rightarrow> None
      | Some p \<Rightarrow>
          Some (if put_ok env then (st\<lparr>dashboard_files := (dashboard_files st)(p \<mapsto> d)\<rparr>, Inr ())
                else (st, Inl MetastoreFailed)))"

definition create :: "dashboard_env \<Rightarrow> string \<Rightarrow> dashboard \<Rightarrow> dashboard_store \<Rightarrow> dashboard dashboard_result option" where
  "create env user d0 st =
     (let d = set_metadata env user None (d0\<lparr>db_created := Some (db_now env)\<rparr>) in
      if has_duplicate d (dashboards st) then Some (st, Inl (Metadata ''Dashboard title must be unique''))
      else (case save_dashboard env d st of
              None \<Rightarrow> None
            | Some (st', Inl e) \<Rightarrow> Some (st', Inl e)
            | Some (st', Inr _) \<Rightarrow> Some (st'\<lparr>dashboards := dashboards st' @ [d]\<rparr>, Inr d)))"

definition not_accessible :: dashboard_error where
  "not_accessible = Metadata ''Dashboard does not exist or you do not have permission to access it''"

definition update :: "dashboard_env \<Rightarrow> string \<Rightarrow> ulid \<Rightarrow> dashboard \<Rightarrow> dashboard_store \<Rightarrow> dashboard dashboard_result option" where
  "update env user i d0 st =
     (case find (\<lambda>x. db_id x = Some i \<and> db_author x = Some user) (dashboards st) of
        None \<Rightarrow> Some (st, Inl not_accessible)
      | Some existing \<Rightarrow>
          let d = (set_metadata env user (Some i) d0)\<lparr>db_created := db_created existing\<rparr> in
          if has_duplicate d (dashboards st) then Some (st, Inl (Metadata ''Dashboard title must be unique''))
          else (case save_dashboard env d st of
                  None \<Rightarrow> None
                | Some (st', Inl e) \<Rightarrow> Some (st', Inl e)
                | Some (st', Inr _) \<Rightarrow>
                    Some (st'\<lparr>dashboards := retain_other db_id (Some i) (dashboards st') @ [d]\<rparr>, Inr d)))"

definition get_dashboard :: "ulid \<Rightarrow> dashboard_store \<Rightarrow> dashboard option" where
  "get_dashboard i st = find (\<lambda>d. db_id d = Some i) (dashboards st)"

definition get_dashboard_by_user :: "ulid \<Rightarrow> string \<Rightarrow> bool \<Rightarrow> dashboard_store \<Rightarrow> dashboard option" where
  "get_dashboard_by_user i user admin st =
     find (\<lambda>d. db_id d = Some i \<and> (db_author d = Some user \<or> admin)) (dashboards st)"

definition ensure_dashboard_ownership :: "ulid \<Rightarrow> string \<Rightarrow> bool \<Rightarrow> dashboard_store \<Rightarrow> dashboard_error + dashboard" where
  "ensure_dashboard_ownership i user admin st =
     (case get_dashboard_by_user i user admin st of Some d \<Rightarrow> Inr d | None \<Rightarrow> Inl not_accessible)"

definition delete_dashboard :: "dashboard_env \<Rightarrow> string \<Rightarrow> ulid \<Rightarrow> bool \<Rightarrow> dashboard_store \<Rightarrow> unit dashboard_result option" where
  "delete_dashboard env user i admin st =
     (case ensure_dashboard_ownership i user admin st of
        Inl e \<Rightarrow> Some (st, Inl e)
      | Inr d \<Rightarrow>
          (case dashboard_path d of
             None \<Rightarrow> None
           | Some p \<Rightarrow>
               Some (if delete_ok env
                     then (st\<lparr>dashboard_files := (dashboard_files st)(p := None),
                              dashboards := retain_other db_id (Some i) (dashboards st)\<rparr>, Inr ())
                     else (st, Inl MetastoreFailed))))"

text \<open>The listing: the latest change first, dashboards without a time of change at the end.\<close>

definition list_dashboards :: "nat \<Rightarrow> dashboard_store \<Rightarrow> dashboard list" where
  "list_dashboards limit st =
     (let sorted = sort_key (\<lambda>d. case db_modified d of Some t \<Rightarrow> (0 :: nat, - t) | None \<Rightarrow> (1, 0))
                     (filter (\<lambda>d. db_id d \<noteq> None) (dashboards st))
      in if limit > 0 then take limit sorted else sorted)"

definition list_tags :: "dashboard_store \<Rightarrow> string list" where
  "list_tags st =
     remdups_adj (sort (concat (map (\<lambda>d. case db_tags d of Some ts \<Rightarrow> ts | None \<Rightarrow> []) (dashboards st))))"

definition list_dashboards_by_tags :: "string list \<Rightarrow> dashboard_store \<Rightarrow> dashboard list" where
  "list_dashboards_by_tags tags st =
     filter (\<lambda>d. case db_tags d of Some ts \<Rightarrow> list_ex (\<lambda>t. t \<in> set tags) ts | None \<Rightarrow> False) (dashboards st)"

section \<open>Requests\<close>

definition split_tags :: "string \<Rightarrow> string list" where
  "split_tags s = filter (\<lambda>t. t \<noteq> []) (map trim (split_on CHR '','' s))"

definition list_request :: "dashboard_env \<Rightarrow> (string \<times> string) list \<Rightarrow> dashboard_store \<Rightarrow> dashboard_error + jobject list" where
  "list_request env q st =
     bind_result
       (case map_of q ''limit'' of
          None \<Rightarrow> Inr 0
        | Some s \<Rightarrow> (case parse_usize s of Some n \<Rightarrow> Inr n | None \<Rightarrow> Inl (Metadata ''Invalid limit value'')))
       (\<lambda>limit.
          case map_of q ''tags'' of
            None \<Rightarrow> Inr (map (to_summary env) (list_dashboards limit st))
          | Some s \<Rightarrow>
              if split_tags s = [] then Inl (Metadata ''Tags cannot be empty'')
              else Inr (map (to_summary env) (list_dashboards_by_tags (split_tags s) st)))"

definition get_request :: "dashboard_env \<Rightarrow> string \<Rightarrow> dashboard_store \<Rightarrow> dashboard_error + dashboard" where
  "get_request env s st =
     bind_result (validate_dashboard_id env s)
       (\<lambda>i. case get_dashboard i st of Some d \<Rightarrow> Inr d | None \<Rightarrow> Inl (Metadata ''Dashboard does not exist''))"

definition create_request :: "dashboard_env \<Rightarrow> string \<Rightarrow> dashboard \<Rightarrow> dashboard_store \<Rightarrow> dashboard dashboard_result option" where
  "create_request env user d st =
     (if db_title d = [] then Some (st, Inl (Metadata ''Title must be provided'')) else create env user d st)"

definition check_tiles :: "tile list option \<Rightarrow> dashboard_error + unit" where
  "check_tiles tiles =
     (case tiles of
        None \<Rightarrow> Inr ()
      | Some ts \<Rightarrow>
          if list_ex (\<lambda>t. tile_id t = 0) ts then Inl (Metadata ''Tile ID must be provided'')
          else if \<not> distinct (map tile_id ts) then Inl (Metadata ''Tile IDs must be unique'')
          else Inr ())"

definition partial_update :: "(string \<times> string) list \<Rightarrow> dashboard \<Rightarrow> dashboard_error + dashboard" where
  "partial_update q d0 =
     (let d1 = (case map_of q ''isFavorite'' of None \<Rightarrow> d0 | Some s \<Rightarrow> d0\<lparr>db_favorite := Some (s = ''true'')\<rparr>);
          d2 = (case map_of q ''tags'' of
                  None \<Rightarrow> d1
                | Some s \<Rightarrow> d1\<lparr>db_tags := (if split_tags s = [] then None else Some (split_tags s))\<rparr>)
      in case map_of q ''renameTo'' of
           None \<Rightarrow> Inr d2
         | Some s \<Rightarrow>
             if trim s = [] then Inl (Metadata ''Rename to cannot be empty'') else Inr (d2\<lparr>db_title := trim s\<rparr>))"

definition update_request ::
  "dashboard_env \<Rightarrow> string \<Rightarrow> bool \<Rightarrow> string \<Rightarrow> (string \<times> string) list \<Rightarrow> dashboard option \<Rightarrow> dashboard_store
   \<Rightarrow> dashboard dashboard_result option" where
  "update_request env user admin s q body st =
     (case validate_dashboard_id env s of
        Inl e \<Rightarrow> Some (st, Inl e)
      | Inr i \<Rightarrow>
          (case get_dashboard_by_user i user admin st of
             None \<Rightarrow> Some (st, Inl (Metadata ''Dashboard does not exist or user is not authorized''))
           | Some existing \<Rightarrow>
               let body_update = (case body of None \<Rightarrow> False
                 | Some d \<Rightarrow> db_title d \<noteq> db_title existing \<or> db_tiles d \<noteq> None)
               in if q \<noteq> [] \<and> body_update
                  then Some (st, Inl (Metadata ''Cannot use both query parameters and request body for updates''))
                  else (case (if q \<noteq> [] then partial_update q existing
                              else (case body of
                                      None \<Rightarrow> Inl (Metadata ''Request body is required'')
                                    | Some d \<Rightarrow> bind_result (check_tiles (db_tiles d)) (\<lambda>_. Inr d))) of
                          Inl e \<Rightarrow> Some (st, Inl e)
                        | Inr d \<Rightarrow> update env user i d st)))"

definition delete_request :: "dashboard_env \<Rightarrow> string \<Rightarrow> bool \<Rightarrow> string \<Rightarrow> dashboard_store \<Rightarrow> unit dashboard_result option" where
  "delete_request env user admin s st =
     (case validate_dashboard_id env s of Inl e \<Rightarrow> Some (st, Inl e) | Inr i \<Rightarrow> delete_dashboard env user i admin st)"

definition add_tile :: "dashboard_env \<Rightarrow> string \<Rightarrow> bool \<Rightarrow> string \<Rightarrow> tile \<Rightarrow> dashboard_store \<Rightarrow> dashboard dashboard_result option" where
  "add_tile env user admin s t st =
     (if tile_id t = 0 then Some (st, Inl (Metadata ''Tile ID must be provided''))
      else case validate_dashboard_id env s of
        Inl e \<Rightarrow> Some (st, Inl e)
      | Inr i \<Rightarrow>
          (case get_dashboard_by_user i user admin st of
             None \<Rightarrow> Some (st, Inl Unauthorized)
           | Some d \<Rightarrow>
               let tiles = (case db_tiles d of Some ts \<Rightarrow> ts | None \<Rightarrow> []) in
               if list_ex (\<lambda>x. tile_id x = tile_id t) tiles then Some (st, Inl (Metadata ''Tile already exists''))
               else update env user i (d\<lparr>db_tiles := Some (tiles @ [t])\<rparr>) st))"

section \<open>Memory and files\<close>

interpretation owned_dashboards: owned_objects db_id dashboard_path
  by unfold_locales (auto simp: dashboard_path_def split: option.splits)

definition dashboards_ok :: "dashboard_store \<Rightarrow> bool" where
  "dashboards_ok st \<longleftrightarrow> mirrors db_id dashboard_path (dashboards st) (dashboard_files st)"

definition titles_unique :: "dashboard_store \<Rightarrow> bool" where
  "titles_unique st \<longleftrightarrow> distinct (map db_title (dashboards st))"


datatype dashboard_op =
    Create_op string dashboard
  | Update_op string bool string "(string \<times> string) list" "dashboard option"
  | Delete_op string bool string
  | Tile_op string bool string tile

fun op_user :: "dashboard_op \<Rightarrow> string" where
  "op_user (Create_op u _) = u"
| "op_user (Update_op u _ _ _ _) = u"
| "op_user (Delete_op u _ _) = u"
| "op_user (Tile_op u _ _ _) = u"

fun run_op :: "dashboard_env \<Rightarrow> dashboard_op \<Rightarrow> dashboard_store \<Rightarrow> dashboard_store option" where
  "run_op env (Create_op u d) st = map_option fst (create_request env u d st)"
| "run_op env (Update_op u a s q b) st = map_option fst (update_request env u a s q b st)"
| "run_op env (Delete_op u a s) st = map_option fst (delete_request env u a s st)"
| "run_op env (Tile_op u a s t) st = map_option fst (add_tile env u a s t st)"

text \<open>The states reached by requests and restarts. A restart lists the files in any order; it may find
  only some of them, or none when the listing fails, unless restarts are said to be full. A request writes or
  removes a file whole, or fails and leaves it as it was.\<close>

inductive dashboards_reachable :: "bool \<Rightarrow> dashboard_store \<Rightarrow> bool" for full :: bool where
  start: "dashboards_reachable full \<lparr>dashboards = [], dashboard_files = Map.empty\<rparr>"
| request: "dashboards_reachable full st \<Longrightarrow> Some (fresh_ulid env) \<notin> db_id ` set (dashboards st) \<Longrightarrow>
    run_op env op st = Some st' \<Longrightarrow> dashboards_reachable full st'"
| restart: "dashboards_reachable full st \<Longrightarrow> set files \<subseteq> ran (dashboard_files st) \<Longrightarrow> distinct files \<Longrightarrow>
    (full \<Longrightarrow> set files = ran (dashboard_files st)) \<Longrightarrow>
    dashboards_reachable full (load files (st\<lparr>dashboards := []\<rparr>))"

definition dashboards_inv :: "dashboard_store \<Rightarrow> bool" where
  "dashboards_inv st \<longleftrightarrow> dashboards_ok st \<and> titles_unique st"

lemma set_metadata_fields [simp]:
  "db_author (set_metadata env u i d) = Some u" "db_title (set_metadata env u i d) = db_title d"
  "db_id (set_metadata env u i d) = Some (case i of Some k \<Rightarrow> k | None \<Rightarrow> fresh_ulid env)"
  by (simp_all add: set_metadata_def split: option.splits)

lemma has_duplicate_iff: "has_duplicate d ds \<longleftrightarrow> (\<exists>x \<in> set ds. db_title x = db_title d \<and> db_id x \<noteq> db_id d)"
  by (auto simp: has_duplicate_def list_ex_iff)

text \<open>Saving a dashboard in the place of those with its identifier keeps the invariant.\<close>

lemma save_inv:
  assumes inv: "dashboards_inv st" and path: "dashboard_path d = Some p"
    and same: "\<forall>y \<in> set (dashboards st). db_id y = db_id d \<longrightarrow> dashboard_path y = Some p"
    and dup: "\<not> has_duplicate d (dashboards st)"
  shows "dashboards_inv (st\<lparr>dashboard_files := (dashboard_files st)(p \<mapsto> d),
    dashboards := replace_object db_id d (dashboards st)\<rparr>)"
proof -
  have "dashboards_ok (st\<lparr>dashboard_files := (dashboard_files st)(p \<mapsto> d), dashboards := replace_object db_id d (dashboards st)\<rparr>)"
    using owned_dashboards.put_mirrors [of "dashboards st" "dashboard_files st" d p] inv path same
    by (simp add: dashboards_ok_def dashboards_inv_def)
  moreover have "distinct (map db_title (replace_object db_id d (dashboards st)))"
    using inv dup by (auto simp: dashboards_inv_def titles_unique_def replace_object_def has_duplicate_iff distinct_retain)
  ultimately show ?thesis by (simp add: dashboards_inv_def titles_unique_def)
qed

lemma fresh_replace: "db_id d \<notin> db_id ` set mem \<Longrightarrow> replace_object db_id d mem = mem @ [d]"
  unfolding replace_object_def retain_other_def by (simp, intro filter_True ballI) (metis imageI)

lemma create_inv:
  assumes "dashboards_inv st" and "Some (fresh_ulid env) \<notin> db_id ` set (dashboards st)"
  shows "\<exists>st' r. create env u d0 st = Some (st', r) \<and> dashboards_inv st' \<and> set (dashboards st) \<subseteq> set (dashboards st')"
proof -
  let ?d = "set_metadata env u None (d0\<lparr>db_created := Some (db_now env)\<rparr>)"
  have path: "dashboard_path ?d = Some (u, fresh_ulid env)" by (simp add: dashboard_path_def)
  have fresh: "db_id ?d \<notin> db_id ` set (dashboards st)" using assms(2) by simp
  then have same: "\<forall>y \<in> set (dashboards st). db_id y = db_id ?d \<longrightarrow> dashboard_path y = Some (u, fresh_ulid env)"
    by (metis imageI)
  show ?thesis
    using save_inv [OF assms(1) path same] assms(1) fresh_replace [OF fresh]
    by (simp add: create_def Let_def save_dashboard_def path) (auto simp: dashboards_inv_def)
qed

lemma found: "find P xs = Some x \<Longrightarrow> x \<in> set xs \<and> P x"
  by (auto simp: find_Some_iff)

lemma update_inv:
  assumes inv: "dashboards_inv st"
  shows "\<exists>st' r. update env u i d0 st = Some (st', r) \<and> dashboards_inv st' \<and>
    (\<forall>x \<in> set (dashboards st). db_author x \<noteq> Some u \<longrightarrow> x \<in> set (dashboards st'))"
proof (cases "find (\<lambda>x. db_id x = Some i \<and> db_author x = Some u) (dashboards st)")
  case None
  with inv show ?thesis by (simp add: update_def)
next
  case (Some existing)
  let ?d = "(set_metadata env u (Some i) d0)\<lparr>db_created := db_created existing\<rparr>"
  have path: "dashboard_path ?d = Some (u, i)" by (simp add: dashboard_path_def)
  have ex: "existing \<in> set (dashboards st)" "db_id existing = Some i" "db_author existing = Some u" using found [OF Some] by auto
  have only: "y = existing" if "y \<in> set (dashboards st)" "db_id y = Some i" for y
    using inv ex that by (auto simp: dashboards_inv_def dashboards_ok_def mirrors_def distinct_map inj_on_def)
  have "dashboard_path existing = Some (u, i)" using ex by (simp add: dashboard_path_def)
  with only have same: "\<forall>y \<in> set (dashboards st). db_id y = db_id ?d \<longrightarrow> dashboard_path y = Some (u, i)"
    by fastforce
  have new: "retain_other db_id (Some i) (dashboards st) @ [?d] = replace_object db_id ?d (dashboards st)"
    by (simp add: replace_object_def)
  have kept: "x \<in> set (replace_object db_id ?d (dashboards st))" if "x \<in> set (dashboards st)" "db_author x \<noteq> Some u" for x
    using only [of x] ex(3) that by auto
  show ?thesis
  proof (cases "\<not> has_duplicate ?d (dashboards st) \<and> put_ok env")
    case True
    then have "update env u i d0 st = Some (st\<lparr>dashboard_files := (dashboard_files st)((u, i) \<mapsto> ?d),
        dashboards := replace_object db_id ?d (dashboards st)\<rparr>, Inr ?d)"
      using Some by (simp add: update_def Let_def save_dashboard_def path new)
    with save_inv [OF inv path same] True kept show ?thesis by simp
  next
    case False
    then have "\<exists>r. update env u i d0 st = Some (st, r)"
      using Some by (auto simp: update_def Let_def save_dashboard_def path)
    with inv show ?thesis by blast
  qed
qed

lemma delete_inv:
  assumes inv: "dashboards_inv st"
  shows "\<exists>st' r. delete_dashboard env u i admin st = Some (st', r) \<and> dashboards_inv st' \<and>
    (\<not> admin \<longrightarrow> (\<forall>x \<in> set (dashboards st). db_author x \<noteq> Some u \<longrightarrow> x \<in> set (dashboards st')))"
proof (cases "get_dashboard_by_user i u admin st")
  case None
  with inv show ?thesis by (simp add: delete_dashboard_def ensure_dashboard_ownership_def)
next
  case (Some d)
  then have d: "d \<in> set (dashboards st)" "db_id d = Some i" "db_author d = Some u \<or> admin"
    using found by (fastforce simp: get_dashboard_by_user_def)+
  have only: "y = d" if "y \<in> set (dashboards st)" "db_id y = Some i" for y
    using inv d that by (auto simp: dashboards_inv_def dashboards_ok_def mirrors_def distinct_map inj_on_def)
  from inv d(1) obtain p where p: "dashboard_path d = Some p"
    by (auto simp: dashboards_inv_def dashboards_ok_def mirrors_def)
  have "dashboards_ok (st\<lparr>dashboard_files := (dashboard_files st)(p := None), dashboards := retain_other db_id (Some i) (dashboards st)\<rparr>)"
    using owned_dashboards.delete_mirrors [OF _ d(1) p] inv d(2) by (simp add: dashboards_inv_def dashboards_ok_def)
  moreover have "distinct (map db_title (retain_other db_id (Some i) (dashboards st)))"
    using inv by (simp add: dashboards_inv_def titles_unique_def retain_other_def distinct_map_filter)
  moreover have "x \<in> set (retain_other db_id (Some i) (dashboards st))"
    if "\<not> admin" "x \<in> set (dashboards st)" "db_author x \<noteq> Some u" for x
    using only [of x] d(3) that by auto
  ultimately show ?thesis
    using Some p inv
    by (simp add: delete_dashboard_def ensure_dashboard_ownership_def dashboards_inv_def titles_unique_def)
qed


lemma run_op_inv:
  assumes inv: "dashboards_inv st" and fresh: "Some (fresh_ulid env) \<notin> db_id ` set (dashboards st)"
  shows "\<exists>st'. run_op env op st = Some st' \<and> dashboards_inv st' \<and>
    (\<forall>x \<in> set (dashboards st). x \<notin> set (dashboards st') \<longrightarrow>
       db_author x = Some (op_user op) \<or> (\<exists>s. op = Delete_op (op_user op) True s))"
proof (cases op)
  case (Create_op u d)
  with inv create_inv [OF inv fresh, of u d] show ?thesis by (auto simp: create_request_def)
next
  case (Update_op u a s q b)
  show ?thesis
  proof (cases "\<exists>i d. update_request env u a s q b st = update env u i d st")
    case True
    then obtain i d where "update_request env u a s q b st = update env u i d st" by blast
    with Update_op update_inv [OF inv, of env u i d] show ?thesis by auto
  next
    case False
    then have "\<exists>e. update_request env u a s q b st = Some (st, Inl e)"
      by (auto simp: update_request_def Let_def split: sum.splits option.splits if_splits)
    with inv Update_op show ?thesis by auto
  qed
next
  case (Delete_op u a s)
  show ?thesis
  proof (cases "validate_dashboard_id env s")
    case (Inl e)
    with inv Delete_op show ?thesis by (simp add: delete_request_def)
  next
    case (Inr i)
    with delete_inv [OF inv, of env u i a] Delete_op show ?thesis by (cases a) (auto simp: delete_request_def)
  qed
next
  case (Tile_op u a s t)
  show ?thesis
  proof (cases "\<exists>i d. add_tile env u a s t st = update env u i d st")
    case True
    then obtain i d where "add_tile env u a s t st = update env u i d st" by blast
    with Tile_op update_inv [OF inv, of env u i d] show ?thesis by auto
  next
    case False
    then have "\<exists>e. add_tile env u a s t st = Some (st, Inl e)"
      by (auto simp: add_tile_def Let_def split: sum.splits option.splits if_splits)
    with inv Tile_op show ?thesis by auto
  qed
qed

lemma load_inv:
  assumes "dashboards_inv st" and "set files = ran (dashboard_files st)" and "distinct files"
  shows "dashboards_inv (load files (st\<lparr>dashboards := []\<rparr>)) \<and>
    set (dashboards (load files (st\<lparr>dashboards := []\<rparr>))) = set (dashboards st)"
proof -
  have l: "load_objects db_id files [] = files" "set files = set (dashboards st)"
    using owned_dashboards.load_mirrors [OF _ assms(2,3)] assms(1) by (auto simp: dashboards_inv_def dashboards_ok_def)
  have "distinct (map db_id files)" "distinct (map db_title files)"
    using assms(1,3) l(2) by (auto simp: dashboards_inv_def dashboards_ok_def titles_unique_def mirrors_def distinct_map)
  with assms(1) l show ?thesis
    by (simp add: load_def dashboards_inv_def dashboards_ok_def titles_unique_def mirrors_def)
qed

lemma dashboards_reachable_inv: "dashboards_reachable True st \<Longrightarrow> dashboards_inv st"
proof (induction rule: dashboards_reachable.induct)
  case start
  show ?case by (simp add: dashboards_inv_def dashboards_ok_def titles_unique_def mirrors_def)
next
  case (request st env op st')
  with run_op_inv [of st env op] show ?case by auto
next
  case (restart st files)
  with load_inv [of st files] show ?case by simp
qed

text \<open>What a request does to memory and files, whatever memory lacks: nothing, or it saves or removes
  one dashboard.\<close>

abbreviation saved :: "dashboard \<Rightarrow> string \<times> ulid \<Rightarrow> dashboard_store \<Rightarrow> dashboard_store" where
  "saved d p st \<equiv> st\<lparr>dashboard_files := (dashboard_files st)(p \<mapsto> d), dashboards := replace_object db_id d (dashboards st)\<rparr>"

abbreviation removed :: "dashboard \<Rightarrow> string \<times> ulid \<Rightarrow> dashboard_store \<Rightarrow> dashboard_store" where
  "removed d p st \<equiv> st\<lparr>dashboard_files := (dashboard_files st)(p := None), dashboards := retain_other db_id (db_id d) (dashboards st)\<rparr>"

definition one_change :: "dashboard_store \<Rightarrow> dashboard_store \<Rightarrow> bool" where
  "one_change st st' \<longleftrightarrow> st' = st \<or> (\<exists>d p. dashboard_path d = Some p \<and> (st' = saved d p st \<or> st' = removed d p st))"

lemma one_change_refl [simp]: "one_change st st"
  by (simp add: one_change_def)

lemma one_change_saved: "dashboard_path d = Some p \<Longrightarrow> one_change st (saved d p st)"
  unfolding one_change_def by blast

lemma one_change_removed: "dashboard_path d = Some p \<Longrightarrow> one_change st (removed d p st)"
  unfolding one_change_def by blast

lemma one_change_backed:
  assumes "one_change st st'" and "backed db_id dashboard_path (dashboards st) (dashboard_files st)"
  shows "backed db_id dashboard_path (dashboards st') (dashboard_files st')"
proof -
  consider "st' = st" | d p where "dashboard_path d = Some p" "st' = saved d p st"
    | d p where "dashboard_path d = Some p" "st' = removed d p st"
    using assms(1) unfolding one_change_def by blast
  then show ?thesis
  proof cases
    case 1
    with assms(2) show ?thesis by simp
  next
    case 2
    then show ?thesis using owned_dashboards.put_backed [OF assms(2)] by simp
  next
    case 3
    then show ?thesis using owned_dashboards.delete_backed [OF assms(2)] by simp
  qed
qed

lemma create_changes:
  assumes "Some (fresh_ulid env) \<notin> db_id ` set (dashboards st)"
  shows "\<exists>st' r. create env u d0 st = Some (st', r) \<and> one_change st st'"
proof -
  let ?d = "set_metadata env u None (d0\<lparr>db_created := Some (db_now env)\<rparr>)"
  have path: "dashboard_path ?d = Some (u, fresh_ulid env)" by (simp add: dashboard_path_def)
  have fresh: "db_id ?d \<notin> db_id ` set (dashboards st)" using assms by simp
  show ?thesis
  proof (cases "\<not> has_duplicate ?d (dashboards st) \<and> put_ok env")
    case True
    then have "create env u d0 st = Some (saved ?d (u, fresh_ulid env) st, Inr ?d)"
      by (simp add: create_def Let_def save_dashboard_def path fresh_replace [OF fresh])
    then show ?thesis using one_change_saved [OF path] by blast
  qed (auto simp: create_def Let_def save_dashboard_def path)
qed

lemma update_changes: "\<exists>st' r. update env u i d0 st = Some (st', r) \<and> one_change st st'"
proof (cases "find (\<lambda>x. db_id x = Some i \<and> db_author x = Some u) (dashboards st)")
  case (Some existing)
  let ?d = "(set_metadata env u (Some i) d0)\<lparr>db_created := db_created existing\<rparr>"
  have path: "dashboard_path ?d = Some (u, i)" by (simp add: dashboard_path_def)
  have new: "retain_other db_id (Some i) (dashboards st) @ [?d] = replace_object db_id ?d (dashboards st)"
    by (simp add: replace_object_def)
  show ?thesis
  proof (cases "\<not> has_duplicate ?d (dashboards st) \<and> put_ok env")
    case True
    then have "update env u i d0 st = Some (saved ?d (u, i) st, Inr ?d)"
      using Some by (simp add: update_def Let_def save_dashboard_def path new)
    then show ?thesis using one_change_saved [OF path] by blast
  qed (use Some in \<open>auto simp: update_def Let_def save_dashboard_def path\<close>)
qed (simp add: update_def)

lemma delete_changes:
  assumes "\<forall>x \<in> set (dashboards st). dashboard_path x \<noteq> None"
  shows "\<exists>st' r. delete_dashboard env u i admin st = Some (st', r) \<and> one_change st st'"
proof (cases "get_dashboard_by_user i u admin st")
  case (Some d)
  then have d: "d \<in> set (dashboards st)" "db_id d = Some i" using found by (fastforce simp: get_dashboard_by_user_def)+
  then obtain p where p: "dashboard_path d = Some p" using assms by blast
  show ?thesis
  proof (cases "delete_ok env")
    case True
    then have "delete_dashboard env u i admin st = Some (removed d p st, Inr ())"
      using Some p d(2) by (simp add: delete_dashboard_def ensure_dashboard_ownership_def)
    then show ?thesis using one_change_removed [OF p] by blast
  qed (use Some p in \<open>simp add: delete_dashboard_def ensure_dashboard_ownership_def\<close>)
qed (simp add: delete_dashboard_def ensure_dashboard_ownership_def)

lemma run_op_changes:
  assumes "\<forall>x \<in> set (dashboards st). dashboard_path x \<noteq> None" and fresh: "Some (fresh_ulid env) \<notin> db_id ` set (dashboards st)"
  shows "\<exists>st'. run_op env op st = Some st' \<and> one_change st st'"
proof (cases op)
  case (Create_op u d)
  with create_changes [OF fresh, of u d] show ?thesis by (auto simp: create_request_def)
next
  case (Update_op u a s q b)
  have "(\<exists>i d. update_request env u a s q b st = update env u i d st) \<or> (\<exists>e. update_request env u a s q b st = Some (st, Inl e))"
    by (auto simp: update_request_def Let_def split: sum.splits option.splits if_splits)
  then show ?thesis using Update_op update_changes by fastforce
next
  case (Delete_op u a s)
  then show ?thesis
    using delete_changes [OF assms(1), of env u _ a] by (fastforce simp: delete_request_def split: sum.splits)
next
  case (Tile_op u a s t)
  have "(\<exists>i d. add_tile env u a s t st = update env u i d st) \<or> (\<exists>e. add_tile env u a s t st = Some (st, Inl e))"
    by (auto simp: add_tile_def Let_def split: sum.splits option.splits if_splits)
  then show ?thesis using Tile_op update_changes by fastforce
qed

lemma backed_paths:
  "backed db_id dashboard_path mem files \<Longrightarrow> x \<in> set mem \<Longrightarrow> \<exists>p. dashboard_path x = Some p \<and> files p = Some x"
  by (fastforce simp: backed_def ran_def)

lemma dashboards_reachable_backed:
  "dashboards_reachable full st \<Longrightarrow> backed db_id dashboard_path (dashboards st) (dashboard_files st)"
proof (induction rule: dashboards_reachable.induct)
  case start
  show ?case by (simp add: backed_def)
next
  case (request st env op st')
  then have "one_change st st'" using run_op_changes [of st env op] backed_paths by fastforce
  then show ?case using request.IH by (rule one_change_backed)
next
  case (restart st files)
  then show ?case using load_backed by (fastforce simp: load_def)
qed

text \<open>C18: Start without dashboards, and let any sequence of requests and restarts follow, where a new
  identifier is not one in memory, and a write or removal of a file may fail but then leaves the
  file as it was (the local drive does not promise this: \<open>failed_write_destroys\<close>).
  A restart may fail to list the files or find only some of them. Then every dashboard in memory
  is the content of its file, identifiers in memory are unique and no request panics. If every
  restart reads all files (\<open>full\<close>), memory and files hold the same dashboards, and
  the titles are unique as well.\<close>

theorem dashboards_follow_storage:
  assumes "dashboards_reachable full st" and "Some (fresh_ulid env) \<notin> db_id ` set (dashboards st)"
  shows "distinct (map db_id (dashboards st)) \<and>
    (\<forall>x \<in> set (dashboards st). \<exists>p. dashboard_path x = Some p \<and> dashboard_files st p = Some x) \<and>
    run_op env op st \<noteq> None \<and>
    (full \<longrightarrow> mirrors db_id dashboard_path (dashboards st) (dashboard_files st) \<and> distinct (map db_title (dashboards st)))"
proof -
  note backed = dashboards_reachable_backed [OF assms(1)]
  have "run_op env op st \<noteq> None" using run_op_changes [OF _ assms(2), of op] backed_paths [OF backed] by fastforce
  moreover have "full \<longrightarrow> mirrors db_id dashboard_path (dashboards st) (dashboard_files st) \<and> distinct (map db_title (dashboards st))"
    using dashboards_reachable_inv assms(1) by (cases full) (auto simp: dashboards_inv_def dashboards_ok_def titles_unique_def)
  ultimately show ?thesis using backed backed_paths [OF backed] by (simp add: backed_def)
qed

text \<open>
  A request only changes or removes dashboards of its own user, but for the removal by an
  administrator.
\<close>

theorem dashboards_of_others_kept:
  assumes "dashboards_reachable True st" and "Some (fresh_ulid env) \<notin> db_id ` set (dashboards st)"
    and "run_op env op st = Some st'" and "x \<in> set (dashboards st)" and "x \<notin> set (dashboards st')"
  shows "db_author x = Some (op_user op) \<or> (\<exists>s. op = Delete_op (op_user op) True s)"
  using run_op_inv [OF dashboards_reachable_inv [OF assms(1)] assms(2), of op] assms(3-5) by auto

text \<open>after a restart the same dashboards are there.\<close>

theorem restart_restores_dashboards:
  assumes "dashboards_reachable True st" and "set files = ran (dashboard_files st)" and "distinct files"
  shows "set (dashboards (load files (st\<lparr>dashboards := []\<rparr>))) = set (dashboards st)"
  using load_inv [OF dashboards_reachable_inv [OF assms(1)] assms(2,3)] by simp

text \<open>
  An administrator passes the check of the request for an update of another user's dashboard, but
  the table refuses it: nothing is changed.
\<close>

theorem admin_update_refused:
  assumes "dashboards_reachable True st" and "x \<in> set (dashboards st)" and "db_id x = Some i" and "db_author x \<noteq> Some u"
    and "ulid_from_string env s = Some i"
  shows "get_dashboard_by_user i u True st = Some x \<and> (\<exists>e. update_request env u True s q body st = Some (st, Inl e))"
proof -
  have only: "y = x" if "y \<in> set (dashboards st)" "db_id y = Some i" for y
    using dashboards_reachable_inv [OF assms(1)] assms(2,3) that
    by (auto simp: dashboards_inv_def dashboards_ok_def mirrors_def distinct_map inj_on_def)
  have "get_dashboard_by_user i u True st \<noteq> None"
    using assms(2,3) by (auto simp: get_dashboard_by_user_def find_None_iff)
  then have got: "get_dashboard_by_user i u True st = Some x"
    using found only by (fastforce simp: get_dashboard_by_user_def)
  have "find (\<lambda>y. db_id y = Some i \<and> db_author y = Some u) (dashboards st) = None"
    using only assms(4) by (auto simp: find_None_iff)
  then have refused: "update env u i d st = Some (st, Inl not_accessible)" for d by (simp add: update_def)
  have "\<exists>e. update_request env u True s q body st = Some (st, Inl e)"
    using assms(5) got refused
    by (auto simp: update_request_def validate_dashboard_id_def Let_def split: sum.splits option.splits if_splits)
  with got show ?thesis by simp
qed

section \<open>Examples\<close>

definition sample_dashboards :: dashboard_env where
  "sample_dashboards = \<lparr>db_now = 0, fresh_ulid = 1, put_ok = True, delete_ok = True,
     ulid_from_string = (\<lambda>s. if s = ''one'' then Some 1 else None), ulid_text = (\<lambda>_. []), time_text = (\<lambda>_. [])\<rparr>"

definition sample_dashboard :: dashboard where
  "sample_dashboard = \<lparr>db_version = None, db_title = ''errors'', db_author = None, db_id = None, db_created = None,
     db_modified = None, db_tags = None, db_favorite = None, db_type = None, db_tiles = None\<rparr>"

definition saved_dashboard :: dashboard where
  "saved_dashboard = \<lparr>db_version = Some ''v1'', db_title = ''errors'', db_author = Some ''ann'', db_id = Some 1,
     db_created = Some 0, db_modified = Some 0, db_tags = None, db_favorite = Some False, db_type = Some Dashboard_type,
     db_tiles = Some []\<rparr>"

definition saved_store :: dashboard_store where
  "saved_store = \<lparr>dashboards = [saved_dashboard], dashboard_files = [(''ann'', 1) \<mapsto> saved_dashboard]\<rparr>"

lemma saved_reachable: "dashboards_reachable True saved_store"
proof (rule dashboards_reachable.request [OF dashboards_reachable.start])
  show "Some (fresh_ulid sample_dashboards) \<notin> db_id ` set (dashboards \<lparr>dashboards = [], dashboard_files = Map.empty\<rparr>)" by simp
  show "run_op sample_dashboards (Create_op ''ann'' sample_dashboard) \<lparr>dashboards = [], dashboard_files = Map.empty\<rparr> = Some saved_store"
    by (simp add: create_request_def create_def sample_dashboard_def set_metadata_def sample_dashboards_def has_duplicate_def
        save_dashboard_def dashboard_path_def saved_store_def saved_dashboard_def Let_def)
qed

theorem dashboards_follow_storage_witness:
  "mirrors db_id dashboard_path (dashboards saved_store) (dashboard_files saved_store) \<and>
   run_op (sample_dashboards\<lparr>fresh_ulid := 2\<rparr>) (Delete_op ''bob'' False ''one'') saved_store \<noteq> None"
  using dashboards_follow_storage [OF saved_reachable, of "sample_dashboards\<lparr>fresh_ulid := 2\<rparr>" "Delete_op ''bob'' False ''one''"]
  by (simp add: saved_store_def saved_dashboard_def)

theorem dashboards_of_others_kept_witness:
  "\<exists>st'. run_op (sample_dashboards\<lparr>fresh_ulid := 2\<rparr>) (Delete_op ''ann'' False ''one'') saved_store = Some st' \<and> dashboards st' = [] \<and>
     db_author saved_dashboard = Some ''ann''"
proof -
  have run: "run_op (sample_dashboards\<lparr>fresh_ulid := 2\<rparr>) (Delete_op ''ann'' False ''one'') saved_store =
      Some \<lparr>dashboards = [], dashboard_files = [(''ann'', 1) \<mapsto> saved_dashboard]((''ann'', 1) := None)\<rparr>"
    by (simp add: delete_request_def validate_dashboard_id_def sample_dashboards_def delete_dashboard_def
        ensure_dashboard_ownership_def get_dashboard_by_user_def saved_store_def saved_dashboard_def dashboard_path_def
        retain_other_def)
  have "Some (fresh_ulid (sample_dashboards\<lparr>fresh_ulid := 2\<rparr>)) \<notin> db_id ` set (dashboards saved_store)"
    by (simp add: saved_store_def saved_dashboard_def)
  from dashboards_of_others_kept [OF saved_reachable this run, of saved_dashboard]
  have "db_author saved_dashboard = Some ''ann''" by (simp add: saved_store_def)
  with run show ?thesis by (intro exI conjI) (assumption, simp_all)
qed

theorem restart_restores_dashboards_witness:
  "set (dashboards (load [saved_dashboard] (saved_store\<lparr>dashboards := []\<rparr>))) = {saved_dashboard}"
  using restart_restores_dashboards [OF saved_reachable, of "[saved_dashboard]"] by (simp add: saved_store_def)

theorem admin_update_refused_witness:
  "\<exists>e. update_request sample_dashboards ''root'' True ''one'' [(''isFavorite'', ''true'')] None saved_store = Some (saved_store, Inl e)"
  using admin_update_refused [OF saved_reachable, of saved_dashboard 1 "''root''" sample_dashboards "''one''"]
  by (simp add: saved_store_def saved_dashboard_def sample_dashboards_def)

end
