(* ===== verification/Filters.thy ===== *)
theory Filters
  imports Owned_Objects Json Access
begin

text \<open>
  Saved filters (\<open>users/filters.rs\<close>), the requests on them (\<open>handlers/http/users/filters.rs\<close>) and
  their files (\<open>get_filters\<close>, \<open>put_filter\<close>, \<open>delete_filter\<close> of the object store). The path of a file
  holds the owner, the stream and the identifier of the filter.
\<close>

section \<open>Data\<close>

datatype filter_type = Filter_filter | SQL_filter | Search_filter

fun filter_type_to_str :: "filter_type \<Rightarrow> string" where
  "filter_type_to_str Filter_filter = ''filter''"
| "filter_type_to_str SQL_filter = ''sql''"
| "filter_type_to_str Search_filter = ''search''"

record filter_rule =
  fr_id :: string
  fr_field :: string
  fr_value :: string
  fr_operator :: string

record filter_rules =
  frs_id :: string
  frs_combinator :: string
  frs_rules :: "filter_rule list"

record filter_builder =
  fb_id :: string
  fb_combinator :: string
  fb_rules :: "filter_rules list"

record filter_query =
  fq_type :: filter_type
  fq_query :: "string option"
  fq_builder :: "filter_builder option"

record user_filter =
  fl_version :: "string option"
  fl_user :: "string option"
  fl_stream :: string
  fl_name :: string
  fl_id :: "string option"
  fl_query :: filter_query
  fl_time :: "(string \<times> string) option"
  fl_other :: "jobject option"

type_synonym filter_file = "string \<times> string \<times> string"

record filter_store =
  filters :: "user_filter list"
  filter_files :: "filter_file \<rightharpoonup> user_filter"

record filter_env =
  new_filter_id :: string
  filter_put_ok :: bool
  filter_delete_ok :: bool

datatype filters_error = FilterMetadata string | FilterMetastoreFailed

text \<open>A missing owner or identifier is a panic.\<close>

definition filter_path :: "user_filter \<Rightarrow> filter_file option" where
  "filter_path f = (case (fl_user f, fl_id f) of (Some u, Some i) \<Rightarrow> Some (u, fl_stream f, i) | _ \<Rightarrow> None)"

section \<open>The table and the requests\<close>

definition update_table :: "user_filter \<Rightarrow> filter_store \<Rightarrow> filter_store" where
  "update_table f st = st\<lparr>filters := replace_object fl_id f (filters st)\<rparr>"

definition delete_from_table :: "string \<Rightarrow> filter_store \<Rightarrow> filter_store" where
  "delete_from_table i st = st\<lparr>filters := retain_other fl_id (Some i) (filters st)\<rparr>"

definition get_filter :: "string \<Rightarrow> string \<Rightarrow> bool \<Rightarrow> filter_store \<Rightarrow> user_filter option" where
  "get_filter i user admin st = find (\<lambda>f. fl_id f = Some i \<and> (fl_user f = Some user \<or> admin)) (filters st)"

definition no_filter :: filters_error where
  "no_filter = FilterMetadata ''Filter does not exist or user is not authorized''"

definition put_filter :: "filter_env \<Rightarrow> user_filter \<Rightarrow> filter_store \<Rightarrow> (filter_store \<times> (filters_error + user_filter)) option" where
  "put_filter env f st =
     (case filter_path f of
        None \<Rightarrow> None
      | Some p \<Rightarrow>
          Some (if filter_put_ok env
                then (update_table f (st\<lparr>filter_files := (filter_files st)(p \<mapsto> f)\<rparr>), Inr f)
                else (st, Inl FilterMetastoreFailed)))"

definition post_filter :: "filter_env \<Rightarrow> string \<Rightarrow> user_filter \<Rightarrow> filter_store \<Rightarrow> (filter_store \<times> (filters_error + user_filter)) option" where
  "post_filter env user f st =
     put_filter env (f\<lparr>fl_id := Some (new_filter_id env), fl_user := Some user, fl_version := Some ''v2''\<rparr>) st"

definition update_filter ::
  "filter_env \<Rightarrow> string \<Rightarrow> bool \<Rightarrow> string \<Rightarrow> user_filter \<Rightarrow> filter_store \<Rightarrow> (filter_store \<times> (filters_error + user_filter)) option" where
  "update_filter env user admin i f st =
     (if get_filter i user admin st = None then Some (st, Inl no_filter)
      else put_filter env (f\<lparr>fl_id := Some i, fl_user := Some user, fl_version := Some ''v2''\<rparr>) st)"

definition delete_filter :: "filter_env \<Rightarrow> string \<Rightarrow> bool \<Rightarrow> string \<Rightarrow> filter_store \<Rightarrow> (filter_store \<times> (filters_error + unit)) option" where
  "delete_filter env user admin i st =
     (case get_filter i user admin st of
        None \<Rightarrow> Some (st, Inl no_filter)
      | Some f \<Rightarrow>
          (case filter_path f of
             None \<Rightarrow> None
           | Some p \<Rightarrow>
               Some (if filter_delete_ok env
                     then (delete_from_table i (st\<lparr>filter_files := (filter_files st)(p := None)\<rparr>), Inr ())
                     else (st, Inl FilterMetastoreFailed))))"

text \<open>The filters that a user may see; loading a stream to check it changes the directory. The tables
  that a query reads are found by a parser of another package.\<close>

definition filter_tables :: "(string \<Rightarrow> string list option) \<Rightarrow> user_filter \<Rightarrow> string list option" where
  "filter_tables resolve f =
     (if fq_type (fl_query f) = SQL_filter
      then resolve (case fq_query (fl_query f) of Some q \<Rightarrow> q | None \<Rightarrow> [])
      else Some [fl_stream f])"

fun list_filters ::
  "bool \<Rightarrow> (string \<Rightarrow> stream_type option) \<Rightarrow> (string \<Rightarrow> string list option) \<Rightarrow> permission list \<Rightarrow> user_filter list
   \<Rightarrow> directory \<Rightarrow> directory \<times> user_filter list" where
  "list_filters querier stored resolve perms [] d = (d, [])"
| "list_filters querier stored resolve perms (f # fs) d =
     (case filter_tables resolve f of
        None \<Rightarrow> list_filters querier stored resolve perms fs d
      | Some tables \<Rightarrow>
          (case user_auth_for_datasets querier stored perms tables d of
             (d', Inl _) \<Rightarrow> list_filters querier stored resolve perms fs d'
           | (d', Inr _) \<Rightarrow>
               (case list_filters querier stored resolve perms fs d' of (d'', out) \<Rightarrow> (d'', f # out))))"

section \<open>Loading\<close>

record filter_load_env =
  sha_hex :: "string \<Rightarrow> string"
  read_filter :: "json \<Rightarrow> user_filter option"
  remove_dir_ok :: "string \<Rightarrow> string \<Rightarrow> bool"
  migrate_put_ok :: bool

text \<open>The owner of a filter of version v1 is replaced by its hash; a missing owner is a panic.\<close>

definition migrate_v1_v2 :: "filter_load_env \<Rightarrow> jobject \<Rightarrow> jobject option" where
  "migrate_v1_v2 env m =
     do { v \<leftarrow> map_of m ''user_id'';
          u \<leftarrow> as_str v;
          Some (AList.update ''version'' (JString ''v2'') (AList.update ''user_id'' (JString (sha_hex env u)) m)) }"

definition text_field :: "jobject \<Rightarrow> string \<Rightarrow> string option" where
  "text_field m k = do { v \<leftarrow> map_of m k; as_str v }"

text \<open>One file. What is deleted before a migrated filter is written is the directory of the file, not the
  file; the read fails when that, or writing the migrated filter, fails.\<close>

definition keep_filter :: "filter_load_env \<Rightarrow> json \<Rightarrow> user_filter list \<Rightarrow> user_filter list" where
  "keep_filter env v acc = (case read_filter env v of Some f \<Rightarrow> replace_object fl_id f acc | None \<Rightarrow> acc)"

definition read_file ::
  "filter_load_env \<Rightarrow> string \<Rightarrow> string \<Rightarrow> json \<Rightarrow> user_filter list \<Rightarrow> (filter_file \<rightharpoonup> json)
   \<Rightarrow> ((filter_file \<rightharpoonup> json) \<times> (unit + user_filter list)) option" where
  "read_file env user stream v acc files =
     (case v of
        JObject m \<Rightarrow>
          if text_field m ''version'' = Some ''v1''
          then if \<not> remove_dir_ok env user stream then Some (files, Inl ())
               else (case migrate_v1_v2 env m of
                       None \<Rightarrow> None
                     | Some m' \<Rightarrow>
                         (case (text_field m' ''user_id'', text_field m' ''stream_name'', text_field m' ''filter_id'') of
                            (Some u, Some s, Some i) \<Rightarrow>
                              Some (if migrate_put_ok env
                                    then (files((u, s, i) \<mapsto> JObject m'), Inr (keep_filter env (JObject m') acc))
                                    else (files, Inl ()))
                          | _ \<Rightarrow> Some (files, Inr (keep_filter env (JObject m') acc))))
          else Some (files, Inr (keep_filter env v acc))
      | _ \<Rightarrow> Some (files, Inr acc))"

text \<open>\<open>get_filters\<close> over the files with their directories; a file that is not JSON has no value.\<close>

fun get_filters ::
  "filter_load_env \<Rightarrow> ((string \<times> string) \<times> json option) list \<Rightarrow> user_filter list \<Rightarrow> (filter_file \<rightharpoonup> json)
   \<Rightarrow> ((filter_file \<rightharpoonup> json) \<times> (unit + user_filter list)) option" where
  "get_filters env [] acc files = Some (files, Inr acc)"
| "get_filters env (((user, stream), None) # rest) acc files = Some (files, Inl ())"
| "get_filters env (((user, stream), Some v) # rest) acc files =
     (case read_file env user stream v acc files of
        None \<Rightarrow> None
      | Some (files', Inl e) \<Rightarrow> Some (files', Inl e)
      | Some (files', Inr acc') \<Rightarrow> get_filters env rest acc' files')"

text \<open>At the start; any failure leaves the table without filters.\<close>

definition load_filters ::
  "filter_load_env \<Rightarrow> ((string \<times> string) \<times> json option) list \<Rightarrow> (filter_file \<rightharpoonup> json) \<Rightarrow> user_filter list \<Rightarrow> user_filter list option" where
  "load_filters env listing files mem =
     map_option (\<lambda>(_, r). mem @ (case r of Inl _ \<Rightarrow> [] | Inr fs \<Rightarrow> fs)) (get_filters env listing [] files)"

section \<open>Memory and files\<close>

interpretation owned_filters: owned_objects fl_id filter_path
  by unfold_locales (auto simp: filter_path_def split: option.splits)

definition filters_ok :: "filter_store \<Rightarrow> bool" where
  "filters_ok st \<longleftrightarrow> mirrors fl_id filter_path (filters st) (filter_files st)"

lemma filter_found: "get_filter i u a st = Some f \<Longrightarrow> f \<in> set (filters st) \<and> fl_id f = Some i \<and> (fl_user f = Some u \<or> a)"
  by (auto simp: get_filter_def find_Some_iff)

lemma put_filter_ok:
  assumes "filters_ok st" and "filter_path f = Some p" and "\<forall>y \<in> set (filters st). fl_id y = fl_id f \<longrightarrow> filter_path y = filter_path f"
  shows "\<exists>st' r. put_filter env f st = Some (st', r) \<and> filters_ok st'"
  using owned_filters.put_mirrors [of "filters st" "filter_files st" f p] assms
  by (auto simp: put_filter_def filters_ok_def update_table_def)

lemma put_filter_moved:
  assumes ok: "filters_ok st" and y: "y \<in> set (filters st)" "fl_id y = fl_id f" and p: "filter_path f = Some p"
    and moved: "filter_path y \<noteq> Some p" and run: "put_filter env f st = Some (st', Inr f')"
  shows "\<not> filters_ok st' \<and> (\<exists>q. filter_path y = Some q \<and> filter_files st' q = Some y \<and> filter_files st' p = Some f) \<and>
    y \<notin> set (filters st')"
proof -
  from ok y(1) obtain q where q: "filter_path y = Some q" by (auto simp: filters_ok_def mirrors_def)
  have st': "st' = update_table f (st\<lparr>filter_files := (filter_files st)(p \<mapsto> f)\<rparr>)"
    using run p by (auto simp: put_filter_def split: if_splits)
  have files: "filter_files st' q = Some y \<and> filter_files st' p = Some f"
    using put_leaves_old [of fl_id filter_path "filters st" "filter_files st" y q f p] ok y(1) q p moved
    by (simp add: st' update_table_def filters_ok_def)
  have "y \<noteq> f" using moved p by auto
  then have gone: "y \<notin> set (filters st')" using y(2) by (simp add: st' update_table_def)
  with files have "\<not> filters_ok st'" unfolding filters_ok_def mirrors_def by blast
  with files gone q show ?thesis by blast
qed

text \<open>
  Creating and deleting filters keeps memory and files equal, whatever storage does, when the new
  identifier is fresh; an administrator may delete the filter of another user.
\<close>

theorem filters_follow_storage:
  assumes "filters_ok st" and "Some (new_filter_id env) \<notin> fl_id ` set (filters st)"
  shows "(\<exists>st' r. post_filter env user f st = Some (st', r) \<and> filters_ok st') \<and>
    (\<exists>st' r. delete_filter env user admin i st = Some (st', r) \<and> filters_ok st')"
proof
  let ?f = "f\<lparr>fl_id := Some (new_filter_id env), fl_user := Some user, fl_version := Some ''v2''\<rparr>"
  have p: "filter_path ?f = Some (user, fl_stream f, new_filter_id env)" by (simp add: filter_path_def)
  have "\<forall>y \<in> set (filters st). fl_id y = fl_id ?f \<longrightarrow> filter_path y = filter_path ?f"
    using assms(2) by (auto simp: image_iff)
  from put_filter_ok [OF assms(1) p this] show "\<exists>st' r. post_filter env user f st = Some (st', r) \<and> filters_ok st'"
    by (simp add: post_filter_def)
  show "\<exists>st' r. delete_filter env user admin i st = Some (st', r) \<and> filters_ok st'"
  proof (cases "get_filter i user admin st")
    case None
    with assms(1) show ?thesis by (simp add: delete_filter_def)
  next
    case (Some g)
    note g = filter_found [OF Some]
    from assms(1) g obtain q where q: "filter_path g = Some q" by (auto simp: filters_ok_def mirrors_def)
    have "filters_ok (delete_from_table i (st\<lparr>filter_files := (filter_files st)(q := None)\<rparr>))"
      using owned_filters.delete_mirrors [of "filters st" "filter_files st" g q] assms(1) g q
      by (simp add: filters_ok_def delete_from_table_def)
    with assms(1) Some q show ?thesis by (simp add: delete_filter_def)
  qed
qed

text \<open>
  An update keeps memory and files equal exactly when the user is the owner and the stream stays the
  same. Otherwise the old filter stays in its file, so a restart can bring it back.
\<close>

theorem filter_update_leaves_copy:
  assumes "filters_ok st" and "y \<in> set (filters st)" and "fl_id y = Some i"
    and "update_filter env user admin i f st = Some (st', Inr f')"
  shows "filters_ok st' \<longleftrightarrow> fl_user y = Some user \<and> fl_stream y = fl_stream f"
proof -
  let ?f = "f\<lparr>fl_id := Some i, fl_user := Some user, fl_version := Some ''v2''\<rparr>"
  have run: "put_filter env ?f st = Some (st', Inr f')" using assms(4) by (auto simp: update_filter_def split: if_splits)
  have p: "filter_path ?f = Some (user, fl_stream f, i)" by (simp add: filter_path_def)
  have only: "z = y" if "z \<in> set (filters st)" "fl_id z = Some i" for z
    using assms(1-3) that by (auto simp: filters_ok_def mirrors_def distinct_map inj_on_def)
  from assms(1,2) obtain u where "fl_user y = Some u" by (auto simp: filters_ok_def mirrors_def filter_path_def split: option.splits)
  with assms(3) have same: "filter_path y = Some (user, fl_stream f, i) \<longleftrightarrow> fl_user y = Some user \<and> fl_stream y = fl_stream f"
    by (simp add: filter_path_def)
  show ?thesis
  proof (cases "filter_path y = Some (user, fl_stream f, i)")
    case True
    then have "\<forall>z \<in> set (filters st). fl_id z = fl_id ?f \<longrightarrow> filter_path z = filter_path ?f" using only p by fastforce
    from put_filter_ok [OF assms(1) p this, of env] run True same show ?thesis by auto
  next
    case False
    with put_filter_moved [OF assms(1,2) _ p _ run] assms(3) same show ?thesis by simp
  qed
qed

text \<open>
  One file that is not JSON, or one old filter that cannot be rewritten, makes the whole load fail, and
  the server starts without any filter.
\<close>

theorem unreadable_filter_hides_all:
  assumes "(d, None) \<in> set listing" and "get_filters env listing [] files \<noteq> None"
  shows "load_filters env listing files mem = Some mem"
proof -
  have "\<exists>files'. get_filters env listing acc files = Some (files', Inl ())"
    if "(d, None) \<in> set listing" "get_filters env listing acc files \<noteq> None" for acc
    using that
  proof (induction env listing acc files rule: get_filters.induct)
    case (3 env user stream v rest acc files)
    from 3(3) obtain files' r where r: "read_file env user stream v acc files = Some (files', r)"
      by (cases "read_file env user stream v acc files") auto
    with 3 show ?case by (cases r) auto
  qed auto
  from this [OF assms] show ?thesis by (auto simp: load_filters_def)
qed

section \<open>Examples\<close>

definition sample_query :: filter_query where
  "sample_query = \<lparr>fq_type = Search_filter, fq_query = None, fq_builder = None\<rparr>"

definition sample_filter :: "string \<Rightarrow> string \<Rightarrow> user_filter" where
  "sample_filter u s = \<lparr>fl_version = Some ''v2'', fl_user = Some u, fl_stream = s, fl_name = ''slow'', fl_id = Some ''f'',
     fl_query = sample_query, fl_time = None, fl_other = None\<rparr>"

definition sample_filters :: filter_store where
  "sample_filters = \<lparr>filters = [sample_filter ''ann'' ''web''],
     filter_files = [(''ann'', ''web'', ''f'') \<mapsto> sample_filter ''ann'' ''web'']\<rparr>"

definition sample_filter_env :: filter_env where
  "sample_filter_env = \<lparr>new_filter_id = ''g'', filter_put_ok = True, filter_delete_ok = True\<rparr>"

lemma sample_filters_ok: "filters_ok sample_filters"
  by (auto simp: filters_ok_def mirrors_def sample_filters_def filter_path_def sample_filter_def)

theorem filters_follow_storage_witness:
  "\<exists>st' r. delete_filter sample_filter_env ''root'' True ''f'' sample_filters = Some (st', r) \<and> filters_ok st'"
proof -
  have "Some (new_filter_id sample_filter_env) \<notin> fl_id ` set (filters sample_filters)"
    by (simp add: sample_filters_def sample_filter_env_def sample_filter_def)
  from filters_follow_storage [OF sample_filters_ok this] show ?thesis by blast
qed

theorem filter_update_leaves_copy_witness:
  "\<exists>st' f'. update_filter sample_filter_env ''root'' True ''f'' (sample_filter ''ann'' ''web'') sample_filters = Some (st', Inr f') \<and>
     \<not> filters_ok st'"
proof -
  have "\<exists>st' f'. update_filter sample_filter_env ''root'' True ''f'' (sample_filter ''ann'' ''web'') sample_filters = Some (st', Inr f')"
    by (simp add: update_filter_def get_filter_def put_filter_def filter_path_def sample_filters_def sample_filter_def sample_filter_env_def)
  then obtain st' f' where run:
    "update_filter sample_filter_env ''root'' True ''f'' (sample_filter ''ann'' ''web'') sample_filters = Some (st', Inr f')" by blast
  have "sample_filter ''ann'' ''web'' \<in> set (filters sample_filters)" "fl_id (sample_filter ''ann'' ''web'') = Some ''f''"
    "fl_user (sample_filter ''ann'' ''web'') \<noteq> Some ''root''"
    by (simp_all add: sample_filters_def sample_filter_def)
  with filter_update_leaves_copy [OF sample_filters_ok _ _ run] run show ?thesis by blast
qed

theorem unreadable_filter_hides_all_witness:
  "load_filters \<lparr>sha_hex = id, read_filter = (\<lambda>_. Some (sample_filter ''ann'' ''web'')), remove_dir_ok = (\<lambda>_ _. True), migrate_put_ok = True\<rparr>
     [((''ann'', ''web''), Some (JObject [])), ((''ann'', ''web''), None)] Map.empty [] = Some []"
  by (rule unreadable_filter_hides_all [of "(''ann'', ''web'')"]) (simp_all add: text_field_def read_file_def)

end
