(* ===== verification/Correlations.thy ===== *)
theory Correlations
  imports Filters
begin

text \<open>
  Correlations (\<open>correlation.rs\<close>): joins of two tables that a user saves, the requests on them
  (\<open>handlers/http/correlation.rs\<close>) and their files. The tables of the query engine are a parameter: the
  columns of a table, or none when it does not know the table.
\<close>

section \<open>Data\<close>

datatype correlation_version = CorrelationV1

record table_config =
  selected_fields :: "string list"
  table_name :: string

record join_condition =
  join_table :: string
  join_field :: string

record correlation =
  co_version :: correlation_version
  co_title :: string
  co_id :: string
  co_user :: string
  co_tables :: "table_config list"
  co_join :: "join_condition list"
  co_filter :: "filter_query option"
  co_start :: "string option"
  co_end :: "string option"

datatype correlation_error =
    CorrelationMetadata string
  | NotFound string
  | NotAuthorized string
  | DatasetError dataset_error
  | DataFusionError
  | CorrelationMetastoreFailed

record correlation_store =
  correlations :: "correlation list"
  correlation_files :: "string \<times> string \<rightharpoonup> correlation"
  co_directory :: directory

record correlation_env =
  new_correlation_id :: string
  co_put_ok :: bool
  co_delete_ok :: bool
  co_querier :: bool
  co_stored :: "string \<Rightarrow> stream_type option"
  table_columns :: "string \<Rightarrow> string list option"

definition correlation_path :: "correlation \<Rightarrow> (string \<times> string) option" where
  "correlation_path c = Some (co_user c, co_id c)"

definition tables_of :: "correlation \<Rightarrow> string list" where
  "tables_of c = map table_name (co_tables c)"

text \<open>\<open>CorrelationConfig::update\<close>: the receiver takes over the content of the argument.\<close>

definition update_config :: "correlation \<Rightarrow> correlation \<Rightarrow> correlation" where
  "update_config self upd =
     self\<lparr>co_title := co_title upd, co_tables := co_tables upd, co_join := co_join upd, co_filter := co_filter upd,
       co_start := co_start upd, co_end := co_end upd\<rparr>"

section \<open>Validation\<close>

definition check_table :: "correlation_env \<Rightarrow> join_condition list \<Rightarrow> table_config \<Rightarrow> (correlation_error + unit) option" where
  "check_table env joins t =
     (case table_columns env (table_name t) of
        None \<Rightarrow> Some (Inl DataFusionError)
      | Some columns \<Rightarrow>
          (case find (\<lambda>j. join_table j = table_name t) joins of
             None \<Rightarrow> None
           | Some j \<Rightarrow>
               let selected = (if join_field j \<in> set (selected_fields t) then selected_fields t
                               else selected_fields t @ [join_field j])
               in Some (if set selected \<subseteq> set columns then Inr () else Inl DataFusionError)))"

fun check_tables :: "correlation_env \<Rightarrow> join_condition list \<Rightarrow> table_config list \<Rightarrow> (correlation_error + unit) option" where
  "check_tables env joins [] = Some (Inr ())"
| "check_tables env joins (t # ts) =
     (case check_table env joins t of
        None \<Rightarrow> None | Some (Inl e) \<Rightarrow> Some (Inl e) | Some (Inr _) \<Rightarrow> check_tables env joins ts)"

definition validate ::
  "correlation_env \<Rightarrow> permission list \<Rightarrow> correlation \<Rightarrow> directory \<Rightarrow> (directory \<times> (correlation_error + unit)) option" where
  "validate env perms c d =
     (if card (set (tables_of c)) \<noteq> 2
      then Some (d, Inl (CorrelationMetadata ''Must provide config for two unique tables''))
      else if set (tables_of c) \<noteq> join_table ` set (co_join c)
      then Some (d, Inl (CorrelationMetadata ''Must provide same tables for join config and table config''))
      else (case user_auth_for_datasets (co_querier env) (co_stored env) perms (tables_of c) d of
              (d', Inl e) \<Rightarrow> Some (d', Inl (DatasetError e))
            | (d', Inr _) \<Rightarrow> map_option (Pair d') (check_tables env (co_join c) (co_tables c))))"

section \<open>The table\<close>

definition load_correlations :: "correlation list \<Rightarrow> correlation_store \<Rightarrow> correlation_store" where
  "load_correlations files st = st\<lparr>correlations := load_objects co_id files (correlations st)\<rparr>"

fun list_correlations ::
  "correlation_env \<Rightarrow> permission list \<Rightarrow> correlation list \<Rightarrow> directory \<Rightarrow> directory \<times> correlation list" where
  "list_correlations env perms [] d = (d, [])"
| "list_correlations env perms (c # cs) d =
     (case user_auth_for_datasets (co_querier env) (co_stored env) perms (tables_of c) d of
        (d', Inl _) \<Rightarrow> list_correlations env perms cs d'
      | (d', Inr _) \<Rightarrow> (case list_correlations env perms cs d' of (d'', out) \<Rightarrow> (d'', c # out)))"

definition get_correlation :: "string \<Rightarrow> correlation_store \<Rightarrow> correlation_error + correlation" where
  "get_correlation i st =
     (case find (\<lambda>c. co_id c = i) (correlations st) of Some c \<Rightarrow> Inr c | None \<Rightarrow> Inl (NotFound i))"

definition put_correlation ::
  "correlation_env \<Rightarrow> correlation \<Rightarrow> correlation_store \<Rightarrow> correlation_store \<times> (correlation_error + correlation)" where
  "put_correlation env c st =
     (if co_put_ok env
      then (st\<lparr>correlation_files := (correlation_files st)((co_user c, co_id c) \<mapsto> c),
              correlations := replace_object co_id c (correlations st)\<rparr>, Inr c)
      else (st, Inl CorrelationMetastoreFailed))"

definition create_correlation ::
  "correlation_env \<Rightarrow> permission list \<Rightarrow> correlation \<Rightarrow> correlation_store
   \<Rightarrow> (correlation_store \<times> (correlation_error + correlation)) option" where
  "create_correlation env perms c0 st =
     (let c = c0\<lparr>co_id := new_correlation_id env\<rparr> in
      case validate env perms c (co_directory st) of
        None \<Rightarrow> None
      | Some (d, Inl e) \<Rightarrow> Some (st\<lparr>co_directory := d\<rparr>, Inl e)
      | Some (d, Inr _) \<Rightarrow> Some (put_correlation env c (st\<lparr>co_directory := d\<rparr>)))"

definition update_correlation ::
  "correlation_env \<Rightarrow> permission list \<Rightarrow> correlation \<Rightarrow> correlation_store
   \<Rightarrow> (correlation_store \<times> (correlation_error + correlation)) option" where
  "update_correlation env perms updated st =
     (case get_correlation (co_id updated) st of
        Inl e \<Rightarrow> Some (st, Inl e)
      | Inr c \<Rightarrow>
          if co_user c \<noteq> co_user updated then Some (st, Inl (NotAuthorized (co_id c)))
          else (case validate env perms c (co_directory st) of
                  None \<Rightarrow> None
                | Some (d, Inl e) \<Rightarrow> Some (st\<lparr>co_directory := d\<rparr>, Inl e)
                | Some (d, Inr _) \<Rightarrow> Some (put_correlation env (update_config updated c) (st\<lparr>co_directory := d\<rparr>))))"

definition delete_correlation ::
  "correlation_env \<Rightarrow> string \<Rightarrow> string \<Rightarrow> correlation_store \<Rightarrow> correlation_store \<times> (correlation_error + unit)" where
  "delete_correlation env i user st =
     (case get_correlation i st of
        Inl e \<Rightarrow> (st, Inl e)
      | Inr c \<Rightarrow>
          if co_user c \<noteq> user then (st, Inl (NotAuthorized i))
          else if co_delete_ok env
          then (st\<lparr>correlation_files := (correlation_files st)((co_user c, co_id c) := None),
                  correlations := retain_other co_id (co_id c) (correlations st)\<rparr>, Inr ())
          else (st, Inl CorrelationMetastoreFailed))"

section \<open>Requests\<close>

definition get_request ::
  "correlation_env \<Rightarrow> permission list \<Rightarrow> string \<Rightarrow> correlation_store \<Rightarrow> correlation_store \<times> (correlation_error + correlation)" where
  "get_request env perms i st =
     (case get_correlation i st of
        Inl e \<Rightarrow> (st, Inl e)
      | Inr c \<Rightarrow>
          (case user_auth_for_datasets (co_querier env) (co_stored env) perms (tables_of c) (co_directory st) of
             (d, Inl e) \<Rightarrow> (st\<lparr>co_directory := d\<rparr>, Inl (DatasetError e))
           | (d, Inr _) \<Rightarrow> (st\<lparr>co_directory := d\<rparr>, Inr c)))"

definition post_request ::
  "correlation_env \<Rightarrow> permission list \<Rightarrow> string \<Rightarrow> correlation \<Rightarrow> correlation_store
   \<Rightarrow> (correlation_store \<times> (correlation_error + correlation)) option" where
  "post_request env perms user c st = create_correlation env perms (c\<lparr>co_user := user\<rparr>) st"

definition modify_request ::
  "correlation_env \<Rightarrow> permission list \<Rightarrow> string \<Rightarrow> string \<Rightarrow> correlation \<Rightarrow> correlation_store
   \<Rightarrow> (correlation_store \<times> (correlation_error + correlation)) option" where
  "modify_request env perms user i c st = update_correlation env perms (c\<lparr>co_id := i, co_user := user\<rparr>) st"

section \<open>Memory and files\<close>

interpretation owned_correlations: owned_objects co_id correlation_path
  by unfold_locales (auto simp: correlation_path_def)

definition correlations_ok :: "correlation_store \<Rightarrow> bool" where
  "correlations_ok st \<longleftrightarrow> mirrors co_id correlation_path (correlations st) (correlation_files st)"

lemma correlations_ok_directory [simp]: "correlations_ok (st\<lparr>co_directory := d\<rparr>) = correlations_ok st"
  by (simp add: correlations_ok_def)

lemma correlation_found: "get_correlation i st = Inr c \<Longrightarrow> c \<in> set (correlations st) \<and> co_id c = i"
  by (auto simp: get_correlation_def find_Some_iff split: option.splits)

lemma put_correlation_ok:
  assumes "correlations_ok st" and "\<forall>y \<in> set (correlations st). co_id y = co_id c \<longrightarrow> co_user y = co_user c"
  shows "correlations_ok (fst (put_correlation env c st))"
  using owned_correlations.put_mirrors [of "correlations st" "correlation_files st" c "(co_user c, co_id c)"] assms
  by (auto simp: put_correlation_def correlations_ok_def correlation_path_def)

text \<open>The two tables are joined, so looking up the condition of a table cannot fail.\<close>

lemma validate_defined: "validate env perms c d \<noteq> None"
proof -
  have "check_tables env joins ts \<noteq> None" if "set (map table_name ts) \<subseteq> join_table ` set joins" for joins ts
    using that
  proof (induction ts)
    case (Cons t ts)
    then have "find (\<lambda>j. join_table j = table_name t) joins \<noteq> None" by (auto simp: find_None_iff)
    then have "check_table env joins t \<noteq> None"
      by (auto simp: check_table_def Let_def split: option.split)
    with Cons show ?case by (auto split: option.split sum.split)
  qed simp
  then show ?thesis
    by (auto simp: validate_def tables_of_def split: prod.split sum.split)
qed

text \<open>
  Creating and deleting correlations keeps memory and files equal, whatever storage does, and no
  request panics; only the owner deletes a correlation.
\<close>

theorem correlations_follow_storage:
  assumes "correlations_ok st" and "new_correlation_id env \<notin> co_id ` set (correlations st)"
  shows "(\<exists>st' r. post_request env perms user c st = Some (st', r) \<and> correlations_ok st') \<and>
    (\<exists>st' r. modify_request env perms user i c st = Some (st', r) \<and> correlations_ok st') \<and>
    correlations_ok (fst (delete_correlation env i user st)) \<and>
    (\<forall>x \<in> set (correlations st). x \<notin> set (correlations (fst (delete_correlation env i user st))) \<longrightarrow> co_user x = user)"
proof (intro conjI)
  let ?c = "c\<lparr>co_user := user, co_id := new_correlation_id env\<rparr>"
  obtain d r where v: "validate env perms ?c (co_directory st) = Some (d, r)" using validate_defined by (metis option.exhaust surj_pair)
  have "\<forall>y \<in> set (correlations st). co_id y = co_id ?c \<longrightarrow> co_user y = co_user ?c" using assms(2) by (auto simp: image_iff)
  then have "correlations_ok (fst (put_correlation env ?c (st\<lparr>co_directory := d\<rparr>)))"
    using put_correlation_ok [of "st\<lparr>co_directory := d\<rparr>" ?c env] assms(1) by simp
  then show "\<exists>st' r. post_request env perms user c st = Some (st', r) \<and> correlations_ok st'"
    using v assms(1) by (cases r) (auto simp: post_request_def create_correlation_def Let_def prod_eq_iff)
next
  let ?c = "c\<lparr>co_id := i, co_user := user\<rparr>"
  show "\<exists>st' r. modify_request env perms user i c st = Some (st', r) \<and> correlations_ok st'"
  proof (cases "get_correlation i st")
    case (Inl e)
    with assms(1) show ?thesis by (simp add: modify_request_def update_correlation_def)
  next
    case (Inr old)
    obtain d r where v: "validate env perms old (co_directory st) = Some (d, r)"
      using validate_defined by (metis option.exhaust surj_pair)
    have "y = old" if "y \<in> set (correlations st)" "co_id y = i" for y
      using assms(1) correlation_found [OF Inr] that by (auto simp: correlations_ok_def mirrors_def distinct_map inj_on_def)
    then have "co_user old = user \<Longrightarrow> correlations_ok (fst (put_correlation env (update_config ?c old) (st\<lparr>co_directory := d\<rparr>)))"
      using put_correlation_ok [of "st\<lparr>co_directory := d\<rparr>" "update_config ?c old" env] assms(1)
      by (auto simp: update_config_def)
    with v assms(1) Inr show ?thesis
      by (cases r) (auto simp: modify_request_def update_correlation_def prod_eq_iff)
  qed
next
  show "correlations_ok (fst (delete_correlation env i user st))"
  proof (cases "get_correlation i st")
    case (Inl e)
    with assms(1) show ?thesis by (simp add: delete_correlation_def)
  next
    case (Inr old)
    from owned_correlations.delete_mirrors [of "correlations st" "correlation_files st" old "(co_user old, co_id old)"]
    show ?thesis using assms(1) Inr correlation_found [OF Inr]
      by (auto simp: delete_correlation_def correlations_ok_def correlation_path_def)
  qed
next
  show "\<forall>x \<in> set (correlations st). x \<notin> set (correlations (fst (delete_correlation env i user st))) \<longrightarrow> co_user x = user"
  proof (cases "get_correlation i st")
    case (Inl e)
    then show ?thesis by (simp add: delete_correlation_def)
  next
    case (Inr old)
    have "y = old" if "y \<in> set (correlations st)" "co_id y = co_id old" for y
      using assms(1) correlation_found [OF Inr] that by (auto simp: correlations_ok_def mirrors_def distinct_map inj_on_def)
    with Inr show ?thesis by (auto simp: delete_correlation_def)
  qed
qed

text \<open>
  An update that succeeds stores and returns the correlation as it was: nothing of the request
  reaches memory or the files.
\<close>

theorem update_changes_nothing:
  assumes "correlations_ok st" and "modify_request env perms user i c st = Some (st', Inr c')"
  shows "c' \<in> set (correlations st) \<and> co_id c' = i \<and> set (correlations st') = set (correlations st) \<and>
    correlation_files st' = correlation_files st"
proof -
  let ?c = "c\<lparr>co_id := i, co_user := user\<rparr>"
  from assms(2) obtain old where old: "get_correlation i st = Inr old"
    by (cases "get_correlation i st") (auto simp: modify_request_def update_correlation_def)
  obtain d r where v: "validate env perms old (co_directory st) = Some (d, r)"
    using validate_defined by (metis option.exhaust surj_pair)
  have user: "co_user old = user"
  proof (rule ccontr)
    assume "co_user old \<noteq> user"
    with assms(2) old show False by (simp add: modify_request_def update_correlation_def)
  qed
  have put: "put_correlation env (update_config ?c old) (st\<lparr>co_directory := d\<rparr>) = (st', Inr c')"
    using assms(2) old v user by (cases r) (simp_all add: modify_request_def update_correlation_def)
  note found = correlation_found [OF old]
  have same: "update_config ?c old = old"
    using user found by (cases "co_version old"; cases "co_version c") (auto simp: update_config_def intro!: correlation.equality)
  have only: "y = old" if "y \<in> set (correlations st)" "co_id y = co_id old" for y
    using assms(1) found that by (auto simp: correlations_ok_def mirrors_def distinct_map inj_on_def)
  have "correlation_files st (co_user old, co_id old) = Some old"
    using assms(1) found by (simp add: correlations_ok_def mirrors_def correlation_path_def)
  then have files: "(correlation_files st)((co_user old, co_id old) \<mapsto> old) = correlation_files st" by auto
  have mem: "set (replace_object co_id old (correlations st)) = set (correlations st)"
    using found only by (simp add: set_eq_iff) blast
  have "co_put_ok env"
    by (rule ccontr) (use put in \<open>simp add: put_correlation_def\<close>)
  then have stored: "put_correlation env old (st\<lparr>co_directory := d\<rparr>) =
      (st\<lparr>co_directory := d, correlations := replace_object co_id old (correlations st)\<rparr>, Inr old)"
    by (simp add: put_correlation_def files)
  from put [unfolded same stored] have out: "old = c'" "st\<lparr>co_directory := d, correlations := replace_object co_id old (correlations st)\<rparr> = st'"
    by blast+
  have "correlation_files st' = correlation_files st" "correlations st' = replace_object co_id old (correlations st)"
    by (simp_all flip: out(2))
  with found mem show ?thesis by (simp flip: out(1))
qed

section \<open>What is validated\<close>

lemma check_table_ok:
  "check_table env joins t = Some (Inr ()) \<longleftrightarrow>
   (\<exists>columns j. table_columns env (table_name t) = Some columns \<and> find (\<lambda>j. join_table j = table_name t) joins = Some j \<and>
      set (selected_fields t) \<subseteq> set columns \<and> join_field j \<in> set columns)"
  by (auto simp: check_table_def Let_def split: option.splits if_splits)

lemma check_tables_ok: "check_tables env joins ts = Some (Inr ()) \<longleftrightarrow> (\<forall>t \<in> set ts. check_table env joins t = Some (Inr ()))"
  by (induction ts) (auto split: option.splits sum.splits)

text \<open>
  A correlation is valid exactly when it names two different tables, the conditions are on these two,
  the user may query them, the query engine knows both, and each has the selected fields and the field of
  its first condition.
\<close>

theorem correlation_valid_iff:
  "(\<exists>d'. validate env perms c d = Some (d', Inr ())) \<longleftrightarrow>
     card (set (tables_of c)) = 2 \<and> set (tables_of c) = join_table ` set (co_join c) \<and>
     snd (user_auth_for_datasets (co_querier env) (co_stored env) perms (tables_of c) d) = Inr () \<and>
     (\<forall>t \<in> set (co_tables c). \<exists>columns j. table_columns env (table_name t) = Some columns \<and>
        find (\<lambda>j. join_table j = table_name t) (co_join c) = Some j \<and>
        set (selected_fields t) \<subseteq> set columns \<and> join_field j \<in> set columns)"
proof -
  obtain d' r where auth: "user_auth_for_datasets (co_querier env) (co_stored env) perms (tables_of c) d = (d', r)" by force
  show ?thesis
    unfolding validate_def auth check_table_ok [symmetric] check_tables_ok [symmetric]
    by (cases r) auto
qed

section \<open>Examples\<close>

definition sample_correlation :: correlation where
  "sample_correlation = \<lparr>co_version = CorrelationV1, co_title = ''slow'', co_id = ''c'', co_user = ''ann'',
     co_tables = [\<lparr>selected_fields = [''x''], table_name = ''web''\<rparr>, \<lparr>selected_fields = [], table_name = ''db''\<rparr>],
     co_join = [\<lparr>join_table = ''web'', join_field = ''k''\<rparr>, \<lparr>join_table = ''db'', join_field = ''k''\<rparr>],
     co_filter = None, co_start = None, co_end = None\<rparr>"

definition sample_correlations :: correlation_store where
  "sample_correlations = \<lparr>correlations = [sample_correlation], correlation_files = [(''ann'', ''c'') \<mapsto> sample_correlation],
     co_directory = \<lparr>dir_users = [], dir_groups = [], dir_roles = [], dir_streams = []\<rparr>\<rparr>"

definition sample_correlation_env :: correlation_env where
  "sample_correlation_env = \<lparr>new_correlation_id = ''e'', co_put_ok = True, co_delete_ok = True, co_querier = False,
     co_stored = (\<lambda>_. None), table_columns = (\<lambda>_. Some [''x'', ''k''])\<rparr>"

lemma sample_correlations_ok: "correlations_ok sample_correlations"
  by (auto simp: correlations_ok_def mirrors_def sample_correlations_def correlation_path_def sample_correlation_def)

theorem correlations_follow_storage_witness:
  "correlations_ok (fst (delete_correlation sample_correlation_env ''c'' ''bob'' sample_correlations)) \<and>
   sample_correlation \<in> set (correlations (fst (delete_correlation sample_correlation_env ''c'' ''bob'' sample_correlations)))"
proof -
  have fresh: "new_correlation_id sample_correlation_env \<notin> co_id ` set (correlations sample_correlations)"
    and mine: "sample_correlation \<in> set (correlations sample_correlations)" "co_user sample_correlation \<noteq> ''bob''"
    by (simp_all add: sample_correlations_def sample_correlation_env_def sample_correlation_def)
  from correlations_follow_storage [OF sample_correlations_ok fresh, of "[]" "''bob''" sample_correlation "''c''"] mine
  show ?thesis by blast
qed

theorem update_changes_nothing_witness:
  "\<exists>st'. modify_request sample_correlation_env [Resource_permission All_action All_resource] ''ann'' ''c''
       (sample_correlation\<lparr>co_title := ''fast''\<rparr>) sample_correlations = Some (st', Inr sample_correlation) \<and>
     set (correlations st') = {sample_correlation}"
proof -
  let ?perms = "[Resource_permission All_action All_resource]"
  have v: "validate sample_correlation_env ?perms sample_correlation (co_directory sample_correlations) =
      Some (co_directory sample_correlations, Inr ())"
    by (simp add: validate_def sample_correlation_def tables_of_def sample_correlation_env_def check_table_def Let_def
        sample_correlations_def insert_commute)
  have "\<exists>st' c'. modify_request sample_correlation_env ?perms ''ann'' ''c'' (sample_correlation\<lparr>co_title := ''fast''\<rparr>) sample_correlations =
      Some (st', Inr c')"
    using v by (simp add: modify_request_def update_correlation_def get_correlation_def sample_correlations_def put_correlation_def
        sample_correlation_env_def) (simp add: sample_correlation_def)
  then obtain st' c' where run: "modify_request sample_correlation_env ?perms ''ann'' ''c'' (sample_correlation\<lparr>co_title := ''fast''\<rparr>)
      sample_correlations = Some (st', Inr c')" by blast
  from update_changes_nothing [OF sample_correlations_ok run] run show ?thesis by (simp add: sample_correlations_def)
qed

end
