(* ===== verification/Upload.thy ===== *)
theory Upload
  imports Catalog Stats Staging
begin

text \<open>
  The upload of staged files (\<open>src/storage/object_storage.rs\<close>): the parquet files of a stream are
  sent to the object store, checked and counted, removed from staging, and entered in the snapshot;
  then the staged schemas are merged into the stored one. The tasks of the files run at the same time;
  as they write different objects and only add to counters, they are taken in the order in which
  their results are collected.
\<close>

section \<open>The node and its environment\<close>

text \<open>An object: the rows of the file that was sent and the number of its bytes that arrived.\<close>

type_synonym 'r stored_objects = "string \<rightharpoonup> 'r list \<times> nat"

record 'r upload_node =
  up_stream :: "'r stream"
  up_custom_partition :: "string option"
  up_objects :: "'r stored_objects"
  up_metrics :: metrics
  up_catalog :: catalog_state
  up_schema :: "field list option"

text \<open>How far a task has come when the collection of the results has already failed.\<close>

datatype progress = NotStarted | Sent | Finished

text \<open>The parquet library gives the size and the footer of a file with some rows. \<open>arrived\<close> is the
  number of bytes that the store holds of an object after the upload, or \<open>None\<close> when it was not
  touched. Every other function tells whether one access succeeds.\<close>

record 'r upload_env =
  up_catalog_env :: catalog_env
  parquet_bytes :: "'r list \<Rightarrow> nat"
  footer :: "'r list \<Rightarrow> row_group list"
  staging_exists :: bool
  listed_ok :: "string \<Rightarrow> bool"
  metadata_ok :: "string \<Rightarrow> bool"
  arrived :: "string \<Rightarrow> nat option"
  send_ok :: "string \<Rightarrow> bool"
  head_ok :: "string \<Rightarrow> bool"
  delete_ok :: "string \<Rightarrow> bool"
  metadata_again :: "string \<Rightarrow> bool"
  reopen_ok :: "string \<Rightarrow> bool"
  unlink_ok :: "string \<Rightarrow> bool"
  completed :: "(string \<times> 'r list) list \<Rightarrow> (string \<times> 'r list) list"
  reached :: "string \<Rightarrow> progress"
  meta_read_ok :: bool
  snapshot_put_ok :: bool
  schema_open_ok :: "string \<Rightarrow> bool"
  schema_put_ok :: bool
  merge_schemas :: "field list list \<Rightarrow> field list option"

datatype upload_error = UploadFailed string | SnapshotFailed "catalog_error option" | SchemaFailed string

section \<open>One file\<close>

definition footer_size :: nat where
  "footer_size = 8"

definition is_valid_parquet_file :: "'r upload_env \<Rightarrow> string \<times> 'r list \<Rightarrow> bool" where
  "is_valid_parquet_file env f \<longleftrightarrow>
     listed_ok env (fst f) \<and> \<not> parquet_bytes env (snd f) < footer_size \<and> snd f \<noteq> []"

definition parquet_files :: "'r upload_env \<Rightarrow> 'r stream \<Rightarrow> (string \<times> 'r list) list" where
  "parquet_files env st = filter (is_valid_parquet_file env) (st_parquets st)"

definition upload_multipart :: "'r upload_env \<Rightarrow> string \<Rightarrow> 'r list \<Rightarrow> 'r stored_objects \<Rightarrow> 'r stored_objects" where
  "upload_multipart env key rows objs =
     (case arrived env key of None \<Rightarrow> objs | Some n \<Rightarrow> objs(key \<mapsto> (rows, n)))"

definition validate_uploaded_parquet_file ::
  "'r upload_env \<Rightarrow> string \<Rightarrow> nat \<Rightarrow> 'r stored_objects \<Rightarrow> bool" where
  "validate_uploaded_parquet_file env key expected_size objs =
     (if head_ok env key
      then (case objs key of None \<Rightarrow> False | Some (_, n) \<Rightarrow> n = expected_size)
      else False)"

text \<open>The result of a file: an error, or its manifest entry unless its size did not match. A panic
  (a name without a date, statistics of different types) ends the task as an error does.\<close>

definition upload_single_parquet_file ::
  "'r upload_env \<Rightarrow> string \<Rightarrow> string \<Rightarrow> string \<Rightarrow> 'r list \<Rightarrow> 'r stored_objects \<times> metrics
   \<Rightarrow> ('r stored_objects \<times> metrics) \<times> (upload_error + manifest_file option)" where
  "upload_single_parquet_file env stream key filename rows = (\<lambda>(objs, m).
     if \<not> metadata_ok env filename then ((objs, m), Inl (UploadFailed filename))
     else let local_file_size = parquet_bytes env rows; objs1 = upload_multipart env key rows objs in
       if \<not> send_ok env key then ((objs1, m), Inl (UploadFailed filename))
       else if \<not> validate_uploaded_parquet_file env key local_file_size objs1
       then ((if delete_ok env key then objs1(key := None) else objs1, m), Inr None)
       else case update_storage_metrics
             (if metadata_again env filename then Some local_file_size else None) stream filename m of
         None \<Rightarrow> ((objs1, m), Inl (UploadFailed filename))
       | Some m1 \<Rightarrow>
           (case (if reopen_ok env filename
                  then create_from_parquet_file (absolute_url (up_catalog_env env) key) local_file_size
                    (length rows) (footer env rows)
                  else None) of
              None \<Rightarrow> ((objs1, m1), Inl (UploadFailed filename))
            | Some manifest \<Rightarrow> ((objs1, m1), Inr (Some manifest))))"

section \<open>All files of a stream\<close>

abbreviation object_key :: "string \<Rightarrow> string option \<Rightarrow> string \<Rightarrow> string" where
  "object_key stream cp filename \<equiv> stream_relative_path stream filename cp"

text \<open>The tasks whose results are no longer awaited.\<close>

definition late_task ::
  "'r upload_env \<Rightarrow> string \<Rightarrow> string option \<Rightarrow> string \<times> 'r list \<Rightarrow> 'r stored_objects \<times> metrics
   \<Rightarrow> 'r stored_objects \<times> metrics" where
  "late_task env stream cp f s =
     (case reached env (fst f) of
        NotStarted \<Rightarrow> s
      | Sent \<Rightarrow>
          if metadata_ok env (fst f)
          then (upload_multipart env (object_key stream cp (fst f)) (snd f) (fst s), snd s) else s
      | Finished \<Rightarrow> fst (upload_single_parquet_file env stream (object_key stream cp (fst f)) (fst f) (snd f) s))"

fun collect_upload_results ::
  "'r upload_env \<Rightarrow> string \<Rightarrow> string option \<Rightarrow> (string \<times> 'r list) list \<Rightarrow> 'r stored_objects \<times> metrics
   \<Rightarrow> ('r stored_objects \<times> metrics) \<times> (upload_error + (string \<times> manifest_file) list)" where
  "collect_upload_results env stream cp [] s = (s, Inr [])"
| "collect_upload_results env stream cp (f # fs) s =
     (case upload_single_parquet_file env stream (object_key stream cp (fst f)) (fst f) (snd f) s of
        (s1, Inl e) \<Rightarrow> (fold (late_task env stream cp) fs s1, Inl e)
      | (s1, Inr None) \<Rightarrow> collect_upload_results env stream cp fs s1
      | (s1, Inr (Some manifest)) \<Rightarrow>
          (case collect_upload_results env stream cp fs s1 of
             (s2, r) \<Rightarrow> (s2, bind_result r (\<lambda>ups. Inr ((fst f, manifest) # ups)))))"

definition remove_uploaded :: "'r upload_env \<Rightarrow> string list \<Rightarrow> 'r stream \<Rightarrow> 'r stream" where
  "remove_uploaded env names st =
     st\<lparr>st_parquets := filter (\<lambda>f. \<not> (fst f \<in> set names \<and> unlink_ok env (fst f))) (st_parquets st)\<rparr>"

definition process_parquet_files ::
  "'r upload_env \<Rightarrow> string \<Rightarrow> 'r upload_node \<Rightarrow> 'r upload_node \<times> (upload_error + manifest_file list)" where
  "process_parquet_files env stream st =
     (case collect_upload_results env stream (up_custom_partition st)
          (completed env (parquet_files env (up_stream st))) (up_objects st, up_metrics st) of
        ((objs, m), Inl e) \<Rightarrow> (st\<lparr>up_objects := objs, up_metrics := m\<rparr>, Inl e)
      | ((objs, m), Inr ups) \<Rightarrow>
          (st\<lparr>up_stream := remove_uploaded env (map fst ups) (up_stream st),
              up_objects := objs, up_metrics := m\<rparr>, Inr (map snd ups)))"

text \<open>The update of the snapshot works on a copy of the stored one; when that cannot be stored again
  the entries stay as they were, although manifests were written.\<close>

definition update_snapshot_with_manifests ::
  "'r upload_env \<Rightarrow> string \<Rightarrow> manifest_file list \<Rightarrow> 'r upload_node \<Rightarrow> 'r upload_node \<times> (upload_error + unit)" where
  "update_snapshot_with_manifests env stream changes st =
     (if changes = [] then (st, Inr ())
      else if \<not> meta_read_ok env then (st, Inl (SnapshotFailed None))
      else case update_snapshot (up_catalog_env env) stream changes (up_catalog st) of
        (cat, Inl e) \<Rightarrow> (st\<lparr>up_catalog := cat\<rparr>, Inl (SnapshotFailed (Some e)))
      | (cat, Inr _) \<Rightarrow>
          if snapshot_put_ok env then (st\<lparr>up_catalog := cat\<rparr>, Inr ())
          else (st\<lparr>up_catalog := cat\<lparr>cat_items := cat_items (up_catalog st)\<rparr>\<rparr>, Inl (SnapshotFailed None)))"

section \<open>Schemas\<close>

definition commit_schema_to_storage ::
  "'r upload_env \<Rightarrow> field list \<Rightarrow> field list option \<Rightarrow> field list option" where
  "commit_schema_to_storage env schema stored =
     (case stored of
        None \<Rightarrow> None
      | Some stream_schema \<Rightarrow>
          (case merge_schemas env [schema, stream_schema] of
             None \<Rightarrow> None
           | Some new_schema \<Rightarrow> if schema_put_ok env then Some new_schema else None))"

fun process_schemas ::
  "'r upload_env \<Rightarrow> (string \<times> field list) list \<Rightarrow> 'r upload_node \<Rightarrow> 'r upload_node \<times> (upload_error + unit)" where
  "process_schemas env [] st = (st, Inr ())"
| "process_schemas env (f # fs) st =
     (if \<not> schema_open_ok env (fst f) then (st, Inl (SchemaFailed (fst f)))
      else case commit_schema_to_storage env (snd f) (up_schema st) of
        None \<Rightarrow> (st, Inl (SchemaFailed (fst f)))
      | Some new_schema \<Rightarrow>
          process_schemas env fs
            (st\<lparr>up_schema := Some new_schema,
                up_stream := (up_stream st)\<lparr>st_schema_files :=
                  (if unlink_ok env (fst f) then filter (\<lambda>g. fst g \<noteq> fst f) (st_schema_files (up_stream st))
                   else st_schema_files (up_stream st))\<rparr>\<rparr>))"

definition process_schema_files :: "'r upload_env \<Rightarrow> 'r upload_node \<Rightarrow> 'r upload_node \<times> (upload_error + unit)" where
  "process_schema_files env st = process_schemas env (st_schema_files (up_stream st)) st"

section \<open>The run\<close>

text \<open>A stream that is not in memory is created with default metadata.\<close>

definition get_or_create_stream :: "'r upload_node \<Rightarrow> 'r upload_node" where
  "get_or_create_stream st =
     (if cat_first_event (up_catalog st) = None
      then st\<lparr>up_custom_partition := None,
              up_catalog := (up_catalog st)\<lparr>cat_first_event := Some None\<rparr>\<rparr> else st)"

text \<open>The custom partition that a run uses.\<close>

definition partition_used :: "'r upload_node \<Rightarrow> string option" where
  "partition_used st = (if cat_first_event (up_catalog st) = None then None else up_custom_partition st)"

definition upload_files_from_staging ::
  "'r upload_env \<Rightarrow> string \<Rightarrow> 'r upload_node \<Rightarrow> 'r upload_node \<times> (upload_error + unit)" where
  "upload_files_from_staging env stream st =
     (if \<not> staging_exists env then (st, Inr ())
      else case process_parquet_files env stream (get_or_create_stream st) of
        (st1, Inl e) \<Rightarrow> (st1, Inl e)
      | (st1, Inr manifest_files) \<Rightarrow>
          (case update_snapshot_with_manifests env stream manifest_files st1 of
             (st2, Inl e) \<Rightarrow> (st2, Inl e)
           | (st2, Inr _) \<Rightarrow> process_schema_files env st2))"

section \<open>Names of objects\<close>

lemma replacen_back:
  "CHR ''/'' \<notin> set s \<Longrightarrow>
   map (\<lambda>c. if c = CHR ''/'' then CHR ''.'' else c) (replacen CHR ''.'' CHR ''/'' n s) = s"
proof (induction s arbitrary: n)
  case (Cons c s)
  have "map (\<lambda>c. if c = CHR ''/'' then CHR ''.'' else c) (c # s) = c # s"
    using Cons.prems by (intro map_idI) auto
  then show ?case using Cons by (cases n) auto
qed simp

lemma object_key_inject:
  assumes "CHR ''/'' \<notin> set f" and "CHR ''/'' \<notin> set g" and "object_key stream cp f = object_key stream cp g"
  shows "f = g"
proof -
  let ?undo = "map (\<lambda>c. if c = CHR ''/'' then CHR ''.'' else c)"
  obtain n where "replacen CHR ''.'' CHR ''/'' n f = replacen CHR ''.'' CHR ''/'' n g"
    using assms(3) unfolding stream_relative_path_def same_append_eq by blast
  then have "?undo (replacen CHR ''.'' CHR ''/'' n f) = ?undo (replacen CHR ''.'' CHR ''/'' n g)"
    by (rule arg_cong)
  then show ?thesis unfolding replacen_back [OF assms(1)] replacen_back [OF assms(2)] .
qed

definition slash_free :: "(string \<times> 'a) list \<Rightarrow> bool" where
  "slash_free fs \<longleftrightarrow> distinct (map fst fs) \<and> (\<forall>f \<in> set fs. CHR ''/'' \<notin> set (fst f))"

lemma slash_free_Cons:
  "slash_free (f # fs) \<longleftrightarrow> CHR ''/'' \<notin> set (fst f) \<and> fst f \<notin> fst ` set fs \<and> slash_free fs"
  by (auto simp: slash_free_def)

lemma slash_free_key:
  "slash_free (f # fs) \<Longrightarrow> g \<in> set fs \<Longrightarrow> object_key stream cp (fst g) \<noteq> object_key stream cp (fst f)"
  using object_key_inject [of "fst g" "fst f" stream cp]
  by (metis (no_types, lifting) imageI slash_free_Cons slash_free_def)

section \<open>What one task does\<close>

text \<open>A store that reports a success has written the object.\<close>

definition store_writes :: "'r upload_env \<Rightarrow> bool" where
  "store_writes env \<longleftrightarrow> (\<forall>key. send_ok env key \<longrightarrow> arrived env key \<noteq> None)"

abbreviation whole :: "'r upload_env \<Rightarrow> 'r stored_objects \<Rightarrow> string \<Rightarrow> 'r list \<Rightarrow> bool" where
  "whole env objs key rows \<equiv> objs key = Some (rows, parquet_bytes env rows)"

lemma upload_frame:
  "k \<noteq> key \<Longrightarrow> fst (fst (upload_single_parquet_file env stream key filename rows s)) k = fst s k"
  by (cases s) (simp add: upload_single_parquet_file_def upload_multipart_def Let_def split: option.split)

lemma no_metadata_no_metrics [simp]: "update_storage_metrics None stream filename m = None"
  by (simp add: update_storage_metrics_def split: option.split)

lemma upload_whole:
  assumes "upload_single_parquet_file env stream key filename rows s = (s', Inr (Some manifest))"
    and "store_writes env"
  shows "whole env (fst s') key rows \<and>
    create_from_parquet_file (absolute_url (up_catalog_env env) key) (parquet_bytes env rows)
      (length rows) (footer env rows) = Some manifest \<and>
    update_storage_metrics (Some (parquet_bytes env rows)) stream filename (snd s) = Some (snd s')"
  using assms
  by (cases s) (auto simp: upload_single_parquet_file_def upload_multipart_def store_writes_def
      validate_uploaded_parquet_file_def Let_def split: option.splits if_splits)

lemma upload_error:
  "snd (upload_single_parquet_file env stream key filename rows s) = Inl e \<Longrightarrow> e = UploadFailed filename"
  by (cases s) (auto simp: upload_single_parquet_file_def Let_def split: option.splits if_splits)

lemma late_frame:
  "k \<noteq> object_key stream cp (fst f) \<Longrightarrow> fst (late_task env stream cp f s) k = fst s k"
  by (simp add: late_task_def upload_frame upload_multipart_def split: progress.split option.split)

lemma create_entry:
  "create_from_parquet_file path n k rgs = Some f \<Longrightarrow> file_path f = path \<and> num_rows f = k"
  by (auto simp: create_from_parquet_file_def split: option.splits)

section \<open>What the tasks of a stream do\<close>

lemma collect_error:
  "collect_upload_results env stream cp fs s = (s', Inl e) \<Longrightarrow> \<forall>x. e \<noteq> SnapshotFailed x"
proof (induction fs arbitrary: s)
  case (Cons f fs)
  then show ?case
    using upload_error [of env stream "object_key stream cp (fst f)" "fst f" "snd f" s]
    by (auto simp: bind_result_def split: prod.splits sum.splits option.splits)
qed simp

lemma collect_frame:
  "\<forall>f \<in> set fs. k \<noteq> object_key stream cp (fst f) \<Longrightarrow>
   fst (fst (collect_upload_results env stream cp fs s)) k = fst s k"
proof (induction fs arbitrary: s)
  case (Cons f fs)
  have late: "fst (fold (late_task env stream cp) fs t) k = fst t k" for t
    using Cons.prems by (induction fs arbitrary: t) (auto simp: late_frame)
  obtain s1 r where one:
    "upload_single_parquet_file env stream (object_key stream cp (fst f)) (fst f) (snd f) s = (s1, r)"
    by (cases "upload_single_parquet_file env stream (object_key stream cp (fst f)) (fst f) (snd f) s")
  have "fst s1 k = fst s k"
    using upload_frame [of k "object_key stream cp (fst f)" env stream "fst f" "snd f" s] one Cons.prems by simp
  then show ?case
    using Cons.IH [of s1] Cons.prems late one by (auto split: sum.split option.split prod.split)
qed simp

text \<open>A collected result belongs to one of the files, which is whole in the store.\<close>

definition uploaded_from ::
  "'r upload_env \<Rightarrow> string \<Rightarrow> string option \<Rightarrow> (string \<times> 'r list) list \<Rightarrow> 'r stored_objects
   \<Rightarrow> string \<times> manifest_file \<Rightarrow> bool" where
  "uploaded_from env stream cp fs objs u \<longleftrightarrow> (\<exists>rows. (fst u, rows) \<in> set fs \<and>
     whole env objs (object_key stream cp (fst u)) rows \<and>
     file_path (snd u) = absolute_url (up_catalog_env env) (object_key stream cp (fst u)) \<and>
     num_rows (snd u) = length rows \<and>
     create_from_parquet_file (absolute_url (up_catalog_env env) (object_key stream cp (fst u)))
       (parquet_bytes env rows) (length rows) (footer env rows) = Some (snd u))"

lemma uploaded_from_mono:
  "uploaded_from env stream cp fs objs u \<Longrightarrow> uploaded_from env stream cp (f # fs) objs u"
  by (auto simp: uploaded_from_def)

lemma collect_files:
  assumes "collect_upload_results env stream cp fs s = (s', Inr ups)" and "store_writes env" and "slash_free fs"
  shows "distinct (map fst ups) \<and> (\<forall>u \<in> set ups. uploaded_from env stream cp fs (fst s') u)"
  using assms
proof (induction fs arbitrary: s ups)
  case (Cons f fs)
  let ?key = "object_key stream cp (fst f)"
  obtain s1 r where one: "upload_single_parquet_file env stream ?key (fst f) (snd f) s = (s1, Inr r)"
    using Cons.prems(1) by (auto split: prod.splits sum.splits)
  obtain ups1 where rest: "collect_upload_results env stream cp fs s1 = (s', Inr ups1)"
    and ups: "ups = (case r of None \<Rightarrow> ups1 | Some manifest \<Rightarrow> (fst f, manifest) # ups1)"
    using Cons.prems(1) one by (auto simp: bind_result_def split: prod.splits sum.splits option.splits)
  have free: "slash_free fs" "fst f \<notin> fst ` set fs" using Cons.prems(3) by (auto simp: slash_free_Cons)
  note IH = Cons.IH [OF rest Cons.prems(2) free(1)]
  show ?case
  proof (cases r)
    case None
    then show ?thesis using IH ups uploaded_from_mono by fastforce
  next
    case (Some manifest)
    have "fst s' ?key = fst s1 ?key"
      using collect_frame [of fs ?key stream cp env s1] slash_free_key [OF Cons.prems(3), of _ stream cp] rest
      by fastforce
    with upload_whole [OF one [unfolded Some] Cons.prems(2)]
    have "uploaded_from env stream cp (f # fs) (fst s') (fst f, manifest)"
      unfolding uploaded_from_def by (intro exI [of _ "snd f"]) (auto dest: create_entry)
    moreover have "fst f \<notin> fst ` set ups1"
    proof
      assume "fst f \<in> fst ` set ups1"
      then obtain u where "u \<in> set ups1" "fst u = fst f" by auto
      then have "uploaded_from env stream cp fs (fst s') u" using IH by blast
      with \<open>fst u = fst f\<close> free(2) show False by (auto simp: uploaded_from_def image_iff)
    qed
    moreover have "\<forall>u \<in> set ups1. uploaded_from env stream cp (f # fs) (fst s') u"
      using IH uploaded_from_mono by blast
    ultimately show ?thesis using IH by (auto simp: ups Some)
  qed
qed simp

lemma collected_paths_distinct:
  assumes "env_ok (up_catalog_env env)" and "slash_free fs" and "distinct (map fst ups)"
    and "\<forall>u \<in> set ups. uploaded_from env stream cp fs objs u"
  shows "distinct (map file_path (map snd ups))"
proof -
  have inj: "absolute_url (up_catalog_env env) p = absolute_url (up_catalog_env env) q \<Longrightarrow> p = q" for p q
    using assms(1) by (metis env_ok_def)
  have "inj_on (file_path \<circ> snd) (set ups)"
  proof (rule inj_onI)
    fix u v assume uv: "u \<in> set ups" "v \<in> set ups" "(file_path \<circ> snd) u = (file_path \<circ> snd) v"
    have u: "uploaded_from env stream cp fs objs u" and v: "uploaded_from env stream cp fs objs v"
      using uv(1,2) assms(4) by auto
    then have "absolute_url (up_catalog_env env) (object_key stream cp (fst u)) =
        absolute_url (up_catalog_env env) (object_key stream cp (fst v))"
      using uv(3) by (auto simp: uploaded_from_def)
    then have "object_key stream cp (fst u) = object_key stream cp (fst v)" by (rule inj)
    moreover have "CHR ''/'' \<notin> set (fst u)" "CHR ''/'' \<notin> set (fst v)"
      using u v assms(2) by (auto simp: uploaded_from_def slash_free_def)
    ultimately have "fst u = fst v" using object_key_inject by blast
    then show "u = v" using uv(1,2) assms(3) by (simp add: distinct_map inj_on_def)
  qed
  then show ?thesis using assms(3) by (simp add: distinct_map)
qed

section \<open>The snapshot\<close>

lemma group_changes_bounds:
  "group_changes cenv tp cs acc = Some groups \<Longrightarrow> c \<in> set cs \<Longrightarrow> calculate_time_bound cenv c tp \<noteq> None"
  by (induction cs arbitrary: acc) (auto simp: Let_def split: option.splits)

lemma update_snapshot_lists:
  assumes "env_ok cenv" and "wf_catalog cenv stream (cat_items cat) (cat_manifests cat)"
    and "cat_first_event cat \<noteq> None" and "distinct (map file_path changes)"
    and "update_snapshot cenv stream changes cat = (cat', Inr u)" and "f \<in> set changes"
  shows "\<exists>d. listed cenv stream (cat_items cat') (cat_manifests cat') d (file_path f) = Some f"
proof -
  have "changes \<noteq> []" using assms(6) by auto
  then have "\<exists>groups. group_changes cenv (cat_time_partition cat) changes [] = Some groups"
    using assms(5) by (simp add: update_snapshot_def group_changes_by_partition_def split: option.splits)
  then have bounds: "\<forall>c \<in> set changes. calculate_time_bound cenv c (cat_time_partition cat) \<noteq> None"
    by (auto dest: group_changes_bounds)
  then obtain t where t: "calculate_time_bound cenv f (cat_time_partition cat) = Some t" using assms(6) by blast
  let ?cs = "day_changes cenv (cat_time_partition cat) changes (date_naive t)"
  have "f \<in> set ?cs" "distinct (map file_path ?cs)"
    using assms(4,6) t by (auto simp: day_changes_def distinct_map_filter)
  then have "find_file ?cs (file_path f) = Some f" by (simp add: find_file_distinct)
  then have "listed cenv stream (cat_items cat') (cat_manifests cat') (date_naive t) (file_path f) = Some f"
    using update_snapshot_listed [OF assms(1-4) bounds] assms(5) by (auto simp: map_add_def)
  then show ?thesis ..
qed

section \<open>What a run keeps\<close>

lemma process_schemas_frame:
  "up_objects (fst (process_schemas env fs st)) = up_objects st \<and>
   up_catalog (fst (process_schemas env fs st)) = up_catalog st \<and>
   up_metrics (fst (process_schemas env fs st)) = up_metrics st \<and>
   st_parquets (up_stream (fst (process_schemas env fs st))) = st_parquets (up_stream st)"
  by (induction fs arbitrary: st) (simp_all split: option.split)

lemmas schema_files_frame = process_schemas_frame [of env "st_schema_files (up_stream st)" st for env st,
  folded process_schema_files_def]

lemma snapshot_frame:
  "up_objects (fst (update_snapshot_with_manifests env stream cs st)) = up_objects st \<and>
   up_metrics (fst (update_snapshot_with_manifests env stream cs st)) = up_metrics st \<and>
   up_stream (fst (update_snapshot_with_manifests env stream cs st)) = up_stream st"
  by (simp add: update_snapshot_with_manifests_def split: prod.split sum.split)

lemma ensure_frame [simp]:
  "up_objects (get_or_create_stream st) = up_objects st" "up_metrics (get_or_create_stream st) = up_metrics st"
  "up_stream (get_or_create_stream st) = up_stream st"
  "up_custom_partition (get_or_create_stream st) = partition_used st"
  "cat_items (up_catalog (get_or_create_stream st)) = cat_items (up_catalog st)"
  "cat_manifests (up_catalog (get_or_create_stream st)) = cat_manifests (up_catalog st)"
  "cat_first_event (up_catalog (get_or_create_stream st)) \<noteq> None"
  by (simp_all add: get_or_create_stream_def partition_used_def)

text \<open>The files of a run that is collected: the ones of the results are whole, with distinct entries.\<close>

lemma process_files:
  assumes "process_parquet_files env stream st = (st', r)" and "store_writes env"
    and "slash_free (st_parquets (up_stream st))" and "\<forall>fs. mset (completed env fs) = mset fs"
  shows "up_catalog st' = up_catalog st \<and> up_custom_partition st' = up_custom_partition st \<and>
    (case r of Inl e \<Rightarrow> up_stream st' = up_stream st \<and> (\<forall>x. e \<noteq> SnapshotFailed x)
     | Inr entries \<Rightarrow> \<exists>ups. entries = map snd ups \<and> distinct (map fst ups) \<and>
         up_stream st' = remove_uploaded env (map fst ups) (up_stream st) \<and>
         (\<forall>u \<in> set ups. uploaded_from env stream (up_custom_partition st) (st_parquets (up_stream st))
            (up_objects st') u))"
proof -
  let ?fs = "completed env (parquet_files env (up_stream st))"
  have sub: "set ?fs \<subseteq> set (st_parquets (up_stream st))"
    using mset_eq_setD [OF assms(4) [rule_format, of "parquet_files env (up_stream st)"]]
    by (auto simp: parquet_files_def)
  have "mset (map fst ?fs) = mset (map fst (parquet_files env (up_stream st)))"
    using assms(4) by simp
  then have "distinct (map fst ?fs)"
    using assms(3) by (metis distinct_map_filter mset_eq_imp_distinct_iff parquet_files_def slash_free_def)
  then have free: "slash_free ?fs" using sub assms(3) by (auto simp: slash_free_def)
  obtain s' c where run: "collect_upload_results env stream (up_custom_partition st) ?fs
      (up_objects st, up_metrics st) = (s', c)" by fastforce
  show ?thesis
  proof (cases c)
    case (Inl e)
    have "\<forall>x. e \<noteq> SnapshotFailed x"
      using run unfolding Inl by (rule collect_error)
    then show ?thesis using assms(1) run Inl by (auto simp: process_parquet_files_def split: prod.splits)
  next
    case (Inr ups)
    note files = collect_files [OF run [unfolded Inr] assms(2) free]
    have "uploaded_from env stream cp ?fs objs u \<Longrightarrow>
        uploaded_from env stream cp (st_parquets (up_stream st)) objs u" for cp objs u
      using sub by (auto simp: uploaded_from_def)
    moreover have "r = Inr (map snd ups)"
      "st' = st\<lparr>up_stream := remove_uploaded env (map fst ups) (up_stream st),
        up_objects := fst s', up_metrics := snd s'\<rparr>"
      using assms(1) run Inr by (auto simp: process_parquet_files_def split: prod.splits)
    ultimately show ?thesis using files by (auto intro!: exI [of _ ups])
  qed
qed

text \<open>The path of a run after the files.\<close>

lemma run_account:
  assumes "env_ok (up_catalog_env env)"
    and "wf_catalog (up_catalog_env env) stream (cat_items (up_catalog st)) (cat_manifests (up_catalog st))"
    and "store_writes env" and "slash_free (st_parquets (up_stream st))"
    and "\<forall>fs. mset (completed env fs) = mset fs"
    and "upload_files_from_staging env stream st = (st', r)"
    and "(name, rows) \<in> set (st_parquets (up_stream st))"
    and "(name, rows) \<notin> set (st_parquets (up_stream st'))"
  shows "whole env (up_objects st') (object_key stream (partition_used st) name) rows \<and>
    ((\<exists>e. r = Inl (SnapshotFailed e)) \<or>
     (\<exists>d f. listed (up_catalog_env env) stream (cat_items (up_catalog st')) (cat_manifests (up_catalog st')) d
        (absolute_url (up_catalog_env env) (object_key stream (partition_used st) name)) = Some f \<and>
        num_rows f = length rows))"
proof -
  let ?st = "get_or_create_stream st" and ?cenv = "up_catalog_env env"
  obtain st1 r1 where files: "process_parquet_files env stream ?st = (st1, r1)" by fastforce
  have exists: "staging_exists env"
    using assms(6-8) by (auto simp: upload_files_from_staging_def split: if_splits)
  note proc = process_files [OF files assms(3) _ assms(5), simplified, OF assms(4)]
  have "\<exists>entries. r1 = Inr entries"
    using proc assms(6-8) files exists
    by (cases r1) (auto simp: upload_files_from_staging_def split: prod.splits sum.splits)
  then obtain entries where r1: "r1 = Inr entries" ..
  with proc obtain ups where ups: "entries = map snd ups" "distinct (map fst ups)"
    "up_stream st1 = remove_uploaded env (map fst ups) (up_stream st)"
    "\<forall>u \<in> set ups. uploaded_from env stream (partition_used st) (st_parquets (up_stream st)) (up_objects st1) u"
    by auto
  obtain st2 r2 where snap: "update_snapshot_with_manifests env stream entries st1 = (st2, r2)" by fastforce
  have final: "(st', r) = (case r2 of Inl e \<Rightarrow> (st2, Inl e) | Inr _ \<Rightarrow> process_schema_files env st2)"
    using assms(6) exists files r1 snap by (simp add: upload_files_from_staging_def split: sum.splits)
  have "up_objects st' = up_objects st2 \<and> st_parquets (up_stream st') = st_parquets (up_stream st2) \<and>
      up_catalog st' = up_catalog st2"
  proof (cases r2)
    case (Inr u)
    then have "st' = fst (process_schema_files env st2)" using final by (simp add: prod_eq_iff)
    then show ?thesis using schema_files_frame [of env st2] by simp
  qed (use final in simp)
  then have same: "up_objects st' = up_objects st1" "st_parquets (up_stream st') = st_parquets (up_stream st1)"
    "up_catalog st' = up_catalog st2"
    using snapshot_frame [of env stream entries st1] snap by auto
  then have "name \<in> set (map fst ups)"
    using assms(7,8) ups(3) by (auto simp: remove_uploaded_def)
  then obtain m where m: "(name, m) \<in> set ups" by auto
  with ups(4) obtain rows' where up: "(name, rows') \<in> set (st_parquets (up_stream st))"
    "whole env (up_objects st1) (object_key stream (partition_used st) name) rows'"
    "file_path m = absolute_url ?cenv (object_key stream (partition_used st) name)"
    "num_rows m = length rows'"
    by (fastforce simp: uploaded_from_def)
  have rows: "rows' = rows"
    using up(1) assms(4,7) by (auto simp: slash_free_def dest: eq_key_imp_eq_value)
  show ?thesis
  proof (cases "\<exists>e. r = Inl (SnapshotFailed e)")
    case True
    then show ?thesis using up(2) rows same by simp
  next
    case False
    have no: "entries \<noteq> []" using m ups(1) by auto
    then obtain u where "r2 = Inr u"
      using False final snap
      by (cases r2) (auto simp: update_snapshot_with_manifests_def split: prod.splits sum.splits if_splits)
    then have "update_snapshot ?cenv stream entries (up_catalog ?st) = (up_catalog st2, Inr u)"
      using snap no proc by (auto simp: update_snapshot_with_manifests_def split: prod.splits sum.splits if_splits)
    moreover have "distinct (map file_path entries)"
      unfolding ups(1) by (rule collected_paths_distinct [OF assms(1,4) ups(2,4)])
    moreover have "m \<in> set entries" using m ups(1) by force
    ultimately have "\<exists>d. listed ?cenv stream (cat_items (up_catalog st2)) (cat_manifests (up_catalog st2)) d
        (file_path m) = Some m"
      using assms(1,2) by (intro update_snapshot_lists [where cat = "up_catalog ?st" and changes = entries]) auto
    then show ?thesis using up(2-4) rows same by auto
  qed
qed

section \<open>Runs without faults of the files\<close>

text \<open>Every access to a file succeeds, all of its bytes arrive, its name has a date and its footer
  can be read.\<close>

definition healthy :: "'r upload_env \<Rightarrow> string \<Rightarrow> string option \<Rightarrow> string \<times> 'r list \<Rightarrow> bool" where
  "healthy env stream cp f \<longleftrightarrow>
     (let key = object_key stream cp (fst f) in
      is_valid_parquet_file env f \<and> metadata_ok env (fst f) \<and> send_ok env key \<and>
      arrived env key = Some (parquet_bytes env (snd f)) \<and> head_ok env key \<and> metadata_again env (fst f) \<and>
      reopen_ok env (fst f) \<and> unlink_ok env (fst f) \<and> file_date_part (fst f) \<noteq> None \<and>
      create_from_parquet_file (absolute_url (up_catalog_env env) key) (parquet_bytes env (snd f))
        (length (snd f)) (footer env (snd f)) \<noteq> None)"

abbreviation stored_bytes :: "string \<Rightarrow> metrics \<Rightarrow> u64" where
  "stored_bytes stream m \<equiv> storage_size m [''data'', stream, ''parquet'']"

definition bytes_of :: "'r upload_env \<Rightarrow> (string \<times> 'r list) list \<Rightarrow> u64" where
  "bytes_of env fs = (\<Sum>f \<leftarrow> fs. of_nat (parquet_bytes env (snd f)))"

lemma bytes_of_simps [simp]:
  "bytes_of env [] = 0" "bytes_of env (f # fs) = of_nat (parquet_bytes env (snd f)) + bytes_of env fs"
  by (simp_all add: bytes_of_def)

lemma bytes_of_mset: "mset fs = mset gs \<Longrightarrow> bytes_of env fs = bytes_of env gs"
proof -
  assume same: "mset fs = mset gs"
  have "bytes_of env xs = (\<Sum>f \<in># mset xs. of_nat (parquet_bytes env (snd f)))" for xs
    by (simp add: bytes_of_def flip: sum_mset_sum_list)
  then show "bytes_of env fs = bytes_of env gs" using same by simp
qed

lemma healthy_upload:
  assumes "healthy env stream cp f"
  shows "\<exists>s' manifest. upload_single_parquet_file env stream (object_key stream cp (fst f)) (fst f) (snd f) s =
      (s', Inr (Some manifest)) \<and>
    stored_bytes stream (snd s') = stored_bytes stream (snd s) + of_nat (parquet_bytes env (snd f))"
proof -
  obtain objs m where s: "s = (objs, m)" by fastforce
  have "\<exists>m'. update_storage_metrics (Some (parquet_bytes env (snd f))) stream (fst f) m = Some m' \<and>
      stored_bytes stream m' = stored_bytes stream m + of_nat (parquet_bytes env (snd f))"
    using assms by (auto simp: update_storage_metrics_def gauge_add_def healthy_def Let_def)
  then show ?thesis
    using assms unfolding s healthy_def Let_def
    by (auto simp: upload_single_parquet_file_def upload_multipart_def validate_uploaded_parquet_file_def)
qed

lemma collect_healthy:
  assumes "\<forall>f \<in> set fs. healthy env stream cp f"
  shows "\<exists>s' ups. collect_upload_results env stream cp fs s = (s', Inr ups) \<and> map fst ups = map fst fs \<and>
    stored_bytes stream (snd s') = stored_bytes stream (snd s) + bytes_of env fs"
  using assms
proof (induction fs arbitrary: s)
  case (Cons f fs)
  obtain s1 manifest where one:
    "upload_single_parquet_file env stream (object_key stream cp (fst f)) (fst f) (snd f) s = (s1, Inr (Some manifest))"
    "stored_bytes stream (snd s1) = stored_bytes stream (snd s) + of_nat (parquet_bytes env (snd f))"
    using healthy_upload [of env stream cp f s] Cons.prems by auto
  obtain s' ups where "collect_upload_results env stream cp fs s1 = (s', Inr ups)" "map fst ups = map fst fs"
    "stored_bytes stream (snd s') = stored_bytes stream (snd s1) + bytes_of env fs"
    using Cons.IH [of s1] Cons.prems by auto
  then show ?case using one by (auto simp: bind_result_def)
qed simp

text \<open>A failing file after some healthy ones: its error ends the collection.\<close>

lemma collect_fails:
  assumes "\<forall>f \<in> set fs. healthy env stream cp f" and "\<not> metadata_ok env (fst g)"
    and "\<forall>f \<in> set gs. reached env (fst f) = NotStarted"
  shows "\<exists>s'. collect_upload_results env stream cp (fs @ g # gs) s = (s', Inl (UploadFailed (fst g))) \<and>
    stored_bytes stream (snd s') = stored_bytes stream (snd s) + bytes_of env fs"
  using assms(1)
proof (induction fs arbitrary: s)
  case Nil
  have "fold (late_task env stream cp) gs t = t" for t
    using assms(3) by (induction gs arbitrary: t) (simp_all add: late_task_def)
  moreover have "upload_single_parquet_file env stream (object_key stream cp (fst g)) (fst g) (snd g) s =
      (s, Inl (UploadFailed (fst g)))"
    using assms(2) by (cases s) (simp add: upload_single_parquet_file_def)
  ultimately show ?case by simp
next
  case (Cons f fs)
  obtain s1 manifest where one:
    "upload_single_parquet_file env stream (object_key stream cp (fst f)) (fst f) (snd f) s = (s1, Inr (Some manifest))"
    "stored_bytes stream (snd s1) = stored_bytes stream (snd s) + of_nat (parquet_bytes env (snd f))"
    using healthy_upload [of env stream cp f s] Cons.prems by auto
  obtain s' where "collect_upload_results env stream cp (fs @ g # gs) s1 = (s', Inl (UploadFailed (fst g)))"
    "stored_bytes stream (snd s') = stored_bytes stream (snd s1) + bytes_of env fs"
    using Cons.IH [of s1] Cons.prems by auto
  then show ?case using one by (auto simp: bind_result_def)
qed

lemma files_healthy:
  assumes "\<forall>f \<in> set (st_parquets (up_stream st)). healthy env stream (up_custom_partition st) f"
    and "\<forall>fs. mset (completed env fs) = mset fs"
  shows "\<exists>st' entries. process_parquet_files env stream st = (st', Inr entries) \<and>
    length entries = length (st_parquets (up_stream st)) \<and>
    st_parquets (up_stream st') = [] \<and> up_catalog st' = up_catalog st \<and>
    stored_bytes stream (up_metrics st') =
      stored_bytes stream (up_metrics st) + bytes_of env (st_parquets (up_stream st))"
proof -
  let ?fs = "completed env (parquet_files env (up_stream st))"
  have all: "parquet_files env (up_stream st) = st_parquets (up_stream st)"
    using assms(1) by (auto simp: parquet_files_def healthy_def Let_def intro!: filter_True)
  then have ms: "mset ?fs = mset (st_parquets (up_stream st))" using assms(2) by simp
  then have same: "set ?fs = set (st_parquets (up_stream st))" "length ?fs = length (st_parquets (up_stream st))"
    by (metis set_mset_mset, metis size_mset)
  then obtain s' ups where run: "collect_upload_results env stream (up_custom_partition st) ?fs
      (up_objects st, up_metrics st) = (s', Inr ups)" "map fst ups = map fst ?fs"
    "stored_bytes stream (snd s') = stored_bytes stream (up_metrics st) + bytes_of env ?fs"
    using collect_healthy [of ?fs env stream "up_custom_partition st" "(up_objects st, up_metrics st)"] assms(1)
    by auto
  have "st_parquets (remove_uploaded env (map fst ups) (up_stream st)) = []"
    using assms(1) same(1) unfolding run(2) remove_uploaded_def
    by (auto simp: filter_empty_conv healthy_def Let_def)
  moreover have "length ups = length ?fs" using run(2) by (metis length_map)
  ultimately show ?thesis
    using run(1,3) same(2) bytes_of_mset [OF ms]
    by (auto simp: process_parquet_files_def split: prod.splits)
qed

section \<open>Properties\<close>

text \<open>C6: A run of the upload loses no staged file: afterwards each is still staged, or it is whole in
  the object store and, unless the update of the snapshot failed, listed with all its rows under its
  address. This holds whichever accesses fail, in every order of the tasks, whatever had reached the
  store when one failed.\<close>

theorem upload_accounts_for_files:
  assumes "env_ok (up_catalog_env env)"
    and "wf_catalog (up_catalog_env env) stream (cat_items (up_catalog st)) (cat_manifests (up_catalog st))"
    and "store_writes env" and "slash_free (st_parquets (up_stream st))"
    and "\<forall>fs. mset (completed env fs) = mset fs"
    and "upload_files_from_staging env stream st = (st', r)"
    and "(name, rows) \<in> set (st_parquets (up_stream st))"
  shows "(name, rows) \<in> set (st_parquets (up_stream st')) \<or>
    whole env (up_objects st') (object_key stream (partition_used st) name) rows \<and>
    ((\<exists>e. r = Inl (SnapshotFailed e)) \<or>
     (\<exists>d f. listed (up_catalog_env env) stream (cat_items (up_catalog st')) (cat_manifests (up_catalog st')) d
        (absolute_url (up_catalog_env env) (object_key stream (partition_used st) name)) = Some f \<and>
        num_rows f = length rows))"
  using run_account [OF assms] by blast

definition sample_name :: string where
  "sample_name = ''date=1970-01-01.hour=00.minute=00.h.parquet''"

definition sample_upload :: "nat upload_env" where
  "sample_upload =
     \<lparr>up_catalog_env = sample_catalog_env, parquet_bytes = (\<lambda>rows. 8 + length rows),
      footer = (\<lambda>_. [\<lparr>rg_columns = [\<lparr>chunk_path = ''p_timestamp'', chunk_stats = Some (IntStats 0 5),
                    chunk_uncompressed = 1, chunk_compressed = 1\<rparr>],
                  rg_sorting = Some [], rg_total_byte_size = 1\<rparr>]),
      staging_exists = True, listed_ok = (\<lambda>_. True), metadata_ok = (\<lambda>_. True), arrived = (\<lambda>_. Some 10),
      send_ok = (\<lambda>_. True), head_ok = (\<lambda>_. True), delete_ok = (\<lambda>_. True), metadata_again = (\<lambda>_. True),
      reopen_ok = (\<lambda>_. True), unlink_ok = (\<lambda>_. True), completed = (\<lambda>fs. fs), reached = (\<lambda>_. NotStarted),
      meta_read_ok = True, snapshot_put_ok = True, schema_open_ok = (\<lambda>_. True), schema_put_ok = True,
      merge_schemas = (\<lambda>ss. Some (concat ss))\<rparr>"

definition sample_node :: "nat upload_node" where
  "sample_node =
     \<lparr>up_stream = \<lparr>st_mem = empty_mem, st_disk = [], st_arrows = [], st_inprocess = [],
        st_parquets = [(sample_name, [7, 9])], st_schema_files = []\<rparr>,
      up_custom_partition = None, up_objects = Map.empty, up_metrics = no_metrics,
      up_catalog = empty_catalog, up_schema = None\<rparr>"

lemma sample_parts:
  "up_catalog_env sample_upload = sample_catalog_env" "store_writes sample_upload"
  "\<forall>fs. mset (completed sample_upload fs) = mset fs"
  "st_parquets (up_stream sample_node) = [(sample_name, [7, 9])]"
  "slash_free [(sample_name, [7, 9])]" "up_catalog sample_node = empty_catalog"
  "partition_used sample_node = None" "up_objects sample_node = Map.empty"
  "up_metrics sample_node = no_metrics"
  "wf_catalog sample_catalog_env ''web'' (cat_items empty_catalog) (cat_manifests empty_catalog)"
  by (simp_all add: sample_upload_def sample_node_def partition_used_def store_writes_def slash_free_def sample_name_def
      empty_catalog_def wf_catalog_def)

lemma sample_healthy: "healthy sample_upload ''web'' None (sample_name, [7, 9])"
proof -
  have "file_date_part sample_name \<noteq> None" by (simp add: file_date_part_def sample_name_def)
  moreover have "create_from_parquet_file path 10 (Suc (Suc 0)) (footer sample_upload [7, 9]) \<noteq> None" for path
    by (simp add: create_from_parquet_file_def sample_upload_def column_statistics_def add_chunk_def
        sort_orders_def sort_order_group_def Let_def)
  moreover have "parquet_bytes sample_upload [7, 9] = 10" by (simp add: sample_upload_def)
  ultimately show ?thesis
    by (simp add: healthy_def Let_def is_valid_parquet_file_def footer_size_def sample_upload_def)
qed

theorem upload_accounts_for_files_witness:
  "\<exists>st' r. upload_files_from_staging sample_upload ''web'' sample_node = (st', r) \<and>
     ((sample_name, [7, 9]) \<in> set (st_parquets (up_stream st')) \<or>
      whole sample_upload (up_objects st') (object_key ''web'' None sample_name) [7, 9])"
proof -
  obtain st' r where run: "upload_files_from_staging sample_upload ''web'' sample_node = (st', r)" by fastforce
  then show ?thesis
    using upload_accounts_for_files [of sample_upload "''web''" sample_node st' r sample_name "[7, 9]"]
      sample_env_ok by (auto simp: sample_parts)
qed

text \<open>What a failed run of the files does, and what a failed snapshot leaves.\<close>

lemma failed_run:
  assumes "staging_exists env" and "completed env (parquet_files env (up_stream st)) = fs @ g # gs"
    and "\<forall>f \<in> set fs. healthy env stream (partition_used st) f" and "\<not> metadata_ok env (fst g)"
    and "\<forall>f \<in> set gs. reached env (fst f) = NotStarted"
  shows "\<exists>st'. upload_files_from_staging env stream st = (st', Inl (UploadFailed (fst g))) \<and>
    up_stream st' = up_stream st \<and> partition_used st' = partition_used st \<and>
    cat_items (up_catalog st') = cat_items (up_catalog st) \<and>
    cat_manifests (up_catalog st') = cat_manifests (up_catalog st) \<and>
    stored_bytes stream (up_metrics st') = stored_bytes stream (up_metrics st) + bytes_of env fs"
proof -
  obtain s' where "collect_upload_results env stream (partition_used st) (fs @ g # gs)
      (up_objects st, up_metrics st) = (s', Inl (UploadFailed (fst g)))"
    "stored_bytes stream (snd s') = stored_bytes stream (up_metrics st) + bytes_of env fs"
    using collect_fails [OF assms(3-5), of "(up_objects st, up_metrics st)"] by auto
  then show ?thesis
    using assms(1,2)
    by (auto simp: upload_files_from_staging_def process_parquet_files_def split: prod.splits)
      (simp add: partition_used_def get_or_create_stream_def)
qed

lemma metrics_of_run:
  assumes "\<forall>f \<in> set (st_parquets (up_stream st)). healthy env stream (partition_used st) f"
    and "\<forall>fs. mset (completed env fs) = mset fs" and "staging_exists env"
  shows "stored_bytes stream (up_metrics (fst (upload_files_from_staging env stream st))) =
    stored_bytes stream (up_metrics st) + bytes_of env (st_parquets (up_stream st))"
proof -
  obtain st1 entries where files: "process_parquet_files env stream (get_or_create_stream st) = (st1, Inr entries)"
    "stored_bytes stream (up_metrics st1) = stored_bytes stream (up_metrics st) + bytes_of env (st_parquets (up_stream st))"
    using files_healthy [of "get_or_create_stream st" env stream] assms(1,2) by auto
  have "up_metrics (fst (upload_files_from_staging env stream st)) = up_metrics st1"
    using snapshot_frame [of env stream entries st1] assms(3) files(1)
    by (auto simp: upload_files_from_staging_def schema_files_frame split: prod.split sum.split)
  then show ?thesis using files(2) by simp
qed

text \<open>A file is counted at its upload, not at its removal. When one file cannot be read, the run
  fails with every file still staged, also those already uploaded; the run that repeats them counts
  them again, so that the stored size of the stream is too large by their bytes.\<close>

theorem retry_counts_twice:
  assumes "staging_exists env" and "completed env (parquet_files env (up_stream st)) = fs @ g # gs"
    and "\<forall>f \<in> set fs. healthy env stream (partition_used st) f" and "\<not> metadata_ok env (fst g)"
    and "\<forall>f \<in> set gs. reached env (fst f) = NotStarted"
    and "\<forall>f \<in> set (st_parquets (up_stream st)). healthy env' stream (partition_used st) f"
    and "\<forall>fs. mset (completed env' fs) = mset fs" and "staging_exists env'"
    and "upload_files_from_staging env stream st = (st1, r1)"
    and "upload_files_from_staging env' stream st1 = (st2, r2)"
  shows "r1 = Inl (UploadFailed (fst g)) \<and> st_parquets (up_stream st1) = st_parquets (up_stream st) \<and>
    stored_bytes stream (up_metrics st2) = stored_bytes stream (up_metrics st) +
      bytes_of env' (st_parquets (up_stream st)) + bytes_of env fs"
proof -
  have one: "r1 = Inl (UploadFailed (fst g))" "up_stream st1 = up_stream st"
    "partition_used st1 = partition_used st"
    "stored_bytes stream (up_metrics st1) = stored_bytes stream (up_metrics st) + bytes_of env fs"
    using failed_run [OF assms(1-5)] assms(9) by auto
  then show ?thesis
    using metrics_of_run [of st1 env' stream] assms(6-8,10) by simp
qed

theorem retry_counts_twice_witness:
  "\<exists>st1 st2 r2. upload_files_from_staging (sample_upload\<lparr>metadata_ok := (\<lambda>f. f = sample_name)\<rparr>) ''web''
       (sample_node\<lparr>up_stream := (up_stream sample_node)\<lparr>st_parquets := [(sample_name, [7, 9]), (''date=x.parquet'', [5, 6])]\<rparr>\<rparr>) =
       (st1, Inl (UploadFailed ''date=x.parquet'')) \<and>
     upload_files_from_staging sample_upload ''web'' st1 = (st2, r2) \<and>
     stored_bytes ''web'' (up_metrics st2) = 30"
proof -
  let ?bad = "(''date=x.parquet'', [5, 6 :: nat])"
  let ?env = "sample_upload\<lparr>metadata_ok := (\<lambda>f. f = sample_name)\<rparr>"
  let ?st = "sample_node\<lparr>up_stream := (up_stream sample_node)\<lparr>st_parquets := [(sample_name, [7, 9]), ?bad]\<rparr>\<rparr>"
  have entry: "create_from_parquet_file path 10 (Suc (Suc 0)) (footer sample_upload rows) \<noteq> None" for path rows
    by (simp add: create_from_parquet_file_def sample_upload_def column_statistics_def add_chunk_def
        sort_orders_def sort_order_group_def Let_def)
  have bytes: "parquet_bytes sample_upload rows = 8 + length rows" for rows by (simp add: sample_upload_def)
  have "file_date_part ''date=x.parquet'' \<noteq> None" by (simp add: file_date_part_def)
  then have bad: "healthy sample_upload ''web'' None ?bad"
    using entry bytes [of "[5, 6]"]
    by (simp add: healthy_def Let_def is_valid_parquet_file_def footer_size_def sample_upload_def)
  have good: "healthy ?env ''web'' None (sample_name, [7, 9])"
    using sample_healthy by (simp add: healthy_def Let_def is_valid_parquet_file_def)
  have stream: "st_parquets (up_stream ?st) = [(sample_name, [7, 9]), ?bad]" "partition_used ?st = None"
    "up_metrics ?st = no_metrics" by (simp_all add: sample_node_def partition_used_def)
  have order: "completed ?env (parquet_files ?env (up_stream ?st)) = [] @ (sample_name, [7, 9]) # [?bad] \<and>
      completed ?env (parquet_files ?env (up_stream ?st)) = [(sample_name, [7, 9])] @ ?bad # []"
    unfolding parquet_files_def stream
    by (simp add: is_valid_parquet_file_def footer_size_def sample_upload_def)
  obtain st1 r1 where one: "upload_files_from_staging ?env ''web'' ?st = (st1, r1)" by fastforce
  obtain st2 r2 where two: "upload_files_from_staging sample_upload ''web'' st1 = (st2, r2)" by fastforce
  have flags: "staging_exists ?env" "staging_exists sample_upload" "\<not> metadata_ok ?env (fst ?bad)"
    by (simp_all add: sample_upload_def sample_name_def)
  have "r1 = Inl (UploadFailed (fst ?bad)) \<and> st_parquets (up_stream st1) = st_parquets (up_stream ?st) \<and>
      stored_bytes ''web'' (up_metrics st2) = stored_bytes ''web'' (up_metrics ?st) +
        bytes_of sample_upload (st_parquets (up_stream ?st)) + bytes_of ?env [(sample_name, [7, 9])]"
    using sample_healthy bad good sample_parts(3)
    by (intro retry_counts_twice [OF flags(1) order [THEN conjunct2] _ flags(3) _ _ _ flags(2) one two])
      (simp_all add: stream)
  then show ?thesis using one two
    by (intro exI [of _ st1] exI [of _ st2] exI [of _ r2]) (simp add: stream bytes no_metrics_def sample_upload_def)
qed

text \<open>A node that stages nothing more: its further runs leave the catalog alone.\<close>

abbreviation later_runs :: "string \<Rightarrow> 'r upload_env list \<Rightarrow> 'r upload_node \<Rightarrow> 'r upload_node" where
  "later_runs stream envs st \<equiv> fold (\<lambda>env st. fst (upload_files_from_staging env stream st)) envs st"

lemma idle_run:
  assumes "st_parquets (up_stream st) = []" and "\<forall>fs. mset (completed env fs) = mset fs"
    and "upload_files_from_staging env stream st = (st', r)"
  shows "st_parquets (up_stream st') = [] \<and> cat_items (up_catalog st') = cat_items (up_catalog st) \<and>
    cat_manifests (up_catalog st') = cat_manifests (up_catalog st)"
proof (cases "staging_exists env")
  case True
  let ?st = "get_or_create_stream st\<lparr>up_stream := remove_uploaded env [] (up_stream st)\<rparr>"
  have "process_parquet_files env stream (get_or_create_stream st) = (?st, Inr [])"
    using assms(1) assms(2) [rule_format, of "[]"] by (simp add: process_parquet_files_def parquet_files_def)
  then have "process_schema_files env ?st = (st', r)"
    using True assms(3) by (auto simp: upload_files_from_staging_def update_snapshot_with_manifests_def)
  then show ?thesis
    using schema_files_frame [of env ?st] assms(1) by (simp add: remove_uploaded_def)
qed (use assms in \<open>simp add: upload_files_from_staging_def\<close>)

lemma idle_runs:
  assumes "st_parquets (up_stream st) = []" and "\<forall>env \<in> set envs. \<forall>fs. mset (completed env fs) = mset fs"
  shows "cat_items (up_catalog (later_runs stream envs st)) = cat_items (up_catalog st) \<and>
    cat_manifests (up_catalog (later_runs stream envs st)) = cat_manifests (up_catalog st)"
  using assms
proof (induction envs arbitrary: st)
  case (Cons env envs)
  obtain st' r where run: "upload_files_from_staging env stream st = (st', r)" by fastforce
  show ?case using idle_run [OF Cons.prems(1) _ run] Cons.IH [of st'] Cons.prems(2) run by simp
qed simp

text \<open>Healthy files that were all taken out of the staging directory are whole in the object store.\<close>

lemma removed_files_whole:
  assumes "process_parquet_files env stream st = (st', Inr entries)" and "store_writes env"
    and "slash_free (st_parquets (up_stream st))" and "\<forall>fs. mset (completed env fs) = mset fs"
    and "st_parquets (up_stream st') = []" and "(name, rows) \<in> set (st_parquets (up_stream st))"
  shows "whole env (up_objects st') (object_key stream (up_custom_partition st) name) rows"
proof -
  obtain ups where ups: "up_stream st' = remove_uploaded env (map fst ups) (up_stream st)"
    "\<forall>u \<in> set ups. uploaded_from env stream (up_custom_partition st) (st_parquets (up_stream st)) (up_objects st') u"
    using process_files [OF assms(1-4)] by auto
  have "name \<in> set (map fst ups)"
    using assms(5,6) unfolding ups(1) remove_uploaded_def by (force simp: filter_empty_conv)
  then obtain u where u: "u \<in> set ups" "fst u = name" by auto
  then obtain rows' where r: "(name, rows') \<in> set (st_parquets (up_stream st))"
    "whole env (up_objects st') (object_key stream (up_custom_partition st) name) rows'"
    using ups(2) by (auto simp: uploaded_from_def)
  have "rows' = rows" using r(1) assms(3,6) by (auto simp: slash_free_def dest: eq_key_imp_eq_value)
  then show ?thesis using r(2) by simp
qed

text \<open>C7: The staged files are removed before the snapshot is updated. Let every access to the staged
  files succeed (their names are distinct and without a slash, and a store that reports a success has
  written the object), and let the stored snapshot then be unreadable. The run
  fails, no file is staged any more, each is whole in the object store, and the catalog is as before.
  It stays so through any number of later runs in any environments, failing or not, as long as nothing
  else is staged: none of them lists the files.\<close>

theorem failed_snapshot_orphans:
  assumes "\<forall>f \<in> set (st_parquets (up_stream st)). healthy env stream (partition_used st) f"
    and "st_parquets (up_stream st) \<noteq> []" and "slash_free (st_parquets (up_stream st))" and "store_writes env"
    and "\<forall>fs. mset (completed env fs) = mset fs" and "staging_exists env" and "\<not> meta_read_ok env"
    and "upload_files_from_staging env stream st = (st1, r1)"
    and "\<forall>env' \<in> set envs. \<forall>fs. mset (completed env' fs) = mset fs"
  shows "r1 = Inl (SnapshotFailed None) \<and> st_parquets (up_stream st1) = [] \<and>
    (\<forall>(name, rows) \<in> set (st_parquets (up_stream st)).
       whole env (up_objects st1) (object_key stream (partition_used st) name) rows) \<and>
    cat_items (up_catalog (later_runs stream envs st1)) = cat_items (up_catalog st) \<and>
    cat_manifests (up_catalog (later_runs stream envs st1)) = cat_manifests (up_catalog st)"
proof -
  obtain stf entries where files: "process_parquet_files env stream (get_or_create_stream st) = (stf, Inr entries)"
    "length entries = length (st_parquets (up_stream st))" "st_parquets (up_stream stf) = []"
    "up_catalog stf = up_catalog (get_or_create_stream st)"
    using files_healthy [of "get_or_create_stream st" env stream] assms(1,5) by auto
  have "entries \<noteq> []" using files(2) assms(2) by auto
  then have one: "r1 = Inl (SnapshotFailed None)" "st1 = stf"
    using assms(6-8) files(1)
    by (auto simp: upload_files_from_staging_def update_snapshot_with_manifests_def)
  have "whole env (up_objects stf) (object_key stream (partition_used st) name) rows"
    if "(name, rows) \<in> set (st_parquets (up_stream st))" for name rows
    using removed_files_whole [OF files(1) assms(4) _ assms(5) files(3), of name rows] assms(3) that by simp
  then show ?thesis using idle_runs [OF files(3) assms(9), of stream] one files(3,4) by auto
qed

theorem failed_snapshot_orphans_witness:
  "\<exists>st1. upload_files_from_staging (sample_upload\<lparr>meta_read_ok := False\<rparr>) ''web'' sample_node =
       (st1, Inl (SnapshotFailed None)) \<and>
     up_objects st1 (object_key ''web'' None sample_name) = Some ([7, 9], 10) \<and>
     cat_items (up_catalog (later_runs ''web'' [sample_upload, sample_upload] st1)) = []"
proof -
  let ?env = "sample_upload\<lparr>meta_read_ok := False\<rparr>"
  obtain st1 r1 where one: "upload_files_from_staging ?env ''web'' sample_node = (st1, r1)" by fastforce
  have "healthy ?env ''web'' None (sample_name, [7, 9])"
    using sample_healthy by (simp add: healthy_def Let_def is_valid_parquet_file_def)
  moreover have "store_writes ?env" "staging_exists ?env" "parquet_bytes ?env [7, 9] = 10"
    by (simp_all add: store_writes_def sample_upload_def)
  ultimately have "r1 = Inl (SnapshotFailed None) \<and>
      whole ?env (up_objects st1) (object_key ''web'' None sample_name) [7, 9] \<and>
      cat_items (up_catalog (later_runs ''web'' [sample_upload, sample_upload] st1)) = cat_items (up_catalog sample_node)"
    using failed_snapshot_orphans [OF _ _ _ _ _ _ _ one, of "[sample_upload, sample_upload]"] sample_parts(3)
    by (simp add: sample_parts)
  then show ?thesis using one \<open>parquet_bytes ?env [7, 9] = 10\<close> by (auto simp: sample_parts empty_catalog_def)
qed

text \<open>Staged schemas that can be opened, merged with the stored one and stored, one after the other.\<close>

fun schemas_merge :: "'r upload_env \<Rightarrow> (string \<times> field list) list \<Rightarrow> field list option \<Rightarrow> bool" where
  "schemas_merge env [] stored = True"
| "schemas_merge env (f # fs) stored =
     (schema_open_ok env (fst f) \<and>
      (case commit_schema_to_storage env (snd f) stored of
         None \<Rightarrow> False
       | Some new_schema \<Rightarrow> schemas_merge env fs (Some new_schema)))"

lemma process_schemas_ok:
  "schemas_merge env fs (up_schema st) \<Longrightarrow> snd (process_schemas env fs st) = Inr ()"
  by (induction fs arbitrary: st) (auto split: option.splits)

lemma up_schema_kept:
  "process_parquet_files env stream st = (st1, r) \<Longrightarrow>
     up_schema st1 = up_schema st \<and> st_schema_files (up_stream st1) = st_schema_files (up_stream st)"
  "up_schema (fst (update_snapshot_with_manifests env stream cs st)) = up_schema st"
  "up_schema (get_or_create_stream st) = up_schema st"
  by (auto simp: process_parquet_files_def update_snapshot_with_manifests_def get_or_create_stream_def
      remove_uploaded_def split: prod.splits sum.splits)

text \<open>C28: Let every access of a run to files and storage succeed (names of files distinct and without
  a slash, a store that reports a success has written the object, manifest addresses name their
  day and can be read back), the staged schemas merge one after the other with the stored one,
  the entries of the files have time statistics, and the snapshot hold only well-formed entries
  of this node. Then the run succeeds, leaves no staged file, and every file is listed with all
  its rows.\<close>

theorem clean_run_lists_all:
  assumes "env_ok (up_catalog_env env)"
    and "wf_catalog (up_catalog_env env) stream (cat_items (up_catalog st)) (cat_manifests (up_catalog st))"
    and "slash_free (st_parquets (up_stream st))" and "\<forall>fs. mset (completed env fs) = mset fs"
    and "store_writes env" and "staging_exists env" and "meta_read_ok env" and "snapshot_put_ok env"
    and "\<forall>f \<in> set (st_parquets (up_stream st)). healthy env stream (partition_used st) f"
    and "\<forall>f \<in> set (st_parquets (up_stream st)). \<forall>entry.
          create_from_parquet_file (absolute_url (up_catalog_env env) (object_key stream (partition_used st) (fst f)))
            (parquet_bytes env (snd f)) (length (snd f)) (footer env (snd f)) = Some entry \<longrightarrow>
          calculate_time_bound (up_catalog_env env) entry (cat_time_partition (up_catalog st)) \<noteq> None"
    and "schemas_merge env (st_schema_files (up_stream st)) (up_schema st)"
  shows "\<exists>st'. upload_files_from_staging env stream st = (st', Inr ()) \<and> st_parquets (up_stream st') = [] \<and>
    (\<forall>(name, rows) \<in> set (st_parquets (up_stream st)). \<exists>d f.
       listed (up_catalog_env env) stream (cat_items (up_catalog st')) (cat_manifests (up_catalog st')) d
         (absolute_url (up_catalog_env env) (object_key stream (partition_used st) name)) = Some f \<and>
       num_rows f = length rows)"
proof -
  obtain stf entries where files: "process_parquet_files env stream (get_or_create_stream st) = (stf, Inr entries)"
    "st_parquets (up_stream stf) = []" "up_catalog stf = up_catalog (get_or_create_stream st)"
    using files_healthy [of "get_or_create_stream st" env stream] assms(4,9) by auto
  obtain ups where ups: "entries = map snd ups" "distinct (map fst ups)"
    "\<forall>u \<in> set ups. uploaded_from env stream (partition_used st) (st_parquets (up_stream st)) (up_objects stf) u"
    "up_stream stf = remove_uploaded env (map fst ups) (up_stream st)"
    using process_files [OF files(1) assms(5) _ assms(4)] assms(3) by auto
  have "\<forall>c \<in> set entries. calculate_time_bound (up_catalog_env env) c (cat_time_partition (up_catalog st)) \<noteq> None"
    using ups(3) assms(10) unfolding ups(1) by (fastforce simp: uploaded_from_def)
  moreover have "cat_time_partition (up_catalog (get_or_create_stream st)) = cat_time_partition (up_catalog st)"
    by (simp add: get_or_create_stream_def)
  moreover have "distinct (map file_path entries)"
    unfolding ups(1) by (rule collected_paths_distinct [OF assms(1,3) ups(2,3)])
  ultimately obtain cat where "update_snapshot (up_catalog_env env) stream entries (up_catalog stf) = (cat, Inr ())"
    using update_snapshot_listed [OF assms(1), of stream "up_catalog stf" entries] assms(2) files(3) by auto
  then have "\<exists>st2. update_snapshot_with_manifests env stream entries stf = (st2, Inr ())"
    using assms(7,8) by (simp add: update_snapshot_with_manifests_def)
  then obtain st2 where snap: "update_snapshot_with_manifests env stream entries stf = (st2, Inr ())" ..
  have st2: "up_stream st2 = up_stream stf" using snapshot_frame [of env stream entries stf] snap by simp
  have "up_schema st2 = up_schema st" "st_schema_files (up_stream st2) = st_schema_files (up_stream st)"
    using up_schema_kept(1) [OF files(1)] up_schema_kept(2) [of env stream entries stf] snap st2
    by (simp_all add: up_schema_kept(3))
  then have "snd (process_schema_files env st2) = Inr ()"
    using assms(11) process_schemas_ok [of env "st_schema_files (up_stream st)" st2] by (simp add: process_schema_files_def)
  then obtain st3 where st3: "process_schema_files env st2 = (st3, Inr ())" by (cases "process_schema_files env st2") simp
  then have run: "upload_files_from_staging env stream st = (st3, Inr ())"
    using files(1) snap assms(6) by (simp add: upload_files_from_staging_def)
  moreover have none: "st_parquets (up_stream st3) = []"
    using schema_files_frame [of env st2] st3 st2 files(2) by simp
  moreover have "\<exists>d f. listed (up_catalog_env env) stream (cat_items (up_catalog st3)) (cat_manifests (up_catalog st3)) d
        (absolute_url (up_catalog_env env) (object_key stream (partition_used st) name)) = Some f \<and>
      num_rows f = length rows" if "(name, rows) \<in> set (st_parquets (up_stream st))" for name rows
    using run_account [OF assms(1,2,5,3,4) run that] none by simp
  ultimately show ?thesis by auto
qed

theorem clean_run_lists_all_witness:
  "\<exists>st'. upload_files_from_staging sample_upload ''web'' sample_node = (st', Inr ()) \<and>
     st_parquets (up_stream st') = []"
proof -
  have bounds: "calculate_time_bound sample_catalog_env entry None \<noteq> None"
    if "create_from_parquet_file path n k (footer sample_upload rows) = Some entry" for path n k rows entry
    using that
    by (auto simp: create_from_parquet_file_def sample_upload_def column_statistics_def add_chunk_def Let_def
        calculate_time_bound_def get_file_bounds_def sample_catalog_env_def Catalog.default_timestamp_key_def
        split: option.splits)
  have flags: "staging_exists sample_upload" "meta_read_ok sample_upload" "snapshot_put_ok sample_upload"
    "st_schema_files (up_stream sample_node) = []" "cat_time_partition empty_catalog = None"
    by (simp_all add: sample_upload_def sample_node_def empty_catalog_def)
  have "\<exists>st'. upload_files_from_staging sample_upload ''web'' sample_node = (st', Inr ()) \<and>
      st_parquets (up_stream st') = [] \<and> (\<forall>(name, rows) \<in> set (st_parquets (up_stream sample_node)). \<exists>d f.
       listed (up_catalog_env sample_upload) ''web'' (cat_items (up_catalog st')) (cat_manifests (up_catalog st')) d
         (absolute_url (up_catalog_env sample_upload) (object_key ''web'' (partition_used sample_node) name)) = Some f \<and>
       num_rows f = length rows)"
    using sample_env_ok sample_healthy bounds
    by (intro clean_run_lists_all) (auto simp: sample_parts flags)
  then show ?thesis by blast
qed

section \<open>Staged schemas\<close>

abbreviation field_names :: "field list \<Rightarrow> string set" where
  "field_names s \<equiv> field_name ` set s"

text \<open>A merge of schemas has the fields of each.\<close>

definition merge_keeps_fields :: "'r upload_env \<Rightarrow> bool" where
  "merge_keeps_fields env \<longleftrightarrow>
     (\<forall>ss m. merge_schemas env ss = Some m \<longrightarrow> (\<forall>s \<in> set ss. field_names s \<subseteq> field_names m))"

lemma commit_keeps_fields:
  assumes "merge_keeps_fields env" and "commit_schema_to_storage env s stored = Some new_schema"
  shows "field_names s \<subseteq> field_names new_schema \<and>
    (\<forall>old. stored = Some old \<longrightarrow> field_names old \<subseteq> field_names new_schema)"
proof -
  obtain old where "stored = Some old" "merge_schemas env [s, old] = Some new_schema"
    using assms(2) by (auto simp: commit_schema_to_storage_def split: option.splits if_splits)
  moreover have "\<forall>x \<in> set [s, old]. field_names x \<subseteq> field_names new_schema"
    using assms(1) \<open>merge_schemas env [s, old] = Some new_schema\<close> unfolding merge_keeps_fields_def by blast
  ultimately show ?thesis by simp
qed

lemma schemas_grow:
  assumes "merge_keeps_fields env" and "up_schema st = Some old"
  shows "\<exists>s. up_schema (fst (process_schemas env fs st)) = Some s \<and> field_names old \<subseteq> field_names s"
  using assms(2)
proof (induction fs arbitrary: st old)
  case (Cons f fs)
  show ?case
  proof (cases "schema_open_ok env (fst f) \<and> commit_schema_to_storage env (snd f) (up_schema st) \<noteq> None")
    case True
    then obtain s where s: "commit_schema_to_storage env (snd f) (up_schema st) = Some s" by auto
    then have "field_names old \<subseteq> field_names s"
      using commit_keeps_fields [OF assms(1) s] Cons.prems by simp
    moreover let ?st = "st\<lparr>up_schema := Some s, up_stream := (up_stream st)\<lparr>st_schema_files :=
      (if unlink_ok env (fst f) then filter (\<lambda>h. fst h \<noteq> fst f) (st_schema_files (up_stream st))
       else st_schema_files (up_stream st))\<rparr>\<rparr>"
    have "process_schemas env (f # fs) st = process_schemas env fs ?st" using True s by simp
    moreover have "\<exists>s'. up_schema (fst (process_schemas env fs ?st)) = Some s' \<and> field_names s \<subseteq> field_names s'"
      by (rule Cons.IH) simp
    ultimately show ?thesis by fastforce
  qed (use Cons.prems in \<open>auto split: option.splits\<close>)
qed simp

text \<open>A staged schema is removed only after its fields are in the stored schema: after the schemas
  were processed, with any failure, each is still staged or the stored schema has all of its fields.\<close>

theorem schema_fields_kept:
  assumes "merge_keeps_fields env" and "distinct (map fst fs)"
    and "set fs \<subseteq> set (st_schema_files (up_stream st))" and "f \<in> set fs"
  shows "f \<in> set (st_schema_files (up_stream (fst (process_schemas env fs st)))) \<or>
    (\<exists>s. up_schema (fst (process_schemas env fs st)) = Some s \<and> field_names (snd f) \<subseteq> field_names s)"
  using assms(2-4)
proof (induction fs arbitrary: st)
  case (Cons g fs)
  show ?case
  proof (cases "schema_open_ok env (fst g) \<and> commit_schema_to_storage env (snd g) (up_schema st) \<noteq> None")
    case True
    then obtain s where s: "commit_schema_to_storage env (snd g) (up_schema st) = Some s" by auto
    let ?st = "st\<lparr>up_schema := Some s, up_stream := (up_stream st)\<lparr>st_schema_files :=
      (if unlink_ok env (fst g) then filter (\<lambda>h. fst h \<noteq> fst g) (st_schema_files (up_stream st))
       else st_schema_files (up_stream st))\<rparr>\<rparr>"
    have run: "process_schemas env (g # fs) st = process_schemas env fs ?st" using True s by simp
    show ?thesis
    proof (cases "f = g")
      case True
      then show ?thesis
        using schemas_grow [OF assms(1), of ?st s fs] commit_keeps_fields [OF assms(1) s] unfolding run by auto
    next
      case False
      have "set fs \<subseteq> set (st_schema_files (up_stream ?st))"
        using Cons.prems(1,2) by (auto simp: image_iff)
      then show ?thesis using Cons.IH [of ?st] Cons.prems False unfolding run by auto
    qed
  qed (use Cons.prems in \<open>auto split: option.splits\<close>)
qed simp

theorem schema_fields_kept_witness:
  "\<exists>s. up_schema (fst (process_schemas sample_upload [(''web.schema'', [Field ''a'' Utf8 True])]
       (sample_node\<lparr>up_schema := Some [], up_stream := (up_stream sample_node)\<lparr>st_schema_files :=
          [(''web.schema'', [Field ''a'' Utf8 True])]\<rparr>\<rparr>))) = Some s \<and> ''a'' \<in> field_names s"
proof -
  let ?f = "(''web.schema'', [Field ''a'' Utf8 True])"
  let ?st = "sample_node\<lparr>up_schema := Some [], up_stream := (up_stream sample_node)\<lparr>st_schema_files := [?f]\<rparr>\<rparr>"
  have "merge_keeps_fields sample_upload"
    by (auto simp: merge_keeps_fields_def sample_upload_def)
  from schema_fields_kept [OF this, of "[?f]" ?st ?f]
  have "?f \<in> set (st_schema_files (up_stream (fst (process_schemas sample_upload [?f] ?st)))) \<or>
      (\<exists>s. up_schema (fst (process_schemas sample_upload [?f] ?st)) = Some s \<and> field_names (snd ?f) \<subseteq> field_names s)"
    by simp
  moreover have "st_schema_files (up_stream (fst (process_schemas sample_upload [?f] ?st))) = []"
    by (simp add: commit_schema_to_storage_def sample_upload_def)
  ultimately show ?thesis by auto
qed

end
