(* ===== verification/Object_Store.thy ===== *)
theory Object_Store
  imports Prelude
begin

text \<open>
  The object store (\<open>src/storage/object_storage.rs\<close>, the trait, and \<open>src/storage/localfs.rs\<close>, the store
  on a local drive). The trait is a record of operations and its contract a locale; the local drive is
  a tree of files and directories, whose operations are proved to keep the contract.
\<close>

section \<open>The trait\<close>

text \<open>A path is the list of its components.\<close>

type_synonym path = "string list"

datatype io_error = NotFound | OtherIo

datatype storage_error = IoError io_error | NoSuchKey string | UnhandledError

record ('s, 'b) object_storage =
  os_get :: "path \<Rightarrow> 's \<Rightarrow> storage_error + 'b"
  os_get_objects :: "path \<Rightarrow> (string \<Rightarrow> bool) \<Rightarrow> 's \<Rightarrow> storage_error + 'b list"
  os_put :: "path \<Rightarrow> 'b \<Rightarrow> 's \<Rightarrow> 's \<times> (storage_error + unit)"
  os_delete :: "path \<Rightarrow> 's \<Rightarrow> 's \<times> (storage_error + unit)"
  os_list_dirs_relative :: "path \<Rightarrow> 's \<Rightarrow> storage_error + string list"
  os_list_streams :: "'s \<Rightarrow> storage_error + string list"
  os_absolute_url :: "path \<Rightarrow> 's \<Rightarrow> path"

text \<open>What a store promises: \<open>held\<close> is the object at a path, \<open>plain\<close> the paths that are not taken for
  absolute ones. A failed write may have destroyed the object it was to replace, but no other.\<close>

locale object_store =
  fixes S :: "('s, 'b) object_storage"
    and inv :: "'s \<Rightarrow> bool"
    and held :: "'s \<Rightarrow> path \<Rightarrow> 'b option"
    and plain :: "'s \<Rightarrow> path \<Rightarrow> bool"
  assumes put_inv: "inv s \<Longrightarrow> os_put S p b s = (s', r) \<Longrightarrow> inv s' \<and> plain s' = plain s"
    and put_same: "inv s \<Longrightarrow> os_put S p b s = (s', Inr u) \<Longrightarrow> held s' p = Some b"
    and put_other: "inv s \<Longrightarrow> os_put S p b s = (s', r) \<Longrightarrow> q \<noteq> p \<Longrightarrow> held s' q = held s q"
    and delete_inv: "inv s \<Longrightarrow> os_delete S p s = (s', r) \<Longrightarrow> inv s' \<and> plain s' = plain s"
    and delete_same: "inv s \<Longrightarrow> os_delete S p s = (s', Inr u) \<Longrightarrow> held s' p = None"
    and delete_other: "inv s \<Longrightarrow> os_delete S p s = (s', r) \<Longrightarrow> q \<noteq> p \<Longrightarrow> held s' q = held s q"
    and get_held: "inv s \<Longrightarrow> plain s p \<Longrightarrow> os_get S p s = Inr b \<Longrightarrow> held s p = Some b"
    and objects_held: "inv s \<Longrightarrow> os_get_objects S base f s = Inr bs \<Longrightarrow>
      set bs = {b. \<exists>name. f name \<and> held s (base @ [name]) = Some b}"
begin

lemma listed_after_put:
  assumes "inv s" and "os_put S (base @ [name]) b s = (s', Inr u)" and "f name"
    and "os_get_objects S base f s' = Inr bs"
  shows "b \<in> set bs"
  using assms put_inv [OF assms(1,2)] put_same [OF assms(1,2)] objects_held by blast

text \<open>A listing does not change by objects of another directory or with another kind of name.\<close>

lemma listing_unaffected:
  assumes "inv s" and "os_put S p b s = (s', r)" and "\<forall>name. f name \<longrightarrow> p \<noteq> base @ [name]"
    and "os_get_objects S base f s = Inr bs" and "os_get_objects S base f s' = Inr bs'"
  shows "set bs' = set bs"
proof -
  have "f name \<Longrightarrow> held s' (base @ [name]) = held s (base @ [name])" for name
    using assms(3) by (intro put_other [OF assms(1,2)]) blast
  then show ?thesis
    using objects_held [OF assms(1,4)] objects_held [OF put_inv [OF assms(1,2), THEN conjunct1] assms(5)] by auto
qed

lemma listing_after_delete:
  assumes "inv s" and "os_delete S (base @ [name]) s = (s', Inr u)"
    and "os_get_objects S base f s' = Inr bs"
  shows "set bs = {b. \<exists>other. other \<noteq> name \<and> f other \<and> held s (base @ [other]) = Some b}"
proof -
  have "held s' (base @ [other]) = (if other = name then None else held s (base @ [other]))" for other
    using delete_same [OF assms(1,2)] delete_other [OF assms(1,2), of "base @ [other]"] by simp
  then show ?thesis using objects_held [OF delete_inv [OF assms(1,2), THEN conjunct1] assms(3)] by auto
qed

end

section \<open>A local drive\<close>

datatype 'b node = Dir | File 'b

text \<open>What a write does: it succeeds, changes nothing, or leaves a part of the content.\<close>

datatype 'b write_outcome = Written | Refused | Torn 'b

record 'b local_fs =
  fs_root :: path
  fs_nodes :: "(path \<times> 'b node) list"
  fs_fault :: "path \<Rightarrow> bool"
  fs_write :: "path \<Rightarrow> 'b write_outcome"

definition path_in_root :: "'b local_fs \<Rightarrow> path \<Rightarrow> path" where
  "path_in_root st p = fs_root st @ p"

fun path_text :: "path \<Rightarrow> string" where
  "path_text [] = []"
| "path_text [c] = c"
| "path_text (c # cs) = c @ ''/'' @ path_text cs"

text \<open>A path below a file is an error of another kind than one that does not exist.\<close>

definition access :: "path \<Rightarrow> 'b local_fs \<Rightarrow> io_error + 'b node" where
  "access q st =
     (if fs_fault st q then Inl OtherIo
      else case map_of (fs_nodes st) q of
        Some n \<Rightarrow> Inr n
      | None \<Rightarrow> Inl (if \<exists>n < length q. \<exists>b. map_of (fs_nodes st) (take n q) = Some (File b) then OtherIo
                   else NotFound))"

definition read_dir :: "path \<Rightarrow> 'b local_fs \<Rightarrow> io_error + (path \<times> 'b node) list" where
  "read_dir q st =
     (case access q st of
        Inl e \<Rightarrow> Inl e
      | Inr (File _) \<Rightarrow> Inl OtherIo
      | Inr Dir \<Rightarrow> Inr (filter (\<lambda>(p, _). p \<noteq> [] \<and> butlast p = q) (fs_nodes st)))"

definition read_bytes :: "path \<Rightarrow> 'b local_fs \<Rightarrow> io_error + 'b" where
  "read_bytes q st = bind_result (access q st) (\<lambda>n. case n of Dir \<Rightarrow> Inl OtherIo | File b \<Rightarrow> Inr b)"

fun create_dir_all :: "path \<Rightarrow> path \<Rightarrow> (path \<times> 'b node) list \<Rightarrow> (path \<times> 'b node) list option" where
  "create_dir_all q [] nodes = Some nodes"
| "create_dir_all q (c # cs) nodes =
     (case map_of nodes (q @ [c]) of
        Some (File _) \<Rightarrow> None
      | Some Dir \<Rightarrow> create_dir_all (q @ [c]) cs nodes
      | None \<Rightarrow> create_dir_all (q @ [c]) cs (nodes @ [(q @ [c], Dir)]))"

section \<open>Its operations\<close>

text \<open>A path that contains the text of the root is taken for an absolute one, as the addresses in a
  snapshot are.\<close>

definition taken_for_absolute :: "'b local_fs \<Rightarrow> path \<Rightarrow> bool" where
  "taken_for_absolute st p \<longleftrightarrow> contains_str (path_text (fs_root st)) (path_text p) \<and> fs_root st \<noteq> []"

definition get_object :: "path \<Rightarrow> 'b local_fs \<Rightarrow> storage_error + 'b" where
  "get_object p st =
     (case read_bytes (if taken_for_absolute st p then p else path_in_root st p) st of
        Inr b \<Rightarrow> Inr b
      | Inl NotFound \<Rightarrow> Inl (NoSuchKey (path_text p))
      | Inl OtherIo \<Rightarrow> Inl UnhandledError)"

definition io_result :: "io_error + 'a \<Rightarrow> storage_error + 'a" where
  "io_result r = (case r of Inl e \<Rightarrow> Inl (IoError e) | Inr v \<Rightarrow> Inr v)"

text \<open>The objects whose name passes the filter, in the order of the directory; a directory whose name
  passes it is an error.\<close>

definition get_objects :: "path \<Rightarrow> (string \<Rightarrow> bool) \<Rightarrow> 'b local_fs \<Rightarrow> storage_error + 'b list" where
  "get_objects base_path filter_func st =
     bind_result (io_result (read_dir (path_in_root st base_path) st)) (\<lambda>entries.
       map_result (\<lambda>(p, _). io_result (read_bytes p st)) (filter (\<lambda>(p, _). filter_func (last p)) entries))"

definition put_object :: "path \<Rightarrow> 'b \<Rightarrow> 'b local_fs \<Rightarrow> 'b local_fs \<times> (storage_error + unit)" where
  "put_object p resource st =
     (let q = path_in_root st p in
      case create_dir_all [] (butlast q) (fs_nodes st) of
        None \<Rightarrow> (st, Inl (IoError OtherIo))
      | Some nodes \<Rightarrow>
          (if q = [] \<or> map_of nodes q = Some Dir then (st\<lparr>fs_nodes := nodes\<rparr>, Inl (IoError OtherIo))
           else case fs_write st q of
             Written \<Rightarrow> (st\<lparr>fs_nodes := AList.update q (File resource) nodes\<rparr>, Inr ())
           | Refused \<Rightarrow> (st\<lparr>fs_nodes := nodes\<rparr>, Inl (IoError OtherIo))
           | Torn part \<Rightarrow> (st\<lparr>fs_nodes := AList.update q (File part) nodes\<rparr>, Inl (IoError OtherIo))))"

definition delete_object :: "path \<Rightarrow> 'b local_fs \<Rightarrow> 'b local_fs \<times> (storage_error + unit)" where
  "delete_object p st =
     (let q = path_in_root st p in
      case access q st of
        Inl e \<Rightarrow> (st, Inl (IoError e))
      | Inr Dir \<Rightarrow> (st, Inl (IoError OtherIo))
      | Inr (File _) \<Rightarrow> (st\<lparr>fs_nodes := AList.delete q (fs_nodes st)\<rparr>, Inr ()))"

definition delete_prefix :: "path \<Rightarrow> 'b local_fs \<Rightarrow> 'b local_fs \<times> (storage_error + unit)" where
  "delete_prefix p st =
     (let q = path_in_root st p in
      case access q st of
        Inl e \<Rightarrow> (st, Inl (IoError e))
      | Inr (File _) \<Rightarrow> (st, Inl (IoError OtherIo))
      | Inr Dir \<Rightarrow> (st\<lparr>fs_nodes := filter (\<lambda>(r, _). \<not> prefix q r) (fs_nodes st)\<rparr>, Inr ()))"

definition delete_stream :: "string \<Rightarrow> 'b local_fs \<Rightarrow> 'b local_fs \<times> (storage_error + unit)" where
  "delete_stream stream st = delete_prefix [stream] st"

definition head_object :: "path \<Rightarrow> 'b local_fs \<Rightarrow> storage_error + 'b node" where
  "head_object p st = io_result (access (path_in_root st p) st)"

definition upload_multipart :: "path \<Rightarrow> path \<Rightarrow> 'b local_fs \<Rightarrow> 'b local_fs \<times> (storage_error + unit)" where
  "upload_multipart key local st =
     (case read_bytes local st of Inl e \<Rightarrow> (st, Inl (IoError e)) | Inr data \<Rightarrow> put_object key data st)"

section \<open>Listings\<close>

definition dir_name :: "path \<times> 'b node \<Rightarrow> string option" where
  "dir_name e = (case snd e of Dir \<Rightarrow> Some (last (fst e)) | File _ \<Rightarrow> None)"

definition dirs_of :: "(path \<times> 'b node) list \<Rightarrow> string list" where
  "dirs_of entries = List.map_filter dir_name entries"

text \<open>A directory that does not exist has no entries in these, and is an error in the two below.\<close>

definition list_dirs_relative :: "path \<Rightarrow> 'b local_fs \<Rightarrow> storage_error + string list" where
  "list_dirs_relative p st =
     (case read_dir (path_in_root st p) st of
        Inl NotFound \<Rightarrow> Inr []
      | Inl e \<Rightarrow> Inl (IoError e)
      | Inr entries \<Rightarrow> Inr (dirs_of entries))"

definition list_dirs :: "'b local_fs \<Rightarrow> storage_error + string list" where
  "list_dirs st = list_dirs_relative [] st"

definition list_dates :: "string \<Rightarrow> 'b local_fs \<Rightarrow> storage_error + string list" where
  "list_dates stream st = list_dirs_relative [stream] st"

definition list_hours :: "string \<Rightarrow> string \<Rightarrow> 'b local_fs \<Rightarrow> storage_error + string list" where
  "list_hours stream date st =
     bind_result (io_result (read_dir (path_in_root st [stream, date]) st))
       (\<lambda>entries. Inr (filter (prefix ''hour='') (dirs_of entries)))"

definition list_minutes :: "string \<Rightarrow> string \<Rightarrow> string \<Rightarrow> 'b local_fs \<Rightarrow> storage_error + string list" where
  "list_minutes stream date hour st =
     bind_result (io_result (read_dir (path_in_root st [stream, date, hour]) st))
       (\<lambda>entries. Inr (filter (prefix ''minute='') (dirs_of entries)))"

text \<open>A directory that is not a stream makes the listing of the streams fail.\<close>

definition dir_with_stream ::
  "path \<Rightarrow> string list \<Rightarrow> 'b local_fs \<Rightarrow> path \<times> 'b node \<Rightarrow> storage_error + string option" where
  "dir_with_stream metadata_path ignore_dirs st e =
     (let name = last (fst e) in
      if name \<in> set ignore_dirs then Inr None
      else case snd e of
        File _ \<Rightarrow> Inr None
      | Dir \<Rightarrow> (case access (fst e @ metadata_path) st of Inr _ \<Rightarrow> Inr (Some name) | Inl _ \<Rightarrow> Inl UnhandledError))"

definition streams_in :: "path \<Rightarrow> string list \<Rightarrow> 'b local_fs \<Rightarrow> storage_error + string list" where
  "streams_in metadata_path ignore_dirs st =
     bind_result (io_result (read_dir (fs_root st) st)) (\<lambda>entries.
       bind_result (map_result (dir_with_stream metadata_path ignore_dirs st) entries)
         (\<lambda>names. Inr (List.map_filter id names)))"

definition list_streams :: "'b local_fs \<Rightarrow> storage_error + string list" where
  "list_streams st =
     streams_in [''.stream'', ''.stream.json'']
       [''lost+found'', ''.parseable'', ''.users'', ''.alerts'', ''.settings''] st"

definition list_old_streams :: "'b local_fs \<Rightarrow> storage_error + string list" where
  "list_old_streams st =
     streams_in [''.stream.json''] [''lost+found'', ''.parseable'', ''.alerts'', ''.settings''] st"

definition absolute_url :: "path \<Rightarrow> 'b local_fs \<Rightarrow> path" where
  "absolute_url p st = fs_root st @ p"

definition local_storage :: "('b local_fs, 'b) object_storage" where
  "local_storage =
     \<lparr>os_get = get_object, os_get_objects = get_objects, os_put = put_object, os_delete = delete_object,
      os_list_dirs_relative = list_dirs_relative, os_list_streams = list_streams,
      os_absolute_url = absolute_url\<rparr>"

section \<open>The drive is a tree\<close>

definition tree_ok :: "(path \<times> 'b node) list \<Rightarrow> bool" where
  "tree_ok nodes \<longleftrightarrow>
     distinct (map fst nodes) \<and> map_of nodes [] = Some Dir \<and>
     (\<forall>q n. q \<noteq> [] \<longrightarrow> map_of nodes q = Some n \<longrightarrow> map_of nodes (butlast q) = Some Dir)"

definition fs_ok :: "'b local_fs \<Rightarrow> bool" where
  "fs_ok st \<longleftrightarrow> tree_ok (fs_nodes st)"

definition held_at :: "'b local_fs \<Rightarrow> path \<Rightarrow> 'b option" where
  "held_at st p = (case map_of (fs_nodes st) (path_in_root st p) of Some (File b) \<Rightarrow> Some b | _ \<Rightarrow> None)"

lemma held_at_iff: "held_at st p = Some b \<longleftrightarrow> map_of (fs_nodes st) (path_in_root st p) = Some (File b)"
  by (auto simp: held_at_def split: option.split node.split)

lemma path_in_root_inject [simp]: "path_in_root st p = path_in_root st q \<longleftrightarrow> p = q"
  by (simp add: path_in_root_def)

lemma path_in_root_update [simp]: "path_in_root (st\<lparr>fs_nodes := nodes\<rparr>) p = path_in_root st p"
  by (simp add: path_in_root_def)

text \<open>Making directories adds directories only.\<close>

lemma create_dir_all_ok:
  assumes "create_dir_all q cs nodes = Some nodes'" and "tree_ok nodes" and "map_of nodes q = Some Dir"
  shows "tree_ok nodes' \<and> map_of nodes' (q @ cs) = Some Dir \<and>
    (\<forall>p b. map_of nodes' p = Some (File b) \<longleftrightarrow> map_of nodes p = Some (File b))"
  using assms
proof (induction cs arbitrary: q nodes)
  case (Cons c cs)
  show ?case
  proof (cases "map_of nodes (q @ [c])")
    case None
    let ?nodes = "nodes @ [(q @ [c], Dir)]"
    have fresh: "q @ [c] \<notin> fst ` set nodes" using None by (simp add: map_of_eq_None_iff)
    have look: "map_of ?nodes p = (case map_of nodes p of Some n \<Rightarrow> Some n | None \<Rightarrow> if p = q @ [c] then Some Dir else None)"
      for p by (auto simp: map_add_def split: option.split)
    have "tree_ok ?nodes"
      using Cons.prems(2,3) fresh None unfolding tree_ok_def look by (auto split: option.splits)
    moreover have "map_of ?nodes (q @ [c]) = Some Dir" unfolding look using None by simp
    moreover have "create_dir_all (q @ [c]) cs ?nodes = Some nodes'" using Cons.prems(1) None by simp
    moreover have "map_of ?nodes p = Some (File b) \<longleftrightarrow> map_of nodes p = Some (File b)" for p b
      unfolding look by (simp split: option.split)
    ultimately show ?thesis using Cons.IH [of "q @ [c]" ?nodes] by simp
  next
    case (Some n)
    then have "n = Dir" using Cons.prems(1) by (cases n) simp_all
    then show ?thesis using Cons.IH [of "q @ [c]" nodes] Cons.prems(1,2) Some by simp
  qed
qed simp

lemma parents_dirs:
  assumes "tree_ok nodes" and "map_of nodes q = Some x" and "n < length q"
  shows "map_of nodes (take n q) = Some Dir"
  using assms(3)
proof (induction "length q - n" arbitrary: n)
  case (Suc k)
  have "map_of nodes (take (Suc n) q) \<noteq> None"
  proof (cases "Suc n = length q")
    case False
    then show ?thesis using Suc.hyps(1) [of "Suc n"] Suc.hyps(2) Suc.prems by simp
  qed (simp add: assms(2) del: map_of_eq_Some_iff)
  then obtain y where y: "map_of nodes (take (Suc n) q) = Some y" by blast
  have step: "take (Suc n) q \<noteq> []" "butlast (take (Suc n) q) = take n q"
    using Suc.prems by (auto simp: butlast_take)
  have "map_of nodes (butlast (take (Suc n) q)) = Some Dir"
    using assms(1) step(1) y unfolding tree_ok_def by blast
  then show ?case unfolding step(2) .
qed simp

text \<open>What a write makes besides its object are the directories above it.\<close>

lemma create_dir_all_new:
  "create_dir_all q cs nodes = Some nodes' \<Longrightarrow> map_of nodes' p \<noteq> None \<Longrightarrow>
   map_of nodes p \<noteq> None \<or> prefix p (q @ cs)"
proof (induction cs arbitrary: q nodes)
  case (Cons c cs)
  show ?case
  proof (cases "map_of nodes (q @ [c])")
    case None
    then have "map_of (nodes @ [(q @ [c], Dir)]) p \<noteq> None \<or> prefix p ((q @ [c]) @ cs)"
      using Cons.prems by (intro Cons.IH) simp_all
    then show ?thesis by (auto simp: map_add_def split: option.splits if_splits)
  next
    case (Some n)
    then show ?thesis using Cons.IH [of "q @ [c]" nodes] Cons.prems by (cases n) simp_all
  qed
qed simp

lemma tree_ok_write:
  assumes "tree_ok nodes" and "map_of nodes q \<noteq> Some Dir" and "q \<noteq> []" and "map_of nodes (butlast q) = Some Dir"
  shows "tree_ok (AList.update q (File b) nodes)"
proof -
  have "p \<noteq> [] \<Longrightarrow> map_of nodes p = Some n \<Longrightarrow> butlast p \<noteq> q" for p n
    using assms(1,2) by (auto simp: tree_ok_def)
  then show ?thesis
    using assms unfolding tree_ok_def
    by (auto simp: update_conv' distinct_update simp del: map_of_eq_Some_iff Some_eq_map_of_iff split: if_splits)
qed

lemma tree_ok_remove:
  assumes "tree_ok nodes" and "map_of nodes q = Some (File b)"
  shows "tree_ok (AList.delete q nodes)"
proof -
  have root: "q \<noteq> []" using assms by (auto simp: tree_ok_def)
  have "map_of (AList.delete q nodes) (butlast p) = Some Dir"
    if "p \<noteq> []" "map_of (AList.delete q nodes) p = Some n" for p n
  proof -
    have "map_of nodes p = Some n" using that(2) by (auto simp: delete_conv' split: if_splits)
    then have "map_of nodes (butlast p) = Some Dir" using that(1) assms(1) unfolding tree_ok_def by blast
    then show ?thesis using assms(2) by (auto simp: delete_conv')
  qed
  then show ?thesis
    using assms(1) root unfolding tree_ok_def by (simp add: distinct_delete delete_conv')
qed

lemma same_files:
  "\<forall>b. x = Some (File b) \<longleftrightarrow> y = Some (File b) \<Longrightarrow>
   (case x of Some (File b) \<Rightarrow> Some b | _ \<Rightarrow> None) = (case y of Some (File b) \<Rightarrow> Some b | _ \<Rightarrow> None)"
  by (auto split: option.split node.split)

lemma put_object_cases:
  assumes "fs_ok st" and "put_object p b st = (st', r)"
  shows "fs_ok st' \<and> fs_root st' = fs_root st \<and> (r = Inr () \<longrightarrow> held_at st' p = Some b) \<and>
    (\<forall>q. q \<noteq> p \<longrightarrow> held_at st' q = held_at st q)"
proof -
  let ?q = "path_in_root st p"
  have root: "map_of (fs_nodes st) [] = Some Dir" using assms(1) by (simp add: fs_ok_def tree_ok_def)
  have held: "held_at (st\<lparr>fs_nodes := ns\<rparr>) q = held_at st q"
    if "\<forall>b. map_of ns (path_in_root st q) = Some (File b) \<longleftrightarrow> map_of (fs_nodes st) (path_in_root st q) = Some (File b)"
    for ns q
    using that by (simp add: held_at_def) (rule same_files)
  show ?thesis
  proof (cases "create_dir_all [] (butlast ?q) (fs_nodes st)")
    case None
    then show ?thesis using assms by (auto simp: put_object_def Let_def)
  next
    case (Some nodes)
    have dirs: "tree_ok nodes" "map_of nodes (butlast ?q) = Some Dir"
      "\<forall>p b. map_of nodes p = Some (File b) \<longleftrightarrow> map_of (fs_nodes st) p = Some (File b)"
      using create_dir_all_ok [OF Some] assms(1) root by (auto simp: fs_ok_def)
    have written: "tree_ok (AList.update ?q (File c) nodes)" if "?q \<noteq> []" "map_of nodes ?q \<noteq> Some Dir" for c
      by (rule tree_ok_write [OF dirs(1) that(2) that(1) dirs(2)])
    have st': "st' = st\<lparr>fs_nodes := nodes\<rparr> \<and> r \<noteq> Inr () \<or>
        ?q \<noteq> [] \<and> map_of nodes ?q \<noteq> Some Dir \<and>
        (\<exists>c. st' = st\<lparr>fs_nodes := AList.update ?q (File c) nodes\<rparr> \<and> (r = Inr () \<longrightarrow> c = b))"
    proof (cases "?q = [] \<or> map_of nodes ?q = Some Dir")
      case True
      then show ?thesis using assms(2) Some by (auto simp: put_object_def Let_def)
    next
      case False
      note run = assms(2) [unfolded put_object_def Let_def Some option.case if_not_P [OF False]]
      show ?thesis
      proof (cases "fs_write st ?q")
        case Written
        then have "st' = st\<lparr>fs_nodes := AList.update ?q (File b) nodes\<rparr>" using run by simp
        then show ?thesis using False by blast
      next
        case Refused
        then show ?thesis using run by auto
      next
        case (Torn part)
        then have "st' = st\<lparr>fs_nodes := AList.update ?q (File part) nodes\<rparr>" "r \<noteq> Inr ()" using run by auto
        then show ?thesis using False by blast
      qed
    qed
    then show ?thesis
    proof (elim disjE exE conjE)
      assume "st' = st\<lparr>fs_nodes := nodes\<rparr>" "r \<noteq> Inr ()"
      then show ?thesis using dirs held by (simp add: fs_ok_def)
    next
      fix c assume c: "?q \<noteq> []" "map_of nodes ?q \<noteq> Some Dir"
        "st' = st\<lparr>fs_nodes := AList.update ?q (File c) nodes\<rparr>" "r = Inr () \<longrightarrow> c = b"
      have "held_at st' q = held_at st q" if "q \<noteq> p" for q
        unfolding c(3) using that dirs(3) by (intro held) (simp add: update_conv')
      then show ?thesis using c written [OF c(1,2)] by (auto simp: fs_ok_def held_at_iff update_conv')
    qed
  qed
qed

lemma delete_object_cases:
  assumes "fs_ok st" and "delete_object p st = (st', r)"
  shows "fs_ok st' \<and> fs_root st' = fs_root st \<and> (r = Inr () \<longrightarrow> held_at st' p = None) \<and>
    (\<forall>q. q \<noteq> p \<longrightarrow> held_at st' q = held_at st q)"
proof (cases "\<exists>b. r = Inr () \<and> map_of (fs_nodes st) (path_in_root st p) = Some (File b)")
  case True
  then obtain b where b: "map_of (fs_nodes st) (path_in_root st p) = Some (File b)" by blast
  have "st' = st\<lparr>fs_nodes := AList.delete (path_in_root st p) (fs_nodes st)\<rparr>"
    using assms(2) b True by (auto simp: delete_object_def Let_def access_def split: if_splits)
  then show ?thesis
    using tree_ok_remove [OF _ b] assms(1) by (simp add: fs_ok_def held_at_def delete_conv')
next
  case False
  then have "st' = st \<and> r \<noteq> Inr ()"
    using assms(2)
    by (auto simp: delete_object_def Let_def access_def split: if_splits option.splits node.splits)
  then show ?thesis using assms(1) by simp
qed

section \<open>It keeps the contract\<close>

lemma read_bytes_Inr: "read_bytes q st = Inr b \<longleftrightarrow> \<not> fs_fault st q \<and> map_of (fs_nodes st) q = Some (File b)"
  by (auto simp: read_bytes_def access_def split: option.splits node.splits)

lemma list_all2_right: "list_all2 P xs ys \<Longrightarrow> y \<in> set ys \<Longrightarrow> \<exists>x \<in> set xs. P x y"
  by (induction rule: list_all2_induct) auto

lemma list_all2_left: "list_all2 P xs ys \<Longrightarrow> x \<in> set xs \<Longrightarrow> \<exists>y \<in> set ys. P x y"
  by (induction rule: list_all2_induct) auto

lemma get_objects_held:
  assumes "fs_ok st" and "get_objects base f st = Inr bs"
  shows "set bs = {b. \<exists>name. f name \<and> held_at st (base @ [name]) = Some b}"
proof -
  let ?q = "path_in_root st base"
  let ?entries = "filter (\<lambda>(p, _). f (last p)) (filter (\<lambda>(p, _). p \<noteq> [] \<and> butlast p = ?q) (fs_nodes st))"
  have "list_all2 (\<lambda>e b. io_result (read_bytes (fst e) st) = Inr b) ?entries bs"
    using assms(2)
    by (auto simp: get_objects_def read_dir_def io_result_def map_result_Inr_iff split_def
        split: sum.splits node.splits)
  then have all: "list_all2 (\<lambda>e b. map_of (fs_nodes st) (fst e) = Some (File b)) ?entries bs"
    by (rule list_all2_mono) (auto simp: io_result_def read_bytes_Inr split: sum.splits)
  have child: "path_in_root st (base @ [name]) = ?q @ [name]" for name by (simp add: path_in_root_def)
  show ?thesis
  proof (intro set_eqI iffI)
    fix b assume "b \<in> set bs"
    from list_all2_right [OF all this]
    obtain e where e: "e \<in> set ?entries" "map_of (fs_nodes st) (fst e) = Some (File b)" by blast
    then have "fst e \<noteq> []" "butlast (fst e) = ?q" "f (last (fst e))" by (auto simp: split_def)
    then obtain name where "fst e = ?q @ [name]" "f name" by (metis append_butlast_last_id)
    then show "b \<in> {b. \<exists>name. f name \<and> held_at st (base @ [name]) = Some b}"
      using e(2) unfolding held_at_iff child by auto
  next
    fix b assume "b \<in> {b. \<exists>name. f name \<and> held_at st (base @ [name]) = Some b}"
    then obtain name where name: "f name" "map_of (fs_nodes st) (?q @ [name]) = Some (File b)"
      by (auto simp: held_at_iff child)
    then have "(?q @ [name], File b) \<in> set ?entries" by (auto dest: map_of_SomeD)
    from list_all2_left [OF all this]
    obtain b' where "b' \<in> set bs" "map_of (fs_nodes st) (?q @ [name]) = Some (File b')" by auto
    then show "b \<in> set bs" using name(2) by simp
  qed
qed

interpretation drive: object_store local_storage fs_ok held_at "\<lambda>st p. \<not> taken_for_absolute st p"
proof unfold_locales
  fix s :: "'b local_fs" and p q :: path and b :: 'b and s' r u
  assume ok: "fs_ok s"
  { assume run: "os_put local_storage p b s = (s', r)"
    note facts = put_object_cases [OF ok run [unfolded local_storage_def, simplified]]
    show "fs_ok s' \<and> (\<lambda>p. \<not> taken_for_absolute s' p) = (\<lambda>p. \<not> taken_for_absolute s p)"
      using facts by (simp add: taken_for_absolute_def)
    assume "q \<noteq> p"
    then show "held_at s' q = held_at s q" using facts by blast }
  { assume "os_put local_storage p b s = (s', Inr u)"
    then show "held_at s' p = Some b" using put_object_cases [OF ok, of p b s' "Inr ()"] by (simp add: local_storage_def) }
  { assume run: "os_delete local_storage p s = (s', r)"
    note facts = delete_object_cases [OF ok run [unfolded local_storage_def, simplified]]
    show "fs_ok s' \<and> (\<lambda>p. \<not> taken_for_absolute s' p) = (\<lambda>p. \<not> taken_for_absolute s p)"
      using facts by (simp add: taken_for_absolute_def)
    assume "q \<noteq> p"
    then show "held_at s' q = held_at s q" using facts by blast }
  { assume "os_delete local_storage p s = (s', Inr u)"
    then show "held_at s' p = None" using delete_object_cases [OF ok, of p s' "Inr ()"] by (simp add: local_storage_def) }
  { assume "\<not> taken_for_absolute s p" "os_get local_storage p s = Inr b"
    then show "held_at s p = Some b"
      by (auto simp: local_storage_def get_object_def held_at_iff read_bytes_Inr split: sum.splits io_error.splits) }
next
  fix s :: "'b local_fs" and base :: path and f bs
  assume "fs_ok s" "os_get_objects local_storage base f s = Inr bs"
  then show "set bs = {b. \<exists>name. f name \<and> held_at s (base @ [name]) = Some b}"
    by (simp add: local_storage_def get_objects_held)
qed

section \<open>Properties\<close>

lemma put_object_frame:
  "fs_root (fst (put_object p b st)) = fs_root st \<and> fs_fault (fst (put_object p b st)) = fs_fault st \<and>
   fs_write (fst (put_object p b st)) = fs_write st"
  by (simp add: put_object_def Let_def split: option.split write_outcome.split)

lemma put_object_new:
  assumes "map_of (fs_nodes (fst (put_object p b st))) q \<noteq> None"
  shows "map_of (fs_nodes st) q \<noteq> None \<or> prefix q (path_in_root st p)"
proof (cases "create_dir_all [] (butlast (path_in_root st p)) (fs_nodes st)")
  case None
  then show ?thesis using assms by (simp add: put_object_def)
next
  case (Some nodes)
  have "map_of nodes q \<noteq> None \<or> q = path_in_root st p"
    using assms Some
    by (auto simp: put_object_def Let_def update_conv' split: if_splits write_outcome.splits)
  then show ?thesis
  proof
    assume "map_of nodes q \<noteq> None"
    from create_dir_all_new [OF Some this]
    have "map_of (fs_nodes st) q \<noteq> None \<or> prefix q (butlast (path_in_root st p))" by simp
    then show ?thesis using prefix_order.trans prefixeq_butlast by blast
  qed simp
qed

lemma path_text_append: "\<exists>s. path_text (a @ b) = path_text a @ s"
proof (induction a rule: path_text.induct)
  case (2 c)
  then show ?case by (cases b) auto
qed auto

lemma get_object_Inr:
  "get_object p st = Inr b \<longleftrightarrow> read_bytes (if taken_for_absolute st p then p else path_in_root st p) st = Inr b"
  unfolding get_object_def by (simp split: sum.split io_error.split)

lemma get_object_plain:
  "\<not> taken_for_absolute st p \<Longrightarrow>
   get_object p st = Inr b \<longleftrightarrow> \<not> fs_fault st (path_in_root st p) \<and> held_at st p = Some b"
  by (simp add: get_object_Inr read_bytes_Inr held_at_iff)

text \<open>C16: On the local drive, whose files and directories form a tree, when storing an object at a
  path that does not contain the text of the root (so that it is not taken for an absolute one)
  succeeds and no access to its file fails, it is read back as it was stored. Every other object
  whose path does not contain that text either is readable after the write exactly when it was
  before, with the same content. A path that contains the text is misread
  (\<open>root_text_misread\<close>).\<close>

theorem drive_put_get:
  assumes "fs_ok st" and "put_object p b st = (st', Inr ())" and "\<not> taken_for_absolute st p"
    and "\<not> fs_fault st (path_in_root st p)"
  shows "get_object p st' = Inr b \<and>
    (\<forall>q c. q \<noteq> p \<and> \<not> taken_for_absolute st q \<longrightarrow> get_object q st' = Inr c \<longleftrightarrow> get_object q st = Inr c)"
proof -
  note facts = put_object_cases [OF assms(1,2)] put_object_frame [of p b st]
  have "taken_for_absolute st' q = taken_for_absolute st q" "path_in_root st' q = path_in_root st q"
    "fs_fault st' = fs_fault st" for q
    using facts assms(2) by (simp_all add: taken_for_absolute_def path_in_root_def)
  then show ?thesis using facts assms(3,4) by (simp add: get_object_plain)
qed

definition empty_drive :: "nat local_fs" where
  "empty_drive = \<lparr>fs_root = [''srv'', ''data''], fs_nodes = [([], Dir)], fs_fault = (\<lambda>_. False), fs_write = (\<lambda>_. Written)\<rparr>"

lemma empty_drive_ok: "fs_ok empty_drive"
  by (simp add: fs_ok_def tree_ok_def empty_drive_def)

definition filled_drive :: "nat local_fs" where
  "filled_drive = empty_drive\<lparr>fs_nodes := [([], Dir), ([''srv''], Dir), ([''srv'', ''data''], Dir),
     ([''srv'', ''data'', ''web''], Dir), ([''srv'', ''data'', ''web'', ''x''], File 5)]\<rparr>"

lemma empty_drive_put: "put_object [''web'', ''x''] 5 empty_drive = (filled_drive, Inr ())"
  by (simp add: put_object_def path_in_root_def empty_drive_def filled_drive_def)

lemma filled_drive_parts:
  "held_at filled_drive [''web'', ''x''] = Some 5" "fs_root filled_drive = [''srv'', ''data'']"
  "fs_fault filled_drive = (\<lambda>_. False)" "fs_ok filled_drive"
  using put_object_cases [OF empty_drive_ok empty_drive_put]
  by (simp_all add: filled_drive_def empty_drive_def)

theorem drive_put_get_witness: "get_object [''web'', ''x''] (fst (put_object [''web'', ''x''] 5 empty_drive)) = Inr 5"
  unfolding empty_drive_put fst_conv
  by (rule drive_put_get [OF empty_drive_ok empty_drive_put, THEN conjunct1])
    (simp_all add: taken_for_absolute_def empty_drive_def)

lemma drive_address_held:
  assumes "fs_root st \<noteq> []" and "\<not> fs_fault st (path_in_root st p)"
  shows "get_object (absolute_url p st) st = Inr b \<longleftrightarrow> held_at st p = Some b"
proof -
  obtain s where "path_text (fs_root st @ p) = path_text (fs_root st) @ s" using path_text_append by blast
  then have "contains_str (path_text (fs_root st)) (path_text (fs_root st @ p))"
    unfolding contains_str_iff by (intro exI [of _ "[]"] exI [of _ s]) simp
  then have "taken_for_absolute st (absolute_url p st)"
    using assms(1) by (simp add: taken_for_absolute_def absolute_url_def)
  then show ?thesis
    using assms(2)
    by (auto simp: get_object_Inr read_bytes_Inr held_at_iff absolute_url_def path_in_root_def)
qed

text \<open>The address of an object in a snapshot leads back to the object: reading the address gives the
  object at the path it was made of.\<close>

theorem drive_address:
  assumes "fs_root st \<noteq> []" and "\<not> fs_fault st (path_in_root st p)"
  shows "get_object (absolute_url p st) st = Inr b \<longleftrightarrow> held_at st p = Some b"
  using assms by (rule drive_address_held)

theorem drive_address_witness: "get_object (absolute_url [''web'', ''x''] filled_drive) filled_drive = Inr 5"
  using drive_address [of filled_drive "[''web'', ''x'']" 5] by (simp add: filled_drive_parts)

text \<open>A path that merely contains the text of the root is taken for an absolute one: an object
  stored there is held by the drive but cannot be read.\<close>

theorem root_text_misread:
  assumes "fs_ok st" and "put_object p b st = (st', Inr ())" and "taken_for_absolute st p"
    and "map_of (fs_nodes st') p = None"
  shows "held_at st' p = Some b \<and> (\<exists>e. get_object p st' = Inl e)"
proof -
  note facts = put_object_cases [OF assms(1,2)]
  have "taken_for_absolute st' p" using facts assms(3) by (simp add: taken_for_absolute_def)
  then have "get_object p st' \<noteq> Inr c" for c
    using assms(4) by (auto simp: get_object_def read_bytes_Inr split: sum.splits io_error.splits)
  then show ?thesis using facts by (cases "get_object p st'") auto
qed

theorem root_text_misread_witness:
  "\<exists>st' e. put_object [''mydata'', ''x''] 5 (empty_drive\<lparr>fs_root := [''data'']\<rparr>) = (st', Inr ()) \<and>
     get_object [''mydata'', ''x''] st' = Inl e"
proof -
  let ?st = "empty_drive\<lparr>fs_root := [''data'']\<rparr>"
  obtain st' where put: "put_object [''mydata'', ''x''] 5 ?st = (st', Inr ())"
    "fs_nodes st' = [([], Dir), ([''data''], Dir), ([''data'', ''mydata''], Dir), ([''data'', ''mydata'', ''x''], File 5)]"
    by (simp add: put_object_def path_in_root_def empty_drive_def)
  have "fs_ok ?st" using empty_drive_ok by (simp add: fs_ok_def)
  moreover have "taken_for_absolute ?st [''mydata'', ''x'']" by (simp add: taken_for_absolute_def)
  moreover have "map_of (fs_nodes st') [''mydata'', ''x''] = None" unfolding put(2) by simp
  ultimately show ?thesis using root_text_misread [OF _ put(1)] put(1) by blast
qed

text \<open>A write on the drive is not atomic: when it fails half way, the object it was to replace is
  gone and a part of the new one is in its place.\<close>

theorem failed_write_destroys:
  assumes "fs_ok st" and "held_at st p = Some old" and "fs_write st (path_in_root st p) = Torn part"
  shows "\<exists>st' e. put_object p b st = (st', Inl e) \<and> held_at st' p = Some part"
proof -
  let ?q = "path_in_root st p"
  have stored: "map_of (fs_nodes st) ?q = Some (File old)" using assms(2) by (simp add: held_at_iff)
  have made: "create_dir_all q cs nodes = Some nodes"
    if "\<forall>n \<le> length cs. map_of nodes (q @ take n cs) = Some Dir" for q cs and nodes :: "(path \<times> 'a node) list"
    using that
  proof (induction cs arbitrary: q)
    case (Cons c cs)
    have "map_of nodes (q @ [c]) = Some Dir" using Cons.prems [rule_format, of 1] by simp
    moreover have "\<forall>n \<le> length cs. map_of nodes ((q @ [c]) @ take n cs) = Some Dir"
      using Cons.prems by (auto dest: spec [of _ "Suc _"])
    ultimately show ?case using Cons.IH [of "q @ [c]"] by simp
  qed simp
  have dirs: "map_of (fs_nodes st) (take n ?q) = Some Dir" if "n < length ?q" for n
    using parents_dirs [OF _ stored that] assms(1) by (simp add: fs_ok_def)
  have "?q \<noteq> []" using stored assms(1) by (auto simp: fs_ok_def tree_ok_def)
  then have "create_dir_all [] (butlast ?q) (fs_nodes st) = Some (fs_nodes st)"
  proof (intro made allI impI)
    fix n assume "n \<le> length (butlast ?q)"
    moreover have "length ?q \<noteq> 0" using \<open>?q \<noteq> []\<close> by simp
    ultimately have "n < length ?q" unfolding length_butlast by arith
    then show "map_of (fs_nodes st) ([] @ take n (butlast ?q)) = Some Dir"
      using dirs by (simp add: take_butlast)
  qed
  then show ?thesis
    using stored assms(3) \<open>?q \<noteq> []\<close> by (simp add: put_object_def Let_def held_at_iff update_conv')
qed

theorem failed_write_destroys_witness:
  "\<exists>st' e. put_object [''web'', ''x''] 6 (filled_drive\<lparr>fs_write := (\<lambda>_. Torn 0)\<rparr>) = (st', Inl e) \<and>
    held_at st' [''web'', ''x''] = Some 0"
proof -
  let ?st = "filled_drive\<lparr>fs_write := (\<lambda>_. Torn 0)\<rparr>"
  have "fs_ok ?st" using filled_drive_parts(4) by (simp add: fs_ok_def)
  moreover have "held_at ?st [''web'', ''x''] = Some 5"
    using filled_drive_parts(1) by (simp add: held_at_def path_in_root_def)
  ultimately show ?thesis by (intro failed_write_destroys) simp_all
qed

end
