(* ===== verification/Metastore.thy ===== *)
theory Metastore
  imports Object_Store
begin

text \<open>
  The metadata of the server (\<open>src/metastore/metastores/object_store_metastore.rs\<close>, the paths of
  \<open>src/storage/object_storage.rs\<close>): every document is an object at a path of its own, and what is loaded
  at a start are listings of directories by the names of files. The store is the record of operations
  that \<open>Object_Store\<close> gives for the local drive.
\<close>

section \<open>Paths\<close>

text \<open>The identifier of an ingestor, the name of the host and which characters count as alphanumeric.\<close>

record node_env =
  ingest_node :: "string option"
  hostname :: string
  alphanumeric :: "char \<Rightarrow> bool"

definition schema_path :: "node_env \<Rightarrow> string \<Rightarrow> path" where
  "schema_path env stream =
     (case ingest_node env of
        Some node \<Rightarrow> [stream, ''.stream'', ''.ingestor.'' @ node @ ''.schema'']
      | None \<Rightarrow> [stream, ''.stream'', ''.schema''])"

definition stream_json_path :: "node_env \<Rightarrow> string \<Rightarrow> path" where
  "stream_json_path env stream =
     (case ingest_node env of
        Some node \<Rightarrow> [stream, ''.stream'', ''.ingestor.'' @ node @ ''.stream.json'']
      | None \<Rightarrow> [stream, ''.stream'', ''.stream.json''])"

definition parseable_json_path :: path where
  "parseable_json_path = [''.parseable'', ''.parseable.json'']"

definition alert_json_path :: "string \<Rightarrow> path" where
  "alert_json_path alert = [''.alerts'', alert @ ''.json'']"

definition target_json_path :: "string \<Rightarrow> path" where
  "target_json_path target = [''.settings'', ''.targets'', target @ ''.json'']"

definition alert_state_json_path :: "string \<Rightarrow> path" where
  "alert_state_json_path alert = [''.alerts'', ''alert_state_'' @ alert @ ''.json'']"

definition mttr_json_path :: path where
  "mttr_json_path = [''.alerts'', ''mttr.json'']"

definition manifest_path :: "node_env \<Rightarrow> path \<Rightarrow> path" where
  "manifest_path env parent =
     (let host = filter (\<lambda>c. alphanumeric env c \<or> c = CHR ''-'' \<or> c = CHR ''_'') (hostname env) in
      case ingest_node env of
        Some node \<Rightarrow> parent @ [''ingestor.'' @ host @ ''.'' @ node @ ''.'' @ ''manifest.json'']
      | None \<Rightarrow> parent @ [host @ ''.'' @ ''manifest.json''])"

section \<open>Errors\<close>

datatype metastore_error =
    ObjectStorageError storage_error
  | JsonParseError
  | MetastoreFailed string

definition stored :: "'s \<times> (storage_error + unit) \<Rightarrow> 's \<times> (metastore_error + unit)" where
  "stored r = (fst r, case snd r of Inl e \<Rightarrow> Inl (ObjectStorageError e) | Inr u \<Rightarrow> Inr u)"

definition fetched :: "storage_error + 'a \<Rightarrow> metastore_error + 'a" where
  "fetched r = (case r of Inl e \<Rightarrow> Inl (ObjectStorageError e) | Inr v \<Rightarrow> Inr v)"

text \<open>An object that does not exist is no error here.\<close>

definition fetched_opt :: "storage_error + 'a \<Rightarrow> metastore_error + 'a option" where
  "fetched_opt r =
     (case r of
        Inr v \<Rightarrow> Inr (Some v)
      | Inl (NoSuchKey _) \<Rightarrow> Inr None
      | Inl e \<Rightarrow> Inl (ObjectStorageError e))"

abbreviation is_json :: "string \<Rightarrow> bool" where
  "is_json name \<equiv> suffix ''.json'' name"

section \<open>Documents at the root\<close>

type_synonym ('s, 'b) store = "('s, 'b) object_storage"

definition get_json_objects :: "('s, 'b) store \<Rightarrow> path \<Rightarrow> 's \<Rightarrow> metastore_error + 'b list" where
  "get_json_objects S parent st = fetched (os_get_objects S parent is_json st)"

definition get_overviews :: "('s, 'b) store \<Rightarrow> 's \<Rightarrow> metastore_error + (string \<times> 'b option) list" where
  "get_overviews S st =
     bind_result (fetched (os_list_streams S st)) (\<lambda>names.
       Inr (map (\<lambda>stream. (stream, case os_get S [stream, ''overview''] st of Inr b \<Rightarrow> Some b | Inl _ \<Rightarrow> None)) names))"

definition put_overview :: "('s, 'b) store \<Rightarrow> 'b \<Rightarrow> string \<Rightarrow> 's \<Rightarrow> 's \<times> (metastore_error + unit)" where
  "put_overview S obj stream st = stored (os_put S [stream, ''overview''] obj st)"

definition delete_overview :: "('s, 'b) store \<Rightarrow> string \<Rightarrow> 's \<Rightarrow> 's \<times> (metastore_error + unit)" where
  "delete_overview S stream st = stored (os_delete S [stream, ''overview''] st)"

definition get_keystones :: "('s, 'b) store \<Rightarrow> 's \<Rightarrow> metastore_error + 'b list" where
  "get_keystones S st = fetched (os_get_objects S [''.keystone''] (\<lambda>f. is_json f \<and> \<not> prefix ''conv_'' f) st)"

definition put_keystone :: "('s, 'b) store \<Rightarrow> string \<Rightarrow> 'b \<Rightarrow> 's \<Rightarrow> 's \<times> (metastore_error + unit)" where
  "put_keystone S ident obj st = stored (os_put S [''.keystone'', ident @ ''.json''] obj st)"

definition delete_keystone :: "('s, 'b) store \<Rightarrow> string \<Rightarrow> 's \<Rightarrow> 's \<times> (metastore_error + unit)" where
  "delete_keystone S ident st = stored (os_delete S [''.keystone'', ident @ ''.json''] st)"

definition get_conversations :: "('s, 'b) store \<Rightarrow> 's \<Rightarrow> metastore_error + 'b list" where
  "get_conversations S st = fetched (os_get_objects S [''.keystone''] (\<lambda>f. is_json f \<and> prefix ''conv_'' f) st)"

definition put_conversation :: "('s, 'b) store \<Rightarrow> string \<Rightarrow> 'b \<Rightarrow> 's \<Rightarrow> 's \<times> (metastore_error + unit)" where
  "put_conversation S ident obj st = stored (os_put S [''.keystone'', ''conv_'' @ ident @ ''.json''] obj st)"

definition delete_conversation :: "('s, 'b) store \<Rightarrow> string \<Rightarrow> 's \<Rightarrow> 's \<times> (metastore_error + unit)" where
  "delete_conversation S ident st = stored (os_delete S [''.keystone'', ''conv_'' @ ident @ ''.json''] st)"

section \<open>Alerts\<close>

definition get_alerts :: "('s, 'b) store \<Rightarrow> 's \<Rightarrow> metastore_error + 'b list" where
  "get_alerts S st = fetched (os_get_objects S [''.alerts''] (\<lambda>f. \<not> prefix ''alert_state_'' f \<and> is_json f) st)"

text \<open>\<open>ulid\<close> reads an identifier and gives its usual form.\<close>

definition put_alert ::
  "('s, 'b) store \<Rightarrow> (string \<Rightarrow> string option) \<Rightarrow> string \<Rightarrow> 'b \<Rightarrow> 's \<Rightarrow> 's \<times> (metastore_error + unit)" where
  "put_alert S ulid ident obj st =
     (case ulid ident of
        None \<Rightarrow> (st, Inl (MetastoreFailed ''put_alert''))
      | Some alert \<Rightarrow> stored (os_put S (alert_json_path alert) obj st))"

definition delete_alert :: "('s, 'b) store \<Rightarrow> string \<Rightarrow> 's \<Rightarrow> 's \<times> (metastore_error + unit)" where
  "delete_alert S alert st = stored (os_delete S (alert_json_path alert) st)"

text \<open>Entries that cannot be read are left out.\<close>

definition get_alert_states :: "('s, 'b) store \<Rightarrow> ('b \<Rightarrow> 'e option) \<Rightarrow> 's \<Rightarrow> metastore_error + 'e list" where
  "get_alert_states S decode st =
     bind_result (fetched (os_get_objects S [''.alerts''] (\<lambda>f. prefix ''alert_state_'' f \<and> is_json f) st))
       (\<lambda>bs. Inr (List.map_filter decode bs))"

definition get_alert_state_entry ::
  "('s, 'b) store \<Rightarrow> ('b \<Rightarrow> 'e option) \<Rightarrow> string \<Rightarrow> 's \<Rightarrow> metastore_error + 'e option" where
  "get_alert_state_entry S decode alert st =
     bind_result (fetched_opt (os_get S (alert_state_json_path alert) st))
       (\<lambda>b. Inr (case b of None \<Rightarrow> None | Some bytes \<Rightarrow> decode bytes))"

definition delete_alert_state :: "('s, 'b) store \<Rightarrow> string \<Rightarrow> 's \<Rightarrow> 's \<times> (metastore_error + unit)" where
  "delete_alert_state S alert st = stored (os_delete S (alert_state_json_path alert) st)"

definition get_mttr_history :: "('s, 'b) store \<Rightarrow> ('b \<Rightarrow> 'e option) \<Rightarrow> 's \<Rightarrow> metastore_error + 'e option" where
  "get_mttr_history S decode st =
     bind_result (fetched_opt (os_get S mttr_json_path st))
       (\<lambda>b. Inr (case b of None \<Rightarrow> None | Some bytes \<Rightarrow> decode bytes))"

definition put_mttr_history :: "('s, 'b) store \<Rightarrow> 'b \<Rightarrow> 's \<Rightarrow> 's \<times> (metastore_error + unit)" where
  "put_mttr_history S obj st = stored (os_put S mttr_json_path obj st)"

definition get_targets :: "('s, 'b) store \<Rightarrow> ('b \<Rightarrow> 'e option) \<Rightarrow> 's \<Rightarrow> metastore_error + 'e list" where
  "get_targets S decode st =
     bind_result (fetched (os_get_objects S [''.settings'', ''.targets''] is_json st))
       (\<lambda>bs. Inr (List.map_filter decode bs))"

definition put_target :: "('s, 'b) store \<Rightarrow> string \<Rightarrow> 'b \<Rightarrow> 's \<Rightarrow> 's \<times> (metastore_error + unit)" where
  "put_target S ident obj st = stored (os_put S (target_json_path ident) obj st)"

definition delete_target :: "('s, 'b) store \<Rightarrow> string \<Rightarrow> 's \<Rightarrow> 's \<times> (metastore_error + unit)" where
  "delete_target S ident st = stored (os_delete S (target_json_path ident) st)"

definition get_llmconfigs :: "('s, 'b) store \<Rightarrow> 's \<Rightarrow> metastore_error + 'b list" where
  "get_llmconfigs S st = fetched (os_get_objects S [''.settings'', ''llmconfigs''] is_json st)"

section \<open>Documents of users\<close>

text \<open>The objects of a directory of every user.\<close>

fun of_users :: "('s, 'b) store \<Rightarrow> string \<Rightarrow> 's \<Rightarrow> string list \<Rightarrow> metastore_error + 'b list" where
  "of_users S kind st [] = Inr []"
| "of_users S kind st (user # users) =
     bind_result (fetched (os_get_objects S [''.users'', user, kind] is_json st)) (\<lambda>bs.
       bind_result (of_users S kind st users) (\<lambda>rest. Inr (bs @ rest)))"

definition get_dashboards :: "('s, 'b) store \<Rightarrow> 's \<Rightarrow> metastore_error + 'b list" where
  "get_dashboards S st =
     bind_result (fetched (os_list_dirs_relative S [''.users''] st)) (of_users S ''dashboards'' st)"

definition get_correlations :: "('s, 'b) store \<Rightarrow> 's \<Rightarrow> metastore_error + 'b list" where
  "get_correlations S st =
     bind_result (fetched (os_list_dirs_relative S [''.users''] st)) (of_users S ''correlations'' st)"

definition get_chats :: "('s, 'b) store \<Rightarrow> 's \<Rightarrow> metastore_error + (string \<times> 'b list) list" where
  "get_chats S st =
     bind_result (fetched (os_list_dirs_relative S [''.users''] st)) (\<lambda>users.
       map_result (\<lambda>user. bind_result (of_users S ''chats'' st [user]) (\<lambda>bs. Inr (user, bs)))
         (filter (\<lambda>user. \<not> prefix ''.'' user) users))"

definition user_path :: "string \<Rightarrow> string \<Rightarrow> string \<Rightarrow> path" where
  "user_path user kind ident = [''.users'', user, kind, ident @ ''.json'']"

definition put_dashboard :: "('s, 'b) store \<Rightarrow> string \<Rightarrow> string \<Rightarrow> 'b \<Rightarrow> 's \<Rightarrow> 's \<times> (metastore_error + unit)" where
  "put_dashboard S author ident obj st = stored (os_put S (user_path author ''dashboards'' ident) obj st)"

definition delete_dashboard :: "('s, 'b) store \<Rightarrow> string \<Rightarrow> string \<Rightarrow> 's \<Rightarrow> 's \<times> (metastore_error + unit)" where
  "delete_dashboard S author ident st = stored (os_delete S (user_path author ''dashboards'' ident) st)"

definition put_correlation :: "('s, 'b) store \<Rightarrow> string \<Rightarrow> string \<Rightarrow> 'b \<Rightarrow> 's \<Rightarrow> 's \<times> (metastore_error + unit)" where
  "put_correlation S user ident obj st = stored (os_put S (user_path user ''correlations'' ident) obj st)"

definition delete_correlation :: "('s, 'b) store \<Rightarrow> string \<Rightarrow> string \<Rightarrow> 's \<Rightarrow> 's \<times> (metastore_error + unit)" where
  "delete_correlation S user ident st = stored (os_delete S (user_path user ''correlations'' ident) st)"

section \<open>Streams\<close>

definition get_stream_json :: "('s, 'b) store \<Rightarrow> node_env \<Rightarrow> string \<Rightarrow> bool \<Rightarrow> 's \<Rightarrow> metastore_error + 'b" where
  "get_stream_json S env stream get_base st =
     fetched (os_get S (if get_base then [stream, ''.stream'', ''.stream.json''] else stream_json_path env stream) st)"

text \<open>The mode, when one is given, may only be that of an ingestor.\<close>

definition get_all_stream_jsons ::
  "('s, 'b) store \<Rightarrow> string \<Rightarrow> bool option \<Rightarrow> 's \<Rightarrow> metastore_error + 'b list" where
  "get_all_stream_jsons S stream of_ingest st =
     (case of_ingest of
        Some True \<Rightarrow>
          fetched (os_get_objects S [stream, ''.stream'']
            (\<lambda>f. prefix ''.ingestor'' f \<and> suffix ''stream.json'' f) st)
      | Some False \<Rightarrow> Inl (MetastoreFailed ''get_all_streams with mode'')
      | None \<Rightarrow> fetched (os_get_objects S [stream, ''.stream''] (suffix ''stream.json'') st))"

definition put_stream_json :: "('s, 'b) store \<Rightarrow> node_env \<Rightarrow> 'b \<Rightarrow> string \<Rightarrow> 's \<Rightarrow> 's \<times> (metastore_error + unit)" where
  "put_stream_json S env obj stream st = stored (os_put S (stream_json_path env stream) obj st)"

text \<open>A schema that cannot be read is a panic, \<open>None\<close>.\<close>

definition get_all_schemas ::
  "('s, 'b) store \<Rightarrow> ('b \<Rightarrow> 'e option) \<Rightarrow> string \<Rightarrow> 's \<Rightarrow> (metastore_error + 'e list) option" where
  "get_all_schemas S decode stream st =
     (case fetched (os_get_objects S [stream, ''.stream''] (contains_str ''.schema'') st) of
        Inl e \<Rightarrow> Some (Inl e)
      | Inr bs \<Rightarrow> map_option Inr (those (map decode bs)))"

definition get_schema :: "('s, 'b) store \<Rightarrow> node_env \<Rightarrow> string \<Rightarrow> 's \<Rightarrow> metastore_error + 'b" where
  "get_schema S env stream st = fetched (os_get S (schema_path env stream) st)"

definition put_schema :: "('s, 'b) store \<Rightarrow> node_env \<Rightarrow> 'b \<Rightarrow> string \<Rightarrow> 's \<Rightarrow> 's \<times> (metastore_error + unit)" where
  "put_schema S env obj stream st = stored (os_put S (schema_path env stream) obj st)"

text \<open>\<open>parent\<close> is the path of the partition of the bounds.\<close>

definition get_manifest ::
  "('s, 'b) store \<Rightarrow> node_env \<Rightarrow> ('b \<Rightarrow> 'e option) \<Rightarrow> path \<Rightarrow> path option \<Rightarrow> 's \<Rightarrow> metastore_error + 'e option" where
  "get_manifest S env decode parent manifest_url st =
     bind_result (fetched_opt (os_get S (case manifest_url of Some url \<Rightarrow> url | None \<Rightarrow> manifest_path env parent) st))
       (\<lambda>b. case b of
          None \<Rightarrow> Inr None
        | Some bytes \<Rightarrow> (case decode bytes of None \<Rightarrow> Inl JsonParseError | Some m \<Rightarrow> Inr (Some m)))"

definition get_manifest_path :: "('s, 'b) store \<Rightarrow> node_env \<Rightarrow> path \<Rightarrow> 's \<Rightarrow> path" where
  "get_manifest_path S env parent st = os_absolute_url S (manifest_path env parent) st"

definition put_manifest :: "('s, 'b) store \<Rightarrow> node_env \<Rightarrow> 'b \<Rightarrow> path \<Rightarrow> 's \<Rightarrow> 's \<times> (metastore_error + unit)" where
  "put_manifest S env obj parent st = stored (os_put S (parent @ manifest_path env []) obj st)"

definition delete_manifest :: "('s, 'b) store \<Rightarrow> node_env \<Rightarrow> path \<Rightarrow> 's \<Rightarrow> 's \<times> (metastore_error + unit)" where
  "delete_manifest S env parent st = stored (os_delete S (parent @ manifest_path env []) st)"

section \<open>Nodes\<close>

definition get_parseable_metadata :: "('s, 'b) store \<Rightarrow> 's \<Rightarrow> metastore_error + 'b option" where
  "get_parseable_metadata S st = fetched_opt (os_get S parseable_json_path st)"

definition put_parseable_metadata :: "('s, 'b) store \<Rightarrow> 'b \<Rightarrow> 's \<Rightarrow> 's \<times> (metastore_error + unit)" where
  "put_parseable_metadata S obj st = stored (os_put S parseable_json_path obj st)"

definition get_ingestor_metadata :: "('s, 'b) store \<Rightarrow> 's \<Rightarrow> metastore_error + 'b list" where
  "get_ingestor_metadata S st = fetched (os_get_objects S [''.parseable''] (prefix ''ingestor'') st)"

definition get_node_metadata :: "('s, 'b) store \<Rightarrow> string \<Rightarrow> 's \<Rightarrow> metastore_error + 'b list" where
  "get_node_metadata S node_type st = fetched (os_get_objects S [''.parseable''] (prefix node_type) st)"

definition put_node_metadata :: "('s, 'b) store \<Rightarrow> path \<Rightarrow> 'b \<Rightarrow> 's \<Rightarrow> 's \<times> (metastore_error + unit)" where
  "put_node_metadata S file_path obj st = stored (os_put S file_path obj st)"

text \<open>\<open>decode\<close> gives the domain of a node and the path of its file. A failing removal on a drive counts
  as no such node.\<close>

definition delete_node_metadata ::
  "('s, 'b) store \<Rightarrow> ('b \<Rightarrow> (string \<times> path) option) \<Rightarrow> string \<Rightarrow> string \<Rightarrow> 's \<Rightarrow> 's \<times> (metastore_error + bool)" where
  "delete_node_metadata S decode domain_name node_type st =
     (case os_get_objects S [''.parseable''] (prefix node_type) st of
        Inl e \<Rightarrow> (st, Inl (ObjectStorageError e))
      | Inr metadatas \<Rightarrow>
          (case filter (\<lambda>(d, _). d = domain_name) (List.map_filter decode metadatas) of
             [] \<Rightarrow> (st, Inr False)
           | (_, node_file) # _ \<Rightarrow>
               (case os_delete S node_file st of
                  (st', Inr _) \<Rightarrow> (st', Inr True)
                | (st', Inl (IoError _)) \<Rightarrow> (st', Inr False)
                | (st', Inl e) \<Rightarrow> (st', Inl (ObjectStorageError e)))))"

definition list_drive_streams :: "('s, 'b) store \<Rightarrow> 's \<Rightarrow> metastore_error + string list" where
  "list_drive_streams S st = fetched (os_list_streams S st)"

section \<open>Listings on the drive\<close>

lemma fetched_Inr [simp]: "fetched r = Inr v \<longleftrightarrow> r = Inr v"
  by (simp add: fetched_def split: sum.split)

lemma stored_eq: "stored r = (s', r') \<longleftrightarrow> (\<exists>x. r = (s', x) \<and> r' = (case x of Inl e \<Rightarrow> Inl (ObjectStorageError e) | Inr u \<Rightarrow> Inr u))"
  by (cases r) (auto simp: stored_def)

lemma stored_Inr [simp]: "stored r = (s', Inr u) \<longleftrightarrow> r = (s', Inr u)"
  by (cases r; cases "snd r") (auto simp: stored_def)

lemma of_users_held:
  assumes "fs_ok st" and "of_users local_storage kind st users = Inr bs"
  shows "set bs = {b. \<exists>user \<in> set users. \<exists>name. is_json name \<and> held_at st [''.users'', user, kind, name] = Some b}"
  using assms(2)
proof (induction users arbitrary: bs)
  case (Cons user users)
  then obtain mine rest where parts: "os_get_objects local_storage [''.users'', user, kind] is_json st = Inr mine"
    "of_users local_storage kind st users = Inr rest" "bs = mine @ rest" by auto
  have "set mine = {b. \<exists>name. is_json name \<and> held_at st [''.users'', user, kind, name] = Some b}"
    using drive.objects_held [OF assms(1) parts(1)] by simp
  then show ?case using Cons.IH [OF parts(2)] parts(3) by auto
qed simp

lemma listed_dirs:
  assumes "fs_ok st" and "list_dirs_relative p st = Inr names"
  shows "set names = {name. map_of (fs_nodes st) (path_in_root st (p @ [name])) = Some Dir}"
proof -
  let ?q = "path_in_root st p"
  have dist: "distinct (map fst (fs_nodes st))" using assms(1) by (simp add: fs_ok_def tree_ok_def)
  have child: "path_in_root st (p @ [name]) = ?q @ [name]" for name by (simp add: path_in_root_def)
  have in_dirs: "set (dirs_of (filter (\<lambda>(r, _). r \<noteq> [] \<and> butlast r = ?q) (fs_nodes st))) =
      {name. map_of (fs_nodes st) (?q @ [name]) = Some Dir}"
  proof (intro set_eqI iffI)
    fix name assume "name \<in> set (dirs_of (filter (\<lambda>(r, _). r \<noteq> [] \<and> butlast r = ?q) (fs_nodes st)))"
    then obtain r where r: "(r, Dir) \<in> set (fs_nodes st)" "r \<noteq> []" "butlast r = ?q" "last r = name"
      by (auto simp: dirs_of_def dir_name_def map_filter_def split: node.splits)
    then have "r = ?q @ [name]" by (metis append_butlast_last_id)
    then show "name \<in> {name. map_of (fs_nodes st) (?q @ [name]) = Some Dir}" using r(1) dist by simp
  next
    fix name assume "name \<in> {name. map_of (fs_nodes st) (?q @ [name]) = Some Dir}"
    then have "(?q @ [name], Dir) \<in> set (fs_nodes st)" by (auto dest: map_of_SomeD)
    then show "name \<in> set (dirs_of (filter (\<lambda>(r, _). r \<noteq> [] \<and> butlast r = ?q) (fs_nodes st)))"
      by (force simp: dirs_of_def dir_name_def map_filter_def)
  qed
  show ?thesis
  proof (cases "read_dir ?q st")
    case (Inl e)
    then have "e = NotFound" "names = []" using assms(2) by (auto simp: list_dirs_relative_def split: io_error.splits)
    then have missing: "map_of (fs_nodes st) ?q = None"
      using Inl by (auto simp: read_dir_def access_def split: if_splits option.splits node.splits)
    have "map_of (fs_nodes st) (?q @ [name]) \<noteq> Some Dir" for name
    proof
      assume "map_of (fs_nodes st) (?q @ [name]) = Some Dir"
      then have "map_of (fs_nodes st) ?q = Some Dir"
        using parents_dirs [of "fs_nodes st" "?q @ [name]" Dir "length ?q"] assms(1) by (simp add: fs_ok_def)
      then show False using missing by simp
    qed
    then show ?thesis using \<open>names = []\<close> unfolding child by auto
  next
    case (Inr entries)
    then have "entries = filter (\<lambda>(r, _). r \<noteq> [] \<and> butlast r = ?q) (fs_nodes st)" "names = dirs_of entries"
      using assms(2) by (auto simp: list_dirs_relative_def read_dir_def split: sum.splits node.splits)
    then show ?thesis using in_dirs unfolding child by simp
  qed
qed

text \<open>The directories of users above a stored object.\<close>

lemma user_dir:
  assumes "fs_ok st" and "held_at st (''.users'' # user # rest) = Some b" and "rest \<noteq> []"
  shows "map_of (fs_nodes st) (path_in_root st [''.users'', user]) = Some Dir"
proof -
  let ?q = "path_in_root st (''.users'' # user # rest)"
  have "map_of (fs_nodes st) ?q = Some (File b)" using assms(2) by (simp add: held_at_iff)
  then have "map_of (fs_nodes st) (take (length (path_in_root st [''.users'', user])) ?q) = Some Dir"
    using assms(1,3) by (intro parents_dirs) (auto simp: fs_ok_def path_in_root_def)
  then show ?thesis by (simp add: path_in_root_def)
qed

lemma users_documents:
  assumes "fs_ok st"
    and "bind_result (fetched (os_list_dirs_relative local_storage [''.users''] st)) (of_users local_storage kind st) = Inr bs"
  shows "set bs = {b. \<exists>user name. is_json name \<and> held_at st [''.users'', user, kind, name] = Some b}"
proof -
  obtain users where users: "list_dirs_relative [''.users''] st = Inr users"
    "of_users local_storage kind st users = Inr bs"
    using assms(2) by (auto simp: local_storage_def)
  have "held_at st [''.users'', user, kind, name] = Some b \<Longrightarrow> user \<in> set users" for user name b
    using listed_dirs [OF assms(1) users(1)] user_dir [OF assms(1), of user "[kind, name]" b] by simp
  then show ?thesis using of_users_held [OF assms(1) users(2)] by blast
qed

section \<open>Properties\<close>

text \<open>On the local drive the dashboards that a start loads, when it can list them, are exactly the
  documents stored under the dashboards of any user.\<close>

theorem dashboards_listed_exactly:
  assumes "fs_ok st" and "get_dashboards local_storage st = Inr bs"
  shows "set bs = {b. \<exists>user name. is_json name \<and> held_at st [''.users'', user, ''dashboards'', name] = Some b}"
  using users_documents [OF assms(1)] assms(2) by (simp add: get_dashboards_def)

definition users_drive :: "nat local_fs" where
  "users_drive =
     \<lparr>fs_root = [''srv''], fs_nodes = [([], Dir), ([''srv''], Dir), ([''srv'', ''.users''], Dir),
        ([''srv'', ''.users'', ''ann''], Dir), ([''srv'', ''.users'', ''ann'', ''dashboards''], Dir),
        ([''srv'', ''.users'', ''ann'', ''dashboards'', ''d.json''], File 5)],
      fs_fault = (\<lambda>_. False), fs_write = (\<lambda>_. Written)\<rparr>"

lemma users_drive_ok: "fs_ok users_drive"
  by (auto simp: fs_ok_def tree_ok_def users_drive_def split: if_splits)

lemma users_drive_dashboards: "get_dashboards local_storage users_drive = Inr [5]"
  by (simp add: get_dashboards_def local_storage_def list_dirs_relative_def read_dir_def access_def
      path_in_root_def users_drive_def dirs_of_def dir_name_def map_filter_def get_objects_def io_result_def
      read_bytes_def fetched_def suffix_def)

theorem dashboards_listed_exactly_witness:
  "{b. \<exists>user name. is_json name \<and> held_at users_drive [''.users'', user, ''dashboards'', name] = Some b} = {5}"
  using dashboards_listed_exactly [OF users_drive_ok users_drive_dashboards] by simp

text \<open>Saving a correlation makes the directory of its user, but none for dashboards.\<close>

lemma user_without_directory:
  assumes "fs_ok st" and "map_of (fs_nodes st) (path_in_root st [''.users'', user]) = Some Dir"
    and "map_of (fs_nodes st) (path_in_root st [''.users'', user, kind]) = None"
  shows "bind_result (fetched (os_list_dirs_relative local_storage [''.users''] st)) (of_users local_storage kind st) \<noteq> Inr bs"
proof
  assume run: "bind_result (fetched (os_list_dirs_relative local_storage [''.users''] st)) (of_users local_storage kind st) = Inr bs"
  then obtain users where users: "list_dirs_relative [''.users''] st = Inr users"
    "of_users local_storage kind st users = Inr bs" by (auto simp: local_storage_def)
  have "user \<in> set users" using listed_dirs [OF assms(1) users(1)] assms(2) by simp
  moreover have "get_objects [''.users'', user, kind] f st \<noteq> Inr cs" for f cs
    using assms(3) by (simp add: get_objects_def read_dir_def access_def io_result_def)
  ultimately have "of_users local_storage kind st users \<noteq> Inr bs"
    by (induction users arbitrary: bs) (auto simp: local_storage_def)
  then show False using users(2) by simp
qed

text \<open>C17: On the local drive, whose files and directories form a tree, when a correlation of a user
  is stored for whom no directory of dashboards exists (one who never had a dashboard), the
  listing of all dashboards of all users fails: it then asks for a directory that does not
  exist, which is an error.\<close>

theorem correlation_hides_dashboards:
  assumes "fs_ok st" and "put_correlation local_storage user ident b st = (st', Inr ())"
    and "map_of (fs_nodes st) (path_in_root st [''.users'', user, ''dashboards'']) = None"
  shows "\<exists>e. get_dashboards local_storage st' = Inl e"
proof -
  let ?p = "user_path user ''correlations'' ident"
  have put: "put_object ?p b st = (st', Inr ())"
    using assms(2) by (simp add: put_correlation_def local_storage_def)
  note facts = put_object_cases [OF assms(1) put]
  have same: "path_in_root st' p = path_in_root st p" for p using facts by (simp add: path_in_root_def)
  have "held_at st' (''.users'' # user # [''correlations'', ident @ ''.json'']) = Some b"
    using facts by (simp add: user_path_def)
  then have "map_of (fs_nodes st') (path_in_root st' [''.users'', user]) = Some Dir"
    using facts by (intro user_dir) auto
  moreover have "map_of (fs_nodes st') (path_in_root st' [''.users'', user, ''dashboards'']) = None"
    using put_object_new [of ?p b st "path_in_root st [''.users'', user, ''dashboards'']"] put assms(3)
    unfolding same
    by (cases "map_of (fs_nodes st') (path_in_root st [''.users'', user, ''dashboards''])")
      (auto simp: path_in_root_def user_path_def)
  ultimately have "get_dashboards local_storage st' \<noteq> Inr bs" for bs
    using user_without_directory facts unfolding get_dashboards_def by blast
  then show ?thesis by (cases "get_dashboards local_storage st'") auto
qed

theorem correlation_hides_dashboards_witness:
  "get_dashboards local_storage users_drive = Inr [5] \<and>
   (\<exists>st' e. put_correlation local_storage ''bob'' ''c'' 7 users_drive = (st', Inr ()) \<and>
      get_dashboards local_storage st' = Inl e)"
proof -
  have "\<exists>st'. put_correlation local_storage ''bob'' ''c'' 7 users_drive = (st', Inr ())"
    by (simp add: put_correlation_def local_storage_def put_object_def path_in_root_def users_drive_def user_path_def)
  then obtain st' where put: "put_correlation local_storage ''bob'' ''c'' 7 users_drive = (st', Inr ())" ..
  have "map_of (fs_nodes users_drive) (path_in_root users_drive [''.users'', ''bob'', ''dashboards'']) = None"
    by (simp add: users_drive_def path_in_root_def)
  from correlation_hides_dashboards [OF users_drive_ok put this] show ?thesis
    using users_drive_dashboards put by blast
qed

text \<open>An alert that was stored is listed, and storing it changes nothing in the list of the alerts'
  states, which are in the same directory.\<close>

theorem put_alert_listed:
  assumes "fs_ok st" and "put_alert local_storage ulid ident b st = (st', Inr ())"
    and "ulid ident = Some alert" and "\<not> prefix ''alert_state_'' (alert @ ''.json'')"
    and "get_alerts local_storage st' = Inr bs"
    and "get_alert_states local_storage Some st = Inr es" and "get_alert_states local_storage Some st' = Inr es'"
  shows "b \<in> set bs \<and> set es' = set es"
proof -
  have put: "os_put local_storage [''.alerts'', alert @ ''.json''] b st = (st', Inr ())"
    using assms(2,3) by (simp add: put_alert_def alert_json_path_def)
  have "b \<in> set bs"
    using drive.listed_after_put [OF assms(1), of "[''.alerts'']" "alert @ ''.json''" b st' "()"
        "\<lambda>f. \<not> prefix ''alert_state_'' f \<and> is_json f" bs] put assms(4,5)
    by (simp add: get_alerts_def suffix_def)
  moreover have "List.map_filter Some xs = xs" for xs :: "'a list"
    by (simp add: map_filter_def)
  then have "set es' = set es"
    using drive.listing_unaffected [OF assms(1) put, of "\<lambda>f. prefix ''alert_state_'' f \<and> is_json f" "[''.alerts'']" es es']
      assms(4,6,7) by (auto simp: get_alert_states_def)
  ultimately show ?thesis by simp
qed

definition alerts_drive :: "nat local_fs" where
  "alerts_drive =
     \<lparr>fs_root = [''srv''], fs_nodes = [([], Dir), ([''srv''], Dir), ([''srv'', ''.alerts''], Dir),
        ([''srv'', ''.alerts'', ''alert_state_0.json''], File 3)],
      fs_fault = (\<lambda>_. False), fs_write = (\<lambda>_. Written)\<rparr>"

lemma alerts_drive_ok: "fs_ok alerts_drive"
  by (auto simp: fs_ok_def tree_ok_def alerts_drive_def split: if_splits)

lemmas drive_eval = local_storage_def get_objects_def read_dir_def access_def path_in_root_def io_result_def
  read_bytes_def fetched_def suffix_def put_object_def stored_def

lemma alerts_drive_put:
  "put_alert local_storage Some ''1'' 4 alerts_drive =
     (alerts_drive\<lparr>fs_nodes := fs_nodes alerts_drive @ [([''srv'', ''.alerts'', ''1.json''], File 4)]\<rparr>, Inr ())"
  by (simp add: put_alert_def alert_json_path_def drive_eval alerts_drive_def)

theorem put_alert_listed_witness:
  "\<exists>bs. get_alerts local_storage (fst (put_alert local_storage Some ''1'' 4 alerts_drive)) = Inr bs \<and> 4 \<in> set bs"
proof -
  let ?st = "alerts_drive\<lparr>fs_nodes := fs_nodes alerts_drive @ [([''srv'', ''.alerts'', ''1.json''], File 4)]\<rparr>"
  have "get_alerts local_storage ?st = Inr [4]" "get_alert_states local_storage Some alerts_drive = Inr [3]"
    "get_alert_states local_storage Some ?st = Inr [3]"
    by (simp_all add: get_alerts_def get_alert_states_def drive_eval alerts_drive_def map_filter_def)
  then show ?thesis
    using put_alert_listed [OF alerts_drive_ok alerts_drive_put, of "''1''" "[4]" "[3]" "[3]"]
    by (simp add: alerts_drive_put)
qed

text \<open>The history of recovery times is kept among the alerts and its name passes their filter: once
  stored, it is loaded as an alert.\<close>

theorem mttr_listed_as_alert:
  assumes "fs_ok st" and "put_mttr_history local_storage b st = (st', Inr ())"
    and "get_alerts local_storage st' = Inr bs"
  shows "b \<in> set bs"
  using drive.listed_after_put [OF assms(1), of "[''.alerts'']" "''mttr.json''" b st' "()"
      "\<lambda>f. \<not> prefix ''alert_state_'' f \<and> is_json f" bs] assms(2,3)
  by (simp add: put_mttr_history_def mttr_json_path_def get_alerts_def suffix_def)

theorem mttr_listed_as_alert_witness:
  "\<exists>st' bs. put_mttr_history local_storage 9 alerts_drive = (st', Inr ()) \<and>
     get_alerts local_storage st' = Inr bs \<and> 9 \<in> set bs"
proof -
  let ?st = "alerts_drive\<lparr>fs_nodes := fs_nodes alerts_drive @ [([''srv'', ''.alerts'', ''mttr.json''], File 9)]\<rparr>"
  have put: "put_mttr_history local_storage 9 alerts_drive = (?st, Inr ())"
    by (simp add: put_mttr_history_def mttr_json_path_def drive_eval alerts_drive_def)
  have "get_alerts local_storage ?st = Inr [9]" by (simp add: get_alerts_def drive_eval alerts_drive_def)
  then show ?thesis using mttr_listed_as_alert [OF alerts_drive_ok put] put by blast
qed

text \<open>What an ingestor writes of a stream is its own: storing its \<open>stream.json\<close> changes neither the
  one at the base of the stream nor that of another ingestor, and is found among those of ingestors.\<close>

theorem ingestor_json_private:
  assumes "fs_ok st" and "ingest_node env = Some node"
    and "put_stream_json local_storage env b stream st = (st', Inr ())"
    and "get_all_stream_jsons local_storage stream (Some True) st' = Inr bs"
    and "\<not> taken_for_absolute st [stream, ''.stream'', ''.stream.json'']"
  shows "b \<in> set bs \<and>
    (\<forall>c. get_stream_json local_storage env stream True st' = Inr c \<longleftrightarrow>
       get_stream_json local_storage env stream True st = Inr c) \<and>
    (\<forall>other. other \<noteq> node \<longrightarrow>
       held_at st' (stream_json_path (env\<lparr>ingest_node := Some other\<rparr>) stream) =
       held_at st (stream_json_path (env\<lparr>ingest_node := Some other\<rparr>) stream))"
proof -
  let ?name = "''.ingestor.'' @ node @ ''.stream.json''"
  have put: "os_put local_storage ([stream, ''.stream''] @ [?name]) b st = (st', Inr ())"
    using assms(2,3) by (simp add: put_stream_json_def stream_json_path_def)
  have "suffix ''stream.json'' ?name"
    unfolding suffix_def by (rule exI [of _ "''.ingestor.'' @ node @ ''.''"]) simp
  then have listed: "b \<in> set bs"
    using drive.listed_after_put [OF assms(1) put, of "\<lambda>f. prefix ''.ingestor'' f \<and> suffix ''stream.json'' f" bs]
      assms(4) by (simp add: get_all_stream_jsons_def)
  have run: "put_object ([stream, ''.stream''] @ [?name]) b st = (st', Inr ())"
    using put by (simp add: local_storage_def)
  note facts = put_object_cases [OF assms(1) run] put_object_frame [of "[stream, ''.stream''] @ [?name]" b st]
  have "taken_for_absolute st' = taken_for_absolute st" "path_in_root st' = path_in_root st" "fs_fault st' = fs_fault st"
    using facts run by (simp_all add: taken_for_absolute_def path_in_root_def fun_eq_iff)
  moreover have "held_at st' [stream, ''.stream'', ''.stream.json''] = held_at st [stream, ''.stream'', ''.stream.json'']"
    using facts by simp
  ultimately have base: "get_stream_json local_storage env stream True st' = Inr c \<longleftrightarrow>
      get_stream_json local_storage env stream True st = Inr c" for c
    using assms(5) by (simp add: get_stream_json_def local_storage_def get_object_plain)
  have "held_at st' (stream_json_path (env\<lparr>ingest_node := Some other\<rparr>) stream) =
      held_at st (stream_json_path (env\<lparr>ingest_node := Some other\<rparr>) stream)" if "other \<noteq> node" for other
    using facts that by (simp add: stream_json_path_def)
  with listed base show ?thesis by blast
qed

definition sample_node_env :: node_env where
  "sample_node_env = \<lparr>ingest_node = Some ''n1'', hostname = ''h'', alphanumeric = (\<lambda>_. True)\<rparr>"

theorem ingestor_json_private_witness:
  "\<exists>st' bs. put_stream_json local_storage sample_node_env 8 ''web'' users_drive = (st', Inr ()) \<and>
     get_all_stream_jsons local_storage ''web'' (Some True) st' = Inr bs \<and> 8 \<in> set bs"
proof -
  let ?st = "users_drive\<lparr>fs_nodes := fs_nodes users_drive @ [([''srv'', ''web''], Dir), ([''srv'', ''web'', ''.stream''], Dir),
    ([''srv'', ''web'', ''.stream'', ''.ingestor.n1.stream.json''], File 8)]\<rparr>"
  have put: "put_stream_json local_storage sample_node_env 8 ''web'' users_drive = (?st, Inr ())"
    by (simp add: put_stream_json_def stream_json_path_def sample_node_env_def drive_eval users_drive_def)
  moreover have listed: "get_all_stream_jsons local_storage ''web'' (Some True) ?st = Inr [8]"
    by (simp add: get_all_stream_jsons_def drive_eval users_drive_def)
  moreover have "\<not> taken_for_absolute users_drive [''web'', ''.stream'', ''.stream.json'']"
    by (simp add: taken_for_absolute_def users_drive_def)
  ultimately have "8 \<in> set [8 :: nat]"
    using ingestor_json_private [OF users_drive_ok _ put listed, of "''n1''", THEN conjunct1]
    by (simp add: sample_node_env_def)
  then show ?thesis using put listed by blast
qed

text \<open>A manifest that was stored is read back, as it was, by the address that a snapshot keeps of
  it, whatever node reads it.\<close>

theorem manifest_read_by_address:
  assumes "fs_ok st" and "put_manifest local_storage env b parent st = (st', Inr ())"
    and "fs_root st \<noteq> []" and "\<not> fs_fault st (path_in_root st (parent @ manifest_path env []))"
    and "decode b = Some m"
  shows "get_manifest local_storage other_env decode any (Some (get_manifest_path local_storage env parent st')) st' =
    Inr (Some m)"
proof -
  let ?p = "parent @ manifest_path env []"
  have run: "put_object ?p b st = (st', Inr ())" using assms(2) by (simp add: put_manifest_def local_storage_def)
  note facts = put_object_cases [OF assms(1) run] put_object_frame [of ?p b st]
  have "manifest_path env parent = ?p" by (simp add: manifest_path_def Let_def split: option.split)
  moreover have "get_object (absolute_url ?p st') st' = Inr b"
    using facts assms(3,4) run by (subst drive_address_held) (simp_all add: path_in_root_def)
  ultimately show ?thesis
    using assms(5) by (simp add: get_manifest_def get_manifest_path_def local_storage_def fetched_opt_def)
qed

theorem manifest_read_by_address_witness:
  "\<exists>st'. put_manifest local_storage sample_node_env 8 [''web'', ''date=x''] users_drive = (st', Inr ()) \<and>
     get_manifest local_storage sample_node_env Some [] (Some (get_manifest_path local_storage sample_node_env
       [''web'', ''date=x''] st')) st' = Inr (Some 8)"
proof -
  have "\<exists>st'. put_manifest local_storage sample_node_env 8 [''web'', ''date=x''] users_drive = (st', Inr ())"
    by (simp add: put_manifest_def manifest_path_def sample_node_env_def drive_eval users_drive_def)
  then obtain st' where put: "put_manifest local_storage sample_node_env 8 [''web'', ''date=x''] users_drive = (st', Inr ())" ..
  have "get_manifest local_storage sample_node_env Some [] (Some (get_manifest_path local_storage sample_node_env
       [''web'', ''date=x''] st')) st' = Inr (Some 8)"
    by (rule manifest_read_by_address [OF users_drive_ok put]) (simp_all add: users_drive_def)
  with put show ?thesis by blast
qed

end
