(* ===== verification/Storage_Extent.thy ===== *)
theory Storage_Extent
  imports Object_Store Time_Prefix
begin

text \<open>
  The first and the latest event of a stream as they are derived from the directories of its files
  (\<open>get_first_and_latest_event_from_storage\<close> and \<open>extract_timestamp_for_date\<close> of
  \<open>src/storage/object_storage.rs\<close>).
\<close>

text \<open>The listings of a store and the date that chrono reads.\<close>

record extent_env =
  dates_of :: "storage_error + string list"
  hours_of :: "string \<Rightarrow> storage_error + string list"
  minutes_dirs :: "string \<Rightarrow> string \<Rightarrow> storage_error + string list"
  parse_date :: "string \<Rightarrow> date option"

datatype extent_error = ListingFailed storage_error | NoValid string

text \<open>\<open>str::parse::<u32>\<close>.\<close>

definition parse_u32 :: "string \<Rightarrow> nat option" where
  "parse_u32 s =
     (case read_digits (case s of c # cs \<Rightarrow> if c = CHR ''+'' then cs else s | [] \<Rightarrow> s) of
        None \<Rightarrow> None
      | Some n \<Rightarrow> if n < 2 ^ 32 then Some n else None)"

definition numbered :: "string \<Rightarrow> string list \<Rightarrow> (nat \<times> string) list" where
  "numbered label dirs =
     List.map_filter (\<lambda>dir. case strip_prefix label dir of
        None \<Rightarrow> None | Some rest \<Rightarrow> map_option (\<lambda>n. (n, dir)) (parse_u32 rest)) dirs"

text \<open>The first of the least or of the greatest entries.\<close>

fun pick :: "bool \<Rightarrow> (nat \<times> string) list \<Rightarrow> (nat \<times> string) option" where
  "pick find_min [] = None"
| "pick find_min [x] = Some x"
| "pick find_min (acc # cur # rest) =
     pick find_min ((if find_min then if fst cur < fst acc then cur else acc
                     else if fst cur > fst acc then cur else acc) # rest)"

text \<open>A time that does not exist on the clock counts as midnight.\<close>

definition clock_time :: "date \<Rightarrow> nat \<Rightarrow> nat \<Rightarrow> datetime" where
  "clock_time day hour minute =
     day * nanos_per_day +
     (if hour < 24 \<and> minute < 60 then int hour * nanos_per_hour + int minute * nanos_per_minute else 0)"

definition listing :: "storage_error + 'a \<Rightarrow> extent_error + 'a" where
  "listing r = (case r of Inl e \<Rightarrow> Inl (ListingFailed e) | Inr v \<Rightarrow> Inr v)"

definition extract_timestamp_for_date :: "extent_env \<Rightarrow> string \<Rightarrow> bool \<Rightarrow> extent_error + datetime option" where
  "extract_timestamp_for_date env date_dir find_min =
     bind_result (listing (hours_of env date_dir)) (\<lambda>hours.
       if hours = [] then Inr None
       else case pick find_min (numbered ''hour='' hours) of
         None \<Rightarrow> Inl (NoValid ''hours'')
       | Some (target_hour, hour_dir) \<Rightarrow>
           bind_result (listing (minutes_dirs env date_dir hour_dir)) (\<lambda>minutes.
             if minutes = [] then Inr None
             else case pick find_min (numbered ''minute='' minutes) of
               None \<Rightarrow> Inl (NoValid ''minutes'')
             | Some (target_minute, _) \<Rightarrow>
                 Inr (case strip_prefix ''date='' date_dir of
                        None \<Rightarrow> None
                      | Some part \<Rightarrow> map_option (\<lambda>day. clock_time day target_hour target_minute) (parse_date env part))))"

definition parsed_dates :: "extent_env \<Rightarrow> string list \<Rightarrow> (date \<times> string) list" where
  "parsed_dates env dates =
     List.map_filter (\<lambda>dir. case strip_prefix ''date='' dir of
        None \<Rightarrow> None | Some part \<Rightarrow> map_option (\<lambda>day. (day, dir)) (parse_date env part)) dates"

definition get_first_and_latest_event_from_storage ::
  "extent_env \<Rightarrow> extent_error + datetime option \<times> datetime option" where
  "get_first_and_latest_event_from_storage env =
     bind_result (listing (dates_of env)) (\<lambda>dates.
       let sorted_dates = sort_key fst (parsed_dates env dates) in
       if sorted_dates = [] then Inr (None, None)
       else bind_result (extract_timestamp_for_date env (snd (hd sorted_dates)) True) (\<lambda>first_event.
         bind_result (extract_timestamp_for_date env (snd (last sorted_dates)) False) (\<lambda>latest_event.
           Inr (first_event, latest_event))))"

section \<open>Choosing a directory\<close>

lemma pick_some:
  "xs \<noteq> [] \<Longrightarrow> \<exists>x. pick find_min xs = Some x \<and> x \<in> set xs \<and>
     (\<forall>y \<in> set xs. if find_min then fst x \<le> fst y else fst y \<le> fst x)"
proof (induction find_min xs rule: pick.induct)
  case (3 find_min acc cur rest)
  let ?next = "if find_min then if fst cur < fst acc then cur else acc
    else if fst cur > fst acc then cur else acc"
  obtain x where x: "pick find_min (?next # rest) = Some x" "x \<in> set (?next # rest)"
    "\<forall>y \<in> set (?next # rest). if find_min then fst x \<le> fst y else fst y \<le> fst x"
    using 3 by blast
  have next_bound: "if find_min then fst x \<le> fst ?next else fst ?next \<le> fst x"
    by (rule bspec [OF x(3)]) simp
  have "?next \<in> {acc, cur}" by simp
  then have "x \<in> set (acc # cur # rest)" using x(2) by auto
  moreover have "\<forall>y \<in> set (acc # cur # rest). if find_min then fst x \<le> fst y else fst y \<le> fst x"
    using x(3) next_bound by (cases find_min) (auto split: if_splits)
  ultimately show ?case using x(1) by (intro exI [of _ x]) simp
qed simp_all

lemma numbered_iff:
  "(n, dir) \<in> set (numbered label dirs) \<longleftrightarrow>
     dir \<in> set dirs \<and> (\<exists>rest. strip_prefix label dir = Some rest \<and> parse_u32 rest = Some n)"
  by (force simp: numbered_def map_filter_def image_iff split: option.splits)

lemma parse_show_nat02: "n < 100 \<Longrightarrow> parse_u32 (show_nat02 n) = Some n"
proof -
  assume "n < 100"
  have digits: "list_all is_ascii_digit (show_nat02 n)"
    using show_nat_digits [of n] by (simp add: show_nat02_def is_ascii_digit_def less_eq_char_def)
  have "read_digits (show_nat02 n) = Some n"
    using digits foldl_show_nat [of n] by (auto simp: read_digits_def show_nat02_def digit_value_def)
  moreover have "show_nat02 n \<noteq> CHR ''+'' # s" for s
    using digits by (auto simp: is_ascii_digit_def less_eq_char_def)
  ultimately show ?thesis
    using \<open>n < 100\<close> by (auto simp: parse_u32_def split: list.split)
qed

section \<open>The extent of the stored events\<close>

abbreviation date_dir :: "(date \<Rightarrow> string) \<Rightarrow> datetime \<Rightarrow> string" where
  "date_dir sd t \<equiv> ''date='' @ sd (date_naive t)"

abbreviation hour_dir :: "datetime \<Rightarrow> string" where
  "hour_dir t \<equiv> ''hour='' @ show_nat02 (hour_of t)"

abbreviation minute_dir :: "datetime \<Rightarrow> string" where
  "minute_dir t \<equiv> ''minute='' @ show_nat02 (minute_of t)"

text \<open>The directories are those of the files of events at some times, one file name for a minute, beside
  others that are no dates.\<close>

definition holds_events :: "extent_env \<Rightarrow> (date \<Rightarrow> string) \<Rightarrow> datetime set \<Rightarrow> bool" where
  "holds_events env sd ts \<longleftrightarrow>
     (\<exists>ds. dates_of env = Inr ds \<and> {d \<in> set ds. prefix ''date='' d} = date_dir sd ` ts) \<and>
     (\<forall>t \<in> ts. \<exists>hs. hours_of env (date_dir sd t) = Inr hs \<and>
        set hs = hour_dir ` {u \<in> ts. date_naive u = date_naive t}) \<and>
     (\<forall>t \<in> ts. \<exists>ms. minutes_dirs env (date_dir sd t) (hour_dir t) = Inr ms \<and>
        set ms = minute_dir ` {u \<in> ts. date_naive u = date_naive t \<and> hour_of u = hour_of t}) \<and>
     (\<forall>t \<in> ts. parse_date env (sd (date_naive t)) = Some (date_naive t))"

lemma strip_prefix_append [simp]: "strip_prefix p (p @ s) = Some s"
  by (simp add: strip_prefix_def)

lemma numbered_dirs:
  assumes "set dirs = (\<lambda>t. label @ show_nat02 (f t)) ` us" and "\<forall>t \<in> us. f t < 100"
  shows "(n, dir) \<in> set (numbered label dirs) \<longleftrightarrow> (\<exists>t \<in> us. n = f t \<and> dir = label @ show_nat02 (f t))"
  unfolding numbered_iff assms(1) using assms(2) parse_show_nat02 by fastforce

lemma clock_time_fields: "clock_time (date_naive t) (hour_of t) (minute_of t) = minutes_of t * nanos_per_minute"
  using hour_less [of t] minute_less [of t]
  by (simp add: clock_time_def minutes_of_fields nanos_defs)

lemma pick_dirs:
  assumes "set dirs = (\<lambda>t. label @ show_nat02 (f t)) ` us" and "\<forall>t \<in> us. f t < 100" and "us \<noteq> {}"
  shows "dirs \<noteq> [] \<and> (\<exists>t \<in> us. pick find_min (numbered label dirs) = Some (f t, label @ show_nat02 (f t)) \<and>
    (\<forall>u \<in> us. if find_min then f t \<le> f u else f u \<le> f t))"
proof -
  obtain u where u: "u \<in> us" using assms(3) by blast
  then have "(f u, label @ show_nat02 (f u)) \<in> set (numbered label dirs)"
    using numbered_dirs [OF assms(1,2)] by blast
  then have "numbered label dirs \<noteq> []" by auto
  then obtain x where x: "pick find_min (numbered label dirs) = Some x" "x \<in> set (numbered label dirs)"
    "\<forall>y \<in> set (numbered label dirs). if find_min then fst x \<le> fst y else fst y \<le> fst x"
    using pick_some by blast
  then obtain t where t: "t \<in> us" "x = (f t, label @ show_nat02 (f t))"
    using numbered_dirs [OF assms(1,2), of "fst x" "snd x"] by (auto simp: prod_eq_iff)
  have "if find_min then f t \<le> f v else f v \<le> f t" if "v \<in> us" for v
  proof -
    have "(f v, label @ show_nat02 (f v)) \<in> set (numbered label dirs)"
      using numbered_dirs [OF assms(1,2)] that by blast
    then show ?thesis using x(3) t(2) by fastforce
  qed
  moreover have "dirs \<noteq> []" using assms(1) u by auto
  ultimately show ?thesis using x(1) t by blast
qed

lemma extract_extreme:
  assumes "holds_events env sd ts" and "t0 \<in> ts"
  shows "\<exists>t \<in> ts. date_naive t = date_naive t0 \<and>
    extract_timestamp_for_date env (date_dir sd t0) find_min = Inr (Some (minutes_of t * nanos_per_minute)) \<and>
    (\<forall>u \<in> ts. date_naive u = date_naive t0 \<longrightarrow>
       (if find_min then minutes_of t \<le> minutes_of u else minutes_of u \<le> minutes_of t))"
proof -
  let ?day = "{u \<in> ts. date_naive u = date_naive t0}"
  have h100: "\<forall>t \<in> us. hour_of t < 100" "\<forall>t \<in> us. minute_of t < 100" for us
    by (auto intro: less_trans [OF hour_less] less_trans [OF minute_less])
  obtain hs where hs: "hours_of env (date_dir sd t0) = Inr hs" "set hs = hour_dir ` ?day"
    using assms unfolding holds_events_def by blast
  have "?day \<noteq> {}" using assms(2) by blast
  from pick_dirs [OF hs(2) h100(1) this, of find_min] obtain t1 where t1: "hs \<noteq> []" "t1 \<in> ?day"
    "pick find_min (numbered ''hour='' hs) = Some (hour_of t1, hour_dir t1)"
    "\<forall>u \<in> ?day. if find_min then hour_of t1 \<le> hour_of u else hour_of u \<le> hour_of t1" by blast
  let ?hour = "{u \<in> ts. date_naive u = date_naive t1 \<and> hour_of u = hour_of t1}"
  have same: "date_naive t1 = date_naive t0" "t1 \<in> ts" using t1(2) by auto
  obtain ms where ms: "minutes_dirs env (date_dir sd t1) (hour_dir t1) = Inr ms" "set ms = minute_dir ` ?hour"
    using assms(1) same(2) unfolding holds_events_def by blast
  have "?hour \<noteq> {}" using same(2) by blast
  from pick_dirs [OF ms(2) h100(2) this, of find_min] obtain t where t: "ms \<noteq> []" "t \<in> ?hour"
    "pick find_min (numbered ''minute='' ms) = Some (minute_of t, minute_dir t)"
    "\<forall>u \<in> ?hour. if find_min then minute_of t \<le> minute_of u else minute_of u \<le> minute_of t" by blast
  have day: "parse_date env (sd (date_naive t0)) = Some (date_naive t0)"
    using assms unfolding holds_events_def by blast
  have fields: "t \<in> ts" "date_naive t = date_naive t0" "hour_of t = hour_of t1" using t(2) same(1) by auto
  have "extract_timestamp_for_date env (date_dir sd t0) find_min = Inr (Some (minutes_of t * nanos_per_minute))"
    using hs(1) t1(1,3) ms(1) t(1,3) day fields same(1) clock_time_fields [of t]
    by (simp add: extract_timestamp_for_date_def listing_def del: append_Cons)
  moreover have "if find_min then minutes_of t \<le> minutes_of u else minutes_of u \<le> minutes_of t"
    if u: "u \<in> ts" "date_naive u = date_naive t0" for u
  proof -
    have "if find_min then hour_of t \<le> hour_of u else hour_of u \<le> hour_of t"
      using t1(4) u fields(3) by simp
    moreover have "hour_of u = hour_of t \<Longrightarrow> if find_min then minute_of t \<le> minute_of u else minute_of u \<le> minute_of t"
      using t(4) u same(1) fields(3) by simp
    moreover have "minute_of u < 60" "minute_of t < 60" by (simp_all add: minute_less)
    ultimately show ?thesis
      unfolding minutes_of_fields [of t] minutes_of_fields [of u] fields(2) u(2)
      by (cases "hour_of u = hour_of t") (auto split: if_splits)
  qed
  ultimately show ?thesis using fields(1,2) by blast
qed

lemma parsed_dates_set:
  assumes "holds_events env sd ts" and "dates_of env = Inr ds"
  shows "set (parsed_dates env ds) = (\<lambda>t. (date_naive t, date_dir sd t)) ` ts"
proof -
  have dirs: "{d \<in> set ds. prefix ''date='' d} = date_dir sd ` ts"
    and parse: "\<forall>t \<in> ts. parse_date env (sd (date_naive t)) = Some (date_naive t)"
    using assms unfolding holds_events_def by auto
  have entry: "(n, dir) \<in> set (parsed_dates env ds) \<longleftrightarrow>
      dir \<in> set ds \<and> (\<exists>part. strip_prefix ''date='' dir = Some part \<and> parse_date env part = Some n)" for n dir
    by (force simp: parsed_dates_def map_filter_def image_iff split: option.splits)
  have "(n, dir) \<in> set (parsed_dates env ds) \<longleftrightarrow> (\<exists>t \<in> ts. n = date_naive t \<and> dir = date_dir sd t)" for n dir
  proof
    assume "(n, dir) \<in> set (parsed_dates env ds)"
    then obtain part where part: "dir \<in> set ds" "strip_prefix ''date='' dir = Some part" "parse_date env part = Some n"
      unfolding entry by blast
    then have "dir \<in> date_dir sd ` ts" unfolding dirs [symmetric] by (auto simp: strip_prefix_def split: if_splits)
    then obtain t where t: "t \<in> ts" "dir = date_dir sd t" by blast
    then have "part = sd (date_naive t)" using part(2) strip_prefix_append [of "''date=''" "sd (date_naive t)"] by simp
    then show "\<exists>t \<in> ts. n = date_naive t \<and> dir = date_dir sd t" using t part(3) parse by auto
  next
    assume "\<exists>t \<in> ts. n = date_naive t \<and> dir = date_dir sd t"
    then obtain t where t: "t \<in> ts" "n = date_naive t" "dir = date_dir sd t" by blast
    then have "dir \<in> set ds" using dirs by blast
    moreover have "strip_prefix ''date='' dir = Some (sd (date_naive t))" unfolding t(3) by (rule strip_prefix_append)
    ultimately show "(n, dir) \<in> set (parsed_dates env ds)" unfolding entry using t parse by blast
  qed
  then show ?thesis by (auto simp del: append_Cons)
qed

lemma within_minute: "minutes_of t * nanos_per_minute \<le> t" "t < minutes_of t * nanos_per_minute + nanos_per_minute"
proof -
  have "t = minutes_of t * nanos_per_minute + t mod nanos_per_minute" by (simp add: minutes_of_def)
  moreover have "0 \<le> t mod nanos_per_minute" "t mod nanos_per_minute < nanos_per_minute"
    by (simp_all add: nanos_defs)
  ultimately show "minutes_of t * nanos_per_minute \<le> t" "t < minutes_of t * nanos_per_minute + nanos_per_minute"
    by linarith+
qed

lemma minutes_of_date_less: "date_naive s < date_naive t \<Longrightarrow> minutes_of s < minutes_of t"
  using hour_less [of s] minute_less [of s] unfolding minutes_of_fields by linarith

lemma list_with_element: "x \<in> set xs \<Longrightarrow> xs \<noteq> []"
  by auto

lemma sorted_last_greatest: "sorted (map fst xs) \<Longrightarrow> x \<in> set xs \<Longrightarrow> fst x \<le> fst (last xs)"
  by (induction xs) auto

lemma sorted_hd_least: "sorted (map fst xs) \<Longrightarrow> x \<in> set xs \<Longrightarrow> fst (hd xs) \<le> fst x"
  by (cases xs) auto

text \<open>C27: The times derived from the directories enclose every stored event, to the minute: the first is
  the minute of a stored event and no event is before it, and no event is after the minute of the
  latest.\<close>

theorem extent_encloses_events:
  assumes "holds_events env sd ts" and "ts \<noteq> {}"
  shows "\<exists>t0 \<in> ts. \<exists>t1 \<in> ts. get_first_and_latest_event_from_storage env =
      Inr (Some (minutes_of t0 * nanos_per_minute), Some (minutes_of t1 * nanos_per_minute)) \<and>
    (\<forall>u \<in> ts. minutes_of t0 * nanos_per_minute \<le> u \<and> u < minutes_of t1 * nanos_per_minute + nanos_per_minute)"
proof -
  obtain ds where ds: "dates_of env = Inr ds"
    using assms(1) [unfolded holds_events_def, THEN conjunct1] by blast
  let ?sorted = "sort_key fst (parsed_dates env ds)"
  have entries: "set ?sorted = (\<lambda>t. (date_naive t, date_dir sd t)) ` ts"
    unfolding set_sort by (rule parsed_dates_set [OF assms(1) ds])
  obtain t where "t \<in> ts" using assms(2) by blast
  then have "(date_naive t, date_dir sd t) \<in> set ?sorted" unfolding entries by (rule imageI)
  then have ne: "?sorted \<noteq> []" by (rule list_with_element)
  have sorted: "sorted (map fst ?sorted)" by simp
  have first: "fst (hd ?sorted) \<le> fst x" if "x \<in> set ?sorted" for x
    by (rule sorted_hd_least [OF sorted that])
  have latest: "fst x \<le> fst (last ?sorted)" if "x \<in> set ?sorted" for x
    by (rule sorted_last_greatest [OF sorted that])
  obtain a where a: "a \<in> ts" "hd ?sorted = (date_naive a, date_dir sd a)"
    using hd_in_set [OF ne] unfolding entries by (rule imageE) simp
  obtain b where b: "b \<in> ts" "last ?sorted = (date_naive b, date_dir sd b)"
    using last_in_set [OF ne] unfolding entries by (rule imageE) simp
  have days: "date_naive a \<le> date_naive u" "date_naive u \<le> date_naive b" if "u \<in> ts" for u
  proof -
    have mem: "(date_naive u, date_dir sd u) \<in> set ?sorted" unfolding entries using that by blast
    show "date_naive a \<le> date_naive u" using first [OF mem] a(2) by simp
    show "date_naive u \<le> date_naive b" using latest [OF mem] b(2) by simp
  qed
  obtain t0 where t0: "t0 \<in> ts" "date_naive t0 = date_naive a"
    "extract_timestamp_for_date env (date_dir sd a) True = Inr (Some (minutes_of t0 * nanos_per_minute))"
    "\<forall>u \<in> ts. date_naive u = date_naive a \<longrightarrow> minutes_of t0 \<le> minutes_of u"
    using extract_extreme [OF assms(1) a(1), of True] by auto
  obtain t1 where t1: "t1 \<in> ts" "date_naive t1 = date_naive b"
    "extract_timestamp_for_date env (date_dir sd b) False = Inr (Some (minutes_of t1 * nanos_per_minute))"
    "\<forall>u \<in> ts. date_naive u = date_naive b \<longrightarrow> minutes_of u \<le> minutes_of t1"
    using extract_extreme [OF assms(1) b(1), of False] by auto
  have "get_first_and_latest_event_from_storage env =
      Inr (Some (minutes_of t0 * nanos_per_minute), Some (minutes_of t1 * nanos_per_minute))"
    using ds ne a(2) b(2) t0(3) t1(3)
    by (simp add: get_first_and_latest_event_from_storage_def listing_def Let_def del: append_Cons)
  moreover have "minutes_of t0 \<le> minutes_of u" "minutes_of u \<le> minutes_of t1" if "u \<in> ts" for u
    using days [OF that] t0(2,4) t1(2,4) that minutes_of_date_less [of t0 u] minutes_of_date_less [of u t1]
    by (auto simp: order_le_less)
  then have "minutes_of t0 * nanos_per_minute \<le> u \<and> u < minutes_of t1 * nanos_per_minute + nanos_per_minute"
    if "u \<in> ts" for u
  proof -
    have "minutes_of t0 * nanos_per_minute \<le> minutes_of u * nanos_per_minute"
      "minutes_of u * nanos_per_minute \<le> minutes_of t1 * nanos_per_minute"
      using \<open>\<And>u. u \<in> ts \<Longrightarrow> minutes_of t0 \<le> minutes_of u\<close> \<open>\<And>u. u \<in> ts \<Longrightarrow> minutes_of u \<le> minutes_of t1\<close> that
      by (simp_all add: mult_right_mono nanos_defs)
    then show ?thesis using within_minute [of u] by linarith
  qed
  ultimately show ?thesis using t0(1) t1(1) by blast
qed

definition sample_extent :: extent_env where
  "sample_extent =
     \<lparr>dates_of = Inr [''.stream'', ''date=d''], hours_of = (\<lambda>_. Inr [''hour=01'', ''hour=00'']),
      minutes_dirs = (\<lambda>_ h. Inr (if h = ''hour=00'' then [''minute=05''] else [''minute=07''])),
      parse_date = (\<lambda>s. if s = ''d'' then Some 0 else None)\<rparr>"

theorem extent_encloses_events_witness:
  "\<exists>a b. get_first_and_latest_event_from_storage sample_extent = Inr (Some a, Some b) \<and>
     a \<le> 5 * nanos_per_minute + 3 \<and> 67 * nanos_per_minute < b + nanos_per_minute"
proof -
  let ?ts = "{5 * nanos_per_minute + 3, 67 * nanos_per_minute}"
  have minutes: "minutes_of (5 * nanos_per_minute + 3) = 5" "minutes_of (67 * nanos_per_minute) = 67"
    by (simp_all add: minutes_of_def nanos_defs)
  then have fields: "date_naive (5 * nanos_per_minute + 3) = 0" "date_naive (67 * nanos_per_minute) = 0"
    "hour_of (5 * nanos_per_minute + 3) = 0" "hour_of (67 * nanos_per_minute) = 1"
    "minute_of (5 * nanos_per_minute + 3) = 5" "minute_of (67 * nanos_per_minute) = 7"
    by (simp_all add: date_naive_def hour_of_def minute_of_def)
  have shown: "show_nat02 0 = ''00''" "show_nat02 1 = ''01''" "show_nat02 5 = ''05''" "show_nat02 7 = ''07''"
    "show_nat02 (Suc 0) = ''01''"
    by code_simp+
  have "{u \<in> ?ts. date_naive u = 0} = ?ts" using fields by auto
  moreover have "{u \<in> ?ts. date_naive u = 0 \<and> hour_of u = 0} = {5 * nanos_per_minute + 3}"
    "{u \<in> ?ts. date_naive u = 0 \<and> hour_of u = 1} = {67 * nanos_per_minute}" using fields by auto
  moreover have "{d \<in> {''.stream'', ''date=d''}. prefix ''date='' d} = {''date=d''}" by auto
  ultimately have "holds_events sample_extent (\<lambda>_. ''d'') ?ts"
    unfolding holds_events_def by (simp add: fields shown sample_extent_def insert_commute)
  from extent_encloses_events [OF this] show ?thesis by auto
qed

end
