(* ===== verification/Middleware.thy ===== *)
theory Middleware
  imports Access
begin

text \<open>
  \<open>src/handlers/http/middleware.rs\<close> and \<open>src/utils/actix.rs\<close>: the layers every request of the
  HTTP interface passes before its handler. The authorisation layer reads the credentials, asks
  \<open>authorize\<close>, and renews or ends a session that has expired.
\<close>

section \<open>Requests and credentials\<close>

text \<open>The first value of each header, the parameters matched in the path, and the cookies.\<close>

record http_request =
  hr_method :: string
  hr_path :: string
  hr_headers :: "(string \<times> string) list"
  hr_params :: "(string \<times> string) list"
  hr_cookies :: "(string \<times> string) list"

datatype http_error =
    Error_unauthorized string
  | Error_forbidden string
  | Error_unprocessable string
  | Error_bad_request string

record message =
  ms_authorization :: string
  x_p_stream :: string

text \<open>
  What the layers take from libraries: the basic credentials of a request's \<open>Authorization\<close>
  header, the session id a cookie spells, serde's reading of Kinesis' common attributes, and the
  header values that are text or may become one.
\<close>

record web_env =
  web_auth :: auth_env
  basic_credentials :: "string \<Rightarrow> (string \<times> string option) option"
  ulid_of :: "string \<Rightarrow> 128 word option"
  message_of :: "string \<Rightarrow> message option"
  is_header_text :: "string \<Rightarrow> bool"
  is_header_value :: "string \<Rightarrow> bool"

definition extract_session_key :: "web_env \<Rightarrow> http_request \<Rightarrow> http_error + session_key" where
  "extract_session_key w req =
     (case Option.bind (map_of (hr_headers req) ''authorization'') (basic_credentials w) of
        Some (username, password) \<Rightarrow>
          Inr (BasicAuth (trim username) (trim (case password of None \<Rightarrow> [] | Some p \<Rightarrow> p)))
      | None \<Rightarrow>
          (case map_of (hr_cookies req) ''session'' of
             Some cookie \<Rightarrow>
               (case ulid_of w cookie of
                  None \<Rightarrow> Inl (Error_unprocessable ''Cookie is tampered with or invalid'')
                | Some ulid \<Rightarrow> Inr (SessionId ulid))
           | None \<Rightarrow> Inl (Error_unauthorized ''No authentication method supplied'')))"

definition get_user_from_request :: "web_env \<Rightarrow> http_request \<Rightarrow> access \<Rightarrow> rbac_error + string" where
  "get_user_from_request w req st =
     (case extract_session_key w req of
        Inl _ \<Rightarrow> Inl UserDoesNotExist
      | Inr key \<Rightarrow>
          (case get_userid (sessions_of st) key of
             None \<Rightarrow> Inl UserDoesNotExist
           | Some user_id \<Rightarrow> Inr user_id))"

text \<open>Kinesis Firehose sends its credentials and stream in a header of its own. \<open>None\<close> is the
  panic of one of the \<open>unwrap\<close>s.\<close>

definition kinesis_headers :: "web_env \<Rightarrow> http_request \<Rightarrow> http_request option" where
  "kinesis_headers w req =
     (case map_of (hr_headers req) ''x-amz-firehose-common-attributes'' of
        None \<Rightarrow> Some req
      | Some v \<Rightarrow>
          if \<not> is_header_text w v then None
          else (case message_of w v of
                  None \<Rightarrow> None
                | Some m \<Rightarrow>
                    if is_header_value w (ms_authorization m) \<and> is_header_value w (x_p_stream m)
                    then Some (req\<lparr>hr_headers :=
                           AList.update ''x-p-log-source'' ''kinesis''
                             (AList.update ''x-p-stream'' (x_p_stream m)
                               (AList.update ''authorization'' (ms_authorization m) (hr_headers req)))\<rparr>)
                    else None))"

section \<open>What a route is authorised on\<close>

type_synonym auth_method =
  "web_env \<Rightarrow> http_request \<Rightarrow> action \<Rightarrow> access \<Rightarrow> (access \<times> (http_error + response)) option"

definition decide ::
  "web_env \<Rightarrow> http_error + session_key \<Rightarrow> action \<Rightarrow> string option \<Rightarrow> string option \<Rightarrow> access
   \<Rightarrow> (access \<times> (http_error + response)) option"
where
  "decide w creds action context_resource context_user st =
     (case creds of
        Inl e \<Rightarrow> Some (st, Inl e)
      | Inr key \<Rightarrow>
          (case authorize (web_auth w) key action context_resource context_user st of
             (st', Some res) \<Rightarrow> Some (st', Inr res)
           | (_, None) \<Rightarrow> None))"

definition auth_no_context :: auth_method where
  "auth_no_context w req action st = decide w (extract_session_key w req) action None None st"

definition auth_resource_context :: auth_method where
  "auth_resource_context w req action st =
     (let creds = extract_session_key w req in
      case map_of (hr_params req) ''usergroup'' of
        Some usergroup \<Rightarrow> decide w creds action (Some usergroup) None st
      | None \<Rightarrow>
          (case map_of (hr_params req) ''llmid'' of
             Some llmid \<Rightarrow> decide w creds action (Some llmid) None st
           | None \<Rightarrow>
               (case map_of (hr_params req) ''logstream'' of
                  Some stream \<Rightarrow> decide w creds action (Some stream) None st
                | None \<Rightarrow>
                    (case map_of (hr_headers req) ''x-p-stream'' of
                       None \<Rightarrow> decide w creds action None None st
                     | Some v \<Rightarrow>
                         if is_header_text w v then decide w creds action (Some v) None st
                         else None))))"

definition auth_user_context :: auth_method where
  "auth_user_context w req action st =
     decide w (extract_session_key w req) action None (map_of (hr_params req) ''username'') st"

section \<open>The authorisation layer\<close>

text \<open>
  \<open>AuthMiddleware::call\<close> decides when the request arrives; what it returns is polled later. The
  first part leaves this behind for the second.
\<close>

record pending =
  auth_result :: "http_error + response"
  pd_key :: "http_error + session_key"
  pd_userid :: "rbac_error + string"
  pd_request :: http_request

definition auth_call ::
  "web_env \<Rightarrow> auth_method \<Rightarrow> action \<Rightarrow> http_request \<Rightarrow> access \<Rightarrow> (access \<times> pending) option" where
  "auth_call w auth_method action req st =
     (case kinesis_headers w req of
        None \<Rightarrow> None
      | Some req' \<Rightarrow>
          (case auth_method w req' action st of
             None \<Rightarrow> None
           | Some (st', res) \<Rightarrow>
               Some (st', \<lparr>auth_result = res, pd_key = extract_session_key w req',
                           pd_userid = get_user_from_request w req' st', pd_request = req'\<rparr>)))"

definition session_over :: http_error where
  "session_over = Error_unauthorized
     ''Your session has expired or is no longer valid. Please re-authenticate to access this resource.''"

definition no_permission :: http_error where
  "no_permission = Error_forbidden
     (''You don'' @ [CHR 39] @ ''t have permission to access this resource. '' @
      ''Please contact your administrator for assistance.'')"

text \<open>The last step: \<open>Inr\<close> is the request the handler gets.\<close>

definition answer :: "pending \<Rightarrow> http_error + http_request" where
  "answer p =
     (case auth_result p of
        Inl e \<Rightarrow> Inl e
      | Inr UnAuthorized \<Rightarrow> Inl no_permission
      | Inr ReloadRequired \<Rightarrow> Inl session_over
      | Inr Authorized \<Rightarrow> Inr (pd_request p))"

definition EXPIRY_DURATION :: int where
  "EXPIRY_DURATION = nanos_per_hour"

text \<open>How long a bearer token says it lives, a \<open>u64\<close> of seconds.\<close>

definition bearer_lifetime :: "64 word option \<Rightarrow> int" where
  "bearer_lifetime expires_in =
     (case expires_in of
        None \<Rightarrow> EXPIRY_DURATION
      | Some n \<Rightarrow>
          if n > ucast (- 1 :: 32 word) then EXPIRY_DURATION
          else uint (ucast n :: 32 word) * nanos_per_second)"

definition bearer_to_refresh :: "access \<Rightarrow> string \<Rightarrow> oauth option" where
  "bearer_to_refresh st uid =
     (case map_of (users_of st) uid of
        None \<Rightarrow> None
      | Some u \<Rightarrow>
          (case user_ty u of
             OAuth a \<Rightarrow> if oauth_bearer a \<noteq> None then Some a else None
           | Native _ \<Rightarrow> None))"

definition renew :: "datetime \<Rightarrow> string \<Rightarrow> session_key \<Rightarrow> int \<Rightarrow> string list \<Rightarrow> access \<Rightarrow> access" where
  "renew now uid key lifetime roles st =
     st\<lparr>sessions_of := track_new now uid key (now + lifetime)
          (roles_to_permission (dir_roles (directory st)) roles) (sessions_of st)\<rparr>"

text \<open>Polled: the request is settled, or waits for the provider to refresh the user's token.\<close>

datatype poll = Settled "http_error + http_request" | Refreshing oauth string session_key

definition auth_poll :: "bool \<Rightarrow> datetime \<Rightarrow> pending \<Rightarrow> access \<Rightarrow> access \<times> poll" where
  "auth_poll oidc_configured now p st =
     (case pd_key p of
        Inl _ \<Rightarrow> (st, Settled (Inl session_over))
      | Inr key \<Rightarrow>
          if is_session_expired now (sessions_of st) key
          then (if oidc_configured
                then (case pd_userid p of
                        Inl _ \<Rightarrow> (st, Settled (answer p))
                      | Inr uid \<Rightarrow>
                          (case bearer_to_refresh st uid of
                             Some a \<Rightarrow> (st, Refreshing a uid key)
                           | None \<Rightarrow>
                               (case map_of (users_of st) uid of
                                  None \<Rightarrow> (st, Settled (answer p))
                                | Some u \<Rightarrow>
                                    (renew now uid key EXPIRY_DURATION (user_roles u) st,
                                     Settled (answer p)))))
                else (st, Settled (answer p)))
          else (st, Settled (answer p)))"

text \<open>The provider has answered: \<open>None\<close> when the refresh failed.\<close>

definition auth_refreshed ::
  "(bearer \<Rightarrow> 64 word option) \<Rightarrow> datetime \<Rightarrow> bearer option \<Rightarrow> pending \<Rightarrow> string \<Rightarrow> session_key \<Rightarrow> access
   \<Rightarrow> access \<times> (http_error + http_request)"
where
  "auth_refreshed expires_in now refreshed_token p uid key st =
     (case refreshed_token of
        None \<Rightarrow> (st\<lparr>sessions_of := fst (remove_session key (sessions_of st))\<rparr>, Inl session_over)
      | Some b \<Rightarrow>
          (case map_of (users_of st) uid of
             None \<Rightarrow> (st, Inl session_over)
           | Some u \<Rightarrow>
               let u' = (case user_ty u of
                           OAuth a \<Rightarrow> u\<lparr>user_ty := OAuth (a\<lparr>oauth_bearer := Some b\<rparr>)\<rparr>
                         | Native _ \<Rightarrow> u);
                   st1 = set_users (AList.update uid u' (users_of st)) st
               in (renew now uid key (bearer_lifetime (expires_in b)) (user_roles u') st1, answer p)))"

text \<open>A request that nothing else comes between. The provider, when one is configured, is asked
  to refresh a token.\<close>

record oidc_client =
  refresh_token :: "oauth \<Rightarrow> bearer option"
  token_expires_in :: "bearer \<Rightarrow> 64 word option"

definition auth_layer ::
  "web_env \<Rightarrow> oidc_client option \<Rightarrow> datetime \<Rightarrow> auth_method \<Rightarrow> action \<Rightarrow> http_request \<Rightarrow> access
   \<Rightarrow> (access \<times> (http_error + http_request)) option"
where
  "auth_layer w client now auth_method action req st =
     (case auth_call w auth_method action req st of
        None \<Rightarrow> None
      | Some (st1, p) \<Rightarrow>
          Some (case auth_poll (client \<noteq> None) now p st1 of
                  (st2, Settled res) \<Rightarrow> (st2, res)
                | (st2, Refreshing a uid key) \<Rightarrow>
                    auth_refreshed (token_expires_in (the client)) now (refresh_token (the client) a) p uid key st2))"

section \<open>The other layers\<close>

text \<open>\<open>DisAllowRootUser\<close>: the user the options name is not managed over HTTP.\<close>

definition disallow_root_user :: "string \<Rightarrow> http_request \<Rightarrow> http_error + http_request" where
  "disallow_root_user admin req =
     (let username = (case map_of (hr_params req) ''username'' of None \<Rightarrow> [] | Some n \<Rightarrow> n) in
      if username = admin then Inl (Error_bad_request ''Cannot call this API for root admin user'')
      else Inr req)"

datatype mode = Mode_query | Mode_ingest | Mode_index | Mode_prism | Mode_all

definition mode_filter :: "mode \<Rightarrow> http_request \<Rightarrow> http_error + http_request" where
  "mode_filter mode req =
     (let parts = split_on CHR ''/'' (hr_path req) in
      case mode of
        Mode_query \<Rightarrow>
          if ''ingest'' \<in> set parts
          then Inl (Error_unauthorized ''Ingestion API cannot be accessed in Query Mode'')
          else if \<not> (''logstream'' \<in> set parts \<and> hr_method req = ''GET'')
          then Inl (Error_unauthorized ''Logstream cannot be changed in Query Mode'')
          else Inr req
      | Mode_ingest \<Rightarrow>
          if \<not> list_ex (\<lambda>x. x \<in> set [''ingest'', ''logstream'', ''liveness'', ''readiness'']) parts
          then Inl (Error_unauthorized ''Only Ingestion API can be accessed in Ingest Mode'')
          else Inr req
      | _ \<Rightarrow> Inr req)"

section \<open>What passes the authorisation layer\<close>

lemma decide_Some:
  "decide w creds a cr cu st = Some (st', Inr r) \<longleftrightarrow>
     (\<exists>key. creds = Inr key \<and> authorize (web_auth w) key a cr cu st = (st', Some r))"
  by (auto simp: decide_def split: sum.splits option.splits prod.splits)

lemma answer_Inr: "answer p = Inr req \<longleftrightarrow> auth_result p = Inr Authorized \<and> req = pd_request p"
  by (auto simp: answer_def split: sum.splits response.splits)

lemma auth_refreshed_Inr: "snd (auth_refreshed f now b p uid key st) = Inr req \<Longrightarrow> answer p = Inr req"
  by (auto simp: auth_refreshed_def Let_def split: option.splits)

lemma auth_poll_Inr: "snd (auth_poll c now p st) = Settled (Inr req) \<Longrightarrow> answer p = Inr req"
  by (auto simp: auth_poll_def split: sum.splits if_splits option.splits)

lemma auth_layer_Inr:
  assumes "auth_layer w client now m a req st = Some (st', Inr req')"
  obtains st1 where "kinesis_headers w req = Some req'" and "m w req' a st = Some (st1, Inr Authorized)"
proof -
  obtain st1 p where call: "auth_call w m a req st = Some (st1, p)"
    using assms by (auto simp: auth_layer_def split: option.splits)
  then have "answer p = Inr req'"
    using assms auth_poll_Inr [of "client \<noteq> None" now p st1]
      auth_refreshed_Inr [of _ now _ p]
    by (auto simp: auth_layer_def split: prod.splits poll.splits) (metis snd_conv)+
  with call that show thesis by (auto simp: auth_call_def answer_Inr split: option.splits)
qed

lemma authorize_Authorized:
  assumes "authorize env key a cr cu st = (st', Some Authorized)"
  shows "\<exists>uid. get_userid (sessions_of st') key = Some uid \<and>
    list_ex (grants (directory st) uid a cr cu) (get_permissions st' key)"
proof -
  have "check_auth (directory st') (sessions_of st') key a cr cu = Some Authorized"
    using assms by (auto simp: authorize_def Let_def split: option.splits session_key.splits user_type.splits if_splits)
  moreover have dir: "directory st = directory st'"
    using assms by (auto simp: authorize_def Let_def split: option.splits session_key.splits user_type.splits if_splits)
  ultimately show ?thesis
    unfolding dir by (auto simp: check_auth_def get_permissions_def session_permissions_def get_userid_def
      aggregate_group_permissions_def get_user_groups_def users_of_def Let_def
      split: option.splits prod.splits if_splits)
qed

text \<open>Who is let in: a session that was there, or a native user with the right password.\<close>

lemma authorize_who:
  assumes "authorize env key a cr cu st = (st', Some Authorized)" and "get_userid (sessions_of st') key = Some uid"
  shows "st' = st \<and> get_userid (sessions_of st) key = Some uid \<or>
    (\<exists>pw u b. key = BasicAuth uid pw \<and> get_userid (sessions_of st) key = None \<and> map_of (users_of st) uid = Some u \<and>
       user_ty u = Native b \<and> verify env (password_hash b) pw \<and>
       sessions_of st' = track_new (auth_now env) uid key (max_utc env)
         (roles_to_permission (dir_roles (directory st)) (user_roles u)) (sessions_of st))"
proof (cases "check_auth (directory st) (sessions_of st) key a cr cu")
  case (Some r)
  with assms show ?thesis by (simp add: authorize_def)
next
  case None
  then have none: "get_userid (sessions_of st) key = None" by (simp add: check_auth_def get_userid_def)
  with None assms show ?thesis
    by (auto simp: authorize_def Let_def get_userid_def active_track_new
        split: session_key.splits option.splits user_type.splits if_splits)
qed

section \<open>Expired sessions\<close>

text \<open>A request with a session cookie and nothing else.\<close>

definition cookie_request :: "web_env \<Rightarrow> 128 word \<Rightarrow> http_request \<Rightarrow> bool" where
  "cookie_request w ulid req \<longleftrightarrow>
     map_of (hr_headers req) ''x-amz-firehose-common-attributes'' = None \<and>
     extract_session_key w req = Inr (SessionId ulid)"

lemma known_call:
  assumes "cookie_request w i req" and "check_auth (directory st) (sessions_of st) (SessionId i) a None None = Some r"
    and "get_userid (sessions_of st) (SessionId i) = Some uid"
  shows "auth_call w auth_no_context a req st =
    Some (st, \<lparr>auth_result = Inr r, pd_key = Inr (SessionId i), pd_userid = Inr uid, pd_request = req\<rparr>)"
  using assms by (simp add: cookie_request_def auth_call_def kinesis_headers_def auth_no_context_def decide_def
      authorize_def get_user_from_request_def)

lemma track_new_stays_expired:
  assumes "is_session_expired now s key" and "get_userid s key = Some uid" and "now \<le> t"
  shows "is_session_expired t (track_new now uid key expiry perms s) key"
proof -
  have expired_iff: "is_session_expired t s key \<longleftrightarrow>
      (\<exists>uid. get_userid s key = Some uid \<and> (\<exists>e. (key, e) \<in> set (tracked s uid) \<and> e < t))" for t s
    by (auto simp: is_session_expired_def get_userid_def tracked_def list_ex_iff split: option.splits)
  obtain e where "(key, e) \<in> set (tracked s uid)" "e < now"
    using assms(1,2) unfolding expired_iff by auto
  then show ?thesis using assms(3) unfolding expired_iff
    by (auto simp: get_userid_def active_track_new tracked_track_new intro!: exI [of _ e])
qed


text \<open>Authorisation read off the outcome of a whole request.\<close>

lemma no_context_admitted:
  assumes "auth_layer w client now auth_no_context a req st = Some (st', Inr req')"
  shows "\<exists>key st1. kinesis_headers w req = Some req' \<and> extract_session_key w req' = Inr key \<and>
    authorize (web_auth w) key a None None st = (st1, Some Authorized)"
  using assms by (elim auth_layer_Inr) (auto simp: auth_no_context_def decide_Some)

section \<open>Properties\<close>

text \<open>The resource a route authorised with \<open>authorize_for_resource\<close> names: the group, model or
  stream of its path, and without any the stream of its header.\<close>

definition resource_of :: "http_request \<Rightarrow> string option" where
  "resource_of req =
     (case filter (\<lambda>v. v \<noteq> None)
             [map_of (hr_params req) ''usergroup'', map_of (hr_params req) ''llmid'',
              map_of (hr_params req) ''logstream'', map_of (hr_headers req) ''x-p-stream''] of
        [] \<Rightarrow> None
      | r # _ \<Rightarrow> r)"

lemma resource_context_decides:
  "auth_resource_context w req a st = Some res \<Longrightarrow>
   decide w (extract_session_key w req) a (resource_of req) None st = Some res"
  by (auto simp: auth_resource_context_def resource_of_def Let_def split: option.splits if_splits)

text \<open>C21: A request reaches the handler behind \<open>authorize_for_resource\<close> only when the
  credentials it carries (those of Kinesis' own header, where it has one) are the key of a
  session that was there before, or are no session's key but the name of a native user with a
  password that the stored hash of the user verifies, and then they start a session of that user
  with the permissions of its roles. And one of the permissions of the session, or of the groups
  of its user, grants the route's action on the resource that the request names.\<close>

theorem resource_handler_reached:
  assumes "auth_layer w client now auth_resource_context a req st = Some (st', Inr req')"
  shows "\<exists>key st1 uid. kinesis_headers w req = Some req' \<and> extract_session_key w req' = Inr key \<and>
    authorize (web_auth w) key a (resource_of req') None st = (st1, Some Authorized) \<and>
    (st1 = st \<and> get_userid (sessions_of st) key = Some uid \<or>
     (\<exists>pw u b. key = BasicAuth uid pw \<and> get_userid (sessions_of st) key = None \<and>
        map_of (users_of st) uid = Some u \<and> user_ty u = Native b \<and> verify (web_auth w) (password_hash b) pw \<and>
        sessions_of st1 = track_new (auth_now (web_auth w)) uid key (max_utc (web_auth w))
          (roles_to_permission (dir_roles (directory st)) (user_roles u)) (sessions_of st))) \<and>
    list_ex (grants (directory st) uid a (resource_of req') None) (get_permissions st1 key)"
proof -
  obtain st1 where k: "kinesis_headers w req = Some req'"
    and m: "auth_resource_context w req' a st = Some (st1, Inr Authorized)"
    using assms by (elim auth_layer_Inr)
  from resource_context_decides [OF m] obtain key where key: "extract_session_key w req' = Inr key"
    and auth: "authorize (web_auth w) key a (resource_of req') None st = (st1, Some Authorized)"
    unfolding decide_Some by auto
  obtain uid where uid: "get_userid (sessions_of st1) key = Some uid"
    "list_ex (grants (directory st) uid a (resource_of req') None) (get_permissions st1 key)"
    using authorize_Authorized [OF auth] by blast
  show ?thesis using k key auth authorize_who [OF auth uid(1)] uid(2) by blast
qed

text \<open>Where no identity provider is configured a session does not expire: a request that its
  permissions admit reaches the handler at every instant, however long the expiry has passed.\<close>

theorem expiry_not_enforced:
  assumes "cookie_request w i req"
    and "check_auth (directory st) (sessions_of st) (SessionId i) a None None = Some Authorized"
  shows "auth_layer w None now auth_no_context a req st = Some (st, Inr req)"
proof -
  obtain uid where "get_userid (sessions_of st) (SessionId i) = Some uid"
    using assms(2) by (auto simp: check_auth_def get_userid_def)
  then show ?thesis using known_call [OF assms]
    by (simp add: auth_layer_def auth_poll_def answer_def)
qed

lemma renew_views:
  "directory (renew now uid key l rs st) = directory st"
  "users_of (renew now uid key l rs st) = users_of st"
  "sessions_of (renew now uid key l rs st) = track_new now uid key (now + l)
     (roles_to_permission (dir_roles (directory st)) rs) (sessions_of st)"
  by (simp_all add: renew_def users_of_def)

text \<open>C22: Renewing a session does not make it live again, since its expired entry stays beside
  the new one: after the provider has refreshed the token and the request was let through, the
  session is expired at every later instant, and the next request asks the provider once more.\<close>

theorem renewed_session_stays_expired:
  assumes req: "cookie_request w i req"
    and known: "get_userid (sessions_of st) (SessionId i) = Some uid"
    and auth: "check_auth (directory st) (sessions_of st) (SessionId i) a None None = Some Authorized"
    and user: "map_of (users_of st) uid = Some u" "user_ty u = OAuth ob" "oauth_bearer ob = Some b0"
    and expired: "is_session_expired now (sessions_of st) (SessionId i)"
    and fresh: "refresh_token c ob = Some b" and later: "now \<le> t"
  shows "\<exists>st' p. auth_layer w (Some c) now auth_no_context a req st = Some (st', Inr req) \<and>
    (SessionId i, now + bearer_lifetime (token_expires_in c b)) \<in> set (tracked (sessions_of st') uid) \<and>
    is_session_expired t (sessions_of st') (SessionId i) \<and>
    auth_call w auth_no_context a req st' = Some (st', p) \<and>
    auth_poll True t p st' = (st', Refreshing (ob\<lparr>oauth_bearer := Some b\<rparr>) uid (SessionId i))"
proof -
  let ?u = "u\<lparr>user_ty := OAuth (ob\<lparr>oauth_bearer := Some b\<rparr>)\<rparr>"
  let ?st = "renew now uid (SessionId i) (bearer_lifetime (token_expires_in c b)) (user_roles ?u)
    (set_users (AList.update uid ?u (users_of st)) st)"
  have users: "map_of (users_of ?st) uid = Some ?u"
    by (simp add: renew_views users_of_def set_users_def update_conv')
  have sess: "is_session_expired t (sessions_of ?st) (SessionId i)"
    using track_new_stays_expired [OF expired known later]
    by (simp add: renew_views set_users_def)
  have uid: "get_userid (sessions_of ?st) (SessionId i) = Some uid"
    by (simp add: renew_views get_userid_def active_track_new)
  then obtain r where "check_auth (directory ?st) (sessions_of ?st) (SessionId i) a None None = Some r"
    by (auto simp: check_auth_def get_userid_def)
  note again = known_call [OF req this uid]
  have "auth_layer w (Some c) now auth_no_context a req st = Some (?st, Inr req)"
    using known_call [OF req auth known] expired user fresh
    by (simp add: auth_layer_def auth_poll_def bearer_to_refresh_def auth_refreshed_def answer_def)
  moreover have "(SessionId i, now + bearer_lifetime (token_expires_in c b)) \<in> set (tracked (sessions_of ?st) uid)"
    by (simp add: renew_views tracked_track_new)
  ultimately show ?thesis using again sess users
    by (auto simp: auth_poll_def bearer_to_refresh_def intro!: exI [of _ ?st])
qed

text \<open>When the provider refuses the refresh the request is answered with an error and the
  session is gone: the same cookie must log in again.\<close>

theorem failed_refresh_ends_session:
  assumes req: "cookie_request w i req"
    and known: "get_userid (sessions_of st) (SessionId i) = Some uid"
    and user: "map_of (users_of st) uid = Some u" "user_ty u = OAuth ob" "oauth_bearer ob = Some b0"
    and expired: "is_session_expired now (sessions_of st) (SessionId i)"
    and refused: "refresh_token c ob = None"
  shows "\<exists>st'. auth_layer w (Some c) now auth_no_context a req st = Some (st', Inl session_over) \<and>
    get_userid (sessions_of st') (SessionId i) = None \<and>
    auth_layer w client t auth_no_context a' req st' = Some (st', Inl session_over)"
proof -
  let ?st = "st\<lparr>sessions_of := fst (remove_session (SessionId i) (sessions_of st))\<rparr>"
  obtain r where r: "check_auth (directory st) (sessions_of st) (SessionId i) a None None = Some r"
    using known by (auto simp: check_auth_def get_userid_def)
  have gone: "map_of (active_sessions (sessions_of ?st)) (SessionId i) = None"
    by (simp add: active_remove_session)
  have "auth_layer w (Some c) now auth_no_context a req st = Some (?st, Inl session_over)"
    using known_call [OF req r known] expired user refused
    by (simp add: auth_layer_def auth_poll_def bearer_to_refresh_def auth_refreshed_def)
  moreover have "auth_layer w client t auth_no_context a' req ?st = Some (?st, Inl session_over)"
    using req gone
    by (simp add: cookie_request_def auth_layer_def auth_call_def kinesis_headers_def auth_no_context_def
        decide_def authorize_def check_auth_def get_user_from_request_def get_userid_def auth_poll_def
        is_session_expired_def answer_def)
  ultimately show ?thesis using gone by (auto simp: get_userid_def)
qed

section \<open>Witnesses\<close>

definition plain_web :: web_env where
  "plain_web =
     \<lparr>web_auth = \<lparr>auth_now = 0, max_utc = 10 ^ 30, verify = (\<lambda>h p. h = p)\<rparr>,
      basic_credentials = (\<lambda>v. if v = ''Basic bob'' then Some (''bob'', Some '' pw '') else None),
      ulid_of = (\<lambda>v. if v = ''7'' then Some 7 else None), message_of = (\<lambda>_. None),
      is_header_text = (\<lambda>_. True), is_header_value = (\<lambda>_. True)\<rparr>"

definition bob_directory :: "user \<Rightarrow> directory" where
  "bob_directory u =
     \<lparr>dir_users = [(''bob'', u)], dir_groups = [], dir_roles = [(''admin'', [Admin])], dir_streams = []\<rparr>"

definition bob_native :: user where
  "bob_native = \<lparr>user_ty = Native \<lparr>basic_username = ''bob'', password_hash = ''pw''\<rparr>,
     user_roles = [''admin''], user_groups = []\<rparr>"

definition bob_oauth :: oauth where
  "bob_oauth = \<lparr>oauth_userid = ''bob'', oauth_info = \<lparr>ui_sub = Some ''bob'', ui_name = None,
     ui_preferred_username = None, ui_picture = None, ui_email = None, ui_gender = None,
     ui_updated_at = None\<rparr>, oauth_bearer = None\<rparr>"

definition bob_user :: "bearer \<Rightarrow> user" where
  "bob_user b = \<lparr>user_ty = OAuth (bob_oauth\<lparr>oauth_bearer := Some b\<rparr>), user_roles = [''admin''],
     user_groups = []\<rparr>"

text \<open>Bob's session 7 expired at the instant 100.\<close>

definition bob_access :: "user \<Rightarrow> access" where
  "bob_access u =
     \<lparr>directory = bob_directory u,
      sessions_of = track_new 0 ''bob'' (SessionId 7) 100 [Unit_permission Login] no_sessions,
      default_role = None\<rparr>"

definition cookie_7 :: http_request where
  "cookie_7 = \<lparr>hr_method = ''GET'', hr_path = ''/api/v1/x'', hr_headers = [], hr_params = [],
     hr_cookies = [(''session'', ''7'')]\<rparr>"

lemma bob_cookie: "cookie_request plain_web 7 cookie_7"
  by (simp add: cookie_request_def cookie_7_def extract_session_key_def plain_web_def)

lemma bob_known: "get_userid (sessions_of (bob_access u)) (SessionId 7) = Some ''bob''"
  by (simp add: bob_access_def get_userid_def active_track_new)

lemma bob_authorized:
  "check_auth (directory (bob_access u)) (sessions_of (bob_access u)) (SessionId 7) Login None None = Some Authorized"
  by (simp add: bob_access_def check_auth_def active_track_new)

lemma bob_expired: "is_session_expired 200 (sessions_of (bob_access u)) (SessionId 7)"
  by (simp add: bob_access_def is_session_expired_def track_new_def remove_expired_session_def no_sessions_def)

definition bob_ingest :: http_request where
  "bob_ingest = \<lparr>hr_method = ''POST'', hr_path = ''/api/v1/logstream/web'',
     hr_headers = [(''authorization'', ''Basic bob'')], hr_params = [(''logstream'', ''web'')], hr_cookies = []\<rparr>"

lemma bob_ingest_runs:
  "map_option snd (auth_layer plain_web None 5 auth_resource_context Ingest bob_ingest
     \<lparr>directory = bob_directory bob_native, sessions_of = no_sessions, default_role = None\<rparr>) =
   Some (Inr bob_ingest)"
  by code_simp

definition native_access :: access where
  "native_access = \<lparr>directory = bob_directory bob_native, sessions_of = no_sessions, default_role = None\<rparr>"

theorem resource_handler_reached_witness:
  "\<exists>key st1 uid. extract_session_key plain_web bob_ingest = Inr key \<and>
     authorize (web_auth plain_web) key Ingest (Some ''web'') None native_access = (st1, Some Authorized) \<and>
     list_ex (grants (bob_directory bob_native) uid Ingest (Some ''web'') None) (get_permissions st1 key)"
proof -
  have r: "resource_of bob_ingest = Some ''web''" by (simp add: resource_of_def bob_ingest_def)
  from bob_ingest_runs obtain st' where
    "auth_layer plain_web None 5 auth_resource_context Ingest bob_ingest native_access = Some (st', Inr bob_ingest)"
    unfolding native_access_def by (auto simp: map_option_eq_Some)
  from resource_handler_reached [OF this] obtain key st1 uid where
    "extract_session_key plain_web bob_ingest = Inr key"
    "authorize (web_auth plain_web) key Ingest (Some ''web'') None native_access = (st1, Some Authorized)"
    "list_ex (grants (directory native_access) uid Ingest (Some ''web'') None) (get_permissions st1 key)"
    unfolding r by blast
  then show ?thesis by (auto simp: native_access_def)
qed

theorem expiry_not_enforced_witness:
  "is_session_expired 200 (sessions_of (bob_access bob_native)) (SessionId 7) \<and>
   auth_layer plain_web None 200 auth_no_context Login cookie_7 (bob_access bob_native) =
     Some (bob_access bob_native, Inr cookie_7)"
  using bob_expired expiry_not_enforced [OF bob_cookie bob_authorized] by simp

theorem renewed_session_stays_expired_witness:
  "\<forall>b. \<exists>st' p. auth_layer plain_web (Some \<lparr>refresh_token = (\<lambda>_. Some b), token_expires_in = (\<lambda>_. Some 3600)\<rparr>)
      200 auth_no_context Login cookie_7 (bob_access (bob_user b)) = Some (st', Inr cookie_7) \<and>
    is_session_expired 300 (sessions_of st') (SessionId 7) \<and>
    auth_call plain_web auth_no_context Login cookie_7 st' = Some (st', p) \<and>
    auth_poll True 300 p st' = (st', Refreshing (bob_oauth\<lparr>oauth_bearer := Some b\<rparr>) ''bob'' (SessionId 7))"
proof
  fix b
  have "map_of (users_of (bob_access (bob_user b))) ''bob'' = Some (bob_user b)"
    by (simp add: bob_access_def bob_directory_def users_of_def)
  from renewed_session_stays_expired [OF bob_cookie bob_known bob_authorized this _ _ bob_expired,
      of "bob_oauth\<lparr>oauth_bearer := Some b\<rparr>" b
        "\<lparr>refresh_token = (\<lambda>_. Some b), token_expires_in = (\<lambda>_. Some 3600)\<rparr>" b 300]
  show "\<exists>st' p. auth_layer plain_web (Some \<lparr>refresh_token = (\<lambda>_. Some b), token_expires_in = (\<lambda>_. Some 3600)\<rparr>)
      200 auth_no_context Login cookie_7 (bob_access (bob_user b)) = Some (st', Inr cookie_7) \<and>
    is_session_expired 300 (sessions_of st') (SessionId 7) \<and>
    auth_call plain_web auth_no_context Login cookie_7 st' = Some (st', p) \<and>
    auth_poll True 300 p st' = (st', Refreshing (bob_oauth\<lparr>oauth_bearer := Some b\<rparr>) ''bob'' (SessionId 7))"
    by (auto simp: bob_user_def bob_oauth_def)
qed

theorem failed_refresh_ends_session_witness:
  "\<forall>b. \<exists>st'. auth_layer plain_web (Some \<lparr>refresh_token = (\<lambda>_. None), token_expires_in = (\<lambda>_. None)\<rparr>)
      200 auth_no_context Login cookie_7 (bob_access (bob_user b)) = Some (st', Inl session_over) \<and>
    get_userid (sessions_of st') (SessionId 7) = None"
proof
  fix b
  have "map_of (users_of (bob_access (bob_user b))) ''bob'' = Some (bob_user b)"
    by (simp add: bob_access_def bob_directory_def users_of_def)
  from failed_refresh_ends_session [OF bob_cookie bob_known this _ _ bob_expired,
      of "bob_oauth\<lparr>oauth_bearer := Some b\<rparr>" b
        "\<lparr>refresh_token = (\<lambda>_. None), token_expires_in = (\<lambda>_. None)\<rparr>" Login None 0 Login]
  show "\<exists>st'. auth_layer plain_web (Some \<lparr>refresh_token = (\<lambda>_. None), token_expires_in = (\<lambda>_. None)\<rparr>)
      200 auth_no_context Login cookie_7 (bob_access (bob_user b)) = Some (st', Inl session_over) \<and>
    get_userid (sessions_of st') (SessionId 7) = None"
    by (auto simp: bob_user_def bob_oauth_def)
qed

end
