(* ===== verification/Oidc_Login.thy ===== *)
theory Oidc_Login
  imports Middleware Rbac_Handlers
begin

text \<open>
  \<open>src/handlers/http/oidc.rs\<close>: logging in and out, with basic credentials and with an identity
  provider. A provider's login creates or updates the user in the metadata kept in storage and in
  memory, and starts a session for it.
\<close>

section \<open>Redirects and cookies\<close>

record cookie =
  ck_name :: string
  ck_value :: string

text \<open>Where a handler sends the browser; how the \<open>url\<close> and \<open>openid\<close> crates spell the address is
  left out.\<close>

datatype reply =
    To_client string "cookie list"
  | To_provider string string
  | To_provider_logout string string
  | No_oauth_setup string
  | Unauthorized_reply

datatype oidc_error =
    Oidc_object_storage
  | Oidc_serde
  | Oidc_bad_request string
  | Oidc_unauthorized

text \<open>\<open>replace\<close> takes the first match of \<open>^(https?://)\<close> away.\<close>

definition is_valid_redirect_url :: "string \<Rightarrow> string \<Rightarrow> bool" where
  "is_valid_redirect_url base_url_without_scheme redirect_url \<longleftrightarrow>
     base_url_without_scheme =
       (case strip_prefix ''http://'' redirect_url of
          Some rest \<Rightarrow> rest
        | None \<Rightarrow> (case strip_prefix ''https://'' redirect_url of Some rest \<Rightarrow> rest | None \<Rightarrow> redirect_url))"

definition cookie_session :: "(128 word \<Rightarrow> string) \<Rightarrow> 128 word \<Rightarrow> cookie" where
  "cookie_session ulid_text i = \<lparr>ck_name = ''session'', ck_value = ulid_text i\<rparr>"

definition cookie_username :: "string \<Rightarrow> cookie" where
  "cookie_username username = \<lparr>ck_name = ''username'', ck_value = username\<rparr>"

definition cookie_userid :: "string \<Rightarrow> cookie" where
  "cookie_userid user_id = \<lparr>ck_name = ''user_id'', ck_value = user_id\<rparr>"

section \<open>Login and logout\<close>

text \<open>\<open>ulid\<close> is the session id \<open>Ulid::new\<close> draws and \<open>ulid_text\<close> its spelling; \<open>None\<close> is a panic
  of \<open>authorize\<close>.\<close>

definition login ::
  "web_env \<Rightarrow> (128 word \<Rightarrow> string) \<Rightarrow> string \<Rightarrow> bool \<Rightarrow> string \<Rightarrow> 128 word \<Rightarrow> string \<Rightarrow> http_request \<Rightarrow> access
   \<Rightarrow> (access \<times> (oidc_error + reply)) option"
where
  "login w ulid_text host oidc_configured scope ulid redirect req st =
     (if \<not> is_valid_redirect_url (host @ ''/'') redirect
      then Some (st, Inl (Oidc_bad_request ''Bad Request, Invalid Redirect URL!''))
      else case extract_session_key w req of
        Inl _ \<Rightarrow>
          Some (st, Inr (if oidc_configured then To_provider redirect scope else No_oauth_setup redirect))
      | Inr key \<Rightarrow>
          (case authorize (web_auth w) key Login None None st of
             (_, None) \<Rightarrow> None
           | (st1, Some Authorized) \<Rightarrow>
               Some (case key of
                  BasicAuth username password \<Rightarrow>
                    (case map_of (users_of st1) username of
                       None \<Rightarrow> (st1, Inl (Oidc_bad_request ''Bad Request''))
                     | Some u \<Rightarrow>
                         (case user_ty u of
                            OAuth _ \<Rightarrow> (st1, Inl (Oidc_bad_request ''Bad Request''))
                          | Native b \<Rightarrow>
                              if verify (web_auth w) (password_hash b) password
                              then (exchange_basic_for_cookie (auth_now (web_auth w)) ulid u
                                      (BasicAuth username password) EXPIRY_DURATION st1,
                                    Inr (To_client redirect
                                      [cookie_username username, cookie_userid username,
                                       cookie_session ulid_text ulid]))
                              else (st1, Inl (Oidc_bad_request ''Bad Request''))))
                | SessionId i \<Rightarrow>
                    if session_exists st1 (SessionId i) then (st1, Inr (To_client redirect []))
                    else (st1\<lparr>sessions_of := fst (remove_session (SessionId i) (sessions_of st1))\<rparr>,
                          Inr (if oidc_configured then To_provider redirect scope
                               else To_client redirect [])))
           | (st1, Some _) \<Rightarrow> Some (st1, Inl Oidc_unauthorized)))"

text \<open>\<open>logout_endpoint\<close> is what the configured provider offers to end its own session.\<close>

definition logout ::
  "web_env \<Rightarrow> string option \<Rightarrow> string \<Rightarrow> http_request \<Rightarrow> access \<Rightarrow> access \<times> reply" where
  "logout w logout_endpoint redirect req st =
     (case extract_session_key w req of
        Inl _ \<Rightarrow> (st, To_client redirect [])
      | Inr session \<Rightarrow>
          (case remove_session session (sessions_of st) of
             (s, user) \<Rightarrow>
               (st\<lparr>sessions_of := s\<rparr>,
                case (user, logout_endpoint) of
                  (Some username, Some endpoint) \<Rightarrow>
                    (case map_of (users_of st) username of
                       Some u \<Rightarrow> if is_oauth u then To_provider_logout endpoint redirect else To_client redirect []
                     | None \<Rightarrow> To_client redirect [])
                | _ \<Rightarrow> To_client redirect [])))"

section \<open>The user of a provider's login\<close>

definition with_bearer :: "bearer \<Rightarrow> user \<Rightarrow> user" where
  "with_bearer b u =
     (case user_ty u of
        OAuth a \<Rightarrow> u\<lparr>user_ty := OAuth (a\<lparr>oauth_bearer := Some b\<rparr>)\<rparr>
      | Native _ \<Rightarrow> u)"

definition find_or_push :: "string \<Rightarrow> user \<Rightarrow> metadata \<Rightarrow> user \<times> metadata" where
  "find_or_push uid new md =
     (case stored_user md uid of
        Some u \<Rightarrow> (u, md)
      | None \<Rightarrow> (new, md\<lparr>md_users := md_users md @ [new]\<rparr>))"

definition oidc_put_user ::
  "io_outcome \<Rightarrow> string \<Rightarrow> string list \<Rightarrow> user_info \<Rightarrow> bearer \<Rightarrow> server \<Rightarrow> server \<times> (oidc_error + user)" where
  "oidc_put_user io uid roles info b srv =
     (case get_metadata Oidc_object_storage io srv of
        Inl e \<Rightarrow> (srv, Inl e)
      | Inr md \<Rightarrow>
          let (u, md') = find_or_push uid (new_oauth uid roles info None) md in
          (case store_then Oidc_object_storage io md' (put_user (with_bearer b u)) srv of
             (srv', Inl e) \<Rightarrow> (srv', Inl e)
           | (srv', Inr _) \<Rightarrow> (srv', Inr (with_bearer b u))))"

text \<open>The user takes the roles, the information and the subject the provider gives; the stored
  entry of the old name is replaced, and so are the references to it in the groups.\<close>

definition updated_user :: "oauth \<Rightarrow> string list \<Rightarrow> user_info \<Rightarrow> user \<Rightarrow> user" where
  "updated_user a roles info u =
     u\<lparr>user_ty := OAuth (a\<lparr>oauth_info := info,
          oauth_userid := (case ui_sub info of Some sub \<Rightarrow> sub | None \<Rightarrow> oauth_userid a)\<rparr>),
       user_roles := roles\<rparr>"

definition migrate_group :: "string \<Rightarrow> user \<Rightarrow> user_group \<Rightarrow> user_group" where
  "migrate_group old_username u g =
     g\<lparr>group_users :=
         extend_users (filter (\<lambda>x. gu_userid x \<noteq> old_username) (group_users g)) [from_user u]\<rparr>"

definition migrate_stored :: "string \<Rightarrow> user \<Rightarrow> metadata \<Rightarrow> metadata" where
  "migrate_stored old_username u md =
     (case update_first (\<lambda>x. userid x = old_username) (\<lambda>_. u) (md_users md) of
        None \<Rightarrow> md
      | Some us \<Rightarrow>
          md\<lparr>md_users := us,
             md_user_groups := map (migrate_group old_username u) (md_user_groups md)\<rparr>)"

text \<open>\<open>None\<close> is the \<open>unreachable!\<close> of a user that is not the provider's.\<close>

definition update_user_if_changed ::
  "io_outcome \<Rightarrow> user \<Rightarrow> string list \<Rightarrow> user_info \<Rightarrow> bearer \<Rightarrow> server
   \<Rightarrow> (server \<times> (oidc_error + user)) option"
where
  "update_user_if_changed io u roles info b srv =
     (case user_ty u of
        Native _ \<Rightarrow> None
      | OAuth a \<Rightarrow>
          let old_username = userid u;
              needs_userid_migration = (case ui_sub info of Some sub \<Rightarrow> oauth_userid a \<noteq> sub | None \<Rightarrow> False)
          in if set (user_roles u) = set roles \<and> oauth_info a = info \<and> \<not> needs_userid_migration \<and>
               oauth_bearer a = Some b
             then Some (srv, Inr u)
             else (let u1 = updated_user a roles info u in
               case get_metadata Oidc_object_storage io srv of
                 Inl e \<Rightarrow> Some (srv, Inl e)
               | Inr md \<Rightarrow>
                   (case store_then Oidc_object_storage io (migrate_stored old_username u1 md)
                           (\<lambda>st. put_user (with_bearer b u1) (delete_user old_username st)) srv of
                      (srv', Inl e) \<Rightarrow> Some (srv', Inl e)
                    | (srv', Inr _) \<Rightarrow> Some (srv', Inr (with_bearer b u1)))))"

section \<open>The provider's callback\<close>

text \<open>What the provider answers to the code of a login: the claim \<open>groups\<close>, who the user is, and
  the bearer token.\<close>

record token_answer =
  ta_groups :: "json option"
  ta_info :: user_info
  ta_bearer :: bearer

definition claimed_groups :: "json option \<Rightarrow> oidc_error + string list" where
  "claimed_groups groups =
     (case groups of
        None \<Rightarrow> Inr []
      | Some v \<Rightarrow> (case strings_of_json v of None \<Rightarrow> Inl Oidc_serde | Some names \<Rightarrow> Inr names))"

definition final_roles :: "user option \<Rightarrow> string list \<Rightarrow> string list \<Rightarrow> string list" where
  "final_roles existing valid_oidc_roles fallback =
     (let roles = (case existing of
            Some u \<Rightarrow> extend_names (user_roles u) valid_oidc_roles
          | None \<Rightarrow> if valid_oidc_roles = [] then fallback else valid_oidc_roles)
      in if roles = [] then fallback else roles)"

text \<open>The callback reads the metadata (\<open>io1\<close>), then creates or updates the user (\<open>io2\<close>). \<open>None\<close>
  is a panic: a provider that names its user in no way.\<close>

definition username_of_info :: "user_info \<Rightarrow> string option" where
  "username_of_info info =
     (case ui_name info of
        Some n \<Rightarrow> Some n
      | None \<Rightarrow> (case ui_email info of Some e \<Rightarrow> Some e | None \<Rightarrow> ui_sub info))"

definition login_user ::
  "io_outcome \<Rightarrow> string \<Rightarrow> string list \<Rightarrow> metadata \<Rightarrow> user_info \<Rightarrow> bearer \<Rightarrow> server
   \<Rightarrow> (server \<times> (oidc_error + user)) option"
where
  "login_user io user_id groups md info b srv =
     (let valid_oidc_roles = filter (\<lambda>r. r \<in> set groups) (map fst (md_roles md));
          fallback = (case default_role (srv_access srv) of None \<Rightarrow> [] | Some r \<Rightarrow> [r]);
          existing = find_existing_user (srv_access srv) info;
          roles = final_roles existing valid_oidc_roles fallback
      in (case existing of
            Some u \<Rightarrow> update_user_if_changed io u roles info b srv
          | None \<Rightarrow> Some (oidc_put_user io user_id roles info b srv)))"

definition reply_login ::
  "(128 word \<Rightarrow> string) \<Rightarrow> (bearer \<Rightarrow> 64 word option) \<Rightarrow> bool \<Rightarrow> string \<Rightarrow> io_outcome \<Rightarrow> io_outcome \<Rightarrow> datetime
   \<Rightarrow> 128 word \<Rightarrow> string option \<Rightarrow> token_answer option \<Rightarrow> server \<Rightarrow> (server \<times> (oidc_error + reply)) option"
where
  "reply_login ulid_text expires_in oidc_configured address io1 io2 now ulid state token srv =
     (if \<not> oidc_configured then Some (srv, Inl Oidc_unauthorized)
      else case token of
        None \<Rightarrow> Some (srv, Inr Unauthorized_reply)
      | Some ta \<Rightarrow>
     (case username_of_info (ta_info ta) of
        None \<Rightarrow> None
      | Some username \<Rightarrow>
     (case ui_sub (ta_info ta) of
        None \<Rightarrow> Some (srv, Inl Oidc_unauthorized)
      | Some user_id \<Rightarrow>
     (case claimed_groups (ta_groups ta) of
        Inl e \<Rightarrow> Some (srv, Inl e)
      | Inr groups \<Rightarrow>
     (case get_metadata Oidc_object_storage io1 srv of
        Inl e \<Rightarrow> Some (srv, Inl e)
      | Inr md \<Rightarrow>
     (case login_user io2 user_id groups md (ta_info ta) (ta_bearer ta) srv of
        None \<Rightarrow> None
      | Some (srv', Inl e) \<Rightarrow> Some (srv', Inl e)
      | Some (srv', Inr u) \<Rightarrow>
          Some (srv'\<lparr>srv_access := new_session now u (SessionId ulid)
                  (bearer_lifetime (expires_in (ta_bearer ta))) (srv_access srv')\<rparr>,
                Inr (To_client (case state of Some s \<Rightarrow> s | None \<Rightarrow> address)
                  [cookie_session ulid_text ulid, cookie_username username, cookie_userid user_id]))))))))"

section \<open>What a login leaves behind\<close>

lemma store_then_Inr:
  assumes "store_then e io md f srv = (srv', Inr x)"
  shows "srv_metadata srv' = md" and "srv_access srv' = f (srv_access srv)"
  using assms by (auto simp: store_then_def put_metadata_def split: put_outcome.splits)

lemma put_user_views:
  "map_of (users_of (put_user u st)) (userid u) = Some u"
  "dir_roles (directory (put_user u st)) = dir_roles (directory st)"
  by (simp_all add: put_user_def Let_def access_views insert_user_def update_conv')

lemma oidc_put_user_stored:
  assumes "oidc_put_user io uid roles info b srv = (srv', Inr u')"
  shows "map_of (users_of (srv_access srv')) (userid u') = Some u'"
    and "stored_user (srv_metadata srv) uid = Some v \<Longrightarrow> user_ty v = Native nb \<Longrightarrow> u' = v"
proof -
  obtain u md' where fp: "find_or_push uid (new_oauth uid roles info None) (srv_metadata srv) = (u, md')"
    by (cases "find_or_push uid (new_oauth uid roles info None) (srv_metadata srv)")
  have store: "store_then Oidc_object_storage io md' (put_user (with_bearer b u)) srv = (srv', Inr ())"
    and u': "u' = with_bearer b u"
    using assms fp by (auto simp: oidc_put_user_def get_metadata_def split: if_splits prod.splits sum.splits)
  show "map_of (users_of (srv_access srv')) (userid u') = Some u'"
    by (simp add: store_then_Inr(2) [OF store] put_user_views u')
  show "u' = v" if "stored_user (srv_metadata srv) uid = Some v" and "user_ty v = Native nb"
    using fp that by (auto simp: u' find_or_push_def with_bearer_def)
qed

lemma update_changed:
  assumes run: "update_user_if_changed io u roles info b srv = Some (srv', Inr u')" and ty: "user_ty u = OAuth a"
    and bearer: "oauth_info a \<noteq> info \<or> oauth_bearer a \<noteq> Some b"
  shows "u' = with_bearer b (updated_user a roles info u)"
    and "srv_access srv' = put_user u' (delete_user (userid u) (srv_access srv))"
    and "srv_metadata srv' = migrate_stored (userid u) (updated_user a roles info u) (srv_metadata srv)"
proof -
  have store: "store_then Oidc_object_storage io
        (migrate_stored (userid u) (updated_user a roles info u) (srv_metadata srv))
        (\<lambda>st. put_user (with_bearer b (updated_user a roles info u)) (delete_user (userid u) st)) srv =
        (srv', Inr ())"
    and u': "u' = with_bearer b (updated_user a roles info u)"
    using run ty bearer
    by (auto simp: update_user_if_changed_def get_metadata_def Let_def split: if_splits prod.splits sum.splits)
  show "u' = with_bearer b (updated_user a roles info u)"
    and "srv_access srv' = put_user u' (delete_user (userid u) (srv_access srv))"
    and "srv_metadata srv' = migrate_stored (userid u) (updated_user a roles info u) (srv_metadata srv)"
    using store_then_Inr [OF store] by (simp_all add: u')
qed

lemma update_first_Some:
  "update_first P f xs = Some ys \<Longrightarrow> \<exists>x \<in> set xs. P x \<and> f x \<in> set ys"
  by (induction xs arbitrary: ys) (auto split: if_splits)

lemma userid_from_user: "gu_userid (from_user u) = userid u"
  by (simp add: from_user_def userid_def split: user_type.splits)

lemma userids_single [simp]: "userids [x] = [gu_userid x]"
  by (simp add: userids_def)

lemma userid_with_bearer [simp]: "userid (with_bearer b u) = userid u"
  by (simp add: with_bearer_def userid_def split: user_type.splits)

text \<open>A login that succeeds went through the creation or the update of its user.\<close>

lemma reply_login_run:
  assumes "reply_login ut ex c addr io1 io2 now ulid state (Some ta) srv = Some (srv', Inr r)"
  obtains u' srv1 uid groups md where "srv_metadata srv' = srv_metadata srv1"
    and "srv_access srv' = new_session now u' (SessionId ulid) (bearer_lifetime (ex (ta_bearer ta))) (srv_access srv1)"
    and "ui_sub (ta_info ta) = Some uid"
    and "login_user io2 uid groups md (ta_info ta) (ta_bearer ta) srv = Some (srv1, Inr u')"
  using assms by (auto simp: reply_login_def split: if_splits option.splits sum.splits prod.splits)

lemma new_session_views:
  "users_of (new_session now u key l st) = users_of st"
  "directory (new_session now u key l st) = directory st"
  "get_userid (sessions_of (new_session now u key l st)) key = Some (userid u)"
  "session_permissions (sessions_of (new_session now u key l st)) key =
     Some (roles_to_permission (dir_roles (directory st)) (user_roles u))"
  by (simp_all add: new_session_def users_of_def get_userid_def session_permissions_def active_track_new)

section \<open>Properties\<close>

text \<open>An unchanged user is returned as it is; any other is put in memory under its id, with the
  roles it is given.\<close>

lemma update_in_memory:
  assumes run: "update_user_if_changed io u roles info b srv = Some (srv', Inr u')"
    and known: "map_of (users_of (srv_access srv)) (userid u) = Some u"
  shows "map_of (users_of (srv_access srv')) (userid u') = Some u' \<and> set (user_roles u') = set roles"
proof (cases "user_ty u")
  case (OAuth a)
  show ?thesis
  proof (cases "set (user_roles u) = set roles \<and> oauth_info a = info \<and>
      \<not> (case ui_sub info of Some sub \<Rightarrow> oauth_userid a \<noteq> sub | None \<Rightarrow> False) \<and> oauth_bearer a = Some b")
    case True
    then have "srv' = srv \<and> u' = u" using run OAuth by (simp add: update_user_if_changed_def Let_def)
    then show ?thesis using known True by simp
  next
    case False
    let ?u1 = "updated_user a roles info u"
    have store: "store_then Oidc_object_storage io (migrate_stored (userid u) ?u1 (srv_metadata srv))
          (\<lambda>st. put_user (with_bearer b ?u1) (delete_user (userid u) st)) srv = (srv', Inr ())"
      and u': "u' = with_bearer b ?u1"
      using run OAuth False
      by (auto simp: update_user_if_changed_def get_metadata_def Let_def split: if_splits prod.splits sum.splits)
    have "user_roles u' = roles"
      by (simp add: u' with_bearer_def updated_user_def)
    then show ?thesis using store_then_Inr(2) [OF store] put_user_views(1) [of u']
      by (simp add: u')
  qed
qed (use run in \<open>simp add: update_user_if_changed_def\<close>)

lemma found_in_memory:
  assumes "find_existing_user st info = Some u" and "named_by userid (users_of st)"
  shows "map_of (users_of st) (userid u) = Some u"
proof -
  have "\<exists>n. map_of (users_of st) n = Some u"
    using assms(1) by (auto simp: find_existing_user_def get_oauth_user_def split: option.splits if_splits)
  then show ?thesis using named_by_map_of [OF assms(2)] by auto
qed

lemma extend_names_Nil: "extend_names s new = [] \<longleftrightarrow> s = [] \<and> new = []"
  by (metis Un_empty set_empty set_extend_names)

lemma final_roles_keep: "set (user_roles u) \<subseteq> set (final_roles (Some u) vs fb)"
  by (auto simp: final_roles_def Let_def extend_names_Nil)

text \<open>The stored roles that the provider's groups name, and the roles for a user who gets none.\<close>

definition claimed_roles :: "string list \<Rightarrow> metadata \<Rightarrow> string list" where
  "claimed_roles groups md = filter (\<lambda>n. n \<in> set groups) (map fst (md_roles md))"

definition fallback_roles :: "access \<Rightarrow> string list" where
  "fallback_roles st = (case default_role st of None \<Rightarrow> [] | Some n \<Rightarrow> [n])"

lemma reply_login_parts:
  assumes "reply_login ut ex c addr io1 io2 now ulid state (Some ta) srv = Some (srv', Inr r)"
  obtains u' srv1 sub name groups where
    "srv_access srv' = new_session now u' (SessionId ulid) (bearer_lifetime (ex (ta_bearer ta))) (srv_access srv1)"
    and "ui_sub (ta_info ta) = Some sub" and "username_of_info (ta_info ta) = Some name"
    and "claimed_groups (ta_groups ta) = Inr groups"
    and "login_user io2 sub groups (srv_metadata srv) (ta_info ta) (ta_bearer ta) srv = Some (srv1, Inr u')"
    and "r = To_client (case state of Some s \<Rightarrow> s | None \<Rightarrow> addr)
      [cookie_session ut ulid, cookie_username name, cookie_userid sub]"
  using assms by (auto simp: reply_login_def get_metadata_def split: if_splits option.splits sum.splits prod.splits)

lemma with_bearer_roles [simp]: "user_roles (with_bearer b u) = user_roles u"
  by (simp add: with_bearer_def split: user_type.splits)

lemma created_user_is_subject:
  assumes "oidc_put_user io sub roles info b srv = (srv', Inr u')" and "ui_sub info = Some sub"
  shows "userid u' = sub \<and> (stored_user (srv_metadata srv) sub = None \<longrightarrow> user_roles u' = roles)"
proof -
  obtain u md' where fp: "find_or_push sub (new_oauth sub roles info None) (srv_metadata srv) = (u, md')"
    by (cases "find_or_push sub (new_oauth sub roles info None) (srv_metadata srv)")
  have u': "u' = with_bearer b u"
    using assms(1) fp by (auto simp: oidc_put_user_def get_metadata_def split: if_splits prod.splits sum.splits)
  have "userid u = sub \<and> (stored_user (srv_metadata srv) sub = None \<longrightarrow> user_roles u = roles)"
  proof (cases "stored_user (srv_metadata srv) sub")
    case None
    then show ?thesis using fp assms(2) by (auto simp: find_or_push_def new_oauth_def userid_def)
  next
    case (Some v)
    then have "userid v = sub" by (auto simp: stored_user_def find_Some_iff)
    then show ?thesis using Some fp by (simp add: find_or_push_def)
  qed
  then show ?thesis by (simp add: u')
qed

lemma updated_user_is_subject:
  assumes run: "update_user_if_changed io u roles info b srv = Some (srv', Inr u')" and sub: "ui_sub info = Some sub"
  shows "userid u' = sub"
proof (cases "user_ty u")
  case (OAuth a)
  show ?thesis
  proof (cases "srv' = srv \<and> u' = u \<and> oauth_userid a = sub")
    case True
    then show ?thesis using OAuth by (simp add: userid_def)
  next
    case False
    then have "u' = with_bearer b (updated_user a roles info u)"
      using run OAuth sub
      by (auto simp: update_user_if_changed_def get_metadata_def Let_def split: if_splits prod.splits sum.splits)
    then show ?thesis using sub by (simp add: updated_user_def) (simp add: userid_def)
  qed
qed (use run in \<open>simp add: update_user_if_changed_def\<close>)

lemma set_final_roles:
  "set (final_roles (Some u) vs fb) = (if user_roles u = [] \<and> vs = [] then set fb else set (user_roles u) \<union> set vs)"
  by (simp add: final_roles_def Let_def extend_names_Nil)

lemma final_roles_new: "final_roles None vs fb = (if vs = [] then fb else vs)"
  by (simp add: final_roles_def Let_def)

text \<open>C23: Let a provider's login succeed, with every user in memory under its id. Then there is a
  user in memory whose id is the subject the provider claims; the session id in the cookie of
  the reply is a session of that user, with the permissions of its roles, and the other cookies
  name the same user. One who was found in memory has the roles it had and the stored roles that
  the claimed groups name (the default role when these are none), so that it keeps every role
  whatever the groups say now; one who is neither in memory nor in the stored metadata has the
  stored roles that the groups name, or else the default role.\<close>

theorem login_starts_session:
  assumes run: "reply_login ut ex c addr io1 io2 now ulid state (Some ta) srv = Some (srv', Inr r)"
    and named: "named_by userid (users_of (srv_access srv))"
  shows "\<exists>u' name groups. ui_sub (ta_info ta) = Some (userid u') \<and> username_of_info (ta_info ta) = Some name \<and>
    claimed_groups (ta_groups ta) = Inr groups \<and>
    r = To_client (case state of Some s \<Rightarrow> s | None \<Rightarrow> addr)
      [cookie_session ut ulid, cookie_username name, cookie_userid (userid u')] \<and>
    map_of (users_of (srv_access srv')) (userid u') = Some u' \<and>
    get_userid (sessions_of (srv_access srv')) (SessionId ulid) = Some (userid u') \<and>
    session_permissions (sessions_of (srv_access srv')) (SessionId ulid) =
      Some (roles_to_permission (dir_roles (dir_of srv')) (user_roles u')) \<and>
    (let claimed = claimed_roles groups (srv_metadata srv); fb = fallback_roles (srv_access srv) in
     case find_existing_user (srv_access srv) (ta_info ta) of
       Some u \<Rightarrow> set (user_roles u') = (if user_roles u = [] \<and> claimed = [] then set fb else set (user_roles u) \<union> set claimed)
     | None \<Rightarrow> stored_user (srv_metadata srv) (userid u') = None \<longrightarrow>
         user_roles u' = (if claimed = [] then fb else claimed))"
proof -
  obtain u' srv1 sub name groups where
    access: "srv_access srv' = new_session now u' (SessionId ulid) (bearer_lifetime (ex (ta_bearer ta))) (srv_access srv1)"
    and sub: "ui_sub (ta_info ta) = Some sub" and name: "username_of_info (ta_info ta) = Some name"
    and groups: "claimed_groups (ta_groups ta) = Inr groups"
    and login: "login_user io2 sub groups (srv_metadata srv) (ta_info ta) (ta_bearer ta) srv = Some (srv1, Inr u')"
    and r: "r = To_client (case state of Some s \<Rightarrow> s | None \<Rightarrow> addr)
      [cookie_session ut ulid, cookie_username name, cookie_userid sub]"
    using run by (rule reply_login_parts)
  let ?cl = "claimed_roles groups (srv_metadata srv)" and ?fb = "fallback_roles (srv_access srv)"
  have big: "userid u' = sub \<and> map_of (users_of (srv_access srv1)) (userid u') = Some u' \<and>
    (case find_existing_user (srv_access srv) (ta_info ta) of
       Some u \<Rightarrow> set (user_roles u') = (if user_roles u = [] \<and> ?cl = [] then set ?fb else set (user_roles u) \<union> set ?cl)
     | None \<Rightarrow> stored_user (srv_metadata srv) sub = None \<longrightarrow> user_roles u' = (if ?cl = [] then ?fb else ?cl))"
  proof (cases "find_existing_user (srv_access srv) (ta_info ta)")
    case None
    then have "oidc_put_user io2 sub (final_roles None ?cl ?fb) (ta_info ta) (ta_bearer ta) srv = (srv1, Inr u')"
      using login by (simp add: login_user_def Let_def claimed_roles_def fallback_roles_def)
    then show ?thesis using None oidc_put_user_stored(1) created_user_is_subject [OF _ sub] final_roles_new
      by fastforce
  next
    case (Some u)
    then have up: "update_user_if_changed io2 u (final_roles (Some u) ?cl ?fb) (ta_info ta) (ta_bearer ta) srv = Some (srv1, Inr u')"
      using login by (simp add: login_user_def Let_def claimed_roles_def fallback_roles_def)
    show ?thesis
      using Some update_in_memory [OF up found_in_memory [OF Some named]] updated_user_is_subject [OF up sub] set_final_roles [of u ?cl ?fb]
      by simp
  qed
  have u': "userid u' = sub" "map_of (users_of (srv_access srv1)) (userid u') = Some u'"
    using big by blast+
  note roles = big [THEN conjunct2, THEN conjunct2, folded u'(1)]
  have "map_of (users_of (srv_access srv')) (userid u') = Some u'"
    "get_userid (sessions_of (srv_access srv')) (SessionId ulid) = Some (userid u')"
    "session_permissions (sessions_of (srv_access srv')) (SessionId ulid) =
      Some (roles_to_permission (dir_roles (dir_of srv')) (user_roles u'))"
    using u'(2) by (simp_all add: access new_session_views dir_of_def)
  then show ?thesis using sub name groups r roles unfolding u'(1) [symmetric] Let_def by blast
qed

text \<open>C24: When a user of the provider logs in again with another token or with news of it, every user group kept in
  storage gets that user as a member, those it never was in too; and the token of its earlier
  login, which is otherwise kept in memory only, is stored with the user.\<close>

theorem login_joins_every_group:
  assumes run: "reply_login ut ex c addr io1 io2 now ulid state (Some ta) srv = Some (srv', Inr r)"
    and found: "find_existing_user (srv_access srv) (ta_info ta) = Some u"
    and ty: "user_ty u = OAuth a" and token: "oauth_bearer a = Some b0"
    and news: "oauth_info a \<noteq> ta_info ta \<or> b0 \<noteq> ta_bearer ta"
    and stored: "userid u \<in> userid ` set (md_users (srv_metadata srv))"
  shows "\<exists>uid. get_userid (sessions_of (srv_access srv')) (SessionId ulid) = Some uid \<and>
    (\<forall>g \<in> set (md_user_groups (srv_metadata srv')). uid \<in> set (userids (group_users g))) \<and>
    (\<exists>v a'. v \<in> set (md_users (srv_metadata srv')) \<and> userid v = uid \<and> user_ty v = OAuth a' \<and>
       oauth_bearer a' = Some b0)"
proof -
  obtain u' srv1 uid groups md where md: "srv_metadata srv' = srv_metadata srv1"
    and access: "srv_access srv' = new_session now u' (SessionId ulid) (bearer_lifetime (ex (ta_bearer ta))) (srv_access srv1)"
    and login: "login_user io2 uid groups md (ta_info ta) (ta_bearer ta) srv = Some (srv1, Inr u')"
    using run by (rule reply_login_run)
  from login found obtain roles where
    upd: "update_user_if_changed io2 u roles (ta_info ta) (ta_bearer ta) srv = Some (srv1, Inr u')"
    by (auto simp: login_user_def Let_def)
  let ?u1 = "updated_user a roles (ta_info ta) u"
  have "oauth_info a \<noteq> ta_info ta \<or> oauth_bearer a \<noteq> Some (ta_bearer ta)" using token news by simp
  note changed = update_changed [OF upd ty this]
  obtain us where us: "update_first (\<lambda>x. userid x = userid u) (\<lambda>_. ?u1) (md_users (srv_metadata srv)) = Some us"
    using stored update_first_None [of "\<lambda>x. userid x = userid u" "\<lambda>_. ?u1" "md_users (srv_metadata srv)"]
    by (cases "update_first (\<lambda>x. userid x = userid u) (\<lambda>_. ?u1) (md_users (srv_metadata srv))") auto
  have id: "userid u' = userid ?u1" by (simp add: changed(1))
  have "?u1 \<in> set us" using update_first_Some [OF us] by auto
  moreover obtain a' where "user_ty ?u1 = OAuth a'" "oauth_bearer a' = Some b0"
    by (simp add: updated_user_def token)
  moreover have "userid u' \<in> set (userids (group_users g))" if "g \<in> set (md_user_groups (srv_metadata srv'))" for g
    using that by (auto simp: md changed(3) migrate_stored_def us migrate_group_def id userid_from_user)
  ultimately show ?thesis
    by (auto simp: access new_session_views md changed(3) migrate_stored_def us id intro!: exI [of _ ?u1])
qed

text \<open>An identity whose subject is the name of a native user, and that no provider's user
  matches, is logged in as that native user: its session has the native user's id and roles.\<close>

theorem provider_login_as_native_user:
  assumes run: "reply_login ut ex c addr io1 io2 now ulid state (Some ta) srv = Some (srv', Inr r)"
    and none: "find_existing_user (srv_access srv) (ta_info ta) = None"
    and sub: "ui_sub (ta_info ta) = Some n"
    and native: "stored_user (srv_metadata srv) n = Some v" "user_ty v = Native nb"
  shows "get_userid (sessions_of (srv_access srv')) (SessionId ulid) = Some n \<and>
    session_permissions (sessions_of (srv_access srv')) (SessionId ulid) =
      Some (roles_to_permission (dir_roles (dir_of srv')) (user_roles v))"
proof -
  obtain u' srv1 uid groups md where
    access: "srv_access srv' = new_session now u' (SessionId ulid) (bearer_lifetime (ex (ta_bearer ta))) (srv_access srv1)"
    and uid: "ui_sub (ta_info ta) = Some uid"
    and login: "login_user io2 uid groups md (ta_info ta) (ta_bearer ta) srv = Some (srv1, Inr u')"
    using run by (rule reply_login_run)
  have "u' = v" using login none sub uid native oidc_put_user_stored(2)
    by (auto simp: login_user_def Let_def)
  moreover have "userid v = n" using native(1) by (auto simp: stored_user_def find_Some_iff)
  ultimately show ?thesis by (simp add: access new_session_views dir_of_def)
qed

section \<open>Witnesses\<close>

text \<open>Two servers: bob is the provider's user and in no group; ann is a native user.\<close>

definition staff :: user_group where
  "staff = \<lparr>group_name = ''staff'', group_roles = [''admin''], group_users = []\<rparr>"

definition bob_server :: "bearer \<Rightarrow> server" where
  "bob_server b =
     \<lparr>srv_access = bob_access (bob_user b),
      srv_metadata = \<lparr>md_users = [bob_user b\<lparr>user_ty := OAuth bob_oauth\<rparr>], md_user_groups = [staff],
        md_roles = [(''admin'', [Admin])], md_default_role = None\<rparr>\<rparr>"

definition good_storage :: io_outcome where
  "good_storage = \<lparr>get_ok = True, put_out = Stored\<rparr>"

definition answer_for :: "string \<Rightarrow> bearer \<Rightarrow> token_answer" where
  "answer_for sub b = \<lparr>ta_groups = None, ta_info = (oauth_info bob_oauth)\<lparr>ui_sub := Some sub\<rparr>, ta_bearer = b\<rparr>"

lemma bob_found: "find_existing_user (srv_access (bob_server b)) (ta_info (answer_for ''bob'' b')) = Some (bob_user b)"
  by (simp add: find_existing_user_def answer_for_def bob_oauth_def get_oauth_user_def bob_server_def bob_access_def
      users_of_def bob_directory_def is_oauth_def bob_user_def)

lemma bob_named: "named_by userid (users_of (srv_access (bob_server b)))"
  by (simp add: bob_server_def bob_access_def bob_directory_def users_of_def named_by_def
      userid_def bob_user_def bob_oauth_def)

lemma bob_logs_in:
  "\<exists>srv' r. reply_login (\<lambda>_. ''7'') (\<lambda>_. None) True ''localhost'' good_storage good_storage 200 8 None
     (Some (answer_for ''bob'' b')) (bob_server b) = Some (srv', Inr r)"
proof -
  have "\<exists>srv1 u'. login_user good_storage ''bob'' [] (srv_metadata (bob_server b)) (ta_info (answer_for ''bob'' b')) b'
      (bob_server b) = Some (srv1, Inr u')"
    by (simp add: login_user_def bob_found update_user_if_changed_def Let_def get_metadata_def good_storage_def
        store_then_def put_metadata_def bob_user_def)
  then show ?thesis
    by (auto simp: reply_login_def answer_for_def username_of_info_def bob_oauth_def claimed_groups_def get_metadata_def
        good_storage_def)
qed

theorem login_starts_session_witness:
  "\<forall>b. \<exists>srv' r u'. reply_login (\<lambda>_. ''7'') (\<lambda>_. None) True ''localhost'' good_storage good_storage 200 8
       None (Some (answer_for ''bob'' b)) (bob_server b) = Some (srv', Inr r) \<and>
     map_of (users_of (srv_access srv')) (userid u') = Some u' \<and>
     get_userid (sessions_of (srv_access srv')) (SessionId 8) = Some (userid u') \<and>
     ''admin'' \<in> set (user_roles u')"
proof
  fix b
  obtain srv' r where run: "reply_login (\<lambda>_. ''7'') (\<lambda>_. None) True ''localhost'' good_storage good_storage 200 8
      None (Some (answer_for ''bob'' b)) (bob_server b) = Some (srv', Inr r)"
    using bob_logs_in by blast
  from login_starts_session [OF run bob_named] obtain u' where
    u': "map_of (users_of (srv_access srv')) (userid u') = Some u'"
      "get_userid (sessions_of (srv_access srv')) (SessionId 8) = Some (userid u')"
      "set (user_roles (bob_user b)) \<subseteq> set (user_roles u')"
    using bob_found [of b b] by (auto simp: Let_def bob_user_def split: if_splits)
  then show "\<exists>srv' r u'. reply_login (\<lambda>_. ''7'') (\<lambda>_. None) True ''localhost'' good_storage good_storage 200 8
       None (Some (answer_for ''bob'' b)) (bob_server b) = Some (srv', Inr r) \<and>
     map_of (users_of (srv_access srv')) (userid u') = Some u' \<and>
     get_userid (sessions_of (srv_access srv')) (SessionId 8) = Some (userid u') \<and>
     ''admin'' \<in> set (user_roles u')"
    by (intro exI [of _ srv'] exI [of _ r] exI [of _ u']) (use run in \<open>auto simp: bob_user_def\<close>)
qed

text \<open>Bob's provider now gives his name; he becomes a member of the staff.\<close>

definition named_answer :: "bearer \<Rightarrow> token_answer" where
  "named_answer b = \<lparr>ta_groups = None, ta_info = (oauth_info bob_oauth)\<lparr>ui_name := Some ''Bob''\<rparr>, ta_bearer = b\<rparr>"

lemma bob_named_found:
  "find_existing_user (srv_access (bob_server b)) (ta_info (named_answer b')) = Some (bob_user b)"
  by (simp add: find_existing_user_def named_answer_def bob_oauth_def get_oauth_user_def bob_server_def bob_access_def
      users_of_def bob_directory_def is_oauth_def bob_user_def)

lemma bob_logs_in_again:
  "\<exists>srv' r. reply_login (\<lambda>_. ''7'') (\<lambda>_. None) True ''localhost'' good_storage good_storage 200 8 None
     (Some (named_answer b')) (bob_server b) = Some (srv', Inr r)"
proof -
  have "\<exists>srv1 u'. login_user good_storage ''bob'' [] (srv_metadata (bob_server b)) (ta_info (named_answer b')) b'
      (bob_server b) = Some (srv1, Inr u')"
    by (simp add: login_user_def bob_named_found update_user_if_changed_def Let_def get_metadata_def good_storage_def
        store_then_def put_metadata_def bob_user_def)
  then show ?thesis
    by (auto simp: reply_login_def named_answer_def username_of_info_def bob_oauth_def claimed_groups_def
        get_metadata_def good_storage_def)
qed

theorem login_joins_every_group_witness:
  "userids (group_users staff) = [] \<and>
   (\<forall>b. \<exists>srv' r uid. reply_login (\<lambda>_. ''7'') (\<lambda>_. None) True ''localhost'' good_storage good_storage 200 8
       None (Some (named_answer b)) (bob_server b) = Some (srv', Inr r) \<and>
     get_userid (sessions_of (srv_access srv')) (SessionId 8) = Some uid \<and>
      list_all (\<lambda>g. uid \<in> set (userids (group_users g))) (md_user_groups (srv_metadata srv')))"
proof (intro conjI allI)
  show "userids (group_users staff) = []" by (simp add: staff_def userids_def)
  fix b
  obtain srv' r where run: "reply_login (\<lambda>_. ''7'') (\<lambda>_. None) True ''localhost'' good_storage good_storage 200 8
      None (Some (named_answer b)) (bob_server b) = Some (srv', Inr r)"
    using bob_logs_in_again by blast
  have "user_ty (bob_user b) = OAuth (bob_oauth\<lparr>oauth_bearer := Some b\<rparr>)" by (simp add: bob_user_def)
  note again = login_joins_every_group [OF run bob_named_found this]
  have "oauth_bearer (bob_oauth\<lparr>oauth_bearer := Some b\<rparr>) = Some b"
    "oauth_info (bob_oauth\<lparr>oauth_bearer := Some b\<rparr>) \<noteq> ta_info (named_answer b) \<or> b \<noteq> ta_bearer (named_answer b)"
    "userid (bob_user b) \<in> userid ` set (md_users (srv_metadata (bob_server b)))"
    by (simp_all add: bob_oauth_def named_answer_def bob_server_def bob_user_def userid_def)
  from again [OF this] obtain uid where
    "get_userid (sessions_of (srv_access srv')) (SessionId 8) = Some uid"
    "\<forall>g \<in> set (md_user_groups (srv_metadata srv')). uid \<in> set (userids (group_users g))"
    by auto
  then show "\<exists>srv' r uid. reply_login (\<lambda>_. ''7'') (\<lambda>_. None) True ''localhost'' good_storage good_storage 200 8
       None (Some (named_answer b)) (bob_server b) = Some (srv', Inr r) \<and>
     get_userid (sessions_of (srv_access srv')) (SessionId 8) = Some uid \<and>
      list_all (\<lambda>g. uid \<in> set (userids (group_users g))) (md_user_groups (srv_metadata srv'))"
    by (intro exI [of _ srv'] exI [of _ r] exI [of _ uid]) (use run in \<open>auto simp: list_all_iff\<close>)
qed

text \<open>A server whose only user is native.\<close>

definition native_server :: server where
  "native_server =
     \<lparr>srv_access = bob_access bob_native,
      srv_metadata = \<lparr>md_users = [bob_native], md_user_groups = [], md_roles = [(''admin'', [Admin])],
        md_default_role = None\<rparr>\<rparr>"

theorem provider_login_as_native_user_witness:
  "\<forall>b. \<exists>srv' r. reply_login (\<lambda>_. ''7'') (\<lambda>_. None) True ''localhost'' good_storage good_storage 200 8
       None (Some (answer_for ''bob'' b)) native_server = Some (srv', Inr r) \<and>
     get_userid (sessions_of (srv_access srv')) (SessionId 8) = Some ''bob'' \<and>
     session_permissions (sessions_of (srv_access srv')) (SessionId 8) =
       Some (roles_to_permission (dir_roles (dir_of srv')) [''admin''])"
proof
  fix b
  have none: "find_existing_user (srv_access native_server) (ta_info (answer_for ''bob'' b)) = None"
    by (simp add: find_existing_user_def answer_for_def bob_oauth_def get_oauth_user_def native_server_def
        bob_access_def users_of_def bob_directory_def is_oauth_def bob_native_def)
  have stored: "stored_user (srv_metadata native_server) ''bob'' = Some bob_native"
    by (simp add: stored_user_def native_server_def bob_native_def userid_def)
  have "\<exists>srv1 u'. login_user good_storage ''bob'' [] (srv_metadata native_server) (ta_info (answer_for ''bob'' b)) b
      native_server = Some (srv1, Inr u')"
    by (simp add: login_user_def none oidc_put_user_def find_or_push_def stored Let_def get_metadata_def
        good_storage_def store_then_def put_metadata_def)
  then obtain srv' r where run: "reply_login (\<lambda>_. ''7'') (\<lambda>_. None) True ''localhost'' good_storage good_storage
      200 8 None (Some (answer_for ''bob'' b)) native_server = Some (srv', Inr r)"
    by (auto simp: reply_login_def answer_for_def username_of_info_def bob_oauth_def claimed_groups_def
        get_metadata_def good_storage_def)
  have "ui_sub (ta_info (answer_for ''bob'' b)) = Some ''bob''" by (simp add: answer_for_def)
  from provider_login_as_native_user [OF run none this stored]
  show "\<exists>srv' r. reply_login (\<lambda>_. ''7'') (\<lambda>_. None) True ''localhost'' good_storage good_storage 200 8
       None (Some (answer_for ''bob'' b)) native_server = Some (srv', Inr r) \<and>
     get_userid (sessions_of (srv_access srv')) (SessionId 8) = Some ''bob'' \<and>
     session_permissions (sessions_of (srv_access srv')) (SessionId 8) =
       Some (roles_to_permission (dir_roles (dir_of srv')) [''admin''])"
    by (intro exI [of _ srv'] exI [of _ r]) (use run in \<open>auto simp: bob_native_def\<close>)
qed

end
