(* ===== verification/Spec2Isabelle.thy ===== *)
theory Spec2Isabelle
  imports Ingest_Json Strict_Json Time_Prefix Rbac_Handlers Query_Counts Retention Hot_Tier Alert_Tasks
    Event_Format Staging_Proofs Stream_Registry Migration Server_Metadata Ingest_Handlers
    Otel_Logs Otel_Traces Otel_Metrics Dashboards Correlations Upload
    Metastore Storage_Extent Oidc_Login
begin

text \<open>
  A verification library for the log server in \<open>src/\<close>. The server takes JSON events over HTTP,
  flattens them, stages them as Arrow files, turns these into Parquet files in an object store and
  lists them in a catalog; queries read the catalog and the staged files; users, roles and sessions
  decide who may do what; retention removes old days; alerts run queries and notify targets.

  \<^bold>\<open>Theories and the code they model\<close>

  \<^item> \<open>Prelude\<close>, \<open>Json\<close>, \<open>Chrono\<close>: results as sums, strings, insertion ordered maps, two store
    interfaces as locales; \<open>serde_json\<close> values; UTC times as nanoseconds.
  \<^item> Ingest: \<open>Flatten\<close> and \<open>Generic_Flatten\<close> (\<open>utils/json/flatten.rs\<close>), \<open>Log_Source\<close>
    (\<open>event/format/mod.rs\<close>), \<open>Ingest_Json\<close> (\<open>utils/json/mod.rs\<close>), \<open>Strict_Json\<close>
    (\<open>utils/json/strict.rs\<close>). The path of a request body is \<open>convert_array_to_object\<close>, which calls
    the generic flattening and then \<open>flatten\<close>, as the code does.
  \<^item> Events and staging: \<open>Event_Schema\<close> (\<open>utils/arrow/mod.rs\<close>, \<open>static_schema.rs\<close>, the key of a
    schema in \<open>event/mod.rs\<close>), \<open>Event_Format\<close> (\<open>event/format/json.rs\<close>, \<open>event/format/mod.rs\<close>),
    \<open>Staging\<close> (\<open>parseable/streams.rs\<close>, \<open>parseable/staging/writer.rs\<close>, \<open>reader.rs\<close>) and
    \<open>Staging_Proofs\<close>, its properties. Flattened rows become a record batch; batches are pushed into
    memory and arrow files, which a cycle of flush and conversion turns into parquet files.
  \<^item> Streams: \<open>Stream_Registry\<close> (\<open>parseable/mod.rs\<close>, \<open>metadata.rs\<close>): the streams in memory, their
    \<open>stream.json\<close>, and the requests that create, load and alter them.
  \<^item> Requests that ingest: \<open>Known_Formats\<close> (\<open>event/format/known_schema.rs\<close>, \<open>handlers/http/kinesis.rs\<close>, the
    custom fields of \<open>ingest_utils.rs\<close>) and \<open>Ingest_Handlers\<close> (\<open>handlers/http/ingest.rs\<close>,
    \<open>ingest_utils.rs\<close>, \<open>event/mod.rs\<close>), which composes the flattening, the event formats, the staging and
    the registry on the state of a node.
  \<^item> OpenTelemetry: \<open>Otel_Values\<close> (\<open>otel/otel_utils.rs\<close>), \<open>Otel_Logs\<close>, \<open>Otel_Traces\<close>, \<open>Otel_Metrics\<close>
    (\<open>otel/logs.rs\<close>, \<open>traces.rs\<close>, \<open>metrics.rs\<close>): messages become rows; \<open>Ingest_Handlers\<close> takes the
    decoding with this conversion as a parameter.
  \<^item> Object store and metadata: \<open>Object_Store\<close> (the trait of \<open>storage/object_storage.rs\<close> as a record of
    operations with its contract as a locale, and \<open>storage/localfs.rs\<close> as a tree of files and directories
    that interprets it), \<open>Metastore\<close> (\<open>metastore/metastores/object_store_metastore.rs\<close>: each document
    at a path of its own, on any store), \<open>Storage_Extent\<close> (the first and the latest event of a stream from
    its directories), and \<open>Upload\<close> (\<open>storage/object_storage.rs\<close>): a run sends the staged parquet files,
    removes them, and brings the snapshot (\<open>Catalog\<close>), the counters (\<open>Stats\<close>) and the stored schema up
    to date.
  \<^item> What users save: \<open>Owned_Objects\<close>, the interface that the tables share, \<open>Dashboards\<close>
    (\<open>users/dashboards.rs\<close>, \<open>handlers/http/users/dashboards.rs\<close>), \<open>Filters\<close> (\<open>users/filters.rs\<close>,
    \<open>handlers/http/users/filters.rs\<close>), \<open>Correlations\<close> (\<open>correlation.rs\<close>,
    \<open>handlers/http/correlation.rs\<close>).
  \<^item> Start of the server: \<open>Server_Metadata\<close> (\<open>storage/store_metadata.rs\<close>) and \<open>Migration\<close>
    (\<open>migration/*.rs\<close>), on the stored documents as JSON values.
  \<^item> Time: \<open>Time_Prefix\<close> (\<open>utils/time.rs\<close> and the names of data files): the prefixes of a time range
    and the path a file gets are related, as listing depends on both.
  \<^item> Access: \<open>Roles\<close> (\<open>rbac/role.rs\<close>), \<open>Users\<close> (\<open>rbac/user.rs\<close>), \<open>Sessions\<close>
    (\<open>rbac/map.rs\<close>), \<open>Access\<close> (\<open>rbac/mod.rs\<close>, the dataset check of \<open>utils/mod.rs\<close>),
    \<open>Rbac_Handlers\<close> (\<open>handlers/http/rbac.rs\<close>, \<open>role.rs\<close>) with the stored metadata,
    \<open>Validator\<close> and \<open>Human_Size\<close>. \<open>Middleware\<close> (\<open>handlers/http/middleware.rs\<close>, \<open>utils/actix.rs\<close>) is
    what every request passes before its handler, in the two parts that the code runs at different
    times; \<open>Oidc_Login\<close> (\<open>handlers/http/oidc.rs\<close>) is login and logout. The identity provider is a record
    of its answers.
  \<^item> Catalog and queries: \<open>Catalog\<close> (\<open>catalog/*.rs\<close>), \<open>Query_Pruning\<close>
    (\<open>query/stream_schema_provider.rs\<close>, \<open>query/listing_table_builder.rs\<close>), \<open>Query_Counts\<close>
    (\<open>query/mod.rs\<close>).
  \<^item> Statistics and retention: \<open>Stats\<close> (\<open>stats.rs\<close>, \<open>metadata.rs\<close>, \<open>metrics/mod.rs\<close>) and
    \<open>Retention\<close> (\<open>storage/retention.rs\<close>, \<open>remove_manifest_from_snapshot\<close>, and the request for a clean-up
    that it sends to the live ingestors, with their handler); \<open>Hot_Tier\<close>
    (\<open>hottier.rs\<close>): the copies of recent files on the disk of a query node and their account.
  \<^item> Alerts: \<open>Alert_Conditions\<close> (\<open>alerts/alerts_utils.rs\<close>), \<open>Alert_State\<close> (the stored history and
    the time to recovery), \<open>Alert_Targets\<close> (\<open>alerts/target.rs\<close>), \<open>Alert_Config\<close>
    (\<open>alerts/alert_structs.rs\<close> and the listing), \<open>Alert_Manager\<close> (\<open>alerts/mod.rs\<close>,
    \<open>alert_types.rs\<close>, \<open>handlers/http/alerts.rs\<close>, \<open>alert_runtime\<close> of \<open>sync.rs\<close>), and
    \<open>Alert_Tasks\<close>, the properties of the last one.

  \<^bold>\<open>State and errors.\<close> A component's shared state is a record, and an operation maps it to the new
  state and a result; an error is \<open>Inl\<close>, a panic is \<open>None\<close> where the code can reach one. Accesses to
  storage are given as flags or functions of an environment record, so that each failure is a branch.
  What runs concurrently is cut at the points where the code gives up its lock: \<open>post_user_begin\<close> and
  \<open>post_user_commit\<close>, \<open>update_state_begin\<close> and \<open>update_state_finish\<close>, and the messages that the
  alert runtime has not yet received.

  \<^bold>\<open>What the lemmas show.\<close>

  \<^item> Flattening is compared with reference definitions (the columns of nested arrays, the spread of
    generic flattening); its errors are characterised and an accepted object gives flat rows.
  \<^item> An event that is accepted has in every column a value that the column's type admits, which is specified
    apart from the code's own check, except for columns of lists, which admit any value that is no array;
    a cycle of flush and
    conversion keeps every row exactly once unless a reader, a writer or a removal fails, or a part file is not
    finished and renamed, and the failures that lose or hide rows have theorems of their own.
  \<^item> Requests on streams keep memory and \<open>stream.json\<close> equal whatever storage does, except for the log
    sources, for requests that race, for the retention of a loaded stream, and for a stream loaded while
    the ingestors' settings cannot be read.
  \<^item> A request that succeeds adds to the staging of its stream exactly the rows of its events, one that
    fails those of the events before the failing one, in the order in which the body is flattened.
  \<^item> Every log record, span event, span link and data point of an OTel message becomes a row whose fields
    are given exactly; the conversion panics exactly on the messages that the theorems name.
  \<^item> A document of an older version is migrated to the current one and stored as the settings type
    writes it, unknown fields dropped; log sources get their new names; a start works with the deployment, users and roles of storage.
  \<^item> A run of the upload loses no file, whichever accesses fail and in every order of its tasks; a file
    that left staging is whole in the store and listed, unless the update of the snapshot failed: then it
    is whole in the store and no later run lists it.
  \<^item> The local drive keeps the contract of a store; what the metastore lists is what was stored, and the
    cases where a listing fails or takes one document for another have theorems.
  \<^item> Filters and correlations in memory are those in storage after every request. Dashboards are loaded
    at a start that may read only some of their files or none: memory holds then a part of storage, and
    all of it when every start read every file. What breaks this, and requests without effect, are
    theorems of their own.
  \<^item> The prefixes of a range cover every file of the range, and no file that holds a matching row is
    pruned from a scan; where the code breaks this (comparisons with other columns, unsigned constants of
    2 to the 63 or more, ranges that end within the first second of a minute), a theorem gives the failure.
  \<^item> The update of a snapshot implements an abstract catalog that is a set of files for each manifest;
    column statistics bound the values they were made of.
  \<^item> The handlers of users and roles keep memory and storage equal, unless only one of the two copies of
    the metadata is written, which a theorem shows to break it; a change of a user or role ends
    the sessions it must, with the exceptions that theorems name.
  \<^item> A request reaches a handler only with credentials whose permissions grant the route's action; how
    sessions expire, are renewed and end, through any sequence of logins, renewals and revocations, and what a provider's login makes of users, roles and groups,
    is stated exactly, with the failures of both.
  \<^item> The counters of a stream add up over its life as 64-bit values, in memory and in the stored statistics
    from which a restart loads them; a run of the retention removes exactly the expired days, from the
    snapshot of the node and of the live ingestors, and from the store when all of these answer; a failed
    one is counted twice.
  \<^item> An alert has an evaluation task exactly when it is enabled, through every sequence of steps; the
    races and failures that break this are theorems of their own. A task ends exactly after four
    failures in a row. Patterns made from values match exactly these values, for ILIKE up to the letters the database takes
    for the same.

  \<^bold>\<open>Bounds.\<close> Flattening recurses over the structure of values and needs no fuel. Integers that the code
  compares with limits are words or are bounded where the limit matters (\<open>u64\<close> sizes, \<open>u32\<close> days,
  \<open>usize\<close> offsets); the gauges of a stream are 64-bit words that wrap around; the other counters are
  natural numbers, and their overflow is not modelled.
  Floating point numbers are reals: rounding, infinities and NaN are not modelled.

  \<^bold>\<open>Not modelled.\<close> Arrow and Parquet data, DataFusion plans beyond the parts that the code inspects, HTTP
  routing and transport between nodes, the Kafka connector, the clients of cloud stores. Password
  hashing, SQL parsing, the text of dates and numbers, and the clock are parameters.
\<close>

end
